(* ===== verification/Prelude.thy ===== *)
theory Prelude
  imports Main
begin

text \<open>
  Shared vocabulary of the development.

  \<^item> Go strings are byte strings, so they are HOL \<open>string\<close>s (lists of 8-bit characters); this
    theory models the functions of the packages \<open>strings\<close> and \<open>time\<close> that the sources call.
  \<^item> A Go \<open>error\<close> that is the only result is an option (\<open>None\<close> is \<open>nil\<close>); a result that may be
    an error is a sum, with the error on the left.
  \<^item> A SQL table is the list of its rows in insertion order. The locale \<open>keyed_table\<close> states what
    a table with a primary key and an upsert statement promises to its clients.
\<close>

named_theorems go_defs \<open>definitions of the modelled Go standard library\<close>

section \<open>Strings\<close>

definition has_prefix :: "string \<Rightarrow> string \<Rightarrow> bool" where
  "has_prefix s p = (take (length p) s = p)"

definition has_suffix :: "string \<Rightarrow> string \<Rightarrow> bool" where
  "has_suffix s p = (length p \<le> length s \<and> drop (length s - length p) s = p)"

definition cut_prefix :: "string \<Rightarrow> string \<Rightarrow> string option" where
  "cut_prefix s p = (if has_prefix s p then Some (drop (length p) s) else None)"

definition trim_suffix :: "string \<Rightarrow> string \<Rightarrow> string" where
  "trim_suffix s p = (if has_suffix s p then take (length s - length p) s else s)"

declare has_prefix_def [go_defs] has_suffix_def [go_defs] cut_prefix_def [go_defs]
  trim_suffix_def [go_defs]

lemma has_prefix_append [simp]: "has_prefix (p @ s) p"
  by (simp add: has_prefix_def)

lemma has_prefix_iff: "has_prefix s p \<longleftrightarrow> (\<exists>t. s = p @ t)"
proof
  assume "has_prefix s p"
  then have "s = p @ drop (length p) s"
    by (metis append_take_drop_id has_prefix_def)
  then show "\<exists>t. s = p @ t" ..
qed (auto simp: has_prefix_def)

lemma cut_prefix_append [simp]: "cut_prefix (p @ s) p = Some s"
  by (simp add: cut_prefix_def)

lemma has_suffix_append [simp]: "has_suffix (s @ p) p"
  by (simp add: has_suffix_def)

lemma trim_suffix_append [simp]: "trim_suffix (s @ p) p = s"
  by (simp add: trim_suffix_def)

text \<open>
  The UTF-8 encodings of the code points that \<open>unicode.IsSpace\<close> accepts. Each starts with a byte
  that never occurs inside another encoded code point, so looking for them byte by byte is what
  decoding code points does.
\<close>

definition ws_encodings :: "string list" where
  "ws_encodings =
     [[CHR 0x09], [CHR 0x0A], [CHR 0x0B], [CHR 0x0C], [CHR 0x0D], [CHR 0x20],
      [CHR 0xC2, CHR 0x85], [CHR 0xC2, CHR 0xA0], [CHR 0xE1, CHR 0x9A, CHR 0x80],
      [CHR 0xE2, CHR 0x80, CHR 0x80], [CHR 0xE2, CHR 0x80, CHR 0x81],
      [CHR 0xE2, CHR 0x80, CHR 0x82], [CHR 0xE2, CHR 0x80, CHR 0x83],
      [CHR 0xE2, CHR 0x80, CHR 0x84], [CHR 0xE2, CHR 0x80, CHR 0x85],
      [CHR 0xE2, CHR 0x80, CHR 0x86], [CHR 0xE2, CHR 0x80, CHR 0x87],
      [CHR 0xE2, CHR 0x80, CHR 0x88], [CHR 0xE2, CHR 0x80, CHR 0x89],
      [CHR 0xE2, CHR 0x80, CHR 0x8A], [CHR 0xE2, CHR 0x80, CHR 0xA8],
      [CHR 0xE2, CHR 0x80, CHR 0xA9], [CHR 0xE2, CHR 0x80, CHR 0xAF],
      [CHR 0xE2, CHR 0x81, CHR 0x9F], [CHR 0xE3, CHR 0x80, CHR 0x80]]"

text \<open>The number of bytes of the white space at the front of a string, 0 if there is none.\<close>

definition ws_front :: "string \<Rightarrow> nat" where
  "ws_front s = (case find (\<lambda>w. has_prefix s w) ws_encodings of None \<Rightarrow> 0 | Some w \<Rightarrow> length w)"

definition ws_back :: "string \<Rightarrow> nat" where
  "ws_back s = (case find (\<lambda>w. has_suffix s w) ws_encodings of None \<Rightarrow> 0 | Some w \<Rightarrow> length w)"

function trim_left :: "string \<Rightarrow> string" where
  "trim_left s = (if s = [] \<or> ws_front s = 0 then s else trim_left (drop (ws_front s) s))"
  by pat_completeness auto
termination by (relation "measure length") auto

function trim_right :: "string \<Rightarrow> string" where
  "trim_right s =
     (if s = [] \<or> ws_back s = 0 then s else trim_right (take (length s - ws_back s) s))"
  by pat_completeness auto
termination by (relation "measure length") auto

declare trim_left.simps [simp del] trim_right.simps [simp del]

definition trim_space :: "string \<Rightarrow> string" where
  "trim_space s = trim_right (trim_left s)"

text \<open>
  \<open>strings.Fields\<close>: the maximal runs of bytes without white space. The second argument collects
  the field being read, in reverse.
\<close>

function fields_from :: "string \<Rightarrow> string \<Rightarrow> string list" where
  "fields_from s acc =
     (if s = [] then (if acc = [] then [] else [rev acc])
      else if ws_front s = 0 then fields_from (tl s) (hd s # acc)
      else (if acc = [] then [] else [rev acc]) @ fields_from (drop (ws_front s) s) [])"
  by pat_completeness auto
termination by (relation "measure (\<lambda>(s, acc). length s)") auto

declare fields_from.simps [simp del]

definition fields :: "string \<Rightarrow> string list" where
  "fields s = fields_from s []"

text \<open>
  \<open>strings.ToLower\<close>, exact for comparing the result with an ASCII string: besides the ASCII
  capitals only U+0130 and U+212A have an ASCII letter as their lower case; every other non-ASCII
  code point stays non-ASCII.
\<close>

definition lower_char :: "char \<Rightarrow> char" where
  "lower_char c =
     (if 65 \<le> (of_char c :: nat) \<and> (of_char c :: nat) \<le> 90 then char_of ((of_char c :: nat) + 32)
      else c)"

function to_lower :: "string \<Rightarrow> string" where
  "to_lower s =
     (if s = [] then []
      else if has_prefix s [CHR 0xC4, CHR 0xB0] then CHR ''i'' # to_lower (drop 2 s)
      else if has_prefix s [CHR 0xE2, CHR 0x84, CHR 0xAA] then CHR ''k'' # to_lower (drop 3 s)
      else lower_char (hd s) # to_lower (tl s))"
  by pat_completeness auto
termination by (relation "measure length") auto

declare to_lower.simps [simp del]

text \<open>The order of Go strings compares bytes.\<close>

fun string_less :: "string \<Rightarrow> string \<Rightarrow> bool" where
  "string_less [] ys = (ys \<noteq> [])"
| "string_less (x # xs) [] = False"
| "string_less (x # xs) (y # ys) =
     ((of_char x :: nat) < of_char y \<or> x = y \<and> string_less xs ys)"

section \<open>Time\<close>

text \<open>
  An instant of \<open>time.Time\<close>, in nanoseconds since the Unix epoch. The zero value of the type is
  January 1, year 1, 00:00:00 UTC, and \<open>IsZero\<close> compares with it.
\<close>

type_synonym gotime = int

definition zero_time :: gotime where
  "zero_time = - 62135596800000000000"

definition is_zero :: "gotime \<Rightarrow> bool" where
  "is_zero t = (t = zero_time)"

definition unix_milli :: "gotime \<Rightarrow> int" where
  "unix_milli t = t div 1000000"

definition time_unix_milli :: "int \<Rightarrow> gotime" where
  "time_unix_milli v = v * 1000000"

declare is_zero_def [go_defs] unix_milli_def [go_defs] time_unix_milli_def [go_defs]

section \<open>Decimal formatting\<close>

text \<open>The verb \<open>%d\<close> of \<open>fmt\<close>.\<close>

fun show_nat :: "nat \<Rightarrow> string" where
  "show_nat n =
     (if n < 10 then [char_of (48 + n)] else show_nat (n div 10) @ [char_of (48 + n mod 10)])"

declare show_nat.simps [simp del]

definition show_int :: "int \<Rightarrow> string" where
  "show_int i = (if i < 0 then ''-'' @ show_nat (nat (- i)) else show_nat (nat i))"

end
