(* ===== verification/Tables.thy ===== *)
theory Tables
  imports Prelude
begin

text \<open>
  SQL tables as lists of rows in insertion order, with the statements the stores use: a lookup by
  primary key (\<open>SELECT ... WHERE id = ?\<close>) and an upsert (\<open>INSERT ... ON CONFLICT(id) DO UPDATE\<close>).
  \<open>merge\<close> is the \<open>DO UPDATE SET\<close> clause: it builds the updated row from the stored row and from
  the values of the rejected insert (\<open>excluded\<close>). The locale \<open>keyed_table\<close> is the interface of a
  table with a primary key; each table of the stores interprets it.
\<close>

named_theorems table_simps \<open>facts about keyed tables\<close>

fun lookup_row :: "('r \<Rightarrow> 'k) \<Rightarrow> 'r list \<Rightarrow> 'k \<Rightarrow> 'r option" where
  "lookup_row key [] k = None"
| "lookup_row key (r # rs) k = (if key r = k then Some r else lookup_row key rs k)"

definition upsert_row :: "('r \<Rightarrow> 'k) \<Rightarrow> ('r \<Rightarrow> 'r \<Rightarrow> 'r) \<Rightarrow> 'r \<Rightarrow> 'r list \<Rightarrow> 'r list" where
  "upsert_row key merge new rows =
     (if key new \<in> set (map key rows)
      then map (\<lambda>r. if key r = key new then merge r new else r) rows
      else rows @ [new])"

text \<open>The row an upsert leaves under the key of the new row.\<close>

definition merged_row :: "('r \<Rightarrow> 'k) \<Rightarrow> ('r \<Rightarrow> 'r \<Rightarrow> 'r) \<Rightarrow> 'r \<Rightarrow> 'r list \<Rightarrow> 'r" where
  "merged_row key merge new rows =
     (case lookup_row key rows (key new) of None \<Rightarrow> new | Some old \<Rightarrow> merge old new)"

definition delete_rows :: "('r \<Rightarrow> bool) \<Rightarrow> 'r list \<Rightarrow> 'r list" where
  "delete_rows P rows = filter (\<lambda>r. \<not> P r) rows"

definition count_rows :: "('r \<Rightarrow> bool) \<Rightarrow> 'r list \<Rightarrow> nat" where
  "count_rows P rows = length (filter P rows)"

text \<open>\<open>COALESCE(MAX(col), 0)\<close> over the selected rows.\<close>

definition max_col :: "('r \<Rightarrow> int) \<Rightarrow> 'r list \<Rightarrow> int" where
  "max_col col rows = (case rows of [] \<Rightarrow> 0 | r # rs \<Rightarrow> fold max (map col rs) (col r))"

lemma lookup_row_None [table_simps]: "lookup_row key rows k = None \<longleftrightarrow> k \<notin> key ` set rows"
  by (induction rows) auto

lemma lookup_row_Some: "lookup_row key rows k = Some r \<Longrightarrow> r \<in> set rows \<and> key r = k"
  by (induction rows) (auto split: if_splits)

lemma lookup_row_append:
  "lookup_row key (xs @ ys) k =
     (case lookup_row key xs k of None \<Rightarrow> lookup_row key ys k | Some r \<Rightarrow> Some r)"
  by (induction xs) auto

lemma lookup_row_unique:
  assumes "distinct (map key rows)" and "r \<in> set rows"
  shows "lookup_row key rows (key r) = Some r"
  using assms by (induction rows) (auto simp: image_iff)

lemma lookup_row_map:
  assumes "\<And>r. key (f r) = key r"
  shows "lookup_row key (map f rows) k = map_option f (lookup_row key rows k)"
  using assms by (induction rows) auto

lemma max_col_Max: "max_col col rows = (if rows = [] then 0 else Max (col ` set rows))"
  by (cases rows) (simp_all add: max_col_def Max.set_eq_fold [symmetric])

lemma max_col_ge: "r \<in> set rows \<Longrightarrow> col r \<le> max_col col rows"
  by (auto simp: max_col_Max)

lemma max_col_upto: "map col rows = [1..int (length rows)] \<Longrightarrow> max_col col rows = int (length rows)"
proof (cases "rows = []")
  case False
  assume eq: "map col rows = [1..int (length rows)]"
  then have "col ` set rows = {1..int (length rows)}"
    by (metis set_map set_upto)
  moreover have "Max {1..int (length rows)} = int (length rows)"
    using False by (intro Max_eqI) (auto simp: Suc_le_eq)
  ultimately show ?thesis
    using False by (simp add: max_col_Max)
qed (simp add: max_col_def)

locale keyed_table =
  fixes key :: "'r \<Rightarrow> 'k"
    and merge :: "'r \<Rightarrow> 'r \<Rightarrow> 'r"
  assumes merge_key: "key old = key new \<Longrightarrow> key (merge old new) = key new"
begin

lemma key_merged_row: "key (merged_row key merge new rows) = key new"
  using lookup_row_Some [of key rows "key new"] merge_key
  by (auto simp: merged_row_def split: option.split)

lemma lookup_upsert:
  "lookup_row key (upsert_row key merge new rows) k =
     (if k = key new then Some (merged_row key merge new rows) else lookup_row key rows k)"
proof (cases "key new \<in> set (map key rows)")
  case True
  have "lookup_row key (map (\<lambda>r. if key r = key new then merge r new else r) rows) k =
      (if k = key new then map_option (\<lambda>r. merge r new) (lookup_row key rows k)
       else lookup_row key rows k)"
    by (induction rows) (auto simp: merge_key)
  moreover obtain old where "lookup_row key rows (key new) = Some old"
    using True lookup_row_None [of key rows "key new"] by auto
  ultimately show ?thesis
    using True by (auto simp: upsert_row_def merged_row_def)
next
  case False
  then have "lookup_row key rows (key new) = None"
    by (simp add: lookup_row_None)
  with False show ?thesis
    by (auto simp: upsert_row_def merged_row_def lookup_row_append split: option.split)
qed

lemma map_key_upsert:
  "map key (upsert_row key merge new rows) =
     (if key new \<in> key ` set rows then map key rows else map key rows @ [key new])"
  by (auto simp: upsert_row_def merge_key)

lemma keys_upsert: "key ` set (upsert_row key merge new rows) = insert (key new) (key ` set rows)"
proof -
  have "key ` set (upsert_row key merge new rows) = set (map key (upsert_row key merge new rows))"
    by simp
  also have "\<dots> = insert (key new) (key ` set rows)"
    unfolding map_key_upsert by auto
  finally show ?thesis .
qed

lemma distinct_upsert:
  "distinct (map key rows) \<Longrightarrow> distinct (map key (upsert_row key merge new rows))"
  unfolding map_key_upsert by auto

lemma set_upsert:
  assumes "distinct (map key rows)"
  shows "set (upsert_row key merge new rows) =
    insert (merged_row key merge new rows) {r \<in> set rows. key r \<noteq> key new}"
proof (rule set_eqI)
  fix r
  have dist: "distinct (map key (upsert_row key merge new rows))"
    using assms by (rule distinct_upsert)
  have mem: "r \<in> set rs \<longleftrightarrow> lookup_row key rs (key r) = Some r" if "distinct (map key rs)" for rs
    using that lookup_row_unique lookup_row_Some by metis
  show "r \<in> set (upsert_row key merge new rows) \<longleftrightarrow>
      r \<in> insert (merged_row key merge new rows) {r \<in> set rows. key r \<noteq> key new}"
    unfolding mem [OF dist] lookup_upsert
    using mem [OF assms] key_merged_row [of new rows] by auto
qed

lemma upsert_all:
  assumes "distinct (map key rows)" and "\<And>r. r \<in> set rows \<Longrightarrow> P r"
    and "P (merged_row key merge new rows)"
  shows "\<forall>r \<in> set (upsert_row key merge new rows). P r"
  using assms by (simp add: set_upsert)

end

end
