(* ===== verification/RuntimeTypes.thy ===== *)
theory RuntimeTypes
  imports Tables
begin

text \<open>
  The entities of the runtime store, \<open>internal/runtime/entities.go\<close>: identifier prefixes, the
  string-valued enumerations, one record per entity, the journal streams, the timestamp encoding
  and the identifier checks. A Go enumeration such as \<open>type RunStatus string\<close> may hold any
  string, so it is a synonym of \<open>string\<close> and its constants are strings; what is outside the
  enumeration is rejected by the code (\<open>valid\<close>) or by the schema, not by the type.
\<close>

section \<open>Identifiers and enumerations\<close>

abbreviation idProject :: string where "idProject \<equiv> ''prj_''"
abbreviation idSession :: string where "idSession \<equiv> ''ses_''"
abbreviation idRun :: string where "idRun \<equiv> ''run_''"
abbreviation idProviderSession :: string where "idProviderSession \<equiv> ''psn_''"
abbreviation idComputerSession :: string where "idComputerSession \<equiv> ''cmp_''"
abbreviation idArtifact :: string where "idArtifact \<equiv> ''art_''"

type_synonym CallerClass = string

definition CallerClasses :: "CallerClass list" where
  "CallerClasses = [''remote_ai'', ''local_ui'', ''local_mcp'', ''agent_internal'']"

type_synonym SessionStatus = string

abbreviation SessionOpen :: SessionStatus where "SessionOpen \<equiv> ''open''"

definition SessionStatuses :: "SessionStatus list" where
  "SessionStatuses = [SessionOpen, ''archived'']"

type_synonym RunStatus = string

abbreviation RunQueued :: RunStatus where "RunQueued \<equiv> ''queued''"
abbreviation RunRunning :: RunStatus where "RunRunning \<equiv> ''running''"
abbreviation RunCompleted :: RunStatus where "RunCompleted \<equiv> ''completed''"
abbreviation RunFailed :: RunStatus where "RunFailed \<equiv> ''failed''"
abbreviation RunCancelled :: RunStatus where "RunCancelled \<equiv> ''cancelled''"
abbreviation RunTimeout :: RunStatus where "RunTimeout \<equiv> ''timeout''"
abbreviation RunInterrupted :: RunStatus where "RunInterrupted \<equiv> ''interrupted''"

definition RunStatuses :: "RunStatus list" where
  "RunStatuses =
     [RunQueued, RunRunning, RunCompleted, RunFailed, RunCancelled, RunTimeout, RunInterrupted]"

definition RunStatus_Terminal :: "RunStatus \<Rightarrow> bool" where
  "RunStatus_Terminal s =
     (s \<in> set [RunCompleted, RunFailed, RunCancelled, RunTimeout, RunInterrupted])"

definition RunStatus_valid :: "RunStatus \<Rightarrow> bool" where
  "RunStatus_valid s =
     (s \<in> set [RunQueued, RunRunning, RunCompleted, RunFailed, RunCancelled, RunTimeout,
       RunInterrupted])"

type_synonym RunKind = string

definition RunKinds :: "RunKind list" where
  "RunKinds = [''agent'', ''cloud'']"

type_synonym ComputerSessionState = string

definition ComputerSessionStates :: "ComputerSessionState list" where
  "ComputerSessionStates = [''starting'', ''active'', ''suspended'', ''closed'', ''failed'']"

type_synonym ControllerKind = string

abbreviation ControllerAgent :: ControllerKind where "ControllerAgent \<equiv> ''agent''"
abbreviation ControllerHuman :: ControllerKind where "ControllerHuman \<equiv> ''human''"
abbreviation ControllerNone :: ControllerKind where "ControllerNone \<equiv> ''none''"

definition ControllerKinds :: "ControllerKind list" where
  "ControllerKinds = [ControllerAgent, ControllerHuman, ControllerNone]"

type_synonym ControllerChannel = string

abbreviation (input) ChannelNone :: ControllerChannel where "ChannelNone \<equiv> ''''"
abbreviation ChannelLocal :: ControllerChannel where "ChannelLocal \<equiv> ''local''"
abbreviation ChannelRemote :: ControllerChannel where "ChannelRemote \<equiv> ''remote''"

definition ControllerChannels :: "ControllerChannel list" where
  "ControllerChannels = [ChannelNone, ChannelLocal, ChannelRemote]"

type_synonym EventSource = string

abbreviation SourceRuntime :: EventSource where "SourceRuntime \<equiv> ''runtime''"

definition EventSources :: "EventSource list" where
  "EventSources = [''bridge'', SourceRuntime, ''agent'', ''computer'', ''policy'', ''system'']"

type_synonym PolicyEffect = string

definition PolicyEffects :: "PolicyEffect list" where
  "PolicyEffects = [''allow'', ''deny'', ''ask'']"

type_synonym GrantScope = string

abbreviation ScopeOnce :: GrantScope where "ScopeOnce \<equiv> ''once''"
abbreviation ScopeSession :: GrantScope where "ScopeSession \<equiv> ''session''"
abbreviation ScopeProject :: GrantScope where "ScopeProject \<equiv> ''project''"
abbreviation ScopeAlways :: GrantScope where "ScopeAlways \<equiv> ''always''"

definition GrantScopes :: "GrantScope list" where
  "GrantScopes = [ScopeOnce, ScopeSession, ScopeProject, ScopeAlways]"

type_synonym ApprovalChannel = string

abbreviation ApprovalLocalUI :: ApprovalChannel where "ApprovalLocalUI \<equiv> ''local_ui''"
abbreviation ApprovalRemoteHuman :: ApprovalChannel where "ApprovalRemoteHuman \<equiv> ''remote_human''"

definition ApprovalChannels :: "ApprovalChannel list" where
  "ApprovalChannels = [ApprovalLocalUI, ApprovalRemoteHuman]"

type_synonym ApprovalStatus = string

definition ApprovalStatuses :: "ApprovalStatus list" where
  "ApprovalStatuses = [''pending'', ''approved'', ''denied'', ''expired'']"

type_synonym Verb = string

abbreviation VerbCloudUpload :: Verb where "VerbCloudUpload \<equiv> ''cloud.upload''"
abbreviation VerbSecretRead :: Verb where "VerbSecretRead \<equiv> ''secret.read''"

type_synonym ArtifactKind = string

definition ArtifactKinds :: "ArtifactKind list" where
  "ArtifactKinds =
     [''file'', ''patch'', ''commit'', ''branch_ref'', ''report'', ''test_result'',
      ''log_bundle'', ''cloud_result'', ''saved_screenshot'']"

type_synonym ProducerKind = string

definition ProducerKinds :: "ProducerKind list" where
  "ProducerKinds = [''run'', ''computer_session'']"

lemmas enum_defs = CallerClasses_def SessionStatuses_def RunStatuses_def RunKinds_def
  ComputerSessionStates_def ControllerKinds_def ControllerChannels_def EventSources_def
  PolicyEffects_def GrantScopes_def ApprovalChannels_def ApprovalStatuses_def ArtifactKinds_def
  ProducerKinds_def

section \<open>Journal streams\<close>

abbreviation streamRunPrefix :: string where "streamRunPrefix \<equiv> ''run:''"
abbreviation streamComputerPrefix :: string where "streamComputerPrefix \<equiv> ''computer:''"
abbreviation streamSessionPrefix :: string where "streamSessionPrefix \<equiv> ''session:''"

definition StreamRun :: "string \<Rightarrow> string" where
  "StreamRun i = streamRunPrefix @ i"

definition StreamComputer :: "string \<Rightarrow> string" where
  "StreamComputer i = streamComputerPrefix @ i"

definition StreamSession :: "string \<Rightarrow> string" where
  "StreamSession i = streamSessionPrefix @ i"

text \<open>The Go function returns the id and whether there is one.\<close>

definition runIDFromStream :: "string \<Rightarrow> string option" where
  "runIDFromStream stream =
     (case cut_prefix stream streamRunPrefix of
        None \<Rightarrow> None
      | Some i \<Rightarrow> if i \<noteq> [] then Some i else None)"

lemma runIDFromStream_StreamRun [simp]: "i \<noteq> [] \<Longrightarrow> runIDFromStream (StreamRun i) = Some i"
  by (simp add: runIDFromStream_def StreamRun_def del: append.simps append_Cons)

lemma runIDFromStream_Some: "runIDFromStream s = Some i \<Longrightarrow> s = StreamRun i \<and> i \<noteq> []"
  unfolding runIDFromStream_def StreamRun_def cut_prefix_def has_prefix_def
  by (auto split: option.splits if_splits) (metis append_Cons append_Nil append_take_drop_id)

lemma runIDFromStream_StreamComputer [simp]: "runIDFromStream (StreamComputer i) = None"
  by (simp add: runIDFromStream_def StreamComputer_def cut_prefix_def has_prefix_def)

section \<open>Entities\<close>

record ProjectRoot =
  Root_Path :: string
  Root_Writable :: bool

record Project =
  Project_ID :: string
  Project_Name :: string
  Project_Roots :: "ProjectRoot list"
  Project_SensitivePaths :: "string list"
  Project_CreatedAt :: gotime
  Project_UpdatedAt :: gotime

record Session =
  Session_ID :: string
  Session_ProjectID :: string
  Session_Title :: string
  Session_CallerClass :: CallerClass
  Session_ExternalConversation :: string
  Session_Status :: SessionStatus
  Session_CreatedAt :: gotime
  Session_UpdatedAt :: gotime

record Run =
  Run_ID :: string
  Run_SessionID :: string
  Run_ProjectID :: string
  Run_Kind :: RunKind
  Run_Provider :: string
  Run_Model :: string
  Run_Autonomy :: string
  Run_Role :: string
  Run_ParentRunID :: string
  Run_ContinuesRunID :: string
  Run_ProviderSessionID :: string
  Run_Status :: RunStatus
  Run_ProcessPID :: int
  Run_ProcessStartedAt :: gotime
  Run_ProcessGroupID :: int
  Run_OutputRef :: string
  Run_ErrorCategory :: string
  Run_LastSeq :: int
  Run_CreatedAt :: gotime
  Run_StartedAt :: gotime
  Run_FinishedAt :: gotime

record ProviderSession =
  PSession_ID :: string
  PSession_Provider :: string
  PSession_NativeID :: string
  PSession_Locator :: string
  PSession_ProjectID :: string
  PSession_CanResume :: bool
  PSession_CanHistory :: bool
  PSession_CreatedAt :: gotime
  PSession_UpdatedAt :: gotime

record Controller =
  Controller_Kind :: ControllerKind
  Controller_Holder :: string
  Controller_Channel :: ControllerChannel

record ComputerSession =
  CSession_ID :: string
  CSession_SessionID :: string
  CSession_RunID :: string
  CSession_Target :: string
  CSession_State :: ComputerSessionState
  CSession_Controller :: Controller
  CSession_ControllerEpoch :: int
  CSession_ArbiterInstance :: string
  CSession_LeaseHolder :: string
  CSession_LeaseExpiresAt :: gotime
  CSession_CanObserve :: bool
  CSession_CanInput :: bool
  CSession_CanPreview :: bool
  CSession_GrantedVerbs :: "Verb list"
  CSession_AppSelectors :: "string list"
  CSession_LastFrameID :: string
  CSession_GeometryGeneration :: int
  CSession_CreatedAt :: gotime
  CSession_UpdatedAt :: gotime

record Artifact =
  Artifact_ID :: string
  Artifact_ProducerKind :: ProducerKind
  Artifact_ProducerID :: string
  Artifact_Kind :: ArtifactKind
  Artifact_Reference :: string
  Artifact_Digest :: string
  Artifact_SizeBytes :: int
  Artifact_Sensitivity :: string
  Artifact_Retention :: string
  Artifact_CreatedAt :: gotime

record PolicyRule =
  Rule_ID :: string
  Rule_Effect :: PolicyEffect
  Rule_Verb :: Verb
  Rule_Selector :: string
  Rule_CreatedAt :: gotime
  Rule_UpdatedAt :: gotime

record Grant =
  Grant_ID :: string
  Grant_Verb :: Verb
  Grant_Selector :: string
  Grant_Scope :: GrantScope
  Grant_SessionID :: string
  Grant_ProjectID :: string
  Grant_RunID :: string
  Grant_ApprovalID :: string
  Grant_Channel :: ApprovalChannel
  Grant_ExpiresAt :: gotime
  Grant_CreatedAt :: gotime
  Grant_RevokedAt :: gotime

record Approval =
  Approval_ID :: string
  Approval_RunID :: string
  Approval_SessionID :: string
  Approval_ProjectID :: string
  Approval_Verb :: Verb
  Approval_Selector :: string
  Approval_Status :: ApprovalStatus
  Approval_Channel :: ApprovalChannel
  Approval_Reason :: string
  Approval_RequestedAt :: gotime
  Approval_DecidedAt :: gotime

record Event =
  Event_Pos :: int
  Event_Stream :: string
  Event_Seq :: int
  Event_At :: gotime
  Event_SessionID :: string
  Event_ProjectID :: string
  Event_Source :: EventSource
  Event_Kind :: string
  Event_TurnRef :: string
  Event_CorrelationID :: string
  Event_Payload :: string
  Event_RawRef :: string

section \<open>Errors\<close>

text \<open>
  One constructor per error value of the package; \<open>ErrSQL\<close> is a statement rejected by a
  constraint of the schema, with the operation named in the wrapped error.
\<close>

datatype store_error =
    ErrIdentifierRequired
  | ErrIdentifierPrefix string string
  | ErrRequired string
  | ErrNotFound string string
  | ErrSQL string
  | ErrUnknownRunStatus string
  | ErrTransitionTimestamp
  | ErrIllegalTransition string string string
  | ErrControllerTimestamp
  | ErrHumanChannel string
  | ErrControllerChannel string string
  | ErrControllerKind string
  | ErrEventGap string int int
  | ErrSchemaNewer int
  | ErrNoMigrationPath int
  | ErrMigrate int
  | ErrBackup
  | ErrBegin
  | ErrCommit

section \<open>Helpers\<close>

fun ValidateContiguous_loop :: "Event list \<Rightarrow> int \<Rightarrow> store_error option" where
  "ValidateContiguous_loop [] want = None"
| "ValidateContiguous_loop (ev # evs) want =
     (if Event_Seq ev \<noteq> want then Some (ErrEventGap (Event_Stream ev) want (Event_Seq ev))
      else ValidateContiguous_loop evs (want + 1))"

definition ValidateContiguous :: "Event list \<Rightarrow> int \<Rightarrow> store_error option" where
  "ValidateContiguous evs afterSeq = ValidateContiguous_loop evs (afterSeq + 1)"

definition ms :: "gotime \<Rightarrow> int" where
  "ms t = (if is_zero t then 0 else unix_milli t)"

definition timeFromMS :: "int \<Rightarrow> gotime" where
  "timeFromMS v = (if v = 0 then zero_time else time_unix_milli v)"

definition boolInt :: "bool \<Rightarrow> int" where
  "boolInt b = (if b then 1 else 0)"

text \<open>An absent optional reference is stored as \<open>NULL\<close> and read back as the empty string.\<close>

definition nullText :: "string \<Rightarrow> string option" where
  "nullText s = (if s = [] then None else Some s)"

definition text_of :: "string option \<Rightarrow> string" where
  "text_of ns = (case ns of Some s \<Rightarrow> s | None \<Rightarrow> [])"

definition checkID :: "string \<Rightarrow> string \<Rightarrow> store_error option" where
  "checkID i p =
     (if i = [] then Some ErrIdentifierRequired
      else if \<not> has_prefix i p then Some (ErrIdentifierPrefix i p)
      else None)"

definition requireText :: "string \<Rightarrow> string \<Rightarrow> store_error option" where
  "requireText label v = (if v = [] then Some (ErrRequired label) else None)"

lemma text_of_nullText [simp]: "text_of (nullText s) = s"
  by (simp add: text_of_def nullText_def)

lemma boolInt_neq_0 [simp]: "boolInt b \<noteq> 0 \<longleftrightarrow> b"
  by (simp add: boolInt_def)

lemma checkID_None: "checkID i p = None \<longleftrightarrow> i \<noteq> [] \<and> has_prefix i p"
  by (simp add: checkID_def)

lemma requireText_None [simp]: "requireText l v = None \<longleftrightarrow> v \<noteq> []"
  by (simp add: requireText_def)

text \<open>What a timestamp is after a round trip through the store: cut to milliseconds.\<close>

definition stored_time :: "gotime \<Rightarrow> gotime" where
  "stored_time t = timeFromMS (ms t)"

lemma stored_time_zero [simp]: "stored_time zero_time = zero_time"
  by (simp add: stored_time_def timeFromMS_def ms_def is_zero_def)

lemma timeFromMS_ms_timeFromMS: "timeFromMS (ms (timeFromMS v)) = timeFromMS v"
  by (auto simp: ms_def timeFromMS_def go_defs zero_time_def)

lemma stored_time_idem [simp]: "stored_time (stored_time t) = stored_time t"
  by (simp add: stored_time_def timeFromMS_ms_timeFromMS)

lemma stored_time_floor:
  assumes "\<not> is_zero t" and "ms t \<noteq> 0"
  shows "stored_time t \<le> t \<and> t < stored_time t + 1000000"
proof -
  have "stored_time t = 1000000 * (t div 1000000)"
    using assms by (simp add: stored_time_def timeFromMS_def ms_def go_defs)
  moreover have "t = 1000000 * (t div 1000000) + t mod 1000000"
    by simp
  moreover have "0 \<le> t mod 1000000 \<and> t mod 1000000 < 1000000"
    by simp
  ultimately show ?thesis by linarith
qed

lemma ValidateContiguous_loop_iff:
  "ValidateContiguous_loop evs w = None \<longleftrightarrow> map Event_Seq evs = [w..w + int (length evs) - 1]"
proof (induction evs arbitrary: w)
  case (Cons e evs)
  show ?case
    by (subst upto.simps) (auto simp: Cons.IH algebra_simps)
qed simp

lemma ValidateContiguous_iff:
  "ValidateContiguous evs a = None \<longleftrightarrow> map Event_Seq evs = [a + 1..a + int (length evs)]"
  by (simp add: ValidateContiguous_def ValidateContiguous_loop_iff)

end
