(* ===== verification/RuntimeSchema.thy ===== *)
theory RuntimeSchema
  imports RuntimeTypes
begin

text \<open>
  The tables of the runtime store (\<open>schema/store/v1/schema.sql\<close>): one row record per table, with
  the columns of the table and \<open>NULL\<close> as \<open>None\<close>, the \<open>CHECK\<close> clauses and foreign keys as boolean
  functions of a row, the unique indexes as boolean functions of a table. \<open>store_db\<close> is the
  database file. The operations never delete a row that another row references, so the
  \<open>ON DELETE\<close> actions of the schema never run.
\<close>

section \<open>Rows\<close>

record project_row =
  prj_id :: string
  prj_name :: string
  prj_created_at :: int
  prj_updated_at :: int

record root_row =
  root_project_id :: string
  root_position :: int
  root_path :: string
  root_writable :: int

record sensitive_row =
  sens_project_id :: string
  sens_position :: int
  sens_pattern :: string

record session_row =
  ses_id :: string
  ses_project_id :: "string option"
  ses_title :: string
  ses_caller_class :: string
  ses_external_conversation :: string
  ses_status :: string
  ses_created_at :: int
  ses_updated_at :: int

record provider_session_row =
  psn_id :: string
  psn_provider :: string
  psn_native_id :: string
  psn_locator :: string
  psn_project_id :: "string option"
  psn_can_resume :: int
  psn_can_history :: int
  psn_created_at :: int
  psn_updated_at :: int

record run_row =
  run_id :: string
  run_session_id :: string
  run_project_id :: "string option"
  run_kind :: string
  run_provider :: string
  run_model :: string
  run_autonomy :: string
  run_role :: string
  run_parent_run_id :: "string option"
  run_continues_run_id :: "string option"
  run_provider_session_id :: "string option"
  run_status :: string
  run_process_pid :: int
  run_process_started_at :: int
  run_process_group_id :: int
  run_output_ref :: string
  run_error_category :: string
  run_last_seq :: int
  run_created_at :: int
  run_started_at :: int
  run_finished_at :: int

record computer_session_row =
  cmp_id :: string
  cmp_session_id :: string
  cmp_run_id :: "string option"
  cmp_target :: string
  cmp_state :: string
  cmp_controller_kind :: string
  cmp_controller_holder :: string
  cmp_controller_channel :: string
  cmp_controller_epoch :: int
  cmp_arbiter_instance :: string
  cmp_lease_holder :: string
  cmp_lease_expires_at :: int
  cmp_can_observe :: int
  cmp_can_input :: int
  cmp_can_preview :: int
  cmp_last_frame_id :: string
  cmp_geometry_generation :: int
  cmp_created_at :: int
  cmp_updated_at :: int

text \<open>The child tables \<open>computer_session_verbs\<close> and \<open>computer_session_apps\<close> have the same shape.\<close>

record child_row =
  child_session_id :: string
  child_position :: int
  child_value :: string

record artifact_row =
  art_id :: string
  art_producer_kind :: string
  art_producer_id :: string
  art_kind :: string
  art_reference :: string
  art_digest :: string
  art_size_bytes :: int
  art_sensitivity :: string
  art_retention :: string
  art_created_at :: int

record policy_rule_row =
  rule_id :: string
  rule_effect :: string
  rule_verb :: string
  rule_selector :: string
  rule_created_at :: int
  rule_updated_at :: int

record approval_row =
  apr_id :: string
  apr_run_id :: "string option"
  apr_session_id :: "string option"
  apr_project_id :: "string option"
  apr_verb :: string
  apr_selector :: string
  apr_status :: string
  apr_channel :: string
  apr_reason :: string
  apr_requested_at :: int
  apr_decided_at :: int

record grant_row =
  grt_id :: string
  grt_verb :: string
  grt_selector :: string
  grt_scope :: string
  grt_session_id :: "string option"
  grt_project_id :: "string option"
  grt_run_id :: "string option"
  grt_approval_id :: "string option"
  grt_channel :: string
  grt_expires_at :: int
  grt_created_at :: int
  grt_revoked_at :: int

record event_row =
  ev_pos :: int
  ev_stream :: string
  ev_seq :: int
  ev_at_ms :: int
  ev_session_id :: string
  ev_project_id :: string
  ev_source :: string
  ev_kind :: string
  ev_turn_ref :: string
  ev_correlation_id :: string
  ev_payload :: string
  ev_raw_ref :: string

section \<open>The database\<close>

text \<open>
  \<open>events_autoinc\<close> is the entry of \<open>sqlite_sequence\<close> for the \<open>AUTOINCREMENT\<close> column \<open>events.pos\<close>:
  the largest position ever given out.
\<close>

record store_db =
  tbl_projects :: "project_row list"
  tbl_project_roots :: "root_row list"
  tbl_project_sensitive_paths :: "sensitive_row list"
  tbl_sessions :: "session_row list"
  tbl_provider_sessions :: "provider_session_row list"
  tbl_runs :: "run_row list"
  tbl_computer_sessions :: "computer_session_row list"
  tbl_computer_session_verbs :: "child_row list"
  tbl_computer_session_apps :: "child_row list"
  tbl_artifacts :: "artifact_row list"
  tbl_policy_rules :: "policy_rule_row list"
  tbl_approvals :: "approval_row list"
  tbl_grants :: "grant_row list"
  tbl_events :: "event_row list"
  events_autoinc :: int

definition empty_db :: store_db where
  "empty_db =
     \<lparr>tbl_projects = [], tbl_project_roots = [], tbl_project_sensitive_paths = [],
      tbl_sessions = [], tbl_provider_sessions = [], tbl_runs = [], tbl_computer_sessions = [],
      tbl_computer_session_verbs = [], tbl_computer_session_apps = [], tbl_artifacts = [],
      tbl_policy_rules = [], tbl_approvals = [], tbl_grants = [], tbl_events = [],
      events_autoinc = 0\<rparr>"

section \<open>Constraints\<close>

text \<open>A foreign key: \<open>NULL\<close> or a key of the parent table.\<close>

definition ref_ok :: "string option \<Rightarrow> string list \<Rightarrow> bool" where
  "ref_ok v keys = (case v of None \<Rightarrow> True | Some k \<Rightarrow> k \<in> set keys)"

abbreviation project_keys :: "store_db \<Rightarrow> string list" where
  "project_keys db \<equiv> map prj_id (tbl_projects db)"

abbreviation session_keys :: "store_db \<Rightarrow> string list" where
  "session_keys db \<equiv> map ses_id (tbl_sessions db)"

abbreviation provider_session_keys :: "store_db \<Rightarrow> string list" where
  "provider_session_keys db \<equiv> map psn_id (tbl_provider_sessions db)"

abbreviation run_keys :: "store_db \<Rightarrow> string list" where
  "run_keys db \<equiv> map run_id (tbl_runs db)"

abbreviation computer_session_keys :: "store_db \<Rightarrow> string list" where
  "computer_session_keys db \<equiv> map cmp_id (tbl_computer_sessions db)"

abbreviation approval_keys :: "store_db \<Rightarrow> string list" where
  "approval_keys db \<equiv> map apr_id (tbl_approvals db)"

definition session_ok :: "store_db \<Rightarrow> session_row \<Rightarrow> bool" where
  "session_ok db r =
     (ses_caller_class r \<in> set CallerClasses \<and> ses_status r \<in> set SessionStatuses \<and>
      ref_ok (ses_project_id r) (project_keys db))"

definition provider_session_ok :: "store_db \<Rightarrow> provider_session_row \<Rightarrow> bool" where
  "provider_session_ok db r = ref_ok (psn_project_id r) (project_keys db)"

definition run_ok :: "store_db \<Rightarrow> run_row \<Rightarrow> bool" where
  "run_ok db r =
     (run_kind r \<in> set RunKinds \<and> run_status r \<in> set RunStatuses \<and>
      run_session_id r \<in> set (session_keys db) \<and>
      ref_ok (run_project_id r) (project_keys db) \<and>
      ref_ok (run_parent_run_id r) (run_keys db) \<and>
      ref_ok (run_continues_run_id r) (run_keys db) \<and>
      ref_ok (run_provider_session_id r) (provider_session_keys db))"

definition computer_session_ok :: "store_db \<Rightarrow> computer_session_row \<Rightarrow> bool" where
  "computer_session_ok db r =
     (cmp_state r \<in> set ComputerSessionStates \<and>
      cmp_controller_kind r \<in> set ControllerKinds \<and>
      cmp_controller_channel r \<in> set ControllerChannels \<and>
      cmp_session_id r \<in> set (session_keys db) \<and> ref_ok (cmp_run_id r) (run_keys db))"

definition artifact_ok :: "store_db \<Rightarrow> artifact_row \<Rightarrow> bool" where
  "artifact_ok db r =
     (art_producer_kind r \<in> set ProducerKinds \<and> art_kind r \<in> set ArtifactKinds)"

definition policy_rule_ok :: "store_db \<Rightarrow> policy_rule_row \<Rightarrow> bool" where
  "policy_rule_ok db r = (rule_effect r \<in> set PolicyEffects)"

definition approval_ok :: "store_db \<Rightarrow> approval_row \<Rightarrow> bool" where
  "approval_ok db r =
     (apr_status r \<in> set ApprovalStatuses \<and> apr_channel r \<in> set ApprovalChannels \<and>
      ref_ok (apr_run_id r) (run_keys db) \<and> ref_ok (apr_session_id r) (session_keys db) \<and>
      ref_ok (apr_project_id r) (project_keys db))"

text \<open>\<open>verb LIKE 'computer.%'\<close>: SQLite's \<open>LIKE\<close> ignores the case of ASCII letters.\<close>

definition like_computer :: "string \<Rightarrow> bool" where
  "like_computer verb = has_prefix (map lower_char verb) ''computer.''"

definition grant_ok :: "store_db \<Rightarrow> grant_row \<Rightarrow> bool" where
  "grant_ok db r =
     (grt_scope r \<in> set GrantScopes \<and> grt_channel r \<in> set ApprovalChannels \<and>
      ref_ok (grt_session_id r) (session_keys db) \<and>
      ref_ok (grt_project_id r) (project_keys db) \<and>
      ref_ok (grt_run_id r) (run_keys db) \<and> ref_ok (grt_approval_id r) (approval_keys db) \<and>
      (grt_scope r \<noteq> ScopeProject \<or> \<not> like_computer (grt_verb r)) \<and>
      (grt_scope r \<noteq> ScopeSession \<or> grt_session_id r \<noteq> None) \<and>
      (grt_channel r \<noteq> ApprovalRemoteHuman \<or>
        grt_scope r \<in> set [ScopeOnce, ScopeSession] \<and>
        grt_verb r \<notin> set [VerbSecretRead, VerbCloudUpload]))"

definition event_ok :: "event_row \<Rightarrow> bool" where
  "event_ok r = (ev_source r \<in> set EventSources)"

text \<open>
  The partial unique indexes \<open>idx_provider_sessions_native\<close> and
  \<open>idx_runs_active_provider_session\<close>.
\<close>

definition unique_native :: "provider_session_row list \<Rightarrow> bool" where
  "unique_native rows =
     distinct (map (\<lambda>r. (psn_provider r, psn_native_id r)) (filter (\<lambda>r. psn_native_id r \<noteq> []) rows))"

definition run_active :: "run_row \<Rightarrow> bool" where
  "run_active r =
     (run_provider_session_id r \<noteq> None \<and> run_status r \<in> set [RunQueued, RunRunning])"

definition unique_active :: "run_row list \<Rightarrow> bool" where
  "unique_active rows = distinct (map run_provider_session_id (filter run_active rows))"

section \<open>Well-formed tables\<close>

definition table_ok :: "('r \<Rightarrow> 'k) \<Rightarrow> ('r \<Rightarrow> bool) \<Rightarrow> 'r list \<Rightarrow> bool" where
  "table_ok key ok rows = (distinct (map key rows) \<and> (\<forall>r \<in> set rows. ok r))"

text \<open>
  A table whose rows are checked against the database. The \<open>DO UPDATE SET\<close> clause keeps only
  columns that no constraint mentions, so a merged row passes the checks exactly if the new row
  does.
\<close>

locale checked_table = keyed_table key merge
  for key :: "'r \<Rightarrow> 'k" and merge :: "'r \<Rightarrow> 'r \<Rightarrow> 'r" +
  fixes ok :: "'d \<Rightarrow> 'r \<Rightarrow> bool"
  assumes ok_merge: "ok d (merge old new) = ok d new"
begin

lemma ok_merged_row: "ok d (merged_row key merge new rows) = ok d new"
  by (simp add: merged_row_def ok_merge split: option.split)

lemma table_ok_upsert:
  assumes "table_ok key (ok d) rows" and "\<And>r. ok d r \<Longrightarrow> ok d' r" and "ok d' new"
  shows "table_ok key (ok d') (upsert_row key merge new rows)"
  unfolding table_ok_def
proof
  show "distinct (map key (upsert_row key merge new rows))"
    using assms(1) by (simp add: table_ok_def distinct_upsert)
  show "\<forall>r \<in> set (upsert_row key merge new rows). ok d' r"
    using assms by (intro upsert_all) (auto simp: table_ok_def ok_merged_row)
qed

end

lemma table_ok_mono: "table_ok key P rows \<Longrightarrow> (\<And>r. P r \<Longrightarrow> Q r) \<Longrightarrow> table_ok key Q rows"
  by (simp add: table_ok_def)

text \<open>No step of the program takes a key away from a table that other tables reference.\<close>

definition keys_grow :: "store_db \<Rightarrow> store_db \<Rightarrow> bool" where
  "keys_grow db db' \<longleftrightarrow>
     set (project_keys db) \<subseteq> set (project_keys db') \<and>
     set (session_keys db) \<subseteq> set (session_keys db') \<and>
     set (provider_session_keys db) \<subseteq> set (provider_session_keys db') \<and>
     set (run_keys db) \<subseteq> set (run_keys db') \<and>
     set (computer_session_keys db) \<subseteq> set (computer_session_keys db') \<and>
     set (approval_keys db) \<subseteq> set (approval_keys db')"

lemma keys_grow_refl [simp]: "keys_grow db db"
  by (simp add: keys_grow_def)

lemma ref_ok_mono: "ref_ok v ks \<Longrightarrow> set ks \<subseteq> set ks' \<Longrightarrow> ref_ok v ks'"
  by (auto simp: ref_ok_def split: option.splits)

lemma session_ok_grow: "keys_grow db db' \<Longrightarrow> session_ok db r \<Longrightarrow> session_ok db' r"
  unfolding session_ok_def keys_grow_def by (blast intro: ref_ok_mono)

lemma provider_session_ok_grow:
  "keys_grow db db' \<Longrightarrow> provider_session_ok db r \<Longrightarrow> provider_session_ok db' r"
  unfolding provider_session_ok_def keys_grow_def by (blast intro: ref_ok_mono)

lemma run_ok_grow: "keys_grow db db' \<Longrightarrow> run_ok db r \<Longrightarrow> run_ok db' r"
  unfolding run_ok_def keys_grow_def by (blast intro: ref_ok_mono)

lemma computer_session_ok_grow:
  "keys_grow db db' \<Longrightarrow> computer_session_ok db r \<Longrightarrow> computer_session_ok db' r"
  unfolding computer_session_ok_def keys_grow_def by (blast intro: ref_ok_mono)

lemma artifact_ok_grow: "keys_grow db db' \<Longrightarrow> artifact_ok db r \<Longrightarrow> artifact_ok db' r"
  by (simp add: artifact_ok_def)

lemma policy_rule_ok_grow: "keys_grow db db' \<Longrightarrow> policy_rule_ok db r \<Longrightarrow> policy_rule_ok db' r"
  by (simp add: policy_rule_ok_def)

lemma approval_ok_grow: "keys_grow db db' \<Longrightarrow> approval_ok db r \<Longrightarrow> approval_ok db' r"
  unfolding approval_ok_def keys_grow_def by (blast intro: ref_ok_mono)

lemma grant_ok_grow: "keys_grow db db' \<Longrightarrow> grant_ok db r \<Longrightarrow> grant_ok db' r"
  unfolding grant_ok_def keys_grow_def by (blast intro: ref_ok_mono)

lemmas ok_grow = session_ok_grow provider_session_ok_grow run_ok_grow computer_session_ok_grow
  artifact_ok_grow policy_rule_ok_grow approval_ok_grow grant_ok_grow

end
