(* ===== verification/ChildTable.thy ===== *)
theory ChildTable
  imports RuntimeSchema
begin

text \<open>
  The ordered child tables (project roots and sensitive paths, computer session verbs and app
  selectors). A putter replaces the whole list: \<open>DELETE ... WHERE parent = ?\<close>, then one
  \<open>INSERT (parent, position, value)\<close> per element; a getter reads it with \<open>ORDER BY position\<close>.
  The primary key is (parent, position) and the parent is a foreign key.
\<close>

fun insert_children ::
  "('r \<Rightarrow> string \<times> int) \<Rightarrow> (int \<Rightarrow> 'v \<Rightarrow> 'r) \<Rightarrow> string list \<Rightarrow> 'r list \<Rightarrow> int \<Rightarrow> 'v list \<Rightarrow> 'r list option"
where
  "insert_children key mk parents rows i [] = Some rows"
| "insert_children key mk parents rows i (v # vs) =
     (if fst (key (mk i v)) \<in> set parents \<and> key (mk i v) \<notin> set (map key rows)
      then insert_children key mk parents (rows @ [mk i v]) (i + 1) vs
      else None)"

definition replace_children ::
  "('r \<Rightarrow> string \<times> int) \<Rightarrow> (string \<Rightarrow> int \<Rightarrow> 'v \<Rightarrow> 'r) \<Rightarrow> string list \<Rightarrow> string \<Rightarrow> 'v list \<Rightarrow>
   'r list \<Rightarrow> 'r list option"
where
  "replace_children key mk parents p vs rows =
     insert_children key (mk p) parents (delete_rows (\<lambda>r. fst (key r) = p) rows) 0 vs"

definition read_children ::
  "('r \<Rightarrow> string \<times> int) \<Rightarrow> ('r \<Rightarrow> 'v) \<Rightarrow> string \<Rightarrow> 'r list \<Rightarrow> 'v list"
where
  "read_children key val p rows =
     map val (sort_key (\<lambda>r. snd (key r)) (filter (\<lambda>r. fst (key r) = p) rows))"

fun child_rows :: "(int \<Rightarrow> 'v \<Rightarrow> 'r) \<Rightarrow> int \<Rightarrow> 'v list \<Rightarrow> 'r list" where
  "child_rows mk i [] = []"
| "child_rows mk i (v # vs) = mk i v # child_rows mk (i + 1) vs"

locale child_table =
  fixes key :: "'r \<Rightarrow> string \<times> int"
    and mk :: "string \<Rightarrow> int \<Rightarrow> 'v \<Rightarrow> 'r"
    and val :: "'r \<Rightarrow> 'v"
  assumes key_mk: "key (mk p i v) = (p, i)"
    and val_mk: "val (mk p i v) = v"
begin

lemma keys_child_rows: "map key (child_rows (mk p) i vs) = map (Pair p) [i..i + int (length vs) - 1]"
proof (induction vs arbitrary: i)
  case (Cons v vs)
  show ?case
    by (subst upto.simps) (simp add: Cons.IH key_mk algebra_simps)
qed simp

lemma vals_child_rows: "map val (child_rows (mk p) i vs) = vs"
  by (induction vs arbitrary: i) (simp_all add: val_mk)

lemma parent_child_rows: "r \<in> set (child_rows (mk p) i vs) \<Longrightarrow> fst (key r) = p"
  by (induction vs arbitrary: i) (auto simp: key_mk)

lemma insert_children_rows:
  assumes "p \<in> set parents" and "\<And>r. r \<in> set rows \<Longrightarrow> fst (key r) = p \<Longrightarrow> snd (key r) < i"
  shows "insert_children key (mk p) parents rows i vs = Some (rows @ child_rows (mk p) i vs)"
  using assms
proof (induction vs arbitrary: rows i)
  case (Cons v vs)
  have "key (mk p i v) \<notin> set (map key rows)"
  proof
    assume "key (mk p i v) \<in> set (map key rows)"
    then obtain r where "r \<in> set rows" "key r = (p, i)" by (auto simp: key_mk)
    with Cons.prems(2) [of r] show False by simp
  qed
  moreover have "insert_children key (mk p) parents (rows @ [mk p i v]) (i + 1) vs =
      Some ((rows @ [mk p i v]) @ child_rows (mk p) (i + 1) vs)"
  proof (rule Cons.IH [OF Cons.prems(1)])
    fix r
    assume mem: "r \<in> set (rows @ [mk p i v])" and par: "fst (key r) = p"
    from mem consider "r \<in> set rows" | "r = mk p i v" by auto
    then show "snd (key r) < i + 1"
    proof cases
      case 1
      with Cons.prems(2) par show ?thesis by force
    qed (simp add: key_mk)
  qed
  ultimately show ?case
    using Cons.prems(1) by (simp add: key_mk)
qed simp

lemma replace_children_rows:
  "p \<in> set parents \<Longrightarrow> replace_children key mk parents p vs rows =
     Some (delete_rows (\<lambda>r. fst (key r) = p) rows @ child_rows (mk p) 0 vs)"
  unfolding replace_children_def by (rule insert_children_rows) (auto simp: delete_rows_def)

text \<open>Reading the list back gives what was written; the lists of other parents do not change.\<close>

lemma read_children_replaced:
  assumes "replace_children key mk parents p vs rows = Some rows'" and "p \<in> set parents"
  shows "read_children key val q rows' = (if q = p then vs else read_children key val q rows)"
proof -
  have rows': "rows' = delete_rows (\<lambda>r. fst (key r) = p) rows @ child_rows (mk p) 0 vs"
    using assms by (simp add: replace_children_rows)
  have old: "filter (\<lambda>r. fst (key r) = q) (delete_rows (\<lambda>r. fst (key r) = p) rows) =
      (if q = p then [] else filter (\<lambda>r. fst (key r) = q) rows)"
    by (auto simp: delete_rows_def intro: filter_cong)
  have new: "filter (\<lambda>r. fst (key r) = q) (child_rows (mk p) 0 vs) =
      (if q = p then child_rows (mk p) 0 vs else [])"
    by (auto simp: filter_empty_conv filter_id_conv dest: parent_child_rows)
  have "map (\<lambda>r. snd (key r)) (child_rows (mk p) 0 vs) = map snd (map key (child_rows (mk p) 0 vs))"
    by simp
  then have "sorted (map (\<lambda>r. snd (key r)) (child_rows (mk p) 0 vs))"
    unfolding keys_child_rows by (simp add: comp_def)
  then show ?thesis
    by (simp add: read_children_def rows' old new sort_key_id_if_sorted vals_child_rows)
qed

lemma table_ok_replaced:
  assumes "table_ok key (\<lambda>r. fst (key r) \<in> set parents) rows" and "p \<in> set parents'"
    and "set parents \<subseteq> set parents'"
    and "replace_children key mk parents' p vs rows = Some rows'"
  shows "table_ok key (\<lambda>r. fst (key r) \<in> set parents') rows'"
proof -
  have rows': "rows' = delete_rows (\<lambda>r. fst (key r) = p) rows @ child_rows (mk p) 0 vs"
    using assms(2,4) by (simp add: replace_children_rows)
  have "distinct (map key (delete_rows (\<lambda>r. fst (key r) = p) rows))"
    using assms(1) by (simp add: table_ok_def delete_rows_def distinct_map_filter)
  moreover have "distinct (map key (child_rows (mk p) 0 vs))"
    by (simp add: keys_child_rows distinct_map inj_on_def)
  moreover have "set (map key (delete_rows (\<lambda>r. fst (key r) = p) rows)) \<inter>
      set (map key (child_rows (mk p) 0 vs)) = {}"
    unfolding keys_child_rows by (auto simp: delete_rows_def) (metis fst_conv)
  ultimately have "distinct (map key rows')"
    by (simp add: rows')
  moreover have "\<forall>r \<in> set rows'. fst (key r) \<in> set parents'"
    using assms(1,2,3) by (auto simp: rows' table_ok_def delete_rows_def dest: parent_child_rows)
  ultimately show ?thesis
    by (simp add: table_ok_def)
qed

end

end
