(* ===== verification/EntityStore.thy ===== *)
theory EntityStore
  imports Tables
begin

text \<open>
  The interface every entity of the runtime store offers to its clients: a putter that may be
  rejected and a getter by identifier. \<open>stored old e\<close> is what the store keeps of \<open>e\<close> when \<open>old\<close>
  is what it held before under the same identifier (timestamps cut to milliseconds, creation time
  of the first write). Projects, sessions, provider sessions, runs, computer sessions, artifacts,
  policy rules, grants and approvals each interpret this locale.
\<close>

definition found :: "'err + 'e \<Rightarrow> 'e option" where
  "found r = (case r of Inl _ \<Rightarrow> None | Inr e \<Rightarrow> Some e)"

lemma found_simps [simp]: "found (Inl x) = None" "found (Inr e) = Some e"
  by (simp_all add: found_def)

fun put_all :: "('db \<Rightarrow> 'e \<Rightarrow> 'err + 'db) \<Rightarrow> 'db \<Rightarrow> 'e list \<Rightarrow> 'err + 'db" where
  "put_all put db [] = Inr db"
| "put_all put db (e # es) =
     (case put db e of Inl err \<Rightarrow> Inl err | Inr db' \<Rightarrow> put_all put db' es)"

locale entity_store =
  fixes put :: "'db \<Rightarrow> 'e \<Rightarrow> 'err + 'db"
    and get :: "'db \<Rightarrow> 'id \<Rightarrow> 'err + 'e"
    and ident :: "'e \<Rightarrow> 'id"
    and stored :: "'e option \<Rightarrow> 'e \<Rightarrow> 'e"
  assumes get_put: "put db e = Inr db' \<Longrightarrow>
      get db' i = (if i = ident e then Inr (stored (found (get db i)) e) else get db i)"
    and ident_stored: "ident (stored old e) = ident e"
    and stored_stored: "stored (Some (stored old e)) e = stored old e"
begin

text \<open>A write is visible to the next read of its identifier, and to no other read.\<close>

lemma read_your_write:
  "put db e = Inr db' \<Longrightarrow> get db' (ident e) = Inr (stored (found (get db (ident e))) e)"
  by (simp add: get_put)

lemma read_other: "put db e = Inr db' \<Longrightarrow> i \<noteq> ident e \<Longrightarrow> get db' i = get db i"
  by (simp add: get_put)

lemma put_again:
  assumes "put db e = Inr db1" and "put db1 e = Inr db2"
  shows "get db2 i = get db1 i"
  using get_put [OF assms(1)] get_put [OF assms(2)] by (simp add: stored_stored)

lemma put_commute:
  assumes "ident e \<noteq> ident f" and "put db e = Inr db1" and "put db1 f = Inr db2"
    and "put db f = Inr db1'" and "put db1' e = Inr db2'"
  shows "get db2 i = get db2' i"
  using assms by (simp add: get_put [OF assms(2)] get_put [OF assms(3)] get_put [OF assms(4)]
      get_put [OF assms(5)])

text \<open>A sequence of writes: an identifier no write names keeps its entity, \<close>

lemma put_all_other:
  "put_all put db es = Inr db' \<Longrightarrow> i \<notin> ident ` set es \<Longrightarrow> get db' i = get db i"
  by (induction es arbitrary: db) (auto split: sum.splits simp: get_put)

text \<open>and an identifier named by exactly one write has what that write stored.\<close>

lemma put_all_read:
  assumes "put_all put db es = Inr db'" and "distinct (map ident es)" and "e \<in> set es"
  shows "get db' (ident e) = Inr (stored (found (get db (ident e))) e)"
  using assms
proof (induction es arbitrary: db)
  case (Cons f es)
  from Cons.prems(1) obtain db1 where db1: "put db f = Inr db1"
    and rest: "put_all put db1 es = Inr db'"
    by (auto split: sum.splits)
  show ?case
  proof (cases "e = f")
    case True
    with Cons.prems(2) have "ident e \<notin> ident ` set es" by auto
    with True rest db1 show ?thesis
      by (simp add: put_all_other get_put)
  next
    case False
    with Cons.prems have "e \<in> set es" "ident e \<noteq> ident f" by (auto simp: image_iff)
    with Cons.IH [OF rest] Cons.prems(2) db1 show ?thesis
      by (simp add: get_put)
  qed
qed simp

end

text \<open>
  An entity that is one row of one table: the putter upserts the row built from the entity, the
  getter scans the row found by its key. This is enough for the interface above.
\<close>

locale row_entity = keyed_table key merge
  for key :: "'r \<Rightarrow> 'k" and merge :: "'r \<Rightarrow> 'r \<Rightarrow> 'r" +
  fixes args :: "'e \<Rightarrow> 'r"
    and scan :: "'r \<Rightarrow> 'e"
    and rows :: "'db \<Rightarrow> 'r list"
    and missing :: "'k \<Rightarrow> 'err"
    and put :: "'db \<Rightarrow> 'e \<Rightarrow> 'err + 'db"
    and get :: "'db \<Rightarrow> 'k \<Rightarrow> 'err + 'e"
    and ident :: "'e \<Rightarrow> 'k"
    and stored :: "'e option \<Rightarrow> 'e \<Rightarrow> 'e"
  assumes key_args: "key (args e) = ident e"
    and scan_args: "scan (args e) = stored None e"
    and scan_merge: "key old = ident e \<Longrightarrow> scan (merge old (args e)) = stored (Some (scan old)) e"
    and put_rows: "put db e = Inr db' \<Longrightarrow> rows db' = upsert_row key merge (args e) (rows db)"
    and get_row: "get db i =
      (case lookup_row key (rows db) i of None \<Rightarrow> Inl (missing i) | Some r \<Rightarrow> Inr (scan r))"
    and stored_ident: "ident (stored prev e) = ident e"
    and stored_twice: "stored (Some (stored prev e)) e = stored prev e"
begin

lemma found_get: "found (get db i) = map_option scan (lookup_row key (rows db) i)"
  by (simp add: get_row split: option.split)

lemma scan_merged:
  "scan (merged_row key merge (args e) rs) = stored (map_option scan (lookup_row key rs (ident e))) e"
proof (cases "lookup_row key rs (ident e)")
  case (Some r)
  then have "key r = ident e"
    using lookup_row_Some by metis
  with Some show ?thesis
    by (simp add: merged_row_def key_args scan_merge)
qed (simp add: merged_row_def key_args scan_args)

end

sublocale row_entity \<subseteq> entity_store put get ident stored
proof
  fix db db' e i
  assume "put db e = Inr db'"
  then have "lookup_row key (rows db') i =
      (if i = ident e then Some (merged_row key merge (args e) (rows db))
       else lookup_row key (rows db) i)"
    by (simp add: put_rows lookup_upsert key_args)
  then show "get db' i = (if i = ident e then Inr (stored (found (get db i)) e) else get db i)"
    by (auto simp: get_row [of db'] scan_merged found_get) (simp add: get_row)
qed (simp_all add: stored_ident stored_twice)

end
