(* ===== verification/RuntimeEntities.thy ===== *)
theory RuntimeEntities
  imports ChildTable EntityStore
begin

text \<open>
  The entity putters and getters: \<open>internal/runtime/entities_ops.go\<close> (projects, sessions, provider
  sessions), \<open>runs_ops.go\<close> (runs, computer sessions) and \<open>policy_ops.go\<close> (artifacts, policy rules,
  grants, approvals). For each entity: the arguments of its \<open>INSERT\<close> as a row, the
  \<open>DO UPDATE SET\<close> clause as the stored row with the listed columns taken from the new one, the
  scan of a row, the putter with its checks in the order of the code, and the getter. The \<open>Tx\<close>
  and \<open>Store\<close> methods are the same functions, on the state of the transaction and on the committed
  state. A statement fails exactly when it violates a constraint of the schema.
\<close>

section \<open>Projects\<close>

definition root_key :: "root_row \<Rightarrow> string \<times> int" where
  "root_key r = (root_project_id r, root_position r)"

definition root_args :: "string \<Rightarrow> int \<Rightarrow> ProjectRoot \<Rightarrow> root_row" where
  "root_args p i v =
     \<lparr>root_project_id = p, root_position = i, root_path = Root_Path v,
      root_writable = boolInt (Root_Writable v)\<rparr>"

definition root_scan :: "root_row \<Rightarrow> ProjectRoot" where
  "root_scan r = \<lparr>Root_Path = root_path r, Root_Writable = (root_writable r \<noteq> 0)\<rparr>"

definition sens_key :: "sensitive_row \<Rightarrow> string \<times> int" where
  "sens_key r = (sens_project_id r, sens_position r)"

definition sens_args :: "string \<Rightarrow> int \<Rightarrow> string \<Rightarrow> sensitive_row" where
  "sens_args p i v = \<lparr>sens_project_id = p, sens_position = i, sens_pattern = v\<rparr>"

interpretation root_table: child_table root_key root_args root_scan
  by unfold_locales (simp_all add: root_key_def root_args_def root_scan_def)

interpretation sens_table: child_table sens_key sens_args sens_pattern
  by unfold_locales (simp_all add: sens_key_def sens_args_def)

definition project_args :: "Project \<Rightarrow> project_row" where
  "project_args x =
     \<lparr>prj_id = Project_ID x, prj_name = Project_Name x, prj_created_at = ms (Project_CreatedAt x),
      prj_updated_at = ms (Project_UpdatedAt x)\<rparr>"

definition merge_project :: "project_row \<Rightarrow> project_row \<Rightarrow> project_row" where
  "merge_project old excluded = old
     \<lparr>prj_name := prj_name excluded, prj_updated_at := prj_updated_at excluded\<rparr>"

definition putProject :: "store_db \<Rightarrow> Project \<Rightarrow> store_error + store_db" where
  "putProject db x =
     (case checkID (Project_ID x) idProject of
        Some e \<Rightarrow> Inl e
      | None \<Rightarrow>
          let db1 = db\<lparr>tbl_projects :=
                upsert_row prj_id merge_project (project_args x) (tbl_projects db)\<rparr>
          in case replace_children root_key root_args (project_keys db1) (Project_ID x)
                 (Project_Roots x) (tbl_project_roots db1) of
               None \<Rightarrow> Inl (ErrSQL ''put project root'')
             | Some roots \<Rightarrow>
                 let db2 = db1\<lparr>tbl_project_roots := roots\<rparr>
                 in case replace_children sens_key sens_args (project_keys db2) (Project_ID x)
                        (Project_SensitivePaths x) (tbl_project_sensitive_paths db2) of
                      None \<Rightarrow> Inl (ErrSQL ''put project sensitive path'')
                    | Some paths \<Rightarrow> Inr (db2\<lparr>tbl_project_sensitive_paths := paths\<rparr>))"

definition getProject :: "store_db \<Rightarrow> string \<Rightarrow> store_error + Project" where
  "getProject db i =
     (case lookup_row prj_id (tbl_projects db) i of
        None \<Rightarrow> Inl (ErrNotFound ''project'' i)
      | Some r \<Rightarrow> Inr
          \<lparr>Project_ID = prj_id r, Project_Name = prj_name r,
           Project_Roots = read_children root_key root_scan i (tbl_project_roots db),
           Project_SensitivePaths =
             read_children sens_key sens_pattern i (tbl_project_sensitive_paths db),
           Project_CreatedAt = timeFromMS (prj_created_at r),
           Project_UpdatedAt = timeFromMS (prj_updated_at r)\<rparr>)"

text \<open>What the store keeps of the entity.\<close>

definition stored_project :: "Project option \<Rightarrow> Project \<Rightarrow> Project" where
  "stored_project old x = x
     \<lparr>Project_CreatedAt :=
        (case old of None \<Rightarrow> stored_time (Project_CreatedAt x) | Some o' \<Rightarrow> Project_CreatedAt o'),
      Project_UpdatedAt := stored_time (Project_UpdatedAt x)\<rparr>"

interpretation project_table: checked_table prj_id merge_project "\<lambda>db r. True"
  by unfold_locales (simp_all add: merge_project_def)

lemma putProject_Inr:
  assumes "putProject db x = Inr db'"
  obtains roots paths where "checkID (Project_ID x) idProject = None"
    and "db' = db\<lparr>tbl_projects := upsert_row prj_id merge_project (project_args x) (tbl_projects db),
      tbl_project_roots := roots, tbl_project_sensitive_paths := paths\<rparr>"
    and "Project_ID x \<in> set (project_keys db')"
    and "replace_children root_key root_args (project_keys db') (Project_ID x) (Project_Roots x)
      (tbl_project_roots db) = Some roots"
    and "replace_children sens_key sens_args (project_keys db') (Project_ID x)
      (Project_SensitivePaths x) (tbl_project_sensitive_paths db) = Some paths"
proof -
  have id: "prj_id (project_args x) = Project_ID x"
    by (simp add: project_args_def)
  let ?ps = "upsert_row prj_id merge_project (project_args x) (tbl_projects db)"
  have key: "Project_ID x \<in> prj_id ` set ?ps"
    by (simp add: project_table.keys_upsert id)
  from assms obtain roots paths where "checkID (Project_ID x) idProject = None"
    and db': "db' = db\<lparr>tbl_projects := ?ps, tbl_project_roots := roots,
      tbl_project_sensitive_paths := paths\<rparr>"
    and "replace_children root_key root_args (map prj_id ?ps) (Project_ID x) (Project_Roots x)
      (tbl_project_roots db) = Some roots"
    and "replace_children sens_key sens_args (map prj_id ?ps) (Project_ID x)
      (Project_SensitivePaths x) (tbl_project_sensitive_paths db) = Some paths"
    by (auto simp: putProject_def Let_def split: option.splits)
  moreover from db' have "tbl_projects db' = ?ps" by simp
  ultimately show ?thesis
    using key by (intro that [where roots = roots and paths = paths]) simp_all
qed

interpretation project_entity: entity_store putProject getProject Project_ID stored_project
proof
  fix db db' x i
  assume "putProject db x = Inr db'"
  then obtain roots paths where db': "db' = db\<lparr>tbl_projects :=
      upsert_row prj_id merge_project (project_args x) (tbl_projects db),
      tbl_project_roots := roots, tbl_project_sensitive_paths := paths\<rparr>"
    and pid: "Project_ID x \<in> set (project_keys db')"
    and roots: "replace_children root_key root_args (project_keys db') (Project_ID x)
      (Project_Roots x) (tbl_project_roots db) = Some roots"
    and paths: "replace_children sens_key sens_args (project_keys db') (Project_ID x)
      (Project_SensitivePaths x) (tbl_project_sensitive_paths db) = Some paths"
    by (rule putProject_Inr)
  have id: "prj_id (project_args x) = Project_ID x"
    by (simp add: project_args_def)
  have row: "lookup_row prj_id (tbl_projects db') i =
      (if i = Project_ID x then Some (merged_row prj_id merge_project (project_args x) (tbl_projects db))
       else lookup_row prj_id (tbl_projects db) i)"
    by (simp add: db' project_table.lookup_upsert id)
  have lists: "tbl_project_roots db' = roots" "tbl_project_sensitive_paths db' = paths"
    by (simp_all add: db')
  show "getProject db' i =
      (if i = Project_ID x then Inr (stored_project (found (getProject db i)) x) else getProject db i)"
    using lookup_row_Some [of prj_id "tbl_projects db" i]
    by (auto simp: getProject_def row lists root_table.read_children_replaced [OF roots pid]
        sens_table.read_children_replaced [OF paths pid] merged_row_def id project_args_def
        merge_project_def stored_project_def stored_time_def split: option.split)
qed (simp_all add: stored_project_def)

text \<open>The loops of the putter never hit a key conflict or a missing parent.\<close>

lemma putProject_total:
  assumes "checkID (Project_ID x) idProject = None"
  shows "\<exists>db'. putProject db x = Inr db'"
proof -
  have "Project_ID x \<in> prj_id ` set (upsert_row prj_id merge_project (project_args x) (tbl_projects db))"
    by (simp add: project_table.keys_upsert project_args_def)
  with assms show ?thesis
    by (simp add: putProject_def root_table.replace_children_rows sens_table.replace_children_rows)
qed

section \<open>Sessions\<close>

definition session_args :: "Session \<Rightarrow> session_row" where
  "session_args x =
     \<lparr>ses_id = Session_ID x, ses_project_id = nullText (Session_ProjectID x),
     ses_title = Session_Title x, ses_caller_class = Session_CallerClass x,
     ses_external_conversation = Session_ExternalConversation x, ses_status = Session_Status x,
     ses_created_at = ms (Session_CreatedAt x),
     ses_updated_at = ms (Session_UpdatedAt x)\<rparr>"

definition merge_session :: "session_row \<Rightarrow> session_row \<Rightarrow> session_row" where
  "merge_session old excluded = old
     \<lparr>ses_project_id := ses_project_id excluded, ses_title := ses_title excluded,
     ses_caller_class := ses_caller_class excluded,
     ses_external_conversation := ses_external_conversation excluded,
     ses_status := ses_status excluded, ses_updated_at := ses_updated_at excluded\<rparr>"

definition scanSession :: "session_row \<Rightarrow> Session" where
  "scanSession r =
     \<lparr>Session_ID = ses_id r, Session_ProjectID = text_of (ses_project_id r),
     Session_Title = ses_title r, Session_CallerClass = ses_caller_class r,
     Session_ExternalConversation = ses_external_conversation r, Session_Status = ses_status r,
     Session_CreatedAt = timeFromMS (ses_created_at r),
     Session_UpdatedAt = timeFromMS (ses_updated_at r)\<rparr>"

definition putSession :: "store_db \<Rightarrow> Session \<Rightarrow> store_error + store_db" where
  "putSession db x =
     (case checkID (Session_ID x) idSession of
        Some e \<Rightarrow> Inl e
      | None \<Rightarrow>
          let row = session_args x;
              db' = db\<lparr>tbl_sessions := upsert_row ses_id merge_session row (tbl_sessions db)\<rparr>
          in if session_ok db' row then Inr db' else Inl (ErrSQL ''put session''))"

definition getSession :: "store_db \<Rightarrow> string \<Rightarrow> store_error + Session" where
  "getSession db i =
     (case lookup_row ses_id (tbl_sessions db) i of
        None \<Rightarrow> Inl (ErrNotFound ''session'' i)
      | Some r \<Rightarrow> Inr (scanSession r))"

text \<open>What the store keeps of the entity.\<close>

definition stored_session :: "Session option \<Rightarrow> Session \<Rightarrow> Session" where
  "stored_session old x = x
     \<lparr>Session_CreatedAt := (case old of None \<Rightarrow> stored_time (Session_CreatedAt x) | Some o' \<Rightarrow> Session_CreatedAt o'),
     Session_UpdatedAt := stored_time (Session_UpdatedAt x)\<rparr>"

interpretation session_table: checked_table ses_id merge_session session_ok
  by unfold_locales (simp_all add: merge_session_def session_ok_def)

lemma putSession_Inr:
  assumes "putSession db x = Inr db'"
  shows "checkID (Session_ID x) idSession = None"
    and "db' = db\<lparr>tbl_sessions := upsert_row ses_id merge_session (session_args x) (tbl_sessions db)\<rparr>"
    and "session_ok db' (session_args x)"
  using assms by (auto simp: putSession_def Let_def split: option.splits if_splits)

interpretation session_entity: row_entity ses_id merge_session session_args scanSession tbl_sessions
  "ErrNotFound ''session''" putSession getSession Session_ID stored_session
  by unfold_locales
    (auto dest: putSession_Inr(2) simp: merge_session_def session_args_def scanSession_def stored_session_def
      stored_time_def getSession_def)

section \<open>Provider sessions\<close>

definition provider_session_args :: "ProviderSession \<Rightarrow> provider_session_row" where
  "provider_session_args x =
     \<lparr>psn_id = PSession_ID x, psn_provider = PSession_Provider x,
     psn_native_id = PSession_NativeID x, psn_locator = PSession_Locator x,
     psn_project_id = nullText (PSession_ProjectID x),
     psn_can_resume = boolInt (PSession_CanResume x),
     psn_can_history = boolInt (PSession_CanHistory x),
     psn_created_at = ms (PSession_CreatedAt x),
     psn_updated_at = ms (PSession_UpdatedAt x)\<rparr>"

definition merge_provider_session :: "provider_session_row \<Rightarrow> provider_session_row \<Rightarrow> provider_session_row" where
  "merge_provider_session old excluded = old
     \<lparr>psn_provider := psn_provider excluded, psn_native_id := psn_native_id excluded,
     psn_locator := psn_locator excluded, psn_project_id := psn_project_id excluded,
     psn_can_resume := psn_can_resume excluded, psn_can_history := psn_can_history excluded,
     psn_updated_at := psn_updated_at excluded\<rparr>"

definition scanProviderSession :: "provider_session_row \<Rightarrow> ProviderSession" where
  "scanProviderSession r =
     \<lparr>PSession_ID = psn_id r, PSession_Provider = psn_provider r,
     PSession_NativeID = psn_native_id r, PSession_Locator = psn_locator r,
     PSession_ProjectID = text_of (psn_project_id r),
     PSession_CanResume = (psn_can_resume r \<noteq> 0),
     PSession_CanHistory = (psn_can_history r \<noteq> 0),
     PSession_CreatedAt = timeFromMS (psn_created_at r),
     PSession_UpdatedAt = timeFromMS (psn_updated_at r)\<rparr>"

definition putProviderSession :: "store_db \<Rightarrow> ProviderSession \<Rightarrow> store_error + store_db" where
  "putProviderSession db x =
     (case checkID (PSession_ID x) idProviderSession of
        Some e \<Rightarrow> Inl e
      | None \<Rightarrow>
          let row = provider_session_args x;
              db' = db\<lparr>tbl_provider_sessions := upsert_row psn_id merge_provider_session row (tbl_provider_sessions db)\<rparr>
          in if provider_session_ok db' row \<and> unique_native (tbl_provider_sessions db') then Inr db' else Inl (ErrSQL ''put provider session''))"

definition getProviderSession :: "store_db \<Rightarrow> string \<Rightarrow> store_error + ProviderSession" where
  "getProviderSession db i =
     (case lookup_row psn_id (tbl_provider_sessions db) i of
        None \<Rightarrow> Inl (ErrNotFound ''provider session'' i)
      | Some r \<Rightarrow> Inr (scanProviderSession r))"

text \<open>What the store keeps of the entity.\<close>

definition stored_provider_session :: "ProviderSession option \<Rightarrow> ProviderSession \<Rightarrow> ProviderSession" where
  "stored_provider_session old x = x
     \<lparr>PSession_CreatedAt := (case old of None \<Rightarrow> stored_time (PSession_CreatedAt x) | Some o' \<Rightarrow> PSession_CreatedAt o'),
     PSession_UpdatedAt := stored_time (PSession_UpdatedAt x)\<rparr>"

interpretation provider_session_table: checked_table psn_id merge_provider_session provider_session_ok
  by unfold_locales (simp_all add: merge_provider_session_def provider_session_ok_def)

lemma putProviderSession_Inr:
  assumes "putProviderSession db x = Inr db'"
  shows "checkID (PSession_ID x) idProviderSession = None"
    and "db' = db\<lparr>tbl_provider_sessions := upsert_row psn_id merge_provider_session (provider_session_args x) (tbl_provider_sessions db)\<rparr>"
    and "provider_session_ok db' (provider_session_args x)"
    and "unique_native (tbl_provider_sessions db')"
  using assms by (auto simp: putProviderSession_def Let_def split: option.splits if_splits)

interpretation provider_session_entity: row_entity psn_id merge_provider_session provider_session_args scanProviderSession tbl_provider_sessions
  "ErrNotFound ''provider session''" putProviderSession getProviderSession PSession_ID stored_provider_session
  by unfold_locales
    (auto dest: putProviderSession_Inr(2) simp: merge_provider_session_def provider_session_args_def scanProviderSession_def stored_provider_session_def
      stored_time_def getProviderSession_def)

section \<open>Runs\<close>

definition run_args :: "Run \<Rightarrow> run_row" where
  "run_args x =
     \<lparr>run_id = Run_ID x, run_session_id = Run_SessionID x,
     run_project_id = nullText (Run_ProjectID x), run_kind = Run_Kind x,
     run_provider = Run_Provider x, run_model = Run_Model x, run_autonomy = Run_Autonomy x,
     run_role = Run_Role x, run_parent_run_id = nullText (Run_ParentRunID x),
     run_continues_run_id = nullText (Run_ContinuesRunID x),
     run_provider_session_id = nullText (Run_ProviderSessionID x), run_status = Run_Status x,
     run_process_pid = Run_ProcessPID x, run_process_started_at = ms (Run_ProcessStartedAt x),
     run_process_group_id = Run_ProcessGroupID x, run_output_ref = Run_OutputRef x,
     run_error_category = Run_ErrorCategory x, run_last_seq = Run_LastSeq x,
     run_created_at = ms (Run_CreatedAt x), run_started_at = ms (Run_StartedAt x),
     run_finished_at = ms (Run_FinishedAt x)\<rparr>"

definition merge_run :: "run_row \<Rightarrow> run_row \<Rightarrow> run_row" where
  "merge_run old excluded = old
     \<lparr>run_session_id := run_session_id excluded, run_project_id := run_project_id excluded,
     run_kind := run_kind excluded, run_provider := run_provider excluded,
     run_model := run_model excluded, run_autonomy := run_autonomy excluded,
     run_role := run_role excluded, run_parent_run_id := run_parent_run_id excluded,
     run_continues_run_id := run_continues_run_id excluded,
     run_provider_session_id := run_provider_session_id excluded,
     run_status := run_status excluded, run_process_pid := run_process_pid excluded,
     run_process_started_at := run_process_started_at excluded,
     run_process_group_id := run_process_group_id excluded,
     run_output_ref := run_output_ref excluded,
     run_error_category := run_error_category excluded,
     run_started_at := run_started_at excluded,
     run_finished_at := run_finished_at excluded\<rparr>"

definition scanRun :: "run_row \<Rightarrow> Run" where
  "scanRun r =
     \<lparr>Run_ID = run_id r, Run_SessionID = run_session_id r,
     Run_ProjectID = text_of (run_project_id r), Run_Kind = run_kind r,
     Run_Provider = run_provider r, Run_Model = run_model r, Run_Autonomy = run_autonomy r,
     Run_Role = run_role r, Run_ParentRunID = text_of (run_parent_run_id r),
     Run_ContinuesRunID = text_of (run_continues_run_id r),
     Run_ProviderSessionID = text_of (run_provider_session_id r), Run_Status = run_status r,
     Run_ProcessPID = run_process_pid r,
     Run_ProcessStartedAt = timeFromMS (run_process_started_at r),
     Run_ProcessGroupID = run_process_group_id r, Run_OutputRef = run_output_ref r,
     Run_ErrorCategory = run_error_category r, Run_LastSeq = run_last_seq r,
     Run_CreatedAt = timeFromMS (run_created_at r),
     Run_StartedAt = timeFromMS (run_started_at r),
     Run_FinishedAt = timeFromMS (run_finished_at r)\<rparr>"

definition putRun :: "store_db \<Rightarrow> Run \<Rightarrow> store_error + store_db" where
  "putRun db x =
     (case checkID (Run_ID x) idRun of
        Some e \<Rightarrow> Inl e
      | None \<Rightarrow>
          let row = run_args x;
              db' = db\<lparr>tbl_runs := upsert_row run_id merge_run row (tbl_runs db)\<rparr>
          in if run_ok db' row \<and> unique_active (tbl_runs db') then Inr db' else Inl (ErrSQL ''put run''))"

definition getRun :: "store_db \<Rightarrow> string \<Rightarrow> store_error + Run" where
  "getRun db i =
     (case lookup_row run_id (tbl_runs db) i of
        None \<Rightarrow> Inl (ErrNotFound ''run'' i)
      | Some r \<Rightarrow> Inr (scanRun r))"

text \<open>What the store keeps of the entity.\<close>

definition stored_run :: "Run option \<Rightarrow> Run \<Rightarrow> Run" where
  "stored_run old x = x
     \<lparr>Run_ProcessStartedAt := stored_time (Run_ProcessStartedAt x),
     Run_LastSeq := (case old of None \<Rightarrow> Run_LastSeq x | Some o' \<Rightarrow> Run_LastSeq o'),
     Run_CreatedAt := (case old of None \<Rightarrow> stored_time (Run_CreatedAt x) | Some o' \<Rightarrow> Run_CreatedAt o'),
     Run_StartedAt := stored_time (Run_StartedAt x),
     Run_FinishedAt := stored_time (Run_FinishedAt x)\<rparr>"

interpretation run_table: checked_table run_id merge_run run_ok
  by unfold_locales (simp_all add: merge_run_def run_ok_def)

lemma putRun_Inr:
  assumes "putRun db x = Inr db'"
  shows "checkID (Run_ID x) idRun = None"
    and "db' = db\<lparr>tbl_runs := upsert_row run_id merge_run (run_args x) (tbl_runs db)\<rparr>"
    and "run_ok db' (run_args x)"
    and "unique_active (tbl_runs db')"
  using assms by (auto simp: putRun_def Let_def split: option.splits if_splits)

interpretation run_entity: row_entity run_id merge_run run_args scanRun tbl_runs
  "ErrNotFound ''run''" putRun getRun Run_ID stored_run
  by unfold_locales
    (auto dest: putRun_Inr(2) simp: merge_run_def run_args_def scanRun_def stored_run_def
      stored_time_def getRun_def)

section \<open>Computer sessions\<close>

definition computer_session_args :: "ComputerSession \<Rightarrow> computer_session_row" where
  "computer_session_args x =
     \<lparr>cmp_id = CSession_ID x, cmp_session_id = CSession_SessionID x,
     cmp_run_id = nullText (CSession_RunID x), cmp_target = CSession_Target x,
     cmp_state = CSession_State x, cmp_controller_kind = Controller_Kind (CSession_Controller x), cmp_controller_holder = Controller_Holder (CSession_Controller x),
     cmp_controller_channel = Controller_Channel (CSession_Controller x), cmp_controller_epoch = CSession_ControllerEpoch x,
     cmp_arbiter_instance = CSession_ArbiterInstance x,
     cmp_lease_holder = CSession_LeaseHolder x,
     cmp_lease_expires_at = ms (CSession_LeaseExpiresAt x),
     cmp_can_observe = boolInt (CSession_CanObserve x),
     cmp_can_input = boolInt (CSession_CanInput x),
     cmp_can_preview = boolInt (CSession_CanPreview x),
     cmp_last_frame_id = CSession_LastFrameID x,
     cmp_geometry_generation = CSession_GeometryGeneration x,
     cmp_created_at = ms (CSession_CreatedAt x),
     cmp_updated_at = ms (CSession_UpdatedAt x)\<rparr>"

definition merge_computer_session :: "computer_session_row \<Rightarrow> computer_session_row \<Rightarrow> computer_session_row" where
  "merge_computer_session old excluded = old
     \<lparr>cmp_session_id := cmp_session_id excluded, cmp_run_id := cmp_run_id excluded,
     cmp_target := cmp_target excluded, cmp_state := cmp_state excluded,
     cmp_controller_kind := cmp_controller_kind excluded,
     cmp_controller_holder := cmp_controller_holder excluded,
     cmp_controller_channel := cmp_controller_channel excluded,
     cmp_controller_epoch := cmp_controller_epoch excluded,
     cmp_arbiter_instance := cmp_arbiter_instance excluded,
     cmp_lease_holder := cmp_lease_holder excluded,
     cmp_lease_expires_at := cmp_lease_expires_at excluded,
     cmp_can_observe := cmp_can_observe excluded, cmp_can_input := cmp_can_input excluded,
     cmp_can_preview := cmp_can_preview excluded,
     cmp_last_frame_id := cmp_last_frame_id excluded,
     cmp_geometry_generation := cmp_geometry_generation excluded,
     cmp_updated_at := cmp_updated_at excluded\<rparr>"

definition child_key :: "child_row \<Rightarrow> string \<times> int" where
  "child_key r = (child_session_id r, child_position r)"

definition child_args :: "string \<Rightarrow> int \<Rightarrow> string \<Rightarrow> child_row" where
  "child_args p i v = \<lparr>child_session_id = p, child_position = i, child_value = v\<rparr>"

interpretation cmp_child_table: child_table child_key child_args child_value
  by unfold_locales (simp_all add: child_key_def child_args_def)

definition putComputerSession :: "store_db \<Rightarrow> ComputerSession \<Rightarrow> store_error + store_db" where
  "putComputerSession db x =
     (case checkID (CSession_ID x) idComputerSession of
        Some e \<Rightarrow> Inl e
      | None \<Rightarrow>
          let row = computer_session_args x;
              db1 = db\<lparr>tbl_computer_sessions :=
                upsert_row cmp_id merge_computer_session row (tbl_computer_sessions db)\<rparr>
          in if \<not> computer_session_ok db1 row then Inl (ErrSQL ''put computer session'')
             else case replace_children child_key child_args (computer_session_keys db1)
                 (CSession_ID x) (CSession_GrantedVerbs x) (tbl_computer_session_verbs db1) of
               None \<Rightarrow> Inl (ErrSQL ''put computer session verb'')
             | Some verbs \<Rightarrow>
                 let db2 = db1\<lparr>tbl_computer_session_verbs := verbs\<rparr>
                 in case replace_children child_key child_args (computer_session_keys db2)
                        (CSession_ID x) (CSession_AppSelectors x) (tbl_computer_session_apps db2) of
                      None \<Rightarrow> Inl (ErrSQL ''put computer session app selector'')
                    | Some apps \<Rightarrow> Inr (db2\<lparr>tbl_computer_session_apps := apps\<rparr>))"

definition getComputerSession :: "store_db \<Rightarrow> string \<Rightarrow> store_error + ComputerSession" where
  "getComputerSession db i =
     (case lookup_row cmp_id (tbl_computer_sessions db) i of
        None \<Rightarrow> Inl (ErrNotFound ''computer session'' i)
      | Some r \<Rightarrow> Inr
          \<lparr>CSession_ID = cmp_id r, CSession_SessionID = cmp_session_id r,
           CSession_RunID = text_of (cmp_run_id r), CSession_Target = cmp_target r,
           CSession_State = cmp_state r,
           CSession_Controller =
             \<lparr>Controller_Kind = cmp_controller_kind r, Controller_Holder = cmp_controller_holder r,
              Controller_Channel = cmp_controller_channel r\<rparr>,
           CSession_ControllerEpoch = cmp_controller_epoch r,
           CSession_ArbiterInstance = cmp_arbiter_instance r,
           CSession_LeaseHolder = cmp_lease_holder r,
           CSession_LeaseExpiresAt = timeFromMS (cmp_lease_expires_at r),
           CSession_CanObserve = (cmp_can_observe r \<noteq> 0),
           CSession_CanInput = (cmp_can_input r \<noteq> 0),
           CSession_CanPreview = (cmp_can_preview r \<noteq> 0),
           CSession_GrantedVerbs =
             read_children child_key child_value i (tbl_computer_session_verbs db),
           CSession_AppSelectors =
             read_children child_key child_value i (tbl_computer_session_apps db),
           CSession_LastFrameID = cmp_last_frame_id r,
           CSession_GeometryGeneration = cmp_geometry_generation r,
           CSession_CreatedAt = timeFromMS (cmp_created_at r),
           CSession_UpdatedAt = timeFromMS (cmp_updated_at r)\<rparr>)"

text \<open>What the store keeps of the entity.\<close>

definition stored_computer_session ::
  "ComputerSession option \<Rightarrow> ComputerSession \<Rightarrow> ComputerSession" where
  "stored_computer_session old x = x
     \<lparr>CSession_LeaseExpiresAt := stored_time (CSession_LeaseExpiresAt x),
      CSession_CreatedAt :=
        (case old of None \<Rightarrow> stored_time (CSession_CreatedAt x) | Some o' \<Rightarrow> CSession_CreatedAt o'),
      CSession_UpdatedAt := stored_time (CSession_UpdatedAt x)\<rparr>"

interpretation computer_session_table:
  checked_table cmp_id merge_computer_session computer_session_ok
  by unfold_locales (simp_all add: merge_computer_session_def computer_session_ok_def)

lemma putComputerSession_Inr:
  assumes "putComputerSession db x = Inr db'"
  obtains verbs apps where "checkID (CSession_ID x) idComputerSession = None"
    and "db' = db\<lparr>tbl_computer_sessions := upsert_row cmp_id merge_computer_session
        (computer_session_args x) (tbl_computer_sessions db),
      tbl_computer_session_verbs := verbs, tbl_computer_session_apps := apps\<rparr>"
    and "computer_session_ok db' (computer_session_args x)"
    and "CSession_ID x \<in> set (computer_session_keys db')"
    and "replace_children child_key child_args (computer_session_keys db') (CSession_ID x)
      (CSession_GrantedVerbs x) (tbl_computer_session_verbs db) = Some verbs"
    and "replace_children child_key child_args (computer_session_keys db') (CSession_ID x)
      (CSession_AppSelectors x) (tbl_computer_session_apps db) = Some apps"
proof -
  let ?cs = "upsert_row cmp_id merge_computer_session (computer_session_args x)
    (tbl_computer_sessions db)"
  have key: "CSession_ID x \<in> cmp_id ` set ?cs"
    by (simp add: computer_session_table.keys_upsert) (simp add: computer_session_args_def)
  from assms obtain verbs apps where "checkID (CSession_ID x) idComputerSession = None"
    and db': "db' = db\<lparr>tbl_computer_sessions := ?cs, tbl_computer_session_verbs := verbs,
      tbl_computer_session_apps := apps\<rparr>"
    and ok: "computer_session_ok (db\<lparr>tbl_computer_sessions := ?cs\<rparr>) (computer_session_args x)"
    and "replace_children child_key child_args (map cmp_id ?cs) (CSession_ID x)
      (CSession_GrantedVerbs x) (tbl_computer_session_verbs db) = Some verbs"
    and "replace_children child_key child_args (map cmp_id ?cs) (CSession_ID x)
      (CSession_AppSelectors x) (tbl_computer_session_apps db) = Some apps"
    by (auto simp: putComputerSession_def Let_def split: option.splits if_splits)
  moreover from db' have "tbl_computer_sessions db' = ?cs" by simp
  moreover from ok have "computer_session_ok db' (computer_session_args x)"
    by (simp add: db' computer_session_ok_def)
  ultimately show ?thesis
    using key by (intro that [where verbs = verbs and apps = apps]) simp_all
qed

interpretation computer_session_entity:
  entity_store putComputerSession getComputerSession CSession_ID stored_computer_session
proof
  fix db db' x i
  assume "putComputerSession db x = Inr db'"
  then obtain verbs apps where db': "db' = db\<lparr>tbl_computer_sessions := upsert_row cmp_id
      merge_computer_session (computer_session_args x) (tbl_computer_sessions db),
      tbl_computer_session_verbs := verbs, tbl_computer_session_apps := apps\<rparr>"
    and cid: "CSession_ID x \<in> set (computer_session_keys db')"
    and verbs: "replace_children child_key child_args (computer_session_keys db') (CSession_ID x)
      (CSession_GrantedVerbs x) (tbl_computer_session_verbs db) = Some verbs"
    and apps: "replace_children child_key child_args (computer_session_keys db') (CSession_ID x)
      (CSession_AppSelectors x) (tbl_computer_session_apps db) = Some apps"
    by (rule putComputerSession_Inr)
  have id: "cmp_id (computer_session_args x) = CSession_ID x"
    by (simp add: computer_session_args_def)
  have row: "lookup_row cmp_id (tbl_computer_sessions db') i =
      (if i = CSession_ID x then Some (merged_row cmp_id merge_computer_session
         (computer_session_args x) (tbl_computer_sessions db))
       else lookup_row cmp_id (tbl_computer_sessions db) i)"
    by (simp add: db' computer_session_table.lookup_upsert id)
  have lists: "tbl_computer_session_verbs db' = verbs" "tbl_computer_session_apps db' = apps"
    by (simp_all add: db')
  show "getComputerSession db' i =
      (if i = CSession_ID x then Inr (stored_computer_session (found (getComputerSession db i)) x)
       else getComputerSession db i)"
    using lookup_row_Some [of cmp_id "tbl_computer_sessions db" i]
    by (auto simp: getComputerSession_def row lists
        cmp_child_table.read_children_replaced [OF verbs cid]
        cmp_child_table.read_children_replaced [OF apps cid] merged_row_def id
        computer_session_args_def merge_computer_session_def stored_computer_session_def
        stored_time_def split: option.split)
qed (simp_all add: stored_computer_session_def)

section \<open>Artifacts\<close>

definition artifact_args :: "Artifact \<Rightarrow> artifact_row" where
  "artifact_args x =
     \<lparr>art_id = Artifact_ID x, art_producer_kind = Artifact_ProducerKind x,
     art_producer_id = Artifact_ProducerID x, art_kind = Artifact_Kind x,
     art_reference = Artifact_Reference x, art_digest = Artifact_Digest x,
     art_size_bytes = Artifact_SizeBytes x, art_sensitivity = Artifact_Sensitivity x,
     art_retention = Artifact_Retention x, art_created_at = ms (Artifact_CreatedAt x)\<rparr>"

definition merge_artifact :: "artifact_row \<Rightarrow> artifact_row \<Rightarrow> artifact_row" where
  "merge_artifact old excluded = old
     \<lparr>art_producer_kind := art_producer_kind excluded,
     art_producer_id := art_producer_id excluded, art_kind := art_kind excluded,
     art_reference := art_reference excluded, art_digest := art_digest excluded,
     art_size_bytes := art_size_bytes excluded, art_sensitivity := art_sensitivity excluded,
     art_retention := art_retention excluded\<rparr>"

definition scanArtifact :: "artifact_row \<Rightarrow> Artifact" where
  "scanArtifact r =
     \<lparr>Artifact_ID = art_id r, Artifact_ProducerKind = art_producer_kind r,
     Artifact_ProducerID = art_producer_id r, Artifact_Kind = art_kind r,
     Artifact_Reference = art_reference r, Artifact_Digest = art_digest r,
     Artifact_SizeBytes = art_size_bytes r, Artifact_Sensitivity = art_sensitivity r,
     Artifact_Retention = art_retention r,
     Artifact_CreatedAt = timeFromMS (art_created_at r)\<rparr>"

definition putArtifact :: "store_db \<Rightarrow> Artifact \<Rightarrow> store_error + store_db" where
  "putArtifact db x =
     (case checkID (Artifact_ID x) idArtifact of
        Some e \<Rightarrow> Inl e
      | None \<Rightarrow>
          let row = artifact_args x;
              db' = db\<lparr>tbl_artifacts := upsert_row art_id merge_artifact row (tbl_artifacts db)\<rparr>
          in if artifact_ok db' row then Inr db' else Inl (ErrSQL ''put artifact''))"

definition getArtifact :: "store_db \<Rightarrow> string \<Rightarrow> store_error + Artifact" where
  "getArtifact db i =
     (case lookup_row art_id (tbl_artifacts db) i of
        None \<Rightarrow> Inl (ErrNotFound ''artifact'' i)
      | Some r \<Rightarrow> Inr (scanArtifact r))"

text \<open>What the store keeps of the entity.\<close>

definition stored_artifact :: "Artifact option \<Rightarrow> Artifact \<Rightarrow> Artifact" where
  "stored_artifact old x = x
     \<lparr>Artifact_CreatedAt := (case old of None \<Rightarrow> stored_time (Artifact_CreatedAt x) | Some o' \<Rightarrow> Artifact_CreatedAt o')\<rparr>"

interpretation artifact_table: checked_table art_id merge_artifact artifact_ok
  by unfold_locales (simp_all add: merge_artifact_def artifact_ok_def)

lemma putArtifact_Inr:
  assumes "putArtifact db x = Inr db'"
  shows "checkID (Artifact_ID x) idArtifact = None"
    and "db' = db\<lparr>tbl_artifacts := upsert_row art_id merge_artifact (artifact_args x) (tbl_artifacts db)\<rparr>"
    and "artifact_ok db' (artifact_args x)"
  using assms by (auto simp: putArtifact_def Let_def split: option.splits if_splits)

interpretation artifact_entity: row_entity art_id merge_artifact artifact_args scanArtifact tbl_artifacts
  "ErrNotFound ''artifact''" putArtifact getArtifact Artifact_ID stored_artifact
  by unfold_locales
    (auto dest: putArtifact_Inr(2) simp: merge_artifact_def artifact_args_def scanArtifact_def stored_artifact_def
      stored_time_def getArtifact_def)

section \<open>Policy rules\<close>

definition policy_rule_args :: "PolicyRule \<Rightarrow> policy_rule_row" where
  "policy_rule_args x =
     \<lparr>rule_id = Rule_ID x, rule_effect = Rule_Effect x, rule_verb = Rule_Verb x,
     rule_selector = Rule_Selector x, rule_created_at = ms (Rule_CreatedAt x),
     rule_updated_at = ms (Rule_UpdatedAt x)\<rparr>"

definition merge_policy_rule :: "policy_rule_row \<Rightarrow> policy_rule_row \<Rightarrow> policy_rule_row" where
  "merge_policy_rule old excluded = old
     \<lparr>rule_effect := rule_effect excluded, rule_verb := rule_verb excluded,
     rule_selector := rule_selector excluded,
     rule_updated_at := rule_updated_at excluded\<rparr>"

definition scanPolicyRule :: "policy_rule_row \<Rightarrow> PolicyRule" where
  "scanPolicyRule r =
     \<lparr>Rule_ID = rule_id r, Rule_Effect = rule_effect r, Rule_Verb = rule_verb r,
     Rule_Selector = rule_selector r, Rule_CreatedAt = timeFromMS (rule_created_at r),
     Rule_UpdatedAt = timeFromMS (rule_updated_at r)\<rparr>"

definition putPolicyRule :: "store_db \<Rightarrow> PolicyRule \<Rightarrow> store_error + store_db" where
  "putPolicyRule db x =
     (case requireText ''policy rule id'' (Rule_ID x) of
        Some e \<Rightarrow> Inl e
      | None \<Rightarrow>
          let row = policy_rule_args x;
              db' = db\<lparr>tbl_policy_rules := upsert_row rule_id merge_policy_rule row (tbl_policy_rules db)\<rparr>
          in if policy_rule_ok db' row then Inr db' else Inl (ErrSQL ''put policy rule''))"

definition getPolicyRule :: "store_db \<Rightarrow> string \<Rightarrow> store_error + PolicyRule" where
  "getPolicyRule db i =
     (case lookup_row rule_id (tbl_policy_rules db) i of
        None \<Rightarrow> Inl (ErrNotFound ''policy rule'' i)
      | Some r \<Rightarrow> Inr (scanPolicyRule r))"

text \<open>What the store keeps of the entity.\<close>

definition stored_policy_rule :: "PolicyRule option \<Rightarrow> PolicyRule \<Rightarrow> PolicyRule" where
  "stored_policy_rule old x = x
     \<lparr>Rule_CreatedAt := (case old of None \<Rightarrow> stored_time (Rule_CreatedAt x) | Some o' \<Rightarrow> Rule_CreatedAt o'),
     Rule_UpdatedAt := stored_time (Rule_UpdatedAt x)\<rparr>"

interpretation policy_rule_table: checked_table rule_id merge_policy_rule policy_rule_ok
  by unfold_locales (simp_all add: merge_policy_rule_def policy_rule_ok_def)

lemma putPolicyRule_Inr:
  assumes "putPolicyRule db x = Inr db'"
  shows "requireText ''policy rule id'' (Rule_ID x) = None"
    and "db' = db\<lparr>tbl_policy_rules := upsert_row rule_id merge_policy_rule (policy_rule_args x) (tbl_policy_rules db)\<rparr>"
    and "policy_rule_ok db' (policy_rule_args x)"
  using assms by (auto simp: putPolicyRule_def Let_def split: option.splits if_splits)

interpretation policy_rule_entity: row_entity rule_id merge_policy_rule policy_rule_args scanPolicyRule tbl_policy_rules
  "ErrNotFound ''policy rule''" putPolicyRule getPolicyRule Rule_ID stored_policy_rule
  by unfold_locales
    (auto dest: putPolicyRule_Inr(2) simp: merge_policy_rule_def policy_rule_args_def scanPolicyRule_def stored_policy_rule_def
      stored_time_def getPolicyRule_def)

section \<open>Grants\<close>

definition grant_args :: "Grant \<Rightarrow> grant_row" where
  "grant_args x =
     \<lparr>grt_id = Grant_ID x, grt_verb = Grant_Verb x, grt_selector = Grant_Selector x,
     grt_scope = Grant_Scope x, grt_session_id = nullText (Grant_SessionID x),
     grt_project_id = nullText (Grant_ProjectID x), grt_run_id = nullText (Grant_RunID x),
     grt_approval_id = nullText (Grant_ApprovalID x), grt_channel = Grant_Channel x,
     grt_expires_at = ms (Grant_ExpiresAt x), grt_created_at = ms (Grant_CreatedAt x),
     grt_revoked_at = ms (Grant_RevokedAt x)\<rparr>"

definition merge_grant :: "grant_row \<Rightarrow> grant_row \<Rightarrow> grant_row" where
  "merge_grant old excluded = old
     \<lparr>grt_verb := grt_verb excluded, grt_selector := grt_selector excluded,
     grt_scope := grt_scope excluded, grt_session_id := grt_session_id excluded,
     grt_project_id := grt_project_id excluded, grt_run_id := grt_run_id excluded,
     grt_approval_id := grt_approval_id excluded, grt_channel := grt_channel excluded,
     grt_expires_at := grt_expires_at excluded,
     grt_revoked_at := grt_revoked_at excluded\<rparr>"

definition scanGrant :: "grant_row \<Rightarrow> Grant" where
  "scanGrant r =
     \<lparr>Grant_ID = grt_id r, Grant_Verb = grt_verb r, Grant_Selector = grt_selector r,
     Grant_Scope = grt_scope r, Grant_SessionID = text_of (grt_session_id r),
     Grant_ProjectID = text_of (grt_project_id r), Grant_RunID = text_of (grt_run_id r),
     Grant_ApprovalID = text_of (grt_approval_id r), Grant_Channel = grt_channel r,
     Grant_ExpiresAt = timeFromMS (grt_expires_at r),
     Grant_CreatedAt = timeFromMS (grt_created_at r),
     Grant_RevokedAt = timeFromMS (grt_revoked_at r)\<rparr>"

definition putGrant :: "store_db \<Rightarrow> Grant \<Rightarrow> store_error + store_db" where
  "putGrant db x =
     (case requireText ''grant id'' (Grant_ID x) of
        Some e \<Rightarrow> Inl e
      | None \<Rightarrow>
          let row = grant_args x;
              db' = db\<lparr>tbl_grants := upsert_row grt_id merge_grant row (tbl_grants db)\<rparr>
          in if grant_ok db' row then Inr db' else Inl (ErrSQL ''put grant''))"

definition getGrant :: "store_db \<Rightarrow> string \<Rightarrow> store_error + Grant" where
  "getGrant db i =
     (case lookup_row grt_id (tbl_grants db) i of
        None \<Rightarrow> Inl (ErrNotFound ''grant'' i)
      | Some r \<Rightarrow> Inr (scanGrant r))"

text \<open>What the store keeps of the entity.\<close>

definition stored_grant :: "Grant option \<Rightarrow> Grant \<Rightarrow> Grant" where
  "stored_grant old x = x
     \<lparr>Grant_ExpiresAt := stored_time (Grant_ExpiresAt x),
     Grant_CreatedAt := (case old of None \<Rightarrow> stored_time (Grant_CreatedAt x) | Some o' \<Rightarrow> Grant_CreatedAt o'),
     Grant_RevokedAt := stored_time (Grant_RevokedAt x)\<rparr>"

interpretation grant_table: checked_table grt_id merge_grant grant_ok
  by unfold_locales (simp_all add: merge_grant_def grant_ok_def)

lemma putGrant_Inr:
  assumes "putGrant db x = Inr db'"
  shows "requireText ''grant id'' (Grant_ID x) = None"
    and "db' = db\<lparr>tbl_grants := upsert_row grt_id merge_grant (grant_args x) (tbl_grants db)\<rparr>"
    and "grant_ok db' (grant_args x)"
  using assms by (auto simp: putGrant_def Let_def split: option.splits if_splits)

interpretation grant_entity: row_entity grt_id merge_grant grant_args scanGrant tbl_grants
  "ErrNotFound ''grant''" putGrant getGrant Grant_ID stored_grant
  by unfold_locales
    (auto dest: putGrant_Inr(2) simp: merge_grant_def grant_args_def scanGrant_def stored_grant_def
      stored_time_def getGrant_def)

section \<open>Approvals\<close>

definition approval_args :: "Approval \<Rightarrow> approval_row" where
  "approval_args x =
     \<lparr>apr_id = Approval_ID x, apr_run_id = nullText (Approval_RunID x),
     apr_session_id = nullText (Approval_SessionID x),
     apr_project_id = nullText (Approval_ProjectID x), apr_verb = Approval_Verb x,
     apr_selector = Approval_Selector x, apr_status = Approval_Status x,
     apr_channel = Approval_Channel x, apr_reason = Approval_Reason x,
     apr_requested_at = ms (Approval_RequestedAt x),
     apr_decided_at = ms (Approval_DecidedAt x)\<rparr>"

definition merge_approval :: "approval_row \<Rightarrow> approval_row \<Rightarrow> approval_row" where
  "merge_approval old excluded = old
     \<lparr>apr_run_id := apr_run_id excluded, apr_session_id := apr_session_id excluded,
     apr_project_id := apr_project_id excluded, apr_verb := apr_verb excluded,
     apr_selector := apr_selector excluded, apr_status := apr_status excluded,
     apr_channel := apr_channel excluded, apr_reason := apr_reason excluded,
     apr_decided_at := apr_decided_at excluded\<rparr>"

definition scanApproval :: "approval_row \<Rightarrow> Approval" where
  "scanApproval r =
     \<lparr>Approval_ID = apr_id r, Approval_RunID = text_of (apr_run_id r),
     Approval_SessionID = text_of (apr_session_id r),
     Approval_ProjectID = text_of (apr_project_id r), Approval_Verb = apr_verb r,
     Approval_Selector = apr_selector r, Approval_Status = apr_status r,
     Approval_Channel = apr_channel r, Approval_Reason = apr_reason r,
     Approval_RequestedAt = timeFromMS (apr_requested_at r),
     Approval_DecidedAt = timeFromMS (apr_decided_at r)\<rparr>"

definition putApproval :: "store_db \<Rightarrow> Approval \<Rightarrow> store_error + store_db" where
  "putApproval db x =
     (case requireText ''approval id'' (Approval_ID x) of
        Some e \<Rightarrow> Inl e
      | None \<Rightarrow>
          let row = approval_args x;
              db' = db\<lparr>tbl_approvals := upsert_row apr_id merge_approval row (tbl_approvals db)\<rparr>
          in if approval_ok db' row then Inr db' else Inl (ErrSQL ''put approval''))"

definition getApproval :: "store_db \<Rightarrow> string \<Rightarrow> store_error + Approval" where
  "getApproval db i =
     (case lookup_row apr_id (tbl_approvals db) i of
        None \<Rightarrow> Inl (ErrNotFound ''approval'' i)
      | Some r \<Rightarrow> Inr (scanApproval r))"

text \<open>What the store keeps of the entity.\<close>

definition stored_approval :: "Approval option \<Rightarrow> Approval \<Rightarrow> Approval" where
  "stored_approval old x = x
     \<lparr>Approval_RequestedAt := (case old of None \<Rightarrow> stored_time (Approval_RequestedAt x) | Some o' \<Rightarrow> Approval_RequestedAt o'),
     Approval_DecidedAt := stored_time (Approval_DecidedAt x)\<rparr>"

interpretation approval_table: checked_table apr_id merge_approval approval_ok
  by unfold_locales (simp_all add: merge_approval_def approval_ok_def)

lemma putApproval_Inr:
  assumes "putApproval db x = Inr db'"
  shows "requireText ''approval id'' (Approval_ID x) = None"
    and "db' = db\<lparr>tbl_approvals := upsert_row apr_id merge_approval (approval_args x) (tbl_approvals db)\<rparr>"
    and "approval_ok db' (approval_args x)"
  using assms by (auto simp: putApproval_def Let_def split: option.splits if_splits)

interpretation approval_entity: row_entity apr_id merge_approval approval_args scanApproval tbl_approvals
  "ErrNotFound ''approval''" putApproval getApproval Approval_ID stored_approval
  by unfold_locales
    (auto dest: putApproval_Inr(2) simp: merge_approval_def approval_args_def scanApproval_def stored_approval_def
      stored_time_def getApproval_def)

end
