(* ===== verification/RuntimeJournal.thy ===== *)
theory RuntimeJournal
  imports RuntimeEntities
begin

text \<open>
  The event journal (\<open>internal/runtime/events.go\<close>), the transaction wrapper (\<open>store.go\<close>) and the
  two operations that change state and journal it in one transaction (\<open>transitions.go\<close>).

  The clock is the argument \<open>now\<close>. A transaction may fail to begin or to commit for reasons of the
  database file; the two flags of \<open>UpdateContext\<close> say so, and every theorem holds for all of them.
\<close>

section \<open>Appending\<close>

definition event_args :: "int \<Rightarrow> int \<Rightarrow> Event \<Rightarrow> event_row" where
  "event_args pos seq ev =
     \<lparr>ev_pos = pos, ev_stream = Event_Stream ev, ev_seq = seq, ev_at_ms = ms (Event_At ev),
      ev_session_id = Event_SessionID ev, ev_project_id = Event_ProjectID ev,
      ev_source = Event_Source ev, ev_kind = Event_Kind ev, ev_turn_ref = Event_TurnRef ev,
      ev_correlation_id = Event_CorrelationID ev, ev_payload = Event_Payload ev,
      ev_raw_ref = Event_RawRef ev\<rparr>"

definition set_last_seq :: "string \<Rightarrow> int \<Rightarrow> run_row list \<Rightarrow> run_row list" where
  "set_last_seq rid seq rows = map (\<lambda>r. if run_id r = rid then r\<lparr>run_last_seq := seq\<rparr> else r) rows"

definition event_defaults :: "gotime \<Rightarrow> Event \<Rightarrow> Event" where
  "event_defaults now ev =
     (let ev1 = (if Event_Source ev = [] then ev\<lparr>Event_Source := SourceRuntime\<rparr> else ev)
      in if is_zero (Event_At ev1) then ev1\<lparr>Event_At := now\<rparr> else ev1)"

definition next_seq :: "store_db \<Rightarrow> string \<Rightarrow> int" where
  "next_seq db s = max_col ev_seq (filter (\<lambda>r. ev_stream r = s) (tbl_events db)) + 1"

definition next_pos :: "store_db \<Rightarrow> int" where
  "next_pos db = max (events_autoinc db) (max_col ev_pos (tbl_events db)) + 1"

definition AppendEvent :: "gotime \<Rightarrow> store_db \<Rightarrow> Event \<Rightarrow> store_error + (store_db \<times> Event)" where
  "AppendEvent now db ev =
     (case requireText ''event stream'' (Event_Stream ev) of
        Some e \<Rightarrow> Inl e
      | None \<Rightarrow>
     (case requireText ''event kind'' (Event_Kind ev) of
        Some e \<Rightarrow> Inl e
      | None \<Rightarrow>
          let ev' = event_defaults now ev;
              seq = next_seq db (Event_Stream ev');
              pos = next_pos db;
              row = event_args pos seq ev'
          in if event_ok row \<and>
                (ev_stream row, ev_seq row) \<notin> set (map (\<lambda>r. (ev_stream r, ev_seq r)) (tbl_events db))
             then
               let db1 = db\<lparr>tbl_events := tbl_events db @ [row], events_autoinc := pos\<rparr>;
                   ev'' = ev'\<lparr>Event_Seq := seq, Event_Pos := pos\<rparr>;
                   db2 = (case runIDFromStream (Event_Stream ev'') of
                            None \<Rightarrow> db1
                          | Some rid \<Rightarrow> db1\<lparr>tbl_runs := set_last_seq rid seq (tbl_runs db1)\<rparr>)
               in Inr (db2, ev'')
             else Inl (ErrSQL ''append event'')))"

section \<open>Reading\<close>

definition scanEvent :: "event_row \<Rightarrow> Event" where
  "scanEvent r =
     \<lparr>Event_Pos = ev_pos r, Event_Stream = ev_stream r, Event_Seq = ev_seq r,
      Event_At = timeFromMS (ev_at_ms r), Event_SessionID = ev_session_id r,
      Event_ProjectID = ev_project_id r, Event_Source = ev_source r, Event_Kind = ev_kind r,
      Event_TurnRef = ev_turn_ref r, Event_CorrelationID = ev_correlation_id r,
      Event_Payload = ev_payload r, Event_RawRef = ev_raw_ref r\<rparr>"

abbreviation defaultEventPage :: int where "defaultEventPage \<equiv> 200"
abbreviation maxEventPage :: int where "maxEventPage \<equiv> 500"

definition eventPageLimit :: "int \<Rightarrow> int" where
  "eventPageLimit limit =
     (if limit \<le> 0 then defaultEventPage
      else if limit > maxEventPage then maxEventPage
      else limit)"

definition EventsAfter :: "store_db \<Rightarrow> int \<Rightarrow> int \<Rightarrow> Event list" where
  "EventsAfter db pos limit =
     map scanEvent (take (nat (eventPageLimit limit))
       (sort_key ev_pos (filter (\<lambda>r. ev_pos r > pos) (tbl_events db))))"

definition EventsForStream :: "store_db \<Rightarrow> string \<Rightarrow> int \<Rightarrow> int \<Rightarrow> Event list" where
  "EventsForStream db stream afterSeq limit =
     map scanEvent (take (nat (eventPageLimit limit))
       (sort_key ev_seq (filter (\<lambda>r. ev_stream r = stream \<and> ev_seq r > afterSeq) (tbl_events db))))"

definition JournalHead :: "store_db \<Rightarrow> int" where
  "JournalHead db = max_col ev_pos (tbl_events db)"

definition StreamHead :: "store_db \<Rightarrow> string \<Rightarrow> int" where
  "StreamHead db stream = max_col ev_seq (filter (\<lambda>r. ev_stream r = stream) (tbl_events db))"

record StoreStats =
  RunsActive :: nat
  RunsTotal :: nat
  SessionsOpen :: nat
  ComputerSessionsOpen :: nat
  PendingApprovals :: nat
  JournalPos :: int

definition Stats :: "store_db \<Rightarrow> StoreStats" where
  "Stats db =
     \<lparr>RunsActive = count_rows (\<lambda>r. run_status r \<in> set [''queued'', ''running'']) (tbl_runs db),
      RunsTotal = length (tbl_runs db),
      SessionsOpen = count_rows (\<lambda>r. ses_status r = ''open'') (tbl_sessions db),
      ComputerSessionsOpen =
        count_rows (\<lambda>r. cmp_state r \<notin> set [''closed'', ''failed'']) (tbl_computer_sessions db),
      PendingApprovals = count_rows (\<lambda>r. apr_status r = ''pending'') (tbl_approvals db),
      JournalPos = max_col ev_pos (tbl_events db)\<rparr>"

section \<open>Transactions\<close>

text \<open>
  \<open>Update(fn)\<close>: the callback works on the state of the transaction; its writes reach the committed
  state only if it returns no error and the commit succeeds.
\<close>

definition UpdateContext ::
  "bool \<Rightarrow> bool \<Rightarrow> (store_db \<Rightarrow> store_error + (store_db \<times> 'a)) \<Rightarrow> store_db \<Rightarrow>
   store_db \<times> (store_error + 'a)"
where
  "UpdateContext begin_ok commit_ok fn db =
     (if \<not> begin_ok then (db, Inl ErrBegin)
      else case fn db of
        Inl e \<Rightarrow> (db, Inl e)
      | Inr (db', v) \<Rightarrow> if commit_ok then (db', Inr v) else (db, Inl ErrCommit))"

section \<open>Run transitions\<close>

record RunTransition =
  TR_RunID :: string
  TR_Status :: RunStatus
  TR_At :: gotime
  TR_Source :: EventSource
  TR_ErrorCategory :: string
  TR_OutputRef :: string
  TR_CorrelationID :: string
  TR_Payload :: string

definition runTransitions :: "RunStatus \<Rightarrow> RunStatus list" where
  "runTransitions s =
     (if s = RunQueued then [RunRunning, RunCancelled]
      else if s = RunRunning then [RunCompleted, RunFailed, RunCancelled, RunTimeout, RunInterrupted]
      else [])"

definition canTransition :: "RunStatus \<Rightarrow> RunStatus \<Rightarrow> bool" where
  "canTransition from to = list_ex (\<lambda>next. next = to) (runTransitions from)"

definition transition_event :: "Run \<Rightarrow> RunTransition \<Rightarrow> Event" where
  "transition_event run tr =
     \<lparr>Event_Pos = 0, Event_Stream = StreamRun (Run_ID run), Event_Seq = 0, Event_At = TR_At tr,
      Event_SessionID = Run_SessionID run, Event_ProjectID = Run_ProjectID run,
      Event_Source = TR_Source tr, Event_Kind = ''run.'' @ TR_Status tr, Event_TurnRef = [],
      Event_CorrelationID = TR_CorrelationID tr, Event_Payload = TR_Payload tr, Event_RawRef = []\<rparr>"

definition apply_transition :: "RunTransition \<Rightarrow> Run \<Rightarrow> Run" where
  "apply_transition tr run =
     (let run = run\<lparr>Run_Status := TR_Status tr\<rparr>;
          run = (if TR_ErrorCategory tr \<noteq> [] then run\<lparr>Run_ErrorCategory := TR_ErrorCategory tr\<rparr> else run);
          run = (if TR_OutputRef tr \<noteq> [] then run\<lparr>Run_OutputRef := TR_OutputRef tr\<rparr> else run)
      in if TR_Status tr = RunRunning
         then (if is_zero (Run_StartedAt run) then run\<lparr>Run_StartedAt := TR_At tr\<rparr> else run)
         else if RunStatus_Terminal (TR_Status tr) then run\<lparr>Run_FinishedAt := TR_At tr\<rparr>
         else run)"

text \<open>The callback of \<open>TransitionRun\<close>, then the whole operation.\<close>

definition transition_tx ::
  "gotime \<Rightarrow> RunTransition \<Rightarrow> store_db \<Rightarrow> store_error + (store_db \<times> (Run \<times> Event))" where
  "transition_tx now tr db =
     (case getRun db (TR_RunID tr) of
        Inl e \<Rightarrow> Inl e
      | Inr run \<Rightarrow>
          if \<not> canTransition (Run_Status run) (TR_Status tr)
          then Inl (ErrIllegalTransition (Run_ID run) (Run_Status run) (TR_Status tr))
          else
            let run' = apply_transition tr run
            in case putRun db run' of
                 Inl e \<Rightarrow> Inl e
               | Inr db1 \<Rightarrow>
                   (case AppendEvent now db1 (transition_event run' tr) of
                      Inl e \<Rightarrow> Inl e
                    | Inr (db2, ev) \<Rightarrow> Inr (db2, (run'\<lparr>Run_LastSeq := Event_Seq ev\<rparr>, ev))))"

definition TransitionRun ::
  "bool \<Rightarrow> bool \<Rightarrow> gotime \<Rightarrow> RunTransition \<Rightarrow> store_db \<Rightarrow> store_db \<times> (store_error + (Run \<times> Event))"
where
  "TransitionRun begin_ok commit_ok now tr db =
     (case checkID (TR_RunID tr) idRun of
        Some e \<Rightarrow> (db, Inl e)
      | None \<Rightarrow>
          if \<not> RunStatus_valid (TR_Status tr) then (db, Inl (ErrUnknownRunStatus (TR_Status tr)))
          else if is_zero (TR_At tr) then (db, Inl ErrTransitionTimestamp)
          else UpdateContext begin_ok commit_ok (transition_tx now tr) db)"

section \<open>Controller changes\<close>

record ControllerChange =
  CC_ComputerSessionID :: string
  CC_Controller :: Controller
  CC_At :: gotime
  CC_Source :: EventSource
  CC_CorrelationID :: string
  CC_Payload :: string

definition validateController :: "Controller \<Rightarrow> store_error option" where
  "validateController c =
     (if Controller_Kind c = ControllerHuman then
        (if Controller_Channel c \<noteq> ChannelLocal \<and> Controller_Channel c \<noteq> ChannelRemote
         then Some (ErrHumanChannel (Controller_Channel c)) else None)
      else if Controller_Kind c = ControllerAgent \<or> Controller_Kind c = ControllerNone then
        (if Controller_Channel c \<noteq> ChannelNone
         then Some (ErrControllerChannel (Controller_Kind c) (Controller_Channel c)) else None)
      else Some (ErrControllerKind (Controller_Kind c)))"

definition controller_event :: "ComputerSession \<Rightarrow> ControllerChange \<Rightarrow> Event" where
  "controller_event s cc =
     \<lparr>Event_Pos = 0, Event_Stream = StreamComputer (CSession_ID s), Event_Seq = 0,
      Event_At = CC_At cc, Event_SessionID = CSession_SessionID s, Event_ProjectID = [],
      Event_Source = CC_Source cc, Event_Kind = ''computer.controller.changed'',
      Event_TurnRef = [], Event_CorrelationID = CC_CorrelationID cc,
      Event_Payload = CC_Payload cc, Event_RawRef = []\<rparr>"

definition controller_tx ::
  "gotime \<Rightarrow> ControllerChange \<Rightarrow> store_db \<Rightarrow> store_error + (store_db \<times> (ComputerSession \<times> Event))"
where
  "controller_tx now cc db =
     (case getComputerSession db (CC_ComputerSessionID cc) of
        Inl e \<Rightarrow> Inl e
      | Inr s \<Rightarrow>
          let s' = s\<lparr>CSession_Controller := CC_Controller cc,
                     CSession_ControllerEpoch := CSession_ControllerEpoch s + 1,
                     CSession_UpdatedAt := CC_At cc\<rparr>
          in case putComputerSession db s' of
               Inl e \<Rightarrow> Inl e
             | Inr db1 \<Rightarrow>
                 (case AppendEvent now db1 (controller_event s' cc) of
                    Inl e \<Rightarrow> Inl e
                  | Inr (db2, ev) \<Rightarrow> Inr (db2, (s', ev))))"

definition SetComputerController ::
  "bool \<Rightarrow> bool \<Rightarrow> gotime \<Rightarrow> ControllerChange \<Rightarrow> store_db \<Rightarrow>
   store_db \<times> (store_error + (ComputerSession \<times> Event))"
where
  "SetComputerController begin_ok commit_ok now cc db =
     (case checkID (CC_ComputerSessionID cc) idComputerSession of
        Some e \<Rightarrow> (db, Inl e)
      | None \<Rightarrow>
     (case validateController (CC_Controller cc) of
        Some e \<Rightarrow> (db, Inl e)
      | None \<Rightarrow>
          if is_zero (CC_At cc) then (db, Inl ErrControllerTimestamp)
          else UpdateContext begin_ok commit_ok (controller_tx now cc) db))"

end
