(* ===== verification/RuntimeInvariant.thy ===== *)
theory RuntimeInvariant
  imports RuntimeJournal
begin

text \<open>
  The invariant of the runtime store and its preservation by every operation of a transaction.
  \<open>entities_wf_in c db\<close> says that the tables of \<open>db\<close> have distinct primary keys, satisfy the
  \<open>CHECK\<close> clauses and unique indexes, and that their foreign keys name rows of \<open>c\<close>; a store is
  well formed when \<open>c\<close> is the store itself. Separating the two lets a write to one table keep the
  clauses of the others by monotonicity (\<open>entities_wf_grow\<close>).
\<close>

section \<open>The invariant\<close>

definition entities_wf_in :: "store_db \<Rightarrow> store_db \<Rightarrow> bool" where
  "entities_wf_in c db \<longleftrightarrow>
     table_ok prj_id (\<lambda>r. True) (tbl_projects db) \<and>
     table_ok root_key (\<lambda>r. fst (root_key r) \<in> set (project_keys c)) (tbl_project_roots db) \<and>
     table_ok sens_key (\<lambda>r. fst (sens_key r) \<in> set (project_keys c))
       (tbl_project_sensitive_paths db) \<and>
     table_ok ses_id (session_ok c) (tbl_sessions db) \<and>
     table_ok psn_id (provider_session_ok c) (tbl_provider_sessions db) \<and>
     unique_native (tbl_provider_sessions db) \<and>
     table_ok run_id (run_ok c) (tbl_runs db) \<and>
     unique_active (tbl_runs db) \<and>
     table_ok cmp_id (computer_session_ok c) (tbl_computer_sessions db) \<and>
     table_ok child_key (\<lambda>r. fst (child_key r) \<in> set (computer_session_keys c))
       (tbl_computer_session_verbs db) \<and>
     table_ok child_key (\<lambda>r. fst (child_key r) \<in> set (computer_session_keys c))
       (tbl_computer_session_apps db) \<and>
     table_ok art_id (artifact_ok c) (tbl_artifacts db) \<and>
     table_ok rule_id (policy_rule_ok c) (tbl_policy_rules db) \<and>
     table_ok apr_id (approval_ok c) (tbl_approvals db) \<and>
     table_ok grt_id (grant_ok c) (tbl_grants db)"

text \<open>
  The journal: the rows are in the order of their global positions, which never exceed the last
  position given out, and in every stream the sequence numbers count up from one.
\<close>

definition stream_rows :: "store_db \<Rightarrow> string \<Rightarrow> event_row list" where
  "stream_rows db s = filter (\<lambda>r. ev_stream r = s) (tbl_events db)"

definition journal_wf :: "store_db \<Rightarrow> bool" where
  "journal_wf db \<longleftrightarrow>
     sorted_wrt (\<lambda>a b. ev_pos a < ev_pos b) (tbl_events db) \<and>
     (\<forall>e \<in> set (tbl_events db). 0 < ev_pos e \<and> ev_pos e \<le> events_autoinc db \<and> event_ok e) \<and>
     (\<forall>s. map ev_seq (stream_rows db s) = [1..int (length (stream_rows db s))]) \<and>
     0 \<le> events_autoinc db"

definition store_wf :: "store_db \<Rightarrow> bool" where
  "store_wf db \<longleftrightarrow> entities_wf_in db db \<and> journal_wf db"

lemma store_wf_empty: "store_wf empty_db"
  by (simp add: store_wf_def entities_wf_in_def journal_wf_def stream_rows_def empty_db_def
      table_ok_def unique_native_def unique_active_def)

lemma entities_wf_grow:
  assumes "entities_wf_in c db" and "keys_grow c c'"
  shows "entities_wf_in c' db"
proof -
  have "\<And>k. k \<in> set (project_keys c) \<Longrightarrow> k \<in> set (project_keys c')"
    and "\<And>k. k \<in> set (computer_session_keys c) \<Longrightarrow> k \<in> set (computer_session_keys c')"
    using assms(2) unfolding keys_grow_def by blast+
  note grow = this ok_grow [OF assms(2)]
  show ?thesis
    using assms(1) unfolding entities_wf_in_def
    by (elim conjE, intro conjI) (assumption | erule table_ok_mono, erule grow)+
qed

section \<open>The putters keep the invariant\<close>

text \<open>
  A write that lets the referenced keys grow and leaves the journal alone has to establish the
  invariant for its own table only.
\<close>

lemma store_wf_write:
  assumes "store_wf db" and "keys_grow db db'"
    and "tbl_events db' = tbl_events db" and "events_autoinc db' = events_autoinc db"
    and "entities_wf_in db db \<Longrightarrow> entities_wf_in db' db \<Longrightarrow> entities_wf_in db' db'"
  shows "store_wf db'"
  using assms by (auto simp: store_wf_def journal_wf_def stream_rows_def intro: entities_wf_grow)

lemma putSession_wf:
  assumes wf: "store_wf db" and put: "putSession db x = Inr db'"
  shows "store_wf db'"
proof (rule store_wf_write [OF wf])
  let ?rows = "upsert_row ses_id merge_session (session_args x) (tbl_sessions db)"
  have db': "db' = db\<lparr>tbl_sessions := ?rows\<rparr>"
    using put by (rule putSession_Inr)
  then show "tbl_events db' = tbl_events db" and "events_autoinc db' = events_autoinc db"
    by simp_all
  show grow: "keys_grow db db'"
    by (auto simp: keys_grow_def db' session_table.keys_upsert)
  assume old: "entities_wf_in db db" "entities_wf_in db' db"
  have "table_ok ses_id (session_ok db') ?rows"
    using old(1) putSession_Inr(3) [OF put]
    by (intro session_table.table_ok_upsert [where d = db])
      (auto simp: entities_wf_in_def intro: session_ok_grow [OF grow])
  with old(2) have "entities_wf_in db' (db\<lparr>tbl_sessions := ?rows\<rparr>)"
    by (simp add: entities_wf_in_def)
  with db' show "entities_wf_in db' db'" by simp
qed

lemma putProviderSession_wf:
  assumes wf: "store_wf db" and put: "putProviderSession db x = Inr db'"
  shows "store_wf db'"
proof (rule store_wf_write [OF wf])
  let ?rows = "upsert_row psn_id merge_provider_session (provider_session_args x) (tbl_provider_sessions db)"
  have db': "db' = db\<lparr>tbl_provider_sessions := ?rows\<rparr>"
    using put by (rule putProviderSession_Inr)
  then show "tbl_events db' = tbl_events db" and "events_autoinc db' = events_autoinc db"
    by simp_all
  show grow: "keys_grow db db'"
    by (auto simp: keys_grow_def db' provider_session_table.keys_upsert)
  assume old: "entities_wf_in db db" "entities_wf_in db' db"
  have "table_ok psn_id (provider_session_ok db') ?rows"
    using old(1) putProviderSession_Inr(3) [OF put]
    by (intro provider_session_table.table_ok_upsert [where d = db])
      (auto simp: entities_wf_in_def intro: provider_session_ok_grow [OF grow])
  with old(2) putProviderSession_Inr(4) [OF put] db' have "entities_wf_in db' (db\<lparr>tbl_provider_sessions := ?rows\<rparr>)"
    by (simp add: entities_wf_in_def)
  with db' show "entities_wf_in db' db'" by simp
qed

lemma putRun_wf:
  assumes wf: "store_wf db" and put: "putRun db x = Inr db'"
  shows "store_wf db'"
proof (rule store_wf_write [OF wf])
  let ?rows = "upsert_row run_id merge_run (run_args x) (tbl_runs db)"
  have db': "db' = db\<lparr>tbl_runs := ?rows\<rparr>"
    using put by (rule putRun_Inr)
  then show "tbl_events db' = tbl_events db" and "events_autoinc db' = events_autoinc db"
    by simp_all
  show grow: "keys_grow db db'"
    by (auto simp: keys_grow_def db' run_table.keys_upsert)
  assume old: "entities_wf_in db db" "entities_wf_in db' db"
  have "table_ok run_id (run_ok db') ?rows"
    using old(1) putRun_Inr(3) [OF put]
    by (intro run_table.table_ok_upsert [where d = db])
      (auto simp: entities_wf_in_def intro: run_ok_grow [OF grow])
  with old(2) putRun_Inr(4) [OF put] db' have "entities_wf_in db' (db\<lparr>tbl_runs := ?rows\<rparr>)"
    by (simp add: entities_wf_in_def)
  with db' show "entities_wf_in db' db'" by simp
qed

lemma putArtifact_wf:
  assumes wf: "store_wf db" and put: "putArtifact db x = Inr db'"
  shows "store_wf db'"
proof (rule store_wf_write [OF wf])
  let ?rows = "upsert_row art_id merge_artifact (artifact_args x) (tbl_artifacts db)"
  have db': "db' = db\<lparr>tbl_artifacts := ?rows\<rparr>"
    using put by (rule putArtifact_Inr)
  then show "tbl_events db' = tbl_events db" and "events_autoinc db' = events_autoinc db"
    by simp_all
  show grow: "keys_grow db db'"
    by (auto simp: keys_grow_def db' artifact_table.keys_upsert)
  assume old: "entities_wf_in db db" "entities_wf_in db' db"
  have "table_ok art_id (artifact_ok db') ?rows"
    using old(1) putArtifact_Inr(3) [OF put]
    by (intro artifact_table.table_ok_upsert [where d = db])
      (auto simp: entities_wf_in_def intro: artifact_ok_grow [OF grow])
  with old(2) have "entities_wf_in db' (db\<lparr>tbl_artifacts := ?rows\<rparr>)"
    by (simp add: entities_wf_in_def)
  with db' show "entities_wf_in db' db'" by simp
qed

lemma putPolicyRule_wf:
  assumes wf: "store_wf db" and put: "putPolicyRule db x = Inr db'"
  shows "store_wf db'"
proof (rule store_wf_write [OF wf])
  let ?rows = "upsert_row rule_id merge_policy_rule (policy_rule_args x) (tbl_policy_rules db)"
  have db': "db' = db\<lparr>tbl_policy_rules := ?rows\<rparr>"
    using put by (rule putPolicyRule_Inr)
  then show "tbl_events db' = tbl_events db" and "events_autoinc db' = events_autoinc db"
    by simp_all
  show grow: "keys_grow db db'"
    by (auto simp: keys_grow_def db' policy_rule_table.keys_upsert)
  assume old: "entities_wf_in db db" "entities_wf_in db' db"
  have "table_ok rule_id (policy_rule_ok db') ?rows"
    using old(1) putPolicyRule_Inr(3) [OF put]
    by (intro policy_rule_table.table_ok_upsert [where d = db])
      (auto simp: entities_wf_in_def intro: policy_rule_ok_grow [OF grow])
  with old(2) have "entities_wf_in db' (db\<lparr>tbl_policy_rules := ?rows\<rparr>)"
    by (simp add: entities_wf_in_def)
  with db' show "entities_wf_in db' db'" by simp
qed

lemma putGrant_wf:
  assumes wf: "store_wf db" and put: "putGrant db x = Inr db'"
  shows "store_wf db'"
proof (rule store_wf_write [OF wf])
  let ?rows = "upsert_row grt_id merge_grant (grant_args x) (tbl_grants db)"
  have db': "db' = db\<lparr>tbl_grants := ?rows\<rparr>"
    using put by (rule putGrant_Inr)
  then show "tbl_events db' = tbl_events db" and "events_autoinc db' = events_autoinc db"
    by simp_all
  show grow: "keys_grow db db'"
    by (auto simp: keys_grow_def db' grant_table.keys_upsert)
  assume old: "entities_wf_in db db" "entities_wf_in db' db"
  have "table_ok grt_id (grant_ok db') ?rows"
    using old(1) putGrant_Inr(3) [OF put]
    by (intro grant_table.table_ok_upsert [where d = db])
      (auto simp: entities_wf_in_def intro: grant_ok_grow [OF grow])
  with old(2) have "entities_wf_in db' (db\<lparr>tbl_grants := ?rows\<rparr>)"
    by (simp add: entities_wf_in_def)
  with db' show "entities_wf_in db' db'" by simp
qed

lemma putApproval_wf:
  assumes wf: "store_wf db" and put: "putApproval db x = Inr db'"
  shows "store_wf db'"
proof (rule store_wf_write [OF wf])
  let ?rows = "upsert_row apr_id merge_approval (approval_args x) (tbl_approvals db)"
  have db': "db' = db\<lparr>tbl_approvals := ?rows\<rparr>"
    using put by (rule putApproval_Inr)
  then show "tbl_events db' = tbl_events db" and "events_autoinc db' = events_autoinc db"
    by simp_all
  show grow: "keys_grow db db'"
    by (auto simp: keys_grow_def db' approval_table.keys_upsert)
  assume old: "entities_wf_in db db" "entities_wf_in db' db"
  have "table_ok apr_id (approval_ok db') ?rows"
    using old(1) putApproval_Inr(3) [OF put]
    by (intro approval_table.table_ok_upsert [where d = db])
      (auto simp: entities_wf_in_def intro: approval_ok_grow [OF grow])
  with old(2) have "entities_wf_in db' (db\<lparr>tbl_approvals := ?rows\<rparr>)"
    by (simp add: entities_wf_in_def)
  with db' show "entities_wf_in db' db'" by simp
qed

lemma putProject_wf:
  assumes wf: "store_wf db" and put: "putProject db x = Inr db'"
  shows "store_wf db'"
proof (rule store_wf_write [OF wf])
  let ?rows = "upsert_row prj_id merge_project (project_args x) (tbl_projects db)"
  from put obtain roots paths where db': "db' = db\<lparr>tbl_projects := ?rows,
      tbl_project_roots := roots, tbl_project_sensitive_paths := paths\<rparr>"
    and pid: "Project_ID x \<in> set (project_keys db')"
    and roots: "replace_children root_key root_args (project_keys db') (Project_ID x)
      (Project_Roots x) (tbl_project_roots db) = Some roots"
    and paths: "replace_children sens_key sens_args (project_keys db') (Project_ID x)
      (Project_SensitivePaths x) (tbl_project_sensitive_paths db) = Some paths"
    by (rule putProject_Inr)
  then show "tbl_events db' = tbl_events db" and "events_autoinc db' = events_autoinc db"
    by simp_all
  show grow: "keys_grow db db'"
    by (auto simp: keys_grow_def db' project_table.keys_upsert)
  then have sub: "set (project_keys db) \<subseteq> set (project_keys db')"
    by (simp add: keys_grow_def)
  assume old: "entities_wf_in db db" "entities_wf_in db' db"
  have "table_ok prj_id (\<lambda>r. True) ?rows"
    using old(1) by (intro project_table.table_ok_upsert) (simp_all add: entities_wf_in_def)
  moreover have "table_ok root_key (\<lambda>r. fst (root_key r) \<in> set (project_keys db')) roots"
    using old(1) by (intro root_table.table_ok_replaced [OF _ pid sub roots]) (simp add: entities_wf_in_def)
  moreover have "table_ok sens_key (\<lambda>r. fst (sens_key r) \<in> set (project_keys db')) paths"
    using old(1) by (intro sens_table.table_ok_replaced [OF _ pid sub paths]) (simp add: entities_wf_in_def)
  ultimately have "entities_wf_in db' (db\<lparr>tbl_projects := ?rows, tbl_project_roots := roots,
      tbl_project_sensitive_paths := paths\<rparr>)"
    using old(2) by (simp add: entities_wf_in_def)
  with db' show "entities_wf_in db' db'" by simp
qed

lemma putComputerSession_wf:
  assumes wf: "store_wf db" and put: "putComputerSession db x = Inr db'"
  shows "store_wf db'"
proof (rule store_wf_write [OF wf])
  let ?rows = "upsert_row cmp_id merge_computer_session (computer_session_args x)
    (tbl_computer_sessions db)"
  from put obtain verbs apps where db': "db' = db\<lparr>tbl_computer_sessions := ?rows,
      tbl_computer_session_verbs := verbs, tbl_computer_session_apps := apps\<rparr>"
    and ok: "computer_session_ok db' (computer_session_args x)"
    and cid: "CSession_ID x \<in> set (computer_session_keys db')"
    and verbs: "replace_children child_key child_args (computer_session_keys db') (CSession_ID x)
      (CSession_GrantedVerbs x) (tbl_computer_session_verbs db) = Some verbs"
    and apps: "replace_children child_key child_args (computer_session_keys db') (CSession_ID x)
      (CSession_AppSelectors x) (tbl_computer_session_apps db) = Some apps"
    by (rule putComputerSession_Inr)
  then show "tbl_events db' = tbl_events db" and "events_autoinc db' = events_autoinc db"
    by simp_all
  show grow: "keys_grow db db'"
    by (auto simp: keys_grow_def db' computer_session_table.keys_upsert)
  then have sub: "set (computer_session_keys db) \<subseteq> set (computer_session_keys db')"
    by (simp add: keys_grow_def)
  assume old: "entities_wf_in db db" "entities_wf_in db' db"
  have "table_ok cmp_id (computer_session_ok db') ?rows"
    using old(1) ok
    by (intro computer_session_table.table_ok_upsert [where d = db])
      (auto simp: entities_wf_in_def intro: computer_session_ok_grow [OF grow])
  moreover have "table_ok child_key (\<lambda>r. fst (child_key r) \<in> set (computer_session_keys db')) verbs"
    using old(1)
    by (intro cmp_child_table.table_ok_replaced [OF _ cid sub verbs]) (simp add: entities_wf_in_def)
  moreover have "table_ok child_key (\<lambda>r. fst (child_key r) \<in> set (computer_session_keys db')) apps"
    using old(1)
    by (intro cmp_child_table.table_ok_replaced [OF _ cid sub apps]) (simp add: entities_wf_in_def)
  ultimately have "entities_wf_in db' (db\<lparr>tbl_computer_sessions := ?rows,
      tbl_computer_session_verbs := verbs, tbl_computer_session_apps := apps\<rparr>)"
    using old(2) by (simp add: entities_wf_in_def)
  with db' show "entities_wf_in db' db'" by simp
qed

section \<open>Appending keeps the invariant\<close>

lemma event_args_simps [simp]:
  "ev_pos (event_args p q e) = p" "ev_seq (event_args p q e) = q"
  "ev_stream (event_args p q e) = Event_Stream e"
  by (simp_all add: event_args_def)

lemma event_defaults_simps [simp]:
  "Event_Stream (event_defaults now e) = Event_Stream e"
  "Event_Kind (event_defaults now e) = Event_Kind e"
  by (simp_all add: event_defaults_def Let_def)

text \<open>What a successful append does: one row at the end of the journal, and the stream head copied
  to the run of a run stream.\<close>

lemma AppendEvent_Inr:
  assumes "AppendEvent now db ev = Inr (db', ev')"
  shows "Event_Stream ev \<noteq> []" and "Event_Kind ev \<noteq> []"
    and "ev' = (event_defaults now ev)\<lparr>Event_Seq := next_seq db (Event_Stream ev),
      Event_Pos := next_pos db\<rparr>"
    and "tbl_events db' = tbl_events db @
      [event_args (next_pos db) (next_seq db (Event_Stream ev)) (event_defaults now ev)]"
    and "events_autoinc db' = next_pos db"
    and "event_ok (event_args (next_pos db) (next_seq db (Event_Stream ev)) (event_defaults now ev))"
    and "db' = db\<lparr>tbl_events := tbl_events db', events_autoinc := events_autoinc db',
      tbl_runs := (case runIDFromStream (Event_Stream ev) of None \<Rightarrow> tbl_runs db
        | Some rid \<Rightarrow> set_last_seq rid (next_seq db (Event_Stream ev)) (tbl_runs db))\<rparr>"
proof -
  note facts = assms [unfolded AppendEvent_def Let_def event_defaults_simps]
  show "Event_Stream ev \<noteq> []" and "Event_Kind ev \<noteq> []"
    and "ev' = (event_defaults now ev)\<lparr>Event_Seq := next_seq db (Event_Stream ev),
      Event_Pos := next_pos db\<rparr>"
    and "tbl_events db' = tbl_events db @
      [event_args (next_pos db) (next_seq db (Event_Stream ev)) (event_defaults now ev)]"
    and "events_autoinc db' = next_pos db"
    and "event_ok (event_args (next_pos db) (next_seq db (Event_Stream ev)) (event_defaults now ev))"
    and "db' = db\<lparr>tbl_events := tbl_events db', events_autoinc := events_autoinc db',
      tbl_runs := (case runIDFromStream (Event_Stream ev) of None \<Rightarrow> tbl_runs db
        | Some rid \<Rightarrow> set_last_seq rid (next_seq db (Event_Stream ev)) (tbl_runs db))\<rparr>"
    using facts by (auto simp: requireText_def split: option.splits if_splits)
qed

lemma stream_rows_StreamHead: "StreamHead db s = max_col ev_seq (stream_rows db s)"
  by (simp add: StreamHead_def stream_rows_def)

lemma journal_wf_head: "journal_wf db \<Longrightarrow> StreamHead db s = int (length (stream_rows db s))"
  by (simp add: stream_rows_StreamHead journal_wf_def max_col_upto)

lemma next_seq_head: "next_seq db s = StreamHead db s + 1"
  by (simp add: next_seq_def StreamHead_def)

lemma journal_wf_next_pos: "journal_wf db \<Longrightarrow> next_pos db = events_autoinc db + 1"
proof -
  assume "journal_wf db"
  then have "max_col ev_pos (tbl_events db) \<le> events_autoinc db"
    by (auto simp: max_col_Max journal_wf_def Max_le_iff)
  then show ?thesis by (simp add: next_pos_def)
qed

lemma table_ok_set_last_seq:
  "table_ok run_id (run_ok c) rows \<Longrightarrow> table_ok run_id (run_ok c) (set_last_seq rid seq rows)"
proof -
  have "map run_id (set_last_seq rid seq rows) = map run_id rows"
    by (simp add: set_last_seq_def)
  moreover assume ok: "table_ok run_id (run_ok c) rows"
  moreover from ok have "\<forall>r \<in> set (set_last_seq rid seq rows). run_ok c r"
    by (auto simp: table_ok_def set_last_seq_def run_ok_def)
  ultimately show ?thesis
    unfolding table_ok_def by simp
qed

lemma unique_active_set_last_seq: "unique_active (set_last_seq rid seq rows) = unique_active rows"
proof -
  have "map run_provider_session_id (filter run_active (set_last_seq rid seq rows)) =
      map run_provider_session_id (filter run_active rows)"
    by (induction rows) (auto simp: set_last_seq_def run_active_def)
  then show ?thesis by (simp add: unique_active_def)
qed

lemma AppendEvent_journal_wf:
  assumes "journal_wf db" and append: "AppendEvent now db ev = Inr (db', ev')"
  shows "journal_wf db'"
proof -
  note facts = AppendEvent_Inr [OF append]
  let ?s = "Event_Stream ev" and ?seq = "next_seq db (Event_Stream ev)"
  let ?row = "event_args (next_pos db) ?seq (event_defaults now ev)"
  have pos: "next_pos db = events_autoinc db + 1"
    using assms(1) by (rule journal_wf_next_pos)
  have streams: "stream_rows db' s = (if s = ?s then stream_rows db s @ [?row] else stream_rows db s)" for s
    by (simp add: stream_rows_def facts(4))
  have "map ev_seq (stream_rows db' s) = [1..int (length (stream_rows db' s))]" for s
  proof (cases "s = ?s")
    case True
    have "?seq = int (length (stream_rows db s)) + 1"
      using assms(1) True by (simp add: next_seq_head journal_wf_head)
    then show ?thesis
      using assms(1) True upto_rec2 [of 1 "int (length (stream_rows db s)) + 1"]
      by (simp add: streams journal_wf_def add.commute)
  next
    case False
    then show ?thesis using assms(1) by (simp add: streams journal_wf_def)
  qed
  moreover have "sorted_wrt (\<lambda>a b. ev_pos a < ev_pos b) (tbl_events db')"
    using assms(1) by (auto simp: facts(4) journal_wf_def sorted_wrt_append pos)
  moreover have "\<forall>e \<in> set (tbl_events db'). 0 < ev_pos e \<and> ev_pos e \<le> events_autoinc db' \<and> event_ok e"
    using assms(1) facts(6) by (auto simp: facts(4,5) journal_wf_def pos)
  moreover have "0 \<le> events_autoinc db'"
    using assms(1) by (simp add: facts(5) pos journal_wf_def)
  ultimately show ?thesis by (simp add: journal_wf_def)
qed

lemma AppendEvent_wf:
  assumes "store_wf db" and append: "AppendEvent now db ev = Inr (db', ev')"
  shows "store_wf db'"
proof -
  let ?runs = "case runIDFromStream (Event_Stream ev) of None \<Rightarrow> tbl_runs db
    | Some rid \<Rightarrow> set_last_seq rid (next_seq db (Event_Stream ev)) (tbl_runs db)"
  have db': "db' = db\<lparr>tbl_events := tbl_events db', events_autoinc := events_autoinc db',
      tbl_runs := ?runs\<rparr>"
    using append by (rule AppendEvent_Inr)
  have "map run_id ?runs = map run_id (tbl_runs db)"
    by (simp add: set_last_seq_def split: option.split)
  then have grow: "keys_grow db db'"
    by (subst db') (simp add: keys_grow_def)
  have old: "entities_wf_in db' db"
    using assms(1) grow by (auto simp: store_wf_def intro: entities_wf_grow)
  then have "table_ok run_id (run_ok db') ?runs" "unique_active ?runs"
    by (auto simp: entities_wf_in_def table_ok_set_last_seq unique_active_set_last_seq
        split: option.split)
  with old have "entities_wf_in db' (db\<lparr>tbl_events := tbl_events db',
      events_autoinc := events_autoinc db', tbl_runs := ?runs\<rparr>)"
    by (simp add: entities_wf_in_def)
  with db' have "entities_wf_in db' db'" by simp
  then show ?thesis
    using AppendEvent_journal_wf [OF _ append] assms(1) by (simp add: store_wf_def)
qed

end
