(* ===== verification/JournalSpec.thy ===== *)
theory JournalSpec
  imports Main
begin

text \<open>
  The interface of an event journal with per-stream cursors, as its readers use it: \<open>page j s a n\<close>
  is the page of stream \<open>s\<close> strictly after sequence number \<open>a\<close> for a requested size \<open>n\<close>, \<open>head\<close>
  the last sequence number of a stream, \<open>bound\<close> the page size actually served. Both journals of
  the program provide it: the one of the runtime store and the one of the client's run manager.
\<close>

text \<open>A reader that follows a stream: it asks for the page after its cursor until one is empty.\<close>

fun follow :: "(int \<Rightarrow> 'e list) \<Rightarrow> ('e \<Rightarrow> int) \<Rightarrow> nat \<Rightarrow> int \<Rightarrow> 'e list" where
  "follow page seq 0 a = []"
| "follow page seq (Suc k) a =
     (case page a of [] \<Rightarrow> [] | e # es \<Rightarrow> (e # es) @ follow page seq k (seq (last (e # es))))"

lemma follow_step:
  "page a \<noteq> [] \<Longrightarrow> follow page seq (Suc k) a = page a @ follow page seq k (seq (last (page a)))"
  by (cases "page a") simp_all

lemma take_upto: "take n [i..j] = [i..min j (i + int n - 1)]"
proof (induction n arbitrary: i)
  case 0
  then show ?case by simp
next
  case (Suc n)
  show ?case
  proof (cases "i \<le> j")
    case True
    then have "take (Suc n) [i..j] = i # take n [i + 1..j]"
      by (simp add: upto_rec1)
    also have "\<dots> = i # [i + 1..min j (i + int n)]"
      by (simp add: Suc.IH algebra_simps)
    also have "\<dots> = [i..min j (i + int n)]"
      using True by (simp add: upto_rec1)
    finally show ?thesis by simp
  qed simp
qed

lemma filter_upto: "0 \<le> a \<Longrightarrow> filter (\<lambda>x. x > a) [1..n] = [a + 1..n]"
proof (cases "a \<le> n")
  case True
  assume "0 \<le> a"
  with True have "[1..n] = [1..a] @ [a + 1..n]"
    using upto_split2 [of 1 a n] by (cases "a = 0") simp_all
  then show ?thesis by (simp add: filter_empty_conv filter_id_conv)
qed (simp add: filter_empty_conv)

locale event_journal =
  fixes wf :: "'j \<Rightarrow> bool"
    and page :: "'j \<Rightarrow> 's \<Rightarrow> int \<Rightarrow> int \<Rightarrow> 'e list"
    and head :: "'j \<Rightarrow> 's \<Rightarrow> int"
    and seq :: "'e \<Rightarrow> int"
    and bound :: "int \<Rightarrow> int"
  assumes page_seqs: "wf j \<Longrightarrow> 0 \<le> a \<Longrightarrow> map seq (page j s a n) = [a + 1..min (head j s) (a + bound n)]"
    and bound_pos: "0 < bound n"
begin

lemma page_empty: "wf j \<Longrightarrow> 0 \<le> a \<Longrightarrow> page j s a n = [] \<longleftrightarrow> head j s \<le> a"
proof -
  assume "wf j" and "0 \<le> a"
  then have "page j s a n = [] \<longleftrightarrow> [a + 1..min (head j s) (a + bound n)] = []"
    using page_seqs [of j a s n] by (metis list.map_disc_iff)
  also have "\<dots> \<longleftrightarrow> head j s \<le> a"
    using bound_pos [of n] by auto
  finally show ?thesis .
qed

lemma page_last:
  assumes "wf j" and "0 \<le> a" and "page j s a n \<noteq> []"
  shows "seq (last (page j s a n)) = min (head j s) (a + bound n)"
proof -
  have "seq (last (page j s a n)) = last (map seq (page j s a n))"
    using assms(3) by (simp add: last_map)
  also have "\<dots> = min (head j s) (a + bound n)"
    using assms page_empty [OF assms(1,2)] bound_pos [of n]
    by (simp add: page_seqs upto_rec2)
  finally show ?thesis .
qed

text \<open>The pages tile the stream: a reader that follows it sees every event once, in order.\<close>

lemma follow_seqs:
  assumes "wf j" and "0 \<le> a" and "head j s - a \<le> int k"
  shows "map seq (follow (\<lambda>a. page j s a n) seq k a) = [a + 1..head j s]"
  using assms(2,3)
proof (induction k arbitrary: a)
  case (Suc k)
  show ?case
  proof (cases "page j s a n")
    case Nil
    then show ?thesis using page_empty [OF assms(1) Suc.prems(1), of s n] by simp
  next
    case (Cons e es)
    define b where "b = seq (last (e # es))"
    have b: "b = min (head j s) (a + bound n)"
      using page_last [OF assms(1) Suc.prems(1), of s n] Cons by (simp add: b_def)
    have lt: "a < head j s"
      using page_empty [OF assms(1) Suc.prems(1), of s n] Cons by simp
    have "map seq (follow (\<lambda>a. page j s a n) seq k b) = [b + 1..head j s]"
      using Suc.prems bound_pos [of n] lt by (intro Suc.IH) (auto simp: b)
    moreover have "map seq (e # es) = [a + 1..b]"
      using page_seqs [OF assms(1) Suc.prems(1), of s n] Cons b by simp
    moreover have "[a + 1..head j s] = [a + 1..b] @ [b + 1..head j s]"
      using lt bound_pos [of n] by (intro upto_split2) (auto simp: b)
    ultimately show ?thesis by (simp add: Cons del: last.simps flip: b_def)
  qed
qed simp

end

end
