(* ===== verification/RuntimeStore.thy ===== *)
theory RuntimeStore
  imports RuntimeInvariant JournalSpec
begin

text \<open>
  What the runtime store promises. A callback of \<open>Update\<close> can change the store only through the
  methods of \<open>Tx\<close>; \<open>tx_step\<close> is one such call that succeeds, and \<open>reachable_db\<close> are the committed
  states: the freshly migrated store, and what a committed transaction makes of a committed state.
\<close>

section \<open>Reachable states\<close>

inductive tx_step :: "store_db \<Rightarrow> store_db \<Rightarrow> bool" where
  PutProject: "putProject db p = Inr db' \<Longrightarrow> tx_step db db'"
| PutSession: "putSession db s = Inr db' \<Longrightarrow> tx_step db db'"
| PutProviderSession: "putProviderSession db ps = Inr db' \<Longrightarrow> tx_step db db'"
| PutRun: "putRun db r = Inr db' \<Longrightarrow> tx_step db db'"
| PutComputerSession: "putComputerSession db c = Inr db' \<Longrightarrow> tx_step db db'"
| PutArtifact: "putArtifact db a = Inr db' \<Longrightarrow> tx_step db db'"
| PutPolicyRule: "putPolicyRule db pr = Inr db' \<Longrightarrow> tx_step db db'"
| PutGrant: "putGrant db g = Inr db' \<Longrightarrow> tx_step db db'"
| PutApproval: "putApproval db ap = Inr db' \<Longrightarrow> tx_step db db'"
| Append: "AppendEvent now db ev = Inr (db', ev') \<Longrightarrow> tx_step db db'"

inductive reachable_db :: "store_db \<Rightarrow> bool" where
  fresh: "reachable_db empty_db"
| commit: "reachable_db db \<Longrightarrow> tx_step\<^sup>*\<^sup>* db db' \<Longrightarrow> reachable_db db'"

definition tx_fn :: "(store_db \<Rightarrow> store_error + (store_db \<times> 'a)) \<Rightarrow> bool" where
  "tx_fn fn \<longleftrightarrow> (\<forall>db db' v. fn db = Inr (db', v) \<longrightarrow> tx_step\<^sup>*\<^sup>* db db')"

lemma tx_step_wf: "tx_step db db' \<Longrightarrow> store_wf db \<Longrightarrow> store_wf db'"
  by (induction rule: tx_step.induct)
    (blast intro: putProject_wf putSession_wf putProviderSession_wf putRun_wf putComputerSession_wf
      putArtifact_wf putPolicyRule_wf putGrant_wf putApproval_wf AppendEvent_wf)+

lemma tx_steps_wf: "tx_step\<^sup>*\<^sup>* db db' \<Longrightarrow> store_wf db \<Longrightarrow> store_wf db'"
  by (induction rule: rtranclp_induct) (auto intro: tx_step_wf)

lemma reachable_wf: "reachable_db db \<Longrightarrow> store_wf db"
  by (induction rule: reachable_db.induct) (auto intro: store_wf_empty tx_steps_wf)

lemma reachable_step: "reachable_db db \<Longrightarrow> tx_step db db' \<Longrightarrow> reachable_db db'"
  by (blast intro: reachable_db.commit)

lemma reachable_Update: "reachable_db db \<Longrightarrow> tx_fn fn \<Longrightarrow> reachable_db (fst (UpdateContext b c fn db))"
  by (auto simp: UpdateContext_def tx_fn_def split: sum.split intro: reachable_db.commit)

text \<open>What the two journalled operations did when their callback succeeded.\<close>

lemma transition_tx_Inr:
  assumes "transition_tx now tr db = Inr (db', (run', ev))"
  obtains run db1 where "getRun db (TR_RunID tr) = Inr run"
    and "canTransition (Run_Status run) (TR_Status tr)"
    and "putRun db (apply_transition tr run) = Inr db1"
    and "AppendEvent now db1 (transition_event (apply_transition tr run) tr) = Inr (db', ev)"
    and "run' = (apply_transition tr run)\<lparr>Run_LastSeq := Event_Seq ev\<rparr>"
  using assms unfolding transition_tx_def Let_def
  by (fastforce split: sum.splits if_splits prod.splits)

lemma controller_tx_Inr:
  assumes "controller_tx now cc db = Inr (db', (s', ev))"
  obtains s db1 where "getComputerSession db (CC_ComputerSessionID cc) = Inr s"
    and "s' = s\<lparr>CSession_Controller := CC_Controller cc,
      CSession_ControllerEpoch := CSession_ControllerEpoch s + 1, CSession_UpdatedAt := CC_At cc\<rparr>"
    and "putComputerSession db s' = Inr db1"
    and "AppendEvent now db1 (controller_event s' cc) = Inr (db', ev)"
  using assms unfolding controller_tx_def Let_def
  by (fastforce split: sum.splits if_splits prod.splits)

lemma tx_two_steps: "tx_step db db1 \<Longrightarrow> tx_step db1 db2 \<Longrightarrow> tx_step\<^sup>*\<^sup>* db db2"
  by (rule rtranclp.rtrancl_into_rtrancl [OF r_into_rtranclp])

lemma tx_fn_transition: "tx_fn (transition_tx now tr)"
  unfolding tx_fn_def by (auto elim!: transition_tx_Inr intro: tx_two_steps tx_step.PutRun tx_step.Append)

lemma tx_fn_controller: "tx_fn (controller_tx now cc)"
  unfolding tx_fn_def
  by (auto elim!: controller_tx_Inr intro: tx_two_steps tx_step.PutComputerSession tx_step.Append)

lemma UpdateContext_cases:
  assumes "UpdateContext b c fn db = (db', res)"
  obtains e where "res = Inl e" and "db' = db"
    | v where "res = Inr v" and "fn db = Inr (db', v)"
  using assms by (auto simp: UpdateContext_def split: if_splits sum.splits prod.splits)

section \<open>Rows and getters\<close>

lemma store_wf_tables:
  assumes "store_wf db"
  shows "table_ok run_id (run_ok db) (tbl_runs db)" and "unique_active (tbl_runs db)"
    and "table_ok grt_id (grant_ok db) (tbl_grants db)" and "journal_wf db"
  using assms by (simp_all add: store_wf_def entities_wf_in_def)

lemma getRun_row:
  assumes "getRun db i = Inr r"
  obtains row where "row \<in> set (tbl_runs db)" and "run_id row = i" and "r = scanRun row"
  using assms lookup_row_Some [of run_id "tbl_runs db" i]
  by (auto simp: getRun_def split: option.splits)

lemma getSession_Ex: "i \<in> set (session_keys db) \<Longrightarrow> \<exists>s. getSession db i = Inr s"
  using lookup_row_None [of ses_id "tbl_sessions db" i]
  by (auto simp: getSession_def split: option.splits)

lemma getProject_Ex: "i \<in> set (project_keys db) \<Longrightarrow> \<exists>s. getProject db i = Inr s"
  using lookup_row_None [of prj_id "tbl_projects db" i]
  by (auto simp: getProject_def split: option.splits)

lemma getRun_Ex: "i \<in> set (run_keys db) \<Longrightarrow> \<exists>s. getRun db i = Inr s"
  using lookup_row_None [of run_id "tbl_runs db" i]
  by (auto simp: getRun_def split: option.splits)

lemma getProviderSession_Ex:
  "i \<in> set (provider_session_keys db) \<Longrightarrow> \<exists>s. getProviderSession db i = Inr s"
  using lookup_row_None [of psn_id "tbl_provider_sessions db" i]
  by (auto simp: getProviderSession_def split: option.splits)

lemma ref_ok_text: "ref_ok v keys \<Longrightarrow> text_of v \<noteq> [] \<Longrightarrow> text_of v \<in> set keys"
  by (auto simp: ref_ok_def text_of_def split: option.splits)

lemma distinct_filter_map_eq:
  assumes "distinct (map f (filter P xs))" and "x \<in> set xs" and "y \<in> set xs"
    and "P x" and "P y" and "f x = f y"
  shows "x = y"
proof -
  have "inj_on f (set (filter P xs))"
    using assms(1) by (simp add: distinct_map)
  then show ?thesis using assms by (auto dest: inj_onD)
qed

section \<open>The journal as its readers see it\<close>

lemma sort_key_sorted_upto: "map f xs = [i..j] \<Longrightarrow> sort_key f xs = xs"
  by (rule sort_key_id_if_sorted) simp

lemma EventsForStream_seqs:
  assumes "journal_wf db" and "0 \<le> a"
  shows "map Event_Seq (EventsForStream db s a n) =
    [a + 1..min (StreamHead db s) (a + eventPageLimit n)]"
proof -
  let ?rows = "filter (\<lambda>r. ev_seq r > a) (stream_rows db s)"
  have page: "filter (\<lambda>r. ev_stream r = s \<and> ev_seq r > a) (tbl_events db) = ?rows"
    by (simp add: stream_rows_def conj_commute)
  have "map ev_seq ?rows = filter (\<lambda>x. x > a) (map ev_seq (stream_rows db s))"
    by (simp add: filter_map comp_def)
  also have "\<dots> = [a + 1..StreamHead db s]"
    using assms by (simp add: journal_wf_head filter_upto journal_wf_def)
  finally have seqs: "map ev_seq ?rows = [a + 1..StreamHead db s]" .
  have "map Event_Seq (EventsForStream db s a n) = take (nat (eventPageLimit n)) (map ev_seq ?rows)"
    using sort_key_sorted_upto [OF seqs]
    by (simp add: EventsForStream_def page take_map comp_def scanEvent_def)
  also have "\<dots> = [a + 1..min (StreamHead db s) (a + eventPageLimit n)]"
    unfolding seqs take_upto by (simp add: eventPageLimit_def)
  finally show ?thesis .
qed

interpretation runtime_journal:
  event_journal journal_wf EventsForStream StreamHead Event_Seq eventPageLimit
  by unfold_locales (simp_all add: EventsForStream_seqs, simp add: eventPageLimit_def)

lemma stream_seq_less:
  assumes "journal_wf db" and "r \<in> set (tbl_events db)"
  shows "ev_seq r < next_seq db (ev_stream r)"
proof -
  let ?s = "ev_stream r"
  have "ev_seq r \<in> set (map ev_seq (stream_rows db ?s))"
    using assms(2) by (auto simp: stream_rows_def)
  also have "set (map ev_seq (stream_rows db ?s)) = {1..StreamHead db ?s}"
    using assms(1) journal_wf_head [OF assms(1), of ?s] by (simp add: journal_wf_def del: set_map)
  finally show ?thesis by (simp add: next_seq_head)
qed

lemma AppendEvent_stream:
  assumes "journal_wf db" and append: "AppendEvent now db ev = Inr (db', ev')"
  shows "StreamHead db' s = StreamHead db s + (if s = Event_Stream ev then 1 else 0)"
    and "Event_Seq ev' = StreamHead db' (Event_Stream ev)"
    and "Event_Stream ev' = Event_Stream ev"
    and "Event_Pos ev' = JournalHead db'" and "JournalHead db < JournalHead db'"
proof -
  note facts = AppendEvent_Inr [OF append]
  have wf': "journal_wf db'" using assms by (rule AppendEvent_journal_wf)
  have "length (stream_rows db' s) =
      length (stream_rows db s) + (if s = Event_Stream ev then 1 else 0)" for s
    by (simp add: stream_rows_def facts(4))
  then show head: "StreamHead db' s = StreamHead db s + (if s = Event_Stream ev then 1 else 0)" for s
    by (simp add: journal_wf_head [OF assms(1)] journal_wf_head [OF wf'])
  show "Event_Seq ev' = StreamHead db' (Event_Stream ev)"
    by (simp add: head facts(3) next_seq_head)
  show "Event_Stream ev' = Event_Stream ev"
    by (simp add: facts(3))
  have pos: "next_pos db = events_autoinc db + 1"
    using assms(1) by (rule journal_wf_next_pos)
  have below: "\<forall>e \<in> set (tbl_events db). ev_pos e < next_pos db"
    using assms(1) by (auto simp: journal_wf_def pos)
  have "JournalHead db' = next_pos db"
    using below by (auto simp: JournalHead_def facts(4) max_col_Max Max_insert2 less_imp_le
        intro!: Max_eqI)
  then show "Event_Pos ev' = JournalHead db'"
    by (simp add: facts(3))
  have "JournalHead db < next_pos db"
    using below assms(1) by (auto simp: JournalHead_def max_col_Max pos journal_wf_def)
  with \<open>JournalHead db' = next_pos db\<close> show "JournalHead db < JournalHead db'"
    by simp
qed

text \<open>An event with a stream, a kind and a known source is always accepted.\<close>

lemma AppendEvent_total:
  assumes "journal_wf db" and "Event_Stream ev \<noteq> []" and "Event_Kind ev \<noteq> []"
    and "Event_Source ev \<in> set ([] # EventSources)"
  shows "\<exists>p. AppendEvent now db ev = Inr p"
proof -
  let ?q = "next_seq db (Event_Stream ev)"
  have "event_ok (event_args (next_pos db) ?q (event_defaults now ev))"
    using assms(4) by (auto simp: event_ok_def event_args_def event_defaults_def Let_def EventSources_def)
  moreover have "(Event_Stream ev, ?q) \<notin> set (map (\<lambda>r. (ev_stream r, ev_seq r)) (tbl_events db))"
    using stream_seq_less [OF assms(1)] by fastforce
  ultimately show ?thesis
    using assms(2,3) by (simp add: AppendEvent_def Let_def requireText_def)
qed

text \<open>A reader that follows the global position.\<close>

lemma EventsAfter_eq:
  assumes "journal_wf db"
  shows "EventsAfter db a n =
    map scanEvent (take (nat (eventPageLimit n)) (filter (\<lambda>r. ev_pos r > a) (tbl_events db)))"
proof -
  let ?rows = "filter (\<lambda>r. ev_pos r > a) (tbl_events db)"
  have "sorted_wrt (\<lambda>x y. ev_pos x < ev_pos y) ?rows"
    using assms by (simp add: journal_wf_def sorted_wrt_filter)
  then have "sorted (map ev_pos ?rows)"
    by (auto simp: sorted_map intro: sorted_wrt_mono_rel [rotated] less_imp_le)
  then show ?thesis by (simp add: EventsAfter_def sort_key_id_if_sorted)
qed

lemma EventsAfter_follow:
  assumes "journal_wf db" and "length (filter (\<lambda>r. ev_pos r > a) (tbl_events db)) \<le> k"
  shows "follow (\<lambda>p. EventsAfter db p n) Event_Pos k a =
    map scanEvent (filter (\<lambda>r. ev_pos r > a) (tbl_events db))"
  using assms(2)
proof (induction k arbitrary: a)
  case (Suc k)
  define rows where "rows = filter (\<lambda>r. ev_pos r > a) (tbl_events db)"
  define m where "m = nat (eventPageLimit n)"
  have m: "0 < m" by (simp add: m_def eventPageLimit_def)
  have page: "EventsAfter db a n = map scanEvent (take m rows)"
    by (simp add: EventsAfter_eq [OF assms(1)] rows_def m_def)
  show ?case
  proof (cases "rows = []")
    case True
    with page show ?thesis by (simp add: rows_def)
  next
    case False
    let ?cur = "ev_pos (last (take m rows))"
    have ne: "take m rows \<noteq> []" using False m by simp
    have sorted: "sorted_wrt (\<lambda>x y. ev_pos x < ev_pos y) (take m rows @ drop m rows)"
      using assms(1) by (simp add: journal_wf_def sorted_wrt_filter rows_def)
    have last: "last (take m rows) \<in> set (take m rows)"
      using ne by (rule last_in_set)
    then have "?cur > a" by (auto simp: rows_def dest: in_set_takeD)
    have split: "take m rows = butlast (take m rows) @ [last (take m rows)]"
      using ne by simp
    have "sorted_wrt (\<lambda>x y. ev_pos x < ev_pos y) (butlast (take m rows) @ [last (take m rows)])"
      using sorted unfolding sorted_wrt_append split [symmetric] by blast
    then have "\<forall>x \<in> set (butlast (take m rows)). ev_pos x < ?cur"
      by (simp only: sorted_wrt_append) simp
    then have below: "\<not> ev_pos x > ?cur" if "x \<in> set (take m rows)" for x
      using that split by (metis Un_iff empty_iff insert_iff less_asym set_append set_simps)
    have above: "ev_pos x > ?cur" if "x \<in> set (drop m rows)" for x
      using that sorted last unfolding sorted_wrt_append by blast
    have "filter (\<lambda>r. ev_pos r > ?cur) (tbl_events db) = filter (\<lambda>r. ev_pos r > ?cur) rows"
      using \<open>?cur > a\<close> unfolding rows_def filter_filter by (intro filter_cong) auto
    also have "\<dots> = filter (\<lambda>r. ev_pos r > ?cur) (take m rows @ drop m rows)"
      by simp
    also have "\<dots> = drop m rows"
      using below above by (simp only: filter_append) (simp add: filter_empty_conv filter_id_conv)
    finally have rest: "filter (\<lambda>r. ev_pos r > ?cur) (tbl_events db) = drop m rows" .
    have "length (drop m rows) \<le> k"
      using Suc.prems m by (simp add: rows_def)
    then have "follow (\<lambda>p. EventsAfter db p n) Event_Pos k ?cur = map scanEvent (drop m rows)"
      using Suc.IH [of ?cur] rest by simp
    moreover have "Event_Pos (last (map scanEvent (take m rows))) = ?cur"
      using ne by (simp add: last_map scanEvent_def)
    ultimately have "follow (\<lambda>p. EventsAfter db p n) Event_Pos (Suc k) a =
        map scanEvent (take m rows) @ map scanEvent (drop m rows)"
      using ne follow_step [of "\<lambda>p. EventsAfter db p n" a Event_Pos k] by (simp add: page)
    then show ?thesis
      by (simp add: rows_def flip: map_append)
  qed
qed simp

section \<open>Run transitions\<close>

lemma run_of_transition_event [simp]:
  "Event_Stream (transition_event run tr) = StreamRun (Run_ID run)"
  "Event_Kind (transition_event run tr) = ''run.'' @ TR_Status tr"
  by (simp_all add: transition_event_def)

lemma apply_transition_simps [simp]:
  "Run_ID (apply_transition tr run) = Run_ID run"
  "Run_Status (apply_transition tr run) = TR_Status tr"
  "Run_SessionID (apply_transition tr run) = Run_SessionID run"
  "Run_ProviderSessionID (apply_transition tr run) = Run_ProviderSessionID run"
  "Run_CreatedAt (apply_transition tr run) = Run_CreatedAt run"
  "Run_LastSeq (apply_transition tr run) = Run_LastSeq run"
  "Run_ProcessStartedAt (apply_transition tr run) = Run_ProcessStartedAt run"
  by (simp_all add: apply_transition_def Let_def)

lemma getRun_ID: "getRun db i = Inr r \<Longrightarrow> Run_ID r = i"
  by (auto elim!: getRun_row simp: scanRun_def)

lemma getRun_times: "getRun db i = Inr r \<Longrightarrow> stored_time (Run_ProcessStartedAt r) = Run_ProcessStartedAt r"
  by (auto elim!: getRun_row simp: scanRun_def stored_time_def timeFromMS_ms_timeFromMS)

lemma lookup_set_last_seq:
  "lookup_row run_id (set_last_seq rid q rows) i =
     map_option (\<lambda>r. if run_id r = rid then r\<lparr>run_last_seq := q\<rparr> else r) (lookup_row run_id rows i)"
  unfolding set_last_seq_def by (rule lookup_row_map) simp

lemma getRun_Append:
  assumes "AppendEvent now db ev = Inr (db', ev')"
  shows "getRun db' i =
    (case getRun db i of
       Inl e \<Rightarrow> Inl e
     | Inr r \<Rightarrow> Inr (if runIDFromStream (Event_Stream ev) = Some i then r\<lparr>Run_LastSeq := Event_Seq ev'\<rparr>
         else r))"
proof -
  note facts = AppendEvent_Inr [OF assms]
  let ?q = "next_seq db (Event_Stream ev)"
  have runs: "tbl_runs db' = (case runIDFromStream (Event_Stream ev) of None \<Rightarrow> tbl_runs db
      | Some rid \<Rightarrow> set_last_seq rid ?q (tbl_runs db))"
    by (subst facts(7)) simp
  have seq: "Event_Seq ev' = ?q"
    by (simp add: facts(3))
  show ?thesis
  proof (cases "lookup_row run_id (tbl_runs db) i")
    case None
    then have "lookup_row run_id (tbl_runs db') i = None"
      by (simp add: runs lookup_set_last_seq split: option.split)
    with None show ?thesis by (simp add: getRun_def)
  next
    case (Some r)
    then have "run_id r = i" using lookup_row_Some by metis
    with Some have "lookup_row run_id (tbl_runs db') i =
        Some (if runIDFromStream (Event_Stream ev) = Some i then r\<lparr>run_last_seq := ?q\<rparr> else r)"
      by (auto simp: runs lookup_set_last_seq split: option.split)
    with Some show ?thesis by (simp add: getRun_def scanRun_def seq)
  qed
qed

lemma TransitionRun_Inr:
  assumes "TransitionRun b c now tr db = (db', Inr (run, ev))"
  shows "checkID (TR_RunID tr) idRun = None" and "RunStatus_valid (TR_Status tr)"
    and "\<not> is_zero (TR_At tr)" and "transition_tx now tr db = Inr (db', (run, ev))"
  using assms
  by (auto simp: TransitionRun_def UpdateContext_def split: option.splits if_splits sum.splits)

lemma TransitionRun_reachable: "reachable_db db \<Longrightarrow> reachable_db (fst (TransitionRun b c now tr db))"
  by (auto simp: TransitionRun_def split: option.split intro: reachable_Update tx_fn_transition)

lemma getComputerSession_ID: "getComputerSession db i = Inr s \<Longrightarrow> CSession_ID s = i"
  using lookup_row_Some [of cmp_id "tbl_computer_sessions db" i]
  by (auto simp: getComputerSession_def split: option.splits)

lemma getComputerSession_lease:
  "getComputerSession db i = Inr s \<Longrightarrow> stored_time (CSession_LeaseExpiresAt s) = CSession_LeaseExpiresAt s"
  by (auto simp: getComputerSession_def stored_time_def timeFromMS_ms_timeFromMS split: option.splits)

text \<open>The row of a run that moves on stays unique among the active runs of its provider session.\<close>

lemma unique_active_upsert:
  assumes "unique_active rows" and "distinct (map run_id rows)" and "row \<in> set rows"
    and new: "run_id new = run_id row" "run_provider_session_id new \<in> {None, run_provider_session_id row}"
    and "run_status row \<in> set [RunQueued, RunRunning]"
  shows "unique_active (upsert_row run_id merge_run new rows)"
proof -
  let ?f = "\<lambda>r. if run_id r = run_id new then merge_run r new else r"
  have eq: "upsert_row run_id merge_run new rows = map ?f rows"
    using assms(3) new by (auto simp: upsert_row_def)
  have row: "r = row" if "r \<in> set rows" "run_id r = run_id new" for r
    using that assms(2,3) new by (metis distinct_map inj_onD)
  have active: "run_active r \<and> run_provider_session_id (?f r) = run_provider_session_id r"
    if "r \<in> set rows" "run_active (?f r)" for r
  proof (cases "run_id r = run_id new")
    case True
    with that row [OF that(1)] new(2) assms(6) show ?thesis
      by (auto simp: run_active_def merge_run_def)
  qed (use that in simp)
  have sub: "filter (\<lambda>r. run_active (?f r)) rows =
      filter (\<lambda>r. run_active (?f r)) (filter run_active rows)"
    unfolding filter_filter by (rule filter_cong) (use active in blast)+
  have "map run_provider_session_id (filter run_active (map ?f rows)) =
      map (\<lambda>r. run_provider_session_id (?f r)) (filter (\<lambda>r. run_active (?f r)) rows)"
    by (simp add: filter_map comp_def)
  also have "\<dots> = map run_provider_session_id (filter (\<lambda>r. run_active (?f r)) rows)"
    by (rule map_cong) (use active in auto)
  also have "\<dots> = map run_provider_session_id (filter (\<lambda>r. run_active (?f r)) (filter run_active rows))"
    by (simp only: sub)
  finally show ?thesis
    using assms(1) by (simp only: unique_active_def eq distinct_map_filter)
qed

lemma canTransition_from: "canTransition s t \<Longrightarrow> s \<in> set [RunQueued, RunRunning]"
  by (auto simp: canTransition_def runTransitions_def split: if_splits)

lemma canTransition_to: "canTransition s t \<Longrightarrow> t \<in> set RunStatuses \<and> RunStatus_valid t"
  by (auto simp: canTransition_def runTransitions_def RunStatuses_def RunStatus_valid_def split: if_splits)

lemma terminal_no_transition: "RunStatus_Terminal s \<Longrightarrow> \<not> canTransition s t"
  by (auto simp: RunStatus_Terminal_def canTransition_def runTransitions_def)

lemma putRun_transition:
  assumes "store_wf db" and "getRun db i = Inr run" and "checkID i idRun = None"
    and "canTransition (Run_Status run) (TR_Status tr)"
  shows "\<exists>db1. putRun db (apply_transition tr run) = Inr db1"
proof -
  let ?new = "run_args (apply_transition tr run)"
  let ?rows = "upsert_row run_id merge_run ?new (tbl_runs db)"
  from assms(2) obtain row where row: "row \<in> set (tbl_runs db)" "run_id row = i" "run = scanRun row"
    by (rule getRun_row)
  note wf = store_wf_tables [OF assms(1)]
  have ok: "run_ok db row"
    using wf(1) row(1) by (simp add: table_ok_def)
  have same: "run_id ?new = run_id row" "run_session_id ?new = run_session_id row"
    "run_kind ?new = run_kind row" "run_status ?new = TR_Status tr"
    by (simp_all add: run_args_def row(3) scanRun_def apply_transition_def Let_def)
  have refs: "ref_ok v ks \<Longrightarrow> ref_ok (nullText (text_of v)) ks" for v ks
    by (auto simp: ref_ok_def nullText_def text_of_def split: option.splits)
  have keys: "keys_grow db (db\<lparr>tbl_runs := ?rows\<rparr>)"
    by (auto simp: keys_grow_def run_table.keys_upsert)
  have vals: "run_project_id ?new = nullText (text_of (run_project_id row))"
    "run_parent_run_id ?new = nullText (text_of (run_parent_run_id row))"
    "run_continues_run_id ?new = nullText (text_of (run_continues_run_id row))"
    "run_provider_session_id ?new = nullText (text_of (run_provider_session_id row))"
    by (simp_all add: run_args_def row(3) scanRun_def apply_transition_def Let_def)
  have "run_ok db ?new"
    using ok canTransition_to [OF assms(4)] by (simp add: run_ok_def same vals refs)
  with keys have "run_ok (db\<lparr>tbl_runs := ?rows\<rparr>) ?new"
    by (rule run_ok_grow)
  moreover have "unique_active ?rows"
  proof (rule unique_active_upsert [OF wf(2) _ row(1) same(1)])
    show "distinct (map run_id (tbl_runs db))"
      using wf(1) by (simp add: table_ok_def)
    show "run_provider_session_id ?new \<in> {None, run_provider_session_id row}"
      by (simp add: vals nullText_def text_of_def split: option.split)
    show "run_status row \<in> set [RunQueued, RunRunning]"
      using canTransition_from [OF assms(4)] by (simp add: row(3) scanRun_def)
  qed
  ultimately show ?thesis
    using assms(3) getRun_ID [OF assms(2)] by (simp add: putRun_def Let_def)
qed

end
