(* ===== verification/StoreProperties.thy ===== *)
theory StoreProperties
  imports RuntimeStore
begin

text \<open>
  The properties of the runtime store, each over every reachable state, with a small store built by
  the operations themselves as the common witness.
\<close>

section \<open>A sample store\<close>

abbreviation sample_ms :: "int \<Rightarrow> gotime" where "sample_ms n \<equiv> 1700000000000000000 + n * 1000000"

definition sample_project :: Project where
  "sample_project =
     \<lparr>Project_ID = ''prj_1'', Project_Name = ''bridge'',
      Project_Roots = [\<lparr>Root_Path = ''/w'', Root_Writable = True\<rparr>, \<lparr>Root_Path = ''/r'', Root_Writable = False\<rparr>],
      Project_SensitivePaths = [''.env''],
      Project_CreatedAt = sample_ms 0, Project_UpdatedAt = sample_ms 0\<rparr>"

definition sample_session :: Session where
  "sample_session =
     \<lparr>Session_ID = ''ses_1'', Session_ProjectID = ''prj_1'', Session_Title = ''t'',
      Session_CallerClass = ''remote_ai'', Session_ExternalConversation = '''',
      Session_Status = ''open'', Session_CreatedAt = sample_ms 1, Session_UpdatedAt = sample_ms 1\<rparr>"

definition sample_provider_session :: ProviderSession where
  "sample_provider_session =
     \<lparr>PSession_ID = ''psn_1'', PSession_Provider = ''codex'', PSession_NativeID = ''n1'',
      PSession_Locator = '''', PSession_ProjectID = ''prj_1'', PSession_CanResume = True,
      PSession_CanHistory = False, PSession_CreatedAt = sample_ms 2, PSession_UpdatedAt = sample_ms 2\<rparr>"

definition sample_run :: "string \<Rightarrow> string \<Rightarrow> Run" where
  "sample_run i provider_session =
     \<lparr>Run_ID = i, Run_SessionID = ''ses_1'', Run_ProjectID = ''prj_1'', Run_Kind = ''agent'',
      Run_Provider = ''codex'', Run_Model = '''', Run_Autonomy = '''', Run_Role = '''',
      Run_ParentRunID = '''', Run_ContinuesRunID = '''', Run_ProviderSessionID = provider_session,
      Run_Status = ''queued'', Run_ProcessPID = 0, Run_ProcessStartedAt = zero_time,
      Run_ProcessGroupID = 0, Run_OutputRef = '''', Run_ErrorCategory = '''', Run_LastSeq = 0,
      Run_CreatedAt = sample_ms 3, Run_StartedAt = zero_time, Run_FinishedAt = zero_time\<rparr>"

definition sample_computer :: ComputerSession where
  "sample_computer =
     \<lparr>CSession_ID = ''cmp_1'', CSession_SessionID = ''ses_1'', CSession_RunID = ''run_1'',
      CSession_Target = ''local'', CSession_State = ''active'',
      CSession_Controller = \<lparr>Controller_Kind = ''none'', Controller_Holder = '''', Controller_Channel = ''''\<rparr>,
      CSession_ControllerEpoch = 4, CSession_ArbiterInstance = '''', CSession_LeaseHolder = '''',
      CSession_LeaseExpiresAt = zero_time, CSession_CanObserve = True, CSession_CanInput = True,
      CSession_CanPreview = False, CSession_GrantedVerbs = [''computer.observe''],
      CSession_AppSelectors = [], CSession_LastFrameID = '''', CSession_GeometryGeneration = 0,
      CSession_CreatedAt = sample_ms 4, CSession_UpdatedAt = sample_ms 4\<rparr>"

definition sample_grant :: Grant where
  "sample_grant =
     \<lparr>Grant_ID = ''grt_1'', Grant_Verb = ''computer.observe'', Grant_Selector = ''*'',
      Grant_Scope = ''session'', Grant_SessionID = ''ses_1'', Grant_ProjectID = '''',
      Grant_RunID = ''run_1'', Grant_ApprovalID = '''', Grant_Channel = ''remote_human'',
      Grant_ExpiresAt = zero_time, Grant_CreatedAt = sample_ms 5, Grant_RevokedAt = zero_time\<rparr>"

definition sample_transition :: "RunStatus \<Rightarrow> RunTransition" where
  "sample_transition st =
     \<lparr>TR_RunID = ''run_1'', TR_Status = st, TR_At = sample_ms 6, TR_Source = '''',
      TR_ErrorCategory = '''', TR_OutputRef = '''', TR_CorrelationID = '''', TR_Payload = ''{}''\<rparr>"

definition sample_change :: ControllerChange where
  "sample_change =
     \<lparr>CC_ComputerSessionID = ''cmp_1'',
      CC_Controller = \<lparr>Controller_Kind = ''human'', Controller_Holder = ''h'', Controller_Channel = ''local''\<rparr>,
      CC_At = sample_ms 7, CC_Source = ''computer'', CC_CorrelationID = '''', CC_Payload = ''{}''\<rparr>"

definition sample_db0 :: store_db where
  "sample_db0 =
     projr (putRun (projr (putRun (projr (putProviderSession (projr (putSession
       (projr (putProject empty_db sample_project)) sample_session)) sample_provider_session))
       (sample_run ''run_1'' ''psn_1''))) (sample_run ''run_2'' ''''))"

definition sample_db :: store_db where
  "sample_db =
     projr (putGrant (projr (putComputerSession
       (fst (TransitionRun True True (sample_ms 6) (sample_transition ''running'') sample_db0))
       sample_computer)) sample_grant)"

text \<open>A call that succeeds keeps a store reachable.\<close>

lemma reachable_put:
  assumes "reachable_db db"
  shows "\<not> isl (putProject db p) \<Longrightarrow> reachable_db (projr (putProject db p))"
    and "\<not> isl (putSession db s) \<Longrightarrow> reachable_db (projr (putSession db s))"
    and "\<not> isl (putProviderSession db ps) \<Longrightarrow> reachable_db (projr (putProviderSession db ps))"
    and "\<not> isl (putRun db r) \<Longrightarrow> reachable_db (projr (putRun db r))"
    and "\<not> isl (putComputerSession db c) \<Longrightarrow> reachable_db (projr (putComputerSession db c))"
    and "\<not> isl (putGrant db g) \<Longrightarrow> reachable_db (projr (putGrant db g))"
  by (blast intro: reachable_step [OF assms] tx_step.intros sum.collapse(2) [symmetric])+

lemma reachable_sample_db0: "reachable_db sample_db0"
  unfolding sample_db0_def
  by (intro reachable_put reachable_db.fresh) (code_simp+)

lemma reachable_sample: "reachable_db sample_db"
  unfolding sample_db_def
  by (intro reachable_put TransitionRun_reachable reachable_sample_db0) (code_simp+)

section \<open>Invariants\<close>

text \<open>
  (C1) Every committed state of the store is well formed: primary keys are distinct, every row
  satisfies the \<open>CHECK\<close> clauses, foreign keys name existing rows, the two unique indexes hold, and
  the journal is ordered by position with gapless sequence numbers in every stream. The states are
  those any sequence of transactions built from the methods of \<open>Tx\<close> can commit.
\<close>

theorem reachable_store_wf: "reachable_db db \<Longrightarrow> store_wf db"
  by (rule reachable_wf)

theorem reachable_store_wf_witness: "reachable_db sample_db \<and> store_wf sample_db"
  using reachable_store_wf [OF reachable_sample] reachable_sample by blast

text \<open>
  At most one queued or running run is attached to a provider session: two such runs with the
  same provider session are the same run.
\<close>

theorem one_active_run:
  assumes "reachable_db db" and "getRun db i = Inr r" and "getRun db j = Inr q"
    and "Run_Status r \<in> set [RunQueued, RunRunning]" and "Run_Status q \<in> set [RunQueued, RunRunning]"
    and "Run_ProviderSessionID r \<noteq> []" and "Run_ProviderSessionID r = Run_ProviderSessionID q"
  shows "i = j"
proof -
  from assms(2) obtain a where a: "a \<in> set (tbl_runs db)" "run_id a = i" "r = scanRun a"
    by (rule getRun_row)
  from assms(3) obtain b where b: "b \<in> set (tbl_runs db)" "run_id b = j" "q = scanRun b"
    by (rule getRun_row)
  have active: "run_active a" "run_active b" "run_provider_session_id a = run_provider_session_id b"
    using assms(4-7) a(3) b(3)
    by (auto simp: run_active_def scanRun_def text_of_def split: option.splits)
  have "unique_active (tbl_runs db)"
    using store_wf_tables [OF reachable_wf [OF assms(1)]] by simp
  then have "a = b"
    unfolding unique_active_def by (rule distinct_filter_map_eq) (use a(1) b(1) active in simp_all)
  with a b show ?thesis by simp
qed

lemma sample_run_1: "getRun sample_db ''run_1'' = Inr
  ((sample_run ''run_1'' ''psn_1'')\<lparr>Run_Status := ''running'', Run_LastSeq := 1, Run_StartedAt := sample_ms 6\<rparr>)"
  by code_simp

theorem one_active_run_witness:
  "getRun sample_db ''run_1'' = Inr (projr (getRun sample_db ''run_1'')) \<and> ''run_1'' = ''run_1''"
  using one_active_run [OF reachable_sample sample_run_1 sample_run_1]
  by (simp add: sample_run_1 sample_run_def)

text \<open>
  Whatever a run read from a committed state refers to is there: its session, and, where set,
  its project, its parent run, the run it continues and its provider session. Its status and kind
  are values of the enumerations.
\<close>

theorem run_references:
  assumes "reachable_db db" and "getRun db i = Inr r"
  shows "Run_Status r \<in> set RunStatuses \<and> Run_Kind r \<in> set RunKinds \<and>
    (\<exists>s. getSession db (Run_SessionID r) = Inr s) \<and>
    (Run_ProjectID r = [] \<or> (\<exists>p. getProject db (Run_ProjectID r) = Inr p)) \<and>
    (Run_ParentRunID r = [] \<or> (\<exists>q. getRun db (Run_ParentRunID r) = Inr q)) \<and>
    (Run_ContinuesRunID r = [] \<or> (\<exists>q. getRun db (Run_ContinuesRunID r) = Inr q)) \<and>
    (Run_ProviderSessionID r = [] \<or> (\<exists>s. getProviderSession db (Run_ProviderSessionID r) = Inr s))"
proof -
  from assms(2) obtain a where a: "a \<in> set (tbl_runs db)" "r = scanRun a"
    by (rule getRun_row)
  have "run_ok db a"
    using store_wf_tables(1) [OF reachable_wf [OF assms(1)]] a(1) by (simp add: table_ok_def)
  then show ?thesis
    unfolding run_ok_def a(2) scanRun_def
    by (auto intro: getSession_Ex getProject_Ex getRun_Ex getProviderSession_Ex dest: ref_ok_text
        simp del: set_map)
qed

theorem run_references_witness:
  "getRun sample_db ''run_1'' = Inr (projr (getRun sample_db ''run_1'')) \<and>
   (\<exists>s. getProviderSession sample_db ''psn_1'' = Inr s)"
  using run_references [OF reachable_sample sample_run_1] by (simp add: sample_run_1 sample_run_def)

text \<open>
  The limits on grants hold for every grant read from a committed state: one given by a remote
  human is for one use or one session and never for reading secrets or uploading to the cloud, a
  project-wide grant never covers a computer verb, and a session grant names an existing session.
\<close>

theorem grant_limits:
  assumes "reachable_db db" and "getGrant db i = Inr g"
  shows "(Grant_Channel g = ApprovalRemoteHuman \<longrightarrow>
      Grant_Scope g \<in> set [ScopeOnce, ScopeSession] \<and>
      Grant_Verb g \<notin> set [VerbSecretRead, VerbCloudUpload]) \<and>
    (Grant_Scope g = ScopeProject \<longrightarrow> \<not> has_prefix (Grant_Verb g) ''computer.'') \<and>
    (Grant_Scope g = ScopeSession \<longrightarrow> (\<exists>s. getSession db (Grant_SessionID g) = Inr s)) \<and>
    Grant_Scope g \<in> set GrantScopes"
proof -
  from assms(2) obtain a where a: "a \<in> set (tbl_grants db)" "g = scanGrant a"
    using lookup_row_Some [of grt_id "tbl_grants db" i] by (auto simp: getGrant_def split: option.splits)
  have "grant_ok db a"
    using store_wf_tables(3) [OF reachable_wf [OF assms(1)]] a(1) by (simp add: table_ok_def)
  moreover have "like_computer v" if "has_prefix v ''computer.''" for v
    using that by (auto simp: like_computer_def has_prefix_def take_map lower_char_def)
  ultimately show ?thesis
    unfolding grant_ok_def a(2) scanGrant_def
    by (auto intro!: getSession_Ex simp: ref_ok_def text_of_def simp del: set_map)
qed

lemma sample_grant_1: "getGrant sample_db ''grt_1'' = Inr sample_grant"
  by code_simp

theorem grant_limits_witness:
  "getGrant sample_db ''grt_1'' = Inr sample_grant \<and> Grant_Verb sample_grant \<noteq> VerbSecretRead \<and>
   (\<exists>s. getSession sample_db ''ses_1'' = Inr s)"
  using grant_limits [OF reachable_sample sample_grant_1] sample_grant_1
  by (simp add: sample_grant_def)

section \<open>The journal\<close>

text \<open>
  A page of a stream is exactly the run of sequence numbers after the cursor, up to the head of
  the stream and the page limit: no gap, no repetition, in order. The reader's contiguity check
  never rejects a page the store served.
\<close>

theorem stream_page_contiguous:
  assumes "reachable_db db" and "0 \<le> a"
  shows "map Event_Seq (EventsForStream db s a n) = [a + 1..min (StreamHead db s) (a + eventPageLimit n)] \<and>
    ValidateContiguous (EventsForStream db s a n) a = None"
proof -
  let ?page = "EventsForStream db s a n"
  have seqs: "map Event_Seq ?page = [a + 1..min (StreamHead db s) (a + eventPageLimit n)]"
    using assms store_wf_tables(4) [OF reachable_wf] by (intro EventsForStream_seqs)
  moreover have "int (length ?page) = int (length (map Event_Seq ?page))"
    by simp
  ultimately have "map Event_Seq ?page = [a + 1..a + int (length ?page)]"
    by (simp only: length_upto) (auto simp: max_def min_def)
  with seqs show ?thesis by (simp add: ValidateContiguous_iff)
qed

theorem stream_page_contiguous_witness:
  "reachable_db sample_db \<and> ValidateContiguous (EventsForStream sample_db ''run:run_1'' 0 0) 0 = None \<and>
   map Event_Seq (EventsForStream sample_db ''run:run_1'' 0 0) = [1]"
proof -
  have "map Event_Seq (EventsForStream sample_db ''run:run_1'' 0 0) = [1]" by code_simp
  with stream_page_contiguous [OF reachable_sample, of 0 "''run:run_1''" 0] reachable_sample
  show ?thesis by simp
qed

text \<open>
  (C4) A client that follows a stream page by page from a cursor, with any page size, reads every
  event of the stream after the cursor exactly once and in order, in at most as many requests as
  there are events, and then an empty page tells it that it is at the head.
\<close>

theorem stream_follow_complete:
  assumes "reachable_db db" and "0 \<le> a" and "StreamHead db s - a \<le> int k"
  shows "map Event_Seq (follow (\<lambda>c. EventsForStream db s c n) Event_Seq k a) = [a + 1..StreamHead db s] \<and>
    (EventsForStream db s a n = [] \<longleftrightarrow> StreamHead db s \<le> a)"
  using assms store_wf_tables(4) [OF reachable_wf]
  by (intro conjI runtime_journal.follow_seqs runtime_journal.page_empty)

theorem stream_follow_complete_witness:
  "StreamHead sample_db ''run:run_1'' - 0 \<le> int 3 \<and>
   map Event_Seq (follow (\<lambda>c. EventsForStream sample_db ''run:run_1'' c 1) Event_Seq 3 0) = [1]"
proof -
  have head: "StreamHead sample_db ''run:run_1'' = 1" by code_simp
  with stream_follow_complete [OF reachable_sample, of 0 "''run:run_1''" 3 1] show ?thesis by simp
qed

text \<open>
  What \<open>AppendEvent\<close> reports is what the next reader sees: the event comes back from its stream
  with its sequence number, position and millisecond timestamp, as the new head of the stream and
  of the journal, and no page of another stream changes.
\<close>

theorem append_read_back:
  assumes "reachable_db db" and "AppendEvent now db ev = Inr (db', ev')"
  shows "EventsForStream db' (Event_Stream ev) (Event_Seq ev' - 1) 1 =
      [ev'\<lparr>Event_At := stored_time (Event_At ev')\<rparr>] \<and>
    Event_Seq ev' = StreamHead db (Event_Stream ev) + 1 \<and>
    StreamHead db' (Event_Stream ev) = Event_Seq ev' \<and>
    JournalHead db < Event_Pos ev' \<and> JournalHead db' = Event_Pos ev' \<and>
    (\<forall>s a n. s \<noteq> Event_Stream ev \<longrightarrow> EventsForStream db' s a n = EventsForStream db s a n)"
proof -
  have wf: "journal_wf db"
    using store_wf_tables(4) [OF reachable_wf [OF assms(1)]] .
  note facts = AppendEvent_Inr [OF assms(2)] and heads = AppendEvent_stream [OF wf assms(2)]
  let ?s = "Event_Stream ev" and ?q = "next_seq db (Event_Stream ev)"
  let ?new = "event_args (next_pos db) ?q (event_defaults now ev)"
  have seq: "Event_Seq ev' = ?q" "?q = StreamHead db ?s + 1"
    by (simp_all add: facts(3) next_seq_head)
  have none: "filter (\<lambda>r. ev_stream r = ?s \<and> ev_seq r > ?q - 1) (tbl_events db) = []"
    using stream_seq_less [OF wf] by (fastforce simp: filter_empty_conv)
  have "EventsForStream db' ?s (Event_Seq ev' - 1) 1 = [scanEvent ?new]"
    using none by (simp add: EventsForStream_def facts(4) seq(1) eventPageLimit_def)
  also have "scanEvent ?new = ev'\<lparr>Event_At := stored_time (Event_At ev')\<rparr>"
    by (simp add: facts(3) scanEvent_def event_args_def stored_time_def)
  finally have "EventsForStream db' ?s (Event_Seq ev' - 1) 1 =
      [ev'\<lparr>Event_At := stored_time (Event_At ev')\<rparr>]" .
  moreover have "\<forall>s a n. s \<noteq> ?s \<longrightarrow> EventsForStream db' s a n = EventsForStream db s a n"
    by (simp add: EventsForStream_def facts(4))
  ultimately show ?thesis
    using heads seq by simp
qed

definition sample_event :: Event where
  "sample_event = transition_event (sample_run ''run_1'' '''') (sample_transition ''running'')"

theorem append_read_back_witness:
  "AppendEvent 5 sample_db sample_event = Inr (projr (AppendEvent 5 sample_db sample_event)) \<and>
   Event_Seq (snd (projr (AppendEvent 5 sample_db sample_event))) = StreamHead sample_db ''run:run_1'' + 1"
proof -
  have ok: "AppendEvent 5 sample_db sample_event =
      Inr (fst (projr (AppendEvent 5 sample_db sample_event)), snd (projr (AppendEvent 5 sample_db sample_event)))"
    by code_simp
  then have "Event_Seq (snd (projr (AppendEvent 5 sample_db sample_event))) =
      StreamHead sample_db (Event_Stream sample_event) + 1"
    using append_read_back [OF reachable_sample ok] by blast
  moreover have "Event_Stream sample_event = ''run:run_1''" by code_simp
  ultimately show ?thesis using ok by simp
qed

section \<open>Run transitions\<close>

text \<open>
  (C2) A successful \<open>TransitionRun\<close> is one legal step of the run's state machine, journalled: the
  stored run had a status from which the new one may follow; afterwards it has the new status, its
  start or finish time and the sequence number of the new event, and reads back as returned up to
  the millisecond resolution of the store; exactly one event, the next of the run's stream, records
  it; no other run changes and the new state is a committed state again.
\<close>

theorem TransitionRun_effect:
  assumes "reachable_db db" and "TransitionRun b c now tr db = (db', Inr (run, ev))"
  shows "reachable_db db' \<and>
    (\<exists>old. getRun db (TR_RunID tr) = Inr old \<and> canTransition (Run_Status old) (TR_Status tr) \<and>
       run = (apply_transition tr old)\<lparr>Run_LastSeq := Event_Seq ev\<rparr>) \<and>
    getRun db' (TR_RunID tr) = Inr (run\<lparr>Run_StartedAt := stored_time (Run_StartedAt run),
      Run_FinishedAt := stored_time (Run_FinishedAt run)\<rparr>) \<and>
    (\<forall>j. j \<noteq> TR_RunID tr \<longrightarrow> getRun db' j = getRun db j) \<and>
    Run_Status run = TR_Status tr \<and> (RunStatus_Terminal (TR_Status tr) \<longrightarrow> Run_FinishedAt run = TR_At tr) \<and>
    Event_Stream ev = StreamRun (TR_RunID tr) \<and> Event_Kind ev = ''run.'' @ TR_Status tr \<and>
    Event_Seq ev = StreamHead db (StreamRun (TR_RunID tr)) + 1 \<and>
    (\<forall>s. StreamHead db' s = StreamHead db s + (if s = StreamRun (TR_RunID tr) then 1 else 0))"
proof -
  note facts = TransitionRun_Inr [OF assms(2)]
  from facts(4) obtain old db1 where old: "getRun db (TR_RunID tr) = Inr old"
    and can: "canTransition (Run_Status old) (TR_Status tr)"
    and put: "putRun db (apply_transition tr old) = Inr db1"
    and app: "AppendEvent now db1 (transition_event (apply_transition tr old) tr) = Inr (db', ev)"
    and run: "run = (apply_transition tr old)\<lparr>Run_LastSeq := Event_Seq ev\<rparr>"
    by (rule transition_tx_Inr)
  note i = getRun_ID [OF old]
  have "TR_RunID tr \<noteq> []" using facts(1) by (simp add: checkID_None)
  then have run_of: "runIDFromStream (StreamRun (TR_RunID tr)) = Some (TR_RunID tr)" by simp
  have reach1: "reachable_db db1"
    using assms(1) put by (blast intro: reachable_step tx_step.PutRun)
  note heads = AppendEvent_stream [OF store_wf_tables(4) [OF reachable_wf [OF reach1]] app]
  have head1: "StreamHead db1 s = StreamHead db s" for s
    by (simp add: putRun_Inr(2) [OF put] StreamHead_def)
  have get1: "getRun db1 j = (if j = TR_RunID tr then
      Inr (stored_run (Some old) (apply_transition tr old)) else getRun db j)" for j
    using run_entity.get_put [OF put, of j] old by (simp add: i)
  have kind: "Event_Kind ev = ''run.'' @ TR_Status tr"
    by (simp add: AppendEvent_Inr(3) [OF app])
  have "getRun db' j = (if j = TR_RunID tr then Inr (run\<lparr>Run_StartedAt := stored_time (Run_StartedAt run),
      Run_FinishedAt := stored_time (Run_FinishedAt run)\<rparr>) else getRun db j)" for j
    using getRun_Append [OF app, of j] getRun_times [OF old]
    by (auto simp: get1 i run_of run stored_run_def split: sum.split)
  moreover have "RunStatus_Terminal (TR_Status tr) \<longrightarrow> Run_FinishedAt run = TR_At tr"
    by (auto simp: run apply_transition_def Let_def RunStatus_Terminal_def)
  moreover have "reachable_db db'"
    using TransitionRun_reachable [OF assms(1), of b c now tr] assms(2) by simp
  ultimately show ?thesis
    using heads old can run kind by (auto simp: head1 i)
qed

lemma sample_completes: "TransitionRun True True 0 (sample_transition ''completed'') sample_db =
  (fst (TransitionRun True True 0 (sample_transition ''completed'') sample_db),
   Inr (fst (projr (snd (TransitionRun True True 0 (sample_transition ''completed'') sample_db))),
        snd (projr (snd (TransitionRun True True 0 (sample_transition ''completed'') sample_db)))))"
  by code_simp

theorem TransitionRun_effect_witness:
  "Event_Seq (snd (projr (snd (TransitionRun True True 0 (sample_transition ''completed'') sample_db)))) =
     StreamHead sample_db (StreamRun ''run_1'') + 1 \<and>
   reachable_db (fst (TransitionRun True True 0 (sample_transition ''completed'') sample_db))"
  using TransitionRun_effect [OF reachable_sample sample_completes] by (simp add: sample_transition_def)

text \<open>
  A \<open>TransitionRun\<close> that returns an error changes nothing, and every transition of a run that
  has reached a terminal status returns one, whatever the target status.
\<close>

theorem TransitionRun_refused:
  assumes "TransitionRun b c now tr db = (db', res)"
  shows "(\<forall>e. res = Inl e \<longrightarrow> db' = db) \<and>
    (\<forall>old. getRun db (TR_RunID tr) = Inr old \<and> RunStatus_Terminal (Run_Status old) \<longrightarrow> isl res \<and> db' = db)"
proof -
  have err: "db' = db" if "res = Inl e" for e
    using that assms by (auto simp: TransitionRun_def UpdateContext_def split: option.splits if_splits sum.splits)
  moreover have "isl res" if "getRun db (TR_RunID tr) = Inr old" "RunStatus_Terminal (Run_Status old)" for old
  proof (cases res)
    case (Inr v)
    with assms obtain run ev where "TransitionRun b c now tr db = (db', Inr (run, ev))"
      by (cases v) simp
    from TransitionRun_Inr(4) [OF this] that show ?thesis
      by (auto elim!: transition_tx_Inr dest: terminal_no_transition)
  qed simp
  ultimately show ?thesis by (auto simp: isl_def)
qed

theorem TransitionRun_refused_witness:
  "TransitionRun True True 0 (sample_transition ''running'') sample_db =
     (sample_db, Inl (ErrIllegalTransition ''run_1'' ''running'' ''running''))"
proof -
  have res: "snd (TransitionRun True True 0 (sample_transition ''running'') sample_db) =
      Inl (ErrIllegalTransition ''run_1'' ''running'' ''running'')"
    by code_simp
  with TransitionRun_refused [of True True 0 "sample_transition ''running''" sample_db
      "fst (TransitionRun True True 0 (sample_transition ''running'') sample_db)"
      "snd (TransitionRun True True 0 (sample_transition ''running'') sample_db)"]
  show ?thesis by (metis prod.collapse)
qed

text \<open>
  (C3) A legal transition never gets stuck: in any committed state, for a stored run and a status its
  state machine allows next, a timestamp and a known event source, the operation succeeds whenever
  the database begins and commits the transaction.
\<close>

theorem TransitionRun_legal:
  assumes "reachable_db db" and "getRun db (TR_RunID tr) = Inr old"
    and "checkID (TR_RunID tr) idRun = None" and "canTransition (Run_Status old) (TR_Status tr)"
    and "\<not> is_zero (TR_At tr)" and "TR_Source tr \<in> set ([] # EventSources)"
  shows "\<exists>db' run ev. TransitionRun True True now tr db = (db', Inr (run, ev))"
proof -
  obtain db1 where put: "putRun db (apply_transition tr old) = Inr db1"
    using putRun_transition [OF reachable_wf [OF assms(1)] assms(2-4)] by blast
  have "reachable_db db1"
    using assms(1) put by (blast intro: reachable_step tx_step.PutRun)
  then have wf: "journal_wf db1"
    using store_wf_tables(4) [OF reachable_wf] by blast
  let ?ev = "transition_event (apply_transition tr old) tr"
  have "\<exists>p. AppendEvent now db1 ?ev = Inr p"
  proof (rule AppendEvent_total [OF wf])
    show "Event_Stream ?ev \<noteq> []" "Event_Kind ?ev \<noteq> []"
      by (simp_all add: transition_event_def StreamRun_def)
    show "Event_Source ?ev \<in> set ([] # EventSources)"
      using assms(6) by (simp add: transition_event_def)
  qed
  then obtain db2 ev where "AppendEvent now db1 ?ev = Inr (db2, ev)"
    by force
  then show ?thesis
    using assms(2-5) put canTransition_to [OF assms(4)]
    by (simp add: TransitionRun_def UpdateContext_def transition_tx_def Let_def)
qed

theorem TransitionRun_legal_witness:
  "getRun sample_db ''run_2'' = Inr (sample_run ''run_2'' '''') \<and>
   (\<exists>db' run ev. TransitionRun True True 0 ((sample_transition ''cancelled'')\<lparr>TR_RunID := ''run_2''\<rparr>) sample_db =
     (db', Inr (run, ev)))"
proof -
  have get: "getRun sample_db ''run_2'' = Inr (sample_run ''run_2'' '''')" by code_simp
  with TransitionRun_legal [OF reachable_sample,
      of "(sample_transition ''cancelled'')\<lparr>TR_RunID := ''run_2''\<rparr>" "sample_run ''run_2'' ''''" 0]
  show ?thesis
    by (simp add: sample_transition_def sample_run_def checkID_def has_prefix_def canTransition_def
        runTransitions_def is_zero_def zero_time_def)
qed

section \<open>Controller changes\<close>

text \<open>
  A successful \<open>SetComputerController\<close> installs exactly the controller asked for, advances the
  epoch of the session by one, so that no two controllers of a session share an epoch, and journals
  the change once in the session's stream; no other computer session changes. On an error nothing
  changes.
\<close>

theorem SetComputerController_effect:
  assumes "reachable_db db" and call: "SetComputerController b c now cc db = (db', res)"
  shows "(\<forall>e. res = Inl e \<longrightarrow> db' = db) \<and>
    (\<forall>s ev. res = Inr (s, ev) \<longrightarrow>
       reachable_db db' \<and> validateController (CC_Controller cc) = None \<and>
       (\<exists>old. getComputerSession db (CC_ComputerSessionID cc) = Inr old \<and>
          s = old\<lparr>CSession_Controller := CC_Controller cc,
                  CSession_ControllerEpoch := CSession_ControllerEpoch old + 1,
                  CSession_UpdatedAt := CC_At cc\<rparr>) \<and>
       getComputerSession db' (CC_ComputerSessionID cc) =
         Inr (s\<lparr>CSession_UpdatedAt := stored_time (CC_At cc)\<rparr>) \<and>
       (\<forall>j. j \<noteq> CC_ComputerSessionID cc \<longrightarrow> getComputerSession db' j = getComputerSession db j) \<and>
       Event_Kind ev = ''computer.controller.changed'' \<and>
       Event_Seq ev = StreamHead db (StreamComputer (CC_ComputerSessionID cc)) + 1 \<and>
       StreamHead db' (StreamComputer (CC_ComputerSessionID cc)) = Event_Seq ev)"
proof (intro conjI allI impI)
  fix e assume "res = Inl e"
  with call show "db' = db"
    by (auto simp: SetComputerController_def UpdateContext_def split: option.splits if_splits sum.splits)
next
  fix s ev assume "res = Inr (s, ev)"
  with call have tx: "controller_tx now cc db = Inr (db', (s, ev))"
    and valid: "validateController (CC_Controller cc) = None"
    by (auto simp: SetComputerController_def UpdateContext_def split: option.splits if_splits sum.splits)
  let ?i = "CC_ComputerSessionID cc"
  from tx obtain old db1 where old: "getComputerSession db ?i = Inr old"
    and s: "s = old\<lparr>CSession_Controller := CC_Controller cc,
      CSession_ControllerEpoch := CSession_ControllerEpoch old + 1, CSession_UpdatedAt := CC_At cc\<rparr>"
    and put: "putComputerSession db s = Inr db1"
    and app: "AppendEvent now db1 (controller_event s cc) = Inr (db', ev)"
    by (rule controller_tx_Inr)
  have reach1: "reachable_db db1"
    using assms(1) put by (blast intro: reachable_step tx_step.PutComputerSession)
  note heads = AppendEvent_stream [OF store_wf_tables(4) [OF reachable_wf [OF reach1]] app]
  have i: "CSession_ID s = ?i" "CSession_ID old = ?i"
    using getComputerSession_ID [OF old] by (simp_all add: s)
  have get': "getComputerSession db' j = getComputerSession db1 j" for j
    by (subst AppendEvent_Inr(7) [OF app]) (simp add: getComputerSession_def split: option.split)
  show "\<exists>old. getComputerSession db ?i = Inr old \<and> s = old\<lparr>CSession_Controller := CC_Controller cc,
      CSession_ControllerEpoch := CSession_ControllerEpoch old + 1, CSession_UpdatedAt := CC_At cc\<rparr>"
    using old s by blast
  show "validateController (CC_Controller cc) = None" by (rule valid)
  show "reachable_db db'"
    using reach1 app by (blast intro: reachable_step tx_step.Append)
  show "getComputerSession db' ?i = Inr (s\<lparr>CSession_UpdatedAt := stored_time (CC_At cc)\<rparr>)"
    using computer_session_entity.get_put [OF put, of ?i] getComputerSession_lease [OF old]
    by (simp add: get' old s i(2)) (simp add: stored_computer_session_def)
  show "getComputerSession db' j = getComputerSession db j" if "j \<noteq> ?i" for j
    using computer_session_entity.get_put [OF put, of j] that by (simp add: get' i(1))
  have "StreamHead db1 x = StreamHead db x" for x
    using put by (rule putComputerSession_Inr) (simp add: StreamHead_def)
  then show "Event_Seq ev = StreamHead db (StreamComputer ?i) + 1"
    and "StreamHead db' (StreamComputer ?i) = Event_Seq ev"
    using heads i(1) by (simp_all add: controller_event_def)
  show "Event_Kind ev = ''computer.controller.changed''"
    by (simp add: AppendEvent_Inr(3) [OF app] controller_event_def)
qed

theorem SetComputerController_effect_witness:
  "getComputerSession (fst (SetComputerController True True 0 sample_change sample_db)) ''cmp_1'' =
     Inr ((fst (projr (snd (SetComputerController True True 0 sample_change sample_db))))
       \<lparr>CSession_UpdatedAt := stored_time (sample_ms 7)\<rparr>)"
proof -
  define r where "r = SetComputerController True True 0 sample_change sample_db"
  have "\<not> isl (snd r)"
    unfolding r_def by code_simp
  then obtain s ev where res: "snd r = Inr (s, ev)"
    by (cases "snd r") auto
  have "SetComputerController True True 0 sample_change sample_db = (fst r, snd r)"
    by (simp add: r_def)
  from SetComputerController_effect [OF reachable_sample this] res
  have "getComputerSession (fst r) (CC_ComputerSessionID sample_change) =
      Inr (s\<lparr>CSession_UpdatedAt := stored_time (CC_At sample_change)\<rparr>)"
    by blast
  then show ?thesis
    unfolding r_def [symmetric] by (simp add: res) (simp add: sample_change_def)
qed

section \<open>The global cursor\<close>

text \<open>
  A subscriber that follows the whole journal by its global position, page by page and with any
  page size, reads every event after its cursor exactly once, in the order in which they were
  appended.
\<close>

theorem journal_follow_complete:
  assumes "reachable_db db" and "length (filter (\<lambda>r. ev_pos r > a) (tbl_events db)) \<le> k"
  shows "follow (\<lambda>p. EventsAfter db p n) Event_Pos k a =
    map scanEvent (filter (\<lambda>r. ev_pos r > a) (tbl_events db))"
  using assms store_wf_tables(4) [OF reachable_wf] by (intro EventsAfter_follow)

theorem journal_follow_complete_witness:
  "length (filter (\<lambda>r. ev_pos r > 0) (tbl_events sample_db)) \<le> 2 \<and>
   follow (\<lambda>p. EventsAfter sample_db p 1) Event_Pos 2 0 = map scanEvent (tbl_events sample_db)"
proof -
  have "filter (\<lambda>r. ev_pos r > 0) (tbl_events sample_db) = tbl_events sample_db"
    and "length (tbl_events sample_db) \<le> 2" by code_simp+
  with journal_follow_complete [OF reachable_sample, of 0 2 1] show ?thesis by simp
qed

section \<open>Reading back what was written\<close>

text \<open>
  Every entity reads back: after a put of a project, a session, a run, a computer session, a
  grant or an approval, the getter returns what was written (timestamps cut to milliseconds, the
  creation time of the first write kept), and what it returns for any other identifier is unchanged.
  The lists of a project and of a computer session come back complete and in order.
\<close>

theorem entities_read_back:
  "(putProject db p = Inr db' \<longrightarrow> getProject db' i =
      (if i = Project_ID p then Inr (stored_project (found (getProject db i)) p) else getProject db i)) \<and>
    (putSession db s = Inr db' \<longrightarrow> getSession db' i =
      (if i = Session_ID s then Inr (stored_session (found (getSession db i)) s) else getSession db i)) \<and>
    (putRun db r = Inr db' \<longrightarrow> getRun db' i =
      (if i = Run_ID r then Inr (stored_run (found (getRun db i)) r) else getRun db i)) \<and>
    (putComputerSession db c = Inr db' \<longrightarrow> getComputerSession db' i =
      (if i = CSession_ID c then Inr (stored_computer_session (found (getComputerSession db i)) c)
       else getComputerSession db i)) \<and>
    (putGrant db g = Inr db' \<longrightarrow> getGrant db' i =
      (if i = Grant_ID g then Inr (stored_grant (found (getGrant db i)) g) else getGrant db i)) \<and>
    (putApproval db ap = Inr db' \<longrightarrow> getApproval db' i =
      (if i = Approval_ID ap then Inr (stored_approval (found (getApproval db i)) ap)
       else getApproval db i))"
  by (intro conjI impI project_entity.get_put session_entity.get_put run_entity.get_put
      computer_session_entity.get_put grant_entity.get_put approval_entity.get_put)

theorem entities_read_back_witness:
  "putProject empty_db sample_project = Inr (projr (putProject empty_db sample_project)) \<and>
   getProject (projr (putProject empty_db sample_project)) ''prj_1'' = Inr (stored_project None sample_project)"
proof -
  have put: "putProject empty_db sample_project = Inr (projr (putProject empty_db sample_project))"
    by code_simp
  moreover have "found (getProject empty_db ''prj_1'') = None" "Project_ID sample_project = ''prj_1''"
    by code_simp+
  ultimately show ?thesis
    using entities_read_back [of empty_db sample_project _ "''prj_1''"] by simp
qed

end
