(* ===== verification/RuntimeMigrate.thy ===== *)
theory RuntimeMigrate
  imports RuntimeSchema
begin

text \<open>
  Opening a store file (\<open>migrate.go\<close> and the \<open>prepare\<close> step of \<open>store.go\<close>): the version ledger, the
  forward-only migrations in one transaction, the snapshot taken before a migration touches an
  existing store. A file is its user tables by name, its ledger (\<open>None\<close> when the table is missing)
  and the rows of the store tables; a directory is the store file and the snapshots beside it.
  What SQLite and the file system may refuse is a flag of \<open>open_env\<close>; the theorems hold for all.
\<close>

section \<open>State\<close>

record store_file =
  file_tables :: "string list"
  file_ledger :: "(int \<times> int) list option"
  file_db :: store_db

record store_dir =
  dir_path :: string
  dir_store :: store_file
  dir_backups :: "(string \<times> store_file) list"

record open_env =
  env_read_ok :: bool
  env_tables_ok :: bool
  env_vacuum_ok :: bool
  env_chmod_ok :: bool
  env_begin_ok :: bool
  env_ledger_ok :: bool
  env_record_ok :: "int \<Rightarrow> bool"
  env_commit_ok :: bool
  env_now_ms :: int
  env_stamp :: string

datatype open_error =
    ErrInspect
  | ErrInspectTables
  | ErrNewer int
  | ErrBackupExists string
  | ErrVacuum
  | ErrChmodBackup
  | ErrNoPath int
  | ErrBeginMigration
  | ErrCreateLedger
  | ErrApply int
  | ErrRecord int
  | ErrCommitMigration

record migration =
  mig_version :: int
  mig_apply :: "store_file \<Rightarrow> store_file option"

definition SchemaVersion :: int where
  "SchemaVersion = 1"

section \<open>Operations\<close>

text \<open>\<open>CREATE TABLE IF NOT EXISTS\<close>, once per table of the embedded schema.\<close>

definition schema_tables :: "string list" where
  "schema_tables =
     [''projects'', ''project_roots'', ''project_sensitive_paths'', ''sessions'', ''provider_sessions'',
      ''runs'', ''computer_sessions'', ''computer_session_verbs'', ''computer_session_apps'',
      ''artifacts'', ''policy_rules'', ''approvals'', ''grants'', ''events'']"

text \<open>\<open>exec_ok\<close>: whether SQLite accepts the script on the tables an older build left behind.\<close>

definition schemaV1 :: "(store_file \<Rightarrow> bool) \<Rightarrow> store_file \<Rightarrow> store_file option" where
  "schemaV1 exec_ok f =
     (if exec_ok f
      then Some (f\<lparr>file_tables := file_tables f @ filter (\<lambda>t. t \<notin> set (file_tables f)) schema_tables\<rparr>)
      else None)"

definition migrations :: "(store_file \<Rightarrow> bool) \<Rightarrow> migration list" where
  "migrations exec_ok = [\<lparr>mig_version = 1, mig_apply = schemaV1 exec_ok\<rparr>]"

definition readVersion :: "store_file \<Rightarrow> int" where
  "readVersion f = (case file_ledger f of None \<Rightarrow> 0 | Some rows \<Rightarrow> max_col fst rows)"

definition hasTables :: "store_file \<Rightarrow> bool" where
  "hasTables f = (length (file_tables f) > 0)"

definition backup_path :: "open_env \<Rightarrow> string \<Rightarrow> int \<Rightarrow> string" where
  "backup_path env path fromVersion =
     path @ ''.backup-v'' @ show_int fromVersion @ ''-'' @ env_stamp env"

definition backup :: "open_env \<Rightarrow> int \<Rightarrow> store_dir \<Rightarrow> store_dir \<times> (open_error + string)" where
  "backup env fromVersion d =
     (let dst = backup_path env (dir_path d) fromVersion in
      if dst \<in> set (map fst (dir_backups d)) then (d, Inl (ErrBackupExists dst))
      else if \<not> env_vacuum_ok env then (d, Inl ErrVacuum)
      else let d' = d\<lparr>dir_backups := dir_backups d @ [(dst, dir_store d)]\<rparr>
           in if \<not> env_chmod_ok env then (d', Inl ErrChmodBackup) else (d', Inr dst))"

fun pending_loop :: "int \<Rightarrow> migration list \<Rightarrow> migration list \<Rightarrow> migration list option" where
  "pending_loop want [] steps = Some steps"
| "pending_loop want (m # rest) steps =
     (if mig_version m < want then pending_loop want rest steps
      else if mig_version m \<noteq> want then None
      else pending_loop (want + 1) rest (steps @ [m]))"

definition pendingMigrations :: "int \<Rightarrow> migration list \<Rightarrow> migration list" where
  "pendingMigrations from migs =
     (case pending_loop (from + 1) migs [] of
        None \<Rightarrow> []
      | Some steps \<Rightarrow>
          if steps = [] \<or> mig_version (last steps) \<noteq> SchemaVersion then [] else steps)"

definition create_ledger :: "store_file \<Rightarrow> store_file" where
  "create_ledger f =
     (case file_ledger f of None \<Rightarrow> f\<lparr>file_ledger := Some []\<rparr> | Some _ \<Rightarrow> f)"

fun migrate_steps :: "open_env \<Rightarrow> migration list \<Rightarrow> store_file \<Rightarrow> open_error + store_file" where
  "migrate_steps env [] f = Inr f"
| "migrate_steps env (m # rest) f =
     (case mig_apply m f of
        None \<Rightarrow> Inl (ErrApply (mig_version m))
      | Some f1 \<Rightarrow>
          let rows = (case file_ledger f1 of None \<Rightarrow> [] | Some rs \<Rightarrow> rs)
          in if file_ledger f1 = None \<or> mig_version m \<in> set (map fst rows) \<or>
                \<not> env_record_ok env (mig_version m)
             then Inl (ErrRecord (mig_version m))
             else migrate_steps env rest
               (f1\<lparr>file_ledger := Some (rows @ [(mig_version m, env_now_ms env)])\<rparr>))"

definition migrate ::
  "open_env \<Rightarrow> int \<Rightarrow> migration list \<Rightarrow> store_file \<Rightarrow> store_file \<times> open_error option" where
  "migrate env from migs f =
     (let steps = pendingMigrations from migs in
      if steps = [] then (f, Some (ErrNoPath from))
      else if \<not> env_begin_ok env then (f, Some ErrBeginMigration)
      else if \<not> env_ledger_ok env then (f, Some ErrCreateLedger)
      else case migrate_steps env steps (create_ledger f) of
             Inl e \<Rightarrow> (f, Some e)
           | Inr f' \<Rightarrow> if env_commit_ok env then (f', None) else (f, Some ErrCommitMigration))"

definition prepare :: "open_env \<Rightarrow> migration list \<Rightarrow> store_dir \<Rightarrow> store_dir \<times> open_error option" where
  "prepare env migs d =
     (if \<not> env_read_ok env then (d, Some ErrInspect)
      else
        let version = readVersion (dir_store d) in
        if version > SchemaVersion then (d, Some (ErrNewer version))
        else if version = SchemaVersion then (d, None)
        else if \<not> env_tables_ok env then (d, Some ErrInspectTables)
        else
          let (d1, r) = (if hasTables (dir_store d)
                         then (case backup env version d of
                                 (d', Inl e) \<Rightarrow> (d', Some e) | (d', Inr _) \<Rightarrow> (d', None))
                         else (d, None))
          in case r of
               Some e \<Rightarrow> (d1, Some e)
             | None \<Rightarrow>
                 let (f, r') = migrate env version migs (dir_store d1)
                 in (d1\<lparr>dir_store := f\<rparr>, r'))"

section \<open>Pending steps\<close>

lemma pending_loop_versions:
  "pending_loop want migs steps = Some out \<Longrightarrow>
   \<exists>new. out = steps @ new \<and> map mig_version new = [want..want + int (length new) - 1] \<and>
     set new \<subseteq> set migs"
proof (induction want migs steps arbitrary: out rule: pending_loop.induct)
  case (2 want m rest steps)
  show ?case
  proof (cases "mig_version m < want")
    case True
    with "2.IH"(1) "2.prems" show ?thesis by fastforce
  next
    case False
    with "2.prems" have eq: "mig_version m = want" by (auto split: if_splits)
    with "2.prems" have "pending_loop (want + 1) rest (steps @ [m]) = Some out" by simp
    with "2.IH"(2) False eq obtain new where new: "out = (steps @ [m]) @ new" "set new \<subseteq> set rest"
        "map mig_version new = [want + 1..want + 1 + int (length new) - 1]"
      by blast
    show ?thesis
      by (rule exI [of _ "m # new"]) (use new eq in \<open>auto simp: upto_rec1\<close>)
  qed
qed simp

lemma pending_loop_all:
  "map mig_version migs = [i..j] \<Longrightarrow> i \<le> want \<Longrightarrow> want \<le> j + 1 \<Longrightarrow>
   \<exists>new. pending_loop want migs steps = Some (steps @ new) \<and> map mig_version new = [want..j]"
proof (induction migs arbitrary: i want steps)
  case (Cons m rest)
  then have ij: "i \<le> j" by (cases "i \<le> j") simp_all
  with Cons.prems(1) have m: "mig_version m = i" and rest: "map mig_version rest = [i + 1..j]"
    by (simp_all add: upto_rec1)
  show ?case
  proof (cases "i < want")
    case True
    with Cons.IH [OF rest, of want steps] Cons.prems m show ?thesis by auto
  next
    case False
    with Cons.prems have "want = i" by simp
    with Cons.IH [OF rest, of "i + 1" "steps @ [m]"] ij m show ?thesis
      by (auto simp: upto_rec1)
  qed
next
  case Nil
  then show ?case by (cases "i \<le> j") (simp_all add: upto_rec1)
qed

section \<open>Properties\<close>

text \<open>
  The steps chosen for a store of version \<open>from\<close> are exactly the versions \<open>from + 1\<close> to
  \<open>SchemaVersion\<close>, each once and in order, whatever list of migrations is given; and a list that
  numbers its migrations 1 to \<open>SchemaVersion\<close> covers every older store.
\<close>

theorem pendingMigrations_versions:
  "(pendingMigrations from migs \<noteq> [] \<longrightarrow>
      map mig_version (pendingMigrations from migs) = [from + 1..SchemaVersion] \<and>
      set (pendingMigrations from migs) \<subseteq> set migs) \<and>
   (map mig_version migs = [1..SchemaVersion] \<and> 0 \<le> from \<and> from < SchemaVersion \<longrightarrow>
      pendingMigrations from migs \<noteq> [])"
proof (intro conjI impI)
  assume ne: "pendingMigrations from migs \<noteq> []"
  then obtain steps where steps: "pending_loop (from + 1) migs [] = Some steps" "steps \<noteq> []"
    and last: "mig_version (last steps) = SchemaVersion" and eq: "pendingMigrations from migs = steps"
    by (auto simp: pendingMigrations_def split: option.splits if_splits)
  from pending_loop_versions [OF steps(1)]
  have vers: "map mig_version steps = [from + 1..from + int (length steps)]" and "set steps \<subseteq> set migs"
    by (auto simp: algebra_simps)
  have "SchemaVersion = last (map mig_version steps)"
    using last steps(2) by (simp add: last_map)
  also have "\<dots> = from + int (length steps)"
    unfolding vers using steps(2) by (simp add: upto_rec2 Suc_leI flip: length_greater_0_conv)
  finally show "map mig_version (pendingMigrations from migs) = [from + 1..SchemaVersion]"
    by (simp add: eq vers)
  show "set (pendingMigrations from migs) \<subseteq> set migs"
    using \<open>set steps \<subseteq> set migs\<close> eq by simp
next
  assume "map mig_version migs = [1..SchemaVersion] \<and> 0 \<le> from \<and> from < SchemaVersion"
  then obtain new where new: "pending_loop (from + 1) migs [] = Some new"
    "map mig_version new = [from + 1..SchemaVersion]" and lt: "from < SchemaVersion"
    using pending_loop_all [of migs 1 SchemaVersion "from + 1" "[]"] by auto
  then have "new \<noteq> []" by auto
  then have "mig_version (last new) = last [from + 1..SchemaVersion]"
    using new(2) by (metis last_map)
  with new lt \<open>new \<noteq> []\<close> show "pendingMigrations from migs \<noteq> []"
    by (simp add: pendingMigrations_def upto_rec2)
qed

theorem pendingMigrations_versions_witness:
  "pendingMigrations 0 (migrations (\<lambda>f. True)) \<noteq> []"
  using pendingMigrations_versions [of 0 "migrations (\<lambda>f. True)"]
  by (simp add: migrations_def SchemaVersion_def)

lemma migrate_V1:
  assumes "migrate env from (migrations exec_ok) f = (f', None)"
  obtains rows where "from = 0"
    and "rows = (case file_ledger f of None \<Rightarrow> [] | Some rs \<Rightarrow> rs)" and "1 \<notin> fst ` set rows"
    and "f' = f\<lparr>file_tables := file_tables f @ filter (\<lambda>t. t \<notin> set (file_tables f)) schema_tables,
      file_ledger := Some (rows @ [(1, env_now_ms env)])\<rparr>"
proof -
  have "pendingMigrations from (migrations exec_ok) \<noteq> []"
    using assms by (auto simp: migrate_def Let_def)
  then have "from = 0" by (auto simp: pendingMigrations_def migrations_def SchemaVersion_def split: if_splits)
  moreover have "pendingMigrations 0 (migrations exec_ok) = migrations exec_ok"
    by (simp add: pendingMigrations_def migrations_def SchemaVersion_def)
  ultimately show thesis
    using assms
    by (intro that [of "case file_ledger f of None \<Rightarrow> [] | Some rs \<Rightarrow> rs"])
      (auto simp: migrate_def Let_def migrations_def schemaV1_def create_ledger_def
        split: if_splits option.splits sum.splits)
qed

lemma migrate_error: "migrate env from migs f = (f', Some e) \<Longrightarrow> f' = f"
  by (auto simp: migrate_def Let_def split: if_splits sum.splits)

lemma max_col_snoc_ge: "\<forall>r \<in> set rows. col r \<le> col x \<Longrightarrow> max_col col (rows @ [x]) = col x"
  by (subst max_col_Max) (auto intro: Max_eqI)

text \<open>
  (C5) A successful \<open>prepare\<close> leaves a store at \<open>SchemaVersion\<close> with every table of the schema, no
  table or row lost, and preparing it again changes nothing; a store with tables that was migrated
  has its previous contents in a new snapshot beside it.
\<close>

theorem prepare_success:
  assumes "prepare env (migrations exec_ok) d = (d', None)"
  shows "readVersion (dir_store d') = SchemaVersion \<and>
    prepare env' (migrations exec_ok) d' = (d', if env_read_ok env' then None else Some ErrInspect) \<and>
    set (file_tables (dir_store d)) \<subseteq> set (file_tables (dir_store d')) \<and>
    file_db (dir_store d') = file_db (dir_store d) \<and> set (dir_backups d) \<subseteq> set (dir_backups d') \<and>
    (readVersion (dir_store d) < SchemaVersion \<longrightarrow>
       set schema_tables \<subseteq> set (file_tables (dir_store d')) \<and>
       (file_tables (dir_store d) \<noteq> [] \<longrightarrow>
          (backup_path env (dir_path d) (readVersion (dir_store d)), dir_store d) \<in> set (dir_backups d') \<and>
          backup_path env (dir_path d) (readVersion (dir_store d)) \<notin> fst ` set (dir_backups d)))"
proof (cases "readVersion (dir_store d) = SchemaVersion")
  case True
  with assms show ?thesis by (auto simp: prepare_def Let_def split: if_splits)
next
  case False
  let ?v = "readVersion (dir_store d)" and ?p = "backup_path env (dir_path d) (readVersion (dir_store d))"
  let ?d1 = "if hasTables (dir_store d) then d\<lparr>dir_backups := dir_backups d @ [(?p, dir_store d)]\<rparr> else d"
  have v: "?v < SchemaVersion" and fresh: "hasTables (dir_store d) \<longrightarrow> ?p \<notin> fst ` set (dir_backups d)"
    and d': "d' = ?d1\<lparr>dir_store := fst (migrate env ?v (migrations exec_ok) (dir_store d))\<rparr>"
    and mig: "snd (migrate env ?v (migrations exec_ok) (dir_store d)) = None"
    using assms False
    by (auto simp: prepare_def Let_def backup_def split: if_splits prod.splits sum.splits)
  obtain rows where rows: "rows = (case file_ledger (dir_store d) of None \<Rightarrow> [] | Some rs \<Rightarrow> rs)"
    and zero: "?v = 0" and f': "dir_store d' = (dir_store d)
      \<lparr>file_tables := file_tables (dir_store d) @
         filter (\<lambda>t. t \<notin> set (file_tables (dir_store d))) schema_tables,
       file_ledger := Some (rows @ [(1, env_now_ms env)])\<rparr>"
  proof -
    have "migrate env ?v (migrations exec_ok) (dir_store d) = (dir_store d', None)"
      using mig d' by (simp add: prod_eq_iff)
    then show thesis by (rule migrate_V1) (rule that)
  qed
  have "fst r \<le> 1" if "r \<in> set rows" for r
  proof (cases "file_ledger (dir_store d)")
    case (Some rs)
    with that rows zero max_col_ge [of r rs fst] show ?thesis by (simp add: readVersion_def)
  qed (use that rows in simp)
  then have "readVersion (dir_store d') = SchemaVersion"
    by (simp add: f' readVersion_def max_col_snoc_ge SchemaVersion_def)
  moreover from this have "prepare env' (migrations exec_ok) d' =
      (d', if env_read_ok env' then None else Some ErrInspect)"
    by (simp add: prepare_def Let_def)
  moreover have "dir_backups d' = dir_backups ?d1" by (simp add: d')
  ultimately show ?thesis
    using fresh by (auto simp: f' hasTables_def)
qed

definition sample_dir :: store_dir where
  "sample_dir =
     \<lparr>dir_path = ''/h/runtime.db'',
      dir_store = \<lparr>file_tables = [''sessions''], file_ledger = None, file_db = empty_db\<rparr>,
      dir_backups = []\<rparr>"

definition sample_env :: open_env where
  "sample_env =
     \<lparr>env_read_ok = True, env_tables_ok = True, env_vacuum_ok = True, env_chmod_ok = True,
      env_begin_ok = True, env_ledger_ok = True, env_record_ok = (\<lambda>v. True), env_commit_ok = True,
      env_now_ms = 1700000000000, env_stamp = ''20260101T000000.000000000Z''\<rparr>"

theorem prepare_success_witness:
  "snd (prepare sample_env (migrations (\<lambda>f. True)) sample_dir) = None \<and>
   readVersion (dir_store (fst (prepare sample_env (migrations (\<lambda>f. True)) sample_dir))) = SchemaVersion"
proof -
  have ok: "snd (prepare sample_env (migrations (\<lambda>f. True)) sample_dir) = None"
    by code_simp
  then have "prepare sample_env (migrations (\<lambda>f. True)) sample_dir =
      (fst (prepare sample_env (migrations (\<lambda>f. True)) sample_dir), None)"
    by (simp add: prod_eq_iff)
  from prepare_success [OF this] ok show ?thesis by blast
qed

text \<open>
  (C6) An error of \<open>prepare\<close> never alters the store file, wherever it happens: a failed migration
  leaves the tables, the ledger and the rows exactly as they were. A store written by a newer
  binary is refused with nothing written at all, not even a snapshot.
\<close>

theorem prepare_failure:
  assumes "prepare env migs d = (d', Some e)"
  shows "dir_store d' = dir_store d \<and> set (dir_backups d) \<subseteq> set (dir_backups d') \<and>
    (readVersion (dir_store d) > SchemaVersion \<longrightarrow> d' = d)"
proof -
  let ?v = "readVersion (dir_store d)"
  have b: "dir_store (fst (backup env v d)) = dir_store d"
    "set (dir_backups d) \<subseteq> set (dir_backups (fst (backup env v d)))" for v
    by (auto simp: backup_def Let_def)
  show ?thesis
  proof (cases "env_read_ok env \<and> ?v < SchemaVersion \<and> env_tables_ok env")
    case False
    with assms show ?thesis by (auto simp: prepare_def Let_def split: if_splits)
  next
    case True
    define d1 where "d1 = (if hasTables (dir_store d) then fst (backup env ?v d) else d)"
    have d1: "dir_store d1 = dir_store d" "set (dir_backups d) \<subseteq> set (dir_backups d1)"
      using b by (simp_all add: d1_def)
    have "d' = d1 \<or> (\<exists>f. migrate env ?v migs (dir_store d1) = (f, Some e) \<and> d' = d1\<lparr>dir_store := f\<rparr>)"
      using assms True
      by (auto simp: prepare_def Let_def d1_def split: if_splits prod.splits sum.splits option.splits)
    with d1 True show ?thesis by (auto dest: migrate_error)
  qed
qed

theorem prepare_failure_witness:
  "snd (prepare (sample_env\<lparr>env_commit_ok := False\<rparr>) (migrations (\<lambda>f. True)) sample_dir) =
     Some ErrCommitMigration \<and>
   dir_store (fst (prepare (sample_env\<lparr>env_commit_ok := False\<rparr>) (migrations (\<lambda>f. True)) sample_dir)) =
     dir_store sample_dir"
proof -
  have err: "snd (prepare (sample_env\<lparr>env_commit_ok := False\<rparr>) (migrations (\<lambda>f. True)) sample_dir) =
      Some ErrCommitMigration"
    by code_simp
  then have "prepare (sample_env\<lparr>env_commit_ok := False\<rparr>) (migrations (\<lambda>f. True)) sample_dir =
      (fst (prepare (sample_env\<lparr>env_commit_ok := False\<rparr>) (migrations (\<lambda>f. True)) sample_dir),
       Some ErrCommitMigration)"
    by (simp add: prod_eq_iff)
  from prepare_failure [OF this] err show ?thesis by blast
qed

end
