(* ===== verification/Subagent.thy ===== *)
theory Subagent
  imports Prelude
begin

text \<open>
  Subagent calls (\<open>internal/agentops/subagent.go\<close>): profile resolution, validation, the command line
  of a harness, the bounded line tee of its output; and the normalisation of a run specification
  that the run manager performs before it accepts a run (\<open>run_manager.go\<close>). The profile table, a
  package variable of the program, is an argument.
\<close>

section \<open>Types and constants\<close>

abbreviation SubagentClientOMP :: string where "SubagentClientOMP \<equiv> ''omp''"
abbreviation SubagentClientOpencode :: string where "SubagentClientOpencode \<equiv> ''opencode''"
abbreviation SubagentClientCodex :: string where "SubagentClientCodex \<equiv> ''codex''"
abbreviation DefaultSubagentClient :: string where "DefaultSubagentClient \<equiv> ''omp''"

abbreviation subagentMaxOutput :: nat where "subagentMaxOutput \<equiv> 256 * 1024"
abbreviation subagentMaxConcurrent :: nat where "subagentMaxConcurrent \<equiv> 2"

definition supportedSubagentClient :: "string \<Rightarrow> bool" where
  "supportedSubagentClient client =
     (client \<in> set [SubagentClientOMP, SubagentClientOpencode, SubagentClientCodex])"

record SubagentResult =
  Res_Client :: string
  Res_Agent :: string
  Res_Model :: string
  Res_Thinking :: string
  Res_Task :: string
  Res_Status :: string
  Res_Output :: string
  Res_Events :: int
  Res_Elapsed :: string

record SubagentProfile =
  Prof_Name :: string
  Prof_Description :: string
  Prof_Client :: string
  Prof_Agent :: string
  Prof_Model :: string
  Prof_Thinking :: string
  Prof_TimeoutSec :: int
  Prof_ExtraArgs :: "string list"
  Prof_Tab :: string

record AgentCatalogEntry =
  Cat_Name :: string
  Cat_Description :: string
  Cat_Client :: string
  Cat_Agent :: string
  Cat_Model :: string
  Cat_Thinking :: string
  Cat_Timeout :: int
  Cat_Tab :: string

record RunSpec =
  Spec_Workspace :: string
  Spec_Task :: string
  Spec_Client :: string
  Spec_Agent :: string
  Spec_Model :: string
  Spec_Thinking :: string
  Spec_TimeoutSeconds :: int

datatype subagent_error =
    ErrTaskRequired
  | ErrUnsupportedClient string
  | ErrInvalidAgent string
  | ErrUnsupportedThinking string

section \<open>Resolution and validation\<close>

definition orDefault :: "string \<Rightarrow> string \<Rightarrow> string" where
  "orDefault v def = (if trim_space v = [] then def else v)"

definition AgentCatalog :: "SubagentProfile list \<Rightarrow> AgentCatalogEntry list" where
  "AgentCatalog profiles =
     map (\<lambda>p. \<lparr>Cat_Name = Prof_Name p, Cat_Description = Prof_Description p,
       Cat_Client = orDefault (Prof_Client p) DefaultSubagentClient, Cat_Agent = Prof_Agent p,
       Cat_Model = Prof_Model p, Cat_Thinking = Prof_Thinking p, Cat_Timeout = Prof_TimeoutSec p,
       Cat_Tab = Prof_Tab p\<rparr>) profiles"

fun resolveSubagentCall ::
  "SubagentProfile list \<Rightarrow> string \<Rightarrow> string \<Rightarrow> string \<Rightarrow> string \<Rightarrow> int \<Rightarrow>
   string \<times> string \<times> string \<times> string \<times> int \<times> string list"
where
  "resolveSubagentCall [] client agent model thinking timeoutSeconds =
     (if client = [] then DefaultSubagentClient else client, agent, model, thinking, timeoutSeconds, [])"
| "resolveSubagentCall (p # ps) client agent model thinking timeoutSeconds =
     (if Prof_Name p \<noteq> [] \<and> Prof_Name p = trim_space agent \<and> (client = [] \<or> client = Prof_Client p)
      then (orDefault (Prof_Client p) DefaultSubagentClient,
            orDefault (Prof_Agent p) (Prof_Name p),
            if model = [] then Prof_Model p else model,
            if thinking = [] then Prof_Thinking p else thinking,
            if timeoutSeconds \<le> 0 then Prof_TimeoutSec p else timeoutSeconds,
            Prof_ExtraArgs p)
      else resolveSubagentCall ps client agent model thinking timeoutSeconds)"

text \<open>
  A code point of two or more bytes is outside the accepted range, and so is each of its bytes: the
  loop over code points is a check of the bytes.
\<close>

definition identifier_char :: "char \<Rightarrow> bool" where
  "identifier_char r =
     (r = CHR ''_'' \<or> r = CHR ''-'' \<or>
      (97 \<le> (of_char r :: nat) \<and> (of_char r :: nat) \<le> 122) \<or>
      (65 \<le> (of_char r :: nat) \<and> (of_char r :: nat) \<le> 90) \<or>
      (48 \<le> (of_char r :: nat) \<and> (of_char r :: nat) \<le> 57))"

definition validIdentifierish :: "string \<Rightarrow> bool" where
  "validIdentifierish s =
     (if s = [] then True else if length s > 64 then False else list_all identifier_char s)"

definition thinking_levels :: "string list" where
  "thinking_levels = [''off'', ''minimal'', ''low'', ''medium'', ''high'', ''xhigh'', ''max'']"

definition validateSubagentCall :: "string \<Rightarrow> string \<Rightarrow> string \<Rightarrow> subagent_error option" where
  "validateSubagentCall client agent thinking =
     (if \<not> supportedSubagentClient client then Some (ErrUnsupportedClient client)
      else if agent \<noteq> [] \<and> \<not> validIdentifierish agent then Some (ErrInvalidAgent agent)
      else if thinking \<noteq> [] \<and> thinking \<notin> set thinking_levels then Some (ErrUnsupportedThinking thinking)
      else None)"

definition normalizeRunSpec :: "SubagentProfile list \<Rightarrow> RunSpec \<Rightarrow> RunSpec" where
  "normalizeRunSpec profiles spec =
     (let (client, agent, model, thinking, timeoutSeconds, extra) =
            resolveSubagentCall profiles (Spec_Client spec) (Spec_Agent spec) (Spec_Model spec)
              (Spec_Thinking spec) (Spec_TimeoutSeconds spec);
          client = trim_space client;
          spec = (if client \<noteq> [] then spec\<lparr>Spec_Client := client\<rparr> else spec);
          spec = spec\<lparr>Spec_Agent := agent, Spec_Model := model, Spec_Thinking := thinking\<rparr>
      in if timeoutSeconds > 0 then spec\<lparr>Spec_TimeoutSeconds := timeoutSeconds\<rparr> else spec)"

definition validateRunSpec :: "RunSpec \<Rightarrow> subagent_error option" where
  "validateRunSpec spec =
     (if trim_space (Spec_Task spec) = [] then Some ErrTaskRequired
      else validateSubagentCall (Spec_Client spec) (Spec_Agent spec) (Spec_Thinking spec))"

section \<open>Command lines\<close>

definition opt_arg :: "string \<Rightarrow> string \<Rightarrow> string list" where
  "opt_arg flag v = (if v \<noteq> [] then [flag, v] else [])"

definition subagentArgs ::
  "string \<Rightarrow> string \<Rightarrow> string \<Rightarrow> string \<Rightarrow> string \<Rightarrow> string list \<Rightarrow> string \<Rightarrow> string list" where
  "subagentArgs client rootReal agent model thinking extraArgs task =
     (if client = SubagentClientOMP then
        [''-p'', ''--mode'', ''json'', ''--cwd'', rootReal, ''--auto-approve'', ''--allow-home''] @
        opt_arg ''--model'' model @ opt_arg ''--thinking'' thinking @ extraArgs @ [''--'', task]
      else if client = SubagentClientOpencode then
        [''run'', ''--format'', ''json'', ''--auto'', ''--dir'', rootReal] @
        opt_arg ''--agent'' agent @ opt_arg ''--model'' model @
        (if thinking \<noteq> [] \<and> thinking \<noteq> ''off'' then [''--variant'', thinking] else []) @
        extraArgs @ [''--'', task]
      else if client = SubagentClientCodex then
        [''exec'', ''--json'', ''--full-auto''] @
        opt_arg ''--profile'' agent @ opt_arg ''--model'' model @
        (if thinking \<noteq> [] \<and> thinking \<noteq> ''off''
         then [''-c'', ''model_reasoning_effort='' @ thinking] else []) @
        extraArgs @ [task]
      else [])"

section \<open>Bounded text\<close>

abbreviation ellipsis :: string where "ellipsis \<equiv> [CHR 0xE2, CHR 0x80, CHR 0xA6]"

definition truncateText :: "string \<Rightarrow> nat \<Rightarrow> string" where
  "truncateText s m = (if length s \<le> m then s else take m s @ ellipsis)"

definition truncateTail :: "string \<Rightarrow> nat \<Rightarrow> string" where
  "truncateTail s m =
     (if length s \<le> m then s
      else ellipsis @ ''(truncated)'' @ [CHR 0x0A] @ drop (length s - m) s)"

text \<open>
  \<open>lineTee\<close>: the buffer keeps the first \<open>max\<close> bytes written, every complete line that is not blank
  goes to the callback. \<open>tee_lines\<close> is the sequence of lines handed to it.
\<close>

record lineTee =
  tee_buf :: string
  tee_max :: nat
  tee_carry :: string
  tee_lines :: "string list"

fun index_byte :: "string \<Rightarrow> char \<Rightarrow> nat option" where
  "index_byte [] c = None"
| "index_byte (x # xs) c = (if x = c then Some 0 else map_option Suc (index_byte xs c))"

lemma index_byte_Some: "index_byte s c = Some i \<Longrightarrow> i < length s \<and> s ! i = c \<and> c \<notin> set (take i s)"
  by (induction s arbitrary: i) (auto split: if_splits)

lemma index_byte_None: "index_byte s c = None \<longleftrightarrow> c \<notin> set s"
  by (induction s) (auto split: if_splits)

function tee_drain :: "string \<Rightarrow> string list \<Rightarrow> string \<times> string list" where
  "tee_drain carry lines =
     (case index_byte carry (CHR 0x0A) of
        None \<Rightarrow> (carry, lines)
      | Some idx \<Rightarrow>
          let line = take idx carry
          in tee_drain (drop (idx + 1) carry) (if trim_space line \<noteq> [] then lines @ [line] else lines))"
  by pat_completeness auto
termination
  by (relation "measure (\<lambda>(carry, lines). length carry)") (auto dest: index_byte_Some)

declare tee_drain.simps [simp del]

definition lineTee_Write :: "lineTee \<Rightarrow> string \<Rightarrow> lineTee" where
  "lineTee_Write t p =
     (let (carry, lines) = tee_drain (tee_carry t @ p) (tee_lines t);
          t = t\<lparr>tee_carry := carry, tee_lines := lines\<rparr>
      in if length (tee_buf t) < tee_max t then
           let remaining = tee_max t - length (tee_buf t)
           in if length p \<le> remaining then t\<lparr>tee_buf := tee_buf t @ p\<rparr>
              else t\<lparr>tee_buf := tee_buf t @ take remaining p\<rparr>
         else t)"

section \<open>The tee against a reference\<close>

text \<open>The pieces between newlines, the last one possibly unfinished.\<close>

primrec pieces :: "string \<Rightarrow> string list" where
  "pieces [] = [[]]"
| "pieces (c # cs) =
     (if c = CHR 0x0A then [] # pieces cs else (c # hd (pieces cs)) # tl (pieces cs))"

lemma pieces_ne [simp]: "pieces s \<noteq> []"
  by (cases s) simp_all

lemma pieces_None: "CHR 0x0A \<notin> set s \<Longrightarrow> pieces s = [s]"
  by (induction s) auto

lemma pieces_Some: "CHR 0x0A \<notin> set a \<Longrightarrow> pieces (a @ CHR 0x0A # b) = a # pieces b"
  by (induction a) auto

lemma tee_drain_pieces:
  "tee_drain s L = (last (pieces s), L @ filter (\<lambda>l. trim_space l \<noteq> []) (butlast (pieces s)))"
proof (induction s L rule: tee_drain.induct)
  case (1 carry lines)
  show ?case
  proof (cases "index_byte carry (CHR 0x0A)")
    case None
    then have "CHR 0x0A \<notin> set carry" by (simp add: index_byte_None)
    with None show ?thesis by (simp add: tee_drain.simps pieces_None)
  next
    case (Some i)
    from index_byte_Some [OF Some] have i: "i < length carry" "carry ! i = CHR 0x0A"
      "CHR 0x0A \<notin> set (take i carry)" by simp_all
    then have "carry = take i carry @ CHR 0x0A # drop (i + 1) carry"
      by (metis Suc_eq_plus1 id_take_nth_drop)
    then have "pieces carry = take i carry # pieces (drop (i + 1) carry)"
      using i(3) pieces_Some by metis
    with Some "1.IH" [OF Some refl] show ?thesis
      by (simp add: tee_drain.simps [of carry])
  qed
qed

lemma pieces_append: "pieces (a @ b) = butlast (pieces a) @ pieces (last (pieces a) @ b)"
proof (induction a)
  case (Cons c a)
  show ?case
  proof (cases "c = CHR 0x0A")
    case False
    have "pieces (c # last (pieces a) @ b) =
        (c # hd (pieces (last (pieces a) @ b))) # tl (pieces (last (pieces a) @ b))"
      using False by simp
    then show ?thesis
      using Cons.IH False by (cases "pieces a") (auto simp: hd_append tl_append split: list.splits)
  qed (use Cons.IH in simp)
qed simp

text \<open>
  The output tee does not depend on how the harness cuts its output into writes: after any
  sequence of writes the buffer holds exactly the first \<open>max\<close> bytes of the whole output, the lines
  handed to the progress callback are exactly its complete non-blank lines in order, and the carry
  is the unfinished last line.
\<close>

theorem lineTee_stream:
  "foldl lineTee_Write \<lparr>tee_buf = [], tee_max = m, tee_carry = [], tee_lines = []\<rparr> ps =
     \<lparr>tee_buf = take m (concat ps), tee_max = m, tee_carry = last (pieces (concat ps)),
      tee_lines = filter (\<lambda>l. trim_space l \<noteq> []) (butlast (pieces (concat ps)))\<rparr>"
proof (induction ps rule: rev_induct)
  case (snoc p ps)
  let ?all = "concat ps"
  have "butlast (pieces (?all @ p)) = butlast (pieces ?all) @ butlast (pieces (last (pieces ?all) @ p))"
    and "last (pieces (?all @ p)) = last (pieces (last (pieces ?all) @ p))"
    by (simp_all add: pieces_append [of ?all p] butlast_append)
  then have "lineTee_Write \<lparr>tee_buf = take m ?all, tee_max = m, tee_carry = last (pieces ?all),
      tee_lines = filter (\<lambda>l. trim_space l \<noteq> []) (butlast (pieces ?all))\<rparr> p =
    \<lparr>tee_buf = take m (?all @ p), tee_max = m, tee_carry = last (pieces (?all @ p)),
      tee_lines = filter (\<lambda>l. trim_space l \<noteq> []) (butlast (pieces (?all @ p)))\<rparr>"
    by (auto simp: lineTee_Write_def tee_drain_pieces Let_def)
  then show ?case
    by (simp add: snoc.IH)
qed simp

section \<open>Accepted calls\<close>

text \<open>
  A run specification that passes validation gives a usable command line: the harness is one of
  the three supported, the task is not blank and is the last argument, after the end-of-options
  marker for omp and opencode, and the agent name is at most 64 letters, digits, dashes or
  underscores.
\<close>

theorem validateRunSpec_args:
  assumes "validateRunSpec spec = None"
  shows "supportedSubagentClient (Spec_Client spec) \<and> trim_space (Spec_Task spec) \<noteq> [] \<and>
    length (Spec_Agent spec) \<le> 64 \<and> list_all identifier_char (Spec_Agent spec) \<and>
    (\<exists>flags. subagentArgs (Spec_Client spec) root (Spec_Agent spec) (Spec_Model spec)
        (Spec_Thinking spec) extra (Spec_Task spec) = flags @ [Spec_Task spec] \<and>
      (Spec_Client spec \<noteq> SubagentClientCodex \<longrightarrow> flags \<noteq> [] \<and> last flags = ''--''))"
proof -
  have valid: "supportedSubagentClient (Spec_Client spec)" "trim_space (Spec_Task spec) \<noteq> []"
    "length (Spec_Agent spec) \<le> 64" "list_all identifier_char (Spec_Agent spec)"
    using assms by (auto simp: validateRunSpec_def validateSubagentCall_def validIdentifierish_def
        split: if_splits)
  from valid(1) consider "Spec_Client spec = SubagentClientOMP" | "Spec_Client spec = SubagentClientOpencode"
    | "Spec_Client spec = SubagentClientCodex"
    by (auto simp: supportedSubagentClient_def)
  then have "\<exists>flags. subagentArgs (Spec_Client spec) root (Spec_Agent spec) (Spec_Model spec)
        (Spec_Thinking spec) extra (Spec_Task spec) = flags @ [Spec_Task spec] \<and>
      (Spec_Client spec \<noteq> SubagentClientCodex \<longrightarrow> flags \<noteq> [] \<and> last flags = ''--'')"
    (is "\<exists>flags. ?args = _ \<and> _")
    by cases (rule exI [of _ "butlast ?args"], simp add: subagentArgs_def butlast_append)+
  with valid show ?thesis by blast
qed

definition sample_spec :: RunSpec where
  "sample_spec =
     \<lparr>Spec_Workspace = ''host'', Spec_Task = ''fix'', Spec_Client = ''omp'', Spec_Agent = ''coder'',
      Spec_Model = '''', Spec_Thinking = ''high'', Spec_TimeoutSeconds = 0\<rparr>"

theorem validateRunSpec_args_witness:
  "validateRunSpec sample_spec = None \<and>
   (\<exists>flags. subagentArgs ''omp'' ''/w'' ''coder'' '''' ''high'' [] ''fix'' = flags @ [''fix''])"
proof -
  have ok: "validateRunSpec sample_spec = None" by code_simp
  with validateRunSpec_args [OF this, of "''/w''" "[]"] show ?thesis
    by (simp add: sample_spec_def) blast
qed

text \<open>
  Resolving a resolved call again is not idempotent in general: when the agent a profile pins is
  itself the name of a profile of the same harness, the second resolution follows it. The manager
  resolves on acceptance and the executor resolves again, so such a run executes an agent other
  than the one its snapshot reports.
\<close>

definition chained_profiles :: "SubagentProfile list" where
  "chained_profiles =
     [\<lparr>Prof_Name = ''a'', Prof_Description = '''', Prof_Client = ''omp'', Prof_Agent = ''b'',
       Prof_Model = '''', Prof_Thinking = '''', Prof_TimeoutSec = 0, Prof_ExtraArgs = [], Prof_Tab = ''''\<rparr>,
      \<lparr>Prof_Name = ''b'', Prof_Description = '''', Prof_Client = ''omp'', Prof_Agent = ''c'',
       Prof_Model = ''m'', Prof_Thinking = '''', Prof_TimeoutSec = 0, Prof_ExtraArgs = [], Prof_Tab = ''''\<rparr>]"

lemma normalizeRunSpec_not_idempotent:
  "normalizeRunSpec chained_profiles (normalizeRunSpec chained_profiles (sample_spec\<lparr>Spec_Agent := ''a''\<rparr>)) \<noteq>
   normalizeRunSpec chained_profiles (sample_spec\<lparr>Spec_Agent := ''a''\<rparr>)"
  by code_simp

end
