(* ===== verification/Ring.thy ===== *)
theory Ring
  imports Main
begin

text \<open>
  Ring buffers as the run manager keeps them: a slice of fixed length, the number of writes so far
  and the number of entries that are valid. \<open>ring_contents\<close> reads the valid entries, oldest first.
\<close>

definition ring_contents :: "'a list \<Rightarrow> nat \<Rightarrow> nat \<Rightarrow> 'a list" where
  "ring_contents buf next kept = map (\<lambda>k. buf ! (k mod length buf)) [next - kept..<next]"

text \<open>The last \<open>n\<close> elements of a list.\<close>

definition last_n :: "nat \<Rightarrow> 'a list \<Rightarrow> 'a list" where
  "last_n n xs = drop (length xs - n) xs"

lemma last_n_length: "length (last_n n xs) = min n (length xs)"
  by (simp add: last_n_def)

lemma length_ring_contents: "kept \<le> next \<Longrightarrow> length (ring_contents buf next kept) = kept"
  by (simp add: ring_contents_def)

lemma ring_contents_0 [simp]: "ring_contents buf next 0 = []"
  by (simp add: ring_contents_def)

lemma mod_neq_window:
  fixes j k n :: nat
  assumes "j < k" and "k < j + n"
  shows "j mod n \<noteq> k mod n"
proof
  assume "j mod n = k mod n"
  then have "n dvd k - j" using assms(1) by (metis mod_eq_dvd_iff_nat less_imp_le)
  with assms show False by (auto dest: dvd_imp_le)
qed

text \<open>A write appends to the contents and drops the oldest entry of a full ring.\<close>

lemma ring_push:
  assumes "0 < length buf" and "kept = min next (length buf)"
  shows "ring_contents (buf[next mod length buf := x]) (Suc next)
      (if kept < length buf then kept + 1 else kept) =
    last_n (length buf) (ring_contents buf next kept @ [x])"
proof -
  let ?n = "length buf" and ?buf = "buf[next mod length buf := x]"
  let ?kept = "if kept < length buf then kept + 1 else kept"
  have start: "Suc next - ?kept = (if kept < ?n then next - kept else Suc (next - kept))"
    using assms by auto
  have keep: "?buf ! (k mod ?n) = buf ! (k mod ?n)" if "Suc next - ?kept \<le> k" "k < next" for k
  proof -
    have "k mod ?n \<noteq> next mod ?n"
      using that assms by (intro mod_neq_window) (auto split: if_splits)
    then show ?thesis by simp
  qed
  have "1 \<le> ?kept"
    using assms by (cases "kept < ?n") (auto simp: Suc_le_eq)
  then have "Suc next - ?kept \<le> next" by arith
  then have "ring_contents ?buf (Suc next) ?kept =
      map (\<lambda>k. ?buf ! (k mod ?n)) [Suc next - ?kept..<next] @ [?buf ! (next mod ?n)]"
    by (simp add: ring_contents_def)
  also have "\<dots> = map (\<lambda>k. buf ! (k mod ?n)) [Suc next - ?kept..<next] @ [x]"
    using keep assms(1) by simp
  also have "\<dots> = last_n ?n (ring_contents buf next kept @ [x])"
  proof -
    have "Suc 0 - ?n = 0" using assms(1) by linarith
    then have d: "drop (Suc 0 - ?n) [x] = [x]" by (simp only: drop_0)
    show ?thesis
      using assms start by (auto simp: last_n_def ring_contents_def drop_map min_def d)
  qed
  finally show ?thesis .
qed

lemma ring_kept: "kept = min next n \<Longrightarrow> (if kept < n then kept + 1 else kept) = min (Suc next) n"
  by auto

lemma last_n_append_idem: "last_n n (last_n n xs @ ys) = last_n n (xs @ ys)"
  by (cases "n \<le> length xs"; cases "n \<le> length ys") (simp_all add: last_n_def add.commute)

lemma last_n_map: "map f (last_n n xs) = last_n n (map f xs)"
  by (simp add: last_n_def drop_map)

lemma last_n_smaller: "m \<le> n \<Longrightarrow> last_n m (last_n n xs) = last_n m xs"
  by (cases "n \<le> length xs"; cases "m \<le> length xs") (simp_all add: last_n_def)

text \<open>The newest entries of a ring are the newest writes.\<close>

lemma ring_newest: "m \<le> kept \<Longrightarrow> kept \<le> next \<Longrightarrow>
  ring_contents buf next m = last_n m (ring_contents buf next kept)"
  by (simp add: ring_contents_def last_n_def drop_map)

end
