(* ===== verification/RunManager.thy ===== *)
theory RunManager
  imports Subagent Ring RuntimeTypes
begin

text \<open>
  The client's run manager (\<open>internal/agentops\<close>: \<open>run_manager.go\<close>, \<open>run_events.go\<close>,
  \<open>run_store.go\<close>): the life cycle of agent runs, their event rings and journal, live subscribers and
  the SQLite store.

  Go's \<open>map[string]*runState\<close> is the list \<open>m_runs\<close>, keyed by the run's id. An operation on a run
  works on the run and the manager and puts the run back. A channel is the list of its buffered
  elements; the \<open>done\<close> channel is the number of times it was closed, of which the second would
  panic. A context is done when its own cancel function or that of the manager's root context was
  called. The clock and the outcome of a store statement are the argument \<open>run_io\<close>; store errors are
  logged and ignored by the code.
\<close>

section \<open>State\<close>

record RunEvent =
  RE_RunID :: string
  RE_Seq :: int
  RE_At :: gotime
  RE_Source :: string
  RE_Kind :: string
  RE_Payload :: string

record AgentRun =
  AR_ID :: string
  AR_Workspace :: string
  AR_Client :: string
  AR_Agent :: string
  AR_Model :: string
  AR_Thinking :: string
  AR_Task :: string
  AR_Status :: RunStatus
  AR_StartedAt :: gotime
  AR_FinishedAt :: gotime
  AR_ElapsedMS :: int
  AR_Output :: string
  AR_Error :: string
  AR_EventCount :: nat
  AR_LastEvent :: string
  AR_LastSeq :: int

record agent_run_row =
  arr_id :: string
  arr_workspace :: string
  arr_client :: string
  arr_agent :: string
  arr_model :: string
  arr_thinking :: string
  arr_task :: string
  arr_status :: string
  arr_started_at :: int
  arr_finished_at :: int
  arr_elapsed_ms :: int
  arr_output :: string
  arr_error :: string
  arr_event_count :: nat

record run_event_row =
  rer_run_id :: string
  rer_seq :: int
  rer_at_ms :: int
  rer_source :: string
  rer_kind :: string
  rer_payload :: string

record runStore =
  st_runs :: "agent_run_row list"
  st_events :: "run_event_row list"

record runSubscriber =
  sub_runID :: string
  sub_cap :: nat
  sub_queue :: "RunEvent list"

record runState =
  rs_id :: string
  rs_spec :: RunSpec
  rs_status :: RunStatus
  rs_startedAt :: gotime
  rs_finishedAt :: gotime
  rs_elapsedMS :: int
  rs_output :: string
  rs_errText :: string
  rs_eventTotal :: nat
  rs_lastEvent :: string
  rs_events :: "string list"
  rs_eventNext :: nat
  rs_eventKept :: nat
  rs_eventSeq :: int
  rs_journal :: "RunEvent list"
  rs_journalNext :: nat
  rs_journalKept :: nat
  rs_lifeStop :: bool
  rs_cancelled :: bool
  rs_done :: nat

text \<open>\<open>rs_lifeStop\<close>: the run has a cancel function; a run rebuilt from the store has none.\<close>

record RunManager =
  m_maxConcurrent :: nat
  m_eventCapacity :: nat
  m_store :: "runStore option"
  m_slots :: nat
  m_runs :: "runState list"
  m_subscribers :: "(nat \<times> runSubscriber) list"
  m_subNext :: nat
  m_closed :: bool
  m_rootDone :: bool

record run_io =
  io_now :: gotime
  io_event_now :: gotime
  io_append_ok :: bool
  io_upsert_ok :: bool

abbreviation defaultRunEventCapacity :: nat where "defaultRunEventCapacity \<equiv> 200"
abbreviation defaultRunSubscriberBuffer :: int where "defaultRunSubscriberBuffer \<equiv> 64"
abbreviation maxRunSubscriberBuffer :: int where "maxRunSubscriberBuffer \<equiv> 1024"

definition empty_run_event :: RunEvent where
  "empty_run_event =
     \<lparr>RE_RunID = [], RE_Seq = 0, RE_At = zero_time, RE_Source = [], RE_Kind = [], RE_Payload = []\<rparr>"

definition lookup_run :: "RunManager \<Rightarrow> string \<Rightarrow> runState option" where
  "lookup_run m i = lookup_row rs_id (m_runs m) i"

definition put_run :: "runState \<Rightarrow> RunManager \<Rightarrow> RunManager" where
  "put_run rs m = m\<lparr>m_runs := upsert_row rs_id (\<lambda>old new. new) rs (m_runs m)\<rparr>"

section \<open>The state machine\<close>

definition runTransitions_mgr :: "RunStatus \<Rightarrow> RunStatus list" where
  "runTransitions_mgr s =
     (if s = RunQueued then [RunRunning, RunCancelled]
      else if s = RunRunning then [RunCompleted, RunFailed, RunCancelled, RunTimeout, RunInterrupted]
      else [])"

definition terminalRunStatus :: "RunStatus \<Rightarrow> bool" where
  "terminalRunStatus s =
     (s \<in> set [RunCompleted, RunFailed, RunCancelled, RunTimeout, RunInterrupted])"

definition canTransition_mgr :: "RunStatus \<Rightarrow> RunStatus \<Rightarrow> bool" where
  "canTransition_mgr from to = list_ex (\<lambda>next. next = to) (runTransitions_mgr from)"

definition runStatusEventKind :: "RunStatus \<Rightarrow> string" where
  "runStatusEventKind status =
     (if status = RunQueued then ''run.queued''
      else if status = RunRunning then ''run.started''
      else if status = RunCompleted then ''run.completed''
      else if status = RunFailed then ''run.failed''
      else if status = RunCancelled then ''run.cancelled''
      else if status = RunTimeout then ''run.timeout''
      else if status = RunInterrupted then ''run.interrupted''
      else ''run.status'')"

section \<open>The store\<close>

definition unixMilli :: "gotime \<Rightarrow> int" where
  "unixMilli t = (if is_zero t then 0 else unix_milli t)"

definition timeFromMilli :: "int \<Rightarrow> gotime" where
  "timeFromMilli v = (if v = 0 then zero_time else time_unix_milli v)"

definition run_event_args :: "RunEvent \<Rightarrow> run_event_row" where
  "run_event_args ev =
     \<lparr>rer_run_id = RE_RunID ev, rer_seq = RE_Seq ev, rer_at_ms = unixMilli (RE_At ev),
      rer_source = RE_Source ev, rer_kind = RE_Kind ev, rer_payload = RE_Payload ev\<rparr>"

text \<open>\<open>INSERT OR REPLACE\<close>: the row of the same primary key goes, the new row is added.\<close>

definition appendEvent_store :: "RunEvent \<Rightarrow> runStore \<Rightarrow> runStore" where
  "appendEvent_store ev st =
     st\<lparr>st_events :=
       delete_rows (\<lambda>r. rer_run_id r = RE_RunID ev \<and> rer_seq r = RE_Seq ev) (st_events st)
       @ [run_event_args ev]\<rparr>"

definition agent_run_args :: "AgentRun \<Rightarrow> agent_run_row" where
  "agent_run_args s =
     \<lparr>arr_id = AR_ID s, arr_workspace = AR_Workspace s, arr_client = AR_Client s,
      arr_agent = AR_Agent s, arr_model = AR_Model s, arr_thinking = AR_Thinking s,
      arr_task = AR_Task s, arr_status = AR_Status s, arr_started_at = unixMilli (AR_StartedAt s),
      arr_finished_at = unixMilli (AR_FinishedAt s), arr_elapsed_ms = AR_ElapsedMS s,
      arr_output = AR_Output s, arr_error = AR_Error s, arr_event_count = AR_EventCount s\<rparr>"

definition upsert_store :: "AgentRun \<Rightarrow> runStore \<Rightarrow> runStore" where
  "upsert_store snap st =
     st\<lparr>st_runs := delete_rows (\<lambda>r. arr_id r = AR_ID snap) (st_runs st) @ [agent_run_args snap]\<rparr>"

definition scanRun_store :: "agent_run_row \<Rightarrow> AgentRun" where
  "scanRun_store r =
     \<lparr>AR_ID = arr_id r, AR_Workspace = arr_workspace r, AR_Client = arr_client r,
      AR_Agent = arr_agent r, AR_Model = arr_model r, AR_Thinking = arr_thinking r,
      AR_Task = arr_task r, AR_Status = arr_status r, AR_StartedAt = timeFromMilli (arr_started_at r),
      AR_FinishedAt = timeFromMilli (arr_finished_at r), AR_ElapsedMS = arr_elapsed_ms r,
      AR_Output = arr_output r, AR_Error = arr_error r, AR_EventCount = arr_event_count r,
      AR_LastEvent = [], AR_LastSeq = 0\<rparr>"

definition get_store :: "runStore option \<Rightarrow> string \<Rightarrow> AgentRun option" where
  "get_store st i =
     (case st of
        None \<Rightarrow> None
      | Some s \<Rightarrow> map_option scanRun_store (lookup_row arr_id (st_runs s) i))"

text \<open>\<open>ORDER BY started_at DESC, id DESC\<close>; \<open>string_less\<close> is the byte order of strings.\<close>

fun insert_by :: "('a \<Rightarrow> 'a \<Rightarrow> bool) \<Rightarrow> 'a \<Rightarrow> 'a list \<Rightarrow> 'a list" where
  "insert_by before a [] = [a]"
| "insert_by before a (b # bs) = (if before a b then a # b # bs else b # insert_by before a bs)"

definition newer_row :: "agent_run_row \<Rightarrow> agent_run_row \<Rightarrow> bool" where
  "newer_row a b =
     (if arr_started_at a = arr_started_at b then string_less (arr_id b) (arr_id a)
      else arr_started_at b < arr_started_at a)"

definition all_store :: "runStore \<Rightarrow> AgentRun list" where
  "all_store st = map scanRun_store (foldr (insert_by newer_row) (st_runs st) [])"

definition lastSeq_store :: "runStore option \<Rightarrow> string \<Rightarrow> int" where
  "lastSeq_store st i =
     (case st of
        None \<Rightarrow> 0
      | Some s \<Rightarrow> max_col rer_seq (filter (\<lambda>r. rer_run_id r = i) (st_events s)))"

definition scan_run_event :: "run_event_row \<Rightarrow> RunEvent" where
  "scan_run_event r =
     \<lparr>RE_RunID = rer_run_id r, RE_Seq = rer_seq r, RE_At = timeFromMilli (rer_at_ms r),
      RE_Source = rer_source r, RE_Kind = rer_kind r, RE_Payload = rer_payload r\<rparr>"

definition storePageLimit :: "int \<Rightarrow> int" where
  "storePageLimit limit = (if limit \<le> 0 then int defaultRunEventCapacity else limit)"

definition eventsAfter_store :: "runStore \<Rightarrow> string \<Rightarrow> int \<Rightarrow> int \<Rightarrow> RunEvent list" where
  "eventsAfter_store st i afterSeq limit =
     map scan_run_event (take (nat (storePageLimit limit))
       (sort_key rer_seq (filter (\<lambda>r. rer_run_id r = i \<and> rer_seq r > afterSeq) (st_events st))))"

text \<open>Reopening: runs left queued or running by a dead process are closed by an event.\<close>

definition interrupted_event :: "gotime \<Rightarrow> string \<Rightarrow> int \<Rightarrow> run_event_row" where
  "interrupted_event now i seq =
     \<lparr>rer_run_id = i, rer_seq = seq, rer_at_ms = unixMilli now, rer_source = ''codebridge'',
      rer_kind = ''run.interrupted'', rer_payload = []\<rparr>"

fun record_interrupted :: "gotime \<Rightarrow> string list \<Rightarrow> run_event_row list \<Rightarrow> run_event_row list" where
  "record_interrupted now [] evs = evs"
| "record_interrupted now (i # is) evs =
     (let seq = max_col rer_seq (filter (\<lambda>r. rer_run_id r = i) evs) + 1
      in record_interrupted now is
           (if (i, seq) \<in> set (map (\<lambda>r. (rer_run_id r, rer_seq r)) evs) then evs
            else evs @ [interrupted_event now i seq]))"

definition recordInterruptedRunEvents :: "gotime \<Rightarrow> runStore \<Rightarrow> runStore" where
  "recordInterruptedRunEvents now st =
     st\<lparr>st_events := record_interrupted now
       (map arr_id (filter (\<lambda>r. arr_status r \<in> set [RunQueued, RunRunning]) (st_runs st)))
       (st_events st)\<rparr>"

definition openRunStore :: "gotime \<Rightarrow> runStore \<Rightarrow> runStore" where
  "openRunStore now st =
     (let st = recordInterruptedRunEvents now st
      in st\<lparr>st_runs := map (\<lambda>r. if arr_status r \<in> set [RunQueued, RunRunning]
            then r\<lparr>arr_status := RunInterrupted\<rparr> else r) (st_runs st)\<rparr>)"

section \<open>Events\<close>

definition publish_one :: "RunEvent \<Rightarrow> runSubscriber \<Rightarrow> runSubscriber" where
  "publish_one ev sub =
     (if sub_runID sub \<noteq> [] \<and> sub_runID sub \<noteq> RE_RunID ev then sub
      else if length (sub_queue sub) < sub_cap sub then sub\<lparr>sub_queue := sub_queue sub @ [ev]\<rparr>
      else sub)"

definition publishRuntimeEventLocked :: "RunEvent \<Rightarrow> RunManager \<Rightarrow> RunManager" where
  "publishRuntimeEventLocked ev m =
     m\<lparr>m_subscribers := map (\<lambda>(k, sub). (k, publish_one ev sub)) (m_subscribers m)\<rparr>"

definition store_event :: "run_io \<Rightarrow> RunEvent \<Rightarrow> RunManager \<Rightarrow> RunManager" where
  "store_event io ev m =
     (if io_append_ok io then m\<lparr>m_store := map_option (appendEvent_store ev) (m_store m)\<rparr> else m)"

definition appendRuntimeEventLocked ::
  "run_io \<Rightarrow> string \<Rightarrow> string \<Rightarrow> string \<Rightarrow> runState \<Rightarrow> RunManager \<Rightarrow> runState \<times> RunManager" where
  "appendRuntimeEventLocked io source kind payload rs m =
     (let rs = rs\<lparr>rs_eventSeq := rs_eventSeq rs + 1\<rparr>;
          source = (if source = [] then ''codebridge'' else source);
          ev = \<lparr>RE_RunID = rs_id rs, RE_Seq = rs_eventSeq rs, RE_At = io_event_now io,
                RE_Source = source, RE_Kind = kind, RE_Payload = payload\<rparr>;
          len = length (rs_journal rs);
          rs = (if len > 0
                then rs\<lparr>rs_journal := (rs_journal rs)[rs_journalNext rs mod len := ev],
                        rs_journalNext := rs_journalNext rs + 1,
                        rs_journalKept := (if rs_journalKept rs < len then rs_journalKept rs + 1
                          else rs_journalKept rs)\<rparr>
                else rs)
      in (rs, publishRuntimeEventLocked ev (store_event io ev m)))"

definition snapshotLocked :: "runState \<Rightarrow> AgentRun" where
  "snapshotLocked rs =
     \<lparr>AR_ID = rs_id rs, AR_Workspace = Spec_Workspace (rs_spec rs), AR_Client = Spec_Client (rs_spec rs),
      AR_Agent = Spec_Agent (rs_spec rs), AR_Model = Spec_Model (rs_spec rs),
      AR_Thinking = Spec_Thinking (rs_spec rs), AR_Task = Spec_Task (rs_spec rs),
      AR_Status = rs_status rs, AR_StartedAt = rs_startedAt rs, AR_FinishedAt = rs_finishedAt rs,
      AR_ElapsedMS = rs_elapsedMS rs, AR_Output = rs_output rs, AR_Error = rs_errText rs,
      AR_EventCount = rs_eventTotal rs, AR_LastEvent = rs_lastEvent rs, AR_LastSeq = rs_eventSeq rs\<rparr>"

definition persistLocked :: "run_io \<Rightarrow> runState \<Rightarrow> RunManager \<Rightarrow> RunManager" where
  "persistLocked io rs m =
     (if io_upsert_ok io then m\<lparr>m_store := map_option (upsert_store (snapshotLocked rs)) (m_store m)\<rparr>
      else m)"

section \<open>Transitions\<close>

text \<open>\<open>Duration.Milliseconds\<close> rounds towards zero.\<close>

definition elapsed_milliseconds :: "gotime \<Rightarrow> gotime \<Rightarrow> int" where
  "elapsed_milliseconds s f =
     (if s \<le> f then (f - s) div 1000000 else - ((s - f) div 1000000))"

definition enter_status :: "run_io \<Rightarrow> RunStatus \<Rightarrow> runState \<Rightarrow> runState" where
  "enter_status io to rs =
     (let rs = rs\<lparr>rs_status := to\<rparr>
      in if to = RunRunning then rs\<lparr>rs_startedAt := io_now io\<rparr>
         else if terminalRunStatus to then
           let rs = rs\<lparr>rs_finishedAt := io_now io\<rparr>;
               rs = (if \<not> is_zero (rs_startedAt rs)
                     then rs\<lparr>rs_elapsedMS := elapsed_milliseconds (rs_startedAt rs) (rs_finishedAt rs)\<rparr>
                     else rs)
           in rs\<lparr>rs_done := rs_done rs + 1\<rparr>
         else rs)"

definition transitionLocked ::
  "run_io \<Rightarrow> RunStatus \<Rightarrow> runState \<Rightarrow> RunManager \<Rightarrow> bool \<times> runState \<times> RunManager" where
  "transitionLocked io to rs m =
     (if \<not> canTransition_mgr (rs_status rs) to then (False, rs, m)
      else
        let (rs, m) = appendRuntimeEventLocked io ''codebridge'' (runStatusEventKind to) []
              (enter_status io to rs) m
        in (True, rs, persistLocked io rs m))"

definition finish :: "run_io \<Rightarrow> RunStatus \<Rightarrow> string \<Rightarrow> string option \<Rightarrow> runState \<Rightarrow> RunManager \<Rightarrow> RunManager"
where
  "finish io status output runErr rs m =
     (if terminalRunStatus (rs_status rs) then m
      else
        let status = (if \<not> canTransition_mgr (rs_status rs) status then RunCancelled else status)
        in if \<not> canTransition_mgr (rs_status rs) status then m
           else
             let rs = rs\<lparr>rs_output := truncateText output subagentMaxOutput,
                         rs_errText := (case runErr of None \<Rightarrow> [] | Some e \<Rightarrow> e)\<rparr>;
                 (ok, rs, m) = transitionLocked io status rs m
             in put_run (rs\<lparr>rs_cancelled := True\<rparr>) m)"

text \<open>\<open>quote\<close> is the formatting verb \<open>%q\<close>.\<close>

definition statusFromResult :: "(string \<Rightarrow> string) \<Rightarrow> string \<Rightarrow> RunStatus \<times> string option" where
  "statusFromResult quote s =
     (let l = to_lower (trim_space s)
      in if l = [] \<or> l = ''completed'' then (RunCompleted, None)
         else if l = ''failed'' then (RunFailed, None)
         else if l = ''timeout'' then (RunTimeout, None)
         else if l = ''cancelled'' \<or> l = ''canceled'' then (RunCancelled, None)
         else (RunFailed, Some (''subagent reported unknown status '' @ quote s)))"

datatype ctx_err = CtxNone | CtxDeadline | CtxCanceled

definition finishOutcome ::
  "(string \<Rightarrow> string) \<Rightarrow> run_io \<Rightarrow> ctx_err \<Rightarrow> SubagentResult \<Rightarrow> string option \<Rightarrow> runState \<Rightarrow> RunManager \<Rightarrow> RunManager" where
  "finishOutcome quote io ctx res execErr rs m =
     (case ctx of
        CtxDeadline \<Rightarrow> finish io RunTimeout (Res_Output res) None rs m
      | CtxCanceled \<Rightarrow> finish io RunCancelled (Res_Output res) None rs m
      | CtxNone \<Rightarrow>
          (case execErr of
             Some e \<Rightarrow> finish io RunFailed (Res_Output res) (Some e) rs m
           | None \<Rightarrow>
               let (status, err) = statusFromResult quote (Res_Status res)
               in finish io status (Res_Output res) err rs m))"

definition recordEvent :: "run_io \<Rightarrow> string \<Rightarrow> runState \<Rightarrow> RunManager \<Rightarrow> RunManager" where
  "recordEvent io line rs m =
     (if terminalRunStatus (rs_status rs) then m
      else
        let len = length (rs_events rs);
            rs = rs\<lparr>rs_events := (rs_events rs)[rs_eventNext rs mod len := line],
                    rs_eventNext := rs_eventNext rs + 1,
                    rs_eventKept := (if rs_eventKept rs < len then rs_eventKept rs + 1 else rs_eventKept rs),
                    rs_eventTotal := rs_eventTotal rs + 1,
                    rs_lastEvent := line\<rparr>;
            (rs, m) = appendRuntimeEventLocked io (Spec_Client (rs_spec rs)) ''harness.raw'' line rs m
        in put_run rs m)"

section \<open>The exported operations\<close>

datatype run_error =
    ErrContext
  | ErrSpec subagent_error
  | ErrPreflight string
  | ErrManagerClosed
  | ErrRunNotFound string

definition new_run :: "nat \<Rightarrow> string \<Rightarrow> RunSpec \<Rightarrow> runState" where
  "new_run capacity i spec =
     \<lparr>rs_id = i, rs_spec = spec, rs_status = RunQueued, rs_startedAt = zero_time,
      rs_finishedAt = zero_time, rs_elapsedMS = 0, rs_output = [], rs_errText = [],
      rs_eventTotal = 0, rs_lastEvent = [], rs_events = replicate capacity [], rs_eventNext = 0,
      rs_eventKept = 0, rs_eventSeq = 0, rs_journal = replicate capacity empty_run_event,
      rs_journalNext = 0, rs_journalKept = 0, rs_lifeStop = True, rs_cancelled = False, rs_done = 0\<rparr>"

text \<open>\<open>i\<close> is the fresh random identifier, \<open>ctx_ok\<close> says that the caller's context is not done.\<close>

definition Start ::
  "SubagentProfile list \<Rightarrow> (RunSpec \<Rightarrow> string option) \<Rightarrow> bool \<Rightarrow> run_io \<Rightarrow> string \<Rightarrow> RunSpec \<Rightarrow> RunManager \<Rightarrow>
   RunManager \<times> (run_error + AgentRun)"
where
  "Start profiles preflight ctx_ok io i spec m =
     (if \<not> ctx_ok then (m, Inl ErrContext)
      else
        let spec = normalizeRunSpec profiles spec
        in case validateRunSpec spec of
             Some e \<Rightarrow> (m, Inl (ErrSpec e))
           | None \<Rightarrow>
               (case preflight spec of
                  Some e \<Rightarrow> (m, Inl (ErrPreflight e))
                | None \<Rightarrow>
                    if m_closed m then (m, Inl ErrManagerClosed)
                    else
                      let rs = new_run (m_eventCapacity m) i spec;
                          (rs, m) = appendRuntimeEventLocked io ''codebridge'' ''run.queued'' [] rs m;
                          m = persistLocked io rs (put_run rs m)
                      in (m, Inr (snapshotLocked rs))))"

definition loadedRunState :: "AgentRun \<Rightarrow> nat \<Rightarrow> int \<Rightarrow> runState" where
  "loadedRunState snap capacity lastSeq =
     \<lparr>rs_id = AR_ID snap,
      rs_spec = \<lparr>Spec_Workspace = AR_Workspace snap, Spec_Task = AR_Task snap, Spec_Client = AR_Client snap,
        Spec_Agent = AR_Agent snap, Spec_Model = AR_Model snap, Spec_Thinking = AR_Thinking snap,
        Spec_TimeoutSeconds = 0\<rparr>,
      rs_status = (if \<not> terminalRunStatus (AR_Status snap) then RunInterrupted else AR_Status snap),
      rs_startedAt = AR_StartedAt snap, rs_finishedAt = AR_FinishedAt snap,
      rs_elapsedMS = AR_ElapsedMS snap, rs_output = AR_Output snap, rs_errText = AR_Error snap,
      rs_eventTotal = AR_EventCount snap, rs_lastEvent = AR_LastEvent snap,
      rs_events = replicate capacity [], rs_eventNext = 0, rs_eventKept = 0, rs_eventSeq = lastSeq,
      rs_journal = replicate capacity empty_run_event, rs_journalNext = 0, rs_journalKept = 0,
      rs_lifeStop = False, rs_cancelled = False, rs_done = 1\<rparr>"

definition cacheLoaded :: "AgentRun \<Rightarrow> RunManager \<Rightarrow> RunManager" where
  "cacheLoaded snap m =
     (case lookup_run m (AR_ID snap) of
        Some _ \<Rightarrow> m
      | None \<Rightarrow>
          let seq = (if AR_LastSeq snap = 0 then lastSeq_store (m_store m) (AR_ID snap) else AR_LastSeq snap)
          in put_run (loadedRunState snap (m_eventCapacity m) seq) m)"

definition Get :: "string \<Rightarrow> RunManager \<Rightarrow> RunManager \<times> AgentRun option" where
  "Get i m =
     (case lookup_run m i of
        Some rs \<Rightarrow> (m, Some (snapshotLocked rs))
      | None \<Rightarrow>
          (case get_store (m_store m) i of
             None \<Rightarrow> (m, None)
           | Some stored \<Rightarrow>
               let stored = stored\<lparr>AR_LastSeq := lastSeq_store (m_store m) i\<rparr>
               in (cacheLoaded stored m, Some stored)))"

text \<open>The order of \<open>sort.Slice\<close>: newest first, ties broken by the larger identifier.\<close>

definition newer_run :: "AgentRun \<Rightarrow> AgentRun \<Rightarrow> bool" where
  "newer_run a b =
     (if AR_StartedAt a = AR_StartedAt b then string_less (AR_ID b) (AR_ID a)
      else AR_StartedAt b < AR_StartedAt a)"

definition List_runs :: "int \<Rightarrow> RunManager \<Rightarrow> AgentRun list" where
  "List_runs limit m =
     (let out = foldr (insert_by newer_run) (map snapshotLocked (m_runs m)) []
      in if limit > 0 \<and> int (length out) > limit then take (nat limit) out else out)"

definition Events :: "string \<Rightarrow> int \<Rightarrow> RunManager \<Rightarrow> string list" where
  "Events i limit m =
     (case lookup_run m i of
        None \<Rightarrow> []
      | Some rs \<Rightarrow>
          let n = (if limit > 0 \<and> limit < int (rs_eventKept rs) then nat limit else rs_eventKept rs)
          in ring_contents (rs_events rs) (rs_eventTotal rs) n)"

text \<open>\<open>EventsAfter\<close>: the store when there is one and its query succeeds, else the ring.\<close>

fun ring_after :: "RunEvent list \<Rightarrow> int \<Rightarrow> nat \<Rightarrow> RunEvent list" where
  "ring_after [] afterSeq limit = []"
| "ring_after (ev # evs) afterSeq limit =
     (if RE_Seq ev \<le> afterSeq then ring_after evs afterSeq limit
      else if limit \<le> 1 then [ev]
      else ev # ring_after evs afterSeq (limit - 1))"

definition ring_events :: "runState \<Rightarrow> RunEvent list" where
  "ring_events rs =
     ring_contents (rs_journal rs) (rs_journalNext rs) (rs_journalKept rs)"

definition EventsAfter_run :: "bool \<Rightarrow> string \<Rightarrow> int \<Rightarrow> int \<Rightarrow> RunManager \<Rightarrow> RunEvent list" where
  "EventsAfter_run query_ok i afterSeq limit m =
     (let limit = (if limit \<le> 0 then int (m_eventCapacity m) else limit)
      in if m_store m \<noteq> None \<and> query_ok then eventsAfter_store (the (m_store m)) i afterSeq limit
         else case lookup_run m i of
                None \<Rightarrow> []
              | Some rs \<Rightarrow>
                  if rs_journalKept rs = 0 then []
                  else ring_after (ring_events rs) afterSeq (nat limit))"

datatype cancel_result = CancelOk | CancelNotFound string | CancelPanic

definition Cancel :: "string \<Rightarrow> RunManager \<Rightarrow> RunManager \<times> cancel_result" where
  "Cancel i m =
     (case lookup_run m i of
        None \<Rightarrow> (m, CancelNotFound i)
      | Some rs \<Rightarrow>
          if \<not> rs_lifeStop rs then (m, CancelPanic)
          else (put_run (rs\<lparr>rs_cancelled := True\<rparr>) m, CancelOk))"

text \<open>\<open>Wait\<close> when its own context never expires; \<open>None\<close> while it blocks.\<close>

definition Wait :: "string \<Rightarrow> RunManager \<Rightarrow> (run_error + AgentRun) option" where
  "Wait i m =
     (case lookup_run m i of
        None \<Rightarrow>
          (case get_store (m_store m) i of
             None \<Rightarrow> Some (Inl (ErrRunNotFound i))
           | Some stored \<Rightarrow> Some (Inr stored))
      | Some rs \<Rightarrow> if rs_done rs > 0 then Some (Inr (snapshotLocked rs)) else None)"

definition SubscribeEvents :: "string \<Rightarrow> int \<Rightarrow> RunManager \<Rightarrow> RunManager \<times> nat option" where
  "SubscribeEvents runID buffer m =
     (let buffer = (if buffer \<le> 0 then defaultRunSubscriberBuffer else buffer);
          buffer = (if buffer > maxRunSubscriberBuffer then maxRunSubscriberBuffer else buffer)
      in if m_closed m then (m, None)
         else let k = m_subNext m + 1
              in (m\<lparr>m_subNext := k,
                    m_subscribers := m_subscribers m @
                      [(k, \<lparr>sub_runID = runID, sub_cap = nat buffer, sub_queue = []\<rparr>)]\<rparr>, Some k))"

definition cancelSubscription :: "nat \<Rightarrow> RunManager \<Rightarrow> RunManager" where
  "cancelSubscription k m = m\<lparr>m_subscribers := filter (\<lambda>(j, sub). j \<noteq> k) (m_subscribers m)\<rparr>"

text \<open>\<open>Close\<close> up to \<open>rootStop\<close>; it then waits for the goroutines of the runs.\<close>

definition Close :: "RunManager \<Rightarrow> RunManager" where
  "Close m =
     (if m_closed m then m
      else m\<lparr>m_closed := True, m_subscribers := [], m_rootDone := True\<rparr>)"

definition load_runs :: "nat \<Rightarrow> runStore \<Rightarrow> AgentRun list \<Rightarrow> runState list \<Rightarrow> runState list" where
  "load_runs capacity st snaps runs =
     foldl (\<lambda>rs snap. upsert_row rs_id (\<lambda>old new. new)
       (loadedRunState (snap\<lparr>AR_LastSeq := lastSeq_store (Some st) (AR_ID snap)\<rparr>) capacity
         (lastSeq_store (Some st) (AR_ID snap))) rs) runs snaps"

definition NewRunManager :: "gotime \<Rightarrow> nat \<Rightarrow> nat \<Rightarrow> runStore option \<Rightarrow> RunManager" where
  "NewRunManager now maxConcurrent capacity file =
     (let store = map_option (openRunStore now) file
      in \<lparr>m_maxConcurrent = maxConcurrent, m_eventCapacity = capacity, m_store = store, m_slots = 0,
          m_runs = (case store of None \<Rightarrow> [] | Some st \<Rightarrow> load_runs capacity st (all_store st) []),
          m_subscribers = [], m_subNext = 0, m_closed = False, m_rootDone = False\<rparr>)"

end
