(* ===== verification/RunLifecycle.thy ===== *)
theory RunLifecycle
  imports RunManager
begin

text \<open>
  The run manager in execution. Each accepted run has a goroutine (\<open>RunManager.run\<close>) whose position
  is a \<open>run_pc\<close>; a step is one critical section of the manager or one action of a goroutine, and
  steps of different goroutines and callers interleave freely. A process may die between any two
  steps; the next one reopens the store. With the parameter \<open>rel\<close> true, every store statement
  succeeds.
\<close>

section \<open>Steps\<close>

datatype run_pc = PcSelect | PcSlot | PcChecked | PcExec | PcRelease | PcExit

record run_sys =
  sys_m :: RunManager
  sys_go :: "(string \<times> run_pc) list"

definition holds_slot :: "string \<times> run_pc \<Rightarrow> bool" where
  "holds_slot g = (snd g \<in> set [PcSlot, PcChecked, PcExec, PcRelease])"

definition ctx_done :: "RunManager \<Rightarrow> runState \<Rightarrow> bool" where
  "ctx_done m rs = (rs_cancelled rs \<or> m_rootDone m)"

definition io_ok :: "bool \<Rightarrow> run_io \<Rightarrow> bool" where
  "io_ok rel io = (rel \<longrightarrow> io_append_ok io \<and> io_upsert_ok io)"

definition set_pc :: "nat \<Rightarrow> run_pc \<Rightarrow> RunManager \<Rightarrow> run_sys \<Rightarrow> run_sys" where
  "set_pc k pc m s = \<lparr>sys_m = m, sys_go = (sys_go s)[k := (fst (sys_go s ! k), pc)]\<rparr>"

text \<open>The goroutine \<open>k\<close>, for the run \<open>rs\<close>, is at \<open>pc\<close>.\<close>

definition at_pc :: "run_sys \<Rightarrow> nat \<Rightarrow> runState \<Rightarrow> run_pc \<Rightarrow> bool" where
  "at_pc s k rs pc \<longleftrightarrow>
     k < length (sys_go s) \<and> snd (sys_go s ! k) = pc \<and>
     lookup_run (sys_m s) (fst (sys_go s ! k)) = Some rs"

inductive go_step :: "bool \<Rightarrow> run_sys \<Rightarrow> run_sys \<Rightarrow> bool" for rel where
  acquire: "at_pc s k rs PcSelect \<Longrightarrow> m_slots (sys_m s) < m_maxConcurrent (sys_m s) \<Longrightarrow>
    go_step rel s (set_pc k PcSlot ((sys_m s)\<lparr>m_slots := m_slots (sys_m s) + 1\<rparr>) s)"
| give_up: "at_pc s k rs PcSelect \<Longrightarrow> ctx_done (sys_m s) rs \<Longrightarrow> io_ok rel io \<Longrightarrow>
    go_step rel s (set_pc k PcExit (finish io RunCancelled [] None rs (sys_m s)) s)"
| slot_cancelled: "at_pc s k rs PcSlot \<Longrightarrow> ctx_done (sys_m s) rs \<Longrightarrow> io_ok rel io \<Longrightarrow>
    go_step rel s (set_pc k PcRelease (finish io RunCancelled [] None rs (sys_m s)) s)"
| slot_checked: "at_pc s k rs PcSlot \<Longrightarrow> \<not> ctx_done (sys_m s) rs \<Longrightarrow>
    go_step rel s (set_pc k PcChecked (sys_m s) s)"
| begin_run: "at_pc s k rs PcChecked \<Longrightarrow> io_ok rel io \<Longrightarrow>
    transitionLocked io RunRunning rs (sys_m s) = (started, rs', m') \<Longrightarrow>
    go_step rel s (set_pc k (if started then PcExec else PcRelease) (put_run rs' m') s)"
| exec_return: "at_pc s k rs PcExec \<Longrightarrow> io_ok rel io \<Longrightarrow>
    (ctx_done (sys_m s) rs \<Longrightarrow> ctx \<noteq> CtxNone) \<Longrightarrow>
    go_step rel s (set_pc k PcRelease (finishOutcome quote io ctx res execErr rs (sys_m s)) s)"
| release: "at_pc s k rs PcRelease \<Longrightarrow>
    go_step rel s (set_pc k PcExit ((sys_m s)\<lparr>m_slots := m_slots (sys_m s) - 1\<rparr>) s)"

inductive run_step :: "bool \<Rightarrow> run_sys \<Rightarrow> run_sys \<Rightarrow> bool" for rel where
  start: "Start profiles preflight ctx_ok io i spec (sys_m s) = (m', Inr snap) \<Longrightarrow>
    lookup_run (sys_m s) i = None \<Longrightarrow> io_ok rel io \<Longrightarrow>
    run_step rel s \<lparr>sys_m = m', sys_go = sys_go s @ [(i, PcSelect)]\<rparr>"
| go: "go_step rel s s' \<Longrightarrow> run_step rel s s'"
| record_line: "lookup_run (sys_m s) i = Some rs \<Longrightarrow> io_ok rel io \<Longrightarrow>
    run_step rel s (s\<lparr>sys_m := recordEvent io line rs (sys_m s)\<rparr>)"
| cancel: "Cancel i (sys_m s) = (m', r) \<Longrightarrow> run_step rel s (s\<lparr>sys_m := m'\<rparr>)"
| get: "Get i (sys_m s) = (m', r) \<Longrightarrow> run_step rel s (s\<lparr>sys_m := m'\<rparr>)"
| subscribe: "SubscribeEvents i n (sys_m s) = (m', r) \<Longrightarrow> run_step rel s (s\<lparr>sys_m := m'\<rparr>)"
| unsubscribe: "run_step rel s (s\<lparr>sys_m := cancelSubscription k (sys_m s)\<rparr>)"
| receive: "run_step rel s (s\<lparr>sys_m := (sys_m s)\<lparr>m_subscribers :=
    map (\<lambda>(j, sub). (j, if j = k then sub\<lparr>sub_queue := tl (sub_queue sub)\<rparr> else sub))
      (m_subscribers (sys_m s))\<rparr>\<rparr>)"
| close: "run_step rel s (s\<lparr>sys_m := Close (sys_m s)\<rparr>)"

inductive run_reach :: "bool \<Rightarrow> run_sys \<Rightarrow> bool" for rel where
  boot: "0 < n \<Longrightarrow> 0 < cap \<Longrightarrow> file \<in> {None, Some \<lparr>st_runs = [], st_events = []\<rparr>} \<Longrightarrow>
    run_reach rel \<lparr>sys_m = NewRunManager now n cap file, sys_go = []\<rparr>"
| step: "run_reach rel s \<Longrightarrow> run_step rel s s' \<Longrightarrow> run_reach rel s'"
| restart: "run_reach rel s \<Longrightarrow> 0 < n \<Longrightarrow> 0 < cap \<Longrightarrow>
    run_reach rel \<lparr>sys_m = NewRunManager now n cap (m_store (sys_m s)), sys_go = []\<rparr>"

section \<open>What the locked operations change\<close>

interpretation runs_table: keyed_table rs_id "\<lambda>old new. new"
  by unfold_locales simp

lemma lookup_put_run [simp]:
  "lookup_run (put_run rs m) i = (if i = rs_id rs then Some rs else lookup_run m i)"
  by (simp add: lookup_run_def put_run_def runs_table.lookup_upsert merged_row_def split: option.split)

lemma put_run_simps [simp]:
  "m_slots (put_run rs m) = m_slots m" "m_maxConcurrent (put_run rs m) = m_maxConcurrent m"
  "m_eventCapacity (put_run rs m) = m_eventCapacity m" "m_store (put_run rs m) = m_store m"
  "m_closed (put_run rs m) = m_closed m" "m_rootDone (put_run rs m) = m_rootDone m"
  "m_subscribers (put_run rs m) = m_subscribers m"
  by (simp_all add: put_run_def)

lemma distinct_put_run:
  "distinct (map rs_id (m_runs m)) \<Longrightarrow> distinct (map rs_id (m_runs (put_run rs m)))"
  by (simp add: put_run_def runs_table.distinct_upsert)

lemma append_manager:
  assumes "appendRuntimeEventLocked io src kind p rs m = (rs', m')"
  shows "m_runs m' = m_runs m" and "m_slots m' = m_slots m" and "m_maxConcurrent m' = m_maxConcurrent m"
    and "m_eventCapacity m' = m_eventCapacity m" and "m_closed m' = m_closed m"
    and "m_rootDone m' = m_rootDone m"
proof -
  have m': "m' = snd (appendRuntimeEventLocked io src kind p rs m)" using assms by simp
  show "m_runs m' = m_runs m" "m_slots m' = m_slots m" "m_maxConcurrent m' = m_maxConcurrent m"
    "m_eventCapacity m' = m_eventCapacity m" "m_closed m' = m_closed m" "m_rootDone m' = m_rootDone m"
    by (simp_all add: m' appendRuntimeEventLocked_def Let_def publishRuntimeEventLocked_def store_event_def)
qed

lemma append_run:
  assumes "appendRuntimeEventLocked io src kind p rs m = (rs', m')"
  shows "rs_id rs' = rs_id rs" and "rs_status rs' = rs_status rs" and "rs_done rs' = rs_done rs"
    and "rs_lifeStop rs' = rs_lifeStop rs" and "rs_cancelled rs' = rs_cancelled rs"
    and "rs_eventSeq rs' = rs_eventSeq rs + 1" and "rs_events rs' = rs_events rs"
    and "rs_eventNext rs' = rs_eventNext rs" and "rs_eventKept rs' = rs_eventKept rs"
    and "rs_eventTotal rs' = rs_eventTotal rs" and "length (rs_journal rs') = length (rs_journal rs)"
proof -
  have rs': "rs' = fst (appendRuntimeEventLocked io src kind p rs m)" using assms by simp
  show "rs_id rs' = rs_id rs" "rs_status rs' = rs_status rs" "rs_done rs' = rs_done rs"
    "rs_lifeStop rs' = rs_lifeStop rs" "rs_cancelled rs' = rs_cancelled rs"
    "rs_eventSeq rs' = rs_eventSeq rs + 1" "rs_events rs' = rs_events rs"
    "rs_eventNext rs' = rs_eventNext rs" "rs_eventKept rs' = rs_eventKept rs"
    "rs_eventTotal rs' = rs_eventTotal rs" "length (rs_journal rs') = length (rs_journal rs)"
    by (simp_all add: rs' appendRuntimeEventLocked_def Let_def)
qed

lemma persist_manager:
  "m_runs (persistLocked io rs m) = m_runs m" "m_slots (persistLocked io rs m) = m_slots m"
  "m_maxConcurrent (persistLocked io rs m) = m_maxConcurrent m"
  "m_eventCapacity (persistLocked io rs m) = m_eventCapacity m"
  "m_closed (persistLocked io rs m) = m_closed m" "m_rootDone (persistLocked io rs m) = m_rootDone m"
  "m_subscribers (persistLocked io rs m) = m_subscribers m"
  by (simp_all add: persistLocked_def)

section \<open>The rings of a run\<close>

definition ring_ok :: "nat \<Rightarrow> runState \<Rightarrow> bool" where
  "ring_ok cap rs \<longleftrightarrow>
     length (rs_events rs) = cap \<and> length (rs_journal rs) = cap \<and>
     rs_eventKept rs = min (rs_eventNext rs) cap \<and> rs_journalKept rs = min (rs_journalNext rs) cap \<and>
     (rs_lifeStop rs \<longrightarrow>
        rs_eventNext rs = rs_eventTotal rs \<and> int (rs_journalNext rs) = rs_eventSeq rs) \<and>
     (\<not> rs_lifeStop rs \<longrightarrow> rs_eventNext rs = 0 \<and> rs_journalNext rs = 0) \<and>
     map RE_Seq (ring_events rs) =
       [rs_eventSeq rs - int (rs_journalKept rs) + 1..rs_eventSeq rs] \<and>
     (\<forall>ev \<in> set (ring_events rs). RE_RunID ev = rs_id rs)"

lemma last_n_upto: "last_n n [i..j] = [max i (j - int n + 1)..j]"
proof (cases "j - int n + 1 \<le> i")
  case True
  then have "length [i..j] - n = 0" by simp
  then show ?thesis using True by (simp add: last_n_def max_def)
next
  case False
  let ?c = "j - int n + 1"
  have "[i..j] = [i..?c - 1] @ [?c - 1 + 1..j]"
    using False by (intro upto_split2) auto
  then have "[i..j] = [i..?c - 1] @ [?c..j]" by simp
  moreover have "length [i..?c - 1] = length [i..j] - n"
    using False by auto
  ultimately have "drop (length [i..j] - n) [i..j] = [?c..j]"
    by (metis append_eq_conv_conj)
  then show ?thesis using False by (simp add: last_n_def max_def)
qed

lemma append_ring_events:
  assumes "appendRuntimeEventLocked io src kind p rs m = (rs', m')" and "ring_ok cap rs" and "0 < cap"
  obtains ev where "RE_RunID ev = rs_id rs" and "RE_Seq ev = rs_eventSeq rs + 1"
    and "RE_Kind ev = kind" and "RE_Payload ev = p"
    and "ring_events rs' = last_n cap (ring_events rs @ [ev])"
    and "rs_journalNext rs' = Suc (rs_journalNext rs)"
    and "rs_journalKept rs' = min (rs_journalNext rs') cap"
    and "m' = publishRuntimeEventLocked ev (store_event io ev m)"
proof -
  define ev where "ev = \<lparr>RE_RunID = rs_id rs, RE_Seq = rs_eventSeq rs + 1, RE_At = io_event_now io,
    RE_Source = (if src = [] then ''codebridge'' else src), RE_Kind = kind, RE_Payload = p\<rparr>"
  have ring: "length (rs_journal rs) = cap" "rs_journalKept rs = min (rs_journalNext rs) cap"
    using assms(2) by (simp_all add: ring_ok_def)
  have ne: "rs_journal rs \<noteq> []"
    using ring(1) assms(3) by auto
  have eqs: "rs' = fst (appendRuntimeEventLocked io src kind p rs m)"
    "m' = snd (appendRuntimeEventLocked io src kind p rs m)"
    using assms(1) by simp_all
  have rs': "rs_journal rs' = (rs_journal rs)[rs_journalNext rs mod cap := ev]"
      "rs_journalNext rs' = Suc (rs_journalNext rs)"
      "rs_journalKept rs' = (if rs_journalKept rs < cap then rs_journalKept rs + 1 else rs_journalKept rs)"
    and m': "m' = publishRuntimeEventLocked ev (store_event io ev m)"
    by (simp_all add: eqs appendRuntimeEventLocked_def Let_def ev_def ne ring(1))
  have "ring_events rs' = last_n cap (ring_events rs @ [ev])"
    using ring_push [of "rs_journal rs" "rs_journalKept rs" "rs_journalNext rs" ev] assms(3) ring
    by (simp add: rs' ring_events_def)
  moreover have "rs_journalKept rs' = min (rs_journalNext rs') cap"
    using ring by (simp add: rs')
  ultimately show thesis
    using m' rs'(2) by (intro that [of ev]) (simp_all add: ev_def)
qed

lemma append_ring_ok:
  assumes "appendRuntimeEventLocked io src kind p rs m = (rs', m')" and "ring_ok cap rs" and "0 < cap"
    and "rs_lifeStop rs"
  shows "ring_ok cap rs'"
proof -
  note run = append_run [OF assms(1)]
  obtain ev where ev: "RE_RunID ev = rs_id rs" "RE_Seq ev = rs_eventSeq rs + 1"
    and ring: "ring_events rs' = last_n cap (ring_events rs @ [ev])"
    and next': "rs_journalNext rs' = Suc (rs_journalNext rs)"
    and kept: "rs_journalKept rs' = min (rs_journalNext rs') cap"
    by (rule append_ring_events [OF assms(1-3)])
  let ?q = "rs_eventSeq rs" and ?k = "rs_journalKept rs"
  have old: "map RE_Seq (ring_events rs) = [?q - int ?k + 1..?q]" "?k = min (rs_journalNext rs) cap"
      "int (rs_journalNext rs) = ?q"
    using assms(2,4) by (simp_all add: ring_ok_def)
  have "map RE_Seq (ring_events rs') = last_n cap ([?q - int ?k + 1..?q] @ [?q + 1])"
    by (simp add: ring last_n_map ev old)
  also have "[?q - int ?k + 1..?q] @ [?q + 1] = [?q - int ?k + 1..?q + 1]"
    by (simp add: upto_rec2)
  also have "last_n cap \<dots> = [?q + 1 - int (rs_journalKept rs') + 1..?q + 1]"
  proof -
    have "max (?q - int ?k + 1) (?q + 1 - int cap + 1) = ?q + 1 - int (rs_journalKept rs') + 1"
      unfolding kept next' old(2) by linarith
    then show ?thesis by (simp only: last_n_upto)
  qed
  finally have "map RE_Seq (ring_events rs') = [?q + 1 - int (rs_journalKept rs') + 1..?q + 1]" .
  moreover have "\<forall>e \<in> set (ring_events rs'). RE_RunID e = rs_id rs"
    using assms(2) ev(1) unfolding ring last_n_def ring_ok_def by (auto dest: in_set_dropD)
  ultimately show ?thesis
    using assms(2,4) kept next' run by (simp add: ring_ok_def)
qed

lemma ring_ok_same:
  assumes "ring_ok cap rs" and "rs_id rs' = rs_id rs" and "rs_events rs' = rs_events rs"
    and "rs_eventNext rs' = rs_eventNext rs" and "rs_eventKept rs' = rs_eventKept rs"
    and "rs_eventTotal rs' = rs_eventTotal rs" and "rs_eventSeq rs' = rs_eventSeq rs"
    and "rs_journal rs' = rs_journal rs" and "rs_journalNext rs' = rs_journalNext rs"
    and "rs_journalKept rs' = rs_journalKept rs" and "rs_lifeStop rs' = rs_lifeStop rs"
  shows "ring_ok cap rs'"
  using assms(1) unfolding ring_ok_def ring_events_def assms(2-11) .

section \<open>Runs\<close>

definition rs_ok :: "nat \<Rightarrow> runState \<Rightarrow> bool" where
  "rs_ok cap rs \<longleftrightarrow>
     ring_ok cap rs \<and> rs_status rs \<in> set RunStatuses \<and>
     rs_done rs = (if terminalRunStatus (rs_status rs) then 1 else 0) \<and>
     (rs_lifeStop rs \<or> terminalRunStatus (rs_status rs))"

text \<open>Two managers that differ at most in their store and the queues of their subscribers.\<close>

definition m_same :: "RunManager \<Rightarrow> RunManager \<Rightarrow> bool" where
  "m_same m m' \<longleftrightarrow>
     m_runs m' = m_runs m \<and> m_slots m' = m_slots m \<and> m_maxConcurrent m' = m_maxConcurrent m \<and>
     m_eventCapacity m' = m_eventCapacity m \<and> m_closed m' = m_closed m \<and> m_rootDone m' = m_rootDone m"

lemma m_same_append: "appendRuntimeEventLocked io src kind p rs m = (rs', m') \<Longrightarrow> m_same m m'"
  using append_manager by (simp add: m_same_def)

lemma m_same_persist: "m_same m m' \<Longrightarrow> m_same m (persistLocked io rs m')"
  by (simp add: m_same_def persist_manager)

lemma m_same_lookup: "m_same m m' \<Longrightarrow> lookup_run m' i = lookup_run m i"
  by (simp add: m_same_def lookup_run_def)

lemma terminal_simps [simp]:
  "\<not> terminalRunStatus RunQueued" "\<not> terminalRunStatus RunRunning" "terminalRunStatus RunCancelled"
  "terminalRunStatus RunInterrupted" "terminalRunStatus RunTimeout" "terminalRunStatus RunFailed"
  "terminalRunStatus RunCompleted"
  by (simp_all add: terminalRunStatus_def)

lemma canTransition_mgr_iff: "canTransition_mgr s t \<longleftrightarrow>
  s = RunQueued \<and> t \<in> {RunRunning, RunCancelled} \<or> s = RunRunning \<and> terminalRunStatus t"
  by (auto simp: canTransition_mgr_def runTransitions_mgr_def terminalRunStatus_def)

lemma canTransition_mgr_status: "canTransition_mgr s t \<Longrightarrow> t \<in> set RunStatuses"
  by (auto simp: canTransition_mgr_iff terminalRunStatus_def RunStatuses_def)

lemma enter_status_simps:
  "rs_status (enter_status io to rs) = to" "rs_id (enter_status io to rs) = rs_id rs"
  "rs_lifeStop (enter_status io to rs) = rs_lifeStop rs"
  "rs_cancelled (enter_status io to rs) = rs_cancelled rs"
  "rs_eventSeq (enter_status io to rs) = rs_eventSeq rs"
  "rs_done (enter_status io to rs) = rs_done rs + (if terminalRunStatus to then 1 else 0)"
  by (auto simp: enter_status_def Let_def)

lemma enter_status_ring: "ring_ok cap rs \<Longrightarrow> ring_ok cap (enter_status io to rs)"
  by (rule ring_ok_same [of cap rs]) (auto simp: enter_status_def Let_def)

lemma transitionLocked_effect:
  assumes "rs_ok cap rs" and "0 < cap" and can: "canTransition_mgr (rs_status rs) to"
  obtains rs' m' where "transitionLocked io to rs m = (True, rs', m')" and "rs_ok cap rs'"
    and "rs_status rs' = to" and "rs_id rs' = rs_id rs" and "rs_lifeStop rs' = rs_lifeStop rs"
    and "rs_cancelled rs' = rs_cancelled rs" and "m_same m m'"
    and "rs_eventSeq rs' = rs_eventSeq rs + 1"
proof -
  define rs1 where "rs1 = enter_status io to rs"
  obtain rs2 m2 where app: "appendRuntimeEventLocked io ''codebridge'' (runStatusEventKind to) [] rs1 m = (rs2, m2)"
    by fastforce
  have tr: "transitionLocked io to rs m = (True, rs2, persistLocked io rs2 m2)"
    using can app by (simp add: transitionLocked_def rs1_def)
  note run2 = append_run [OF app]
  have nt: "\<not> terminalRunStatus (rs_status rs)" using can by (auto simp: canTransition_mgr_iff)
  then have life: "rs_lifeStop rs" using assms(1) by (simp add: rs_ok_def)
  note rs1 = enter_status_simps [where io = io and to = to and rs = rs, folded rs1_def]
  have "ring_ok cap rs1"
    unfolding rs1_def using assms(1) by (intro enter_status_ring) (simp add: rs_ok_def)
  then have "ring_ok cap rs2"
    using append_ring_ok [OF app _ assms(2)] rs1(3) life by simp
  then have "rs_ok cap rs2"
    using assms(1) nt canTransition_mgr_status [OF can] life by (simp add: rs_ok_def run2 rs1)
  then show thesis
    using tr run2 rs1 m_same_persist [OF m_same_append [OF app]]
    by (intro that [of rs2 "persistLocked io rs2 m2"]) simp_all
qed

lemma finish_effect:
  assumes "rs_ok cap rs" and "0 < cap" and "\<not> terminalRunStatus (rs_status rs)"
    and "terminalRunStatus st"
  obtains rs' m' where "finish io st out err rs m = put_run rs' m'" and "rs_ok cap rs'"
    and "terminalRunStatus (rs_status rs')" and "rs_id rs' = rs_id rs"
    and "rs_lifeStop rs' = rs_lifeStop rs" and "m_same m m'"
    and "rs_eventSeq rs' = rs_eventSeq rs + 1"
    and "rs_status rs' = (if rs_status rs = RunQueued then RunCancelled else st)"
proof -
  define st' where "st' = (if \<not> canTransition_mgr (rs_status rs) st then RunCancelled else st)"
  have rq: "rs_status rs \<in> {RunQueued, RunRunning}"
    using assms(1,3) by (auto simp: rs_ok_def RunStatuses_def terminalRunStatus_def)
  then have st': "st' = (if rs_status rs = RunQueued then RunCancelled else st)"
    and can: "canTransition_mgr (rs_status rs) st'" and "terminalRunStatus st'"
    using assms(4) by (auto simp: st'_def canTransition_mgr_iff)
  define rs0 where "rs0 = rs\<lparr>rs_output := truncateText out subagentMaxOutput,
    rs_errText := (case err of None \<Rightarrow> [] | Some e \<Rightarrow> e)\<rparr>"
  have "ring_ok cap rs0"
    by (rule ring_ok_same [of cap rs]) (use assms(1) in \<open>simp_all add: rs_ok_def rs0_def\<close>)
  then have ok0: "rs_ok cap rs0" using assms(1) by (simp add: rs_ok_def rs0_def)
  have can0: "canTransition_mgr (rs_status rs0) st'" using can by (simp add: rs0_def)
  obtain rs1 m1 where tr: "transitionLocked io st' rs0 m = (True, rs1, m1)" and ok1: "rs_ok cap rs1"
    and f: "rs_status rs1 = st'" "rs_id rs1 = rs_id rs0" "rs_lifeStop rs1 = rs_lifeStop rs0"
      "m_same m m1" "rs_eventSeq rs1 = rs_eventSeq rs0 + 1"
    by (rule transitionLocked_effect [OF ok0 assms(2) can0])
  have fin: "finish io st out err rs m = put_run (rs1\<lparr>rs_cancelled := True\<rparr>) m1"
    using assms(3) can tr unfolding finish_def Let_def rs0_def [symmetric] st'_def [symmetric] by simp
  have "ring_ok cap (rs1\<lparr>rs_cancelled := True\<rparr>)"
    by (rule ring_ok_same [of cap rs1]) (use ok1 in \<open>simp_all add: rs_ok_def\<close>)
  then have "rs_ok cap (rs1\<lparr>rs_cancelled := True\<rparr>)" using ok1 by (simp add: rs_ok_def)
  then show thesis
    using fin f \<open>terminalRunStatus st'\<close> st'
    by (intro that [of "rs1\<lparr>rs_cancelled := True\<rparr>" m1]) (simp_all add: rs0_def)
qed

lemma finishOutcome_finish:
  "\<exists>st out err. terminalRunStatus st \<and>
     (\<forall>rs m. finishOutcome quote io ctx res execErr rs m = finish io st out err rs m)"
  by (cases ctx; cases execErr)
    (auto simp: finishOutcome_def statusFromResult_def Let_def terminalRunStatus_def split: prod.split)

lemma recordEvent_effect:
  assumes "rs_ok cap rs" and "0 < cap" and "\<not> terminalRunStatus (rs_status rs)"
  obtains rs' m' where "recordEvent io line rs m = put_run rs' m'" and "rs_ok cap rs'"
    and "rs_status rs' = rs_status rs" and "rs_id rs' = rs_id rs" and "rs_lifeStop rs' = rs_lifeStop rs"
    and "m_same m m'" and "rs_eventSeq rs' = rs_eventSeq rs + 1"
    and "ring_contents (rs_events rs') (rs_eventTotal rs') (rs_eventKept rs') =
      last_n cap (ring_contents (rs_events rs) (rs_eventTotal rs) (rs_eventKept rs) @ [line])"
proof -
  have life: "rs_lifeStop rs" using assms(1,3) by (simp add: rs_ok_def)
  have len: "length (rs_events rs) = cap" and kept: "rs_eventKept rs = min (rs_eventNext rs) cap"
    and total: "rs_eventTotal rs = rs_eventNext rs"
    using assms(1) life by (simp_all add: rs_ok_def ring_ok_def)
  define rs1 where "rs1 = rs\<lparr>rs_events := (rs_events rs)[rs_eventNext rs mod cap := line],
    rs_eventNext := Suc (rs_eventNext rs),
    rs_eventKept := (if rs_eventKept rs < cap then rs_eventKept rs + 1 else rs_eventKept rs),
    rs_eventTotal := Suc (rs_eventTotal rs), rs_lastEvent := line\<rparr>"
  obtain rs2 m2 where app: "appendRuntimeEventLocked io (Spec_Client (rs_spec rs1)) ''harness.raw'' line rs1 m = (rs2, m2)"
    by fastforce
  note run2 = append_run [OF app]
  have "recordEvent io line rs m = put_run rs2 m2"
    using assms(3) app by (simp add: recordEvent_def Let_def rs1_def len)
  moreover have "ring_ok cap rs1"
    using assms(1) life kept by (auto simp: rs_ok_def ring_ok_def rs1_def ring_events_def)
  then have "ring_ok cap rs2"
    using append_ring_ok [OF app _ assms(2)] life by (simp add: rs1_def)
  then have "rs_ok cap rs2"
    using assms(1) life by (simp add: rs_ok_def run2 rs1_def)
  moreover have "ring_contents (rs_events rs1) (rs_eventTotal rs1) (rs_eventKept rs1) =
      last_n cap (ring_contents (rs_events rs) (rs_eventTotal rs) (rs_eventKept rs) @ [line])"
    using ring_push [of "rs_events rs" "rs_eventKept rs" "rs_eventNext rs" line] len kept total assms(2)
    by (simp add: rs1_def)
  ultimately show thesis
    using m_same_append [OF app] run2 by (intro that [of rs2 m2]) (simp_all add: rs1_def)
qed

section \<open>The invariant\<close>

definition pc_ok :: "run_pc \<Rightarrow> RunStatus \<Rightarrow> bool" where
  "pc_ok pc status =
     (case pc of
        PcSelect \<Rightarrow> status = RunQueued | PcSlot \<Rightarrow> status = RunQueued | PcChecked \<Rightarrow> status = RunQueued
      | PcExec \<Rightarrow> status = RunRunning
      | PcRelease \<Rightarrow> terminalRunStatus status | PcExit \<Rightarrow> terminalRunStatus status)"

definition runs_wf :: "RunManager \<Rightarrow> bool" where
  "runs_wf m \<longleftrightarrow>
     distinct (map rs_id (m_runs m)) \<and> 0 < m_eventCapacity m \<and> 0 < m_maxConcurrent m \<and>
     (\<forall>rs \<in> set (m_runs m). rs_ok (m_eventCapacity m) rs)"

definition go_wf :: "run_sys \<Rightarrow> bool" where
  "go_wf s \<longleftrightarrow>
     distinct (map fst (sys_go s)) \<and>
     (\<forall>g \<in> set (sys_go s). \<exists>rs. lookup_run (sys_m s) (fst g) = Some rs \<and>
        pc_ok (snd g) (rs_status rs) \<and> rs_lifeStop rs) \<and>
     (\<forall>i rs. lookup_run (sys_m s) i = Some rs \<longrightarrow> terminalRunStatus (rs_status rs) \<or>
        i \<in> fst ` set (sys_go s)) \<and>
     m_slots (sys_m s) = length (filter holds_slot (sys_go s)) \<and>
     m_slots (sys_m s) \<le> m_maxConcurrent (sys_m s)"

definition sys_wf :: "run_sys \<Rightarrow> bool" where
  "sys_wf s \<longleftrightarrow> runs_wf (sys_m s) \<and> go_wf s"

lemma lookup_run_id: "lookup_run m i = Some rs \<Longrightarrow> rs_id rs = i \<and> rs \<in> set (m_runs m)"
  unfolding lookup_run_def by (drule lookup_row_Some) simp

lemma runs_wf_lookup: "runs_wf m \<Longrightarrow> lookup_run m i = Some rs \<Longrightarrow> rs_ok (m_eventCapacity m) rs"
  by (auto simp: runs_wf_def dest: lookup_run_id)

lemma runs_wf_put:
  assumes "runs_wf m" and "m_same m m'" and "rs_ok (m_eventCapacity m) rs"
  shows "runs_wf (put_run rs m')"
proof -
  have "m_runs (put_run rs m') = upsert_row rs_id (\<lambda>old new. new) rs (m_runs m)"
    using assms(2) by (simp add: put_run_def m_same_def)
  moreover have "rs_ok (m_eventCapacity m) (merged_row rs_id (\<lambda>old new. new) rs (m_runs m))"
    using assms(3) by (simp add: merged_row_def split: option.split)
  ultimately show ?thesis
    using assms by (auto simp: runs_wf_def m_same_def runs_table.distinct_upsert
        intro: runs_table.upsert_all [rule_format])
qed

lemma count_update:
  assumes "k < length gs"
  shows "length (filter P (gs[k := g])) + (if P (gs ! k) then 1 else 0) =
    length (filter P gs) + (if P g then 1 else 0)"
proof -
  have "gs = take k gs @ gs ! k # drop (Suc k) gs" and "gs[k := g] = take k gs @ g # drop (Suc k) gs"
    using assms by (simp_all add: id_take_nth_drop upd_conv_take_nth_drop)
  then have "length (filter P gs) = length (filter P (take k gs @ gs ! k # drop (Suc k) gs))"
    and "length (filter P (gs[k := g])) = length (filter P (take k gs @ g # drop (Suc k) gs))"
    by simp_all
  then show ?thesis by (simp only: filter_append length_append) simp
qed

text \<open>
  A goroutine moves from \<open>pc0\<close> to \<open>pc\<close> while its run becomes \<open>rs'\<close>: the goroutine part of the
  invariant holds again if the new position fits the new status and the slots are accounted for.
\<close>

lemma go_wf_move:
  assumes "go_wf s" and at: "at_pc s k rs pc0"
    and look: "\<And>j. lookup_run m j = (if j = fst (sys_go s ! k) then Some rs' else lookup_run (sys_m s) j)"
    and rs': "pc_ok pc (rs_status rs')" "rs_lifeStop rs' = rs_lifeStop rs"
    and slots: "m_slots m + (if holds_slot ('''', pc0) then 1 else 0) =
      m_slots (sys_m s) + (if holds_slot ('''', pc) then 1 else 0)"
    and max: "m_maxConcurrent m = m_maxConcurrent (sys_m s)" "m_slots m \<le> m_maxConcurrent m"
  shows "go_wf (set_pc k pc m s)"
proof -
  let ?gs = "sys_go s" and ?i = "fst (sys_go s ! k)"
  let ?gs' = "?gs[k := (?i, pc)]"
  have k: "k < length ?gs" and pc0: "snd (?gs ! k) = pc0" and i: "lookup_run (sys_m s) ?i = Some rs"
    using at by (simp_all add: at_pc_def)
  have "map fst ?gs' = (map fst ?gs)[k := ?i]" by (simp add: map_update)
  also have "\<dots> = map fst ?gs" using k by (metis list_update_id nth_map)
  finally have keys: "map fst ?gs' = map fst ?gs" .
  have life: "rs_lifeStop rs"
    using assms(1) i k unfolding go_wf_def by (metis nth_mem option.inject)
  have sub: "set ?gs' \<subseteq> insert (?i, pc) {g \<in> set ?gs. fst g \<noteq> ?i}"
  proof
    fix g assume "g \<in> set ?gs'"
    then obtain j where j: "j < length ?gs" "g = ?gs' ! j" by (auto simp: in_set_conv_nth)
    show "g \<in> insert (?i, pc) {g \<in> set ?gs. fst g \<noteq> ?i}"
    proof (cases "j = k")
      case False
      then have "fst (?gs ! j) \<noteq> ?i"
        using assms(1) j(1) k nth_eq_iff_index_eq [of "map fst ?gs" j k] by (simp add: go_wf_def)
      with False j show ?thesis by simp
    qed (use j k in simp)
  qed
  have holds: "holds_slot g = holds_slot ('''', snd g)" for g by (simp add: holds_slot_def)
  have "m_slots m = length (filter holds_slot ?gs')"
    using count_update [OF k, of holds_slot "(?i, pc)"] slots assms(1) pc0 holds [of "?gs ! k"]
      holds [of "(?i, pc)"]
    by (simp add: go_wf_def split: if_splits)
  moreover have "\<exists>r. lookup_run m (fst g) = Some r \<and> pc_ok (snd g) (rs_status r) \<and> rs_lifeStop r"
    if "g \<in> set ?gs'" for g
    using subsetD [OF sub that] assms(1) rs' life by (auto simp: look go_wf_def)
  moreover have "terminalRunStatus (rs_status r) \<or> j \<in> fst ` set ?gs'"
    if "lookup_run m j = Some r" for j r
  proof -
    have "fst ` set ?gs' = fst ` set ?gs" using keys by (metis list.set_map)
    moreover have "?i \<in> fst ` set ?gs" using k by simp
    ultimately show ?thesis
      using that assms(1) by (auto simp: look go_wf_def split: if_splits)
  qed
  ultimately show ?thesis
    using assms(1) keys max by (simp add: go_wf_def set_pc_def)
qed

text \<open>A step that leaves the goroutines where they are and the status of every run unchanged.\<close>

lemma go_wf_stay:
  assumes "go_wf s" and "m_slots m = m_slots (sys_m s)" and "m_maxConcurrent m = m_maxConcurrent (sys_m s)"
    and "\<And>j r. lookup_run (sys_m s) j = Some r \<Longrightarrow>
      \<exists>r'. lookup_run m j = Some r' \<and> rs_status r' = rs_status r \<and> rs_lifeStop r' = rs_lifeStop r"
    and "\<And>j r'. lookup_run m j = Some r' \<Longrightarrow> \<not> terminalRunStatus (rs_status r') \<Longrightarrow>
      \<exists>r. lookup_run (sys_m s) j = Some r \<and> rs_status r' = rs_status r"
  shows "go_wf (s\<lparr>sys_m := m\<rparr>)"
  using assms unfolding go_wf_def by simp (metis (no_types, lifting))

section \<open>Every step keeps the invariant\<close>

lemma at_pc_facts:
  assumes "sys_wf s" and "at_pc s k rs pc"
  shows "rs_id rs = fst (sys_go s ! k)" and "rs_ok (m_eventCapacity (sys_m s)) rs"
    and "pc_ok pc (rs_status rs)" and "0 < m_eventCapacity (sys_m s)"
    and "lookup_run (sys_m s) (fst (sys_go s ! k)) = Some rs"
proof -
  show look: "lookup_run (sys_m s) (fst (sys_go s ! k)) = Some rs"
    using assms(2) by (simp add: at_pc_def)
  then show "rs_id rs = fst (sys_go s ! k)" using lookup_run_id by blast
  show "rs_ok (m_eventCapacity (sys_m s)) rs" and "0 < m_eventCapacity (sys_m s)"
    using assms(1) look runs_wf_lookup by (auto simp: sys_wf_def runs_wf_def)
  have "sys_go s ! k \<in> set (sys_go s)" using assms(2) by (simp add: at_pc_def)
  then obtain r where "lookup_run (sys_m s) (fst (sys_go s ! k)) = Some r"
    and "pc_ok (snd (sys_go s ! k)) (rs_status r)"
    using assms(1) unfolding sys_wf_def go_wf_def by blast
  with look assms(2) show "pc_ok pc (rs_status rs)" by (simp add: at_pc_def)
qed

lemma sys_wf_move:
  assumes "sys_wf s" and at: "at_pc s k rs pc0" and same: "m_same (sys_m s) m'"
    and rs': "rs_ok (m_eventCapacity (sys_m s)) rs'" "rs_id rs' = rs_id rs"
      "pc_ok pc (rs_status rs')" "rs_lifeStop rs' = rs_lifeStop rs"
    and hold: "holds_slot ('''', pc) = holds_slot ('''', pc0)"
  shows "sys_wf (set_pc k pc (put_run rs' m') s)"
proof -
  note f = at_pc_facts [OF assms(1) at]
  have "runs_wf (put_run rs' m')"
    using assms(1) same rs'(1) by (intro runs_wf_put) (auto simp: sys_wf_def)
  moreover have "go_wf (set_pc k pc (put_run rs' m') s)"
  proof (rule go_wf_move [OF _ at _ rs'(3,4)])
    show "go_wf s" using assms(1) by (simp add: sys_wf_def)
    then show "m_slots (put_run rs' m') \<le> m_maxConcurrent (put_run rs' m')"
      using same by (simp add: go_wf_def m_same_def)
    show "lookup_run (put_run rs' m') j =
        (if j = fst (sys_go s ! k) then Some rs' else lookup_run (sys_m s) j)" for j
      using m_same_lookup [OF same] f(1) rs'(2) by simp
  qed (use same hold in \<open>simp_all add: m_same_def\<close>)
  ultimately show ?thesis by (simp add: sys_wf_def set_pc_def)
qed

lemma sys_wf_slots:
  assumes "sys_wf s" and at: "at_pc s k rs pc0" and "pc_ok pc (rs_status rs)"
    and "n + (if holds_slot ('''', pc0) then 1 else 0) =
      m_slots (sys_m s) + (if holds_slot ('''', pc) then 1 else 0)"
    and "n \<le> m_maxConcurrent (sys_m s)"
  shows "sys_wf (set_pc k pc ((sys_m s)\<lparr>m_slots := n\<rparr>) s)"
proof -
  note f = at_pc_facts [OF assms(1) at]
  have "go_wf (set_pc k pc ((sys_m s)\<lparr>m_slots := n\<rparr>) s)"
    by (rule go_wf_move [OF _ at, where rs' = rs])
      (use assms f in \<open>auto simp: sys_wf_def lookup_run_def\<close>)
  then show ?thesis using assms(1) by (simp add: sys_wf_def set_pc_def runs_wf_def)
qed

lemma sys_wf_finish:
  assumes "sys_wf s" and at: "at_pc s k rs pc0" and "terminalRunStatus st"
    and "\<not> terminalRunStatus (rs_status rs)" and "pc \<in> {PcRelease, PcExit}"
    and "holds_slot ('''', pc) = holds_slot ('''', pc0)"
  shows "sys_wf (set_pc k pc (finish io st out err rs (sys_m s)) s)"
proof -
  note f = at_pc_facts [OF assms(1) at]
  obtain rs' m' where fin: "finish io st out err rs (sys_m s) = put_run rs' m'"
    and "rs_ok (m_eventCapacity (sys_m s)) rs'" "terminalRunStatus (rs_status rs')" "rs_id rs' = rs_id rs"
      "rs_lifeStop rs' = rs_lifeStop rs" "m_same (sys_m s) m'"
    by (rule finish_effect [OF f(2,4) assms(4,3)])
  then show ?thesis
    unfolding fin using assms by (intro sys_wf_move [OF assms(1) at]) (auto simp: pc_ok_def)
qed

lemma go_step_wf: "go_step rel s s' \<Longrightarrow> sys_wf s \<Longrightarrow> sys_wf s'"
proof (induction rule: go_step.induct)
  case (acquire s k rs)
  then show ?case
    using at_pc_facts(3) [OF acquire(3,1)] by (intro sys_wf_slots [OF acquire(3,1)]) (auto simp: pc_ok_def holds_slot_def)
next
  case (give_up s k rs io)
  then show ?case
    using at_pc_facts(3) [OF give_up(4,1)]
    by (intro sys_wf_finish [OF give_up(4,1)]) (auto simp: pc_ok_def holds_slot_def)
next
  case (slot_cancelled s k rs io)
  then show ?case
    using at_pc_facts(3) [OF slot_cancelled(4,1)]
    by (intro sys_wf_finish [OF slot_cancelled(4,1)]) (auto simp: pc_ok_def holds_slot_def)
next
  case (slot_checked s k rs)
  have "sys_m s = (sys_m s)\<lparr>m_slots := m_slots (sys_m s)\<rparr>" by simp
  moreover have "m_slots (sys_m s) \<le> m_maxConcurrent (sys_m s)"
    using slot_checked(3) by (simp add: sys_wf_def go_wf_def)
  ultimately show ?case
    using slot_checked at_pc_facts(3) [OF slot_checked(3,1)]
      sys_wf_slots [OF slot_checked(3,1), of PcChecked "m_slots (sys_m s)"]
    by (simp add: pc_ok_def holds_slot_def)
next
  case (begin_run s k rs io started rs' m')
  note f = at_pc_facts [OF begin_run(4,1)]
  have can: "canTransition_mgr (rs_status rs) RunRunning"
    using f(3) by (simp add: pc_ok_def canTransition_mgr_iff)
  obtain rs1 m1 where "transitionLocked io RunRunning rs (sys_m s) = (True, rs1, m1)"
    and "rs_ok (m_eventCapacity (sys_m s)) rs1" "rs_status rs1 = RunRunning" "rs_id rs1 = rs_id rs"
      "rs_lifeStop rs1 = rs_lifeStop rs" "m_same (sys_m s) m1"
    by (rule transitionLocked_effect [OF f(2,4) can])
  with begin_run show ?case
    by (auto intro!: sys_wf_move [OF begin_run(4,1)] simp: pc_ok_def holds_slot_def)
next
  case (exec_return s k rs io ctx quote res execErr)
  obtain st out err where st: "terminalRunStatus st"
    and eq: "finishOutcome quote io ctx res execErr rs (sys_m s) = finish io st out err rs (sys_m s)"
    using finishOutcome_finish [of quote io ctx res execErr] by blast
  show ?case
    unfolding eq using exec_return st at_pc_facts(3) [OF exec_return(4,1)]
    by (intro sys_wf_finish [OF exec_return(4,1)]) (auto simp: pc_ok_def holds_slot_def)
next
  case (release s k rs)
  have "sys_go s ! k \<in> set (filter holds_slot (sys_go s))"
    using release(1) by (auto simp: at_pc_def holds_slot_def)
  then have "0 < m_slots (sys_m s)"
    using release(2) length_pos_if_in_set unfolding sys_wf_def go_wf_def by metis
  then show ?case
    using release at_pc_facts(3) [OF release(2,1)] release(2)
    by (intro sys_wf_slots [OF release(2,1)]) (auto simp: pc_ok_def holds_slot_def sys_wf_def go_wf_def)
qed

end
