(* ===== verification/RunSafety.thy ===== *)
theory RunSafety
  imports RunLifecycle
begin

text \<open>
  The run manager's invariant over every reachable state, and what follows from it: the bound on
  concurrent runs, one path to one terminal status, no lost or stuck run.
\<close>

section \<open>Accepting, recording, cancelling, loading\<close>

lemma new_run_ok: "rs_ok cap (new_run cap i spec)"
  by (simp add: rs_ok_def ring_ok_def new_run_def ring_events_def RunStatuses_def)

lemma loaded_ok: "rs_ok cap (loadedRunState snap cap q)"
  by (auto simp: rs_ok_def ring_ok_def loadedRunState_def ring_events_def RunStatuses_def
      terminalRunStatus_def)

lemma Start_effect:
  assumes "Start profiles preflight ctx_ok io i spec m = (m', Inr snap)" and "0 < m_eventCapacity m"
  obtains rs m1 where "m' = persistLocked io rs (put_run rs m1)" and "m_same m m1"
    and "rs_ok (m_eventCapacity m) rs" and "rs_id rs = i" and "rs_status rs = RunQueued"
    and "rs_lifeStop rs" and "snap = snapshotLocked rs" and "rs_eventSeq rs = 1" and "\<not> m_closed m"
    and "appendRuntimeEventLocked io ''codebridge'' ''run.queued'' []
      (new_run (m_eventCapacity m) i (normalizeRunSpec profiles spec)) m = (rs, m1)"
proof -
  let ?new = "new_run (m_eventCapacity m) i (normalizeRunSpec profiles spec)"
  obtain rs m1 where app: "appendRuntimeEventLocked io ''codebridge'' ''run.queued'' [] ?new m = (rs, m1)"
    by fastforce
  have m': "m' = persistLocked io rs (put_run rs m1)" "snap = snapshotLocked rs" "\<not> m_closed m"
    using assms(1) app by (auto simp: Start_def Let_def split: if_splits option.splits)
  note run = append_run [OF app]
  have new: "rs_lifeStop ?new" "rs_status ?new = RunQueued" "rs_done ?new = 0" "rs_id ?new = i"
    "rs_eventSeq ?new = 0"
    by (simp_all add: new_run_def)
  have "ring_ok (m_eventCapacity m) rs"
    using append_ring_ok [OF app _ assms(2)] new_run_ok new by (simp add: rs_ok_def)
  then have "rs_ok (m_eventCapacity m) rs"
    by (simp add: rs_ok_def run new RunStatuses_def)
  then show thesis
    using m' run new m_same_append [OF app] app by (intro that [of rs m1]) simp_all
qed

lemma runs_wf_same: "runs_wf m \<Longrightarrow> m_same m m' \<Longrightarrow> runs_wf m'"
  by (simp add: runs_wf_def m_same_def)

lemma start_wf:
  assumes "sys_wf s" and "Start profiles preflight ctx_ok io i spec (sys_m s) = (m', Inr snap)"
    and "lookup_run (sys_m s) i = None"
  shows "sys_wf \<lparr>sys_m = m', sys_go = sys_go s @ [(i, PcSelect)]\<rparr>"
proof -
  have cap: "0 < m_eventCapacity (sys_m s)" using assms(1) by (simp add: sys_wf_def runs_wf_def)
  obtain rs m1 where m': "m' = persistLocked io rs (put_run rs m1)" and same: "m_same (sys_m s) m1"
    and rs: "rs_ok (m_eventCapacity (sys_m s)) rs" "rs_id rs = i" "rs_status rs = RunQueued" "rs_lifeStop rs"
    by (rule Start_effect [OF assms(2) cap])
  have "m_same (put_run rs m1) m'" unfolding m' by (rule m_same_persist) (simp add: m_same_def)
  then have eq: "lookup_run m' j = (if j = i then Some rs else lookup_run (sys_m s) j)" for j
    using m_same_lookup [OF same] m_same_lookup [of "put_run rs m1" m' j] rs(2) by simp
  have "runs_wf m'"
    using runs_wf_put [OF _ same rs(1)] assms(1) \<open>m_same (put_run rs m1) m'\<close> runs_wf_same
    by (auto simp: sys_wf_def)
  moreover have new: "i \<notin> fst ` set (sys_go s)"
    using assms(1,3) by (auto simp: sys_wf_def go_wf_def)
  have "go_wf \<lparr>sys_m = m', sys_go = sys_go s @ [(i, PcSelect)]\<rparr>"
    unfolding go_wf_def
  proof (intro conjI)
    show "distinct (map fst (sys_go \<lparr>sys_m = m', sys_go = sys_go s @ [(i, PcSelect)]\<rparr>))"
      using assms(1) new by (simp add: sys_wf_def go_wf_def)
    show "\<forall>g \<in> set (sys_go \<lparr>sys_m = m', sys_go = sys_go s @ [(i, PcSelect)]\<rparr>). \<exists>r.
        lookup_run (sys_m \<lparr>sys_m = m', sys_go = sys_go s @ [(i, PcSelect)]\<rparr>) (fst g) = Some r \<and>
        pc_ok (snd g) (rs_status r) \<and> rs_lifeStop r"
    proof
      fix g assume "g \<in> set (sys_go \<lparr>sys_m = m', sys_go = sys_go s @ [(i, PcSelect)]\<rparr>)"
      then consider "g = (i, PcSelect)" | "g \<in> set (sys_go s)" "fst g \<noteq> i"
        using new by auto
      then show "\<exists>r. lookup_run (sys_m \<lparr>sys_m = m', sys_go = sys_go s @ [(i, PcSelect)]\<rparr>) (fst g) = Some r \<and>
          pc_ok (snd g) (rs_status r) \<and> rs_lifeStop r"
      proof cases
        case 1
        then show ?thesis using rs by (simp add: eq pc_ok_def)
      next
        case 2
        then show ?thesis using assms(1) by (simp add: eq sys_wf_def go_wf_def)
      qed
    qed
    show "\<forall>j r. lookup_run (sys_m \<lparr>sys_m = m', sys_go = sys_go s @ [(i, PcSelect)]\<rparr>) j = Some r \<longrightarrow>
        terminalRunStatus (rs_status r) \<or>
        j \<in> fst ` set (sys_go \<lparr>sys_m = m', sys_go = sys_go s @ [(i, PcSelect)]\<rparr>)"
      using assms(1) by (auto simp: eq sys_wf_def go_wf_def)
  qed (use assms(1) same in \<open>auto simp: m' persist_manager m_same_def sys_wf_def go_wf_def holds_slot_def\<close>)
  ultimately show ?thesis by (simp add: sys_wf_def)
qed

text \<open>A run is replaced by one with the same status, or a finished run is added.\<close>

lemma sys_wf_put:
  assumes "sys_wf s" and same: "m_same (sys_m s) m'" and "rs_ok (m_eventCapacity (sys_m s)) rs'"
    and "case lookup_run (sys_m s) (rs_id rs') of
        None \<Rightarrow> terminalRunStatus (rs_status rs')
      | Some rs \<Rightarrow> rs_status rs' = rs_status rs \<and> rs_lifeStop rs' = rs_lifeStop rs"
  shows "sys_wf (s\<lparr>sys_m := put_run rs' m'\<rparr>)"
proof -
  have "runs_wf (put_run rs' m')"
    using assms(1,3) same by (intro runs_wf_put) (auto simp: sys_wf_def)
  moreover have "go_wf (s\<lparr>sys_m := put_run rs' m'\<rparr>)"
    by (rule go_wf_stay)
      (use assms m_same_lookup [OF same] in \<open>auto simp: sys_wf_def m_same_def split: option.splits if_splits\<close>)
  ultimately show ?thesis by (simp add: sys_wf_def)
qed

lemma sys_wf_same: "sys_wf s \<Longrightarrow> m_same (sys_m s) m' \<Longrightarrow> sys_wf (s\<lparr>sys_m := m'\<rparr>)"
  using m_same_lookup [of "sys_m s" m']
  by (auto simp: sys_wf_def runs_wf_same go_wf_def m_same_def)

lemma record_wf:
  assumes "sys_wf s" and "lookup_run (sys_m s) i = Some rs"
  shows "sys_wf (s\<lparr>sys_m := recordEvent io line rs (sys_m s)\<rparr>)"
proof (cases "terminalRunStatus (rs_status rs)")
  case True
  with assms(1) show ?thesis by (simp add: recordEvent_def)
next
  case False
  have ok: "rs_ok (m_eventCapacity (sys_m s)) rs" "0 < m_eventCapacity (sys_m s)"
    using assms runs_wf_lookup by (auto simp: sys_wf_def runs_wf_def)
  obtain rs' m' where eq: "recordEvent io line rs (sys_m s) = put_run rs' m'"
    and rs': "rs_ok (m_eventCapacity (sys_m s)) rs'" "rs_status rs' = rs_status rs" "rs_id rs' = rs_id rs"
      "rs_lifeStop rs' = rs_lifeStop rs" and same: "m_same (sys_m s) m'"
    by (rule recordEvent_effect [OF ok False])
  show ?thesis
    unfolding eq using assms(2) lookup_run_id [OF assms(2)] rs'
    by (intro sys_wf_put [OF assms(1) same rs'(1)]) simp
qed

lemma cancel_wf:
  assumes "sys_wf s" and "Cancel i (sys_m s) = (m', r)"
  shows "sys_wf (s\<lparr>sys_m := m'\<rparr>)"
proof -
  consider "m' = sys_m s"
    | rs where "lookup_run (sys_m s) i = Some rs" and "m' = put_run (rs\<lparr>rs_cancelled := True\<rparr>) (sys_m s)"
    using assms(2) by (auto simp: Cancel_def split: option.splits if_splits)
  then show ?thesis
  proof cases
    case 2
    have "rs_ok (m_eventCapacity (sys_m s)) rs"
      using assms(1) 2(1) runs_wf_lookup by (auto simp: sys_wf_def)
    then have ok: "rs_ok (m_eventCapacity (sys_m s)) (rs\<lparr>rs_cancelled := True\<rparr>)"
      by (auto simp: rs_ok_def intro: ring_ok_same [of _ rs])
    show ?thesis
      unfolding 2(2) using 2(1) lookup_run_id [OF 2(1)]
      by (intro sys_wf_put [OF assms(1) _ ok]) (simp_all add: m_same_def)
  qed (use assms(1) in simp)
qed

lemma cacheLoaded_wf: "sys_wf s \<Longrightarrow> sys_wf (s\<lparr>sys_m := cacheLoaded snap (sys_m s)\<rparr>)"
proof (cases "lookup_run (sys_m s) (AR_ID snap)")
  case None
  assume wf: "sys_wf s"
  define rs where "rs = loadedRunState snap (m_eventCapacity (sys_m s))
    (if AR_LastSeq snap = 0 then lastSeq_store (m_store (sys_m s)) (AR_ID snap) else AR_LastSeq snap)"
  have "rs_id rs = AR_ID snap" "terminalRunStatus (rs_status rs)"
    by (simp_all add: rs_def loadedRunState_def)
  moreover have "rs_ok (m_eventCapacity (sys_m s)) rs" by (simp add: rs_def loaded_ok)
  ultimately have "sys_wf (s\<lparr>sys_m := put_run rs (sys_m s)\<rparr>)"
    using None by (intro sys_wf_put [OF wf]) (simp_all add: m_same_def)
  then show ?thesis using None by (simp add: cacheLoaded_def Let_def rs_def)
qed (simp add: cacheLoaded_def)

lemma Get_manager: "Get i m = (m', r) \<Longrightarrow> m' = m \<or> (\<exists>snap. m' = cacheLoaded snap m)"
  unfolding Get_def Let_def by (cases "lookup_run m i"; cases "get_store (m_store m) i") auto

lemma Subscribe_manager: "SubscribeEvents i n m = (m', r) \<Longrightarrow> m_same m m'"
  unfolding SubscribeEvents_def Let_def by (cases "m_closed m") (auto simp: m_same_def)

lemma Close_simps:
  "m_runs (Close m) = m_runs m" "m_slots (Close m) = m_slots m" "m_store (Close m) = m_store m"
  "m_maxConcurrent (Close m) = m_maxConcurrent m" "m_eventCapacity (Close m) = m_eventCapacity m"
  "lookup_run (Close m) i = lookup_run m i"
  by (simp_all add: Close_def lookup_run_def)

section \<open>Every reachable state\<close>

lemma run_step_wf: "run_step rel s s' \<Longrightarrow> sys_wf s \<Longrightarrow> sys_wf s'"
proof (induction rule: run_step.induct)
  case (start profiles preflight ctx_ok io i spec s m' snap)
  then show ?case using start_wf by blast
next
  case (go s s')
  then show ?case by (rule go_step_wf)
next
  case (record_line s i rs io line)
  then show ?case using record_wf by blast
next
  case (cancel i s m' r)
  then show ?case using cancel_wf by blast
next
  case (get i s m' r)
  from Get_manager [OF get(1)] show ?case
    using get(2) cacheLoaded_wf [OF get(2)] by auto
next
  case (subscribe i n s m' r)
  then show ?case using Subscribe_manager by (blast intro: sys_wf_same)
next
  case (unsubscribe s k)
  then show ?case by (intro sys_wf_same) (auto simp: cancelSubscription_def m_same_def)
next
  case (receive s k)
  then show ?case by (intro sys_wf_same) (auto simp: m_same_def)
next
  case (close s)
  then have "go_wf (s\<lparr>sys_m := Close (sys_m s)\<rparr>)"
    by (intro go_wf_stay) (simp_all add: sys_wf_def Close_simps)
  with close show ?case by (simp add: sys_wf_def runs_wf_def Close_simps)
qed

lemma load_runs_wf:
  assumes "distinct (map rs_id runs)" and "\<forall>rs \<in> set runs. rs_ok cap rs \<and> terminalRunStatus (rs_status rs)"
  shows "distinct (map rs_id (load_runs cap st snaps runs)) \<and>
    (\<forall>rs \<in> set (load_runs cap st snaps runs). rs_ok cap rs \<and> terminalRunStatus (rs_status rs))"
  using assms unfolding load_runs_def
proof (induction snaps arbitrary: runs)
  case (Cons snap snaps)
  let ?rs = "loadedRunState (snap\<lparr>AR_LastSeq := lastSeq_store (Some st) (AR_ID snap)\<rparr>) cap
    (lastSeq_store (Some st) (AR_ID snap))"
  have "terminalRunStatus (rs_status ?rs)" by (simp add: loadedRunState_def)
  then have "\<forall>rs \<in> set (upsert_row rs_id (\<lambda>old new. new) ?rs runs). rs_ok cap rs \<and> terminalRunStatus (rs_status rs)"
  proof (intro runs_table.upsert_all)
    show "distinct (map rs_id runs)" by (rule Cons.prems(1))
    have "merged_row rs_id (\<lambda>old new. new) ?rs runs = ?rs"
      by (simp add: merged_row_def split: option.split)
    with \<open>terminalRunStatus (rs_status ?rs)\<close> loaded_ok
    show "rs_ok cap (merged_row rs_id (\<lambda>old new. new) ?rs runs) \<and>
        terminalRunStatus (rs_status (merged_row rs_id (\<lambda>old new. new) ?rs runs))"
      by simp
  qed (use Cons.prems(2) in blast)
  moreover have "distinct (map rs_id (upsert_row rs_id (\<lambda>old new. new) ?rs runs))"
    using Cons.prems(1) by (rule runs_table.distinct_upsert)
  ultimately show ?case
    unfolding foldl_Cons by (intro Cons.IH)
qed simp

lemma boot_wf:
  assumes "0 < n" and "0 < cap"
  shows "sys_wf \<lparr>sys_m = NewRunManager now n cap file, sys_go = []\<rparr>"
proof -
  have "distinct (map rs_id (m_runs (NewRunManager now n cap file))) \<and>
    (\<forall>rs \<in> set (m_runs (NewRunManager now n cap file)). rs_ok cap rs \<and> terminalRunStatus (rs_status rs))"
    using load_runs_wf [of "[]" cap] by (auto simp: NewRunManager_def Let_def split: option.split)
  moreover have "terminalRunStatus (rs_status rs)"
    if "lookup_run (NewRunManager now n cap file) i = Some rs" for i rs
    using lookup_run_id [OF that] calculation by blast
  moreover have "m_eventCapacity (NewRunManager now n cap file) = cap"
    "m_maxConcurrent (NewRunManager now n cap file) = n"
    "m_slots (NewRunManager now n cap file) = 0"
    by (simp_all add: NewRunManager_def Let_def)
  ultimately show ?thesis
    unfolding sys_wf_def runs_wf_def go_wf_def using assms
    by simp
qed

lemma run_reach_wf: "run_reach rel s \<Longrightarrow> sys_wf s"
  by (induction rule: run_reach.induct) (auto intro: boot_wf run_step_wf)

section \<open>Concurrency\<close>

lemma running_at_exec:
  assumes "sys_wf s" and "lookup_run (sys_m s) i = Some rs" and "rs_status rs = RunRunning"
  shows "(i, PcExec) \<in> set (sys_go s)"
proof -
  have "\<not> terminalRunStatus (rs_status rs)" using assms(3) by simp
  then have "i \<in> fst ` set (sys_go s)"
    using assms(1,2) unfolding sys_wf_def go_wf_def by blast
  then obtain pc where g: "(i, pc) \<in> set (sys_go s)" by auto
  then obtain r where "lookup_run (sys_m s) (fst (i, pc)) = Some r" "pc_ok (snd (i, pc)) (rs_status r)"
    using assms(1) unfolding sys_wf_def go_wf_def by blast
  with assms have "pc = PcExec" by (cases pc) (auto simp: pc_ok_def)
  with g show ?thesis by simp
qed

lemma running_le_slots:
  assumes "sys_wf s"
  shows "length (filter (\<lambda>rs. rs_status rs = RunRunning) (m_runs (sys_m s))) \<le> m_slots (sys_m s)"
proof -
  let ?run = "filter (\<lambda>rs. rs_status rs = RunRunning) (m_runs (sys_m s))"
  have dist: "distinct (map rs_id (m_runs (sys_m s)))" "distinct (map fst (sys_go s))"
    and slots: "m_slots (sys_m s) = length (filter holds_slot (sys_go s))"
    using assms by (simp_all add: sys_wf_def runs_wf_def go_wf_def)
  have "set (map rs_id ?run) \<subseteq> set (map fst (filter holds_slot (sys_go s)))"
  proof
    fix i assume "i \<in> set (map rs_id ?run)"
    then obtain rs where rs: "rs \<in> set (m_runs (sys_m s))" "rs_status rs = RunRunning" "rs_id rs = i"
      by auto
    from lookup_row_unique [OF dist(1) rs(1)] have "lookup_run (sys_m s) i = Some rs"
      by (simp add: lookup_run_def rs(3))
    then have "(i, PcExec) \<in> set (sys_go s)" using rs(2) running_at_exec [OF assms] by blast
    then have "(i, PcExec) \<in> set (filter holds_slot (sys_go s))" by (simp add: holds_slot_def)
    then show "i \<in> set (map fst (filter holds_slot (sys_go s)))" by (metis fst_conv image_eqI set_map)
  qed
  then have "card (set (map rs_id ?run)) \<le> card (set (map fst (filter holds_slot (sys_go s))))"
    by (intro card_mono) simp_all
  moreover have "distinct (map rs_id ?run)" "distinct (map fst (filter holds_slot (sys_go s)))"
    using dist by (simp_all add: distinct_map_filter)
  ultimately have "length (map rs_id ?run) \<le> length (map fst (filter holds_slot (sys_go s)))"
    by (simp only: distinct_card)
  then show ?thesis by (simp add: slots)
qed

section \<open>Progress\<close>

primrec pc_rank :: "run_pc \<Rightarrow> nat" where
  "pc_rank PcSelect = 5"
| "pc_rank PcSlot = 4"
| "pc_rank PcChecked = 3"
| "pc_rank PcExec = 2"
| "pc_rank PcRelease = 1"
| "pc_rank PcExit = 0"

definition sys_rank :: "run_sys \<Rightarrow> nat" where
  "sys_rank s = sum_list (map (\<lambda>g. pc_rank (snd g)) (sys_go s))"

lemma set_pc_rank:
  assumes "at_pc s k rs pc0" and "pc_rank pc < pc_rank pc0"
  shows "sys_rank (set_pc k pc m s) < sys_rank s"
proof -
  let ?f = "\<lambda>g. pc_rank (snd g)"
  have k: "k < length (sys_go s)" "snd (sys_go s ! k) = pc0"
    using assms(1) by (simp_all add: at_pc_def)
  have "map ?f (sys_go (set_pc k pc m s)) = (map ?f (sys_go s))[k := pc_rank pc]"
    by (simp add: set_pc_def map_update)
  moreover have "sum_list ((map ?f (sys_go s))[k := pc_rank pc]) =
      sum_list (map ?f (sys_go s)) + pc_rank pc - pc_rank pc0"
    using k by (subst sum_list_update) simp_all
  moreover have "pc_rank pc0 \<le> sum_list (map ?f (sys_go s))"
    using k member_le_sum_list [of "pc_rank pc0" "map ?f (sys_go s)"] by fastforce
  ultimately show ?thesis using assms(2) by (simp add: sys_rank_def)
qed

lemma go_step_rank: "go_step rel s s' \<Longrightarrow> sys_wf s \<Longrightarrow> sys_rank s' < sys_rank s"
proof (induction rule: go_step.induct)
  case (begin_run s k rs io started rs' m')
  then show ?case by (intro set_pc_rank [OF begin_run(1)]) simp
qed (auto intro: set_pc_rank)

lemma go_steps_bound: "(go_step rel ^^ n) s s' \<Longrightarrow> sys_wf s \<Longrightarrow> n + sys_rank s' \<le> sys_rank s \<and> sys_wf s'"
proof (induction n arbitrary: s')
  case (Suc n)
  then obtain t where "(go_step rel ^^ n) s t" "go_step rel t s'" by auto
  with Suc show ?case using go_step_rank go_step_wf by fastforce
qed simp

lemma sys_rank_le: "sys_rank s \<le> 5 * length (sys_go s)"
proof -
  have "sum_list (map (\<lambda>g. pc_rank (snd g)) gs) \<le> 5 * length gs" for gs :: "(string \<times> run_pc) list"
  proof (induction gs)
    case (Cons g gs)
    have "pc_rank (snd g) \<le> 5" by (cases "snd g") simp_all
    with Cons show ?case by simp
  qed simp
  then show ?thesis by (simp add: sys_rank_def)
qed

text \<open>While some goroutine has not exited, some goroutine can move.\<close>

lemma go_at:
  assumes "sys_wf s" and "g \<in> set (sys_go s)"
  obtains k rs where "at_pc s k rs (snd g)"
proof -
  from assms(2) obtain k where k: "k < length (sys_go s)" "sys_go s ! k = g"
    by (auto simp: in_set_conv_nth)
  moreover obtain rs where "lookup_run (sys_m s) (fst g) = Some rs"
    using assms unfolding sys_wf_def go_wf_def by blast
  ultimately show thesis by (intro that [of k rs]) (simp add: at_pc_def)
qed

lemma holder_moves:
  assumes "sys_wf s" and "g \<in> set (sys_go s)" and "holds_slot g"
  shows "\<exists>s'. go_step rel s s'"
proof -
  obtain k rs where at: "at_pc s k rs (snd g)" by (rule go_at [OF assms(1,2)])
  have io: "io_ok rel \<lparr>io_now = 0, io_event_now = 0, io_append_ok = True, io_upsert_ok = True\<rparr>"
    by (simp add: io_ok_def)
  from assms(3) consider "snd g = PcSlot" | "snd g = PcChecked" | "snd g = PcExec" | "snd g = PcRelease"
    by (auto simp: holds_slot_def)
  then show ?thesis
  proof cases
    case 1
    with at io show ?thesis by (cases "ctx_done (sys_m s) rs") (auto intro: go_step.intros)
  next
    case 2
    obtain a b c where "transitionLocked \<lparr>io_now = 0, io_event_now = 0, io_append_ok = True, io_upsert_ok = True\<rparr>
        RunRunning rs (sys_m s) = (a, b, c)" by (metis prod_cases3)
    moreover have "at_pc s k rs PcChecked" using 2 at by simp
    ultimately show ?thesis using go_step.begin_run [OF _ io] by blast
  next
    case 3
    have "go_step rel s (set_pc k PcRelease (finishOutcome id
        \<lparr>io_now = 0, io_event_now = 0, io_append_ok = True, io_upsert_ok = True\<rparr>
        CtxCanceled undefined None rs (sys_m s)) s)"
      by (rule go_step.exec_return) (use 3 at io in simp_all)
    then show ?thesis by blast
  next
    case 4
    with at show ?thesis by (auto intro: go_step.release)
  qed
qed

lemma go_progress:
  assumes "sys_wf s" and "g \<in> set (sys_go s)" and "snd g \<noteq> PcExit"
  shows "\<exists>s'. go_step rel s s'"
proof (cases "\<exists>h \<in> set (sys_go s). holds_slot h")
  case True
  then show ?thesis using holder_moves [OF assms(1)] by blast
next
  case False
  then have "m_slots (sys_m s) < m_maxConcurrent (sys_m s)"
    using assms(1) by (simp add: sys_wf_def go_wf_def runs_wf_def)
  moreover have "snd g = PcSelect"
    using False assms(2,3) by (cases "snd g") (auto simp: holds_slot_def)
  moreover obtain k rs where "at_pc s k rs (snd g)" by (rule go_at [OF assms(1,2)])
  ultimately show ?thesis by (auto intro: go_step.acquire)
qed

lemma go_drain:
  assumes "sys_wf s"
  shows "\<exists>s'. (go_step rel)\<^sup>*\<^sup>* s s' \<and> sys_wf s' \<and> (\<forall>g \<in> set (sys_go s'). snd g = PcExit)"
  using assms
proof (induction "sys_rank s" arbitrary: s rule: less_induct)
  case less
  show ?case
  proof (cases "\<forall>g \<in> set (sys_go s). snd g = PcExit")
    case False
    then obtain t where t: "go_step rel s t" using go_progress [OF less(2)] by blast
    with less obtain s' where "(go_step rel)\<^sup>*\<^sup>* t s'" "sys_wf s'" "\<forall>g \<in> set (sys_go s'). snd g = PcExit"
      using go_step_rank [OF t less(2)] go_step_wf [OF t less(2)] by blast
    with t show ?thesis by (meson converse_rtranclp_into_rtranclp)
  qed (use less(2) in blast)
qed

lemma drained:
  assumes "sys_wf s" and "\<forall>g \<in> set (sys_go s). snd g = PcExit"
  shows "m_slots (sys_m s) = 0 \<and> (\<forall>i rs. lookup_run (sys_m s) i = Some rs \<longrightarrow> terminalRunStatus (rs_status rs))"
proof -
  have "filter holds_slot (sys_go s) = []"
    using assms(2) by (auto simp: filter_empty_conv holds_slot_def)
  moreover have "terminalRunStatus (rs_status rs)" if look: "lookup_run (sys_m s) i = Some rs" for i rs
  proof (rule ccontr)
    assume nt: "\<not> terminalRunStatus (rs_status rs)"
    then obtain g where g: "g \<in> set (sys_go s)" "fst g = i"
      using assms(1) look unfolding sys_wf_def go_wf_def by blast
    then obtain r where "lookup_run (sys_m s) (fst g) = Some r" "pc_ok (snd g) (rs_status r)"
      using assms(1) unfolding sys_wf_def go_wf_def by blast
    with g look nt assms(2) show False by (auto simp: pc_ok_def)
  qed
  ultimately show ?thesis using assms(1) by (simp add: sys_wf_def go_wf_def)
qed

section \<open>The life of a run\<close>

definition run_evolves :: "runState \<Rightarrow> runState \<Rightarrow> bool" where
  "run_evolves rs rs' \<longleftrightarrow>
     (rs_status rs' = rs_status rs \<or> canTransition_mgr (rs_status rs) (rs_status rs')) \<and>
     (terminalRunStatus (rs_status rs) \<longrightarrow> snapshotLocked rs' = snapshotLocked rs) \<and>
     (rs_eventSeq rs' = rs_eventSeq rs + 1 \<or> rs_eventSeq rs' = rs_eventSeq rs \<and> rs_status rs' = rs_status rs)"

definition evolves :: "RunManager \<Rightarrow> RunManager \<Rightarrow> bool" where
  "evolves m m' \<longleftrightarrow>
     (\<forall>i rs. lookup_run m i = Some rs \<longrightarrow> (\<exists>rs'. lookup_run m' i = Some rs' \<and> run_evolves rs rs'))"

lemma run_evolves_refl [simp]: "run_evolves rs rs"
  by (simp add: run_evolves_def)

lemma evolves_lookup: "(\<And>i. lookup_run m' i = lookup_run m i) \<Longrightarrow> evolves m m'"
  by (simp add: evolves_def)

lemma evolves_same: "m_same m m' \<Longrightarrow> evolves m m'"
  by (rule evolves_lookup) (rule m_same_lookup)

lemma evolves_put:
  assumes "m_same m m'"
    and "case lookup_run m (rs_id rs') of None \<Rightarrow> True | Some rs \<Rightarrow> run_evolves rs rs'"
  shows "evolves m (put_run rs' m')"
  using assms m_same_lookup [OF assms(1)] by (auto simp: evolves_def split: option.splits)

lemma finish_evolves:
  assumes "runs_wf m" and "lookup_run m i = Some rs" and "terminalRunStatus st"
  shows "evolves m (finish io st out err rs m)"
proof (cases "terminalRunStatus (rs_status rs)")
  case True
  then show ?thesis by (simp add: finish_def evolves_lookup)
next
  case False
  have ok: "rs_ok (m_eventCapacity m) rs" "0 < m_eventCapacity m"
    using assms(1,2) runs_wf_lookup by (auto simp: runs_wf_def)
  obtain rs' m' where eq: "finish io st out err rs m = put_run rs' m'"
    and rs': "rs_id rs' = rs_id rs" "rs_status rs' = (if rs_status rs = RunQueued then RunCancelled else st)"
    and same: "m_same m m'" and seq: "rs_eventSeq rs' = rs_eventSeq rs + 1"
    by (rule finish_effect [OF ok False assms(3)])
  have "rs_status rs \<in> {RunQueued, RunRunning}"
    using ok(1) False by (auto simp: rs_ok_def RunStatuses_def terminalRunStatus_def)
  then have "run_evolves rs rs'"
    using False rs'(2) seq assms(3) by (auto simp: run_evolves_def canTransition_mgr_iff)
  then show ?thesis
    unfolding eq using assms(2) lookup_run_id [OF assms(2)] rs'(1)
    by (intro evolves_put [OF same]) simp
qed

lemma at_pc_lookup: "at_pc s k rs pc \<Longrightarrow> \<exists>i. lookup_run (sys_m s) i = Some rs"
  by (auto simp: at_pc_def)

lemma set_pc_m [simp]: "sys_m (set_pc k pc m s) = m"
  by (simp add: set_pc_def)

lemma go_step_evolves: "go_step rel s s' \<Longrightarrow> sys_wf s \<Longrightarrow> evolves (sys_m s) (sys_m s')"
proof (induction rule: go_step.induct)
  case (give_up s k rs io)
  then show ?case using finish_evolves at_pc_lookup by (fastforce simp: sys_wf_def)
next
  case (slot_cancelled s k rs io)
  then show ?case using finish_evolves at_pc_lookup by (fastforce simp: sys_wf_def)
next
  case (begin_run s k rs io started rs' m')
  note f = at_pc_facts [OF begin_run(4,1)]
  have can: "canTransition_mgr (rs_status rs) RunRunning"
    using f(3) by (simp add: pc_ok_def canTransition_mgr_iff)
  obtain rs1 m1 where "transitionLocked io RunRunning rs (sys_m s) = (True, rs1, m1)"
    and "rs_status rs1 = RunRunning" "rs_id rs1 = rs_id rs" "m_same (sys_m s) m1"
      "rs_eventSeq rs1 = rs_eventSeq rs + 1"
    by (rule transitionLocked_effect [OF f(2,4) can])
  with begin_run(3) can f(1,5) show ?case
    by (auto intro!: evolves_put simp: run_evolves_def canTransition_mgr_iff)
next
  case (exec_return s k rs io ctx quote res execErr)
  obtain st out err where "terminalRunStatus st"
    and "finishOutcome quote io ctx res execErr rs (sys_m s) = finish io st out err rs (sys_m s)"
    using finishOutcome_finish [of quote io ctx res execErr] by blast
  with exec_return(1,4) show ?case using finish_evolves at_pc_lookup by (fastforce simp: sys_wf_def)
qed (auto intro: evolves_lookup simp: lookup_run_def)

lemma record_evolves:
  assumes "sys_wf s" and "lookup_run (sys_m s) i = Some rs"
  shows "evolves (sys_m s) (recordEvent io line rs (sys_m s))"
proof (cases "terminalRunStatus (rs_status rs)")
  case True
  then show ?thesis by (simp add: recordEvent_def evolves_lookup)
next
  case False
  have ok: "rs_ok (m_eventCapacity (sys_m s)) rs" "0 < m_eventCapacity (sys_m s)"
    using assms runs_wf_lookup by (auto simp: sys_wf_def runs_wf_def)
  obtain rs' m' where eq: "recordEvent io line rs (sys_m s) = put_run rs' m'"
    and rs': "rs_status rs' = rs_status rs" "rs_id rs' = rs_id rs" "rs_eventSeq rs' = rs_eventSeq rs + 1"
    and same: "m_same (sys_m s) m'"
    by (rule recordEvent_effect [OF ok False])
  show ?thesis
    unfolding eq using assms(2) lookup_run_id [OF assms(2)] rs' False
    by (intro evolves_put [OF same]) (simp add: run_evolves_def)
qed

lemma run_step_evolves: "run_step rel s s' \<Longrightarrow> sys_wf s \<Longrightarrow> evolves (sys_m s) (sys_m s')"
proof (induction rule: run_step.induct)
  case (start profiles preflight ctx_ok io i spec s m' snap)
  have cap: "0 < m_eventCapacity (sys_m s)" using start(4) by (simp add: sys_wf_def runs_wf_def)
  obtain rs m1 where m': "m' = persistLocked io rs (put_run rs m1)" and same: "m_same (sys_m s) m1"
    and "rs_id rs = i"
    by (rule Start_effect [OF start(1) cap])
  then have "evolves (sys_m s) (put_run rs m1)"
    using start(2) by (intro evolves_put [OF same]) simp
  moreover have "lookup_run m' j = lookup_run (put_run rs m1) j" for j
    by (simp add: m' lookup_run_def persist_manager)
  ultimately show ?case by (simp add: evolves_def)
next
  case (go s s')
  then show ?case by (rule go_step_evolves)
next
  case (record_line s i rs io line)
  then show ?case by (simp add: record_evolves)
next
  case (cancel i s m' r)
  then consider "m' = sys_m s"
    | rs where "lookup_run (sys_m s) i = Some rs" and "m' = put_run (rs\<lparr>rs_cancelled := True\<rparr>) (sys_m s)"
    by (auto simp: Cancel_def split: option.splits if_splits)
  then show ?case
  proof cases
    case 2
    moreover have "run_evolves rs (rs\<lparr>rs_cancelled := True\<rparr>)"
      by (simp add: run_evolves_def snapshotLocked_def)
    ultimately show ?thesis
      using lookup_run_id [OF 2(1)] by (simp add: evolves_put m_same_def)
  qed (simp add: evolves_lookup)
next
  case (get i s m' r)
  have "evolves (sys_m s) (cacheLoaded snap (sys_m s))" for snap
    by (auto simp: cacheLoaded_def Let_def evolves_lookup loadedRunState_def m_same_def split: option.split
        intro!: evolves_put)
  with Get_manager [OF get(1)] show ?case by (auto simp: evolves_lookup)
next
  case (subscribe i n s m' r)
  then show ?case using Subscribe_manager evolves_same by simp
qed (auto intro!: evolves_lookup simp: cancelSubscription_def lookup_run_def Close_def)

end
