(* ===== verification/RunDurability.thy ===== *)
theory RunDurability
  imports RunSafety JournalSpec "HOL-Library.Multiset"
begin

text \<open>
  The run store: as long as its statements succeed, the durable journal of every run is gapless and
  ends where the run's counter stands, and a process that dies at any moment loses nothing: the next
  one finds every run, finished or marked interrupted by exactly one event.
\<close>

section \<open>The store invariant\<close>

definition run_rows :: "run_event_row list \<Rightarrow> string \<Rightarrow> run_event_row list" where
  "run_rows evs i = filter (\<lambda>r. rer_run_id r = i) evs"

definition rows_ok :: "run_event_row list \<Rightarrow> bool" where
  "rows_ok evs \<longleftrightarrow> (\<forall>i. map rer_seq (run_rows evs i) = [1..int (length (run_rows evs i))])"

definition run_sync :: "runStore \<Rightarrow> runState \<Rightarrow> bool" where
  "run_sync st rs \<longleftrightarrow>
     rs_eventSeq rs = int (length (run_rows (st_events st) (rs_id rs))) \<and>
     (\<exists>row \<in> set (st_runs st). arr_id row = rs_id rs \<and> arr_status row = rs_status rs)"

definition store_inv :: "runStore \<Rightarrow> bool" where
  "store_inv st \<longleftrightarrow> distinct (map arr_id (st_runs st)) \<and> rows_ok (st_events st)"

definition durable :: "RunManager \<Rightarrow> bool" where
  "durable m \<longleftrightarrow>
     (\<forall>st. m_store m = Some st \<longrightarrow>
        store_inv st \<and>
        (\<forall>i. lookup_run m i = None \<longrightarrow> run_rows (st_events st) i = [] \<and> i \<notin> arr_id ` set (st_runs st)) \<and>
        (\<forall>i rs. lookup_run m i = Some rs \<longrightarrow> run_sync st rs))"

text \<open>A store after an operation on one run.\<close>

definition store_moved :: "runStore \<Rightarrow> runStore \<Rightarrow> runState \<Rightarrow> bool" where
  "store_moved st st' rs \<longleftrightarrow>
     store_inv st' \<and> run_sync st' rs \<and>
     (\<forall>j. j \<noteq> rs_id rs \<longrightarrow> run_rows (st_events st') j = run_rows (st_events st) j \<and>
        filter (\<lambda>r. arr_id r = j) (st_runs st') = filter (\<lambda>r. arr_id r = j) (st_runs st))"

lemma in_filter_id: "(\<exists>r \<in> set rows. f r = j \<and> P r) \<longleftrightarrow> (\<exists>r \<in> set (filter (\<lambda>r. f r = j) rows). P r)"
  by auto

lemma durable_moved:
  assumes "durable m" and st: "m_store m = Some st" and st': "m_store m' = Some st'"
    and moved: "store_moved st st' rs"
    and look: "\<And>j. lookup_run m' j = (if j = rs_id rs then Some rs else lookup_run m j)"
  shows "durable m'"
  unfolding durable_def
proof (intro allI impI)
  fix u assume "m_store m' = Some u"
  then have u: "u = st'" using st' by simp
  have old: "\<forall>i. lookup_run m i = None \<longrightarrow> run_rows (st_events st) i = [] \<and> i \<notin> arr_id ` set (st_runs st)"
    "\<forall>i rs. lookup_run m i = Some rs \<longrightarrow> run_sync st rs"
    using assms(1) st by (simp_all add: durable_def)
  have "run_rows (st_events st') i = [] \<and> i \<notin> arr_id ` set (st_runs st')" if "lookup_run m' i = None" for i
  proof -
    have i: "i \<noteq> rs_id rs" "lookup_run m i = None" using that by (auto simp: look split: if_splits)
    then have "filter (\<lambda>r. arr_id r = i) (st_runs st) = []"
      using old(1) by (auto simp: filter_empty_conv)
    then have "filter (\<lambda>r. arr_id r = i) (st_runs st') = []"
      using moved i(1) by (simp add: store_moved_def)
    then have "i \<notin> arr_id ` set (st_runs st')" by (auto simp: filter_empty_conv)
    with i moved old(1) show ?thesis by (simp add: store_moved_def)
  qed
  moreover have "run_sync st' r" if "lookup_run m' i = Some r" for i r
  proof (cases "i = rs_id rs")
    case True
    with that moved show ?thesis by (simp add: look store_moved_def)
  next
    case False
    with that have r: "lookup_run m i = Some r" "rs_id r = i" using lookup_run_id by (auto simp: look)
    with old(2) have "run_sync st r" by blast
    with False moved r(2) show ?thesis
      unfolding run_sync_def in_filter_id [of "st_runs st"] in_filter_id [of "st_runs st'"]
      by (simp add: store_moved_def)
  qed
  ultimately show "store_inv u \<and>
      (\<forall>i. lookup_run m' i = None \<longrightarrow> run_rows (st_events u) i = [] \<and> i \<notin> arr_id ` set (st_runs u)) \<and>
      (\<forall>i rs. lookup_run m' i = Some rs \<longrightarrow> run_sync u rs)"
    using moved u by (simp add: store_moved_def)
qed

section \<open>Appending and persisting\<close>

lemma rows_ok_fresh:
  assumes "rows_ok evs" and "q = int (length (run_rows evs i)) + 1" and "r \<in> set evs" and "rer_run_id r = i"
  shows "rer_seq r \<noteq> q"
proof -
  have "rer_seq r \<in> set (map rer_seq (run_rows evs i))" using assms(3,4) by (auto simp: run_rows_def)
  also have "set (map rer_seq (run_rows evs i)) = {1..int (length (run_rows evs i))}"
    using assms(1) unfolding rows_ok_def by (metis set_upto)
  finally show ?thesis using assms(2) by simp
qed

lemma rows_ok_append:
  assumes "rows_ok evs" and "rer_seq r = int (length (run_rows evs (rer_run_id r))) + 1"
  shows "rows_ok (evs @ [r])"
  unfolding rows_ok_def
proof
  fix j
  show "map rer_seq (run_rows (evs @ [r]) j) = [1..int (length (run_rows (evs @ [r]) j))]"
  proof (cases "j = rer_run_id r")
    case True
    have "map rer_seq (run_rows evs j) = [1..int (length (run_rows evs j))]"
      using assms(1) by (simp add: rows_ok_def)
    then show ?thesis using assms(2) True by (simp add: run_rows_def upto_rec2 add.commute)
  qed (use assms(1) in \<open>simp add: rows_ok_def run_rows_def\<close>)
qed

lemma append_store:
  assumes app: "appendRuntimeEventLocked io src kind p rs m = (rs', m')" and ring: "ring_ok cap rs" "0 < cap"
    and "io_append_ok io" and "m_store m = Some st" and "store_inv st"
    and "rs_eventSeq rs = int (length (run_rows (st_events st) (rs_id rs)))"
  obtains ev st' where "m_store m' = Some st'" and "st_runs st' = st_runs st"
    and "st_events st' = st_events st @ [run_event_args ev]" and "RE_Kind ev = kind"
    and "RE_RunID ev = rs_id rs" and "RE_Seq ev = rs_eventSeq rs + 1" and "rows_ok (st_events st')"
    and "rs_eventSeq rs' = int (length (run_rows (st_events st') (rs_id rs)))"
proof -
  obtain ev where ev: "RE_RunID ev = rs_id rs" "RE_Seq ev = rs_eventSeq rs + 1" "RE_Kind ev = kind"
    and m': "m' = publishRuntimeEventLocked ev (store_event io ev m)"
    by (rule append_ring_events [OF app ring])
  have "delete_rows (\<lambda>r. rer_run_id r = RE_RunID ev \<and> rer_seq r = RE_Seq ev) (st_events st) = st_events st"
    using assms(6,7) rows_ok_fresh [of "st_events st" "RE_Seq ev" "rs_id rs"]
    by (auto simp: delete_rows_def ev store_inv_def filter_id_conv)
  then have st': "m_store m' = Some (st\<lparr>st_events := st_events st @ [run_event_args ev]\<rparr>)"
    using assms(4,5) by (simp add: m' publishRuntimeEventLocked_def store_event_def appendEvent_store_def)
  have "rows_ok (st_events st @ [run_event_args ev])"
    using assms(6,7) by (intro rows_ok_append) (simp_all add: store_inv_def run_event_args_def ev)
  moreover have "rs_eventSeq rs' = int (length (run_rows (st_events st @ [run_event_args ev]) (rs_id rs)))"
    using append_run(6) [OF app] assms(7) by (simp add: run_rows_def run_event_args_def ev)
  ultimately show thesis using st' ev by (intro that [OF st']) simp_all
qed

lemma run_rows_other: "rer_run_id r \<noteq> j \<Longrightarrow> run_rows (evs @ [r]) j = run_rows evs j"
  by (simp add: run_rows_def)

lemma append_moved:
  assumes "appendRuntimeEventLocked io src kind p rs m = (rs', m')" and "ring_ok cap rs" and "0 < cap"
    and "io_append_ok io" and "m_store m = Some st" and "store_inv st"
    and "rs_eventSeq rs = int (length (run_rows (st_events st) (rs_id rs)))"
    and row: "\<exists>row \<in> set (st_runs st). arr_id row = rs_id rs \<and> arr_status row = rs_status rs"
  shows "\<exists>st'. m_store m' = Some st' \<and> store_moved st st' rs'"
proof -
  obtain ev st' where st': "m_store m' = Some st'" "st_runs st' = st_runs st"
    "st_events st' = st_events st @ [run_event_args ev]" "RE_RunID ev = rs_id rs" "rows_ok (st_events st')"
    "rs_eventSeq rs' = int (length (run_rows (st_events st') (rs_id rs)))"
    by (rule append_store [OF assms(1-7)])
  have "store_moved st st' rs'"
    using assms(6) st' row append_run [OF assms(1)]
    by (simp add: store_moved_def store_inv_def run_sync_def run_rows_other run_event_args_def)
  with st'(1) show ?thesis by blast
qed

lemma persist_moved:
  assumes "store_inv st" and "store_inv st1" and "io_upsert_ok io" and "m_store m = Some st1"
    and "rs_eventSeq rs = int (length (run_rows (st_events st1) (rs_id rs)))"
    and "\<And>j. j \<noteq> rs_id rs \<Longrightarrow> run_rows (st_events st1) j = run_rows (st_events st) j"
    and "st_runs st1 = st_runs st"
  shows "\<exists>st'. m_store (persistLocked io rs m) = Some st' \<and> store_moved st st' rs"
proof -
  let ?st = "upsert_store (snapshotLocked rs) st1"
  have ids: "AR_ID (snapshotLocked rs) = rs_id rs" "arr_id (agent_run_args (snapshotLocked rs)) = rs_id rs"
    "arr_status (agent_run_args (snapshotLocked rs)) = rs_status rs"
    by (simp_all add: snapshotLocked_def agent_run_args_def)
  have runs: "st_runs ?st = filter (\<lambda>r. arr_id r \<noteq> rs_id rs) (st_runs st) @ [agent_run_args (snapshotLocked rs)]"
    and evs: "st_events ?st = st_events st1"
    using assms(7) by (simp_all add: upsert_store_def delete_rows_def ids)
  have "distinct (map arr_id (st_runs ?st))"
    using assms(1) by (auto simp: runs ids store_inv_def distinct_map_filter)
  moreover have "filter (\<lambda>r. arr_id r = j) (st_runs ?st) = filter (\<lambda>r. arr_id r = j) (st_runs st)"
    if "j \<noteq> rs_id rs" for j
    using that by (auto simp: runs ids intro!: filter_cong)
  moreover have "run_sync ?st rs"
    using assms(5) by (simp add: run_sync_def runs evs ids)
  ultimately have "store_moved st ?st rs"
    using assms(2,6) by (simp add: store_moved_def store_inv_def evs)
  moreover have "m_store (persistLocked io rs m) = Some ?st"
    using assms(3,4) by (simp add: persistLocked_def)
  ultimately show ?thesis by blast
qed

lemma append_persist_moved:
  assumes "appendRuntimeEventLocked io src kind p rs m = (rs', m')" and "ring_ok cap rs" and "0 < cap"
    and "io_append_ok io" and "m_store m = Some st" and "store_inv st"
    and "rs_eventSeq rs = int (length (run_rows (st_events st) (rs_id rs)))" and "io_upsert_ok io"
    and "m_store m1 = m_store m'"
  shows "\<exists>st'. m_store (persistLocked io rs' m1) = Some st' \<and> store_moved st st' rs'"
proof -
  obtain ev st1 where st1: "m_store m' = Some st1" "st_runs st1 = st_runs st"
    "st_events st1 = st_events st @ [run_event_args ev]" "RE_RunID ev = rs_id rs" "rows_ok (st_events st1)"
    "rs_eventSeq rs' = int (length (run_rows (st_events st1) (rs_id rs)))"
    by (rule append_store [OF assms(1-7)])
  have i: "rs_id rs' = rs_id rs" using append_run(1) [OF assms(1)] .
  have "store_inv st1" using st1 assms(6) by (simp add: store_inv_def)
  then show ?thesis
    by (rule persist_moved [OF assms(6) _ assms(8), where m = m1])
      (use st1 assms(9) i in \<open>simp_all add: run_rows_other run_event_args_def\<close>)
qed

section \<open>Every reliable step keeps the store in step\<close>

lemma durable_store:
  assumes "durable m" and "m_store m = Some st"
  shows "store_inv st" and "\<And>i rs. lookup_run m i = Some rs \<Longrightarrow> run_sync st rs"
    and "\<And>i. lookup_run m i = None \<Longrightarrow> run_rows (st_events st) i = []"
    and "\<And>i. lookup_run m i = None \<Longrightarrow> i \<notin> arr_id ` set (st_runs st)"
  using assms by (simp_all add: durable_def)


lemma store_moved_cong:
  "rs_id rs' = rs_id rs \<Longrightarrow> rs_eventSeq rs' = rs_eventSeq rs \<Longrightarrow> rs_status rs' = rs_status rs \<Longrightarrow>
   store_moved st st' rs' = store_moved st st' rs"
  by (simp add: store_moved_def run_sync_def)

lemma transition_moved:
  assumes "transitionLocked io to rs m = (True, rs', m')" and "ring_ok cap rs" and "0 < cap"
    and "io_append_ok io" and "io_upsert_ok io" and "m_store m = Some st" and "store_inv st"
    and "rs_eventSeq rs = int (length (run_rows (st_events st) (rs_id rs)))"
  shows "\<exists>st'. m_store m' = Some st' \<and> store_moved st st' rs'"
proof -
  let ?rs1 = "enter_status io to rs"
  obtain rs2 m2 where app: "appendRuntimeEventLocked io ''codebridge'' (runStatusEventKind to) [] ?rs1 m = (rs2, m2)"
    by fastforce
  have eq: "rs' = rs2" "m' = persistLocked io rs2 m2"
    using assms(1) app by (auto simp: transitionLocked_def split: if_splits)
  show ?thesis
    unfolding eq using assms enter_status_ring [OF assms(2)]
    by (intro append_persist_moved [OF app]) (simp_all add: enter_status_simps)
qed

lemma durable_transition:
  assumes "durable m" and "lookup_run m i = Some rs0" and "rs_ok cap rs" and "0 < cap"
    and rs: "rs_id rs = i" "rs_eventSeq rs = rs_eventSeq rs0"
    and tr: "transitionLocked io to rs m = (True, rs', m')" and "m_same m m'"
    and io: "io_append_ok io" "io_upsert_ok io" and "m_store m = Some st"
    and fin: "rs_id fin = i" "rs_eventSeq fin = rs_eventSeq rs'" "rs_status fin = rs_status rs'" "rs_id rs' = i"
  shows "durable (put_run fin m')"
proof -
  have "run_sync st rs0" using durable_store(2) [OF assms(1,11,2)] .
  then have seq: "rs_eventSeq rs = int (length (run_rows (st_events st) (rs_id rs)))"
    using rs lookup_run_id [OF assms(2)] by (simp add: run_sync_def)
  obtain st' where "m_store m' = Some st'" "store_moved st st' rs'"
    using transition_moved [OF tr _ assms(4) io assms(11) durable_store(1) [OF assms(1,11)] seq] assms(3)
    by (auto simp: rs_ok_def)
  then show ?thesis
    using fin m_same_lookup [OF assms(8)] store_moved_cong [of fin rs']
    by (intro durable_moved [OF assms(1,11), of _ st' fin]) simp_all
qed

lemma durable_None: "m_store m = None \<Longrightarrow> durable m"
  by (simp add: durable_def)

lemma finish_durable:
  assumes "durable m" and "runs_wf m" and "lookup_run m i = Some rs" and "terminalRunStatus st"
    and io: "io_append_ok io" "io_upsert_ok io" and "m_store m = Some s"
  shows "durable (finish io st out err rs m)"
proof (cases "terminalRunStatus (rs_status rs)")
  case False
  define st' where "st' = (if \<not> canTransition_mgr (rs_status rs) st then RunCancelled else st)"
  have ok: "rs_ok (m_eventCapacity m) rs" "0 < m_eventCapacity m"
    using assms(2,3) runs_wf_lookup by (auto simp: runs_wf_def)
  have "rs_status rs \<in> {RunQueued, RunRunning}"
    using ok(1) False by (auto simp: rs_ok_def RunStatuses_def terminalRunStatus_def)
  then have can: "canTransition_mgr (rs_status rs) st'"
    using assms(4) by (auto simp: st'_def canTransition_mgr_iff)
  define rs0 where "rs0 = rs\<lparr>rs_output := truncateText out subagentMaxOutput,
    rs_errText := (case err of None \<Rightarrow> [] | Some e \<Rightarrow> e)\<rparr>"
  have "ring_ok (m_eventCapacity m) rs0"
    by (rule ring_ok_same [of _ rs]) (use ok in \<open>simp_all add: rs_ok_def rs0_def\<close>)
  then have ok0: "rs_ok (m_eventCapacity m) rs0" using ok(1) by (simp add: rs_ok_def rs0_def)
  have can0: "canTransition_mgr (rs_status rs0) st'" using can by (simp add: rs0_def)
  obtain rs1 m1 where tr: "transitionLocked io st' rs0 m = (True, rs1, m1)" and same: "m_same m m1"
    and i1: "rs_id rs1 = rs_id rs0"
    by (rule transitionLocked_effect [OF ok0 ok(2) can0])
  have fin: "finish io st out err rs m = put_run (rs1\<lparr>rs_cancelled := True\<rparr>) m1"
    using False can tr unfolding finish_def Let_def rs0_def [symmetric] st'_def [symmetric] by simp
  have "rs_id rs = i" using lookup_run_id [OF assms(3)] by simp
  then show ?thesis
    unfolding fin using i1
    by (intro durable_transition [OF assms(1,3) ok0 ok(2) _ _ tr same io assms(7)]) (simp_all add: rs0_def)
qed (use assms(1) in \<open>simp add: finish_def\<close>)

lemma record_durable:
  assumes "durable m" and "runs_wf m" and "lookup_run m i = Some rs"
    and io: "io_append_ok io" and "m_store m = Some st"
  shows "durable (recordEvent io line rs m)"
proof (cases "terminalRunStatus (rs_status rs)")
  case False
  have ok: "rs_ok (m_eventCapacity m) rs" "0 < m_eventCapacity m" and i: "rs_id rs = i"
    using assms(2,3) runs_wf_lookup lookup_run_id by (auto simp: runs_wf_def)
  let ?cap = "m_eventCapacity m"
  have life: "rs_lifeStop rs" and len: "length (rs_events rs) = ?cap"
    using ok(1) False by (simp_all add: rs_ok_def ring_ok_def)
  define rs1 where "rs1 = rs\<lparr>rs_events := (rs_events rs)[rs_eventNext rs mod ?cap := line],
    rs_eventNext := Suc (rs_eventNext rs),
    rs_eventKept := (if rs_eventKept rs < ?cap then rs_eventKept rs + 1 else rs_eventKept rs),
    rs_eventTotal := Suc (rs_eventTotal rs), rs_lastEvent := line\<rparr>"
  obtain rs2 m2 where app: "appendRuntimeEventLocked io (Spec_Client (rs_spec rs1)) ''harness.raw'' line rs1 m = (rs2, m2)"
    by fastforce
  have eq: "recordEvent io line rs m = put_run rs2 m2"
    using False app by (simp add: recordEvent_def Let_def rs1_def len)
  have ring: "ring_ok ?cap rs1"
    using ok life by (auto simp: rs_ok_def ring_ok_def rs1_def ring_events_def)
  have sync: "run_sync st rs" using durable_store(2) [OF assms(1,5,3)] .
  have "\<exists>st'. m_store m2 = Some st' \<and> store_moved st st' rs2"
    by (rule append_moved [OF app ring ok(2) io assms(5) durable_store(1) [OF assms(1,5)]])
      (use sync in \<open>simp_all add: run_sync_def rs1_def\<close>)
  then obtain st' where "m_store m2 = Some st'" "store_moved st st' rs2" by blast
  moreover have "rs_id rs2 = i" using append_run(1) [OF app] i by (simp add: rs1_def)
  ultimately show ?thesis
    unfolding eq using m_same_lookup [OF m_same_append [OF app]]
    by (intro durable_moved [OF assms(1,5), of _ st' rs2]) simp_all
qed (use assms(1) in \<open>simp add: recordEvent_def\<close>)

lemma start_durable:
  assumes "durable m" and "0 < m_eventCapacity m" and "lookup_run m i = None"
    and start: "Start profiles preflight ctx_ok io i spec m = (m', Inr snap)"
    and io: "io_append_ok io" "io_upsert_ok io" and "m_store m = Some st"
  shows "durable m'"
proof -
  let ?new = "new_run (m_eventCapacity m) i (normalizeRunSpec profiles spec)"
  obtain rs m1 where m': "m' = persistLocked io rs (put_run rs m1)" and same: "m_same m m1"
    and rs: "rs_id rs = i" and app: "appendRuntimeEventLocked io ''codebridge'' ''run.queued'' [] ?new m = (rs, m1)"
    by (rule Start_effect [OF start assms(2)])
  have "rs_eventSeq ?new = int (length (run_rows (st_events st) (rs_id ?new)))"
    using durable_store(3) [OF assms(1,7,3)] by (simp add: new_run_def)
  moreover have "ring_ok (m_eventCapacity m) ?new" using new_run_ok by (simp add: rs_ok_def)
  ultimately obtain st' where "m_store m' = Some st'" "store_moved st st' rs"
    using append_persist_moved [OF app _ assms(2) io(1) assms(7) durable_store(1) [OF assms(1,7)] _ io(2),
        of "put_run rs m1"] m' by auto
  moreover have "lookup_run m' j = lookup_run (put_run rs m1) j" for j
    by (simp add: m' lookup_run_def persist_manager)
  ultimately show ?thesis
    using m_same_lookup [OF same] rs by (intro durable_moved [OF assms(1,7), of _ st' rs]) simp_all
qed

lemma no_store:
  assumes "m_store m = None"
  shows "m_store (finish io st out err rs m) = None" and "m_store (recordEvent io line rs m) = None"
    and "transitionLocked io to rs m = (b, rs', m') \<Longrightarrow> m_store m' = None"
    and "Start profiles preflight ctx_ok io i spec m = (m', r) \<Longrightarrow> m_store m' = None"
proof -
  have app: "m_store m' = None" if "appendRuntimeEventLocked io src kind p rs m = (rs', m')" for io src kind p rs rs' m'
  proof -
    have "m' = snd (appendRuntimeEventLocked io src kind p rs m)" using that by simp
    then show ?thesis
      using assms by (simp add: appendRuntimeEventLocked_def Let_def publishRuntimeEventLocked_def store_event_def)
  qed
  have tr: "m_store m' = None" if "transitionLocked io to rs m = (b, rs', m')" for io to rs b rs' m'
    using that assms app
    by (auto simp: transitionLocked_def persistLocked_def split: if_splits prod.splits)
  show "transitionLocked io to rs m = (b, rs', m') \<Longrightarrow> m_store m' = None" by (rule tr)
  show "m_store (finish io st out err rs m) = None"
    using assms tr by (auto simp: finish_def Let_def split: prod.splits)
  show "m_store (recordEvent io line rs m) = None"
    using assms app by (auto simp: recordEvent_def Let_def split: prod.splits)
  show "Start profiles preflight ctx_ok io i spec m = (m', r) \<Longrightarrow> m_store m' = None"
    using assms app by (auto simp: Start_def Let_def persistLocked_def split: if_splits option.splits prod.splits)
qed

lemma durable_cong [simp]:
  "durable (m\<lparr>m_slots := n\<rparr>) = durable m" "durable (m\<lparr>m_subscribers := subs\<rparr>) = durable m"
  "durable (m\<lparr>m_subNext := k\<rparr>) = durable m" "durable (Close m) = durable m"
  by (simp_all add: durable_def lookup_run_def Close_def)

lemma finish_durable':
  assumes "durable (sys_m s)" and "sys_wf s" and "at_pc s k rs pc" and "terminalRunStatus st" and "io_ok True io"
  shows "durable (finish io st out err rs (sys_m s))"
proof (cases "m_store (sys_m s)")
  case None
  then show ?thesis by (simp add: durable_None no_store(1))
next
  case (Some u)
  moreover obtain i where "lookup_run (sys_m s) i = Some rs"
    using at_pc_lookup [OF assms(3)] by blast
  ultimately show ?thesis
    using assms by (intro finish_durable [OF assms(1)]) (auto simp: sys_wf_def io_ok_def)
qed

lemma go_step_durable: "go_step True s s' \<Longrightarrow> sys_wf s \<Longrightarrow> durable (sys_m s) \<Longrightarrow> durable (sys_m s')"
proof (induction rule: go_step.induct)
  case (begin_run s k rs io started rs' m')
  note f = at_pc_facts [OF begin_run(4,1)]
  have can: "canTransition_mgr (rs_status rs) RunRunning"
    using f(3) by (simp add: pc_ok_def canTransition_mgr_iff)
  obtain rs1 m1 where tr: "transitionLocked io RunRunning rs (sys_m s) = (True, rs1, m1)"
    and i1: "rs_id rs1 = rs_id rs" and same: "m_same (sys_m s) m1"
    by (rule transitionLocked_effect [OF f(2,4) can])
  have eq: "rs' = rs1" "m' = m1" using begin_run(3) tr by simp_all
  show ?case
  proof (cases "m_store (sys_m s)")
    case None
    then show ?thesis using no_store(3) [OF None tr] by (simp add: eq durable_None)
  next
    case (Some st)
    have "durable (put_run rs1 m1)"
      by (rule durable_transition [OF begin_run(5) f(5) f(2) f(4) _ _ tr same _ _ Some])
        (use begin_run(2) f(1) i1 in \<open>simp_all add: io_ok_def\<close>)
    then show ?thesis by (simp add: eq)
  qed
next
  case (give_up s k rs io)
  then show ?case using finish_durable' [OF give_up(5,4,1) _ give_up(3), of RunCancelled] by simp
next
  case (slot_cancelled s k rs io)
  then show ?case using finish_durable' [OF slot_cancelled(5,4,1) _ slot_cancelled(3), of RunCancelled] by simp
next
  case (exec_return s k rs io ctx quote res execErr)
  obtain st out err where "terminalRunStatus st"
    and "finishOutcome quote io ctx res execErr rs (sys_m s) = finish io st out err rs (sys_m s)"
    using finishOutcome_finish [of quote io ctx res execErr] by blast
  then show ?case using finish_durable' [OF exec_return(5,4,1) _ exec_return(2)] by simp
qed simp_all

lemma run_step_durable: "run_step True s s' \<Longrightarrow> sys_wf s \<Longrightarrow> durable (sys_m s) \<Longrightarrow> durable (sys_m s')"
proof (induction rule: run_step.induct)
  case (start profiles preflight ctx_ok io i spec s m' snap)
  show ?case
  proof (cases "m_store (sys_m s)")
    case None
    then show ?thesis using no_store(4) [OF None start(1)] by (simp add: durable_None)
  next
    case (Some st)
    then show ?thesis
      using start_durable [OF start(5) _ start(2,1) _ _ Some] start(3,4)
      by (simp add: sys_wf_def runs_wf_def io_ok_def)
  qed
next
  case (go s s')
  then show ?case by (rule go_step_durable)
next
  case (record_line s i rs io line)
  show ?case
  proof (cases "m_store (sys_m s)")
    case None
    then show ?thesis using no_store(2) [OF None] by (simp add: durable_None)
  next
    case (Some st)
    then show ?thesis
      using record_durable [OF record_line(4) _ record_line(1) _ Some] record_line(2,3)
      by (simp add: sys_wf_def io_ok_def)
  qed
next
  case (cancel i s m' r)
  then consider "m' = sys_m s"
    | rs where "lookup_run (sys_m s) i = Some rs" and "m' = put_run (rs\<lparr>rs_cancelled := True\<rparr>) (sys_m s)"
    by (auto simp: Cancel_def split: option.splits if_splits)
  then show ?case
  proof cases
    case 2
    have i: "rs_id rs = i" using lookup_run_id [OF 2(1)] by simp
    have "run_sync st (rs\<lparr>rs_cancelled := True\<rparr>) = run_sync st rs" for st by (simp add: run_sync_def)
    then show ?thesis using cancel(3) 2 i by (auto simp: durable_def)
  qed (use cancel(3) in simp)
next
  case (get i s m' r)
  show ?case
  proof (cases "lookup_run (sys_m s) i")
    case None
    have "get_store (m_store (sys_m s)) i = None"
    proof (cases "m_store (sys_m s)")
      case (Some st)
      then show ?thesis
        using durable_store(4) [OF get(3) Some None] by (simp add: get_store_def lookup_row_None)
    qed (simp add: get_store_def)
    with None get show ?thesis by (simp add: Get_def)
  qed (use get in \<open>simp add: Get_def\<close>)
next
  case (subscribe i n s m' r)
  have "durable (fst (SubscribeEvents i n (sys_m s)))"
    using subscribe(3) by (simp add: SubscribeEvents_def Let_def)
  with subscribe(1) show ?case by simp
qed (simp_all add: cancelSubscription_def)

section \<open>Reopening the store\<close>

lemma last_seq_rows: "rows_ok evs \<Longrightarrow> max_col rer_seq (run_rows evs i) = int (length (run_rows evs i))"
  by (intro max_col_upto) (simp add: rows_ok_def)

lemma lastSeq_store_rows:
  "rows_ok (st_events st) \<Longrightarrow> lastSeq_store (Some st) i = int (length (run_rows (st_events st) i))"
  using last_seq_rows by (simp add: lastSeq_store_def run_rows_def)

lemma record_interrupted_rows:
  assumes "distinct is" and "rows_ok evs"
  shows "rows_ok (record_interrupted now is evs) \<and>
    (\<forall>j. run_rows (record_interrupted now is evs) j = run_rows evs j @
      (if j \<in> set is then [interrupted_event now j (int (length (run_rows evs j)) + 1)] else []))"
  using assms
proof (induction "is" arbitrary: evs)
  case (Cons i "is")
  let ?q = "int (length (run_rows evs i)) + 1"
  let ?evs = "evs @ [interrupted_event now i ?q]"
  have seq: "max_col rer_seq (filter (\<lambda>r. rer_run_id r = i) evs) + 1 = ?q"
    using last_seq_rows [OF Cons.prems(2), of i] by (simp add: run_rows_def)
  have fresh: "(i, ?q) \<notin> set (map (\<lambda>r. (rer_run_id r, rer_seq r)) evs)"
  proof
    assume "(i, ?q) \<in> set (map (\<lambda>r. (rer_run_id r, rer_seq r)) evs)"
    then obtain r where "r \<in> set evs" "rer_run_id r = i" "rer_seq r = ?q" by auto
    with rows_ok_fresh [OF Cons.prems(2) refl] show False by blast
  qed
  have eq: "record_interrupted now (i # is) evs = record_interrupted now is ?evs"
    using fresh by (simp add: seq Let_def)
  have ok: "rows_ok ?evs"
    by (rule rows_ok_append [OF Cons.prems(2)]) (simp add: interrupted_event_def)
  have rows: "run_rows ?evs j = run_rows evs j @ (if j = i then [interrupted_event now i ?q] else [])" for j
    by (simp add: run_rows_def interrupted_event_def)
  show ?case
    unfolding eq using Cons.IH [OF _ ok] Cons.prems(1) by (auto simp: rows)
qed simp

lemma openRunStore_events:
  assumes "store_inv st"
  shows "store_inv (openRunStore now st)"
    and "run_rows (st_events (openRunStore now st)) i = run_rows (st_events st) i @
      (if \<exists>row \<in> set (st_runs st). arr_id row = i \<and> arr_status row \<in> set [RunQueued, RunRunning]
       then [interrupted_event now i (int (length (run_rows (st_events st) i)) + 1)] else [])"
proof -
  let ?stale = "map arr_id (filter (\<lambda>r. arr_status r \<in> set [RunQueued, RunRunning]) (st_runs st))"
  have evs: "st_events (openRunStore now st) = record_interrupted now ?stale (st_events st)"
    by (simp add: openRunStore_def recordInterruptedRunEvents_def Let_def)
  have dist: "distinct ?stale" and ok: "rows_ok (st_events st)"
    using assms by (simp_all add: store_inv_def distinct_map_filter)
  have ids: "map arr_id (st_runs (openRunStore now st)) = map arr_id (st_runs st)"
    by (simp add: openRunStore_def recordInterruptedRunEvents_def Let_def)
  note facts = record_interrupted_rows [OF dist ok, of now]
  show "store_inv (openRunStore now st)"
    using assms facts unfolding store_inv_def ids evs by blast
  have "i \<in> set ?stale \<longleftrightarrow>
      (\<exists>row \<in> set (st_runs st). arr_id row = i \<and> arr_status row \<in> set [RunQueued, RunRunning])"
    by auto
  then show "run_rows (st_events (openRunStore now st)) i = run_rows (st_events st) i @
      (if \<exists>row \<in> set (st_runs st). arr_id row = i \<and> arr_status row \<in> set [RunQueued, RunRunning]
       then [interrupted_event now i (int (length (run_rows (st_events st) i)) + 1)] else [])"
    using facts unfolding evs by simp
qed

lemma lookup_load_runs:
  assumes "distinct (map AR_ID snaps)"
  shows "lookup_row rs_id (load_runs cap st snaps runs) i =
    (case lookup_row AR_ID snaps i of
       Some snap \<Rightarrow> Some (loadedRunState (snap\<lparr>AR_LastSeq := lastSeq_store (Some st) i\<rparr>) cap
         (lastSeq_store (Some st) i))
     | None \<Rightarrow> lookup_row rs_id runs i)"
  using assms unfolding load_runs_def
proof (induction snaps arbitrary: runs)
  case (Cons snap snaps)
  let ?rs = "loadedRunState (snap\<lparr>AR_LastSeq := lastSeq_store (Some st) (AR_ID snap)\<rparr>) cap
    (lastSeq_store (Some st) (AR_ID snap))"
  have id: "rs_id ?rs = AR_ID snap" by (simp add: loadedRunState_def)
  have up: "lookup_row rs_id (upsert_row rs_id (\<lambda>old new. new) ?rs runs) i =
      (if i = AR_ID snap then Some ?rs else lookup_row rs_id runs i)"
    by (simp only: runs_table.lookup_upsert id) (simp add: merged_row_def split: option.split)
  show ?case
  proof (cases "i = AR_ID snap")
    case True
    then have "lookup_row AR_ID snaps i = None" using Cons.prems by (simp add: lookup_row_None)
    moreover have "lookup_row rs_id (upsert_row rs_id (\<lambda>old new. new) ?rs runs) (AR_ID snap) = Some ?rs"
      using up True by simp
    ultimately show ?thesis using True Cons by simp
  next
    case False
    with Cons show ?thesis by (simp add: up split: option.split)
  qed
qed simp

lemma set_insert_by [simp]: "mset (insert_by P a xs) = add_mset a (mset xs)"
  by (induction xs) auto

lemma mset_insert_all: "mset (foldr (insert_by P) xs []) = mset xs"
  by (induction xs) auto

lemma lookup_row_mset:
  assumes "distinct (map key xs)" and "mset ys = mset xs"
  shows "lookup_row key ys k = lookup_row key xs k"
proof (cases "lookup_row key xs k")
  case None
  moreover have "set ys = set xs" using assms(2) by (rule mset_eq_setD)
  ultimately have "lookup_row key ys k = None" by (simp add: lookup_row_None)
  with None show ?thesis by simp
next
  case (Some r)
  then have r: "r \<in> set ys" "key r = k"
    using lookup_row_Some [OF Some] mset_eq_setD [OF assms(2)] by auto
  have "mset (map key ys) = mset (map key xs)" using assms(2) by simp
  then have "distinct (map key ys)" using assms(1) by (metis mset_eq_imp_distinct_iff)
  with r Some show ?thesis using lookup_row_unique [of key ys r] by simp
qed

lemma lookup_row_scan: "lookup_row AR_ID (map scanRun_store rows) i = map_option scanRun_store (lookup_row arr_id rows i)"
  by (induction rows) (simp_all add: scanRun_store_def)

lemma lookup_NewRunManager:
  assumes "store_inv st"
  shows "lookup_run (NewRunManager now n cap (Some st)) i =
    (case lookup_row arr_id (st_runs (openRunStore now st)) i of
       None \<Rightarrow> None
     | Some row \<Rightarrow> Some (loadedRunState ((scanRun_store row)\<lparr>AR_LastSeq :=
           lastSeq_store (Some (openRunStore now st)) i\<rparr>) cap (lastSeq_store (Some (openRunStore now st)) i)))"
proof -
  let ?st = "openRunStore now st"
  let ?rows = "foldr (insert_by newer_row) (st_runs ?st) []"
  have dist: "distinct (map arr_id (st_runs ?st))"
    using openRunStore_events(1) [OF assms] by (simp add: store_inv_def)
  have "mset (map arr_id ?rows) = mset (map arr_id (st_runs ?st))" by (simp add: mset_insert_all)
  then have "distinct (map arr_id ?rows)" using dist by (metis mset_eq_imp_distinct_iff)
  moreover have "map AR_ID (all_store ?st) = map arr_id ?rows"
    by (simp add: all_store_def scanRun_store_def comp_def)
  ultimately have "distinct (map AR_ID (all_store ?st))" by simp
  moreover have "lookup_row AR_ID (all_store ?st) i = map_option scanRun_store (lookup_row arr_id (st_runs ?st) i)"
    unfolding all_store_def lookup_row_scan by (simp add: lookup_row_mset [OF dist mset_insert_all])
  ultimately show ?thesis
    by (simp add: lookup_run_def NewRunManager_def Let_def lookup_load_runs split: option.split)
qed

section \<open>Every reachable state\<close>

lemma openRunStore_row:
  assumes "lookup_row arr_id (st_runs st) i = Some row"
  shows "lookup_row arr_id (st_runs (openRunStore now st)) i =
    Some (if arr_status row \<in> set [RunQueued, RunRunning] then row\<lparr>arr_status := RunInterrupted\<rparr> else row)"
proof -
  let ?f = "\<lambda>r. if arr_status r \<in> set [RunQueued, RunRunning] then r\<lparr>arr_status := RunInterrupted\<rparr> else r"
  have "st_runs (openRunStore now st) = map ?f (st_runs st)"
    by (simp add: openRunStore_def recordInterruptedRunEvents_def Let_def)
  moreover have "lookup_row arr_id (map ?f (st_runs st)) i = map_option ?f (lookup_row arr_id (st_runs st) i)"
    by (rule lookup_row_map) simp
  ultimately show ?thesis using assms by simp
qed

lemma openRunStore_none:
  "lookup_row arr_id (st_runs (openRunStore now st)) i = None \<longleftrightarrow> i \<notin> arr_id ` set (st_runs st)"
proof -
  have "map arr_id (st_runs (openRunStore now st)) = map arr_id (st_runs st)"
    by (simp add: openRunStore_def recordInterruptedRunEvents_def Let_def)
  then have "arr_id ` set (st_runs (openRunStore now st)) = arr_id ` set (st_runs st)"
    by (metis list.set_map)
  then show ?thesis by (simp add: lookup_row_None)
qed

lemma store_row:
  assumes "store_inv st" and "run_sync st rs"
  obtains row where "lookup_row arr_id (st_runs st) (rs_id rs) = Some row" and "arr_status row = rs_status rs"
    and "row \<in> set (st_runs st)"
proof -
  obtain row where row: "row \<in> set (st_runs st)" "arr_id row = rs_id rs" "arr_status row = rs_status rs"
    using assms(2) by (auto simp: run_sync_def)
  moreover have "lookup_row arr_id (st_runs st) (arr_id row) = Some row"
    using assms(1) row(1) by (intro lookup_row_unique) (simp add: store_inv_def)
  ultimately show thesis by (intro that) simp_all
qed

lemma stale_row_iff:
  assumes "store_inv st" and "row \<in> set (st_runs st)" and "arr_id row = i"
  shows "(\<exists>r \<in> set (st_runs st). arr_id r = i \<and> P (arr_status r)) \<longleftrightarrow> P (arr_status row)"
proof -
  have "r = row" if "r \<in> set (st_runs st)" "arr_id r = i" for r
    using that assms by (metis distinct_map inj_onD store_inv_def)
  with assms(2,3) show ?thesis by blast
qed

text \<open>What a process that opens a store finds of a stored run.\<close>

lemma reopen_lookup:
  assumes inv: "store_inv st" and row: "lookup_row arr_id (st_runs st) i = Some row"
    and known: "arr_status row \<in> set RunStatuses"
  obtains rs' where "lookup_run (NewRunManager now n cap (Some st)) i = Some rs'" and "rs_id rs' = i"
    and "rs_status rs' = (if terminalRunStatus (arr_status row) then arr_status row else RunInterrupted)"
    and "rs_eventSeq rs' = int (length (run_rows (st_events (openRunStore now st)) i))"
    and "run_rows (st_events (openRunStore now st)) i = run_rows (st_events st) i @
      (if terminalRunStatus (arr_status row) then []
       else [interrupted_event now i (int (length (run_rows (st_events st) i)) + 1)])"
    and "\<exists>r \<in> set (st_runs (openRunStore now st)). arr_id r = i \<and> arr_status r = rs_status rs'"
proof -
  let ?st = "openRunStore now st"
  have tm: "arr_status row \<in> set [RunQueued, RunRunning] \<longleftrightarrow> \<not> terminalRunStatus (arr_status row)"
    using known by (auto simp: RunStatuses_def terminalRunStatus_def)
  have mem: "row \<in> set (st_runs st)" "arr_id row = i" using lookup_row_Some [OF row] by simp_all
  obtain row' where row': "lookup_row arr_id (st_runs ?st) i = Some row'" and r': "arr_id row' = i"
    "arr_status row' = (if terminalRunStatus (arr_status row) then arr_status row else RunInterrupted)"
    using openRunStore_row [OF row, of now] tm mem(2) by (cases "terminalRunStatus (arr_status row)") auto
  have rows: "run_rows (st_events ?st) i = run_rows (st_events st) i @
      (if terminalRunStatus (arr_status row) then []
       else [interrupted_event now i (int (length (run_rows (st_events st) i)) + 1)])"
    using openRunStore_events(2) [OF inv, of now i] tm
      stale_row_iff [OF inv mem, of "\<lambda>s. s \<in> set [RunQueued, RunRunning]"] by simp
  have seq: "lastSeq_store (Some ?st) i = int (length (run_rows (st_events ?st) i))"
    using lastSeq_store_rows [of ?st i] openRunStore_events(1) [OF inv, of now] by (simp add: store_inv_def)
  define rs' where "rs' = loadedRunState ((scanRun_store row')\<lparr>AR_LastSeq := lastSeq_store (Some ?st) i\<rparr>) cap
    (lastSeq_store (Some ?st) i)"
  have new: "lookup_run (NewRunManager now n cap (Some st)) i = Some rs'"
    by (simp add: lookup_NewRunManager [OF inv] row' rs'_def)
  have st': "rs_status rs' = arr_status row'" "rs_eventSeq rs' = lastSeq_store (Some ?st) i" "rs_id rs' = i"
    using r' by (auto simp: rs'_def loadedRunState_def scanRun_store_def)
  have "row' \<in> set (st_runs ?st)" using lookup_row_Some [OF row'] by simp
  with r' st'(1) have "\<exists>r \<in> set (st_runs ?st). arr_id r = i \<and> arr_status r = rs_status rs'" by auto
  moreover have "rs_eventSeq rs' = int (length (run_rows (st_events ?st) i))" using st'(2) seq by simp
  ultimately show thesis
    using st'(1) r'(2) by (intro that [OF new st'(3) _ _ rows]) simp_all
qed

text \<open>What a new process finds of a run of the old one.\<close>

lemma restart_lookup:
  assumes "durable m" and "runs_wf m" and st: "m_store m = Some st" and look: "lookup_run m i = Some rs"
  obtains rs' where "lookup_run (NewRunManager now n cap (Some st)) i = Some rs'"
    and "rs_status rs' = (if terminalRunStatus (rs_status rs) then rs_status rs else RunInterrupted)"
    and "rs_eventSeq rs' = rs_eventSeq rs + (if terminalRunStatus (rs_status rs) then 0 else 1)"
    and "run_rows (st_events (openRunStore now st)) i = run_rows (st_events st) i @
      (if terminalRunStatus (rs_status rs) then [] else [interrupted_event now i (rs_eventSeq rs + 1)])"
    and "run_sync (openRunStore now st) rs'"
proof -
  have inv: "store_inv st" and sync: "run_sync st rs" and i: "rs_id rs = i"
    using durable_store [OF assms(1) st] look lookup_run_id by auto
  obtain row where row: "lookup_row arr_id (st_runs st) i = Some row" "arr_status row = rs_status rs"
    using store_row [OF inv sync] i by metis
  have "rs_status rs \<in> set RunStatuses"
    using runs_wf_lookup [OF assms(2) look] by (simp add: rs_ok_def)
  then have known: "arr_status row \<in> set RunStatuses" by (simp add: row(2))
  have len: "rs_eventSeq rs = int (length (run_rows (st_events st) i))"
    using sync i by (simp add: run_sync_def)
  obtain rs' where "lookup_run (NewRunManager now n cap (Some st)) i = Some rs'" and "rs_id rs' = i"
    and "rs_status rs' = (if terminalRunStatus (arr_status row) then arr_status row else RunInterrupted)"
    and "rs_eventSeq rs' = int (length (run_rows (st_events (openRunStore now st)) i))"
    and "run_rows (st_events (openRunStore now st)) i = run_rows (st_events st) i @
      (if terminalRunStatus (arr_status row) then []
       else [interrupted_event now i (int (length (run_rows (st_events st) i)) + 1)])"
    and "\<exists>r \<in> set (st_runs (openRunStore now st)). arr_id r = i \<and> arr_status r = rs_status rs'"
    by (rule reopen_lookup [OF inv row(1) known])
  then show thesis using len row(2) by (intro that [of rs']) (simp_all add: run_sync_def)
qed

lemma restart_durable:
  assumes "durable m" and "runs_wf m"
  shows "durable (NewRunManager now n cap (m_store m))"
proof (cases "m_store m")
  case None
  then show ?thesis by (simp add: durable_None NewRunManager_def Let_def)
next
  case (Some st)
  let ?st = "openRunStore now st" and ?m = "NewRunManager now n cap (Some st)"
  note inv = durable_store(1) [OF assms(1) Some]
  have store: "m_store ?m = Some ?st" by (simp add: NewRunManager_def Let_def)
  have known: "lookup_run m i \<noteq> None" if "i \<in> arr_id ` set (st_runs st)" for i
    using that durable_store(4) [OF assms(1) Some] by blast
  have some: "run_sync ?st rs'" if l: "lookup_run ?m i = Some rs'" for i rs'
  proof -
    have "i \<in> arr_id ` set (st_runs st)"
      using l openRunStore_none [of now st i] by (auto simp: lookup_NewRunManager [OF inv] split: option.splits)
    then obtain rs where rs: "lookup_run m i = Some rs" using known by blast
    obtain r where "lookup_run ?m i = Some r" "run_sync ?st r"
      by (rule restart_lookup [OF assms Some rs])
    with l show ?thesis by simp
  qed
  have none: "run_rows (st_events ?st) i = [] \<and> i \<notin> arr_id ` set (st_runs ?st)" if l: "lookup_run ?m i = None" for i
  proof -
    have row: "lookup_row arr_id (st_runs ?st) i = None"
      using l by (auto simp: lookup_NewRunManager [OF inv] split: option.splits)
    then have "i \<notin> arr_id ` set (st_runs st)" by (simp add: openRunStore_none)
    have "lookup_run m i = None"
    proof (rule ccontr)
      assume "lookup_run m i \<noteq> None"
      then obtain rs where "lookup_run m i = Some rs" by blast
      from restart_lookup [OF assms Some this] l show False by (metis option.distinct(1))
    qed
    then have "run_rows (st_events st) i = []" by (rule durable_store(3) [OF assms(1) Some])
    with \<open>i \<notin> arr_id ` set (st_runs st)\<close> openRunStore_events(2) [OF inv, of now i] row
    show ?thesis by (auto simp: lookup_row_None)
  qed
  show ?thesis
    using store some none openRunStore_events(1) [OF inv, of now] by (simp add: durable_def Some)
qed

lemma boot_durable:
  assumes "file \<in> {None, Some \<lparr>st_runs = [], st_events = []\<rparr>}"
  shows "durable (NewRunManager now n cap file)"
  using assms
  by (auto simp: durable_def NewRunManager_def Let_def lookup_run_def openRunStore_def
      recordInterruptedRunEvents_def all_store_def load_runs_def store_inv_def rows_ok_def run_rows_def)

lemma run_reach_durable: "run_reach True s \<Longrightarrow> durable (sys_m s)"
proof (induction rule: run_reach.induct)
  case (boot n cap f now)
  then show ?case using boot_durable by simp
next
  case (step s s')
  then show ?case using run_step_durable run_reach_wf by blast
next
  case (restart s n cap now)
  then show ?case
    using restart_durable [of "sys_m s"] run_reach_wf [of True s] by (simp add: sys_wf_def)
qed

end
