(* ===== verification/RunProperties.thy ===== *)
theory RunProperties
  imports RunDurability
begin

text \<open>
  The properties of the run manager, over every interleaving of callers and goroutines and, for the
  durable journal, over every crash and restart.
\<close>

section \<open>A sample execution\<close>

definition sample_io :: run_io where
  "sample_io = \<lparr>io_now = 1000000000, io_event_now = 1000000000, io_append_ok = True, io_upsert_ok = True\<rparr>"

definition sample_m0 :: RunManager where
  "sample_m0 = NewRunManager 0 2 3 (Some \<lparr>st_runs = [], st_events = []\<rparr>)"

definition sample_m1 :: RunManager where
  "sample_m1 = fst (Start [] (\<lambda>s. None) True sample_io ''run_a'' sample_spec sample_m0)"

definition sample_rs :: runState where
  "sample_rs = the (lookup_run sample_m1 ''run_a'')"

definition sample_sys :: run_sys where
  "sample_sys = \<lparr>sys_m = sample_m1, sys_go = [(''run_a'', PcSelect)]\<rparr>"

lemma sample_boot: "run_reach rel \<lparr>sys_m = sample_m0, sys_go = []\<rparr>"
  unfolding sample_m0_def by (rule run_reach.boot) simp_all

lemma reach_start:
  assumes "run_reach rel s" and "\<not> isl (snd (Start profiles preflight ctx_ok io i spec (sys_m s)))"
    and "lookup_run (sys_m s) i = None" and "io_ok rel io"
  shows "run_reach rel \<lparr>sys_m = fst (Start profiles preflight ctx_ok io i spec (sys_m s)),
    sys_go = sys_go s @ [(i, PcSelect)]\<rparr>"
proof -
  have "Start profiles preflight ctx_ok io i spec (sys_m s) =
      (fst (Start profiles preflight ctx_ok io i spec (sys_m s)),
       Inr (projr (snd (Start profiles preflight ctx_ok io i spec (sys_m s)))))"
    using assms(2) by (simp add: prod_eq_iff)
  from run_step.start [OF this assms(3,4)] assms(1) show ?thesis by (blast intro: run_reach.step)
qed

lemma sample_reach: "run_reach rel sample_sys"
proof -
  have "\<not> isl (snd (Start [] (\<lambda>s. None) True sample_io ''run_a'' sample_spec sample_m0))"
    "lookup_run sample_m0 ''run_a'' = None" by code_simp+
  with reach_start [OF sample_boot, of "[]" "\<lambda>s. None" True sample_io "''run_a''" sample_spec rel]
  show ?thesis by (simp add: sample_sys_def sample_m1_def io_ok_def sample_io_def)
qed

lemma sample_lookup: "lookup_run sample_m1 ''run_a'' = Some sample_rs" "rs_status sample_rs = RunQueued"
  "m_eventCapacity sample_m1 = 3"
  by code_simp+

section \<open>Life cycle\<close>

text \<open>
  (C9) Whatever the interleaving, never more runs are running than the manager's concurrency limit;
  the permits taken are exactly those of the goroutines between acquiring and releasing one.
\<close>

theorem run_concurrency_bound:
  assumes "run_reach rel s"
  shows "length (filter (\<lambda>rs. rs_status rs = RunRunning) (m_runs (sys_m s))) \<le> m_maxConcurrent (sys_m s) \<and>
    m_slots (sys_m s) = length (filter holds_slot (sys_go s))"
  using running_le_slots [OF run_reach_wf [OF assms]] run_reach_wf [OF assms]
  by (simp add: sys_wf_def go_wf_def)

theorem run_concurrency_bound_witness:
  "run_reach False sample_sys \<and> m_slots (sys_m sample_sys) = length (filter holds_slot (sys_go sample_sys))"
  using run_concurrency_bound [OF sample_reach] sample_reach by blast

text \<open>
  (C10) A run follows one path: no step of the manager forgets a run; a step changes its status only
  along the state machine, and then its sequence number grows by exactly one; a step that keeps the
  status keeps the sequence number or adds one to it, so the number never decreases and never skips
  one; and once the run is terminal its snapshot (status, times, output, error, event count, last
  sequence number) never changes again.
\<close>

theorem run_single_path:
  assumes "run_reach rel s" and "run_step rel s s'" and "lookup_run (sys_m s) i = Some rs"
  shows "\<exists>rs'. lookup_run (sys_m s') i = Some rs' \<and>
    (rs_status rs' = rs_status rs \<or> canTransition_mgr (rs_status rs) (rs_status rs')) \<and>
    (rs_eventSeq rs' = rs_eventSeq rs + 1 \<or>
      rs_eventSeq rs' = rs_eventSeq rs \<and> rs_status rs' = rs_status rs) \<and>
    (terminalRunStatus (rs_status rs) \<longrightarrow> snapshotLocked rs' = snapshotLocked rs)"
  using run_step_evolves [OF assms(2) run_reach_wf [OF assms(1)]] assms(3)
  unfolding evolves_def run_evolves_def by blast

lemma sample_record: "run_step True sample_sys
  (sample_sys\<lparr>sys_m := recordEvent sample_io ''l1'' sample_rs sample_m1\<rparr>)"
  using run_step.record_line [of sample_sys "''run_a''" sample_rs True sample_io "''l1''"] sample_lookup
  by (simp add: sample_sys_def io_ok_def sample_io_def)

theorem run_single_path_witness:
  "\<exists>rs'. lookup_run (recordEvent sample_io ''l1'' sample_rs sample_m1) ''run_a'' = Some rs' \<and>
    (rs_status rs' = RunQueued \<or> canTransition_mgr RunQueued (rs_status rs')) \<and>
    rs_eventSeq rs' \<ge> rs_eventSeq sample_rs"
proof -
  have "lookup_run (sys_m sample_sys) ''run_a'' = Some sample_rs"
    using sample_lookup by (simp add: sample_sys_def)
  from run_single_path [OF sample_reach sample_record this] show ?thesis
    by (auto simp: sample_lookup)
qed

text \<open>
  Waiting for a run returns exactly when the run is terminal, with its final snapshot: the done
  channel is closed by the terminal transition and never twice, so no run can panic the manager.
\<close>

theorem run_wait_terminal:
  assumes "run_reach rel s" and "lookup_run (sys_m s) i = Some rs"
  shows "Wait i (sys_m s) =
      (if terminalRunStatus (rs_status rs) then Some (Inr (snapshotLocked rs)) else None) \<and>
    rs_done rs \<le> 1"
  using assms run_reach_wf [OF assms(1)] runs_wf_lookup [of "sys_m s" i rs]
  by (simp add: Wait_def rs_ok_def sys_wf_def)

theorem run_wait_terminal_witness: "Wait ''run_a'' (sys_m sample_sys) = None \<and> rs_done sample_rs \<le> 1"
proof -
  have "lookup_run (sys_m sample_sys) ''run_a'' = Some sample_rs"
    using sample_lookup by (simp add: sample_sys_def)
  from run_wait_terminal [OF sample_reach this] show ?thesis by (simp add: sample_lookup)
qed

text \<open>
  (C11) No run is stuck: from any reachable state the goroutines alone can run until every run is
  terminal and every permit is released, and however they are scheduled they take at most five steps
  per run. This is what \<open>Close\<close> waits for, after it has stopped new runs and cancelled the root
  context.
\<close>

theorem runs_drain:
  assumes "run_reach rel s"
  shows "(\<exists>s'. (go_step rel)\<^sup>*\<^sup>* s s' \<and> m_slots (sys_m s') = 0 \<and>
      (\<forall>i rs. lookup_run (sys_m s') i = Some rs \<longrightarrow> terminalRunStatus (rs_status rs))) \<and>
    (\<forall>n s'. (go_step rel ^^ n) s s' \<longrightarrow> n \<le> 5 * length (sys_go s))"
proof
  have wf: "sys_wf s" by (rule run_reach_wf [OF assms])
  obtain s' where s': "(go_step rel)\<^sup>*\<^sup>* s s'" "sys_wf s'" "\<forall>g \<in> set (sys_go s'). snd g = PcExit"
    using go_drain [OF wf] by blast
  then show "\<exists>s'. (go_step rel)\<^sup>*\<^sup>* s s' \<and> m_slots (sys_m s') = 0 \<and>
      (\<forall>i rs. lookup_run (sys_m s') i = Some rs \<longrightarrow> terminalRunStatus (rs_status rs))"
    using drained [OF s'(2,3)] by blast
  show "\<forall>n s'. (go_step rel ^^ n) s s' \<longrightarrow> n \<le> 5 * length (sys_go s)"
    using go_steps_bound [OF _ wf] sys_rank_le [of s] by fastforce
qed

theorem runs_drain_witness:
  "\<exists>s'. (go_step True)\<^sup>*\<^sup>* sample_sys s' \<and> m_slots (sys_m s') = 0 \<and>
     (\<forall>i rs. lookup_run (sys_m s') i = Some rs \<longrightarrow> terminalRunStatus (rs_status rs))"
  using runs_drain [OF sample_reach] by blast

section \<open>Events\<close>

text \<open>
  The event ring of a run is its recent output: recording a line appends it to what \<open>Events\<close>
  returns and, when the ring is full, drops the oldest; asking for \<open>n\<close> events returns the last \<open>n\<close>.
\<close>

theorem record_event_ring:
  assumes "run_reach rel s" and "lookup_run (sys_m s) i = Some rs"
    and "\<not> terminalRunStatus (rs_status rs)"
  shows "Events i 0 (recordEvent io line rs (sys_m s)) =
      last_n (m_eventCapacity (sys_m s)) (Events i 0 (sys_m s) @ [line]) \<and>
    (n > 0 \<longrightarrow> Events i n (sys_m s) = last_n (nat n) (Events i 0 (sys_m s)))"
proof
  have wf: "runs_wf (sys_m s)" using run_reach_wf [OF assms(1)] by (simp add: sys_wf_def)
  then have ok: "rs_ok (m_eventCapacity (sys_m s)) rs" "0 < m_eventCapacity (sys_m s)"
    using runs_wf_lookup assms(2) by (auto simp: runs_wf_def)
  obtain rs' m' where eq: "recordEvent io line rs (sys_m s) = put_run rs' m'" and i: "rs_id rs' = rs_id rs"
    and ring: "ring_contents (rs_events rs') (rs_eventTotal rs') (rs_eventKept rs') =
      last_n (m_eventCapacity (sys_m s))
        (ring_contents (rs_events rs) (rs_eventTotal rs) (rs_eventKept rs) @ [line])"
    by (rule recordEvent_effect [OF ok assms(3)])
  show "Events i 0 (recordEvent io line rs (sys_m s)) =
      last_n (m_eventCapacity (sys_m s)) (Events i 0 (sys_m s) @ [line])"
    using lookup_run_id [OF assms(2)] assms(2) i ring by (simp add: Events_def eq)
  have le: "rs_eventKept rs \<le> rs_eventTotal rs"
    using ok(1) assms(3) by (auto simp: rs_ok_def ring_ok_def)
  let ?all = "ring_contents (rs_events rs) (rs_eventTotal rs) (rs_eventKept rs)"
  have len: "length ?all = rs_eventKept rs" by (rule length_ring_contents [OF le])
  show "n > 0 \<longrightarrow> Events i n (sys_m s) = last_n (nat n) (Events i 0 (sys_m s))"
  proof
    assume "n > 0"
    show "Events i n (sys_m s) = last_n (nat n) (Events i 0 (sys_m s))"
    proof (cases "n < int (rs_eventKept rs)")
      case True
      then have "ring_contents (rs_events rs) (rs_eventTotal rs) (nat n) = last_n (nat n) ?all"
        by (intro ring_newest [OF _ le]) simp
      with True \<open>n > 0\<close> show ?thesis by (simp add: Events_def assms(2))
    next
      case False
      then have "last_n (nat n) ?all = ?all" using len by (simp add: last_n_def)
      with False show ?thesis by (simp add: Events_def assms(2))
    qed
  qed
qed

theorem record_event_ring_witness:
  "Events ''run_a'' 0 (recordEvent sample_io ''l1'' sample_rs sample_m1) = [''l1'']"
proof -
  have "lookup_run (sys_m sample_sys) ''run_a'' = Some sample_rs" "\<not> terminalRunStatus (rs_status sample_rs)"
    using sample_lookup by (simp_all add: sample_sys_def)
  from record_event_ring [OF sample_reach this, of sample_io "''l1''" 1]
  have "Events ''run_a'' 0 (recordEvent sample_io ''l1'' sample_rs sample_m1) =
      last_n 3 (Events ''run_a'' 0 sample_m1 @ [''l1''])"
    by (simp add: sample_sys_def sample_lookup)
  moreover have "Events ''run_a'' 0 sample_m1 = []" by code_simp
  ultimately show ?thesis by (simp add: last_n_def)
qed

lemma ring_after_take:
  "ring_after evs a n = take (max n 1) (filter (\<lambda>e. RE_Seq e > a) evs)"
proof (induction evs a n rule: ring_after.induct)
  case (2 ev evs a n)
  have "max n 1 = Suc (max (n - 1) 1)" if "\<not> n \<le> 1" using that by auto
  then show ?case using 2 by (auto simp: max_def take_Cons' split: if_splits)
qed simp

lemma filter_upto_gt: "filter (\<lambda>x. x > a) [p..q] = [max p (a + 1)..q]" for a :: int
proof (induction "nat (q - p + 1)" arbitrary: p)
  case (Suc n)
  then have "p \<le> q" by simp
  moreover have "filter (\<lambda>x. x > a) [p + 1..q] = [max (p + 1) (a + 1)..q]"
    using Suc by simp
  ultimately show ?case
  proof (cases "a < p")
    case True
    then have "max (p + 1) (a + 1) = p + 1" "max p (a + 1) = p" by auto
    with True \<open>p \<le> q\<close> \<open>filter (\<lambda>x. x > a) [p + 1..q] = _\<close> show ?thesis by (simp add: upto_rec1)
  next
    case False
    then have "max (p + 1) (a + 1) = a + 1" "max p (a + 1) = a + 1" by auto
    with False \<open>p \<le> q\<close> \<open>filter (\<lambda>x. x > a) [p + 1..q] = _\<close> show ?thesis by (simp add: upto_rec1 [of p])
  qed
qed simp

text \<open>
  Without a store, the events a caller reads after a cursor are the retained part of the run's
  journal: consecutive sequence numbers up to the last one, starting at the cursor or at the oldest
  event still in the ring, at most as many as asked for.
\<close>

theorem memory_events_page:
  assumes "run_reach rel s" and "lookup_run (sys_m s) i = Some rs" and "m_store (sys_m s) = None"
    and "0 < n"
  shows "map RE_Seq (EventsAfter_run ok i a n (sys_m s)) =
    (let start = max (a + 1) (rs_eventSeq rs - int (rs_journalKept rs) + 1)
     in [start..min (rs_eventSeq rs) (start + n - 1)])"
proof -
  have "ring_ok (m_eventCapacity (sys_m s)) rs"
    using run_reach_wf [OF assms(1)] runs_wf_lookup assms(2) by (auto simp: sys_wf_def rs_ok_def)
  then have seqs: "map RE_Seq (ring_events rs) = [rs_eventSeq rs - int (rs_journalKept rs) + 1..rs_eventSeq rs]"
    by (simp add: ring_ok_def)
  let ?start = "max (rs_eventSeq rs - int (rs_journalKept rs) + 1) (a + 1)"
  have "map RE_Seq (EventsAfter_run ok i a n (sys_m s)) =
      take (nat n) (filter (\<lambda>x. x > a) (map RE_Seq (ring_events rs)))"
  proof (cases "rs_journalKept rs = 0")
    case True
    then have "ring_events rs = []" by (simp add: ring_events_def)
    with True assms show ?thesis by (simp add: EventsAfter_run_def)
  next
    case False
    have "max (nat n) 1 = nat n" using assms(4) by simp
    with False assms show ?thesis
      by (simp add: EventsAfter_run_def ring_after_take take_map filter_map comp_def)
  qed
  also have "\<dots> = [?start..min (rs_eventSeq rs) (?start + n - 1)]"
    using assms(4) by (simp add: seqs filter_upto_gt take_upto)
  finally show ?thesis by (simp add: Let_def max.commute)
qed

definition sample_mem :: RunManager where
  "sample_mem = fst (Start [] (\<lambda>s. None) True sample_io ''run_a'' sample_spec (NewRunManager 0 2 3 None))"

theorem memory_events_page_witness:
  "map RE_Seq (EventsAfter_run True ''run_a'' 0 5 sample_mem) = [1]"
proof -
  define m0 where "m0 = NewRunManager 0 2 3 None"
  have boot: "run_reach True \<lparr>sys_m = m0, sys_go = []\<rparr>"
    unfolding m0_def by (rule run_reach.boot) simp_all
  have "\<not> isl (snd (Start [] (\<lambda>s. None) True sample_io ''run_a'' sample_spec m0))"
    "lookup_run m0 ''run_a'' = None" unfolding m0_def by code_simp+
  with reach_start [OF boot, of "[]" "\<lambda>s. None" True sample_io "''run_a''" sample_spec]
  have reach: "run_reach True \<lparr>sys_m = sample_mem, sys_go = [(''run_a'', PcSelect)]\<rparr>"
    by (simp add: sample_mem_def m0_def io_ok_def sample_io_def)
  have look: "lookup_run sample_mem ''run_a'' = Some (the (lookup_run sample_mem ''run_a''))"
    "m_store sample_mem = None" "rs_eventSeq (the (lookup_run sample_mem ''run_a'')) = 1"
    "rs_journalKept (the (lookup_run sample_mem ''run_a'')) = 1"
    by code_simp+
  from memory_events_page [OF reach, of "''run_a''" _ 5 True 0] look show ?thesis by simp
qed

section \<open>The durable journal\<close>

lemma eventsAfter_store_seqs:
  assumes "rows_ok (st_events st)" and "0 \<le> a"
  shows "map RE_Seq (eventsAfter_store st i a n) =
    [a + 1..min (lastSeq_store (Some st) i) (a + storePageLimit n)]"
proof -
  let ?rows = "filter (\<lambda>r. rer_seq r > a) (run_rows (st_events st) i)"
  have page: "filter (\<lambda>r. rer_run_id r = i \<and> rer_seq r > a) (st_events st) = ?rows"
    by (simp add: run_rows_def conj_commute)
  have "map rer_seq ?rows = filter (\<lambda>x. x > a) (map rer_seq (run_rows (st_events st) i))"
    by (simp add: filter_map comp_def)
  also have "\<dots> = [a + 1..lastSeq_store (Some st) i]"
    using assms by (simp add: rows_ok_def filter_upto lastSeq_store_rows)
  finally have seqs: "map rer_seq ?rows = [a + 1..lastSeq_store (Some st) i]" .
  then have "sort_key rer_seq ?rows = ?rows"
    by (intro sort_key_id_if_sorted) simp
  then have "map RE_Seq (eventsAfter_store st i a n) = take (nat (storePageLimit n)) (map rer_seq ?rows)"
    by (simp add: eventsAfter_store_def page take_map comp_def scan_run_event_def)
  also have "\<dots> = [a + 1..min (lastSeq_store (Some st) i) (a + storePageLimit n)]"
    unfolding seqs take_upto by (simp add: storePageLimit_def)
  finally show ?thesis .
qed

interpretation run_journal:
  event_journal "\<lambda>st. rows_ok (st_events st)" eventsAfter_store "\<lambda>st. lastSeq_store (Some st)" RE_Seq
    storePageLimit
  by unfold_locales (simp_all add: eventsAfter_store_seqs, simp add: storePageLimit_def)

lemma reach_store:
  assumes "run_reach True s" and "m_store (sys_m s) = Some st"
  shows "rows_ok (st_events st)"
    and "lookup_run (sys_m s) i = Some rs \<Longrightarrow> lastSeq_store (Some st) i = rs_eventSeq rs"
proof -
  have d: "durable (sys_m s)" by (rule run_reach_durable [OF assms(1)])
  show ok: "rows_ok (st_events st)"
    using durable_store(1) [OF d assms(2)] by (simp add: store_inv_def)
  show "lookup_run (sys_m s) i = Some rs \<Longrightarrow> lastSeq_store (Some st) i = rs_eventSeq rs"
    using durable_store(2) [OF d assms(2)] lastSeq_store_rows [OF ok] lookup_run_id
    by (auto simp: run_sync_def)
qed

text \<open>
  With a store whose statements succeed, the journal of a run is complete: in every reachable
  state, across any number of restarts, a client that follows the run from a cursor reads every event
  after it exactly once, in order, up to the sequence number that the run's snapshot reports.
\<close>

theorem run_replay_complete:
  assumes "run_reach True s" and "m_store (sys_m s) = Some st" and "lookup_run (sys_m s) i = Some rs"
    and "0 \<le> a" and "0 < n" and "rs_eventSeq rs - a \<le> int k"
  shows "map RE_Seq (follow (\<lambda>c. EventsAfter_run True i c n (sys_m s)) RE_Seq k a) =
    [a + 1..AR_LastSeq (snapshotLocked rs)]"
proof -
  note facts = reach_store [OF assms(1,2)]
  have "EventsAfter_run True i c n (sys_m s) = eventsAfter_store st i c n" for c
    using assms(2,5) by (simp add: EventsAfter_run_def)
  moreover have "map RE_Seq (follow (\<lambda>c. eventsAfter_store st i c n) RE_Seq k a) =
      [a + 1..lastSeq_store (Some st) i]"
    using assms(4,6) facts(1) facts(2) [OF assms(3)] by (intro run_journal.follow_seqs) simp_all
  ultimately show ?thesis
    using facts(2) [OF assms(3)] by (simp add: snapshotLocked_def)
qed

theorem run_replay_complete_witness:
  "map RE_Seq (follow (\<lambda>c. EventsAfter_run True ''run_a'' c 1 sample_m1) RE_Seq 2 0) = [1]"
proof -
  have "m_store (sys_m sample_sys) = Some (the (m_store sample_m1))"
    unfolding sample_sys_def by code_simp
  moreover have "lookup_run (sys_m sample_sys) ''run_a'' = Some sample_rs"
    using sample_lookup by (simp add: sample_sys_def)
  moreover have seq: "rs_eventSeq sample_rs = 1" by code_simp
  ultimately have "map RE_Seq (follow (\<lambda>c. EventsAfter_run True ''run_a'' c 1 (sys_m sample_sys)) RE_Seq 2 0) =
      [0 + 1..AR_LastSeq (snapshotLocked sample_rs)]"
    by (intro run_replay_complete [OF sample_reach]) simp_all
  with seq show ?thesis by (simp add: sample_sys_def snapshotLocked_def)
qed

end
