(* ===== verification/RunBroker.thy ===== *)
theory RunBroker
  imports RunProperties
begin

text \<open>
  Run events between the client and the manager: the manager's broker
  (\<open>internal/manager/run_events.go\<close>), which tracks the contiguous head of every run a client reports,
  and the client's side of the reconnect handshake (\<open>cmd/client/runtime_events.go\<close>). The wire form of
  an event has the fields of \<open>RunEvent\<close>. The Go maps are a partial function (the runs) and an
  association list (the pending events, whose number is bounded).
\<close>

section \<open>The broker\<close>

abbreviation maxPendingRunEvents :: nat where "maxPendingRunEvents \<equiv> 512"
abbreviation maxRunSyncHeads :: nat where "maxRunSyncHeads \<equiv> 256"

type_synonym runEventKey = "string \<times> string \<times> string"

record runEventState =
  es_head :: int
  es_pending :: "(int \<times> RunEvent) list"
  es_last :: RunEvent

type_synonym RunEventBroker = "runEventKey \<Rightarrow> runEventState option"

record RunHead =
  Head_RunID :: string
  Head_LastSeq :: int
  Head_Status :: string

record RunReplayCursor =
  Cur_RunID :: string
  Cur_AfterSeq :: int
  Cur_ThroughSeq :: int

datatype broker_error =
    ErrAccountDevice
  | ErrRunIDRequired
  | ErrSeqPositive
  | ErrKindRequired
  | ErrGapTooLarge string int int
  | ErrTooManyHeads nat
  | ErrInvalidHead
  | ErrDuplicateHead string

definition NewRunEventBroker :: RunEventBroker where
  "NewRunEventBroker = (\<lambda>k. None)"

definition new_event_state :: runEventState where
  "new_event_state = \<lparr>es_head = 0, es_pending = [], es_last = empty_run_event\<rparr>"

text \<open>The loop that advances the head over pending events.\<close>

function advance :: "runEventState \<Rightarrow> runEventState" where
  "advance st =
     (case map_of (es_pending st) (es_head st + 1) of
        None \<Rightarrow> st
      | Some next \<Rightarrow>
          advance (st\<lparr>es_pending := filter (\<lambda>p. fst p \<noteq> es_head st + 1) (es_pending st),
            es_head := RE_Seq next, es_last := next\<rparr>))"
  by pat_completeness auto
termination
proof (relation "measure (\<lambda>st. length (es_pending st))")
  fix st :: runEventState and "next"
  assume "map_of (es_pending st) (es_head st + 1) = Some next"
  then have "(es_head st + 1, next) \<in> set (es_pending st)" by (rule map_of_SomeD)
  then have "length (filter (\<lambda>p. fst p \<noteq> es_head st + 1) (es_pending st)) < length (es_pending st)"
    by (intro length_filter_less) auto
  then show "(st\<lparr>es_pending := filter (\<lambda>p. fst p \<noteq> es_head st + 1) (es_pending st),
      es_head := RE_Seq next, es_last := next\<rparr>, st) \<in> measure (\<lambda>st. length (es_pending st))"
    by simp
qed simp

declare advance.simps [simp del]

text \<open>\<open>Accept\<close> on the state of one run, and on the broker.\<close>

definition accept_event ::
  "RunEvent \<Rightarrow> runEventState \<Rightarrow> runEventState \<times> (broker_error + (int \<times> bool))" where
  "accept_event ev st =
     (if RE_Seq ev \<le> es_head st then (st, Inr (es_head st, False))
      else if map_of (es_pending st) (RE_Seq ev) \<noteq> None then (st, Inr (es_head st, False))
      else if RE_Seq ev = es_head st + 1 then
        let st' = advance (st\<lparr>es_head := RE_Seq ev, es_last := ev\<rparr>) in (st', Inr (es_head st', True))
      else if length (es_pending st) \<ge> maxPendingRunEvents
        then (st, Inl (ErrGapTooLarge (RE_RunID ev) (es_head st) (RE_Seq ev)))
      else (st\<lparr>es_pending := (RE_Seq ev, ev) # es_pending st\<rparr>, Inr (es_head st, True)))"

definition Accept ::
  "string \<Rightarrow> string \<Rightarrow> RunEvent \<Rightarrow> RunEventBroker \<Rightarrow> RunEventBroker \<times> (broker_error + (int \<times> bool))" where
  "Accept account deviceID ev b =
     (if account = [] \<or> deviceID = [] then (b, Inl ErrAccountDevice)
      else if RE_RunID ev = [] then (b, Inl ErrRunIDRequired)
      else if RE_Seq ev \<le> 0 then (b, Inl ErrSeqPositive)
      else if RE_Kind ev = [] then (b, Inl ErrKindRequired)
      else
        let key = (account, deviceID, RE_RunID ev);
            st = (case b key of None \<Rightarrow> new_event_state | Some st \<Rightarrow> st);
            (st', r) = accept_event ev st
        in (b(key \<mapsto> st'), r))"

definition Head :: "string \<Rightarrow> string \<Rightarrow> string \<Rightarrow> RunEventBroker \<Rightarrow> int" where
  "Head account deviceID runID b =
     (case b (account, deviceID, runID) of Some st \<Rightarrow> es_head st | None \<Rightarrow> 0)"

definition Last :: "string \<Rightarrow> string \<Rightarrow> string \<Rightarrow> RunEventBroker \<Rightarrow> RunEvent option" where
  "Last account deviceID runID b =
     (case b (account, deviceID, runID) of
        None \<Rightarrow> None
      | Some st \<Rightarrow> if es_head st = 0 then None else Some (es_last st))"

fun missing_loop ::
  "string \<Rightarrow> string \<Rightarrow> RunEventBroker \<Rightarrow> string list \<Rightarrow> RunHead list \<Rightarrow> RunReplayCursor list \<Rightarrow>
   broker_error + RunReplayCursor list"
where
  "missing_loop account deviceID b seen [] out = Inr out"
| "missing_loop account deviceID b seen (h # heads) out =
     (if Head_RunID h = [] \<or> Head_LastSeq h < 0 then Inl ErrInvalidHead
      else if Head_RunID h \<in> set seen then Inl (ErrDuplicateHead (Head_RunID h))
      else
        let managerHead = (case b (account, deviceID, Head_RunID h) of Some st \<Rightarrow> es_head st | None \<Rightarrow> 0)
        in missing_loop account deviceID b (Head_RunID h # seen) heads
             (if Head_LastSeq h > managerHead
              then out @ [\<lparr>Cur_RunID = Head_RunID h, Cur_AfterSeq = managerHead, Cur_ThroughSeq = Head_LastSeq h\<rparr>]
              else out))"

definition Missing ::
  "string \<Rightarrow> string \<Rightarrow> RunHead list \<Rightarrow> RunEventBroker \<Rightarrow> broker_error + RunReplayCursor list" where
  "Missing account deviceID heads b =
     (if account = [] \<or> deviceID = [] then Inl ErrAccountDevice
      else if length heads > maxRunSyncHeads then Inl (ErrTooManyHeads (length heads))
      else missing_loop account deviceID b [] heads [])"

section \<open>The client\<close>

abbreviation runReplayBatchSize :: int where "runReplayBatchSize \<equiv> 200"
abbreviation maxAgentResponseBytes :: nat where "maxAgentResponseBytes \<equiv> 768 * 1024"

text \<open>
  The envelope of an event. \<open>json_len\<close> is the length of the JSON encoding of the wire event: an
  event that would not fit is sent with its payload replaced.
\<close>

definition runtimeEventEnvelope :: "(RunEvent \<Rightarrow> nat) \<Rightarrow> RunEvent \<Rightarrow> RunEvent" where
  "runtimeEventEnvelope json_len ev =
     (if json_len ev > maxAgentResponseBytes
      then ev\<lparr>RE_Payload := ''[runtime event payload omitted: '' @ show_nat (length (RE_Payload ev)) @ '' bytes]''\<rparr>
      else ev)"

definition run_heads :: "RunManager \<Rightarrow> RunHead list" where
  "run_heads m =
     map (\<lambda>snap. \<lparr>Head_RunID = AR_ID snap, Head_LastSeq = AR_LastSeq snap, Head_Status = AR_Status snap\<rparr>)
       (filter (\<lambda>snap. \<not> (AR_ID snap = [] \<or> AR_LastSeq snap \<le> 0)) (List_runs (int maxRunSyncHeads) m))"

text \<open>
  \<open>sendRunHeads\<close>: \<open>heads_len\<close> is the length of the encoding, the result is what was sent (\<open>None\<close>:
  nothing to send) or an error.
\<close>

definition sendRunHeads :: "(RunHead list \<Rightarrow> nat) \<Rightarrow> RunManager \<Rightarrow> string + RunHead list option" where
  "sendRunHeads heads_len m =
     (let heads = run_heads m
      in if heads = [] then Inr None
         else if heads_len heads > maxAgentResponseBytes
           then Inl ''runtime run-head payload exceeds 786432 bytes''
         else Inr (Some heads))"

datatype replay_error =
    ErrTooManyCursors nat
  | ErrInvalidCursor string
  | ErrReplayEmpty string int int
  | ErrReplayGap string int int
  | ErrNoProgress string int
  | ErrSend

text \<open>
  The inner loop over one batch: the next sequence number expected, the events sent so far and
  whether any was sent. \<open>send\<close> says whether the stream accepts an envelope.
\<close>

fun replay_batch ::
  "(RunEvent \<Rightarrow> nat) \<Rightarrow> (RunEvent \<Rightarrow> bool) \<Rightarrow> string \<Rightarrow> int \<Rightarrow> RunEvent list \<Rightarrow> int \<Rightarrow> RunEvent list \<Rightarrow> bool \<Rightarrow>
   int \<times> RunEvent list \<times> bool \<times> replay_error option"
where
  "replay_batch jl send rid through [] next sent progressed = (next, sent, progressed, None)"
| "replay_batch jl send rid through (ev # evs) next sent progressed =
     (if RE_Seq ev \<le> next then replay_batch jl send rid through evs next sent progressed
      else if RE_Seq ev > through then (next, sent, progressed, None)
      else if RE_Seq ev \<noteq> next + 1 then (next, sent, progressed, Some (ErrReplayGap rid (RE_Seq ev) next))
      else
        let env = runtimeEventEnvelope jl ev
        in if \<not> send env then (next, sent, progressed, Some ErrSend)
           else replay_batch jl send rid through evs (RE_Seq ev) (sent @ [env]) True)"

lemma replay_batch_next:
  "replay_batch jl send rid through evs next sent p = (next', sent', p', e) \<Longrightarrow>
   next \<le> next' \<and> (p' \<longrightarrow> p \<or> next < next')"
proof (induction jl send rid through evs "next" sent p rule: replay_batch.induct)
  case (2 jl send rid through ev evs "next" sent progressed)
  then show ?case by (fastforce simp: Let_def split: if_splits)
qed simp

function replay_cursor ::
  "(RunEvent \<Rightarrow> nat) \<Rightarrow> (RunEvent \<Rightarrow> bool) \<Rightarrow> (int \<Rightarrow> RunEvent list) \<Rightarrow> string \<Rightarrow> int \<Rightarrow> int \<Rightarrow> RunEvent list \<Rightarrow>
   RunEvent list \<times> replay_error option"
where
  "replay_cursor jl send after rid through next sent =
     (if next < through then
        if after next = [] then (sent, Some (ErrReplayEmpty rid next through))
        else case replay_batch jl send rid through (after next) next sent False of
               (next', sent', progressed, Some e) \<Rightarrow> (sent', Some e)
             | (next', sent', progressed, None) \<Rightarrow>
                 if \<not> progressed then (sent', Some (ErrNoProgress rid next'))
                 else replay_cursor jl send after rid through next' sent'
      else (sent, None))"
  by pat_completeness auto
termination
  by (relation "measure (\<lambda>(jl, send, after, rid, through, next, sent). nat (through - next))")
    (auto dest!: sym [of _ "replay_batch _ _ _ _ _ _ _ _"] dest: replay_batch_next)

declare replay_cursor.simps [simp del]

fun replay_loop ::
  "(RunEvent \<Rightarrow> nat) \<Rightarrow> (RunEvent \<Rightarrow> bool) \<Rightarrow> RunManager \<Rightarrow> RunReplayCursor list \<Rightarrow> RunEvent list \<Rightarrow>
   RunEvent list \<times> replay_error option"
where
  "replay_loop jl send m [] sent = (sent, None)"
| "replay_loop jl send m (c # cs) sent =
     (if Cur_RunID c = [] \<or> Cur_AfterSeq c < 0 \<or> Cur_ThroughSeq c < Cur_AfterSeq c
      then (sent, Some (ErrInvalidCursor (Cur_RunID c)))
      else case replay_cursor jl send (\<lambda>next. EventsAfter_run True (Cur_RunID c) next runReplayBatchSize m)
                  (Cur_RunID c) (Cur_ThroughSeq c) (Cur_AfterSeq c) sent of
             (sent', Some e) \<Rightarrow> (sent', Some e)
           | (sent', None) \<Rightarrow> replay_loop jl send m cs sent')"

definition replayRunEvents ::
  "(RunEvent \<Rightarrow> nat) \<Rightarrow> (RunEvent \<Rightarrow> bool) \<Rightarrow> RunManager \<Rightarrow> RunReplayCursor list \<Rightarrow> RunEvent list \<times> replay_error option"
where
  "replayRunEvents jl send m request =
     (if length request > maxRunSyncHeads then ([], Some (ErrTooManyCursors (length request)))
      else replay_loop jl send m request [])"

section \<open>What the broker has received\<close>

text \<open>
  The sequence numbers of a run that have arrived: everything up to the head, and the pending ones.
\<close>

definition recv :: "runEventState \<Rightarrow> int set" where
  "recv st = {1..es_head st} \<union> fst ` set (es_pending st)"

definition keys_ok :: "runEventState \<Rightarrow> bool" where
  "keys_ok st \<longleftrightarrow>
     0 \<le> es_head st \<and> distinct (map fst (es_pending st)) \<and> length (es_pending st) \<le> maxPendingRunEvents \<and>
     (\<forall>p \<in> set (es_pending st). es_head st < fst p \<and> RE_Seq (snd p) = fst p) \<and>
     (0 < es_head st \<longrightarrow> RE_Seq (es_last st) = es_head st)"

definition events_wf :: "runEventState \<Rightarrow> bool" where
  "events_wf st \<longleftrightarrow> keys_ok st \<and> es_head st + 1 \<notin> recv st"

lemma recv_above_head: "keys_ok st \<Longrightarrow> es_head st < q \<Longrightarrow> q \<in> recv st \<longleftrightarrow> map_of (es_pending st) q \<noteq> None"
  by (auto simp: recv_def map_of_eq_None_iff)

lemma advance_step:
  assumes "keys_ok st" and "map_of (es_pending st) (es_head st + 1) = Some e"
  defines "st' \<equiv> st\<lparr>es_pending := filter (\<lambda>p. fst p \<noteq> es_head st + 1) (es_pending st),
      es_head := RE_Seq e, es_last := e\<rparr>"
  shows "keys_ok st'" and "recv st' = recv st" and "es_head st \<le> es_head st'"
proof -
  have mem: "(es_head st + 1, e) \<in> set (es_pending st)" by (rule map_of_SomeD [OF assms(2)])
  then have seq: "RE_Seq e = es_head st + 1" using assms(1) by (auto simp: keys_ok_def)
  have len: "length (filter P (es_pending st)) \<le> maxPendingRunEvents" for P
    using assms(1) length_filter_le [of P "es_pending st"] unfolding keys_ok_def by linarith
  show "keys_ok st'"
    using assms(1) seq len by (fastforce simp: keys_ok_def st'_def distinct_map_filter)
  have "{1..es_head st + 1} = insert (es_head st + 1) {1..es_head st}"
    using assms(1) by (auto simp: keys_ok_def)
  moreover have "fst ` set (es_pending st) =
      insert (es_head st + 1) (fst ` {p \<in> set (es_pending st). fst p \<noteq> es_head st + 1})"
    using mem by force
  ultimately show "recv st' = recv st" by (simp add: recv_def st'_def seq)
  show "es_head st \<le> es_head st'" by (simp add: st'_def seq)
qed

lemma advance_wf:
  "keys_ok st \<Longrightarrow> events_wf (advance st) \<and> recv (advance st) = recv st \<and> es_head st \<le> es_head (advance st)"
proof (induction st rule: advance.induct)
  case (1 st)
  show ?case
  proof (cases "map_of (es_pending st) (es_head st + 1)")
    case None
    then show ?thesis
      using 1(2) recv_above_head [OF 1(2), of "es_head st + 1"]
      by (simp add: advance.simps [of st] events_wf_def)
  next
    case (Some e)
    note step = advance_step [OF 1(2) Some]
    show ?thesis using 1(1) [OF Some step(1)] step(2,3) by (simp add: advance.simps [of st] Some)
  qed
qed

lemma new_event_state_wf [simp]: "events_wf new_event_state" "recv new_event_state = {}"
  by (simp_all add: events_wf_def keys_ok_def recv_def new_event_state_def)

lemma events_wf_pending: "events_wf st \<Longrightarrow> k \<in> fst ` set (es_pending st) \<Longrightarrow> es_head st + 1 < k"
proof -
  assume wf: "events_wf st" and k: "k \<in> fst ` set (es_pending st)"
  have "k \<noteq> es_head st + 1" using wf k unfolding events_wf_def recv_def by blast
  moreover have "es_head st < k" using wf k by (auto simp: events_wf_def keys_ok_def)
  ultimately show "es_head st + 1 < k" by linarith
qed

lemma events_wf_head:
  assumes "events_wf st"
  shows "es_head st + 1 \<notin> recv st" and "{1..es_head st} \<subseteq> recv st" and "0 \<le> es_head st"
  using assms unfolding events_wf_def keys_ok_def recv_def by blast+

text \<open>The cases of \<open>Accept\<close> on the state of a run.\<close>

lemma accept_cases:
  assumes "events_wf st" and "0 < RE_Seq ev"
  obtains (known) "accept_event ev st = (st, Inr (es_head st, False))" and "RE_Seq ev \<in> recv st"
      and "RE_Seq ev \<noteq> es_head st + 1"
  | (contiguous) st' where "accept_event ev st = (st', Inr (es_head st', True))" and "RE_Seq ev = es_head st + 1"
      and "events_wf st'" and "recv st' = insert (RE_Seq ev) (recv st)" and "RE_Seq ev \<le> es_head st'"
      and "RE_Seq ev \<notin> recv st"
  | (held) st' where "accept_event ev st = (st', Inr (es_head st', True))" and "es_head st + 1 < RE_Seq ev"
      and "events_wf st'" and "recv st' = insert (RE_Seq ev) (recv st)" and "es_head st' = es_head st"
      and "RE_Seq ev \<notin> recv st"
  | (full) "accept_event ev st = (st, Inl (ErrGapTooLarge (RE_RunID ev) (es_head st) (RE_Seq ev)))"
      and "es_head st + 1 < RE_Seq ev" and "RE_Seq ev \<notin> recv st" and "length (es_pending st) = maxPendingRunEvents"
proof -
  have ok: "keys_ok st" and next_free: "es_head st + 1 \<notin> recv st" using assms(1) by (auto simp: events_wf_def)
  have len: "length (es_pending st) \<le> maxPendingRunEvents" using ok by (simp add: keys_ok_def)
  note above = recv_above_head [OF ok, of "RE_Seq ev"]
  show thesis
  proof (cases "RE_Seq ev \<in> recv st")
    case True
    moreover have "RE_Seq ev \<noteq> es_head st + 1" using True next_free by auto
    moreover have "accept_event ev st = (st, Inr (es_head st, False))"
      using True above by (auto simp: accept_event_def not_le)
    ultimately show thesis by (rule known [rotated])
  next
    case False
    then have gt: "es_head st < RE_Seq ev" and free: "map_of (es_pending st) (RE_Seq ev) = None"
      using assms(2) above by (auto simp: recv_def not_le)
    consider "RE_Seq ev = es_head st + 1" | "es_head st + 1 < RE_Seq ev" "length (es_pending st) = maxPendingRunEvents"
      | "es_head st + 1 < RE_Seq ev" "length (es_pending st) < maxPendingRunEvents"
      using gt len by linarith
    then show thesis
    proof cases
      case 1
      let ?st = "st\<lparr>es_head := RE_Seq ev, es_last := ev\<rparr>"
      have "keys_ok ?st" using ok 1 events_wf_pending [OF assms(1)] by (simp add: keys_ok_def)
      note adv = advance_wf [OF this]
      moreover have "recv ?st = insert (RE_Seq ev) (recv st)" using 1 ok by (auto simp: recv_def keys_ok_def)
      ultimately show thesis
        using 1 free False by (intro contiguous [of "advance ?st"]) (auto simp: accept_event_def Let_def)
    next
      case 2
      then show thesis using free False by (intro full) (simp_all add: accept_event_def)
    next
      case 3
      let ?st = "st\<lparr>es_pending := (RE_Seq ev, ev) # es_pending st\<rparr>"
      have "recv ?st = insert (RE_Seq ev) (recv st)" by (auto simp: recv_def)
      moreover have "keys_ok ?st" using ok 3 free by (auto simp: keys_ok_def map_of_eq_None_iff)
      ultimately show thesis
        using 3 free False next_free
        by (intro held [of ?st]) (simp_all add: accept_event_def events_wf_def)
    qed
  qed
qed

section \<open>Reachable brokers\<close>

definition received :: "string \<Rightarrow> string \<Rightarrow> string \<Rightarrow> RunEventBroker \<Rightarrow> int set" where
  "received account deviceID runID b = (case b (account, deviceID, runID) of None \<Rightarrow> {} | Some st \<Rightarrow> recv st)"

inductive broker_reach :: "RunEventBroker \<Rightarrow> bool" where
  new_broker: "broker_reach NewRunEventBroker"
| accept: "broker_reach b \<Longrightarrow> broker_reach (fst (Accept account deviceID ev b))"

definition valid_event :: "string \<Rightarrow> string \<Rightarrow> RunEvent \<Rightarrow> bool" where
  "valid_event account deviceID ev \<longleftrightarrow>
     account \<noteq> [] \<and> deviceID \<noteq> [] \<and> RE_RunID ev \<noteq> [] \<and> 0 < RE_Seq ev \<and> RE_Kind ev \<noteq> []"

definition run_state :: "string \<Rightarrow> string \<Rightarrow> string \<Rightarrow> RunEventBroker \<Rightarrow> runEventState" where
  "run_state account deviceID runID b =
     (case b (account, deviceID, runID) of None \<Rightarrow> new_event_state | Some st \<Rightarrow> st)"

lemma run_state_views:
  "received a d i b = recv (run_state a d i b)" "Head a d i b = es_head (run_state a d i b)"
  by (simp_all add: received_def Head_def run_state_def new_event_state_def recv_def split: option.split)

lemma Accept_invalid: "\<not> valid_event a d ev \<Longrightarrow> \<exists>e. Accept a d ev b = (b, Inl e)"
  by (auto simp: Accept_def valid_event_def)

lemma Accept_valid:
  assumes "valid_event a d ev" and "accept_event ev (run_state a d (RE_RunID ev) b) = (st', r)"
  shows "Accept a d ev b = (b((a, d, RE_RunID ev) \<mapsto> st'), r)"
  using assms by (simp add: Accept_def valid_event_def run_state_def Let_def)

lemma broker_reach_wf: "broker_reach b \<Longrightarrow> events_wf (run_state a d i b)"
proof (induction arbitrary: a d i rule: broker_reach.induct)
  case new_broker
  then show ?case by (simp add: run_state_def NewRunEventBroker_def)
next
  case (accept b account deviceID ev)
  show ?case
  proof (cases "valid_event account deviceID ev")
    case True
    obtain st' r where eq: "accept_event ev (run_state account deviceID (RE_RunID ev) b) = (st', r)" by fastforce
    have pos: "0 < RE_Seq ev" using True by (simp add: valid_event_def)
    have "events_wf st'"
      by (rule accept_cases [OF accept.IH [of account deviceID "RE_RunID ev"] pos]) (use eq accept.IH in auto)
    moreover have "run_state a d i (fst (Accept account deviceID ev b)) =
        (if (a, d, i) = (account, deviceID, RE_RunID ev) then st' else run_state a d i b)"
      using Accept_valid [OF True eq] by (simp add: run_state_def)
    ultimately show ?thesis using accept.IH by simp
  next
    case False
    then obtain e where "Accept account deviceID ev b = (b, Inl e)" using Accept_invalid by blast
    then show ?thesis using accept.IH by simp
  qed
qed

text \<open>
  (C8) The broker implements a set of sequence numbers per account, device and run. In every reachable
  broker, \<open>Accept\<close> inserts a new number and reports it accepted, reports a known one as not accepted,
  and otherwise fails and receives nothing; no other run is affected. The head it returns is the
  largest \<open>n\<close> such that \<open>1..n\<close> have all been received, and \<open>Last\<close> is the event with that number.
\<close>

theorem Accept_refines_set:
  assumes "broker_reach b" and "Accept a d ev b = (b', r)"
  shows "(\<forall>a2 d2 i. received a2 d2 i b' = received a2 d2 i b \<union>
        (if (a2, d2, i) = (a, d, RE_RunID ev) \<and> \<not> isl r then {RE_Seq ev} else {})) \<and>
    (\<forall>h accepted. r = Inr (h, accepted) \<longrightarrow>
        h = Head a d (RE_RunID ev) b' \<and> (accepted \<longleftrightarrow> RE_Seq ev \<notin> received a d (RE_RunID ev) b)) \<and>
    (\<forall>a2 d2 i. {1..Head a2 d2 i b'} \<subseteq> received a2 d2 i b' \<and> Head a2 d2 i b' + 1 \<notin> received a2 d2 i b' \<and>
        (Head a2 d2 i b' \<noteq> 0 \<longrightarrow> (\<exists>e. Last a2 d2 i b' = Some e \<and> RE_Seq e = Head a2 d2 i b')))"
    (is "?recv \<and> ?res \<and> ?head")
proof (intro conjI)
  have "broker_reach b'" using broker_reach.accept [OF assms(1), of a d ev] assms(2) by simp
  then have wf': "events_wf (run_state a2 d2 i b')" for a2 d2 i by (rule broker_reach_wf)
  show ?head
  proof (intro allI conjI impI)
    fix a2 d2 i
    note wf = wf' [of a2 d2 i]
    show "{1..Head a2 d2 i b'} \<subseteq> received a2 d2 i b'" by (simp add: run_state_views recv_def)
    show "Head a2 d2 i b' + 1 \<notin> received a2 d2 i b'" using wf by (simp add: run_state_views events_wf_def)
    show "\<exists>e. Last a2 d2 i b' = Some e \<and> RE_Seq e = Head a2 d2 i b'" if "Head a2 d2 i b' \<noteq> 0"
      using that wf
      by (auto simp: Head_def Last_def run_state_def events_wf_def keys_ok_def split: option.splits)
  qed
  note wf = broker_reach_wf [OF assms(1), of a d "RE_RunID ev"]
  have "?recv \<and> ?res"
  proof (cases "valid_event a d ev")
    case True
    obtain st' where eq: "accept_event ev (run_state a d (RE_RunID ev) b) = (st', r)"
      using Accept_valid [OF True] assms(2) by (metis surj_pair prod.inject)
    have st': "run_state a2 d2 i b' = (if (a2, d2, i) = (a, d, RE_RunID ev) then st' else run_state a2 d2 i b)"
      for a2 d2 i using Accept_valid [OF True eq] assms(2) by (auto simp: run_state_def)
    have "0 < RE_Seq ev" using True by (simp add: valid_event_def)
    then show ?thesis
      by (rule accept_cases [OF wf]) (use eq st' in \<open>auto simp: run_state_views\<close>)
  next
    case False
    then show ?thesis using Accept_invalid [OF False, of b] assms(2) by auto
  qed
  then show ?recv ?res by blast+
qed

definition sample_ev :: "int \<Rightarrow> RunEvent" where
  "sample_ev q = \<lparr>RE_RunID = ''run_a'', RE_Seq = q, RE_At = 0, RE_Source = ''codebridge'',
     RE_Kind = ''harness.raw'', RE_Payload = ''x''\<rparr>"

theorem Accept_refines_set_witness:
  "\<exists>b' h. Accept ''alice'' ''dev'' (sample_ev 2) NewRunEventBroker = (b', Inr (h, True)) \<and>
     received ''alice'' ''dev'' ''run_a'' b' = {2} \<and> h = 0 \<and> Head ''alice'' ''dev'' ''run_a'' b' = 0"
proof -
  define b' where "b' = fst (Accept ''alice'' ''dev'' (sample_ev 2) NewRunEventBroker)"
  have eq: "Accept ''alice'' ''dev'' (sample_ev 2) NewRunEventBroker = (b', Inr (0, True))"
    by (simp add: b'_def Accept_def sample_ev_def NewRunEventBroker_def accept_event_def new_event_state_def)
  have "RE_RunID (sample_ev 2) = ''run_a''" "RE_Seq (sample_ev 2) = 2" by (simp_all add: sample_ev_def)
  with Accept_refines_set [OF broker_reach.new_broker eq]
  have "received ''alice'' ''dev'' ''run_a'' b' = {2}" "0 = Head ''alice'' ''dev'' ''run_a'' b'"
    by (auto simp: received_def NewRunEventBroker_def)
  with eq show ?thesis by auto
qed

section \<open>Delivering events\<close>

definition deliver :: "string \<Rightarrow> string \<Rightarrow> RunEvent list \<Rightarrow> RunEventBroker \<Rightarrow> RunEventBroker" where
  "deliver account deviceID evs b = foldl (\<lambda>b ev. fst (Accept account deviceID ev b)) b evs"

lemma deliver_simps [simp]:
  "deliver a d [] b = b" "deliver a d (ev # evs) b = deliver a d evs (fst (Accept a d ev b))"
  "deliver a d (evs @ evs2) b = deliver a d evs2 (deliver a d evs b)"
  by (simp_all add: deliver_def)

lemma deliver_reach: "broker_reach b \<Longrightarrow> broker_reach (deliver a d evs b)"
  by (induction evs arbitrary: b) (simp_all add: broker_reach.accept)

lemma received_bound_room:
  assumes "events_wf st" and "recv st \<subseteq> {1..513}" and "q \<notin> recv st" and "es_head st + 1 < q" and "q \<le> 513"
  shows "length (es_pending st) < maxPendingRunEvents"
proof -
  have ok: "keys_ok st" using assms(1) by (simp add: events_wf_def)

  have "insert q (fst ` set (es_pending st)) \<subseteq> {2..513}"
  proof
    fix k assume "k \<in> insert q (fst ` set (es_pending st))"
    then consider "k = q" | "k \<in> fst ` set (es_pending st)" by blast
    then show "k \<in> {2..513}"
    proof cases
      case 2
      then have "k \<in> recv st" "es_head st + 1 < k"
        using events_wf_pending [OF assms(1)] by (auto simp: recv_def)
      with assms(2) ok show ?thesis by (auto simp: keys_ok_def)
    qed (use assms(4,5) ok in \<open>simp add: keys_ok_def\<close>)
  qed
  then have "card (insert q (fst ` set (es_pending st))) \<le> card {2..513::int}"
    by (intro card_mono) simp_all
  moreover have "q \<notin> fst ` set (es_pending st)" using assms(3) by (simp add: recv_def)
  moreover have "card (fst ` set (es_pending st)) = length (es_pending st)"
    using ok distinct_card [of "map fst (es_pending st)"] by (simp add: keys_ok_def)
  ultimately show ?thesis by simp
qed

lemma deliver_received:
  assumes "broker_reach b" and "received a d i b \<subseteq> {1..513}"
    and "\<forall>ev \<in> set evs. valid_event a d ev \<and> RE_RunID ev = i \<and> RE_Seq ev \<le> 513"
  shows "received a d i (deliver a d evs b) = received a d i b \<union> RE_Seq ` set evs"
  using assms
proof (induction evs arbitrary: b)
  case (Cons ev evs)
  let ?st = "run_state a d i b"
  note wf = broker_reach_wf [OF Cons.prems(1), of a d i]
  have ev: "valid_event a d ev" "RE_RunID ev = i" "RE_Seq ev \<le> 513" and pos: "0 < RE_Seq ev"
    using Cons.prems(3) by (auto simp: valid_event_def)
  obtain st' r where eq: "accept_event ev ?st = (st', r)" by fastforce
  have "recv ?st \<subseteq> {1..513}" using Cons.prems(2) by (simp add: run_state_views)
  note room = received_bound_room [OF wf this _ _ ev(3)]
  have "recv st' = insert (RE_Seq ev) (recv ?st)"
    by (rule accept_cases [OF wf pos]) (use eq room in auto)
  then have step: "received a d i (fst (Accept a d ev b)) = insert (RE_Seq ev) (received a d i b)"
    using Accept_valid [OF ev(1), of b] eq ev(2) by (simp add: run_state_views(1)) (simp add: run_state_def)
  show ?case
    using Cons.IH [OF broker_reach.accept [OF Cons.prems(1)], of a d ev] step Cons.prems(2,3) ev(3) pos by auto
qed simp

lemma head_of_interval:
  assumes "broker_reach b" and "received a d i b = {1..int n}"
  shows "Head a d i b = int n"
proof -
  note facts = events_wf_head [OF broker_reach_wf [OF assms(1), of a d i]]
  have wf: "Head a d i b + 1 \<notin> {1..int n}" "{1..Head a d i b} \<subseteq> {1..int n}" "0 \<le> Head a d i b"
    using facts unfolding assms(2) [symmetric] run_state_views by blast+
  have "Head a d i b \<le> int n"
  proof (rule ccontr)
    assume "\<not> ?thesis"
    then have "Head a d i b \<in> {1..Head a d i b}" by simp
    with wf(2) have "Head a d i b \<in> {1..int n}" by blast
    with \<open>\<not> ?thesis\<close> show False by simp
  qed
  with wf(1,3) show ?thesis by auto
qed

text \<open>
  The order of arrival does not matter: events \<open>1..n\<close> of a run delivered to a new broker in any
  order, with any repetitions, leave its head at \<open>n\<close>, as long as \<open>n\<close> is at most one more than the
  capacity of the pending set.
\<close>

theorem any_order_head:
  assumes "RE_Seq ` set evs = {1..int n}" and "n \<le> maxPendingRunEvents + 1"
    and "\<forall>ev \<in> set evs. valid_event a d ev \<and> RE_RunID ev = i"
  shows "Head a d i (deliver a d evs NewRunEventBroker) = int n"
proof (rule head_of_interval)
  show "broker_reach (deliver a d evs NewRunEventBroker)"
    by (intro deliver_reach broker_reach.new_broker)
  have empty: "received a d i NewRunEventBroker = {}" by (simp add: received_def NewRunEventBroker_def)
  have "RE_Seq ev \<le> 513" if "ev \<in> set evs" for ev
  proof -
    have "RE_Seq ev \<in> {1..int n}" using that assms(1) by blast
    then show ?thesis using assms(2) by simp
  qed
  then have "received a d i (deliver a d evs NewRunEventBroker) =
      received a d i NewRunEventBroker \<union> RE_Seq ` set evs"
    using assms(3) by (intro deliver_received broker_reach.new_broker) (simp_all add: empty)
  then show "received a d i (deliver a d evs NewRunEventBroker) = {1..int n}" by (simp add: empty assms(1))
qed

theorem any_order_head_witness:
  "Head ''alice'' ''dev'' ''run_a''
     (deliver ''alice'' ''dev'' [sample_ev 3, sample_ev 2, sample_ev 3, sample_ev 1] NewRunEventBroker) = 3"
proof -
  have "RE_Seq ` set [sample_ev 3, sample_ev 2, sample_ev 3, sample_ev 1] = {1..int 3}"
    by (auto simp: sample_ev_def)
  from any_order_head [OF this, of "''alice''" "''dev''" "''run_a''"] show ?thesis
    by (simp add: valid_event_def sample_ev_def)
qed

end
