(* ===== verification/RunStored.thy ===== *)
theory RunStored
  imports RunSafety
begin

text \<open>
  Properties of the run store that hold in every reachable state of the run manager, whatever statements of the store
  fail: one locale states what a property has to be kept by, and the two instances are that every stored event has a
  kind and that every stored run has a status of the enumeration.
\<close>

locale stored_property =
  fixes P :: "runStore \<Rightarrow> bool"
  assumes kept_append: "P st \<Longrightarrow> RE_Kind ev \<noteq> [] \<Longrightarrow> P (appendEvent_store ev st)"
    and kept_upsert: "P st \<Longrightarrow> AR_Status snap \<in> set RunStatuses \<Longrightarrow> P (upsert_store snap st)"
    and kept_open: "P st \<Longrightarrow> P (openRunStore now st)"
    and kept_empty: "P \<lparr>st_runs = [], st_events = []\<rparr>"
begin

lemma append_stored:
  assumes "pred_option P (m_store m)" and "kind \<noteq> []" and "appendRuntimeEventLocked io src kind p rs m = (rs', m')"
  shows "pred_option P (m_store m')"
proof -
  have "m' = snd (appendRuntimeEventLocked io src kind p rs m)" using assms(3) by simp
  then show ?thesis
    using assms(1,2) kept_append
    by (cases "m_store m")
      (auto simp: appendRuntimeEventLocked_def Let_def publishRuntimeEventLocked_def store_event_def)
qed

lemma persist_stored:
  "pred_option P (m_store m) \<Longrightarrow> rs_status rs \<in> set RunStatuses \<Longrightarrow> pred_option P (m_store (persistLocked io rs m))"
  using kept_upsert by (cases "m_store m") (auto simp: persistLocked_def snapshotLocked_def)

lemma transition_stored:
  assumes "pred_option P (m_store m)" and "transitionLocked io to rs m = (b, rs', m')"
  shows "pred_option P (m_store m')"
proof (cases "canTransition_mgr (rs_status rs) to")
  case True
  obtain rs1 m1 where app: "appendRuntimeEventLocked io ''codebridge'' (runStatusEventKind to) [] (enter_status io to rs) m = (rs1, m1)"
    by fastforce
  have m': "m' = persistLocked io rs1 m1" using assms(2) True app by (auto simp: transitionLocked_def)
  have "rs_status rs1 = to" using append_run(2) [OF app] by (simp add: enter_status_simps)
  then have "rs_status rs1 \<in> set RunStatuses" using canTransition_mgr_status [OF True] by simp
  moreover have "pred_option P (m_store m1)"
    by (rule append_stored [OF assms(1) _ app]) (simp add: runStatusEventKind_def)
  ultimately show ?thesis unfolding m' by (intro persist_stored)
next
  case False
  then show ?thesis using assms by (simp add: transitionLocked_def)
qed

lemma finish_stored:
  assumes "pred_option P (m_store m)"
  shows "pred_option P (m_store (finish io st out err rs m))"
  using assms transition_stored by (auto simp: finish_def Let_def split: prod.split)

lemma finishOutcome_stored:
  "pred_option P (m_store m) \<Longrightarrow> pred_option P (m_store (finishOutcome quote io ctx res e rs m))"
  using finishOutcome_finish [of quote io ctx res e] finish_stored by metis

lemma record_stored:
  assumes "pred_option P (m_store m)"
  shows "pred_option P (m_store (recordEvent io line rs m))"
proof -
  have "pred_option P (m_store (put_run rs2 (snd (appendRuntimeEventLocked io src ''harness.raw'' line rs1 m))))" for src rs1 rs2
    using append_stored [OF assms] by (metis list.distinct(1) prod.collapse put_run_simps(4))
  then show ?thesis using assms by (simp add: recordEvent_def Let_def case_prod_beta)
qed

lemma start_stored:
  assumes "pred_option P (m_store m)" and "Start profiles preflight ctx_ok io i spec m = (m', r)"
  shows "pred_option P (m_store m')"
proof -
  let ?new = "new_run (m_eventCapacity m) i (normalizeRunSpec profiles spec)"
  obtain rs m1 where app: "appendRuntimeEventLocked io ''codebridge'' ''run.queued'' [] ?new m = (rs, m1)"
    by fastforce
  have "m' = m \<or> m' = persistLocked io rs (put_run rs m1)"
    using assms(2) app by (auto simp: Start_def Let_def split: if_splits option.splits)
  moreover have "rs_status rs \<in> set RunStatuses"
    using append_run(2) [OF app] by (simp add: new_run_def RunStatuses_def)
  moreover have "pred_option P (m_store m1)" by (rule append_stored [OF assms(1) _ app]) simp
  ultimately show ?thesis using assms(1) persist_stored [of "put_run rs m1" rs io] by auto
qed

lemma go_step_stored:
  "go_step rel s s' \<Longrightarrow> pred_option P (m_store (sys_m s)) \<Longrightarrow> pred_option P (m_store (sys_m s'))"
proof (induction rule: go_step.induct)
  case (begin_run s k rs io started rs' m')
  then show ?case using transition_stored by (simp add: set_pc_def)
qed (simp_all add: set_pc_def finish_stored finishOutcome_stored)

lemma run_step_stored:
  "run_step rel s s' \<Longrightarrow> pred_option P (m_store (sys_m s)) \<Longrightarrow> pred_option P (m_store (sys_m s'))"
proof (induction rule: run_step.induct)
  case (cancel i s m' r)
  then have "m_store m' = m_store (sys_m s)" by (auto simp: Cancel_def split: option.splits if_splits)
  with cancel show ?case by simp
next
  case (get i s m' r)
  then have "m_store m' = m_store (sys_m s)"
    by (auto simp: Get_def cacheLoaded_def Let_def split: option.splits)
  with get show ?case by simp
next
  case (subscribe i n s m' r)
  then have "m' = fst (SubscribeEvents i n (sys_m s))" by simp
  then have "m_store m' = m_store (sys_m s)" by (simp add: SubscribeEvents_def Let_def)
  with subscribe show ?case by simp
next
  case (start profiles preflight ctx_ok io i spec s m' snap)
  then show ?case using start_stored by simp
next
  case (go s s')
  then show ?case by (rule go_step_stored)
next
  case (record_line s i rs io line)
  then show ?case using record_stored by simp
qed (simp_all add: cancelSubscription_def Close_def)

lemma new_stored: "pred_option P st \<Longrightarrow> pred_option P (m_store (NewRunManager now n cap st))"
  using kept_open by (cases st) (simp_all add: NewRunManager_def Let_def)

lemma reach_stored: "run_reach rel s \<Longrightarrow> pred_option P (m_store (sys_m s))"
proof (induction rule: run_reach.induct)
  case (boot n cap f now)
  then have "pred_option P f" using kept_empty by auto
  then show ?case by (simp add: new_stored)
next
  case (step s s')
  then show ?case using run_step_stored by blast
next
  case (restart s n cap now)
  then show ?case by (simp add: new_stored)
qed

end

section \<open>Stored events have a kind\<close>

definition kinds_ok :: "runStore \<Rightarrow> bool" where
  "kinds_ok st \<longleftrightarrow> (\<forall>r \<in> set (st_events st). rer_kind r \<noteq> [])"

lemma record_interrupted_kinds:
  "\<forall>r \<in> set evs. rer_kind r \<noteq> [] \<Longrightarrow> \<forall>r \<in> set (record_interrupted now is evs). rer_kind r \<noteq> []"
proof (induction "is" arbitrary: evs)
  case (Cons i "is")
  then have "\<forall>r \<in> set (evs @ [interrupted_event now i q]). rer_kind r \<noteq> []" for q
    by (simp add: interrupted_event_def)
  from Cons.IH [OF this] Cons.IH [OF Cons.prems] show ?case
    unfolding record_interrupted.simps Let_def by (auto split: if_split)
qed simp

interpretation stored_kinds: stored_property kinds_ok
proof
  fix st now assume "kinds_ok st"
  then show "kinds_ok (openRunStore now st)"
    using record_interrupted_kinds by (simp add: kinds_ok_def openRunStore_def recordInterruptedRunEvents_def Let_def)
qed (auto simp: kinds_ok_def appendEvent_store_def run_event_args_def delete_rows_def upsert_store_def)

section \<open>Stored runs have a status of the enumeration\<close>

definition statuses_ok :: "runStore \<Rightarrow> bool" where
  "statuses_ok st \<longleftrightarrow> (\<forall>r \<in> set (st_runs st). arr_status r \<in> set RunStatuses)"

interpretation stored_statuses: stored_property statuses_ok
  by unfold_locales
    (auto simp: statuses_ok_def appendEvent_store_def upsert_store_def delete_rows_def agent_run_args_def
      openRunStore_def recordInterruptedRunEvents_def Let_def RunStatuses_def)

end
