(* ===== verification/RunSync.thy ===== *)
theory RunSync
  imports RunBroker RunStored
begin

text \<open>
  The reconnect handshake between a client's run manager and the manager's broker: every event a
  client stores is acceptable to the broker, the cursors the broker asks for are within the client's
  journal, and replaying them brings the broker's heads up to the advertised ones.
\<close>

section \<open>Delivery in order\<close>

lemma Accept_head_mono:
  assumes "broker_reach b"
  shows "Head a2 d2 i b \<le> Head a2 d2 i (fst (Accept a d ev b))"
proof (cases "valid_event a d ev")
  case True
  let ?st = "run_state a d (RE_RunID ev) b"
  obtain st' r where eq: "accept_event ev ?st = (st', r)" by fastforce
  have "0 < RE_Seq ev" using True by (simp add: valid_event_def)
  then have "es_head ?st \<le> es_head st'"
    by (rule accept_cases [OF broker_reach_wf [OF assms, of a d "RE_RunID ev"]]) (use eq in auto)
  with Accept_valid [OF True eq] show ?thesis by (simp add: run_state_views) (simp add: run_state_def)
qed (use Accept_invalid [of a d ev b] in auto)

lemma Accept_next:
  assumes "broker_reach b" and "valid_event a d ev" and "RE_Seq ev \<le> Head a d (RE_RunID ev) b + 1"
  shows "RE_Seq ev \<le> Head a d (RE_RunID ev) (fst (Accept a d ev b))"
proof -
  let ?st = "run_state a d (RE_RunID ev) b"
  note wf = broker_reach_wf [OF assms(1), of a d "RE_RunID ev"]
  obtain st' r where eq: "accept_event ev ?st = (st', r)" by fastforce
  have le: "RE_Seq ev \<le> es_head ?st + 1" using assms(3) by (simp add: run_state_views)
  have "0 < RE_Seq ev" using assms(2) by (simp add: valid_event_def)
  then have "RE_Seq ev \<le> es_head st'"
    by (rule accept_cases [OF wf]) (use eq le in auto)
  with Accept_valid [OF assms(2) eq] show ?thesis by (simp add: run_state_views run_state_def)
qed

lemma deliver_head_mono: "broker_reach b \<Longrightarrow> Head a2 d2 i b \<le> Head a2 d2 i (deliver a d evs b)"
proof (induction evs arbitrary: b)
  case (Cons ev evs)
  then show ?case
    using Accept_head_mono [OF Cons.prems] Cons.IH [OF broker_reach.accept [OF Cons.prems]] order_trans
    by (metis deliver_simps(2))
qed simp

lemma deliver_in_order:
  assumes "broker_reach b" and "map RE_Seq evs = [h + 1..t]" and "h \<le> Head a d i b"
    and "\<forall>ev \<in> set evs. valid_event a d ev \<and> RE_RunID ev = i"
  shows "max h t \<le> Head a d i (deliver a d evs b)"
  using assms
proof (induction evs arbitrary: b h)
  case Nil
  then show ?case by simp
next
  case (Cons ev evs)
  have ht: "h + 1 \<le> t" using Cons.prems(2) by (metis list.distinct(1) list.simps(9) upto_empty not_le)
  then have seqs: "RE_Seq ev = h + 1" "map RE_Seq evs = [h + 1 + 1..t]"
    using Cons.prems(2) by (simp_all add: upto_rec1)
  have "valid_event a d ev" "RE_RunID ev = i" using Cons.prems(4) by simp_all
  then have "h + 1 \<le> Head a d i (fst (Accept a d ev b))"
    using Accept_next [OF Cons.prems(1)] Cons.prems(3) seqs(1) by fastforce
  from Cons.IH [OF broker_reach.accept [OF Cons.prems(1)] seqs(2) this] Cons.prems(4) ht show ?case
    by simp
qed

section \<open>The replay\<close>

text \<open>One batch: consecutive events after \<open>next\<close>, sent up to \<open>through\<close>.\<close>

lemma replay_batch_page:
  assumes "map RE_Seq evs = [next + 1..m]" and "next \<le> m" and "next \<le> through"
  shows "\<exists>out. replay_batch jl (\<lambda>e. True) rid through evs next sent p =
      (min m through, sent @ map (runtimeEventEnvelope jl) out, p \<or> out \<noteq> [], None) \<and>
    map RE_Seq out = [next + 1..min m through] \<and> set out \<subseteq> set evs"
  using assms
proof (induction evs arbitrary: "next" sent p)
  case Nil
  then have "m = next" by (metis list.map_disc_iff list.distinct(1) upto_Nil nle_le not_le zle_add1_eq_le)
  with Nil show ?case by (intro exI [of _ "[]"]) simp
next
  case (Cons ev evs)
  have "next + 1 \<le> m" using Cons.prems(1) by (metis list.distinct(1) list.simps(9) upto_empty not_le)
  then have seqs: "RE_Seq ev = next + 1" "map RE_Seq evs = [next + 1 + 1..m]"
    using Cons.prems(1) by (simp_all add: upto_rec1)
  show ?case
  proof (cases "next + 1 \<le> through")
    case True
    from Cons.IH [OF seqs(2) \<open>next + 1 \<le> m\<close> True, of "sent @ [runtimeEventEnvelope jl ev]" True]
    obtain out where out: "replay_batch jl (\<lambda>e. True) rid through evs (next + 1)
        (sent @ [runtimeEventEnvelope jl ev]) True =
        (min m through, (sent @ [runtimeEventEnvelope jl ev]) @ map (runtimeEventEnvelope jl) out, True, None)"
      "map RE_Seq out = [next + 1 + 1..min m through]" "set out \<subseteq> set evs"
      by auto
    have "[next + 1..min m through] = (next + 1) # [next + 1 + 1..min m through]"
      using True \<open>next + 1 \<le> m\<close> by (intro upto_rec1) simp
    with out True seqs(1) show ?thesis by (intro exI [of _ "ev # out"]) auto
  next
    case False
    then have "through = next" using Cons.prems(3) by simp
    with seqs(1) Cons.prems(2) show ?thesis by (intro exI [of _ "[]"]) simp
  qed
qed

text \<open>The replay of one cursor over a journal whose pages are runs of consecutive numbers.\<close>

lemma replay_cursor_complete:
  assumes "\<And>c. 0 \<le> c \<Longrightarrow> map RE_Seq (after c) = [c + 1..min hi (c + k)]" and "0 < k"
    and "0 \<le> next" and "next \<le> through" and "through \<le> hi"
  shows "\<exists>out. replay_cursor jl (\<lambda>e. True) after rid through next sent =
      (sent @ map (runtimeEventEnvelope jl) out, None) \<and>
    map RE_Seq out = [next + 1..through] \<and> (\<forall>ev \<in> set out. \<exists>c. ev \<in> set (after c))"
  using assms(3,4)
proof (induction "nat (through - next)" arbitrary: "next" sent rule: less_induct)
  case less
  show ?case
  proof (cases "next < through")
    case True
    let ?m = "min hi (next + k)"
    have page: "map RE_Seq (after next) = [next + 1..?m]" by (rule assms(1) [OF less.prems(1)])
    have lt: "next < ?m" using True assms(2,5) by simp
    then have "after next \<noteq> []" using page by (metis list.map_disc_iff upto_Nil not_less zless_imp_add1_zle)
    have "next \<le> ?m" "next \<le> through" using lt True by simp_all
    from replay_batch_page [OF page this, where jl = jl and rid = rid and sent = sent and p = False]
    obtain out1 where b: "replay_batch jl (\<lambda>e. True) rid through (after next) next sent False =
        (min ?m through, sent @ map (runtimeEventEnvelope jl) out1, out1 \<noteq> [], None)"
      "map RE_Seq out1 = [next + 1..min ?m through]" "set out1 \<subseteq> set (after next)"
      by auto
    have lt': "next < min ?m through" using lt True by simp
    then have "out1 \<noteq> []" using b(2) by (metis list.map_disc_iff upto_Nil not_less zless_imp_add1_zle)
    have "nat (through - min ?m through) < nat (through - next)" "0 \<le> min ?m through" "min ?m through \<le> through"
      using lt' less.prems(1) by linarith+
    from less.hyps [OF this, of "sent @ map (runtimeEventEnvelope jl) out1"] obtain out2 where
      r: "replay_cursor jl (\<lambda>e. True) after rid through (min ?m through) (sent @ map (runtimeEventEnvelope jl) out1) =
        (sent @ map (runtimeEventEnvelope jl) (out1 @ out2), None)"
      "map RE_Seq out2 = [min ?m through + 1..through]" "\<forall>ev \<in> set out2. \<exists>c. ev \<in> set (after c)"
      by auto
    have "[next + 1..through] = [next + 1..min ?m through] @ [min ?m through + 1..through]"
      using lt' by (intro upto_split2) simp_all
    moreover have "replay_cursor jl (\<lambda>e. True) after rid through next sent =
        (sent @ map (runtimeEventEnvelope jl) (out1 @ out2), None)"
      using True \<open>after next \<noteq> []\<close> \<open>out1 \<noteq> []\<close> by (subst replay_cursor.simps) (simp add: b(1) r(1))
    ultimately show ?thesis using b(2,3) r(2,3) by (intro exI [of _ "out1 @ out2"]) auto
  next
    case False
    then have "next = through" using less.prems(2) by simp
    then show ?thesis by (intro exI [of _ "[]"]) (simp add: replay_cursor.simps)
  qed
qed

section \<open>The handshake\<close>

definition missing_cursors :: "string \<Rightarrow> string \<Rightarrow> RunEventBroker \<Rightarrow> RunHead list \<Rightarrow> RunReplayCursor list" where
  "missing_cursors a d b heads =
     map (\<lambda>h. \<lparr>Cur_RunID = Head_RunID h, Cur_AfterSeq = Head a d (Head_RunID h) b, Cur_ThroughSeq = Head_LastSeq h\<rparr>)
       (filter (\<lambda>h. Head a d (Head_RunID h) b < Head_LastSeq h) heads)"

lemma missing_loop_ok:
  assumes "\<forall>h \<in> set heads. Head_RunID h \<noteq> [] \<and> 0 \<le> Head_LastSeq h" and "distinct (map Head_RunID heads)"
    and "Head_RunID ` set heads \<inter> set seen = {}"
  shows "missing_loop a d b seen heads out = Inr (out @ missing_cursors a d b heads)"
  using assms
proof (induction heads arbitrary: seen out)
  case (Cons h heads)
  have "Head_RunID ` set heads \<inter> set (Head_RunID h # seen) = {}" using Cons.prems(2,3) by auto
  moreover have "\<not> (Head_RunID h = [] \<or> Head_LastSeq h < 0)" "Head_RunID h \<notin> set seen"
    using Cons.prems(1,3) by auto
  ultimately show ?case
    using Cons.IH Cons.prems(1,2) by (simp add: missing_cursors_def Head_def)
qed (simp add: missing_cursors_def)

lemma List_runs_facts:
  assumes "runs_wf m"
  shows "distinct (map AR_ID (List_runs k m))" and "set (List_runs k m) \<subseteq> snapshotLocked ` set (m_runs m)"
    and "0 < k \<Longrightarrow> length (List_runs k m) \<le> nat k"
proof -
  let ?all = "foldr (insert_by newer_run) (map snapshotLocked (m_runs m)) []"
  have ms: "mset ?all = mset (map snapshotLocked (m_runs m))" by (rule mset_insert_all)
  then have "mset (map AR_ID ?all) = mset (map AR_ID (map snapshotLocked (m_runs m)))"
    by (simp only: mset_map)
  moreover have "map AR_ID (map snapshotLocked (m_runs m)) = map rs_id (m_runs m)"
    by (simp add: snapshotLocked_def)
  ultimately have dist: "distinct (map AR_ID ?all)"
    using assms by (metis runs_wf_def mset_eq_imp_distinct_iff)
  have set_all: "set ?all = snapshotLocked ` set (m_runs m)" using mset_eq_setD [OF ms] by simp
  have pre: "List_runs k m = ?all \<or> (0 < k \<and> List_runs k m = take (nat k) ?all)"
    by (auto simp: List_runs_def Let_def)
  then show "distinct (map AR_ID (List_runs k m))" using dist by (auto simp: take_map [symmetric])
  show "set (List_runs k m) \<subseteq> snapshotLocked ` set (m_runs m)"
    using pre set_all set_take_subset [of "nat k" ?all] by auto
  show "length (List_runs k m) \<le> nat k" if "0 < k" using that by (auto simp: List_runs_def Let_def)
qed

lemma run_heads_facts:
  assumes "runs_wf m"
  shows "distinct (map Head_RunID (run_heads m))" and "length (run_heads m) \<le> maxRunSyncHeads"
    and "h \<in> set (run_heads m) \<Longrightarrow> Head_RunID h \<noteq> [] \<and> 0 < Head_LastSeq h \<and>
      (\<exists>rs. lookup_run m (Head_RunID h) = Some rs \<and> Head_LastSeq h = rs_eventSeq rs)"
proof -
  note facts = List_runs_facts [OF assms, of "int maxRunSyncHeads"]
  show "distinct (map Head_RunID (run_heads m))"
    using facts(1) by (simp add: run_heads_def comp_def distinct_map_filter)
  have "length (run_heads m) \<le> length (List_runs (int maxRunSyncHeads) m)"
    unfolding run_heads_def length_map by (rule length_filter_le)
  then show "length (run_heads m) \<le> maxRunSyncHeads" using facts(3) by simp
  assume "h \<in> set (run_heads m)"
  then obtain rs where rs: "rs \<in> set (m_runs m)" "Head_RunID h = rs_id rs" "Head_LastSeq h = rs_eventSeq rs"
    "rs_id rs \<noteq> []" "0 < rs_eventSeq rs"
    using facts(2) by (fastforce simp: run_heads_def snapshotLocked_def)
  moreover have "lookup_run m (rs_id rs) = Some rs"
    using assms rs(1) unfolding lookup_run_def by (intro lookup_row_unique) (simp add: runs_wf_def)
  ultimately show "Head_RunID h \<noteq> [] \<and> 0 < Head_LastSeq h \<and>
      (\<exists>rs. lookup_run m (Head_RunID h) = Some rs \<and> Head_LastSeq h = rs_eventSeq rs)"
    by simp
qed

text \<open>What the client sends for a list of cursors: one part per cursor.\<close>

definition part_ok :: "string \<Rightarrow> string \<Rightarrow> RunReplayCursor \<Rightarrow> RunEvent list \<Rightarrow> bool" where
  "part_ok a d c evs \<longleftrightarrow> map RE_Seq evs = [Cur_AfterSeq c + 1..Cur_ThroughSeq c] \<and>
     (\<forall>ev \<in> set evs. valid_event a d ev \<and> RE_RunID ev = Cur_RunID c)"

lemma part_seqs:
  assumes "part_ok a d c evs"
  shows "map (\<lambda>e. (RE_RunID e, RE_Seq e)) evs = map (Pair (Cur_RunID c)) [Cur_AfterSeq c + 1..Cur_ThroughSeq c]"
proof -
  have "map (\<lambda>e. (RE_RunID e, RE_Seq e)) evs = map (Pair (Cur_RunID c)) (map RE_Seq evs)"
    unfolding map_map using assms by (intro map_cong) (auto simp: part_ok_def)
  also have "map RE_Seq evs = [Cur_AfterSeq c + 1..Cur_ThroughSeq c]" using assms by (simp add: part_ok_def)
  finally show ?thesis .
qed

lemma envelope_fields [simp]:
  "RE_Seq (runtimeEventEnvelope jl ev) = RE_Seq ev" "RE_RunID (runtimeEventEnvelope jl ev) = RE_RunID ev"
  "RE_Kind (runtimeEventEnvelope jl ev) = RE_Kind ev"
  by (simp_all add: runtimeEventEnvelope_def)

lemma replay_loop_parts:
  assumes reach: "run_reach True s" and st: "m_store (sys_m s) = Some st" and ad: "a \<noteq> []" "d \<noteq> []"
    and cs: "\<forall>c \<in> set cs. Cur_RunID c \<noteq> [] \<and> 0 \<le> Cur_AfterSeq c \<and> Cur_AfterSeq c \<le> Cur_ThroughSeq c \<and>
      Cur_ThroughSeq c \<le> lastSeq_store (Some st) (Cur_RunID c)"
  shows "\<exists>parts. replay_loop jl (\<lambda>e. True) (sys_m s) cs sent = (sent @ concat parts, None) \<and>
    list_all2 (part_ok a d) cs parts"
  using cs
proof (induction cs arbitrary: sent)
  case (Cons c cs)
  let ?after = "\<lambda>next. EventsAfter_run True (Cur_RunID c) next runReplayBatchSize (sys_m s)"
  have c: "Cur_RunID c \<noteq> []" "0 \<le> Cur_AfterSeq c" "Cur_AfterSeq c \<le> Cur_ThroughSeq c"
    "Cur_ThroughSeq c \<le> lastSeq_store (Some st) (Cur_RunID c)" using Cons.prems by simp_all
  have after: "?after x = eventsAfter_store st (Cur_RunID c) x runReplayBatchSize" for x
    using st by (simp add: EventsAfter_run_def)
  have rows: "rows_ok (st_events st)" by (rule reach_store(1) [OF reach st])
  have "map RE_Seq (?after x) = [x + 1..min (lastSeq_store (Some st) (Cur_RunID c)) (x + runReplayBatchSize)]"
    if "0 \<le> x" for x using eventsAfter_store_seqs [OF rows that] by (simp add: after storePageLimit_def)
  from replay_cursor_complete [of ?after, OF this _ c(2,3,4), where jl = jl and rid = "Cur_RunID c" and sent = sent]
  obtain out where out: "replay_cursor jl (\<lambda>e. True) ?after (Cur_RunID c) (Cur_ThroughSeq c) (Cur_AfterSeq c) sent =
      (sent @ map (runtimeEventEnvelope jl) out, None)"
    "map RE_Seq out = [Cur_AfterSeq c + 1..Cur_ThroughSeq c]" "\<forall>ev \<in> set out. \<exists>x. ev \<in> set (?after x)"
    by auto
  have "RE_RunID ev = Cur_RunID c \<and> RE_Kind ev \<noteq> []" if ev: "ev \<in> set out" for ev
  proof -
    obtain x where "ev \<in> set (?after x)" using bspec [OF out(3) ev] by (rule exE)
    then have "ev \<in> set (eventsAfter_store st (Cur_RunID c) x runReplayBatchSize)" by (simp only: after)
    then obtain r where "r \<in> set (st_events st)" "rer_run_id r = Cur_RunID c" "ev = scan_run_event r"
      by (auto simp: eventsAfter_store_def dest!: in_set_takeD)
    moreover have "pred_option kinds_ok (m_store (sys_m s))" by (rule stored_kinds.reach_stored [OF reach])
    ultimately show ?thesis using st by (simp add: kinds_ok_def scan_run_event_def)
  qed
  moreover have "0 < RE_Seq ev" if "ev \<in> set out" for ev
  proof -
    have "RE_Seq ev \<in> set (map RE_Seq out)" using that by simp
    then show ?thesis unfolding out(2) using c(2) by simp
  qed
  ultimately have "part_ok a d c (map (runtimeEventEnvelope jl) out)"
    using out(2) c(1) ad by (simp add: part_ok_def valid_event_def comp_def)
  moreover obtain parts where "replay_loop jl (\<lambda>e. True) (sys_m s) cs (sent @ map (runtimeEventEnvelope jl) out) =
      ((sent @ map (runtimeEventEnvelope jl) out) @ concat parts, None)" "list_all2 (part_ok a d) cs parts"
    using Cons.IH Cons.prems by (metis list.set_intros(2))
  ultimately show ?case
    using out(1) c by (intro exI [of _ "map (runtimeEventEnvelope jl) out # parts"]) simp
qed simp

lemma deliver_parts:
  assumes "list_all2 (part_ok a d) cs parts" and "broker_reach b"
    and "\<forall>c \<in> set cs. Cur_AfterSeq c \<le> Head a d (Cur_RunID c) b"
  shows "\<forall>c \<in> set cs. Cur_ThroughSeq c \<le> Head a d (Cur_RunID c) (deliver a d (concat parts) b)"
  using assms
proof (induction arbitrary: b rule: list_all2_induct)
  case (Cons c cs p ps)
  let ?b = "deliver a d p b"
  have reach: "broker_reach ?b" by (rule deliver_reach [OF Cons.prems(1)])
  have "max (Cur_AfterSeq c) (Cur_ThroughSeq c) \<le> Head a d (Cur_RunID c) ?b"
    by (rule deliver_in_order [OF Cons.prems(1)]) (use Cons.hyps(1) Cons.prems(2) in \<open>auto simp: part_ok_def\<close>)
  moreover have "Head a d i b \<le> Head a d i ?b" for i by (rule deliver_head_mono [OF Cons.prems(1)])
  moreover have "\<forall>c \<in> set cs. Cur_AfterSeq c \<le> Head a d (Cur_RunID c) ?b"
    using Cons.prems(2) calculation(2) by (meson list.set_intros(2) order_trans)
  ultimately show ?case
    using Cons.IH [OF reach] deliver_head_mono [OF reach, of a d "Cur_RunID c" a d "concat ps"] by simp
qed simp

text \<open>
  (C7) Reconnecting synchronises a client with the manager. For every reachable client with a working
  store and every reachable broker, the heads the client advertises are accepted, the broker's request
  is replayed without an error, what is sent is exactly the missing events of each run once and in
  order, and after accepting them the broker's head of every advertised run is at least the advertised one.
\<close>

theorem reconnect_syncs:
  assumes "run_reach True s" and "m_store (sys_m s) = Some st" and "broker_reach b" and "a \<noteq> []" and "d \<noteq> []"
  shows "\<exists>cursors sent. Missing a d (run_heads (sys_m s)) b = Inr cursors \<and>
    replayRunEvents jl (\<lambda>e. True) (sys_m s) cursors = (sent, None) \<and>
    map (\<lambda>e. (RE_RunID e, RE_Seq e)) sent =
      concat (map (\<lambda>c. map (Pair (Cur_RunID c)) [Cur_AfterSeq c + 1..Cur_ThroughSeq c]) cursors) \<and>
    (\<forall>h \<in> set (run_heads (sys_m s)). Head_LastSeq h \<le> Head a d (Head_RunID h) (deliver a d sent b))"
proof -
  let ?heads = "run_heads (sys_m s)"
  let ?cs = "missing_cursors a d b ?heads"
  have wf: "runs_wf (sys_m s)" using run_reach_wf [OF assms(1)] by (simp add: sys_wf_def)
  note heads = run_heads_facts [OF wf]
  have missing: "Missing a d ?heads b = Inr ?cs"
    using missing_loop_ok [of ?heads "[]" a d b "[]"] heads assms(4,5) by (force simp: Missing_def)
  have pos: "0 \<le> Head a d i b" for i
    using events_wf_head(3) [OF broker_reach_wf [OF assms(3)]] by (simp add: run_state_views)
  have cs: "\<forall>c \<in> set ?cs. Cur_RunID c \<noteq> [] \<and> 0 \<le> Cur_AfterSeq c \<and> Cur_AfterSeq c \<le> Cur_ThroughSeq c \<and>
      Cur_ThroughSeq c \<le> lastSeq_store (Some st) (Cur_RunID c)"
    using heads(3) reach_store(2) [OF assms(1,2)] pos by (fastforce simp: missing_cursors_def)
  from replay_loop_parts [OF assms(1,2,4,5) cs, of jl "[]"] obtain parts where
    parts: "replay_loop jl (\<lambda>e. True) (sys_m s) ?cs [] = (concat parts, None)" "list_all2 (part_ok a d) ?cs parts"
    by auto
  have "length ?cs \<le> length ?heads" unfolding missing_cursors_def length_map by (rule length_filter_le)
  then have replay: "replayRunEvents jl (\<lambda>e. True) (sys_m s) ?cs = (concat parts, None)"
    using parts(1) heads(2) by (simp add: replayRunEvents_def)
  have seqs: "map (\<lambda>e. (RE_RunID e, RE_Seq e)) (concat parts) =
      concat (map (\<lambda>c. map (Pair (Cur_RunID c)) [Cur_AfterSeq c + 1..Cur_ThroughSeq c]) ?cs)"
    using parts(2) by (induction rule: list_all2_induct) (simp_all add: part_seqs)
  have synced: "\<forall>c \<in> set ?cs. Cur_ThroughSeq c \<le> Head a d (Cur_RunID c) (deliver a d (concat parts) b)"
    by (rule deliver_parts [OF parts(2) assms(3)]) (simp add: missing_cursors_def)
  have "Head_LastSeq h \<le> Head a d (Head_RunID h) (deliver a d (concat parts) b)" if "h \<in> set ?heads" for h
    using synced that deliver_head_mono [OF assms(3), of a d "Head_RunID h" a d "concat parts"]
    by (fastforce simp: missing_cursors_def)
  with missing replay seqs show ?thesis by blast
qed

theorem reconnect_syncs_witness:
  "\<exists>cursors sent. Missing ''alice'' ''dev'' (run_heads sample_m1) NewRunEventBroker = Inr cursors \<and>
     replayRunEvents (\<lambda>e. 0) (\<lambda>e. True) sample_m1 cursors = (sent, None) \<and>
     1 \<le> Head ''alice'' ''dev'' ''run_a'' (deliver ''alice'' ''dev'' sent NewRunEventBroker)"
proof -
  have st: "m_store (sys_m sample_sys) = Some (the (m_store sample_m1))"
    unfolding sample_sys_def by code_simp
  have head: "\<lparr>Head_RunID = ''run_a'', Head_LastSeq = 1, Head_Status = RunQueued\<rparr> \<in> set (run_heads sample_m1)"
    by code_simp
  have "''alice'' \<noteq> []" "''dev'' \<noteq> []" by simp_all
  note sync = reconnect_syncs [OF sample_reach st broker_reach.new_broker this, of "\<lambda>e. 0"]
  then show ?thesis using head unfolding sample_sys_def run_sys.simps by fastforce
qed

section \<open>Cancelling a restored run\<close>

lemma load_runs_no_stop:
  assumes "\<forall>rs \<in> set runs. \<not> rs_lifeStop rs"
  shows "\<forall>rs \<in> set (load_runs cap st snaps runs). \<not> rs_lifeStop rs"
  using assms unfolding load_runs_def
proof (induction snaps arbitrary: runs)
  case (Cons snap snaps)
  let ?new = "loadedRunState (snap\<lparr>AR_LastSeq := lastSeq_store (Some st) (AR_ID snap)\<rparr>) cap
    (lastSeq_store (Some st) (AR_ID snap))"
  have "\<not> rs_lifeStop ?new" by (simp add: loadedRunState_def)
  then have "\<forall>rs \<in> set (upsert_row rs_id (\<lambda>old new. new) ?new runs). \<not> rs_lifeStop rs"
    using Cons.prems by (auto simp: upsert_row_def)
  from Cons.IH [OF this] show ?case by simp
qed simp

text \<open>
  (C13) A run that was rebuilt from the store has no context to stop: \<open>lifeStop\<close> is the nil function there,
  and cancelling such a run calls it, which panics.
\<close>

theorem cancel_restored_panics:
  assumes "lookup_run (NewRunManager now n cap (Some st)) i = Some rs"
  shows "Cancel i (NewRunManager now n cap (Some st)) = (NewRunManager now n cap (Some st), CancelPanic)"
proof -
  let ?m = "NewRunManager now n cap (Some st)"
  have "\<forall>rs \<in> set (m_runs ?m). \<not> rs_lifeStop rs"
    using load_runs_no_stop [of "[]"] by (simp add: NewRunManager_def Let_def)
  moreover have "rs \<in> set (m_runs ?m)"
    using assms lookup_row_Some [of rs_id "m_runs ?m" i rs] by (simp add: lookup_run_def)
  ultimately show ?thesis using assms by (simp add: Cancel_def)
qed

theorem cancel_restored_panics_witness:
  "snd (Cancel ''run_a'' (NewRunManager 7 2 3 (m_store sample_m1))) = CancelPanic"
proof -
  have "m_store sample_m1 = Some (the (m_store sample_m1))"
    "lookup_run (NewRunManager 7 2 3 (Some (the (m_store sample_m1)))) ''run_a'' =
      Some (the (lookup_run (NewRunManager 7 2 3 (Some (the (m_store sample_m1)))) ''run_a''))"
    by code_simp+
  with cancel_restored_panics [OF this(2)] show ?thesis by (metis snd_conv)
qed

end
