(* ===== verification/RunCrash.thy ===== *)
theory RunCrash
  imports RunProperties
begin

text \<open>
  A process that dies in the middle of its writes. The event of a run and the row of the run are separate
  statements (\<open>Start\<close>, \<open>transitionLocked\<close>), and so are the events and the update of a recovery
  (\<open>recordInterruptedRunEvents\<close>, \<open>openRunStore\<close>), so the file that the next process opens may hold the first ones
  only. What that process then finds of every run is the property of this theory.
\<close>

section \<open>The file a dead process leaves\<close>

definition stale_ids :: "runStore \<Rightarrow> string list" where
  "stale_ids st = map arr_id (filter (\<lambda>r. arr_status r \<in> set [RunQueued, RunRunning]) (st_runs st))"

text \<open>A recovery that dies after \<open>j\<close> of its \<open>INSERT\<close> statements.\<close>

definition cut_recovery :: "gotime \<Rightarrow> nat \<Rightarrow> runStore \<Rightarrow> runStore" where
  "cut_recovery now j st = st\<lparr>st_events := record_interrupted now (take j (stale_ids st)) (st_events st)\<rparr>"

lemma whole_recovery: "length (stale_ids st) \<le> j \<Longrightarrow> cut_recovery now j st = recordInterruptedRunEvents now st"
  by (simp add: cut_recovery_def recordInterruptedRunEvents_def stale_ids_def)

text \<open>
  \<open>left_file s k st\<close>: a process that dies in state \<open>s\<close>, between two critical sections or within the one that comes
  next, after its event and before its row, leaves the file \<open>st\<close> when \<open>k\<close> later processes die in their recovery,
  each after any number of its events.
\<close>

inductive left_file :: "run_sys \<Rightarrow> nat \<Rightarrow> runStore \<Rightarrow> bool" for s where
  between: "m_store (sys_m s) = Some st \<Longrightarrow> left_file s 0 st"
| within: "run_step True s s' \<Longrightarrow> m_store (sys_m s) = Some st \<Longrightarrow> m_store (sys_m s') = Some st' \<Longrightarrow>
    left_file s 0 (st\<lparr>st_events := st_events st'\<rparr>)"
| recovery: "left_file s k st \<Longrightarrow> left_file s (Suc k) (cut_recovery now j st)"

text \<open>The file of the second case is the one a transition leaves that does not come to its second statement.\<close>

lemma cut_transition:
  assumes "transitionLocked io to rs m = (True, rs', m')" and "m_store m = Some st" and "m_store m' = Some st'"
  obtains rs1 m1 where "transitionLocked (io\<lparr>io_upsert_ok := False\<rparr>) to rs m = (True, rs1, m1)"
    and "m_store m1 = Some (st\<lparr>st_events := st_events st'\<rparr>)"
proof -
  let ?io = "io\<lparr>io_upsert_ok := False\<rparr>"
  let ?app = "\<lambda>io. appendRuntimeEventLocked io ''codebridge'' (runStatusEventKind to) [] (enter_status io to rs) m"
  have can: "canTransition_mgr (rs_status rs) to"
    using assms(1) by (auto simp: transitionLocked_def split: if_splits)
  have same: "?app ?io = ?app io"
    by (simp add: appendRuntimeEventLocked_def enter_status_def store_event_def Let_def)
  have "st' = (if io_upsert_ok io then upsert_store (snapshotLocked rs') (the (m_store (snd (?app io))))
      else the (m_store (snd (?app io))))" and some: "m_store (snd (?app io)) \<noteq> None"
    using assms can by (auto simp: transitionLocked_def persistLocked_def split: prod.splits if_splits)
  then have "st_events st' = st_events (the (m_store (snd (?app io))))" by (simp add: upsert_store_def)
  moreover have "st_runs (the (m_store (snd (?app io)))) = st_runs st"
    using assms(2)
    by (simp add: appendRuntimeEventLocked_def Let_def publishRuntimeEventLocked_def store_event_def appendEvent_store_def)
  ultimately have "m_store (snd (?app io)) = Some (st\<lparr>st_events := st_events st'\<rparr>)"
    using some by (auto intro: runStore.equality)
  moreover have "transitionLocked ?io to rs m = (True, fst (?app io), snd (?app io))"
    using can same by (simp add: transitionLocked_def persistLocked_def split: prod.splits)
  ultimately show thesis by (intro that)
qed

section \<open>A critical section adds at most one event\<close>

definition events_grow :: "RunManager \<Rightarrow> RunManager \<Rightarrow> bool" where
  "events_grow m m' \<longleftrightarrow>
     (\<forall>st st'. m_store m = Some st \<longrightarrow> m_store m' = Some st' \<longrightarrow>
        (\<exists>new. st_events st' = st_events st @ new \<and> length new \<le> 1))"

definition fresh_seq :: "RunManager \<Rightarrow> runState \<Rightarrow> bool" where
  "fresh_seq m rs \<longleftrightarrow>
     (\<forall>st. m_store m = Some st \<longrightarrow> (\<forall>r \<in> set (st_events st). rer_run_id r = rs_id rs \<longrightarrow> rer_seq r \<noteq> rs_eventSeq rs + 1))"

lemma fresh_cong: "rs_id rs' = rs_id rs \<Longrightarrow> rs_eventSeq rs' = rs_eventSeq rs \<Longrightarrow> fresh_seq m rs' = fresh_seq m rs"
  by (simp add: fresh_seq_def)

lemma grow_refl [simp]: "m_store m' = m_store m \<Longrightarrow> events_grow m m'"
  by (simp add: events_grow_def)

lemma grow_store: "m_store m1 = m_store m' \<Longrightarrow> events_grow m m1 = events_grow m m'"
  by (simp add: events_grow_def)

lemma append_grow:
  assumes "appendRuntimeEventLocked io src kind p rs m = (rs', m')" and "fresh_seq m rs"
  shows "events_grow m m'"
proof -
  have m': "m' = snd (appendRuntimeEventLocked io src kind p rs m)" using assms(1) by simp
  show ?thesis
    unfolding events_grow_def
  proof (intro allI impI)
    fix st st' assume st: "m_store m = Some st" and st': "m_store m' = Some st'"
    have "delete_rows (\<lambda>r. rer_run_id r = rs_id rs \<and> rer_seq r = rs_eventSeq rs + 1) (st_events st) = st_events st"
      using assms(2) st by (auto simp: fresh_seq_def delete_rows_def filter_id_conv)
    with st st' show "\<exists>new. st_events st' = st_events st @ new \<and> length new \<le> 1"
      by (auto simp: m' appendRuntimeEventLocked_def Let_def publishRuntimeEventLocked_def store_event_def
          appendEvent_store_def split: if_splits)
  qed
qed

lemma persist_grow: "events_grow m m' \<Longrightarrow> events_grow m (persistLocked io rs m')"
  by (cases "m_store m'") (auto simp: events_grow_def persistLocked_def upsert_store_def)

lemma transition_grow:
  assumes "transitionLocked io to rs m = (b, rs', m')" and "fresh_seq m rs"
  shows "events_grow m m'"
proof (cases "canTransition_mgr (rs_status rs) to")
  case True
  let ?rs = "enter_status io to rs"
  obtain rs1 m1 where app: "appendRuntimeEventLocked io ''codebridge'' (runStatusEventKind to) [] ?rs m = (rs1, m1)"
    by fastforce
  have "fresh_seq m ?rs" using assms(2) fresh_cong [of ?rs rs] by (simp add: enter_status_simps)
  from append_grow [OF app this] assms(1) app True show ?thesis
    by (auto simp: transitionLocked_def intro: persist_grow)
qed (use assms(1) in \<open>simp add: transitionLocked_def\<close>)

lemma finish_grow:
  assumes "fresh_seq m rs"
  shows "events_grow m (finish io st out err rs m)"
proof -
  let ?st = "if \<not> canTransition_mgr (rs_status rs) st then RunCancelled else st"
  let ?rs = "rs\<lparr>rs_output := truncateText out subagentMaxOutput, rs_errText := (case err of None \<Rightarrow> [] | Some e \<Rightarrow> e)\<rparr>"
  obtain b rs' m' where tr: "transitionLocked io ?st ?rs m = (b, rs', m')" by (metis prod_cases3)
  have "finish io st out err rs m \<in> {m, put_run (rs'\<lparr>rs_cancelled := True\<rparr>) m'}"
    unfolding finish_def Let_def tr by simp
  moreover have "fresh_seq m ?rs" using assms by (simp add: fresh_seq_def)
  from transition_grow [OF tr this] have "events_grow m (put_run (rs'\<lparr>rs_cancelled := True\<rparr>) m')"
    by (simp add: events_grow_def)
  ultimately show ?thesis by auto
qed

lemma record_grow:
  assumes "fresh_seq m rs"
  shows "events_grow m (recordEvent io line rs m)"
proof -
  let ?len = "length (rs_events rs)"
  let ?rs = "rs\<lparr>rs_events := (rs_events rs)[rs_eventNext rs mod ?len := line], rs_eventNext := rs_eventNext rs + 1,
    rs_eventKept := (if rs_eventKept rs < ?len then rs_eventKept rs + 1 else rs_eventKept rs),
    rs_eventTotal := rs_eventTotal rs + 1, rs_lastEvent := line\<rparr>"
  obtain rs' m' where app: "appendRuntimeEventLocked io (Spec_Client (rs_spec ?rs)) ''harness.raw'' line ?rs m = (rs', m')"
    by fastforce
  have "recordEvent io line rs m \<in> {m, put_run rs' m'}"
    unfolding recordEvent_def Let_def app by simp
  moreover have "fresh_seq m ?rs" using assms by (simp add: fresh_seq_def)
  from append_grow [OF app this] have "events_grow m (put_run rs' m')" by (simp add: events_grow_def)
  ultimately show ?thesis by auto
qed

lemma durable_fresh:
  assumes "durable m" and "lookup_run m i = Some rs"
  shows "fresh_seq m rs"
proof -
  have "rer_seq r \<noteq> rs_eventSeq rs + 1"
    if "m_store m = Some st" "r \<in> set (st_events st)" "rer_run_id r = rs_id rs" for st r
    using durable_store(1,2) [OF assms(1) that(1)] assms(2) rows_ok_fresh [of "st_events st" "rs_eventSeq rs + 1" "rs_id rs"]
      that(2,3) by (auto simp: store_inv_def run_sync_def)
  then show ?thesis by (simp add: fresh_seq_def)
qed

lemma durable_new_fresh:
  assumes "durable m" and "lookup_run m i = None" and "rs_id rs = i"
  shows "fresh_seq m rs"
  using durable_store(3) [OF assms(1) _ assms(2)] assms(3)
  by (auto simp: fresh_seq_def run_rows_def filter_empty_conv)

lemma go_step_grow: "go_step rel s s' \<Longrightarrow> durable (sys_m s) \<Longrightarrow> events_grow (sys_m s) (sys_m s')"
proof (induction rule: go_step.induct)
  case (give_up s k rs io)
  then obtain i where "lookup_run (sys_m s) i = Some rs" using at_pc_lookup by blast
  then show ?case using give_up(4) by (simp add: finish_grow durable_fresh)
next
  case (slot_cancelled s k rs io)
  then obtain i where "lookup_run (sys_m s) i = Some rs" using at_pc_lookup by blast
  then show ?case using slot_cancelled(4) by (simp add: finish_grow durable_fresh)
next
  case (begin_run s k rs io started rs' m')
  have "fresh_seq (sys_m s) rs" using at_pc_lookup [OF begin_run(1)] durable_fresh [OF begin_run(4)] by blast
  from transition_grow [OF begin_run(3) this] show ?case by (simp add: events_grow_def)
next
  case (exec_return s k rs io ctx quote res execErr)
  obtain st out err where
    eq: "finishOutcome quote io ctx res execErr rs (sys_m s) = finish io st out err rs (sys_m s)"
    using finishOutcome_finish [of quote io ctx res execErr] by blast
  have "fresh_seq (sys_m s) rs" using at_pc_lookup [OF exec_return(1)] durable_fresh [OF exec_return(4)] by blast
  then show ?case by (simp add: eq finish_grow)
qed simp_all

lemma run_step_grow:
  "run_step rel s s' \<Longrightarrow> sys_wf s \<Longrightarrow> durable (sys_m s) \<Longrightarrow> events_grow (sys_m s) (sys_m s')"
proof (induction rule: run_step.induct)
  case (start profiles preflight ctx_ok io i spec s m' snap)
  have cap: "0 < m_eventCapacity (sys_m s)" using start(4) by (simp add: sys_wf_def runs_wf_def)
  let ?new = "new_run (m_eventCapacity (sys_m s)) i (normalizeRunSpec profiles spec)"
  obtain rs m1 where m': "m' = persistLocked io rs (put_run rs m1)"
    and app: "appendRuntimeEventLocked io ''codebridge'' ''run.queued'' [] ?new (sys_m s) = (rs, m1)"
    by (rule Start_effect [OF start(1) cap])
  have "fresh_seq (sys_m s) ?new" by (rule durable_new_fresh [OF start(5,2)]) (simp add: new_run_def)
  from append_grow [OF app this] have "events_grow (sys_m s) (put_run rs m1)" by (simp add: events_grow_def)
  then show ?case by (simp add: m' persist_grow)
next
  case (go s s')
  then show ?case by (simp add: go_step_grow)
next
  case (record_line s i rs io line)
  then show ?case by (simp add: record_grow durable_fresh)
next
  case (cancel i s m' r)
  then have "m_store m' = m_store (sys_m s)" by (auto simp: Cancel_def split: option.splits if_splits)
  then show ?case by simp
next
  case (get i s m' r)
  then have "m_store m' = m_store (sys_m s)"
    by (auto simp: Get_def cacheLoaded_def Let_def split: option.splits)
  then show ?case by simp
next
  case (subscribe i n s m' r)
  then have "m_store m' = m_store (sys_m s)" by (auto simp: SubscribeEvents_def Let_def split: if_splits)
  then show ?case by simp
qed (simp_all add: cancelSubscription_def Close_def)

section \<open>What the next process finds\<close>

text \<open>The events a crash adds to the journal of a run: at most one of the cut section, then those of cut recoveries.\<close>

definition crash_events :: "runState \<Rightarrow> nat \<Rightarrow> run_event_row list \<Rightarrow> run_event_row list \<Rightarrow> bool" where
  "crash_events rs k torn ints \<longleftrightarrow>
     length torn \<le> 1 \<and> length ints \<le> k \<and> list_all (\<lambda>r. rer_kind r = ''run.interrupted'') ints \<and>
     (terminalRunStatus (rs_status rs) \<longrightarrow> torn = [] \<and> ints = [])"

definition left_ok :: "run_sys \<Rightarrow> nat \<Rightarrow> runStore \<Rightarrow> runStore \<Rightarrow> bool" where
  "left_ok s k st0 st \<longleftrightarrow>
     store_inv st \<and> st_runs st = st_runs st0 \<and>
     (\<forall>i rs. lookup_run (sys_m s) i = Some rs \<longrightarrow>
        (\<exists>torn ints. run_rows (st_events st) i = run_rows (st_events st0) i @ torn @ ints \<and> crash_events rs k torn ints))"

lemma within_ok:
  assumes reach: "run_reach True s" and step: "run_step True s s'"
    and st: "m_store (sys_m s) = Some st" "m_store (sys_m s') = Some st'"
  shows "left_ok s 0 st (st\<lparr>st_events := st_events st'\<rparr>)"
proof -
  have wf: "sys_wf s" and d: "durable (sys_m s)" by (rule run_reach_wf [OF reach], rule run_reach_durable [OF reach])
  have d': "durable (sys_m s')" by (rule run_reach_durable [OF run_reach.step [OF reach step]])
  note inv = durable_store(1) [OF d st(1)] durable_store(1) [OF d' st(2)]
  obtain new where new: "st_events st' = st_events st @ new" "length new \<le> 1"
    using run_step_grow [OF step wf d] st unfolding events_grow_def by blast
  have "run_rows new i = []" if look: "lookup_run (sys_m s) i = Some rs" and tm: "terminalRunStatus (rs_status rs)" for i rs
  proof -
    obtain rs' where rs': "lookup_run (sys_m s') i = Some rs'" "run_evolves rs rs'"
      using run_step_evolves [OF step wf] look unfolding evolves_def by blast
    then have "rs_eventSeq rs' = rs_eventSeq rs" using tm by (simp add: run_evolves_def snapshotLocked_def)
    moreover have "rs_id rs = i" "rs_id rs' = i" using lookup_run_id look rs'(1) by auto
    ultimately have "length (run_rows (st_events st') i) = length (run_rows (st_events st) i)"
      using durable_store(2) [OF d st(1) look] durable_store(2) [OF d' st(2) rs'(1)] by (simp add: run_sync_def)
    then show ?thesis by (simp add: new(1) run_rows_def)
  qed
  moreover have "length (run_rows new i) \<le> 1" for i
    unfolding run_rows_def by (rule le_trans [OF length_filter_le new(2)])
  ultimately have "\<exists>torn ints. run_rows (st_events st') i = run_rows (st_events st) i @ torn @ ints \<and> crash_events rs 0 torn ints"
    if "lookup_run (sys_m s) i = Some rs" for i rs
    using that by (intro exI [of _ "run_rows new i"] exI [of _ "[]"]) (simp add: new(1) run_rows_def crash_events_def)
  with inv show ?thesis by (simp add: left_ok_def store_inv_def)
qed

lemma recovery_ok:
  assumes ok: "left_ok s k st0 st" and d: "durable (sys_m s)" and st0: "m_store (sys_m s) = Some st0"
  shows "left_ok s (Suc k) st0 (cut_recovery now j st)"
proof -
  have inv: "store_inv st" and runs: "st_runs st = st_runs st0" using ok by (simp_all add: left_ok_def)
  have dist: "distinct (take j (stale_ids st))"
    using inv by (simp add: stale_ids_def store_inv_def distinct_map_filter)
  have rows_ok: "rows_ok (st_events st)" using inv by (simp add: store_inv_def)
  note rec = record_interrupted_rows [OF dist rows_ok, of now]
  have "\<exists>torn ints. run_rows (st_events (cut_recovery now j st)) i = run_rows (st_events st0) i @ torn @ ints \<and>
      crash_events rs (Suc k) torn ints" if look: "lookup_run (sys_m s) i = Some rs" for i rs
  proof -
    obtain torn ints where c: "run_rows (st_events st) i = run_rows (st_events st0) i @ torn @ ints" "crash_events rs k torn ints"
      using ok look unfolding left_ok_def by blast
    let ?more = "if i \<in> set (take j (stale_ids st))
      then [interrupted_event now i (int (length (run_rows (st_events st) i)) + 1)] else []"
    obtain row where row: "row \<in> set (st_runs st)" "arr_id row = i" "arr_status row = rs_status rs"
      using durable_store(2) [OF d st0 look] lookup_run_id [OF look] runs by (auto simp: run_sync_def)
    have "rs_status rs \<in> set [RunQueued, RunRunning]" if "i \<in> set (take j (stale_ids st))"
    proof -
      have "i \<in> set (stale_ids st)" using that by (rule in_set_takeD)
      then have "\<exists>r \<in> set (st_runs st). arr_id r = i \<and> arr_status r \<in> set [RunQueued, RunRunning]"
        by (auto simp: stale_ids_def)
      with stale_row_iff [OF inv row(1,2), of "\<lambda>s. s \<in> set [RunQueued, RunRunning]"] row(3) show ?thesis by simp
    qed
    then have "crash_events rs (Suc k) torn (ints @ ?more)"
      using c(2) by (auto simp: crash_events_def interrupted_event_def)
    moreover have "run_rows (st_events (cut_recovery now j st)) i = run_rows (st_events st0) i @ torn @ ints @ ?more"
      using rec c(1) by (simp add: cut_recovery_def)
    ultimately show ?thesis by blast
  qed
  with rec inv runs show ?thesis by (simp add: left_ok_def store_inv_def cut_recovery_def)
qed

lemma left_file_ok:
  "left_file s k st \<Longrightarrow> run_reach True s \<Longrightarrow> m_store (sys_m s) = Some st0 \<Longrightarrow> left_ok s k st0 st"
proof (induction rule: left_file.induct)
  case (between st)
  then show ?case
    using durable_store(1) [OF run_reach_durable] by (auto simp: left_ok_def crash_events_def)
next
  case (within s' st st')
  then show ?case using within_ok by simp
next
  case (recovery k st now j)
  then show ?case using recovery_ok run_reach_durable by blast
qed

text \<open>
  (C12) A crash loses no run. A process whose store statements all succeed dies in any reachable state, between two
  critical sections or after the event and before the row of the one that comes next, and any number \<open>k\<close> of later
  processes die while they recover, each after any number of its events. The process that then opens the store
  finds every run of the old one. A finished run has kept its status and its journal. A run that was queued or
  running is interrupted, and its journal, still numbered from one without a gap, is the old one followed by at most
  one event of the cut section and then by one to \<open>k + 1\<close> events that say so: by exactly one such event and nothing
  else when the crash came between two critical sections and no recovery was cut.
\<close>

theorem restart_recovers:
  assumes "run_reach True s" and "m_store (sys_m s) = Some st0" and "left_file s k st"
    and "lookup_run (sys_m s) i = Some rs"
  shows "\<exists>rs' torn ints. lookup_run (NewRunManager now n cap (Some st)) i = Some rs' \<and>
    rs_status rs' = (if terminalRunStatus (rs_status rs) then rs_status rs else RunInterrupted) \<and>
    filter (\<lambda>r. rer_run_id r = i) (st_events (openRunStore now st)) =
      filter (\<lambda>r. rer_run_id r = i) (st_events st0) @ torn @ ints \<and>
    map rer_seq (filter (\<lambda>r. rer_run_id r = i) (st_events (openRunStore now st))) = [1..rs_eventSeq rs'] \<and>
    (if terminalRunStatus (rs_status rs) then torn = [] \<and> ints = []
     else length torn \<le> 1 \<and> 1 \<le> length ints \<and> length ints \<le> k + 1 \<and>
       list_all (\<lambda>r. rer_kind r = ''run.interrupted'') ints \<and>
       (st = st0 \<longrightarrow> torn = [] \<and> ints = [interrupted_event now i (rs_eventSeq rs + 1)]))"
proof -
  have d: "durable (sys_m s)" and wf: "runs_wf (sys_m s)"
    using run_reach_durable [OF assms(1)] run_reach_wf [OF assms(1)] by (simp_all add: sys_wf_def)
  note ok = left_file_ok [OF assms(3,1,2)]
  have inv: "store_inv st" and runs: "st_runs st = st_runs st0" using ok by (simp_all add: left_ok_def)
  obtain torn ints where c: "run_rows (st_events st) i = run_rows (st_events st0) i @ torn @ ints" "crash_events rs k torn ints"
    using ok assms(4) unfolding left_ok_def by blast
  note sync = durable_store(2) [OF d assms(2,4)] and i = lookup_run_id [OF assms(4)]
  obtain row where row: "lookup_row arr_id (st_runs st) i = Some row" "arr_status row = rs_status rs"
    using store_row [OF durable_store(1) [OF d assms(2)] sync] i runs by metis
  have known: "arr_status row \<in> set RunStatuses"
    using runs_wf_lookup [OF wf assms(4)] row(2) by (simp add: rs_ok_def)
  let ?rows = "run_rows (st_events (openRunStore now st)) i"
  let ?last = "interrupted_event now i (int (length (run_rows (st_events st) i)) + 1)"
  obtain rs' where rs': "lookup_run (NewRunManager now n cap (Some st)) i = Some rs'"
      "rs_status rs' = (if terminalRunStatus (rs_status rs) then rs_status rs else RunInterrupted)"
      "rs_eventSeq rs' = int (length ?rows)"
    and rows: "?rows = run_rows (st_events st) i @ (if terminalRunStatus (rs_status rs) then [] else [?last])"
    using reopen_lookup [OF inv row(1) known, where now = now and n = n and cap = cap] row(2) by metis
  have seqs: "map rer_seq ?rows = [1..rs_eventSeq rs']"
    using openRunStore_events(1) [OF inv, of now] rs'(3) by (simp add: store_inv_def rows_ok_def)
  have len: "int (length (run_rows (st_events st0) i)) = rs_eventSeq rs" using sync i by (simp add: run_sync_def)
  let ?new = "if terminalRunStatus (rs_status rs) then [] else [?last]"
  have "?rows = run_rows (st_events st0) i @ torn @ (ints @ ?new)" by (simp add: rows c(1))
  moreover have "if terminalRunStatus (rs_status rs) then torn = [] \<and> ints @ ?new = []
     else length torn \<le> 1 \<and> 1 \<le> length (ints @ ?new) \<and> length (ints @ ?new) \<le> k + 1 \<and>
       list_all (\<lambda>r. rer_kind r = ''run.interrupted'') (ints @ ?new) \<and>
       (st = st0 \<longrightarrow> torn = [] \<and> ints @ ?new = [interrupted_event now i (rs_eventSeq rs + 1)])"
    using c len by (auto simp: crash_events_def interrupted_event_def)
  ultimately show ?thesis using rs'(1,2) seqs unfolding run_rows_def by blast
qed

theorem restart_recovers_witness:
  "left_file sample_sys 1 (cut_recovery 5 1 (the (m_store sample_m1))) \<and>
   (\<exists>rs' (ints :: run_event_row list). lookup_run (NewRunManager 7 2 3 (Some (cut_recovery 5 1 (the (m_store sample_m1))))) ''run_a'' = Some rs' \<and>
     rs_status rs' = RunInterrupted \<and> 1 \<le> length ints \<and> length ints \<le> 1 + 1 \<and>
     list_all (\<lambda>r. rer_kind r = ''run.interrupted'') ints)"
proof -
  have st: "m_store (sys_m sample_sys) = Some (the (m_store sample_m1))"
    unfolding sample_sys_def by code_simp
  then have left: "left_file sample_sys 1 (cut_recovery 5 1 (the (m_store sample_m1)))"
    using left_file.recovery [OF left_file.between, of sample_sys _ 5 1] by simp
  have look: "lookup_run (sys_m sample_sys) ''run_a'' = Some sample_rs"
    using sample_lookup by (simp add: sample_sys_def)
  have live: "terminalRunStatus RunQueued = False" by simp
  show ?thesis
    using restart_recovers [OF sample_reach st left look, of 7 2 3] left
    unfolding sample_lookup(2) live if_False by blast
qed

end
