(* ===== verification/Permissions.thy ===== *)
theory Permissions
  imports Subagent "HOL-Library.Multiset"
begin

text \<open>
  The permission gate of the agent tools: the rule list and the parked requests
  (\<open>internal/agentops/permissions.go\<close>), the bash tool that consults them (\<open>internal/agentops/bash.go\<close>)
  and the admission check of subagent runs (\<open>subagentPreflight\<close> in \<open>run_manager.go\<close>).

  The package variable \<open>perms\<close> is a record that every operation takes and returns. A Go map is a list
  in the order of an iteration; since that order is unspecified, the step relation below may permute it
  between any two operations. The random request identifier, the clock readings, the resolved workspace
  root and the configured profiles are arguments.
\<close>

section \<open>State\<close>

record PermissionRule =
  Rule_Effect :: string
  Rule_Tool :: string
  Rule_Pattern :: string
  Rule_Reason :: string

record PermissionRequest =
  Req_ID :: string
  Req_Tool :: string
  Req_Command :: string
  Req_Workspace :: string
  Req_CreatedAt :: gotime
  Req_ExpiresAt :: gotime

abbreviation permissionRequestTTL :: int where "permissionRequestTTL \<equiv> 5 * 60 * 1000000000"

record permissionStore =
  perm_rules :: "PermissionRule list"
  perm_pending :: "(string \<times> PermissionRequest) list"
  perm_granted :: "string list"

definition SetPermissions :: "PermissionRule list \<Rightarrow> permissionStore \<Rightarrow> permissionStore" where
  "SetPermissions rules ps = ps\<lparr>perm_rules := rules\<rparr>"

section \<open>Decisions\<close>

definition ruleMatches :: "string \<Rightarrow> string \<Rightarrow> string \<Rightarrow> bool" where
  "ruleMatches pattern command firstWord =
     (let pattern = trim_space pattern
      in if pattern = [] \<or> pattern = ''*'' then True
         else
           let prefix = trim_suffix pattern ''*''
           in if prefix = pattern then firstWord = pattern else has_prefix command prefix)"

definition first_word :: "string \<Rightarrow> string" where
  "first_word command = (case Prelude.fields command of [] \<Rightarrow> [] | w # ws \<Rightarrow> w)"

fun decision_loop ::
  "string \<Rightarrow> string \<Rightarrow> string \<Rightarrow> PermissionRule list \<Rightarrow> string \<Rightarrow> string \<Rightarrow> string \<times> string"
where
  "decision_loop tool command first [] effect pattern = (effect, pattern)"
| "decision_loop tool command first (rule # rules) effect pattern =
     (if Rule_Tool rule \<noteq> [] \<and> Rule_Tool rule \<noteq> tool then decision_loop tool command first rules effect pattern
      else if ruleMatches (Rule_Pattern rule) command first then
        if Rule_Effect rule = ''deny'' then (''deny'', Rule_Pattern rule)
        else if effect \<noteq> ''deny'' then decision_loop tool command first rules ''allow'' (Rule_Pattern rule)
        else decision_loop tool command first rules effect pattern
      else decision_loop tool command first rules effect pattern)"

definition permissionDecision :: "string \<Rightarrow> string \<Rightarrow> permissionStore \<Rightarrow> string \<times> string" where
  "permissionDecision tool command ps =
     decision_loop tool command (first_word command) (perm_rules ps) ''ask'' []"

section \<open>Requests\<close>

definition map_delete :: "string \<Rightarrow> (string \<times> 'a) list \<Rightarrow> (string \<times> 'a) list" where
  "map_delete k xs = filter (\<lambda>p. fst p \<noteq> k) xs"

definition parkRequest ::
  "string \<Rightarrow> gotime \<Rightarrow> string \<Rightarrow> string \<Rightarrow> string \<Rightarrow> permissionStore \<Rightarrow> permissionStore" where
  "parkRequest i now tool command workspace ps =
     (let req = \<lparr>Req_ID = i, Req_Tool = tool, Req_Command = command, Req_Workspace = workspace,
                 Req_CreatedAt = now, Req_ExpiresAt = now + permissionRequestTTL\<rparr>;
          pending = (i, req) # map_delete i (perm_pending ps)
      in ps\<lparr>perm_pending := filter (\<lambda>p. \<not> Req_ExpiresAt (snd p) < now) pending\<rparr>)"

datatype perm_error =
    ErrRequestID
  | ErrRequestNotFound string
  | ErrRequestExpired string
  | ErrDecision

definition lookupRequest ::
  "gotime \<Rightarrow> string \<Rightarrow> permissionStore \<Rightarrow> permissionStore \<times> (perm_error + PermissionRequest)" where
  "lookupRequest now i ps =
     (case map_of (perm_pending ps) i of
        None \<Rightarrow> (ps, Inl (ErrRequestNotFound i))
      | Some req \<Rightarrow>
          if Req_ExpiresAt req < now
          then (ps\<lparr>perm_pending := map_delete i (perm_pending ps)\<rparr>, Inl (ErrRequestExpired i))
          else (ps, Inr req))"

definition PermissionRuleForRequest :: "PermissionRequest \<Rightarrow> PermissionRule" where
  "PermissionRuleForRequest req =
     (let first = Prelude.fields (Req_Command req);
          pattern = (case first of [] \<Rightarrow> ''*'' | w # ws \<Rightarrow> w)
      in \<lparr>Rule_Effect = ''allow'', Rule_Tool = Req_Tool req, Rule_Pattern = pattern, Rule_Reason = []\<rparr>)"

datatype grant_result =
    GrantedOnce string
  | GrantedAlways string PermissionRule "PermissionRule list"
  | GrantDenied string

text \<open>The last component of \<open>GrantedAlways\<close> is what the callback \<open>onRulePersisted\<close> is called with.\<close>

definition permissionGrant ::
  "gotime \<Rightarrow> string \<Rightarrow> string \<Rightarrow> permissionStore \<Rightarrow> permissionStore \<times> (perm_error + grant_result)" where
  "permissionGrant now i decision ps =
     (if i = [] then (ps, Inl ErrRequestID)
      else case lookupRequest now i ps of
             (ps, Inl e) \<Rightarrow> (ps, Inl e)
           | (ps, Inr req) \<Rightarrow>
               let d = trim_space (to_lower decision)
               in if d = ''once'' then
                    (ps\<lparr>perm_granted := List.insert i (perm_granted ps)\<rparr>, Inr (GrantedOnce i))
                  else if d = ''always'' then
                    let rule = PermissionRuleForRequest req;
                        rules = perm_rules ps @ [rule]
                    in (ps\<lparr>perm_rules := rules, perm_pending := map_delete i (perm_pending ps)\<rparr>,
                        Inr (GrantedAlways i rule rules))
                  else if d = ''deny'' then
                    (ps\<lparr>perm_pending := map_delete i (perm_pending ps), perm_granted := removeAll i (perm_granted ps)\<rparr>,
                     Inr (GrantDenied i))
                  else (ps, Inl ErrDecision))"

definition consumeGrant :: "string \<Rightarrow> permissionStore \<Rightarrow> permissionStore \<times> bool" where
  "consumeGrant i ps =
     (if i \<in> set (perm_granted ps) then (ps\<lparr>perm_granted := removeAll i (perm_granted ps)\<rparr>, True)
      else (ps, False))"

text \<open>\<open>consumeGrantOnce\<close>: the first granted request, in iteration order, that is for the command.\<close>

definition grants_command :: "permissionStore \<Rightarrow> string \<Rightarrow> string \<Rightarrow> bool" where
  "grants_command ps command i =
     (case map_of (perm_pending ps) i of None \<Rightarrow> False | Some req \<Rightarrow> Req_Command req = command)"

definition consumeGrantOnce :: "string \<Rightarrow> permissionStore \<Rightarrow> permissionStore \<times> bool" where
  "consumeGrantOnce command ps =
     (case find (grants_command ps command) (perm_granted ps) of
        None \<Rightarrow> (ps, False)
      | Some i \<Rightarrow>
          (ps\<lparr>perm_pending := map_delete i (perm_pending ps), perm_granted := removeAll i (perm_granted ps)\<rparr>, True))"

definition pending_request :: "string \<Rightarrow> gotime \<Rightarrow> string \<Rightarrow> permissionStore \<Rightarrow> string" where
  "pending_request tool now command ps =
     (case find (\<lambda>p. Req_Tool (snd p) = tool \<and> Req_Command (snd p) = command \<and> Req_ExpiresAt (snd p) > now)
             (perm_pending ps) of
        None \<Rightarrow> [] | Some p \<Rightarrow> fst p)"

definition pendingBashRequest :: "gotime \<Rightarrow> string \<Rightarrow> permissionStore \<Rightarrow> string" where
  "pendingBashRequest now command ps = pending_request ''bash'' now command ps"

definition pendingSubagentRequest :: "gotime \<Rightarrow> string \<Rightarrow> permissionStore \<Rightarrow> string" where
  "pendingSubagentRequest now client ps = pending_request ''agent'' now client ps"

section \<open>The bash tool\<close>

text \<open>
  What a call of the tool comes to: \<open>BashExec\<close> is the call of \<open>execBash\<close>. \<open>resolved\<close> is the result of
  \<open>resolveWorkspaceRoot\<close>; \<open>t1\<close> and \<open>t2\<close> are the clock readings of \<open>pendingBashRequest\<close> and \<open>parkRequest\<close>.
\<close>

datatype bash_outcome =
    BashCommandRequired
  | BashDenied string
  | BashRootError string
  | PermissionNeeded string string string
  | BashExec string string

definition exec_or_error :: "string + string \<Rightarrow> string \<Rightarrow> bash_outcome" where
  "exec_or_error resolved command = (case resolved of Inl e \<Rightarrow> BashRootError e | Inr rootReal \<Rightarrow> BashExec rootReal command)"

definition runBash ::
  "gotime \<Rightarrow> gotime \<Rightarrow> string \<Rightarrow> string + string \<Rightarrow> string \<Rightarrow> permissionStore \<Rightarrow> permissionStore \<times> bash_outcome" where
  "runBash t1 t2 newid resolved command ps =
     (let command = trim_space command
      in if command = [] then (ps, BashCommandRequired)
         else
           let (effect, pattern) = permissionDecision ''bash'' command ps
           in if effect = ''deny'' then (ps, BashDenied command)
              else if effect = ''ask'' then
                case consumeGrantOnce command ps of
                  (ps, True) \<Rightarrow> (ps, exec_or_error resolved command)
                | (ps, False) \<Rightarrow>
                    let requestID = pendingBashRequest t1 command ps
                    in if requestID = []
                       then (parkRequest newid t2 ''bash'' command [] ps, PermissionNeeded newid command pattern)
                       else (ps, PermissionNeeded requestID command pattern)
              else (ps, exec_or_error resolved command))"

text \<open>The output of a command: chunks written to the bounded buffer.\<close>

abbreviation bashMaxOutput :: nat where "bashMaxOutput \<equiv> 256 * 1024"

definition limitedBuffer_Write :: "nat \<Rightarrow> string \<Rightarrow> string \<Rightarrow> string" where
  "limitedBuffer_Write mx buf p =
     (if length buf < mx then buf @ (if length p > mx - length buf then take (mx - length buf) p else p) else buf)"

datatype run_err = RunOk | RunDeadline "int option" | RunFailed string "int option"

record bash_result =
  Bash_Command :: string
  Bash_Output :: string
  Bash_Truncated :: bool
  Bash_Error :: "string option"
  Bash_ExitCode :: "int option"

definition execBash :: "string \<Rightarrow> string list \<Rightarrow> run_err \<Rightarrow> bash_result" where
  "execBash command chunks err =
     (let out = foldl (limitedBuffer_Write bashMaxOutput) [] chunks;
          result = \<lparr>Bash_Command = command, Bash_Output = out, Bash_Truncated = length out \<ge> bashMaxOutput,
                    Bash_Error = None, Bash_ExitCode = None\<rparr>;
          code = (\<lambda>c. Some (case c of None \<Rightarrow> - 1 | Some n \<Rightarrow> n))
      in case err of
           RunOk \<Rightarrow> result
         | RunDeadline c \<Rightarrow> result\<lparr>Bash_Error := Some ''command exceeded 30s and was killed'', Bash_ExitCode := code c\<rparr>
         | RunFailed msg c \<Rightarrow> result\<lparr>Bash_Error := Some msg, Bash_ExitCode := code c\<rparr>)"

section \<open>Admission of subagent runs\<close>

datatype preflight_error =
    PreflightRoot string
  | PreflightDenied string
  | PreflightNeeded string string

definition subagentPreflight ::
  "SubagentProfile list \<Rightarrow> gotime \<Rightarrow> gotime \<Rightarrow> string \<Rightarrow> string + string \<Rightarrow> RunSpec \<Rightarrow> permissionStore \<Rightarrow>
   permissionStore \<times> preflight_error option"
where
  "subagentPreflight profiles t1 t2 newid resolved spec ps =
     (case resolved of
        Inl e \<Rightarrow> (ps, Some (PreflightRoot e))
      | Inr root \<Rightarrow>
          let (client0, agent, model, thinking, timeout, extra) =
                resolveSubagentCall profiles (Spec_Client spec) (Spec_Agent spec) (Spec_Model spec)
                  (Spec_Thinking spec) (Spec_TimeoutSeconds spec);
              client = (if trim_space client0 = [] then DefaultSubagentClient else trim_space client0);
              effect = fst (permissionDecision ''agent'' client ps)
          in if effect = ''deny'' then (ps, Some (PreflightDenied client))
             else if effect = ''ask'' then
               let requestID = pendingSubagentRequest t1 client ps
               in if requestID = []
                  then (parkRequest newid t2 ''agent'' client [] ps, Some (PreflightNeeded newid (client @ '' subagent'')))
                  else (ps, Some (PreflightNeeded requestID (client @ '' subagent'')))
             else (ps, None))"

section \<open>What the rules decide\<close>

definition applicable :: "string \<Rightarrow> string \<Rightarrow> permissionStore \<Rightarrow> PermissionRule list" where
  "applicable tool command ps =
     filter (\<lambda>r. (Rule_Tool r = [] \<or> Rule_Tool r = tool) \<and> ruleMatches (Rule_Pattern r) command (first_word command))
       (perm_rules ps)"

lemma ask_not_deny: "''ask'' \<noteq> ''deny''"
  by simp

lemma decision_loop_eq:
  assumes "effect \<noteq> ''deny''"
  shows "decision_loop tool command first rules effect pattern =
    (let hits = filter (\<lambda>r. (Rule_Tool r = [] \<or> Rule_Tool r = tool) \<and> ruleMatches (Rule_Pattern r) command first) rules
     in case find (\<lambda>r. Rule_Effect r = ''deny'') hits of
          Some r \<Rightarrow> (''deny'', Rule_Pattern r)
        | None \<Rightarrow> if hits = [] then (effect, pattern) else (''allow'', Rule_Pattern (last hits)))"
  using assms
  by (induction rules arbitrary: effect pattern) (auto simp: Let_def split: option.splits)

text \<open>
  (C17) A decision depends on the rules that apply to the tool and match the command: the first that
  denies decides, otherwise any of them allows (and the last one's pattern is reported), otherwise the
  tool asks.
\<close>

theorem permissionDecision_spec:
  "permissionDecision tool command ps =
     (case find (\<lambda>r. Rule_Effect r = ''deny'') (applicable tool command ps) of
        Some r \<Rightarrow> (''deny'', Rule_Pattern r)
      | None \<Rightarrow>
          if applicable tool command ps = [] then (''ask'', [])
          else (''allow'', Rule_Pattern (last (applicable tool command ps))))"
  unfolding permissionDecision_def decision_loop_eq [OF ask_not_deny] applicable_def [symmetric] Let_def ..

lemma decision_effects: "fst (permissionDecision tool command ps) \<in> {''deny'', ''ask'', ''allow''}"
  by (simp add: permissionDecision_def decision_loop_eq Let_def split: option.split)

lemma decision_allow_iff:
  "fst (permissionDecision tool command ps) = ''allow'' \<longleftrightarrow>
     applicable tool command ps \<noteq> [] \<and> (\<forall>r \<in> set (applicable tool command ps). Rule_Effect r \<noteq> ''deny'')"
  unfolding permissionDecision_def decision_loop_eq [OF ask_not_deny] applicable_def [symmetric] Let_def
  by (auto simp: find_None_iff find_Some_iff split: option.split)

section \<open>The gate as a state machine\<close>

datatype perm_event = OnceGranted string | RanOnGrant string | RanOnRule string

record perm_sys =
  sys_perms :: permissionStore
  sys_log :: "perm_event list"

text \<open>The events a grant and a bash call leave behind.\<close>

definition grant_events :: "permissionStore \<Rightarrow> string \<Rightarrow> perm_error + grant_result \<Rightarrow> perm_event list" where
  "grant_events ps i r =
     (case r of
        Inr (GrantedOnce j) \<Rightarrow>
          (case map_of (perm_pending ps) i of None \<Rightarrow> [] | Some req \<Rightarrow> [OnceGranted (Req_Command req)])
      | _ \<Rightarrow> [])"

definition bash_events :: "permissionStore \<Rightarrow> bash_outcome \<Rightarrow> perm_event list" where
  "bash_events ps out =
     (case out of
        BashExec root c \<Rightarrow> [if fst (permissionDecision ''bash'' c ps) = ''ask'' then RanOnGrant c else RanOnRule c]
      | _ \<Rightarrow> [])"

definition fresh_request :: "string \<Rightarrow> permissionStore \<Rightarrow> bool" where
  "fresh_request i ps = (i \<notin> fst ` set (perm_pending ps) \<and> i \<notin> set (perm_granted ps))"

inductive perm_step :: "perm_sys \<Rightarrow> perm_sys \<Rightarrow> bool" where
  set_rules: "perm_step s (s\<lparr>sys_perms := SetPermissions rules (sys_perms s)\<rparr>)"
| grant: "permissionGrant now i decision (sys_perms s) = (ps', r) \<Longrightarrow>
    perm_step s \<lparr>sys_perms = ps', sys_log = sys_log s @ grant_events (sys_perms s) i r\<rparr>"
| bash: "fresh_request newid (sys_perms s) \<Longrightarrow>
    runBash t1 t2 newid resolved command (sys_perms s) = (ps', out) \<Longrightarrow>
    perm_step s \<lparr>sys_perms = ps', sys_log = sys_log s @ bash_events (sys_perms s) out\<rparr>"
| agent: "fresh_request newid (sys_perms s) \<Longrightarrow>
    subagentPreflight profiles t1 t2 newid resolved spec (sys_perms s) = (ps', e) \<Longrightarrow>
    perm_step s (s\<lparr>sys_perms := ps'\<rparr>)"
| consume: "consumeGrant i (sys_perms s) = (ps', b) \<Longrightarrow> perm_step s (s\<lparr>sys_perms := ps'\<rparr>)"
| reorder: "mset pending' = mset (perm_pending (sys_perms s)) \<Longrightarrow> mset granted' = mset (perm_granted (sys_perms s)) \<Longrightarrow>
    perm_step s (s\<lparr>sys_perms := (sys_perms s)\<lparr>perm_pending := pending', perm_granted := granted'\<rparr>\<rparr>)"

inductive perm_reach :: "perm_sys \<Rightarrow> bool" where
  boot: "perm_reach \<lparr>sys_perms = \<lparr>perm_rules = rules, perm_pending = [], perm_granted = []\<rparr>, sys_log = []\<rparr>"
| step: "perm_reach s \<Longrightarrow> perm_step s s' \<Longrightarrow> perm_reach s'"

text \<open>Grants that a run of the command could still consume.\<close>

definition open_grants :: "permissionStore \<Rightarrow> string \<Rightarrow> nat" where
  "open_grants ps c = length (filter (grants_command ps c) (perm_granted ps))"

definition perm_inv :: "perm_sys \<Rightarrow> bool" where
  "perm_inv s \<longleftrightarrow>
     distinct (map fst (perm_pending (sys_perms s))) \<and> distinct (perm_granted (sys_perms s)) \<and>
     (\<forall>c. open_grants (sys_perms s) c + count_list (sys_log s) (RanOnGrant c) \<le>
        count_list (sys_log s) (OnceGranted c))"

lemma map_of_delete: "map_of (map_delete k xs) j = (if j = k then None else map_of xs j)"
  by (induction xs) (auto simp: map_delete_def)

lemma distinct_delete: "distinct (map fst xs) \<Longrightarrow> distinct (map fst (map_delete k xs))"
  by (simp add: map_delete_def distinct_map_filter)

lemma length_filter_mono: "\<forall>x \<in> set xs. P x \<longrightarrow> Q x \<Longrightarrow> length (filter P xs) \<le> length (filter Q xs)"
  by (induction xs) auto

text \<open>Removing requests or grants never opens a grant.\<close>

lemma open_grants_less:
  assumes "\<And>i req. map_of (perm_pending ps') i = Some req \<Longrightarrow> i \<in> set (perm_granted ps) \<Longrightarrow> map_of (perm_pending ps) i = Some req"
    and "perm_granted ps' = filter P (perm_granted ps)"
  shows "open_grants ps' c \<le> open_grants ps c"
proof -
  have "filter (grants_command ps' c) (perm_granted ps') = filter (\<lambda>i. grants_command ps' c i \<and> P i) (perm_granted ps)"
    by (simp add: assms(2) conj_commute)
  moreover have "\<forall>i \<in> set (perm_granted ps). grants_command ps' c i \<and> P i \<longrightarrow> grants_command ps c i"
    using assms(1) by (auto simp: grants_command_def split: option.splits)
  then have "length (filter (\<lambda>i. grants_command ps' c i \<and> P i) (perm_granted ps)) \<le>
      length (filter (grants_command ps c) (perm_granted ps))"
    by (rule length_filter_mono)
  ultimately show ?thesis by (simp add: open_grants_def)
qed

lemma map_of_filter_sub:
  "distinct (map fst xs) \<Longrightarrow> map_of (filter P xs) k = Some v \<Longrightarrow> map_of xs k = Some v"
  using distinct_map_filter [of fst xs P] by (auto simp: map_of_eq_Some_iff)

lemma park_effect:
  assumes "distinct (map fst (perm_pending ps))" and "fresh_request i ps"
  shows "distinct (map fst (perm_pending (parkRequest i now tool c w ps)))"
    and "perm_granted (parkRequest i now tool c w ps) = perm_granted ps"
    and "open_grants (parkRequest i now tool c w ps) d \<le> open_grants ps d"
proof -
  let ?ps = "parkRequest i now tool c w ps"
  let ?new = "(i, \<lparr>Req_ID = i, Req_Tool = tool, Req_Command = c, Req_Workspace = w,
      Req_CreatedAt = now, Req_ExpiresAt = now + permissionRequestTTL\<rparr>)"
  have pend: "perm_pending ?ps = filter (\<lambda>p. \<not> Req_ExpiresAt (snd p) < now) (?new # map_delete i (perm_pending ps))"
    by (simp add: parkRequest_def Let_def)
  have dist: "distinct (map fst (?new # map_delete i (perm_pending ps)))"
    using assms(1) distinct_delete by (auto simp: map_delete_def)
  then show "distinct (map fst (perm_pending ?ps))" unfolding pend by (rule distinct_map_filter)
  show gr: "perm_granted ?ps = perm_granted ps" by (simp add: parkRequest_def Let_def)
  show "open_grants ?ps d \<le> open_grants ps d"
  proof (rule open_grants_less)
    show "map_of (perm_pending ps) j = Some req"
      if "map_of (perm_pending ?ps) j = Some req" "j \<in> set (perm_granted ps)" for j req
    proof -
      have "map_of (?new # map_delete i (perm_pending ps)) j = Some req"
        by (rule map_of_filter_sub [OF dist]) (use that(1) in \<open>simp only: pend\<close>)
      moreover have "j \<noteq> i" using that(2) assms(2) by (auto simp: fresh_request_def)
      ultimately show ?thesis by (simp add: map_of_delete)
    qed
    show "perm_granted ?ps = filter (\<lambda>_. True) (perm_granted ps)" by (simp add: gr)
  qed
qed

lemma removeAll_filter: "removeAll x xs = filter (\<lambda>y. y \<noteq> x) xs"
  by (induction xs) auto

text \<open>Dropping some requests and one grant.\<close>

lemma drop_open_grants:
  "open_grants (ps\<lparr>perm_pending := map_delete i (perm_pending ps), perm_granted := removeAll i (perm_granted ps)\<rparr>) c \<le>
   open_grants ps c"
  "open_grants (ps\<lparr>perm_pending := map_delete i (perm_pending ps)\<rparr>) c \<le> open_grants ps c"
  "open_grants (ps\<lparr>perm_granted := removeAll i (perm_granted ps)\<rparr>) c \<le> open_grants ps c"
  by (rule open_grants_less [where P = "\<lambda>y. y \<noteq> i"] open_grants_less [where P = "\<lambda>y. True"];
      simp add: removeAll_filter map_of_delete split: if_splits)+

lemma grants_command_cong [simp]:
  "grants_command (ps\<lparr>perm_granted := g\<rparr>) = grants_command ps" "grants_command (ps\<lparr>perm_rules := rs\<rparr>) = grants_command ps"
  by (simp_all add: grants_command_def fun_eq_iff)

lemma rules_open_grants [simp]: "open_grants (ps\<lparr>perm_rules := rs\<rparr>) c = open_grants ps c"
  by (simp add: open_grants_def)

lemma consume_once_effect:
  assumes "consumeGrantOnce c ps = (ps', True)" and "distinct (perm_granted ps)"
  obtains i where "i \<in> set (perm_granted ps)" and "grants_command ps c i"
    and "ps' = ps\<lparr>perm_pending := map_delete i (perm_pending ps), perm_granted := removeAll i (perm_granted ps)\<rparr>"
    and "open_grants ps' c + 1 \<le> open_grants ps c"
proof -
  obtain i where f: "find (grants_command ps c) (perm_granted ps) = Some i"
    and ps': "ps' = ps\<lparr>perm_pending := map_delete i (perm_pending ps), perm_granted := removeAll i (perm_granted ps)\<rparr>"
    using assms(1) by (auto simp: consumeGrantOnce_def split: option.splits)
  have i: "i \<in> set (perm_granted ps)" "grants_command ps c i"
    using f by (auto simp: find_Some_iff)
  let ?G = "\<lambda>xs. filter (grants_command ps c) xs"
  have "\<forall>j \<in> set (removeAll i (perm_granted ps)). grants_command ps' c j \<longrightarrow> grants_command ps c j"
    by (auto simp: ps' grants_command_def map_of_delete split: if_splits)
  moreover have "perm_granted ps' = removeAll i (perm_granted ps)" by (simp add: ps')
  ultimately have "open_grants ps' c \<le> length (?G (removeAll i (perm_granted ps)))"
    unfolding open_grants_def by (simp only: length_filter_mono)
  moreover have "?G (removeAll i (perm_granted ps)) = remove1 i (?G (perm_granted ps))"
    using assms(2) i by (simp add: distinct_remove1_removeAll [symmetric] filter_remove1)
  moreover have "i \<in> set (?G (perm_granted ps))" using i by simp
  ultimately have "open_grants ps' c \<le> open_grants ps c - 1" "0 < open_grants ps c"
    unfolding open_grants_def by (simp_all only: length_remove1 length_pos_if_in_set if_True)
  then show thesis using that i ps' by simp
qed

lemma grant_once_open:
  assumes "map_of (perm_pending ps) i = Some req" and "distinct (perm_granted ps)"
  shows "open_grants (ps\<lparr>perm_granted := List.insert i (perm_granted ps)\<rparr>) c \<le>
    open_grants ps c + (if Req_Command req = c then 1 else 0)"
  using assms by (auto simp: open_grants_def List.insert_def) (auto simp: grants_command_def)

section \<open>What a bash call can do\<close>

text \<open>The four ways a call ends, in a store with distinct keys.\<close>

lemma runBash_cases [consumes 2, case_names refused allowed once parked]:
  assumes "runBash t1 t2 newid resolved command ps = (ps', out)" and "distinct (perm_granted ps)"
  obtains (refused) "ps' = ps" and "\<And>root c. out \<noteq> BashExec root c"
  | (allowed) "ps' = ps" and "fst (permissionDecision ''bash'' (trim_space command) ps) = ''allow''"
      and "out = exec_or_error resolved (trim_space command)"
  | (once) "consumeGrantOnce (trim_space command) ps = (ps', True)"
      and "fst (permissionDecision ''bash'' (trim_space command) ps) = ''ask''"
      and "out = exec_or_error resolved (trim_space command)"
  | (parked) "ps' = parkRequest newid t2 ''bash'' (trim_space command) [] ps" and "\<And>root c. out \<noteq> BashExec root c"
proof -
  define c where "c = trim_space command"
  obtain effect pattern where d: "permissionDecision ''bash'' c ps = (effect, pattern)" by fastforce
  have eff: "effect \<in> {''deny'', ''ask'', ''allow''}"
    using decision_effects [of "''bash''" c ps] d by simp
  obtain ps1 b where con: "consumeGrantOnce c ps = (ps1, b)" by fastforce
  have same: "ps1 = ps" if "\<not> b" using con that by (auto simp: consumeGrantOnce_def split: option.splits)
  note run = assms(1) [unfolded runBash_def Let_def, folded c_def]
  show thesis
  proof (cases "c = []")
    case True
    then show thesis using run by (intro refused) auto
  next
    case False
    note run' = run [unfolded d prod.case con] 
    consider "effect = ''deny''" | "effect = ''ask''" b | "effect = ''ask''" "\<not> b" | "effect = ''allow''"
      using eff by auto
    then show thesis
    proof cases
      case 1
      then show thesis using run' False by (intro refused) auto
    next
      case 2
      then show thesis using run' False con d by (intro once) (auto simp: c_def)
    next
      case 3
      then have "ps1 = ps" using same by simp
      show thesis
      proof (cases "pendingBashRequest t1 c ps = []")
        case True
        then show thesis using run' False 3 \<open>ps1 = ps\<close> by (intro parked) (auto simp: c_def)
      next
        case f: False
        then show thesis using run' False 3 \<open>ps1 = ps\<close> by (intro refused) auto
      qed
    next
      case 4
      then show thesis using run' False d by (intro allowed) (auto simp: c_def)
    qed
  qed
qed

section \<open>Safety of the gate\<close>

lemma perm_invI:
  assumes "perm_inv s" and "distinct (map fst (perm_pending ps'))" and "distinct (perm_granted ps')"
    and "\<And>c. open_grants ps' c + count_list evs (RanOnGrant c) \<le> open_grants (sys_perms s) c + count_list evs (OnceGranted c)"
  shows "perm_inv \<lparr>sys_perms = ps', sys_log = sys_log s @ evs\<rparr>"
  unfolding perm_inv_def
proof (intro conjI allI)
  fix c
  have "open_grants (sys_perms s) c + count_list (sys_log s) (RanOnGrant c) \<le> count_list (sys_log s) (OnceGranted c)"
    using assms(1) by (simp add: perm_inv_def)
  with assms(4) [of c] show "open_grants (sys_perms \<lparr>sys_perms = ps', sys_log = sys_log s @ evs\<rparr>) c +
      count_list (sys_log \<lparr>sys_perms = ps', sys_log = sys_log s @ evs\<rparr>) (RanOnGrant c) \<le>
      count_list (sys_log \<lparr>sys_perms = ps', sys_log = sys_log s @ evs\<rparr>) (OnceGranted c)"
    by simp
qed (use assms(2,3) in simp_all)

lemma perm_inv_quiet:
  assumes "perm_inv s" and "distinct (map fst (perm_pending ps'))" and "distinct (perm_granted ps')"
    and "\<And>c. open_grants ps' c \<le> open_grants (sys_perms s) c"
  shows "perm_inv (s\<lparr>sys_perms := ps'\<rparr>)"
proof -
  have "perm_inv \<lparr>sys_perms = ps', sys_log = sys_log s @ []\<rparr>"
    using assms by (intro perm_invI) simp_all
  then show ?thesis by (simp add: perm_inv_def)
qed

lemma grant_cases:
  assumes "permissionGrant now i decision ps = (ps', r)"
  obtains (once) req where "map_of (perm_pending ps) i = Some req" and "r = Inr (GrantedOnce i)"
      and "ps' = ps\<lparr>perm_granted := List.insert i (perm_granted ps)\<rparr>"
  | (always) rules where "ps' = ps\<lparr>perm_rules := rules, perm_pending := map_delete i (perm_pending ps)\<rparr>"
  | (deny) "ps' = ps\<lparr>perm_pending := map_delete i (perm_pending ps), perm_granted := removeAll i (perm_granted ps)\<rparr>"
  | (none) "ps' = ps" | (expired) "ps' = ps\<lparr>perm_pending := map_delete i (perm_pending ps)\<rparr>"
proof (cases "i = []")
  case True
  then show thesis using assms by (intro none) (simp add: permissionGrant_def)
next
  case False
  show thesis
  proof (cases "map_of (perm_pending ps) i")
    case None
    then show thesis using assms False by (intro none) (simp add: permissionGrant_def lookupRequest_def)
  next
    case (Some req)
    show thesis
    proof (cases "Req_ExpiresAt req < now")
      case True
      then show thesis using assms False Some by (intro expired) (simp add: permissionGrant_def lookupRequest_def)
    next
      case valid: False
      define d where "d = trim_space (to_lower decision)"
      have lk: "lookupRequest now i ps = (ps, Inr req)" using Some valid by (simp add: lookupRequest_def)
      note grant = assms [unfolded permissionGrant_def lk prod.case sum.case Let_def, folded d_def]
      consider "d = ''once''" | "d = ''always''" | "d = ''deny''" | "d \<notin> {''once'', ''always'', ''deny''}" by blast
      then show thesis
      proof cases
        case 1
        then show thesis using grant False Some by (intro once) simp_all
      next
        case 2
        then show thesis using grant False by (intro always) auto
      next
        case 3
        then show thesis using grant False by (intro deny) simp
      next
        case 4
        then show thesis using grant False by (intro none) simp
      qed
    qed
  qed
qed

lemma grant_effect:
  assumes "permissionGrant now i decision ps = (ps', r)" and "distinct (map fst (perm_pending ps))"
    and "distinct (perm_granted ps)"
  shows "distinct (map fst (perm_pending ps'))" and "distinct (perm_granted ps')"
    and "open_grants ps' c \<le> open_grants ps c + count_list (grant_events ps i r) (OnceGranted c)"
    and "count_list (grant_events ps i r) (RanOnGrant c) = 0"
proof -
  consider (once) req where "map_of (perm_pending ps) i = Some req" and "r = Inr (GrantedOnce i)"
      and "ps' = ps\<lparr>perm_granted := List.insert i (perm_granted ps)\<rparr>"
    | (always) rules where "ps' = ps\<lparr>perm_rules := rules, perm_pending := map_delete i (perm_pending ps)\<rparr>"
    | (deny) "ps' = ps\<lparr>perm_pending := map_delete i (perm_pending ps), perm_granted := removeAll i (perm_granted ps)\<rparr>"
    | (none) "ps' = ps" | (expired) "ps' = ps\<lparr>perm_pending := map_delete i (perm_pending ps)\<rparr>"
    by (rule grant_cases [OF assms(1)])
  then have "distinct (map fst (perm_pending ps')) \<and> distinct (perm_granted ps') \<and>
      open_grants ps' c \<le> open_grants ps c + count_list (grant_events ps i r) (OnceGranted c)"
  proof cases
    case once
    then show ?thesis
      using assms(2,3) grant_once_open [OF once(1) assms(3), of c]
      by (auto simp: grant_events_def split: if_splits)
  next
    case always
    have "open_grants ps' c = open_grants (ps\<lparr>perm_pending := map_delete i (perm_pending ps)\<rparr>) c"
      by (simp add: always open_grants_def grants_command_def [abs_def])
    then show ?thesis
      using always assms(2,3) distinct_delete drop_open_grants(2) [where ps = ps and i = i and c = c] by simp
  next
    case deny
    then show ?thesis
      using assms(2,3) distinct_delete drop_open_grants(1) [where ps = ps and i = i and c = c] by (simp add: distinct_removeAll)
  next
    case expired
    then show ?thesis using assms(2,3) distinct_delete drop_open_grants(2) [where ps = ps and i = i and c = c] by simp
  qed (use assms in simp)
  then show "distinct (map fst (perm_pending ps'))" "distinct (perm_granted ps')"
    "open_grants ps' c \<le> open_grants ps c + count_list (grant_events ps i r) (OnceGranted c)" by blast+
  show "count_list (grant_events ps i r) (RanOnGrant c) = 0"
    by (simp add: grant_events_def split: sum.split grant_result.split option.split)
qed

lemma bash_effect:
  assumes "runBash t1 t2 newid resolved command ps = (ps', out)" and "distinct (map fst (perm_pending ps))"
    and "distinct (perm_granted ps)" and "fresh_request newid ps"
  shows "distinct (map fst (perm_pending ps')) \<and> distinct (perm_granted ps') \<and>
    open_grants ps' c + count_list (bash_events ps out) (RanOnGrant c) \<le> open_grants ps c"
  using assms(1,3)
proof (cases rule: runBash_cases)
  case refused
  then have "bash_events ps out = []" by (cases out) (auto simp: bash_events_def)
  then show ?thesis using refused assms by simp
next
  case allowed
  then have "count_list (bash_events ps out) (RanOnGrant c) = 0"
    by (auto simp: bash_events_def exec_or_error_def split: sum.split)
  then show ?thesis using allowed(1) assms by simp
next
  case once
  obtain i where i: "ps' = ps\<lparr>perm_pending := map_delete i (perm_pending ps), perm_granted := removeAll i (perm_granted ps)\<rparr>"
    "open_grants ps' (trim_space command) + 1 \<le> open_grants ps (trim_space command)"
    by (rule consume_once_effect [OF once(1) assms(3)])
  have "count_list (bash_events ps out) (RanOnGrant c) \<le> (if c = trim_space command then 1 else 0)"
    using once by (auto simp: bash_events_def exec_or_error_def split: sum.split)
  moreover have "open_grants ps' c \<le> open_grants ps c" using drop_open_grants(1) [where ps = ps and i = i and c = c] by (simp add: i(1))
  ultimately have "open_grants ps' c + count_list (bash_events ps out) (RanOnGrant c) \<le> open_grants ps c"
    using i(2) by (auto split: if_splits)
  then show ?thesis using assms(2,3) distinct_delete by (simp add: i(1) distinct_removeAll)
next
  case parked
  then have "bash_events ps out = []" by (cases out) (auto simp: bash_events_def)
  then show ?thesis using park_effect [OF assms(2,4)] assms(3) parked(1) by simp
qed

lemma preflight_effect:
  assumes "subagentPreflight profiles t1 t2 newid resolved spec ps = (ps', e)"
  obtains "ps' = ps" | client where "ps' = parkRequest newid t2 ''agent'' client [] ps"
  using assms by (auto simp: subagentPreflight_def Let_def split: sum.splits prod.splits if_splits)

lemma perm_step_inv: "perm_step s s' \<Longrightarrow> perm_inv s \<Longrightarrow> perm_inv s'"
proof (induction rule: perm_step.induct)
  case (set_rules s rules)
  then show ?case by (intro perm_inv_quiet) (simp_all add: SetPermissions_def perm_inv_def)
next
  case (grant now i decision s ps' r)
  then have "distinct (map fst (perm_pending (sys_perms s)))" "distinct (perm_granted (sys_perms s))"
    by (simp_all add: perm_inv_def)
  from grant_effect [OF grant(1) this] show ?case by (intro perm_invI [OF grant(2)]) simp_all
next
  case (bash newid s t1 t2 resolved command ps' out)
  then have "distinct (map fst (perm_pending (sys_perms s)))" "distinct (perm_granted (sys_perms s))"
    by (simp_all add: perm_inv_def)
  from bash_effect [OF bash(2) this bash(1)] show ?case
    by (intro perm_invI [OF bash(3)]) (auto intro: le_trans [OF _ le_add1])
next
  case (agent newid s profiles t1 t2 resolved spec ps' e)
  then have d: "distinct (map fst (perm_pending (sys_perms s)))" "distinct (perm_granted (sys_perms s))"
    by (simp_all add: perm_inv_def)
  show ?case
    by (rule preflight_effect [OF agent(2)])
      (use agent(3) d park_effect [OF d(1) agent(1)] in \<open>auto intro!: perm_inv_quiet\<close>)
next
  case (consume i s ps' b)
  then show ?case
    using drop_open_grants(3) [where ps = "sys_perms s" and i = i]
    by (intro perm_inv_quiet) (auto simp: consumeGrant_def perm_inv_def distinct_removeAll split: if_splits)
next
  case (reorder pending' s granted')
  let ?ps = "(sys_perms s)\<lparr>perm_pending := pending', perm_granted := granted'\<rparr>"
  have d: "distinct (map fst pending')" "distinct granted'"
    using reorder by (auto simp: perm_inv_def dest: mset_eq_imp_distinct_iff)
      (metis mset_eq_imp_distinct_iff mset_map)
  have "map_of pending' = map_of (perm_pending (sys_perms s))"
    using reorder d(1) by (metis mset_eq_setD perm_inv_def map_of_inject_set)
  then have "grants_command ?ps = grants_command (sys_perms s)" by (simp add: grants_command_def fun_eq_iff)
  then have "open_grants ?ps c = open_grants (sys_perms s) c" for c
    using reorder(2) by (simp add: open_grants_def) (metis mset_filter size_mset)
  with d reorder(3) show ?case by (intro perm_inv_quiet) simp_all
qed

lemma perm_reach_inv: "perm_reach s \<Longrightarrow> perm_inv s"
proof (induction rule: perm_reach.induct)
  case (boot rules)
  then show ?case by (simp add: perm_inv_def open_grants_def)
next
  case (step s s')
  then show ?case using perm_step_inv by blast
qed

text \<open>
  (C16) No command runs without approval. In every reachable state, for every interleaving of rule
  changes, grants, bash calls and agent calls: a bash call that executes either has a rule that allows
  the command and none that denies it, and leaves the store alone, or consumes a once-grant for exactly
  this command; and a command has run on once-grants at most as often as it was granted.
\<close>

theorem bash_runs_approved:
  assumes "perm_reach s"
  shows "(\<forall>t1 t2 newid resolved command ps' root c.
      runBash t1 t2 newid resolved command (sys_perms s) = (ps', BashExec root c) \<longrightarrow>
      c = trim_space command \<and> resolved = Inr root \<and>
      (fst (permissionDecision ''bash'' c (sys_perms s)) = ''allow'' \<and> ps' = sys_perms s \<or>
       fst (permissionDecision ''bash'' c (sys_perms s)) = ''ask'' \<and>
       (\<exists>i req. i \<in> set (perm_granted (sys_perms s)) \<and> map_of (perm_pending (sys_perms s)) i = Some req \<and>
          Req_Command req = c \<and> i \<notin> set (perm_granted ps') \<and> map_of (perm_pending ps') i = None))) \<and>
    (\<forall>c. count_list (sys_log s) (RanOnGrant c) \<le> count_list (sys_log s) (OnceGranted c))"
proof (intro conjI allI impI)
  have inv: "perm_inv s" by (rule perm_reach_inv [OF assms])
  then have d: "distinct (perm_granted (sys_perms s))" by (simp add: perm_inv_def)
  show "count_list (sys_log s) (RanOnGrant c) \<le> count_list (sys_log s) (OnceGranted c)" for c
    using inv add_leD2 unfolding perm_inv_def by blast
  fix t1 t2 newid resolved command ps' root c
  assume run: "runBash t1 t2 newid resolved command (sys_perms s) = (ps', BashExec root c)"
  have "c = trim_space command \<and> resolved = Inr root \<and>
      (fst (permissionDecision ''bash'' c (sys_perms s)) = ''allow'' \<and> ps' = sys_perms s \<or>
       fst (permissionDecision ''bash'' c (sys_perms s)) = ''ask'' \<and>
       (\<exists>i req. i \<in> set (perm_granted (sys_perms s)) \<and> map_of (perm_pending (sys_perms s)) i = Some req \<and>
          Req_Command req = c \<and> i \<notin> set (perm_granted ps') \<and> map_of (perm_pending ps') i = None))"
    using run d
  proof (cases rule: runBash_cases)
    case allowed
    then show ?thesis by (auto simp: exec_or_error_def split: sum.splits)
  next
    case once
    obtain i where "i \<in> set (perm_granted (sys_perms s))" "grants_command (sys_perms s) (trim_space command) i"
      "ps' = (sys_perms s)\<lparr>perm_pending := map_delete i (perm_pending (sys_perms s)),
        perm_granted := removeAll i (perm_granted (sys_perms s))\<rparr>"
      by (rule consume_once_effect [OF once(1) d])
    moreover have "c = trim_space command" "resolved = Inr root"
      using once(3) by (auto simp: exec_or_error_def split: sum.splits)
    ultimately show ?thesis
      using once(2) by (auto simp: grants_command_def map_of_delete split: option.splits)
  qed auto
  then show "c = trim_space command" "resolved = Inr root"
    "fst (permissionDecision ''bash'' c (sys_perms s)) = ''allow'' \<and> ps' = sys_perms s \<or>
       fst (permissionDecision ''bash'' c (sys_perms s)) = ''ask'' \<and>
       (\<exists>i req. i \<in> set (perm_granted (sys_perms s)) \<and> map_of (perm_pending (sys_perms s)) i = Some req \<and>
          Req_Command req = c \<and> i \<notin> set (perm_granted ps') \<and> map_of (perm_pending ps') i = None)"
    by blast+
qed

text \<open>A request for \<open>ls\<close>, granted once and then run.\<close>

definition sample_req :: "string \<Rightarrow> string \<Rightarrow> PermissionRequest" where
  "sample_req tool c = \<lparr>Req_ID = ''pr_1'', Req_Tool = tool, Req_Command = c, Req_Workspace = [],
     Req_CreatedAt = 0, Req_ExpiresAt = permissionRequestTTL\<rparr>"

definition sample_perms :: "string \<Rightarrow> string \<Rightarrow> string list \<Rightarrow> permissionStore" where
  "sample_perms tool c g = \<lparr>perm_rules = [], perm_pending = [(''pr_1'', sample_req tool c)], perm_granted = g\<rparr>"

lemma sample_perm_steps:
  "runBash 0 0 ''pr_1'' (Inr ''/w'') '' ls '' \<lparr>perm_rules = [], perm_pending = [], perm_granted = []\<rparr> =
     (sample_perms ''bash'' ''ls'' [], PermissionNeeded ''pr_1'' ''ls'' [])"
  "permissionGrant 1 ''pr_1'' ''ONCE'' (sample_perms ''bash'' ''ls'' []) =
     (sample_perms ''bash'' ''ls'' [''pr_1''], Inr (GrantedOnce ''pr_1''))"
  "runBash 2 2 ''pr_2'' (Inr ''/w'') ''ls'' (sample_perms ''bash'' ''ls'' [''pr_1'']) =
     (\<lparr>perm_rules = [], perm_pending = [], perm_granted = []\<rparr>, BashExec ''/w'' ''ls'')"
  by code_simp+

theorem bash_runs_approved_witness:
  "\<exists>s. perm_reach s \<and> count_list (sys_log s) (OnceGranted ''ls'') = 1 \<and>
     count_list (sys_log s) (RanOnGrant ''ls'') \<le> 1 \<and>
     runBash 2 2 ''pr_2'' (Inr ''/w'') ''ls'' (sys_perms s) =
       (\<lparr>perm_rules = [], perm_pending = [], perm_granted = []\<rparr>, BashExec ''/w'' ''ls'')"
proof -
  let ?s0 = "\<lparr>sys_perms = \<lparr>perm_rules = [], perm_pending = [], perm_granted = []\<rparr>, sys_log = []\<rparr>"
  let ?s1 = "\<lparr>sys_perms = sample_perms ''bash'' ''ls'' [], sys_log = []\<rparr>"
  let ?s2 = "\<lparr>sys_perms = sample_perms ''bash'' ''ls'' [''pr_1''], sys_log = [OnceGranted ''ls'']\<rparr>"
  have "perm_step ?s0 ?s1"
    using perm_step.bash [of "''pr_1''" ?s0 0 0 "Inr ''/w''" "'' ls ''"] sample_perm_steps(1)
    by (simp add: fresh_request_def bash_events_def)
  moreover have "perm_step ?s1 ?s2"
    using perm_step.grant [of 1 "''pr_1''" "''ONCE''" ?s1] sample_perm_steps(2)
    by (simp add: grant_events_def sample_perms_def sample_req_def)
  ultimately have reach: "perm_reach ?s2" using perm_reach.boot perm_reach.step by blast
  from bash_runs_approved [OF this] have "count_list (sys_log ?s2) (RanOnGrant ''ls'') \<le> count_list (sys_log ?s2) (OnceGranted ''ls'')"
    by blast
  then show ?thesis using reach sample_perm_steps(3) by (intro exI [of _ ?s2]) simp
qed

section \<open>Always-grants\<close>

lemma ws_front_0: "ws_front s = 0 \<longleftrightarrow> (\<forall>e \<in> set ws_encodings. \<not> has_prefix s e)"
proof -
  have "\<forall>e \<in> set ws_encodings. e \<noteq> []" by (simp add: ws_encodings_def)
  then show ?thesis
    by (auto simp: ws_front_def find_None_iff find_Some_iff split: option.split)
qed

lemma ws_back_0: "ws_back s = 0 \<longleftrightarrow> (\<forall>e \<in> set ws_encodings. \<not> has_suffix s e)"
proof -
  have "\<forall>e \<in> set ws_encodings. e \<noteq> []" by (simp add: ws_encodings_def)
  then show ?thesis
    by (auto simp: ws_back_def find_None_iff find_Some_iff split: option.split)
qed

lemma fields_from_word:
  "acc \<noteq> [] \<Longrightarrow> \<exists>u rest. fields_from s acc = (rev acc @ u) # rest \<and> has_prefix s u \<and>
     (\<forall>k < length u. ws_front (drop k s) = 0)"
proof (induction s acc rule: fields_from.induct)
  case (1 s acc)
  show ?case
  proof (cases "s = [] \<or> ws_front s \<noteq> 0")
    case True
    then show ?thesis
      using 1(3) by (intro exI [of _ "[] :: string"]) (subst fields_from.simps, auto simp: has_prefix_def)
  next
    case False
    then obtain x xs where s: "s = x # xs" by (cases s) auto
    obtain u rest where u: "fields_from xs (x # acc) = (rev (x # acc) @ u) # rest" "has_prefix xs u"
      "\<forall>k < length u. ws_front (drop k xs) = 0"
      using 1(1) False s by auto
    have "\<forall>k < length (x # u). ws_front (drop k s) = 0"
      using u(3) False s by (auto simp: less_Suc_eq_0_disj)
    then show ?thesis
      using u(1,2) False s
      by (intro exI [of _ "x # u"] exI [of _ rest]) (simp add: fields_from.simps [of "x # xs"] has_prefix_def)
  qed
qed

lemma fields_first:
  assumes "c \<noteq> []" and "ws_front c = 0"
  obtains w rest where "Prelude.fields c = w # rest" and "w \<noteq> []" and "has_prefix c w" and "trim_space w = w"
proof -
  obtain x xs where c: "c = x # xs" using assms(1) by (cases c) auto
  obtain u rest where u: "fields_from xs [x] = (x # u) # rest" "has_prefix xs u" "\<forall>k < length u. ws_front (drop k xs) = 0"
    using fields_from_word [of "[x]" xs] by auto
  have f: "Prelude.fields c = (x # u) # rest"
    using u(1) assms c by (simp add: Prelude.fields_def fields_from.simps [of "x # xs"])
  have pre: "has_prefix c (x # u)" using u(2) c by (simp add: has_prefix_def)
  then obtain t where t: "c = (x # u) @ t" by (auto simp: has_prefix_iff)
  have free: "\<not> has_prefix (drop k (x # u)) e" if "e \<in> set ws_encodings" "k < length (x # u)" for k e
  proof -
    have "ws_front (drop k c) = 0" using u(3) assms(2) c that(2) by (cases k) auto
    then have "\<not> has_prefix (drop k c) e" using that(1) by (simp add: ws_front_0)
    moreover have "drop k c = drop k (x # u) @ t" using that(2) unfolding t drop_append by simp
    ultimately show ?thesis by (auto simp: has_prefix_iff)
  qed
  have "ws_front (x # u) = 0" using free [of _ 0] by (auto simp: ws_front_0)
  moreover have "\<not> has_suffix (x # u) e" if "e \<in> set ws_encodings" for e
  proof
    assume suf: "has_suffix (x # u) e"
    have "e \<noteq> []" using that by (auto simp: ws_encodings_def)
    then have "length (x # u) - length e < length (x # u)" by simp
    with suf free [OF that this] show False by (simp add: has_suffix_def has_prefix_def)
  qed
  then have "ws_back (x # u) = 0" by (simp add: ws_back_0)
  ultimately have "trim_space (x # u) = x # u"
    by (simp add: trim_space_def trim_left.simps trim_right.simps)
  then show thesis using that f pre by blast
qed

lemma trim_left_length: "length (trim_left s) \<le> length s"
proof (induction s rule: trim_left.induct)
  case (1 s)
  then show ?case by (subst trim_left.simps) (auto intro: le_trans)
qed

lemma trim_right_length: "length (trim_right s) \<le> length s"
proof (induction s rule: trim_right.induct)
  case (1 s)
  then show ?case by (subst trim_right.simps) (auto intro: le_trans)
qed

lemma trimmed_front:
  assumes "trim_space c = c" and "c \<noteq> []"
  shows "ws_front c = 0"
proof (rule ccontr)
  assume ws: "ws_front c \<noteq> 0"
  then have "trim_left c = trim_left (drop (ws_front c) c)" using assms(2) by (simp add: trim_left.simps [of c])
  then have "length (trim_left c) < length c"
    using trim_left_length [of "drop (ws_front c) c"] ws assms(2) by (cases c) auto
  moreover have "length (trim_space c) \<le> length (trim_left c)" by (simp add: trim_space_def trim_right_length)
  ultimately show False using assms(1) by simp
qed

lemma rule_for_request_matches:
  assumes "trim_space (Req_Command req) = Req_Command req"
  shows "ruleMatches (Rule_Pattern (PermissionRuleForRequest req)) (Req_Command req) (first_word (Req_Command req))"
proof (cases "Req_Command req = []")
  case True
  then show ?thesis
    by (simp add: PermissionRuleForRequest_def ruleMatches_def Prelude.fields_def fields_from.simps trim_space_def
        trim_left.simps trim_right.simps)
next
  case False
  let ?c = "Req_Command req"
  obtain w rest where w: "Prelude.fields ?c = w # rest" "w \<noteq> []" "has_prefix ?c w" "trim_space w = w"
    by (rule fields_first [OF False trimmed_front [OF assms False]])
  have "has_prefix ?c (trim_suffix w ''*'')"
    using w(3) by (auto simp: trim_suffix_def has_prefix_iff) (metis append.assoc append_take_drop_id)
  with w show ?thesis by (simp add: PermissionRuleForRequest_def ruleMatches_def first_word_def Let_def)
qed

text \<open>
  An always-grant works: after granting a parked request, the same command of the same tool is
  allowed, unless a rule denies it; the request is no longer pending.
\<close>

theorem always_grant_allows:
  assumes "map_of (perm_pending ps) i = Some req" and "trim_space (Req_Command req) = Req_Command req"
    and "permissionGrant now i decision ps = (ps', Inr (GrantedAlways i rule rules))"
  shows "map_of (perm_pending ps') i = None \<and> rules = perm_rules ps' \<and>
    fst (permissionDecision (Req_Tool req) (Req_Command req) ps') =
      (if \<exists>r \<in> set (applicable (Req_Tool req) (Req_Command req) ps). Rule_Effect r = ''deny'' then ''deny'' else ''allow'')"
proof -
  let ?tool = "Req_Tool req" and ?c = "Req_Command req"
  have i: "i \<noteq> []" using assms(3) by (auto simp: permissionGrant_def split: if_splits)
  have "\<not> Req_ExpiresAt req < now"
    using assms(1,3) i by (auto simp: permissionGrant_def lookupRequest_def split: if_splits)
  then have lk: "lookupRequest now i ps = (ps, Inr req)" using assms(1) by (simp add: lookupRequest_def)
  note grant = assms(3) [unfolded permissionGrant_def lk prod.case sum.case Let_def]
  have ps': "ps' = ps\<lparr>perm_rules := perm_rules ps @ [PermissionRuleForRequest req],
      perm_pending := map_delete i (perm_pending ps)\<rparr>" "rules = perm_rules ps'"
    using grant i by (auto split: if_splits)
  have "applicable ?tool ?c ps' = applicable ?tool ?c ps @ [PermissionRuleForRequest req]"
    using rule_for_request_matches [OF assms(2)]
    by (simp add: applicable_def ps'(1)) (simp add: PermissionRuleForRequest_def Let_def)
  moreover have "Rule_Effect (PermissionRuleForRequest req) = ''allow''"
    by (simp add: PermissionRuleForRequest_def Let_def)
  ultimately have "fst (permissionDecision ?tool ?c ps') = ''allow'' \<longleftrightarrow>
      (\<forall>r \<in> set (applicable ?tool ?c ps). Rule_Effect r \<noteq> ''deny'')"
    "applicable ?tool ?c ps' \<noteq> []"
    using decision_allow_iff [of ?tool ?c ps'] by auto
  moreover have "fst (permissionDecision ?tool ?c ps') \<noteq> ''ask''"
    using calculation(2) unfolding permissionDecision_def decision_loop_eq [OF ask_not_deny] applicable_def Let_def
    by (auto split: option.split)
  ultimately show ?thesis
    using decision_effects [of ?tool ?c ps'] ps' by (auto simp: map_of_delete)
qed

theorem always_grant_allows_witness:
  "fst (permissionDecision ''bash'' ''ls'' (fst (permissionGrant 1 ''pr_1'' ''always'' (sample_perms ''bash'' ''ls'' [])))) = ''allow''"
proof -
  let ?ps = "sample_perms ''bash'' ''ls'' []"
  let ?rule = "\<lparr>Rule_Effect = ''allow'', Rule_Tool = ''bash'', Rule_Pattern = ''ls'', Rule_Reason = []\<rparr>"
  have grant: "permissionGrant 1 ''pr_1'' ''always'' ?ps =
      (fst (permissionGrant 1 ''pr_1'' ''always'' ?ps), Inr (GrantedAlways ''pr_1'' ?rule [?rule]))"
    by code_simp
  have "map_of (perm_pending ?ps) ''pr_1'' = Some (sample_req ''bash'' ''ls'')"
    "trim_space (Req_Command (sample_req ''bash'' ''ls'')) = Req_Command (sample_req ''bash'' ''ls'')" by code_simp+
  from always_grant_allows [OF this grant] show ?thesis
    by (simp add: sample_req_def sample_perms_def applicable_def)
qed

section \<open>Once-grants and the agent tool\<close>

text \<open>
  The agent tool ignores once-grants: the admission check gives the same answer whatever has been
  granted once. The grant stays usable by the bash tool, which does not look at the tool of the request:
  after a once-grant for the harness \<open>omp\<close>, the command \<open>omp\<close> runs without asking.
\<close>

theorem agent_ignores_once_grants:
  "snd (subagentPreflight profiles t1 t2 newid resolved spec (ps\<lparr>perm_granted := g\<rparr>)) =
     snd (subagentPreflight profiles t1 t2 newid resolved spec ps) \<and>
   snd (runBash 0 0 ''pr_2'' (Inr ''/w'') ''omp'' (sample_perms ''agent'' ''omp'' [''pr_1''])) = BashExec ''/w'' ''omp''"
proof
  show "snd (runBash 0 0 ''pr_2'' (Inr ''/w'') ''omp'' (sample_perms ''agent'' ''omp'' [''pr_1''])) = BashExec ''/w'' ''omp''"
    by code_simp
  show "snd (subagentPreflight profiles t1 t2 newid resolved spec (ps\<lparr>perm_granted := g\<rparr>)) =
     snd (subagentPreflight profiles t1 t2 newid resolved spec ps)"
    by (simp add: subagentPreflight_def permissionDecision_def pendingSubagentRequest_def pending_request_def Let_def
        split: sum.split prod.split)
qed

end
