(* ===== verification/Paths.thy ===== *)
theory Paths
  imports Prelude
begin

text \<open>
  The functions of \<open>path/filepath\<close> that the sources use, on Unix: a path is a byte string, its elements
  are separated by slashes, \<open>ToSlash\<close> and \<open>FromSlash\<close> are the identity. Each function works on the list of
  the elements; \<open>abs_path\<close> is the rooted path with given elements.
\<close>

section \<open>Elements\<close>

abbreviation slash :: char where "slash \<equiv> CHR 0x2F"

text \<open>\<open>strings.Split\<close> with a separator of one byte, and \<open>strings.Join\<close>.\<close>

fun split_char :: "char \<Rightarrow> string \<Rightarrow> string list" where
  "split_char c [] = [[]]"
| "split_char c (x # xs) =
     (if x = c then [] # split_char c xs
      else (x # hd (split_char c xs)) # tl (split_char c xs))"

fun join_char :: "char \<Rightarrow> string list \<Rightarrow> string" where
  "join_char c [] = []"
| "join_char c [p] = p"
| "join_char c (p # q # ps) = p @ c # join_char c (q # ps)"

definition is_abs :: "string \<Rightarrow> bool" where
  "is_abs s = has_prefix s [slash]"

definition abs_path :: "string list \<Rightarrow> string" where
  "abs_path ps = slash # join_char slash ps"

section \<open>Clean, Join, Rel\<close>

text \<open>The elements kept so far are in reverse order.\<close>

definition clean_step :: "bool \<Rightarrow> string list \<Rightarrow> string \<Rightarrow> string list" where
  "clean_step rooted out p =
     (if p = [] \<or> p = ''.'' then out
      else if p = ''..'' then
        (if out \<noteq> [] \<and> hd out \<noteq> ''..'' then tl out else if rooted then out else ''..'' # out)
      else p # out)"

definition clean_parts :: "bool \<Rightarrow> string list \<Rightarrow> string list" where
  "clean_parts rooted ps = rev (foldl (clean_step rooted) [] ps)"

definition path_parts :: "string \<Rightarrow> string list" where
  "path_parts s = clean_parts (is_abs s) (split_char slash s)"

definition Clean :: "string \<Rightarrow> string" where
  "Clean s =
     (if s = [] then ''.''
      else if is_abs s then abs_path (path_parts s)
      else if path_parts s = [] then ''.'' else join_char slash (path_parts s))"

definition Join2 :: "string \<Rightarrow> string \<Rightarrow> string" where
  "Join2 a b = (if a = [] then (if b = [] then [] else Clean b) else Clean (a @ slash # b))"

fun strip_common :: "string list \<Rightarrow> string list \<Rightarrow> string list \<times> string list" where
  "strip_common (b # bs) (t # ts) = (if b = t then strip_common bs ts else (b # bs, t # ts))"
| "strip_common bs ts = (bs, ts)"

definition Rel :: "string \<Rightarrow> string \<Rightarrow> string option" where
  "Rel base targ =
     (if Clean targ = Clean base then Some ''.''
      else if is_abs base \<noteq> is_abs targ then None
      else
        let (bs, ts) = strip_common (path_parts base) (path_parts targ)
        in if bs \<noteq> [] \<and> hd bs = ''..'' then None
           else Some (join_char slash (replicate (length bs) ''..'' @ ts)))"

section \<open>Base, Dir, Ext\<close>

fun drop_while_slash :: "string \<Rightarrow> string" where
  "drop_while_slash s = dropWhile (\<lambda>c. c = slash) s"

definition Base :: "string \<Rightarrow> string" where
  "Base s =
     (if s = [] then ''.''
      else
        let t = rev (drop_while_slash (rev s))
        in if t = [] then [slash] else rev (takeWhile (\<lambda>c. c \<noteq> slash) (rev t)))"

definition Dir_path :: "string \<Rightarrow> string" where
  "Dir_path s = Clean (rev (dropWhile (\<lambda>c. c \<noteq> slash) (rev s)))"

definition Ext :: "string \<Rightarrow> string" where
  "Ext s =
     (let t = takeWhile (\<lambda>c. c \<noteq> slash) (rev s)
      in if CHR ''.'' \<in> set t then rev (takeWhile (\<lambda>c. c \<noteq> CHR ''.'') t @ ''.'') else [])"

section \<open>Facts about elements\<close>

definition good_part :: "string \<Rightarrow> bool" where
  "good_part p \<longleftrightarrow> p \<noteq> [] \<and> p \<noteq> ''.'' \<and> p \<noteq> ''..'' \<and> slash \<notin> set p"

lemma split_char_not_Nil [simp]: "split_char c s \<noteq> []"
  by (cases s) auto

lemma split_char_free: "p \<in> set (split_char c s) \<Longrightarrow> c \<notin> set p"
proof (induction s arbitrary: p)
  case (Cons x xs)
  have "hd (split_char c xs) \<in> set (split_char c xs)" by simp
  moreover have "set (tl (split_char c xs)) \<subseteq> set (split_char c xs)" by (cases "split_char c xs") auto
  ultimately show ?case using Cons by (auto split: if_splits)
qed simp

lemma split_char_append: "c \<notin> set p \<Longrightarrow> split_char c (p @ c # s) = p # split_char c s"
  by (induction p) auto

lemma split_char_single: "c \<notin> set p \<Longrightarrow> split_char c p = [p]"
  by (induction p) auto

lemma split_join: "ps \<noteq> [] \<Longrightarrow> \<forall>p \<in> set ps. c \<notin> set p \<Longrightarrow> split_char c (join_char c ps) = ps"
  by (induction c ps rule: join_char.induct) (simp_all add: split_char_single split_char_append)

lemma join_split: "join_char c (split_char c s) = s"
proof (induction s)
  case (Cons x xs)
  obtain q qs where q: "split_char c xs = q # qs" by (cases "split_char c xs") auto
  then show ?case using Cons by (cases qs) auto
qed simp

lemma split_abs_path: "\<forall>p \<in> set ps. slash \<notin> set p \<Longrightarrow> ps \<noteq> [] \<Longrightarrow> split_char slash (abs_path ps) = [] # ps"
  by (simp add: abs_path_def split_join)

lemma split_root [simp]: "split_char slash (abs_path []) = [[], []]"
  by (simp add: abs_path_def)

lemma is_abs_abs_path [simp]: "is_abs (abs_path ps)"
  by (simp add: is_abs_def abs_path_def has_prefix_def)

lemma abs_path_not_Nil [simp]: "abs_path ps \<noteq> []"
  by (simp add: abs_path_def)

section \<open>Cleaning\<close>

text \<open>Elements that are kept: good ones, after any number of dot-dot elements when the path is not rooted.\<close>

definition clean_out :: "bool \<Rightarrow> string list \<Rightarrow> bool" where
  "clean_out rooted out \<longleftrightarrow>
     (\<exists>ns k. out = ns @ replicate k ''..'' \<and> (\<forall>p \<in> set ns. good_part p) \<and> (rooted \<longrightarrow> k = 0))"

lemma clean_step_out:
  assumes "clean_out rooted out" and "slash \<notin> set p"
  shows "clean_out rooted (clean_step rooted out p)"
proof -
  obtain ns k where out: "out = ns @ replicate k ''..''" "\<forall>q \<in> set ns. good_part q" "rooted \<longrightarrow> k = 0"
    using assms(1) by (auto simp: clean_out_def)
  consider "p = [] \<or> p = ''.''" | "p = ''..''" "ns \<noteq> []" | "p = ''..''" "ns = []" | "good_part p"
    using assms(2) by (auto simp: good_part_def)
  then show ?thesis
  proof cases
    case 1
    then show ?thesis using assms(1) by (simp add: clean_step_def)
  next
    case 2
    then have "hd out \<noteq> ''..''" "out \<noteq> []" "tl out = tl ns @ replicate k ''..''"
      using out by (cases ns; auto simp: good_part_def)+
    then have step: "clean_step rooted out p = tl ns @ replicate k ''..''" using 2 by (simp add: clean_step_def)
    have "\<forall>q \<in> set (tl ns). good_part q" using out(2) by (cases ns) auto
    then show ?thesis unfolding step clean_out_def using out(3) by blast
  next
    case 3
    then have "clean_step rooted out p = (if rooted then out else replicate (Suc k) ''..'')"
      using out by (cases k) (auto simp: clean_step_def)
    then show ?thesis
      using assms(1) unfolding clean_out_def
      by (cases rooted) (auto intro!: exI [of _ "[] :: string list"] exI [of _ "Suc k"])
  next
    case 4
    then have "clean_step rooted out p = (p # ns) @ replicate k ''..''"
      using out by (auto simp: clean_step_def good_part_def)
    then show ?thesis unfolding clean_out_def using out 4 by (intro exI [of _ "p # ns"] exI [of _ k]) auto
  qed
qed

lemma foldl_clean_out:
  "clean_out rooted out \<Longrightarrow> \<forall>p \<in> set ps. slash \<notin> set p \<Longrightarrow> clean_out rooted (foldl (clean_step rooted) out ps)"
  by (induction ps arbitrary: out) (auto simp: clean_step_out)

lemma path_parts_shape:
  obtains k ns where "path_parts s = replicate k ''..'' @ ns" and "\<forall>p \<in> set ns. good_part p"
    and "is_abs s \<Longrightarrow> k = 0"
proof -
  have "clean_out (is_abs s) []" unfolding clean_out_def by (intro exI [of _ "[]"] exI [of _ 0]) simp
  then have "clean_out (is_abs s) (foldl (clean_step (is_abs s)) [] (split_char slash s))"
    by (rule foldl_clean_out) (auto dest: split_char_free)
  then obtain ns k where "foldl (clean_step (is_abs s)) [] (split_char slash s) = ns @ replicate k ''..''"
    "\<forall>p \<in> set ns. good_part p" "is_abs s \<longrightarrow> k = 0" by (auto simp: clean_out_def)
  then show thesis using that [of k "rev ns"] by (simp add: path_parts_def clean_parts_def)
qed

lemma path_parts_abs: "is_abs s \<Longrightarrow> \<forall>p \<in> set (path_parts s). good_part p"
  by (rule path_parts_shape [of s]) auto

lemma clean_good:
  "\<forall>p \<in> set ps. good_part p \<Longrightarrow> foldl (clean_step rooted) out ps = rev ps @ out"
  by (induction ps arbitrary: out) (auto simp: clean_step_def good_part_def)

lemma clean_step_Nil [simp]: "clean_step rooted out [] = out"
  by (simp add: clean_step_def)

lemma path_parts_abs_path:
  assumes "\<forall>p \<in> set ps. good_part p"
  shows "path_parts (abs_path ps) = ps"
proof (cases "ps = []")
  case True
  then show ?thesis by (simp add: path_parts_def clean_parts_def)
next
  case False
  then have "split_char slash (abs_path ps) = [] # ps"
    using assms by (intro split_abs_path) (auto simp: good_part_def)
  then show ?thesis using assms clean_good [OF assms, of True "[]"] by (simp add: path_parts_def clean_parts_def)
qed

lemma Clean_abs_path: "\<forall>p \<in> set ps. good_part p \<Longrightarrow> Clean (abs_path ps) = abs_path ps"
  by (simp add: Clean_def path_parts_abs_path)

lemma abs_path_inject:
  assumes "abs_path ps = abs_path qs" and "\<forall>p \<in> set ps. good_part p" and "\<forall>q \<in> set qs. good_part q"
  shows "ps = qs"
  using assms path_parts_abs_path by metis

section \<open>Joining and relative paths\<close>

lemma split_concat: "split_char c (s @ c # t) = split_char c s @ split_char c t"
proof (induction s)
  case (Cons x xs)
  then show ?case by (cases "split_char c xs") auto
qed simp

lemma is_abs_append: "is_abs s \<Longrightarrow> is_abs (s @ t)"
  by (cases s) (auto simp: is_abs_def has_prefix_def)

lemma path_parts_join:
  assumes "\<forall>p \<in> set rp. good_part p"
  shows "path_parts (abs_path rp @ slash # b) = rev (foldl (clean_step True) (rev rp) (split_char slash b))"
proof -
  have "foldl (clean_step True) [] (split_char slash (abs_path rp)) = rev rp"
    using path_parts_abs_path [OF assms] by (simp add: path_parts_def clean_parts_def rev_swap)
  then show ?thesis by (simp add: path_parts_def clean_parts_def split_concat is_abs_append)
qed

lemma Join2_abs:
  assumes "\<forall>p \<in> set rp. good_part p"
  shows "Join2 (abs_path rp) b = abs_path (rev (foldl (clean_step True) (rev rp) (split_char slash b)))"
  using path_parts_join [OF assms, of b] by (simp add: Join2_def Clean_def is_abs_append)

lemma not_abs_join: "good_part p \<Longrightarrow> \<not> is_abs (join_char slash (p # ps))"
  by (cases ps; cases p) (auto simp: is_abs_def has_prefix_def good_part_def)

text \<open>A relative path that does not start with dot-dot after cleaning has only good elements.\<close>

lemma Clean_rel_parts:
  assumes "\<not> is_abs rel" and "Clean rel \<noteq> ''..''" and "\<not> has_prefix (Clean rel) ''../''"
  shows "\<forall>p \<in> set (path_parts rel). good_part p"
proof -
  obtain k ns where shape: "path_parts rel = replicate k ''..'' @ ns" "\<forall>p \<in> set ns. good_part p"
    by (rule path_parts_shape)
  have "k = 0"
  proof (rule ccontr)
    assume "k \<noteq> 0"
    then obtain j where "k = Suc j" using not0_implies_Suc by blast
    then have parts: "path_parts rel = ''..'' # (replicate j ''..'' @ ns)" using shape(1) by simp
    moreover have "rel \<noteq> []" using parts by (auto simp: path_parts_def clean_parts_def is_abs_def clean_step_def)
    ultimately have "Clean rel = join_char slash (''..'' # (replicate j ''..'' @ ns))"
      using assms(1) by (simp add: Clean_def)
    then show False
      using assms(2,3) by (cases "replicate j ''..'' @ ns") (auto simp: has_prefix_def)
  qed
  with shape show ?thesis by simp
qed

lemma Join2_Clean_rel:
  assumes rp: "\<forall>p \<in> set rp. good_part p" and rel: "\<not> is_abs rel" and parts: "\<forall>p \<in> set (path_parts rel). good_part p"
  shows "Join2 (abs_path rp) (Clean rel) = abs_path (rp @ path_parts rel)"
proof (cases "path_parts rel = []")
  case True
  then have "Clean rel = ''.''" using rel by (simp add: Clean_def)
  then show ?thesis using Join2_abs [OF rp, of "''.''"] True by (simp add: clean_step_def)
next
  case False
  then have "rel \<noteq> []" by (auto simp: path_parts_def clean_parts_def is_abs_def has_prefix_def)
  then have "Clean rel = join_char slash (path_parts rel)" using rel False by (simp add: Clean_def)
  moreover have "split_char slash (join_char slash (path_parts rel)) = path_parts rel"
    using parts by (intro split_join [OF False]) (auto simp: good_part_def)
  ultimately show ?thesis using Join2_abs [OF rp, of "Clean rel"] clean_good [OF parts] by simp
qed

lemma strip_common_prefix: "strip_common bs (bs @ cs) = ([], cs)"
  by (induction bs) auto

lemma strip_common_spec:
  "strip_common bs ts = (bs', ts') \<Longrightarrow> \<exists>pre. bs = pre @ bs' \<and> ts = pre @ ts'"
proof (induction bs ts rule: strip_common.induct)
  case (1 b bs t ts)
  show ?case
  proof (cases "b = t")
    case True
    then obtain pre where "bs = pre @ bs'" "ts = pre @ ts'" using 1 by auto
    then show ?thesis using True by (intro exI [of _ "b # pre"]) simp
  qed (use 1(2) in auto)
qed auto

lemma Rel_abs:
  assumes "\<forall>p \<in> set bs. good_part p" and "\<forall>p \<in> set ts. good_part p"
  shows "Rel (abs_path bs) (abs_path ts) =
    (if ts = bs then Some ''.''
     else Some (join_char slash (replicate (length (fst (strip_common bs ts))) ''..'' @ snd (strip_common bs ts))))"
proof -
  obtain bs' ts' where sc: "strip_common bs ts = (bs', ts')" by fastforce
  have "\<forall>p \<in> set bs'. good_part p" using strip_common_spec [OF sc] assms(1) by auto
  then have "bs' = [] \<or> hd bs' \<noteq> ''..''" by (cases bs') (auto simp: good_part_def)
  moreover have "Clean (abs_path ts) = Clean (abs_path bs) \<longleftrightarrow> ts = bs"
    using abs_path_inject assms by (auto simp: Clean_abs_path)
  ultimately show ?thesis using sc assms by (auto simp: Rel_def path_parts_abs_path)
qed

definition contained :: "string \<Rightarrow> string \<Rightarrow> bool" where
  "contained root target =
     (case Rel root target of
        None \<Rightarrow> False
      | Some rel \<Rightarrow> rel \<noteq> ''..'' \<and> \<not> has_prefix rel ''../'')"

lemma good_join_not_up:
  assumes "\<forall>p \<in> set cs. good_part p"
  shows "join_char slash cs \<noteq> ''..'' \<and> \<not> has_prefix (join_char slash cs) ''../''"
proof (cases "cs = []")
  case True
  then show ?thesis by (simp add: has_prefix_def)
next
  case False
  have split: "split_char slash (join_char slash cs) = cs"
    using assms by (intro split_join [OF False]) (auto simp: good_part_def)
  have "hd cs \<noteq> ''..''" using assms False by (cases cs) (auto simp: good_part_def)
  moreover have "hd (split_char slash (''../'' @ t)) = ''..''" for t by simp
  moreover have "hd (split_char slash ''..'') = ''..''" by simp
  ultimately show ?thesis using split by (metis has_prefix_iff)
qed

text \<open>Containment of cleaned rooted paths is the prefix relation on their elements.\<close>

lemma contained_iff:
  assumes "\<forall>p \<in> set bs. good_part p" and "\<forall>p \<in> set ts. good_part p"
  shows "contained (abs_path bs) (abs_path ts) \<longleftrightarrow> (\<exists>cs. ts = bs @ cs)"
proof
  assume "\<exists>cs. ts = bs @ cs"
  then obtain cs where cs: "ts = bs @ cs" ..
  then have "Rel (abs_path bs) (abs_path ts) = Some (if cs = [] then ''.'' else join_char slash cs)"
    using Rel_abs [OF assms] by (simp add: strip_common_prefix)
  then show "contained (abs_path bs) (abs_path ts)"
    using good_join_not_up [of cs] assms(2) cs by (simp add: contained_def has_prefix_def)
next
  assume con: "contained (abs_path bs) (abs_path ts)"
  obtain bs' ts' where sc: "strip_common bs ts = (bs', ts')" by fastforce
  show "\<exists>cs. ts = bs @ cs"
  proof (cases "bs' = []")
    case True
    then show ?thesis using strip_common_spec [OF sc] by auto
  next
    case False
    then obtain j where j: "length bs' = Suc j" by (cases bs') auto
    have "ts \<noteq> bs" using False sc strip_common_prefix [of bs "[]"] by auto
    then have "Rel (abs_path bs) (abs_path ts) = Some (join_char slash (''..'' # (replicate j ''..'' @ ts')))"
      using Rel_abs [OF assms] sc j by simp
    with con show ?thesis
      by (cases "replicate j ''..'' @ ts'") (auto simp: contained_def has_prefix_def)
  qed
qed

end
