(* ===== verification/FileSystem.thy ===== *)
theory FileSystem
  imports Paths
begin

text \<open>
  A file system with directories, files and symbolic links, and the operations of \<open>os\<close>, \<open>path/filepath\<close> and
  \<open>os.Root\<close> that the sources use. A file system maps the elements of a rooted path to a node; following a
  path resolves the links in it. Errors other than a missing file, a file that is not a directory and too
  many links do not occur in reading; the clients of this theory take the faults of writing as arguments.
\<close>

section \<open>Nodes\<close>

datatype node = File (file_content: string) (file_mode: nat) | Dir nat | Link string

type_synonym fs = "string list \<Rightarrow> node option"

datatype fs_error = ErrNotExist | ErrExist | ErrNotDir | ErrIsDir | ErrLoop | ErrPathEscapes | ErrNotEmpty | ErrPermission | ErrIO

section \<open>Following a path\<close>

text \<open>
  \<open>walk conf base fs n dest rest\<close> follows the elements \<open>rest\<close> from the directory \<open>base @ dest\<close>, with at most
  \<open>n\<close> links. When \<open>conf\<close> holds (the methods of \<open>os.Root\<close>) the path must stay below \<open>base\<close>: an absolute link
  and a dot-dot element at the base are errors. The result is the place and what is there, which may be
  nothing when only the last element is missing.
\<close>

function walk ::
  "bool \<Rightarrow> string list \<Rightarrow> fs \<Rightarrow> nat \<Rightarrow> string list \<Rightarrow> string list \<Rightarrow> fs_error + string list \<times> node option"
where
  "walk conf base fs n dest [] = Inr (dest, fs (base @ dest))"
| "walk conf base fs n dest (p # rest) =
     (if p = [] \<or> p = ''.'' then walk conf base fs n dest rest
      else if p = ''..'' then
        (if conf \<and> dest = [] then Inl ErrPathEscapes else walk conf base fs n (butlast dest) rest)
      else case fs (base @ dest @ [p]) of
             None \<Rightarrow> if rest = [] then Inr (dest @ [p], None) else Inl ErrNotExist
           | Some (Dir m) \<Rightarrow> walk conf base fs n (dest @ [p]) rest
           | Some (File c m) \<Rightarrow> if rest = [] then Inr (dest @ [p], Some (File c m)) else Inl ErrNotDir
           | Some (Link t) \<Rightarrow>
               if n = 0 then Inl ErrLoop
               else if is_abs t then
                 (if conf then Inl ErrPathEscapes else walk conf base fs (n - 1) [] (split_char slash t @ rest))
               else walk conf base fs (n - 1) dest (split_char slash t @ rest))"
  by pat_completeness auto
termination
  by (relation "measures [\<lambda>(conf, base, fs, n, dest, rest). n, \<lambda>(conf, base, fs, n, dest, rest). length rest]") auto

declare walk.simps(2) [simp del]

abbreviation maxEvalLinks :: nat where "maxEvalLinks \<equiv> 255"
abbreviation maxKernelLinks :: nat where "maxKernelLinks \<equiv> 40"
abbreviation rootMaxSymlinks :: nat where "rootMaxSymlinks \<equiv> 8"

definition EvalSymlinks :: "fs \<Rightarrow> string \<Rightarrow> fs_error + string" where
  "EvalSymlinks fs s =
     (case walk False [] fs maxEvalLinks [] (split_char slash s) of
        Inl e \<Rightarrow> Inl e
      | Inr (d, None) \<Rightarrow> Inl ErrNotExist
      | Inr (d, Some nd) \<Rightarrow> Inr (abs_path d))"

text \<open>\<open>os.Stat\<close> follows the last element, \<open>os.Lstat\<close> does not; both take a cleaned rooted path.\<close>

definition Stat :: "fs \<Rightarrow> string \<Rightarrow> fs_error + node" where
  "Stat fs s =
     (case walk False [] fs maxKernelLinks [] (split_char slash s) of
        Inl e \<Rightarrow> Inl e
      | Inr (d, None) \<Rightarrow> Inl ErrNotExist
      | Inr (d, Some nd) \<Rightarrow> Inr nd)"

definition in_dir :: "bool \<Rightarrow> string list \<Rightarrow> fs \<Rightarrow> nat \<Rightarrow> string list \<Rightarrow> fs_error + string list" where
  "in_dir conf base fs n ps =
     (if ps = [] then Inr []
      else case walk conf base fs n [] (butlast ps) of
             Inl e \<Rightarrow> Inl e
           | Inr (d, Some (Dir m)) \<Rightarrow> Inr (d @ [last ps])
           | Inr (d, Some (File c m)) \<Rightarrow> Inl ErrNotDir
           | Inr (d, _) \<Rightarrow> Inl ErrNotExist)"

definition Lstat :: "fs \<Rightarrow> string \<Rightarrow> fs_error + node" where
  "Lstat fs s =
     (case in_dir False [] fs maxKernelLinks (path_parts s) of
        Inl e \<Rightarrow> Inl e
      | Inr q \<Rightarrow> (case fs q of None \<Rightarrow> Inl ErrNotExist | Some nd \<Rightarrow> Inr nd))"

definition ReadFile_os :: "fs \<Rightarrow> string \<Rightarrow> fs_error + string" where
  "ReadFile_os fs s =
     (case Stat fs s of
        Inl e \<Rightarrow> Inl e
      | Inr (File c m) \<Rightarrow> Inr c
      | Inr _ \<Rightarrow> Inl ErrIsDir)"

section \<open>Well-formed file systems\<close>

text \<open>Every ancestor of a node is a directory.\<close>

definition fs_wf :: "fs \<Rightarrow> bool" where
  "fs_wf fs \<longleftrightarrow> (\<exists>m. fs [] = Some (Dir m)) \<and>
     (\<forall>q p. fs (q @ [p]) \<noteq> None \<longrightarrow> (\<exists>m. fs q = Some (Dir m)))"

definition is_dir :: "fs \<Rightarrow> string list \<Rightarrow> bool" where
  "is_dir fs q \<longleftrightarrow> (\<exists>m. fs q = Some (Dir m))"

lemma fs_wf_prefix:
  assumes "fs_wf fs"
  shows "fs (q @ r) \<noteq> None \<Longrightarrow> r \<noteq> [] \<Longrightarrow> is_dir fs q"
proof (induction r arbitrary: q)
  case (Cons x r)
  show ?case
  proof (cases "r = []")
    case True
    then show ?thesis using Cons.prems assms by (auto simp: fs_wf_def is_dir_def)
  next
    case False
    then have "is_dir fs (q @ [x])" using Cons.IH [of "q @ [x]"] Cons.prems by simp
    then show ?thesis using assms by (auto simp: fs_wf_def is_dir_def)
  qed
qed simp

lemma is_dir_butlast: "fs_wf fs \<Longrightarrow> is_dir fs (base @ dest) \<Longrightarrow> is_dir fs base \<Longrightarrow> is_dir fs (base @ butlast dest)"
proof (cases dest rule: rev_cases)
  case (snoc ys y)
  assume "fs_wf fs" "is_dir fs (base @ dest)"
  then show ?thesis
    using snoc fs_wf_prefix [of fs "base @ ys" "[y]"] by (auto simp: is_dir_def)
qed simp

section \<open>Where a walk ends\<close>

lemma walk_end:
  assumes "walk conf base fs n dest rest = Inr (d, nd)" and "fs_wf fs" and "is_dir fs base" and "is_dir fs (base @ dest)"
    and "\<forall>p \<in> set dest. good_part p" and "\<forall>p \<in> set rest. slash \<notin> set p" and "conf \<or> base = []"
  shows "nd = fs (base @ d) \<and> (\<forall>t. nd \<noteq> Some (Link t)) \<and> (\<forall>p \<in> set d. good_part p) \<and>
    (d \<noteq> [] \<longrightarrow> is_dir fs (base @ butlast d))"
  using assms
proof (induction conf base fs n dest rest rule: walk.induct)
  case (1 conf base fs n dest)
  then show ?case using is_dir_butlast [of fs base dest] by (auto simp: is_dir_def)
next
  case (2 conf base fs n dest p rest)
  have t_free: "\<forall>q \<in> set (split_char slash t @ rest). slash \<notin> set q" for t
    using 2(11) split_char_free [of _ slash t] by auto
  consider "p = [] \<or> p = ''.''" | "p = ''..''" | "good_part p"
    using 2(11) by (auto simp: good_part_def)
  then show ?case
  proof cases
    case 1
    then have "walk conf base fs n dest rest = Inr (d, nd)" using 2(6) by (simp add: walk.simps(2))
    moreover have "\<forall>q \<in> set rest. slash \<notin> set q" using 2(11) by simp
    ultimately show ?thesis by (intro "2.IH"(1) [OF 1] 2(7-10,12))
  next
    case up: 2
    have w: "walk conf base fs n (butlast dest) rest = Inr (d, nd)" and "\<not> (conf \<and> dest = [])"
      using 2(6) up by (auto simp: walk.simps(2) split: if_splits)
    then show ?thesis
      using "2.IH"(2) up 2(7,8,10,11,12) is_dir_butlast [OF 2(7,9,8)] by (auto dest: in_set_butlastD)
  next
    case good: 3
    then have nd: "p \<noteq> []" "p \<noteq> ''.''" "p \<noteq> ''..''" by (auto simp: good_part_def)
    show ?thesis
    proof (cases "fs (base @ dest @ [p])")
      case None
      then show ?thesis
        using 2(6,9,10) nd good by (auto simp: walk.simps(2) split: if_splits)
    next
      case (Some x)
      show ?thesis
      proof (cases x)
        case (File c m)
        then show ?thesis using 2(6,9,10) nd good Some by (auto simp: walk.simps(2) split: if_splits)
      next
        case (Dir m)
        then have w: "walk conf base fs n (dest @ [p]) rest = Inr (d, nd)" using 2(6) nd Some by (simp add: walk.simps(2))
        have "is_dir fs (base @ dest @ [p])" using Some Dir by (simp add: is_dir_def)
        then show ?thesis using "2.IH"(3) nd Some Dir w 2(7,8,10,11,12) good by auto
      next
        case (Link t)
        then have n: "n \<noteq> 0" using 2(6) nd Some by (auto simp: walk.simps(2) split: if_splits)
        show ?thesis
        proof (cases "is_abs t")
          case True
          then have "\<not> conf" and w: "walk conf base fs (n - 1) [] (split_char slash t @ rest) = Inr (d, nd)"
            using 2(6) nd Some Link n by (auto simp: walk.simps(2) split: if_splits)
          then show ?thesis using "2.IH"(4) nd Some Link n True 2(7,8,12) t_free by auto
        next
          case False
          then have w: "walk conf base fs (n - 1) dest (split_char slash t @ rest) = Inr (d, nd)"
            using 2(6) nd Some Link n by (auto simp: walk.simps(2) split: if_splits)
          then show ?thesis using "2.IH"(5) nd Some Link n False 2(7,8,9,10,12) t_free by auto
        qed
      qed
    qed
  qed
qed

text \<open>A path without links leads to itself.\<close>

lemma walk_real:
  assumes "fs_wf fs" and "fs (base @ dest @ ps) = Some nd" and "\<forall>t. nd \<noteq> Link t" and "\<forall>p \<in> set ps. good_part p"
  shows "walk conf base fs n dest ps = Inr (dest @ ps, Some nd)"
  using assms
proof (induction ps arbitrary: dest)
  case (Cons p ps)
  have p: "p \<noteq> []" "p \<noteq> ''.''" "p \<noteq> ''..''" using Cons.prems(4) by (auto simp: good_part_def)
  show ?case
  proof (cases "ps = []")
    case True
    then have "fs (base @ dest @ [p]) = Some nd" using Cons.prems(2) by simp
    then show ?thesis using True p Cons.prems(3) by (cases nd) (simp_all add: walk.simps(2))
  next
    case False
    then have "is_dir fs (base @ dest @ [p])"
      using fs_wf_prefix [OF assms(1), of "base @ dest @ [p]" ps] Cons.prems(2) by simp
    then obtain m where "fs (base @ dest @ [p]) = Some (Dir m)" by (auto simp: is_dir_def)
    then show ?thesis using Cons.IH [of "dest @ [p]"] Cons.prems p by (simp add: walk.simps(2))
  qed
qed simp

lemma EvalSymlinks_end:
  assumes "EvalSymlinks fs s = Inr t" and "fs_wf fs"
  obtains d nd where "t = abs_path d" and "fs d = Some nd" and "\<forall>l. nd \<noteq> Link l" and "\<forall>p \<in> set d. good_part p"
proof -
  obtain d nd where w: "walk False [] fs maxEvalLinks [] (split_char slash s) = Inr (d, Some nd)" "t = abs_path d"
    using assms(1) by (auto simp: EvalSymlinks_def split: sum.splits option.splits)
  have "is_dir fs []" using assms(2) by (simp add: fs_wf_def is_dir_def)
  then have "Some nd = fs ([] @ d) \<and> (\<forall>l. Some nd \<noteq> Some (Link l)) \<and> (\<forall>p \<in> set d. good_part p) \<and>
      (d \<noteq> [] \<longrightarrow> is_dir fs ([] @ butlast d))"
    by (intro walk_end [OF w(1) assms(2)]) (auto dest: split_char_free)
  then show thesis by (intro that [OF w(2), of nd]) auto
qed

lemma EvalSymlinks_real:
  assumes "fs_wf fs" and "fs d = Some nd" and "\<forall>l. nd \<noteq> Link l" and "\<forall>p \<in> set d. good_part p"
  shows "EvalSymlinks fs (abs_path d) = Inr (abs_path d)"
proof -
  have "walk False [] fs maxEvalLinks [] d = Inr (d, Some nd)"
    using walk_real [of fs "[]" "[]" d nd] assms by simp
  moreover have "split_char slash (abs_path d) = (if d = [] then [[], []] else [] # d)"
    using split_abs_path [of d] assms(4) by (auto simp: good_part_def)
  moreover have "walk False [] fs maxEvalLinks [] [[], []] = Inr ([], fs [])" by (simp add: walk.simps)
  moreover have "walk False [] fs maxEvalLinks [] ([] # d) = walk False [] fs maxEvalLinks [] d"
    by (simp add: walk.simps(2))
  ultimately show ?thesis using assms(2) by (auto simp: EvalSymlinks_def)
qed

section \<open>Relating walks\<close>

text \<open>More links do no harm.\<close>

lemma walk_more_links:
  "walk conf base fs n dest rest = Inr r \<Longrightarrow> n \<le> k \<Longrightarrow> walk conf base fs k dest rest = Inr r"
proof (induction conf base fs n dest rest arbitrary: k rule: walk.induct)
  case (2 conf base fs n dest p rest)
  consider "p = [] \<or> p = ''.''" | "\<not> (p = [] \<or> p = ''.'')" "p = ''..''" | "\<not> (p = [] \<or> p = ''.'')" "p \<noteq> ''..''"
    by blast
  then show ?case
  proof cases
    case 1
    then have "walk conf base fs n dest rest = Inr r" using 2(6) by (simp add: walk.simps(2))
    from 2(1) [OF 1 this 2(7)] show ?thesis using 1 by (simp add: walk.simps(2))
  next
    case up: 2
    then have "\<not> (conf \<and> dest = [])" "walk conf base fs n (butlast dest) rest = Inr r"
      using 2(6) by (auto simp: walk.simps(2) split: if_splits)
    from 2(2) [OF up this 2(7)] show ?thesis using up \<open>\<not> (conf \<and> dest = [])\<close> by (simp add: walk.simps(2))
  next
    case False: 3
    then show ?thesis
    proof (cases "fs (base @ dest @ [p])")
      case (Some x)
      show ?thesis
      proof (cases x)
        case (File c m)
        then show ?thesis using 2(6) False Some by (simp add: walk.simps(2) split: if_splits)
      next
        case (Dir m)
        then have "walk conf base fs n (dest @ [p]) rest = Inr r" using 2(6) False Some by (simp add: walk.simps(2))
        from 2(3) [OF False Some Dir this 2(7)] show ?thesis using False Some Dir by (simp add: walk.simps(2))
      next
        case (Link t)
        then have n: "n \<noteq> 0" using 2(6) False Some by (auto simp: walk.simps(2) split: if_splits)
        then have le: "n - 1 \<le> k - 1" "k \<noteq> 0" using 2(7) by simp_all
        show ?thesis
        proof (cases "is_abs t")
          case True
          then have "\<not> conf" "walk conf base fs (n - 1) [] (split_char slash t @ rest) = Inr r"
            using 2(6) False Some Link n by (auto simp: walk.simps(2) split: if_splits)
          with 2(4) [OF False Some Link n True] le show ?thesis
            using False Some Link True by (simp add: walk.simps(2))
        next
          case rel: False
          then have "walk conf base fs (n - 1) dest (split_char slash t @ rest) = Inr r"
            using 2(6) False Some Link n by (auto simp: walk.simps(2) split: if_splits)
          with 2(5) [OF False Some Link n rel] le show ?thesis
            using False Some Link rel by (simp add: walk.simps(2))
        qed
      qed
    qed (use 2(6) False in \<open>simp add: walk.simps(2) split: if_splits\<close>)
  qed
qed simp

text \<open>A confined walk is an ordinary walk that stays below the base.\<close>

lemma walk_confined:
  "walk True base fs n dest rest = Inr (d, nd) \<Longrightarrow> walk False [] fs n (base @ dest) rest = Inr (base @ d, nd)"
proof (induction True base fs n dest rest rule: walk.induct)
  case (2 base fs n dest p rest)
  show ?case
  proof (cases "p = [] \<or> p = ''.''")
    case True
    then show ?thesis using 2 by (auto simp: walk.simps(2) split: if_splits)
  next
    case no_dot: False
    show ?thesis
    proof (cases "p = ''..''")
      case True
      then have "dest \<noteq> []" "walk True base fs n (butlast dest) rest = Inr (d, nd)"
        using 2(6) by (auto simp: walk.simps(2) split: if_splits)
      then show ?thesis using 2(2) True by (simp add: walk.simps(2) butlast_append)
    next
      case False
      show ?thesis
      proof (cases "fs (base @ dest @ [p])")
        case None
        then show ?thesis using 2(6) no_dot False by (auto simp: walk.simps(2) split: if_splits)
      next
        case (Some x)
        then show ?thesis
          using 2(3-6) no_dot False by (cases x) (auto simp: walk.simps(2) split: if_splits)
      qed
    qed
  qed
qed simp

text \<open>Following a path follows its first part to a directory, and then the rest.\<close>

lemma walk_split:
  assumes "walk conf base fs n dest (xs @ ys) = Inr r" and "ys \<noteq> []" and "is_dir fs (base @ dest)" and "is_dir fs base"
    and "fs_wf fs" and "conf \<or> base = []"
  shows "\<exists>d k. walk conf base fs n dest xs = Inr (d, fs (base @ d)) \<and> is_dir fs (base @ d) \<and> k \<le> n \<and>
    walk conf base fs k d ys = Inr r"
  using assms
proof (induction conf base fs n dest xs rule: walk.induct)
  case (2 conf base fs n dest p rest)
  show ?case
  proof (cases "p = [] \<or> p = ''.''")
    case True
    then have "walk conf base fs n dest (rest @ ys) = Inr r" using 2(6) by (simp add: walk.simps(2))
    then obtain d k where "walk conf base fs n dest rest = Inr (d, fs (base @ d))" "is_dir fs (base @ d)" "k \<le> n"
      "walk conf base fs k d ys = Inr r" using 2(1) [OF True] 2(7-11) by blast
    then show ?thesis using True by (intro exI [of _ d] exI [of _ k]) (simp add: walk.simps(2))
  next
    case no_dot: False
    show ?thesis
    proof (cases "p = ''..''")
      case True
      then have step: "\<not> (conf \<and> dest = [])" "walk conf base fs n (butlast dest) (rest @ ys) = Inr r"
        using 2(6) by (auto simp: walk.simps(2) split: if_splits)
      have "is_dir fs (base @ butlast dest)" using is_dir_butlast [OF 2(10,8,9)] .
      then obtain d k where "walk conf base fs n (butlast dest) rest = Inr (d, fs (base @ d))" "is_dir fs (base @ d)" "k \<le> n"
        "walk conf base fs k d ys = Inr r" using 2(2) [OF no_dot True step(1,2)] 2(7-11) by blast
      then show ?thesis using True step(1) by (intro exI [of _ d] exI [of _ k]) (simp add: walk.simps(2))
    next
      case False
      then obtain x where x: "fs (base @ dest @ [p]) = Some x"
        using 2(6,7) no_dot by (auto simp: walk.simps(2) split: option.splits if_splits)
      have "\<exists>d k. walk conf base fs n dest (p # rest) = Inr (d, fs (base @ d)) \<and> is_dir fs (base @ d) \<and> k \<le> n \<and>
          walk conf base fs k d ys = Inr r"
      proof (cases x)
        case (File c m)
        then show ?thesis using 2(6,7) no_dot False x by (auto simp: walk.simps(2) split: if_splits)
      next
        case (Dir m)
        then have step: "walk conf base fs n (dest @ [p]) (rest @ ys) = Inr r"
          using 2(6) no_dot False x by (simp add: walk.simps(2))
        have "is_dir fs (base @ dest @ [p])" using x Dir by (simp add: is_dir_def)
        then obtain d k where "walk conf base fs n (dest @ [p]) rest = Inr (d, fs (base @ d))" "is_dir fs (base @ d)" "k \<le> n"
          "walk conf base fs k d ys = Inr r" using 2(3) [OF no_dot False x Dir step] 2(7-11) by auto
        then show ?thesis using no_dot False x Dir by (intro exI [of _ d] exI [of _ k]) (simp add: walk.simps(2))
      next
        case (Link t)
        define start where "start = (if is_abs t then [] else dest)"
        have step: "n \<noteq> 0" "is_abs t \<Longrightarrow> \<not> conf" "walk conf base fs (n - 1) start (split_char slash t @ rest @ ys) = Inr r"
          using 2(6) no_dot False x Link by (auto simp: walk.simps(2) start_def split: if_splits)
        have "is_dir fs (base @ start)" using 2(8,9) by (simp add: start_def)
        then have "\<exists>d k. walk conf base fs (n - 1) start (split_char slash t @ rest) = Inr (d, fs (base @ d)) \<and>
            is_dir fs (base @ d) \<and> k \<le> n - 1 \<and> walk conf base fs k d ys = Inr r"
          using 2(4) [OF no_dot False x Link step(1)] 2(5) [OF no_dot False x Link step(1)] step(2,3) 2(7-11)
          by (cases "is_abs t") (simp_all add: start_def)
        then obtain d k where "walk conf base fs (n - 1) start (split_char slash t @ rest) = Inr (d, fs (base @ d))"
          "is_dir fs (base @ d)" "k \<le> n - 1" "walk conf base fs k d ys = Inr r" by blast
        then show ?thesis
          using no_dot False x Link step(1,2)
          by (intro exI [of _ d] exI [of _ k]) (auto simp: walk.simps(2) start_def split: if_splits)
      qed
      then show ?thesis .
    qed
  qed
qed (auto simp: is_dir_def)

end
