(* ===== verification/Text.thy ===== *)
theory Text
  imports Paths
begin

text \<open>
  The search functions of \<open>strings\<close> that the sources use on file contents and names, and their relation to
  concatenation.
\<close>

section \<open>Searching\<close>

fun index_of :: "string \<Rightarrow> string \<Rightarrow> nat option" where
  "index_of [] sub = (if sub = [] then Some 0 else None)"
| "index_of (x # xs) sub =
     (if has_prefix (x # xs) sub then Some 0 else map_option Suc (index_of xs sub))"

definition contains_sub :: "string \<Rightarrow> string \<Rightarrow> bool" where
  "contains_sub s sub = (index_of s sub \<noteq> None)"

text \<open>\<open>strings.Count\<close> of a substring that is not empty.\<close>

lemma index_of_Some:
  "index_of s sub = Some i \<Longrightarrow> s = take i s @ sub @ drop (i + length sub) s \<and> i + length sub \<le> length s"
proof (induction s arbitrary: i)
  case Nil
  then show ?case by (auto split: if_splits)
next
  case (Cons x xs)
  show ?case
  proof (cases "has_prefix (x # xs) sub")
    case True
    then have "i = 0" using Cons.prems by simp
    moreover obtain t where "x # xs = sub @ t" using True by (auto simp: has_prefix_iff)
    ultimately show ?thesis by simp
  next
    case False
    then obtain j where "index_of xs sub = Some j" "i = Suc j" using Cons.prems by auto
    with Cons.IH show ?thesis by fastforce
  qed
qed

function count_sub :: "string \<Rightarrow> string \<Rightarrow> nat" where
  "count_sub s sub =
     (if sub = [] then 0
      else case index_of s sub of None \<Rightarrow> 0 | Some i \<Rightarrow> Suc (count_sub (drop (i + length sub) s) sub))"
  by pat_completeness auto
termination
proof (relation "measure (\<lambda>(s, sub). length s)")
  fix s sub :: string and i
  assume "sub \<noteq> []" "index_of s sub = Some i"
  then have "0 < length sub" "i + length sub \<le> length s" using index_of_Some by auto
  then have "length (drop (i + length sub) s) < length s" unfolding length_drop by linarith
  then show "((drop (i + length sub) s, sub), s, sub) \<in> measure (\<lambda>(s, sub). length s)" by simp
qed simp

declare count_sub.simps [simp del]

definition replace_first :: "string \<Rightarrow> string \<Rightarrow> string \<Rightarrow> string" where
  "replace_first s old new =
     (case index_of s old of None \<Rightarrow> s | Some i \<Rightarrow> take i s @ new @ drop (i + length old) s)"

lemma index_of_None: "index_of s sub = None \<longleftrightarrow> (\<forall>a b. s \<noteq> a @ sub @ b)"
proof (induction s)
  case (Cons x xs)
  have "(\<exists>a b. x # xs = a @ sub @ b) \<longleftrightarrow> has_prefix (x # xs) sub \<or> (\<exists>a b. xs = a @ sub @ b)"
    by (auto simp: has_prefix_iff Cons_eq_append_conv)
  then show ?case using Cons by auto
qed simp

lemma replace_first_at:
  assumes "index_of s old = Some i"
  shows "replace_first s old new = take i s @ new @ drop (i + length old) s"
    and "s = take i s @ old @ drop (i + length old) s"
  using index_of_Some [OF assms] assms by (simp_all add: replace_first_def)

text \<open>A count of one means that the text occurs at exactly one place, counting without overlap.\<close>

lemma count_sub_one:
  assumes "count_sub s sub = 1"
  obtains a b where "s = a @ sub @ b" and "index_of s sub = Some (length a)" and "\<forall>c d. b \<noteq> c @ sub @ d"
    and "replace_first s sub new = a @ new @ b"
proof -
  have ne: "sub \<noteq> []" using assms by (auto simp: count_sub.simps)
  then obtain i where i: "index_of s sub = Some i" "count_sub (drop (i + length sub) s) sub = 0"
    using assms by (auto simp: count_sub.simps [of s] split: option.splits)
  then have "index_of (drop (i + length sub) s) sub = None"
    using ne by (auto simp: count_sub.simps [of "drop (i + length sub) s"] split: option.splits)
  then have "\<forall>c d. drop (i + length sub) s \<noteq> c @ sub @ d" by (simp add: index_of_None)
  moreover note at = replace_first_at [OF i(1)] and len = index_of_Some [OF i(1)]
  moreover have "length (take i s) = i" using len by simp
  ultimately show thesis using that [of "take i s" "drop (i + length sub) s"] i(1) by simp
qed

section \<open>Lines\<close>

abbreviation newline :: char where "newline \<equiv> CHR 0x0A"

definition splitLines :: "string \<Rightarrow> string list" where
  "splitLines content = (if content = [] then [] else split_char newline (trim_suffix content [newline]))"

lemma splitLines_join:
  "content \<noteq> [] \<Longrightarrow> join_char newline (splitLines content) @ (if has_suffix content [newline] then [newline] else []) = content"
  by (auto simp: splitLines_def join_split trim_suffix_def has_suffix_def)
    (metis append_take_drop_id)

end
