(* ===== verification/Workspace.thy ===== *)
theory Workspace
  imports FileSystem Text
begin

text \<open>
  Access to a workspace: the resolution of workspace-relative paths (\<open>internal/agentops/security.go\<close>), the
  sensitive-file policy (\<open>internal/agentops/sensitive.go\<close>) and the tools that read below a workspace root
  (\<open>readFile\<close>, \<open>listDirectory\<close> and \<open>filterGitStatus\<close> of \<open>internal/agentops/ops.go\<close>).

  The working directory of the process is an argument (\<open>None\<close> when it cannot be determined).
\<close>

section \<open>Logical paths and errors\<close>

definition logicalPath :: "string \<Rightarrow> string" where
  "logicalPath rel =
     (let rel = trim_space rel
      in if rel = [] then ''.'' else Clean rel)"

definition logicalChildPath :: "string \<Rightarrow> string \<Rightarrow> string" where
  "logicalChildPath dir name =
     (let dir = logicalPath dir in if dir = ''.'' then name else Join2 dir name)"

datatype path_failure = NotFound | PermissionDenied | OtherFailure

datatype path_error =
    ErrResolveRoot
  | ErrRootUnavailable
  | ErrAbsolutePath
  | ErrEscapes
  | ErrResolvePath string
  | PathError string string path_failure
  | ErrSensitive string
  | ErrSensitiveRoot
  | ErrRelPath
  | ErrPathRequired
  | ErrReadFailed string
  | ErrTooManyEntries nat

definition safePathError :: "string \<Rightarrow> string \<Rightarrow> fs_error \<Rightarrow> path_error" where
  "safePathError action rel err =
     PathError action (logicalPath rel)
       (if err = ErrNotExist then NotFound else if err = ErrPermission then PermissionDenied else OtherFailure)"

section \<open>Resolution below a root\<close>

definition Abs_path :: "string option \<Rightarrow> string \<Rightarrow> string option" where
  "Abs_path cwd s = (if is_abs s then Some (Clean s) else map_option (\<lambda>w. Join2 w s) cwd)"

definition ResolveUnderRoot :: "fs \<Rightarrow> string option \<Rightarrow> string \<Rightarrow> string \<Rightarrow> path_error + string" where
  "ResolveUnderRoot fs cwd root rel =
     (case Abs_path cwd root of
        None \<Rightarrow> Inl ErrResolveRoot
      | Some rootAbs \<Rightarrow>
          (case EvalSymlinks fs rootAbs of
             Inl e \<Rightarrow> Inl ErrRootUnavailable
           | Inr rootReal \<Rightarrow>
               if rel = [] \<or> rel = ''.'' then Inr rootReal
               else if is_abs rel then Inl ErrAbsolutePath
               else
                 let clean = Clean rel
                 in if clean = ''..'' \<or> has_prefix clean ''../'' then Inl ErrEscapes
                    else
                      (case Abs_path cwd (Join2 rootReal clean) of
                         None \<Rightarrow> Inl (ErrResolvePath (logicalPath rel))
                       | Some joinedAbs \<Rightarrow>
                           (case (if isl (Lstat fs joinedAbs) then Inr joinedAbs else EvalSymlinks fs joinedAbs) of
                              Inl e \<Rightarrow> Inl (safePathError ''resolve path'' rel e)
                            | Inr candidate \<Rightarrow>
                                if contained rootReal candidate then Inr candidate
                                else
                                  (case EvalSymlinks fs rootAbs of
                                     Inr rootLink \<Rightarrow> if contained rootLink candidate then Inr candidate else Inl ErrEscapes
                                   | Inl e \<Rightarrow> Inl ErrEscapes)))))"

section \<open>The sensitive-file policy\<close>

definition sensitiveDirNames :: "string list" where
  "sensitiveDirNames =
     [''.git'', ''.ssh'', ''.gnupg'', ''.aws'', ''.azure'', ''.kube'', ''.docker'', ''.secrets'']"

definition sensitiveBaseNames :: "string list" where
  "sensitiveBaseNames =
     [''.envrc'', ''.npmrc'', ''.pypirc'', ''.netrc'', ''.git-credentials'', ''id_rsa'', ''id_dsa'', ''id_ecdsa'',
      ''id_ed25519'']"

definition isSafeEnvExample :: "string \<Rightarrow> bool" where
  "isSafeEnvExample base = (base \<in> set [''.env.example'', ''.env.sample'', ''.env.template'', ''.env.dist''])"

definition isSensitivePath :: "string \<Rightarrow> bool" where
  "isSensitivePath rel =
     (let clean = logicalPath rel
      in if clean = ''.'' then False
         else
           let parts = split_char slash (to_lower clean);
               base = last parts
           in (\<exists>part \<in> set parts. part \<in> set sensitiveDirNames) \<or>
              base \<in> set sensitiveBaseNames \<or>
              base = ''.env'' \<or>
              (has_prefix base ''.env.'' \<and> \<not> isSafeEnvExample base) \<or>
              (has_suffix base ''.tfstate'' \<or> contains_sub base ''.tfstate.'' \<or> has_suffix base ''.tfvars'' \<or>
               has_suffix base ''.tfvars.json'') \<or>
              to_lower (Ext base) \<in> set [''.pem'', ''.key'', ''.p12'', ''.pfx'', ''.jks'', ''.keystore''])"

definition resolveWorkspaceRoot :: "bool \<Rightarrow> fs \<Rightarrow> string option \<Rightarrow> string \<Rightarrow> path_error + string" where
  "resolveWorkspaceRoot allowSensitive fs cwd root =
     (case ResolveUnderRoot fs cwd root ''.'' of
        Inl e \<Rightarrow> Inl e
      | Inr rootReal \<Rightarrow>
          if \<not> allowSensitive \<and> isSensitivePath (Base rootReal) then Inl ErrSensitiveRoot else Inr rootReal)"

definition resolveAllowedPath :: "bool \<Rightarrow> fs \<Rightarrow> string option \<Rightarrow> string \<Rightarrow> string \<Rightarrow> path_error + string" where
  "resolveAllowedPath allowSensitive fs cwd root rel =
     (if \<not> allowSensitive \<and> isSensitivePath rel then Inl (ErrSensitive (logicalPath rel))
      else
        case resolveWorkspaceRoot allowSensitive fs cwd root of
          Inl e \<Rightarrow> Inl e
        | Inr rootReal \<Rightarrow>
            (case ResolveUnderRoot fs cwd root rel of
               Inl e \<Rightarrow> Inl e
             | Inr target \<Rightarrow>
                 if allowSensitive then Inr target
                 else
                   (case Rel rootReal target of
                      None \<Rightarrow> Inl ErrRelPath
                    | Some resolvedRel \<Rightarrow>
                        if isSensitivePath resolvedRel then Inl (ErrSensitive (logicalPath rel)) else Inr target)))"

section \<open>Reading below a root\<close>

text \<open>
  \<open>openWorkspaceRoot\<close> gives the directory that a root handle stands for; the kernel follows the path as it
  is written. The methods of the handle follow a path below it.
\<close>

definition openWorkspaceRoot :: "fs \<Rightarrow> string option \<Rightarrow> string \<Rightarrow> path_error + string list" where
  "openWorkspaceRoot fs cwd root =
     (case walk False [] fs maxKernelLinks
             (if is_abs root then [] else (case cwd of None \<Rightarrow> [] | Some w \<Rightarrow> path_parts w)) (split_char slash root) of
        Inr (d, Some (Dir m)) \<Rightarrow> Inr d
      | _ \<Rightarrow> Inl ErrRootUnavailable)"

definition root_walk :: "fs \<Rightarrow> string list \<Rightarrow> string \<Rightarrow> fs_error + string list \<times> node option" where
  "root_walk fs handle name =
     (if is_abs name then Inl ErrPathEscapes
      else walk True handle fs rootMaxSymlinks [] (split_char slash name))"

definition Root_Open :: "fs \<Rightarrow> string list \<Rightarrow> string \<Rightarrow> fs_error + string list \<times> node" where
  "Root_Open fs handle name =
     (case root_walk fs handle name of
        Inl e \<Rightarrow> Inl e
      | Inr (d, None) \<Rightarrow> Inl ErrNotExist
      | Inr (d, Some nd) \<Rightarrow> Inr (d, nd))"

record ReadFileResult =
  Read_Path :: string
  Read_Content :: string
  Read_Truncated :: bool
  Read_BytesRead :: nat

abbreviation maxReadBytes :: int where "maxReadBytes \<equiv> 256 * 1024"

definition read_limit :: "int \<Rightarrow> nat" where
  "read_limit limit = nat (if limit \<le> 0 \<or> limit > maxReadBytes then maxReadBytes else limit)"

definition readFile :: "bool \<Rightarrow> fs \<Rightarrow> string option \<Rightarrow> string \<Rightarrow> string \<Rightarrow> int \<Rightarrow> path_error + ReadFileResult" where
  "readFile allowSensitive fs cwd root rel limit =
     (if rel = [] then Inl ErrPathRequired
      else
        case resolveAllowedPath allowSensitive fs cwd root rel of
          Inl e \<Rightarrow> Inl e
        | Inr _ \<Rightarrow>
            (case openWorkspaceRoot fs cwd root of
               Inl e \<Rightarrow> Inl e
             | Inr handle \<Rightarrow>
                 (case Root_Open fs handle (logicalPath rel) of
                    Inl e \<Rightarrow> Inl (safePathError ''read file'' rel e)
                  | Inr (d, File c m) \<Rightarrow>
                      let n = read_limit limit;
                          buf = take (n + 1) c;
                          truncated = length buf > n;
                          buf = (if truncated then take n buf else buf)
                      in Inr \<lparr>Read_Path = logicalPath rel, Read_Content = buf, Read_Truncated = truncated,
                              Read_BytesRead = length buf\<rparr>
                  | Inr (d, _) \<Rightarrow> Inl (ErrReadFailed (logicalPath rel)))))"

text \<open>
  \<open>listDirectory\<close>. \<open>readdir\<close> lists the names in a directory, \<open>dirSize\<close> is what the system reports as the
  size of a directory, \<open>order\<close> is the rearrangement that \<open>sort.Slice\<close> makes.
\<close>

record DirEntry =
  Entry_Name :: string
  Entry_Path :: string
  Entry_Type :: string
  Entry_Size :: nat

abbreviation maxDirectoryEntries :: nat where "maxDirectoryEntries \<equiv> 1000"

definition entry_of :: "nat \<Rightarrow> string \<Rightarrow> string \<Rightarrow> node \<Rightarrow> DirEntry" where
  "entry_of dirSize childPath name nd =
     \<lparr>Entry_Name = name, Entry_Path = childPath,
      Entry_Type = (case nd of Dir m \<Rightarrow> ''dir'' | Link t \<Rightarrow> ''symlink'' | File c m \<Rightarrow> ''file''),
      Entry_Size = (case nd of Dir m \<Rightarrow> dirSize | Link t \<Rightarrow> length t | File c m \<Rightarrow> length c)\<rparr>"

fun list_entries :: "bool \<Rightarrow> fs \<Rightarrow> nat \<Rightarrow> string list \<Rightarrow> string \<Rightarrow> string list \<Rightarrow> DirEntry list" where
  "list_entries allowSensitive fs dirSize place rel [] = []"
| "list_entries allowSensitive fs dirSize place rel (name # names) =
     (case fs (place @ [name]) of
        None \<Rightarrow> list_entries allowSensitive fs dirSize place rel names
      | Some nd \<Rightarrow>
          let childPath = logicalChildPath rel name
          in if \<not> allowSensitive \<and> isSensitivePath childPath
             then list_entries allowSensitive fs dirSize place rel names
             else entry_of dirSize childPath name nd # list_entries allowSensitive fs dirSize place rel names)"

definition listDirectory ::
  "bool \<Rightarrow> fs \<Rightarrow> string option \<Rightarrow> (string list \<Rightarrow> string list) \<Rightarrow> nat \<Rightarrow> (DirEntry list \<Rightarrow> DirEntry list) \<Rightarrow>
   string \<Rightarrow> string \<Rightarrow> path_error + DirEntry list"
where
  "listDirectory allowSensitive fs cwd readdir dirSize order root rel =
     (case resolveAllowedPath allowSensitive fs cwd root rel of
        Inl e \<Rightarrow> Inl e
      | Inr _ \<Rightarrow>
          (case openWorkspaceRoot fs cwd root of
             Inl e \<Rightarrow> Inl e
           | Inr handle \<Rightarrow>
               (case Root_Open fs handle (logicalPath rel) of
                  Inl e \<Rightarrow> Inl (safePathError ''list directory'' rel e)
                | Inr (d, Dir m) \<Rightarrow>
                    let names = readdir (handle @ d)
                    in if length names > maxDirectoryEntries then Inl (ErrTooManyEntries (length names))
                       else Inr (order (list_entries allowSensitive fs dirSize (handle @ d) rel names))
                | Inr (d, _) \<Rightarrow> Inl (safePathError ''list directory'' rel ErrNotDir))))"

text \<open>The order of the entries.\<close>

definition entry_before :: "DirEntry \<Rightarrow> DirEntry \<Rightarrow> bool" where
  "entry_before a b =
     (if Entry_Type a \<noteq> Entry_Type b then Entry_Type a = ''dir''
      else string_less (to_lower (Entry_Name a)) (to_lower (Entry_Name b)))"

text \<open>The filter on the output of \<open>git status --short --branch\<close>.\<close>

function split_arrow :: "string \<Rightarrow> string list" where
  "split_arrow s =
     (case index_of s '' -> '' of None \<Rightarrow> [s] | Some i \<Rightarrow> take i s # split_arrow (drop (i + 4) s))"
  by pat_completeness auto
termination
proof (relation "measure length")
  fix s :: string and i
  assume "index_of s '' -> '' = Some i"
  then have "i + 4 \<le> length s" using index_of_Some [of s "'' -> ''" i] by simp
  then show "(drop (i + 4) s, s) \<in> measure length" by simp
qed simp

declare split_arrow.simps [simp del]

definition trim_quotes :: "string \<Rightarrow> string" where
  "trim_quotes s = rev (dropWhile (\<lambda>c. c = CHR 0x22) (rev (dropWhile (\<lambda>c. c = CHR 0x22) s)))"

definition status_line_kept :: "string \<Rightarrow> bool" where
  "status_line_kept line =
     (if line = [] then False
      else if has_prefix line ''## '' then True
      else if length line < 3 then True
      else \<not> (\<exists>path \<in> set (split_arrow (trim_space (drop 3 line))). isSensitivePath (trim_quotes path)))"

definition filterGitStatus :: "string \<Rightarrow> string" where
  "filterGitStatus output =
     (let filtered = filter status_line_kept (split_char newline output)
      in if filtered = [] then [] else join_char newline filtered @ [newline])"

end
