(* ===== verification/WorkspacePolicy.thy ===== *)
theory WorkspacePolicy
  imports Workspace
begin

text \<open>
  What the resolution of paths and the sensitive-file policy promise: a resolved path stays below the
  workspace root, whatever links the workspace contains, and a file that is read is not a sensitive one.
\<close>

section \<open>Containment\<close>

lemma resolve_cases:
  assumes wf: "fs_wf fs" and ok: "ResolveUnderRoot fs cwd root rel = Inr p"
  obtains rootAbs rp cp where "Abs_path cwd root = Some rootAbs" and "EvalSymlinks fs rootAbs = Inr (abs_path rp)"
    and "p = abs_path (rp @ cp)" and "\<forall>q \<in> set (rp @ cp). good_part q" and "fs rp \<noteq> None"
    and "if rel = [] \<or> rel = ''.'' then cp = []
      else \<not> is_abs rel \<and> (\<forall>q \<in> set (path_parts rel). good_part q) \<and>
        (if isl (Lstat fs (abs_path (rp @ path_parts rel))) then cp = path_parts rel
         else EvalSymlinks fs (abs_path (rp @ path_parts rel)) = Inr p)"
proof -
  obtain rootAbs where ra: "Abs_path cwd root = Some rootAbs"
    using ok by (auto simp: ResolveUnderRoot_def split: option.splits)
  obtain rootReal where rr: "EvalSymlinks fs rootAbs = Inr rootReal"
    using ok ra by (auto simp: ResolveUnderRoot_def split: sum.splits)
  obtain rp nd where rp: "rootReal = abs_path rp" "fs rp = Some nd" "\<forall>q \<in> set rp. good_part q"
    by (rule EvalSymlinks_end [OF rr wf])
  note ok' = ok [unfolded ResolveUnderRoot_def ra option.case rr sum.case]
  show thesis
  proof (cases "rel = [] \<or> rel = ''.''")
    case True
    then have "p = abs_path (rp @ [])" using ok' rp(1) by simp
    then show thesis using that [of rootAbs rp "[]"] ra rr rp True by simp
  next
    case False
    then have abs: "\<not> is_abs rel" and nup: "Clean rel \<noteq> ''..''" "\<not> has_prefix (Clean rel) ''../''"
      using ok' by (auto simp: Let_def split: if_splits)
    have parts: "\<forall>q \<in> set (path_parts rel). good_part q" by (rule Clean_rel_parts [OF abs nup])
    let ?joined = "abs_path (rp @ path_parts rel)"
    have gj: "\<forall>q \<in> set (rp @ path_parts rel). good_part q" using rp(3) parts by auto
    have join: "Abs_path cwd (Join2 rootReal (Clean rel)) = Some ?joined"
      using Join2_Clean_rel [OF rp(3) abs parts] Clean_abs_path [OF gj] by (simp add: Abs_path_def rp(1))
    obtain candidate where cand: "(if isl (Lstat fs ?joined) then Inr ?joined else EvalSymlinks fs ?joined) = Inr candidate"
      "p = candidate" "contained rootReal candidate"
      using ok' False abs nup
      by (auto simp: join Let_def rr split: sum.splits if_splits)
    obtain tp where tp: "candidate = abs_path tp" "\<forall>q \<in> set tp. good_part q"
    proof (cases "isl (Lstat fs ?joined)")
      case True
      then show thesis using that [of "rp @ path_parts rel"] cand(1) gj by simp
    next
      case f: False
      then have "EvalSymlinks fs ?joined = Inr candidate" using cand(1) by simp
      then show thesis by (rule EvalSymlinks_end [OF _ wf]) (rule that)
    qed
    obtain cp where cp: "tp = rp @ cp"
      using cand(3) contained_iff [OF rp(3) tp(2)] rp(1) tp(1) by auto
    show thesis
    proof (rule that [of rootAbs rp cp])
      show "p = abs_path (rp @ cp)" "\<forall>q \<in> set (rp @ cp). good_part q" using cand(2) tp cp by simp_all
      have "rp @ path_parts rel = rp @ cp" if "isl (Lstat fs ?joined)"
        using that cand(1) tp cp by (intro abs_path_inject [OF _ gj]) simp_all
      then show "if rel = [] \<or> rel = ''.'' then cp = []
        else \<not> is_abs rel \<and> (\<forall>q \<in> set (path_parts rel). good_part q) \<and>
          (if isl (Lstat fs ?joined) then cp = path_parts rel else EvalSymlinks fs ?joined = Inr p)"
        using cand(1,2) abs parts False by (simp split: if_splits)
    qed (use ra rr rp in auto)
  qed
qed

text \<open>
  A path that resolves stays below the workspace root, whatever symbolic links there are: its
  elements extend those of the real root, and it is either the real place of what is there, without links,
  or nothing is there and it is the path as written.
\<close>

theorem resolve_contained:
  assumes "fs_wf fs" and "ResolveUnderRoot fs cwd root rel = Inr p"
  shows "\<exists>rootAbs rp cp. Abs_path cwd root = Some rootAbs \<and> EvalSymlinks fs rootAbs = Inr (abs_path rp) \<and>
    p = abs_path (rp @ cp) \<and> (\<forall>q \<in> set (rp @ cp). good_part q) \<and>
    (EvalSymlinks fs p = Inr p \<or> isl (Lstat fs p) \<and> cp = path_parts rel)"
proof -
  obtain rootAbs rp cp where f: "Abs_path cwd root = Some rootAbs" "EvalSymlinks fs rootAbs = Inr (abs_path rp)"
    "p = abs_path (rp @ cp)" "\<forall>q \<in> set (rp @ cp). good_part q"
    and g: "if rel = [] \<or> rel = ''.'' then cp = []
      else \<not> is_abs rel \<and> (\<forall>q \<in> set (path_parts rel). good_part q) \<and>
        (if isl (Lstat fs (abs_path (rp @ path_parts rel))) then cp = path_parts rel
         else EvalSymlinks fs (abs_path (rp @ path_parts rel)) = Inr p)"
    by (rule resolve_cases [OF assms])
  have real: "EvalSymlinks fs t = Inr t" if "EvalSymlinks fs x = Inr t" for x t
    by (rule EvalSymlinks_end [OF that assms(1)]) (auto intro: EvalSymlinks_real [OF assms(1)])
  have "EvalSymlinks fs p = Inr p \<or> isl (Lstat fs p) \<and> cp = path_parts rel"
  proof (cases "rel = [] \<or> rel = ''.''")
    case True
    then show ?thesis using f g real by simp
  next
    case False
    then show ?thesis using f g real by (auto split: if_splits)
  qed
  with f show ?thesis by blast
qed

section \<open>Opening below the root\<close>

lemma walk_dirs:
  assumes "is_dir fs (base @ dest @ qs)" and "fs_wf fs" and "\<forall>q \<in> set qs. good_part q"
  shows "walk conf base fs n dest (qs @ ps) = walk conf base fs n (dest @ qs) ps"
  using assms
proof (induction qs arbitrary: dest)
  case (Cons q qs)
  have q: "q \<noteq> []" "q \<noteq> ''.''" "q \<noteq> ''..''" using Cons.prems(3) by (auto simp: good_part_def)
  have "is_dir fs (base @ dest @ [q])"
  proof (cases "qs = []")
    case False
    then show ?thesis
      using fs_wf_prefix [OF assms(2), of "base @ dest @ [q]" qs] Cons.prems(1) by (auto simp: is_dir_def)
  qed (use Cons.prems(1) in simp)
  then obtain m where "fs (base @ dest @ [q]) = Some (Dir m)" by (auto simp: is_dir_def)
  then show ?case using Cons.IH [of "dest @ [q]"] Cons.prems q by (simp add: walk.simps(2))
qed simp

lemma open_root:
  assumes wf: "fs_wf fs" and root: "is_abs root" "Clean root = root"
    and op: "openWorkspaceRoot fs cwd root = Inr h" and ev: "EvalSymlinks fs root = Inr (abs_path rp)"
    and good: "\<forall>q \<in> set rp. good_part q"
  shows "h = rp" and "is_dir fs rp"
proof -
  obtain m where w: "walk False [] fs maxKernelLinks [] (split_char slash root) = Inr (h, Some (Dir m))"
    using op root(1) by (auto simp: openWorkspaceRoot_def split: sum.splits option.splits node.splits prod.splits)
  then have "walk False [] fs maxEvalLinks [] (split_char slash root) = Inr (h, Some (Dir m))"
    by (rule walk_more_links) simp
  then have "abs_path h = abs_path rp" using ev by (simp add: EvalSymlinks_def)
  moreover have h: "Some (Dir m) = fs ([] @ h) \<and> (\<forall>t. Some (Dir m) \<noteq> Some (Link t)) \<and> (\<forall>q \<in> set h. good_part q) \<and>
      (h \<noteq> [] \<longrightarrow> is_dir fs ([] @ butlast h))"
    by (rule walk_end [OF w wf]) (use wf in \<open>auto simp: fs_wf_def is_dir_def dest: split_char_free\<close>)
  ultimately show "h = rp" using abs_path_inject good by blast
  then show "is_dir fs rp" using h by (metis append_Nil is_dir_def)
qed

text \<open>What a root handle finds at a path, \<open>EvalSymlinks\<close> finds too.\<close>

lemma confined_real:
  assumes wf: "fs_wf fs" and dir: "is_dir fs rp" and good: "\<forall>q \<in> set rp. good_part q"
    and ps: "ps \<noteq> []" "\<forall>q \<in> set ps. good_part q"
    and w: "walk True rp fs rootMaxSymlinks [] ps = Inr (d, Some nd)"
  shows "EvalSymlinks fs (abs_path (rp @ ps)) = Inr (abs_path (rp @ d))" and "\<not> isl (Lstat fs (abs_path (rp @ ps)))"
    and "fs (rp @ d) = Some nd" and "\<forall>q \<in> set d. good_part q"
proof -
  have gps: "\<forall>q \<in> set (rp @ ps). good_part q" using good ps(2) by auto
  have "walk False [] fs rootMaxSymlinks (rp @ []) ps = Inr (rp @ d, Some nd)" by (rule walk_confined [OF w])
  then have w8: "walk False [] fs rootMaxSymlinks [] (rp @ ps) = Inr (rp @ d, Some nd)"
    using walk_dirs [of fs "[]" "[]" rp False rootMaxSymlinks ps] dir wf good by simp
  have split: "split_char slash (abs_path (rp @ ps)) = [] # (rp @ ps)"
    using gps ps(1) by (intro split_abs_path) (auto simp: good_part_def)
  have "walk False [] fs maxEvalLinks [] (rp @ ps) = Inr (rp @ d, Some nd)"
    by (rule walk_more_links [OF w8]) simp
  then show "EvalSymlinks fs (abs_path (rp @ ps)) = Inr (abs_path (rp @ d))"
    unfolding EvalSymlinks_def split by (simp add: walk.simps(2))
  have "walk False [] fs maxKernelLinks [] ((rp @ butlast ps) @ [last ps]) = Inr (rp @ d, Some nd)"
    using walk_more_links [OF w8, of maxKernelLinks] ps(1) by simp
  then obtain d' k where d': "walk False [] fs maxKernelLinks [] (rp @ butlast ps) = Inr (d', fs ([] @ d'))"
    "is_dir fs ([] @ d')" "walk False [] fs k d' [last ps] = Inr (rp @ d, Some nd)"
    using walk_split [of False "[]" fs maxKernelLinks "[]" "rp @ butlast ps" "[last ps]"] wf
    by (force simp: fs_wf_def is_dir_def)
  have "good_part (last ps)" using ps by simp
  then have "fs (d' @ [last ps]) \<noteq> None"
    using d'(3) by (cases "fs (d' @ [last ps])") (simp_all add: walk.simps(2) good_part_def)
  moreover have "in_dir False [] fs maxKernelLinks (rp @ ps) = Inr (d' @ [last ps])"
    using d'(1,2) ps(1) by (auto simp: in_dir_def butlast_append is_dir_def)
  ultimately show "\<not> isl (Lstat fs (abs_path (rp @ ps)))"
    by (auto simp: Lstat_def path_parts_abs_path [OF gps])
  have "Some nd = fs (rp @ d) \<and> (\<forall>t. Some nd \<noteq> Some (Link t)) \<and> (\<forall>q \<in> set d. good_part q) \<and>
      (d \<noteq> [] \<longrightarrow> is_dir fs (rp @ butlast d))"
    by (rule walk_end [OF w wf dir]) (use dir ps(2) in \<open>auto simp: good_part_def\<close>)
  then show "fs (rp @ d) = Some nd" "\<forall>q \<in> set d. good_part q" by auto
qed

text \<open>
  (C14) Reading respects the policy. For a root given as a cleaned absolute path and a path that is not
  surrounded by white space, what \<open>readFile\<close> returns is the beginning of a regular file at a real place
  below the real root, at most the limit, marked as truncated exactly when it is cut; and unless sensitive
  files are allowed, neither the place of the file nor the root is sensitive, whatever links lead there.
\<close>

theorem readFile_policy:
  assumes wf: "fs_wf fs" and root: "is_abs root" "Clean root = root" and rel: "trim_space rel = rel"
    and ok: "readFile allow fs cwd root rel limit = Inr res"
  shows "\<exists>rp d c m. EvalSymlinks fs root = Inr (abs_path rp) \<and> fs (rp @ d) = Some (File c m) \<and>
    EvalSymlinks fs (abs_path (rp @ d)) = Inr (abs_path (rp @ d)) \<and>
    Read_Content res = take (read_limit limit) c \<and> (Read_Truncated res \<longleftrightarrow> read_limit limit < length c) \<and>
    Read_BytesRead res = length (Read_Content res) \<and> int (Read_BytesRead res) \<le> maxReadBytes \<and>
    (\<not> allow \<longrightarrow> \<not> isSensitivePath (join_char slash d) \<and> \<not> isSensitivePath (Base (abs_path rp)))"
proof -
  have ne: "rel \<noteq> []" using ok by (auto simp: readFile_def)
  obtain target where target: "resolveAllowedPath allow fs cwd root rel = Inr target"
    using ok ne by (auto simp: readFile_def split: sum.splits)
  obtain h where h: "openWorkspaceRoot fs cwd root = Inr h"
    using ok ne target by (auto simp: readFile_def split: sum.splits)
  obtain d c m where op: "Root_Open fs h (logicalPath rel) = Inr (d, File c m)"
    and res: "res = \<lparr>Read_Path = logicalPath rel, Read_Content = take (read_limit limit) c,
      Read_Truncated = read_limit limit < length c, Read_BytesRead = length (take (read_limit limit) c)\<rparr>"
    using ok ne target h
    by (auto simp: readFile_def Let_def min_def split: sum.splits prod.splits node.splits if_splits)
  have ra: "Abs_path cwd root = Some root" using root by (simp add: Abs_path_def)
  obtain rootReal where wr: "resolveWorkspaceRoot allow fs cwd root = Inr rootReal"
    and under: "ResolveUnderRoot fs cwd root rel = Inr target"
    using target by (auto simp: resolveAllowedPath_def split: sum.splits if_splits option.splits)
  obtain rp cp where rp: "EvalSymlinks fs root = Inr (abs_path rp)" "target = abs_path (rp @ cp)"
    "\<forall>q \<in> set (rp @ cp). good_part q"
    and g: "if rel = [] \<or> rel = ''.'' then cp = []
      else \<not> is_abs rel \<and> (\<forall>q \<in> set (path_parts rel). good_part q) \<and>
        (if isl (Lstat fs (abs_path (rp @ path_parts rel))) then cp = path_parts rel
         else EvalSymlinks fs (abs_path (rp @ path_parts rel)) = Inr target)"
    by (rule resolve_cases [OF wf under]) (use ra in auto)
  have rr: "rootReal = abs_path rp" and root_ok: "\<not> allow \<Longrightarrow> \<not> isSensitivePath (Base (abs_path rp))"
    using wr rp(1) ra by (auto simp: resolveWorkspaceRoot_def ResolveUnderRoot_def split: if_splits)
  have hr: "h = rp" and dir: "is_dir fs rp" using open_root [OF wf root h rp(1)] rp(3) by auto
  have logical: "logicalPath rel = Clean rel" using ne rel by (simp add: logicalPath_def)
  have w: "walk True rp fs rootMaxSymlinks [] (split_char slash (Clean rel)) = Inr (d, Some (File c m))"
    using op hr by (auto simp: Root_Open_def root_walk_def logical split: sum.splits option.splits if_splits)
  have no_dot: "Clean rel \<noteq> ''.''"
  proof
    assume "Clean rel = ''.''"
    then have "fs rp = Some (File c m)" using w by (simp add: walk.simps)
    then show False using dir by (simp add: is_dir_def)
  qed
  then have "rel \<noteq> ''.''" by (auto simp: Clean_def path_parts_def clean_parts_def clean_step_def is_abs_def has_prefix_def)
  then have nabs: "\<not> is_abs rel" and parts: "\<forall>q \<in> set (path_parts rel). good_part q" using g ne by auto
  have pne: "path_parts rel \<noteq> []" and cl: "Clean rel = join_char slash (path_parts rel)"
    using no_dot nabs ne by (auto simp: Clean_def split: if_splits)
  have "split_char slash (Clean rel) = path_parts rel"
    using parts unfolding cl by (intro split_join [OF pne]) (auto simp: good_part_def)
  then have w': "walk True rp fs rootMaxSymlinks [] (path_parts rel) = Inr (d, Some (File c m))" using w by simp
  have grp: "\<forall>q \<in> set rp. good_part q" using rp(3) by simp
  note real = confined_real [OF wf dir grp pne parts w']
  have "target = abs_path (rp @ d)" using g real(1,2) ne \<open>rel \<noteq> ''.''\<close> by simp
  moreover have "d \<noteq> []" using real(3) dir by (auto simp: is_dir_def)
  moreover have gd: "\<forall>q \<in> set (rp @ d). good_part q" using grp real(4) by auto
  ultimately have "Rel rootReal target = Some (join_char slash d)"
    using Rel_abs [OF grp gd] by (simp add: rr strip_common_prefix)
  then have "\<not> allow \<Longrightarrow> \<not> isSensitivePath (join_char slash d)"
    using target wr under by (auto simp: resolveAllowedPath_def split: if_splits)
  moreover have "EvalSymlinks fs (abs_path (rp @ d)) = Inr (abs_path (rp @ d))"
    by (rule EvalSymlinks_real [OF wf real(3) _ gd]) simp
  ultimately show ?thesis
    using rp(1) real(3) res root_ok
    by (intro exI [of _ rp] exI [of _ d] exI [of _ c] exI [of _ m]) (auto simp: read_limit_def)
qed

section \<open>A sample workspace\<close>

definition sample_fs :: fs where
  "sample_fs q =
     (if q = [] \<or> q = [''w''] then Some (Dir 493)
      else if q = [''w'', ''a.txt''] then Some (File ''hello'' 420)
      else if q = [''w'', ''.env''] then Some (File ''SECRET'' 384)
      else if q = [''w'', ''creds''] then Some (Link ''.env'')
      else if q = [''w'', ''out''] then Some (Link ''/'')
      else None)"

lemma sample_fs_wf: "fs_wf sample_fs"
  unfolding fs_wf_def sample_fs_def
  by (auto split: if_splits simp: append_eq_Cons_conv)

theorem resolve_contained_witness:
  "\<exists>rootAbs rp cp. Abs_path None ''/w'' = Some rootAbs \<and> EvalSymlinks sample_fs rootAbs = Inr (abs_path rp) \<and>
     ''/w/.env'' = abs_path (rp @ cp)"
proof -
  have "ResolveUnderRoot sample_fs None ''/w'' ''creds'' = Inr ''/w/.env''" by code_simp
  from resolve_contained [OF sample_fs_wf this] show ?thesis by blast
qed

theorem readFile_policy_witness:
  "\<exists>rp d c m. EvalSymlinks sample_fs ''/w'' = Inr (abs_path rp) \<and> sample_fs (rp @ d) = Some (File c m) \<and>
     ''hel'' = take 3 c \<and> \<not> isSensitivePath (join_char slash d)"
proof -
  let ?res = "\<lparr>Read_Path = ''a.txt'', Read_Content = ''hel'', Read_Truncated = True, Read_BytesRead = 3\<rparr>"
  have "is_abs ''/w''" by code_simp
  moreover have "Clean ''/w'' = ''/w''" by code_simp
  moreover have "trim_space ''a.txt'' = ''a.txt''" by code_simp
  moreover have "readFile False sample_fs None ''/w'' ''a.txt'' 3 = Inr ?res" by code_simp
  ultimately have "\<exists>rp d c m. EvalSymlinks sample_fs ''/w'' = Inr (abs_path rp) \<and> sample_fs (rp @ d) = Some (File c m) \<and>
      EvalSymlinks sample_fs (abs_path (rp @ d)) = Inr (abs_path (rp @ d)) \<and>
      Read_Content ?res = take (read_limit 3) c \<and> (Read_Truncated ?res \<longleftrightarrow> read_limit 3 < length c) \<and>
      Read_BytesRead ?res = length (Read_Content ?res) \<and> int (Read_BytesRead ?res) \<le> maxReadBytes \<and>
      (\<not> False \<longrightarrow> \<not> isSensitivePath (join_char slash d) \<and> \<not> isSensitivePath (Base (abs_path rp)))"
    by (rule readFile_policy [OF sample_fs_wf])
  moreover have "read_limit 3 = 3" by code_simp
  ultimately show ?thesis by (simp only: ReadFileResult.simps simp_thms) blast
qed

section \<open>Paths surrounded by white space\<close>

lemma good_name:
  assumes "good_part n"
  shows "path_parts n = [n]" and "Clean n = n" and "\<not> is_abs n" and "split_char slash n = [n]"
proof -
  have n: "n \<noteq> []" "n \<noteq> ''.''" "n \<noteq> ''..''" "slash \<notin> set n" using assms by (simp_all add: good_part_def)
  show abs: "\<not> is_abs n" using n(1,4) by (cases n) (auto simp: is_abs_def has_prefix_def)
  show sp: "split_char slash n = [n]" using split_join [of "[n]" slash] n(4) by simp
  show pp: "path_parts n = [n]" using n by (simp add: path_parts_def clean_parts_def sp clean_step_def)
  show "Clean n = n" using n(1) abs by (simp add: Clean_def pp)
qed

lemma resolve_name:
  assumes root: "is_abs root" "Clean root = root" "EvalSymlinks fs root = Inr (abs_path rp)"
    and good: "\<forall>q \<in> set rp. good_part q" "good_part n" "\<forall>q \<in> set cp. good_part q"
    and cand: "(if isl (Lstat fs (abs_path (rp @ [n]))) then Inr (abs_path (rp @ [n]))
      else EvalSymlinks fs (abs_path (rp @ [n]))) = Inr (abs_path (rp @ cp))"
  shows "ResolveUnderRoot fs cwd root n = Inr (abs_path (rp @ cp))"
proof -
  note n = good_name [OF good(2)]
  have ra: "Abs_path cwd root = Some root" using root(1,2) by (simp add: Abs_path_def)
  have g: "\<forall>q \<in> set (rp @ [n]). good_part q" "\<forall>q \<in> set (rp @ cp). good_part q" using good by auto
  have join: "Abs_path cwd (Join2 (abs_path rp) n) = Some (abs_path (rp @ [n]))"
    using Join2_Clean_rel [OF good(1) n(3)] n good(2) Clean_abs_path [OF g(1)] by (simp add: Abs_path_def)
  have "contained (abs_path rp) (abs_path (rp @ cp))" using contained_iff [OF good(1) g(2)] by simp
  moreover have "slash \<in> set n" if "has_prefix n ''../''"
  proof -
    have "slash \<in> set (take 3 n)" using that by (simp add: has_prefix_def numeral_3_eq_3)
    then show ?thesis by (rule in_set_takeD)
  qed
  then have "n \<noteq> []" "n \<noteq> ''.''" "n \<noteq> ''..''" "\<not> has_prefix n ''../''"
    using good(2) by (auto simp: good_part_def)
  ultimately show ?thesis
    using cand n by (simp add: ResolveUnderRoot_def ra root(3) join Let_def)
qed

lemma root_allowed:
  assumes "is_abs root" "Clean root = root" "EvalSymlinks fs root = Inr (abs_path rp)"
    and "\<not> isSensitivePath (Base (abs_path rp))"
  shows "resolveWorkspaceRoot allow fs cwd root = Inr (abs_path rp)"
  using assms by (simp add: resolveWorkspaceRoot_def ResolveUnderRoot_def Abs_path_def)

lemma Rel_below:
  assumes "\<forall>q \<in> set (rp @ cp). good_part q" and "cp \<noteq> []"
  shows "Rel (abs_path rp) (abs_path (rp @ cp)) = Some (join_char slash cp)"
  using Rel_abs [of rp "rp @ cp"] assms by (simp add: strip_common_prefix)

lemma missing_name:
  assumes "fs_wf fs" and "is_dir fs rp" and "\<forall>q \<in> set rp. good_part q" and "good_part n" and "fs (rp @ [n]) = None"
  shows "isl (Lstat fs (abs_path (rp @ [n])))"
proof -
  have "walk False [] fs maxKernelLinks [] (rp @ []) = walk False [] fs maxKernelLinks ([] @ rp) []"
    using assms(1-3) by (intro walk_dirs) simp_all
  then have "in_dir False [] fs maxKernelLinks (rp @ [n]) = Inr (rp @ [n])"
    using assms(2) by (auto simp: in_dir_def is_dir_def)
  moreover have "path_parts (abs_path (rp @ [n])) = rp @ [n]" using assms(3,4) by (intro path_parts_abs_path) auto
  ultimately show ?thesis using assms(5) by (simp add: Lstat_def)
qed

text \<open>
  (C15) White space around a name defeats the policy, because the check resolves the path as given while the file is
  opened by the trimmed path. Let a name of the workspace lead to a sensitive file that it does not name itself, by
  whatever links: reading the name is refused. But reading it with white space around it, where nothing has that
  longer name and the longer name is not itself sensitive, returns the content of the sensitive file.
\<close>

theorem whitespace_bypass:
  assumes wf: "fs_wf fs" and root: "is_abs root" "Clean root = root" "EvalSymlinks fs root = Inr (abs_path rp)"
      "\<forall>q \<in> set rp. good_part q" "\<not> isSensitivePath (Base (abs_path rp))"
    and handle: "openWorkspaceRoot fs cwd root = Inr h"
    and name: "good_part n" "trim_space n = n"
    and link: "Root_Open fs h n = Inr (d, File c m)" "isSensitivePath (join_char slash d)"
    and padded: "good_part rel" "trim_space rel = n" "fs (rp @ [rel]) = None" "\<not> isSensitivePath rel"
  shows "readFile False fs cwd root n limit = Inl (ErrSensitive n) \<and>
    readFile False fs cwd root rel limit = Inr \<lparr>Read_Path = n, Read_Content = take (read_limit limit) c,
      Read_Truncated = read_limit limit < length c, Read_BytesRead = length (take (read_limit limit) c)\<rparr>"
proof
  note hr = open_root [OF wf root(1,2) handle root(3,4)]
  note n = good_name [OF name(1)] and rel = good_name [OF padded(1)]
  have ne: "n \<noteq> []" "rel \<noteq> []" using name(1) padded(1) by (auto simp: good_part_def)
  have logical: "logicalPath n = n" "logicalPath rel = n"
    using name(2) padded(2) ne n by (simp_all add: logicalPath_def)
  have walk: "walk True rp fs rootMaxSymlinks [] [n] = Inr (d, Some (File c m))"
    using link(1) hr(1) n by (auto simp: Root_Open_def root_walk_def split: sum.splits option.splits)
  note real = confined_real [OF wf hr(2) root(4) _ _ walk]
  have d: "d \<noteq> []" and gd: "\<forall>q \<in> set (rp @ d). good_part q"
    using real(3,4) hr(2) root(4) name(1) by (auto simp: is_dir_def)
  have "ResolveUnderRoot fs cwd root n = Inr (abs_path (rp @ d))"
    using resolve_name [OF root(1-4) name(1)] real(1,2) gd name(1) by simp
  then show "readFile False fs cwd root n limit = Inl (ErrSensitive n)"
    using ne(1) root_allowed [OF root(1-3,5)] Rel_below [OF gd d] link(2) logical(1)
    by (simp add: readFile_def resolveAllowedPath_def)
  have "ResolveUnderRoot fs cwd root rel = Inr (abs_path (rp @ [rel]))"
    using resolve_name [OF root(1-4) padded(1), of "[rel]"] missing_name [OF wf hr(2) root(4) padded(1,3)] padded(1) by simp
  moreover have "\<forall>q \<in> set (rp @ [rel]). good_part q" using root(4) padded(1) by simp
  ultimately have "resolveAllowedPath False fs cwd root rel = Inr (abs_path (rp @ [rel]))"
    using root_allowed [OF root(1-3,5)] Rel_below [of rp "[rel]"] padded(4)
    by (simp add: resolveAllowedPath_def)
  then show "readFile False fs cwd root rel limit = Inr \<lparr>Read_Path = n, Read_Content = take (read_limit limit) c,
      Read_Truncated = read_limit limit < length c, Read_BytesRead = length (take (read_limit limit) c)\<rparr>"
    using ne(2) handle link(1) logical(2) by (auto simp: readFile_def Let_def min_def)
qed

theorem whitespace_bypass_witness:
  "readFile False sample_fs None ''/w'' ''creds'' 10 = Inl (ErrSensitive ''creds'') \<and>
   readFile False sample_fs None ''/w'' '' creds'' 10 =
     Inr \<lparr>Read_Path = ''creds'', Read_Content = ''SECRET'', Read_Truncated = False, Read_BytesRead = 6\<rparr>"
proof -
  have "is_abs ''/w''" "Clean ''/w'' = ''/w''" "EvalSymlinks sample_fs ''/w'' = Inr (abs_path [''w''])"
    "\<forall>q \<in> set [''w'']. good_part q" "\<not> isSensitivePath (Base (abs_path [''w'']))"
    "openWorkspaceRoot sample_fs None ''/w'' = Inr [''w'']" "good_part ''creds''" "trim_space ''creds'' = ''creds''"
    "Root_Open sample_fs [''w''] ''creds'' = Inr ([''.env''], File ''SECRET'' 384)"
    "isSensitivePath (join_char slash [''.env''])" "good_part '' creds''" "trim_space '' creds'' = ''creds''"
    "sample_fs ([''w''] @ ['' creds'']) = None" "\<not> isSensitivePath '' creds''"
    by code_simp+
  note f = whitespace_bypass [OF sample_fs_wf this, of 10]
  have "read_limit 10 = 10" by code_simp
  with f show ?thesis by simp
qed

end
