(* ===== verification/PatchDiff.thy ===== *)
theory PatchDiff
  imports Text
begin

text \<open>
  The preview of a patch (\<open>writeEditDiff\<close> and its helpers in \<open>internal/agentops/write.go\<close>): a unified diff with
  one hunk per file.
\<close>

abbreviation diffContextLines :: nat where "diffContextLines \<equiv> 3"

datatype patch_action = ACreate | ADelete | AReplace

fun common_prefix :: "string list \<Rightarrow> string list \<Rightarrow> nat" where
  "common_prefix (x # xs) (y # ys) = (if x = y then Suc (common_prefix xs ys) else 0)"
| "common_prefix xs ys = 0"

text \<open>
  \<open>locateChangedLines\<close>: the second loop counts the common lines at the end among those after the common
  lines at the front.
\<close>

definition locateChangedLines :: "string list \<Rightarrow> string list \<Rightarrow> nat \<times> nat \<times> nat" where
  "locateChangedLines oldLines newLines =
     (let prefix = common_prefix oldLines newLines;
          suffix = common_prefix (rev (drop prefix oldLines)) (rev (drop prefix newLines))
      in (prefix, length oldLines - prefix - suffix, length newLines - prefix - suffix))"

definition removed2lines :: "string list \<Rightarrow> nat \<Rightarrow> nat \<Rightarrow> string list" where
  "removed2lines lines start count =
     (if count = 0 \<or> start + count > length lines then [] else take count (drop start lines))"

definition mark_lines :: "string \<Rightarrow> string list \<Rightarrow> string" where
  "mark_lines mark lines = concat (map (\<lambda>l. mark @ l @ [newline]) lines)"

definition hunk_header :: "nat \<Rightarrow> nat \<Rightarrow> nat \<Rightarrow> nat \<Rightarrow> string" where
  "hunk_header oldStart oldCount newStart newCount =
     ''@@ -'' @ show_nat oldStart @ '','' @ show_nat oldCount @ '' +'' @ show_nat newStart @ '','' @ show_nat newCount @
     '' @@'' @ [newline]"

definition writeHunk :: "nat \<Rightarrow> nat \<Rightarrow> nat \<Rightarrow> nat \<Rightarrow> string list \<Rightarrow> string list \<Rightarrow> string" where
  "writeHunk oldStart oldCount newStart newCount removed added =
     hunk_header oldStart oldCount newStart newCount @ mark_lines ''-'' removed @ mark_lines ''+'' added"

definition writeHunkRaw ::
  "nat \<Rightarrow> nat \<Rightarrow> nat \<Rightarrow> nat \<Rightarrow> string list \<Rightarrow> string list \<Rightarrow> string list \<Rightarrow> string list \<Rightarrow> string" where
  "writeHunkRaw oldStart oldCount newStart newCount before after removed added =
     hunk_header oldStart oldCount newStart newCount @ mark_lines '' '' before @ mark_lines ''-'' removed @
     mark_lines ''+'' added @ mark_lines '' '' after"

text \<open>
  The hunk of a replacement: where it starts, the two counts of its header, and its four groups of lines.
\<close>

record hunk =
  hunk_from :: nat
  hunk_oldCount :: nat
  hunk_newCount :: nat
  hunk_before :: "string list"
  hunk_removed :: "string list"
  hunk_added :: "string list"
  hunk_after :: "string list"

definition replace_hunk :: "string list \<Rightarrow> string list \<Rightarrow> hunk" where
  "replace_hunk oldLines newLines =
     (let (start, removed, added) = locateChangedLines oldLines newLines;
          from = start - diffContextLines;
          to = min (start + removed + diffContextLines) (length oldLines);
          changed = take added (drop start newLines)
      in \<lparr>hunk_from = from, hunk_oldCount = to - from, hunk_newCount = from + length changed,
          hunk_before = take (start - from) (drop from oldLines),
          hunk_removed = removed2lines oldLines start removed,
          hunk_added = changed,
          hunk_after = take (to - (start + removed)) (drop (start + removed) oldLines)\<rparr>)"

definition writeEditDiff :: "string \<Rightarrow> patch_action \<Rightarrow> string \<Rightarrow> string \<Rightarrow> string" where
  "writeEditDiff rel action oldContent newContent =
     (let oldLines = splitLines oldContent;
          newLines = splitLines newContent
      in ''diff --git a/'' @ rel @ '' b/'' @ rel @ [newline] @
         (case action of
            ACreate \<Rightarrow> writeHunk 0 0 1 (length newLines) [] newLines
          | ADelete \<Rightarrow> writeHunk 1 (length oldLines) 0 0 oldLines []
          | AReplace \<Rightarrow>
              let h = replace_hunk oldLines newLines
              in ''--- a/'' @ rel @ [newline] @ ''+++ b/'' @ rel @ [newline] @
                 writeHunkRaw (hunk_from h + 1) (hunk_oldCount h) (hunk_from h + 1) (hunk_newCount h)
                   (hunk_before h) (hunk_after h) (hunk_removed h) (hunk_added h)))"

section \<open>What the hunk of a replacement says\<close>

lemma common_prefix_le: "common_prefix xs ys \<le> length xs" "common_prefix xs ys \<le> length ys"
  by (induction xs ys rule: common_prefix.induct) auto

lemma common_prefix_take: "take (common_prefix xs ys) xs = take (common_prefix xs ys) ys"
  by (induction xs ys rule: common_prefix.induct) auto

text \<open>The two files differ in one span of lines.\<close>

lemma locate_spans:
  assumes "locateChangedLines oldLines newLines = (start, removed, added)"
  shows "start + removed \<le> length oldLines" and "start + added \<le> length newLines"
    and "take start newLines = take start oldLines" and "drop (start + added) newLines = drop (start + removed) oldLines"
proof -
  let ?p = "common_prefix oldLines newLines"
  let ?o = "drop ?p oldLines" and ?n = "drop ?p newLines"
  let ?s = "common_prefix (rev ?o) (rev ?n)"
  have eq: "start = ?p" "removed = length oldLines - ?p - ?s" "added = length newLines - ?p - ?s"
    using assms by (auto simp: locateChangedLines_def Let_def)
  have p: "?p \<le> length oldLines" "?p \<le> length newLines" by (rule common_prefix_le)+
  have s: "?s \<le> length oldLines - ?p" "?s \<le> length newLines - ?p"
    using common_prefix_le [of "rev ?o" "rev ?n"] by simp_all
  show "start + removed \<le> length oldLines" "start + added \<le> length newLines" using p s eq by auto
  show "take start newLines = take start oldLines" using common_prefix_take [of oldLines newLines] eq by simp
  have "take ?s (rev ?o) = take ?s (rev ?n)" by (rule common_prefix_take)
  then have "drop (length ?o - ?s) ?o = drop (length ?n - ?s) ?n" by (simp add: take_rev)
  then show "drop (start + added) newLines = drop (start + removed) oldLines"
    using p s eq by (simp add: add.commute)
qed

text \<open>
  The preview of a replacement is right about its lines: reading the context and removed lines gives
  the old file's lines from \<open>hunk_from\<close> on, as many as the header says, reading the context and added lines
  gives the new file's lines from there on, and outside the hunk the files agree. Its header counts the new
  lines wrongly: it gives \<open>hunk_from\<close> plus the added lines instead of the context plus the added lines.
\<close>

theorem replace_hunk_lines:
  fixes oldLines newLines
  defines "h \<equiv> replace_hunk oldLines newLines"
  defines "olds \<equiv> hunk_before h @ hunk_removed h @ hunk_after h"
  defines "news \<equiv> hunk_before h @ hunk_added h @ hunk_after h"
  shows "olds = take (hunk_oldCount h) (drop (hunk_from h) oldLines) \<and> length olds = hunk_oldCount h \<and>
    news = take (length news) (drop (hunk_from h) newLines) \<and>
    take (hunk_from h) newLines = take (hunk_from h) oldLines \<and>
    drop (hunk_from h + length news) newLines = drop (hunk_from h + length olds) oldLines \<and>
    hunk_newCount h = hunk_from h + length (hunk_added h)"
proof -
  obtain start removed added where loc: "locateChangedLines oldLines newLines = (start, removed, added)"
    by (cases "locateChangedLines oldLines newLines") auto
  note sp = locate_spans [OF loc]
  define a where "a = start - diffContextLines"
  define z where "z = min (start + removed + diffContextLines) (length oldLines)"
  have az: "a \<le> start" "start + removed \<le> z" "z \<le> length oldLines"
    using sp(1) by (auto simp: a_def z_def)
  have h: "hunk_from h = a" "hunk_oldCount h = z - a" "hunk_newCount h = a + length (hunk_added h)"
    "hunk_before h = take (start - a) (drop a oldLines)" "hunk_removed h = take removed (drop start oldLines)"
    "hunk_added h = take added (drop start newLines)" "hunk_after h = take (z - (start + removed)) (drop (start + removed) oldLines)"
    using sp(1) by (auto simp: h_def replace_hunk_def loc Let_def a_def z_def removed2lines_def)
  have lens: "length (hunk_before h) = start - a" "length (hunk_removed h) = removed" "length (hunk_added h) = added"
    "length (hunk_after h) = z - (start + removed)" using h az sp(1,2) by auto
  have glue: "take i (drop k xs) @ take j (drop (k + i) xs) = take (i + j) (drop k xs)" for i j k and xs :: "string list"
    by (simp add: take_add add.commute)
  have "olds = take (start - a) (drop a oldLines) @ take (removed + (z - (start + removed))) (drop start oldLines)"
    unfolding olds_def h glue [symmetric] by (simp add: add.commute)
  also have "\<dots> = take (start - a + (removed + (z - (start + removed)))) (drop a oldLines)"
    using glue [of "start - a" a oldLines "removed + (z - (start + removed))"] az(1) by simp
  also have "start - a + (removed + (z - (start + removed))) = z - a" using az by simp
  finally have olds: "olds = take (hunk_oldCount h) (drop (hunk_from h) oldLines)" using h(1,2) by simp
  have lo: "length olds = z - a" using lens az by (simp add: olds_def)
  have before: "hunk_before h = take (start - a) (drop a newLines)"
    using h(4) sp(3) az(1) by (metis drop_take)
  have after: "hunk_after h = take (z - (start + removed)) (drop (start + added) newLines)" using h(7) sp(4) by simp
  have "news = take (start - a) (drop a newLines) @ take (added + (z - (start + removed))) (drop start newLines)"
    unfolding news_def before h(6) after glue [symmetric] by (simp add: add.commute)
  also have "\<dots> = take (start - a + (added + (z - (start + removed)))) (drop a newLines)"
    using glue [of "start - a" a newLines "added + (z - (start + removed))"] az(1) by simp
  finally have "news = take (length news) (drop a newLines)" by (metis length_take min.commute take_take min.idem take_all_iff length_drop linear)
  moreover have "take a newLines = take a oldLines" using sp(3) az(1) by (metis min.absorb1 take_take)
  moreover have "drop (a + length news) newLines = drop (a + length olds) oldLines"
  proof -
    have "a + length news = (start + added) + (z - (start + removed))" using lens az by (simp add: news_def)
    moreover have "a + length olds = (start + removed) + (z - (start + removed))" using lo az by simp
    ultimately show ?thesis using sp(4) by (metis add.commute drop_drop)
  qed
  ultimately show ?thesis using olds lo h(1,2,3) by simp
qed

end
