(* ===== verification/PatchEngine.thy ===== *)
theory PatchEngine
  imports WorkspacePolicy PatchDiff
begin

text \<open>
  The patch engine of \<open>internal/agentops/write.go\<close>: \<open>applyPatch\<close> with its validation, checkpoint and writes,
  \<open>rollbackPatch\<close>, and the checkpoint store with its content-addressed blobs.

  The state of the engine is the file system together with the state directory of the client, which lies
  outside every workspace: the blobs by name, and the file \<open>checkpoints.json\<close>. What the sources take from the
  environment is in the record \<open>patch_io\<close>: the hexadecimal SHA-256 of a content, the working directory, the effect of the umask, the
  listing of a directory, the clock, the random bytes of a new identifier, and the faults of the single
  file operations. Reading does not fail for other reasons than those of the file system model.
\<close>

section \<open>Data\<close>

abbreviation maxPatchFiles :: nat where "maxPatchFiles \<equiv> 20"
abbreviation maxPatchFileBytes :: int where "maxPatchFileBytes \<equiv> 512 * 1024"
abbreviation maxPatchTotalBytes :: int where "maxPatchTotalBytes \<equiv> 2 * 1024 * 1024"
abbreviation maxCheckpointsKept :: nat where "maxCheckpointsKept \<equiv> 20"

record FileEdit =
  Edit_Path :: string
  Edit_OldText :: string
  Edit_NewText :: string

record PatchSummary =
  Summary_Path :: string
  Summary_Action :: patch_action

record ApplyPatchResult =
  Apply_Applied :: bool
  Apply_Preview :: bool
  Apply_Diff :: string
  Apply_Files :: "PatchSummary list"
  Apply_CheckpointID :: string

record RollbackResult =
  RolledBack :: bool
  Rollback_CheckpointID :: string
  RestoredFiles :: "string list"
  RemovedFiles :: "string list"

record checkpointFile =
  cf_Path :: string
  cf_Blob :: string
  cf_Absent :: bool
  cf_Mode :: nat
  cf_Existed :: bool

record checkpoint =
  cp_ID :: string
  cp_Workspace :: string
  cp_CreatedAt :: gotime
  cp_Files :: "checkpointFile list"

record checkpointStore =
  Checkpoints :: "checkpoint list"

record plannedEdit =
  pe_rel :: string
  pe_abs :: string
  pe_action :: patch_action
  pe_oldContent :: string
  pe_newContent :: string
  pe_mode :: nat

text \<open>The file \<open>checkpoints.json\<close>: missing, unreadable, not decodable, or holding a store.\<close>

datatype store_file = NoStoreFile | UnreadableStore | GarbledStore | StoreFile checkpointStore

record state_dir =
  sd_blobs :: "string \<Rightarrow> string option"
  sd_store :: store_file

datatype blob_fault = BlobFine | BlobMkdirFails | BlobWriteFails nat | BlobRenameFails
datatype write_fault = WriteFine | OpenFails fs_error | WriteStops nat

record patch_io =
  io_sha256 :: "string \<Rightarrow> string"
  io_cwd :: "string option"
  io_umask :: "nat \<Rightarrow> nat"
  io_readdir :: "fs \<Rightarrow> string list \<Rightarrow> string list"
  io_now :: gotime
  io_random :: "nat list option"
  io_blob :: "string \<Rightarrow> blob_fault"
  io_stuck :: "string \<Rightarrow> bool"
  io_persist :: bool
  io_write :: "nat \<Rightarrow> write_fault"
  io_restore :: "nat \<Rightarrow> write_fault"

datatype patch_error =
    ErrNotWriteEnabled
  | ErrEditsRequired
  | ErrTooManyFiles
  | ErrConfirmationRequired
  | ErrAccess path_error
  | ErrEditPathRequired
  | ErrEditAbsolute
  | ErrEditEscapes
  | ErrEditSensitive string
  | ErrDuplicateEdit string
  | ErrEmptyEdit string
  | ErrEditTooLarge string
  | ErrPatchTooLarge
  | ErrBinaryEdit string
  | ErrAlreadyExists string
  | ErrParentDir string
  | ErrMkdirAll fs_error
  | ErrDeleteMismatch string
  | ErrOldTextMissing string
  | ErrOldTextAmbiguous string nat
  | ErrCheckpointBlob string
  | ErrPersistCheckpoint
  | ErrReadStore
  | ErrDecodeStore
  | ErrPatchFailed string string
  | ErrCheckpointNotFound string
  | ErrBlobUnavailable string

text \<open>The fields of \<open>Service\<close> that the engine reads.\<close>

record Service =
  Writable :: "string \<Rightarrow> bool"
  AllowSensitiveFiles :: bool

section \<open>Changing files\<close>

text \<open>
  \<open>os.MkdirAll\<close> on a cleaned rooted path, given by its elements in reverse order. A directory that is there
  is accepted, also through links; otherwise the parent is made first.
\<close>

fun MkdirAll_os :: "patch_io \<Rightarrow> nat \<Rightarrow> fs \<Rightarrow> string list \<Rightarrow> fs \<times> fs_error option" where
  "MkdirAll_os io perm fs [] = (fs, None)"
| "MkdirAll_os io perm fs (p # up) =
     (case Stat fs (abs_path (rev (p # up))) of
        Inr (Dir m) \<Rightarrow> (fs, None)
      | Inr nd \<Rightarrow> (fs, Some ErrNotDir)
      | Inl e \<Rightarrow>
          (case MkdirAll_os io perm fs up of
             (fs', Some e) \<Rightarrow> (fs', Some e)
           | (fs', None) \<Rightarrow>
               (case in_dir False [] fs' maxKernelLinks (rev (p # up)) of
                  Inl e \<Rightarrow> (fs', Some e)
                | Inr q \<Rightarrow>
                    (case fs' q of
                       None \<Rightarrow> (fs'(q \<mapsto> Dir (io_umask io perm)), None)
                     | Some (Dir m) \<Rightarrow> (fs', None)
                     | Some nd \<Rightarrow> (fs', Some ErrExist)))))"

text \<open>
  The methods of a root handle. A place is given relative to the directory of the handle. \<open>Root_OpenFile\<close>
  covers opening for writing and the write that follows, with \<open>excl\<close> for \<open>O_EXCL\<close> and truncation otherwise.
\<close>

definition Root_parent :: "fs \<Rightarrow> string list \<Rightarrow> string \<Rightarrow> fs_error + string list" where
  "Root_parent fs handle name =
     (if is_abs name then Inl ErrPathEscapes
      else in_dir True handle fs rootMaxSymlinks (split_char slash name))"

definition Root_Remove :: "patch_io \<Rightarrow> write_fault \<Rightarrow> fs \<Rightarrow> string list \<Rightarrow> string \<Rightarrow> fs \<times> fs_error option" where
  "Root_Remove io fault fs handle name =
     (case fault of
        OpenFails e \<Rightarrow> (fs, Some e)
      | _ \<Rightarrow>
          (case Root_parent fs handle name of
             Inl e \<Rightarrow> (fs, Some e)
           | Inr d \<Rightarrow>
               (case fs (handle @ d) of
                  None \<Rightarrow> (fs, Some ErrNotExist)
                | Some (Dir m) \<Rightarrow>
                    if io_readdir io fs (handle @ d) = [] then (fs(handle @ d := None), None)
                    else (fs, Some ErrNotEmpty)
                | Some nd \<Rightarrow> (fs(handle @ d := None), None))))"

definition written :: "write_fault \<Rightarrow> string \<Rightarrow> string" where
  "written fault content = (case fault of WriteStops n \<Rightarrow> take n content | _ \<Rightarrow> content)"

definition write_error :: "write_fault \<Rightarrow> fs_error option" where
  "write_error fault = (case fault of WriteStops n \<Rightarrow> Some ErrIO | _ \<Rightarrow> None)"

definition Root_OpenFile ::
  "patch_io \<Rightarrow> write_fault \<Rightarrow> bool \<Rightarrow> nat \<Rightarrow> string \<Rightarrow> fs \<Rightarrow> string list \<Rightarrow> string \<Rightarrow> fs \<times> fs_error option"
where
  "Root_OpenFile io fault excl perm content fs handle name =
     (case fault of
        OpenFails e \<Rightarrow> (fs, Some e)
      | _ \<Rightarrow>
          if excl then
            (case Root_parent fs handle name of
               Inl e \<Rightarrow> (fs, Some e)
             | Inr d \<Rightarrow>
                 if fs (handle @ d) \<noteq> None then (fs, Some ErrExist)
                 else (fs(handle @ d \<mapsto> File (written fault content) (io_umask io perm)), write_error fault))
          else
            (case root_walk fs handle name of
               Inl e \<Rightarrow> (fs, Some e)
             | Inr (d, None) \<Rightarrow>
                 (fs(handle @ d \<mapsto> File (written fault content) (io_umask io perm)), write_error fault)
             | Inr (d, Some (File c m)) \<Rightarrow>
                 (fs(handle @ d \<mapsto> File (written fault content) m), write_error fault)
             | Inr (d, Some nd) \<Rightarrow> (fs, Some ErrIsDir)))"

text \<open>
  \<open>Root.MkdirAll\<close> goes down the path and makes what is missing. A link in the middle is followed within the
  root; a link at the end must lead to a directory.
\<close>

function root_mkdirs ::
  "patch_io \<Rightarrow> nat \<Rightarrow> (fs \<Rightarrow> bool) \<Rightarrow> string list \<Rightarrow> fs \<Rightarrow> nat \<Rightarrow> string list \<Rightarrow> string list \<Rightarrow> fs \<times> fs_error option"
where
  "root_mkdirs io perm leads base fs n dest [] = (fs, None)"
| "root_mkdirs io perm leads base fs n dest (p # rest) =
     (if p = [] \<or> p = ''.'' then root_mkdirs io perm leads base fs n dest rest
      else if p = ''..'' then
        (if dest = [] then (fs, Some ErrPathEscapes) else root_mkdirs io perm leads base fs n (butlast dest) rest)
      else case fs (base @ dest @ [p]) of
             None \<Rightarrow>
               root_mkdirs io perm leads base (fs(base @ dest @ [p] \<mapsto> Dir (io_umask io perm))) n (dest @ [p]) rest
           | Some (Dir m) \<Rightarrow> root_mkdirs io perm leads base fs n (dest @ [p]) rest
           | Some (File c m) \<Rightarrow> (fs, Some (if rest = [] then ErrExist else ErrNotDir))
           | Some (Link t) \<Rightarrow>
               if rest = [] then (if leads fs then (fs, None) else (fs, Some ErrExist))
               else if n = 0 then (fs, Some ErrLoop)
               else if is_abs t then (fs, Some ErrPathEscapes)
               else root_mkdirs io perm leads base fs (n - 1) dest (split_char slash t @ rest))"
  by pat_completeness auto
termination
  by (relation "measures [\<lambda>(io, perm, leads, base, fs, n, dest, rest). n,
    \<lambda>(io, perm, leads, base, fs, n, dest, rest). length rest]") auto

declare root_mkdirs.simps(2) [simp del]

definition Root_MkdirAll :: "patch_io \<Rightarrow> nat \<Rightarrow> fs \<Rightarrow> string list \<Rightarrow> string \<Rightarrow> fs \<times> fs_error option" where
  "Root_MkdirAll io perm fs handle name =
     (if is_abs name then (fs, Some ErrPathEscapes)
      else root_mkdirs io perm
             (\<lambda>fs. case root_walk fs handle name of Inr (d, Some (Dir m)) \<Rightarrow> True | _ \<Rightarrow> False)
             handle fs rootMaxSymlinks [] (split_char slash name))"

section \<open>Blobs and checkpoints\<close>

definition hex_digit :: "nat \<Rightarrow> char" where
  "hex_digit n = (if n < 10 then char_of (48 + n) else char_of (87 + n))"

definition hex_encode :: "nat list \<Rightarrow> string" where
  "hex_encode bs = concat (map (\<lambda>b. [hex_digit (b div 16 mod 16), hex_digit (b mod 16)]) bs)"

definition newCheckpointID :: "nat list option \<Rightarrow> gotime \<Rightarrow> string" where
  "newCheckpointID random now =
     ''cbk_'' @ (case random of Some b \<Rightarrow> hex_encode b | None \<Rightarrow> show_int now)"

definition isBlobName :: "string \<Rightarrow> bool" where
  "isBlobName name \<longleftrightarrow>
     length name = 64 \<and>
     (\<forall>c \<in> set name. \<not> ((of_char c < (48::nat) \<or> of_char c > (57::nat)) \<and> (of_char c < (97::nat) \<or> of_char c > (102::nat))))"

definition storeBlob :: "patch_io \<Rightarrow> string \<Rightarrow> state_dir \<Rightarrow> state_dir \<times> string option" where
  "storeBlob io content sd =
     (let name = io_sha256 io content;
          tmp = name @ ''.tmp''
      in case io_blob io content of
           BlobMkdirFails \<Rightarrow> (sd, None)
         | fault \<Rightarrow>
             if sd_blobs sd name \<noteq> None then (sd, Some name)
             else
               (case fault of
                  BlobWriteFails n \<Rightarrow> (sd\<lparr>sd_blobs := (sd_blobs sd)(tmp \<mapsto> take n content)\<rparr>, None)
                | BlobRenameFails \<Rightarrow> (sd\<lparr>sd_blobs := (sd_blobs sd)(tmp \<mapsto> content)\<rparr>, None)
                | _ \<Rightarrow> (sd\<lparr>sd_blobs := (sd_blobs sd)(tmp := None, name \<mapsto> content)\<rparr>, Some name)))"

definition loadBlob :: "state_dir \<Rightarrow> string \<Rightarrow> string option" where
  "loadBlob sd name = (if \<not> isBlobName name then None else sd_blobs sd name)"

definition kept_blobs :: "checkpointStore \<Rightarrow> string list" where
  "kept_blobs store =
     filter (\<lambda>b. b \<noteq> []) (concat (map (\<lambda>cp. map cf_Blob (cp_Files cp)) (Checkpoints store)))"

definition pruneBlobs :: "patch_io \<Rightarrow> checkpointStore \<Rightarrow> state_dir \<Rightarrow> state_dir" where
  "pruneBlobs io store sd =
     sd\<lparr>sd_blobs := (\<lambda>name. if name \<in> set (kept_blobs store) \<or> io_stuck io name then sd_blobs sd name else None)\<rparr>"

definition loadCheckpointStore :: "state_dir \<Rightarrow> patch_error + checkpointStore" where
  "loadCheckpointStore sd =
     (case sd_store sd of
        NoStoreFile \<Rightarrow> Inr \<lparr>Checkpoints = []\<rparr>
      | UnreadableStore \<Rightarrow> Inl ErrReadStore
      | GarbledStore \<Rightarrow> Inl ErrDecodeStore
      | StoreFile store \<Rightarrow> Inr store)"

definition appendCheckpoint :: "patch_io \<Rightarrow> checkpoint \<Rightarrow> state_dir \<Rightarrow> state_dir \<times> bool" where
  "appendCheckpoint io cp sd =
     (case loadCheckpointStore sd of
        Inl e \<Rightarrow> (sd, False)
      | Inr store \<Rightarrow>
          let cps = Checkpoints store @ [cp];
              store = \<lparr>Checkpoints = (if length cps > maxCheckpointsKept then drop (length cps - maxCheckpointsKept) cps else cps)\<rparr>;
              sd = pruneBlobs io store sd
          in if io_persist io then (sd\<lparr>sd_store := StoreFile store\<rparr>, True) else (sd, False))"

definition perm_of :: "node \<Rightarrow> nat" where
  "perm_of nd = (case nd of File c m \<Rightarrow> m | Dir m \<Rightarrow> m | Link t \<Rightarrow> 511)"

text \<open>The loop of \<open>createCheckpoint\<close> over the planned edits.\<close>

fun snapshot_files ::
  "patch_io \<Rightarrow> fs \<Rightarrow> plannedEdit list \<Rightarrow> checkpointFile list \<Rightarrow> state_dir \<Rightarrow>
   state_dir \<times> (patch_error + checkpointFile list)"
where
  "snapshot_files io fs [] files sd = (sd, Inr files)"
| "snapshot_files io fs (p # ps) files sd =
     (let entry = \<lparr>cf_Path = pe_rel p, cf_Blob = [], cf_Absent = False, cf_Mode = 0, cf_Existed = False\<rparr>
      in case Lstat fs (pe_abs p) of
           Inr info \<Rightarrow>
             (case ReadFile_os fs (pe_abs p) of
                Inl e \<Rightarrow> (sd, Inl (ErrAccess (safePathError ''checkpoint read'' (pe_rel p) e)))
              | Inr content \<Rightarrow>
                  (case storeBlob io content sd of
                     (sd, None) \<Rightarrow> (sd, Inl (ErrCheckpointBlob (pe_rel p)))
                   | (sd, Some blob) \<Rightarrow>
                       snapshot_files io fs ps
                         (files @ [entry\<lparr>cf_Existed := True, cf_Mode := perm_of info, cf_Blob := blob\<rparr>]) sd))
         | Inl e \<Rightarrow>
             if e = ErrNotExist then snapshot_files io fs ps (files @ [entry\<lparr>cf_Absent := True\<rparr>]) sd
             else (sd, Inl (ErrAccess (safePathError ''checkpoint stat'' (pe_rel p) e))))"

definition createCheckpoint ::
  "patch_io \<Rightarrow> string \<Rightarrow> fs \<Rightarrow> plannedEdit list \<Rightarrow> state_dir \<Rightarrow> state_dir \<times> (patch_error + checkpoint)"
where
  "createCheckpoint io workspace fs planned sd =
     (case snapshot_files io fs planned [] sd of
        (sd, Inl e) \<Rightarrow> (sd, Inl e)
      | (sd, Inr files) \<Rightarrow>
          let cp = \<lparr>cp_ID = newCheckpointID (io_random io) (io_now io), cp_Workspace = workspace,
                    cp_CreatedAt = io_now io, cp_Files = files\<rparr>
          in (case appendCheckpoint io cp sd of
                (sd, True) \<Rightarrow> (sd, Inr cp)
              | (sd, False) \<Rightarrow> (sd, Inl ErrPersistCheckpoint)))"

section \<open>Planning a patch\<close>

definition cont_byte :: "nat \<Rightarrow> bool" where
  "cont_byte b \<longleftrightarrow> 128 \<le> b \<and> b \<le> 191"

fun valid_utf8 :: "nat list \<Rightarrow> bool" where
  "valid_utf8 [] = True"
| "valid_utf8 (a # s) =
     (if a < 128 then valid_utf8 s
      else case s of
             [] \<Rightarrow> False
           | b # s1 \<Rightarrow>
               if 194 \<le> a \<and> a \<le> 223 then cont_byte b \<and> valid_utf8 s1
               else
                 (case s1 of
                    [] \<Rightarrow> False
                  | c # s2 \<Rightarrow>
                      if 224 \<le> a \<and> a \<le> 239
                      then cont_byte b \<and> (a = 224 \<longrightarrow> 160 \<le> b) \<and> (a = 237 \<longrightarrow> b \<le> 159) \<and> cont_byte c \<and> valid_utf8 s2
                      else
                        (case s2 of
                           [] \<Rightarrow> False
                         | d # s3 \<Rightarrow>
                             240 \<le> a \<and> a \<le> 244 \<and> cont_byte b \<and> (a = 240 \<longrightarrow> 144 \<le> b) \<and> (a = 244 \<longrightarrow> b \<le> 143) \<and>
                             cont_byte c \<and> cont_byte d \<and> valid_utf8 s3)))"

definition ValidString :: "string \<Rightarrow> bool" where
  "ValidString s = valid_utf8 (map of_char s)"

definition edit_action :: "FileEdit \<Rightarrow> patch_action option" where
  "edit_action e =
     (if Edit_OldText e = [] \<and> Edit_NewText e \<noteq> [] then Some ACreate
      else if Edit_OldText e \<noteq> [] \<and> Edit_NewText e = [] then Some ADelete
      else if Edit_OldText e = [] \<and> Edit_NewText e = [] then None
      else Some AReplace)"

text \<open>The checks on an edit that do not look at the file system; the result is its action.\<close>

definition check_edit :: "FileEdit \<Rightarrow> string \<Rightarrow> string list \<Rightarrow> int \<Rightarrow> patch_error + patch_action" where
  "check_edit edit rel seen bytes =
     (if rel = [] \<or> rel = ''.'' then Inl ErrEditPathRequired
      else if is_abs (Edit_Path edit) then Inl ErrEditAbsolute
      else if has_prefix rel ''../'' then Inl ErrEditEscapes
      else if isSensitivePath rel then Inl (ErrEditSensitive rel)
      else if rel \<in> set seen then Inl (ErrDuplicateEdit rel)
      else case edit_action edit of
             None \<Rightarrow> Inl (ErrEmptyEdit rel)
           | Some action \<Rightarrow>
               if int (length (Edit_NewText edit)) > maxPatchFileBytes then Inl (ErrEditTooLarge rel)
               else if bytes + int (length (Edit_NewText edit)) > maxPatchTotalBytes then Inl ErrPatchTooLarge
               else if \<not> ValidString (Edit_NewText edit) \<or> CHR 0x00 \<in> set (Edit_NewText edit) then Inl (ErrBinaryEdit rel)
               else Inr action)"

definition ensureParentDir :: "patch_io \<Rightarrow> fs \<Rightarrow> string \<Rightarrow> string \<Rightarrow> fs \<times> patch_error option" where
  "ensureParentDir io fs rootReal rel =
     (let parent = logicalPath (Dir_path (if has_prefix rel ''./'' then drop 2 rel else rel))
      in if parent = ''.'' \<or> parent = [] then (fs, None)
         else case ResolveUnderRoot fs (io_cwd io) rootReal (parent @ ''/'') of
                Inl e \<Rightarrow> (fs, Some (ErrParentDir rel))
              | Inr _ \<Rightarrow>
                  let path = Join2 rootReal parent
                  in if \<not> isl (Stat fs path) then (fs, None)
                     else (case MkdirAll_os io 493 fs (rev (path_parts path)) of
                             (fs, None) \<Rightarrow> (fs, None)
                           | (fs, Some e) \<Rightarrow> (fs, Some (ErrMkdirAll e))))"

text \<open>The part of the loop that looks at the file system.\<close>

definition plan_edit ::
  "patch_io \<Rightarrow> fs \<Rightarrow> string \<Rightarrow> string \<Rightarrow> FileEdit \<Rightarrow> string \<Rightarrow> patch_action \<Rightarrow> fs \<times> (patch_error + plannedEdit)"
where
  "plan_edit io fs root rootReal edit rel action =
     (case ResolveUnderRoot fs (io_cwd io) root rel of
        Inl e \<Rightarrow> (fs, Inl (ErrAccess e))
      | Inr target \<Rightarrow>
          let info = Lstat fs target;
              planned = \<lparr>pe_rel = rel, pe_abs = target, pe_action = action, pe_oldContent = [], pe_newContent = [], pe_mode = 0\<rparr>
          in (case action of
               ACreate \<Rightarrow>
                 (case info of
                    Inr nd \<Rightarrow> (fs, Inl (ErrAlreadyExists rel))
                  | Inl e \<Rightarrow>
                      if e \<noteq> ErrNotExist then (fs, Inl (ErrAccess (safePathError ''stat'' rel e)))
                      else (case ensureParentDir io fs rootReal rel of
                              (fs, Some e) \<Rightarrow> (fs, Inl e)
                            | (fs, None) \<Rightarrow> (fs, Inr (planned\<lparr>pe_newContent := Edit_NewText edit\<rparr>))))
             | ADelete \<Rightarrow>
                 (case info of
                    Inl e \<Rightarrow> (fs, Inl (ErrAccess (safePathError ''delete'' rel e)))
                  | Inr nd \<Rightarrow>
                      (case ReadFile_os fs target of
                         Inl e \<Rightarrow> (fs, Inl (ErrAccess (safePathError ''read'' rel e)))
                       | Inr current \<Rightarrow>
                           if current \<noteq> Edit_OldText edit then (fs, Inl (ErrDeleteMismatch rel))
                           else (fs, Inr (planned\<lparr>pe_oldContent := current, pe_mode := perm_of nd\<rparr>))))
             | AReplace \<Rightarrow>
                 (case info of
                    Inl e \<Rightarrow> (fs, Inl (ErrAccess (safePathError ''read'' rel e)))
                  | Inr nd \<Rightarrow>
                      (case ReadFile_os fs target of
                         Inl e \<Rightarrow> (fs, Inl (ErrAccess (safePathError ''read'' rel e)))
                       | Inr current \<Rightarrow>
                           let count = count_sub current (Edit_OldText edit)
                           in if count = 0 then (fs, Inl (ErrOldTextMissing rel))
                              else if count > 1 then (fs, Inl (ErrOldTextAmbiguous rel count))
                              else (fs, Inr (planned\<lparr>pe_oldContent := current,
                                     pe_newContent := replace_first current (Edit_OldText edit) (Edit_NewText edit),
                                     pe_mode := perm_of nd\<rparr>))))))"

fun plan_edits ::
  "patch_io \<Rightarrow> fs \<Rightarrow> string \<Rightarrow> string \<Rightarrow> FileEdit list \<Rightarrow> string list \<Rightarrow> int \<Rightarrow> plannedEdit list \<Rightarrow>
   fs \<times> (patch_error + plannedEdit list)"
where
  "plan_edits io fs root rootReal [] seen bytes planned = (fs, Inr planned)"
| "plan_edits io fs root rootReal (edit # edits) seen bytes planned =
     (let rel = logicalPath (trim_space (Edit_Path edit))
      in case check_edit edit rel seen bytes of
           Inl e \<Rightarrow> (fs, Inl e)
         | Inr action \<Rightarrow>
             (case plan_edit io fs root rootReal edit rel action of
                (fs, Inl e) \<Rightarrow> (fs, Inl e)
              | (fs, Inr p) \<Rightarrow>
                  plan_edits io fs root rootReal edits (rel # seen) (bytes + int (length (Edit_NewText edit))) (planned @ [p])))"

section \<open>Applying a patch and rolling it back\<close>

definition write_edit :: "patch_io \<Rightarrow> write_fault \<Rightarrow> fs \<Rightarrow> string list \<Rightarrow> plannedEdit \<Rightarrow> fs \<times> fs_error option" where
  "write_edit io fault fs handle p =
     (case pe_action p of
        ADelete \<Rightarrow> Root_Remove io fault fs handle (pe_rel p)
      | ACreate \<Rightarrow> Root_OpenFile io fault True 420 (pe_newContent p) fs handle (pe_rel p)
      | AReplace \<Rightarrow> Root_OpenFile io fault False (pe_mode p) (pe_newContent p) fs handle (pe_rel p))"

definition file_mode_or_default :: "checkpointFile \<Rightarrow> nat" where
  "file_mode_or_default f = (if cf_Mode f = 0 then 420 else cf_Mode f)"

definition restore_file :: "patch_io \<Rightarrow> state_dir \<Rightarrow> string list \<Rightarrow> write_fault \<Rightarrow> checkpointFile \<Rightarrow> fs \<Rightarrow> fs" where
  "restore_file io sd handle fault f fs =
     (if cf_Absent f then fst (Root_Remove io fault fs handle (cf_Path f))
      else case loadBlob sd (cf_Blob f) of
             None \<Rightarrow> fs
           | Some content \<Rightarrow> fst (Root_OpenFile io fault False (file_mode_or_default f) content fs handle (cf_Path f)))"

text \<open>The number of a restoring write selects its fault.\<close>

definition restorePartial ::
  "patch_io \<Rightarrow> state_dir \<Rightarrow> fs \<Rightarrow> string list \<Rightarrow> plannedEdit list \<Rightarrow> checkpoint \<Rightarrow> fs"
where
  "restorePartial io sd fs handle applied cp =
     fold (\<lambda>(k, f) fs. restore_file io sd handle (io_restore io k) f fs)
       (enumerate 0 (concat (map (\<lambda>p. filter (\<lambda>f. cf_Path f = pe_rel p) (cp_Files cp)) applied))) fs"

fun write_edits ::
  "patch_io \<Rightarrow> state_dir \<Rightarrow> checkpoint \<Rightarrow> string list \<Rightarrow> plannedEdit list \<Rightarrow> plannedEdit list \<Rightarrow> fs \<Rightarrow> fs \<times> patch_error option"
where
  "write_edits io sd cp handle [] applied fs = (fs, None)"
| "write_edits io sd cp handle (p # ps) applied fs =
     (case write_edit io (io_write io (length applied)) fs handle p of
        (fs, Some e) \<Rightarrow> (restorePartial io sd fs handle applied cp, Some (ErrPatchFailed (pe_rel p) (cp_ID cp)))
      | (fs, None) \<Rightarrow> write_edits io sd cp handle ps (applied @ [p]) fs)"

definition summaries :: "plannedEdit list \<Rightarrow> PatchSummary list" where
  "summaries planned = map (\<lambda>p. \<lparr>Summary_Path = pe_rel p, Summary_Action = pe_action p\<rparr>) planned"

definition preview_result :: "plannedEdit list \<Rightarrow> ApplyPatchResult" where
  "preview_result planned =
     \<lparr>Apply_Applied = False, Apply_Preview = True,
      Apply_Diff = concat (map (\<lambda>p. writeEditDiff (pe_rel p) (pe_action p) (pe_oldContent p) (pe_newContent p)) planned),
      Apply_Files = summaries planned, Apply_CheckpointID = []\<rparr>"

type_synonym world = "fs \<times> state_dir"

definition applyPatch ::
  "patch_io \<Rightarrow> Service \<Rightarrow> string \<Rightarrow> string \<Rightarrow> FileEdit list \<Rightarrow> bool \<Rightarrow> bool \<Rightarrow> world \<Rightarrow>
   world \<times> (patch_error + ApplyPatchResult)"
where
  "applyPatch io s workspace root edits preview confirm w =
     (let (fs, sd) = w
      in if \<not> Writable s workspace then (w, Inl ErrNotWriteEnabled)
         else if edits = [] then (w, Inl ErrEditsRequired)
         else if length edits > maxPatchFiles then (w, Inl ErrTooManyFiles)
         else if \<not> preview \<and> \<not> confirm then (w, Inl ErrConfirmationRequired)
         else case resolveWorkspaceRoot (AllowSensitiveFiles s) fs (io_cwd io) root of
                Inl e \<Rightarrow> (w, Inl (ErrAccess e))
              | Inr rootReal \<Rightarrow>
                  (case plan_edits io fs root rootReal edits [] 0 [] of
                     (fs, Inl e) \<Rightarrow> ((fs, sd), Inl e)
                   | (fs, Inr planned) \<Rightarrow>
                       if preview then ((fs, sd), Inr (preview_result planned))
                       else (case createCheckpoint io workspace fs planned sd of
                              (sd, Inl e) \<Rightarrow> ((fs, sd), Inl e)
                            | (sd, Inr cp) \<Rightarrow>
                                (case openWorkspaceRoot fs (io_cwd io) root of
                                   Inl e \<Rightarrow> ((fs, sd), Inl (ErrAccess e))
                                 | Inr handle \<Rightarrow>
                                     (case write_edits io sd cp handle planned [] fs of
                                        (fs, Some e) \<Rightarrow> ((fs, sd), Inl e)
                                      | (fs, None) \<Rightarrow>
                                          ((fs, sd), Inr \<lparr>Apply_Applied = True, Apply_Preview = False, Apply_Diff = [],
                                             Apply_Files = summaries planned, Apply_CheckpointID = cp_ID cp\<rparr>))))))"

fun rollback_files ::
  "patch_io \<Rightarrow> state_dir \<Rightarrow> string list \<Rightarrow> checkpointFile list \<Rightarrow> nat \<Rightarrow> fs \<Rightarrow> RollbackResult \<Rightarrow>
   fs \<times> patch_error option \<times> RollbackResult"
where
  "rollback_files io sd handle [] k fs res = (fs, None, res\<lparr>RolledBack := True\<rparr>)"
| "rollback_files io sd handle (f # files) k fs res =
     (if cf_Absent f then
        (case Root_Remove io (io_restore io k) fs handle (cf_Path f) of
           (fs, err) \<Rightarrow>
             if err \<noteq> None \<and> err \<noteq> Some ErrNotExist
             then (fs, Some (ErrAccess (safePathError ''rollback remove'' (cf_Path f) (the err))), res)
             else rollback_files io sd handle files (k + 1) fs (res\<lparr>RemovedFiles := RemovedFiles res @ [cf_Path f]\<rparr>))
      else case loadBlob sd (cf_Blob f) of
             None \<Rightarrow> (fs, Some (ErrBlobUnavailable (cf_Path f)), res)
           | Some content \<Rightarrow>
               (case Root_MkdirAll io 493 fs handle (Dir_path (cf_Path f)) of
                  (fs, Some e) \<Rightarrow> (fs, Some (ErrAccess (safePathError ''rollback mkdir'' (cf_Path f) e)), res)
                | (fs, None) \<Rightarrow>
                    (case Root_OpenFile io (io_restore io k) False (file_mode_or_default f) content fs handle (cf_Path f) of
                       (fs, Some e) \<Rightarrow> (fs, Some (ErrAccess (safePathError ''rollback write'' (cf_Path f) e)), res)
                     | (fs, None) \<Rightarrow>
                         rollback_files io sd handle files (k + 1) fs
                           (res\<lparr>RestoredFiles := RestoredFiles res @ [cf_Path f]\<rparr>))))"

definition rollbackPatch ::
  "patch_io \<Rightarrow> Service \<Rightarrow> string \<Rightarrow> string \<Rightarrow> string \<Rightarrow> world \<Rightarrow> world \<times> (patch_error + RollbackResult)"
where
  "rollbackPatch io s workspace root checkpointID w =
     (let (fs, sd) = w
      in if \<not> Writable s workspace then (w, Inl ErrNotWriteEnabled)
         else case loadCheckpointStore sd of
                Inl e \<Rightarrow> (w, Inl e)
              | Inr store \<Rightarrow>
                  (case find (\<lambda>cp. cp_ID cp = checkpointID \<and> cp_Workspace cp = workspace) (Checkpoints store) of
                     None \<Rightarrow> (w, Inl (ErrCheckpointNotFound checkpointID))
                   | Some cp \<Rightarrow>
                       (case openWorkspaceRoot fs (io_cwd io) root of
                          Inl e \<Rightarrow> (w, Inl (ErrAccess e))
                        | Inr handle \<Rightarrow>
                            (case rollback_files io sd handle (cp_Files cp) 0 fs
                                    \<lparr>RolledBack = False, Rollback_CheckpointID = checkpointID, RestoredFiles = [],
                                     RemovedFiles = []\<rparr> of
                               (fs, Some e, res) \<Rightarrow> ((fs, sd), Inl e)
                             | (fs, None, res) \<Rightarrow> ((fs, sd), Inr res)))))"

end
