(* ===== verification/PatchFiles.thy ===== *)
theory PatchFiles
  imports PatchEngine
begin

text \<open>
  How the file operations of the patch engine change a file system: making directories only adds
  directories, and the methods of a root handle only change leaves below the root.
\<close>

section \<open>Adding directories\<close>

definition dirs_added :: "fs \<Rightarrow> fs \<Rightarrow> bool" where
  "dirs_added fs fs' \<longleftrightarrow> (\<forall>q. fs' q = fs q \<or> fs q = None \<and> is_dir fs' q)"

lemma dirs_added_refl [simp, intro]: "dirs_added fs fs"
  by (simp add: dirs_added_def)

lemma dirs_added_trans: "dirs_added a b \<Longrightarrow> dirs_added b c \<Longrightarrow> dirs_added a c"
  unfolding dirs_added_def is_dir_def by (metis option.distinct(1))

lemma dirs_added_dir: "dirs_added fs fs' \<Longrightarrow> is_dir fs q \<Longrightarrow> is_dir fs' q"
  unfolding dirs_added_def is_dir_def by (metis option.distinct(1))

lemma dirs_added_Some: "dirs_added fs fs' \<Longrightarrow> fs q = Some nd \<Longrightarrow> fs' q = Some nd"
  unfolding dirs_added_def by (metis option.distinct(1))

lemma dirs_added_leaf:
  "dirs_added fs fs' \<Longrightarrow> fs' q = Some nd \<Longrightarrow> (\<And>m. nd \<noteq> Dir m) \<Longrightarrow> fs q = Some nd"
  unfolding dirs_added_def is_dir_def by (metis option.inject)

lemma add_dir: "fs q = None \<Longrightarrow> dirs_added fs (fs(q \<mapsto> Dir m))"
  by (auto simp: dirs_added_def is_dir_def)

lemma add_dir_wf:
  assumes "fs_wf fs" and "is_dir fs q"
  shows "fs_wf (fs(q @ [p] \<mapsto> Dir m))"
  using assms by (auto simp: fs_wf_def is_dir_def)

text \<open>The place that \<open>in_dir\<close> gives lies in a directory.\<close>

lemma in_dir_parent:
  assumes "in_dir conf base fs n ps = Inr q" and "ps \<noteq> []" and "fs_wf fs" and "is_dir fs base"
    and "\<forall>p \<in> set ps. slash \<notin> set p" and "conf \<or> base = []"
  obtains d where "q = d @ [last ps]" and "is_dir fs (base @ d)"
proof -
  obtain d m where w: "walk conf base fs n [] (butlast ps) = Inr (d, Some (Dir m))" "q = d @ [last ps]"
    using assms(1,2) by (auto simp: in_dir_def split: sum.splits option.splits node.splits)
  have "Some (Dir m) = fs (base @ d) \<and> (\<forall>t. Some (Dir m) \<noteq> Some (Link t)) \<and> (\<forall>p \<in> set d. good_part p) \<and>
      (d \<noteq> [] \<longrightarrow> is_dir fs (base @ butlast d))"
    by (rule walk_end [OF w(1) assms(3,4)]) (use assms(4,5,6) in \<open>auto dest: in_set_butlastD\<close>)
  then show thesis using that [of d] w(2) by (metis is_dir_def)
qed

lemma MkdirAll_os_adds:
  assumes "fs_wf fs" and "\<forall>p \<in> set rps. slash \<notin> set p" and "MkdirAll_os io perm fs rps = (fs', err)"
  shows "fs_wf fs' \<and> dirs_added fs fs'"
  using assms
proof (induction rps arbitrary: fs' err)
  case (Cons p up)
  obtain fs1 e1 where up: "MkdirAll_os io perm fs up = (fs1, e1)" by fastforce
  then have 1: "fs_wf fs1" "dirs_added fs fs1" using Cons.IH [OF Cons.prems(1) _ up] Cons.prems(2) by auto
  show ?case
  proof (cases "fs' = fs \<or> fs' = fs1")
    case False
    then obtain q where q: "in_dir False [] fs1 maxKernelLinks (rev (p # up)) = Inr q"
      "fs' = fs1(q \<mapsto> Dir (io_umask io perm))" "fs1 q = None"
      using Cons.prems(3) up
      by (auto split: sum.splits node.splits option.splits prod.splits simp del: rev.simps)
    have "is_dir fs1 []" using 1(1) by (simp add: fs_wf_def is_dir_def)
    moreover have "rev (p # up) \<noteq> []" "\<forall>x \<in> set (rev (p # up)). slash \<notin> set x" using Cons.prems(2) by auto
    ultimately obtain d where "q = d @ [last (rev (p # up))]" "is_dir fs1 ([] @ d)"
      using in_dir_parent [OF q(1) _ 1(1)] by blast
    then show ?thesis using 1 q add_dir add_dir_wf dirs_added_trans by (metis append_Nil)
  qed (use Cons.prems(1) 1 in auto)
qed simp

section \<open>Changing leaves\<close>

text \<open>A leaf is a regular file or a free place.\<close>

definition leaf :: "node option \<Rightarrow> bool" where
  "leaf x \<longleftrightarrow> (\<forall>nd. x = Some nd \<longrightarrow> (\<exists>c m. nd = File c m))"

lemma leaf_simps [simp]: "leaf None" "leaf (Some (File c m))" "\<not> leaf (Some (Dir m))" "\<not> leaf (Some (Link t))"
  by (auto simp: leaf_def)

lemma leafE [elim]: "leaf x \<Longrightarrow> (x = None \<Longrightarrow> P) \<Longrightarrow> (\<And>c m. x = Some (File c m) \<Longrightarrow> P) \<Longrightarrow> P"
  by (cases x) (auto simp: leaf_def)

definition leaf_change :: "string list set \<Rightarrow> fs \<Rightarrow> fs \<Rightarrow> bool" where
  "leaf_change P fs fs' \<longleftrightarrow> (\<forall>q. fs' q = fs q \<or> q \<in> P \<and> leaf (fs q) \<and> leaf (fs' q))"

lemma leaf_change_refl [simp, intro]: "leaf_change P fs fs"
  by (simp add: leaf_change_def)

lemma leaf_change_trans: "leaf_change P a b \<Longrightarrow> leaf_change P b c \<Longrightarrow> leaf_change P a c"
  unfolding leaf_change_def by metis

lemma leaf_change_dir: "leaf_change P fs fs' \<Longrightarrow> is_dir fs' q \<longleftrightarrow> is_dir fs q"
  unfolding leaf_change_def is_dir_def by (metis leaf_simps(3))

lemma leaf_change_leaf: "leaf_change P fs fs' \<Longrightarrow> leaf (fs' q) \<longleftrightarrow> leaf (fs q)"
  unfolding leaf_change_def by metis

lemma leaf_change_upd: "q \<in> P \<Longrightarrow> leaf (fs q) \<Longrightarrow> leaf x \<Longrightarrow> leaf_change P fs (fs(q := x))"
  by (simp add: leaf_change_def)

text \<open>Directories and links stay, so a walk that ends in a directory stays too.\<close>

definition keeps :: "fs \<Rightarrow> fs \<Rightarrow> bool" where
  "keeps fs fs' \<longleftrightarrow> (\<forall>q nd. fs q = Some nd \<longrightarrow> (\<forall>c m. nd \<noteq> File c m) \<longrightarrow> fs' q = Some nd)"

lemma keeps_dirs_added: "dirs_added fs fs' \<Longrightarrow> keeps fs fs'"
  by (simp add: keeps_def dirs_added_Some)

lemma keeps_leaf_change: "leaf_change P fs fs' \<Longrightarrow> keeps fs fs'"
  unfolding keeps_def leaf_change_def leaf_def by metis

lemma keeps_trans: "keeps a b \<Longrightarrow> keeps b c \<Longrightarrow> keeps a c"
  unfolding keeps_def by blast

lemma walk_keeps:
  "walk conf base fs n dest rest = Inr (d, Some (Dir m)) \<Longrightarrow> keeps fs fs' \<Longrightarrow>
   walk conf base fs' n dest rest = Inr (d, Some (Dir m))"
proof (induction conf base fs n dest rest rule: walk.induct)
  case (2 conf base fs n dest p rest)
  note kept = 2(7) [unfolded keeps_def, rule_format]
  show ?case
  proof (cases "p = [] \<or> p = ''.'' \<or> p = ''..''")
    case True
    then show ?thesis using 2(1,2,6,7) by (auto simp: walk.simps(2) split: if_splits)
  next
    case False
    then obtain x where x: "fs (base @ dest @ [p]) = Some x"
      using 2(6) by (auto simp: walk.simps(2) split: option.splits if_splits)
    moreover have "\<forall>c k. x \<noteq> File c k" using 2(6) False x by (auto simp: walk.simps(2) split: if_splits)
    ultimately have x': "fs' (base @ dest @ [p]) = Some x" by (intro kept) auto
    show ?thesis
      using 2(3-7) False x x' by (cases x) (auto simp: walk.simps(2) split: if_splits)
  qed
qed (auto simp: keeps_def)

lemma openWorkspaceRoot_keeps:
  "openWorkspaceRoot fs cwd root = Inr h \<Longrightarrow> keeps fs fs' \<Longrightarrow> openWorkspaceRoot fs' cwd root = Inr h"
proof -
  assume "openWorkspaceRoot fs cwd root = Inr h" "keeps fs fs'"
  moreover define start where "start = (if is_abs root then [] else (case cwd of None \<Rightarrow> [] | Some w \<Rightarrow> path_parts w))"
  ultimately obtain m where "walk False [] fs maxKernelLinks start (split_char slash root) = Inr (h, Some (Dir m))"
    unfolding openWorkspaceRoot_def start_def [symmetric] by (auto split: sum.splits option.splits node.splits prod.splits)
  from walk_keeps [OF this \<open>keeps fs fs'\<close>] show ?thesis
    unfolding openWorkspaceRoot_def start_def [symmetric] by simp
qed

section \<open>Places reached without links\<close>

text \<open>\<open>sits fs base ps\<close>: every element of the path but the last is a directory below the base.\<close>

definition sits :: "fs \<Rightarrow> string list \<Rightarrow> string list \<Rightarrow> bool" where
  "sits fs base ps \<longleftrightarrow> ps \<noteq> [] \<and> (\<forall>p \<in> set ps. good_part p) \<and> (\<forall>k < length ps. is_dir fs (base @ take k ps))"

lemma walk_down:
  assumes "\<forall>k < length ps. is_dir fs (base @ dest @ take k ps)" and "\<forall>p \<in> set ps. good_part p"
    and "\<And>t. fs (base @ dest @ ps) \<noteq> Some (Link t)"
  shows "walk conf base fs n dest ps = Inr (dest @ ps, fs (base @ dest @ ps))"
  using assms
proof (induction ps arbitrary: dest)
  case (Cons p ps)
  have p: "p \<noteq> []" "p \<noteq> ''.''" "p \<noteq> ''..''" using Cons.prems(2) by (auto simp: good_part_def)
  show ?case
  proof (cases "ps = []")
    case True
    then show ?thesis using p Cons.prems(3) [unfolded True]
      by (auto simp: walk.simps(2) split: option.split node.split)
  next
    case False
    then have "is_dir fs (base @ dest @ [p])" using Cons.prems(1) [rule_format, of 1] by (cases ps) auto
    then obtain m where "fs (base @ dest @ [p]) = Some (Dir m)" by (auto simp: is_dir_def)
    moreover have "\<forall>k < length ps. is_dir fs (base @ (dest @ [p]) @ take k ps)"
    proof (intro allI impI)
      fix k
      assume "k < length ps"
      then show "is_dir fs (base @ (dest @ [p]) @ take k ps)" using Cons.prems(1) [rule_format, of "Suc k"] by simp
    qed
    ultimately show ?thesis using Cons.IH [of "dest @ [p]"] Cons.prems(2,3) p by (simp add: walk.simps(2))
  qed
qed simp

lemma sits_split: "sits fs base ps \<Longrightarrow> split_char slash (join_char slash ps) = ps"
  by (rule split_join) (auto simp: sits_def good_part_def)

lemma sits_rel: "sits fs base ps \<Longrightarrow> \<not> is_abs (join_char slash ps)"
  by (cases ps) (auto simp: sits_def dest: not_abs_join)

lemma sits_root_walk:
  "sits fs base ps \<Longrightarrow> leaf (fs (base @ ps)) \<Longrightarrow> root_walk fs base (join_char slash ps) = Inr (ps, fs (base @ ps))"
  using walk_down [of ps fs base "[]" True rootMaxSymlinks]
  by (auto simp: root_walk_def sits_rel sits_split) (auto simp: sits_def)

lemma sits_parent:
  assumes "sits fs base ps"
  shows "Root_parent fs base (join_char slash ps) = Inr ps"
proof -
  have ne: "ps \<noteq> []" using assms by (simp add: sits_def)
  have dir: "is_dir fs (base @ butlast ps)"
    using assms ne by (auto simp: sits_def butlast_conv_take)
  have "is_dir fs (base @ [] @ take k (butlast ps))" if "k < length (butlast ps)" for k
    using assms that by (auto simp: sits_def butlast_conv_take min_def split: if_splits)
  moreover have "\<forall>p \<in> set (butlast ps). good_part p" using assms by (auto simp: sits_def dest: in_set_butlastD)
  ultimately have "walk True base fs rootMaxSymlinks [] (butlast ps) = Inr ([] @ butlast ps, fs (base @ [] @ butlast ps))"
    using dir by (intro walk_down) (auto simp: is_dir_def)
  then show ?thesis using assms dir ne
    by (auto simp: Root_parent_def sits_rel sits_split in_dir_def is_dir_def)
qed

lemma sits_leaf_change: "leaf_change P fs fs' \<Longrightarrow> sits fs' base ps \<longleftrightarrow> sits fs base ps"
  by (simp add: sits_def leaf_change_dir)

text \<open>The operations on a place that is reached without links.\<close>

lemma Root_Remove_at:
  assumes "sits fs base ps" and "leaf (fs (base @ ps))" and "\<And>e. fault \<noteq> OpenFails e"
  shows "Root_Remove io fault fs base (join_char slash ps) =
    (fs(base @ ps := None), if fs (base @ ps) = None then Some ErrNotExist else None)"
  using assms(2)
proof (rule leafE)
  assume "fs (base @ ps) = None"
  moreover from this have "fs(base @ ps := None) = fs" by (rule fun_upd_idem)
  ultimately show ?thesis using assms(3) sits_parent [OF assms(1)] by (auto simp: Root_Remove_def split: write_fault.split)
qed (use assms(3) sits_parent [OF assms(1)] in \<open>auto simp: Root_Remove_def split: write_fault.split\<close>)

lemma Root_OpenFile_at:
  assumes "sits fs base ps" and "leaf (fs (base @ ps))" and "\<And>e. fault \<noteq> OpenFails e"
  shows "Root_OpenFile io fault False perm content fs base (join_char slash ps) =
    (fs(base @ ps \<mapsto> File (written fault content)
       (case fs (base @ ps) of Some (File c m) \<Rightarrow> m | _ \<Rightarrow> io_umask io perm)), write_error fault)"
  using assms(2,3) sits_root_walk [OF assms(1,2)]
  by (auto simp: Root_OpenFile_def split: write_fault.split)

lemma Root_OpenFile_excl:
  assumes "sits fs base ps" and "\<And>e. fault \<noteq> OpenFails e"
  shows "Root_OpenFile io fault True perm content fs base (join_char slash ps) =
    (if fs (base @ ps) \<noteq> None then (fs, Some ErrExist)
     else (fs(base @ ps \<mapsto> File (written fault content) (io_umask io perm)), write_error fault))"
  using assms(2) sits_parent [OF assms(1)]
  by (auto simp: Root_OpenFile_def split: write_fault.split)

lemma root_mkdirs_down:
  assumes "\<forall>k \<le> length ps. is_dir fs (base @ dest @ take k ps)" and "\<forall>p \<in> set ps. good_part p"
  shows "root_mkdirs io perm leads base fs n dest ps = (fs, None)"
  using assms
proof (induction ps arbitrary: dest)
  case (Cons p ps)
  have p: "p \<noteq> []" "p \<noteq> ''.''" "p \<noteq> ''..''" using Cons.prems(2) by (auto simp: good_part_def)
  have "is_dir fs (base @ dest @ [p])" using Cons.prems(1) [rule_format, of 1] by simp
  then obtain m where "fs (base @ dest @ [p]) = Some (Dir m)" by (auto simp: is_dir_def)
  moreover have "\<forall>k \<le> length ps. is_dir fs (base @ (dest @ [p]) @ take k ps)"
  proof (intro allI impI)
    fix k
    assume "k \<le> length ps"
    then show "is_dir fs (base @ (dest @ [p]) @ take k ps)" using Cons.prems(1) [rule_format, of "Suc k"] by simp
  qed
  ultimately show ?case using Cons.IH [of "dest @ [p]"] Cons.prems(2) p by (simp add: root_mkdirs.simps(2))
qed simp


lemma Dir_path_join:
  assumes "ps \<noteq> []" and "\<forall>p \<in> set ps. good_part p"
  shows "Dir_path (join_char slash ps) = (if butlast ps = [] then ''.'' else join_char slash (butlast ps))"
proof -
  have join: "join_char slash ps = (if butlast ps = [] then [] else join_char slash (butlast ps) @ [slash]) @ last ps"
    using assms(1) by (induction ps rule: join_char.induct) auto
  have "slash \<notin> set (last ps)" using assms by (auto simp: good_part_def)
  then have "dropWhile (\<lambda>c. c \<noteq> slash) (rev (last ps) @ t) = dropWhile (\<lambda>c. c \<noteq> slash) t" for t
    by (intro dropWhile_append2) auto
  then have cut: "rev (dropWhile (\<lambda>c. c \<noteq> slash) (rev (join_char slash ps))) =
      (if butlast ps = [] then [] else join_char slash (butlast ps) @ [slash])"
    by (subst join) simp
  show ?thesis
  proof (cases "butlast ps = []")
    case True
    then show ?thesis using cut by (simp add: Dir_path_def Clean_def)
  next
    case False
    have good: "\<forall>p \<in> set (butlast ps). good_part p" using assms(2) by (auto dest: in_set_butlastD)
    have "\<not> is_abs (join_char slash (butlast ps))" using False good by (cases "butlast ps") (auto dest: not_abs_join)
    moreover have "join_char slash (butlast ps) \<noteq> []"
      using False good by (cases "butlast ps"; cases "tl (butlast ps)") (auto simp: good_part_def)
    ultimately have na: "\<not> is_abs (join_char slash (butlast ps) @ [slash])"
      by (cases "join_char slash (butlast ps)") (auto simp: is_abs_def has_prefix_def)
    have "split_char slash (join_char slash (butlast ps) @ [slash]) = butlast ps @ [[]]"
      using split_concat [of slash "join_char slash (butlast ps)" "[]"] split_join [OF False, of slash] good
      by (auto simp: good_part_def)
    then have "path_parts (join_char slash (butlast ps) @ [slash]) = butlast ps"
      using clean_good [OF good, of False "[]"] na by (simp add: path_parts_def clean_parts_def)
    then show ?thesis using cut False na by (simp add: Dir_path_def Clean_def)
  qed
qed

lemma Root_MkdirAll_at:
  assumes "sits fs base ps"
  shows "Root_MkdirAll io perm fs base (Dir_path (join_char slash ps)) = (fs, None)"
proof -
  have ps: "ps \<noteq> []" "\<forall>p \<in> set ps. good_part p" using assms by (auto simp: sits_def)
  show ?thesis
  proof (cases "butlast ps = []")
    case True
    then show ?thesis
      using Dir_path_join [OF ps] by (simp add: Root_MkdirAll_def root_mkdirs.simps is_abs_def has_prefix_def)
  next
    case False
    have good: "\<forall>p \<in> set (butlast ps). good_part p" using ps(2) by (auto dest: in_set_butlastD)
    have "\<not> is_abs (join_char slash (butlast ps))" using False good by (cases "butlast ps") (auto dest: not_abs_join)
    moreover have "split_char slash (join_char slash (butlast ps)) = butlast ps"
      using good by (intro split_join [OF False]) (auto simp: good_part_def)
    moreover have "is_dir fs (base @ [] @ take k (butlast ps))" if "k \<le> length (butlast ps)" for k
      using assms that ps(1) by (cases ps rule: rev_cases) (auto simp: sits_def)
    ultimately show ?thesis
      using Dir_path_join [OF ps] False root_mkdirs_down [of "butlast ps" fs base "[]"] good
      by (simp add: Root_MkdirAll_def)
  qed
qed

end
