(* ===== verification/PatchPlan.thy ===== *)
theory PatchPlan
  imports PatchFiles
begin

text \<open>
  What planning a patch does to the file system and what it promises of the planned edits, when no
  symbolic link is met on the way to an edited file.
\<close>

section \<open>Paths of edits\<close>

lemma foldl_clean_ups:
  "foldl (clean_step False) (replicate j ''..'') (replicate k ''..'') = replicate (k + j) ''..''"
proof (induction k arbitrary: j)
  case (Suc k)
  have "clean_step False (replicate j ''..'') ''..'' = replicate (Suc j) ''..''"
    by (cases j) (simp_all add: clean_step_def)
  then show ?case using Suc.IH [of "Suc j"] by simp
qed simp

lemma good_part_up: "slash \<notin> set ''..''"
  by simp

lemma ups_no_slash:
  assumes "\<forall>q \<in> set ns. good_part q"
  shows "\<forall>p \<in> set (replicate k ''..'' @ ns). slash \<notin> set p"
proof
  fix p
  assume "p \<in> set (replicate k ''..'' @ ns)"
  then have "p = ''..'' \<or> p \<in> set ns" by simp blast
  then show "slash \<notin> set p" using assms by (metis good_part_def good_part_up)
qed

text \<open>A cleaned relative path other than a dot is the joined list of its elements.\<close>

lemma logicalPath_parts:
  assumes "rel = logicalPath s" and "rel \<noteq> ''.''" and "\<not> is_abs rel"
  shows "rel = join_char slash (path_parts rel)" and "path_parts rel \<noteq> []" and "path_parts rel = path_parts (trim_space s)"
proof -
  let ?t = "trim_space s"
  have t: "?t \<noteq> []" "rel = Clean ?t" using assms(1,2) by (auto simp: logicalPath_def Let_def)
  then have na: "\<not> is_abs ?t" using assms(3) by (auto simp: Clean_def)
  then have ne: "path_parts ?t \<noteq> []" and rel: "rel = join_char slash (path_parts ?t)"
    using t assms(2) by (auto simp: Clean_def split: if_splits)
  obtain k ns where shape: "path_parts ?t = replicate k ''..'' @ ns" "\<forall>p \<in> set ns. good_part p"
    by (rule path_parts_shape)
  have "split_char slash rel = path_parts ?t"
    unfolding rel using ups_no_slash [OF shape(2), of k] shape(1) by (intro split_join [OF ne]) simp
  then have "path_parts rel = rev (foldl (clean_step False) [] (replicate k ''..'' @ ns))"
    using assms(3) shape(1) by (simp add: path_parts_def clean_parts_def)
  also have "\<dots> = path_parts ?t"
    using foldl_clean_ups [of 0 k] clean_good [OF shape(2)] shape(1) by simp
  finally show "path_parts rel = path_parts ?t" .
  then show "rel = join_char slash (path_parts rel)" "path_parts rel \<noteq> []" using rel ne by simp_all
qed

section \<open>Paths without links\<close>

definition link_free :: "fs \<Rightarrow> string list \<Rightarrow> bool" where
  "link_free fs ps \<longleftrightarrow> (\<forall>k t. fs (take k ps) \<noteq> Some (Link t))"

lemma link_free_dirs_added: "dirs_added fs fs' \<Longrightarrow> link_free fs ps \<Longrightarrow> link_free fs' ps"
  unfolding link_free_def using dirs_added_leaf by blast

lemma walk_link_free:
  assumes "walk conf base fs n dest ps = Inr (d, nd)" and "\<forall>k t. fs (base @ dest @ take k ps) \<noteq> Some (Link t)"
    and "\<forall>p \<in> set ps. good_part p"
  shows "d = dest @ ps \<and> nd = fs (base @ dest @ ps) \<and> (\<forall>k < length ps. 0 < k \<longrightarrow> is_dir fs (base @ dest @ take k ps))"
  using assms
proof (induction ps arbitrary: dest)
  case (Cons p ps)
  have p: "p \<noteq> []" "p \<noteq> ''.''" "p \<noteq> ''..''" using Cons.prems(3) by (auto simp: good_part_def)
  have nl: "fs (base @ dest @ [p]) \<noteq> Some (Link t)" for t using Cons.prems(2) [rule_format, of 1] by simp
  show ?case
  proof (cases "\<exists>m. fs (base @ dest @ [p]) = Some (Dir m)")
    case True
    then have "walk conf base fs n (dest @ [p]) ps = Inr (d, nd)" using Cons.prems(1) p by (auto simp: walk.simps(2))
    moreover have "\<forall>k t. fs (base @ (dest @ [p]) @ take k ps) \<noteq> Some (Link t)"
      using Cons.prems(2) [rule_format, of "Suc _"] by simp
    ultimately have IH: "d = (dest @ [p]) @ ps" "nd = fs (base @ (dest @ [p]) @ ps)"
        "\<And>k. k < length ps \<Longrightarrow> 0 < k \<Longrightarrow> is_dir fs (base @ (dest @ [p]) @ take k ps)"
      using Cons.IH [of "dest @ [p]"] Cons.prems(3) by simp_all
    have "is_dir fs (base @ dest @ take k (p # ps))" if k: "k < length (p # ps)" "0 < k" for k
    proof (cases "k = 1")
      case False
      then show ?thesis using IH(3) [of "k - 1"] k by (auto simp: take_Cons')
    qed (use True in \<open>simp add: is_dir_def\<close>)
    then show ?thesis using IH by simp
  next
    case False
    then show ?thesis using Cons.prems(1) p nl
      by (auto simp: walk.simps(2) split: option.splits node.splits if_splits)
  qed
qed auto

lemma walk_abs: "\<forall>p \<in> set ps. good_part p \<Longrightarrow>
  walk conf base fs n [] (split_char slash (abs_path ps)) = walk conf base fs n [] ps"
  using split_abs_path [of ps] by (cases "ps = []") (auto simp: walk.simps good_part_def)

lemma Stat_link_free:
  assumes "Stat fs (abs_path ps) = Inr nd" and "link_free fs ps" and "\<forall>p \<in> set ps. good_part p"
  shows "fs ps = Some nd"
  using assms walk_link_free [of False "[]" fs maxKernelLinks "[]" ps]
  by (auto simp: Stat_def walk_abs link_free_def split: sum.splits option.splits)

lemma EvalSymlinks_link_free:
  assumes "EvalSymlinks fs (abs_path ps) = Inr t" and "link_free fs ps" and "\<forall>p \<in> set ps. good_part p"
  shows "t = abs_path ps"
  using assms walk_link_free [of False "[]" fs maxEvalLinks "[]" ps]
  by (auto simp: EvalSymlinks_def walk_abs link_free_def split: sum.splits option.splits)

lemma link_free_take: "link_free fs ps \<Longrightarrow> link_free fs (take k ps)"
  by (simp add: link_free_def)

lemma link_free_prefix: "link_free fs (ps @ qs) \<Longrightarrow> link_free fs ps"
  using link_free_take [of fs "ps @ qs" "length ps"] by simp

lemma Lstat_link_free:
  assumes "link_free fs ps" and "\<forall>p \<in> set ps. good_part p" and "fs_wf fs"
  shows "fs ps = Some nd \<Longrightarrow> Lstat fs (abs_path ps) = Inr nd"
    and "Lstat fs (abs_path ps) = Inr nd \<Longrightarrow> fs ps = Some nd"
proof -
  have good: "\<forall>p \<in> set (butlast ps). good_part p" using assms(2) by (auto dest: in_set_butlastD)
  {
    assume nd: "fs ps = Some nd"
    show "Lstat fs (abs_path ps) = Inr nd"
    proof (cases "ps = []")
      case True
      then show ?thesis using nd assms(2) path_parts_abs_path [of "[]"] by (simp add: Lstat_def in_dir_def)
    next
      case False
      then have "is_dir fs (butlast ps)" using fs_wf_prefix [OF assms(3), of "butlast ps" "[last ps]"] nd by simp
      then obtain m where m: "fs ([] @ [] @ butlast ps) = Some (Dir m)" by (auto simp: is_dir_def)
      have "walk False [] fs maxKernelLinks [] (butlast ps) = Inr ([] @ butlast ps, Some (Dir m))"
        by (rule walk_real [OF assms(3) m _ good]) simp
      then show ?thesis using nd False by (simp add: Lstat_def path_parts_abs_path [OF assms(2)] in_dir_def)
    qed
  }
  {
    assume ls: "Lstat fs (abs_path ps) = Inr nd"
    then obtain q where q: "in_dir False [] fs maxKernelLinks ps = Inr q" "fs q = Some nd"
      by (auto simp: Lstat_def path_parts_abs_path [OF assms(2)] split: sum.splits option.splits)
    show "fs ps = Some nd"
    proof (cases "ps = []")
      case False
      then obtain d m where w: "walk False [] fs maxKernelLinks [] (butlast ps) = Inr (d, Some (Dir m))" "q = d @ [last ps]"
        using q(1) by (auto simp: in_dir_def split: sum.splits option.splits node.splits)
      have "d = [] @ butlast ps \<and> Some (Dir m) = fs ([] @ [] @ butlast ps) \<and>
          (\<forall>k < length (butlast ps). 0 < k \<longrightarrow> is_dir fs ([] @ [] @ take k (butlast ps)))"
        using assms(1) by (intro walk_link_free [OF w(1) _ good]) (simp add: link_free_def butlast_conv_take)
      then show ?thesis using w(2) q(2) False by simp
    qed (use q in \<open>simp add: in_dir_def\<close>)
  }
qed

lemma ReadFile_link_free:
  assumes "ReadFile_os fs (abs_path ps) = Inr c" and "link_free fs ps" and "\<forall>p \<in> set ps. good_part p"
  obtains m where "fs ps = Some (File c m)"
  using assms Stat_link_free [of fs ps] by (auto simp: ReadFile_os_def split: sum.splits node.splits)

section \<open>Planning only adds directories\<close>

lemma path_parts_no_slash: "\<forall>p \<in> set (path_parts s). slash \<notin> set p"
  by (rule path_parts_shape [of s]) (use ups_no_slash in metis)

lemma ensureParentDir_adds:
  assumes "fs_wf fs" and "ensureParentDir io fs rootReal rel = (fs', err)"
  shows "fs_wf fs' \<and> dirs_added fs fs'"
proof (cases "fs' = fs")
  case False
  then obtain perm rps e where "\<forall>p \<in> set rps. slash \<notin> set p" "MkdirAll_os io perm fs rps = (fs', e)"
    using assms(2) path_parts_no_slash
    by (auto simp: ensureParentDir_def Let_def split: if_splits sum.splits prod.splits option.splits)
      (metis set_rev)+
  then show ?thesis using MkdirAll_os_adds [OF assms(1)] by blast
qed (use assms(1) in simp)

lemma plan_edit_adds:
  assumes "fs_wf fs" and "plan_edit io fs root rootReal edit rel action = (fs', r)"
  shows "fs_wf fs' \<and> dirs_added fs fs'"
proof (cases "fs' = fs")
  case False
  then obtain err where "ensureParentDir io fs rootReal rel = (fs', err)"
    using assms(2)
    by (auto simp: plan_edit_def Let_def split: if_splits sum.splits prod.splits option.splits patch_action.splits)
  then show ?thesis by (rule ensureParentDir_adds [OF assms(1)])
qed (use assms(1) in simp)

lemma plan_edits_adds:
  assumes "fs_wf fs" and "plan_edits io fs root rootReal edits seen bytes planned = (fs', r)"
  shows "fs_wf fs' \<and> dirs_added fs fs'"
  using assms
proof (induction edits arbitrary: fs seen bytes planned)
  case (Cons e es)
  let ?rel = "logicalPath (trim_space (Edit_Path e))"
  show ?case
  proof (cases "check_edit e ?rel seen bytes")
    case (Inr action)
    obtain fs1 r1 where 1: "plan_edit io fs root rootReal e ?rel action = (fs1, r1)" by fastforce
    note adds = plan_edit_adds [OF Cons.prems(1) 1]
    show ?thesis
    proof (cases r1)
      case (Inr p)
      then have rest: "plan_edits io fs1 root rootReal es (?rel # seen) (bytes + int (length (Edit_NewText e))) (planned @ [p]) = (fs', r)"
        using Cons.prems(2) 1 \<open>check_edit e ?rel seen bytes = Inr action\<close> by (simp add: Let_def)
      have "fs_wf fs' \<and> dirs_added fs1 fs'" by (rule Cons.IH [OF conjunct1 [OF adds] rest])
      then show ?thesis using adds dirs_added_trans by blast
    qed (use Cons.prems(2) 1 Inr adds in \<open>simp add: Let_def\<close>)
  qed (use Cons.prems in \<open>simp add: Let_def\<close>)
qed simp

section \<open>What is planned\<close>

abbreviation pe_place :: "string list \<Rightarrow> plannedEdit \<Rightarrow> string list" where
  "pe_place base p \<equiv> base @ path_parts (pe_rel p)"

definition planned_ok :: "fs \<Rightarrow> string list \<Rightarrow> plannedEdit \<Rightarrow> bool" where
  "planned_ok fs base p \<longleftrightarrow>
     pe_rel p = join_char slash (path_parts (pe_rel p)) \<and> path_parts (pe_rel p) \<noteq> [] \<and>
     (\<forall>q \<in> set (pe_place base p). good_part q) \<and> pe_abs p = abs_path (pe_place base p) \<and> link_free fs (pe_place base p) \<and>
     (if pe_action p = ACreate then fs (pe_place base p) = None \<or> is_dir fs (pe_place base p)
      else \<exists>m. fs (pe_place base p) = Some (File (pe_oldContent p) m))"

lemma planned_ok_dirs_added: "dirs_added fs fs' \<Longrightarrow> planned_ok fs base p \<Longrightarrow> planned_ok fs' base p"
proof -
  assume add: "dirs_added fs fs'" and ok: "planned_ok fs base p"
  let ?q = "pe_place base p"
  have "link_free fs' ?q" using link_free_dirs_added [OF add] ok by (simp add: planned_ok_def)
  moreover have "fs' ?q = None \<or> is_dir fs' ?q" if "fs ?q = None \<or> is_dir fs ?q"
    using add [unfolded dirs_added_def, rule_format, of ?q] that dirs_added_dir [OF add, of ?q] by auto
  moreover have "fs' ?q = Some (File c m)" if "fs ?q = Some (File c m)" for c m
    using dirs_added_Some [OF add that] .
  ultimately show ?thesis using ok unfolding planned_ok_def by (auto split: if_splits)
qed

abbreviation edit_rel :: "FileEdit \<Rightarrow> string" where
  "edit_rel e \<equiv> logicalPath (trim_space (Edit_Path e))"

lemma plan_edit_ok:
  assumes wf: "fs_wf fs" and root: "is_abs root" "Clean root = root" and ev: "EvalSymlinks fs root = Inr (abs_path base)"
    and good: "\<forall>q \<in> set base. good_part q" and rel: "rel = edit_rel e" "rel \<noteq> ''.''" "rel \<noteq> []"
    and lf: "link_free fs (base @ path_parts rel)"
    and plan: "plan_edit io fs root rootReal e rel action = (fs', Inr p)"
  shows "planned_ok fs' base p \<and> pe_rel p = rel"
proof -
  obtain target where t: "ResolveUnderRoot fs (io_cwd io) root rel = Inr target"
    using plan by (auto simp: plan_edit_def split: sum.splits)
  obtain rootAbs rp cp where r: "Abs_path (io_cwd io) root = Some rootAbs" "EvalSymlinks fs rootAbs = Inr (abs_path rp)"
    "target = abs_path (rp @ cp)" "\<forall>q \<in> set (rp @ cp). good_part q"
    and c: "if rel = [] \<or> rel = ''.'' then cp = []
      else \<not> is_abs rel \<and> (\<forall>q \<in> set (path_parts rel). good_part q) \<and>
        (if isl (Lstat fs (abs_path (rp @ path_parts rel))) then cp = path_parts rel
         else EvalSymlinks fs (abs_path (rp @ path_parts rel)) = Inr target)"
    by (rule resolve_cases [OF wf t])
  have "rootAbs = root" using r(1) root by (simp add: Abs_path_def)
  then have rp: "rp = base" using r(2,4) ev good abs_path_inject [of rp base] by auto
  have gp: "\<not> is_abs rel" "\<forall>q \<in> set (base @ path_parts rel). good_part q" using c rel(2,3) good by auto
  note parts = logicalPath_parts [OF rel(1,2) gp(1)]
  have target: "target = abs_path (base @ path_parts rel)"
    using c rel(2,3) rp r(3) EvalSymlinks_link_free [OF _ lf gp(2)] by (auto split: if_splits)
  note Ls = Lstat_link_free [OF lf gp(2) wf]
  have other: "planned_ok fs base p \<and> pe_rel p = rel" if "fs' = fs" "action \<noteq> ACreate"
  proof -
    have "pe_rel p = rel \<and> pe_abs p = target \<and> pe_action p = action \<and> ReadFile_os fs target = Inr (pe_oldContent p)"
      using plan t that by (auto simp: plan_edit_def Let_def split: if_splits sum.splits patch_action.splits)
    moreover from this obtain m where "fs (base @ path_parts rel) = Some (File (pe_oldContent p) m)"
      using ReadFile_link_free [OF _ lf gp(2)] target by blast
    ultimately show ?thesis using that(2) parts(1,2) gp lf target by (simp add: planned_ok_def)
  qed
  show ?thesis
  proof (cases "action = ACreate")
    case True
    have p: "pe_rel p = rel \<and> pe_abs p = target \<and> pe_action p = ACreate \<and> isl (Lstat fs target)"
      using plan t True by (auto simp: plan_edit_def Let_def split: if_splits sum.splits prod.splits option.splits)
    have "fs (base @ path_parts rel) = None" using p Ls(1) target by (cases "fs (base @ path_parts rel)") auto
    then have "planned_ok fs base p" using p parts(1,2) gp lf target by (simp add: planned_ok_def)
    then show ?thesis using planned_ok_dirs_added plan_edit_adds [OF wf plan] p by blast
  next
    case False
    then have "fs' = fs"
      using plan t by (auto simp: plan_edit_def Let_def split: if_splits sum.splits patch_action.splits)
    with other False show ?thesis by blast
  qed
qed


lemma EvalSymlinks_keeps:
  assumes "EvalSymlinks fs s = Inr (abs_path base)" and "fs_wf fs" and "is_dir fs base"
    and "\<forall>q \<in> set base. good_part q" and "keeps fs fs'"
  shows "EvalSymlinks fs' s = Inr (abs_path base)"
proof -
  obtain d nd where w: "walk False [] fs maxEvalLinks [] (split_char slash s) = Inr (d, Some nd)" "abs_path d = abs_path base"
    using assms(1) by (auto simp: EvalSymlinks_def split: sum.splits option.splits)
  have "Some nd = fs ([] @ d) \<and> (\<forall>l. Some nd \<noteq> Some (Link l)) \<and> (\<forall>p \<in> set d. good_part p) \<and>
      (d \<noteq> [] \<longrightarrow> is_dir fs ([] @ butlast d))"
    by (rule walk_end [OF w(1) assms(2)]) (use assms(2) in \<open>auto simp: fs_wf_def is_dir_def dest: split_char_free\<close>)
  moreover from this have "d = base" using abs_path_inject [OF w(2)] assms(4) by blast
  ultimately obtain m where "nd = Dir m" "d = base" using assms(3) by (auto simp: is_dir_def)
  then show ?thesis using walk_keeps [OF _ assms(5)] w(1) by (fastforce simp: EvalSymlinks_def)
qed

lemma plan_edits_ok:
  assumes "fs_wf fs" and root: "is_abs root" "Clean root = root" and "EvalSymlinks fs root = Inr (abs_path base)"
    and good: "\<forall>q \<in> set base. good_part q" and "is_dir fs base"
    and "\<forall>e \<in> set edits. link_free fs (base @ path_parts (edit_rel e))"
    and "plan_edits io fs root rootReal edits seen bytes planned = (fs', Inr planned')"
    and "\<forall>p \<in> set planned. planned_ok fs base p" and "distinct (map pe_rel planned)" and "set (map pe_rel planned) \<subseteq> set seen"
  shows "(\<forall>p \<in> set planned'. planned_ok fs' base p) \<and> distinct (map pe_rel planned') \<and>
    map pe_rel planned' = map pe_rel planned @ map edit_rel edits"
  using assms(1,4,6-)
proof (induction edits arbitrary: fs seen bytes planned)
  case (Cons e es)
  let ?rel = "edit_rel e"
  obtain action where check: "check_edit e ?rel seen bytes = Inr action"
    using Cons.prems(5) by (auto simp: Let_def split: sum.splits)
  then have rel: "?rel \<noteq> ''.''" "?rel \<noteq> []" "?rel \<notin> set seen"
    by (auto simp: check_edit_def split: if_splits)
  obtain fs1 r1 where 1: "plan_edit io fs root rootReal e ?rel action = (fs1, r1)" by fastforce
  then obtain p where p: "r1 = Inr p" using Cons.prems(5) check by (auto simp: Let_def split: sum.splits)
  have rest: "plan_edits io fs1 root rootReal es (?rel # seen) (bytes + int (length (Edit_NewText e))) (planned @ [p]) = (fs', Inr planned')"
    using Cons.prems(5) 1 p check by (simp add: Let_def)
  have add: "fs_wf fs1" "dirs_added fs fs1" using plan_edit_adds [OF Cons.prems(1) 1] by auto
  have ok: "planned_ok fs1 base p" "pe_rel p = ?rel"
    using plan_edit_ok [OF Cons.prems(1) root Cons.prems(2) good refl rel(1,2) _ 1 [unfolded p]] Cons.prems(4) by auto
  have "(\<forall>p \<in> set planned'. planned_ok fs' base p) \<and> distinct (map pe_rel planned') \<and>
    map pe_rel planned' = map pe_rel (planned @ [p]) @ map edit_rel es"
  proof (rule Cons.IH [OF add(1) _ _ _ rest])
    show "EvalSymlinks fs1 root = Inr (abs_path base)"
      using EvalSymlinks_keeps [OF Cons.prems(2,1,3) good] keeps_dirs_added [OF add(2)] by blast
    show "is_dir fs1 base" using dirs_added_dir [OF add(2) Cons.prems(3)] .
    show "\<forall>e \<in> set es. link_free fs1 (base @ path_parts (edit_rel e))"
      using Cons.prems(4) link_free_dirs_added [OF add(2)] by simp
    show "\<forall>q \<in> set (planned @ [p]). planned_ok fs1 base q"
      using Cons.prems(6) planned_ok_dirs_added [OF add(2)] ok(1) by auto
    show "distinct (map pe_rel (planned @ [p]))" "set (map pe_rel (planned @ [p])) \<subseteq> set (?rel # seen)"
      using Cons.prems(7,8) rel(3) ok(2) by auto
  qed
  then show ?case
    by (elim conjE, intro conjI) (simp_all only: map_append list.map append_assoc append.simps ok(2))
qed simp

text \<open>Different planned paths are different places.\<close>

lemma distinct_places:
  assumes "\<forall>p \<in> set planned. planned_ok fs base p" and "distinct (map pe_rel planned)"
  shows "distinct (map (pe_place base) planned)"
proof -
  have "inj_on (pe_place base) (set planned)" if "inj_on pe_rel (set planned)"
  proof (rule inj_onI)
    fix p q
    assume pq: "p \<in> set planned" "q \<in> set planned" "pe_place base p = pe_place base q"
    then have "pe_rel p = pe_rel q" using assms(1) unfolding planned_ok_def by (metis same_append_eq)
    then show "p = q" using that pq by (auto dest: inj_onD)
  qed
  then show ?thesis using assms(2) by (simp add: distinct_map)
qed

end
