(* ===== verification/PatchProperties.thy ===== *)
theory PatchProperties
  imports PatchPlan
begin

text \<open>
  What the patch engine guarantees: a patch writes only below the workspace root, a rollback restores the
  files that the patch changed, a failed patch restores the files it had already written, and the blobs of
  every retained checkpoint are kept. Where the sources fall short of this, a theorem shows how.
\<close>

section \<open>The blob store\<close>

text \<open>
  What is relied on of SHA-256: the hexadecimal digest has the form of a blob name, and there are no
  collisions among the contents at hand.
\<close>

definition sha256_ok :: "patch_io \<Rightarrow> string set \<Rightarrow> bool" where
  "sha256_ok io S \<longleftrightarrow> (\<forall>c. isBlobName (io_sha256 io c)) \<and> inj_on (io_sha256 io) S"

definition blobs_in :: "patch_io \<Rightarrow> string set \<Rightarrow> state_dir \<Rightarrow> bool" where
  "blobs_in io S sd \<longleftrightarrow> (\<forall>n c. isBlobName n \<longrightarrow> sd_blobs sd n = Some c \<longrightarrow> c \<in> S \<and> io_sha256 io c = n)"

definition blobs_kept :: "state_dir \<Rightarrow> state_dir \<Rightarrow> bool" where
  "blobs_kept sd sd' \<longleftrightarrow> sd_store sd' = sd_store sd \<and>
     (\<forall>n c. isBlobName n \<longrightarrow> sd_blobs sd n = Some c \<longrightarrow> sd_blobs sd' n = Some c)"

lemma blobs_kept_refl [simp, intro]: "blobs_kept sd sd"
  by (simp add: blobs_kept_def)

lemma blobs_kept_trans: "blobs_kept a b \<Longrightarrow> blobs_kept b c \<Longrightarrow> blobs_kept a c"
  by (simp add: blobs_kept_def)

lemma tmp_not_blob: "isBlobName n \<Longrightarrow> \<not> isBlobName (n @ ''.tmp'')"
  by (simp add: isBlobName_def)

lemma storeBlob_kept:
  assumes "storeBlob io content sd = (sd', r)" and "\<forall>c. isBlobName (io_sha256 io c)"
  shows "blobs_kept sd sd'"
  using assms tmp_not_blob [of "io_sha256 io content"]
  by (auto simp: storeBlob_def Let_def blobs_kept_def split: blob_fault.splits if_splits)

lemma storeBlob_stored:
  assumes "storeBlob io content sd = (sd', Some b)" and "sha256_ok io S" and "blobs_in io S sd" and "content \<in> S"
  shows "b = io_sha256 io content" and "sd_blobs sd' b = Some content" and "blobs_in io S sd'"
proof -
  let ?n = "io_sha256 io content"
  have name: "isBlobName ?n" using assms(2) by (simp add: sha256_ok_def)
  have have_it: "c = content" if "sd_blobs sd ?n = Some c" for c
  proof -
    have "c \<in> S" "io_sha256 io c = ?n" using assms(3) name that by (simp_all add: blobs_in_def)
    then show ?thesis using assms(2,4) unfolding sha256_ok_def by (metis inj_onD)
  qed
  have cases: "b = ?n \<and> (sd' = sd \<and> sd_blobs sd ?n \<noteq> None \<or>
      sd' = sd\<lparr>sd_blobs := (sd_blobs sd)(?n @ ''.tmp'' := None, ?n \<mapsto> content)\<rparr>)"
    using assms(1) by (auto simp: storeBlob_def Let_def split: blob_fault.splits if_splits)
  then show "b = ?n" by simp
  show "sd_blobs sd' b = Some content" using cases have_it by auto
  show "blobs_in io S sd'" using cases assms(3,4) tmp_not_blob [OF name] by (auto simp: blobs_in_def split: if_splits)
qed

text \<open>Pruning and persisting keep the blobs of the checkpoints that stay.\<close>

lemma appendCheckpoint_ok:
  assumes "appendCheckpoint io cp sd = (sd', True)"
  obtains st cps where "loadCheckpointStore sd = Inr st" and "sd_store sd' = StoreFile \<lparr>Checkpoints = cps\<rparr>"
    and "cps = drop (length (Checkpoints st @ [cp]) - maxCheckpointsKept) (Checkpoints st @ [cp])" and "cp \<in> set cps"
    and "\<forall>c \<in> set cps. \<forall>f \<in> set (cp_Files c). loadBlob sd' (cf_Blob f) = loadBlob sd (cf_Blob f)"
proof -
  obtain st where st: "loadCheckpointStore sd = Inr st"
    using assms by (auto simp: appendCheckpoint_def split: sum.splits)
  define cps where "cps = drop (length (Checkpoints st @ [cp]) - maxCheckpointsKept) (Checkpoints st @ [cp])"
  have cps: "cps = (if length (Checkpoints st @ [cp]) > maxCheckpointsKept
      then drop (length (Checkpoints st @ [cp]) - maxCheckpointsKept) (Checkpoints st @ [cp]) else Checkpoints st @ [cp])"
    by (simp add: cps_def)
  have sd': "sd' = (pruneBlobs io \<lparr>Checkpoints = cps\<rparr> sd)\<lparr>sd_store := StoreFile \<lparr>Checkpoints = cps\<rparr>\<rparr>"
    using assms st unfolding appendCheckpoint_def cps by (auto simp: Let_def split: if_splits)
  have "loadBlob sd' (cf_Blob f) = loadBlob sd (cf_Blob f)" if "c \<in> set cps" "f \<in> set (cp_Files c)" for c f
  proof (cases "cf_Blob f = []")
    case False
    then have "cf_Blob f \<in> set (kept_blobs \<lparr>Checkpoints = cps\<rparr>)" using that by (auto simp: kept_blobs_def)
    then show ?thesis using sd' by (simp add: loadBlob_def pruneBlobs_def)
  qed (simp add: loadBlob_def isBlobName_def)
  moreover have "cp \<in> set cps"
  proof -
    have "cps \<noteq> []" "last cps = last (Checkpoints st @ [cp])" by (simp_all add: cps_def)
    then show ?thesis by (metis last_in_set last_snoc)
  qed
  moreover have "sd_store sd' = StoreFile \<lparr>Checkpoints = cps\<rparr>" using sd' by simp
  ultimately show thesis using that [OF st _ cps_def] by blast
qed

section \<open>Checkpoints\<close>

definition blob_entry_ok :: "state_dir \<Rightarrow> checkpointFile \<Rightarrow> bool" where
  "blob_entry_ok sd f \<longleftrightarrow> cf_Absent f \<or> loadBlob sd (cf_Blob f) \<noteq> None"

lemma blob_entry_kept: "blobs_kept sd sd' \<Longrightarrow> blob_entry_ok sd f \<Longrightarrow> blob_entry_ok sd' f"
  by (auto simp: blob_entry_ok_def blobs_kept_def loadBlob_def split: if_splits)

lemma snapshot_kept:
  assumes "\<forall>c. isBlobName (io_sha256 io c)" and "snapshot_files io fs ps files sd = (sd', r)"
    and "\<forall>f \<in> set files. blob_entry_ok sd f"
  shows "blobs_kept sd sd' \<and> (\<forall>files'. r = Inr files' \<longrightarrow> (\<forall>f \<in> set files'. blob_entry_ok sd' f))"
  using assms(2,3)
proof (induction ps arbitrary: files sd)
  case (Cons p ps)
  let ?entry = "\<lparr>cf_Path = pe_rel p, cf_Blob = [], cf_Absent = False, cf_Mode = 0, cf_Existed = False\<rparr>"
  show ?case
  proof (cases "Lstat fs (pe_abs p)")
    case (Inl e)
    have "snapshot_files io fs ps (files @ [?entry\<lparr>cf_Absent := True\<rparr>]) sd = (sd', r)" if "e = ErrNotExist"
      using Cons.prems(1) Inl that by (simp add: Let_def)
    then show ?thesis
      using Cons.IH [of "files @ [?entry\<lparr>cf_Absent := True\<rparr>]" sd] Cons.prems Inl
      by (cases "e = ErrNotExist") (auto simp: Let_def blob_entry_ok_def)
  next
    case (Inr info)
    show ?thesis
    proof (cases "ReadFile_os fs (pe_abs p)")
      case rd: (Inr content)
      obtain sd1 b where s: "storeBlob io content sd = (sd1, b)" by fastforce
      note kept = storeBlob_kept [OF s assms(1)]
      show ?thesis
      proof (cases b)
        case (Some n)
        let ?f = "?entry\<lparr>cf_Existed := True, cf_Mode := perm_of info, cf_Blob := n\<rparr>"
        have "n = io_sha256 io content" "sd_blobs sd1 n \<noteq> None"
          using s Some by (auto simp: storeBlob_def Let_def split: blob_fault.splits if_splits)
        then have "blob_entry_ok sd1 ?f" using assms(1) by (simp add: blob_entry_ok_def loadBlob_def)
        moreover have "snapshot_files io fs ps (files @ [?f]) sd1 = (sd', r)"
          using Cons.prems(1) Inr rd s Some by (simp add: Let_def)
        ultimately have "blobs_kept sd1 sd' \<and> (\<forall>files'. r = Inr files' \<longrightarrow> (\<forall>f \<in> set files'. blob_entry_ok sd' f))"
          using Cons.IH Cons.prems(2) blob_entry_kept [OF kept] by auto
        then show ?thesis using blobs_kept_trans [OF kept] by blast
      qed (use Cons.prems Inr rd s kept in \<open>auto simp: Let_def\<close>)
    qed (use Cons.prems Inr in \<open>auto simp: Let_def\<close>)
  qed
qed auto

text \<open>
  Every retained checkpoint can be rolled back as far as its blobs go: they are all in the blob store, and
  at most \<open>maxCheckpointsKept\<close> checkpoints are retained.
\<close>

definition checkpoints_ok :: "state_dir \<Rightarrow> bool" where
  "checkpoints_ok sd \<longleftrightarrow>
     (\<forall>st. sd_store sd = StoreFile st \<longrightarrow>
        length (Checkpoints st) \<le> maxCheckpointsKept \<and>
        (\<forall>cp \<in> set (Checkpoints st). \<forall>f \<in> set (cp_Files cp). blob_entry_ok sd f))"

lemma checkpoints_ok_kept: "blobs_kept sd sd' \<Longrightarrow> checkpoints_ok sd \<Longrightarrow> checkpoints_ok sd'"
  using blob_entry_kept [of sd sd'] by (auto simp: checkpoints_ok_def blobs_kept_def)

lemma createCheckpoint_keeps_ok:
  assumes "createCheckpoint io workspace fs planned sd = (sd', r)" and "\<forall>c. isBlobName (io_sha256 io c)"
    and "io_persist io" and "checkpoints_ok sd"
  shows "checkpoints_ok sd'"
proof -
  obtain sd1 r1 where 1: "snapshot_files io fs planned [] sd = (sd1, r1)" by fastforce
  have kept: "blobs_kept sd sd1" "\<And>files f. r1 = Inr files \<Longrightarrow> f \<in> set files \<Longrightarrow> blob_entry_ok sd1 f"
    using snapshot_kept [OF assms(2) 1] by auto
  have ok1: "checkpoints_ok sd1" by (rule checkpoints_ok_kept [OF kept(1) assms(4)])
  show ?thesis
  proof (cases r1)
    case (Inr files)
    define cp where "cp = \<lparr>cp_ID = newCheckpointID (io_random io) (io_now io), cp_Workspace = workspace,
      cp_CreatedAt = io_now io, cp_Files = files\<rparr>"
    show ?thesis
    proof (cases "\<exists>e. loadCheckpointStore sd1 = Inl e")
      case True
      then have "appendCheckpoint io cp sd1 = (sd1, False)" by (auto simp: appendCheckpoint_def)
      then show ?thesis using assms(1) 1 Inr ok1 by (simp add: createCheckpoint_def Let_def cp_def)
    next
      case False
      then obtain st0 where "loadCheckpointStore sd1 = Inr st0" by (cases "loadCheckpointStore sd1") auto
      then obtain sd2 where a: "appendCheckpoint io cp sd1 = (sd2, True)"
        using assms(3) by (auto simp: appendCheckpoint_def Let_def)
      have sd': "sd' = sd2" using assms(1) 1 Inr a by (simp add: createCheckpoint_def Let_def cp_def)
      obtain st cps where st: "loadCheckpointStore sd1 = Inr st" "sd_store sd2 = StoreFile \<lparr>Checkpoints = cps\<rparr>"
        "cps = drop (length (Checkpoints st @ [cp]) - maxCheckpointsKept) (Checkpoints st @ [cp])" "cp \<in> set cps"
        and same: "\<forall>c \<in> set cps. \<forall>f \<in> set (cp_Files c). loadBlob sd2 (cf_Blob f) = loadBlob sd1 (cf_Blob f)"
        by (rule appendCheckpoint_ok [OF a])
      have "blob_entry_ok sd1 f" if "c \<in> set cps" "f \<in> set (cp_Files c)" for c f
      proof -
        have "c = cp \<or> c \<in> set (Checkpoints st)" using that(1) st(3) by (auto dest: in_set_dropD)
        then show ?thesis
          using ok1 st(1) that(2) kept(2) [OF Inr]
          by (auto simp: checkpoints_ok_def loadCheckpointStore_def cp_def split: store_file.splits)
      qed
      then have "blob_entry_ok sd2 f" if "c \<in> set cps" "f \<in> set (cp_Files c)" for c f
        using same that by (auto simp: blob_entry_ok_def)
      then show ?thesis using st(2,3) sd' by (auto simp: checkpoints_ok_def)
    qed
  qed (use assms(1) 1 ok1 in \<open>simp add: createCheckpoint_def\<close>)
qed

lemma applyPatch_sd:
  assumes "applyPatch io s workspace root edits preview confirm (fs, sd) = ((fs', sd'), r)"
  shows "sd' = sd \<or> (\<exists>fs1 planned r1. createCheckpoint io workspace fs1 planned sd = (sd', r1))"
  using assms unfolding applyPatch_def
  by (auto simp: Let_def split: if_splits sum.splits prod.splits option.splits)


section \<open>What a checkpoint records\<close>

definition entry_ok :: "fs \<Rightarrow> state_dir \<Rightarrow> string list \<Rightarrow> plannedEdit \<Rightarrow> checkpointFile \<Rightarrow> bool" where
  "entry_ok fs sd base p f \<longleftrightarrow> cf_Path f = pe_rel p \<and>
     (case fs (pe_place base p) of
        None \<Rightarrow> cf_Absent f
      | Some (File c m) \<Rightarrow> \<not> cf_Absent f \<and> cf_Mode f = m \<and> loadBlob sd (cf_Blob f) = Some c
      | Some _ \<Rightarrow> False)"

lemma entry_ok_kept: "blobs_kept sd sd' \<Longrightarrow> entry_ok fs sd base p f \<Longrightarrow> entry_ok fs sd' base p f"
  by (auto simp: entry_ok_def blobs_kept_def loadBlob_def split: option.splits node.splits if_splits)

lemma entry_ok_leaf: "entry_ok fs sd base p f \<Longrightarrow> leaf (fs (pe_place base p))"
  by (auto simp: entry_ok_def leaf_def split: option.splits node.splits)

lemma snapshot_entry:
  assumes ok: "planned_ok fs base p" and wf: "fs_wf fs"
  shows "Lstat fs (pe_abs p) = Inr nd \<Longrightarrow> ReadFile_os fs (pe_abs p) = Inr c \<Longrightarrow>
      \<exists>m. fs (pe_place base p) = Some (File c m) \<and> perm_of nd = m"
    and "isl (Lstat fs (pe_abs p)) \<Longrightarrow> fs (pe_place base p) = None"
proof -
  have lf: "link_free fs (pe_place base p)" and good: "\<forall>q \<in> set (pe_place base p). good_part q"
    and ab: "pe_abs p = abs_path (pe_place base p)" using ok by (simp_all add: planned_ok_def)
  note L = Lstat_link_free [OF lf good wf]
  show "\<exists>m. fs (pe_place base p) = Some (File c m) \<and> perm_of nd = m"
    if nd: "Lstat fs (pe_abs p) = Inr nd" and c: "ReadFile_os fs (pe_abs p) = Inr c"
  proof -
    have "fs (pe_place base p) = Some nd" using L(2) nd ab by simp
    moreover obtain m where "fs (pe_place base p) = Some (File c m)"
      using ReadFile_link_free [OF c [unfolded ab] lf good] by blast
    ultimately have "nd = File c m" "fs (pe_place base p) = Some (File c m)" by simp_all
    then show ?thesis by (simp add: perm_of_def)
  qed
  show "fs (pe_place base p) = None" if "isl (Lstat fs (pe_abs p))"
    using L(1) that ab by (cases "fs (pe_place base p)") auto
qed

lemma snapshot_entries:
  assumes sha: "sha256_ok io S" and wf: "fs_wf fs" and S: "\<And>q c m. fs q = Some (File c m) \<Longrightarrow> c \<in> S"
    and "\<forall>p \<in> set ps. planned_ok fs base p" and "blobs_in io S sd"
    and "snapshot_files io fs ps files sd = (sd', Inr files')"
  shows "blobs_kept sd sd' \<and> blobs_in io S sd' \<and> (\<exists>new. files' = files @ new \<and> list_all2 (entry_ok fs sd' base) ps new)"
  using assms(4-)
proof (induction ps arbitrary: files sd)
  case (Cons p ps)
  let ?entry = "\<lparr>cf_Path = pe_rel p, cf_Blob = [], cf_Absent = False, cf_Mode = 0, cf_Existed = False\<rparr>"
  have ok: "planned_ok fs base p" "\<forall>p \<in> set ps. planned_ok fs base p" using Cons.prems(1) by auto
  note place = snapshot_entry [OF ok(1) wf]
  obtain sd1 f where step: "snapshot_files io fs ps (files @ [f]) sd1 = (sd', Inr files')"
    and kept: "blobs_kept sd sd1" and bi: "blobs_in io S sd1" and f: "entry_ok fs sd1 base p f"
  proof (cases "Lstat fs (pe_abs p)")
    case (Inl e)
    then have "e = ErrNotExist" "snapshot_files io fs ps (files @ [?entry\<lparr>cf_Absent := True\<rparr>]) sd = (sd', Inr files')"
      using Cons.prems(3) by (auto simp: Let_def split: if_splits)
    moreover have "entry_ok fs sd base p (?entry\<lparr>cf_Absent := True\<rparr>)" using place(2) Inl by (simp add: entry_ok_def)
    ultimately show thesis using that Cons.prems(2) by blast
  next
    case (Inr info)
    then obtain c sd1 n where c: "ReadFile_os fs (pe_abs p) = Inr c" "storeBlob io c sd = (sd1, Some n)"
      and rest: "snapshot_files io fs ps (files @ [?entry\<lparr>cf_Existed := True, cf_Mode := perm_of info, cf_Blob := n\<rparr>]) sd1 = (sd', Inr files')"
      using Cons.prems(3) by (auto simp: Let_def split: sum.splits option.splits prod.splits)
    obtain m where m: "fs (pe_place base p) = Some (File c m)" "perm_of info = m" using place(1) [OF Inr c(1)] by blast
    note stored = storeBlob_stored [OF c(2) sha Cons.prems(2) S [OF m(1)]]
    have "isBlobName n" using stored(1) sha by (simp add: sha256_ok_def)
    then have "entry_ok fs sd1 base p (?entry\<lparr>cf_Existed := True, cf_Mode := perm_of info, cf_Blob := n\<rparr>)"
      using m stored(2) by (simp add: entry_ok_def loadBlob_def)
    moreover have "blobs_kept sd sd1" using storeBlob_kept [OF c(2)] sha by (simp add: sha256_ok_def)
    ultimately show thesis using that rest stored(3) by blast
  qed
  have IH: "blobs_kept sd1 sd'" "blobs_in io S sd'"
    "\<exists>new. files' = (files @ [f]) @ new \<and> list_all2 (entry_ok fs sd' base) ps new"
    using Cons.IH [OF ok(2) bi step] by blast+
  then obtain new where "files' = files @ f # new" "list_all2 (entry_ok fs sd' base) ps new" by auto
  moreover have "entry_ok fs sd' base p f" by (rule entry_ok_kept [OF IH(1) f])
  ultimately show ?case using IH(1,2) blobs_kept_trans [OF kept] by auto
qed auto

lemma createCheckpoint_entries:
  assumes "createCheckpoint io workspace fs planned sd = (sd', Inr cp)" and "sha256_ok io S" and "fs_wf fs"
    and "\<And>q c m. fs q = Some (File c m) \<Longrightarrow> c \<in> S" and "\<forall>p \<in> set planned. planned_ok fs base p" and "blobs_in io S sd"
  obtains st cps where "loadCheckpointStore sd = Inr st" and "sd_store sd' = StoreFile \<lparr>Checkpoints = cps\<rparr>"
    and "cp \<in> set cps" and "set cps \<subseteq> insert cp (set (Checkpoints st))"
    and "list_all2 (entry_ok fs sd' base) planned (cp_Files cp)" and "cp_Workspace cp = workspace"
    and "cp_ID cp = newCheckpointID (io_random io) (io_now io)"
proof -
  obtain sd1 files where 1: "snapshot_files io fs planned [] sd = (sd1, Inr files)"
    using assms(1) by (auto simp: createCheckpoint_def split: prod.splits sum.splits)
  have cp: "cp = \<lparr>cp_ID = newCheckpointID (io_random io) (io_now io), cp_Workspace = workspace,
      cp_CreatedAt = io_now io, cp_Files = files\<rparr>" and a: "appendCheckpoint io cp sd1 = (sd', True)"
    using assms(1) 1 by (auto simp: createCheckpoint_def Let_def split: prod.splits bool.splits)
  have snap: "blobs_kept sd sd1" "list_all2 (entry_ok fs sd1 base) planned files"
    using snapshot_entries [OF assms(2-6) 1] by auto
  obtain st cps where st: "loadCheckpointStore sd1 = Inr st" "sd_store sd' = StoreFile \<lparr>Checkpoints = cps\<rparr>"
    "cps = drop (length (Checkpoints st @ [cp]) - maxCheckpointsKept) (Checkpoints st @ [cp])" "cp \<in> set cps"
    and same: "\<forall>c \<in> set cps. \<forall>f \<in> set (cp_Files c). loadBlob sd' (cf_Blob f) = loadBlob sd1 (cf_Blob f)"
    by (rule appendCheckpoint_ok [OF a])
  have "loadCheckpointStore sd = Inr st" using st(1) snap(1) by (simp add: loadCheckpointStore_def blobs_kept_def)
  moreover have "set cps \<subseteq> insert cp (set (Checkpoints st))" unfolding st(3) by (auto dest: in_set_dropD)
  moreover have "list_all2 (entry_ok fs sd' base) planned (cp_Files cp)"
  proof -
    have "entry_ok fs sd' base p f" if "f \<in> set files" "entry_ok fs sd1 base p f" for p f
    proof -
      have "loadBlob sd' (cf_Blob f) = loadBlob sd1 (cf_Blob f)"
        using same st(4) cp that(1) by (metis checkpoint.select_convs(4))
      then show ?thesis using that(2) by (simp add: entry_ok_def split: option.splits node.splits)
    qed
    then show ?thesis using snap(2) cp by (auto intro: list.rel_mono_strong)
  qed
  ultimately show thesis using that st(2,4) cp by simp
qed


section \<open>Writing the planned edits\<close>

fun write_all :: "patch_io \<Rightarrow> string list \<Rightarrow> nat \<Rightarrow> plannedEdit list \<Rightarrow> fs \<Rightarrow> fs option" where
  "write_all io base k [] fs = Some fs"
| "write_all io base k (p # ps) fs =
     (case write_edit io (io_write io k) fs base p of
        (fs, None) \<Rightarrow> write_all io base (k + 1) ps fs
      | (fs, Some e) \<Rightarrow> None)"

lemma write_edits_cases:
  assumes "write_edits io sd cp base ps applied fs = (fs', err)"
  obtains "err = None" and "write_all io base (length applied) ps fs = Some fs'"
  | ps1 p ps2 fs1 fs2 e where "ps = ps1 @ p # ps2" and "write_all io base (length applied) ps1 fs = Some fs1"
      and "write_edit io (io_write io (length applied + length ps1)) fs1 base p = (fs2, Some e)"
      and "fs' = restorePartial io sd fs2 base (applied @ ps1) cp" and "err = Some (ErrPatchFailed (pe_rel p) (cp_ID cp))"
  using assms
proof (induction ps arbitrary: applied fs thesis)
  case (Cons p ps)
  obtain fs1 e where w: "write_edit io (io_write io (length applied)) fs base p = (fs1, e)" by fastforce
  show ?case
  proof (cases e)
    case None
    then have rest: "write_edits io sd cp base ps (applied @ [p]) fs1 = (fs', err)" using Cons.prems(3) w by simp
    show ?thesis
    proof (rule Cons.IH [OF _ _ rest])
      assume "err = None" "write_all io base (length (applied @ [p])) ps fs1 = Some fs'"
      then show thesis using Cons.prems(1) w None by simp
    next
      fix ps1 q ps2 g1 g2 e
      assume h: "ps = ps1 @ q # ps2" "write_all io base (length (applied @ [p])) ps1 fs1 = Some g1"
        "write_edit io (io_write io (length (applied @ [p]) + length ps1)) g1 base q = (g2, Some e)"
        "fs' = restorePartial io sd g2 base ((applied @ [p]) @ ps1) cp" "err = Some (ErrPatchFailed (pe_rel q) (cp_ID cp))"
      show thesis
        by (rule Cons.prems(2) [of "p # ps1" q ps2 g1 g2 e]) (use h w None in simp_all)
    qed
  next
    case (Some x)
    show thesis
      by (rule Cons.prems(2) [of "[]" p ps fs fs1 x]) (use Cons.prems(3) w Some in simp_all)
  qed
qed auto

lemma link_free_leaf_change: "leaf_change P fs fs' \<Longrightarrow> link_free fs ps \<Longrightarrow> link_free fs' ps"
  unfolding link_free_def leaf_change_def by (metis leaf_simps(4))

lemma parent_sits:
  assumes "Root_parent fs base (join_char slash ps) = Inr d" and "link_free fs (base @ ps)" and "ps \<noteq> []"
    and good: "\<forall>q \<in> set ps. good_part q" and "is_dir fs base"
  shows "sits fs base ps"
proof -
  have split: "split_char slash (join_char slash ps) = ps"
    using assms(3,4) by (intro split_join) (auto simp: good_part_def)
  obtain d' m where w: "walk True base fs rootMaxSymlinks [] (butlast ps) = Inr (d', Some (Dir m))"
    using assms(1,3) by (auto simp: Root_parent_def split in_dir_def split: if_splits sum.splits option.splits node.splits)
  have nl: "\<forall>k t. fs (base @ [] @ take k (butlast ps)) \<noteq> Some (Link t)"
  proof (intro allI)
    fix k t
    have "take (length base + min k (length ps - 1)) (base @ ps) = base @ take k (butlast ps)"
      by (simp add: butlast_conv_take min.commute)
    then show "fs (base @ [] @ take k (butlast ps)) \<noteq> Some (Link t)"
      using assms(2) unfolding link_free_def by (metis append_Nil)
  qed
  have end_dir: "d' = [] @ butlast ps \<and> Some (Dir m) = fs (base @ [] @ butlast ps) \<and>
      (\<forall>k < length (butlast ps). 0 < k \<longrightarrow> is_dir fs (base @ [] @ take k (butlast ps)))"
    by (rule walk_link_free [OF w nl]) (use good in \<open>auto dest: in_set_butlastD\<close>)
  then have at: "is_dir fs (base @ butlast ps)" by (metis append_Nil is_dir_def)
  have between: "is_dir fs (base @ take k ps)" if "k < length ps - 1" "0 < k" for k
    using end_dir that by (simp add: take_butlast)
  have "is_dir fs (base @ take k ps)" if "k < length ps" for k
  proof -
    consider "k = 0" | "0 < k" "k < length ps - 1" | "k = length ps - 1" using \<open>k < length ps\<close> by linarith
    then show ?thesis using at between assms(5) by cases (auto simp: butlast_conv_take)
  qed
  then show ?thesis using assms(3) good by (simp add: sits_def)
qed

lemma file_sits:
  assumes "fs_wf fs" and "fs (base @ ps) \<noteq> None" and "ps \<noteq> []" and "\<forall>q \<in> set ps. good_part q"
  shows "sits fs base ps"
proof -
  have "is_dir fs (base @ take k ps)" if "k < length ps" for k
    using fs_wf_prefix [OF assms(1), of "base @ take k ps" "drop k ps"] assms(2) that by simp
  then show ?thesis using assms(3,4) by (simp add: sits_def)
qed

text \<open>
  One write: only the place of the edit changes, only as a leaf and without changing the mode of a file; a
  write that succeeds reaches its place without links, and one that fails before it opens the file
  changes nothing.
\<close>

lemma write_edit_effect:
  assumes ok: "planned_ok fs base p" and wf: "fs_wf fs" and dir: "is_dir fs base" and lc: "leaf_change P fs fsx"
    and P: "pe_place base p \<in> P" and w: "write_edit io fault fsx base p = (fsy, err)"
  shows "leaf_change P fsx fsy \<and> (\<forall>q. q \<noteq> pe_place base p \<longrightarrow> fsy q = fsx q) \<and>
    (\<forall>c m c' m'. fsx (pe_place base p) = Some (File c m) \<longrightarrow> fsy (pe_place base p) = Some (File c' m') \<longrightarrow> m' = m) \<and>
    (err = None \<longrightarrow> sits fs base (path_parts (pe_rel p))) \<and>
    (err \<noteq> None \<longrightarrow> (\<forall>n. fault \<noteq> WriteStops n) \<longrightarrow> fsy = fsx)"
proof -
  define ps where "ps = path_parts (pe_rel p)"
  have rel: "pe_rel p = join_char slash ps" and ne: "ps \<noteq> []" and good: "\<forall>q \<in> set ps. good_part q"
    and lf: "link_free fs (base @ ps)" using ok by (simp_all add: planned_ok_def ps_def)
  have lfx: "link_free fsx (base @ ps)" by (rule link_free_leaf_change [OF lc lf])
  have dirx: "is_dir fsx base" using leaf_change_dir [OF lc] dir by simp
  have upd: "leaf_change P fsx (fsx(base @ ps := x))" if "leaf (fsx (base @ ps))" "leaf x" for x
    using P that by (intro leaf_change_upd) (auto simp: ps_def)
  show ?thesis
  proof (cases "\<exists>e. fault = OpenFails e")
    case True
    then have "fsy = fsx" "err \<noteq> None"
      using w by (auto simp: write_edit_def Root_Remove_def Root_OpenFile_def split: patch_action.splits)
    then show ?thesis by auto
  next
    case no_fault: False
    show ?thesis
    proof (cases "pe_action p = ACreate")
      case True
      then have open_it: "Root_OpenFile io fault True 420 (pe_newContent p) fsx base (join_char slash ps) = (fsy, err)"
        using w rel by (simp add: write_edit_def)
      show ?thesis
      proof (cases "Root_parent fsx base (join_char slash ps)")
        case (Inl e)
        then have "fsy = fsx" "err \<noteq> None"
          using open_it no_fault by (auto simp: Root_OpenFile_def split: write_fault.splits)
        then show ?thesis by auto
      next
        case (Inr d)
        then have sits: "sits fsx base ps" by (rule parent_sits [OF _ lfx ne good dirx])
        then have "sits fs base ps" using sits_leaf_change [OF lc] by simp
        then show ?thesis
          using open_it Root_OpenFile_excl [OF sits, of fault] no_fault upd
          by (auto simp: ps_def write_error_def split: if_splits write_fault.splits)
      qed
    next
      case False
      then obtain c m where was: "fs (base @ ps) = Some (File c m)" using ok by (auto simp: planned_ok_def ps_def)
      then have sits: "sits fs base ps" using was file_sits [OF wf _ ne good] by simp
      then have sitsx: "sits fsx base ps" using sits_leaf_change [OF lc] by simp
      have leafx: "leaf (fsx (base @ ps))" using leaf_change_leaf [OF lc, of "base @ ps"] was by simp
      show ?thesis
      proof (cases "pe_action p = ADelete")
        case True
        then have "Root_Remove io fault fsx base (join_char slash ps) = (fsy, err)" using w rel by (simp add: write_edit_def)
        then have y: "fsy = fsx(base @ ps := None)" "err = None \<or> fsx (base @ ps) = None"
          using Root_Remove_at [OF sitsx leafx, of fault] no_fault by (auto split: if_splits)
        have "fsy = fsx" if "fsx (base @ ps) = None" using y(1) that by (simp add: fun_upd_idem)
        then show ?thesis using y sits upd [OF leafx, of None] by (auto simp: ps_def)
      next
        case rep: False
        then have "Root_OpenFile io fault False (pe_mode p) (pe_newContent p) fsx base (join_char slash ps) = (fsy, err)"
          using w rel False by (cases "pe_action p") (simp_all add: write_edit_def)
        then have y: "fsy = fsx(base @ ps \<mapsto> File (written fault (pe_newContent p))
            (case fsx (base @ ps) of Some (File c m) \<Rightarrow> m | _ \<Rightarrow> io_umask io (pe_mode p)))" "err = write_error fault"
          using Root_OpenFile_at [OF sitsx leafx, of fault] no_fault by auto
        then show ?thesis using sits upd [OF leafx, of "fsy (base @ ps)"]
          by (auto simp: ps_def write_error_def split: write_fault.splits)
      qed
    qed
  qed
qed


definition place_written :: "string list \<Rightarrow> plannedEdit list \<Rightarrow> string list set" where
  "place_written base ps = pe_place base ` set ps"

text \<open>A file that is a file before and after keeps its mode.\<close>

definition modes_kept :: "fs \<Rightarrow> fs \<Rightarrow> bool" where
  "modes_kept fs fs' \<longleftrightarrow> (\<forall>q c m c' m'. fs q = Some (File c m) \<longrightarrow> fs' q = Some (File c' m') \<longrightarrow> m' = m)"

lemma write_all_effect:
  assumes "write_all io base k ps fsx = Some fsy" and wf: "fs_wf fs" and dir: "is_dir fs base"
    and "\<forall>p \<in> set ps. planned_ok fs base p" and "distinct (map (pe_place base) ps)"
    and "leaf_change P fs fsx" and "place_written base ps \<subseteq> P"
  shows "leaf_change P fsx fsy \<and> (\<forall>q. q \<notin> place_written base ps \<longrightarrow> fsy q = fsx q) \<and>
    (\<forall>p \<in> set ps. sits fs base (path_parts (pe_rel p))) \<and> modes_kept fsx fsy"
  using assms(1,4-)
proof (induction ps arbitrary: k fsx)
  case (Cons p ps)
  obtain fs1 where w: "write_edit io (io_write io k) fsx base p = (fs1, None)"
    and rest: "write_all io base (k + 1) ps fs1 = Some fsy"
    using Cons.prems(1) by (auto split: prod.splits option.splits)
  have ok: "planned_ok fs base p" "\<forall>p \<in> set ps. planned_ok fs base p" using Cons.prems(2) by auto
  have P: "pe_place base p \<in> P" "place_written base ps \<subseteq> P" using Cons.prems(5) by (auto simp: place_written_def)
  note effect = write_edit_effect [OF ok(1) wf dir Cons.prems(4) P(1) w]
  have lc1: "leaf_change P fs fs1" using leaf_change_trans [OF Cons.prems(4)] effect by blast
  have IH: "leaf_change P fs1 fsy" "\<And>q. q \<notin> place_written base ps \<Longrightarrow> fsy q = fs1 q"
    "\<forall>p \<in> set ps. sits fs base (path_parts (pe_rel p))" "modes_kept fs1 fsy"
    using Cons.IH [OF rest ok(2) _ lc1 P(2)] Cons.prems(3) by auto
  have here: "pe_place base p \<notin> place_written base ps" using Cons.prems(3) by (simp add: place_written_def)
  have "modes_kept fsx fsy"
    unfolding modes_kept_def
  proof (intro allI impI)
    fix q c m c' m'
    assume a: "fsx q = Some (File c m)" "fsy q = Some (File c' m')"
    show "m' = m"
    proof (cases "q = pe_place base p")
      case True
      then show ?thesis using effect IH(2) [OF here] a by auto
    next
      case False
      then have "fs1 q = Some (File c m)" using effect a(1) by auto
      then show ?thesis using IH(4) a(2) by (auto simp: modes_kept_def)
    qed
  qed
  moreover have "fsy q = fsx q" if "q \<notin> place_written base (p # ps)" for q
    using IH(2) effect that by (auto simp: place_written_def)
  ultimately show ?case using effect IH(1,3) leaf_change_trans by auto
qed (auto simp: modes_kept_def)

section \<open>Restoring files\<close>

text \<open>
  A restored node: a file has its content again, and the mode it had or, when it had to be created again, the
  recorded mode under the umask; anything else is as it was.
\<close>

definition restored :: "patch_io \<Rightarrow> node option \<Rightarrow> node option \<Rightarrow> bool" where
  "restored io a b \<longleftrightarrow>
     (case a of
        Some (File c m) \<Rightarrow> \<exists>m'. b = Some (File c m') \<and> (m' = m \<or> m' = io_umask io (if m = 0 then 420 else m))
      | _ \<Rightarrow> b = a)"

lemma restored_refl [simp]: "restored io a a"
  by (auto simp: restored_def split: option.split node.split)

lemma restore_file_at:
  assumes e: "entry_ok fs sd base p f" and ok: "planned_ok fs base p" and sits: "sits fs base (path_parts (pe_rel p))"
    and lc: "leaf_change P fs fsx"
    and mode: "\<And>c m c' m'. fs (pe_place base p) = Some (File c m) \<Longrightarrow> fsx (pe_place base p) = Some (File c' m') \<Longrightarrow> m' = m"
  obtains x where "restore_file io sd base WriteFine f fsx = fsx(pe_place base p := x)"
    and "leaf x" and "restored io (fs (pe_place base p)) x"
proof -
  define ps where "ps = path_parts (pe_rel p)"
  have path: "cf_Path f = join_char slash ps" using e ok by (simp add: entry_ok_def planned_ok_def ps_def)
  have sitsx: "sits fsx base ps" using sits sits_leaf_change [OF lc] by (simp add: ps_def)
  have leafx: "leaf (fsx (base @ ps))" using entry_ok_leaf [OF e] leaf_change_leaf [OF lc] by (simp add: ps_def)
  show thesis
  proof (cases "cf_Absent f")
    case True
    then have none: "fs (base @ ps) = None" using e by (auto simp: entry_ok_def ps_def split: option.splits node.splits)
    show thesis
    proof (rule that [of None])
      show "restore_file io sd base WriteFine f fsx = fsx(pe_place base p := None)"
        using True Root_Remove_at [OF sitsx leafx, of WriteFine io] path by (simp add: restore_file_def ps_def)
      show "restored io (fs (pe_place base p)) None" using none by (simp add: ps_def restored_def)
    qed simp
  next
    case False
    then obtain c m where was: "fs (base @ ps) = Some (File c m)" "cf_Mode f = m" "loadBlob sd (cf_Blob f) = Some c"
      using e by (auto simp: entry_ok_def ps_def split: option.splits node.splits)
    let ?x = "Some (File c (case fsx (base @ ps) of Some (File c m) \<Rightarrow> m | _ \<Rightarrow> io_umask io (file_mode_or_default f)))"
    show thesis
    proof (rule that [of ?x])
      show "restore_file io sd base WriteFine f fsx = fsx(pe_place base p := ?x)"
        using False was Root_OpenFile_at [OF sitsx leafx, of WriteFine io] path
        by (simp add: restore_file_def ps_def written_def)
      show "restored io (fs (pe_place base p)) ?x"
        using leafx was mode by (auto simp: restored_def file_mode_or_default_def ps_def elim!: leafE)
    qed simp
  qed
qed

lemma restore_files_effect:
  fixes io :: patch_io
  assumes "list_all2 (entry_ok fs sd base) ps files"
    and "\<forall>p \<in> set ps. planned_ok fs base p \<and> sits fs base (path_parts (pe_rel p))"
    and "distinct (map (pe_place base) ps)" and "leaf_change P fs fsx" and "place_written base ps \<subseteq> P"
    and "\<forall>p \<in> set ps. \<forall>c m c' m'. fs (pe_place base p) = Some (File c m) \<longrightarrow> fsx (pe_place base p) = Some (File c' m') \<longrightarrow> m' = m"
  defines "fsy \<equiv> fold (restore_file io sd base WriteFine) files fsx"
  shows "(\<forall>q. q \<notin> place_written base ps \<longrightarrow> fsy q = fsx q) \<and> (\<forall>p \<in> set ps. restored io (fs (pe_place base p)) (fsy (pe_place base p)))"
  using assms(1-6) unfolding fsy_def
proof (induction ps files arbitrary: fsx rule: list_all2_induct)
  case (Cons p ps f files)
  obtain x where x: "restore_file io sd base WriteFine f fsx = fsx(pe_place base p := x)" "leaf x"
    "restored io (fs (pe_place base p)) x"
    using restore_file_at [OF Cons.hyps(1) _ _ Cons.prems(3), of io] Cons.prems(1,5) by auto
  define fs1 where "fs1 = fsx(pe_place base p := x)"
  have here: "pe_place base p \<notin> place_written base ps" using Cons.prems(2) by (simp add: place_written_def)
  have lc: "leaf_change P fs fs1" unfolding fs1_def
    using Cons.prems(3,4) entry_ok_leaf [OF Cons.hyps(1)] leaf_change_leaf [OF Cons.prems(3)] x(2)
    by (intro leaf_change_trans [OF Cons.prems(3)] leaf_change_upd) (auto simp: place_written_def)
  have same: "fs1 (pe_place base q) = fsx (pe_place base q)" if "q \<in> set ps" for q
  proof -
    have "pe_place base q \<noteq> pe_place base p" using here that unfolding place_written_def by (metis image_eqI)
    then show ?thesis by (simp add: fs1_def)
  qed
  let ?out = "fold (restore_file io sd base WriteFine) files fs1"
  have IH: "(\<forall>q. q \<notin> place_written base ps \<longrightarrow> ?out q = fs1 q) \<and>
      (\<forall>p \<in> set ps. restored io (fs (pe_place base p)) (?out (pe_place base p)))"
    using Cons.prems lc by (intro Cons.IH) (auto simp: place_written_def same)
  have "fold (restore_file io sd base WriteFine) (f # files) fsx = ?out" using x(1) by (simp add: fs1_def)
  moreover have "?out (pe_place base p) = x" using IH here by (simp add: fs1_def)
  moreover have "?out q = fsx q" if "q \<notin> place_written base (p # ps)" for q
    using IH that by (auto simp: place_written_def fs1_def)
  ultimately show ?case using IH x(3) by auto
qed simp


lemma rollback_files_restore:
  assumes "list_all2 (entry_ok fs sd base) ps files"
    and "\<forall>p \<in> set ps. planned_ok fs base p \<and> sits fs base (path_parts (pe_rel p))"
    and "leaf_change P fs fsx" and "place_written base ps \<subseteq> P" and fine: "\<forall>k. io_restore io k = WriteFine"
  shows "\<exists>res'. rollback_files io sd base files k fsx res = (fold (restore_file io sd base WriteFine) files fsx, None, res') \<and>
    RolledBack res'"
  using assms(1-4)
proof (induction ps files arbitrary: fsx k res rule: list_all2_induct)
  case (Cons p ps f files)
  define qs where "qs = path_parts (pe_rel p)"
  have path: "cf_Path f = join_char slash qs" using Cons.hyps(1) Cons.prems(1) by (simp add: entry_ok_def planned_ok_def qs_def)
  have sits: "sits fsx base qs" using Cons.prems(1) sits_leaf_change [OF Cons.prems(2)] by (simp add: qs_def)
  have leaf: "leaf (fsx (base @ qs))"
    using entry_ok_leaf [OF Cons.hyps(1)] leaf_change_leaf [OF Cons.prems(2)] by (simp add: qs_def)
  have in_P: "base @ qs \<in> P" using Cons.prems(3) by (simp add: place_written_def qs_def)
  obtain x res1 where x: "restore_file io sd base WriteFine f fsx = fsx(base @ qs := x)" "leaf x"
    and step: "rollback_files io sd base (f # files) k fsx res = rollback_files io sd base files (k + 1) (fsx(base @ qs := x)) res1"
  proof (cases "cf_Absent f")
    case True
    show thesis
      by (rule that [of None "res\<lparr>RemovedFiles := RemovedFiles res @ [cf_Path f]\<rparr>"])
        (use True Root_Remove_at [OF sits leaf, of WriteFine io] path fine in \<open>simp_all add: restore_file_def\<close>)
  next
    case False
    then obtain c where c: "loadBlob sd (cf_Blob f) = Some c"
      using Cons.hyps(1) by (auto simp: entry_ok_def split: option.splits node.splits)
    show thesis
      by (rule that [of "Some (File c (case fsx (base @ qs) of Some (File c m) \<Rightarrow> m | _ \<Rightarrow> io_umask io (file_mode_or_default f)))"
            "res\<lparr>RestoredFiles := RestoredFiles res @ [cf_Path f]\<rparr>"])
        (use False c Root_OpenFile_at [OF sits leaf, of WriteFine io] Root_MkdirAll_at [OF sits] path fine
         in \<open>simp_all add: restore_file_def written_def write_error_def\<close>)
  qed
  have "leaf_change P fs (fsx(base @ qs := x))"
    by (rule leaf_change_trans [OF Cons.prems(2) leaf_change_upd [where fs = fsx and q = "base @ qs", OF in_P leaf x(2)]])
  moreover have "\<forall>p \<in> set ps. planned_ok fs base p \<and> sits fs base (path_parts (pe_rel p))" "place_written base ps \<subseteq> P"
    using Cons.prems(1,3) by (simp_all add: place_written_def)
  ultimately obtain res' where
    "rollback_files io sd base files (k + 1) (fsx(base @ qs := x)) res1 =
       (fold (restore_file io sd base WriteFine) files (fsx(base @ qs := x)), None, res')" "RolledBack res'"
    using Cons.IH by blast
  then show ?case using step x(1) by simp
qed simp

lemma filter_key_single: "distinct (map key xs) \<Longrightarrow> f \<in> set xs \<Longrightarrow> filter (\<lambda>g. key g = key f) xs = [f]"
proof (induction xs)
  case (Cons y ys)
  show ?case
  proof (cases "f = y")
    case True
    then have "key x \<noteq> key f" if "x \<in> set ys" for x using Cons.prems(1) that by (metis distinct.simps(2) image_eqI list.map(2) list.set_map)
    then show ?thesis using True by simp
  next
    case False
    then have "f \<in> set ys" using Cons.prems(2) by simp
    moreover from this have "key y \<noteq> key f" using Cons.prems(1) by (metis distinct.simps(2) image_eqI list.map(2) list.set_map)
    ultimately show ?thesis using Cons by simp
  qed
qed simp

lemma restorePartial_restore:
  assumes "list_all2 (entry_ok fs sd base) ps (cp_Files cp)" and "distinct (map pe_rel ps)" and "ps = ps1 @ ps2"
    and fine: "\<forall>k. io_restore io k = WriteFine"
  shows "restorePartial io sd fsx base ps1 cp =
    fold (restore_file io sd base WriteFine) (take (length ps1) (cp_Files cp)) fsx"
proof -
  let ?files = "cp_Files cp"
  have paths: "map cf_Path ?files = map pe_rel ps"
    using assms(1) by (induction rule: list_all2_induct) (auto simp: entry_ok_def)
  then have dist: "distinct (map cf_Path ?files)" using assms(2) by simp
  have "map pe_rel ps1 = map cf_Path (take (length ps1) ?files)"
    using paths assms(3) by (metis append_eq_conv_conj map_append length_map take_map)
  then have "map (\<lambda>r. filter (\<lambda>f. cf_Path f = r) ?files) (map pe_rel ps1) =
      map (\<lambda>r. filter (\<lambda>f. cf_Path f = r) ?files) (map cf_Path (take (length ps1) ?files))" by (rule arg_cong)
  then have "concat (map (\<lambda>p. filter (\<lambda>f. cf_Path f = pe_rel p) ?files) ps1) =
      concat (map (\<lambda>g. filter (\<lambda>f. cf_Path f = cf_Path g) ?files) (take (length ps1) ?files))"
    by (simp only: map_map comp_def)
  also have "\<dots> = concat (map (\<lambda>f. [f]) (take (length ps1) ?files))"
    using filter_key_single [OF dist] by (intro arg_cong [of _ _ concat] map_cong refl) (blast dest: in_set_takeD)
  finally have files: "concat (map (\<lambda>p. filter (\<lambda>f. cf_Path f = pe_rel p) ?files) ps1) = take (length ps1) ?files" by simp
  have "fold (\<lambda>(k, f) fs. restore_file io sd base (io_restore io k) f fs) (enumerate n xs) g =
      fold (restore_file io sd base WriteFine) xs g" for n xs g
    by (induction xs arbitrary: n g) (simp_all add: fine)
  then show ?thesis by (simp add: restorePartial_def files)
qed

section \<open>The root of a patch\<close>

lemma walk_dirs_added:
  "walk conf base fs n dest rest = Inr (d, Some nd) \<Longrightarrow> dirs_added fs fs' \<Longrightarrow>
   walk conf base fs' n dest rest = Inr (d, Some nd)"
proof (induction conf base fs n dest rest rule: walk.induct)
  case (1 conf base fs n dest)
  then show ?case using dirs_added_Some by auto
next
  case (2 conf base fs n dest p rest)
  show ?case
  proof (cases "p = [] \<or> p = ''.'' \<or> p = ''..''")
    case True
    then show ?thesis using 2(1,2,6,7) by (auto simp: walk.simps(2) split: if_splits)
  next
    case False
    then obtain x where x: "fs (base @ dest @ [p]) = Some x"
      using 2(6) by (auto simp: walk.simps(2) split: option.splits if_splits)
    then have x': "fs' (base @ dest @ [p]) = Some x" by (rule dirs_added_Some [OF 2(7)])
    show ?thesis
      using 2(3-7) False x x' by (cases x) (auto simp: walk.simps(2) split: if_splits)
  qed
qed

lemma patch_root:
  assumes wf: "fs_wf fs" and root: "is_abs root" "Clean root = root" and ev: "EvalSymlinks fs root = Inr rootReal"
    and wf1: "fs_wf fs1" and add: "dirs_added fs fs1" and op: "openWorkspaceRoot fs1 cwd root = Inr h"
  defines "base \<equiv> path_parts rootReal"
  shows "h = base" and "is_dir fs base" and "is_dir fs1 base" and "\<forall>q \<in> set base. good_part q"
    and "EvalSymlinks fs root = Inr (abs_path base)"
proof -
  obtain d nd where d: "rootReal = abs_path d" "fs d = Some nd" "\<forall>p \<in> set d. good_part p"
    by (rule EvalSymlinks_end [OF ev wf])
  have base: "base = d" using path_parts_abs_path [OF d(3)] d(1) by (simp add: base_def)
  show good: "\<forall>q \<in> set base. good_part q" and ev': "EvalSymlinks fs root = Inr (abs_path base)" using base d ev by simp_all
  obtain d' nd' where w: "walk False [] fs maxEvalLinks [] (split_char slash root) = Inr (d', Some nd')" "rootReal = abs_path d'"
    using ev by (auto simp: EvalSymlinks_def split: sum.splits option.splits)
  then have "EvalSymlinks fs1 root = Inr (abs_path base)"
    using walk_dirs_added [OF w(1) add] d(1) base by (simp add: EvalSymlinks_def)
  from open_root [OF wf1 root op this good] show "h = base" "is_dir fs1 base" by simp_all
  then show "is_dir fs base" using dirs_added_Some [OF add d(2)] d(2) base by (auto simp: is_dir_def)
qed

end
