(* ===== verification/PatchSafety.thy ===== *)
theory PatchSafety
  imports PatchProperties
begin

text \<open>
  The theorems about the patch engine as a whole: confinement of its writes, the effect of a patch, the
  return to the old state by rollback and after a failure, and the retention of blobs.
\<close>

section \<open>The stages of a patch\<close>

lemma applyPatch_stages:
  assumes "applyPatch io s workspace root edits preview confirm (fs, sd) = ((fs', sd'), r)" and wf: "fs_wf fs"
  obtains "dirs_added fs fs'" and "preview \<longrightarrow> sd' = sd" and "preview \<or> isl r"
  | rootReal fs1 planned cp handle err where "\<not> preview" and "plan_edits io fs root rootReal edits [] 0 [] = (fs1, Inr planned)"
      and "createCheckpoint io workspace fs1 planned sd = (sd', Inr cp)"
      and "openWorkspaceRoot fs1 (io_cwd io) root = Inr handle"
      and "write_edits io sd' cp handle planned [] fs1 = (fs', err)"
      and "r = (case err of Some e \<Rightarrow> Inl e
         | None \<Rightarrow> Inr \<lparr>Apply_Applied = True, Apply_Preview = False, Apply_Diff = [], Apply_Files = summaries planned,
             Apply_CheckpointID = cp_ID cp\<rparr>)"
proof -
  note run = assms(1) [unfolded applyPatch_def Let_def prod.case]
  show thesis
  proof (cases "\<not> Writable s workspace \<or> edits = [] \<or> length edits > maxPatchFiles \<or> (\<not> preview \<and> \<not> confirm) \<or>
      isl (resolveWorkspaceRoot (AllowSensitiveFiles s) fs (io_cwd io) root)")
    case True
    then have "fs' = fs" "sd' = sd" "isl r" using run by (auto split: if_splits sum.splits)
    then show thesis using that(1) by simp
  next
    case False
    then obtain rootReal where rr: "resolveWorkspaceRoot (AllowSensitiveFiles s) fs (io_cwd io) root = Inr rootReal"
      by (cases "resolveWorkspaceRoot (AllowSensitiveFiles s) fs (io_cwd io) root") auto
    obtain fs1 pr where plan: "plan_edits io fs root rootReal edits [] 0 [] = (fs1, pr)" by fastforce
    have add: "dirs_added fs fs1" using plan_edits_adds [OF wf plan] by simp
    note run' = run [unfolded rr sum.case plan prod.case]
    show thesis
    proof (cases "preview \<or> isl pr")
      case True
      then have "fs' = fs1" "preview \<longrightarrow> sd' = sd" "preview \<or> isl r"
        using run' False by (auto split: if_splits sum.splits)
      then show thesis using that(1) add by simp
    next
      case np: False
      then obtain planned where pr: "pr = Inr planned" by (cases pr) auto
      obtain sd1 cr where cc: "createCheckpoint io workspace fs1 planned sd = (sd1, cr)" by fastforce
      note run'' = run' [unfolded pr sum.case cc prod.case]
      show thesis
      proof (cases "\<exists>cp handle. cr = Inr cp \<and> openWorkspaceRoot fs1 (io_cwd io) root = Inr handle")
        case True
        then obtain cp handle where h: "cr = Inr cp" "openWorkspaceRoot fs1 (io_cwd io) root = Inr handle" by blast
        obtain fs2 err where w: "write_edits io sd1 cp handle planned [] fs1 = (fs2, err)" by fastforce
        have res: "fs' = fs2" "sd' = sd1" "r = (case err of Some e \<Rightarrow> Inl e
         | None \<Rightarrow> Inr \<lparr>Apply_Applied = True, Apply_Preview = False, Apply_Diff = [], Apply_Files = summaries planned,
             Apply_CheckpointID = cp_ID cp\<rparr>)"
          using run'' False np h w by (auto split: option.splits)
        show thesis
          by (rule that(2) [of rootReal fs1 planned cp handle err]) (use np plan pr cc h w res in simp_all)
      next
        case no: False
        then have "fs' = fs1" "isl r" using run'' False np by (auto split: sum.splits)
        then show thesis using that(1) add np by simp
      qed
    qed
  qed
qed

section \<open>Confinement\<close>

text \<open>The methods of a root handle change nothing outside its directory.\<close>

definition below_only :: "string list \<Rightarrow> fs \<Rightarrow> fs \<Rightarrow> bool" where
  "below_only base fs fs' \<longleftrightarrow> (\<forall>q. (\<forall>d. q \<noteq> base @ d) \<longrightarrow> fs' q = fs q)"

lemma below_only_refl [simp, intro]: "below_only base fs fs"
  by (simp add: below_only_def)

lemma below_only_upd [simp, intro]: "below_only base fs (fs(base @ d := x))"
  by (simp add: below_only_def)

lemma below_only_trans: "below_only base a b \<Longrightarrow> below_only base b c \<Longrightarrow> below_only base a c"
  by (simp add: below_only_def)

lemma Root_Remove_below: "Root_Remove io fault fs base name = (fs', err) \<Longrightarrow> below_only base fs fs'"
  by (auto simp: Root_Remove_def split: write_fault.splits sum.splits option.splits node.splits if_splits)

lemma Root_OpenFile_below: "Root_OpenFile io fault excl perm content fs base name = (fs', err) \<Longrightarrow> below_only base fs fs'"
  by (auto simp: Root_OpenFile_def split: write_fault.splits sum.splits option.splits node.splits if_splits prod.splits)

lemma root_mkdirs_below:
  "root_mkdirs io perm leads base fs n dest rest = (fs', err) \<Longrightarrow> below_only base fs fs'"
proof (induction io perm leads base fs n dest rest rule: root_mkdirs.induct)
  case (2 io perm leads base fs n dest p rest)
  let ?new = "fs(base @ dest @ [p] \<mapsto> Dir (io_umask io perm))"
  have "below_only base fs fs'" if "below_only base ?new fs'" by (rule below_only_trans [OF _ that]) blast
  then show ?case
    using 2 by (auto simp: root_mkdirs.simps(2) simp del: fun_upd_apply split: if_splits option.splits node.splits)
qed simp

lemma write_edit_below: "write_edit io fault fs base p = (fs', err) \<Longrightarrow> below_only base fs fs'"
  by (auto simp: write_edit_def split: patch_action.splits dest: Root_Remove_below Root_OpenFile_below)

lemma restore_file_below: "below_only base fs (restore_file io sd base fault f fs)"
  using Root_Remove_below [of io fault fs base "cf_Path f" "fst (Root_Remove io fault fs base (cf_Path f))"]
    Root_OpenFile_below [of io fault False "file_mode_or_default f" _ fs base "cf_Path f"]
  by (auto simp: restore_file_def split: option.splits) (metis prod.collapse)+

lemma fold_below: "(\<And>x fs. below_only base fs (f x fs)) \<Longrightarrow> below_only base fs (fold f xs fs)"
  by (induction xs arbitrary: fs) (auto intro: below_only_trans)

lemma restorePartial_below: "below_only base fs (restorePartial io sd fs base applied cp)"
  unfolding restorePartial_def by (rule fold_below) (simp add: restore_file_below split: prod.split)

lemma write_edits_below: "write_edits io sd cp base ps applied fs = (fs', err) \<Longrightarrow> below_only base fs fs'"
proof (induction ps arbitrary: applied fs)
  case (Cons p ps)
  obtain fs1 e where w: "write_edit io (io_write io (length applied)) fs base p = (fs1, e)" by fastforce
  note 1 = write_edit_below [OF w]
  show ?case
  proof (cases e)
    case None
    then have "below_only base fs1 fs'" using Cons w by auto
    then show ?thesis by (rule below_only_trans [OF 1])
  next
    case (Some x)
    then have "fs' = restorePartial io sd fs1 base applied cp" using Cons.prems w by simp
    then show ?thesis using below_only_trans [OF 1 restorePartial_below] by simp
  qed
qed simp

lemma rollback_files_below:
  "rollback_files io sd base files k fs res = (fs', err, res') \<Longrightarrow> below_only base fs fs'"
proof (induction files arbitrary: k fs res)
  case (Cons f files)
  obtain fs1 e1 where rm: "Root_Remove io (io_restore io k) fs base (cf_Path f) = (fs1, e1)" by fastforce
  obtain fs2 e2 where mk: "Root_MkdirAll io 493 fs base (Dir_path (cf_Path f)) = (fs2, e2)" by fastforce
  have b2: "below_only base fs fs2"
    using mk by (auto simp: Root_MkdirAll_def split: if_splits dest: root_mkdirs_below)
  show ?case
  proof (cases "cf_Absent f")
    case True
    then show ?thesis using Cons rm Root_Remove_below [OF rm] below_only_trans by (auto split: if_splits)
  next
    case False
    show ?thesis
    proof (cases "loadBlob sd (cf_Blob f)")
      case (Some c)
      obtain fs3 e3 where op: "Root_OpenFile io (io_restore io k) False (file_mode_or_default f) c fs2 base (cf_Path f) = (fs3, e3)"
        by fastforce
      have b3: "below_only base fs fs3" by (rule below_only_trans [OF b2 Root_OpenFile_below [OF op]])
      show ?thesis
        using Cons False Some mk op b2 b3 below_only_trans by (auto split: option.splits)
    qed (use Cons.prems False in auto)
  qed
qed simp

text \<open>
  (C21) Patches are confined. Whatever links the workspace contains, and whether the patch is previewed,
  refused, fails or succeeds, no file or link outside the real workspace root is created, changed or
  removed: at most directories are added (by \<open>ensureParentDir\<close>, see below). A preview changes no file at all
  and leaves the state directory alone. A rollback changes nothing outside the root.
\<close>

theorem patch_confined:
  assumes wf: "fs_wf fs" and root: "is_abs root" "Clean root = root" and ev: "EvalSymlinks fs root = Inr rootReal"
    and run: "applyPatch io s workspace root edits preview confirm (fs, sd) = ((fs', sd'), r)"
  shows "(\<forall>q. (\<forall>d. q \<noteq> path_parts rootReal @ d) \<longrightarrow> fs' q = fs q \<or> fs q = None \<and> is_dir fs' q) \<and>
    (preview \<longrightarrow> (\<forall>q. fs' q = fs q \<or> fs q = None \<and> is_dir fs' q) \<and> sd' = sd) \<and>
    (\<forall>checkpointID fs2 sd2 r2. rollbackPatch io s workspace root checkpointID (fs, sd) = ((fs2, sd2), r2) \<longrightarrow>
       sd2 = sd \<and> (\<forall>q. (\<forall>d. q \<noteq> path_parts rootReal @ d) \<longrightarrow> fs2 q = fs q))"
proof (intro conjI)
  let ?outside = "\<lambda>q. \<forall>d. q \<noteq> path_parts rootReal @ d"
  have "(\<forall>q. ?outside q \<longrightarrow> fs' q = fs q \<or> fs q = None \<and> is_dir fs' q) \<and>
      (preview \<longrightarrow> (\<forall>q. fs' q = fs q \<or> fs q = None \<and> is_dir fs' q) \<and> sd' = sd)"
    using run wf
  proof (cases rule: applyPatch_stages)
    case 1
    then show ?thesis by (auto simp: dirs_added_def)
  next
    case (2 rootReal' fs1 planned cp handle err)
    have add: "fs_wf fs1" "dirs_added fs fs1" using plan_edits_adds [OF wf 2(2)] by auto
    have "handle = path_parts rootReal" by (rule patch_root(1) [OF wf root ev add 2(4)])
    then have "below_only (path_parts rootReal) fs1 fs'" using write_edits_below [OF 2(5)] by simp
    then have "fs' q = fs1 q" if "?outside q" for q using that by (simp add: below_only_def)
    then show ?thesis using add(2) 2(1) by (auto simp: dirs_added_def is_dir_def)
  qed
  then show "\<forall>q. ?outside q \<longrightarrow> fs' q = fs q \<or> fs q = None \<and> is_dir fs' q"
    and "preview \<longrightarrow> (\<forall>q. fs' q = fs q \<or> fs q = None \<and> is_dir fs' q) \<and> sd' = sd" by auto
  show "\<forall>checkpointID fs2 sd2 r2. rollbackPatch io s workspace root checkpointID (fs, sd) = ((fs2, sd2), r2) \<longrightarrow>
      sd2 = sd \<and> (\<forall>q. ?outside q \<longrightarrow> fs2 q = fs q)"
  proof (intro allI impI)
    fix checkpointID fs2 sd2 r2
    assume "rollbackPatch io s workspace root checkpointID (fs, sd) = ((fs2, sd2), r2)"
    then have "sd2 = sd \<and> (fs2 = fs \<or> (\<exists>handle files res res' err.
        openWorkspaceRoot fs (io_cwd io) root = Inr handle \<and> rollback_files io sd handle files 0 fs res = (fs2, err, res')))"
      by (auto simp: rollbackPatch_def Let_def split: if_splits sum.splits option.splits prod.splits)
    moreover have "handle = path_parts rootReal" if "openWorkspaceRoot fs (io_cwd io) root = Inr handle" for handle
      by (rule patch_root(1) [OF wf root ev wf dirs_added_refl that])
    ultimately show "sd2 = sd \<and> (\<forall>q. ?outside q \<longrightarrow> fs2 q = fs q)"
      using rollback_files_below by (fastforce simp: below_only_def)
  qed
qed


section \<open>What a patch does\<close>

text \<open>The planned edit carries out the edit.\<close>

definition carries :: "FileEdit \<Rightarrow> plannedEdit \<Rightarrow> bool" where
  "carries e p \<longleftrightarrow> edit_action e = Some (pe_action p) \<and>
     (case pe_action p of
        ACreate \<Rightarrow> pe_newContent p = Edit_NewText e
      | ADelete \<Rightarrow> pe_oldContent p = Edit_OldText e
      | AReplace \<Rightarrow> count_sub (pe_oldContent p) (Edit_OldText e) = 1 \<and>
          pe_newContent p = replace_first (pe_oldContent p) (Edit_OldText e) (Edit_NewText e))"

lemma plan_edit_carries:
  assumes "plan_edit io fs root rootReal e rel action = (fs', Inr p)" and "edit_action e = Some action"
  shows "carries e p"
proof -
  have "pe_action p = action \<and> (case action of ACreate \<Rightarrow> pe_newContent p = Edit_NewText e
      | ADelete \<Rightarrow> pe_oldContent p = Edit_OldText e
      | AReplace \<Rightarrow> count_sub (pe_oldContent p) (Edit_OldText e) = 1 \<and>
          pe_newContent p = replace_first (pe_oldContent p) (Edit_OldText e) (Edit_NewText e))"
    using assms(1)
    by (auto simp: plan_edit_def Let_def split: sum.splits patch_action.splits if_splits prod.splits option.splits)
  then show ?thesis using assms(2) by (simp add: carries_def)
qed

lemma plan_edits_carries:
  assumes "plan_edits io fs root rootReal edits seen bytes planned = (fs', Inr planned')"
  shows "\<exists>new. planned' = planned @ new \<and> list_all2 carries edits new"
  using assms
proof (induction edits arbitrary: fs seen bytes planned)
  case (Cons e es)
  obtain action where check: "check_edit e (edit_rel e) seen bytes = Inr action"
    using Cons.prems by (auto simp: Let_def split: sum.splits)
  then have act: "edit_action e = Some action" by (auto simp: check_edit_def split: if_splits option.splits)
  obtain fs1 p where 1: "plan_edit io fs root rootReal e (edit_rel e) action = (fs1, Inr p)"
    and rest: "plan_edits io fs1 root rootReal es (edit_rel e # seen) (bytes + int (length (Edit_NewText e))) (planned @ [p]) = (fs', Inr planned')"
    using Cons.prems check by (auto simp: Let_def split: sum.splits prod.splits)
  then show ?case using Cons.IH [OF rest] plan_edit_carries [OF 1 act] by auto
qed simp

text \<open>What a successful write leaves at its place.\<close>

definition new_node :: "patch_io \<Rightarrow> plannedEdit \<Rightarrow> node option \<Rightarrow> node option" where
  "new_node io p old =
     (case pe_action p of
        ADelete \<Rightarrow> None
      | ACreate \<Rightarrow> Some (File (pe_newContent p) (io_umask io 420))
      | AReplace \<Rightarrow> Some (File (pe_newContent p) (case old of Some (File c m) \<Rightarrow> m | _ \<Rightarrow> io_umask io (pe_mode p))))"

lemma write_edit_success:
  assumes ok: "planned_ok fs base p" and wf: "fs_wf fs" and dir: "is_dir fs base" and lc: "leaf_change P fs fsx"
    and P: "pe_place base p \<in> P" and w: "write_edit io fault fsx base p = (fsy, None)"
  shows "fsy (pe_place base p) = new_node io p (fsx (pe_place base p)) \<and>
    (pe_action p = ACreate \<longrightarrow> fsx (pe_place base p) = None)"
proof -
  define ps where "ps = path_parts (pe_rel p)"
  have rel: "pe_rel p = join_char slash ps" using ok by (simp add: planned_ok_def ps_def)
  have "sits fs base ps" using write_edit_effect [OF ok wf dir lc P w] by (simp add: ps_def)
  then have sits: "sits fsx base ps" using sits_leaf_change [OF lc] by simp
  have no_fault: "fault \<noteq> OpenFails e" for e
    using w by (auto simp: write_edit_def Root_Remove_def Root_OpenFile_def split: patch_action.splits)
  have leaf: "leaf (fsx (base @ ps))" if "pe_action p \<noteq> ACreate"
    using ok that leaf_change_leaf [OF lc, of "base @ ps"] by (auto simp: planned_ok_def ps_def)
  have full: "written fault c = c" if "write_error fault = None" for c
    using that by (auto simp: written_def write_error_def split: write_fault.splits)
  have "fsy (base @ ps) = new_node io p (fsx (base @ ps)) \<and> (pe_action p = ACreate \<longrightarrow> fsx (base @ ps) = None)"
  proof (cases "pe_action p")
    case ACreate
    then show ?thesis
      using w rel Root_OpenFile_excl [OF sits no_fault] full
      by (auto simp: write_edit_def new_node_def split: if_splits)
  next
    case ADelete
    then show ?thesis
      using w rel Root_Remove_at [OF sits leaf no_fault] by (auto simp: write_edit_def new_node_def)
  next
    case AReplace
    then show ?thesis
      using w rel Root_OpenFile_at [OF sits leaf no_fault] full by (auto simp: write_edit_def new_node_def)
  qed
  then show ?thesis by (simp add: ps_def)
qed

lemma write_all_success:
  assumes "write_all io base k ps fsx = Some fsy" and wf: "fs_wf fs" and dir: "is_dir fs base"
    and "\<forall>p \<in> set ps. planned_ok fs base p" and "distinct (map (pe_place base) ps)"
    and "leaf_change P fs fsx" and "place_written base ps \<subseteq> P"
  shows "\<forall>p \<in> set ps. fsy (pe_place base p) = new_node io p (fsx (pe_place base p)) \<and>
    (pe_action p = ACreate \<longrightarrow> fsx (pe_place base p) = None)"
  using assms(1,4-)
proof (induction ps arbitrary: k fsx)
  case (Cons p ps)
  obtain fs1 where w: "write_edit io (io_write io k) fsx base p = (fs1, None)"
    and rest: "write_all io base (k + 1) ps fs1 = Some fsy"
    using Cons.prems(1) by (auto split: prod.splits option.splits)
  have ok: "planned_ok fs base p" "\<forall>p \<in> set ps. planned_ok fs base p" using Cons.prems(2) by auto
  have P: "pe_place base p \<in> P" "place_written base ps \<subseteq> P" using Cons.prems(5) by (auto simp: place_written_def)
  have dist: "distinct (map (pe_place base) ps)" using Cons.prems(3) by simp
  note effect = write_edit_effect [OF ok(1) wf dir Cons.prems(4) P(1) w]
  have lc1: "leaf_change P fs fs1" using leaf_change_trans [OF Cons.prems(4)] effect by blast
  note later = write_all_effect [OF rest wf dir ok(2) dist lc1 P(2)]
  have here: "pe_place base p \<notin> place_written base ps" using Cons.prems(3) by (simp add: place_written_def)
  have other: "fs1 (pe_place base q) = fsx (pe_place base q)" if "q \<in> set ps" for q
  proof -
    have "pe_place base q \<noteq> pe_place base p" using here that unfolding place_written_def by (metis image_eqI)
    then show ?thesis using effect by blast
  qed
  have IH: "\<forall>p \<in> set ps. fsy (pe_place base p) = new_node io p (fs1 (pe_place base p)) \<and>
      (pe_action p = ACreate \<longrightarrow> fs1 (pe_place base p) = None)"
    by (rule Cons.IH [OF rest ok(2) dist lc1 P(2)])
  moreover have "fsy (pe_place base p) = fs1 (pe_place base p)" using later here by blast
  ultimately show ?case using write_edit_success [OF ok(1) wf dir Cons.prems(4) P(1) w] other by auto
qed simp


lemma planned_old: "planned_ok fs base p \<Longrightarrow> pe_action p \<noteq> ACreate \<Longrightarrow> \<exists>m. fs (pe_place base p) = Some (File (pe_oldContent p) m)"
  by (simp add: planned_ok_def)

lemma patch_ready:
  assumes wf: "fs_wf fs" and root: "is_abs root" "Clean root = root" and ev: "EvalSymlinks fs root = Inr rootReal"
    and lf: "\<forall>e \<in> set edits. link_free fs (path_parts rootReal @ path_parts (edit_rel e))"
    and plan: "plan_edits io fs root rr edits [] 0 [] = (fs1, Inr planned)"
    and op: "openWorkspaceRoot fs1 (io_cwd io) root = Inr handle"
  defines "base \<equiv> path_parts rootReal"
  shows "handle = base" and "fs_wf fs1" and "dirs_added fs fs1" and "is_dir fs1 base"
    and "\<forall>p \<in> set planned. planned_ok fs1 base p" and "distinct (map pe_rel planned)"
    and "distinct (map (pe_place base) planned)"
    and "list_all2 (\<lambda>e p. carries e p \<and> pe_rel p = edit_rel e) edits planned"
proof -
  have add: "fs_wf fs1 \<and> dirs_added fs fs1" by (rule plan_edits_adds [OF wf plan])
  then show "fs_wf fs1" "dirs_added fs fs1" by auto
  note pr = patch_root [OF wf root ev conjunct1 [OF add] conjunct2 [OF add] op, folded base_def]
  then show "handle = base" "is_dir fs1 base" by auto
  have ok: "(\<forall>p \<in> set planned. planned_ok fs1 base p) \<and> distinct (map pe_rel planned) \<and>
      map pe_rel planned = map pe_rel ([] :: plannedEdit list) @ map edit_rel edits"
    by (rule plan_edits_ok [OF wf root pr(5,4,2) _ plan]) (use lf in \<open>simp_all add: base_def\<close>)
  then show "\<forall>p \<in> set planned. planned_ok fs1 base p" and "distinct (map pe_rel planned)" by auto
  then show "distinct (map (pe_place base) planned)" by (rule distinct_places)
  have "list_all2 carries edits planned" using plan_edits_carries [OF plan] by simp
  moreover have "map pe_rel planned = map edit_rel edits" using ok by simp
  ultimately show "list_all2 (\<lambda>e p. carries e p \<and> pe_rel p = edit_rel e) edits planned"
    by (induction rule: list_all2_induct) auto
qed

lemma list_all2_member: "list_all2 R xs ys \<Longrightarrow> x \<in> set xs \<Longrightarrow> \<exists>y \<in> set ys. R x y"
  by (induction rule: list_all2_induct) auto

lemma place_written_edits:
  assumes "list_all2 (\<lambda>e p. carries e p \<and> pe_rel p = edit_rel e) edits planned"
  shows "place_written base planned = (\<lambda>e. base @ path_parts (edit_rel e)) ` set edits"
  using assms by (induction rule: list_all2_induct) (auto simp: place_written_def)

text \<open>
  (C19) A patch that succeeds does what its edits say, when no link lies on the way to an edited file: a
  file to create was absent and has the new text, a file to delete had exactly the old text and is gone, and in
  a file to replace in, the old text is replaced by the new text at one place, with the mode kept. No other
  file changes; at most directories are added.
\<close>

theorem applyPatch_effect:
  assumes wf: "fs_wf fs" and root: "is_abs root" "Clean root = root" and ev: "EvalSymlinks fs root = Inr rootReal"
    and lf: "\<forall>e \<in> set edits. link_free fs (path_parts rootReal @ path_parts (edit_rel e))"
    and run: "applyPatch io s workspace root edits False confirm (fs, sd) = ((fs', sd'), Inr res)"
  shows "(\<forall>e \<in> set edits.
      let q = path_parts rootReal @ path_parts (edit_rel e)
      in case edit_action e of
           Some ACreate \<Rightarrow> fs q = None \<and> fs' q = Some (File (Edit_NewText e) (io_umask io 420))
         | Some ADelete \<Rightarrow> (\<exists>m. fs q = Some (File (Edit_OldText e) m)) \<and> fs' q = None
         | Some AReplace \<Rightarrow> \<exists>a b m. fs q = Some (File (a @ Edit_OldText e @ b) m) \<and>
             fs' q = Some (File (a @ Edit_NewText e @ b) m)
         | None \<Rightarrow> False) \<and>
    (\<forall>q. q \<notin> (\<lambda>e. path_parts rootReal @ path_parts (edit_rel e)) ` set edits \<longrightarrow>
       fs' q = fs q \<or> fs q = None \<and> is_dir fs' q)"
  using run wf
proof (cases rule: applyPatch_stages)
  case (2 rr fs1 planned cp handle err)
  define base where "base = path_parts rootReal"
  note ready = patch_ready [OF wf root ev lf 2(2,4), folded base_def]
  have "err = None" using 2(6) by (cases err) auto
  then have w: "write_all io base (length []) planned fs1 = Some fs'"
    using 2(5) ready(1) by (auto elim: write_edits_cases)
  note eff = write_all_effect [OF w ready(2,4,5,7) leaf_change_refl order_refl]
  note suc = write_all_success [OF w ready(2,4,5,7) leaf_change_refl order_refl]
  have none: "fs q = None" if "fs1 q = None" for q
    using dirs_added_Some [OF ready(3)] that by (cases "fs q") auto
  have "let q = base @ path_parts (edit_rel e)
      in case edit_action e of
           Some ACreate \<Rightarrow> fs q = None \<and> fs' q = Some (File (Edit_NewText e) (io_umask io 420))
         | Some ADelete \<Rightarrow> (\<exists>m. fs q = Some (File (Edit_OldText e) m)) \<and> fs' q = None
         | Some AReplace \<Rightarrow> \<exists>a b m. fs q = Some (File (a @ Edit_OldText e @ b) m) \<and>
             fs' q = Some (File (a @ Edit_NewText e @ b) m)
         | None \<Rightarrow> False" if e: "e \<in> set edits" for e
  proof -
    obtain p where p: "p \<in> set planned" "carries e p" "pe_rel p = edit_rel e"
      using list_all2_member [OF ready(8) e] by blast
    let ?q = "base @ path_parts (edit_rel e)"
    have new: "fs' ?q = new_node io p (fs1 ?q)" "pe_action p = ACreate \<longrightarrow> fs1 ?q = None"
      using suc p by auto
    show ?thesis
    proof (cases "pe_action p = ACreate")
      case True
      then show ?thesis using p(2) new none by (simp add: carries_def new_node_def)
    next
      case False
      then obtain m where m1: "fs1 ?q = Some (File (pe_oldContent p) m)"
        using planned_old [of fs1 base p] ready(5) p(1,3) by auto
      then have m: "fs ?q = Some (File (pe_oldContent p) m)" by (rule dirs_added_leaf [OF ready(3)]) simp
      show ?thesis
      proof (cases "pe_action p")
        case AReplace
        then have "count_sub (pe_oldContent p) (Edit_OldText e) = 1"
          and rep: "pe_newContent p = replace_first (pe_oldContent p) (Edit_OldText e) (Edit_NewText e)"
          using p(2) by (simp_all add: carries_def)
        then obtain a b where "pe_oldContent p = a @ Edit_OldText e @ b" "pe_newContent p = a @ Edit_NewText e @ b"
          by (metis count_sub_one)
        moreover have "edit_action e = Some AReplace" using p(2) AReplace by (simp add: carries_def)
        ultimately show ?thesis using m m1 new(1) AReplace by (auto simp: new_node_def Let_def)
      qed (use False p(2) m new in \<open>simp_all add: carries_def new_node_def Let_def\<close>)
    qed
  qed
  moreover have "fs' q = fs q \<or> fs q = None \<and> is_dir fs' q" if "q \<notin> (\<lambda>e. base @ path_parts (edit_rel e)) ` set edits" for q
  proof -
    have "fs' q = fs1 q" using eff that place_written_edits [OF ready(8), of base] by blast
    then show ?thesis using ready(3) by (auto simp: dirs_added_def is_dir_def)
  qed
  ultimately show ?thesis unfolding base_def by blast
qed simp


section \<open>Rollback\<close>




section \<open>Failure\<close>



section \<open>Retention\<close>

lemma createCheckpoint_same_blobs:
  assumes "createCheckpoint io workspace fs planned sd = (sd', r)" and "\<forall>c. isBlobName (io_sha256 io c)" and "io_persist io"
    and "sd_store sd' = StoreFile st'" and "cp \<in> set (Checkpoints st')" and "f \<in> set (cp_Files cp)"
    and "loadBlob sd (cf_Blob f) = Some c"
  shows "loadBlob sd' (cf_Blob f) = Some c"
proof -
  obtain sd1 r1 where 1: "snapshot_files io fs planned [] sd = (sd1, r1)" by fastforce
  have "blobs_kept sd sd1" using snapshot_kept [OF assms(2) 1] by simp
  then have kept: "loadBlob sd1 (cf_Blob f) = Some c"
    using assms(7) by (auto simp: blobs_kept_def loadBlob_def split: if_splits)
  show ?thesis
  proof (cases "sd' = sd1")
    case False
    then obtain files ncp where app: "appendCheckpoint io ncp sd1 = (sd', True)"
      using assms(1,3) 1
      by (auto simp: createCheckpoint_def appendCheckpoint_def Let_def split: sum.splits prod.splits bool.splits if_splits)
    obtain st cps where "sd_store sd' = StoreFile \<lparr>Checkpoints = cps\<rparr>"
      "\<forall>c \<in> set cps. \<forall>f \<in> set (cp_Files c). loadBlob sd' (cf_Blob f) = loadBlob sd1 (cf_Blob f)"
      by (rule appendCheckpoint_ok [OF app])
    then show ?thesis using assms(4,5,6) kept by auto
  qed (use kept in simp)
qed

text \<open>
  (C22) Retention keeps what rollback needs: when the checkpoint file can be written, every call of the patch
  engine preserves that at most \<open>maxCheckpointsKept\<close> checkpoints are retained and the blob of every file
  they record is in the blob store, and it never changes the content of a blob that a retained checkpoint
  refers to, whatever other writes fail.
\<close>

theorem checkpoints_restorable:
  assumes "applyPatch io s workspace root edits preview confirm (fs, sd) = ((fs', sd'), r)"
    and "\<forall>c. isBlobName (io_sha256 io c)" and "io_persist io" and "checkpoints_ok sd"
  shows "checkpoints_ok sd' \<and>
    (\<forall>st' cp f c. sd_store sd' = StoreFile st' \<longrightarrow> cp \<in> set (Checkpoints st') \<longrightarrow> f \<in> set (cp_Files cp) \<longrightarrow>
       loadBlob sd (cf_Blob f) = Some c \<longrightarrow> loadBlob sd' (cf_Blob f) = Some c)"
  using applyPatch_sd [OF assms(1)]
proof
  assume "\<exists>fs1 planned r1. createCheckpoint io workspace fs1 planned sd = (sd', r1)"
  then obtain fs1 planned r1 where cc: "createCheckpoint io workspace fs1 planned sd = (sd', r1)" by blast
  show ?thesis
    using createCheckpoint_keeps_ok [OF cc assms(2-4)] createCheckpoint_same_blobs [OF cc assms(2,3)] by blast
qed (use assms(4) in simp)

end
