(* ===== verification/PatchWitness.thy ===== *)
theory PatchWitness
  imports PatchSafety
begin

text \<open>
  The patch engine on a sample workspace: instances of its theorems, and the ways in which links defeat the
  checks of a patch.
\<close>

section \<open>A sample environment\<close>

definition sample_sha256 :: "string \<Rightarrow> string" where
  "sample_sha256 c = replicate 64 (if c = ''hello'' then CHR ''a'' else if c = ''SECRET'' then CHR ''b'' else CHR ''c'')"

definition sample_io :: patch_io where
  "sample_io =
     \<lparr>io_sha256 = sample_sha256, io_cwd = None, io_umask = (\<lambda>m. m), io_readdir = (\<lambda>fs q. []), io_now = 1, io_random = Some [1, 255],
      io_blob = (\<lambda>c. BlobFine), io_stuck = (\<lambda>n. False), io_persist = True, io_write = (\<lambda>k. WriteFine),
      io_restore = (\<lambda>k. WriteFine)\<rparr>"

definition sample_service :: Service where
  "sample_service = \<lparr>Writable = (\<lambda>w. w = ''ws''), AllowSensitiveFiles = False\<rparr>"

definition sample_state :: state_dir where
  "sample_state = \<lparr>sd_blobs = (\<lambda>n. None), sd_store = NoStoreFile\<rparr>"

definition sample_edits :: "FileEdit list" where
  "sample_edits =
     [\<lparr>Edit_Path = ''a.txt'', Edit_OldText = ''ell'', Edit_NewText = ''ipp''\<rparr>,
      \<lparr>Edit_Path = ''d/new.txt'', Edit_OldText = [], Edit_NewText = ''text''\<rparr>]"

definition run_sample :: "patch_io \<Rightarrow> FileEdit list \<Rightarrow> bool \<Rightarrow> world \<times> (patch_error + ApplyPatchResult)" where
  "run_sample io edits preview = applyPatch io sample_service ''ws'' ''/w'' edits preview True (sample_fs, sample_state)"

lemma run_sample_obtain:
  obtains fs' sd' where "applyPatch io sample_service ''ws'' ''/w'' edits preview True (sample_fs, sample_state) =
    ((fs', sd'), snd (run_sample io edits preview))" and "fs' = fst (fst (run_sample io edits preview))"
  using that [of "fst (fst (run_sample io edits preview))" "snd (fst (run_sample io edits preview))"]
  by (simp add: run_sample_def)

lemma sample_root: "is_abs ''/w''" "Clean ''/w'' = ''/w''" "EvalSymlinks sample_fs ''/w'' = Inr ''/w''" "path_parts ''/w'' = [''w'']"
  by code_simp+

lemma sample_link: "sample_fs q = Some (Link t) \<Longrightarrow> q = [''w'', ''creds''] \<or> q = [''w'', ''out'']"
  by (simp add: sample_fs_def split: if_splits)

lemma sample_rels: "path_parts (edit_rel \<lparr>Edit_Path = ''a.txt'', Edit_OldText = ''ell'', Edit_NewText = ''ipp''\<rparr>) = [''a.txt'']"
  "path_parts (edit_rel \<lparr>Edit_Path = ''d/new.txt'', Edit_OldText = [], Edit_NewText = ''text''\<rparr>) = [''d'', ''new.txt'']"
  by code_simp+

lemma sample_link_free:
  "\<forall>e \<in> set sample_edits. link_free sample_fs (path_parts ''/w'' @ path_parts (edit_rel e))"
  unfolding sample_edits_def list.set ball_simps sample_rels sample_root
  by (auto simp: link_free_def take_Cons' dest!: sample_link split: if_splits)

definition sample_result :: ApplyPatchResult where
  "sample_result =
     \<lparr>Apply_Applied = True, Apply_Preview = False, Apply_Diff = [],
      Apply_Files = [\<lparr>Summary_Path = ''a.txt'', Summary_Action = AReplace\<rparr>,
        \<lparr>Summary_Path = ''d/new.txt'', Summary_Action = ACreate\<rparr>],
      Apply_CheckpointID = ''cbk_01ff''\<rparr>"

lemma sample_applied: "snd (run_sample sample_io sample_edits False) = Inr sample_result"
  by code_simp

section \<open>Instances\<close>

theorem applyPatch_effect_witness:
  "\<exists>fs' sd'. applyPatch sample_io sample_service ''ws'' ''/w'' sample_edits False True (sample_fs, sample_state) =
      ((fs', sd'), Inr sample_result) \<and>
     (\<exists>a b m. sample_fs [''w'', ''a.txt''] = Some (File (a @ ''ell'' @ b) m) \<and>
        fs' [''w'', ''a.txt''] = Some (File (a @ ''ipp'' @ b) m)) \<and>
     fs' [''w'', ''d'', ''new.txt''] = Some (File ''text'' 420)"
proof -
  obtain fs' sd' where run: "applyPatch sample_io sample_service ''ws'' ''/w'' sample_edits False True (sample_fs, sample_state) =
      ((fs', sd'), Inr sample_result)"
    using run_sample_obtain [of sample_io sample_edits False] sample_applied by metis
  note eff = applyPatch_effect [OF sample_fs_wf sample_root(1-3) sample_link_free run, THEN conjunct1]
  have "\<exists>a b m. sample_fs [''w'', ''a.txt''] = Some (File (a @ ''ell'' @ b) m) \<and>
      fs' [''w'', ''a.txt''] = Some (File (a @ ''ipp'' @ b) m)"
    using bspec [OF eff, of "\<lparr>Edit_Path = ''a.txt'', Edit_OldText = ''ell'', Edit_NewText = ''ipp''\<rparr>"]
    unfolding sample_rels sample_root by (simp add: sample_edits_def edit_action_def Let_def)
  moreover have "fs' [''w'', ''d'', ''new.txt''] = Some (File ''text'' 420)"
    using bspec [OF eff, of "\<lparr>Edit_Path = ''d/new.txt'', Edit_OldText = [], Edit_NewText = ''text''\<rparr>"]
    unfolding sample_rels sample_root by (simp add: sample_edits_def edit_action_def sample_io_def Let_def)
  ultimately show ?thesis using run by blast
qed

lemma sample_sha256_ok: "io_sha256 io = sample_sha256 \<Longrightarrow> sha256_ok io {''hello'', ''SECRET''}"
  by (auto simp: sha256_ok_def sample_sha256_def isBlobName_def inj_on_def)







definition escape_edits :: "FileEdit list" where
  "escape_edits = [\<lparr>Edit_Path = ''out/newdir/f'', Edit_OldText = [], Edit_NewText = ''x''\<rparr>]"

theorem patch_confined_witness:
  "\<exists>fs' sd' r. applyPatch sample_io sample_service ''ws'' ''/w'' escape_edits True True (sample_fs, sample_state) = ((fs', sd'), r) \<and>
     (fs' [''newdir''] = sample_fs [''newdir''] \<or> sample_fs [''newdir''] = None \<and> is_dir fs' [''newdir'']) \<and> sd' = sample_state"
proof -
  obtain fs' sd' where run: "applyPatch sample_io sample_service ''ws'' ''/w'' escape_edits True True (sample_fs, sample_state) =
      ((fs', sd'), snd (run_sample sample_io escape_edits True))"
    by (rule run_sample_obtain [of sample_io escape_edits True])
  note conf = patch_confined [OF sample_fs_wf sample_root(1-3) run]
  have "\<forall>d. [''newdir''] \<noteq> path_parts ''/w'' @ d" by (simp add: sample_root(4))
  then have "fs' [''newdir''] = sample_fs [''newdir''] \<or> sample_fs [''newdir''] = None \<and> is_dir fs' [''newdir'']"
    using conf by blast
  moreover have "sd' = sample_state" using conf by blast
  ultimately show ?thesis using run by blast
qed

section \<open>Links defeat the checks\<close>

definition creds_edits :: "string \<Rightarrow> FileEdit list" where
  "creds_edits path = [\<lparr>Edit_Path = path, Edit_OldText = ''SECRET'', Edit_NewText = ''LEAKED''\<rparr>]"

text \<open>
  Two gaps of a patch in a workspace with links. A preview of creating a file behind a link that leads
  out of the workspace makes the missing directory outside the workspace, although its message says that
  nothing was written: the path is accepted because nothing exists there yet. And a sensitive file that may
  never be written is written through a link to it: only the path as given is checked.
\<close>

theorem patch_link_gaps:
  "sample_fs [''newdir''] = None \<and>
   fst (fst (run_sample sample_io escape_edits True)) [''newdir''] = Some (Dir 493) \<and>
   (\<exists>res. snd (run_sample sample_io escape_edits True) = Inr res \<and> Apply_Preview res) \<and>
   snd (run_sample sample_io (creds_edits ''.env'') False) = Inl (ErrEditSensitive ''.env'') \<and>
   (\<exists>res. snd (run_sample sample_io (creds_edits ''creds'') False) = Inr res \<and> Apply_Applied res) \<and>
   fst (fst (run_sample sample_io (creds_edits ''creds'') False)) [''w'', ''.env''] = Some (File ''LEAKED'' 384)"
proof (intro conjI)
  show "sample_fs [''newdir''] = None" by code_simp
  show "fst (fst (run_sample sample_io escape_edits True)) [''newdir''] = Some (Dir 493)" by code_simp
  have "case snd (run_sample sample_io escape_edits True) of Inr res \<Rightarrow> Apply_Preview res | Inl e \<Rightarrow> False" by code_simp
  then show "\<exists>res. snd (run_sample sample_io escape_edits True) = Inr res \<and> Apply_Preview res" by (simp split: sum.splits)
  show "snd (run_sample sample_io (creds_edits ''.env'') False) = Inl (ErrEditSensitive ''.env'')" by code_simp
  have "case snd (run_sample sample_io (creds_edits ''creds'') False) of Inr res \<Rightarrow> Apply_Applied res | Inl e \<Rightarrow> False"
    by code_simp
  then show "\<exists>res. snd (run_sample sample_io (creds_edits ''creds'') False) = Inr res \<and> Apply_Applied res"
    by (simp split: sum.splits)
  show "fst (fst (run_sample sample_io (creds_edits ''creds'') False)) [''w'', ''.env''] = Some (File ''LEAKED'' 384)" by code_simp
qed


section \<open>Retention\<close>

theorem checkpoints_restorable_witness:
  "\<exists>fs' sd' st. applyPatch sample_io sample_service ''ws'' ''/w'' sample_edits False True (sample_fs, sample_state) =
      ((fs', sd'), Inr sample_result) \<and> checkpoints_ok sd' \<and> sd_store sd' = StoreFile st \<and> length (Checkpoints st) = 1"
proof -
  obtain fs' sd' where run: "applyPatch sample_io sample_service ''ws'' ''/w'' sample_edits False True (sample_fs, sample_state) =
      ((fs', sd'), Inr sample_result)"
    using run_sample_obtain [of sample_io sample_edits False] sample_applied by metis
  have "\<forall>c. isBlobName (io_sha256 sample_io c)" using sample_sha256_ok [of sample_io] by (simp add: sample_io_def sha256_ok_def)
  moreover have "io_persist sample_io" "checkpoints_ok sample_state"
    by (simp_all add: sample_io_def checkpoints_ok_def sample_state_def)
  ultimately have "checkpoints_ok sd'" using checkpoints_restorable [OF run] by blast
  moreover have "sd' = snd (fst (run_sample sample_io sample_edits False))" using run by (simp add: run_sample_def)
  moreover have "case sd_store (snd (fst (run_sample sample_io sample_edits False))) of
      StoreFile st \<Rightarrow> length (Checkpoints st) = 1 | _ \<Rightarrow> False" by code_simp
  ultimately show ?thesis using run by (auto split: store_file.splits)
qed

end
