(* ===== verification/HostFrame.thy ===== *)
theory HostFrame
  imports Prelude "HOL-Library.Word"
begin

unbundle bit_operations_syntax

text \<open>
  The wire format of Host IPC (\<open>internal/hostipc/frame.go\<close>): a frame is a header of four bytes, big endian,
  whose top bit marks an attachment and whose other bits give the length of the payload. Bytes are 8-bit
  words and the header is a 32-bit word.

  A reader is the bytes still to come and how the stream ends; a writer is the bytes written and the number
  of bytes after which writing fails, if it does.
\<close>

type_synonym bytes = "8 word list"

section \<open>Big-endian numbers\<close>

definition PutUint32 :: "32 word \<Rightarrow> bytes" where
  "PutUint32 v = [ucast (drop_bit 24 v), ucast (drop_bit 16 v), ucast (drop_bit 8 v), ucast v]"

definition Uint32 :: "8 word \<Rightarrow> 8 word \<Rightarrow> 8 word \<Rightarrow> 8 word \<Rightarrow> 32 word" where
  "Uint32 b0 b1 b2 b3 =
     ucast b3 OR push_bit 8 (ucast b2) OR push_bit 16 (ucast b1) OR push_bit 24 (ucast b0)"

definition be32 :: "bytes \<Rightarrow> 32 word" where
  "be32 bs = Uint32 (bs ! 0) (bs ! 1) (bs ! 2) (bs ! 3)"

lemma PutUint32_length [simp]: "length (PutUint32 v) = 4"
  by (simp add: PutUint32_def)

lemma be32_PutUint32 [simp]: "be32 (PutUint32 v) = v"
proof (rule bit_word_eqI)
  fix n
  assume n: "n < LENGTH(32)"
  consider "n < 8" | "8 \<le> n" "n < 16" | "16 \<le> n" "n < 24" | "24 \<le> n" "n < 32" using n by fastforce
  then show "bit (be32 (PutUint32 v)) n = bit v n"
    by cases (auto simp: be32_def PutUint32_def Uint32_def bit_simps)
qed

section \<open>Frames\<close>

abbreviation MaxJSONFrame :: int where "MaxJSONFrame \<equiv> 2 ^ 20"
abbreviation MaxAttachmentFrame :: int where "MaxAttachmentFrame \<equiv> 16 * 2 ^ 20"

definition attachmentFlag :: "32 word" where
  "attachmentFlag = push_bit 31 1"

datatype FrameKind = FrameJSON | FrameAttachment

record Limits =
  MaxJSON :: int
  MaxAttachment :: int

definition WithDefaults :: "Limits \<Rightarrow> Limits" where
  "WithDefaults l =
     (let l = (if MaxJSON l \<le> 0 then l\<lparr>MaxJSON := MaxJSONFrame\<rparr> else l)
      in if MaxAttachment l \<le> 0 then l\<lparr>MaxAttachment := MaxAttachmentFrame\<rparr> else l)"

definition frame_max :: "Limits \<Rightarrow> FrameKind \<Rightarrow> int" where
  "frame_max lim kind = (if kind = FrameAttachment then MaxAttachment lim else MaxJSON lim)"

abbreviation CodeInvalidRequest :: int where "CodeInvalidRequest \<equiv> - 32600"
abbreviation CodeFrameLimit :: int where "CodeFrameLimit \<equiv> - 32020"

record ProtocolError =
  PE_Code :: int
  PE_Reason :: string

definition frame_limit :: ProtocolError where
  "frame_limit = \<lparr>PE_Code = CodeFrameLimit, PE_Reason = ''frame_limit''\<rparr>"

definition invalid_frame :: ProtocolError where
  "invalid_frame = \<lparr>PE_Code = CodeInvalidRequest, PE_Reason = ''invalid_request''\<rparr>"

datatype frame_error = EOF | ErrUnexpectedEOF | ErrProtocol ProtocolError | ErrReader | ErrWriter

section \<open>Reading\<close>

datatype stream_end = PeerClosed | ReadFails

record reader =
  rd_bytes :: bytes
  rd_end :: stream_end

definition ReadFull :: "nat \<Rightarrow> reader \<Rightarrow> reader \<times> (frame_error + bytes)" where
  "ReadFull n r =
     (if n \<le> length (rd_bytes r) then (r\<lparr>rd_bytes := drop n (rd_bytes r)\<rparr>, Inr (take n (rd_bytes r)))
      else (r\<lparr>rd_bytes := []\<rparr>,
            Inl (if rd_end r = ReadFails then ErrReader else if rd_bytes r = [] then EOF else ErrUnexpectedEOF)))"

definition ReadFrame :: "Limits \<Rightarrow> reader \<Rightarrow> reader \<times> (frame_error + FrameKind \<times> bytes \<times> bytes)" where
  "ReadFrame lim r =
     (let lim = WithDefaults lim
      in case ReadFull 4 r of
           (r, Inl e) \<Rightarrow> (r, Inl e)
         | (r, Inr header) \<Rightarrow>
             (let raw = be32 header;
                  kind = (if raw AND attachmentFlag \<noteq> 0 then FrameAttachment else FrameJSON);
                  n = unat (raw AND NOT attachmentFlag)
              in if n = 0 then (r, Inl (ErrProtocol frame_limit))
                 else if int n > frame_max lim kind then (r, Inl (ErrProtocol frame_limit))
                 else
                   (case ReadFull n r of
                      (r, Inl e) \<Rightarrow> (r, Inl (if e = EOF then ErrUnexpectedEOF else e))
                    | (r, Inr buf) \<Rightarrow>
                        if kind = FrameJSON then (r, Inr (kind, buf, []))
                        else if n < 4 then (r, Inl (ErrProtocol invalid_frame))
                        else
                          let metaLen = unat (be32 (take 4 buf))
                          in if metaLen = 0 \<or> metaLen > n - 4 then (r, Inl (ErrProtocol invalid_frame))
                             else (r, Inr (kind, take metaLen (drop 4 buf), drop (4 + metaLen) buf)))))"

section \<open>Writing\<close>

record writer =
  wr_bytes :: bytes
  wr_left :: "nat option"

definition Write :: "bytes \<Rightarrow> writer \<Rightarrow> writer \<times> frame_error option" where
  "Write bs w =
     (case wr_left w of
        None \<Rightarrow> (w\<lparr>wr_bytes := wr_bytes w @ bs\<rparr>, None)
      | Some k \<Rightarrow>
          if length bs \<le> k then (w\<lparr>wr_bytes := wr_bytes w @ bs, wr_left := Some (k - length bs)\<rparr>, None)
          else (w\<lparr>wr_bytes := wr_bytes w @ take k bs, wr_left := Some 0\<rparr>, Some ErrWriter))"

definition WriteFrame :: "FrameKind \<Rightarrow> bytes \<Rightarrow> Limits \<Rightarrow> writer \<Rightarrow> writer \<times> frame_error option" where
  "WriteFrame kind payload lim w =
     (let lim = WithDefaults lim
      in if payload = [] then (w, Some (ErrProtocol frame_limit))
         else if int (length payload) > frame_max lim kind then (w, Some (ErrProtocol frame_limit))
         else
           let header = (of_nat (length payload) :: 32 word);
               header = (if kind = FrameAttachment then header OR attachmentFlag else header)
           in case Write (PutUint32 header) w of
                (w, Some e) \<Rightarrow> (w, Some e)
              | (w, None) \<Rightarrow> Write payload w)"

text \<open>
  The meta block of an attachment. \<open>json\<close> is its encoding; \<open>decode\<close> is the strict decoding of a JSON object.
\<close>

record AttachmentMeta =
  Meta_AttachmentID :: string
  Meta_MIME :: string
  Meta_Bytes :: int
  Meta_SHA256 :: string
  Meta_Role :: string

definition attachment_payload :: "bytes \<Rightarrow> bytes \<Rightarrow> bytes" where
  "attachment_payload metaJSON data = PutUint32 (of_nat (length metaJSON)) @ metaJSON @ data"

datatype attachment_error = ErrMetaBytes | ErrMetaJSON | ErrFrame frame_error

definition WriteAttachmentFrame ::
  "(AttachmentMeta \<Rightarrow> bytes option) \<Rightarrow> AttachmentMeta \<Rightarrow> bytes \<Rightarrow> Limits \<Rightarrow> writer \<Rightarrow> writer \<times> attachment_error option"
where
  "WriteAttachmentFrame json meta data lim w =
     (if Meta_Bytes meta \<noteq> int (length data) then (w, Some ErrMetaBytes)
      else case json meta of
             None \<Rightarrow> (w, Some ErrMetaJSON)
           | Some metaJSON \<Rightarrow>
               (case WriteFrame FrameAttachment (attachment_payload metaJSON data) lim w of
                  (w, err) \<Rightarrow> (w, map_option ErrFrame err)))"

definition DecodeAttachmentMeta ::
  "(bytes \<Rightarrow> AttachmentMeta option) \<Rightarrow> bytes \<Rightarrow> ProtocolError + AttachmentMeta" where
  "DecodeAttachmentMeta decode payload =
     (case decode payload of
        None \<Rightarrow> Inl invalid_frame
      | Some meta \<Rightarrow> if Meta_AttachmentID meta = [] \<or> Meta_MIME meta = [] then Inl invalid_frame else Inr meta)"


section \<open>Headers\<close>

lemma bit_attachmentFlag: "bit attachmentFlag n \<longleftrightarrow> n = 31"
  unfolding attachmentFlag_def bit_push_bit_iff bit_1_iff by auto

lemma small_bit31: "n < 2 ^ 31 \<Longrightarrow> \<not> bit (of_nat n :: 32 word) 31"
  by (simp add: bit_simps) (simp add: bit_iff_odd)

lemma header_json:
  assumes "n < 2 ^ 31"
  shows "(of_nat n :: 32 word) AND attachmentFlag = 0" and "unat ((of_nat n :: 32 word) AND NOT attachmentFlag) = n"
proof -
  have bits: "bit (of_nat n :: 32 word) k \<Longrightarrow> k \<noteq> 31" for k using small_bit31 [OF assms] by auto
  show "(of_nat n :: 32 word) AND attachmentFlag = 0"
    by (rule bit_word_eqI) (auto simp: bit_and_iff bit_attachmentFlag dest: bits)
  have "(of_nat n :: 32 word) AND NOT attachmentFlag = of_nat n"
    by (rule bit_word_eqI) (auto simp: bit_and_iff bit_not_iff bit_attachmentFlag dest: bits)
  moreover have "n < 2 ^ LENGTH(32)" using assms by simp
  ultimately show "unat ((of_nat n :: 32 word) AND NOT attachmentFlag) = n"
    by (simp add: unat_of_nat take_bit_nat_eq_self)
qed

lemma header_attachment:
  assumes "n < 2 ^ 31"
  shows "((of_nat n :: 32 word) OR attachmentFlag) AND attachmentFlag \<noteq> 0"
    and "unat (((of_nat n :: 32 word) OR attachmentFlag) AND NOT attachmentFlag) = n"
proof -
  have "bit (((of_nat n :: 32 word) OR attachmentFlag) AND attachmentFlag) 31"
    by (simp add: bit_and_iff bit_or_iff bit_attachmentFlag)
  then show "((of_nat n :: 32 word) OR attachmentFlag) AND attachmentFlag \<noteq> 0" by auto
  have "((of_nat n :: 32 word) OR attachmentFlag) AND NOT attachmentFlag = of_nat n AND NOT attachmentFlag"
    by (rule bit_word_eqI) (auto simp: bit_and_iff bit_or_iff bit_not_iff)
  then show "unat (((of_nat n :: 32 word) OR attachmentFlag) AND NOT attachmentFlag) = n" using header_json(2) [OF assms] by simp
qed

section \<open>A stream of frames\<close>

text \<open>What is sent over a connection, and the frame that a reader gets for it.\<close>

datatype wire = WireJSON bytes | WireAttachment bytes bytes

fun wire_kind :: "wire \<Rightarrow> FrameKind" where
  "wire_kind (WireJSON p) = FrameJSON"
| "wire_kind (WireAttachment meta data) = FrameAttachment"

fun wire_payload :: "wire \<Rightarrow> bytes" where
  "wire_payload (WireJSON p) = p"
| "wire_payload (WireAttachment meta data) = attachment_payload meta data"

fun wire_frame :: "wire \<Rightarrow> FrameKind \<times> bytes \<times> bytes" where
  "wire_frame (WireJSON p) = (FrameJSON, p, [])"
| "wire_frame (WireAttachment meta data) = (FrameAttachment, meta, data)"

fun write_wires :: "Limits \<Rightarrow> wire list \<Rightarrow> writer \<Rightarrow> writer \<times> frame_error option" where
  "write_wires lim [] w = (w, None)"
| "write_wires lim (x # xs) w =
     (case WriteFrame (wire_kind x) (wire_payload x) lim w of
        (w, Some e) \<Rightarrow> (w, Some e)
      | (w, None) \<Rightarrow> write_wires lim xs w)"

text \<open>The reading loop of a connection: frames until the first error.\<close>

lemma ReadFull_shrinks: "ReadFull n r = (r', x) \<Longrightarrow> length (rd_bytes r') \<le> length (rd_bytes r)"
  by (auto simp: ReadFull_def split: if_splits)

lemma ReadFrame_shrinks: "ReadFrame lim r = (r', Inr f) \<Longrightarrow> length (rd_bytes r') < length (rd_bytes r)"
proof -
  assume read: "ReadFrame lim r = (r', Inr f)"
  then obtain r1 h n x where h: "ReadFull 4 r = (r1, Inr h)" "ReadFull n r1 = (r', x)"
    by (auto simp: ReadFrame_def Let_def split: prod.splits sum.splits if_splits)
  then have "length (rd_bytes r1) < length (rd_bytes r)" by (auto simp: ReadFull_def split: if_splits)
  then show ?thesis using ReadFull_shrinks [OF h(2)] by simp
qed

function read_frames :: "Limits \<Rightarrow> reader \<Rightarrow> (FrameKind \<times> bytes \<times> bytes) list \<times> frame_error" where
  "read_frames lim r =
     (case ReadFrame lim r of
        (r, Inl e) \<Rightarrow> ([], e)
      | (r, Inr f) \<Rightarrow> let (fs, e) = read_frames lim r in (f # fs, e))"
  by pat_completeness auto
termination
  by (relation "measure (\<lambda>(lim, r). length (rd_bytes r))") (auto dest: ReadFrame_shrinks sym)

declare read_frames.simps [simp del]

definition wire_ok :: "Limits \<Rightarrow> wire \<Rightarrow> bool" where
  "wire_ok lim x \<longleftrightarrow> wire_payload x \<noteq> [] \<and> int (length (wire_payload x)) \<le> frame_max (WithDefaults lim) (wire_kind x) \<and>
     (case x of WireAttachment meta data \<Rightarrow> meta \<noteq> [] | _ \<Rightarrow> True)"

definition wire_bytes :: "wire \<Rightarrow> bytes" where
  "wire_bytes x =
     PutUint32 (if wire_kind x = FrameAttachment then of_nat (length (wire_payload x)) OR attachmentFlag
       else of_nat (length (wire_payload x))) @ wire_payload x"

lemma WriteFrame_ok:
  assumes "wire_ok lim x" and "wr_left w = None"
  shows "WriteFrame (wire_kind x) (wire_payload x) lim w = (w\<lparr>wr_bytes := wr_bytes w @ wire_bytes x\<rparr>, None)"
  using assms by (simp add: WriteFrame_def wire_ok_def Let_def Write_def wire_bytes_def)

lemma ReadFull_append: "ReadFull (length xs) \<lparr>rd_bytes = xs @ ys, rd_end = e\<rparr> = (\<lparr>rd_bytes = ys, rd_end = e\<rparr>, Inr xs)"
  by (simp add: ReadFull_def)

lemma ReadFrame_wire:
  assumes ok: "wire_ok lim x" and small: "frame_max (WithDefaults lim) (wire_kind x) < 2 ^ 31"
  shows "ReadFrame lim \<lparr>rd_bytes = wire_bytes x @ rest, rd_end = e\<rparr> = (\<lparr>rd_bytes = rest, rd_end = e\<rparr>, Inr (wire_frame x))"
proof -
  let ?n = "length (wire_payload x)"
  define hdr where "hdr = (if wire_kind x = FrameAttachment then of_nat ?n OR attachmentFlag else (of_nat ?n :: 32 word))"
  have n: "?n < 2 ^ 31" using ok small by (simp add: wire_ok_def)
  have head: "ReadFull 4 \<lparr>rd_bytes = wire_bytes x @ rest, rd_end = e\<rparr> =
      (\<lparr>rd_bytes = wire_payload x @ rest, rd_end = e\<rparr>, Inr (PutUint32 hdr))"
    using ReadFull_append [of "PutUint32 hdr" "wire_payload x @ rest" e] by (simp add: wire_bytes_def hdr_def)
  have kind: "(if hdr AND attachmentFlag \<noteq> 0 then FrameAttachment else FrameJSON) = wire_kind x"
    and len: "unat (hdr AND NOT attachmentFlag) = ?n"
    using header_json [OF n] header_attachment [OF n] by (cases x; simp add: hdr_def)+
  have body: "ReadFull ?n \<lparr>rd_bytes = wire_payload x @ rest, rd_end = e\<rparr> = (\<lparr>rd_bytes = rest, rd_end = e\<rparr>, Inr (wire_payload x))"
    by (rule ReadFull_append)
  have pos: "?n \<noteq> 0" "\<not> int ?n > frame_max (WithDefaults lim) (wire_kind x)" using ok by (auto simp: wire_ok_def)
  show ?thesis
  proof (cases x)
    case (WireJSON p)
    then show ?thesis using head kind len body pos by (simp add: ReadFrame_def Let_def)
  next
    case (WireAttachment meta data)
    have ml: "length meta < 2 ^ 32" using n WireAttachment by (simp add: attachment_payload_def)
    have mn: "unat (of_nat (length meta) :: 32 word) = length meta"
      using ml by (simp add: unat_of_nat take_bit_nat_eq_self)
    have "take 4 (attachment_payload meta data) = PutUint32 (of_nat (length meta))"
      "drop 4 (attachment_payload meta data) = meta @ data"
      "drop (4 + length meta) (attachment_payload meta data) = data"
      "length (attachment_payload meta data) = 4 + length meta + length data"
      by (simp_all add: attachment_payload_def)
    moreover have "meta \<noteq> []" using ok WireAttachment by (simp add: wire_ok_def)
    ultimately show ?thesis using head kind len body pos WireAttachment mn by (simp add: ReadFrame_def Let_def)
  qed
qed

lemma write_wires_ok:
  assumes "\<forall>x \<in> set xs. wire_ok lim x" and "wr_left w = None"
  shows "write_wires lim xs w = (w\<lparr>wr_bytes := wr_bytes w @ concat (map wire_bytes xs)\<rparr>, None)"
  using assms by (induction xs arbitrary: w) (simp_all add: WriteFrame_ok)

lemma read_frames_wires:
  assumes "\<forall>x \<in> set xs. wire_ok lim x" and "\<forall>k. frame_max (WithDefaults lim) k < 2 ^ 31"
  shows "read_frames lim \<lparr>rd_bytes = concat (map wire_bytes xs), rd_end = PeerClosed\<rparr> = (map wire_frame xs, EOF)"
  using assms(1)
proof (induction xs)
  case Nil
  show ?case by (subst read_frames.simps) (simp add: ReadFrame_def ReadFull_def Let_def)
next
  case (Cons x xs)
  have "ReadFrame lim \<lparr>rd_bytes = wire_bytes x @ concat (map wire_bytes xs), rd_end = PeerClosed\<rparr> =
      (\<lparr>rd_bytes = concat (map wire_bytes xs), rd_end = PeerClosed\<rparr>, Inr (wire_frame x))"
    using Cons.prems assms(2) by (intro ReadFrame_wire) auto
  with Cons show ?case by (subst read_frames.simps) simp
qed

lemma default_limits_small [simp]: "frame_max (WithDefaults \<lparr>MaxJSON = 0, MaxAttachment = 0\<rparr>) k < 2 ^ 31"
  by (simp add: WithDefaults_def frame_max_def Let_def)

text \<open>
  Frames survive the wire. When every message is non-empty and within the limits (and the limits fit the 31
  bits of the length), writing the messages one after the other succeeds, and reading the bytes written, from
  a peer that then closes, gives back exactly these messages in this order, JSON payloads as they were and
  attachments split into meta block and data, followed by a clean end of stream.
\<close>

theorem frames_roundtrip:
  assumes "\<forall>x \<in> set msgs. wire_ok lim x"
    and "\<forall>k. frame_max (WithDefaults lim) k < 2 ^ 31"
  shows "\<exists>out. write_wires lim msgs \<lparr>wr_bytes = [], wr_left = None\<rparr> = (\<lparr>wr_bytes = out, wr_left = None\<rparr>, None) \<and>
     read_frames lim \<lparr>rd_bytes = out, rd_end = PeerClosed\<rparr> = (map wire_frame msgs, EOF)"
proof -
  have "write_wires lim msgs \<lparr>wr_bytes = [], wr_left = None\<rparr> =
      (\<lparr>wr_bytes = concat (map wire_bytes msgs), wr_left = None\<rparr>, None)"
    using write_wires_ok [OF assms(1), of "\<lparr>wr_bytes = [], wr_left = None\<rparr>"] by simp
  then show ?thesis using read_frames_wires [OF assms] by blast
qed

lemma frames_roundtrip_witness:
  "\<exists>out. write_wires \<lparr>MaxJSON = 0, MaxAttachment = 0\<rparr> [WireJSON [123, 125], WireAttachment [123, 125] [1, 2, 3]]
       \<lparr>wr_bytes = [], wr_left = None\<rparr> = (\<lparr>wr_bytes = out, wr_left = None\<rparr>, None) \<and>
     read_frames \<lparr>MaxJSON = 0, MaxAttachment = 0\<rparr> \<lparr>rd_bytes = out, rd_end = PeerClosed\<rparr> =
       ([(FrameJSON, [123, 125], []), (FrameAttachment, [123, 125], [1, 2, 3])], EOF)"
  using frames_roundtrip [of "[WireJSON [123, 125], WireAttachment [123, 125] [1, 2, 3]]" "\<lparr>MaxJSON = 0, MaxAttachment = 0\<rparr>"]
  by (simp add: wire_ok_def WithDefaults_def frame_max_def Let_def attachment_payload_def PutUint32_def)

end
