(* ===== verification/HostMethods.thy ===== *)
theory HostMethods
  imports HostFrame
begin

text \<open>
  The vocabulary of Host IPC: error codes (\<open>internal/hostipc/errors.go\<close>), the version and capability negotiation
  of the handshake (\<open>hello.go\<close>), the method table with its roles and directions (\<open>methods.go\<close>) and JSON-RPC
  messages (\<open>jsonrpc.go\<close>).

  Raw JSON is text. What \<open>encoding/json\<close> does with them is a record of functions, \<open>json_codec\<close>, that every
  definition takes as an argument; no theorem assumes anything of it unless it says so. The human-readable text
  of an error (\<open>Message\<close>, \<open>Detail\<close>) is left out: no code branches on it.
\<close>

section \<open>Errors\<close>

abbreviation CodeParse :: int where "CodeParse \<equiv> - 32700"
abbreviation CodeUnsupported :: int where "CodeUnsupported \<equiv> - 32601"
abbreviation CodeInvalidParams :: int where "CodeInvalidParams \<equiv> - 32602"
abbreviation CodeInternal :: int where "CodeInternal \<equiv> - 32603"
abbreviation CodeProtocolMajorMismatch :: int where "CodeProtocolMajorMismatch \<equiv> - 32000"
abbreviation CodeProtocolMinorUnsupported :: int where "CodeProtocolMinorUnsupported \<equiv> - 32001"
abbreviation CodeNotInitialized :: int where "CodeNotInitialized \<equiv> - 32002"
abbreviation CodeUnauthorizedPeer :: int where "CodeUnauthorizedPeer \<equiv> - 32010"
abbreviation CodeRoleForbidden :: int where "CodeRoleForbidden \<equiv> - 32011"

text \<open>\<open>Data\<close> is a pointer: \<open>None\<close> is nil, \<open>Some\<close> holds the reason.\<close>

record IPCError =
  Err_Code :: int
  Err_Data :: "string option"

definition NewError :: "int \<Rightarrow> string \<Rightarrow> IPCError" where
  "NewError code reason = \<lparr>Err_Code = code, Err_Data = Some reason\<rparr>"

definition errProtocolMajor :: IPCError where
  "errProtocolMajor = NewError CodeProtocolMajorMismatch ''protocol_major_mismatch''"

definition errProtocolMinor :: IPCError where
  "errProtocolMinor = NewError CodeProtocolMinorUnsupported ''protocol_minor_unsupported''"

definition errNotInitialized :: IPCError where
  "errNotInitialized = NewError CodeNotInitialized ''not_initialized''"

definition errUnauthorized :: "string \<Rightarrow> IPCError" where
  "errUnauthorized reason = NewError CodeUnauthorizedPeer reason"

definition errRoleForbidden :: IPCError where
  "errRoleForbidden = NewError CodeRoleForbidden ''role_forbidden''"

definition errUnsupported :: IPCError where
  "errUnsupported = NewError CodeUnsupported ''unsupported''"

definition errInvalidParams :: IPCError where
  "errInvalidParams = NewError CodeInvalidParams ''invalid_params''"

definition errInternal :: IPCError where
  "errInternal = NewError CodeInternal ''internal''"

lemmas ipc_error_defs = NewError_def errProtocolMajor_def errProtocolMinor_def errNotInitialized_def
  errUnauthorized_def errRoleForbidden_def errUnsupported_def errInvalidParams_def errInternal_def

section \<open>Handshake\<close>

record Protocol =
  Major :: int
  Minor :: int

abbreviation ProtocolMajor :: int where "ProtocolMajor \<equiv> 1"
abbreviation DefaultProtocolMinor :: int where "DefaultProtocolMinor \<equiv> 0"

type_synonym Role = string

abbreviation RoleApp :: Role where "RoleApp \<equiv> ''app''"
abbreviation RoleDiagnostics :: Role where "RoleDiagnostics \<equiv> ''diagnostics''"
abbreviation RoleHarness :: Role where "RoleHarness \<equiv> ''harness''"

definition Known :: "Role \<Rightarrow> bool" where
  "Known r = (r \<in> set [RoleApp, RoleDiagnostics, RoleHarness])"

definition Role_CallerClass :: "Role \<Rightarrow> string" where
  "Role_CallerClass r = (if r = RoleApp then ''local_ui'' else ''local_mcp'')"

type_synonym Capability = string

record HelloParams =
  Hello_Protocol :: Protocol
  Hello_AppVersion :: string
  Hello_Role :: Role
  Hello_Capabilities :: "Capability list"
  Hello_BundleID :: string
  Hello_TeamID :: string
  Hello_PID :: int

definition zero_hello :: HelloParams where
  "zero_hello = \<lparr>Hello_Protocol = \<lparr>Major = 0, Minor = 0\<rparr>, Hello_AppVersion = [], Hello_Role = [],
     Hello_Capabilities = [], Hello_BundleID = [], Hello_TeamID = [], Hello_PID = 0\<rparr>"

record HelloResult =
  Res_Accepted :: bool
  Res_Protocol :: Protocol
  Res_DaemonVersion :: string
  Res_Capabilities :: "Capability list"
  Res_Role :: Role
  Res_SignatureVerified :: bool
  Res_PeerUID :: "32 word"

definition SupportedClientMinors :: "int \<Rightarrow> int list" where
  "SupportedClientMinors daemonMinor = [daemonMinor] @ (if daemonMinor > 0 then [daemonMinor - 1] else [])"

definition Negotiate :: "Protocol \<Rightarrow> Protocol \<Rightarrow> IPCError + Protocol" where
  "Negotiate daemon client =
     (if Major client \<noteq> Major daemon then Inl errProtocolMajor
      else if Minor client \<in> set (SupportedClientMinors (Minor daemon))
      then Inr \<lparr>Major = Major daemon, Minor = Minor client\<rparr>
      else Inl errProtocolMinor)"

fun NegotiateCapabilities_loop :: "Capability list \<Rightarrow> Capability list \<Rightarrow> Capability list \<Rightarrow> Capability list" where
  "NegotiateCapabilities_loop offers out [] = out"
| "NegotiateCapabilities_loop offers out (c # cs) =
     NegotiateCapabilities_loop offers (if c \<in> set offers \<and> c \<notin> set out then out @ [c] else out) cs"

definition NegotiateCapabilities :: "Capability list \<Rightarrow> Capability list \<Rightarrow> Capability list" where
  "NegotiateCapabilities daemon client = NegotiateCapabilities_loop daemon [] client"

section \<open>Methods\<close>

datatype Direction = AppToDaemon | DaemonToApp | DaemonToAppNotification

record MethodSpec =
  Spec_Name :: string
  Spec_Direction :: Direction
  Spec_Roles :: "Role list"
  Spec_Implemented :: bool

definition method_row :: "string \<Rightarrow> Direction \<Rightarrow> Role list \<Rightarrow> bool \<Rightarrow> MethodSpec" where
  "method_row n d rs i = \<lparr>Spec_Name = n, Spec_Direction = d, Spec_Roles = rs, Spec_Implemented = i\<rparr>"

abbreviation MethodHello :: string where "MethodHello \<equiv> ''host.hello''"

definition methodTable :: "MethodSpec list" where
  "methodTable =
     [method_row MethodHello AppToDaemon [RoleApp, RoleDiagnostics, RoleHarness] True,
      method_row ''host.health'' AppToDaemon [RoleApp, RoleDiagnostics, RoleHarness] True,
      method_row ''host.native_host_smoke'' AppToDaemon [RoleApp, RoleDiagnostics, RoleHarness] True,
      method_row ''host.phase0_probe'' AppToDaemon [RoleApp, RoleDiagnostics] False,
      method_row ''host.prepare_restart'' AppToDaemon [RoleApp] False,
      method_row ''runtime.health'' AppToDaemon [RoleApp] False,
      method_row ''runtime.events'' AppToDaemon [RoleApp] False,
      method_row ''runtime.command'' AppToDaemon [RoleApp] False,
      method_row ''approval.decision'' AppToDaemon [RoleApp] False,
      method_row ''computer.describe'' DaemonToApp [RoleApp] False,
      method_row ''computer.targets'' DaemonToApp [RoleApp] False,
      method_row ''computer.open_session'' DaemonToApp [RoleApp] False,
      method_row ''computer.observe'' DaemonToApp [RoleApp] False,
      method_row ''computer.act'' DaemonToApp [RoleApp] False,
      method_row ''computer.control'' DaemonToApp [RoleApp] False,
      method_row ''computer.close_session'' DaemonToApp [RoleApp] False,
      method_row ''approval.present'' DaemonToApp [RoleApp] False,
      method_row ''approval.cancel'' DaemonToApp [RoleApp] False,
      method_row ''notify.post'' DaemonToAppNotification [RoleApp] True]"

text \<open>The index is filled in the order of the table: a later row of the same name replaces an earlier one.\<close>

definition methodIndex :: "string \<Rightarrow> MethodSpec option" where
  "methodIndex = fold (\<lambda>spec m. m(Spec_Name spec \<mapsto> spec)) methodTable Map.empty"

definition LookupMethod :: "string \<Rightarrow> MethodSpec option" where
  "LookupMethod name = methodIndex name"

definition Phase0Implemented :: "string \<Rightarrow> bool" where
  "Phase0Implemented method = (case methodIndex method of None \<Rightarrow> False | Some spec \<Rightarrow> Spec_Implemented spec)"

definition ServableByDaemon :: "string \<Rightarrow> bool" where
  "ServableByDaemon method =
     (case methodIndex method of None \<Rightarrow> False | Some spec \<Rightarrow> Spec_Direction spec = AppToDaemon)"

definition RoleAllowed :: "MethodSpec \<Rightarrow> Role \<Rightarrow> bool" where
  "RoleAllowed spec role = (role \<in> set (Spec_Roles spec))"

definition Authorize :: "string \<Rightarrow> Role \<Rightarrow> IPCError + MethodSpec" where
  "Authorize method role =
     (case LookupMethod method of
        None \<Rightarrow> Inl errUnsupported
      | Some spec \<Rightarrow>
          if Spec_Direction spec \<noteq> AppToDaemon then Inl errUnsupported
          else if \<not> RoleAllowed spec role then Inl errRoleForbidden
          else Inr spec)"

section \<open>JSON-RPC messages\<close>

text \<open>\<open>json.RawMessage\<close> is a byte slice; like every string of the development it is a list of 8-bit characters.\<close>

type_synonym RawMessage = string

definition payload_string :: "bytes \<Rightarrow> string" where
  "payload_string bs = map (\<lambda>b. char_of (unat b)) bs"

definition string_payload :: "string \<Rightarrow> bytes" where
  "string_payload s = map (\<lambda>c. of_nat (of_char c)) s"

record IPCMessage =
  JSONRPC :: string
  Msg_ID :: RawMessage
  Msg_Method :: string
  Msg_Params :: RawMessage
  Msg_Result :: RawMessage
  Msg_Error :: "IPCError option"

datatype MessageKind = KindUnknown | KindRequest | KindNotification | KindResponse

definition Kind :: "IPCMessage \<Rightarrow> MessageKind" where
  "Kind m =
     (if Msg_Method m \<noteq> [] \<and> Msg_ID m \<noteq> [] then KindRequest
      else if Msg_Method m \<noteq> [] then KindNotification
      else if Msg_ID m \<noteq> [] \<and> (Msg_Result m \<noteq> [] \<or> Msg_Error m \<noteq> None) then KindResponse
      else KindUnknown)"

text \<open>A value handed to \<open>json.Marshal\<close>: nil, a value with its encoding, or one that cannot be encoded.\<close>

datatype go_value = NilValue | Encodes RawMessage | NotEncodable

fun marshalOptional :: "go_value \<Rightarrow> RawMessage option" where
  "marshalOptional NilValue = Some []"
| "marshalOptional (Encodes raw) = Some raw"
| "marshalOptional NotEncodable = None"

abbreviation JSONRPCVersion :: string where "JSONRPCVersion \<equiv> ''2.0''"

definition NewRequest :: "RawMessage \<Rightarrow> string \<Rightarrow> go_value \<Rightarrow> IPCMessage option" where
  "NewRequest i method params =
     (case marshalOptional params of
        None \<Rightarrow> None
      | Some raw \<Rightarrow>
          Some \<lparr>JSONRPC = JSONRPCVersion, Msg_ID = (if i = [] then ''\"1\"'' else i), Msg_Method = method,
            Msg_Params = raw, Msg_Result = [], Msg_Error = None\<rparr>)"

definition NewNotification :: "string \<Rightarrow> go_value \<Rightarrow> IPCMessage option" where
  "NewNotification method params =
     (case marshalOptional params of
        None \<Rightarrow> None
      | Some raw \<Rightarrow>
          Some \<lparr>JSONRPC = JSONRPCVersion, Msg_ID = [], Msg_Method = method, Msg_Params = raw, Msg_Result = [],
            Msg_Error = None\<rparr>)"

definition NewResponse :: "RawMessage \<Rightarrow> go_value \<Rightarrow> IPCMessage option" where
  "NewResponse i result =
     (case marshalOptional result of
        None \<Rightarrow> None
      | Some raw \<Rightarrow>
          Some \<lparr>JSONRPC = JSONRPCVersion, Msg_ID = i, Msg_Method = [], Msg_Params = [],
            Msg_Result = (if raw = [] then ''null'' else raw), Msg_Error = None\<rparr>)"

definition NewErrorResponse :: "RawMessage \<Rightarrow> IPCError \<Rightarrow> IPCMessage" where
  "NewErrorResponse i e =
     \<lparr>JSONRPC = JSONRPCVersion, Msg_ID = (if i = [] then ''null'' else i), Msg_Method = [], Msg_Params = [],
       Msg_Result = [], Msg_Error = Some e\<rparr>"

text \<open>
  The uses of \<open>encoding/json\<close>: validity, decoding an object into a map of raw fields, decoding a message,
  decoding hello parameters (\<open>Decode\<close> and, after it, \<open>More\<close>), encoding a message, encoding a hello result.
\<close>

record json_codec =
  json_Valid :: "RawMessage \<Rightarrow> bool"
  json_fields :: "RawMessage \<Rightarrow> bool"
  json_message :: "RawMessage \<Rightarrow> IPCMessage option"
  json_hello :: "RawMessage \<Rightarrow> HelloParams option"
  json_More :: "RawMessage \<Rightarrow> bool"
  json_Marshal :: "IPCMessage \<Rightarrow> RawMessage option"
  json_hello_result :: "HelloResult \<Rightarrow> RawMessage"

definition DecodeMessage :: "json_codec \<Rightarrow> bytes \<Rightarrow> IPCError + IPCMessage" where
  "DecodeMessage js payload =
     (let trimmed = trim_space (payload_string payload)
      in if trimmed = [] \<or> \<not> json_Valid js trimmed then Inl (NewError CodeParse ''parse'')
         else if hd trimmed \<noteq> CHR ''{'' then Inl (NewError CodeInvalidRequest ''invalid_request'')
         else if \<not> json_fields js trimmed then Inl (NewError CodeInvalidRequest ''invalid_request'')
         else case json_message js trimmed of
                None \<Rightarrow> Inl (NewError CodeInvalidRequest ''invalid_request'')
              | Some m \<Rightarrow>
                  if JSONRPC m \<noteq> JSONRPCVersion then Inl (NewError CodeInvalidRequest ''invalid_request'')
                  else if Msg_Method m = [] \<and> Msg_ID m = [] then Inl (NewError CodeInvalidRequest ''invalid_request'')
                  else Inr m)"

text \<open>\<open>DecodeParams\<close> at the type of the hello parameters.\<close>

definition DecodeParams :: "json_codec \<Rightarrow> RawMessage \<Rightarrow> IPCError + HelloParams" where
  "DecodeParams js params =
     (let trimmed = trim_space params
      in if trimmed = [] \<or> trimmed = ''null'' then Inr zero_hello
         else case json_hello js trimmed of
                None \<Rightarrow> Inl errInvalidParams
              | Some v \<Rightarrow> if json_More js trimmed then Inl errInvalidParams else Inr v)"

section \<open>Lemmas\<close>

lemma methodTable_names: "distinct (map Spec_Name methodTable)"
  by (simp add: methodTable_def method_row_def)

lemma fold_index:
  "distinct (map Spec_Name xs) \<Longrightarrow> fold (\<lambda>spec m. m(Spec_Name spec \<mapsto> spec)) xs m n = Some spec \<longleftrightarrow>
     (spec \<in> set xs \<and> Spec_Name spec = n) \<or> (n \<notin> Spec_Name ` set xs \<and> m n = Some spec)"
  by (induction xs arbitrary: m) (auto simp: image_iff)

lemma LookupMethod_iff:
  "LookupMethod n = Some spec \<longleftrightarrow> spec \<in> set methodTable \<and> Spec_Name spec = n"
  unfolding LookupMethod_def methodIndex_def fold_index [OF methodTable_names] by simp

lemma Authorize_Inr:
  "Authorize method role = Inr spec \<longleftrightarrow>
     spec \<in> set methodTable \<and> Spec_Name spec = method \<and> Spec_Direction spec = AppToDaemon \<and>
     role \<in> set (Spec_Roles spec)"
  unfolding LookupMethod_iff [symmetric] conj_assoc [symmetric]
  by (auto simp: Authorize_def RoleAllowed_def split: option.splits)

lemma NegotiateCapabilities_loop_set:
  "set (NegotiateCapabilities_loop offers out cs) = set out \<union> (set offers \<inter> set cs)"
  by (induction offers out cs rule: NegotiateCapabilities_loop.induct) auto

lemma NegotiateCapabilities_loop_distinct:
  "distinct out \<Longrightarrow> distinct (NegotiateCapabilities_loop offers out cs)"
  by (induction offers out cs rule: NegotiateCapabilities_loop.induct) auto

lemma NegotiateCapabilities_spec:
  "set (NegotiateCapabilities daemon client) = set daemon \<inter> set client"
  "distinct (NegotiateCapabilities daemon client)"
  by (simp_all add: NegotiateCapabilities_def NegotiateCapabilities_loop_set NegotiateCapabilities_loop_distinct)

end
