(* ===== verification/HostServer.thy ===== *)
theory HostServer
  imports HostMethods
begin

text \<open>
  The daemon's side of Host IPC (\<open>internal/hostipc/server.go\<close>): connections, the handshake, the dispatch of
  requests, the daemon's own requests, and the server as a step relation in which the goroutines of the
  connections interleave.

  The operating system answers two questions during a handshake, in the record \<open>host_os\<close>: which process is at
  the other end now, and whether the signature of a process is valid; the answers may differ from one step to the
  next. The bytes that a peer will send are in the reader of its connection from the start, so a statement
  about all readers is one about all peers; a read deadline that expires is a reader that fails. Closing a
  socket makes its reader and its writer fail. Handlers are functions on a state \<open>'w\<close> that the server does
  not look into. Log lines are left out.
\<close>

section \<open>Connections\<close>

record PeerCred =
  Cred_UID :: "32 word"
  Cred_PID :: int

datatype sig_error = SignatureError string | OtherSigError

record host_os =
  os_PeerPID :: "int option"
  os_VerifyAppPeer :: "int \<Rightarrow> sig_error option"

text \<open>\<open>Opt_VerifyAppPeer\<close> tells whether a verifier is configured; its answers come from \<open>host_os\<close>.\<close>

record ServerOptions =
  Opt_Version :: string
  Opt_Protocol :: Protocol
  Opt_Capabilities :: "Capability list"
  Opt_Limits :: Limits
  Opt_UID :: "32 word"
  Opt_VerifyAppPeer :: bool

record Conn =
  c_cred :: PeerCred
  c_role :: Role
  c_negotiated :: Protocol
  c_capabilities :: "Capability list"
  c_helloSeen :: bool
  c_signatureVerified :: bool
  c_closed :: bool
  c_pendSeq :: "64 word"
  c_pending :: "RawMessage \<Rightarrow> IPCMessage option option"
  c_in :: reader
  c_out :: writer

definition newConn :: "PeerCred \<Rightarrow> reader \<Rightarrow> writer \<Rightarrow> Conn" where
  "newConn cred r w =
     \<lparr>c_cred = cred, c_role = [], c_negotiated = \<lparr>Major = 0, Minor = 0\<rparr>, c_capabilities = [], c_helloSeen = False,
      c_signatureVerified = False, c_closed = False, c_pendSeq = 0, c_pending = Map.empty, c_in = r, c_out = w\<rparr>"

definition setHandshaken :: "Role \<Rightarrow> Protocol \<Rightarrow> Capability list \<Rightarrow> bool \<Rightarrow> Conn \<Rightarrow> Conn" where
  "setHandshaken role p caps verified c =
     c\<lparr>c_role := role, c_negotiated := p, c_capabilities := caps, c_helloSeen := True, c_signatureVerified := verified\<rparr>"

definition Class :: "Conn \<Rightarrow> string" where
  "Class c = Role_CallerClass (c_role c)"

definition conn_Close :: "Conn \<Rightarrow> Conn" where
  "conn_Close c =
     (if c_closed c then c
      else c\<lparr>c_closed := True, c_in := \<lparr>rd_bytes = [], rd_end = ReadFails\<rparr>, c_out := (c_out c)\<lparr>wr_left := Some 0\<rparr>\<rparr>)"

definition send :: "json_codec \<Rightarrow> Limits \<Rightarrow> IPCMessage \<Rightarrow> Conn \<Rightarrow> Conn \<times> bool" where
  "send js lim msg c =
     (case json_Marshal js msg of
        None \<Rightarrow> (c, False)
      | Some payload \<Rightarrow>
          (case WriteFrame FrameJSON (string_payload payload) lim (c_out c) of
             (w, err) \<Rightarrow> (c\<lparr>c_out := w\<rparr>, err = None)))"

definition respond :: "json_codec \<Rightarrow> Limits \<Rightarrow> RawMessage \<Rightarrow> go_value \<Rightarrow> Conn \<Rightarrow> Conn \<times> bool" where
  "respond js lim i result c =
     (case NewResponse i result of
        None \<Rightarrow> send js lim (NewErrorResponse i errInternal) c
      | Some msg \<Rightarrow> send js lim msg c)"

definition respondError :: "json_codec \<Rightarrow> Limits \<Rightarrow> RawMessage \<Rightarrow> IPCError \<Rightarrow> Conn \<Rightarrow> Conn" where
  "respondError js lim i e c = fst (send js lim (NewErrorResponse i e) c)"

definition Notify :: "json_codec \<Rightarrow> Limits \<Rightarrow> string \<Rightarrow> go_value \<Rightarrow> Conn \<Rightarrow> Conn \<times> bool" where
  "Notify js lim method params c =
     (case NewNotification method params of None \<Rightarrow> (c, False) | Some msg \<Rightarrow> send js lim msg c)"

text \<open>The channel of a pending request has room for one message; a second one is dropped.\<close>

definition deliverResponse :: "IPCMessage \<Rightarrow> Conn \<Rightarrow> Conn" where
  "deliverResponse msg c =
     (case c_pending c (Msg_ID msg) of
        None \<Rightarrow> c
      | Some None \<Rightarrow> c\<lparr>c_pending := (c_pending c)(Msg_ID msg \<mapsto> Some msg)\<rparr>
      | Some (Some _) \<Rightarrow> c)"

text \<open>
  \<open>Request\<close> up to its wait, with the identifier waited for or the error, and from the end of its wait. The two
  parts are separate steps: the read loop runs in between. The request that gives up before its wait has
  already taken its entry out of \<open>pending\<close>.
\<close>

definition request_id :: "64 word \<Rightarrow> RawMessage" where
  "request_id n = ''\"d-'' @ show_nat (unat n) @ ''\"''"

definition forget_pending :: "RawMessage \<Rightarrow> Conn \<Rightarrow> Conn" where
  "forget_pending i c = c\<lparr>c_pending := (c_pending c)(i := None)\<rparr>"

definition Request_start ::
  "json_codec \<Rightarrow> Limits \<Rightarrow> string \<Rightarrow> go_value \<Rightarrow> Conn \<Rightarrow> Conn \<times> (IPCError + RawMessage)" where
  "Request_start js lim method params c =
     (let c = c\<lparr>c_pendSeq := c_pendSeq c + 1\<rparr>;
          i = request_id (c_pendSeq c);
          c = c\<lparr>c_pending := (c_pending c)(i \<mapsto> None)\<rparr>
      in case NewRequest i method params of
           None \<Rightarrow> (forget_pending i c, Inl errInternal)
         | Some msg \<Rightarrow>
             (case send js lim msg c of
                (c, False) \<Rightarrow> (forget_pending i c, Inl errInternal)
              | (c, True) \<Rightarrow> (c, Inr i)))"

datatype wait_end = CtxDone | ServerClosed | GotResponse

text \<open>\<open>None\<close>: the chosen case of the select is not ready. \<open>decode\<close> decodes the result into \<open>out\<close>, if it is not nil.\<close>

definition Request_end ::
  "(RawMessage \<Rightarrow> IPCError option) option \<Rightarrow> RawMessage \<Rightarrow> wait_end \<Rightarrow> Conn \<Rightarrow> (Conn \<times> (IPCError + RawMessage)) option"
where
  "Request_end decode i how c =
     (case how of
        CtxDone \<Rightarrow> Some (forget_pending i c, Inl errInternal)
      | ServerClosed \<Rightarrow> Some (forget_pending i c, Inl errInternal)
      | GotResponse \<Rightarrow>
          (case c_pending c i of
             Some (Some resp) \<Rightarrow>
               Some (forget_pending i c,
                 case Msg_Error resp of
                   Some e \<Rightarrow> Inl e
                 | None \<Rightarrow>
                     (case decode of
                        None \<Rightarrow> Inr (Msg_Result resp)
                      | Some f \<Rightarrow> (case f (Msg_Result resp) of Some e \<Rightarrow> Inl e | None \<Rightarrow> Inr (Msg_Result resp))))
           | _ \<Rightarrow> None))"

section \<open>Handshake and dispatch\<close>

text \<open>What is checked of a peer that claims the role \<open>app\<close>: the reason of a refusal.\<close>

definition app_refusal :: "ServerOptions \<Rightarrow> host_os \<Rightarrow> Conn \<Rightarrow> string option" where
  "app_refusal opt os c =
     (case os_PeerPID os of
        None \<Rightarrow> Some ''peer_pid_unavailable''
      | Some livePID \<Rightarrow>
          if livePID \<noteq> Cred_PID (c_cred c) then Some ''peer_pid_changed''
          else if \<not> Opt_VerifyAppPeer opt then Some ''signing_identity_not_configured''
          else case os_VerifyAppPeer os (Cred_PID (c_cred c)) of
                 None \<Rightarrow> None
               | Some (SignatureError reason) \<Rightarrow> Some (if reason \<noteq> [] then reason else ''app_signature_invalid'')
               | Some OtherSigError \<Rightarrow> Some ''app_signature_invalid'')"

definition handleHello ::
  "json_codec \<Rightarrow> ServerOptions \<Rightarrow> host_os \<Rightarrow> Conn \<Rightarrow> IPCMessage \<Rightarrow> Conn \<times> bool" where
  "handleHello js opt os c msg =
     (let refuse = (\<lambda>e. respondError js (Opt_Limits opt) (Msg_ID msg) e c)
      in if c_helloSeen c then (refuse (NewError CodeInvalidRequest ''invalid_request''), False)
         else case DecodeParams js (Msg_Params msg) of
           Inl perr \<Rightarrow> (refuse perr, True)
         | Inr params \<Rightarrow>
             if \<not> Known (Hello_Role params) then (refuse (NewError CodeInvalidParams ''unknown_role''), True)
             else case Negotiate (Opt_Protocol opt) (Hello_Protocol params) of
               Inl verr \<Rightarrow> (refuse verr, True)
             | Inr neg \<Rightarrow>
                 (case (if Hello_Role params = RoleApp then app_refusal opt os c else None) of
                    Some reason \<Rightarrow> (refuse (errUnauthorized reason), True)
                  | None \<Rightarrow>
                      let verified = (Hello_Role params = RoleApp);
                          c = setHandshaken (Hello_Role params) neg
                            (NegotiateCapabilities (Opt_Capabilities opt) (Hello_Capabilities params)) verified c;
                          result = \<lparr>Res_Accepted = True, Res_Protocol = neg, Res_DaemonVersion = Opt_Version opt,
                            Res_Capabilities = c_capabilities c, Res_Role = Hello_Role params,
                            Res_SignatureVerified = verified, Res_PeerUID = Cred_UID (c_cred c)\<rparr>
                      in (case respond js (Opt_Limits opt) (Msg_ID msg) (Encodes (json_hello_result js result)) c of
                            (c, ok) \<Rightarrow> (c, \<not> ok))))"

type_synonym 'w HandlerFunc = "Conn \<Rightarrow> RawMessage \<Rightarrow> 'w \<Rightarrow> 'w \<times> (IPCError + go_value)"

text \<open>How one turn of the read loop ends. Reading the reason of an error without data dereferences nil.\<close>

datatype serve_end = Continue | Return | Panic

text \<open>The result includes the handler calls made, each with the connection as the handler saw it.\<close>

definition handleRequest ::
  "json_codec \<Rightarrow> ServerOptions \<Rightarrow> (string \<Rightarrow> 'w HandlerFunc option) \<Rightarrow> host_os \<Rightarrow> Conn \<Rightarrow> IPCMessage \<Rightarrow> 'w \<Rightarrow>
   Conn \<times> 'w \<times> (Conn \<times> string) list \<times> serve_end"
where
  "handleRequest js opt handlers os c msg w =
     (let refuse = (\<lambda>e. respondError js (Opt_Limits opt) (Msg_ID msg) e c)
      in if Msg_Method msg = MethodHello
         then (case handleHello js opt os c msg of (c, closeAfter) \<Rightarrow> (c, w, [], if closeAfter then Return else Continue))
         else if \<not> c_helloSeen c then (refuse errNotInitialized, w, [], Return)
         else case Authorize (Msg_Method msg) (c_role c) of
           Inl aerr \<Rightarrow> (refuse aerr, w, [], Continue)
         | Inr _ \<Rightarrow>
             (case handlers (Msg_Method msg) of
                None \<Rightarrow> (refuse errUnsupported, w, [], Continue)
              | Some h \<Rightarrow>
                  (case h c (Msg_Params msg) w of
                     (w, Inl herr) \<Rightarrow>
                       if Err_Data herr = None then (c, w, [(c, Msg_Method msg)], Panic)
                       else (refuse herr, w, [(c, Msg_Method msg)], Continue)
                   | (w, Inr result) \<Rightarrow>
                       (case respond js (Opt_Limits opt) (Msg_ID msg) result c of
                          (c', ok) \<Rightarrow> (c', w, [(c, Msg_Method msg)], if ok then Continue else Return)))))"

text \<open>One turn of the loop of \<open>serveConn\<close>.\<close>

definition serve_frame ::
  "json_codec \<Rightarrow> ServerOptions \<Rightarrow> (string \<Rightarrow> 'w HandlerFunc option) \<Rightarrow> host_os \<Rightarrow> Conn \<Rightarrow> 'w \<Rightarrow>
   Conn \<times> 'w \<times> (Conn \<times> string) list \<times> serve_end"
where
  "serve_frame js opt handlers os c w =
     (let lim = Opt_Limits opt
      in case ReadFrame lim (c_in c) of
           (r, Inl err) \<Rightarrow>
             let c = c\<lparr>c_in := r\<rparr>
             in (case err of ErrProtocol p \<Rightarrow> respondError js lim [] (NewError (PE_Code p) (PE_Reason p)) c | _ \<Rightarrow> c,
                 w, [], Return)
         | (r, Inr (kind, payload, data)) \<Rightarrow>
             let c = c\<lparr>c_in := r\<rparr>
             in if kind = FrameAttachment
                then (respondError js lim [] (NewError CodeInvalidRequest ''invalid_request'') c, w, [], Return)
                else case DecodeMessage js payload of
                  Inl derr \<Rightarrow> (respondError js lim [] derr c, w, [], Return)
                | Inr msg \<Rightarrow>
                    (case Kind msg of
                       KindRequest \<Rightarrow> handleRequest js opt handlers os c msg w
                     | KindNotification \<Rightarrow> (c, w, [], Continue)
                     | KindResponse \<Rightarrow> (deliverResponse msg c, w, [], Continue)
                     | KindUnknown \<Rightarrow>
                         (respondError js lim (Msg_ID msg) (NewError CodeInvalidRequest ''invalid_request'') c, w, [],
                          Continue)))"

section \<open>The server\<close>

record 'w Server =
  srv_opt :: ServerOptions
  srv_closed :: bool
  srv_conns :: "(nat \<times> Conn) list"
  srv_handlers :: "string \<Rightarrow> 'w HandlerFunc option"

definition NewServer :: "32 word \<Rightarrow> ServerOptions \<Rightarrow> 'w Server" where
  "NewServer getuid opt =
     (let opt = (if Opt_UID opt = 0 then opt\<lparr>Opt_UID := getuid\<rparr> else opt);
          opt = (if Major (Opt_Protocol opt) = 0
                 then opt\<lparr>Opt_Protocol := \<lparr>Major = ProtocolMajor, Minor = DefaultProtocolMinor\<rparr>\<rparr> else opt)
      in \<lparr>srv_opt = opt, srv_closed = False, srv_conns = [], srv_handlers = Map.empty\<rparr>)"

text \<open>\<open>None\<close>: a panic.\<close>

definition Handle :: "string \<Rightarrow> 'w HandlerFunc \<Rightarrow> 'w Server \<Rightarrow> 'w Server option" where
  "Handle method h s =
     (case LookupMethod method of
        None \<Rightarrow> None
      | Some _ \<Rightarrow> Some (s\<lparr>srv_handlers := (srv_handlers s)(method \<mapsto> h)\<rparr>))"

definition ConnCount :: "'w Server \<Rightarrow> nat" where
  "ConnCount s = length (srv_conns s)"

definition HasHandler :: "string \<Rightarrow> 'w Server \<Rightarrow> bool \<times> bool" where
  "HasHandler method s = (srv_handlers s method \<noteq> None, LookupMethod method \<noteq> None)"

definition addConn :: "nat \<Rightarrow> Conn \<Rightarrow> 'w Server \<Rightarrow> 'w Server" where
  "addConn i c s = s\<lparr>srv_conns := (i, c) # srv_conns s\<rparr>"

definition removeConn :: "nat \<Rightarrow> 'w Server \<Rightarrow> 'w Server" where
  "removeConn i s = s\<lparr>srv_conns := filter (\<lambda>(j, c). j \<noteq> i) (srv_conns s)\<rparr>"

definition set_conn :: "nat \<Rightarrow> Conn \<Rightarrow> 'w Server \<Rightarrow> 'w Server" where
  "set_conn i c s = s\<lparr>srv_conns := map (\<lambda>(j, d). (j, if j = i then c else d)) (srv_conns s)\<rparr>"

definition Broadcast :: "json_codec \<Rightarrow> string \<Rightarrow> go_value \<Rightarrow> 'w Server \<Rightarrow> 'w Server \<times> bool" where
  "Broadcast js method params s =
     (case NewNotification method params of
        None \<Rightarrow> (s, False)
      | Some msg \<Rightarrow>
          (s\<lparr>srv_conns := map (\<lambda>(i, c). (i, if c_helloSeen c then fst (send js (Opt_Limits (srv_opt s)) msg c) else c))
               (srv_conns s)\<rparr>, True))"

definition Server_Close :: "'w Server \<Rightarrow> 'w Server" where
  "Server_Close s =
     (if srv_closed s then s
      else s\<lparr>srv_closed := True, srv_conns := map (\<lambda>(i, c). (i, conn_Close c)) (srv_conns s)\<rparr>)"

text \<open>The head of \<open>serveConn\<close>, up to its loop: \<open>cred\<close> is what the socket says of its peer, if it says anything.\<close>

definition admit :: "ServerOptions \<Rightarrow> PeerCred option \<Rightarrow> reader \<Rightarrow> writer \<Rightarrow> Conn option" where
  "admit opt cred r w =
     (case cred of
        None \<Rightarrow> None
      | Some cr \<Rightarrow> if Cred_UID cr \<noteq> Opt_UID opt then None else Some (newConn cr r w))"

section \<open>Steps\<close>

text \<open>
  Sockets that \<open>Serve\<close> has accepted but whose goroutine has not run yet are in \<open>ipc_accepted\<close>. Two histories
  are kept for the statements: the handler calls, with the connection as the handler saw it, and the processes
  that the operating system vouched for during a step of a connection.
\<close>

record 'w ipc_sys =
  ipc_srv :: "'w Server"
  ipc_accepted :: "(nat \<times> PeerCred option \<times> reader \<times> writer) list"
  ipc_next :: nat
  ipc_world :: 'w
  ipc_panicked :: bool
  ipc_calls :: "(nat \<times> Conn \<times> string) list"
  ipc_vouched :: "(nat \<times> int) list"

definition vouched :: "ServerOptions \<Rightarrow> host_os \<Rightarrow> nat \<Rightarrow> (nat \<times> int) list" where
  "vouched opt os i =
     (case os_PeerPID os of
        None \<Rightarrow> []
      | Some pid \<Rightarrow> if Opt_VerifyAppPeer opt \<and> os_VerifyAppPeer os pid = None then [(i, pid)] else [])"

definition frame_done ::
  "host_os \<Rightarrow> nat \<Rightarrow> Conn \<times> 'w \<times> (Conn \<times> string) list \<times> serve_end \<Rightarrow> 'w ipc_sys \<Rightarrow> 'w ipc_sys" where
  "frame_done os i res s =
     (case res of (c, w, calls, ending) \<Rightarrow>
        s\<lparr>ipc_srv := (if ending = Continue then set_conn i c (ipc_srv s) else removeConn i (ipc_srv s)),
          ipc_world := w, ipc_panicked := (ipc_panicked s \<or> ending = Panic),
          ipc_calls := ipc_calls s @ map (Pair i) calls,
          ipc_vouched := ipc_vouched s @ vouched (srv_opt (ipc_srv s)) os i\<rparr>)"

inductive ipc_step :: "json_codec \<Rightarrow> 'w ipc_sys \<Rightarrow> 'w ipc_sys \<Rightarrow> bool" for js where
  handle: "Handle method h (ipc_srv s) = Some srv \<Longrightarrow> ipc_step js s (s\<lparr>ipc_srv := srv\<rparr>)"
| accept: "\<not> srv_closed (ipc_srv s) \<Longrightarrow>
    ipc_step js s (s\<lparr>ipc_accepted := ipc_accepted s @ [(ipc_next s, cred, r, w)], ipc_next := ipc_next s + 1\<rparr>)"
| refuse: "(i, cred, r, w) \<in> set (ipc_accepted s) \<Longrightarrow> admit (srv_opt (ipc_srv s)) cred r w = None \<Longrightarrow>
    ipc_step js s (s\<lparr>ipc_accepted := remove1 (i, cred, r, w) (ipc_accepted s)\<rparr>)"
| serve: "(i, cred, r, w) \<in> set (ipc_accepted s) \<Longrightarrow> admit (srv_opt (ipc_srv s)) cred r w = Some c \<Longrightarrow>
    ipc_step js s (s\<lparr>ipc_accepted := remove1 (i, cred, r, w) (ipc_accepted s), ipc_srv := addConn i c (ipc_srv s)\<rparr>)"
| frame: "map_of (srv_conns (ipc_srv s)) i = Some c \<Longrightarrow>
    ipc_step js s (frame_done os i
      (serve_frame js (srv_opt (ipc_srv s)) (srv_handlers (ipc_srv s)) os c (ipc_world s)) s)"
| broadcast: "ipc_step js s (s\<lparr>ipc_srv := fst (Broadcast js method params (ipc_srv s))\<rparr>)"
| notify: "map_of (srv_conns (ipc_srv s)) i = Some c \<Longrightarrow>
    ipc_step js s (s\<lparr>ipc_srv := set_conn i (fst (Notify js (Opt_Limits (srv_opt (ipc_srv s))) method params c)) (ipc_srv s)\<rparr>)"
| request: "map_of (srv_conns (ipc_srv s)) i = Some c \<Longrightarrow>
    ipc_step js s (s\<lparr>ipc_srv :=
      set_conn i (fst (Request_start js (Opt_Limits (srv_opt (ipc_srv s))) method params c)) (ipc_srv s)\<rparr>)"
| request_end: "map_of (srv_conns (ipc_srv s)) i = Some c \<Longrightarrow> Request_end decode k how c = Some (c', res) \<Longrightarrow>
    ipc_step js s (s\<lparr>ipc_srv := set_conn i c' (ipc_srv s)\<rparr>)"
| conn_close: "map_of (srv_conns (ipc_srv s)) i = Some c \<Longrightarrow>
    ipc_step js s (s\<lparr>ipc_srv := set_conn i (conn_Close c) (ipc_srv s)\<rparr>)"
| server_close: "ipc_step js s (s\<lparr>ipc_srv := Server_Close (ipc_srv s)\<rparr>)"
| world: "ipc_step js s (s\<lparr>ipc_world := w\<rparr>)"

definition ipc_boot :: "32 word \<Rightarrow> ServerOptions \<Rightarrow> 'w \<Rightarrow> 'w ipc_sys" where
  "ipc_boot getuid opt w =
     \<lparr>ipc_srv = NewServer getuid opt, ipc_accepted = [], ipc_next = 0, ipc_world = w, ipc_panicked = False,
      ipc_calls = [], ipc_vouched = []\<rparr>"

inductive ipc_reach :: "json_codec \<Rightarrow> 'w ipc_sys \<Rightarrow> bool" for js where
  boot: "ipc_reach js (ipc_boot getuid opt w)"
| step: "ipc_reach js s \<Longrightarrow> ipc_step js s s' \<Longrightarrow> ipc_reach js s'"

end
