(* ===== verification/HostSafety.thy ===== *)
theory HostSafety
  imports HostServer
begin

text \<open>
  What the Host IPC server guarantees: who may call a handler (an invariant of the step relation), what a hello
  is accepted for, that each request gets one response, and that the daemon's own requests get their own
  answers.
\<close>

section \<open>The fields that decide about access\<close>

definition auth_view :: "Conn \<Rightarrow> PeerCred \<times> Role \<times> Protocol \<times> Capability list \<times> bool \<times> bool" where
  "auth_view c = (c_cred c, c_role c, c_negotiated c, c_capabilities c, c_helloSeen c, c_signatureVerified c)"

lemma auth_view_frame [simp]:
  "auth_view (c\<lparr>c_in := r\<rparr>) = auth_view c" "auth_view (c\<lparr>c_out := w\<rparr>) = auth_view c"
  "auth_view (c\<lparr>c_pending := p\<rparr>) = auth_view c" "auth_view (c\<lparr>c_pendSeq := n\<rparr>) = auth_view c"
  "auth_view (c\<lparr>c_closed := b\<rparr>) = auth_view c"
  by (simp_all add: auth_view_def)

lemma send_auth [simp]: "auth_view (fst (send js lim m c)) = auth_view c"
  by (simp add: send_def split: option.split prod.split)

lemma respond_auth [simp]: "auth_view (fst (respond js lim i v c)) = auth_view c"
  by (simp add: respond_def split: option.split)

lemma respondError_auth [simp]: "auth_view (respondError js lim i e c) = auth_view c"
  by (simp add: respondError_def)

lemma Notify_auth [simp]: "auth_view (fst (Notify js lim m v c)) = auth_view c"
  by (simp add: Notify_def split: option.split)

lemma deliverResponse_auth [simp]: "auth_view (deliverResponse m c) = auth_view c"
  by (simp add: deliverResponse_def split: option.split)

lemma conn_Close_auth [simp]: "auth_view (conn_Close c) = auth_view c"
  by (simp add: conn_Close_def)

lemma forget_pending_auth [simp]: "auth_view (forget_pending i c) = auth_view c"
  by (simp add: forget_pending_def)

lemma Request_start_auth [simp]: "auth_view (fst (Request_start js lim m v c)) = auth_view c"
proof -
  let ?i = "request_id (c_pendSeq c + 1)"
  let ?c = "c\<lparr>c_pendSeq := c_pendSeq c + 1, c_pending := (c_pending c)(?i \<mapsto> None)\<rparr>"
  show ?thesis
  proof (cases "NewRequest ?i m v")
    case (Some msg)
    obtain d ok where d: "send js lim msg ?c = (d, ok)" by (cases "send js lim msg ?c")
    then have "auth_view d = auth_view c" using send_auth [of js lim msg ?c] by simp
    with Some d show ?thesis by (cases ok) (simp_all add: Request_start_def Let_def)
  qed (simp add: Request_start_def Let_def)
qed

lemma Request_end_auth: "Request_end d i how c = Some (c', res) \<Longrightarrow> auth_view c' = auth_view c"
  by (auto simp: Request_end_def split: wait_end.splits option.splits)

section \<open>Invariant\<close>

definition conn_ok :: "ServerOptions \<Rightarrow> (nat \<times> int) set \<Rightarrow> nat \<Rightarrow> Conn \<Rightarrow> bool" where
  "conn_ok opt V i c \<longleftrightarrow>
     Cred_UID (c_cred c) = Opt_UID opt \<and>
     (c_helloSeen c \<longrightarrow>
        Known (c_role c) \<and> Major (c_negotiated c) = Major (Opt_Protocol opt) \<and>
        Minor (c_negotiated c) \<in> set (SupportedClientMinors (Minor (Opt_Protocol opt))) \<and>
        set (c_capabilities c) \<subseteq> set (Opt_Capabilities opt) \<and>
        c_signatureVerified c = (c_role c = RoleApp) \<and>
        (c_role c = RoleApp \<longrightarrow> (i, Cred_PID (c_cred c)) \<in> V))"

definition call_ok :: "ServerOptions \<Rightarrow> (nat \<times> int) set \<Rightarrow> nat \<times> Conn \<times> string \<Rightarrow> bool" where
  "call_ok opt V call \<longleftrightarrow>
     (case call of (i, c, method) \<Rightarrow>
        conn_ok opt V i c \<and> c_helloSeen c \<and> method \<noteq> MethodHello \<and>
        (\<exists>spec \<in> set methodTable. Spec_Name spec = method \<and> Spec_Direction spec = AppToDaemon \<and>
           c_role c \<in> set (Spec_Roles spec)))"

lemma conn_ok_auth: "auth_view c = auth_view d \<Longrightarrow> conn_ok opt V i c = conn_ok opt V i d"
  by (simp add: auth_view_def conn_ok_def)

lemma conn_ok_mono: "conn_ok opt V i c \<Longrightarrow> V \<subseteq> V' \<Longrightarrow> conn_ok opt V' i c"
  by (auto simp: conn_ok_def)

lemma call_ok_mono: "call_ok opt V call \<Longrightarrow> V \<subseteq> V' \<Longrightarrow> call_ok opt V' call"
  by (auto simp: call_ok_def intro: conn_ok_mono)

lemma app_refusal_None:
  "app_refusal opt os c = None \<longleftrightarrow>
     os_PeerPID os = Some (Cred_PID (c_cred c)) \<and> Opt_VerifyAppPeer opt \<and> os_VerifyAppPeer os (Cred_PID (c_cred c)) = None"
  by (auto simp: app_refusal_def split: option.splits sig_error.splits if_splits)

lemma Negotiate_Inr:
  "Negotiate d p = Inr neg \<longleftrightarrow>
     neg = \<lparr>Major = Major d, Minor = Minor p\<rparr> \<and> Major p = Major d \<and> Minor p \<in> set (SupportedClientMinors (Minor d))"
  by (auto simp: Negotiate_def)

text \<open>When a hello is accepted.\<close>

definition hello_accepts :: "json_codec \<Rightarrow> ServerOptions \<Rightarrow> host_os \<Rightarrow> Conn \<Rightarrow> IPCMessage \<Rightarrow> HelloParams \<Rightarrow> bool" where
  "hello_accepts js opt os c msg params \<longleftrightarrow>
     \<not> c_helloSeen c \<and> DecodeParams js (Msg_Params msg) = Inr params \<and> Known (Hello_Role params) \<and>
     Major (Hello_Protocol params) = Major (Opt_Protocol opt) \<and>
     Minor (Hello_Protocol params) \<in> set (SupportedClientMinors (Minor (Opt_Protocol opt))) \<and>
     (Hello_Role params = RoleApp \<longrightarrow>
        os_PeerPID os = Some (Cred_PID (c_cred c)) \<and> Opt_VerifyAppPeer opt \<and>
        os_VerifyAppPeer os (Cred_PID (c_cred c)) = None)"

lemma handleHello_accepted:
  assumes "hello_accepts js opt os c msg params"
  shows "auth_view (fst (handleHello js opt os c msg)) =
    (c_cred c, Hello_Role params, \<lparr>Major = Major (Opt_Protocol opt), Minor = Minor (Hello_Protocol params)\<rparr>,
     NegotiateCapabilities (Opt_Capabilities opt) (Hello_Capabilities params), True, Hello_Role params = RoleApp)"
proof -
  have "Negotiate (Opt_Protocol opt) (Hello_Protocol params) =
      Inr \<lparr>Major = Major (Opt_Protocol opt), Minor = Minor (Hello_Protocol params)\<rparr>"
    using assms by (simp add: hello_accepts_def Negotiate_Inr)
  moreover have "(if Hello_Role params = RoleApp then app_refusal opt os c else None) = None"
    using assms by (auto simp: hello_accepts_def app_refusal_None)
  ultimately show ?thesis using assms
    by (simp add: handleHello_def hello_accepts_def Let_def split_beta)
      (simp add: auth_view_def setHandshaken_def)
qed

lemma handleHello_refused:
  assumes "\<nexists>params. hello_accepts js opt os c msg params"
  shows "auth_view (fst (handleHello js opt os c msg)) = auth_view c \<and>
    (\<not> c_helloSeen c \<longrightarrow> snd (handleHello js opt os c msg))"
  using assms
  by (auto simp: handleHello_def hello_accepts_def Let_def Negotiate_Inr app_refusal_None
      split: sum.split option.split if_splits)

lemma handleHello_ok:
  assumes "conn_ok opt V i c" and V': "V \<union> set (vouched opt os i) \<subseteq> V'"
  shows "conn_ok opt V' i (fst (handleHello js opt os c msg))"
proof (cases "\<exists>params. hello_accepts js opt os c msg params")
  case True
  then obtain params where acc: "hello_accepts js opt os c msg params" ..
  have "(i, Cred_PID (c_cred c)) \<in> V'" if "Hello_Role params = RoleApp"
    using that acc V' by (auto simp: hello_accepts_def vouched_def)
  then show ?thesis
    using handleHello_accepted [OF acc] acc assms(1) NegotiateCapabilities_spec(1)
    by (auto simp: auth_view_def conn_ok_def hello_accepts_def)
next
  case False
  then have "conn_ok opt V i (fst (handleHello js opt os c msg))"
    using handleHello_refused assms(1) conn_ok_auth by blast
  then show ?thesis using V' by (auto intro: conn_ok_mono)
qed

definition frame_ok :: "ServerOptions \<Rightarrow> (nat \<times> int) set \<Rightarrow> nat \<Rightarrow> Conn \<times> 'w \<times> (Conn \<times> string) list \<times> serve_end \<Rightarrow> bool" where
  "frame_ok opt V i res \<longleftrightarrow>
     (case res of (c, w, calls, ending) \<Rightarrow> conn_ok opt V i c \<and> (\<forall>call \<in> set calls. call_ok opt V (i, call)))"

lemma frame_ok_same:
  "conn_ok opt V i c \<Longrightarrow> V \<subseteq> V' \<Longrightarrow> auth_view d = auth_view c \<Longrightarrow> frame_ok opt V' i (d, w, [], e)"
  using conn_ok_auth [of d c opt V' i] conn_ok_mono by (auto simp: frame_ok_def)

lemma handleRequest_ok:
  assumes ok: "conn_ok opt V i c" and V': "V \<union> set (vouched opt os i) \<subseteq> V'"
  shows "frame_ok opt V' i (handleRequest js opt handlers os c msg w)"
proof -
  have mono: "V \<subseteq> V'" using V' by simp
  consider (hello) "Msg_Method msg = MethodHello" | (early) "Msg_Method msg \<noteq> MethodHello" "\<not> c_helloSeen c"
    | (denied) e where "Msg_Method msg \<noteq> MethodHello" "c_helloSeen c" "Authorize (Msg_Method msg) (c_role c) = Inl e"
    | (allowed) spec where "Msg_Method msg \<noteq> MethodHello" "c_helloSeen c" "Authorize (Msg_Method msg) (c_role c) = Inr spec"
    by (cases "Authorize (Msg_Method msg) (c_role c)") auto
  then show ?thesis
  proof cases
    case hello
    then show ?thesis using handleHello_ok [OF ok V', of js msg]
      by (simp add: handleRequest_def frame_ok_def Let_def split_beta)
  next
    case early
    then show ?thesis by (simp add: handleRequest_def Let_def frame_ok_same [OF ok mono])
  next
    case denied
    then show ?thesis by (simp add: handleRequest_def Let_def frame_ok_same [OF ok mono])
  next
    case allowed
    have call: "call_ok opt V' (i, c, Msg_Method msg)"
      using allowed ok mono by (auto simp: call_ok_def Authorize_Inr intro: conn_ok_mono)
    have conn: "conn_ok opt V' i d" if "auth_view d = auth_view c" for d
      using that ok mono conn_ok_auth conn_ok_mono by blast
    have resp: "auth_view d = auth_view c" if "respond js lim k v c = (d, b)" for lim k v d b
      using respond_auth [of js lim k v c] that by simp
    show ?thesis using allowed call
      by (auto simp: handleRequest_def Let_def frame_ok_def intro!: conn dest: resp
          split: option.split prod.split sum.split)
  qed
qed

lemma serve_frame_ok:
  assumes ok: "conn_ok opt V i c" and V': "V \<union> set (vouched opt os i) \<subseteq> V'"
  shows "frame_ok opt V' i (serve_frame js opt handlers os c w)"
proof -
  have mono: "V \<subseteq> V'" using V' by simp
  note same = frame_ok_same [OF ok mono]
  have req: "frame_ok opt V' i (handleRequest js opt handlers os (c\<lparr>c_in := r\<rparr>) msg w)" for r msg
    using ok conn_ok_auth [of "c\<lparr>c_in := r\<rparr>" c] by (intro handleRequest_ok [OF _ V']) simp
  show ?thesis unfolding serve_frame_def Let_def
    by (auto intro!: same req split: prod.split sum.split frame_error.split MessageKind.split)
qed

definition ipc_inv :: "'w ipc_sys \<Rightarrow> bool" where
  "ipc_inv s \<longleftrightarrow>
     (\<forall>(i, c) \<in> set (srv_conns (ipc_srv s)). conn_ok (srv_opt (ipc_srv s)) (set (ipc_vouched s)) i c) \<and>
     (\<forall>call \<in> set (ipc_calls s). call_ok (srv_opt (ipc_srv s)) (set (ipc_vouched s)) call)"

lemma ipc_inv_frame_fields [simp]:
  "ipc_inv (s\<lparr>ipc_accepted := a\<rparr>) = ipc_inv s" "ipc_inv (s\<lparr>ipc_next := n\<rparr>) = ipc_inv s"
  "ipc_inv (s\<lparr>ipc_world := w\<rparr>) = ipc_inv s"
  by (simp_all add: ipc_inv_def)

lemma ipc_inv_conn:
  "ipc_inv s \<Longrightarrow> map_of (srv_conns (ipc_srv s)) i = Some c \<Longrightarrow>
     conn_ok (srv_opt (ipc_srv s)) (set (ipc_vouched s)) i c"
  by (auto simp: ipc_inv_def dest: map_of_SomeD)

lemma ipc_inv_set_conn:
  assumes "ipc_inv s" and "map_of (srv_conns (ipc_srv s)) i = Some c" and "auth_view d = auth_view c"
  shows "ipc_inv (s\<lparr>ipc_srv := set_conn i d (ipc_srv s)\<rparr>)"
proof -
  have "conn_ok (srv_opt (ipc_srv s)) (set (ipc_vouched s)) i d"
    using ipc_inv_conn [OF assms(1,2)] conn_ok_auth [OF assms(3)] by simp
  then show ?thesis using assms(1) by (auto simp: ipc_inv_def set_conn_def)
qed

lemma ipc_inv_map_conns:
  assumes "ipc_inv s" and "\<And>c. auth_view (f c) = auth_view c"
    and "srv_opt srv = srv_opt (ipc_srv s)" and "srv_conns srv = map (\<lambda>(i, c). (i, f c)) (srv_conns (ipc_srv s))"
  shows "ipc_inv (s\<lparr>ipc_srv := srv\<rparr>)"
  using assms(1,3,4) conn_ok_auth [OF assms(2)] by (auto simp: ipc_inv_def)

lemma ipc_inv_frame:
  assumes inv: "ipc_inv s" and c: "map_of (srv_conns (ipc_srv s)) i = Some c"
  shows "ipc_inv (frame_done os i
    (serve_frame js (srv_opt (ipc_srv s)) (srv_handlers (ipc_srv s)) os c (ipc_world s)) s)"
proof -
  let ?opt = "srv_opt (ipc_srv s)"
  let ?V = "set (ipc_vouched s)"
  let ?V' = "?V \<union> set (vouched ?opt os i)"
  obtain d w calls e where res: "serve_frame js ?opt (srv_handlers (ipc_srv s)) os c (ipc_world s) = (d, w, calls, e)"
    by (metis prod_cases4)
  have "frame_ok ?opt ?V' i (d, w, calls, e)"
    unfolding res [symmetric] by (rule serve_frame_ok [OF ipc_inv_conn [OF inv c]]) simp
  then have d: "conn_ok ?opt ?V' i d" and calls: "\<forall>call \<in> set calls. call_ok ?opt ?V' (i, call)"
    by (simp_all add: frame_ok_def)
  have old: "conn_ok ?opt ?V' j b" if "(j, b) \<in> set (srv_conns (ipc_srv s))" for j b
    by (rule conn_ok_mono [of _ ?V]) (use inv that in \<open>auto simp: ipc_inv_def\<close>)
  have hist: "call_ok ?opt ?V' call" if "call \<in> set (ipc_calls s)" for call
    by (rule call_ok_mono [of _ ?V]) (use inv that in \<open>auto simp: ipc_inv_def\<close>)
  have conns: "conn_ok ?opt ?V' j b"
    if "(j, b) \<in> set (srv_conns (if e = Continue then set_conn i d (ipc_srv s) else removeConn i (ipc_srv s)))" for j b
    using that d old by (auto simp: set_conn_def removeConn_def split: if_splits)
  have opt: "srv_opt (if e = Continue then set_conn i d (ipc_srv s) else removeConn i (ipc_srv s)) = ?opt"
    by (simp add: set_conn_def removeConn_def)
  have "call_ok ?opt ?V' call" if "call \<in> set (ipc_calls s @ map (Pair i) calls)" for call
    using that calls hist unfolding set_append set_map by blast
  with conns show ?thesis by (auto simp: res frame_done_def ipc_inv_def opt)
qed

lemma ipc_inv_step: "ipc_step js s s' \<Longrightarrow> ipc_inv s \<Longrightarrow> ipc_inv s'"
proof (induction rule: ipc_step.induct)
  case (handle mth h s srv)
  then show ?case by (auto simp: Handle_def ipc_inv_def split: option.splits)
next
  case (serve i cred r w s c)
  then have "conn_ok (srv_opt (ipc_srv s)) (set (ipc_vouched s)) i c"
    by (auto simp: admit_def newConn_def conn_ok_def split: option.splits if_splits)
  with serve show ?case by (auto simp: ipc_inv_def addConn_def)
next
  case (frame s i c os)
  then show ?case by (rule ipc_inv_frame [rotated])
next
  case (broadcast s mth params)
  then show ?case
  proof (cases "NewNotification mth params")
    case (Some msg)
    show ?thesis using broadcast Some
      by (intro ipc_inv_map_conns [where f = "\<lambda>c. if c_helloSeen c then fst (send js (Opt_Limits (srv_opt (ipc_srv s))) msg c) else c"])
        (simp_all add: Broadcast_def)
  qed (simp add: Broadcast_def ipc_inv_def)
next
  case (request_end s i c decode k how c' res)
  then show ?case using Request_end_auth by (intro ipc_inv_set_conn) auto
next
  case (server_close s)
  then show ?case by (cases "srv_closed (ipc_srv s)") (auto simp: Server_Close_def intro: ipc_inv_map_conns [where f = conn_Close])
qed (auto intro: ipc_inv_set_conn)


lemma ipc_reach_inv: "ipc_reach js s \<Longrightarrow> ipc_inv s"
proof (induction rule: ipc_reach.induct)
  case (boot getuid opt w)
  show ?case by (simp add: ipc_inv_def ipc_boot_def NewServer_def Let_def)
qed (rule ipc_inv_step)

text \<open>The verifier is configured whenever a process is vouched for, and the options never change.\<close>

lemma ipc_step_opt: "ipc_step js s s' \<Longrightarrow> srv_opt (ipc_srv s') = srv_opt (ipc_srv s)"
  by (induction rule: ipc_step.induct)
    (auto simp: Handle_def addConn_def removeConn_def set_conn_def Server_Close_def Broadcast_def frame_done_def
      split: option.splits prod.splits)

lemma ipc_reach_vouched: "ipc_reach js s \<Longrightarrow> ipc_vouched s \<noteq> [] \<Longrightarrow> Opt_VerifyAppPeer (srv_opt (ipc_srv s))"
proof (induction rule: ipc_reach.induct)
  case (step s s')
  from step.hyps(2) have "ipc_vouched s' = ipc_vouched s \<or> (\<exists>os i. ipc_vouched s' = ipc_vouched s @ vouched (srv_opt (ipc_srv s)) os i)"
    by (induction rule: ipc_step.induct) (auto simp: frame_done_def split: prod.splits)
  then show ?case using step ipc_step_opt [OF step.hyps(2)]
    by (auto simp: vouched_def split: option.splits if_splits)
qed (simp add: ipc_boot_def)

section \<open>Requests and responses\<close>

text \<open>\<open>sends_one js lim i c c'\<close>: from \<open>c\<close> to \<open>c'\<close> one response to the request \<open>i\<close> is sent, and nothing else is written.\<close>

definition sends_one :: "json_codec \<Rightarrow> Limits \<Rightarrow> RawMessage \<Rightarrow> Conn \<Rightarrow> Conn \<Rightarrow> bool" where
  "sends_one js lim i c c' \<longleftrightarrow>
     (\<exists>m. Msg_ID m = i \<and> Kind m = KindResponse \<and> c_out c' = c_out (fst (send js lim m c)))"

lemma error_response: "i \<noteq> [] \<Longrightarrow> Msg_ID (NewErrorResponse i e) = i \<and> Kind (NewErrorResponse i e) = KindResponse"
  by (simp add: NewErrorResponse_def Kind_def)

lemma new_response: "i \<noteq> [] \<Longrightarrow> NewResponse i v = Some m \<Longrightarrow> Msg_ID m = i \<and> Kind m = KindResponse"
  by (auto simp: NewResponse_def Kind_def split: option.splits if_splits)

lemma send_out_only: "c_out c = c_out d \<Longrightarrow> c_out (fst (send js lim m c)) = c_out (fst (send js lim m d))"
  by (simp add: send_def split: option.split prod.split)

lemma respondError_one: "i \<noteq> [] \<Longrightarrow> sends_one js lim i c (respondError js lim i e c)"
  unfolding sends_one_def respondError_def using error_response by blast

lemma respond_one:
  assumes "i \<noteq> []" and "c_out d = c_out c"
  shows "sends_one js lim i c (fst (respond js lim i v d))"
proof (cases "NewResponse i v")
  case None
  then show ?thesis using error_response [OF assms(1)] send_out_only [OF assms(2)]
    by (auto simp: sends_one_def respond_def)
next
  case (Some m)
  then show ?thesis using new_response [OF assms(1) Some] send_out_only [OF assms(2)]
    by (auto simp: sends_one_def respond_def)
qed

lemma handleHello_one:
  assumes "Msg_ID msg \<noteq> []"
  shows "sends_one js (Opt_Limits opt) (Msg_ID msg) c (fst (handleHello js opt os c msg))"
proof -
  have hs: "c_out (setHandshaken r p caps v c) = c_out c" for r p caps v by (simp add: setHandshaken_def)
  note one = respondError_one [OF assms] respond_one [OF assms hs]
  show ?thesis
    by (auto simp: handleHello_def Let_def split_beta intro!: one split: sum.split option.split)
qed

lemma handleRequest_one:
  assumes i: "Msg_ID msg \<noteq> []" and res: "handleRequest js opt handlers os c msg w = (c', w', calls, e)" and e: "e \<noteq> Panic"
  shows "sends_one js (Opt_Limits opt) (Msg_ID msg) c c'"
proof -
  note err = respondError_one [OF i]
  have resp: "sends_one js lim (Msg_ID msg) c d" if "respond js lim (Msg_ID msg) v c = (d, b)" for lim v d b
    using respond_one [OF i refl, of js lim c v] that by simp
  have hello: "sends_one js (Opt_Limits opt) (Msg_ID msg) c d" if "handleHello js opt os c msg = (d, b)" for d b
    using handleHello_one [OF i, of js opt c os] that by simp
  show ?thesis using res e
    by (auto simp: handleRequest_def Let_def intro: err resp hello
        split: if_splits sum.splits option.splits prod.splits)
qed

text \<open>The messages that wait in the channels of the daemon's own requests.\<close>

definition replies_ok :: "Conn \<Rightarrow> bool" where
  "replies_ok c \<longleftrightarrow> (\<forall>k m. c_pending c k = Some (Some m) \<longrightarrow> Msg_ID m = k \<and> Kind m = KindResponse)"

lemma send_pending [simp]: "c_pending (fst (send js lim m c)) = c_pending c"
  by (simp add: send_def split: option.split prod.split)

lemma respond_pending [simp]:
  "c_pending (fst (respond js lim i v c)) = c_pending c" "c_pending (respondError js lim i e c) = c_pending c"
  "c_pending (fst (Notify js lim method v c)) = c_pending c" "c_pending (conn_Close c) = c_pending c"
  by (simp_all add: respond_def respondError_def Notify_def conn_Close_def split: option.split)

lemma handleHello_pending [simp]: "c_pending (fst (handleHello js opt os c msg)) = c_pending c"
  by (simp add: handleHello_def Let_def split_beta setHandshaken_def split: sum.split option.split)

lemma handleRequest_pending [simp]: "c_pending (fst (handleRequest js opt handlers os c msg w)) = c_pending c"
  by (auto simp: handleRequest_def Let_def split_beta split: sum.split option.split)

lemma replies_ok_same: "c_pending d = c_pending c \<Longrightarrow> replies_ok c \<Longrightarrow> replies_ok d"
  by (simp add: replies_ok_def)

lemma forget_replies: "replies_ok c \<Longrightarrow> replies_ok (forget_pending i c)"
  by (simp add: replies_ok_def forget_pending_def)

lemma serve_frame_replies:
  assumes "replies_ok c"
  shows "replies_ok (fst (serve_frame js opt handlers os c w))"
proof -
  have del: "replies_ok (deliverResponse m (c\<lparr>c_in := r\<rparr>))" if "Kind m = KindResponse" for m r
    using assms that by (auto simp: replies_ok_def deliverResponse_def split: option.splits)
  show ?thesis using assms unfolding serve_frame_def Let_def
    by (auto intro!: del elim: replies_ok_same [rotated] split: prod.split sum.split frame_error.split MessageKind.split)
qed

lemma Request_start_replies:
  assumes "replies_ok c"
  shows "replies_ok (fst (Request_start js lim m v c))"
proof -
  let ?i = "request_id (c_pendSeq c + 1)"
  let ?c = "c\<lparr>c_pendSeq := c_pendSeq c + 1, c_pending := (c_pending c)(?i \<mapsto> None)\<rparr>"
  have c: "replies_ok ?c" using assms by (simp add: replies_ok_def)
  show ?thesis
  proof (cases "NewRequest ?i m v")
    case (Some msg)
    obtain d ok where d: "send js lim msg ?c = (d, ok)" by (cases "send js lim msg ?c")
    then have "replies_ok d" using send_pending [of js lim msg ?c] c by (simp add: replies_ok_def)
    with Some d show ?thesis by (cases ok) (simp_all add: Request_start_def Let_def forget_replies)
  qed (simp add: Request_start_def Let_def forget_replies c)
qed

definition all_replies :: "'w Server \<Rightarrow> bool" where
  "all_replies s \<longleftrightarrow> (\<forall>(i, c) \<in> set (srv_conns s). replies_ok c)"

lemma all_replies_conn: "all_replies s \<Longrightarrow> map_of (srv_conns s) i = Some c \<Longrightarrow> replies_ok c"
  by (auto simp: all_replies_def dest: map_of_SomeD)

lemma all_replies_set_conn: "all_replies s \<Longrightarrow> replies_ok c \<Longrightarrow> all_replies (set_conn i c s)"
  by (auto simp: all_replies_def set_conn_def)

lemma all_replies_removeConn: "all_replies s \<Longrightarrow> all_replies (removeConn i s)"
  by (auto simp: all_replies_def removeConn_def)

lemma ipc_step_replies: "ipc_step js s s' \<Longrightarrow> all_replies (ipc_srv s) \<Longrightarrow> all_replies (ipc_srv s')"
proof (induction rule: ipc_step.induct)
  case (handle mth h s srv)
  then show ?case by (auto simp: all_replies_def Handle_def split: option.splits)
next
  case (frame s i c os)
  have "replies_ok (fst (serve_frame js (srv_opt (ipc_srv s)) (srv_handlers (ipc_srv s)) os c (ipc_world s)))"
    by (rule serve_frame_replies [OF all_replies_conn [OF frame.prems frame.hyps]])
  then show ?case using frame.prems
    by (auto simp: frame_done_def all_replies_set_conn all_replies_removeConn split: prod.split)
next
  case (notify s i c mth params)
  then have "replies_ok c" using all_replies_conn by blast
  with notify.prems show ?case by (simp add: all_replies_set_conn replies_ok_def)
next
  case (request s i c mth params)
  then show ?case using all_replies_conn by (auto intro!: all_replies_set_conn Request_start_replies)
next
  case (request_end s i c decode k how c' res)
  then have "replies_ok c" using all_replies_conn by blast
  then have "replies_ok c'" using request_end.hyps(2)
    by (auto simp: Request_end_def forget_replies split: wait_end.splits option.splits)
  with request_end.prems show ?case by (simp add: all_replies_set_conn)
next
  case (conn_close s i c)
  then have "replies_ok c" using all_replies_conn by blast
  with conn_close.prems show ?case by (simp add: all_replies_set_conn replies_ok_def)
qed (auto simp: all_replies_def Handle_def admit_def newConn_def addConn_def Broadcast_def Server_Close_def replies_ok_def
    split: option.splits if_splits)

lemma ipc_reach_replies: "ipc_reach js s \<Longrightarrow> all_replies (ipc_srv s)"
proof (induction rule: ipc_reach.induct)
  case (boot getuid opt w)
  show ?case by (simp add: all_replies_def ipc_boot_def NewServer_def Let_def)
qed (rule ipc_step_replies)

text \<open>The daemon's request is answered by the response that carries its identifier.\<close>

lemma daemon_request_reply:
  assumes "ipc_reach js s" and "map_of (srv_conns (ipc_srv s)) i = Some c"
    and "Request_end None k GotResponse c = Some (c', Inr result)"
  shows "\<exists>m. c_pending c k = Some (Some m) \<and> Msg_ID m = k \<and> Kind m = KindResponse \<and> result = Msg_Result m"
proof -
  have "replies_ok c" by (rule all_replies_conn [OF ipc_reach_replies [OF assms(1)] assms(2)])
  with assms(3) show ?thesis by (auto simp: Request_end_def replies_ok_def split: option.splits)
qed

end
