(* ===== verification/HostProperties.thy ===== *)
theory HostProperties
  imports HostSafety
begin

text \<open>
  The properties of the Host IPC server, each with a run of the server as a witness: a client with the role
  \<open>diagnostics\<close> that says hello and then calls \<open>host.health\<close>.
\<close>

section \<open>A run\<close>

text \<open>
  A codec that knows two messages: \<open>{h\<close> is a hello with the parameters \<open>p\<close> and \<open>{q\<close> a request for the
  method \<open>host.health\<close>. Every message is encoded as \<open>{}\<close>.
\<close>

definition demo_message :: "string \<Rightarrow> string \<Rightarrow> IPCMessage" where
  "demo_message i method = \<lparr>JSONRPC = JSONRPCVersion, Msg_ID = i, Msg_Method = method, Msg_Params = ''p'',
     Msg_Result = [], Msg_Error = None\<rparr>"

definition demo_params :: HelloParams where
  "demo_params = zero_hello\<lparr>Hello_Protocol := \<lparr>Major = 1, Minor = 0\<rparr>, Hello_Role := RoleDiagnostics\<rparr>"

definition demo_codec :: json_codec where
  "demo_codec = \<lparr>json_Valid = (\<lambda>s. True), json_fields = (\<lambda>s. True),
     json_message = (\<lambda>s. Some (demo_message ''1'' (if s = ''{h'' then MethodHello else ''host.health''))),
     json_hello = (\<lambda>s. Some demo_params), json_More = (\<lambda>s. False), json_Marshal = (\<lambda>m. Some ''{}''),
     json_hello_result = (\<lambda>r. ''{}'')\<rparr>"

definition demo_opt :: ServerOptions where
  "demo_opt = \<lparr>Opt_Version = ''v'', Opt_Protocol = \<lparr>Major = 1, Minor = 0\<rparr>, Opt_Capabilities = [''host''],
     Opt_Limits = \<lparr>MaxJSON = 0, MaxAttachment = 0\<rparr>, Opt_UID = 501, Opt_VerifyAppPeer = True\<rparr>"

definition demo_os :: host_os where
  "demo_os = \<lparr>os_PeerPID = Some 77, os_VerifyAppPeer = (\<lambda>pid. Some OtherSigError)\<rparr>"

definition demo_handler :: "nat HandlerFunc" where
  "demo_handler = (\<lambda>c params w. (w, Inr NilValue))"

definition demo_handlers :: "string \<Rightarrow> nat HandlerFunc option" where
  "demo_handlers = [''host.health'' \<mapsto> demo_handler]"

definition demo_in :: reader where
  "demo_in = \<lparr>rd_bytes = wire_bytes (WireJSON [0x7B, 0x68]) @ wire_bytes (WireJSON [0x7B, 0x71]), rd_end = PeerClosed\<rparr>"

definition demo_peer :: "PeerCred option" where
  "demo_peer = Some \<lparr>Cred_UID = 501, Cred_PID = 77\<rparr>"

definition demo_conn :: Conn where
  "demo_conn = newConn (the demo_peer) demo_in \<lparr>wr_bytes = [], wr_left = None\<rparr>"

lemma demo_send:
  assumes "wr_left (c_out c) = None"
  shows "send demo_codec (Opt_Limits demo_opt) m c =
    (c\<lparr>c_out := (c_out c)\<lparr>wr_bytes := wr_bytes (c_out c) @ wire_bytes (WireJSON (string_payload ''{}''))\<rparr>\<rparr>, True)"
proof -
  have "wire_ok (Opt_Limits demo_opt) (WireJSON (string_payload ''{}''))"
    by (simp add: wire_ok_def demo_opt_def string_payload_def WithDefaults_def frame_max_def)
  then show ?thesis using WriteFrame_ok [OF _ assms] by (fastforce simp: send_def demo_codec_def)
qed

lemma demo_read:
  "ReadFrame (Opt_Limits demo_opt) \<lparr>rd_bytes = wire_bytes (WireJSON [a, b]) @ rest, rd_end = e\<rparr> =
     (\<lparr>rd_bytes = rest, rd_end = e\<rparr>, Inr (FrameJSON, [a, b], []))"
  using ReadFrame_wire [of "Opt_Limits demo_opt" "WireJSON [a, b]" rest e]
  by (simp add: wire_ok_def demo_opt_def WithDefaults_def frame_max_def)

lemmas demo_read_last = demo_read [where rest = "[]", unfolded append_Nil2]

lemma demo_decode:
  "DecodeMessage demo_codec [0x7B, 0x68] = Inr (demo_message ''1'' MethodHello)"
  "DecodeMessage demo_codec [0x7B, 0x71] = Inr (demo_message ''1'' ''host.health'')"
  "DecodeParams demo_codec ''p'' = Inr demo_params"
  by code_simp+

lemma demo_hello:
  "\<exists>c. serve_frame demo_codec demo_opt demo_handlers demo_os demo_conn 0 = (c, 0, [], Continue) \<and>
     c_helloSeen c \<and> c_role c = RoleDiagnostics \<and> c_in c = \<lparr>rd_bytes = wire_bytes (WireJSON [0x7B, 0x71]), rd_end = PeerClosed\<rparr> \<and>
     wr_left (c_out c) = None"
proof -
  have read: "ReadFrame (Opt_Limits demo_opt) (c_in demo_conn) =
      (\<lparr>rd_bytes = wire_bytes (WireJSON [0x7B, 0x71]), rd_end = PeerClosed\<rparr>, Inr (FrameJSON, [0x7B, 0x68], []))"
    unfolding demo_conn_def newConn_def demo_in_def by (simp only: Conn.simps demo_read)
  have conn: "\<not> c_helloSeen demo_conn" "wr_left (c_out demo_conn) = None" by (simp_all add: demo_conn_def newConn_def)
  have kind: "Kind (demo_message ''1'' MethodHello) = KindRequest" by (simp add: Kind_def demo_message_def)
  have neg: "Negotiate (Opt_Protocol demo_opt) (Hello_Protocol demo_params) = Inr \<lparr>Major = 1, Minor = 0\<rparr>" by code_simp
  have role: "Known RoleDiagnostics" "Hello_Role demo_params = RoleDiagnostics" by code_simp+
  have msg: "Msg_Params (demo_message ''1'' MethodHello) = ''p''" "Msg_Method (demo_message ''1'' MethodHello) = MethodHello"
    by (simp_all add: demo_message_def)
  show ?thesis
    by (simp add: serve_frame_def read demo_decode kind handleRequest_def handleHello_def msg neg role Let_def respond_def
        NewResponse_def demo_send conn setHandshaken_def)
qed

definition health_spec :: MethodSpec where
  "health_spec = method_row ''host.health'' AppToDaemon [RoleApp, RoleDiagnostics, RoleHarness] True"

lemma health_spec_in: "health_spec \<in> set methodTable"
  by (simp add: methodTable_def health_spec_def)

lemma demo_call:
  assumes "c_helloSeen c" and "c_role c = RoleDiagnostics" and "wr_left (c_out c) = None"
    and "c_in c = \<lparr>rd_bytes = wire_bytes (WireJSON [0x7B, 0x71]), rd_end = PeerClosed\<rparr>"
  shows "\<exists>d b. serve_frame demo_codec demo_opt demo_handlers demo_os c 0 = (d, 0, [(b, ''host.health'')], Continue)"
proof -
  have kind: "Kind (demo_message ''1'' ''host.health'') = KindRequest" by (simp add: Kind_def demo_message_def)
  have auth: "Authorize ''host.health'' RoleDiagnostics = Inr health_spec"
    using health_spec_in by (simp add: Authorize_Inr) (simp add: health_spec_def method_row_def)
  have msg: "Msg_Method (demo_message ''1'' ''host.health'') = ''host.health''" by (simp add: demo_message_def)
  show ?thesis using assms auth
    by (simp add: serve_frame_def demo_read_last demo_decode kind handleRequest_def msg Let_def respond_def
        NewResponse_def demo_send demo_handlers_def demo_handler_def)
qed

lemma demo_run:
  "\<exists>s c. ipc_reach demo_codec (s :: nat ipc_sys) \<and> ipc_calls s = [(0, c, ''host.health'')] \<and> srv_opt (ipc_srv s) = demo_opt"
proof -
  let ?sys = "\<lambda>acc n conns. \<lparr>ipc_srv = \<lparr>srv_opt = demo_opt, srv_closed = False, srv_conns = conns, srv_handlers = demo_handlers\<rparr>,
    ipc_accepted = acc, ipc_next = n, ipc_world = 0, ipc_panicked = False, ipc_calls = [], ipc_vouched = []\<rparr>"
  let ?acc = "[(0, demo_peer, demo_in, \<lparr>wr_bytes = [], wr_left = None\<rparr>)]"
  have boot: "ipc_reach demo_codec (ipc_boot 501 demo_opt 0)" by (rule ipc_reach.boot)
  have "LookupMethod ''host.health'' = Some health_spec"
    using health_spec_in by (simp add: LookupMethod_iff) (simp add: health_spec_def method_row_def)
  then have "Handle ''host.health'' demo_handler (ipc_srv (ipc_boot 501 demo_opt 0)) =
      Some (ipc_srv (?sys [] 0 []))"
    by (simp add: Handle_def ipc_boot_def NewServer_def demo_opt_def demo_handlers_def Let_def)
  from ipc_reach.step [OF boot ipc_step.handle [OF this]] have "ipc_reach demo_codec (?sys [] 0 [])"
    by (simp add: ipc_boot_def)
  from ipc_reach.step [OF this ipc_step.accept [of _ _ demo_peer demo_in "\<lparr>wr_bytes = [], wr_left = None\<rparr>"]]
  have "ipc_reach demo_codec (?sys ?acc 1 [])" by simp
  moreover have "admit demo_opt demo_peer demo_in \<lparr>wr_bytes = [], wr_left = None\<rparr> = Some demo_conn"
    by (simp add: admit_def demo_peer_def demo_conn_def demo_opt_def)
  ultimately have served: "ipc_reach demo_codec (?sys [] 1 [(0, demo_conn)])"
    using ipc_reach.step [OF _ ipc_step.serve [of 0 demo_peer demo_in "\<lparr>wr_bytes = [], wr_left = None\<rparr>" "?sys ?acc 1 []" demo_conn]]
    by (simp add: addConn_def)
  have nov: "vouched demo_opt demo_os i = []" for i by (simp add: vouched_def demo_os_def)
  obtain c where c: "serve_frame demo_codec demo_opt demo_handlers demo_os demo_conn 0 = (c, 0, [], Continue)"
    and after: "c_helloSeen c" "c_role c = RoleDiagnostics" "wr_left (c_out c) = None"
      "c_in c = \<lparr>rd_bytes = wire_bytes (WireJSON [0x7B, 0x71]), rd_end = PeerClosed\<rparr>"
    using demo_hello by blast
  from ipc_reach.step [OF served ipc_step.frame [of _ 0 demo_conn _ demo_os]]
  have hello: "ipc_reach demo_codec (?sys [] 1 [(0, c)])" by (simp add: c frame_done_def set_conn_def nov)
  obtain d b where d: "serve_frame demo_codec demo_opt demo_handlers demo_os c 0 = (d, 0, [(b, ''host.health'')], Continue)"
    using demo_call [OF after] by auto
  from ipc_reach.step [OF hello ipc_step.frame [of _ 0 c _ demo_os]] show ?thesis
    by (fastforce simp: d frame_done_def set_conn_def nov)
qed

section \<open>Properties\<close>

text \<open>
  (C23) Who reaches a handler. In every reachable state of the server, each handler call was made for a peer of the
  expected user, on a connection that had completed its handshake with one of the known roles and a supported
  protocol version, for a method of the table that the daemon serves and that lists this role; and if the role
  is \<open>app\<close>, then a verifier is configured and the operating system vouched for the process of this peer on
  this connection.
\<close>

theorem handler_calls_authorized:
  assumes "ipc_reach js s" and "(i, c, method) \<in> set (ipc_calls s)"
  shows "Cred_UID (c_cred c) = Opt_UID (srv_opt (ipc_srv s)) \<and> c_helloSeen c \<and> Known (c_role c) \<and>
    Major (c_negotiated c) = Major (Opt_Protocol (srv_opt (ipc_srv s))) \<and>
    Minor (c_negotiated c) \<in> set (SupportedClientMinors (Minor (Opt_Protocol (srv_opt (ipc_srv s))))) \<and>
    (\<exists>spec \<in> set methodTable. Spec_Name spec = method \<and> Spec_Direction spec = AppToDaemon \<and>
       c_role c \<in> set (Spec_Roles spec)) \<and>
    (c_role c = RoleApp \<longrightarrow>
       Opt_VerifyAppPeer (srv_opt (ipc_srv s)) \<and> (i, Cred_PID (c_cred c)) \<in> set (ipc_vouched s))"
proof -
  have call: "call_ok (srv_opt (ipc_srv s)) (set (ipc_vouched s)) (i, c, method)"
    using ipc_reach_inv [OF assms(1)] assms(2) by (auto simp: ipc_inv_def)
  have "Opt_VerifyAppPeer (srv_opt (ipc_srv s))" if "(i, Cred_PID (c_cred c)) \<in> set (ipc_vouched s)"
    using ipc_reach_vouched [OF assms(1)] that by (cases "ipc_vouched s") auto
  with call show ?thesis by (auto simp: call_ok_def conn_ok_def)
qed

lemma handler_calls_authorized_witness:
  "\<exists>s c. ipc_reach demo_codec (s :: nat ipc_sys) \<and> (0, c, ''host.health'') \<in> set (ipc_calls s) \<and>
     Cred_UID (c_cred c) = 501 \<and> c_helloSeen c \<and> Known (c_role c) \<and>
     (\<exists>spec \<in> set methodTable. Spec_Name spec = ''host.health'' \<and> c_role c \<in> set (Spec_Roles spec))"
proof -
  obtain s :: "nat ipc_sys" and c where s: "ipc_reach demo_codec s" "ipc_calls s = [(0, c, ''host.health'')]"
    "srv_opt (ipc_srv s) = demo_opt" using demo_run by blast
  then have call: "(0, c, ''host.health'') \<in> set (ipc_calls s)" by simp
  have "Opt_UID demo_opt = 501" by (simp add: demo_opt_def)
  then show ?thesis using handler_calls_authorized [OF s(1) call] s(1,3) call
    by (intro exI [of _ s] exI [of _ c]) auto
qed

text \<open>
  When a hello is accepted. A connection that has not completed its handshake completes it exactly if the parameters
  decode, the role is known, the major version is the daemon's and the minor version the daemon's or the one
  before, and, for the role \<open>app\<close>, the live process is the one seen at accept and the configured verifier
  accepts it; then role, version and capabilities are those negotiated. Otherwise nothing that decides about access
  changes and the connection is to be closed.
\<close>

theorem hello_accepted_iff:
  assumes "\<not> c_helloSeen c"
  shows "(c_helloSeen (fst (handleHello js opt os c msg)) \<longleftrightarrow> (\<exists>params. hello_accepts js opt os c msg params)) \<and>
    (\<forall>params. hello_accepts js opt os c msg params \<longrightarrow>
       (let d = fst (handleHello js opt os c msg)
        in c_role d = Hello_Role params \<and> c_signatureVerified d = (Hello_Role params = RoleApp) \<and>
           c_negotiated d = \<lparr>Major = Major (Opt_Protocol opt), Minor = Minor (Hello_Protocol params)\<rparr> \<and>
           set (c_capabilities d) = set (Opt_Capabilities opt) \<inter> set (Hello_Capabilities params))) \<and>
    ((\<nexists>params. hello_accepts js opt os c msg params) \<longrightarrow>
       auth_view (fst (handleHello js opt os c msg)) = auth_view c \<and> snd (handleHello js opt os c msg))"
proof (cases "\<exists>params. hello_accepts js opt os c msg params")
  case True
  then show ?thesis using handleHello_accepted [of js opt os c msg]
    by (auto simp: auth_view_def Let_def NegotiateCapabilities_spec(1))
next
  case False
  then show ?thesis using handleHello_refused [of js opt os c msg] assms by (auto simp: auth_view_def)
qed

lemma hello_accepted_iff_witness:
  "\<not> c_helloSeen demo_conn \<and>
   c_role (fst (handleHello demo_codec demo_opt demo_os demo_conn (demo_message ''1'' MethodHello))) = RoleDiagnostics \<and>
   \<not> c_helloSeen (fst (handleHello demo_codec (demo_opt\<lparr>Opt_Protocol := \<lparr>Major = 2, Minor = 0\<rparr>\<rparr>) demo_os demo_conn
       (demo_message ''1'' MethodHello)))"
proof -
  have new: "\<not> c_helloSeen demo_conn" by (simp add: demo_conn_def newConn_def)
  have dec: "DecodeParams demo_codec (Msg_Params (demo_message ''1'' MethodHello)) = Inr demo_params"
    using demo_decode(3) by (simp add: demo_message_def)
  have role: "Hello_Role demo_params = RoleDiagnostics" "Major (Hello_Protocol demo_params) = 1" "Minor (Hello_Protocol demo_params) = 0"
    by code_simp+
  have yes: "hello_accepts demo_codec demo_opt demo_os demo_conn (demo_message ''1'' MethodHello) demo_params"
    using new dec role by (simp add: hello_accepts_def demo_opt_def Known_def SupportedClientMinors_def)
  have no: "\<nexists>params. hello_accepts demo_codec (demo_opt\<lparr>Opt_Protocol := \<lparr>Major = 2, Minor = 0\<rparr>\<rparr>) demo_os demo_conn
      (demo_message ''1'' MethodHello) params"
    using dec role by (auto simp: hello_accepts_def)
  show ?thesis using new role yes no
      hello_accepted_iff [OF new, of demo_codec demo_opt demo_os "demo_message ''1'' MethodHello"]
      hello_accepted_iff [OF new, of demo_codec "demo_opt\<lparr>Opt_Protocol := \<lparr>Major = 2, Minor = 0\<rparr>\<rparr>" demo_os "demo_message ''1'' MethodHello"]
    by (auto simp: Let_def)
qed

text \<open>
  Every request is answered once. Whatever the method, the role and the handler, handling a request writes
  one response with the identifier of the request and nothing else, unless the handler returned an error
  without data, which the code dereferences.
\<close>

theorem request_answered_once:
  assumes "Kind msg = KindRequest" and "handleRequest js opt handlers os c msg w = (c', w', calls, e)" and "e \<noteq> Panic"
  shows "\<exists>m. Msg_ID m = Msg_ID msg \<and> Kind m = KindResponse \<and> c_out c' = c_out (fst (send js (Opt_Limits opt) m c))"
proof -
  have "Msg_ID msg \<noteq> []" using assms(1) by (auto simp: Kind_def split: if_splits)
  from handleRequest_one [OF this assms(2,3)] show ?thesis by (simp add: sends_one_def)
qed

lemma request_answered_once_witness:
  "\<exists>m. Msg_ID m = ''1'' \<and> Kind m = KindResponse \<and>
     c_out (fst (handleRequest demo_codec demo_opt demo_handlers demo_os demo_conn (demo_message ''1'' ''host.health'') 0)) =
     c_out (fst (send demo_codec (Opt_Limits demo_opt) m demo_conn))"
proof -
  let ?msg = "demo_message ''1'' ''host.health''"
  have msg: "Kind ?msg = KindRequest" "Msg_ID ?msg = ''1''" "Msg_Method ?msg = ''host.health''"
    by (simp_all add: Kind_def demo_message_def)
  have early: "handleRequest demo_codec demo_opt demo_handlers demo_os demo_conn ?msg 0 =
      (respondError demo_codec (Opt_Limits demo_opt) ''1'' errNotInitialized demo_conn, 0, [], Return)"
    using msg by (simp add: handleRequest_def Let_def demo_conn_def newConn_def)
  show ?thesis using request_answered_once [OF msg(1) early] msg(2) early by simp
qed

section \<open>Two gaps\<close>

text \<open>
  \<open>Close\<close> closes the connections that are registered when it runs. One that was accepted but not registered
  yet stays open and is served on: the server is closed, and a connection with a live reader and writer is in
  its table.
\<close>

lemma close_misses_accepted:
  "\<exists>s. ipc_reach js (s :: nat ipc_sys) \<and> srv_closed (ipc_srv s) \<and>
     (\<exists>c. map_of (srv_conns (ipc_srv s)) 0 = Some c \<and> \<not> c_closed c \<and> c_in c = demo_in)"
proof -
  let ?w = "\<lparr>wr_bytes = [], wr_left = None\<rparr>"
  let ?srv = "\<lambda>closed conns. \<lparr>srv_opt = demo_opt, srv_closed = closed, srv_conns = conns, srv_handlers = Map.empty\<rparr>"
  let ?sys = "\<lambda>acc n closed conns. \<lparr>ipc_srv = ?srv closed conns, ipc_accepted = acc, ipc_next = n, ipc_world = 0,
    ipc_panicked = False, ipc_calls = [], ipc_vouched = []\<rparr> :: nat ipc_sys"
  have "ipc_boot 501 demo_opt 0 = ?sys [] 0 False []"
    by (simp add: ipc_boot_def NewServer_def demo_opt_def)
  then have "ipc_reach js (?sys [] 0 False [])" using ipc_reach.boot [of js 501 demo_opt "0 :: nat"] by simp
  from ipc_reach.step [OF this ipc_step.accept [of _ _ demo_peer demo_in ?w]]
  have "ipc_reach js (?sys [(0, demo_peer, demo_in, ?w)] 1 False [])" by simp
  from ipc_reach.step [OF this ipc_step.server_close]
  have "ipc_reach js (?sys [(0, demo_peer, demo_in, ?w)] 1 True [])" by (simp add: Server_Close_def)
  moreover have "admit demo_opt demo_peer demo_in ?w = Some demo_conn"
    by (simp add: admit_def demo_peer_def demo_conn_def demo_opt_def)
  ultimately have "ipc_reach js (?sys [] 1 True [(0, demo_conn)])"
    using ipc_reach.step [OF _ ipc_step.serve [of 0 demo_peer demo_in ?w "?sys [(0, demo_peer, demo_in, ?w)] 1 True []" demo_conn]]
    by (simp add: addConn_def)
  then show ?thesis by (intro exI [of _ "?sys [] 1 True [(0, demo_conn)]"]) (simp add: demo_conn_def newConn_def)
qed

text \<open>
  A broadcast goes to every connection that has completed its handshake, whatever its role; the method table
  gives \<open>notify.post\<close> to the role \<open>app\<close> only.
\<close>

lemma broadcast_any_role:
  assumes "NewNotification method params = Some msg" and "map_of (srv_conns s) i = Some c" and "c_helloSeen c"
  shows "map_of (srv_conns (fst (Broadcast js method params s))) i = Some (fst (send js (Opt_Limits (srv_opt s)) msg c))"
  using assms by (simp add: Broadcast_def map_of_map)

end
