(* ===== verification/HostClient.thy ===== *)
theory HostClient
  imports HostProperties
begin

text \<open>
  The client of Host IPC (\<open>internal/hostipc/client.go\<close>) and its composition with the server: a call that a client
  writes is dispatched to the handler and the client gets the handler's result.

  A call is two steps, up to its wait and from the end of its wait; the read loop runs in between.
\<close>

section \<open>The client\<close>

record Client =
  cl_lim :: Limits
  cl_role :: Role
  cl_version :: string
  cl_caps :: "Capability list"
  cl_pending :: "RawMessage \<Rightarrow> IPCMessage option option"
  cl_seq :: "64 word"
  cl_readErr :: bool
  cl_done :: bool
  cl_in :: reader
  cl_out :: writer
  cl_notified :: "(string \<times> RawMessage) list"

definition client_Close :: "Client \<Rightarrow> Client" where
  "client_Close c =
     (if cl_done c then c
      else c\<lparr>cl_done := True, cl_in := \<lparr>rd_bytes = [], rd_end = ReadFails\<rparr>, cl_out := (cl_out c)\<lparr>wr_left := Some 0\<rparr>\<rparr>)"

definition client_write :: "json_codec \<Rightarrow> IPCMessage \<Rightarrow> Client \<Rightarrow> Client \<times> bool" where
  "client_write js msg c =
     (case json_Marshal js msg of
        None \<Rightarrow> (c, False)
      | Some payload \<Rightarrow>
          (case WriteFrame FrameJSON (string_payload payload) (cl_lim c) (cl_out c) of
             (w, err) \<Rightarrow> (c\<lparr>cl_out := w\<rparr>, err = None)))"

definition client_Notify :: "json_codec \<Rightarrow> string \<Rightarrow> go_value \<Rightarrow> Client \<Rightarrow> Client \<times> bool" where
  "client_Notify js method params c =
     (case NewNotification method params of None \<Rightarrow> (c, False) | Some msg \<Rightarrow> client_write js msg c)"

definition call_id :: "64 word \<Rightarrow> RawMessage" where
  "call_id n = ''\"c-'' @ show_nat (unat n) @ ''\"''"

definition drop_call :: "RawMessage \<Rightarrow> Client \<Rightarrow> Client" where
  "drop_call i c = c\<lparr>cl_pending := (cl_pending c)(i := None)\<rparr>"

definition Call_start :: "json_codec \<Rightarrow> string \<Rightarrow> go_value \<Rightarrow> Client \<Rightarrow> Client \<times> (IPCError + RawMessage)" where
  "Call_start js method params c =
     (let c = c\<lparr>cl_seq := cl_seq c + 1\<rparr>;
          i = call_id (cl_seq c);
          c = c\<lparr>cl_pending := (cl_pending c)(i \<mapsto> None)\<rparr>
      in case NewRequest i method params of
           None \<Rightarrow> (drop_call i c, Inl errInternal)
         | Some msg \<Rightarrow>
             (case client_write js msg c of
                (c, False) \<Rightarrow> (drop_call i c, Inl errInternal)
              | (c, True) \<Rightarrow> (c, Inr i)))"

datatype call_end = CallCancelled | CallTimedOut | CallClosed | CallAnswered

text \<open>\<open>None\<close>: the chosen case of the select is not ready.\<close>

definition Call_end ::
  "(RawMessage \<Rightarrow> IPCError option) option \<Rightarrow> RawMessage \<Rightarrow> call_end \<Rightarrow> Client \<Rightarrow> (Client \<times> (IPCError + RawMessage)) option"
where
  "Call_end decode i how c =
     (case how of
        CallCancelled \<Rightarrow> Some (drop_call i c, Inl errInternal)
      | CallTimedOut \<Rightarrow> Some (drop_call i c, Inl errInternal)
      | CallClosed \<Rightarrow> if cl_done c then Some (drop_call i c, Inl errInternal) else None
      | CallAnswered \<Rightarrow>
          (case cl_pending c i of
             Some (Some resp) \<Rightarrow>
               Some (drop_call i c,
                 case Msg_Error resp of
                   Some e \<Rightarrow> Inl e
                 | None \<Rightarrow>
                     (case decode of
                        None \<Rightarrow> Inr (Msg_Result resp)
                      | Some f \<Rightarrow> (case f (Msg_Result resp) of Some e \<Rightarrow> Inl e | None \<Rightarrow> Inr (Msg_Result resp))))
           | _ \<Rightarrow> None))"

text \<open>
  \<open>failAll\<close> puts an error into every channel that is still empty and forgets them; the goroutines of the calls
  keep their channel, so the map here keeps the entry until its call has read it.
\<close>

definition failed_message :: IPCMessage where
  "failed_message = \<lparr>JSONRPC = [], Msg_ID = [], Msg_Method = [], Msg_Params = [], Msg_Result = [],
     Msg_Error = Some errInternal\<rparr>"

definition failAll :: "Client \<Rightarrow> Client" where
  "failAll c =
     c\<lparr>cl_readErr := True,
       cl_pending := (\<lambda>i. case cl_pending c i of Some None \<Rightarrow> Some (Some failed_message) | p \<Rightarrow> p)\<rparr>"

text \<open>One turn of the read loop; the result tells whether it goes on. \<open>Close\<close> is deferred to its end.\<close>

definition readLoop_turn :: "json_codec \<Rightarrow> Client \<Rightarrow> Client \<times> bool" where
  "readLoop_turn js c =
     (let stop = (\<lambda>c. (client_Close (failAll c), False))
      in case ReadFrame (cl_lim c) (cl_in c) of
           (r, Inl err) \<Rightarrow> stop (c\<lparr>cl_in := r\<rparr>)
         | (r, Inr (kind, payload, data)) \<Rightarrow>
             (let c = c\<lparr>cl_in := r\<rparr>
              in if kind \<noteq> FrameJSON then stop c
                 else case DecodeMessage js payload of
                   Inl derr \<Rightarrow> stop c
                 | Inr msg \<Rightarrow>
                     (case Kind msg of
                        KindResponse \<Rightarrow>
                          (case cl_pending c (Msg_ID msg) of
                             Some None \<Rightarrow> (c\<lparr>cl_pending := (cl_pending c)(Msg_ID msg \<mapsto> Some msg)\<rparr>, True)
                           | _ \<Rightarrow> (c, True))
                      | KindNotification \<Rightarrow> (c\<lparr>cl_notified := cl_notified c @ [(Msg_Method msg, Msg_Params msg)]\<rparr>, True)
                      | KindRequest \<Rightarrow> (fst (client_write js (NewErrorResponse (Msg_ID msg) errUnsupported) c), True)
                      | KindUnknown \<Rightarrow> (c, True))))"

definition hello_request :: "Client \<Rightarrow> HelloParams" where
  "hello_request c =
     zero_hello\<lparr>Hello_Protocol := \<lparr>Major = ProtocolMajor, Minor = DefaultProtocolMinor\<rparr>,
       Hello_AppVersion := cl_version c, Hello_Role := cl_role c, Hello_Capabilities := cl_caps c\<rparr>"

section \<open>A call over the wire\<close>

text \<open>
  What a call relies on of the JSON package, for the two messages that it sends: the message has an encoding that
  is within the limits and decodes to the message.
\<close>

definition carried :: "json_codec \<Rightarrow> Limits \<Rightarrow> IPCMessage \<Rightarrow> bool" where
  "carried js lim m \<longleftrightarrow>
     (case json_Marshal js m of
        None \<Rightarrow> False
      | Some p \<Rightarrow> wire_ok lim (WireJSON (string_payload p)) \<and> DecodeMessage js (string_payload p) = Inr m)"

definition message_bytes :: "json_codec \<Rightarrow> IPCMessage \<Rightarrow> bytes" where
  "message_bytes js m = wire_bytes (WireJSON (string_payload (the (json_Marshal js m))))"

abbreviation fresh_writer :: writer where
  "fresh_writer \<equiv> \<lparr>wr_bytes = [], wr_left = None\<rparr>"

lemma carried_write:
  assumes "carried js lim m" and "wr_left w = None"
  shows "WriteFrame FrameJSON (string_payload (the (json_Marshal js m))) lim w =
      (w\<lparr>wr_bytes := wr_bytes w @ message_bytes js m\<rparr>, None)"
    and "json_Marshal js m \<noteq> None"
  using assms WriteFrame_ok [of lim "WireJSON (string_payload (the (json_Marshal js m)))" w]
  by (auto simp: carried_def message_bytes_def split: option.splits)

lemma carried_send:
  assumes "carried js lim m" and "wr_left (c_out c) = None"
  shows "send js lim m c = (c\<lparr>c_out := (c_out c)\<lparr>wr_bytes := wr_bytes (c_out c) @ message_bytes js m\<rparr>\<rparr>, True)"
  using carried_write [OF assms] by (auto simp: send_def)

lemma carried_client_write:
  assumes "carried js (cl_lim c) m" and "wr_left (cl_out c) = None"
  shows "client_write js m c = (c\<lparr>cl_out := (cl_out c)\<lparr>wr_bytes := wr_bytes (cl_out c) @ message_bytes js m\<rparr>\<rparr>, True)"
  using carried_write [OF assms] by (auto simp: client_write_def)

lemma carried_read:
  assumes "carried js lim m" and "\<forall>k. frame_max (WithDefaults lim) k < 2 ^ 31"
  shows "\<exists>p. ReadFrame lim \<lparr>rd_bytes = message_bytes js m, rd_end = e\<rparr> = (\<lparr>rd_bytes = [], rd_end = e\<rparr>, Inr (FrameJSON, p, [])) \<and>
     DecodeMessage js p = Inr m"
  using assms ReadFrame_wire [of lim "WireJSON (string_payload (the (json_Marshal js m)))" "[]" e]
  by (auto simp: carried_def message_bytes_def split: option.splits)

lemma call_id_nonempty [simp]: "call_id n \<noteq> []"
  by (simp add: call_id_def)

lemma request_shape:
  assumes "NewRequest i method params = Some m" and "i \<noteq> []" and "method \<noteq> []"
  shows "Msg_ID m = i" "Msg_Method m = method" "Kind m = KindRequest"
  using assms by (auto simp: NewRequest_def Kind_def split: option.splits)

lemma Call_start_ok:
  assumes "NewRequest (call_id (cl_seq cl + 1)) method params = Some req" and "carried js (cl_lim cl) req" and "wr_left (cl_out cl) = None"
  shows "Call_start js method params cl =
    (cl\<lparr>cl_seq := cl_seq cl + 1, cl_pending := (cl_pending cl)(call_id (cl_seq cl + 1) \<mapsto> None),
        cl_out := (cl_out cl)\<lparr>wr_bytes := wr_bytes (cl_out cl) @ message_bytes js req\<rparr>\<rparr>, Inr (call_id (cl_seq cl + 1)))"
  using assms by (simp add: Call_start_def Let_def carried_client_write)

lemma serve_request_ok:
  assumes req: "carried js lim req" "Kind req = KindRequest" and lim: "Opt_Limits opt = lim" "\<forall>k. frame_max (WithDefaults lim) k < 2 ^ 31"
    and conn: "c_helloSeen c" "c_out c = fresh_writer" "c_in c = \<lparr>rd_bytes = message_bytes js req, rd_end = e\<rparr>"
    and auth: "Authorize (Msg_Method req) (c_role c) = Inr spec" "Msg_Method req \<noteq> MethodHello"
    and h: "handlers (Msg_Method req) = Some h" "h (c\<lparr>c_in := \<lparr>rd_bytes = [], rd_end = e\<rparr>\<rparr>) (Msg_Params req) w = (w', Inr result)"
    and resp: "NewResponse (Msg_ID req) result = Some resp" "carried js lim resp"
  shows "\<exists>c' calls. serve_frame js opt handlers os c w = (c', w', calls, Continue) \<and> wr_bytes (c_out c') = message_bytes js resp"
proof -
  obtain p where p: "ReadFrame lim (c_in c) = (\<lparr>rd_bytes = [], rd_end = e\<rparr>, Inr (FrameJSON, p, []))" "DecodeMessage js p = Inr req"
    using carried_read [OF req(1) lim(2), of e] conn(3) by auto
  show ?thesis using p req(2) lim(1) conn auth h resp
    by (simp add: serve_frame_def Let_def handleRequest_def respond_def carried_send)
qed

lemma read_response_ok:
  assumes resp: "carried js (cl_lim cl) resp" "Kind resp = KindResponse" and lim: "\<forall>k. frame_max (WithDefaults (cl_lim cl)) k < 2 ^ 31"
    and cl: "cl_in cl = \<lparr>rd_bytes = message_bytes js resp, rd_end = e\<rparr>" "cl_pending cl (Msg_ID resp) = Some None"
  shows "\<exists>cl'. readLoop_turn js cl = (cl', True) \<and> cl_pending cl' (Msg_ID resp) = Some (Some resp)"
proof -
  obtain p where "ReadFrame (cl_lim cl) (cl_in cl) = (\<lparr>rd_bytes = [], rd_end = e\<rparr>, Inr (FrameJSON, p, []))" "DecodeMessage js p = Inr resp"
    using carried_read [OF resp(1) lim, of e] cl(1) by auto
  then show ?thesis using resp(2) cl(2) by (simp add: readLoop_turn_def Let_def)
qed

text \<open>When the read loop stops, every call in flight can return: its channel holds a message or the connection is done.\<close>

lemma stopped_loop_releases_calls:
  assumes "readLoop_turn js c = (c', False)" and "cl_pending c' i \<noteq> None"
  shows "Call_end decode i CallClosed c' \<noteq> None \<and> Call_end decode i CallAnswered c' \<noteq> None"
proof -
  have stop: "cl_done (client_Close (failAll d)) \<and> (cl_pending (client_Close (failAll d)) i \<noteq> None \<longrightarrow>
      (\<exists>m. cl_pending (client_Close (failAll d)) i = Some (Some m)))" for d
    by (auto simp: client_Close_def failAll_def split: option.splits)
  from assms(1) obtain d where "c' = client_Close (failAll d)"
    by (auto simp: readLoop_turn_def Let_def split: prod.splits sum.splits if_splits MessageKind.splits option.splits)
  with stop [of d] assms(2) show ?thesis by (auto simp: Call_end_def)
qed

text \<open>
  (C24) A call reaches its handler and returns its result. When the request and the response are carried by the JSON
  package within the limits, a call of a method that the role of the connection may use writes its request; the
  server that reads these bytes runs the handler once and goes on; the client that reads the bytes of the server
  finds the response of this call, and the call returns the handler's result.
\<close>

theorem host_call_roundtrip:
  assumes "cl_out cl = fresh_writer" and "cl_lim cl = Opt_Limits opt" and "\<forall>k. frame_max (WithDefaults (Opt_Limits opt)) k < 2 ^ 31"
    and req: "NewRequest (call_id (cl_seq cl + 1)) method params = Some req" "carried js (Opt_Limits opt) req"
    and conn: "c_helloSeen c" "c_out c = fresh_writer" "c_in c = \<lparr>rd_bytes = message_bytes js req, rd_end = PeerClosed\<rparr>"
    and auth: "Authorize method (c_role c) = Inr spec" "method \<noteq> MethodHello"
    and h: "handlers method = Some h" "\<forall>d. auth_view d = auth_view c \<longrightarrow> h d (Msg_Params req) w = (w', Inr result)"
    and resp: "NewResponse (call_id (cl_seq cl + 1)) result = Some resp" "carried js (Opt_Limits opt) resp"
  shows "\<exists>cl1 c' calls cl2 cl3.
    Call_start js method params cl = (cl1, Inr (call_id (cl_seq cl + 1))) \<and> wr_bytes (cl_out cl1) = rd_bytes (c_in c) \<and>
    serve_frame js opt handlers os c w = (c', w', calls, Continue) \<and>
    readLoop_turn js (cl1\<lparr>cl_in := \<lparr>rd_bytes = wr_bytes (c_out c'), rd_end = PeerClosed\<rparr>\<rparr>) = (cl2, True) \<and>
    Call_end None (call_id (cl_seq cl + 1)) CallAnswered cl2 = Some (cl3, Inr (Msg_Result resp))"
proof -
  let ?i = "call_id (cl_seq cl + 1)"
  have "method \<noteq> []" using auth(1) by (auto simp: Authorize_Inr methodTable_def method_row_def)
  note shape = request_shape [OF req(1) _ this, simplified]
  define cl1 where "cl1 = cl\<lparr>cl_seq := cl_seq cl + 1, cl_pending := (cl_pending cl)(?i \<mapsto> None),
    cl_out := (cl_out cl)\<lparr>wr_bytes := wr_bytes (cl_out cl) @ message_bytes js req\<rparr>\<rparr>"
  have start: "Call_start js method params cl = (cl1, Inr ?i)"
    unfolding cl1_def using assms(1,2) req by (intro Call_start_ok) simp_all
  obtain c' calls where served: "serve_frame js opt handlers os c w = (c', w', calls, Continue)" "wr_bytes (c_out c') = message_bytes js resp"
    using serve_request_ok [OF req(2) shape(3) refl assms(3) conn(1-3), of spec handlers h w w' result resp os] auth h resp shape
    by auto
  let ?cl = "cl1\<lparr>cl_in := \<lparr>rd_bytes = wr_bytes (c_out c'), rd_end = PeerClosed\<rparr>\<rparr>"
  have rs: "Msg_ID resp = ?i" "Kind resp = KindResponse" "Msg_Error resp = None"
    using new_response [OF _ resp(1)] resp(1) by (auto simp: NewResponse_def split: option.splits)
  have "cl_lim ?cl = Opt_Limits opt" "cl_pending ?cl ?i = Some None" using assms(2) by (simp_all add: cl1_def)
  with resp(2) rs assms(3) served(2) obtain cl2 where "readLoop_turn js ?cl = (cl2, True)" "cl_pending cl2 ?i = Some (Some resp)"
    using read_response_ok [of js ?cl resp PeerClosed] by auto
  moreover have "wr_bytes (cl_out cl1) = rd_bytes (c_in c)" using assms(1) conn(3) by (simp add: cl1_def)
  ultimately show ?thesis using start served(1) rs(3) by (auto simp: Call_end_def)
qed

section \<open>A call\<close>

definition ping_req :: IPCMessage where
  "ping_req = \<lparr>JSONRPC = JSONRPCVersion, Msg_ID = ''\"c-1\"'', Msg_Method = ''host.health'', Msg_Params = [], Msg_Result = [], Msg_Error = None\<rparr>"

definition ping_resp :: IPCMessage where
  "ping_resp = \<lparr>JSONRPC = JSONRPCVersion, Msg_ID = ''\"c-1\"'', Msg_Method = [], Msg_Params = [], Msg_Result = ''null'', Msg_Error = None\<rparr>"

definition ping_codec :: json_codec where
  "ping_codec = demo_codec\<lparr>json_Marshal := (\<lambda>m. Some (if Msg_Method m = [] then ''{r'' else ''{q'')),
     json_message := (\<lambda>s. Some (if s = ''{r'' then ping_resp else ping_req))\<rparr>"

definition ping_client :: Client where
  "ping_client = \<lparr>cl_lim = Opt_Limits demo_opt, cl_role = RoleDiagnostics, cl_version = [], cl_caps = [], cl_pending = Map.empty,
     cl_seq = 0, cl_readErr = False, cl_done = False, cl_in = \<lparr>rd_bytes = [], rd_end = PeerClosed\<rparr>, cl_out = fresh_writer,
     cl_notified = []\<rparr>"

definition ping_conn :: Conn where
  "ping_conn = setHandshaken RoleDiagnostics \<lparr>Major = 1, Minor = 0\<rparr> [] False
     (newConn (the demo_peer) \<lparr>rd_bytes = message_bytes ping_codec ping_req, rd_end = PeerClosed\<rparr> fresh_writer)"

lemma ping_carried: "carried ping_codec (Opt_Limits demo_opt) ping_req" "carried ping_codec (Opt_Limits demo_opt) ping_resp"
proof -
  have "DecodeMessage ping_codec (string_payload ''{q'') = Inr ping_req" "DecodeMessage ping_codec (string_payload ''{r'') = Inr ping_resp"
    by code_simp+
  then show "carried ping_codec (Opt_Limits demo_opt) ping_req" "carried ping_codec (Opt_Limits demo_opt) ping_resp"
    by (simp_all add: carried_def ping_codec_def ping_req_def ping_resp_def wire_ok_def string_payload_def demo_opt_def
        WithDefaults_def frame_max_def)
qed

lemma ping_messages:
  "NewRequest (call_id (cl_seq ping_client + 1)) ''host.health'' NilValue = Some ping_req"
  "NewResponse (call_id (cl_seq ping_client + 1)) NilValue = Some ping_resp"
  by code_simp+

lemma ping_authorized: "Authorize ''host.health'' (c_role ping_conn) = Inr health_spec"
  using health_spec_in by (simp add: Authorize_Inr ping_conn_def setHandshaken_def) (simp add: health_spec_def method_row_def)

lemma host_call_roundtrip_witness:
  "\<exists>cl1 c' calls cl2 cl3.
    Call_start ping_codec ''host.health'' NilValue ping_client = (cl1, Inr (call_id (cl_seq ping_client + 1))) \<and>
    wr_bytes (cl_out cl1) = rd_bytes (c_in ping_conn) \<and>
    serve_frame ping_codec demo_opt demo_handlers demo_os ping_conn 0 = (c', 0, calls, Continue) \<and>
    readLoop_turn ping_codec (cl1\<lparr>cl_in := \<lparr>rd_bytes = wr_bytes (c_out c'), rd_end = PeerClosed\<rparr>\<rparr>) = (cl2, True) \<and>
    Call_end None (call_id (cl_seq ping_client + 1)) CallAnswered cl2 = Some (cl3, Inr ''null'')"
proof -
  have lim: "\<forall>k. frame_max (WithDefaults (Opt_Limits demo_opt)) k < 2 ^ 31"
    using default_limits_small by (simp add: demo_opt_def)
  have cl: "cl_out ping_client = fresh_writer" "cl_lim ping_client = Opt_Limits demo_opt" by (simp_all add: ping_client_def)
  have c: "c_helloSeen ping_conn" "c_out ping_conn = fresh_writer"
    "c_in ping_conn = \<lparr>rd_bytes = message_bytes ping_codec ping_req, rd_end = PeerClosed\<rparr>"
    by (simp_all add: ping_conn_def setHandshaken_def newConn_def)
  have h: "demo_handlers ''host.health'' = Some demo_handler"
    "\<forall>d. auth_view d = auth_view ping_conn \<longrightarrow> demo_handler d (Msg_Params ping_req) 0 = (0, Inr NilValue)"
    by (simp_all add: demo_handlers_def demo_handler_def)
  show ?thesis
    using host_call_roundtrip [where handlers = demo_handlers and h = demo_handler and w = 0 and w' = 0 and result = NilValue and os = demo_os,
        OF cl lim ping_messages(1) ping_carried(1) c ping_authorized _ h ping_messages(2) ping_carried(2)]
    by (simp add: ping_resp_def)
qed

end
