(* ===== verification/Registry.thy ===== *)
theory Registry
  imports Prelude "HOL-Library.Word" "HOL-Library.AList"
begin

text \<open>
  The manager's registry of connected devices (\<open>internal/manager/registry.go\<close>), the check of a registration
  (\<open>agent_helpers.go\<close>), the mapping of subjects to accounts (\<open>accounts.go\<close>) and the tools that an account
  sees (\<open>tool_policy.go\<close>), with the wire types of \<open>internal/protocol/protocol.go\<close>.

  Connections are objects that outlive their entry in the registry: they have addresses, and the registry maps a
  device to the address of its latest connection. JSON values are strings.
\<close>

section \<open>Wire types\<close>

record DeviceWorkspace =
  wk_Name :: string
  wk_Path :: string
  wk_Writable :: bool

record CustomTool =
  ct_Name :: string
  ct_Description :: string
  ct_Tool :: string
  ct_Args :: "(string \<times> string) list"

record ToolPolicy =
  tp_EnabledTools :: "string list"
  tp_DisabledTools :: "string list"
  tp_CustomTools :: "CustomTool list"

record RegisterRequest =
  rr_EnrollmentCode :: string
  rr_DeviceCredential :: string
  rr_DeviceID :: string
  rr_DeviceName :: string
  rr_Version :: string
  rr_Workspaces :: "DeviceWorkspace list"
  rr_ToolPolicy :: "ToolPolicy option"

record AgentRequest =
  rq_Tool :: string
  rq_Workspace :: string
  rq_Args :: "(string \<times> string) list"

record AgentResponse =
  rs_OK :: bool
  rs_Data :: string
  rs_Error :: string

record Envelope =
  ev_RequestID :: string
  ev_DeviceID :: string
  ev_Payload :: AgentRequest

section \<open>Registry\<close>

record Device =
  dv_ID :: string
  dv_Name :: string
  dv_AccountID :: string
  dv_Version :: string
  dv_Online :: bool
  dv_ConnectedAt :: gotime
  dv_LastSeen :: gotime
  dv_Workspaces :: "DeviceWorkspace list"
  dv_ToolPolicy :: "ToolPolicy option"

text \<open>
  A pending call has a channel with room for one response, and the progress lines passed to its hook, when it has
  one. \<open>ac_sem\<close> counts the slots in use; \<open>ac_out\<close> are the requests handed to the stream.
\<close>

record pendingCall =
  pc_ch :: "AgentResponse option"
  pc_events :: "string list option"

record AgentConn =
  ac_device :: Device
  ac_closed :: bool
  ac_pend :: "(string \<times> pendingCall) list"
  ac_sem :: nat
  ac_out :: "Envelope list"

record Registry =
  reg_devices :: "(string \<times> nat) list"
  reg_conns :: "nat \<Rightarrow> AgentConn option"
  reg_next :: nat
  reg_maxInflight :: nat
  reg_seq :: "64 word"

definition NewRegistry :: "int option \<Rightarrow> Registry" where
  "NewRegistry maxInflight =
     \<lparr>reg_devices = [], reg_conns = Map.empty, reg_next = 0,
      reg_maxInflight = (case maxInflight of Some n \<Rightarrow> if n > 0 then nat n else 8 | None \<Rightarrow> 8), reg_seq = 0\<rparr>"

definition on_conn :: "nat \<Rightarrow> (AgentConn \<Rightarrow> AgentConn) \<Rightarrow> Registry \<Rightarrow> Registry" where
  "on_conn a f r = r\<lparr>reg_conns := (reg_conns r)(a := map_option f (reg_conns r a))\<rparr>"

definition offer :: "AgentResponse \<Rightarrow> pendingCall \<Rightarrow> pendingCall" where
  "offer resp p = (case pc_ch p of None \<Rightarrow> p\<lparr>pc_ch := Some resp\<rparr> | Some _ \<Rightarrow> p)"

definition FailPending :: "string \<Rightarrow> AgentConn \<Rightarrow> AgentConn" where
  "FailPending message c =
     (let message = (if message = [] then ''agent disconnected'' else message)
      in c\<lparr>ac_pend := map (\<lambda>(i, p). (i, offer \<lparr>rs_OK = False, rs_Data = [], rs_Error = message\<rparr> p)) (ac_pend c)\<rparr>)"

definition close_ws :: "AgentConn \<Rightarrow> AgentConn" where
  "close_ws c = c\<lparr>ac_closed := True\<rparr>"

definition Put :: "Device \<Rightarrow> Registry \<Rightarrow> Registry \<times> nat" where
  "Put dev r =
     (let a = reg_next r;
          conn = \<lparr>ac_device = dev, ac_closed = False, ac_pend = [], ac_sem = 0, ac_out = []\<rparr>;
          old = map_of (reg_devices r) (dv_ID dev);
          r = r\<lparr>reg_conns := (reg_conns r)(a \<mapsto> conn), reg_next := a + 1,
                reg_devices := AList.update (dv_ID dev) a (reg_devices r)\<rparr>
      in (case old of
            None \<Rightarrow> r
          | Some b \<Rightarrow> on_conn b (close_ws \<circ> FailPending ''agent connection replaced'') r, a))"

definition Remove :: "string \<Rightarrow> nat \<Rightarrow> Registry \<Rightarrow> Registry" where
  "Remove i a r =
     (let r = (if map_of (reg_devices r) i = Some a then r\<lparr>reg_devices := AList.delete i (reg_devices r)\<rparr> else r)
      in on_conn a (FailPending ''agent disconnected'') r)"

definition Touch :: "gotime \<Rightarrow> string \<Rightarrow> Registry \<Rightarrow> Registry" where
  "Touch now i r =
     (case map_of (reg_devices r) i of
        None \<Rightarrow> r
      | Some a \<Rightarrow> on_conn a (\<lambda>c. c\<lparr>ac_device := (ac_device c)\<lparr>dv_LastSeen := now\<rparr>\<rparr>) r)"

definition registered :: "Registry \<Rightarrow> AgentConn list" where
  "registered r = List.map_filter (\<lambda>(i, a). reg_conns r a) (reg_devices r)"

definition reg_List :: "Registry \<Rightarrow> Device list" where
  "reg_List r = map (\<lambda>c. (ac_device c)\<lparr>dv_Online := True\<rparr>) (registered r)"

definition ListAccount :: "string \<Rightarrow> Registry \<Rightarrow> Device list" where
  "ListAccount account r =
     map (\<lambda>c. (ac_device c)\<lparr>dv_Online := True\<rparr>) (filter (\<lambda>c. dv_AccountID (ac_device c) = account) (registered r))"

definition reg_Get :: "string \<Rightarrow> Registry \<Rightarrow> AgentConn option" where
  "reg_Get i r = (case map_of (reg_devices r) i of None \<Rightarrow> None | Some a \<Rightarrow> reg_conns r a)"

definition Disconnect :: "string \<Rightarrow> Registry \<Rightarrow> Registry \<times> bool" where
  "Disconnect i r =
     (case map_of (reg_devices r) i of
        None \<Rightarrow> (r, False)
      | Some a \<Rightarrow> (on_conn a (close_ws \<circ> FailPending ''agent disconnected'') r, True))"

datatype call_error = ErrOfflineOrUnknown | ErrContext | ErrWrite | ErrAgent string

definition Workspaces :: "string \<Rightarrow> string \<Rightarrow> Registry \<Rightarrow> call_error + DeviceWorkspace list" where
  "Workspaces account i r =
     (case reg_Get i r of
        None \<Rightarrow> Inl ErrOfflineOrUnknown
      | Some c \<Rightarrow>
          if dv_AccountID (ac_device c) \<noteq> account then Inl ErrOfflineOrUnknown else Inr (dv_Workspaces (ac_device c)))"

section \<open>Calls\<close>

text \<open>
  \<open>CallProgress\<close> in its four parts: looking up the connection; taking a slot, when one is free; sending; and the end
  of the wait. The stream may take the request, drop it (a closed stream does not say so) or report an error.
\<close>

definition call_lookup :: "string \<Rightarrow> string \<Rightarrow> Registry \<Rightarrow> call_error + nat" where
  "call_lookup account deviceID r =
     (case map_of (reg_devices r) deviceID of
        None \<Rightarrow> Inl ErrOfflineOrUnknown
      | Some a \<Rightarrow>
          (case reg_conns r a of
             None \<Rightarrow> Inl ErrOfflineOrUnknown
           | Some c \<Rightarrow> if dv_AccountID (ac_device c) \<noteq> account then Inl ErrOfflineOrUnknown else Inr a))"

definition call_acquire :: "nat \<Rightarrow> Registry \<Rightarrow> Registry option" where
  "call_acquire a r =
     (case reg_conns r a of
        None \<Rightarrow> None
      | Some c \<Rightarrow>
          if ac_sem c < reg_maxInflight r then Some (on_conn a (\<lambda>c. c\<lparr>ac_sem := ac_sem c + 1\<rparr>) r) else None)"

definition call_release :: "nat \<Rightarrow> Registry \<Rightarrow> Registry" where
  "call_release a r = on_conn a (\<lambda>c. c\<lparr>ac_sem := ac_sem c - 1\<rparr>) r"

datatype write_outcome = WriteTaken | WriteDropped | WriteFailed

definition call_send ::
  "write_outcome \<Rightarrow> bool \<Rightarrow> string \<Rightarrow> AgentRequest \<Rightarrow> nat \<Rightarrow> Registry \<Rightarrow> Registry \<times> (call_error + string)" where
  "call_send out hook deviceID req a r =
     (let r = r\<lparr>reg_seq := reg_seq r + 1\<rparr>;
          i = show_nat (unat (reg_seq r));
          r = on_conn a (\<lambda>c. c\<lparr>ac_pend := AList.update i \<lparr>pc_ch = None, pc_events = (if hook then Some [] else None)\<rparr> (ac_pend c)\<rparr>) r
      in case out of
           WriteTaken \<Rightarrow>
             (on_conn a (\<lambda>c. c\<lparr>ac_out := ac_out c @ [\<lparr>ev_RequestID = i, ev_DeviceID = deviceID, ev_Payload = req\<rparr>]\<rparr>) r, Inr i)
         | WriteDropped \<Rightarrow> (r, Inr i)
         | WriteFailed \<Rightarrow>
             (call_release a (on_conn a (\<lambda>c. c\<lparr>ac_pend := AList.delete i (ac_pend c)\<rparr>) r), Inl ErrWrite))"

text \<open>\<open>None\<close>: the chosen case of the select is not ready.\<close>

definition call_finish :: "bool \<Rightarrow> string \<Rightarrow> nat \<Rightarrow> Registry \<Rightarrow> (Registry \<times> (call_error + string)) option" where
  "call_finish ctxDone i a r =
     (let r' = call_release a (on_conn a (\<lambda>c. c\<lparr>ac_pend := AList.delete i (ac_pend c)\<rparr>) r)
      in if ctxDone then Some (r', Inl ErrContext)
         else case reg_conns r a of
           None \<Rightarrow> None
         | Some c \<Rightarrow>
             (case map_of (ac_pend c) i of
                None \<Rightarrow> None
              | Some p \<Rightarrow>
                  (case pc_ch p of
                     None \<Rightarrow> None
                   | Some resp \<Rightarrow>
                       Some (r', if \<not> rs_OK resp
                                 then Inl (ErrAgent (if rs_Error resp = [] then ''agent request failed'' else rs_Error resp))
                                 else Inr (rs_Data resp)))))"

definition DeliverEvent :: "string \<Rightarrow> string \<Rightarrow> AgentConn \<Rightarrow> AgentConn" where
  "DeliverEvent i payload c =
     (case map_of (ac_pend c) i of
        None \<Rightarrow> c
      | Some p \<Rightarrow> c\<lparr>ac_pend := AList.update i (p\<lparr>pc_events := map_option (\<lambda>es. es @ [payload]) (pc_events p)\<rparr>) (ac_pend c)\<rparr>)"

definition Deliver :: "string \<Rightarrow> AgentResponse \<Rightarrow> AgentConn \<Rightarrow> AgentConn" where
  "Deliver i resp c =
     (case map_of (ac_pend c) i of
        None \<Rightarrow> c
      | Some p \<Rightarrow> c\<lparr>ac_pend := AList.update i (offer resp p) (ac_pend c)\<rparr>)"

section \<open>Registrations and accounts\<close>

datatype reg_error = ErrRegFields | ErrRegTooLong | ErrTooManyWorkspaces | ErrWorkspaceName | ErrDuplicateWorkspace string

fun sanitize_workspaces :: "string list \<Rightarrow> DeviceWorkspace list \<Rightarrow> reg_error + DeviceWorkspace list" where
  "sanitize_workspaces seen [] = Inr []"
| "sanitize_workspaces seen (w # ws) =
     (let name = trim_space (wk_Name w)
      in if name = [] \<or> length name > 128 then Inl ErrWorkspaceName
         else if name \<in> set seen then Inl (ErrDuplicateWorkspace name)
         else case sanitize_workspaces (name # seen) ws of
                Inl e \<Rightarrow> Inl e
              | Inr ws' \<Rightarrow> Inr (w\<lparr>wk_Name := name, wk_Path := []\<rparr> # ws'))"

definition sanitizeRegistration :: "RegisterRequest \<Rightarrow> reg_error + RegisterRequest" where
  "sanitizeRegistration reg =
     (let reg = reg\<lparr>rr_DeviceID := trim_space (rr_DeviceID reg), rr_DeviceName := trim_space (rr_DeviceName reg),
                    rr_Version := trim_space (rr_Version reg)\<rparr>
      in if rr_DeviceID reg = [] \<or> rr_DeviceName reg = [] then Inl ErrRegFields
         else if length (rr_DeviceID reg) > 128 then Inl ErrRegTooLong
         else if length (rr_DeviceName reg) > 256 then Inl ErrRegTooLong
         else if length (rr_Version reg) > 64 then Inl ErrRegTooLong
         else if length (rr_Workspaces reg) > 64 then Inl ErrTooManyWorkspaces
         else case sanitize_workspaces [] (rr_Workspaces reg) of
                Inl e \<Rightarrow> Inl e
              | Inr ws \<Rightarrow> Inr (reg\<lparr>rr_Workspaces := ws\<rparr>))"

text \<open>\<open>accounts\<close> is the resolver's map; \<open>None\<close> a nil resolver.\<close>

definition ForSubject :: "(string \<times> string) list option \<Rightarrow> string \<Rightarrow> string" where
  "ForSubject accounts subject =
     (let subject = trim_space subject
      in if subject = [] then ''default''
         else case accounts of
           None \<Rightarrow> subject
         | Some m \<Rightarrow>
             let mapped = trim_space (case map_of m subject of None \<Rightarrow> [] | Some a \<Rightarrow> a)
             in if mapped \<noteq> [] then mapped else subject)"

section \<open>Tools of an account\<close>

definition builtinToolNames :: "string list" where
  "builtinToolNames =
     [''list_devices'', ''list_workspaces'', ''list'', ''read'', ''edit'', ''write'', ''apply_patch'', ''rollback_patch'',
      ''bash'', ''agents_list'', ''agent'', ''agent_start'', ''agent_status'', ''agent_result'', ''agent_cancel'',
      ''agent_runs'', ''permission_grant'']"

definition piCoreTools :: "string list" where
  "piCoreTools =
     [''list_devices'', ''list_workspaces'', ''list'', ''read'', ''edit'', ''write'', ''bash'', ''agents_list'', ''agent'',
      ''permission_grant'', ''agent_start'', ''agent_status'', ''agent_result'', ''agent_cancel'', ''agent_runs'']"

definition isBuiltinTool :: "string \<Rightarrow> bool" where
  "isBuiltinTool name = (name \<in> set builtinToolNames)"

fun tool_disabled_loop :: "string \<Rightarrow> Device list \<Rightarrow> bool" where
  "tool_disabled_loop tool [] = False"
| "tool_disabled_loop tool (d # ds) =
     (case dv_ToolPolicy d of
        None \<Rightarrow> if tool \<notin> set piCoreTools then True else tool_disabled_loop tool ds
      | Some policy \<Rightarrow>
          if tool \<in> set (tp_DisabledTools policy) then True
          else if tp_EnabledTools policy = []
          then (if tool \<notin> set piCoreTools then True else tool_disabled_loop tool ds)
          else if ''*'' \<notin> set (tp_EnabledTools policy) \<and> tool \<notin> set (tp_EnabledTools policy) then True
          else tool_disabled_loop tool ds)"

definition toolDisabledForAccount :: "string \<Rightarrow> string \<Rightarrow> Registry \<Rightarrow> bool" where
  "toolDisabledForAccount account tool r = tool_disabled_loop tool (ListAccount account r)"

fun custom_loop :: "string list \<Rightarrow> CustomTool list \<Rightarrow> CustomTool list" where
  "custom_loop seen [] = []"
| "custom_loop seen (c # cs) =
     (if ct_Name c \<in> set seen \<or> \<not> isBuiltinTool (ct_Tool c) \<or> ct_Name c = [] then custom_loop seen cs
      else c # custom_loop (ct_Name c # seen) cs)"

definition customToolsForAccount :: "string \<Rightarrow> Registry \<Rightarrow> CustomTool list" where
  "customToolsForAccount account r =
     custom_loop [] (concat (map (\<lambda>d. case dv_ToolPolicy d of None \<Rightarrow> [] | Some p \<Rightarrow> tp_CustomTools p) (ListAccount account r)))"

text \<open>The names that \<open>registerWithPolicy\<close> registers, in order.\<close>

definition registerWithPolicy :: "string \<Rightarrow> Registry \<Rightarrow> string list" where
  "registerWithPolicy account r =
     filter (\<lambda>t. \<not> toolDisabledForAccount account t r) builtinToolNames @ map ct_Name (customToolsForAccount account r)"

text \<open>The arguments with which a custom tool calls the built-in tool it wraps.\<close>

definition custom_args :: "CustomTool \<Rightarrow> (string \<times> string) list \<Rightarrow> (string \<times> string) list" where
  "custom_args custom input =
     fold (\<lambda>(k, v) args. if k = ''device_id'' \<or> k = ''workspace'' then args else AList.update k v args) input (ct_Args custom)"

end
