(* ===== verification/AuthStore.thy ===== *)
theory AuthStore
  imports Prelude "HOL-Library.AList" "HOL-Library.List_Lexorder" "HOL-Library.Char_ord"
begin

text \<open>
  The manager's store of devices and enrolment codes (\<open>internal/authstore/store.go\<close>).

  The two maps are association lists. The clock, the outcome of \<open>crypto/rand\<close> and the outcome of writing the state
  file are arguments of the operations; \<open>digest\<close> is the hexadecimal SHA-256 of a string. The state file is
  replaced by a rename, so a write that fails leaves it as it was.
\<close>

section \<open>State\<close>

abbreviation DefaultAccount :: string where "DefaultAccount \<equiv> ''default''"
abbreviation stateVersion :: int where "stateVersion \<equiv> 2"
abbreviation maxAccountIDBytes :: nat where "maxAccountIDBytes \<equiv> 128"

record AuthDevice =
  ad_ID :: string
  ad_Name :: string
  ad_AccountID :: string
  ad_CredentialHash :: string
  ad_CreatedAt :: gotime
  ad_UpdatedAt :: gotime

record PublicDevice =
  pd_ID :: string
  pd_Name :: string
  pd_AccountID :: string
  pd_CreatedAt :: gotime
  pd_UpdatedAt :: gotime

record Enrollment =
  en_Hash :: string
  en_AccountID :: string
  en_CreatedAt :: gotime
  en_ExpiresAt :: gotime

record persistedState =
  ps_Version :: int
  ps_Devices :: "(string \<times> AuthDevice) list"
  ps_Enrollments :: "(string \<times> Enrollment) list"

record AuthStore =
  as_durable :: bool
  as_state :: persistedState
  as_file :: "persistedState option"

datatype auth_error = ErrAccountRequired | ErrAccountTooLong | ErrRandom | ErrPersist | ErrCodeRequired
  | ErrDeviceFields | ErrCodeInvalid | ErrAlreadyEnrolled | ErrNotEnrolled | ErrStateVersion

definition empty_state :: persistedState where
  "empty_state = \<lparr>ps_Version = stateVersion, ps_Devices = [], ps_Enrollments = []\<rparr>"

text \<open>\<open>durable\<close>: a path is configured. \<open>file\<close> is the decoded content of the file, if there is one.\<close>

definition auth_Open :: "bool \<Rightarrow> persistedState option \<Rightarrow> auth_error + AuthStore" where
  "auth_Open durable file =
     (if \<not> durable then Inr \<lparr>as_durable = False, as_state = empty_state, as_file = file\<rparr>
      else case file of
        None \<Rightarrow> Inr \<lparr>as_durable = True, as_state = empty_state, as_file = None\<rparr>
      | Some st \<Rightarrow>
          if ps_Version st \<noteq> 1 \<and> ps_Version st \<noteq> stateVersion then Inl ErrStateVersion
          else
            let st' = (if ps_Version st = 1
                  then \<lparr>ps_Version = stateVersion,
                        ps_Devices = map (\<lambda>(i, d). (i, d\<lparr>ad_AccountID := DefaultAccount\<rparr>)) (ps_Devices st),
                        ps_Enrollments = map (\<lambda>(h, e). (h, e\<lparr>en_AccountID := DefaultAccount\<rparr>)) (ps_Enrollments st)\<rparr>
                  else st)
            in Inr \<lparr>as_durable = True, as_state = st', as_file = file\<rparr>)"

section \<open>Operations\<close>

definition persist_auth :: "bool \<Rightarrow> AuthStore \<Rightarrow> AuthStore \<times> bool" where
  "persist_auth ok s =
     (if \<not> as_durable s then (s, True)
      else if ok then (s\<lparr>as_file := Some (as_state s)\<rparr>, True)
      else (s, False))"

definition set_devices :: "((string \<times> AuthDevice) list \<Rightarrow> (string \<times> AuthDevice) list) \<Rightarrow> AuthStore \<Rightarrow> AuthStore" where
  "set_devices f s = s\<lparr>as_state := (as_state s)\<lparr>ps_Devices := f (ps_Devices (as_state s))\<rparr>\<rparr>"

definition set_enrollments :: "((string \<times> Enrollment) list \<Rightarrow> (string \<times> Enrollment) list) \<Rightarrow> AuthStore \<Rightarrow> AuthStore" where
  "set_enrollments f s = s\<lparr>as_state := (as_state s)\<lparr>ps_Enrollments := f (ps_Enrollments (as_state s))\<rparr>\<rparr>"

definition pruneExpiredLocked :: "gotime \<Rightarrow> AuthStore \<Rightarrow> AuthStore" where
  "pruneExpiredLocked now = set_enrollments (filter (\<lambda>(h, e). \<not> now > en_ExpiresAt e))"

definition auth_device :: "AuthStore \<Rightarrow> string \<Rightarrow> AuthDevice option" where
  "auth_device s i = map_of (ps_Devices (as_state s)) i"

definition auth_enrollment :: "AuthStore \<Rightarrow> string \<Rightarrow> Enrollment option" where
  "auth_enrollment s h = map_of (ps_Enrollments (as_state s)) h"

definition validateAccountID :: "string \<Rightarrow> auth_error option" where
  "validateAccountID account =
     (if account = [] then Some ErrAccountRequired
      else if length account > maxAccountIDBytes then Some ErrAccountTooLong
      else None)"

definition enrollment_ttl :: "int \<Rightarrow> int" where
  "enrollment_ttl ttl =
     (let ttl = (if ttl \<le> 0 then 10 * 60 * 1000000000 else ttl)
      in if ttl > 24 * 3600 * 1000000000 then 24 * 3600 * 1000000000 else ttl)"

definition CreateEnrollment ::
  "(string \<Rightarrow> string) \<Rightarrow> gotime \<Rightarrow> string option \<Rightarrow> bool \<Rightarrow> int \<Rightarrow> string \<Rightarrow> AuthStore \<Rightarrow>
   AuthStore \<times> (auth_error + string \<times> gotime)"
where
  "CreateEnrollment digest now rnd ok ttl accountID s =
     (let accountID = trim_space accountID
      in case validateAccountID accountID of
           Some e \<Rightarrow> (s, Inl e)
         | None \<Rightarrow>
             (case rnd of
                None \<Rightarrow> (s, Inl ErrRandom)
              | Some r \<Rightarrow>
                  let secret = ''enr_'' @ r;
                      expires = now + enrollment_ttl ttl;
                      h = digest secret;
                      s = pruneExpiredLocked now s;
                      s = set_enrollments (AList.update h
                            \<lparr>en_Hash = h, en_AccountID = accountID, en_CreatedAt = now, en_ExpiresAt = expires\<rparr>) s
                  in (case persist_auth ok s of
                        (s, False) \<Rightarrow> (set_enrollments (AList.delete h) s, Inl ErrPersist)
                      | (s, True) \<Rightarrow> (s, Inr (secret, expires)))))"

definition EnrollDevice ::
  "(string \<Rightarrow> string) \<Rightarrow> gotime \<Rightarrow> string option \<Rightarrow> bool \<Rightarrow> string \<Rightarrow> string \<Rightarrow> string \<Rightarrow> AuthStore \<Rightarrow>
   AuthStore \<times> (auth_error + string)"
where
  "EnrollDevice digest now rnd ok code deviceID deviceName s =
     (if code = [] then (s, Inl ErrCodeRequired)
      else if deviceID = [] \<or> deviceName = [] then (s, Inl ErrDeviceFields)
      else
        let codeHash = digest code;
            s = pruneExpiredLocked now s
        in case auth_enrollment s codeHash of
             None \<Rightarrow> (s, Inl ErrCodeInvalid)
           | Some entry \<Rightarrow>
               if now > en_ExpiresAt entry then (s, Inl ErrCodeInvalid)
               else if auth_device s deviceID \<noteq> None then (s, Inl ErrAlreadyEnrolled)
               else (case rnd of
                 None \<Rightarrow> (s, Inl ErrRandom)
               | Some r \<Rightarrow>
                   let credential = ''dev_'' @ r;
                       s = set_enrollments (AList.delete codeHash) s;
                       s = set_devices (AList.update deviceID
                             \<lparr>ad_ID = deviceID, ad_Name = deviceName, ad_AccountID = en_AccountID entry,
                              ad_CredentialHash = digest credential, ad_CreatedAt = now, ad_UpdatedAt = now\<rparr>) s
                   in (case persist_auth ok s of
                         (s, False) \<Rightarrow>
                           (set_enrollments (AList.update codeHash entry) (set_devices (AList.delete deviceID) s), Inl ErrPersist)
                       | (s, True) \<Rightarrow> (s, Inr credential))))"

definition VerifyDevice :: "(string \<Rightarrow> string) \<Rightarrow> string \<Rightarrow> string \<Rightarrow> AuthStore \<Rightarrow> bool" where
  "VerifyDevice digest deviceID credential s =
     (if deviceID = [] \<or> credential = [] then False
      else case auth_device s deviceID of
             None \<Rightarrow> False
           | Some d \<Rightarrow> digest credential = ad_CredentialHash d)"

definition UpdateDeviceName :: "gotime \<Rightarrow> bool \<Rightarrow> string \<Rightarrow> string \<Rightarrow> AuthStore \<Rightarrow> AuthStore \<times> auth_error option" where
  "UpdateDeviceName now ok deviceID name s =
     (if name = [] then (s, None)
      else case auth_device s deviceID of
        None \<Rightarrow> (s, Some ErrNotEnrolled)
      | Some d \<Rightarrow>
          if ad_Name d = name then (s, None)
          else (case persist_auth ok (set_devices (AList.update deviceID (d\<lparr>ad_Name := name, ad_UpdatedAt := now\<rparr>)) s) of
                  (s, True) \<Rightarrow> (s, None)
                | (s, False) \<Rightarrow> (s, Some ErrPersist)))"

definition RotateDevice ::
  "(string \<Rightarrow> string) \<Rightarrow> gotime \<Rightarrow> string option \<Rightarrow> bool \<Rightarrow> string \<Rightarrow> AuthStore \<Rightarrow> AuthStore \<times> (auth_error + string)" where
  "RotateDevice digest now rnd ok deviceID s =
     (case auth_device s deviceID of
        None \<Rightarrow> (s, Inl ErrNotEnrolled)
      | Some d \<Rightarrow>
          (case rnd of
             None \<Rightarrow> (s, Inl ErrRandom)
           | Some r \<Rightarrow>
               let credential = ''dev_'' @ r;
                   s = set_devices (AList.update deviceID (d\<lparr>ad_CredentialHash := digest credential, ad_UpdatedAt := now\<rparr>)) s
               in (case persist_auth ok s of
                     (s, False) \<Rightarrow> (set_devices (AList.update deviceID d) s, Inl ErrPersist)
                   | (s, True) \<Rightarrow> (s, Inr credential))))"

definition RevokeDevice :: "bool \<Rightarrow> string \<Rightarrow> AuthStore \<Rightarrow> AuthStore \<times> auth_error option" where
  "RevokeDevice ok deviceID s =
     (case auth_device s deviceID of
        None \<Rightarrow> (s, Some ErrNotEnrolled)
      | Some d \<Rightarrow>
          (case persist_auth ok (set_devices (AList.delete deviceID) s) of
             (s, False) \<Rightarrow> (set_devices (AList.update deviceID d) s, Some ErrPersist)
           | (s, True) \<Rightarrow> (s, None)))"

definition ListDevices :: "AuthStore \<Rightarrow> PublicDevice list" where
  "ListDevices s =
     sort_key pd_ID (map (\<lambda>(i, d). \<lparr>pd_ID = ad_ID d, pd_Name = ad_Name d, pd_AccountID = ad_AccountID d,
       pd_CreatedAt = ad_CreatedAt d, pd_UpdatedAt = ad_UpdatedAt d\<rparr>) (ps_Devices (as_state s)))"

definition DeviceAccount :: "string \<Rightarrow> AuthStore \<Rightarrow> string option" where
  "DeviceAccount deviceID s =
     (if deviceID = [] then None
      else case auth_device s deviceID of
             None \<Rightarrow> None
           | Some d \<Rightarrow> if ad_AccountID d = [] then None else Some (ad_AccountID d))"

end
