(* ===== verification/AuthSpec.thy ===== *)
theory AuthSpec
  imports AuthStore
begin

text \<open>
  What the store of devices promises. Its specification is a history of what was handed out: codes issued, devices
  enrolled, credentials rotated, devices revoked. \<open>current\<close> computes from a history which device belongs to which
  account and which credential is its valid one; the store, which keeps digests only, survives restarts and
  failing writes, agrees with it.
\<close>

section \<open>History\<close>

datatype auth_event = CodeIssued string string gotime | Enrolled string string string string gotime
  | Rotated string string | Revoked string

fun apply_event :: "(string \<Rightarrow> (string \<times> string) option) \<Rightarrow> auth_event \<Rightarrow> string \<Rightarrow> (string \<times> string) option" where
  "apply_event m (CodeIssued code account expires) = m"
| "apply_event m (Enrolled code i account cred now) = m(i \<mapsto> (account, cred))"
| "apply_event m (Rotated i cred) = m(i := map_option (\<lambda>(account, _). (account, cred)) (m i))"
| "apply_event m (Revoked i) = m(i := None)"

definition current :: "auth_event list \<Rightarrow> string \<Rightarrow> (string \<times> string) option" where
  "current log = foldl apply_event Map.empty log"

fun event_codes :: "auth_event \<Rightarrow> string list" where
  "event_codes (CodeIssued code account expires) = [code]"
| "event_codes _ = []"

fun event_used :: "auth_event \<Rightarrow> string list" where
  "event_used (Enrolled code i account cred now) = [code]"
| "event_used _ = []"

definition issued_codes :: "auth_event list \<Rightarrow> string list" where
  "issued_codes log = concat (map event_codes log)"

definition used_codes :: "auth_event list \<Rightarrow> string list" where
  "used_codes log = concat (map event_used log)"

lemma current_snoc [simp]: "current (log @ [e]) = apply_event (current log) e"
  by (simp add: current_def)

lemma codes_snoc [simp]:
  "issued_codes (log @ [e]) = issued_codes log @ event_codes e" "used_codes (log @ [e]) = used_codes log @ event_used e"
  by (simp_all add: issued_codes_def used_codes_def)

lemma issued_in: "CodeIssued code a x \<in> set log \<Longrightarrow> code \<in> set (issued_codes log)"
  by (force simp: issued_codes_def)

section \<open>Steps\<close>

record auth_sys =
  au_store :: AuthStore
  au_log :: "auth_event list"

text \<open>
  The steps of the manager on its store. \<open>U\<close> holds the codes and credentials that occur; random secrets do not
  repeat. A restart reads the state file again.
\<close>

inductive auth_step :: "(string \<Rightarrow> string) \<Rightarrow> string set \<Rightarrow> auth_sys \<Rightarrow> auth_sys \<Rightarrow> bool" for digest U where
  create: "CreateEnrollment digest now rnd ok ttl account (au_store s) = (st, Inr (code, expires)) \<Longrightarrow>
    code \<in> U \<Longrightarrow> code \<notin> set (issued_codes (au_log s)) \<Longrightarrow>
    auth_step digest U s \<lparr>au_store = st, au_log = au_log s @ [CodeIssued code (trim_space account) expires]\<rparr>"
| create_fail: "CreateEnrollment digest now rnd ok ttl account (au_store s) = (st, Inl e) \<Longrightarrow>
    auth_step digest U s (s\<lparr>au_store := st\<rparr>)"
| enroll: "EnrollDevice digest now rnd ok code i name (au_store s) = (st, Inr cred) \<Longrightarrow> code \<in> U \<Longrightarrow> cred \<in> U \<Longrightarrow>
    auth_device st i = Some d \<Longrightarrow>
    auth_step digest U s \<lparr>au_store = st, au_log = au_log s @ [Enrolled code i (ad_AccountID d) cred now]\<rparr>"
| enroll_fail: "EnrollDevice digest now rnd ok code i name (au_store s) = (st, Inl e) \<Longrightarrow>
    auth_step digest U s (s\<lparr>au_store := st\<rparr>)"
| rename: "UpdateDeviceName now ok i name (au_store s) = (st, e) \<Longrightarrow> auth_step digest U s (s\<lparr>au_store := st\<rparr>)"
| rotate: "RotateDevice digest now rnd ok i (au_store s) = (st, Inr cred) \<Longrightarrow> cred \<in> U \<Longrightarrow>
    auth_step digest U s \<lparr>au_store = st, au_log = au_log s @ [Rotated i cred]\<rparr>"
| rotate_fail: "RotateDevice digest now rnd ok i (au_store s) = (st, Inl e) \<Longrightarrow> auth_step digest U s (s\<lparr>au_store := st\<rparr>)"
| revoke: "RevokeDevice ok i (au_store s) = (st, None) \<Longrightarrow>
    auth_step digest U s \<lparr>au_store = st, au_log = au_log s @ [Revoked i]\<rparr>"
| revoke_fail: "RevokeDevice ok i (au_store s) = (st, Some e) \<Longrightarrow> auth_step digest U s (s\<lparr>au_store := st\<rparr>)"
| restart: "as_durable (au_store s) \<Longrightarrow> auth_Open True (as_file (au_store s)) = Inr st \<Longrightarrow>
    auth_step digest U s (s\<lparr>au_store := st\<rparr>)"

inductive auth_reach :: "(string \<Rightarrow> string) \<Rightarrow> string set \<Rightarrow> auth_sys \<Rightarrow> bool" for digest U where
  boot: "auth_Open durable None = Inr st \<Longrightarrow> auth_reach digest U \<lparr>au_store = st, au_log = []\<rparr>"
| step: "auth_reach digest U s \<Longrightarrow> auth_step digest U s s' \<Longrightarrow> auth_reach digest U s'"

section \<open>Invariant\<close>

fun dev_rel :: "(string \<Rightarrow> string) \<Rightarrow> string set \<Rightarrow> AuthDevice option \<Rightarrow> (string \<times> string) option \<Rightarrow> bool" where
  "dev_rel digest U None None = True"
| "dev_rel digest U (Some d) (Some (account, cred)) =
     (ad_AccountID d = account \<and> account \<noteq> [] \<and> ad_CredentialHash d = digest cred \<and> cred \<in> U \<and> cred \<noteq> [])"
| "dev_rel digest U _ _ = False"

definition devs_ok :: "(string \<Rightarrow> string) \<Rightarrow> string set \<Rightarrow> auth_event list \<Rightarrow> persistedState \<Rightarrow> bool" where
  "devs_ok digest U log st \<longleftrightarrow> (\<forall>i. dev_rel digest U (map_of (ps_Devices st) i) (current log i))"

definition code_open :: "(string \<Rightarrow> string) \<Rightarrow> string set \<Rightarrow> auth_event list \<Rightarrow> string \<Rightarrow> Enrollment \<Rightarrow> bool" where
  "code_open digest U log h e \<longleftrightarrow> en_AccountID e \<noteq> [] \<and>
     (\<exists>code \<in> U. h = digest code \<and> CodeIssued code (en_AccountID e) (en_ExpiresAt e) \<in> set log \<and> code \<notin> set (used_codes log))"

definition codes_ok :: "(string \<Rightarrow> string) \<Rightarrow> string set \<Rightarrow> auth_event list \<Rightarrow> persistedState \<Rightarrow> bool" where
  "codes_ok digest U log st \<longleftrightarrow> (\<forall>h e. map_of (ps_Enrollments st) h = Some e \<longrightarrow> code_open digest U log h e)"

definition state_ok :: "(string \<Rightarrow> string) \<Rightarrow> string set \<Rightarrow> auth_event list \<Rightarrow> persistedState \<Rightarrow> bool" where
  "state_ok digest U log st \<longleftrightarrow> ps_Version st = stateVersion \<and> distinct (map fst (ps_Enrollments st)) \<and>
     devs_ok digest U log st \<and> codes_ok digest U log st"

text \<open>The file, or the empty state when there is none yet.\<close>

definition file_state :: "AuthStore \<Rightarrow> persistedState" where
  "file_state s = (case as_file s of None \<Rightarrow> empty_state | Some st \<Rightarrow> st)"

definition log_ok :: "auth_event list \<Rightarrow> bool" where
  "log_ok log \<longleftrightarrow> distinct (issued_codes log) \<and> distinct (used_codes log) \<and>
     (\<forall>code i account cred now. Enrolled code i account cred now \<in> set log \<longrightarrow>
        (\<exists>expires. CodeIssued code account expires \<in> set log \<and> now \<le> expires))"

definition auth_inv :: "(string \<Rightarrow> string) \<Rightarrow> string set \<Rightarrow> auth_sys \<Rightarrow> bool" where
  "auth_inv digest U s \<longleftrightarrow> log_ok (au_log s) \<and> state_ok digest U (au_log s) (as_state (au_store s)) \<and>
     (as_durable (au_store s) \<longrightarrow> state_ok digest U (au_log s) (file_state (au_store s)))"

lemma store_frame [simp]:
  "ps_Devices (as_state (set_devices f s)) = f (ps_Devices (as_state s))"
  "ps_Enrollments (as_state (set_devices f s)) = ps_Enrollments (as_state s)"
  "ps_Version (as_state (set_devices f s)) = ps_Version (as_state s)"
  "as_file (set_devices f s) = as_file s" "as_durable (set_devices f s) = as_durable s"
  "ps_Devices (as_state (set_enrollments g s)) = ps_Devices (as_state s)"
  "ps_Enrollments (as_state (set_enrollments g s)) = g (ps_Enrollments (as_state s))"
  "ps_Version (as_state (set_enrollments g s)) = ps_Version (as_state s)"
  "as_file (set_enrollments g s) = as_file s" "as_durable (set_enrollments g s) = as_durable s"
  by (simp_all add: set_devices_def set_enrollments_def)

lemma file_state_frame [simp]:
  "file_state (set_devices f s) = file_state s" "file_state (set_enrollments g s) = file_state s"
  by (simp_all add: file_state_def)

lemma map_of_filter_Some: "distinct (map fst xs) \<Longrightarrow> map_of (filter P xs) k = Some v \<Longrightarrow> map_of xs k = Some v"
  by (rule map_of_is_SomeI) (auto dest: map_of_SomeD)

lemma prune_ok:
  assumes "state_ok digest U log (as_state s)"
  shows "state_ok digest U log (as_state (pruneExpiredLocked now s))"
  using assms by (auto simp: state_ok_def pruneExpiredLocked_def devs_ok_def codes_ok_def
      distinct_map_filter dest: map_of_filter_Some)

lemma prune_frame [simp]:
  "as_file (pruneExpiredLocked now s) = as_file s" "as_durable (pruneExpiredLocked now s) = as_durable s"
  "file_state (pruneExpiredLocked now s) = file_state s"
  by (simp_all add: pruneExpiredLocked_def)

lemma persist_cases:
  assumes "persist_auth ok s = (s', b)"
  shows "as_state s' = as_state s" and "as_durable s' = as_durable s"
    and "b \<Longrightarrow> as_durable s \<Longrightarrow> file_state s' = as_state s" and "\<not> b \<Longrightarrow> s' = s"
  using assms by (auto simp: persist_auth_def file_state_def split: if_splits)

text \<open>An operation that succeeded has written its state, so only the state in memory has to be looked at.\<close>

lemma auth_inv_done:
  assumes "persist_auth ok st = (st', True)" and "log_ok log" and "state_ok digest U log (as_state st)"
  shows "auth_inv digest U \<lparr>au_store = st', au_log = log\<rparr>"
  using persist_cases [OF assms(1)] assms(2,3) by (simp add: auth_inv_def)

text \<open>One that failed leaves the file.\<close>

lemma auth_inv_kept:
  assumes "auth_inv digest U s" and "state_ok digest U (au_log s) (as_state st)"
    and "file_state st = file_state (au_store s)" and "as_durable st = as_durable (au_store s)"
  shows "auth_inv digest U (s\<lparr>au_store := st\<rparr>)"
  using assms by (simp add: auth_inv_def)

lemma code_open_more: "code_open digest U log h e \<Longrightarrow> event_used ev = [] \<Longrightarrow> code_open digest U (log @ [ev]) h e"
  by (auto simp: code_open_def)

lemma state_ok_issue:
  assumes "state_ok digest U log st" and "code \<in> U" and "code \<notin> set (used_codes log)" and "account \<noteq> []"
  shows "state_ok digest U (log @ [CodeIssued code account expires])
    (st\<lparr>ps_Enrollments := AList.update (digest code)
       \<lparr>en_Hash = digest code, en_AccountID = account, en_CreatedAt = now, en_ExpiresAt = expires\<rparr> (ps_Enrollments st)\<rparr>)"
proof -
  let ?log = "log @ [CodeIssued code account expires]"
  have old: "code_open digest U ?log h e" if "map_of (ps_Enrollments st) h = Some e" for h e
    using assms(1) that code_open_more by (auto simp: state_ok_def codes_ok_def)
  have new: "code_open digest U ?log (digest code)
      \<lparr>en_Hash = digest code, en_AccountID = account, en_CreatedAt = now, en_ExpiresAt = expires\<rparr>"
    using assms(2-4) by (auto simp: code_open_def)
  show ?thesis using assms(1) old new
    by (auto simp: state_ok_def devs_ok_def codes_ok_def update_conv' distinct_update simp del: map_of_eq_Some_iff split: if_splits)
qed
lemma state_ok_fewer:
  assumes "state_ok digest U log st" and "distinct (map fst es)" and "\<And>h e. map_of es h = Some e \<Longrightarrow> map_of (ps_Enrollments st) h = Some e"
  shows "state_ok digest U log (st\<lparr>ps_Enrollments := es\<rparr>)"
  using assms by (auto simp: state_ok_def devs_ok_def codes_ok_def)

lemma state_ok_enroll:
  assumes ok: "state_ok digest U log st" and inj: "inj_on digest U" and code: "code \<in> U" "map_of (ps_Enrollments st) (digest code) = Some e"
    and d: "ad_AccountID d = en_AccountID e" "ad_CredentialHash d = digest cred" "cred \<in> U" "cred \<noteq> []"
    and log: "distinct (issued_codes log)"
  shows "state_ok digest U (log @ [Enrolled code i (en_AccountID e) cred now])
    (st\<lparr>ps_Enrollments := AList.delete (digest code) (ps_Enrollments st), ps_Devices := AList.update i d (ps_Devices st)\<rparr>)"
proof -
  have open_e: "code_open digest U log (digest code) e" using ok code(2) by (simp add: state_ok_def codes_ok_def)
  have "code_open digest U (log @ [Enrolled code i (en_AccountID e) cred now]) h x"
    if "map_of (ps_Enrollments st) h = Some x" "h \<noteq> digest code" for h x
    using ok that by (auto simp: state_ok_def codes_ok_def code_open_def) metis
  then show ?thesis using ok d open_e
    by (auto simp: state_ok_def devs_ok_def codes_ok_def update_conv' delete_conv' distinct_delete code_open_def split: if_splits)
qed

lemma state_ok_device:
  assumes "state_ok digest U log st" and "dev_rel digest U (Some d) (current log i)"
  shows "state_ok digest U log (st\<lparr>ps_Devices := AList.update i d (ps_Devices st)\<rparr>)"
  using assms by (auto simp: state_ok_def devs_ok_def codes_ok_def update_conv' simp del: map_of_eq_Some_iff)

lemma state_ok_rotate:
  assumes "state_ok digest U log st" and "map_of (ps_Devices st) i = Some d" and "cred \<in> U" "cred \<noteq> []"
  shows "state_ok digest U (log @ [Rotated i cred])
    (st\<lparr>ps_Devices := AList.update i (d\<lparr>ad_CredentialHash := digest cred, ad_UpdatedAt := now\<rparr>) (ps_Devices st)\<rparr>)"
proof -
  have rel: "dev_rel digest U (map_of (ps_Devices st) j) (current log j)" for j using assms(1) by (simp add: state_ok_def devs_ok_def)
  obtain a c where c: "current log i = Some (a, c)" "ad_AccountID d = a" "a \<noteq> []"
    using rel [of i] assms(2) by (cases "current log i") auto
  have "codes_ok digest U (log @ [Rotated i cred]) st"
    using assms(1) code_open_more by (auto simp: state_ok_def codes_ok_def)
  then show ?thesis using assms rel c
    by (auto simp: state_ok_def devs_ok_def codes_ok_def update_conv' simp del: map_of_eq_Some_iff)
qed

lemma state_ok_revoke:
  assumes "state_ok digest U log st"
  shows "state_ok digest U (log @ [Revoked i]) (st\<lparr>ps_Devices := AList.delete i (ps_Devices st)\<rparr>)"
proof -
  have "codes_ok digest U (log @ [Revoked i]) st"
    using assms code_open_more by (auto simp: state_ok_def codes_ok_def)
  then show ?thesis using assms
    by (auto simp: state_ok_def devs_ok_def codes_ok_def delete_conv' simp del: map_of_eq_Some_iff)
qed

lemma set_as_state:
  "as_state (set_devices f s) = (as_state s)\<lparr>ps_Devices := f (ps_Devices (as_state s))\<rparr>"
  "as_state (set_enrollments g s) = (as_state s)\<lparr>ps_Enrollments := g (ps_Enrollments (as_state s))\<rparr>"
  by (simp_all add: set_devices_def set_enrollments_def)

text \<open>Putting back what was there.\<close>

lemma state_ok_same_maps:
  assumes "state_ok digest U log st" and "ps_Version st' = ps_Version st" and "distinct (map fst (ps_Enrollments st'))"
    and "map_of (ps_Devices st') = map_of (ps_Devices st)"
    and "\<And>h e. map_of (ps_Enrollments st') h = Some e \<Longrightarrow> map_of (ps_Enrollments st) h = Some e"
  shows "state_ok digest U log st'"
  using assms by (simp add: state_ok_def devs_ok_def codes_ok_def)

lemma log_ok_snoc:
  assumes "log_ok log" and "distinct (issued_codes log @ event_codes ev)" and "distinct (used_codes log @ event_used ev)"
    and "\<And>code i account cred now. ev = Enrolled code i account cred now \<Longrightarrow> \<exists>x. CodeIssued code account x \<in> set log \<and> now \<le> x"
  shows "log_ok (log @ [ev])"
  unfolding log_ok_def codes_snoc
proof (intro conjI allI impI)
  fix code i account cred now
  assume "Enrolled code i account cred now \<in> set (log @ [ev])"
  then have "\<exists>x. CodeIssued code account x \<in> set log \<and> now \<le> x" using assms(1,4) by (auto simp: log_ok_def)
  then show "\<exists>x. CodeIssued code account x \<in> set (log @ [ev]) \<and> now \<le> x" by auto
qed (use assms in auto)

lemma used_in: "code \<in> set (used_codes log) \<Longrightarrow> \<exists>i a c n. Enrolled code i a c n \<in> set log"
proof -
  assume "code \<in> set (used_codes log)"
  then obtain ev where ev: "ev \<in> set log" "code \<in> set (event_used ev)" by (auto simp: used_codes_def)
  show ?thesis by (cases ev) (use ev in auto)
qed

lemma used_issued: "log_ok log \<Longrightarrow> set (used_codes log) \<subseteq> set (issued_codes log)"
  using used_in issued_in unfolding log_ok_def by (metis subsetI)

lemma log_ok_issue: "log_ok log \<Longrightarrow> code \<notin> set (issued_codes log) \<Longrightarrow> log_ok (log @ [CodeIssued code account x])"
  by (rule log_ok_snoc) (auto simp: log_ok_def)

lemma log_ok_rotate: "log_ok log \<Longrightarrow> log_ok (log @ [Rotated i cred])"
  by (rule log_ok_snoc) (auto simp: log_ok_def)

lemma log_ok_revoke: "log_ok log \<Longrightarrow> log_ok (log @ [Revoked i])"
  by (rule log_ok_snoc) (auto simp: log_ok_def)

section \<open>Steps keep the invariant\<close>

lemma create_inv:
  assumes "auth_inv digest U s" and "CreateEnrollment digest now rnd ok ttl account (au_store s) = (st, res)"
  shows "(\<forall>code expires. res = Inr (code, expires) \<longrightarrow> code \<in> U \<longrightarrow> code \<notin> set (issued_codes (au_log s)) \<longrightarrow>
      auth_inv digest U \<lparr>au_store = st, au_log = au_log s @ [CodeIssued code (trim_space account) expires]\<rparr>) \<and>
    (\<forall>e. res = Inl e \<longrightarrow> auth_inv digest U (s\<lparr>au_store := st\<rparr>))"
proof (cases "validateAccountID (trim_space account) = None \<and> rnd \<noteq> None")
  case False
  then have "st = au_store s" "\<exists>e. res = Inl e" using assms(2)
    by (auto simp: CreateEnrollment_def Let_def split: option.splits)
  then show ?thesis using assms(1) by auto
next
  case True
  then obtain r where rnd: "rnd = Some r" and acc: "trim_space account \<noteq> []"
    by (auto simp: validateAccountID_def split: if_splits)
  let ?c = "''enr_'' @ r"
  let ?x = "now + enrollment_ttl ttl"
  let ?p = "pruneExpiredLocked now (au_store s)"
  let ?e = "\<lparr>en_Hash = digest ?c, en_AccountID = trim_space account, en_CreatedAt = now, en_ExpiresAt = ?x\<rparr>"
  let ?s = "set_enrollments (AList.update (digest ?c) ?e) ?p"
  obtain s' b where p: "persist_auth ok ?s = (s', b)" by (cases "persist_auth ok ?s")
  have pruned: "state_ok digest U (au_log s) (as_state ?p)"
    using assms(1) by (intro prune_ok) (simp add: auth_inv_def)
  show ?thesis
  proof (cases b)
    case True
    have res: "st = s'" "res = Inr (?c, ?x)" using assms(2) rnd True p \<open>validateAccountID _ = None \<and> _\<close>
      by (auto simp: CreateEnrollment_def Let_def)
    have lok: "log_ok (au_log s)" using assms(1) by (simp add: auth_inv_def)
    have "auth_inv digest U \<lparr>au_store = s', au_log = au_log s @ [CodeIssued ?c (trim_space account) ?x]\<rparr>"
      if "?c \<in> U" "?c \<notin> set (issued_codes (au_log s))"
    proof (rule auth_inv_done)
      show "persist_auth ok ?s = (s', True)" using p True by simp
      show "log_ok (au_log s @ [CodeIssued ?c (trim_space account) ?x])" using lok that(2) by (rule log_ok_issue)
      have "?c \<notin> set (used_codes (au_log s))"
        using lok that(2) used_issued by blast
      then show "state_ok digest U (au_log s @ [CodeIssued ?c (trim_space account) ?x]) (as_state ?s)"
        using state_ok_issue [OF pruned that(1) _ acc] by (simp add: set_as_state)
    qed
    then show ?thesis using res by auto
  next
    case False
    then have res: "st = set_enrollments (AList.delete (digest ?c)) ?s" "res = Inl ErrPersist"
      using assms(2) rnd p persist_cases(4) [OF p] \<open>validateAccountID _ = None \<and> _\<close>
      by (auto simp: CreateEnrollment_def Let_def)
    have "distinct (map fst (ps_Enrollments (as_state ?p)))" using pruned by (simp add: state_ok_def)
    then have "state_ok digest U (au_log s) (as_state st)" unfolding res set_as_state
      by (intro state_ok_same_maps [OF pruned]) (auto simp: delete_conv' update_conv' distinct_delete distinct_update
          simp del: map_of_eq_Some_iff split: if_splits)
    then show ?thesis using assms(1) res by (auto intro: auth_inv_kept)
  qed
qed

lemma enroll_inv:
  assumes inv: "auth_inv digest U s" and inj: "inj_on digest U"
    and res: "EnrollDevice digest now rnd ok code i name (au_store s) = (st, res)"
  shows "(\<forall>cred d. res = Inr cred \<longrightarrow> code \<in> U \<longrightarrow> cred \<in> U \<longrightarrow> auth_device st i = Some d \<longrightarrow>
      auth_inv digest U \<lparr>au_store = st, au_log = au_log s @ [Enrolled code i (ad_AccountID d) cred now]\<rparr>) \<and>
    (\<forall>e. res = Inl e \<longrightarrow> auth_inv digest U (s\<lparr>au_store := st\<rparr>))"
proof -
  let ?p = "pruneExpiredLocked now (au_store s)"
  have pruned: "state_ok digest U (au_log s) (as_state ?p)"
    using inv by (intro prune_ok) (simp add: auth_inv_def)
  have lok: "log_ok (au_log s)" using inv by (simp add: auth_inv_def)
  have same: "auth_inv digest U (s\<lparr>au_store := au_store s\<rparr>)" and
    kept: "auth_inv digest U (s\<lparr>au_store := ?p\<rparr>)" using inv auth_inv_kept [OF inv pruned] by simp_all
  consider (early) "(st = au_store s \<or> st = ?p)" "\<exists>e. res = Inl e"
    | (late) entry r where "auth_enrollment ?p (digest code) = Some entry" "\<not> now > en_ExpiresAt entry" "auth_device ?p i = None"
        "rnd = Some r" "code \<noteq> []" "i \<noteq> []" "name \<noteq> []"
    using res by (auto simp: EnrollDevice_def Let_def split: if_splits option.splits)
  then show ?thesis
  proof cases
    case early
    then show ?thesis using same kept by auto
  next
    case late
    let ?c = "''dev_'' @ r"
    let ?d = "\<lparr>ad_ID = i, ad_Name = name, ad_AccountID = en_AccountID entry, ad_CredentialHash = digest ?c, ad_CreatedAt = now, ad_UpdatedAt = now\<rparr>"
    let ?s = "set_devices (AList.update i ?d) (set_enrollments (AList.delete (digest code)) ?p)"
    obtain s' b where p: "persist_auth ok ?s = (s', b)" by (cases "persist_auth ok ?s")
    have entry: "map_of (ps_Enrollments (as_state ?p)) (digest code) = Some entry" using late(1) by (simp add: auth_enrollment_def)
    show ?thesis
    proof (cases b)
      case True
      then have r: "st = s'" "res = Inr ?c" using res late p by (auto simp: EnrollDevice_def Let_def)
      have "auth_device st i = Some ?d" using r persist_cases(1) [OF p] by (simp add: auth_device_def update_conv')
      moreover have "auth_inv digest U \<lparr>au_store = s', au_log = au_log s @ [Enrolled code i (en_AccountID entry) ?c now]\<rparr>"
        if "code \<in> U" "?c \<in> U"
      proof (rule auth_inv_done)
        show "persist_auth ok ?s = (s', True)" using p True by simp
        have "code_open digest U (au_log s) (digest code) entry" using pruned entry by (simp add: state_ok_def codes_ok_def)
        then obtain code' where c': "code' \<in> U" "digest code = digest code'" "code' \<notin> set (used_codes (au_log s))"
          "CodeIssued code' (en_AccountID entry) (en_ExpiresAt entry) \<in> set (au_log s)" by (auto simp: code_open_def)
        then have "code' = code" using inj that(1) by (auto dest: inj_onD)
        then show "log_ok (au_log s @ [Enrolled code i (en_AccountID entry) ?c now])"
          using lok c' late(2) by (intro log_ok_snoc) (force simp: log_ok_def)+
        show "state_ok digest U (au_log s @ [Enrolled code i (en_AccountID entry) ?c now]) (as_state ?s)"
          using state_ok_enroll [OF pruned inj that(1) entry, of ?d ?c i now] that(2) lok by (simp add: set_as_state log_ok_def)
      qed
      ultimately show ?thesis using r by auto
    next
      case False
      then have r: "st = set_enrollments (AList.update (digest code) entry) (set_devices (AList.delete i) ?s)" "res = Inl ErrPersist"
        using res late p persist_cases(4) [OF p] by (auto simp: EnrollDevice_def Let_def)
      have "map_of (ps_Devices (as_state ?p)) i = None" using late(3) by (simp add: auth_device_def)
      moreover have "distinct (map fst (ps_Enrollments (as_state ?p)))" using pruned by (simp add: state_ok_def)
      ultimately have "state_ok digest U (au_log s) (as_state st)" unfolding r set_as_state
        by (intro state_ok_same_maps [OF pruned]) (auto simp: delete_conv' update_conv' distinct_delete distinct_update entry fun_eq_iff
            simp del: map_of_eq_Some_iff split: if_splits)
      then show ?thesis using inv r by (auto intro: auth_inv_kept)
    qed
  qed
qed

lemma device_rel: "state_ok digest U log st \<Longrightarrow> dev_rel digest U (map_of (ps_Devices st) i) (current log i)"
  by (simp add: state_ok_def devs_ok_def)

lemma rename_inv:
  assumes inv: "auth_inv digest U s" and res: "UpdateDeviceName now ok i name (au_store s) = (st, e)"
  shows "auth_inv digest U (s\<lparr>au_store := st\<rparr>)"
proof (cases "name = [] \<or> auth_device (au_store s) i = None \<or> ad_Name (the (auth_device (au_store s) i)) = name")
  case True
  then have "st = au_store s" using res by (auto simp: UpdateDeviceName_def split: option.splits if_splits)
  then show ?thesis using inv by simp
next
  case False
  then obtain d where d: "auth_device (au_store s) i = Some d" by auto
  let ?s = "set_devices (AList.update i (d\<lparr>ad_Name := name, ad_UpdatedAt := now\<rparr>)) (au_store s)"
  have mem: "state_ok digest U (au_log s) (as_state (au_store s))" using inv by (simp add: auth_inv_def)
  have rel: "dev_rel digest U (Some d) (current (au_log s) i)" using device_rel [OF mem, of i] d by (simp add: auth_device_def)
  have new: "state_ok digest U (au_log s) (as_state ?s)" unfolding set_as_state
    by (rule state_ok_device [OF mem]) (use rel in \<open>cases "current (au_log s) i"; auto\<close>)
  obtain s' b where p: "persist_auth ok ?s = (s', b)" by (cases "persist_auth ok ?s")
  have st: "st = s'" using res False d p by (cases b) (auto simp: UpdateDeviceName_def)
  show ?thesis
  proof (cases b)
    case True
    have "auth_inv digest U \<lparr>au_store = s', au_log = au_log s\<rparr>"
      using p True new inv by (intro auth_inv_done [of ok ?s]) (auto simp: auth_inv_def)
    then show ?thesis by (cases s) (simp add: st)
  next
    case False
    then show ?thesis using persist_cases(4) [OF p] new inv st by (auto intro: auth_inv_kept)
  qed
qed

lemma rotate_inv:
  assumes inv: "auth_inv digest U s" and res: "RotateDevice digest now rnd ok i (au_store s) = (st, res)"
  shows "(\<forall>cred. res = Inr cred \<longrightarrow> cred \<in> U \<longrightarrow> auth_inv digest U \<lparr>au_store = st, au_log = au_log s @ [Rotated i cred]\<rparr>) \<and>
    (\<forall>e. res = Inl e \<longrightarrow> auth_inv digest U (s\<lparr>au_store := st\<rparr>))"
proof (cases "auth_device (au_store s) i = None \<or> rnd = None")
  case True
  then have "st = au_store s" "\<exists>e. res = Inl e" using res by (auto simp: RotateDevice_def split: option.splits)
  then show ?thesis using inv by auto
next
  case False
  then obtain d r where d: "auth_device (au_store s) i = Some d" "rnd = Some r" by auto
  let ?c = "''dev_'' @ r"
  let ?s = "set_devices (AList.update i (d\<lparr>ad_CredentialHash := digest ?c, ad_UpdatedAt := now\<rparr>)) (au_store s)"
  have mem: "state_ok digest U (au_log s) (as_state (au_store s))" and lok: "log_ok (au_log s)"
    using inv by (simp_all add: auth_inv_def)
  have old: "map_of (ps_Devices (as_state (au_store s))) i = Some d" using d(1) by (simp add: auth_device_def)
  obtain s' b where p: "persist_auth ok ?s = (s', b)" by (cases "persist_auth ok ?s")
  show ?thesis
  proof (cases b)
    case True
    then have r: "st = s'" "res = Inr ?c" using res d p by (auto simp: RotateDevice_def Let_def)
    have "auth_inv digest U \<lparr>au_store = s', au_log = au_log s @ [Rotated i ?c]\<rparr>" if "?c \<in> U"
      using state_ok_rotate [OF mem old that] p True lok
      by (intro auth_inv_done [of ok ?s]) (simp_all add: set_as_state log_ok_rotate)
    then show ?thesis using r by auto
  next
    case False
    then have r: "st = set_devices (AList.update i d) ?s" "res = Inl ErrPersist"
      using res d p persist_cases(4) [OF p] by (auto simp: RotateDevice_def Let_def)
    have "state_ok digest U (au_log s) (as_state st)" unfolding r set_as_state using mem old
      by (intro state_ok_same_maps [OF mem]) (auto simp: update_conv' fun_eq_iff state_ok_def simp del: map_of_eq_Some_iff)
    then show ?thesis using inv r by (auto intro: auth_inv_kept)
  qed
qed

lemma revoke_inv:
  assumes inv: "auth_inv digest U s" and res: "RevokeDevice ok i (au_store s) = (st, err)"
  shows "(err = None \<longrightarrow> auth_inv digest U \<lparr>au_store = st, au_log = au_log s @ [Revoked i]\<rparr>) \<and>
    (err \<noteq> None \<longrightarrow> auth_inv digest U (s\<lparr>au_store := st\<rparr>))"
proof (cases "auth_device (au_store s) i")
  case None
  then have "st = au_store s" "err \<noteq> None" using res by (auto simp: RevokeDevice_def)
  then show ?thesis using inv by auto
next
  case (Some d)
  let ?s = "set_devices (AList.delete i) (au_store s)"
  have mem: "state_ok digest U (au_log s) (as_state (au_store s))" and lok: "log_ok (au_log s)"
    using inv by (simp_all add: auth_inv_def)
  have old: "map_of (ps_Devices (as_state (au_store s))) i = Some d" using Some by (simp add: auth_device_def)
  obtain s' b where p: "persist_auth ok ?s = (s', b)" by (cases "persist_auth ok ?s")
  show ?thesis
  proof (cases b)
    case True
    then have r: "st = s'" "err = None" using res Some p by (auto simp: RevokeDevice_def)
    have "auth_inv digest U \<lparr>au_store = s', au_log = au_log s @ [Revoked i]\<rparr>"
      using state_ok_revoke [OF mem] p True lok
      by (intro auth_inv_done [of ok ?s]) (simp_all add: set_as_state log_ok_revoke)
    then show ?thesis using r by auto
  next
    case False
    then have r: "st = set_devices (AList.update i d) ?s" "err = Some ErrPersist"
      using res Some p persist_cases(4) [OF p] by (auto simp: RevokeDevice_def)
    have "state_ok digest U (au_log s) (as_state st)" unfolding r set_as_state using mem old
      by (intro state_ok_same_maps [OF mem]) (auto simp: update_conv' delete_conv' fun_eq_iff state_ok_def simp del: map_of_eq_Some_iff)
    then show ?thesis using inv r by (auto intro: auth_inv_kept)
  qed
qed

lemma restart_inv:
  assumes inv: "auth_inv digest U s" and "as_durable (au_store s)" and res: "auth_Open True (as_file (au_store s)) = Inr st"
  shows "auth_inv digest U (s\<lparr>au_store := st\<rparr>)"
proof -
  have disk: "state_ok digest U (au_log s) (file_state (au_store s))" using assms by (simp add: auth_inv_def)
  then have "ps_Version (file_state (au_store s)) = stateVersion" by (simp add: state_ok_def)
  then have "as_state st = file_state (au_store s)" "file_state st = file_state (au_store s)" "as_durable st"
    using res by (auto simp: auth_Open_def file_state_def Let_def split: option.splits if_splits)
  then show ?thesis using inv disk assms(2) by (intro auth_inv_kept) simp_all
qed

lemma auth_reach_inv:
  assumes "auth_reach digest U s" and inj: "inj_on digest U"
  shows "auth_inv digest U s"
  using assms(1)
proof (induction rule: auth_reach.induct)
  case (boot durable st)
  have "dev_rel digest U None (current [] i)" for i by (simp add: current_def)
  then have "state_ok digest U [] empty_state"
    by (simp add: state_ok_def empty_state_def devs_ok_def codes_ok_def)
  moreover have "as_state st = empty_state" "file_state st = empty_state"
    using boot by (auto simp: auth_Open_def file_state_def split: if_splits)
  ultimately show ?case by (simp add: auth_inv_def log_ok_def issued_codes_def used_codes_def)
next
  case (step s s')
  from step.hyps(2) step.IH show ?case
  proof (induction rule: auth_step.induct)
    case (enroll now rnd ok code i name s st cred d)
    then show ?case using enroll_inv [OF enroll.prems inj enroll.hyps(1)] by blast
  next
    case (enroll_fail now rnd ok code i name s st e)
    then show ?case using enroll_inv [OF enroll_fail.prems inj enroll_fail.hyps] by blast
  next
    case (create now rnd ok ttl account s st code expires)
    then show ?case using create_inv [OF create.prems create.hyps(1)] by blast
  next
    case (create_fail now rnd ok ttl account s st e)
    then show ?case using create_inv [OF create_fail.prems create_fail.hyps] by blast
  next
    case (rotate now rnd ok i s st cred)
    then show ?case using rotate_inv [OF rotate.prems rotate.hyps(1)] by blast
  next
    case (rotate_fail now rnd ok i s st e)
    then show ?case using rotate_inv [OF rotate_fail.prems rotate_fail.hyps] by blast
  next
    case (revoke ok i s st)
    then show ?case using revoke_inv [OF revoke.prems revoke.hyps] by blast
  next
    case (revoke_fail ok i s st e)
    then show ?case using revoke_inv [OF revoke_fail.prems revoke_fail.hyps] by blast
  next
    case (rename now ok i name s st e)
    then show ?case using rename_inv [OF rename.prems rename.hyps] by blast
  next
    case (restart s st)
    then show ?case using restart_inv [OF restart.prems restart.hyps] by blast
  qed
qed

section \<open>Properties\<close>

text \<open>
  (C26) Enrolment codes work once. In every history of the store, with failing writes and restarts in between, each
  enrolled device presented a code that had been issued for its account and had not expired, and no code was ever
  used for two enrolments; this rests on random codes not repeating and on digests of the strings at hand not
  colliding.
\<close>

theorem enrollment_single_use:
  assumes "auth_reach digest U s" and "inj_on digest U"
  shows "distinct (used_codes (au_log s)) \<and>
    (\<forall>code i account cred now. Enrolled code i account cred now \<in> set (au_log s) \<longrightarrow>
       (\<exists>expires. CodeIssued code account expires \<in> set (au_log s) \<and> now \<le> expires))"
  using auth_reach_inv [OF assms] by (simp add: auth_inv_def log_ok_def)

text \<open>
  (C27) The store implements the register of valid credentials. A device and a credential are accepted exactly if the
  credential is the last one handed out for this device by enrolment or rotation and the device was not revoked
  since, although only digests are stored and the process may have been restarted; and the account of a device is
  the account of the code it was enrolled with.
\<close>

theorem verify_device_refines:
  assumes "auth_reach digest U s" and "inj_on digest U" and "cred \<in> U" and "i \<noteq> []"
  shows "(VerifyDevice digest i cred (au_store s) \<longleftrightarrow> (\<exists>account. current (au_log s) i = Some (account, cred))) \<and>
    DeviceAccount i (au_store s) = map_option fst (current (au_log s) i)"
proof -
  have rel: "dev_rel digest U (auth_device (au_store s) i) (current (au_log s) i)"
    using auth_reach_inv [OF assms(1,2)] by (simp add: auth_inv_def state_ok_def devs_ok_def auth_device_def)
  show ?thesis
  proof (cases "auth_device (au_store s) i")
    case None
    then have "current (au_log s) i = None" using rel by (cases "current (au_log s) i") auto
    then show ?thesis using None by (simp add: VerifyDevice_def DeviceAccount_def)
  next
    case (Some d)
    then obtain a c where c: "current (au_log s) i = Some (a, c)" "ad_AccountID d = a" "a \<noteq> []" "ad_CredentialHash d = digest c"
      "c \<in> U" "c \<noteq> []" using rel by (cases "current (au_log s) i") auto
    have "digest cred = digest c \<longleftrightarrow> cred = c" using inj_on_eq_iff [OF assms(2,3) c(5)] by simp
    then show ?thesis using Some c assms(4) by (auto simp: VerifyDevice_def DeviceAccount_def)
  qed
qed

section \<open>A history\<close>

definition sample_opened :: AuthStore where
  "sample_opened = \<lparr>as_durable = True, as_state = empty_state, as_file = None\<rparr>"

definition sample_issued :: AuthStore where
  "sample_issued = fst (CreateEnrollment id 0 (Some ''a'') True 0 ''acme'' sample_opened)"

definition sample_enrolled :: AuthStore where
  "sample_enrolled = fst (EnrollDevice id 5 (Some ''k'') True ''enr_a'' ''mac'' ''Mac'' sample_issued)"

definition sample_reopened :: AuthStore where
  "sample_reopened = (case auth_Open True (as_file sample_enrolled) of Inr st \<Rightarrow> st)"

definition sample_log :: "auth_event list" where
  "sample_log = [CodeIssued ''enr_a'' ''acme'' 600000000000, Enrolled ''enr_a'' ''mac'' ''acme'' ''dev_k'' 5]"

lemma sample_ops:
  "snd (CreateEnrollment id 0 (Some ''a'') True 0 ''acme'' sample_opened) = Inr (''enr_a'', 600000000000)"
  "snd (EnrollDevice id 5 (Some ''k'') True ''enr_a'' ''mac'' ''Mac'' sample_issued) = Inr ''dev_k''"
  "map_option ad_AccountID (auth_device sample_enrolled ''mac'') = Some ''acme''"
  "auth_Open True (as_file sample_enrolled) = Inr sample_reopened" "as_durable sample_enrolled"
  "trim_space ''acme'' = ''acme''"
  by code_simp+

lemma sample_auth_reach: "auth_reach id UNIV \<lparr>au_store = sample_reopened, au_log = sample_log\<rparr>"
proof -
  let ?log = "[CodeIssued ''enr_a'' ''acme'' 600000000000]"
  have "auth_Open True None = Inr sample_opened" by (simp add: auth_Open_def sample_opened_def)
  from auth_reach.boot [OF this] have r0: "auth_reach id UNIV \<lparr>au_store = sample_opened, au_log = []\<rparr>" .
  have "CreateEnrollment id 0 (Some ''a'') True 0 ''acme'' sample_opened = (sample_issued, Inr (''enr_a'', 600000000000))"
    using sample_ops(1) by (simp add: sample_issued_def prod_eq_iff)
  then have "auth_step id UNIV \<lparr>au_store = sample_opened, au_log = []\<rparr> \<lparr>au_store = sample_issued, au_log = ?log\<rparr>"
    using auth_step.create [of id 0 "Some ''a''" True 0 "''acme''" "\<lparr>au_store = sample_opened, au_log = []\<rparr>"] sample_ops(6)
    by (simp add: issued_codes_def)
  from auth_reach.step [OF r0 this] have r1: "auth_reach id UNIV \<lparr>au_store = sample_issued, au_log = ?log\<rparr>" .
  obtain d where d: "auth_device sample_enrolled ''mac'' = Some d" "ad_AccountID d = ''acme''" using sample_ops(3) by auto
  have "EnrollDevice id 5 (Some ''k'') True ''enr_a'' ''mac'' ''Mac'' sample_issued = (sample_enrolled, Inr ''dev_k'')"
    using sample_ops(2) by (simp add: sample_enrolled_def prod_eq_iff)
  then have "auth_step id UNIV \<lparr>au_store = sample_issued, au_log = ?log\<rparr> \<lparr>au_store = sample_enrolled, au_log = sample_log\<rparr>"
    using auth_step.enroll [of id 5 "Some ''k''" True "''enr_a''" "''mac''" "''Mac''" "\<lparr>au_store = sample_issued, au_log = ?log\<rparr>" sample_enrolled "''dev_k''" UNIV d] d
    by (simp add: sample_log_def)
  from auth_reach.step [OF r1 this] have r2: "auth_reach id UNIV \<lparr>au_store = sample_enrolled, au_log = sample_log\<rparr>" .
  show ?thesis
    using auth_reach.step [OF r2 auth_step.restart [of "\<lparr>au_store = sample_enrolled, au_log = sample_log\<rparr>" sample_reopened]] sample_ops(4,5) by simp
qed

lemma enrollment_single_use_witness:
  "auth_reach id UNIV \<lparr>au_store = sample_reopened, au_log = sample_log\<rparr> \<and> distinct (used_codes sample_log) \<and>
   (\<exists>expires. CodeIssued ''enr_a'' ''acme'' expires \<in> set sample_log \<and> 5 \<le> expires)"
proof -
  have "Enrolled ''enr_a'' ''mac'' ''acme'' ''dev_k'' 5 \<in> set sample_log" by (simp add: sample_log_def)
  then show ?thesis using enrollment_single_use [OF sample_auth_reach] sample_auth_reach by auto
qed

lemma verify_device_refines_witness:
  "VerifyDevice id ''mac'' ''dev_k'' sample_reopened \<and> \<not> VerifyDevice id ''mac'' ''dev_x'' sample_reopened \<and>
   DeviceAccount ''mac'' sample_reopened = Some ''acme''"
proof -
  have "current sample_log ''mac'' = Some (''acme'', ''dev_k'')" by (simp add: sample_log_def current_def)
  then show ?thesis
    using verify_device_refines [OF sample_auth_reach, of "''dev_k''" "''mac''"] verify_device_refines [OF sample_auth_reach, of "''dev_x''" "''mac''"]
    by auto
qed

end
