(* ===== verification/DeviceSessions.thy ===== *)
theory DeviceSessions
  imports Registry AuthSpec RunBroker
begin

text \<open>
  The manager at work: device streams (\<open>internal/manager/grpc_agent.go\<close>), the administrator's actions
  (\<open>admin_handler.go\<close>) and the tool calls of accounts, interleaved, over the store of devices, the registry and
  the run-event broker.

  One stream is one device session: it registers, with a credential or an enrolment code, and then relays messages
  until its stream ends. What a stream receives is arbitrary.
\<close>

section \<open>Registration\<close>

abbreviation maxAgentPayloadBytes :: nat where "maxAgentPayloadBytes \<equiv> 1024 * 1024"

text \<open>What the clock, \<open>crypto/rand\<close> and the state file do during a registration.\<close>

record connect_env =
  ce_now :: gotime
  ce_rnd :: "string option"
  ce_ok :: bool

text \<open>
  The credential or the code: a device that proves who it is may be renamed (an error is only logged), any other has
  to enrol. The result is the credential issued, empty for a known device.
\<close>

definition Connect_auth ::
  "(string \<Rightarrow> string) \<Rightarrow> connect_env \<Rightarrow> RegisterRequest \<Rightarrow> AuthStore \<Rightarrow> AuthStore \<times> (auth_error + string)" where
  "Connect_auth digest env reg st =
     (if VerifyDevice digest (rr_DeviceID reg) (rr_DeviceCredential reg) st
      then (fst (UpdateDeviceName (ce_now env) (ce_ok env) (rr_DeviceID reg) (rr_DeviceName reg) st), Inr [])
      else EnrollDevice digest (ce_now env) (ce_rnd env) (ce_ok env) (rr_EnrollmentCode reg) (rr_DeviceID reg) (rr_DeviceName reg) st)"

definition Connect_put :: "gotime \<Rightarrow> RegisterRequest \<Rightarrow> string \<Rightarrow> Registry \<Rightarrow> Registry \<times> nat" where
  "Connect_put now reg account =
     Put \<lparr>dv_ID = rr_DeviceID reg, dv_Name = rr_DeviceName reg, dv_AccountID = account, dv_Version = rr_Version reg,
          dv_Online = True, dv_ConnectedAt = now, dv_LastSeen = now, dv_Workspaces = rr_Workspaces reg,
          dv_ToolPolicy = rr_ToolPolicy reg\<rparr>"

text \<open>The first message of a stream: a registration that can be decoded, or anything else.\<close>

definition Connect_first :: "RegisterRequest option \<Rightarrow> RegisterRequest option" where
  "Connect_first msg =
     (case msg of None \<Rightarrow> None | Some raw \<Rightarrow> (case sanitizeRegistration raw of Inl e \<Rightarrow> None | Inr reg \<Rightarrow> Some reg))"

section \<open>Messages of a stream\<close>

text \<open>Messages with the size of their payload where it is checked; \<open>MsgOther\<close> is what is skipped.\<close>

datatype stream_msg = MsgHeartbeat | MsgResponse string AgentResponse | MsgProgress string string
  | MsgRunEvent nat RunEvent | MsgRunHeads nat "RunHead list" | MsgOther

text \<open>A response payload beyond the limit is replaced by an error.\<close>

definition limit_response :: "AgentResponse \<Rightarrow> AgentResponse" where
  "limit_response resp =
     (if length (rs_Data resp) > maxAgentPayloadBytes
      then \<lparr>rs_OK = False, rs_Data = [], rs_Error = ''agent response exceeded manager payload limit''\<rparr> else resp)"

definition recv_registry :: "gotime \<Rightarrow> stream_msg \<Rightarrow> string \<Rightarrow> nat \<Rightarrow> Registry \<Rightarrow> Registry" where
  "recv_registry now m deviceID a r =
     (let r = Touch now deviceID r
      in case m of
           MsgResponse i resp \<Rightarrow> on_conn a (Deliver i (limit_response resp)) r
         | MsgProgress i payload \<Rightarrow> on_conn a (DeliverEvent i payload) r
         | _ \<Rightarrow> r)"

text \<open>Run events and heads beyond the limit are dropped; heads may be answered with the runs to replay.\<close>

definition recv_broker :: "stream_msg \<Rightarrow> string \<Rightarrow> string \<Rightarrow> RunEventBroker \<Rightarrow> RunEventBroker \<times> RunReplayCursor list option" where
  "recv_broker m account deviceID b =
     (case m of
        MsgRunEvent n event \<Rightarrow> (if n > maxAgentPayloadBytes then b else fst (Accept account deviceID event b), None)
      | MsgRunHeads n heads \<Rightarrow>
          (b, if n > maxAgentPayloadBytes then None
              else case Missing account deviceID heads b of
                     Inl e \<Rightarrow> None
                   | Inr cursors \<Rightarrow> if cursors = [] then None else Some cursors)
      | _ \<Rightarrow> (b, None))"

section \<open>The system\<close>

text \<open>A tool call in flight: its account and device, the connection it looked up, and how far it is.\<close>

datatype call_pc = CallQueued | CallHasSlot | CallWaiting string | CallDone "call_error + string"

record tool_call =
  tc_account :: string
  tc_device :: string
  tc_request :: AgentRequest
  tc_addr :: nat
  tc_pc :: call_pc

text \<open>A running stream: its connection, device and account, as captured by \<open>Connect\<close>.\<close>

record session =
  ss_addr :: nat
  ss_device :: string
  ss_account :: string

text \<open>
  \<open>ms_authed\<close> and \<open>ms_bound\<close> are registrations on their way: admitted by the store, and with the account read from
  it. The last three fields are the history: what the calls of accounts asked for (account, envelope), whatever
  connection it was written on, responses received (connection, request, data) and results of calls (account,
  connection, request, data). What was written on a connection is its \<open>ac_out\<close>.
\<close>

record mgr_sys =
  ms_auth :: auth_sys
  ms_reg :: Registry
  ms_broker :: RunEventBroker
  ms_authed :: "RegisterRequest list"
  ms_bound :: "(RegisterRequest \<times> string) list"
  ms_sessions :: "session list"
  ms_calls :: "tool_call list"
  ms_asked :: "(string \<times> Envelope) list"
  ms_received :: "(nat \<times> string \<times> string) list"
  ms_answers :: "(string \<times> nat \<times> string \<times> string) list"

definition mgr_boot :: "AuthStore \<Rightarrow> int option \<Rightarrow> mgr_sys" where
  "mgr_boot st n =
     \<lparr>ms_auth = \<lparr>au_store = st, au_log = []\<rparr>, ms_reg = NewRegistry n, ms_broker = NewRunEventBroker,
      ms_authed = [], ms_bound = [], ms_sessions = [], ms_calls = [], ms_asked = [], ms_received = [], ms_answers = []\<rparr>"

text \<open>What a registration adds to the history of the store.\<close>

definition connect_events :: "(string \<Rightarrow> string) \<Rightarrow> connect_env \<Rightarrow> RegisterRequest \<Rightarrow> AuthStore \<Rightarrow> AuthStore \<Rightarrow> auth_error + string \<Rightarrow> auth_event list" where
  "connect_events digest env reg st st' res =
     (if VerifyDevice digest (rr_DeviceID reg) (rr_DeviceCredential reg) st then []
      else case (res, auth_device st' (rr_DeviceID reg)) of
             (Inr cred, Some d) \<Rightarrow> [Enrolled (rr_EnrollmentCode reg) (rr_DeviceID reg) (ad_AccountID d) cred (ce_now env)]
           | _ \<Rightarrow> [])"

fun response_of :: "nat \<Rightarrow> stream_msg \<Rightarrow> (nat \<times> string \<times> string) list" where
  "response_of a (MsgResponse i resp) = [(a, i, rs_Data resp)]"
| "response_of a _ = []"

text \<open>
  The steps. The parts of a registration and of a call interleave with everything else; a stream may end at any time
  and its receiver may still be at work then.
\<close>

inductive mgr_step :: "(string \<Rightarrow> string) \<Rightarrow> string set \<Rightarrow> mgr_sys \<Rightarrow> mgr_sys \<Rightarrow> bool" for digest U where
  admin: "auth_step digest U (ms_auth s) au \<Longrightarrow> mgr_step digest U s (s\<lparr>ms_auth := au\<rparr>)"
| disconnect: "mgr_step digest U s (s\<lparr>ms_reg := fst (Disconnect i (ms_reg s))\<rparr>)"
| connect_auth: "Connect_first msg = Some reg \<Longrightarrow> Connect_auth digest env reg (au_store (ms_auth s)) = (st, res) \<Longrightarrow>
    {rr_DeviceCredential reg, rr_EnrollmentCode reg} \<union> (case res of Inl e \<Rightarrow> {} | Inr c \<Rightarrow> {c}) \<subseteq> U \<Longrightarrow>
    mgr_step digest U s (s\<lparr>ms_auth := \<lparr>au_store = st,
        au_log = au_log (ms_auth s) @ connect_events digest env reg (au_store (ms_auth s)) st res\<rparr>,
      ms_authed := (case res of Inl e \<Rightarrow> ms_authed s | Inr issued \<Rightarrow> reg # ms_authed s)\<rparr>)"
| connect_account: "reg \<in> set (ms_authed s) \<Longrightarrow> DeviceAccount (rr_DeviceID reg) (au_store (ms_auth s)) = Some account \<Longrightarrow>
    mgr_step digest U s (s\<lparr>ms_authed := remove1 reg (ms_authed s), ms_bound := (reg, account) # ms_bound s\<rparr>)"
| connect_put: "(reg, account) \<in> set (ms_bound s) \<Longrightarrow> Connect_put now reg account (ms_reg s) = (r, a) \<Longrightarrow>
    mgr_step digest U s (s\<lparr>ms_bound := remove1 (reg, account) (ms_bound s), ms_reg := r,
      ms_sessions := \<lparr>ss_addr = a, ss_device = rr_DeviceID reg, ss_account = account\<rparr> # ms_sessions s\<rparr>)"
| receive: "ss \<in> set (ms_sessions s) \<Longrightarrow>
    mgr_step digest U s (s\<lparr>ms_reg := recv_registry now m (ss_device ss) (ss_addr ss) (ms_reg s),
      ms_broker := fst (recv_broker m (ss_account ss) (ss_device ss) (ms_broker s)),
      ms_received := ms_received s @ response_of (ss_addr ss) m\<rparr>)"
| session_end: "ss \<in> set (ms_sessions s) \<Longrightarrow>
    mgr_step digest U s (s\<lparr>ms_reg := Remove (ss_device ss) (ss_addr ss) (on_conn (ss_addr ss) close_ws (ms_reg s))\<rparr>)"
| call_start: "call_lookup account i (ms_reg s) = Inr a \<Longrightarrow>
    mgr_step digest U s (s\<lparr>ms_calls := ms_calls s @
      [\<lparr>tc_account = account, tc_device = i, tc_request = req, tc_addr = a, tc_pc = CallQueued\<rparr>]\<rparr>)"
| call_slot: "k < length (ms_calls s) \<Longrightarrow> ms_calls s ! k = t \<Longrightarrow> tc_pc t = CallQueued \<Longrightarrow>
    call_acquire (tc_addr t) (ms_reg s) = Some r \<Longrightarrow>
    mgr_step digest U s (s\<lparr>ms_reg := r, ms_calls := (ms_calls s)[k := t\<lparr>tc_pc := CallHasSlot\<rparr>]\<rparr>)"
| call_cancel: "k < length (ms_calls s) \<Longrightarrow> ms_calls s ! k = t \<Longrightarrow> tc_pc t = CallQueued \<Longrightarrow>
    mgr_step digest U s (s\<lparr>ms_calls := (ms_calls s)[k := t\<lparr>tc_pc := CallDone (Inl call_error.ErrContext)\<rparr>]\<rparr>)"
| call_write: "k < length (ms_calls s) \<Longrightarrow> ms_calls s ! k = t \<Longrightarrow> tc_pc t = CallHasSlot \<Longrightarrow>
    call_send out hook (tc_device t) (tc_request t) (tc_addr t) (ms_reg s) = (r, res) \<Longrightarrow>
    mgr_step digest U s (s\<lparr>ms_reg := r,
      ms_calls := (ms_calls s)[k := t\<lparr>tc_pc := (case res of Inl e \<Rightarrow> CallDone (Inl e) | Inr i \<Rightarrow> CallWaiting i)\<rparr>],
      ms_asked := ms_asked s @ (case res of Inl e \<Rightarrow> [] | Inr i \<Rightarrow>
        [(tc_account t, \<lparr>ev_RequestID = i, ev_DeviceID = tc_device t, ev_Payload = tc_request t\<rparr>)])\<rparr>)"
| call_end: "k < length (ms_calls s) \<Longrightarrow> ms_calls s ! k = t \<Longrightarrow> tc_pc t = CallWaiting i \<Longrightarrow>
    call_finish ctxDone i (tc_addr t) (ms_reg s) = Some (r, res) \<Longrightarrow>
    mgr_step digest U s (s\<lparr>ms_reg := r, ms_calls := (ms_calls s)[k := t\<lparr>tc_pc := CallDone res\<rparr>],
      ms_answers := ms_answers s @ (case res of Inl e \<Rightarrow> [] | Inr d \<Rightarrow> [(tc_account t, tc_addr t, i, d)])\<rparr>)"

inductive mgr_reach :: "(string \<Rightarrow> string) \<Rightarrow> string set \<Rightarrow> mgr_sys \<Rightarrow> bool" for digest U where
  boot: "auth_Open keep None = Inr st \<Longrightarrow> mgr_reach digest U (mgr_boot st n)"
| step: "mgr_reach digest U s \<Longrightarrow> mgr_step digest U s s' \<Longrightarrow> mgr_reach digest U s'"

end
