(* ===== verification/DeviceSafety.thy ===== *)
theory DeviceSafety
  imports DeviceSessions
begin

text \<open>
  What the manager keeps apart. Every connection carries the device and the account that the store of devices has
  bound to each other; a call reaches only connections of its account; a result comes from a response received on
  the call's connection; and the calls that hold a slot of a connection are never more than its limit.
\<close>

section \<open>Connections keep their identity\<close>

definition conn_id :: "Registry \<Rightarrow> nat \<Rightarrow> (string \<times> string) option" where
  "conn_id r a = map_option (\<lambda>c. (dv_ID (ac_device c), dv_AccountID (ac_device c))) (reg_conns r a)"

definition same_owner :: "(AgentConn \<Rightarrow> AgentConn) \<Rightarrow> bool" where
  "same_owner f \<longleftrightarrow> (\<forall>c. dv_ID (ac_device (f c)) = dv_ID (ac_device c) \<and> dv_AccountID (ac_device (f c)) = dv_AccountID (ac_device c))"

text \<open>
  \<open>reg_ok\<close>: addresses are used in order, and the entry of a device is a connection of that device.
\<close>

definition reg_ok :: "Registry \<Rightarrow> bool" where
  "reg_ok r \<longleftrightarrow> (\<forall>a. reg_next r \<le> a \<longrightarrow> reg_conns r a = None) \<and>
     (\<forall>i a. map_of (reg_devices r) i = Some a \<longrightarrow> (\<exists>account. conn_id r a = Some (i, account)))"


lemma on_conn_simps [simp]:
  "reg_devices (on_conn a f r) = reg_devices r" "reg_next (on_conn a f r) = reg_next r" "reg_seq (on_conn a f r) = reg_seq r"
  "reg_maxInflight (on_conn a f r) = reg_maxInflight r"
  "reg_conns (on_conn a f r) b = (if b = a then map_option f (reg_conns r a) else reg_conns r b)"
  by (simp_all add: on_conn_def)

lemma conn_id_on_conn [simp]: "same_owner f \<Longrightarrow> conn_id (on_conn a f r) = conn_id r"
  by (auto simp: conn_id_def same_owner_def fun_eq_iff option.map_comp comp_def)

lemma conn_id_fields [simp]:
  "conn_id (r\<lparr>reg_seq := n\<rparr>) = conn_id r" "conn_id (r\<lparr>reg_devices := ds\<rparr>) = conn_id r"
  by (simp_all add: conn_id_def fun_eq_iff)

lemma same_owner_ops [simp]:
  "same_owner close_ws" "same_owner (FailPending m)" "same_owner (Deliver i resp)" "same_owner (DeliverEvent i p)"
  "same_owner (\<lambda>c. c\<lparr>ac_sem := f c\<rparr>)" "same_owner (\<lambda>c. c\<lparr>ac_pend := g c\<rparr>)" "same_owner (\<lambda>c. c\<lparr>ac_out := h c\<rparr>)"
  "same_owner (\<lambda>c. c\<lparr>ac_device := (ac_device c)\<lparr>dv_LastSeen := now\<rparr>\<rparr>)"
  "same_owner f1 \<Longrightarrow> same_owner f2 \<Longrightarrow> same_owner (f1 \<circ> f2)"
  by (simp_all add: same_owner_def close_ws_def FailPending_def Deliver_def DeliverEvent_def Let_def split: option.splits)

text \<open>All operations but \<open>Put\<close> and \<open>Remove\<close> leave the entries and the owners alone.\<close>

definition same_owners :: "Registry \<Rightarrow> Registry \<Rightarrow> bool" where
  "same_owners r r' \<longleftrightarrow> conn_id r' = conn_id r \<and> reg_devices r' = reg_devices r \<and> reg_next r' = reg_next r \<and>
     reg_maxInflight r' = reg_maxInflight r"

lemma same_owners_on_conn: "same_owner f \<Longrightarrow> same_owners r (on_conn a f r)"
  by (simp add: same_owners_def)

lemma same_owners_trans [trans]: "same_owners r r' \<Longrightarrow> same_owners r' r'' \<Longrightarrow> same_owners r r''"
  by (simp add: same_owners_def)

lemma same_owners_ops:
  "same_owners r (Touch now i r)" "same_owners r (fst (Disconnect i r))" "same_owners r (call_release a r)"
  "call_acquire a r = Some r' \<Longrightarrow> same_owners r r'"
  "call_send out hook i req a r = (r', res) \<Longrightarrow> same_owners r r'"
  "call_finish d i a r = Some (r', res') \<Longrightarrow> same_owners r r'"
  by (auto simp: same_owners_def Touch_def Disconnect_def call_release_def call_acquire_def call_send_def call_finish_def Let_def
      split: option.splits if_splits write_outcome.splits)

lemma same_owners_recv: "same_owners r (recv_registry now m i a r)"
  using same_owners_ops(1) [of r now i]
  by (auto simp: recv_registry_def Let_def same_owners_def split: stream_msg.splits)

lemma conn_none: "conn_id r a = None \<longleftrightarrow> reg_conns r a = None"
  by (simp add: conn_id_def)

lemma reg_ok_same: "reg_ok r \<Longrightarrow> same_owners r r' \<Longrightarrow> reg_ok r'"
  unfolding reg_ok_def same_owners_def conn_none [symmetric] by metis

lemma Put_owner:
  assumes "Put dev r = (r', a)" and "reg_ok r"
  shows "a = reg_next r" "conn_id r' = (conn_id r)(a \<mapsto> (dv_ID dev, dv_AccountID dev))" "reg_ok r'"
    "reg_maxInflight r' = reg_maxInflight r"
proof -
  let ?conn = "\<lparr>ac_device = dev, ac_closed = False, ac_pend = [], ac_sem = 0, ac_out = []\<rparr>"
  let ?r = "r\<lparr>reg_conns := (reg_conns r)(reg_next r \<mapsto> ?conn), reg_next := reg_next r + 1,
    reg_devices := AList.update (dv_ID dev) (reg_next r) (reg_devices r)\<rparr>"
  have ids: "conn_id ?r = (conn_id r)(reg_next r \<mapsto> (dv_ID dev, dv_AccountID dev))" by (auto simp: conn_id_def)
  have used: "b < reg_next r" if "map_of (reg_devices r) i = Some b" for i b
    using that assms(2) unfolding reg_ok_def conn_none [symmetric] by (metis not_le option.distinct(1))
  have ok: "reg_ok ?r" using assms(2) used ids
    unfolding reg_ok_def by (auto simp: update_conv' split: if_splits)
  show a: "a = reg_next r" using assms(1) by (auto simp: Put_def Let_def)
  have r': "same_owners ?r r'" using assms(1)
    by (auto simp: Put_def Let_def same_owners_def intro!: conn_id_on_conn split: option.splits)
  show "conn_id r' = (conn_id r)(a \<mapsto> (dv_ID dev, dv_AccountID dev))" using r' ids a by (simp add: same_owners_def)
  show "reg_ok r'" by (rule reg_ok_same [OF ok r'])
  show "reg_maxInflight r' = reg_maxInflight r" using r' by (simp add: same_owners_def)
qed

lemma Remove_owner:
  assumes "reg_ok r"
  shows "conn_id (Remove i a r) = conn_id r" "reg_ok (Remove i a r)" "reg_maxInflight (Remove i a r) = reg_maxInflight r"
proof -
  show ids: "conn_id (Remove i a r) = conn_id r" by (simp add: Remove_def Let_def)
  have "reg_conns (Remove i a r) b = None" if "reg_next r \<le> b" for b
    using assms that ids conn_none by (metis reg_ok_def)
  then show "reg_ok (Remove i a r)" using assms ids
    by (auto simp: reg_ok_def Remove_def Let_def delete_conv' split: if_splits)
  show "reg_maxInflight (Remove i a r) = reg_maxInflight r" by (simp add: Remove_def Let_def)
qed

section \<open>Owners\<close>

text \<open>The store of devices bound this device to this account: it was enrolled with a code of the account.\<close>

definition bound_to :: "auth_event list \<Rightarrow> string \<Rightarrow> string \<Rightarrow> bool" where
  "bound_to log i account \<longleftrightarrow> (\<exists>code cred now. Enrolled code i account cred now \<in> set log)"

lemma current_bound: "current log i = Some (account, cred) \<Longrightarrow> bound_to log i account"
proof (induction log arbitrary: cred rule: rev_induct)
  case Nil
  then show ?case by (simp add: current_def)
next
  case (snoc e log)
  then show ?case by (cases e) (auto simp: bound_to_def split: if_splits)
qed

lemma bound_to_append: "bound_to log i account \<Longrightarrow> bound_to (log @ es) i account"
  by (auto simp: bound_to_def)

lemma account_bound:
  assumes "auth_reach digest U s" and "inj_on digest U" and "DeviceAccount i (au_store s) = Some account"
  shows "bound_to (au_log s) i account"
proof -
  have "dev_rel digest U (auth_device (au_store s) i) (current (au_log s) i)"
    using auth_reach_inv [OF assms(1,2)] by (simp add: auth_inv_def state_ok_def devs_ok_def auth_device_def)
  then obtain cred where "current (au_log s) i = Some (account, cred)"
    using assms(3) by (cases "auth_device (au_store s) i"; cases "current (au_log s) i") (auto simp: DeviceAccount_def split: if_splits)
  then show ?thesis by (rule current_bound)
qed

lemma auth_step_log: "auth_step digest U s s' \<Longrightarrow> \<exists>es. au_log s' = au_log s @ es"
  by (cases rule: auth_step.cases) auto

lemma enrolled_device: "EnrollDevice digest now rnd ok code i name st = (st', Inr cred) \<Longrightarrow> \<exists>d. auth_device st' i = Some d"
  by (auto simp: EnrollDevice_def Let_def persist_auth_def auth_device_def set_devices_def set_enrollments_def update_conv'
      split: if_splits option.splits prod.splits bool.splits)

lemma Connect_auth_reach:
  assumes "auth_reach digest U au" and res: "Connect_auth digest env reg (au_store au) = (st, res)"
    and sec: "{rr_DeviceCredential reg, rr_EnrollmentCode reg} \<union> (case res of Inl e \<Rightarrow> {} | Inr c \<Rightarrow> {c}) \<subseteq> U"
  shows "auth_reach digest U \<lparr>au_store = st, au_log = au_log au @ connect_events digest env reg (au_store au) st res\<rparr>"
proof -
  let ?au = "\<lparr>au_store = st, au_log = au_log au @ connect_events digest env reg (au_store au) st res\<rparr>"
  have "auth_step digest U au ?au"
  proof (cases "VerifyDevice digest (rr_DeviceID reg) (rr_DeviceCredential reg) (au_store au)")
    case True
    then have "?au = au\<lparr>au_store := st\<rparr>" by (cases au) (simp add: connect_events_def)
    then show ?thesis using res True
      by (auto simp: Connect_auth_def intro!: auth_step.rename prod.expand)
  next
    case False
    then have e: "EnrollDevice digest (ce_now env) (ce_rnd env) (ce_ok env) (rr_EnrollmentCode reg) (rr_DeviceID reg) (rr_DeviceName reg) (au_store au) = (st, res)"
      using res by (simp add: Connect_auth_def)
    show ?thesis
    proof (cases res)
      case (Inl err)
      then have "?au = au\<lparr>au_store := st\<rparr>" using False by (cases au) (simp add: connect_events_def)
      then show ?thesis using auth_step.enroll_fail [OF e [unfolded Inl]] by metis
    next
      case (Inr cred)
      then obtain d where "auth_device st (rr_DeviceID reg) = Some d" using enrolled_device e by blast
      then show ?thesis using auth_step.enroll [OF e [unfolded Inr]] sec False Inr by (simp add: connect_events_def)
    qed
  qed
  then show ?thesis using assms(1) auth_reach.step by metis
qed

lemma call_lookup_owner:
  assumes "call_lookup account i r = Inr a" and "reg_ok r"
  shows "conn_id r a = Some (i, account)"
proof -
  obtain c where c: "map_of (reg_devices r) i = Some a" "reg_conns r a = Some c" "dv_AccountID (ac_device c) = account"
    using assms(1) by (auto simp: call_lookup_def split: option.splits if_splits)
  then show ?thesis using assms(2) by (fastforce simp: reg_ok_def conn_id_def)
qed

lemma recv_broker_keys:
  "fst (recv_broker m account i b) (account', i', run) \<noteq> None \<Longrightarrow> b (account', i', run) = None \<Longrightarrow> account' = account \<and> i' = i"
  by (auto simp: recv_broker_def Accept_def Let_def split: stream_msg.splits if_splits prod.splits)

definition owners_inv :: "mgr_sys \<Rightarrow> bool" where
  "owners_inv s \<longleftrightarrow> reg_ok (ms_reg s) \<and>
     (\<forall>a i account. conn_id (ms_reg s) a = Some (i, account) \<longrightarrow> bound_to (au_log (ms_auth s)) i account) \<and>
     (\<forall>(reg, account) \<in> set (ms_bound s). bound_to (au_log (ms_auth s)) (rr_DeviceID reg) account) \<and>
     (\<forall>ss \<in> set (ms_sessions s). conn_id (ms_reg s) (ss_addr ss) = Some (ss_device ss, ss_account ss)) \<and>
     (\<forall>t \<in> set (ms_calls s). conn_id (ms_reg s) (tc_addr t) = Some (tc_device t, tc_account t)) \<and>
     (\<forall>(account, a, i, d) \<in> set (ms_answers s). \<exists>dev. conn_id (ms_reg s) a = Some (dev, account)) \<and>
     (\<forall>account i run. ms_broker s (account, i, run) \<noteq> None \<longrightarrow> bound_to (au_log (ms_auth s)) i account)"

text \<open>A change of the registry that keeps the owners, and more history, keep the invariant.\<close>

lemma owners_mono:
  assumes "owners_inv s" and "reg_ok r" and "conn_id r = conn_id (ms_reg s)"
  shows "owners_inv (s\<lparr>ms_reg := r\<rparr>)"
  using assms by (simp add: owners_inv_def)

lemma owners_log:
  assumes "owners_inv s" and "au_log au = au_log (ms_auth s) @ es"
  shows "owners_inv (s\<lparr>ms_auth := au\<rparr>)"
  using assms by (auto simp: owners_inv_def bound_to_append)

lemma owners_same: "owners_inv s \<Longrightarrow> same_owners (ms_reg s) r \<Longrightarrow> owners_inv (s\<lparr>ms_reg := r\<rparr>)"
  by (rule owners_mono) (auto simp: owners_inv_def intro: reg_ok_same simp: same_owners_def)

lemma owners_call:
  assumes "owners_inv s" and "k < length (ms_calls s)" and "ms_calls s ! k = t"
  shows "owners_inv (s\<lparr>ms_calls := (ms_calls s)[k := t\<lparr>tc_pc := p\<rparr>]\<rparr>)"
    and "conn_id (ms_reg s) (tc_addr t) = Some (tc_device t, tc_account t)"
proof -
  have "t \<in> set (ms_calls s)" using assms(2,3) nth_mem by metis
  then show owner: "conn_id (ms_reg s) (tc_addr t) = Some (tc_device t, tc_account t)" using assms(1) by (simp add: owners_inv_def)
  have "\<forall>t' \<in> set ((ms_calls s)[k := t\<lparr>tc_pc := p\<rparr>]). conn_id (ms_reg s) (tc_addr t') = Some (tc_device t', tc_account t')"
    using assms(1) owner set_update_subset_insert [of "ms_calls s" k "t\<lparr>tc_pc := p\<rparr>"] by (auto simp: owners_inv_def)
  then show "owners_inv (s\<lparr>ms_calls := (ms_calls s)[k := t\<lparr>tc_pc := p\<rparr>]\<rparr>)" using assms(1) by (simp add: owners_inv_def)
qed

lemma owners_put:
  assumes inv: "owners_inv s" and reg: "(reg, account) \<in> set (ms_bound s)" and put: "Connect_put now reg account (ms_reg s) = (r, a)"
  shows "owners_inv (s\<lparr>ms_bound := remove1 (reg, account) (ms_bound s), ms_reg := r,
    ms_sessions := \<lparr>ss_addr = a, ss_device = rr_DeviceID reg, ss_account = account\<rparr> # ms_sessions s\<rparr>)"
proof -
  have ok: "reg_ok (ms_reg s)" using inv by (simp add: owners_inv_def)
  note p = Put_owner [OF put [unfolded Connect_put_def] ok]
  have ids: "conn_id r = (conn_id (ms_reg s))(a \<mapsto> (rr_DeviceID reg, account))" using p(2) by simp
  have new: "conn_id (ms_reg s) a = None" using ok p(1) by (simp add: reg_ok_def conn_none)
  have keep: "conn_id r b = Some v" if "conn_id (ms_reg s) b = Some v" for b v using that ids new by auto
  have bound: "bound_to (au_log (ms_auth s)) (rr_DeviceID reg) account" using inv reg by (auto simp: owners_inv_def)
  show ?thesis using inv p(3) bound unfolding owners_inv_def
    by (auto simp: ids dest: in_set_remove1 keep notin_set_remove1 split: if_splits)
      (use new in \<open>force simp: ids dest: notin_set_remove1\<close>)+
qed

lemma owners_step:
  assumes "mgr_step digest U s s'" and "owners_inv s" and "auth_reach digest U (ms_auth s)" and "inj_on digest U"
  shows "owners_inv s'"
  using assms(1,2,3)
proof (induction rule: mgr_step.induct)
  case (admin s au)
  then show ?case using auth_step_log owners_log by blast
next
  case (disconnect s i)
  then show ?case by (intro owners_same same_owners_ops)
next
  case (connect_auth msg reg env s st res)
  then have "owners_inv (s\<lparr>ms_auth := \<lparr>au_store = st, au_log = au_log (ms_auth s) @ connect_events digest env reg (au_store (ms_auth s)) st res\<rparr>\<rparr>)"
    by (intro owners_log) simp_all
  then show ?case by (simp add: owners_inv_def)
next
  case (connect_account reg s account)
  then show ?case using account_bound [OF _ assms(4)] by (simp add: owners_inv_def)
next
  case (connect_put reg account s now r a)
  then show ?case using owners_put by blast
next
  case (receive ss s m now)
  let ?s = "s\<lparr>ms_reg := recv_registry now m (ss_device ss) (ss_addr ss) (ms_reg s)\<rparr>"
  have inv: "owners_inv ?s" using receive by (intro owners_same same_owners_recv)
  have "bound_to (au_log (ms_auth s)) (ss_device ss) (ss_account ss)" using receive by (auto simp: owners_inv_def)
  then have "bound_to (au_log (ms_auth s)) i account"
    if "fst (recv_broker m (ss_account ss) (ss_device ss) (ms_broker s)) (account, i, run) \<noteq> None" for account i run
    using recv_broker_keys [OF that] receive.prems(1) unfolding owners_inv_def by metis
  then show ?case using inv by (simp add: owners_inv_def)
next
  case (session_end ss s)
  have "owners_inv (s\<lparr>ms_reg := on_conn (ss_addr ss) close_ws (ms_reg s)\<rparr>)"
    using session_end by (intro owners_same same_owners_on_conn) simp_all
  then show ?case using owners_mono [of "s\<lparr>ms_reg := on_conn (ss_addr ss) close_ws (ms_reg s)\<rparr>"] Remove_owner(1,2)
    by (simp add: owners_inv_def)
next
  case (call_start account i s a req)
  then show ?case using call_lookup_owner by (auto simp: owners_inv_def)
next
  case (call_slot k s t r)
  then have "owners_inv (s\<lparr>ms_reg := r\<rparr>)" by (intro owners_same same_owners_ops(4))
  then show ?case using owners_call(1) [of "s\<lparr>ms_reg := r\<rparr>" k t] call_slot.hyps by simp
next
  case (call_cancel k s t)
  then show ?case by (intro owners_call)
next
  case (call_write k s t out hook r res)
  note c = owners_call [OF call_write.prems(1) call_write.hyps(1,2)]
  have same: "same_owners (ms_reg s) r" using call_write same_owners_ops(5) by blast
  have "owners_inv (s\<lparr>ms_calls := (ms_calls s)[k := t\<lparr>tc_pc := (case res of Inl e \<Rightarrow> CallDone (Inl e) | Inr i \<Rightarrow> CallWaiting i)\<rparr>], ms_reg := r\<rparr>)"
    using c(1) same by (intro owners_same) simp_all
  moreover have "conn_id r (tc_addr t) = Some (tc_device t, tc_account t)" using c(2) same by (simp add: same_owners_def)
  ultimately show ?case by (auto simp: owners_inv_def split: sum.splits)
next
  case (call_end k s t i ctxDone r res)
  note c = owners_call [OF call_end.prems(1) call_end.hyps(1,2)]
  have same: "same_owners (ms_reg s) r" using call_end same_owners_ops(6) by blast
  have "owners_inv (s\<lparr>ms_calls := (ms_calls s)[k := t\<lparr>tc_pc := CallDone res\<rparr>], ms_reg := r\<rparr>)"
    using c(1) same by (intro owners_same) simp_all
  moreover have "conn_id r (tc_addr t) = Some (tc_device t, tc_account t)" using c(2) same by (simp add: same_owners_def)
  ultimately show ?case by (auto simp: owners_inv_def split: sum.splits)
qed

lemma mgr_auth_reach: "mgr_reach digest U s \<Longrightarrow> auth_reach digest U (ms_auth s)"
proof (induction rule: mgr_reach.induct)
  case (boot keep st n)
  then show ?case by (simp add: mgr_boot_def auth_reach.boot)
next
  case (step s s')
  from step.hyps(2) step.IH show ?case
    by (cases rule: mgr_step.cases) (auto intro: auth_reach.step Connect_auth_reach)
qed

lemma mgr_owners:
  assumes "mgr_reach digest U s" and "inj_on digest U"
  shows "owners_inv s"
  using assms(1)
proof (induction rule: mgr_reach.induct)
  case (boot keep st n)
  then show ?case by (simp add: mgr_boot_def owners_inv_def reg_ok_def NewRegistry_def NewRunEventBroker_def conn_id_def)
next
  case (step s s')
  then show ?case using owners_step mgr_auth_reach assms(2) by blast
qed

section \<open>Slots\<close>

fun call_holds :: "call_pc \<Rightarrow> bool" where
  "call_holds CallHasSlot = True"
| "call_holds (CallWaiting i) = True"
| "call_holds _ = False"

definition slots :: "tool_call list \<Rightarrow> nat \<Rightarrow> nat" where
  "slots calls a = length (filter (\<lambda>t. tc_addr t = a \<and> call_holds (tc_pc t)) calls)"

lemma slots_append [simp]: "slots (calls @ [t]) a = slots calls a + (if tc_addr t = a \<and> call_holds (tc_pc t) then 1 else 0)"
  by (simp add: slots_def)

lemma slots_update:
  "k < length calls \<Longrightarrow> slots (calls[k := t]) a + (if tc_addr (calls ! k) = a \<and> call_holds (tc_pc (calls ! k)) then 1 else 0) =
     slots calls a + (if tc_addr t = a \<and> call_holds (tc_pc t) then 1 else 0)"
proof (induction calls arbitrary: k)
  case (Cons c calls)
  then show ?case by (cases k) (fastforce simp: slots_def)+
qed simp

definition sems :: "Registry \<Rightarrow> nat \<Rightarrow> nat option" where
  "sems r a = map_option ac_sem (reg_conns r a)"

definition keeps_sem :: "(AgentConn \<Rightarrow> AgentConn) \<Rightarrow> bool" where
  "keeps_sem f \<longleftrightarrow> (\<forall>c. ac_sem (f c) = ac_sem c)"

lemma sems_on_conn [simp]: "keeps_sem f \<Longrightarrow> sems (on_conn a f r) = sems r"
  by (auto simp: sems_def keeps_sem_def fun_eq_iff option.map_comp comp_def)

lemma sems_fields [simp]:
  "sems (r\<lparr>reg_seq := n\<rparr>) = sems r" "sems (r\<lparr>reg_devices := ds\<rparr>) = sems r"
  by (simp_all add: sems_def fun_eq_iff)

lemma keeps_sem_ops [simp]:
  "keeps_sem close_ws" "keeps_sem (FailPending m)" "keeps_sem (Deliver i resp)" "keeps_sem (DeliverEvent i p)"
  "keeps_sem (\<lambda>c. c\<lparr>ac_pend := g c\<rparr>)" "keeps_sem (\<lambda>c. c\<lparr>ac_out := h c\<rparr>)" "keeps_sem (\<lambda>c. c\<lparr>ac_device := d c\<rparr>)"
  "keeps_sem f1 \<Longrightarrow> keeps_sem f2 \<Longrightarrow> keeps_sem (f1 \<circ> f2)"
  by (simp_all add: keeps_sem_def close_ws_def FailPending_def Deliver_def DeliverEvent_def Let_def split: option.splits)

lemma sems_Touch [simp]: "sems (Touch now i r) = sems r"
  by (simp add: Touch_def split: option.splits)

lemma sems_ops [simp]:
  "sems (fst (Disconnect i r)) = sems r" "sems (recv_registry now m i a r) = sems r" "sems (Remove i a r) = sems r"
  by (auto simp: Disconnect_def recv_registry_def Remove_def Let_def split: option.splits stream_msg.splits)

lemma sems_release: "sems (call_release a r) = (sems r)(a := map_option (\<lambda>n. n - 1) (sems r a))"
  by (auto simp: sems_def call_release_def fun_eq_iff option.map_comp comp_def)

lemma sems_acquire:
  "call_acquire a r = Some r' \<Longrightarrow> sems r' = (sems r)(a := map_option Suc (sems r a)) \<and> the (sems r a) < reg_maxInflight r"
  by (auto simp: sems_def call_acquire_def fun_eq_iff split: option.splits if_splits)

lemma sems_send:
  "call_send out hook i req a r = (r', res) \<Longrightarrow>
     sems r' = (case res of Inl e \<Rightarrow> (sems r)(a := map_option (\<lambda>n. n - 1) (sems r a)) | Inr i \<Rightarrow> sems r)"
  by (auto simp: call_send_def Let_def sems_release split: write_outcome.splits)

lemma sems_finish: "call_finish d i a r = Some (r', res) \<Longrightarrow> sems r' = (sems r)(a := map_option (\<lambda>n. n - 1) (sems r a))"
  by (auto simp: call_finish_def Let_def sems_release split: if_splits option.splits)

lemma sems_Put: "Put dev r = (r', a) \<Longrightarrow> sems r' = (sems r)(a \<mapsto> 0) \<and> a = reg_next r"
proof -
  assume put: "Put dev r = (r', a)"
  have "sems (r\<lparr>reg_conns := (reg_conns r)(reg_next r \<mapsto> \<lparr>ac_device = dev, ac_closed = False, ac_pend = [], ac_sem = 0, ac_out = []\<rparr>),
    reg_next := reg_next r + 1, reg_devices := AList.update (dv_ID dev) (reg_next r) (reg_devices r)\<rparr>) = (sems r)(reg_next r \<mapsto> 0)"
    by (auto simp: sems_def)
  then show ?thesis using put by (auto simp: Put_def Let_def split: option.splits)
qed

definition slots_inv :: "mgr_sys \<Rightarrow> bool" where
  "slots_inv s \<longleftrightarrow> (\<forall>a n. sems (ms_reg s) a = Some n \<longrightarrow> n = slots (ms_calls s) a \<and> n \<le> reg_maxInflight (ms_reg s))"

lemma owners_slots: "owners_inv s \<Longrightarrow> conn_id (ms_reg s) a = None \<Longrightarrow> slots (ms_calls s) a = 0"
  by (fastforce simp: slots_def owners_inv_def filter_empty_conv)

text \<open>A call that stops or keeps holding a slot.\<close>

lemma slots_call:
  assumes "slots_inv s" and "k < length (ms_calls s)" and "ms_calls s ! k = t" and "reg_maxInflight r = reg_maxInflight (ms_reg s)"
    and "sems r = (if call_holds (tc_pc t) = call_holds p then sems (ms_reg s)
      else if call_holds p then (sems (ms_reg s))(tc_addr t := map_option Suc (sems (ms_reg s) (tc_addr t)))
      else (sems (ms_reg s))(tc_addr t := map_option (\<lambda>n. n - 1) (sems (ms_reg s) (tc_addr t))))"
    and "call_holds p \<Longrightarrow> \<not> call_holds (tc_pc t) \<Longrightarrow> the (sems (ms_reg s) (tc_addr t)) < reg_maxInflight (ms_reg s)"
  shows "slots_inv (s\<lparr>ms_reg := r, ms_calls := (ms_calls s)[k := t\<lparr>tc_pc := p\<rparr>]\<rparr>)"
  unfolding slots_inv_def
proof (intro allI impI)
  fix a n
  assume n: "sems (ms_reg (s\<lparr>ms_reg := r, ms_calls := (ms_calls s)[k := t\<lparr>tc_pc := p\<rparr>]\<rparr>)) a = Some n"
  have u: "slots ((ms_calls s)[k := t\<lparr>tc_pc := p\<rparr>]) a + (if tc_addr t = a \<and> call_holds (tc_pc t) then 1 else 0) =
     slots (ms_calls s) a + (if tc_addr t = a \<and> call_holds p then 1 else 0)"
    using slots_update [OF assms(2), of "t\<lparr>tc_pc := p\<rparr>" a] assms(3) by simp
  obtain m where m: "sems (ms_reg s) a = Some m" using n assms(5) by (auto split: if_splits)
  then have "m = slots (ms_calls s) a" "m \<le> reg_maxInflight (ms_reg s)" using assms(1) by (auto simp: slots_inv_def)
  then show "n = slots (ms_calls (s\<lparr>ms_reg := r, ms_calls := (ms_calls s)[k := t\<lparr>tc_pc := p\<rparr>]\<rparr>)) a \<and>
    n \<le> reg_maxInflight (ms_reg (s\<lparr>ms_reg := r, ms_calls := (ms_calls s)[k := t\<lparr>tc_pc := p\<rparr>]\<rparr>))"
    using u n m assms(4,5,6) by (auto split: if_splits)
qed

lemma slots_same:
  "slots_inv s \<Longrightarrow> sems r = sems (ms_reg s) \<Longrightarrow> reg_maxInflight r = reg_maxInflight (ms_reg s) \<Longrightarrow> slots_inv (s\<lparr>ms_reg := r\<rparr>)"
  by (simp add: slots_inv_def)

lemma slots_step:
  assumes "mgr_step digest U s s'" and "owners_inv s" and "slots_inv s"
  shows "slots_inv s'"
  using assms
proof (induction rule: mgr_step.induct)
  case (connect_put reg account s now r a)
  have ok: "reg_ok (ms_reg s)" using connect_put.prems by (simp add: owners_inv_def)
  note p = Put_owner [OF connect_put.hyps(2) [unfolded Connect_put_def] ok]
  have "sems r = (sems (ms_reg s))(a \<mapsto> 0)" using sems_Put connect_put.hyps(2) by (auto simp: Connect_put_def)
  moreover have "slots (ms_calls s) a = 0"
    using connect_put.prems(1) ok p(1) by (intro owners_slots) (simp_all add: reg_ok_def conn_none)
  ultimately show ?case using connect_put.prems(2) p(4) by (simp add: slots_inv_def)
next
  case (call_slot k s t r)
  then show ?case using sems_acquire [OF call_slot.hyps(4)] same_owners_ops(4) [OF call_slot.hyps(4)]
    by (intro slots_call) (auto simp: same_owners_def)
next
  case (call_cancel k s t)
  then show ?case using slots_call [of s k t "ms_reg s" "CallDone (Inl call_error.ErrContext)"] by simp
next
  case (call_write k s t out hook r res)
  let ?p = "case res of Inl e \<Rightarrow> CallDone (Inl e) | Inr i \<Rightarrow> CallWaiting i"
  have "slots_inv (s\<lparr>ms_reg := r, ms_calls := (ms_calls s)[k := t\<lparr>tc_pc := ?p\<rparr>]\<rparr>)"
    using call_write sems_send [OF call_write.hyps(4)] same_owners_ops(5) [OF call_write.hyps(4)]
    by (intro slots_call) (auto simp: same_owners_def split: sum.splits)
  then show ?case by (simp add: slots_inv_def)
next
  case (call_end k s t i ctxDone r res)
  have "slots_inv (s\<lparr>ms_reg := r, ms_calls := (ms_calls s)[k := t\<lparr>tc_pc := CallDone res\<rparr>]\<rparr>)"
    using call_end sems_finish [OF call_end.hyps(4)] same_owners_ops(6) [OF call_end.hyps(4)]
    by (intro slots_call) (auto simp: same_owners_def)
  then show ?case by (simp add: slots_inv_def)
qed (use same_owners_ops(2) same_owners_recv in \<open>simp_all add: slots_inv_def same_owners_def Remove_def Let_def\<close>)

section \<open>Results\<close>

text \<open>Every successful response that waits at a connection was received there.\<close>

definition pend_ok :: "(nat \<times> string \<times> string) list \<Rightarrow> nat \<Rightarrow> AgentConn \<Rightarrow> bool" where
  "pend_ok got a c \<longleftrightarrow> (\<forall>i p resp. map_of (ac_pend c) i = Some p \<longrightarrow> pc_ch p = Some resp \<longrightarrow> rs_OK resp \<longrightarrow>
     (a, i, rs_Data resp) \<in> set got \<and> length (rs_Data resp) \<le> maxAgentPayloadBytes)"

definition pends_ok :: "(nat \<times> string \<times> string) list \<Rightarrow> Registry \<Rightarrow> bool" where
  "pends_ok got r \<longleftrightarrow> (\<forall>a c. reg_conns r a = Some c \<longrightarrow> pend_ok got a c)"





lemma pends_fields [simp]:
  "pends_ok got (r\<lparr>reg_seq := n\<rparr>) = pends_ok got r" "pends_ok got (r\<lparr>reg_devices := ds\<rparr>) = pends_ok got r"
  by (simp_all add: pends_ok_def)










lemma mgr_slots:
  assumes "mgr_reach digest U s" and "inj_on digest U"
  shows "slots_inv s"
  using assms(1)
proof (induction rule: mgr_reach.induct)
  case (boot keep st n)
  then show ?case by (simp add: mgr_boot_def slots_inv_def NewRegistry_def sems_def)
next
  case (step s s')
  then show ?case using slots_step mgr_owners assms(2) by blast
qed


section \<open>What is written on a connection\<close>

text \<open>
  Every envelope handed to the stream of a connection names the connection's device, and a call of the connection's
  account asked for it.
\<close>

definition out_ok :: "(string \<times> Envelope) list \<Rightarrow> AgentConn \<Rightarrow> bool" where
  "out_ok asked c \<longleftrightarrow> (\<forall>env \<in> set (ac_out c).
     ev_DeviceID env = dv_ID (ac_device c) \<and> (dv_AccountID (ac_device c), env) \<in> set asked)"

definition outs_ok :: "(string \<times> Envelope) list \<Rightarrow> Registry \<Rightarrow> bool" where
  "outs_ok asked r \<longleftrightarrow> (\<forall>a c. reg_conns r a = Some c \<longrightarrow> out_ok asked c)"

definition keeps_out :: "(AgentConn \<Rightarrow> AgentConn) \<Rightarrow> bool" where
  "keeps_out f \<longleftrightarrow> same_owner f \<and> (\<forall>c. ac_out (f c) = ac_out c)"

lemma keeps_out_ops [simp]:
  "keeps_out close_ws" "keeps_out (FailPending m)" "keeps_out (Deliver i resp)" "keeps_out (DeliverEvent i p)"
  "keeps_out (\<lambda>c. c\<lparr>ac_sem := f c\<rparr>)" "keeps_out (\<lambda>c. c\<lparr>ac_pend := g c\<rparr>)"
  "keeps_out (\<lambda>c. c\<lparr>ac_device := (ac_device c)\<lparr>dv_LastSeen := now\<rparr>\<rparr>)"
  "keeps_out f1 \<Longrightarrow> keeps_out f2 \<Longrightarrow> keeps_out (f1 \<circ> f2)"
  by (simp_all add: keeps_out_def) (simp_all add: close_ws_def FailPending_def Deliver_def DeliverEvent_def Let_def split: option.splits)



lemma outs_fields [simp]:
  "outs_ok asked (r\<lparr>reg_seq := n\<rparr>) = outs_ok asked r" "outs_ok asked (r\<lparr>reg_devices := ds\<rparr>) = outs_ok asked r"
  by (simp_all add: outs_ok_def)







section \<open>Properties\<close>


text \<open>
  Slots. At every moment the number of calls that hold a slot of a connection is what its semaphore counts and at
  most the limit of the registry: no slot is lost when a call fails, is cancelled or the stream ends.
\<close>

theorem inflight_bounded:
  assumes "mgr_reach digest U s" and "inj_on digest U" and "reg_conns (ms_reg s) a = Some c"
  shows "ac_sem c = slots (ms_calls s) a \<and> slots (ms_calls s) a \<le> reg_maxInflight (ms_reg s)"
  using mgr_slots [OF assms(1,2)] assms(3) by (auto simp: slots_inv_def sems_def)

section \<open>A session\<close>

definition sample_register :: RegisterRequest where
  "sample_register = \<lparr>rr_EnrollmentCode = ''enr_a'', rr_DeviceCredential = [], rr_DeviceID = ''mac'', rr_DeviceName = ''Mac'',
     rr_Version = ''1'', rr_Workspaces = [\<lparr>wk_Name = ''home'', wk_Path = [], wk_Writable = True\<rparr>], rr_ToolPolicy = None\<rparr>"

definition sample_request :: AgentRequest where
  "sample_request = \<lparr>rq_Tool = ''read'', rq_Workspace = ''home'', rq_Args = [(''path'', ''a'')]\<rparr>"

definition sample_response :: stream_msg where
  "sample_response = MsgResponse ''1'' \<lparr>rs_OK = True, rs_Data = ''data'', rs_Error = []\<rparr>"

definition registry_put :: Registry where "registry_put = fst (Connect_put 5 sample_register ''acme'' (NewRegistry None))"
definition registry_slot :: Registry where "registry_slot = the (call_acquire 0 registry_put)"
definition registry_sent :: Registry where "registry_sent = fst (call_send WriteTaken False ''mac'' sample_request 0 registry_slot)"
definition registry_got :: Registry where "registry_got = recv_registry 6 sample_response ''mac'' 0 registry_sent"
definition registry_end :: Registry where "registry_end = fst (the (call_finish False ''1'' 0 registry_got))"

definition sample_call :: "call_pc \<Rightarrow> tool_call" where
  "sample_call p = \<lparr>tc_account = ''acme'', tc_device = ''mac'', tc_request = sample_request, tc_addr = 0, tc_pc = p\<rparr>"

definition sample_envelope :: Envelope where
  "sample_envelope = \<lparr>ev_RequestID = ''1'', ev_DeviceID = ''mac'', ev_Payload = sample_request\<rparr>"

definition sample_mgr :: "AuthStore \<Rightarrow> auth_event list \<Rightarrow> Registry \<Rightarrow> RegisterRequest list \<Rightarrow> (RegisterRequest \<times> string) list \<Rightarrow>
    session list \<Rightarrow> tool_call list \<Rightarrow> (string \<times> Envelope) list \<Rightarrow> (nat \<times> string \<times> string) list \<Rightarrow>
    (string \<times> nat \<times> string \<times> string) list \<Rightarrow> mgr_sys" where
  "sample_mgr st log r authed bnd ss calls snt got ans =
     \<lparr>ms_auth = \<lparr>au_store = st, au_log = log\<rparr>, ms_reg = r, ms_broker = NewRunEventBroker, ms_authed = authed, ms_bound = bnd,
      ms_sessions = ss, ms_calls = calls, ms_asked = snt, ms_received = got, ms_answers = ans\<rparr>"

definition sample_stream :: session where
  "sample_stream = \<lparr>ss_addr = 0, ss_device = ''mac'', ss_account = ''acme''\<rparr>"

definition sample_end :: mgr_sys where
  "sample_end = sample_mgr sample_enrolled sample_log registry_end [] [] [sample_stream] [sample_call (CallDone (Inr ''data''))]
     [(''acme'', sample_envelope)] [(0, ''1'', ''data'')] [(''acme'', 0, ''1'', ''data'')]"

lemma sample_facts:
  "Connect_first (Some sample_register) = Some sample_register"
  "\<not> VerifyDevice id ''mac'' [] sample_issued"
  "DeviceAccount ''mac'' sample_enrolled = Some ''acme''"
  "snd (Connect_put 5 sample_register ''acme'' (NewRegistry None)) = 0"
  "call_lookup ''acme'' ''mac'' registry_put = Inr 0"
  "call_acquire 0 registry_put \<noteq> None"
  "snd (call_send WriteTaken False ''mac'' sample_request 0 registry_slot) = Inr ''1''"
  by code_simp+

lemma sample_got: "registry_got = on_conn 0 (Deliver ''1'' \<lparr>rs_OK = True, rs_Data = ''data'', rs_Error = []\<rparr>) (Touch 6 ''mac'' registry_sent)"
  by (simp add: registry_got_def recv_registry_def sample_response_def limit_response_def)

lemma sample_finish:
  "call_finish False ''1'' 0 registry_got \<noteq> None" "snd (the (call_finish False ''1'' 0 registry_got)) = Inr ''data''"
  unfolding sample_got by code_simp+

lemma sample_enroll_step:
  "mgr_step id UNIV (sample_mgr sample_issued [CodeIssued ''enr_a'' ''acme'' 600000000000] r [] [] [] [] [] [] [])
     (sample_mgr sample_enrolled sample_log r [sample_register] [] [] [] [] [] [])"
proof -
  let ?env = "\<lparr>ce_now = 5, ce_rnd = Some ''k'', ce_ok = True\<rparr>"
  obtain d where d: "auth_device sample_enrolled ''mac'' = Some d" "ad_AccountID d = ''acme''" using sample_ops(3) by auto
  have "Connect_auth id ?env sample_register sample_issued = (sample_enrolled, Inr ''dev_k'')"
    using sample_ops(2) sample_facts(2) by (simp add: Connect_auth_def sample_register_def sample_enrolled_def prod_eq_iff)
  moreover have "connect_events id ?env sample_register sample_issued sample_enrolled (Inr ''dev_k'') =
      [Enrolled ''enr_a'' ''mac'' ''acme'' ''dev_k'' 5]"
    using d sample_facts(2) by (simp add: connect_events_def sample_register_def)
  ultimately show ?thesis
    using mgr_step.connect_auth [OF sample_facts(1), of id ?env
        "sample_mgr sample_issued [CodeIssued ''enr_a'' ''acme'' 600000000000] r [] [] [] [] [] [] []" sample_enrolled "Inr ''dev_k''" UNIV]
    by (simp add: sample_mgr_def sample_log_def)
qed

lemma sample_connected:
  "mgr_reach id UNIV (sample_mgr sample_enrolled sample_log registry_put [] [] [sample_stream] [] [] [] [])"
proof -
  have "mgr_reach id UNIV (mgr_boot sample_opened None)"
    by (rule mgr_reach.boot [of True]) (simp add: auth_Open_def sample_opened_def)
  then have r0: "mgr_reach id UNIV (sample_mgr sample_opened [] (NewRegistry None) [] [] [] [] [] [] [])"
    by (simp add: mgr_boot_def sample_mgr_def)
  have "auth_step id UNIV \<lparr>au_store = sample_opened, au_log = []\<rparr> \<lparr>au_store = sample_issued, au_log = [CodeIssued ''enr_a'' ''acme'' 600000000000]\<rparr>"
    using auth_step.create [of id 0 "Some ''a''" True 0 "''acme''" "\<lparr>au_store = sample_opened, au_log = []\<rparr>" sample_issued "''enr_a''"] sample_ops(1,6)
    by (simp add: issued_codes_def sample_issued_def prod_eq_iff)
  then have "mgr_step id UNIV (sample_mgr sample_opened [] (NewRegistry None) [] [] [] [] [] [] [])
      (sample_mgr sample_issued [CodeIssued ''enr_a'' ''acme'' 600000000000] (NewRegistry None) [] [] [] [] [] [] [])"
    using mgr_step.admin [of id UNIV "sample_mgr sample_opened [] (NewRegistry None) [] [] [] [] [] [] []"] by (simp add: sample_mgr_def)
  note r2 = mgr_reach.step [OF mgr_reach.step [OF r0 this] sample_enroll_step]
  have "mgr_step id UNIV (sample_mgr sample_enrolled sample_log (NewRegistry None) [sample_register] [] [] [] [] [] [])
      (sample_mgr sample_enrolled sample_log (NewRegistry None) [] [(sample_register, ''acme'')] [] [] [] [] [])"
    using mgr_step.connect_account [of sample_register "sample_mgr sample_enrolled sample_log (NewRegistry None) [sample_register] [] [] [] [] [] []" "''acme''" id UNIV]
      sample_facts(3) by (simp add: sample_mgr_def sample_register_def)
  note r3 = mgr_reach.step [OF r2 this]
  have "mgr_step id UNIV (sample_mgr sample_enrolled sample_log (NewRegistry None) [] [(sample_register, ''acme'')] [] [] [] [] [])
      (sample_mgr sample_enrolled sample_log registry_put [] [] [sample_stream] [] [] [] [])"
    using mgr_step.connect_put [of sample_register "''acme''" "sample_mgr sample_enrolled sample_log (NewRegistry None) [] [(sample_register, ''acme'')] [] [] [] [] []"
        5 registry_put 0 id UNIV] sample_facts(4)
    by (simp add: sample_mgr_def registry_put_def prod_eq_iff sample_stream_def) (simp add: sample_register_def)
  from mgr_reach.step [OF r3 this] show ?thesis .
qed

lemma sample_waiting:
  "mgr_reach id UNIV (sample_mgr sample_enrolled sample_log registry_sent [] [] [sample_stream] [sample_call (CallWaiting ''1'')]
     [(''acme'', sample_envelope)] [] [])"
proof -
  let ?m = "sample_mgr sample_enrolled sample_log"
  have "mgr_step id UNIV (?m registry_put [] [] [sample_stream] [] [] [] []) (?m registry_put [] [] [sample_stream] [sample_call CallQueued] [] [] [])"
    using mgr_step.call_start [of "''acme''" "''mac''" "?m registry_put [] [] [sample_stream] [] [] [] []" 0 id UNIV sample_request] sample_facts(5)
    by (simp add: sample_mgr_def sample_call_def)
  note r1 = mgr_reach.step [OF sample_connected this]
  have "mgr_step id UNIV (?m registry_put [] [] [sample_stream] [sample_call CallQueued] [] [] [])
      (?m registry_slot [] [] [sample_stream] [sample_call CallHasSlot] [] [] [])"
    using mgr_step.call_slot [of 0 "?m registry_put [] [] [sample_stream] [sample_call CallQueued] [] [] []" "sample_call CallQueued" registry_slot] sample_facts(6)
    by (simp add: sample_mgr_def sample_call_def registry_slot_def)
  note r2 = mgr_reach.step [OF r1 this]
  have "mgr_step id UNIV (?m registry_slot [] [] [sample_stream] [sample_call CallHasSlot] [] [] [])
      (?m registry_sent [] [] [sample_stream] [sample_call (CallWaiting ''1'')] [(''acme'', sample_envelope)] [] [])"
    using mgr_step.call_write [of 0 "?m registry_slot [] [] [sample_stream] [sample_call CallHasSlot] [] [] []" "sample_call CallHasSlot"
        WriteTaken False registry_sent "Inr ''1''"] sample_facts(7)
    by (simp add: sample_mgr_def sample_call_def registry_sent_def sample_envelope_def prod_eq_iff)
  from mgr_reach.step [OF r2 this] show ?thesis .
qed

lemma sample_end_reach: "mgr_reach id UNIV sample_end"
proof -
  let ?m = "sample_mgr sample_enrolled sample_log"
  have "mgr_step id UNIV (?m registry_sent [] [] [sample_stream] [sample_call (CallWaiting ''1'')] [(''acme'', sample_envelope)] [] [])
      (?m registry_got [] [] [sample_stream] [sample_call (CallWaiting ''1'')] [(''acme'', sample_envelope)] [(0, ''1'', ''data'')] [])"
    using mgr_step.receive [of sample_stream "?m registry_sent [] [] [sample_stream] [sample_call (CallWaiting ''1'')] [(''acme'', sample_envelope)] [] []"
        id UNIV sample_response 6]
    by (simp add: sample_mgr_def sample_stream_def registry_got_def recv_broker_def) (simp add: sample_response_def)
  note r4 = mgr_reach.step [OF sample_waiting this]
  have "mgr_step id UNIV (?m registry_got [] [] [sample_stream] [sample_call (CallWaiting ''1'')] [(''acme'', sample_envelope)] [(0, ''1'', ''data'')] []) sample_end"
    using mgr_step.call_end [of 0 "?m registry_got [] [] [sample_stream] [sample_call (CallWaiting ''1'')] [(''acme'', sample_envelope)] [(0, ''1'', ''data'')] []"
        "sample_call (CallWaiting ''1'')" "''1''" False registry_end "Inr ''data''"] sample_finish
    by (auto simp: sample_mgr_def sample_call_def registry_end_def sample_end_def)
  from mgr_reach.step [OF r4 this] show ?thesis .
qed



lemma sample_conn: "conn_id (ms_reg sample_end) 0 = Some (''mac'', ''acme'')"
  using mgr_owners [OF sample_end_reach] by (auto simp: owners_inv_def sample_end_def sample_mgr_def sample_stream_def)

lemma inflight_bounded_witness: "\<exists>c. reg_conns (ms_reg sample_end) 0 = Some c \<and> ac_sem c = 0"
proof -
  have "conn_id (ms_reg sample_end) 0 \<noteq> None" using sample_conn by simp
  then obtain c where c: "reg_conns (ms_reg sample_end) 0 = Some c" by (auto simp: conn_id_def)
  moreover have "slots (ms_calls sample_end) 0 = 0" by (simp add: sample_end_def sample_mgr_def slots_def sample_call_def)
  ultimately show ?thesis using inflight_bounded [OF sample_end_reach, of 0 c] by simp
qed

end
