(* ===== verification/RegistryProperties.thy ===== *)
theory RegistryProperties
  imports DeviceSafety
begin

text \<open>
  What the registry's operations do one by one: which tools an account sees, which registrations are accepted, how
  waiting calls end when their connection goes, and what happens to calls that come later.
\<close>

section \<open>Tools\<close>

definition policy_allows :: "string \<Rightarrow> ToolPolicy option \<Rightarrow> bool" where
  "policy_allows tool policy \<longleftrightarrow>
     (case policy of
        None \<Rightarrow> tool \<in> set piCoreTools
      | Some p \<Rightarrow> tool \<notin> set (tp_DisabledTools p) \<and>
          (if tp_EnabledTools p = [] then tool \<in> set piCoreTools else tool \<in> set (tp_EnabledTools p) \<or> ''*'' \<in> set (tp_EnabledTools p)))"

lemma tool_disabled_step:
  "tool_disabled_loop tool (d # ds) \<longleftrightarrow> \<not> policy_allows tool (dv_ToolPolicy d) \<or> tool_disabled_loop tool ds"
  by (cases "dv_ToolPolicy d") (auto simp: policy_allows_def)

lemma tool_disabled_loop_iff: "tool_disabled_loop tool ds \<longleftrightarrow> (\<exists>d \<in> set ds. \<not> policy_allows tool (dv_ToolPolicy d))"
  by (induction ds) (simp_all add: tool_disabled_step del: tool_disabled_loop.simps(2))

lemma custom_loop_spec:
  "distinct (map ct_Name (custom_loop seen cs)) \<and> set (map ct_Name (custom_loop seen cs)) \<inter> set seen = {} \<and>
   (\<forall>c \<in> set (custom_loop seen cs). c \<in> set cs \<and> ct_Name c \<noteq> [] \<and> ct_Tool c \<in> set builtinToolNames)"
proof (induction cs arbitrary: seen)
  case (Cons c cs)
  then show ?case using Cons.IH [of seen] Cons.IH [of "ct_Name c # seen"]
    by (cases "ct_Name c \<in> set seen \<or> \<not> isBuiltinTool (ct_Tool c) \<or> ct_Name c = []") (simp_all add: isBuiltinTool_def)
qed simp

lemma custom_loop_all:
  "c \<in> set cs \<Longrightarrow> ct_Name c \<noteq> [] \<Longrightarrow> ct_Tool c \<in> set builtinToolNames \<Longrightarrow>
   ct_Name c \<in> set seen \<or> ct_Name c \<in> ct_Name ` set (custom_loop seen cs)"
proof (induction cs arbitrary: seen)
  case (Cons c' cs)
  then show ?case using Cons.IH [of seen] Cons.IH [of "ct_Name c' # seen"]
    by (cases "ct_Name c' \<in> set seen \<or> \<not> isBuiltinTool (ct_Tool c') \<or> ct_Name c' = []") (auto simp: isBuiltinTool_def)
qed simp

lemma custom_loop_names:
  "name \<in> ct_Name ` set (custom_loop [] cs) \<longleftrightarrow>
     name \<noteq> [] \<and> (\<exists>c. c \<in> set cs \<and> ct_Name c = name \<and> ct_Tool c \<in> set builtinToolNames)"
  (is "?l \<longleftrightarrow> ?r")
proof
  assume ?l
  then show ?r using custom_loop_spec [of "[]" cs] by auto
next
  assume ?r
  then show ?l using custom_loop_all [of _ cs "[]"] by auto
qed

text \<open>
  The tools an account sees. A built-in tool is offered exactly if the policy of every connected device of the
  account allows it: one device that disables it hides it. A custom tool is offered under its name exactly if some
  device of the account defines one of that name that wraps a built-in tool, and no name is offered for two custom
  tools.
\<close>

theorem tools_of_account:
  "(\<forall>tool. toolDisabledForAccount account tool r \<longleftrightarrow>
      (\<exists>d \<in> set (ListAccount account r). \<not> policy_allows tool (dv_ToolPolicy d))) \<and>
   (\<forall>name. name \<in> set (registerWithPolicy account r) \<longleftrightarrow>
      name \<in> set builtinToolNames \<and> (\<forall>d \<in> set (ListAccount account r). policy_allows name (dv_ToolPolicy d)) \<or>
      name \<noteq> [] \<and> (\<exists>d p c. d \<in> set (ListAccount account r) \<and> dv_ToolPolicy d = Some p \<and> c \<in> set (tp_CustomTools p) \<and>
        ct_Name c = name \<and> ct_Tool c \<in> set builtinToolNames)) \<and>
   distinct (map ct_Name (customToolsForAccount account r))"
proof -
  let ?cs = "concat (map (\<lambda>d. case dv_ToolPolicy d of None \<Rightarrow> [] | Some p \<Rightarrow> tp_CustomTools p) (ListAccount account r))"
  have mem: "c \<in> set ?cs \<longleftrightarrow> (\<exists>d p. d \<in> set (ListAccount account r) \<and> dv_ToolPolicy d = Some p \<and> c \<in> set (tp_CustomTools p))" for c
    by (force split: option.splits)

  have reg: "name \<in> set (registerWithPolicy account r) \<longleftrightarrow>
      name \<in> set builtinToolNames \<and> (\<forall>d \<in> set (ListAccount account r). policy_allows name (dv_ToolPolicy d)) \<or>
      name \<in> ct_Name ` set (custom_loop [] ?cs)" for name
    by (auto simp: registerWithPolicy_def toolDisabledForAccount_def tool_disabled_loop_iff customToolsForAccount_def)
  have custom: "name \<in> ct_Name ` set (custom_loop [] ?cs) \<longleftrightarrow>
      name \<noteq> [] \<and> (\<exists>d p c. d \<in> set (ListAccount account r) \<and> dv_ToolPolicy d = Some p \<and> c \<in> set (tp_CustomTools p) \<and>
        ct_Name c = name \<and> ct_Tool c \<in> set builtinToolNames)" for name
    unfolding custom_loop_names mem by blast
  have "distinct (map ct_Name (customToolsForAccount account r))"
    unfolding customToolsForAccount_def using custom_loop_spec by blast
  then show ?thesis unfolding reg custom by (simp add: toolDisabledForAccount_def tool_disabled_loop_iff)
qed

lemma tools_of_account_witness:
  "''bash'' \<in> set (registerWithPolicy ''acme'' registry_put) \<and> toolDisabledForAccount ''acme'' ''apply_patch'' registry_put"
proof -
  have "map dv_ToolPolicy (ListAccount ''acme'' registry_put) = [None]" by code_simp
  then obtain d where "ListAccount ''acme'' registry_put = [d]" "dv_ToolPolicy d = None" by auto
  then show ?thesis using tools_of_account [of "''acme''" registry_put]
    by (simp add: policy_allows_def builtinToolNames_def piCoreTools_def)
qed

section \<open>Registrations\<close>

definition workspace_names_ok :: "DeviceWorkspace list \<Rightarrow> bool" where
  "workspace_names_ok ws \<longleftrightarrow> (\<forall>w \<in> set ws. trim_space (wk_Name w) \<noteq> [] \<and> length (trim_space (wk_Name w)) \<le> 128) \<and>
     distinct (map (trim_space \<circ> wk_Name) ws)"

definition public_workspace :: "DeviceWorkspace \<Rightarrow> DeviceWorkspace" where
  "public_workspace w = w\<lparr>wk_Name := trim_space (wk_Name w), wk_Path := []\<rparr>"

lemma sanitize_workspaces_iff:
  "sanitize_workspaces seen ws = Inr ws' \<longleftrightarrow>
     workspace_names_ok ws \<and> (trim_space \<circ> wk_Name) ` set ws \<inter> set seen = {} \<and> ws' = map public_workspace ws"
proof (induction ws arbitrary: seen ws')
  case Nil
  then show ?case by (auto simp: workspace_names_ok_def)
next
  case (Cons w ws)
  let ?n = "trim_space (wk_Name w)"
  show ?case
  proof (cases "?n = [] \<or> length ?n > 128 \<or> ?n \<in> set seen")
    case True
    then show ?thesis by (auto simp: workspace_names_ok_def Let_def)
  next
    case False
    then have "sanitize_workspaces seen (w # ws) = Inr ws' \<longleftrightarrow>
        (\<exists>xs. sanitize_workspaces (?n # seen) ws = Inr xs \<and> ws' = public_workspace w # xs)"
      by (auto simp: Let_def public_workspace_def split: sum.splits)
    also have "\<dots> \<longleftrightarrow> workspace_names_ok ws \<and> (trim_space \<circ> wk_Name) ` set ws \<inter> set (?n # seen) = {} \<and>
        ws' = public_workspace w # map public_workspace ws"
      using Cons.IH by blast
    also have "\<dots> \<longleftrightarrow> workspace_names_ok (w # ws) \<and> (trim_space \<circ> wk_Name) ` set (w # ws) \<inter> set seen = {} \<and>
        ws' = map public_workspace (w # ws)"
      using False by (auto simp: workspace_names_ok_def)
    finally show ?thesis .
  qed
qed

text \<open>
  Registrations. A registration is accepted exactly if its fields, without surrounding white space, are present
  and within their limits and its workspaces have distinct non-empty names within theirs; what is kept of it has
  trimmed fields, and no local path of a workspace.
\<close>

theorem registration_accepted_iff:
  "sanitizeRegistration reg = Inr reg' \<longleftrightarrow>
     trim_space (rr_DeviceID reg) \<noteq> [] \<and> trim_space (rr_DeviceName reg) \<noteq> [] \<and>
     length (trim_space (rr_DeviceID reg)) \<le> 128 \<and> length (trim_space (rr_DeviceName reg)) \<le> 256 \<and>
     length (trim_space (rr_Version reg)) \<le> 64 \<and> length (rr_Workspaces reg) \<le> 64 \<and> workspace_names_ok (rr_Workspaces reg) \<and>
     reg' = reg\<lparr>rr_DeviceID := trim_space (rr_DeviceID reg), rr_DeviceName := trim_space (rr_DeviceName reg),
       rr_Version := trim_space (rr_Version reg), rr_Workspaces := map public_workspace (rr_Workspaces reg)\<rparr>"
proof (cases "workspace_names_ok (rr_Workspaces reg)")
  case True
  then have "sanitize_workspaces [] (rr_Workspaces reg) = Inr (map public_workspace (rr_Workspaces reg))"
    by (simp add: sanitize_workspaces_iff)
  then show ?thesis using True by (auto simp: sanitizeRegistration_def Let_def not_less)
next
  case False
  then obtain e where "sanitize_workspaces [] (rr_Workspaces reg) = Inl e"
    using sanitize_workspaces_iff [of "[]"] by (cases "sanitize_workspaces [] (rr_Workspaces reg)") auto
  then show ?thesis using False by (simp add: sanitizeRegistration_def Let_def)
qed

section \<open>The end of a connection\<close>

lemma fail_pending_answers:
  assumes "reg_conns r a = Some c'" and "ac_pend c' = ac_pend (FailPending m c)" and "map_of (ac_pend c) k = Some p" and "m \<noteq> []"
  shows "\<exists>r' res. call_finish False k a r = Some (r', res) \<and> (pc_ch p = None \<longrightarrow> res = Inl (ErrAgent m))"
  using assms by (cases "pc_ch p") (auto simp: call_finish_def FailPending_def Let_def map_of_map offer_def)

text \<open>
  (C28) Waiting calls end. Whatever takes a connection away - an administrator's disconnect, a newer connection of the
  same device, the end of its stream - every call that waits on it can finish without its device; a call that had no
  response yet finishes with an error that says what happened.
\<close>

theorem waiting_calls_end:
  assumes "mgr_reach digest U s" and "inj_on digest U" and conn: "reg_conns (ms_reg s) a = Some c" and "map_of (ac_pend c) k = Some p"
  shows "(map_of (reg_devices (ms_reg s)) i = Some a \<longrightarrow>
      (\<exists>r' res. call_finish False k a (fst (Disconnect i (ms_reg s))) = Some (r', res) \<and>
         (pc_ch p = None \<longrightarrow> res = Inl (ErrAgent ''agent disconnected''))) \<and>
      (\<forall>dev. dv_ID dev = i \<longrightarrow> (\<exists>r' res. call_finish False k a (fst (Put dev (ms_reg s))) = Some (r', res) \<and>
         (pc_ch p = None \<longrightarrow> res = Inl (ErrAgent ''agent connection replaced''))))) \<and>
    (\<exists>r' res. call_finish False k a (Remove i a (on_conn a close_ws (ms_reg s))) = Some (r', res) \<and>
       (pc_ch p = None \<longrightarrow> res = Inl (ErrAgent ''agent disconnected'')))"
proof -
  have ok: "reg_ok (ms_reg s)" using mgr_owners [OF assms(1,2)] by (simp add: owners_inv_def)
  then have used: "a \<noteq> reg_next (ms_reg s)" using conn by (auto simp: reg_ok_def)
  note ends = fail_pending_answers [OF _ _ assms(4)]
  have "\<exists>r' res. call_finish False k a (fst (Disconnect i (ms_reg s))) = Some (r', res) \<and>
      (pc_ch p = None \<longrightarrow> res = Inl (ErrAgent ''agent disconnected''))" if "map_of (reg_devices (ms_reg s)) i = Some a"
    by (rule ends [of _ _ "close_ws (FailPending ''agent disconnected'' c)"]) (use that conn in \<open>simp_all add: Disconnect_def close_ws_def\<close>)
  moreover have "\<exists>r' res. call_finish False k a (fst (Put dev (ms_reg s))) = Some (r', res) \<and>
      (pc_ch p = None \<longrightarrow> res = Inl (ErrAgent ''agent connection replaced''))" if "map_of (reg_devices (ms_reg s)) i = Some a" "dv_ID dev = i" for dev
    by (rule ends [of _ _ "close_ws (FailPending ''agent connection replaced'' c)"])
      (use that conn used in \<open>simp_all add: Put_def Let_def close_ws_def\<close>)
  moreover have "\<exists>r' res. call_finish False k a (Remove i a (on_conn a close_ws (ms_reg s))) = Some (r', res) \<and>
      (pc_ch p = None \<longrightarrow> res = Inl (ErrAgent ''agent disconnected''))"
    by (rule ends [of _ _ "FailPending ''agent disconnected'' (close_ws c)"])
      (use conn in \<open>simp_all add: Remove_def Let_def close_ws_def FailPending_def\<close>)
  ultimately show ?thesis by blast
qed

lemma waiting_calls_end_witness:
  "\<exists>r'. call_finish False ''1'' 0 (fst (Disconnect ''mac'' registry_sent)) = Some (r', Inl (ErrAgent ''agent disconnected''))"
proof -
  let ?s = "sample_mgr sample_enrolled sample_log registry_sent [] [] [sample_stream] [sample_call (CallWaiting ''1'')] [(''acme'', sample_envelope)] [] []"
  have reg: "ms_reg ?s = registry_sent" by (simp add: sample_mgr_def)
  have "map_option (\<lambda>c. map_option pc_ch (map_of (ac_pend c) ''1'')) (reg_conns registry_sent 0) = Some (Some None)"
    "map_of (reg_devices registry_sent) ''mac'' = Some 0" by code_simp+
  then obtain c p where "reg_conns registry_sent 0 = Some c" "map_of (ac_pend c) ''1'' = Some p" "pc_ch p = None"
    "map_of (reg_devices registry_sent) ''mac'' = Some 0" by auto
  then show ?thesis using waiting_calls_end [OF sample_waiting, of 0 c "''1''" p "''mac''"] unfolding reg by auto
qed

text \<open>
  Calls that come later are not helped: a disconnected device stays listed until its stream ends, the stream drops
  what is written to it, and no response arrives, so that the call can only end with its context.
\<close>

lemma closed_stream_listed: "reg_Get i r = Some c \<Longrightarrow> \<exists>c'. reg_Get i (fst (Disconnect i r)) = Some c' \<and> ac_closed c'"
  by (auto simp: reg_Get_def Disconnect_def close_ws_def split: option.splits)

lemma closed_stream_no_answer:
  assumes "call_send WriteDropped hook i req a r = (r', Inr k)" and "reg_conns r a = Some c"
  shows "call_finish False k a r' = None"
  using assms by (auto simp: call_send_def call_finish_def Let_def update_conv')

section \<open>Accounts\<close>

text \<open>
  The subject of a token decides on the account, by the configured mapping or else by itself: an unmapped subject that
  is spelled like the account of another subject gets that account.
\<close>

lemma subject_collision:
  "map_of m victim = Some account \<Longrightarrow> trim_space victim = victim \<Longrightarrow> victim \<noteq> [] \<Longrightarrow> trim_space account = account \<Longrightarrow> account \<noteq> [] \<Longrightarrow>
   map_of m account = None \<Longrightarrow> ForSubject (Some m) account = ForSubject (Some m) victim"
  by (simp add: ForSubject_def Let_def trim_space_def trim_left.simps [of "[]"] trim_right.simps [of "[]"])

end
