(* ===== verification/AuthServer.thy ===== *)
theory AuthServer
  imports Paths "HOL-Library.AList"
begin

text \<open>
  The embedded OAuth authorization server of the manager (\<open>internal/authserver\<close>): the login page and the
  authorization endpoint (\<open>server.go\<close>, \<open>store.go\<close>), the token endpoint, registration of clients and client metadata
  documents (\<open>token.go\<close>).

  A handler takes the decoded request and what the outside does during it: the clock, fresh random tokens, the
  answers to fetches, the outcome of writing the store file. \<open>as_lib\<close> holds the functions of libraries: bcrypt, SHA-256,
  base64, \<open>url.Parse\<close> and the signing of a JWT.
\<close>

section \<open>State\<close>

abbreviation seconds :: int where "seconds \<equiv> 1000000000"
abbreviation accessTokenTTL :: gotime where "accessTokenTTL \<equiv> 3600 * seconds"
abbreviation refreshTokenTTL :: gotime where "refreshTokenTTL \<equiv> 30 * 24 * 3600 * seconds"
abbreviation authCodeTTL :: gotime where "authCodeTTL \<equiv> 300 * seconds"
abbreviation sessionTTL :: gotime where "sessionTTL \<equiv> 24 * 3600 * seconds"

record AS_Config =
  cf_Issuer :: string
  cf_Resource :: string
  cf_Users :: "(string \<times> string) list"

record authCode =
  gc_ClientID :: string
  gc_RedirectURI :: string
  gc_Resource :: string
  gc_Scopes :: "string list"
  gc_Subject :: string
  gc_CodeChallenge :: string
  gc_ExpiresAt :: gotime

record as_session =
  se_Subject :: string
  se_ExpiresAt :: gotime

record refreshGrant =
  rg_ClientID :: string
  rg_Resource :: string
  rg_Scopes :: "string list"
  rg_Subject :: string
  rg_ExpiresAt :: gotime

record dcrClient =
  dc_ID :: string
  dc_RedirectURIs :: "string list"
  dc_CreatedAt :: gotime

record persisted =
  pe_DCRClients :: "(string \<times> dcrClient) list"
  pe_Refresh :: "(string \<times> refreshGrant) list"

record AS_Server =
  sv_cfg :: AS_Config
  sv_codes :: "(string \<times> authCode) list"
  sv_sessions :: "(string \<times> as_session) list"
  sv_refresh :: "(string \<times> refreshGrant) list"
  sv_dcrClients :: "(string \<times> dcrClient) list"

text \<open>The claims of an access token, with times in seconds; \<open>None\<close> for a claim that is left out.\<close>

definition unix_seconds :: "gotime \<Rightarrow> int" where
  "unix_seconds t = t div 1000000000"

record access_claims =
  cl_iss :: string
  cl_sub :: string
  cl_aud :: string
  cl_iat :: int
  cl_nbf :: int
  cl_exp :: int
  cl_jti :: string
  cl_scope :: "string option"
  cl_client_id :: "string option"

record parsed_url =
  ur_Scheme :: string
  ur_Hostname :: string
  ur_Path :: string

record as_lib =
  bcrypt_ok :: "string \<Rightarrow> string \<Rightarrow> bool"
  sha256 :: "string \<Rightarrow> string"
  base64url :: "string \<Rightarrow> string"
  url_Parse :: "string \<Rightarrow> parsed_url option"
  jwt_sign :: "access_claims \<Rightarrow> string option"

datatype as_error = ErrIssuer | ErrUsers | ErrStoreRead | ErrStoreDecode | ErrBadForm | ErrClientAndRedirect | ErrPKCE
  | ErrRedirect | ErrUnknownClient | ErrCIMD_URL | ErrCIMD_Fetch | ErrCIMD_Status nat | ErrCIMD_Decode | ErrCIMD_Mismatch
  | ErrMethod | ErrBadBody | ErrGrantType | ErrCode | ErrCodeExpired | ErrCodeClient | ErrVerifier | ErrRefresh | ErrRefreshClient
  | ErrSigning

section \<open>Starting\<close>

text \<open>
  \<open>prune\<close> drops expired refresh tokens and sessions. The store file: none, unreadable, not decodable or a state.
\<close>

definition live :: "gotime \<Rightarrow> ('a \<Rightarrow> gotime) \<Rightarrow> (string \<times> 'a) list \<Rightarrow> (string \<times> 'a) list" where
  "live now expires m = filter (\<lambda>(k, v). \<not> expires v < now) m"

definition prune :: "gotime \<Rightarrow> AS_Server \<Rightarrow> AS_Server" where
  "prune now s = s\<lparr>sv_refresh := live now rg_ExpiresAt (sv_refresh s), sv_sessions := live now se_ExpiresAt (sv_sessions s)\<rparr>"

datatype store_read = NoFile | ReadFailed | NotJSON | Stored persisted

definition loadStore :: "gotime \<Rightarrow> store_read \<Rightarrow> AS_Server \<Rightarrow> as_error + AS_Server" where
  "loadStore now f s =
     (case f of
        NoFile \<Rightarrow> Inr s
      | ReadFailed \<Rightarrow> Inl ErrStoreRead
      | NotJSON \<Rightarrow> Inl ErrStoreDecode
      | Stored p \<Rightarrow> Inr (prune now (s\<lparr>sv_dcrClients := pe_DCRClients p, sv_refresh := pe_Refresh p\<rparr>)))"

definition AS_New :: "gotime \<Rightarrow> store_read \<Rightarrow> AS_Config \<Rightarrow> as_error + AS_Server" where
  "AS_New now f cfg =
     (if cf_Issuer cfg = [] \<or> \<not> has_prefix (cf_Issuer cfg) ''https://'' then Inl ErrIssuer
      else let cfg = (if cf_Resource cfg = [] then cfg\<lparr>cf_Resource := cf_Issuer cfg\<rparr> else cfg)
      in if cf_Users cfg = [] then Inl ErrUsers
      else loadStore now f \<lparr>sv_cfg = cfg, sv_codes = [], sv_sessions = [], sv_refresh = [], sv_dcrClients = []\<rparr>)"

definition persist :: "AS_Server \<Rightarrow> persisted" where
  "persist s = \<lparr>pe_DCRClients = sv_dcrClients s, pe_Refresh = sv_refresh s\<rparr>"

section \<open>Requests\<close>

type_synonym form = "(string \<times> string list) list"

definition form_Get :: "form \<Rightarrow> string \<Rightarrow> string" where
  "form_Get f k = (case map_of f k of Some (v # vs) \<Rightarrow> v | _ \<Rightarrow> [])"

text \<open>\<open>hr_Form\<close> joins the body and the query, \<open>hr_PostForm\<close> is the body alone; \<open>hr_Cookie\<close> is the session cookie.\<close>

record http_request =
  hr_Post :: bool
  hr_FormOK :: bool
  hr_Form :: form
  hr_PostForm :: form
  hr_Cookie :: string

definition sessionSubject :: "gotime \<Rightarrow> http_request \<Rightarrow> AS_Server \<Rightarrow> string" where
  "sessionSubject now r s =
     (if hr_Cookie r = [] then []
      else case map_of (sv_sessions s) (hr_Cookie r) of
             None \<Rightarrow> []
           | Some sess \<Rightarrow> if se_ExpiresAt sess < now then [] else se_Subject sess)"

section \<open>Clients\<close>

record cimdDocument =
  cd_ClientID :: string
  cd_RedirectURIs :: "string list"

definition builtinCIMD :: "(string \<times> cimdDocument) list" where
  "builtinCIMD =
     [(''https://chatgpt.com/oauth/client.json'',
       \<lparr>cd_ClientID = ''https://chatgpt.com/oauth/client.json'',
        cd_RedirectURIs = [''https://chatgpt.com/connector_platform_oauth_redirect'', ''https://chatgpt.com/aip/connector/callback'',
          ''https://chatgpt.com/backend-api/codex/connect'']\<rparr>),
      (''https://chatgpt.com/oauth/codex/client.json'',
       \<lparr>cd_ClientID = ''https://chatgpt.com/oauth/codex/client.json'',
        cd_RedirectURIs = [''http://127.0.0.1/callback'', ''http://localhost/callback'', ''http://127.0.0.1:57917/callback'']\<rparr>)]"

text \<open>The answer to a GET of the metadata document.\<close>

datatype cimd_reply = Unreachable | Status nat | Undecodable | Document cimdDocument

definition fetchCIMD :: "cimd_reply \<Rightarrow> string \<Rightarrow> as_error + cimdDocument" where
  "fetchCIMD reply clientID =
     (if \<not> has_prefix clientID ''https://'' \<or> CHR ''/'' \<notin> set (drop (length ''https://'') clientID) then Inl ErrCIMD_URL
      else case reply of
        Unreachable \<Rightarrow> (case map_of builtinCIMD clientID of Some doc \<Rightarrow> Inr doc | None \<Rightarrow> Inl ErrCIMD_Fetch)
      | Status n \<Rightarrow> (case map_of builtinCIMD clientID of Some doc \<Rightarrow> Inr doc | None \<Rightarrow> Inl (ErrCIMD_Status n))
      | Undecodable \<Rightarrow> Inl ErrCIMD_Decode
      | Document doc \<Rightarrow> if cd_ClientID doc \<noteq> clientID then Inl ErrCIMD_Mismatch else Inr doc)"

definition allowedRedirectURIs :: "cimd_reply \<Rightarrow> string \<Rightarrow> AS_Server \<Rightarrow> as_error + string list" where
  "allowedRedirectURIs reply clientID s =
     (if has_prefix clientID ''https://''
      then (case fetchCIMD reply clientID of Inl e \<Rightarrow> Inl e | Inr doc \<Rightarrow> Inr (cd_RedirectURIs doc))
      else case map_of (sv_dcrClients s) clientID of
             Some dcr \<Rightarrow> Inr (dc_RedirectURIs dcr)
           | None \<Rightarrow> Inl ErrUnknownClient)"

definition isLoopback :: "parsed_url \<Rightarrow> bool" where
  "isLoopback u \<longleftrightarrow> ur_Hostname u = ''127.0.0.1'' \<or> ur_Hostname u = ''localhost'' \<or> ur_Hostname u = ''::1''"

fun redirect_loop :: "as_lib \<Rightarrow> string \<Rightarrow> parsed_url \<Rightarrow> string list \<Rightarrow> bool" where
  "redirect_loop lib want wu [] = False"
| "redirect_loop lib want wu (a # allowed) =
     (if a = want then True
      else case url_Parse lib a of
             None \<Rightarrow> redirect_loop lib want wu allowed
           | Some au \<Rightarrow>
               if isLoopback au \<and> isLoopback wu \<and> ur_Path au = ur_Path wu then True else redirect_loop lib want wu allowed)"

definition redirectAllowed :: "as_lib \<Rightarrow> string list \<Rightarrow> string \<Rightarrow> bool" where
  "redirectAllowed lib allowed want = (case url_Parse lib want of None \<Rightarrow> False | Some wu \<Rightarrow> redirect_loop lib want wu allowed)"

section \<open>Authorization endpoint\<close>

record authorizeRequest =
  ar_ClientID :: string
  ar_RedirectURI :: string
  ar_CodeChallenge :: string
  ar_Method :: string
  ar_Resource :: string
  ar_State :: string

definition validateAuthorizeRequest :: "as_lib \<Rightarrow> cimd_reply \<Rightarrow> form \<Rightarrow> AS_Server \<Rightarrow> as_error + authorizeRequest" where
  "validateAuthorizeRequest lib reply form s =
     (let req = \<lparr>ar_ClientID = trim_space (form_Get form ''client_id''), ar_RedirectURI = trim_space (form_Get form ''redirect_uri''),
                 ar_CodeChallenge = trim_space (form_Get form ''code_challenge''),
                 ar_Method = trim_space (form_Get form ''code_challenge_method''),
                 ar_Resource = trim_space (form_Get form ''resource''), ar_State = form_Get form ''state''\<rparr>
      in if ar_ClientID req = [] \<or> ar_RedirectURI req = [] then Inl ErrClientAndRedirect
         else if ar_Method req \<noteq> ''S256'' \<or> ar_CodeChallenge req = [] then Inl ErrPKCE
         else let req = (if ar_Resource req = [] then req\<lparr>ar_Resource := cf_Resource (sv_cfg s)\<rparr> else req)
         in case allowedRedirectURIs reply (ar_ClientID req) s of
              Inl e \<Rightarrow> Inl e
            | Inr allowed \<Rightarrow> if \<not> redirectAllowed lib allowed (ar_RedirectURI req) then Inl ErrRedirect else Inr req)"

text \<open>
  Pages and redirects: the login page, with or without the message that the login failed; the code goes to the
  redirect address of the request, with the state and the issuer.
\<close>

datatype authorize_reply = BadRequest as_error | LoginPage bool | RedirectTo string string string string

definition issueCode ::
  "as_lib \<Rightarrow> gotime \<Rightarrow> string \<Rightarrow> cimd_reply \<Rightarrow> form \<Rightarrow> string \<Rightarrow> AS_Server \<Rightarrow> AS_Server \<times> authorize_reply" where
  "issueCode lib now code reply form subject s =
     (case validateAuthorizeRequest lib reply form s of
        Inl e \<Rightarrow> (s, BadRequest e)
      | Inr req \<Rightarrow>
          let grant = \<lparr>gc_ClientID = ar_ClientID req, gc_RedirectURI = ar_RedirectURI req, gc_Resource = ar_Resource req,
                       gc_Scopes = Prelude.fields (form_Get form ''scope''), gc_Subject = subject,
                       gc_CodeChallenge = ar_CodeChallenge req, gc_ExpiresAt = now + authCodeTTL\<rparr>
          in (s\<lparr>sv_codes := live now gc_ExpiresAt (AList.update code grant (sv_codes s))\<rparr>,
              RedirectTo (ar_RedirectURI req) code (ar_State req) (cf_Issuer (sv_cfg s))))"

definition authorizePost ::
  "as_lib \<Rightarrow> gotime \<Rightarrow> string \<Rightarrow> string \<Rightarrow> cimd_reply \<Rightarrow> http_request \<Rightarrow> AS_Server \<Rightarrow> AS_Server \<times> authorize_reply" where
  "authorizePost lib now sid code reply r s =
     (if \<not> hr_FormOK r then (s, BadRequest ErrBadForm)
      else
        let username = trim_space (form_Get (hr_PostForm r) ''username'');
            password = form_Get (hr_PostForm r) ''password''
        in case map_of (cf_Users (sv_cfg s)) username of
             None \<Rightarrow> (s, LoginPage True)
           | Some hash \<Rightarrow>
               if \<not> bcrypt_ok lib password hash then (s, LoginPage True)
               else issueCode lib now code reply (hr_Form r) username
                 (s\<lparr>sv_sessions := AList.update sid \<lparr>se_Subject = username, se_ExpiresAt = now + sessionTTL\<rparr> (sv_sessions s)\<rparr>))"

text \<open>The client's metadata is fetched for the check of the request, and again when the code is issued.\<close>

definition AS_Authorize ::
  "as_lib \<Rightarrow> gotime \<Rightarrow> string \<Rightarrow> string \<Rightarrow> cimd_reply \<Rightarrow> cimd_reply \<Rightarrow> http_request \<Rightarrow> AS_Server \<Rightarrow> AS_Server \<times> authorize_reply" where
  "AS_Authorize lib now sid code reply reply' r s =
     (if hr_Post r then authorizePost lib now sid code reply r s
      else if \<not> hr_FormOK r then (s, BadRequest ErrBadForm)
      else case validateAuthorizeRequest lib reply (hr_Form r) s of
        Inl e \<Rightarrow> (s, BadRequest e)
      | Inr req \<Rightarrow>
          let subj = sessionSubject now r s
          in if subj \<noteq> [] then issueCode lib now code reply' (hr_Form r) subj s else (s, LoginPage False))"

section \<open>Token endpoint\<close>

definition pkceS256 :: "as_lib \<Rightarrow> string \<Rightarrow> string" where
  "pkceS256 lib verifier = base64url lib (sha256 lib verifier)"

definition signAccessToken ::
  "as_lib \<Rightarrow> gotime \<Rightarrow> string \<Rightarrow> string \<Rightarrow> string \<Rightarrow> string \<Rightarrow> string list \<Rightarrow> AS_Server \<Rightarrow> access_claims \<times> string option" where
  "signAccessToken lib now jti clientID subject resource scopes s =
     (let claims = \<lparr>cl_iss = cf_Issuer (sv_cfg s), cl_sub = subject, cl_aud = resource, cl_iat = unix_seconds now,
                    cl_nbf = unix_seconds now, cl_exp = unix_seconds (now + accessTokenTTL), cl_jti = jti,
                    cl_scope = (if scopes = [] then None else Some (join_char (CHR '' '') scopes)),
                    cl_client_id = (if clientID = [] then None else Some clientID)\<rparr>
      in (claims, jwt_sign lib claims))"

text \<open>The reply of the token endpoint: an error, or the access token, the refresh token and the scopes.\<close>

datatype token_reply = TokenError as_error | Tokens string string "string list"

definition issueTokens ::
  "as_lib \<Rightarrow> gotime \<Rightarrow> string \<Rightarrow> string \<Rightarrow> string \<Rightarrow> string \<Rightarrow> string \<Rightarrow> string list \<Rightarrow> AS_Server \<Rightarrow> AS_Server \<times> token_reply" where
  "issueTokens lib now jti rtok clientID subject resource scopes s =
     (case snd (signAccessToken lib now jti clientID subject resource scopes s) of
        None \<Rightarrow> (s, TokenError ErrSigning)
      | Some access \<Rightarrow>
          (prune now (s\<lparr>sv_refresh := AList.update rtok
             \<lparr>rg_ClientID = clientID, rg_Resource = resource, rg_Scopes = scopes, rg_Subject = subject,
              rg_ExpiresAt = now + refreshTokenTTL\<rparr> (sv_refresh s)\<rparr>),
           Tokens access rtok scopes))"

definition tokenCode ::
  "as_lib \<Rightarrow> gotime \<Rightarrow> string \<Rightarrow> string \<Rightarrow> http_request \<Rightarrow> AS_Server \<Rightarrow> AS_Server \<times> token_reply" where
  "tokenCode lib now jti rtok r s =
     (let code = trim_space (form_Get (hr_PostForm r) ''code'');
          verifier = trim_space (form_Get (hr_PostForm r) ''code_verifier'');
          clientID = trim_space (form_Get (hr_PostForm r) ''client_id'');
          redirectURI = trim_space (form_Get (hr_PostForm r) ''redirect_uri'')
      in case map_of (sv_codes s) code of
           None \<Rightarrow> (s, TokenError ErrCode)
         | Some gr \<Rightarrow>
             let s = s\<lparr>sv_codes := AList.delete code (sv_codes s)\<rparr>
             in if gc_ExpiresAt gr < now then (s, TokenError ErrCodeExpired)
                else if clientID \<noteq> gc_ClientID gr \<or> redirectURI \<noteq> gc_RedirectURI gr then (s, TokenError ErrCodeClient)
                else if pkceS256 lib verifier \<noteq> gc_CodeChallenge gr then (s, TokenError ErrVerifier)
                else issueTokens lib now jti rtok (gc_ClientID gr) (gc_Subject gr) (gc_Resource gr) (gc_Scopes gr) s)"

definition tokenRefresh ::
  "as_lib \<Rightarrow> gotime \<Rightarrow> string \<Rightarrow> string \<Rightarrow> http_request \<Rightarrow> AS_Server \<Rightarrow> AS_Server \<times> token_reply" where
  "tokenRefresh lib now jti rtok r s =
     (let raw = trim_space (form_Get (hr_PostForm r) ''refresh_token'');
          clientID = trim_space (form_Get (hr_PostForm r) ''client_id'')
      in case map_of (sv_refresh s) raw of
           None \<Rightarrow> (s, TokenError ErrRefresh)
         | Some gr \<Rightarrow>
             let s = s\<lparr>sv_refresh := AList.delete raw (sv_refresh s)\<rparr>
             in if rg_ExpiresAt gr < now then (s, TokenError ErrRefresh)
                else if rg_ClientID gr \<noteq> clientID then (s, TokenError ErrRefreshClient)
                else issueTokens lib now jti rtok (rg_ClientID gr) (rg_Subject gr) (rg_Resource gr) (rg_Scopes gr) s)"

definition Token ::
  "as_lib \<Rightarrow> gotime \<Rightarrow> string \<Rightarrow> string \<Rightarrow> http_request \<Rightarrow> AS_Server \<Rightarrow> AS_Server \<times> token_reply" where
  "Token lib now jti rtok r s =
     (if \<not> hr_Post r then (s, TokenError ErrMethod)
      else if \<not> hr_FormOK r then (s, TokenError ErrBadForm)
      else if form_Get (hr_PostForm r) ''grant_type'' = ''authorization_code'' then tokenCode lib now jti rtok r s
      else if form_Get (hr_PostForm r) ''grant_type'' = ''refresh_token'' then tokenRefresh lib now jti rtok r s
      else (s, TokenError ErrGrantType))"

section \<open>Registration of clients\<close>

text \<open>\<open>uris\<close>: the addresses of a body that can be decoded. The result is the new identifier.\<close>

definition Register :: "gotime \<Rightarrow> string \<Rightarrow> bool \<Rightarrow> string list option \<Rightarrow> AS_Server \<Rightarrow> AS_Server \<times> (as_error + string)" where
  "Register now rnd post uris s =
     (if \<not> post then (s, Inl ErrMethod)
      else case uris of
        None \<Rightarrow> (s, Inl ErrBadBody)
      | Some uris \<Rightarrow>
          let clientID = ''cb-'' @ rnd
          in (s\<lparr>sv_dcrClients := AList.update clientID \<lparr>dc_ID = clientID, dc_RedirectURIs = uris, dc_CreatedAt = now\<rparr> (sv_dcrClients s)\<rparr>,
              Inr clientID))"

section \<open>Login page\<close>

definition escape_char :: "char \<Rightarrow> string" where
  "escape_char c =
     (if c = CHR ''&'' then ''&amp;'' else if c = CHR ''<'' then ''&lt;'' else if c = CHR ''>'' then ''&gt;''
      else if c = CHR 0x22 then ''&#34;'' else if c = CHR 0x27 then ''&#39;'' else [c])"

definition htmlEscape :: "string \<Rightarrow> string" where
  "htmlEscape s = concat (map escape_char s)"

definition hidden_names :: "string list" where
  "hidden_names = [''client_id'', ''redirect_uri'', ''code_challenge'', ''code_challenge_method'', ''resource'', ''scope'', ''state'']"

definition quote :: string where "quote = [CHR 0x22]"

definition hiddenFields :: "form \<Rightarrow> string" where
  "hiddenFields q = concat (map (\<lambda>k.
     if form_Get q k \<noteq> []
     then ''<input type='' @ quote @ ''hidden'' @ quote @ '' name='' @ quote @ k @ quote @ '' value='' @ quote @ htmlEscape (form_Get q k) @ quote @ ''>''
     else []) hidden_names)"

end
