(* ===== verification/AuthFlow.thy ===== *)
theory AuthFlow
  imports AuthServer
begin

text \<open>
  The authorization server at work: any sequence of requests to its endpoints, writes of its store file and restarts,
  with the history of logins, grants and tokens. Random tokens do not repeat; the file may be written late, with
  an earlier state, since it is written outside the lock.
\<close>

section \<open>History\<close>

text \<open>
  \<open>LoginOK\<close>: session, user, password. \<open>GrantGiven\<close>: code, session, grant. \<open>CodeRedeemed\<close>: code, verifier, client,
  redirect address. \<open>TokensGiven\<close>: access token and refresh token of the reply, the stored grant of the latter. \<open>RefreshRedeemed\<close>: refresh
  token, client.
\<close>

datatype as_event = LoginOK string string string gotime | GrantGiven string string authCode gotime
  | CodeRedeemed string string string string gotime | TokensGiven string string refreshGrant gotime
  | RefreshRedeemed string string gotime | Restarted

fun login_ids :: "as_event \<Rightarrow> string list" where
  "login_ids (LoginOK sid u p t) = [sid]"
| "login_ids _ = []"

fun granted :: "as_event \<Rightarrow> string list" where
  "granted (GrantGiven code sid g t) = [code]"
| "granted _ = []"

fun redeemed :: "as_event \<Rightarrow> string list" where
  "redeemed (CodeRedeemed code v c u t) = [code]"
| "redeemed _ = []"

fun given :: "as_event \<Rightarrow> string list" where
  "given (TokensGiven access rtok g t) = [rtok]"
| "given _ = []"

fun refreshed :: "as_event \<Rightarrow> string list" where
  "refreshed (RefreshRedeemed raw c t) = [raw]"
| "refreshed _ = []"

definition all_of :: "('e \<Rightarrow> string list) \<Rightarrow> 'e list \<Rightarrow> string list" where
  "all_of f log = concat (map f log)"

lemma all_of_simps [simp]: "all_of f [] = []" "all_of f (log @ log') = all_of f log @ all_of f log'" "all_of f (e # log) = f e @ all_of f log"
  by (simp_all add: all_of_def)

lemma event_id:
  "x \<in> set (login_ids e) \<longleftrightarrow> (\<exists>u p t. e = LoginOK x u p t)" "x \<in> set (granted e) \<longleftrightarrow> (\<exists>sid g t. e = GrantGiven x sid g t)"
  "x \<in> set (redeemed e) \<longleftrightarrow> (\<exists>v c u t. e = CodeRedeemed x v c u t)" "x \<in> set (given e) \<longleftrightarrow> (\<exists>claims g t. e = TokensGiven claims x g t)"
  "x \<in> set (refreshed e) \<longleftrightarrow> (\<exists>c t. e = RefreshRedeemed x c t)"
  by (cases e; auto)+

lemma event_ids:
  "x \<in> set (all_of login_ids log) \<longleftrightarrow> (\<exists>u p t. LoginOK x u p t \<in> set log)"
  "x \<in> set (all_of granted log) \<longleftrightarrow> (\<exists>sid g t. GrantGiven x sid g t \<in> set log)"
  "x \<in> set (all_of redeemed log) \<longleftrightarrow> (\<exists>v c u t. CodeRedeemed x v c u t \<in> set log)"
  "x \<in> set (all_of given log) \<longleftrightarrow> (\<exists>claims g t. TokensGiven claims x g t \<in> set log)"
  "x \<in> set (all_of refreshed log) \<longleftrightarrow> (\<exists>c t. RefreshRedeemed x c t \<in> set log)"
  unfolding all_of_def set_concat set_map UN_iff bex_simps event_id by blast+

text \<open>The events since the last start.\<close>

definition since_start :: "as_event list \<Rightarrow> as_event list" where
  "since_start log = rev (takeWhile (\<lambda>e. e \<noteq> Restarted) (rev log))"

lemma since_start_simps [simp]:
  "since_start [] = []" "since_start (log @ [Restarted]) = []" "e \<noteq> Restarted \<Longrightarrow> since_start (log @ [e]) = since_start log @ [e]"
  by (simp_all add: since_start_def)

lemma since_start_subset: "set (since_start log) \<subseteq> set log"
  using set_takeWhileD by (fastforce simp: since_start_def)

section \<open>Steps\<close>

record as_sys =
  ay_server :: AS_Server
  ay_file :: store_read
  ay_snaps :: "persisted list"
  ay_log :: "as_event list"

definition post_value :: "http_request \<Rightarrow> string \<Rightarrow> string" where
  "post_value r k = trim_space (form_Get (hr_PostForm r) k)"

definition password_ok :: "as_lib \<Rightarrow> http_request \<Rightarrow> AS_Server \<Rightarrow> bool" where
  "password_ok lib r sv = (case map_of (cf_Users (sv_cfg sv)) (post_value r ''username'') of
     None \<Rightarrow> False | Some hash \<Rightarrow> bcrypt_ok lib (form_Get (hr_PostForm r) ''password'') hash)"

definition login_events :: "as_lib \<Rightarrow> gotime \<Rightarrow> string \<Rightarrow> http_request \<Rightarrow> AS_Server \<Rightarrow> as_event list" where
  "login_events lib now sid r sv =
     (if hr_Post r \<and> hr_FormOK r \<and> password_ok lib r sv
      then [LoginOK sid (post_value r ''username'') (form_Get (hr_PostForm r) ''password'') now] else [])"

definition granting_events :: "gotime \<Rightarrow> string \<Rightarrow> string \<Rightarrow> http_request \<Rightarrow> AS_Server \<Rightarrow> authorize_reply \<Rightarrow> as_event list" where
  "granting_events now sid code r sv' out =
     (case out of
        RedirectTo uri c st iss \<Rightarrow> [GrantGiven code (if hr_Post r then sid else hr_Cookie r) (the (map_of (sv_codes sv') code)) now]
      | _ \<Rightarrow> [])"

text \<open>What the reply of the token endpoint carries, with the grant that the server then has under the refresh token.\<close>

definition token_events :: "gotime \<Rightarrow> http_request \<Rightarrow> AS_Server \<Rightarrow> token_reply \<Rightarrow> as_event list" where
  "token_events now r sv' out =
     (case out of
        TokenError e \<Rightarrow> []
      | Tokens access rtok scopes \<Rightarrow>
          let g = the (map_of (sv_refresh sv') rtok)
          in (if form_Get (hr_PostForm r) ''grant_type'' = ''authorization_code''
              then [CodeRedeemed (post_value r ''code'') (post_value r ''code_verifier'') (post_value r ''client_id'') (post_value r ''redirect_uri'') now]
              else [RefreshRedeemed (post_value r ''refresh_token'') (post_value r ''client_id'') now]) @
             [TokensGiven access rtok g now])"

inductive as_step :: "as_lib \<Rightarrow> AS_Config \<Rightarrow> as_sys \<Rightarrow> as_sys \<Rightarrow> bool" for lib cfg where
  authorize: "AS_Authorize lib now sid code reply reply' r (ay_server s) = (sv, out) \<Longrightarrow>
    sid \<notin> set (all_of login_ids (ay_log s)) \<Longrightarrow> code \<notin> set (all_of granted (ay_log s)) \<Longrightarrow>
    as_step lib cfg s (s\<lparr>ay_server := sv,
      ay_log := ay_log s @ login_events lib now sid r (ay_server s) @ granting_events now sid code r sv out\<rparr>)"
| token: "Token lib now jti rtok r (ay_server s) = (sv, out) \<Longrightarrow> rtok \<notin> set (all_of given (ay_log s)) \<Longrightarrow>
    as_step lib cfg s (s\<lparr>ay_server := sv, ay_snaps := (case out of TokenError e \<Rightarrow> ay_snaps s | _ \<Rightarrow> persist sv # ay_snaps s),
      ay_log := ay_log s @ token_events now r sv out\<rparr>)"
| register: "Register now rnd post uris (ay_server s) = (sv, Inr clientID) \<Longrightarrow>
    as_step lib cfg s (s\<lparr>ay_server := sv, ay_snaps := persist sv # ay_snaps s\<rparr>)"
| saved: "p \<in> set (ay_snaps s) \<Longrightarrow> as_step lib cfg s (s\<lparr>ay_file := Stored p\<rparr>)"
| restart: "AS_New now (ay_file s) cfg = Inr sv \<Longrightarrow>
    as_step lib cfg s (s\<lparr>ay_server := sv, ay_snaps := [], ay_log := ay_log s @ [Restarted]\<rparr>)"

inductive as_reach :: "as_lib \<Rightarrow> AS_Config \<Rightarrow> as_sys \<Rightarrow> bool" for lib cfg where
  boot: "AS_New now NoFile cfg = Inr sv \<Longrightarrow> as_reach lib cfg \<lparr>ay_server = sv, ay_file = NoFile, ay_snaps = [], ay_log = []\<rparr>"
| step: "as_reach lib cfg s \<Longrightarrow> as_step lib cfg s s' \<Longrightarrow> as_reach lib cfg s'"

section \<open>Invariant\<close>

lemma in_alist_update: "(k, v) \<in> set (AList.update a b m) \<Longrightarrow> k = a \<and> v = b \<or> (k, v) \<in> set m"
  by (induction m) (auto split: if_splits)

lemma in_alist_delete: "(k, v) \<in> set (AList.delete a m) \<longleftrightarrow> k \<noteq> a \<and> (k, v) \<in> set m"
  by (auto simp: AList.delete_eq)

lemma in_live [simp]: "(k, v) \<in> set (live now ex m) \<longleftrightarrow> (k, v) \<in> set m \<and> now \<le> ex v"
  by (auto simp: live_def)

lemma live_update_new:
  "k \<notin> fst ` set m \<Longrightarrow> now \<le> ex v \<Longrightarrow> map_of (live now ex (AList.update k v m)) k = Some v"
  by (induction m) (auto simp: live_def)

definition full_config :: "AS_Config \<Rightarrow> AS_Config" where
  "full_config cfg = (if cf_Resource cfg = [] then cfg\<lparr>cf_Resource := cf_Issuer cfg\<rparr> else cfg)"

definition same_grant :: "authCode \<Rightarrow> refreshGrant \<Rightarrow> bool" where
  "same_grant g rg \<longleftrightarrow> rg_ClientID rg = gc_ClientID g \<and> rg_Subject rg = gc_Subject g \<and> rg_Resource rg = gc_Resource g \<and> rg_Scopes rg = gc_Scopes g"

text \<open>The claims that a token of a grant is to carry.\<close>

definition claims_for :: "AS_Config \<Rightarrow> refreshGrant \<Rightarrow> gotime \<Rightarrow> access_claims \<Rightarrow> bool" where
  "claims_for cfg rg t claims \<longleftrightarrow>
     cl_iss claims = cf_Issuer cfg \<and> cl_sub claims = rg_Subject rg \<and> cl_aud claims = rg_Resource rg \<and>
     cl_exp claims = unix_seconds (t + accessTokenTTL) \<and>
     cl_scope claims = (if rg_Scopes rg = [] then None else Some (join_char (CHR '' '') (rg_Scopes rg))) \<and>
     cl_client_id claims = (if rg_ClientID rg = [] then None else Some (rg_ClientID rg))"

text \<open>What each event of a history rests on.\<close>

fun as_event_ok :: "as_lib \<Rightarrow> AS_Config \<Rightarrow> as_event set \<Rightarrow> as_event \<Rightarrow> bool" where
  "as_event_ok lib cfg L (LoginOK sid u pw t) \<longleftrightarrow> (\<exists>hash. map_of (cf_Users cfg) u = Some hash \<and> bcrypt_ok lib pw hash)"
| "as_event_ok lib cfg L (GrantGiven code sid g t) \<longleftrightarrow> gc_ExpiresAt g = t + authCodeTTL \<and> gc_CodeChallenge g \<noteq> [] \<and>
     (\<exists>pw t0. LoginOK sid (gc_Subject g) pw t0 \<in> L \<and> t \<le> t0 + sessionTTL)"
| "as_event_ok lib cfg L (CodeRedeemed code v c u t) \<longleftrightarrow>
     (\<exists>sid g t0. GrantGiven code sid g t0 \<in> L \<and> c = gc_ClientID g \<and> u = gc_RedirectURI g \<and>
        pkceS256 lib v = gc_CodeChallenge g \<and> t \<le> t0 + authCodeTTL)"
| "as_event_ok lib cfg L (TokensGiven access rtok rg t) \<longleftrightarrow>
     (\<exists>claims. jwt_sign lib claims = Some access \<and> claims_for cfg rg t claims) \<and> rg_ExpiresAt rg = t + refreshTokenTTL \<and>
     (\<exists>code sid g t0 v c u t1. GrantGiven code sid g t0 \<in> L \<and> CodeRedeemed code v c u t1 \<in> L \<and> same_grant g rg)"
| "as_event_ok lib cfg L (RefreshRedeemed raw c t) \<longleftrightarrow>
     (\<exists>access rg t0. TokensGiven access raw rg t0 \<in> L \<and> c = rg_ClientID rg \<and> t \<le> t0 + refreshTokenTTL)"
| "as_event_ok lib cfg L Restarted \<longleftrightarrow> True"

lemma as_event_ok_mono: "as_event_ok lib cfg L e \<Longrightarrow> L \<subseteq> L' \<Longrightarrow> as_event_ok lib cfg L' e"
  by (cases e) (simp_all, blast+)

definition log_valid :: "as_lib \<Rightarrow> AS_Config \<Rightarrow> as_event list \<Rightarrow> bool" where
  "log_valid lib cfg log \<longleftrightarrow> (\<forall>e \<in> set log. as_event_ok lib cfg (set log) e) \<and>
     distinct (all_of granted log) \<and> distinct (all_of redeemed log) \<and> distinct (all_of refreshed (since_start log))"

lemma log_valid_snoc:
  assumes "log_valid lib cfg log" and "as_event_ok lib cfg (set log) e" and "set (granted e) \<inter> set (all_of granted log) = {}"
    and "set (redeemed e) \<inter> set (all_of redeemed log) = {}"
    and "set (refreshed e) \<inter> set (all_of refreshed (since_start log)) = {}"
  shows "log_valid lib cfg (log @ [e])"
proof -
  have "\<forall>x \<in> set (log @ [e]). as_event_ok lib cfg (set (log @ [e])) x"
    using assms(1,2) as_event_ok_mono [of lib cfg "set log" _ "set (log @ [e])"] by (auto simp: log_valid_def)
  moreover have "distinct (granted e)" "distinct (redeemed e)" "distinct (refreshed e)" by (cases e; simp)+
  ultimately show ?thesis using assms by (cases "e = Restarted") (auto simp: log_valid_def)
qed

definition refresh_known :: "as_event list \<Rightarrow> (string \<times> refreshGrant) list \<Rightarrow> bool" where
  "refresh_known log m \<longleftrightarrow> (\<forall>k g. (k, g) \<in> set m \<longrightarrow> (\<exists>claims t. TokensGiven claims k g t \<in> set log))"

definition logins_known :: "as_event list \<Rightarrow> (string \<times> as_session) list \<Rightarrow> bool" where
  "logins_known log m \<longleftrightarrow> (\<forall>sid se. (sid, se) \<in> set m \<longrightarrow>
     (\<exists>pw t. LoginOK sid (se_Subject se) pw t \<in> set log \<and> se_ExpiresAt se = t + sessionTTL))"

definition grants_known :: "as_event list \<Rightarrow> (string \<times> authCode) list \<Rightarrow> bool" where
  "grants_known log m \<longleftrightarrow> (\<forall>code g. (code, g) \<in> set m \<longrightarrow> (\<exists>sid t. GrantGiven code sid g t \<in> set log))"

definition unused :: "string list \<Rightarrow> (string \<times> 'a) list \<Rightarrow> bool" where
  "unused used m \<longleftrightarrow> fst ` set m \<inter> set used = {}"

definition server_ok :: "AS_Config \<Rightarrow> as_event list \<Rightarrow> AS_Server \<Rightarrow> bool" where
  "server_ok cfg log sv \<longleftrightarrow> sv_cfg sv = full_config cfg \<and> logins_known log (sv_sessions sv) \<and>
     grants_known log (sv_codes sv) \<and> unused (all_of redeemed log) (sv_codes sv) \<and>
     refresh_known log (sv_refresh sv) \<and> unused (all_of refreshed (since_start log)) (sv_refresh sv)"

definition as_inv :: "as_lib \<Rightarrow> AS_Config \<Rightarrow> as_sys \<Rightarrow> bool" where
  "as_inv lib cfg s \<longleftrightarrow> log_valid lib cfg (ay_log s) \<and> server_ok cfg (ay_log s) (ay_server s) \<and>
     (\<forall>p \<in> set (ay_snaps s). refresh_known (ay_log s) (pe_Refresh p)) \<and>
     (\<forall>p. ay_file s = Stored p \<longrightarrow> refresh_known (ay_log s) (pe_Refresh p))"

lemma known_log:
  "refresh_known log m1 \<Longrightarrow> refresh_known (log @ es) m1" "logins_known log m2 \<Longrightarrow> logins_known (log @ es) m2"
  "grants_known log m3 \<Longrightarrow> grants_known (log @ es) m3"
  unfolding refresh_known_def logins_known_def grants_known_def set_append by blast+

lemma known_sub:
  "refresh_known log m1 \<Longrightarrow> set m1' \<subseteq> set m1 \<Longrightarrow> refresh_known log m1'" "logins_known log m2 \<Longrightarrow> set m2' \<subseteq> set m2 \<Longrightarrow> logins_known log m2'"
  "grants_known log m3 \<Longrightarrow> set m3' \<subseteq> set m3 \<Longrightarrow> grants_known log m3'"
  unfolding refresh_known_def logins_known_def grants_known_def by blast+

lemma update_subset: "set (AList.update k v m) \<subseteq> insert (k, v) (set m)"
  using in_alist_update by fastforce

lemma delete_subset: "set (AList.delete k m) \<subseteq> set m" "k \<notin> fst ` set (AList.delete k m)"
  by (auto simp: AList.delete_eq)

lemma live_subset: "set (live now ex m) \<subseteq> set m"
  by (auto simp: live_def)

lemma known_update:
  "refresh_known log m1 \<Longrightarrow> TokensGiven claims k g1 t \<in> set log \<Longrightarrow> refresh_known log (AList.update k g1 m1)"
  "logins_known log m2 \<Longrightarrow> LoginOK k (se_Subject g2) pw t \<in> set log \<Longrightarrow> se_ExpiresAt g2 = t + sessionTTL \<Longrightarrow> logins_known log (AList.update k g2 m2)"
  "grants_known log m3 \<Longrightarrow> GrantGiven k sid g3 t \<in> set log \<Longrightarrow> grants_known log (AList.update k g3 m3)"
  using update_subset unfolding refresh_known_def logins_known_def grants_known_def by fast+

lemma unused_mono: "unused used m \<Longrightarrow> set m' \<subseteq> set m \<Longrightarrow> unused used m'"
  by (auto simp: unused_def)

lemma unused_update: "unused used m \<Longrightarrow> k \<notin> set used \<Longrightarrow> unused used (AList.update k v m)"
  unfolding unused_def using in_alist_update by fastforce

lemma unused_delete: "unused used m \<Longrightarrow> unused (used @ [k]) (AList.delete k m)"
  using delete_subset [of k m] by (auto simp: unused_def)

lemma server_ok_login:
  assumes "server_ok cfg log sv"
  shows "server_ok cfg (log @ [LoginOK sid u pw t]) (sv\<lparr>sv_sessions := AList.update sid \<lparr>se_Subject = u, se_ExpiresAt = t + sessionTTL\<rparr> (sv_sessions sv)\<rparr>)"
proof -
  have "logins_known (log @ [LoginOK sid u pw t]) (AList.update sid \<lparr>se_Subject = u, se_ExpiresAt = t + sessionTTL\<rparr> (sv_sessions sv))"
    by (rule known_update(2) [where pw = pw and t = t]) (use assms in \<open>simp_all add: server_ok_def known_log\<close>)
  then show ?thesis using assms by (simp add: server_ok_def known_log)
qed

lemma server_ok_grant:
  assumes "server_ok cfg log sv" and "code \<notin> set (all_of redeemed log)"
  shows "server_ok cfg (log @ [GrantGiven code sid g t]) (sv\<lparr>sv_codes := live t' gc_ExpiresAt (AList.update code g (sv_codes sv))\<rparr>)"
proof -
  have "grants_known (log @ [GrantGiven code sid g t]) (AList.update code g (sv_codes sv))"
    by (rule known_update(3) [where sid = sid and t = t]) (use assms in \<open>simp_all add: server_ok_def known_log\<close>)
  then have "grants_known (log @ [GrantGiven code sid g t]) (live t' gc_ExpiresAt (AList.update code g (sv_codes sv)))"
    by (rule known_sub(3) [OF _ live_subset])
  moreover have "unused (all_of redeemed log) (live t' gc_ExpiresAt (AList.update code g (sv_codes sv)))"
    using assms by (intro unused_mono [OF unused_update live_subset]) (simp_all add: server_ok_def)
  ultimately show ?thesis using assms by (simp add: server_ok_def known_log)
qed

lemma valid_redirect: "validateAuthorizeRequest lib reply form sv = Inr req \<Longrightarrow> ar_CodeChallenge req \<noteq> []"
  by (auto simp: validateAuthorizeRequest_def Let_def split: if_splits sum.splits)

lemma issueCode_inv:
  assumes res: "issueCode lib now code reply form u sv = (sv', out)" and ok: "server_ok cfg log sv" and log: "log_valid lib cfg log"
    and new: "code \<notin> set (all_of granted log)" and login: "LoginOK sid u pw t0 \<in> set log" "now \<le> t0 + sessionTTL"
    and evs: "es = (case out of RedirectTo a b c d \<Rightarrow> [GrantGiven code sid (the (map_of (sv_codes sv') code)) now] | _ \<Rightarrow> [])"
  shows "server_ok cfg (log @ es) sv' \<and> log_valid lib cfg (log @ es)"
proof (cases "validateAuthorizeRequest lib reply form sv")
  case (Inl e)
  then have "sv' = sv" "es = []" using res evs by (auto simp: issueCode_def)
  then show ?thesis using ok log by simp
next
  case (Inr req)
  define g where "g = \<lparr>gc_ClientID = ar_ClientID req, gc_RedirectURI = ar_RedirectURI req, gc_Resource = ar_Resource req,
    gc_Scopes = Prelude.fields (form_Get form ''scope''), gc_Subject = u, gc_CodeChallenge = ar_CodeChallenge req, gc_ExpiresAt = now + authCodeTTL\<rparr>"
  have sv': "sv' = sv\<lparr>sv_codes := live now gc_ExpiresAt (AList.update code g (sv_codes sv))\<rparr>" and es0: "es = [GrantGiven code sid (the (map_of (sv_codes sv') code)) now]"
    using res evs Inr by (auto simp: issueCode_def Let_def g_def)
  have "code \<notin> fst ` set (sv_codes sv)" using ok new by (force simp: server_ok_def grants_known_def all_of_def)
  then have "map_of (sv_codes sv') code = Some g" by (simp add: sv' live_update_new g_def)
  then have es: "es = [GrantGiven code sid g now]" using es0 by simp
  have "code \<notin> set (all_of redeemed log)"
  proof
    assume "code \<in> set (all_of redeemed log)"
    then obtain v c a t where "CodeRedeemed code v c a t \<in> set log" by (auto simp: event_ids)
    then have "as_event_ok lib cfg (set log) (CodeRedeemed code v c a t)" using log by (auto simp: log_valid_def)
    then show False using new by (auto simp: event_ids)
  qed
  moreover have "as_event_ok lib cfg (set log) (GrantGiven code sid g now)"
    using login valid_redirect [OF Inr] by (auto simp: g_def)
  ultimately show ?thesis using ok log new unfolding es sv'
    by (intro conjI server_ok_grant log_valid_snoc) simp_all
qed

lemma authorize_inv:
  assumes res: "AS_Authorize lib now sid code reply reply' r sv = (sv', out)" and ok: "server_ok cfg log sv" and log: "log_valid lib cfg log"
    and new: "code \<notin> set (all_of granted log)"
  shows "server_ok cfg (log @ login_events lib now sid r sv @ granting_events now sid code r sv' out) sv' \<and>
    log_valid lib cfg (log @ login_events lib now sid r sv @ granting_events now sid code r sv' out)"
proof (cases "hr_Post r")
  case True
  show ?thesis
  proof (cases "hr_FormOK r \<and> password_ok lib r sv")
    case ok': True
    let ?u = "post_value r ''username''" and ?pw = "form_Get (hr_PostForm r) ''password''"
    let ?log = "log @ [LoginOK sid ?u ?pw now]"
    let ?sv = "sv\<lparr>sv_sessions := AList.update sid \<lparr>se_Subject = ?u, se_ExpiresAt = now + sessionTTL\<rparr> (sv_sessions sv)\<rparr>"
    obtain hash where hash: "map_of (cf_Users (sv_cfg sv)) ?u = Some hash" "bcrypt_ok lib ?pw hash"
      using ok' by (auto simp: password_ok_def split: option.splits)
    then have i: "issueCode lib now code reply (hr_Form r) ?u ?sv = (sv', out)"
      using res True ok' by (simp add: AS_Authorize_def authorizePost_def post_value_def Let_def)
    have "map_of (cf_Users cfg) ?u = Some hash" using hash(1) ok by (auto simp: server_ok_def full_config_def split: if_splits)
    then have "log_valid lib cfg ?log" using hash log by (intro log_valid_snoc) auto
    then have "server_ok cfg (?log @ granting_events now sid code r sv' out) sv' \<and> log_valid lib cfg (?log @ granting_events now sid code r sv' out)"
      using new True by (intro issueCode_inv [OF i server_ok_login [OF ok], of _ sid ?pw now]) (simp_all add: granting_events_def)
    then show ?thesis using True ok' by (simp add: login_events_def)
  next
    case False
    then have "sv' = sv" "granting_events now sid code r sv' out = []" "login_events lib now sid r sv = []"
      using res True by (auto simp: AS_Authorize_def authorizePost_def password_ok_def post_value_def granting_events_def login_events_def split: option.splits if_splits)
    then show ?thesis using ok log by simp
  qed
next
  case False
  then have no: "login_events lib now sid r sv = []" by (simp add: login_events_def)
  show ?thesis
  proof (cases "\<exists>u. u = sessionSubject now r sv \<and> u \<noteq> [] \<and> issueCode lib now code reply' (hr_Form r) u sv = (sv', out)")
    case True
    then obtain u where u: "u = sessionSubject now r sv" "u \<noteq> []" "issueCode lib now code reply' (hr_Form r) u sv = (sv', out)" by blast
    then obtain se where se: "map_of (sv_sessions sv) (hr_Cookie r) = Some se" "now \<le> se_ExpiresAt se" "u = se_Subject se"
      by (auto simp: sessionSubject_def split: if_splits option.splits)
    then obtain pw t where "LoginOK (hr_Cookie r) u pw t \<in> set log" "se_ExpiresAt se = t + sessionTTL"
      using ok map_of_SomeD by (fastforce simp: server_ok_def logins_known_def)
    then show ?thesis using issueCode_inv [OF u(3) ok log new, of "hr_Cookie r" pw t] False no se(2)
      by (simp add: granting_events_def)
  next
    case other: False
    then have "sv' = sv" "granting_events now sid code r sv' out = []"
      using res False by (auto simp: AS_Authorize_def Let_def granting_events_def split: if_splits sum.splits)
    then show ?thesis using ok log no by simp
  qed
qed

text \<open>Tokens: from a server whose map no longer has what was redeemed.\<close>

lemma issueTokens_inv:
  assumes res: "issueTokens lib now jti rtok c u resource scopes sv = (sv', Tokens access rt sc)" and ok: "server_ok cfg log sv"
    and log: "log_valid lib cfg log" and new: "rtok \<notin> set (all_of given log)"
    and grant: "GrantGiven code sid g t0 \<in> set log" "CodeRedeemed code v c' a t1 \<in> set log"
      "c = gc_ClientID g" "u = gc_Subject g" "resource = gc_Resource g" "scopes = gc_Scopes g"
  shows "rt = rtok \<and> (\<exists>rg. map_of (sv_refresh sv') rtok = Some rg \<and> rg_ClientID rg = c \<and>
    (let es = [TokensGiven access rtok rg now]
     in server_ok cfg (log @ es) sv' \<and> log_valid lib cfg (log @ es)))"
proof -
  define rg where "rg = \<lparr>rg_ClientID = c, rg_Resource = resource, rg_Scopes = scopes, rg_Subject = u, rg_ExpiresAt = now + refreshTokenTTL\<rparr>"
  define claims where "claims = fst (signAccessToken lib now jti c u resource scopes sv)"
  have sv': "sv' = prune now (sv\<lparr>sv_refresh := AList.update rtok rg (sv_refresh sv)\<rparr>)" and rt: "rt = rtok"
    and sign: "jwt_sign lib claims = Some access"
    using res by (auto simp: issueTokens_def rg_def claims_def signAccessToken_def Let_def split: option.splits)
  have "rtok \<notin> fst ` set (sv_refresh sv)" using ok new by (force simp: server_ok_def refresh_known_def event_ids)
  then have m: "map_of (sv_refresh sv') rtok = Some rg" by (simp add: sv' prune_def live_update_new rg_def)
  let ?log = "log @ [TokensGiven access rtok rg now]"
  have "rtok \<notin> set (all_of refreshed (since_start log))"
  proof
    assume "rtok \<in> set (all_of refreshed (since_start log))"
    then obtain c1 t where "RefreshRedeemed rtok c1 t \<in> set log" using since_start_subset by (fastforce simp: event_ids)
    then have "as_event_ok lib cfg (set log) (RefreshRedeemed rtok c1 t)" using log by (auto simp: log_valid_def)
    then show False using new by (auto simp: event_ids)
  qed
  then have "unused (all_of refreshed (since_start log)) (AList.update rtok rg (sv_refresh sv))" using ok by (simp add: server_ok_def unused_update)
  moreover have "refresh_known ?log (AList.update rtok rg (sv_refresh sv))"
    by (rule known_update(1) [where claims = access and t = now]) (use ok in \<open>simp_all add: server_ok_def known_log\<close>)
  ultimately have s: "server_ok cfg ?log sv'" using ok
    by (simp add: server_ok_def sv' prune_def known_log known_sub(1) [OF _ live_subset] known_sub(2) [OF _ live_subset] unused_mono [OF _ live_subset])
  have "same_grant g rg" using grant by (simp add: same_grant_def rg_def)
  moreover have "claims_for cfg rg now claims" "rg_ExpiresAt rg = now + refreshTokenTTL"
    using ok by (simp_all add: claims_for_def claims_def signAccessToken_def Let_def rg_def server_ok_def full_config_def)
  ultimately have "as_event_ok lib cfg (set log) (TokensGiven access rtok rg now)"
    using grant(1,2) sign unfolding as_event_ok.simps by blast
  then have "log_valid lib cfg ?log" using log by (intro log_valid_snoc) simp_all
  then show ?thesis using s m rt by (simp add: Let_def) (simp add: rg_def)
qed

lemma server_ok_redeem:
  assumes "server_ok cfg log sv"
  shows "server_ok cfg (log @ [CodeRedeemed code v c u t]) (sv\<lparr>sv_codes := AList.delete code (sv_codes sv)\<rparr>)"
    and "server_ok cfg (log @ [RefreshRedeemed raw c t]) (sv\<lparr>sv_refresh := AList.delete raw (sv_refresh sv)\<rparr>)"
    and "server_ok cfg log (sv\<lparr>sv_codes := AList.delete code (sv_codes sv)\<rparr>)"
    and "server_ok cfg log (sv\<lparr>sv_refresh := AList.delete raw (sv_refresh sv)\<rparr>)"
  using assms by (simp_all add: server_ok_def known_log unused_delete known_sub(1) [OF _ delete_subset(1)] known_sub(3) [OF _ delete_subset(1)]
      unused_mono [OF _ delete_subset(1)])

lemma issueTokens_error: "issueTokens lib now jti rtok c u resource scopes sv = (sv', TokenError e) \<Longrightarrow> sv' = sv"
  by (auto simp: issueTokens_def split: option.splits)

lemma tokenCode_inv:
  assumes res: "tokenCode lib now jti rtok r sv = (sv', out)" and ok: "server_ok cfg log sv" and log: "log_valid lib cfg log"
    and new: "rtok \<notin> set (all_of given log)" and gt: "form_Get (hr_PostForm r) ''grant_type'' = ''authorization_code''"
  shows "server_ok cfg (log @ token_events now r sv' out) sv' \<and> log_valid lib cfg (log @ token_events now r sv' out)"
proof (cases out)
  case (TokenError e)
  then have "sv' = sv \<or> sv' = sv\<lparr>sv_codes := AList.delete (post_value r ''code'') (sv_codes sv)\<rparr>"
    using res by (auto simp: tokenCode_def Let_def post_value_def dest: issueTokens_error split: option.splits if_splits)
  then show ?thesis using TokenError ok log server_ok_redeem(3) by (auto simp: token_events_def)
next
  case (Tokens access rt sc)
  let ?code = "post_value r ''code''" and ?v = "post_value r ''code_verifier''" and ?c = "post_value r ''client_id''" and ?u = "post_value r ''redirect_uri''"
  let ?log = "log @ [CodeRedeemed ?code ?v ?c ?u now]" and ?sv = "sv\<lparr>sv_codes := AList.delete ?code (sv_codes sv)\<rparr>"
  obtain gr where gr: "map_of (sv_codes sv) ?code = Some gr" "now \<le> gc_ExpiresAt gr" "?c = gc_ClientID gr" "?u = gc_RedirectURI gr"
    "pkceS256 lib ?v = gc_CodeChallenge gr"
    "issueTokens lib now jti rtok (gc_ClientID gr) (gc_Subject gr) (gc_Resource gr) (gc_Scopes gr) ?sv = (sv', Tokens access rt sc)"
    using res Tokens by (auto simp: tokenCode_def Let_def post_value_def split: option.splits if_splits)
  then have in_codes: "(?code, gr) \<in> set (sv_codes sv)" by (simp add: map_of_SomeD)
  then obtain sid t0 where given: "GrantGiven ?code sid gr t0 \<in> set log" using ok unfolding server_ok_def grants_known_def by blast
  then have "as_event_ok lib cfg (set log) (GrantGiven ?code sid gr t0)" using log by (auto simp: log_valid_def)
  then have "as_event_ok lib cfg (set log) (CodeRedeemed ?code ?v ?c ?u now)" using given gr by auto
  moreover have "?code \<notin> set (all_of redeemed log)" using in_codes ok by (force simp: server_ok_def unused_def)
  ultimately have log': "log_valid lib cfg ?log" using log by (intro log_valid_snoc) simp_all
  show ?thesis using issueTokens_inv [OF gr(6) server_ok_redeem(1) [OF ok] log', of ?code sid gr t0 ?v ?c ?u now] new given Tokens gt
    by (auto simp: token_events_def Let_def)
qed

lemma tokenRefresh_inv:
  assumes res: "tokenRefresh lib now jti rtok r sv = (sv', out)" and ok: "server_ok cfg log sv" and log: "log_valid lib cfg log"
    and new: "rtok \<notin> set (all_of given log)" and gt: "form_Get (hr_PostForm r) ''grant_type'' \<noteq> ''authorization_code''"
  shows "server_ok cfg (log @ token_events now r sv' out) sv' \<and> log_valid lib cfg (log @ token_events now r sv' out)"
proof (cases out)
  case (TokenError e)
  then have "sv' = sv \<or> sv' = sv\<lparr>sv_refresh := AList.delete (post_value r ''refresh_token'') (sv_refresh sv)\<rparr>"
    using res by (auto simp: tokenRefresh_def Let_def post_value_def dest: issueTokens_error split: option.splits if_splits)
  then show ?thesis using TokenError ok log server_ok_redeem(4) by (auto simp: token_events_def)
next
  case (Tokens access rt sc)
  let ?raw = "post_value r ''refresh_token''" and ?c = "post_value r ''client_id''"
  let ?log = "log @ [RefreshRedeemed ?raw ?c now]" and ?sv = "sv\<lparr>sv_refresh := AList.delete ?raw (sv_refresh sv)\<rparr>"
  obtain gr where gr: "map_of (sv_refresh sv) ?raw = Some gr" "now \<le> rg_ExpiresAt gr" "?c = rg_ClientID gr"
    "issueTokens lib now jti rtok (rg_ClientID gr) (rg_Subject gr) (rg_Resource gr) (rg_Scopes gr) ?sv = (sv', Tokens access rt sc)"
    using res Tokens by (auto simp: tokenRefresh_def Let_def post_value_def split: option.splits if_splits)
  then have mem: "(?raw, gr) \<in> set (sv_refresh sv)" by (simp add: map_of_SomeD)
  then obtain claims t where t: "TokensGiven claims ?raw gr t \<in> set log" using ok unfolding server_ok_def refresh_known_def by blast
  then have prev: "as_event_ok lib cfg (set log) (TokensGiven claims ?raw gr t)" using log by (auto simp: log_valid_def)
  then obtain code sid g t0 v c u t1 where g: "GrantGiven code sid g t0 \<in> set log" "CodeRedeemed code v c u t1 \<in> set log" "same_grant g gr" by auto
  have "as_event_ok lib cfg (set log) (RefreshRedeemed ?raw ?c now)" using t prev gr by auto
  moreover have "?raw \<notin> set (all_of refreshed (since_start log))" using mem ok by (force simp: server_ok_def unused_def)
  ultimately have log': "log_valid lib cfg ?log" using log by (intro log_valid_snoc) simp_all
  show ?thesis
    using issueTokens_inv [OF gr(4) server_ok_redeem(2) [OF ok] log', of code sid g t0 v c u t1] new g Tokens gt
    by (auto simp: token_events_def Let_def same_grant_def)
qed

lemma token_inv:
  assumes res: "Token lib now jti rtok r sv = (sv', out)" and ok: "server_ok cfg log sv" and log: "log_valid lib cfg log"
    and new: "rtok \<notin> set (all_of given log)"
  shows "server_ok cfg (log @ token_events now r sv' out) sv' \<and> log_valid lib cfg (log @ token_events now r sv' out)"
proof (cases "hr_Post r \<and> hr_FormOK r \<and> form_Get (hr_PostForm r) ''grant_type'' \<in> {''authorization_code'', ''refresh_token''}")
  case True
  then show ?thesis using res tokenCode_inv [OF _ ok log new] tokenRefresh_inv [OF _ ok log new]
    by (auto simp: Token_def split: if_splits)
next
  case False
  then have "sv' = sv" "\<exists>e. out = TokenError e" using res by (auto simp: Token_def split: if_splits)
  then show ?thesis using ok log by (auto simp: token_events_def)
qed

lemma snaps_log:
  "\<forall>p \<in> set ps. refresh_known log (pe_Refresh p) \<Longrightarrow> \<forall>p \<in> set ps. refresh_known (log @ es) (pe_Refresh p)"
  by (simp add: known_log)

lemma as_step_inv:
  assumes "as_step lib cfg s s'" and "as_inv lib cfg s"
  shows "as_inv lib cfg s'"
  using assms
proof (induction rule: as_step.induct)
  case (authorize now sid code reply reply' r s sv out)
  then show ?case using authorize_inv [OF authorize.hyps(1)] by (simp add: as_inv_def known_log)
next
  case (token now jti rtok r s sv out)
  then have "server_ok cfg (ay_log s @ token_events now r sv out) sv \<and>
      log_valid lib cfg (ay_log s @ token_events now r sv out)"
    using token_inv [OF token.hyps(1)] by (simp add: as_inv_def)
  then show ?case using token.prems
    by (auto simp: as_inv_def known_log persist_def server_ok_def split: token_reply.splits)
next
  case (register now rnd post uris s sv clientID)
  then have "sv_refresh sv = sv_refresh (ay_server s)" "server_ok cfg (ay_log s) sv"
    by (auto simp: Register_def as_inv_def server_ok_def Let_def split: if_splits option.splits)
  then show ?case using register.prems by (auto simp: as_inv_def persist_def server_ok_def)
next
  case (saved p s)
  then show ?case by (simp add: as_inv_def)
next
  case (restart now s sv)
  have "refresh_known (ay_log s) (sv_refresh sv)"
  proof (cases "ay_file s")
    case (Stored p)
    then have "refresh_known (ay_log s) (pe_Refresh p)" using restart.prems by (simp add: as_inv_def)
    then show ?thesis using restart.hyps Stored
      by (auto simp: AS_New_def loadStore_def prune_def Let_def known_sub(1) [OF _ live_subset] split: if_splits)
  qed (use restart.hyps in \<open>auto simp: AS_New_def loadStore_def refresh_known_def Let_def split: if_splits\<close>)
  moreover have "sv_codes sv = []" "sv_sessions sv = []" "sv_cfg sv = full_config cfg"
    using restart.hyps by (auto simp: AS_New_def loadStore_def prune_def live_def full_config_def Let_def split: if_splits store_read.splits)
  ultimately have "server_ok cfg (ay_log s @ [Restarted]) sv"
    by (simp add: server_ok_def known_log logins_known_def grants_known_def unused_def)
  moreover have "log_valid lib cfg (ay_log s @ [Restarted])" using restart.prems by (intro log_valid_snoc) (simp_all add: as_inv_def)
  ultimately show ?case using restart.prems by (simp add: as_inv_def known_log)
qed

lemma as_reach_inv: "as_reach lib cfg s \<Longrightarrow> as_inv lib cfg s"
proof (induction rule: as_reach.induct)
  case (boot now sv)
  then have "sv = \<lparr>sv_cfg = full_config cfg, sv_codes = [], sv_sessions = [], sv_refresh = [], sv_dcrClients = []\<rparr>"
    by (auto simp: AS_New_def loadStore_def full_config_def Let_def split: if_splits)
  then show ?case
    by (simp add: as_inv_def server_ok_def log_valid_def logins_known_def grants_known_def refresh_known_def unused_def)
next
  case (step s s')
  then show ?case using as_step_inv by blast
qed

section \<open>Properties\<close>

lemma distinct_concat_unique:
  assumes "distinct (concat (map f xs))" and "a \<in> set xs" "b \<in> set xs" and "x \<in> set (f a)" "x \<in> set (f b)"
  shows "a = b"
  using assms by (induction xs) auto

lemma grant_unique:
  assumes "log_valid lib cfg log" and "GrantGiven code sid g t \<in> set log" and "GrantGiven code sid' g' t' \<in> set log"
  shows "g = g' \<and> sid = sid' \<and> t = t'"
  using distinct_concat_unique [of granted log _ _ code] assms by (fastforce simp: log_valid_def all_of_def)

text \<open>
  (C29) Every access token goes back to a login. Whatever requests reach the endpoints, in whatever order, with restarts
  and late writes of the store file: an access token that the token endpoint returned is the signed form of claims for
  a subject, client, resource and scopes, with the issuer and the life time of the server, and these are the ones of
  an authorization code that was granted within a session opened with this subject's password; the code had been
  redeemed by that client at its redirect address within five minutes with a verifier that hashes to the challenge of
  the request.
\<close>

theorem token_provenance:
  assumes "as_reach lib cfg s" and "TokensGiven access rtok rg t \<in> set (ay_log s)"
  shows "\<exists>claims code sid g pw hash v t0 t1 t2. jwt_sign lib claims = Some access \<and>
    LoginOK sid (cl_sub claims) pw t0 \<in> set (ay_log s) \<and> map_of (cf_Users cfg) (cl_sub claims) = Some hash \<and> bcrypt_ok lib pw hash \<and>
    GrantGiven code sid g t1 \<in> set (ay_log s) \<and> t1 \<le> t0 + sessionTTL \<and>
    CodeRedeemed code v (gc_ClientID g) (gc_RedirectURI g) t2 \<in> set (ay_log s) \<and> pkceS256 lib v = gc_CodeChallenge g \<and>
    t2 \<le> t1 + authCodeTTL \<and> same_grant g rg \<and>
    cl_sub claims = gc_Subject g \<and> cl_aud claims = gc_Resource g \<and> cl_iss claims = cf_Issuer cfg \<and>
    cl_exp claims = unix_seconds (t + accessTokenTTL) \<and>
    cl_scope claims = (if gc_Scopes g = [] then None else Some (join_char (CHR '' '') (gc_Scopes g))) \<and>
    cl_client_id claims = (if gc_ClientID g = [] then None else Some (gc_ClientID g))"
proof -
  let ?L = "set (ay_log s)"
  have log: "log_valid lib cfg (ay_log s)" using as_reach_inv [OF assms(1)] by (simp add: as_inv_def)
  then have ok: "as_event_ok lib cfg ?L e" if "e \<in> ?L" for e using that by (auto simp: log_valid_def)
  obtain claims code sid g t1 v c u t2 where g: "GrantGiven code sid g t1 \<in> ?L" "CodeRedeemed code v c u t2 \<in> ?L" "same_grant g rg"
    and claims: "jwt_sign lib claims = Some access" "claims_for cfg rg t claims"
    using ok [OF assms(2)] by auto
  obtain sid' g' t' where r: "GrantGiven code sid' g' t' \<in> ?L" "c = gc_ClientID g'" "u = gc_RedirectURI g'"
    "pkceS256 lib v = gc_CodeChallenge g'" "t2 \<le> t' + authCodeTTL" using ok [OF g(2)] by auto
  have same: "g' = g" "t' = t1" using grant_unique [OF log r(1) g(1)] by auto
  have sub: "cl_sub claims = gc_Subject g" "cl_aud claims = gc_Resource g" "cl_iss claims = cf_Issuer cfg"
    "cl_exp claims = unix_seconds (t + accessTokenTTL)"
    "cl_scope claims = (if gc_Scopes g = [] then None else Some (join_char (CHR '' '') (gc_Scopes g)))"
    "cl_client_id claims = (if gc_ClientID g = [] then None else Some (gc_ClientID g))"
    using g(3) claims(2) by (simp_all add: same_grant_def claims_for_def)
  obtain pw t0 where l: "LoginOK sid (gc_Subject g) pw t0 \<in> ?L" "t1 \<le> t0 + sessionTTL" using ok [OF g(1)] by auto
  obtain hash where h: "map_of (cf_Users cfg) (gc_Subject g) = Some hash" "bcrypt_ok lib pw hash" using ok [OF l(1)] by auto
  show ?thesis
    by (rule exI [of _ claims], rule exI [of _ code], rule exI [of _ sid], rule exI [of _ g], rule exI [of _ pw],
        rule exI [of _ hash], rule exI [of _ v], rule exI [of _ t0], rule exI [of _ t1], rule exI [of _ t2])
      (use g l r h claims(1) sub same in simp)
qed

text \<open>
  (C30) Codes and refresh tokens are spent. No authorization code is redeemed twice, across restarts; no refresh token is
  redeemed twice without a restart in between; and a refresh token is redeemed only by the client it was given to,
  within thirty days.
\<close>

theorem tokens_single_use:
  assumes "as_reach lib cfg s"
  shows "distinct (all_of redeemed (ay_log s)) \<and> distinct (all_of refreshed (since_start (ay_log s))) \<and>
    (\<forall>raw c t. RefreshRedeemed raw c t \<in> set (ay_log s) \<longrightarrow>
       (\<exists>access rg t0. TokensGiven access raw rg t0 \<in> set (ay_log s) \<and> c = rg_ClientID rg \<and> t \<le> t0 + refreshTokenTTL))"
  using as_reach_inv [OF assms] by (fastforce simp: as_inv_def log_valid_def)

lemma redirect_loop_iff:
  "redirect_loop lib want wu allowed \<longleftrightarrow>
     want \<in> set allowed \<or> (\<exists>a \<in> set allowed. \<exists>au. url_Parse lib a = Some au \<and> isLoopback au \<and> isLoopback wu \<and> ur_Path au = ur_Path wu)"
  by (induction allowed) (auto split: option.splits)

lemma validate_ok:
  assumes "validateAuthorizeRequest lib reply form sv = Inr req"
  shows "ar_RedirectURI req = trim_space (form_Get form ''redirect_uri'')" "ar_ClientID req = trim_space (form_Get form ''client_id'')"
    "trim_space (form_Get form ''code_challenge_method'') = ''S256''" "ar_CodeChallenge req \<noteq> []"
    "\<exists>allowed. allowedRedirectURIs reply (ar_ClientID req) sv = Inr allowed \<and> redirectAllowed lib allowed (ar_RedirectURI req)"
  using assms by (auto simp: validateAuthorizeRequest_def Let_def split: if_splits sum.splits)

text \<open>
  Codes are sent only where the client may receive them. A redirect of the authorization endpoint goes to the
  address of the request, and that address is one of the addresses of the client's registration or metadata document,
  or a loopback address with the path of a loopback address among them; the request had a challenge for S256.
\<close>

theorem code_redirect_allowed:
  assumes "AS_Authorize lib now sid code reply reply' r sv = (sv', RedirectTo uri c st iss)"
  shows "c = code \<and> iss = cf_Issuer (sv_cfg sv) \<and> uri = trim_space (form_Get (hr_Form r) ''redirect_uri'') \<and>
    trim_space (form_Get (hr_Form r) ''code_challenge_method'') = ''S256'' \<and>
    (\<exists>rep allowed. (rep = reply \<or> rep = reply') \<and> allowedRedirectURIs rep (trim_space (form_Get (hr_Form r) ''client_id'')) sv = Inr allowed \<and>
      (uri \<in> set allowed \<or> (\<exists>a au wu. a \<in> set allowed \<and> url_Parse lib a = Some au \<and> url_Parse lib uri = Some wu \<and>
         isLoopback au \<and> isLoopback wu \<and> ur_Path au = ur_Path wu)))"
proof -
  obtain rep u ss where i: "issueCode lib now code rep (hr_Form r) u (sv\<lparr>sv_sessions := ss\<rparr>) = (sv', RedirectTo uri c st iss)"
    and rep: "rep = reply \<or> rep = reply'"
  proof (cases "hr_Post r")
    case True
    then show ?thesis using assms that by (auto simp: AS_Authorize_def authorizePost_def Let_def split: if_splits option.splits)
  next
    case False
    then have "issueCode lib now code reply' (hr_Form r) (sessionSubject now r sv) (sv\<lparr>sv_sessions := sv_sessions sv\<rparr>) = (sv', RedirectTo uri c st iss)"
      using assms by (auto simp: AS_Authorize_def Let_def split: if_splits sum.splits)
    then show ?thesis using that by blast
  qed
  obtain req where req: "validateAuthorizeRequest lib rep (hr_Form r) (sv\<lparr>sv_sessions := ss\<rparr>) = Inr req" and
    out: "uri = ar_RedirectURI req" "c = code" "iss = cf_Issuer (sv_cfg sv)"
    using i by (auto simp: issueCode_def Let_def split: sum.splits)
  note v = validate_ok [OF req]
  have same: "allowedRedirectURIs rep k (sv\<lparr>sv_sessions := ss\<rparr>) = allowedRedirectURIs rep k sv" for k by (simp add: allowedRedirectURIs_def)
  obtain allowed where a: "allowedRedirectURIs rep (ar_ClientID req) sv = Inr allowed" "redirectAllowed lib allowed uri"
    using v(5) out(1) unfolding same by blast
  then have "uri \<in> set allowed \<or> (\<exists>a au wu. a \<in> set allowed \<and> url_Parse lib a = Some au \<and> url_Parse lib uri = Some wu \<and>
         isLoopback au \<and> isLoopback wu \<and> ur_Path au = ur_Path wu)"
    by (fastforce simp: redirectAllowed_def redirect_loop_iff split: option.splits)
  then show ?thesis using v out a(1) rep by metis
qed

section \<open>The login page\<close>

text \<open>How a browser reads the entities that the page writes.\<close>

fun html_unescape :: "string \<Rightarrow> string" where
  "html_unescape [] = []"
| "html_unescape (c # cs) =
     (if c \<noteq> CHR ''&'' then c # html_unescape cs
      else if has_prefix cs ''amp;'' then CHR ''&'' # html_unescape (drop 4 cs)
      else if has_prefix cs ''lt;'' then CHR ''<'' # html_unescape (drop 3 cs)
      else if has_prefix cs ''gt;'' then CHR ''>'' # html_unescape (drop 3 cs)
      else if has_prefix cs ''#34;'' then CHR 0x22 # html_unescape (drop 4 cs)
      else if has_prefix cs ''#39;'' then CHR 0x27 # html_unescape (drop 4 cs)
      else c # html_unescape cs)"

text \<open>
  The parameters of a request survive the login page. The value written for a parameter has no angle bracket and
  no quote, so that it cannot leave its attribute, and the browser sends back the parameter as it was.
\<close>

theorem login_form_roundtrip:
  "html_unescape (htmlEscape v) = v \<and> set (htmlEscape v) \<inter> {CHR ''<'', CHR ''>'', CHR 0x22, CHR 0x27} = {}"
proof (induction v)
  case Nil
  then show ?case by (simp add: htmlEscape_def)
next
  case (Cons c v)
  have step: "htmlEscape (c # v) = escape_char c @ htmlEscape v" by (simp add: htmlEscape_def)
  have "html_unescape (escape_char c @ w) = c # html_unescape w" for w by (simp add: escape_char_def has_prefix_def)
  moreover have "set (escape_char c) \<inter> {CHR ''<'', CHR ''>'', CHR 0x22, CHR 0x27} = {}" by (auto simp: escape_char_def)
  ultimately show ?case using Cons.IH by (simp add: step Int_Un_distrib2)
qed

end
