(* ===== verification/AuthFlowWitness.thy ===== *)
theory AuthFlowWitness
  imports AuthFlow
begin

text \<open>
  A run of the authorization server: a client registers, a user logs in, the code is exchanged, the refresh token is
  used; then the server restarts with the file it had written before, and the same refresh token works again.
\<close>

definition sample_lib :: as_lib where
  "sample_lib = \<lparr>bcrypt_ok = (=), sha256 = id, base64url = id,
     url_Parse = (\<lambda>s. Some \<lparr>ur_Scheme = ''https'', ur_Hostname = ''app'', ur_Path = s\<rparr>), jwt_sign = (\<lambda>c. Some (cl_sub c))\<rparr>"

definition sample_cfg :: AS_Config where
  "sample_cfg = \<lparr>cf_Issuer = ''https://cb'', cf_Resource = [], cf_Users = [(''alice'', ''pw'')]\<rparr>"

definition post_request :: "form \<Rightarrow> form \<Rightarrow> http_request" where
  "post_request f p = \<lparr>hr_Post = True, hr_FormOK = True, hr_Form = f, hr_PostForm = p, hr_Cookie = []\<rparr>"

definition login_request :: http_request where
  "login_request = post_request
     [(''client_id'', [''cb-x'']), (''redirect_uri'', [''https://app/cb'']), (''code_challenge'', [''ver'']),
      (''code_challenge_method'', [''S256'']), (''scope'', [''codebridge.read''])]
     [(''username'', [''alice'']), (''password'', [''pw''])]"

definition code_request :: http_request where
  "code_request = post_request [] [(''grant_type'', [''authorization_code'']), (''code'', [''c1'']), (''code_verifier'', [''ver'']),
     (''client_id'', [''cb-x'']), (''redirect_uri'', [''https://app/cb''])]"

definition refresh_request :: http_request where
  "refresh_request = post_request [] [(''grant_type'', [''refresh_token'']), (''refresh_token'', [''r1'']), (''client_id'', [''cb-x''])]"

definition server0 :: AS_Server where "server0 = (case AS_New 0 NoFile sample_cfg of Inr sv \<Rightarrow> sv)"
definition server1 :: AS_Server where "server1 = fst (Register 1 ''x'' True (Some [''https://app/cb'']) server0)"
definition server2 :: AS_Server where
  "server2 = fst (AS_Authorize sample_lib 2 ''s1'' ''c1'' Unreachable Unreachable login_request server1)"
definition server3 :: AS_Server where "server3 = fst (Token sample_lib 3 ''j1'' ''r1'' code_request server2)"
definition server4 :: AS_Server where "server4 = fst (Token sample_lib 4 ''j2'' ''r2'' refresh_request server3)"
definition server5 :: AS_Server where "server5 = (case AS_New 5 (Stored (persist server3)) sample_cfg of Inr sv \<Rightarrow> sv)"
definition server6 :: AS_Server where "server6 = fst (Token sample_lib 6 ''j3'' ''r3'' refresh_request server5)"

lemma sample_replies:
  "AS_New 0 NoFile sample_cfg = Inr server0"
  "snd (Register 1 ''x'' True (Some [''https://app/cb'']) server0) = Inr ''cb-x''"
  "snd (AS_Authorize sample_lib 2 ''s1'' ''c1'' Unreachable Unreachable login_request server1) = RedirectTo ''https://app/cb'' ''c1'' [] ''https://cb''"
  "snd (Token sample_lib 3 ''j1'' ''r1'' code_request server2) = Tokens ''alice'' ''r1'' [''codebridge.read'']"
  "snd (Token sample_lib 4 ''j2'' ''r2'' refresh_request server3) = Tokens ''alice'' ''r2'' [''codebridge.read'']"
  "AS_New 5 (Stored (persist server3)) sample_cfg = Inr server5"
  "snd (Token sample_lib 6 ''j3'' ''r3'' refresh_request server5) = Tokens ''alice'' ''r3'' [''codebridge.read'']"
  by code_simp+

definition log2 :: "as_event list" where
  "log2 = login_events sample_lib 2 ''s1'' login_request server1 @
     granting_events 2 ''s1'' ''c1'' login_request server2 (RedirectTo ''https://app/cb'' ''c1'' [] ''https://cb'')"
definition log3 :: "as_event list" where
  "log3 = log2 @ token_events 3 code_request server3 (Tokens ''alice'' ''r1'' [''codebridge.read''])"
definition log4 :: "as_event list" where
  "log4 = log3 @ token_events 4 refresh_request server4 (Tokens ''alice'' ''r2'' [''codebridge.read''])"
definition log6 :: "as_event list" where
  "log6 = (log4 @ [Restarted]) @ token_events 6 refresh_request server6 (Tokens ''alice'' ''r3'' [''codebridge.read''])"

lemma sample_ids:
  "all_of given log2 = []" "all_of given log3 = [''r1'']" "all_of given (log4 @ [Restarted]) = [''r1'', ''r2'']"
  "all_of redeemed log6 = [''c1'']" "all_of refreshed log6 = [''r1'', ''r1'']" "\<exists>claims g. TokensGiven claims ''r3'' g 6 \<in> set log6"
  by (simp_all add: all_of_def log6_def log4_def log3_def log2_def token_events_def granting_events_def login_events_def Let_def
      code_request_def refresh_request_def login_request_def post_request_def form_Get_def post_value_def) (code_simp+)?

definition system_at :: "AS_Server \<Rightarrow> store_read \<Rightarrow> persisted list \<Rightarrow> as_event list \<Rightarrow> as_sys" where
  "system_at sv f ps log = \<lparr>ay_server = sv, ay_file = f, ay_snaps = ps, ay_log = log\<rparr>"

lemma sample_granted: "as_reach sample_lib sample_cfg (system_at server2 NoFile [persist server1] log2)"
proof -
  have r0: "as_reach sample_lib sample_cfg (system_at server0 NoFile [] [])"
    using as_reach.boot [OF sample_replies(1)] by (simp add: system_at_def)
  have "as_step sample_lib sample_cfg (system_at server0 NoFile [] []) (system_at server1 NoFile [persist server1] [])"
    using as_step.register [of 1 "''x''" True "Some [''https://app/cb'']" "system_at server0 NoFile [] []" server1 "''cb-x''" sample_lib sample_cfg] sample_replies(2)
    by (simp add: system_at_def server1_def prod_eq_iff)
  note r1 = as_reach.step [OF r0 this]
  have "as_step sample_lib sample_cfg (system_at server1 NoFile [persist server1] []) (system_at server2 NoFile [persist server1] log2)"
    using as_step.authorize [of sample_lib 2 "''s1''" "''c1''" Unreachable Unreachable login_request "system_at server1 NoFile [persist server1] []" server2
        "RedirectTo ''https://app/cb'' ''c1'' [] ''https://cb''" sample_cfg] sample_replies(3)
    by (simp add: system_at_def server2_def prod_eq_iff log2_def)
  from as_reach.step [OF r1 this] show ?thesis .
qed

lemma sample_refreshed:
  "as_reach sample_lib sample_cfg (system_at server4 (Stored (persist server3)) [persist server4, persist server3, persist server1] log4)"
proof -
  let ?f = "Stored (persist server3)"
  have "as_step sample_lib sample_cfg (system_at server2 NoFile [persist server1] log2) (system_at server3 NoFile [persist server3, persist server1] log3)"
    using as_step.token [of sample_lib 3 "''j1''" "''r1''" code_request "system_at server2 NoFile [persist server1] log2" server3
        "Tokens ''alice'' ''r1'' [''codebridge.read'']" sample_cfg] sample_replies(4) sample_ids(1)
    by (simp add: system_at_def server3_def prod_eq_iff log3_def)
  note r1 = as_reach.step [OF sample_granted this]
  have "as_step sample_lib sample_cfg (system_at server3 NoFile [persist server3, persist server1] log3) (system_at server3 ?f [persist server3, persist server1] log3)"
    using as_step.saved [of "persist server3" "system_at server3 NoFile [persist server3, persist server1] log3" sample_lib sample_cfg] by (simp add: system_at_def)
  note r2 = as_reach.step [OF r1 this]
  have "as_step sample_lib sample_cfg (system_at server3 ?f [persist server3, persist server1] log3)
      (system_at server4 ?f [persist server4, persist server3, persist server1] log4)"
    using as_step.token [of sample_lib 4 "''j2''" "''r2''" refresh_request "system_at server3 ?f [persist server3, persist server1] log3" server4
        "Tokens ''alice'' ''r2'' [''codebridge.read'']" sample_cfg] sample_replies(5) sample_ids(2)
    by (simp add: system_at_def server4_def prod_eq_iff log4_def)
  from as_reach.step [OF r2 this] show ?thesis .
qed

lemma sample_replayed: "as_reach sample_lib sample_cfg (system_at server6 (Stored (persist server3)) [persist server6] log6)"
proof -
  let ?f = "Stored (persist server3)" and ?ps = "[persist server4, persist server3, persist server1]"
  have "as_step sample_lib sample_cfg (system_at server4 ?f ?ps log4) (system_at server5 ?f [] (log4 @ [Restarted]))"
    using as_step.restart [of 5 "system_at server4 ?f ?ps log4" sample_cfg server5 sample_lib] sample_replies(6) by (simp add: system_at_def)
  note r1 = as_reach.step [OF sample_refreshed this]
  have "as_step sample_lib sample_cfg (system_at server5 ?f [] (log4 @ [Restarted])) (system_at server6 ?f [persist server6] log6)"
    using as_step.token [of sample_lib 6 "''j3''" "''r3''" refresh_request "system_at server5 ?f [] (log4 @ [Restarted])" server6
        "Tokens ''alice'' ''r3'' [''codebridge.read'']" sample_cfg] sample_replies(7) sample_ids(3)
    by (simp add: system_at_def server6_def prod_eq_iff log6_def)
  from as_reach.step [OF r1 this] show ?thesis .
qed

text \<open>
  The store file is written without the lock and errors of writing it are ignored, so a restart may bring back a
  refresh token that was redeemed.
\<close>

lemma refresh_replay_after_restart: "\<exists>s. as_reach sample_lib sample_cfg s \<and> all_of refreshed (ay_log s) = [''r1'', ''r1'']"
  using sample_replayed sample_ids(5) by (auto simp: system_at_def)

lemma token_provenance_witness:
  "\<exists>access claims sid pw t0. as_reach sample_lib sample_cfg (system_at server6 (Stored (persist server3)) [persist server6] log6) \<and>
     (\<exists>g. TokensGiven access ''r3'' g 6 \<in> set log6) \<and> jwt_sign sample_lib claims = Some access \<and>
     LoginOK sid (cl_sub claims) pw t0 \<in> set log6 \<and>
     (\<exists>hash. map_of (cf_Users sample_cfg) (cl_sub claims) = Some hash \<and> pw = hash)"
proof -
  obtain access g where t: "TokensGiven access ''r3'' g 6 \<in> set log6" using sample_ids(6) by blast
  have log: "ay_log (system_at server6 (Stored (persist server3)) [persist server6] log6) = log6" by (simp add: system_at_def)
  have bcrypt: "bcrypt_ok sample_lib = (=)" by (simp add: sample_lib_def)
  show ?thesis using token_provenance [OF sample_replayed, unfolded log bcrypt, OF t] sample_replayed t by metis
qed

lemma tokens_single_use_witness:
  "distinct (all_of redeemed log6) \<and> all_of redeemed log6 = [''c1''] \<and> distinct (all_of refreshed (since_start log6))"
  using tokens_single_use [OF sample_replayed] sample_ids(4) by (simp add: system_at_def)

lemma code_redirect_allowed_witness:
  "snd (AS_Authorize sample_lib 2 ''s1'' ''c1'' Unreachable Unreachable login_request server1) = RedirectTo ''https://app/cb'' ''c1'' [] ''https://cb'' \<and>
   ''https://app/cb'' = trim_space (form_Get (hr_Form login_request) ''redirect_uri'')"
  using code_redirect_allowed [of sample_lib 2 "''s1''" "''c1''" Unreachable Unreachable login_request server1 server2 "''https://app/cb''" "''c1''" "[]" "''https://cb''"]
    sample_replies(3) by (simp add: server2_def prod_eq_iff)

end
