(* ===== verification/OAuthVerifier.thy ===== *)
theory OAuthVerifier
  imports AuthServer Registry
begin

text \<open>
  The check of access tokens by the manager (\<open>internal/oauthresource/verifier.go\<close>) with its cache of signing keys, and
  the key set that the embedded authorization server publishes (\<open>JWKS\<close> in \<open>authserver/token.go\<close>, the key identifier of
  \<open>loadKey\<close> in \<open>store.go\<close>).

  The JWT library is an argument: \<open>jl_header\<close> reads the key identifier and the algorithm of a token, \<open>jl_check\<close> is the
  rest of \<open>ParseWithClaims\<close> with the options of the verifier. So are \<open>net/url\<close>, \<open>net.ParseIP\<close>, base64 and the elliptic
  curves.
\<close>

section \<open>Keys\<close>

text \<open>Big-endian numbers: \<open>SetBytes\<close> and \<open>Bytes\<close> of \<open>math/big\<close>.\<close>

definition be_nat :: "string \<Rightarrow> nat" where
  "be_nat bs = foldl (\<lambda>n b. n * 256 + of_char b) 0 bs"

fun be_bytes :: "nat \<Rightarrow> string" where
  "be_bytes n = (if n = 0 then [] else be_bytes (n div 256) @ [char_of (n mod 256)])"

declare be_bytes.simps [simp del]

datatype verification_key = RSAKey nat nat | ECKey string nat nat

record signingKey =
  sk_Key :: verification_key
  sk_Alg :: string

record jwk =
  jk_Kid :: string
  jk_Kty :: string
  jk_Alg :: string
  jk_Use :: string
  jk_N :: string
  jk_E :: string
  jk_Crv :: string
  jk_X :: string
  jk_Y :: string

record oauth_lib =
  ol_decode :: "string \<Rightarrow> string option"
  ol_on_curve :: "string \<Rightarrow> nat \<Rightarrow> nat \<Rightarrow> bool"
  ol_url :: "string \<Rightarrow> parsed_url option"
  ol_ip_loopback :: "string \<Rightarrow> bool"

definition curveForName :: "string \<Rightarrow> string option" where
  "curveForName name = (if name \<in> {''P-256'', ''P-384'', ''P-521''} then Some name else None)"

datatype jwk_error = ErrModulus | ErrExponent | ErrCurve | ErrCoordinate | ErrNotOnCurve | ErrKeyType

definition parseJWK :: "oauth_lib \<Rightarrow> jwk \<Rightarrow> jwk_error + verification_key" where
  "parseJWK lib j =
     (if jk_Kty j = ''RSA'' then
        (case ol_decode lib (jk_N j) of
           None \<Rightarrow> Inl ErrModulus
         | Some n \<Rightarrow>
             if n = [] then Inl ErrModulus
             else case ol_decode lib (jk_E j) of
               None \<Rightarrow> Inl ErrExponent
             | Some eb \<Rightarrow>
                 if eb = [] \<or> length eb > 4 then Inl ErrExponent
                 else let e = be_nat eb in if e < 3 then Inl ErrExponent else Inr (RSAKey (be_nat n) e))
      else if jk_Kty j = ''EC'' then
        (case curveForName (jk_Crv j) of
           None \<Rightarrow> Inl ErrCurve
         | Some curve \<Rightarrow>
             (case (ol_decode lib (jk_X j), ol_decode lib (jk_Y j)) of
                (Some x, Some y) \<Rightarrow>
                  if ol_on_curve lib curve (be_nat x) (be_nat y) then Inr (ECKey curve (be_nat x) (be_nat y)) else Inl ErrNotOnCurve
              | _ \<Rightarrow> Inl ErrCoordinate))
      else Inl ErrKeyType)"

section \<open>Verifier\<close>

record Verifier =
  vf_issuer :: string
  vf_audience :: string
  vf_jwksURL :: string
  vf_allowed :: "string list"
  vf_keys :: "(string \<times> signingKey) list"
  vf_fetchedAt :: gotime

abbreviation cacheTTL :: gotime where "cacheTTL \<equiv> 15 * 60 * seconds"

datatype verify_error = ErrVerifierConfig | ErrURL string | ErrMalformed | ErrAlgorithm | ErrNoKid | ErrNoKey | ErrFetch
  | ErrFetchStatus nat | ErrFetchDecode | ErrNoUsableKeys | ErrKeyAlgorithm | ErrTokenInvalid | ErrNoExpiration | ErrNoSubject
  | ErrSubjectNotAllowed

definition requireHTTPSOrLoopback :: "oauth_lib \<Rightarrow> string \<Rightarrow> bool" where
  "requireHTTPSOrLoopback lib raw =
     (case ol_url lib raw of
        None \<Rightarrow> False
      | Some u \<Rightarrow>
          if ur_Hostname u = [] then False
          else if ur_Scheme u = ''https'' then True
          else ur_Scheme u = ''http'' \<and> (ur_Hostname u = ''localhost'' \<or> ol_ip_loopback lib (ur_Hostname u)))"

definition Verifier_New :: "oauth_lib \<Rightarrow> string \<Rightarrow> string \<Rightarrow> string \<Rightarrow> string list \<Rightarrow> verify_error + Verifier" where
  "Verifier_New lib issuer audience jwksURL subjects =
     (let issuer = trim_space issuer; audience = trim_space audience; jwksURL = trim_space jwksURL
      in if issuer = [] \<or> audience = [] \<or> jwksURL = [] then Inl ErrVerifierConfig
         else if \<not> requireHTTPSOrLoopback lib issuer then Inl (ErrURL ''issuer'')
         else if \<not> requireHTTPSOrLoopback lib jwksURL then Inl (ErrURL ''jwks URL'')
         else Inr \<lparr>vf_issuer = issuer, vf_audience = audience, vf_jwksURL = jwksURL,
                   vf_allowed = filter (\<lambda>s. s \<noteq> []) (map trim_space subjects), vf_keys = [], vf_fetchedAt = zero_time\<rparr>)"

text \<open>The answer to the GET of the key set.\<close>

datatype jwks_reply = JWKSUnreachable | JWKSStatus nat | JWKSUndecodable | JWKSDoc "jwk list"

definition usable_keys :: "oauth_lib \<Rightarrow> jwk list \<Rightarrow> (string \<times> signingKey) list" where
  "usable_keys lib items =
     fold (\<lambda>item keys.
       if jk_Kid item = [] \<or> (jk_Use item \<noteq> [] \<and> jk_Use item \<noteq> ''sig'') then keys
       else case parseJWK lib item of
              Inl e \<Rightarrow> keys
            | Inr k \<Rightarrow> AList.update (jk_Kid item) \<lparr>sk_Key = k, sk_Alg = jk_Alg item\<rparr> keys) items []"

definition refresh_keys :: "oauth_lib \<Rightarrow> gotime \<Rightarrow> jwks_reply \<Rightarrow> Verifier \<Rightarrow> verify_error + Verifier" where
  "refresh_keys lib now reply v =
     (case reply of
        JWKSUnreachable \<Rightarrow> Inl ErrFetch
      | JWKSStatus n \<Rightarrow> Inl (ErrFetchStatus n)
      | JWKSUndecodable \<Rightarrow> Inl ErrFetchDecode
      | JWKSDoc items \<Rightarrow>
          let keys = usable_keys lib items
          in if keys = [] then Inl ErrNoUsableKeys else Inr (v\<lparr>vf_keys := keys, vf_fetchedAt := now\<rparr>))"

text \<open>The key for a key identifier; the third component says whether the key set was fetched.\<close>

definition verifier_key :: "oauth_lib \<Rightarrow> gotime \<Rightarrow> jwks_reply \<Rightarrow> string \<Rightarrow> Verifier \<Rightarrow> Verifier \<times> (verify_error + signingKey) \<times> bool" where
  "verifier_key lib now reply kid v =
     (let found = map_of (vf_keys v) kid; age = now - vf_fetchedAt v
      in if found \<noteq> None \<and> age \<le> cacheTTL then (v, Inr (the found), False)
         else if found = None \<and> age \<le> 30 * seconds then (v, Inl ErrNoKey, False)
         else case refresh_keys lib now reply v of
                Inl e \<Rightarrow> (v, Inl e, True)
              | Inr v \<Rightarrow> (v, (case map_of (vf_keys v) kid of None \<Rightarrow> Inl ErrNoKey | Some k \<Rightarrow> Inr k), True))"

section \<open>Claims\<close>

text \<open>A claim as decoded from JSON: a string, a list whose strings count, anything else.\<close>

datatype claim_value = ClaimString string | ClaimList "string option list" | ClaimOther

record token_claims =
  vc_iss :: string
  vc_sub :: "string option"
  vc_aud :: "string list"
  vc_exp :: "gotime option"
  vc_scope :: "claim_value option"
  vc_scp :: "claim_value option"

definition appendScope :: "claim_value option \<Rightarrow> string list" where
  "appendScope c =
     (case c of
        Some (ClaimString s) \<Rightarrow> Prelude.fields s
      | Some (ClaimList items) \<Rightarrow> concat (map (\<lambda>i. case i of Some s \<Rightarrow> Prelude.fields s | None \<Rightarrow> []) items)
      | _ \<Rightarrow> [])"

fun dedupe :: "string list \<Rightarrow> string list \<Rightarrow> string list" where
  "dedupe seen [] = []"
| "dedupe seen (s # ss) = (if s \<noteq> [] \<and> s \<notin> set seen then s # dedupe (s # seen) ss else dedupe seen ss)"

definition extractScopes :: "token_claims \<Rightarrow> string list" where
  "extractScopes claims = dedupe [] (appendScope (vc_scope claims) @ appendScope (vc_scp claims))"

section \<open>Verification\<close>

record jwt_lib =
  jl_header :: "string \<Rightarrow> (string \<times> string) option"
  jl_check :: "string \<Rightarrow> string \<Rightarrow> gotime \<Rightarrow> gotime \<Rightarrow> verification_key \<Rightarrow> string \<Rightarrow> token_claims option"

definition validMethods :: "string list" where
  "validMethods = [''RS256'', ''RS384'', ''RS512'', ''PS256'', ''PS384'', ''PS512'', ''ES256'', ''ES384'', ''ES512'']"

record TokenInfo =
  ti_Scopes :: "string list"
  ti_Expiration :: gotime
  ti_UserID :: string
  ti_issuer :: string
  ti_audience :: string

definition token_info :: "Verifier \<Rightarrow> token_claims \<Rightarrow> verify_error + TokenInfo" where
  "token_info v claims =
     (case vc_exp claims of
        None \<Rightarrow> Inl ErrNoExpiration
      | Some ex \<Rightarrow>
          (case vc_sub claims of
             None \<Rightarrow> Inl ErrNoSubject
           | Some sub \<Rightarrow>
               if trim_space sub = [] then Inl ErrNoSubject
               else if vf_allowed v \<noteq> [] \<and> sub \<notin> set (vf_allowed v) then Inl ErrSubjectNotAllowed
               else Inr \<lparr>ti_Scopes = extractScopes claims, ti_Expiration = ex, ti_UserID = sub,
                         ti_issuer = vf_issuer v, ti_audience = vf_audience v\<rparr>))"

definition Verify :: "oauth_lib \<Rightarrow> jwt_lib \<Rightarrow> gotime \<Rightarrow> jwks_reply \<Rightarrow> string \<Rightarrow> Verifier \<Rightarrow> Verifier \<times> (verify_error + TokenInfo)" where
  "Verify lib jl now reply tok v =
     (case jl_header jl tok of
        None \<Rightarrow> (v, Inl ErrMalformed)
      | Some (kid, alg) \<Rightarrow>
          if alg \<notin> set validMethods then (v, Inl ErrAlgorithm)
          else if kid = [] then (v, Inl ErrNoKid)
          else case verifier_key lib now reply kid v of
            (v, Inl e, _) \<Rightarrow> (v, Inl e)
          | (v, Inr key, _) \<Rightarrow>
              if sk_Alg key \<noteq> [] \<and> sk_Alg key \<noteq> alg then (v, Inl ErrKeyAlgorithm)
              else (v, case jl_check jl (vf_issuer v) (vf_audience v) (30 * seconds) now (sk_Key key) tok of
                         None \<Rightarrow> Inl ErrTokenInvalid
                       | Some claims \<Rightarrow> token_info v claims))"

section \<open>The published key\<close>

definition key_id :: "as_lib \<Rightarrow> nat \<Rightarrow> string" where
  "key_id lib n = ''cb-'' @ take 10 (base64url lib (be_bytes n))"

definition JWKS :: "as_lib \<Rightarrow> nat \<Rightarrow> nat \<Rightarrow> jwk list" where
  "JWKS lib n e =
     [\<lparr>jk_Kid = key_id lib n, jk_Kty = ''RSA'', jk_Alg = ''RS256'', jk_Use = ''sig'', jk_N = base64url lib (be_bytes n),
       jk_E = base64url lib (be_bytes e), jk_Crv = [], jk_X = [], jk_Y = []\<rparr>]"

end
