(* ===== verification/OAuthProperties.thy ===== *)
theory OAuthProperties
  imports OAuthVerifier
begin

text \<open>
  What the verifier guarantees of the tokens it accepts, how its key cache behaves, and that it accepts the tokens of
  the embedded authorization server.
\<close>

section \<open>The key cache\<close>

lemma refresh_keys_ok:
  "refresh_keys lib now reply v = Inr v' \<Longrightarrow>
     (\<exists>items. reply = JWKSDoc items \<and> vf_keys v' = usable_keys lib items) \<and> vf_fetchedAt v' = now \<and>
     vf_issuer v' = vf_issuer v \<and> vf_audience v' = vf_audience v \<and> vf_allowed v' = vf_allowed v"
  by (auto simp: refresh_keys_def Let_def split: jwks_reply.splits if_splits)

text \<open>
  The key cache. A key is used only if it belongs to a key set that was fetched at most fifteen minutes ago; the
  key set is fetched only for a known key that is older, or for an unknown one when the last successful fetch is more
  than thirty seconds ago; a fetch that fails keeps the cache as it was and the token is refused.
\<close>

theorem key_cache:
  assumes "verifier_key lib now reply kid v = (v', res, fetched)"
  shows "(\<forall>k. res = Inr k \<longrightarrow> map_of (vf_keys v') kid = Some k \<and> now - vf_fetchedAt v' \<le> cacheTTL) \<and>
    (fetched \<longleftrightarrow> (case map_of (vf_keys v) kid of None \<Rightarrow> now - vf_fetchedAt v > 30 * seconds | Some _ \<Rightarrow> now - vf_fetchedAt v > cacheTTL)) \<and>
    (v' = v \<or> fetched \<and> refresh_keys lib now reply v = Inr v' \<and> vf_fetchedAt v' = now) \<and>
    (\<forall>e. fetched \<longrightarrow> refresh_keys lib now reply v = Inl e \<longrightarrow> v' = v \<and> res = Inl e)"
  using assms refresh_keys_ok [of lib now reply v]
  by (auto simp: verifier_key_def Let_def split: if_splits sum.splits option.splits)

section \<open>Accepted tokens\<close>

text \<open>
  What the verifier relies on: the JWT library returns claims only when the token is signed with the key, names the
  issuer and the audience, and has an expiration that has not passed, with the leeway.
\<close>

definition jwt_sound :: "(verification_key \<Rightarrow> string \<Rightarrow> token_claims \<Rightarrow> bool) \<Rightarrow> jwt_lib \<Rightarrow> bool" where
  "jwt_sound sig_ok jl \<longleftrightarrow> (\<forall>iss aud leeway now key tok claims. jl_check jl iss aud leeway now key tok = Some claims \<longrightarrow>
     sig_ok key tok claims \<and> vc_iss claims = iss \<and> aud \<in> set (vc_aud claims) \<and> (\<exists>ex. vc_exp claims = Some ex \<and> now < ex + leeway))"

lemma dedupe_spec: "distinct (dedupe seen ss) \<and> set (dedupe seen ss) = set ss - set seen - {[]}"
  by (induction ss arbitrary: seen) auto

lemma dedupe_id: "distinct ss \<Longrightarrow> [] \<notin> set ss \<Longrightarrow> set ss \<inter> set seen = {} \<Longrightarrow> dedupe seen ss = ss"
  by (induction ss arbitrary: seen) auto

text \<open>
  (C31) A token that is accepted was signed with a key of the configured key set, fetched within fifteen minutes, under
  that key's algorithm; it names the configured issuer and audience and has not expired beyond the leeway; its subject
  is not blank and, when a list is configured, on the list. The caller is that subject, with the scopes of the token,
  each once.
\<close>

theorem verify_sound:
  assumes "jwt_sound sig_ok jl" and "Verify lib jl now reply tok v = (v', Inr info)"
  shows "\<exists>kid alg key claims ex.
    jl_header jl tok = Some (kid, alg) \<and> alg \<in> set validMethods \<and>
    map_of (vf_keys v') kid = Some key \<and> now - vf_fetchedAt v' \<le> cacheTTL \<and> (sk_Alg key = [] \<or> sk_Alg key = alg) \<and>
    sig_ok (sk_Key key) tok claims \<and> vc_iss claims = vf_issuer v \<and> vf_audience v \<in> set (vc_aud claims) \<and>
    vc_exp claims = Some ex \<and> now < ex + 30 * seconds \<and> ti_Expiration info = ex \<and>
    vc_sub claims = Some (ti_UserID info) \<and> trim_space (ti_UserID info) \<noteq> [] \<and>
    (vf_allowed v = [] \<or> ti_UserID info \<in> set (vf_allowed v)) \<and>
    distinct (ti_Scopes info) \<and> set (ti_Scopes info) = set (appendScope (vc_scope claims) @ appendScope (vc_scp claims)) - {[]}"
proof -
  obtain kid alg where hd: "jl_header jl tok = Some (kid, alg)" "alg \<in> set validMethods" "kid \<noteq> []"
    using assms(2) by (auto simp: Verify_def split: option.splits prod.splits if_splits)
  obtain v1 res fetched where k: "verifier_key lib now reply kid v = (v1, res, fetched)" by (metis prod_cases3)
  obtain key where key: "res = Inr key" using assms(2) hd k by (cases res) (auto simp: Verify_def)
  have alg: "sk_Alg key = [] \<or> sk_Alg key = alg" and v': "v' = v1"
    using assms(2) hd k key by (auto simp: Verify_def split: if_splits)
  obtain claims where cl: "jl_check jl (vf_issuer v1) (vf_audience v1) (30 * seconds) now (sk_Key key) tok = Some claims" "token_info v1 claims = Inr info"
    using assms(2) hd k key alg by (auto simp: Verify_def split: if_splits option.splits)
  have cache: "map_of (vf_keys v1) kid = Some key" "now - vf_fetchedAt v1 \<le> cacheTTL" "v1 = v \<or> refresh_keys lib now reply v = Inr v1"
    using key_cache [OF k] key by auto
  then have same: "vf_issuer v1 = vf_issuer v" "vf_audience v1 = vf_audience v" "vf_allowed v1 = vf_allowed v" using refresh_keys_ok by auto
  obtain ex where ex: "sig_ok (sk_Key key) tok claims" "vc_iss claims = vf_issuer v" "vf_audience v \<in> set (vc_aud claims)" "vc_exp claims = Some ex" "now < ex + 30 * seconds"
    using assms(1) cl(1) unfolding jwt_sound_def same by blast
  have "ti_Expiration info = ex" "vc_sub claims = Some (ti_UserID info)" "trim_space (ti_UserID info) \<noteq> []"
    "vf_allowed v = [] \<or> ti_UserID info \<in> set (vf_allowed v)" "ti_Scopes info = extractScopes claims"
    using cl(2) ex(4) same(3) by (auto simp: token_info_def split: option.splits if_splits)
  then show ?thesis using hd cache alg ex v' dedupe_spec [of "[]"] by (simp add: extractScopes_def) blast
qed

section \<open>Scopes as text\<close>

text \<open>The characters of a scope in RFC 6749: printable ASCII.\<close>

definition plain_word :: "string \<Rightarrow> bool" where
  "plain_word w \<longleftrightarrow> w \<noteq> [] \<and> (\<forall>c \<in> set w. 33 \<le> (of_char c :: nat) \<and> (of_char c :: nat) < 127)"

lemma ws_front_plain: "33 \<le> (of_char c :: nat) \<Longrightarrow> (of_char c :: nat) < 127 \<Longrightarrow> ws_front (c # s) = 0"
proof -
  assume c: "33 \<le> (of_char c :: nat)" "(of_char c :: nat) < 127"
  have heads: "\<forall>w \<in> set ws_encodings. w \<noteq> [] \<and> ((of_char (hd w) :: nat) < 33 \<or> (of_char (hd w) :: nat) \<ge> 127)"
    by (simp add: ws_encodings_def of_char_def)
  have "\<not> has_prefix (c # s) w" if w: "w \<in> set ws_encodings" for w
  proof
    assume "has_prefix (c # s) w"
    then have "hd w = c" using heads w by (cases w) (auto simp: has_prefix_def)
    then show False using heads w c by force
  qed
  then have "find (\<lambda>w. has_prefix (c # s) w) ws_encodings = None" by (simp add: find_None_iff)
  then show ?thesis by (simp add: ws_front_def)
qed

lemma ws_front_space: "ws_front (CHR '' '' # s) = 1"
  by (simp add: ws_front_def ws_encodings_def has_prefix_def)

lemma fields_word:
  "\<forall>c \<in> set w. 33 \<le> (of_char c :: nat) \<and> (of_char c :: nat) < 127 \<Longrightarrow> fields_from (w @ s) acc = fields_from s (rev w @ acc)"
  by (induction w arbitrary: acc) (simp_all add: fields_from.simps [of "_ # _"] ws_front_plain)

lemma fields_join: "\<forall>w \<in> set ws. plain_word w \<Longrightarrow> Prelude.fields (join_char (CHR '' '') ws) = ws"
proof (induction ws rule: induct_list012)
  case (2 p)
  then show ?case using fields_word [of p "[]" "[]"] by (simp add: Prelude.fields_def plain_word_def fields_from.simps [of "[]"])
next
  case (3 p q ps)
  let ?rest = "join_char (CHR '' '') (q # ps)"
  have "Prelude.fields (p @ CHR '' '' # ?rest) = p # Prelude.fields ?rest"
    using fields_word [of p "CHR '' '' # ?rest" "[]"] "3.prems"
    by (simp add: Prelude.fields_def plain_word_def fields_from.simps [of "CHR '' '' # _"] ws_front_space)
  then show ?case using 3 by simp
qed (simp_all add: Prelude.fields_def fields_from.simps [of "[]"])

section \<open>Tokens of the embedded server\<close>

lemma be_nat_snoc: "be_nat (bs @ [c]) = be_nat bs * 256 + of_char c"
  by (simp add: be_nat_def)

lemma be_roundtrip: "be_nat (be_bytes n) = n"
proof (induction n rule: be_bytes.induct)
  case (1 n)
  show ?case
  proof (cases "n = 0")
    case True
    then show ?thesis by (simp add: be_bytes.simps be_nat_def)
  next
    case False
    have "(of_char (char_of (n mod 256) :: char) :: nat) = n mod 256" by simp
    then show ?thesis using 1 False by (simp add: be_bytes.simps [of n] be_nat_snoc)
  qed
qed

lemma be_bytes_nonempty: "n > 0 \<Longrightarrow> be_bytes n \<noteq> []"
  by (simp add: be_bytes.simps [of n])

text \<open>
  The standard exponent, and the published key read back.
\<close>

abbreviation exponent :: nat where "exponent \<equiv> 65537"

lemma exponent_bytes: "length (be_bytes exponent) \<le> 4" "be_bytes exponent \<noteq> []"
  by (simp_all add: be_bytes.simps)

lemma published_key:
  assumes "\<forall>x. ol_decode ol (base64url lib x) = Some x" and "n > 0"
  shows "usable_keys ol (JWKS lib n exponent) = [(key_id lib n, \<lparr>sk_Key = RSAKey n exponent, sk_Alg = ''RS256''\<rparr>)]"
  using assms exponent_bytes be_bytes_nonempty [of n]
  by (simp add: usable_keys_def JWKS_def parseJWK_def be_roundtrip Let_def) (simp add: key_id_def)

lemma published_key_found:
  assumes "\<forall>x. ol_decode ol (base64url lib x) = Some x" and "n > 0"
    and keys: "map_of (vf_keys v) (key_id lib n) = None \<and> now - vf_fetchedAt v > 30 * seconds \<or>
      map_of (vf_keys v) (key_id lib n) = Some \<lparr>sk_Key = RSAKey n exponent, sk_Alg = ''RS256''\<rparr>"
  shows "\<exists>v1 fetched. verifier_key ol now (JWKSDoc (JWKS lib n exponent)) (key_id lib n) v =
      (v1, Inr \<lparr>sk_Key = RSAKey n exponent, sk_Alg = ''RS256''\<rparr>, fetched) \<and>
    vf_issuer v1 = vf_issuer v \<and> vf_audience v1 = vf_audience v \<and> vf_allowed v1 = vf_allowed v"
proof -
  have r: "refresh_keys ol now (JWKSDoc (JWKS lib n exponent)) v =
      Inr (v\<lparr>vf_keys := [(key_id lib n, \<lparr>sk_Key = RSAKey n exponent, sk_Alg = ''RS256''\<rparr>)], vf_fetchedAt := now\<rparr>)"
    using published_key [OF assms(1,2)] by (simp add: refresh_keys_def)
  show ?thesis
  proof (cases "map_of (vf_keys v) (key_id lib n) \<noteq> None \<and> now - vf_fetchedAt v \<le> cacheTTL")
    case True
    then show ?thesis using keys by (auto simp: verifier_key_def)
  next
    case False
    then show ?thesis using keys r by (auto simp: verifier_key_def)
  qed
qed

definition claims_view :: "access_claims \<Rightarrow> token_claims" where
  "claims_view c = \<lparr>vc_iss = cl_iss c, vc_sub = Some (cl_sub c), vc_aud = [cl_aud c], vc_exp = Some (cl_exp c * seconds),
     vc_scope = map_option ClaimString (cl_scope c), vc_scp = None\<rparr>"

text \<open>
  What the two sides rely on: a token that the library signs has the key identifier and the algorithm in its header, and
  is accepted with the public key while it is valid for issuer, audience and time.
\<close>

definition jwt_agrees :: "as_lib \<Rightarrow> jwt_lib \<Rightarrow> nat \<Rightarrow> bool" where
  "jwt_agrees lib jl n \<longleftrightarrow> (\<forall>c tok. jwt_sign lib c = Some tok \<longrightarrow> jl_header jl tok = Some (key_id lib n, ''RS256'') \<and>
     (\<forall>leeway now. cl_nbf c * seconds \<le> now + leeway \<longrightarrow> now < cl_exp c * seconds + leeway \<longrightarrow>
        jl_check jl (cl_iss c) (cl_aud c) leeway now (RSAKey n exponent) tok = Some (claims_view c)))"

lemma seconds_bounds: "unix_seconds t * seconds \<le> t" "t < unix_seconds t * seconds + seconds"
  by (simp_all add: unix_seconds_def)

text \<open>
  (C32) The verifier accepts the tokens of the embedded server that are meant for it. Let the verifier have the server's issuer,
  and its audience be the resource of the token (the server issues tokens for any resource); let the subject be one it
  allows and the scopes be distinct words. Then the token is accepted for an hour and yields this subject and these
  scopes, provided the verifier has the key in its cache or last fetched keys more than 30 seconds ago, so that it
  fetches the key set that the server publishes.
\<close>

theorem issued_token_accepted:
  assumes tok: "signAccessToken lib t jti client u resource scopes sv = (claims, Some tok)"
    and libs: "jwt_agrees lib jl n" "\<forall>x. ol_decode ol (base64url lib x) = Some x" "n > 0"
    and cfg: "vf_issuer v = cf_Issuer (sv_cfg sv)" "vf_audience v = resource" "vf_allowed v = [] \<or> u \<in> set (vf_allowed v)" "trim_space u \<noteq> []"
    and time: "t \<le> now" "now \<le> t + accessTokenTTL"
    and keys: "map_of (vf_keys v) (key_id lib n) = None \<and> now - vf_fetchedAt v > 30 * seconds \<or>
      map_of (vf_keys v) (key_id lib n) = Some \<lparr>sk_Key = RSAKey n exponent, sk_Alg = ''RS256''\<rparr>"
    and scopes: "distinct scopes" "\<forall>w \<in> set scopes. plain_word w"
  shows "snd (Verify ol jl now (JWKSDoc (JWKS lib n exponent)) tok v) =
    Inr \<lparr>ti_Scopes = scopes, ti_Expiration = unix_seconds (t + accessTokenTTL) * seconds, ti_UserID = u,
         ti_issuer = vf_issuer v, ti_audience = vf_audience v\<rparr>"
proof -
  let ?key = "\<lparr>sk_Key = RSAKey n exponent, sk_Alg = ''RS256''\<rparr>"
  have c: "cl_iss claims = vf_issuer v" "cl_aud claims = vf_audience v" "cl_sub claims = u" "cl_nbf claims = unix_seconds t"
    "cl_exp claims = unix_seconds (t + accessTokenTTL)" "cl_scope claims = (if scopes = [] then None else Some (join_char (CHR '' '') scopes))"
    "jwt_sign lib claims = Some tok"
    using tok cfg by (auto simp: signAccessToken_def Let_def)
  have hd: "jl_header jl tok = Some (key_id lib n, ''RS256'')" using libs(1) c(7) by (auto simp: jwt_agrees_def)
  have "cl_nbf claims * seconds \<le> now + 30 * seconds" "now < cl_exp claims * seconds + 30 * seconds"
    using seconds_bounds [of t] seconds_bounds [of "t + accessTokenTTL"] time c(4,5) by linarith+
  then have check: "jl_check jl (vf_issuer v) (vf_audience v) (30 * seconds) now (RSAKey n exponent) tok = Some (claims_view claims)"
    using libs(1) c unfolding jwt_agrees_def by metis
  obtain v1 fetched where k: "verifier_key ol now (JWKSDoc (JWKS lib n exponent)) (key_id lib n) v = (v1, Inr ?key, fetched)"
    and v1: "vf_issuer v1 = vf_issuer v" "vf_audience v1 = vf_audience v" "vf_allowed v1 = vf_allowed v"
    using published_key_found [OF libs(2,3) keys] by blast
  have "extractScopes (claims_view claims) = scopes"
    using scopes fields_join [OF scopes(2)] dedupe_id [OF scopes(1)] c(6)
    by (auto simp: extractScopes_def claims_view_def appendScope_def plain_word_def)
  then have "token_info v1 (claims_view claims) = Inr \<lparr>ti_Scopes = scopes, ti_Expiration = unix_seconds (t + accessTokenTTL) * seconds, ti_UserID = u,
         ti_issuer = vf_issuer v, ti_audience = vf_audience v\<rparr>"
    using cfg c v1 by (auto simp: token_info_def) (simp_all add: claims_view_def)
  then show ?thesis using hd k check v1 by (simp add: Verify_def validMethods_def key_id_def)
qed

section \<open>A token\<close>

definition token_server :: AS_Server where
  "token_server = \<lparr>sv_cfg = \<lparr>cf_Issuer = ''https://cb'', cf_Resource = ''https://cb'', cf_Users = [(''alice'', ''pw'')]\<rparr>,
     sv_codes = [], sv_sessions = [], sv_refresh = [], sv_dcrClients = []\<rparr>"

definition sample_claims :: access_claims where
  "sample_claims = \<lparr>cl_iss = ''https://cb'', cl_sub = ''alice'', cl_aud = ''https://cb'', cl_iat = 0, cl_nbf = 0, cl_exp = 3600, cl_jti = ''j'',
     cl_scope = Some ''codebridge.read'', cl_client_id = Some ''cb-x''\<rparr>"

definition signing_lib :: as_lib where
  "signing_lib = \<lparr>bcrypt_ok = (=), sha256 = id, base64url = id,
     url_Parse = (\<lambda>s. Some \<lparr>ur_Scheme = ''https'', ur_Hostname = ''app'', ur_Path = s\<rparr>),
     jwt_sign = (\<lambda>c. if c = sample_claims then Some ''tok'' else None)\<rparr>"

definition sample_jwt :: jwt_lib where
  "sample_jwt = \<lparr>jl_header = (\<lambda>tok. Some (key_id signing_lib 5, ''RS256'')),
     jl_check = (\<lambda>iss aud leeway now key tok.
       if tok = ''tok'' \<and> key = RSAKey 5 exponent \<and> iss = ''https://cb'' \<and> aud = ''https://cb'' \<and> now < 3600 * seconds + leeway
       then Some (claims_view sample_claims) else None)\<rparr>"

definition sample_oauth :: oauth_lib where
  "sample_oauth = \<lparr>ol_decode = Some, ol_on_curve = (\<lambda>c x y. False),
     ol_url = (\<lambda>s. Some \<lparr>ur_Scheme = ''https'', ur_Hostname = ''cb'', ur_Path = []\<rparr>), ol_ip_loopback = (\<lambda>h. False)\<rparr>"

definition sample_verifier :: Verifier where
  "sample_verifier = \<lparr>vf_issuer = ''https://cb'', vf_audience = ''https://cb'', vf_jwksURL = ''https://cb/jwks.json'', vf_allowed = [],
     vf_keys = [], vf_fetchedAt = zero_time\<rparr>"

definition sample_info :: TokenInfo where
  "sample_info = \<lparr>ti_Scopes = [''codebridge.read''], ti_Expiration = 3600 * seconds, ti_UserID = ''alice'',
     ti_issuer = ''https://cb'', ti_audience = ''https://cb''\<rparr>"

lemma alice_trim: "trim_space ''alice'' = ''alice''"
  by code_simp

lemma sample_signed:
  "signAccessToken signing_lib 0 ''j'' ''cb-x'' ''alice'' ''https://cb'' [''codebridge.read''] token_server = (sample_claims, Some ''tok'')"
  by (simp add: signAccessToken_def signing_lib_def token_server_def sample_claims_def unix_seconds_def)

lemma sample_agrees: "jwt_agrees signing_lib sample_jwt 5"
  by (simp add: jwt_agrees_def sample_jwt_def) (simp add: signing_lib_def sample_claims_def)

lemma sample_sound: "jwt_sound (\<lambda>key tok claims. tok = ''tok'') sample_jwt"
  by (auto simp: jwt_sound_def sample_jwt_def claims_view_def sample_claims_def split: if_splits)

lemma issued_token_accepted_witness:
  "snd (Verify sample_oauth sample_jwt 5 (JWKSDoc (JWKS signing_lib 5 exponent)) ''tok'' sample_verifier) = Inr sample_info"
proof -
  have "\<forall>x. ol_decode sample_oauth (base64url signing_lib x) = Some x" by (simp add: sample_oauth_def signing_lib_def)
  moreover have "\<forall>w \<in> set [''codebridge.read'']. plain_word w" by (simp add: plain_word_def)
  ultimately show ?thesis
    using issued_token_accepted [OF sample_signed sample_agrees, of sample_oauth sample_verifier 5] alice_trim
    by (simp add: sample_verifier_def token_server_def zero_time_def sample_info_def unix_seconds_def)
qed

lemma sample_accepted:
  "\<exists>v'. Verify sample_oauth sample_jwt 5 (JWKSDoc (JWKS signing_lib 5 exponent)) ''tok'' sample_verifier = (v', Inr sample_info)"
proof -
  have keys: "\<forall>x. ol_decode sample_oauth (base64url signing_lib x) = Some x" by (simp add: sample_oauth_def signing_lib_def)
  have none: "map_of (vf_keys sample_verifier) (key_id signing_lib 5) = None \<and> 5 - vf_fetchedAt sample_verifier > 30 * seconds"
    by (simp add: sample_verifier_def zero_time_def)
  obtain v1 fetched where "verifier_key sample_oauth 5 (JWKSDoc (JWKS signing_lib 5 exponent)) (key_id signing_lib 5) sample_verifier =
      (v1, Inr \<lparr>sk_Key = RSAKey 5 exponent, sk_Alg = ''RS256''\<rparr>, fetched)"
    and v1: "vf_issuer v1 = vf_issuer sample_verifier" "vf_audience v1 = vf_audience sample_verifier" "vf_allowed v1 = vf_allowed sample_verifier"
    using published_key_found [OF keys, of 5 sample_verifier 5] none by (metis zero_less_numeral)
  moreover have "vf_issuer sample_verifier = ''https://cb''" "vf_audience sample_verifier = ''https://cb''" "vf_allowed sample_verifier = []"
    by (simp_all add: sample_verifier_def)
  moreover have "extractScopes (claims_view sample_claims) = [''codebridge.read'']"
    using fields_join [of "[''codebridge.read'']"] by (simp add: extractScopes_def claims_view_def sample_claims_def appendScope_def plain_word_def)
  ultimately show ?thesis using alice_trim
    by (simp add: Verify_def sample_jwt_def validMethods_def key_id_def token_info_def sample_info_def)
      (simp add: claims_view_def sample_claims_def)
qed

lemma verify_sound_witness:
  "\<exists>v' kid alg key. \<exists>claims :: token_claims.
     Verify sample_oauth sample_jwt 5 (JWKSDoc (JWKS signing_lib 5 exponent)) ''tok'' sample_verifier = (v', Inr sample_info) \<and>
     map_of (vf_keys v') kid = Some key \<and> alg \<in> set validMethods \<and> vc_sub claims = Some ''alice''"
proof -
  obtain v' where v': "Verify sample_oauth sample_jwt 5 (JWKSDoc (JWKS signing_lib 5 exponent)) ''tok'' sample_verifier = (v', Inr sample_info)"
    using sample_accepted by blast
  have user: "ti_UserID sample_info = ''alice''" by (simp add: sample_info_def)
  show ?thesis using verify_sound [OF sample_sound v'] v' unfolding user by (elim exE conjE) (intro exI conjI, assumption+)
qed

lemma key_cache_witness:
  "verifier_key sample_oauth 5 JWKSUnreachable ''x'' (sample_verifier\<lparr>vf_fetchedAt := 0\<rparr>) = (sample_verifier\<lparr>vf_fetchedAt := 0\<rparr>, Inl ErrNoKey, False) \<and>
   snd (snd (verifier_key sample_oauth 5 JWKSUnreachable ''x'' sample_verifier))"
  using key_cache [of sample_oauth 5 JWKSUnreachable "''x''" sample_verifier]
  by (simp add: verifier_key_def sample_verifier_def zero_time_def refresh_keys_def)

end
