(* ===== verification/ToolOutput.thy ===== *)
theory ToolOutput
  imports Registry Text
begin

text \<open>
  The manager's tools (\<open>internal/manager\<close>): the declared output schemas and the shaping of a client's answer
  (\<open>tool_output.go\<close>), the table of built-in tools with the arguments that each forwards (\<open>mcp_tools.go\<close>) and the
  forwarding of a call (\<open>mcp_invoke.go\<close>).

  A JSON value is a \<open>json\<close>; a number is an \<open>int\<close>, since the tools use no other. Go values that are encoded by one
  process and decoded by the other are written as the value they encode to. The descriptions in a schema have no
  bearing on what it accepts and are left out.
\<close>

section \<open>JSON values and schemas\<close>

datatype json = JNull | JBool bool | JInt int | JStr string | JArr "json list" | JObj "(string \<times> json) list"

datatype schema =
    SString
  | SBool
  | SInt
  | SEnum "string list"
  | SObject "(string \<times> schema) list" "string list"
  | SArray schema

text \<open>
  What a JSON schema accepts, for the keywords \<open>type\<close>, \<open>enum\<close>, \<open>properties\<close>, \<open>required\<close> and \<open>items\<close>; an object
  may have properties that the schema does not name.
\<close>

fun conforms :: "schema \<Rightarrow> json \<Rightarrow> bool" where
  "conforms SString v = (case v of JStr s \<Rightarrow> True | _ \<Rightarrow> False)"
| "conforms SBool v = (case v of JBool b \<Rightarrow> True | _ \<Rightarrow> False)"
| "conforms SInt v = (case v of JInt n \<Rightarrow> True | _ \<Rightarrow> False)"
| "conforms (SEnum values) v = (case v of JStr s \<Rightarrow> s \<in> set values | _ \<Rightarrow> False)"
| "conforms (SObject props required) v =
     (case v of
        JObj kvs \<Rightarrow>
          list_all (\<lambda>k. map_of kvs k \<noteq> None) required \<and>
          list_all (\<lambda>p. case map_of kvs (fst p) of None \<Rightarrow> True | Some x \<Rightarrow> conforms (snd p) x) props
      | _ \<Rightarrow> False)"
| "conforms (SArray item) v = (case v of JArr xs \<Rightarrow> list_all (conforms item) xs | _ \<Rightarrow> False)"

text \<open>The fields of an encoded struct: those with \<open>omitempty\<close> are left out when they are zero.\<close>

definition omit_str :: "string \<Rightarrow> string \<Rightarrow> (string \<times> json) list" where
  "omit_str k s = (if s = [] then [] else [(k, JStr s)])"

definition omit_int :: "string \<Rightarrow> int \<Rightarrow> (string \<times> json) list" where
  "omit_int k n = (if n = 0 then [] else [(k, JInt n)])"

definition omit_bool :: "string \<Rightarrow> bool \<Rightarrow> (string \<times> json) list" where
  "omit_bool k b = (if b then [(k, JBool b)] else [])"

lemma map_of_omit [simp]:
  "map_of (omit_str k s) j = (if j = k \<and> s \<noteq> [] then Some (JStr s) else None)"
  "map_of (omit_int k n) j = (if j = k \<and> n \<noteq> 0 then Some (JInt n) else None)"
  "map_of (omit_bool k b) j = (if j = k \<and> b then Some (JBool b) else None)"
  by (simp_all add: omit_str_def omit_int_def omit_bool_def)

section \<open>The declared schemas\<close>

definition schemaStringArray :: schema where
  "schemaStringArray = SArray SString"

definition workspaceOutputSchema :: schema where
  "workspaceOutputSchema = SObject [(''name'', SString), (''path'', SString), (''writable'', SBool)] [''name'']"

definition customToolOutputSchema :: schema where
  "customToolOutputSchema =
     SObject [(''name'', SString), (''description'', SString), (''tool'', SString), (''args'', SObject [] [])] [''name'', ''tool'']"

definition toolPolicyOutputSchema :: schema where
  "toolPolicyOutputSchema =
     SObject [(''enabled_tools'', schemaStringArray), (''disabled_tools'', schemaStringArray),
              (''custom_tools'', SArray customToolOutputSchema)] []"

definition deviceOutputSchema :: schema where
  "deviceOutputSchema =
     SObject [(''id'', SString), (''name'', SString), (''account_id'', SString), (''version'', SString), (''online'', SBool),
              (''connected_at'', SString), (''last_seen'', SString), (''workspaces'', SArray workspaceOutputSchema),
              (''tool_policy'', toolPolicyOutputSchema)]
       [''id'', ''name'', ''account_id'', ''version'', ''online'', ''connected_at'', ''last_seen'', ''workspaces'']"

definition dirEntryOutputSchema :: schema where
  "dirEntryOutputSchema =
     SObject [(''name'', SString), (''path'', SString), (''type'', SEnum [''file'', ''dir'', ''symlink'']), (''size'', SInt)]
       [''name'', ''path'', ''type'']"

definition patchSummaryOutputSchema :: schema where
  "patchSummaryOutputSchema = SObject [(''path'', SString), (''action'', SString)] [''path'', ''action'']"

definition patchOutputSchema :: schema where
  "patchOutputSchema =
     SObject [(''applied'', SBool), (''preview'', SBool), (''diff'', SString), (''files'', SArray patchSummaryOutputSchema),
              (''checkpoint_id'', SString), (''message'', SString)]
       [''applied'', ''files'']"

definition rollbackOutputSchema :: schema where
  "rollbackOutputSchema =
     SObject [(''rolled_back'', SBool), (''checkpoint_id'', SString), (''restored_files'', schemaStringArray),
              (''removed_files'', schemaStringArray)]
       [''rolled_back'', ''checkpoint_id'', ''restored_files'']"

definition bashOutputSchema :: schema where
  "bashOutputSchema =
     SObject [(''command'', SString), (''output'', SString), (''truncated'', SBool), (''error'', SString), (''exit_code'', SInt)]
       [''command'', ''output'', ''truncated'']"

definition agentCatalogEntryOutputSchema :: schema where
  "agentCatalogEntryOutputSchema =
     SObject [(''name'', SString), (''description'', SString), (''client'', SString), (''agent'', SString), (''model'', SString),
              (''thinking'', SString), (''timeout_seconds'', SInt), (''tab'', SString)]
       [''name'']"

definition agentOutputSchema :: schema where
  "agentOutputSchema =
     SObject [(''client'', SString), (''agent'', SString), (''model'', SString), (''thinking'', SString), (''task'', SString),
              (''status'', SString), (''output'', SString), (''events'', SInt), (''elapsed'', SString)]
       [''client'', ''task'', ''status'', ''output'', ''events'', ''elapsed'']"

definition agentRunStatusValues :: "string list" where
  "agentRunStatusValues =
     [''queued'', ''running'', ''completed'', ''failed'', ''cancelled'', ''timeout'', ''interrupted'']"

definition agentStartOutputSchema :: schema where
  "agentStartOutputSchema =
     SObject [(''run_id'', SString), (''status'', SEnum [''queued'', ''running'']), (''client'', SString), (''agent'', SString),
              (''model'', SString), (''thinking'', SString), (''workspace'', SString), (''started_at'', SString)]
       [''run_id'', ''status'']"

definition agentStatusOutputSchema :: schema where
  "agentStatusOutputSchema =
     SObject [(''run_id'', SString), (''status'', SEnum agentRunStatusValues), (''client'', SString), (''agent'', SString),
              (''model'', SString), (''thinking'', SString), (''workspace'', SString), (''started_at'', SString),
              (''elapsed_ms'', SInt), (''event_count'', SInt), (''last_event'', SString)]
       [''run_id'', ''status'']"

definition agentResultOutputSchema :: schema where
  "agentResultOutputSchema =
     SObject [(''run_id'', SString), (''status'', SEnum agentRunStatusValues), (''output'', SString), (''error'', SString),
              (''elapsed_ms'', SInt), (''finished_at'', SString)]
       [''run_id'', ''status'']"

definition agentCancelOutputSchema :: schema where
  "agentCancelOutputSchema =
     SObject [(''run_id'', SString), (''status'', SEnum agentRunStatusValues), (''cancelled'', SBool)]
       [''run_id'', ''status'', ''cancelled'']"

definition agentRunRowOutputSchema :: schema where
  "agentRunRowOutputSchema =
     SObject [(''run_id'', SString), (''status'', SEnum agentRunStatusValues), (''workspace'', SString), (''client'', SString),
              (''agent'', SString), (''started_at'', SString), (''elapsed_ms'', SInt), (''event_count'', SInt)]
       [''run_id'', ''status'']"

definition agentRunsOutputSchema :: schema where
  "agentRunsOutputSchema = SObject [(''runs'', SArray agentRunRowOutputSchema), (''count'', SInt)] [''runs'', ''count'']"

definition permissionRuleOutputSchema :: schema where
  "permissionRuleOutputSchema =
     SObject [(''effect'', SString), (''tool'', SString), (''pattern'', SString), (''reason'', SString)] [''effect'', ''tool'']"

definition permissionGrantOutputSchema :: schema where
  "permissionGrantOutputSchema =
     SObject [(''request_id'', SString), (''granted'', SString), (''rule'', permissionRuleOutputSchema), (''message'', SString)]
       [''request_id'', ''granted'']"

definition toolOutputSchemas :: "(string \<times> schema) list" where
  "toolOutputSchemas =
     [(''list_devices'', SObject [(''devices'', SArray deviceOutputSchema), (''count'', SInt)] [''devices'', ''count'']),
      (''list_workspaces'', SObject [(''workspaces'', SArray workspaceOutputSchema), (''count'', SInt)] [''workspaces'', ''count'']),
      (''list'', SObject [(''path'', SString), (''entries'', SArray dirEntryOutputSchema), (''count'', SInt)]
         [''path'', ''entries'', ''count'']),
      (''read'', SObject [(''path'', SString), (''content'', SString), (''truncated'', SBool), (''bytes_read'', SInt)]
         [''path'', ''content'', ''truncated'', ''bytes_read'']),
      (''write'', patchOutputSchema), (''edit'', patchOutputSchema), (''apply_patch'', patchOutputSchema),
      (''rollback_patch'', rollbackOutputSchema), (''bash'', bashOutputSchema),
      (''agents_list'', SObject [(''agents'', SArray agentCatalogEntryOutputSchema)] [''agents'']),
      (''agent'', agentOutputSchema), (''agent_start'', agentStartOutputSchema), (''agent_status'', agentStatusOutputSchema),
      (''agent_result'', agentResultOutputSchema), (''agent_cancel'', agentCancelOutputSchema),
      (''agent_runs'', agentRunsOutputSchema), (''permission_grant'', permissionGrantOutputSchema)]"

lemmas output_schemas = schemaStringArray_def workspaceOutputSchema_def dirEntryOutputSchema_def
  patchSummaryOutputSchema_def patchOutputSchema_def rollbackOutputSchema_def bashOutputSchema_def
  agentCatalogEntryOutputSchema_def agentOutputSchema_def agentRunStatusValues_def agentStartOutputSchema_def
  agentStatusOutputSchema_def agentResultOutputSchema_def agentCancelOutputSchema_def agentRunRowOutputSchema_def
  agentRunsOutputSchema_def permissionRuleOutputSchema_def permissionGrantOutputSchema_def

text \<open>The contract of a tool: the value is an answer that its declared schema accepts.\<close>

definition tool_accepts :: "string \<Rightarrow> json \<Rightarrow> bool" where
  "tool_accepts tool v = (case map_of toolOutputSchemas tool of None \<Rightarrow> False | Some s \<Rightarrow> conforms s v)"

section \<open>The answer of a client\<close>

datatype tool_error =
    ErrDeviceAndWorkspace
  | ErrToolCall call_error
  | ErrMalformedPayload string

definition arrayPayload :: "string \<Rightarrow> json \<Rightarrow> tool_error + json list" where
  "arrayPayload tool payload = (case payload of JArr items \<Rightarrow> Inr items | _ \<Rightarrow> Inl (ErrMalformedPayload tool))"

definition toolOutputPayload :: "string \<Rightarrow> string \<Rightarrow> json \<Rightarrow> tool_error + json" where
  "toolOutputPayload tool dirPath payload =
     (if tool = ''list'' then
        case arrayPayload tool payload of
          Inl e \<Rightarrow> Inl e
        | Inr entries \<Rightarrow>
            let dirPath = (if dirPath = [] then ''.'' else dirPath)
            in Inr (JObj [(''path'', JStr dirPath), (''entries'', JArr entries), (''count'', JInt (int (length entries)))])
      else if tool = ''rollback_patch'' then
        case payload of
          JObj object \<Rightarrow>
            Inr (JObj (map (\<lambda>(k, v). (k, if k = ''restored_files'' \<and> v = JNull then JArr [] else v)) object))
        | _ \<Rightarrow> Inr payload
      else Inr payload)"

text \<open>What the client sent: nothing, a JSON value, or text that is not JSON.\<close>

datatype raw_payload = RawEmpty | RawJson json | RawText string

definition stringArg :: "(string \<times> json) list \<Rightarrow> string \<Rightarrow> string \<Rightarrow> string" where
  "stringArg args key def = (case map_of args key of Some (JStr v) \<Rightarrow> v | _ \<Rightarrow> def)"

definition forward_result :: "string \<Rightarrow> (string \<times> json) list \<Rightarrow> call_error + raw_payload \<Rightarrow> tool_error + json" where
  "forward_result tool args r =
     (case r of
        Inl e \<Rightarrow> Inl (ErrToolCall e)
      | Inr raw \<Rightarrow>
          let out = (case raw of RawEmpty \<Rightarrow> JObj [(''ok'', JBool True)] | RawJson v \<Rightarrow> v | RawText s \<Rightarrow> JStr s)
          in toolOutputPayload tool (stringArg args ''path'' []) out)"

section \<open>The table of tools\<close>

record DeviceInput =
  DI_DeviceID :: string

record ReadInput =
  RI_DeviceID :: string
  RI_Workspace :: string
  RI_Path :: string
  RI_MaxBytes :: int

record EditInput =
  EI_DeviceID :: string
  EI_Workspace :: string
  EI_Path :: string
  EI_Content :: string
  EI_OldText :: string
  EI_NewText :: string
  EI_Preview :: bool
  EI_Confirm :: bool

record ListInput =
  LI_DeviceID :: string
  LI_Workspace :: string
  LI_Path :: string

record PatchEdit =
  PE_Path :: string
  PE_OldText :: string
  PE_NewText :: string

record ApplyPatchInput =
  AI_DeviceID :: string
  AI_Workspace :: string
  AI_Edits :: "PatchEdit list"
  AI_Preview :: bool
  AI_Confirm :: bool

record RollbackPatchInput =
  RB_DeviceID :: string
  RB_Workspace :: string
  RB_CheckpointID :: string

record BashInput =
  BI_DeviceID :: string
  BI_Workspace :: string
  BI_Command :: string

record AgentInput =
  AG_DeviceID :: string
  AG_Workspace :: string
  AG_Task :: string
  AG_Client :: string
  AG_Agent :: string
  AG_Model :: string
  AG_Thinking :: string
  AG_TimeoutSeconds :: int

text \<open>\<open>AgentStartInput\<close> has the fields of \<open>AgentInput\<close>.\<close>

type_synonym AgentStartInput = AgentInput

record AgentRunIDInput =
  RID_DeviceID :: string
  RID_Workspace :: string
  RID_RunID :: string

record AgentRunsInput =
  ARI_DeviceID :: string
  ARI_Workspace :: string
  ARI_Limit :: int

record PermissionGrantInput =
  PG_DeviceID :: string
  PG_Workspace :: string
  PG_RequestID :: string
  PG_Decision :: string

text \<open>What a tool passes to \<open>forward\<close>.\<close>

record forwarded =
  fw_DeviceID :: string
  fw_Workspace :: string
  fw_Tool :: string
  fw_Args :: "(string \<times> json) list"

definition tool_list :: "ListInput \<Rightarrow> forwarded" where
  "tool_list i =
     (let path = (if LI_Path i = [] then ''.'' else LI_Path i)
      in \<lparr>fw_DeviceID = LI_DeviceID i, fw_Workspace = LI_Workspace i, fw_Tool = ''list'', fw_Args = [(''path'', JStr path)]\<rparr>)"

definition tool_read :: "ReadInput \<Rightarrow> forwarded" where
  "tool_read i =
     (let maxBytes = (if RI_MaxBytes i \<le> 0 then 256 * 1024 else RI_MaxBytes i)
      in \<lparr>fw_DeviceID = RI_DeviceID i, fw_Workspace = RI_Workspace i, fw_Tool = ''read'',
          fw_Args = [(''path'', JStr (RI_Path i)), (''max_bytes'', JInt maxBytes)]\<rparr>)"

definition tool_edit :: "EditInput \<Rightarrow> forwarded" where
  "tool_edit i =
     \<lparr>fw_DeviceID = EI_DeviceID i, fw_Workspace = EI_Workspace i, fw_Tool = ''edit'',
      fw_Args = [(''path'', JStr (EI_Path i)), (''old_text'', JStr (EI_OldText i)), (''new_text'', JStr (EI_NewText i)),
                 (''preview'', JBool (EI_Preview i)), (''confirm'', JBool (EI_Confirm i))]\<rparr>"

definition tool_write :: "EditInput \<Rightarrow> forwarded" where
  "tool_write i =
     \<lparr>fw_DeviceID = EI_DeviceID i, fw_Workspace = EI_Workspace i, fw_Tool = ''write'',
      fw_Args = [(''path'', JStr (EI_Path i)), (''content'', JStr (EI_Content i)),
                 (''preview'', JBool (EI_Preview i)), (''confirm'', JBool (EI_Confirm i))]\<rparr>"

definition edit_json :: "PatchEdit \<Rightarrow> json" where
  "edit_json e = JObj [(''path'', JStr (PE_Path e)), (''old_text'', JStr (PE_OldText e)), (''new_text'', JStr (PE_NewText e))]"

definition tool_apply_patch :: "ApplyPatchInput \<Rightarrow> forwarded" where
  "tool_apply_patch i =
     \<lparr>fw_DeviceID = AI_DeviceID i, fw_Workspace = AI_Workspace i, fw_Tool = ''apply_patch'',
      fw_Args = [(''edits'', JArr (map edit_json (AI_Edits i))), (''preview'', JBool (AI_Preview i)),
                 (''confirm'', JBool (AI_Confirm i))]\<rparr>"

definition tool_rollback_patch :: "RollbackPatchInput \<Rightarrow> forwarded" where
  "tool_rollback_patch i =
     \<lparr>fw_DeviceID = RB_DeviceID i, fw_Workspace = RB_Workspace i, fw_Tool = ''rollback_patch'',
      fw_Args = [(''checkpoint_id'', JStr (RB_CheckpointID i))]\<rparr>"

definition tool_bash :: "BashInput \<Rightarrow> forwarded" where
  "tool_bash i =
     \<lparr>fw_DeviceID = BI_DeviceID i, fw_Workspace = BI_Workspace i, fw_Tool = ''bash'', fw_Args = [(''command'', JStr (BI_Command i))]\<rparr>"

definition tool_agents_list :: "DeviceInput \<Rightarrow> forwarded" where
  "tool_agents_list i =
     \<lparr>fw_DeviceID = DI_DeviceID i, fw_Workspace = ''__catalog__'', fw_Tool = ''agents_list'', fw_Args = []\<rparr>"

definition tool_agent :: "AgentInput \<Rightarrow> forwarded" where
  "tool_agent i =
     \<lparr>fw_DeviceID = AG_DeviceID i, fw_Workspace = AG_Workspace i, fw_Tool = ''agent'',
      fw_Args = [(''task'', JStr (AG_Task i)), (''client'', JStr (AG_Client i)), (''agent'', JStr (AG_Agent i)),
                 (''model'', JStr (AG_Model i)), (''thinking'', JStr (AG_Thinking i)),
                 (''timeout_seconds'', JInt (AG_TimeoutSeconds i))]\<rparr>"

definition tool_agent_start :: "AgentStartInput \<Rightarrow> forwarded" where
  "tool_agent_start i =
     \<lparr>fw_DeviceID = AG_DeviceID i, fw_Workspace = AG_Workspace i, fw_Tool = ''agent_start'',
      fw_Args = [(''task'', JStr (AG_Task i)), (''client'', JStr (AG_Client i)), (''agent'', JStr (AG_Agent i)),
                 (''model'', JStr (AG_Model i)), (''thinking'', JStr (AG_Thinking i)),
                 (''timeout_seconds'', JInt (AG_TimeoutSeconds i))]\<rparr>"

definition tool_agent_run :: "string \<Rightarrow> AgentRunIDInput \<Rightarrow> forwarded" where
  "tool_agent_run tool i =
     \<lparr>fw_DeviceID = RID_DeviceID i, fw_Workspace = RID_Workspace i, fw_Tool = tool, fw_Args = [(''run_id'', JStr (RID_RunID i))]\<rparr>"

definition tool_agent_runs :: "AgentRunsInput \<Rightarrow> forwarded" where
  "tool_agent_runs i =
     \<lparr>fw_DeviceID = ARI_DeviceID i, fw_Workspace = ARI_Workspace i, fw_Tool = ''agent_runs'',
      fw_Args = (if ARI_Limit i > 0 then [(''limit'', JInt (ARI_Limit i))] else [])\<rparr>"

definition tool_permission_grant :: "PermissionGrantInput \<Rightarrow> forwarded" where
  "tool_permission_grant i =
     \<lparr>fw_DeviceID = PG_DeviceID i, fw_Workspace = PG_Workspace i, fw_Tool = ''permission_grant'',
      fw_Args = [(''request_id'', JStr (PG_RequestID i)), (''decision'', JStr (PG_Decision i))]\<rparr>"

text \<open>The guard of \<open>forwardProgress\<close>; the request then goes to the registry (\<open>CallProgress\<close>).\<close>

definition forward_guard :: "forwarded \<Rightarrow> tool_error option" where
  "forward_guard f = (if fw_DeviceID f = [] \<or> fw_Workspace f = [] then Some ErrDeviceAndWorkspace else None)"

section \<open>Answers of the manager itself\<close>

text \<open>An empty slice appended to a nil slice is nil, and a nil slice is encoded as null.\<close>

definition workspace_json :: "DeviceWorkspace \<Rightarrow> json" where
  "workspace_json w = JObj ([(''name'', JStr (wk_Name w))] @ omit_str ''path'' (wk_Path w) @ omit_bool ''writable'' (wk_Writable w))"

definition tool_list_workspaces :: "string \<Rightarrow> DeviceInput \<Rightarrow> Registry \<Rightarrow> tool_error + json" where
  "tool_list_workspaces account i r =
     (case Workspaces account (DI_DeviceID i) r of
        Inl e \<Rightarrow> Inl (ErrToolCall e)
      | Inr v \<Rightarrow>
          Inr (JObj [(''workspaces'', if v = [] then JNull else JArr (map workspace_json v)),
                     (''count'', JInt (int (length v)))]))"

section \<open>Tool descriptors\<close>

record mcp_tool =
  mt_Name :: string
  mt_OutputSchema :: schema
  mt_ReadOnly :: bool
  mt_Destructive :: bool

text \<open>\<open>None\<close> is the panic for a tool without a declared schema.\<close>

definition annotatedTool :: "string \<Rightarrow> bool \<Rightarrow> bool \<Rightarrow> string \<Rightarrow> mcp_tool option" where
  "annotatedTool name readOnly destructive outputSource =
     map_option (\<lambda>s. \<lparr>mt_Name = name, mt_OutputSchema = s, mt_ReadOnly = readOnly, mt_Destructive = destructive\<rparr>)
       (map_of toolOutputSchemas outputSource)"

definition readOnlyTool :: "string \<Rightarrow> mcp_tool option" where
  "readOnlyTool name = annotatedTool name True False name"

definition writeTool :: "string \<Rightarrow> mcp_tool option" where
  "writeTool name = annotatedTool name False True name"

text \<open>The descriptor that each entry of \<open>toolTable\<close> registers; an unknown name panics.\<close>

definition RegisterOne :: "string \<Rightarrow> mcp_tool option" where
  "RegisterOne name =
     (if name \<in> set [''list_devices'', ''list_workspaces'', ''list'', ''read'', ''agents_list'', ''agent_status'', ''agent_result'',
           ''agent_runs'', ''permission_grant''] then readOnlyTool name
      else if name \<in> set [''edit'', ''write'', ''apply_patch'', ''rollback_patch'', ''bash'', ''agent'', ''agent_start'', ''agent_cancel'']
      then writeTool name
      else None)"

definition registerCustom :: "CustomTool \<Rightarrow> mcp_tool option" where
  "registerCustom custom = annotatedTool (ct_Name custom) True False (ct_Tool custom)"

text \<open>The descriptors of an account, in the order of registration; \<open>None\<close> when a registration panics.\<close>

definition registered_tools :: "string \<Rightarrow> Registry \<Rightarrow> mcp_tool list option" where
  "registered_tools account r =
     those (map RegisterOne (filter (\<lambda>t. \<not> toolDisabledForAccount account t r) builtinToolNames)
       @ map registerCustom (customToolsForAccount account r))"

section \<open>Audit\<close>

record go_error =
  ge_deadline :: bool
  ge_canceled :: bool
  ge_text :: string

definition auditErrorKind :: "go_error option \<Rightarrow> string" where
  "auditErrorKind err =
     (case err of
        None \<Rightarrow> []
      | Some e \<Rightarrow>
          if ge_deadline e then ''timeout''
          else if ge_canceled e then ''canceled''
          else if contains_sub (ge_text e) ''offline or unknown'' then ''device_unavailable''
          else if contains_sub (ge_text e) ''required'' \<or> contains_sub (ge_text e) ''unknown workspace'' then ''invalid_request''
          else ''tool_error'')"

section \<open>Registration does not panic\<close>

lemma builtin_tools_declared:
  "name \<in> set builtinToolNames \<Longrightarrow> map_of toolOutputSchemas name \<noteq> None \<and> RegisterOne name \<noteq> None"
  unfolding builtinToolNames_def list.set
  by (elim insertE emptyE; simp add: RegisterOne_def readOnlyTool_def writeTool_def annotatedTool_def toolOutputSchemas_def)

lemma custom_loop_builtin: "c \<in> set (custom_loop seen cs) \<Longrightarrow> isBuiltinTool (ct_Tool c)"
  by (induction seen cs rule: custom_loop.induct) (auto split: if_splits)

lemma those_all: "\<forall>x \<in> set xs. x \<noteq> None \<Longrightarrow> those xs = Some (map the xs)"
  by (induction xs) auto

lemma annotatedTool_name: "annotatedTool n ro d src = Some t \<Longrightarrow> mt_Name t = n"
  by (auto simp: annotatedTool_def)

lemma RegisterOne_name: "RegisterOne n = Some t \<Longrightarrow> mt_Name t = n"
  unfolding RegisterOne_def readOnlyTool_def writeTool_def
  by (simp only: annotatedTool_name option.distinct(1) split: if_split_asm)

lemma registerCustom_name: "registerCustom c = Some t \<Longrightarrow> mt_Name t = ct_Name c"
  unfolding registerCustom_def by (rule annotatedTool_name)

text \<open>
  Building the tool surface of an account never panics, whatever the devices of the account advertise: every built-in
  tool and the target of every accepted wrapper has a declared output schema, and the descriptors are registered under
  the names of the policy, in its order.
\<close>

theorem registration_total: "\<exists>ts. registered_tools account r = Some ts \<and> map mt_Name ts = registerWithPolicy account r"
proof -
  let ?names = "filter (\<lambda>t. \<not> toolDisabledForAccount account t r) builtinToolNames"
  let ?custom = "customToolsForAccount account r"
  have custom: "registerCustom c \<noteq> None" if "c \<in> set ?custom" for c
    using that custom_loop_builtin builtin_tools_declared
    by (auto simp: customToolsForAccount_def registerCustom_def annotatedTool_def isBuiltinTool_def)
  have builtin: "RegisterOne t \<noteq> None" if "t \<in> set ?names" for t
    using that builtin_tools_declared by auto
  have "registered_tools account r = Some (map (the \<circ> RegisterOne) ?names @ map (the \<circ> registerCustom) ?custom)"
    unfolding registered_tools_def
    using those_all [of "map RegisterOne ?names @ map registerCustom ?custom"] builtin custom
    by (fastforce simp: comp_def)
  moreover have "mt_Name (the (RegisterOne t)) = t" if "t \<in> set ?names" for t
    using builtin [OF that] RegisterOne_name by fastforce
  moreover have "mt_Name (the (registerCustom c)) = ct_Name c" if "c \<in> set ?custom" for c
    using custom [OF that] registerCustom_name by fastforce
  ultimately have "map mt_Name (map (the \<circ> RegisterOne) ?names @ map (the \<circ> registerCustom) ?custom) =
      map id ?names @ map ct_Name ?custom"
    unfolding map_append map_map by (intro arg_cong2 [of _ _ _ _ append] map_cong) auto
  then show ?thesis using \<open>registered_tools account r = _\<close> by (simp add: registerWithPolicy_def)
qed

text \<open>A wrapper is advertised as read-only whatever it wraps.\<close>

lemma wrapper_read_only: "registerCustom c = Some t \<Longrightarrow> mt_ReadOnly t \<and> \<not> mt_Destructive t"
  by (auto simp: registerCustom_def annotatedTool_def)

text \<open>
  The answer of \<open>list_workspaces\<close> conforms exactly when the device has a workspace: for a device without one it is null
  where the schema requires an array.
\<close>

lemma list_workspaces_conforms:
  assumes "Workspaces account d r = Inr ws" and "tool_list_workspaces account \<lparr>DI_DeviceID = d\<rparr> r = Inr v"
  shows "tool_accepts ''list_workspaces'' v \<longleftrightarrow> ws \<noteq> []"
  using assms
  by (auto simp: tool_list_workspaces_def tool_accepts_def toolOutputSchemas_def output_schemas workspace_json_def
      list_all_iff map_add_def)

end
