(* ===== verification/AgentTools.thy ===== *)
theory AgentTools
  imports ToolOutput RunSync
begin

text \<open>
  The agent tools of the client (\<open>cmd/client/agent_tools.go\<close>): projections of the run manager's operations. A tool
  that calls the manager more than once takes the manager's state at each call, since runs and other requests go on
  in between. A reply struct is a record; its encoding is a \<open>json\<close>. \<open>fmt\<close> formats a time (RFC 3339) and
  \<open>dur\<close> a duration in milliseconds.
\<close>

section \<open>Requests\<close>

record ToolRequest =
  tr_Tool :: string
  tr_Workspace :: string
  tr_Args :: "(string \<times> json) list"

definition protocolRequest :: "forwarded \<Rightarrow> ToolRequest" where
  "protocolRequest f = \<lparr>tr_Tool = fw_Tool f, tr_Workspace = fw_Workspace f, tr_Args = fw_Args f\<rparr>"

definition intArgAny :: "(string \<times> json) list \<Rightarrow> string \<Rightarrow> int \<Rightarrow> int" where
  "intArgAny args key def = (case map_of args key of Some (JInt n) \<Rightarrow> n | _ \<Rightarrow> def)"

definition agentRunSpec :: "ToolRequest \<Rightarrow> RunSpec" where
  "agentRunSpec req =
     \<lparr>Spec_Workspace = tr_Workspace req, Spec_Task = stringArg (tr_Args req) ''task'' [],
      Spec_Client = stringArg (tr_Args req) ''client'' [], Spec_Agent = stringArg (tr_Args req) ''agent'' [],
      Spec_Model = stringArg (tr_Args req) ''model'' [], Spec_Thinking = stringArg (tr_Args req) ''thinking'' [],
      Spec_TimeoutSeconds = intArgAny (tr_Args req) ''timeout_seconds'' 0\<rparr>"

datatype agent_error =
    ErrNoRunManager
  | ErrRunIDRequired
  | ErrNoSuchRun string
  | ErrRunStart run_error
  | ErrCancelRun string
  | ErrStillGoing string

definition lookupRun :: "ToolRequest \<Rightarrow> RunManager \<Rightarrow> RunManager \<times> (agent_error + AgentRun)" where
  "lookupRun req m =
     (let i = trim_space (stringArg (tr_Args req) ''run_id'' [])
      in if i = [] then (m, Inl ErrRunIDRequired)
         else case Get i m of
                (m, None) \<Rightarrow> (m, Inl (ErrNoSuchRun i))
              | (m, Some snap) \<Rightarrow> (m, Inr snap))"

definition formatRunTime :: "(gotime \<Rightarrow> string) \<Rightarrow> gotime \<Rightarrow> string" where
  "formatRunTime fmt t = (if is_zero t then [] else fmt t)"

definition runElapsedMS :: "gotime \<Rightarrow> AgentRun \<Rightarrow> int" where
  "runElapsedMS now snap =
     (if \<not> is_zero (AR_FinishedAt snap) then AR_ElapsedMS snap
      else if is_zero (AR_StartedAt snap) then 0
      else elapsed_milliseconds (AR_StartedAt snap) now)"

section \<open>Replies\<close>

record agentStartReply =
  sr_RunID :: string
  sr_Status :: string
  sr_Client :: string
  sr_Agent :: string
  sr_Model :: string
  sr_Thinking :: string
  sr_Workspace :: string
  sr_StartedAt :: string

record agentStatusReply =
  ss_RunID :: string
  ss_Status :: string
  ss_Client :: string
  ss_Agent :: string
  ss_Model :: string
  ss_Thinking :: string
  ss_Workspace :: string
  ss_StartedAt :: string
  ss_ElapsedMS :: int
  ss_EventCount :: nat
  ss_LastEvent :: string

record agentRunRow =
  rw_RunID :: string
  rw_Status :: string
  rw_Workspace :: string
  rw_Client :: string
  rw_Agent :: string
  rw_StartedAt :: string
  rw_ElapsedMS :: int
  rw_EventCount :: nat

record agentRunsReply =
  rp_Runs :: "agentRunRow list"
  rp_Count :: nat

datatype agentResultReply =
    agentResultPending string string
  | agentResultTerminal string string string string int string

record agentCancelReply =
  cr_RunID :: string
  cr_Status :: string
  cr_Cancelled :: bool

definition agentStartReply_json :: "agentStartReply \<Rightarrow> json" where
  "agentStartReply_json r =
     JObj [(''run_id'', JStr (sr_RunID r)), (''status'', JStr (sr_Status r)), (''client'', JStr (sr_Client r)),
           (''agent'', JStr (sr_Agent r)), (''model'', JStr (sr_Model r)), (''thinking'', JStr (sr_Thinking r)),
           (''workspace'', JStr (sr_Workspace r)), (''started_at'', JStr (sr_StartedAt r))]"

definition agentStatusReply_json :: "agentStatusReply \<Rightarrow> json" where
  "agentStatusReply_json r =
     JObj [(''run_id'', JStr (ss_RunID r)), (''status'', JStr (ss_Status r)), (''client'', JStr (ss_Client r)),
           (''agent'', JStr (ss_Agent r)), (''model'', JStr (ss_Model r)), (''thinking'', JStr (ss_Thinking r)),
           (''workspace'', JStr (ss_Workspace r)), (''started_at'', JStr (ss_StartedAt r)),
           (''elapsed_ms'', JInt (ss_ElapsedMS r)), (''event_count'', JInt (int (ss_EventCount r))),
           (''last_event'', JStr (ss_LastEvent r))]"

definition agentRunRow_json :: "agentRunRow \<Rightarrow> json" where
  "agentRunRow_json r =
     JObj [(''run_id'', JStr (rw_RunID r)), (''status'', JStr (rw_Status r)), (''workspace'', JStr (rw_Workspace r)),
           (''client'', JStr (rw_Client r)), (''agent'', JStr (rw_Agent r)), (''started_at'', JStr (rw_StartedAt r)),
           (''elapsed_ms'', JInt (rw_ElapsedMS r)), (''event_count'', JInt (int (rw_EventCount r)))]"

definition agentRunsReply_json :: "agentRunsReply \<Rightarrow> json" where
  "agentRunsReply_json r =
     JObj [(''runs'', JArr (map agentRunRow_json (rp_Runs r))), (''count'', JInt (int (rp_Count r)))]"

fun agentResultReply_json :: "agentResultReply \<Rightarrow> json" where
  "agentResultReply_json (agentResultPending i status) = JObj [(''run_id'', JStr i), (''status'', JStr status)]"
| "agentResultReply_json (agentResultTerminal i status output err elapsed finished) =
     JObj [(''run_id'', JStr i), (''status'', JStr status), (''output'', JStr output), (''error'', JStr err),
           (''elapsed_ms'', JInt elapsed), (''finished_at'', JStr finished)]"

definition agentCancelReply_json :: "agentCancelReply \<Rightarrow> json" where
  "agentCancelReply_json r =
     JObj [(''run_id'', JStr (cr_RunID r)), (''status'', JStr (cr_Status r)), (''cancelled'', JBool (cr_Cancelled r))]"

definition SubagentResult_json :: "SubagentResult \<Rightarrow> json" where
  "SubagentResult_json r =
     JObj ([(''client'', JStr (Res_Client r))] @ omit_str ''agent'' (Res_Agent r) @ omit_str ''model'' (Res_Model r) @
       omit_str ''thinking'' (Res_Thinking r) @
       [(''task'', JStr (Res_Task r)), (''status'', JStr (Res_Status r)), (''output'', JStr (Res_Output r)),
        (''events'', JInt (Res_Events r)), (''elapsed'', JStr (Res_Elapsed r))])"

section \<open>The tools\<close>

definition startAgentRun ::
  "(gotime \<Rightarrow> string) \<Rightarrow> SubagentProfile list \<Rightarrow> (RunSpec \<Rightarrow> string option) \<Rightarrow> run_io \<Rightarrow> string \<Rightarrow> ToolRequest \<Rightarrow> RunManager \<Rightarrow>
   RunManager \<times> (agent_error + agentStartReply)"
where
  "startAgentRun fmt profiles preflight io i req m =
     (case Start profiles preflight True io i (agentRunSpec req) m of
        (m, Inl e) \<Rightarrow> (m, Inl (ErrRunStart e))
      | (m, Inr run) \<Rightarrow>
          (m, Inr \<lparr>sr_RunID = AR_ID run, sr_Status = AR_Status run, sr_Client = AR_Client run, sr_Agent = AR_Agent run,
                   sr_Model = AR_Model run, sr_Thinking = AR_Thinking run, sr_Workspace = AR_Workspace run,
                   sr_StartedAt = formatRunTime fmt (AR_StartedAt run)\<rparr>))"

definition agentStatus ::
  "(gotime \<Rightarrow> string) \<Rightarrow> gotime \<Rightarrow> ToolRequest \<Rightarrow> RunManager \<Rightarrow> RunManager \<times> (agent_error + agentStatusReply)"
where
  "agentStatus fmt now req m =
     (case lookupRun req m of
        (m, Inl e) \<Rightarrow> (m, Inl e)
      | (m, Inr snap) \<Rightarrow>
          (m, Inr \<lparr>ss_RunID = AR_ID snap, ss_Status = AR_Status snap, ss_Client = AR_Client snap, ss_Agent = AR_Agent snap,
                   ss_Model = AR_Model snap, ss_Thinking = AR_Thinking snap, ss_Workspace = AR_Workspace snap,
                   ss_StartedAt = formatRunTime fmt (AR_StartedAt snap), ss_ElapsedMS = runElapsedMS now snap,
                   ss_EventCount = AR_EventCount snap, ss_LastEvent = AR_LastEvent snap\<rparr>))"

definition agentResult ::
  "(gotime \<Rightarrow> string) \<Rightarrow> ToolRequest \<Rightarrow> RunManager \<Rightarrow> RunManager \<times> (agent_error + agentResultReply)"
where
  "agentResult fmt req m =
     (case lookupRun req m of
        (m, Inl e) \<Rightarrow> (m, Inl e)
      | (m, Inr snap) \<Rightarrow>
          (m, Inr (if \<not> RunStatus_Terminal (AR_Status snap) then agentResultPending (AR_ID snap) (AR_Status snap)
                   else agentResultTerminal (AR_ID snap) (AR_Status snap) (AR_Output snap) (AR_Error snap)
                          (AR_ElapsedMS snap) (formatRunTime fmt (AR_FinishedAt snap)))))"

text \<open>
  \<open>agentCancel\<close> in its three calls of the manager: the lookup, which may already answer; the cancellation of the run
  that was found; and the wait, whose outcome is \<open>None\<close> when the settle window of five seconds ends first.
\<close>

definition agentCancel_lookup :: "ToolRequest \<Rightarrow> RunManager \<Rightarrow> RunManager \<times> (agent_error + agentCancelReply) option \<times> string" where
  "agentCancel_lookup req m =
     (case lookupRun req m of
        (m, Inl e) \<Rightarrow> (m, Some (Inl e), [])
      | (m, Inr snap) \<Rightarrow>
          if RunStatus_Terminal (AR_Status snap)
          then (m, Some (Inr \<lparr>cr_RunID = AR_ID snap, cr_Status = AR_Status snap, cr_Cancelled = False\<rparr>), AR_ID snap)
          else (m, None, AR_ID snap))"

definition agentCancel_settle :: "string \<Rightarrow> (run_error + AgentRun) option \<Rightarrow> agentCancelReply" where
  "agentCancel_settle i waited =
     (case waited of
        Some (Inr final) \<Rightarrow>
          \<lparr>cr_RunID = AR_ID final, cr_Status = AR_Status final, cr_Cancelled = (AR_Status final = RunCancelled)\<rparr>
      | _ \<Rightarrow> \<lparr>cr_RunID = i, cr_Status = RunCancelled, cr_Cancelled = True\<rparr>)"

text \<open>
  The whole tool: \<open>env1\<close> and \<open>env2\<close> are what the rest of the program does between the calls, \<open>expired\<close> says that
  the settle window ends before the run does. The outer \<open>None\<close> is a panic.
\<close>

definition agentCancel ::
  "(RunManager \<Rightarrow> RunManager) \<Rightarrow> (RunManager \<Rightarrow> RunManager) \<Rightarrow> bool \<Rightarrow> ToolRequest \<Rightarrow> RunManager \<Rightarrow>
   (RunManager \<times> (agent_error + agentCancelReply)) option"
where
  "agentCancel env1 env2 expired req m =
     (case agentCancel_lookup req m of
        (m, Some r, i) \<Rightarrow> Some (m, r)
      | (m, None, i) \<Rightarrow>
          (case Cancel i (env1 m) of
             (m, CancelPanic) \<Rightarrow> None
           | (m, CancelNotFound j) \<Rightarrow> Some (m, Inl (ErrCancelRun j))
           | (m, CancelOk) \<Rightarrow>
               let m = env2 m
               in Some (m, Inr (agentCancel_settle i (if expired then None else Wait i m)))))"

definition agentRuns :: "(gotime \<Rightarrow> string) \<Rightarrow> gotime \<Rightarrow> ToolRequest \<Rightarrow> RunManager \<Rightarrow> agentRunsReply" where
  "agentRuns fmt now req m =
     (let limit = intArgAny (tr_Args req) ''limit'' 0;
          limit = (if limit \<le> 0 then 20 else limit);
          limit = (if limit > 100 then 100 else limit);
          rows = map (\<lambda>snap.
            \<lparr>rw_RunID = AR_ID snap, rw_Status = AR_Status snap, rw_Workspace = AR_Workspace snap, rw_Client = AR_Client snap,
             rw_Agent = AR_Agent snap, rw_StartedAt = formatRunTime fmt (AR_StartedAt snap),
             rw_ElapsedMS = runElapsedMS now snap, rw_EventCount = AR_EventCount snap\<rparr>) (List_runs limit m)
      in \<lparr>rp_Runs = rows, rp_Count = length rows\<rparr>)"

definition SubagentResultFromRun :: "(int \<Rightarrow> string) \<Rightarrow> AgentRun \<Rightarrow> SubagentResult" where
  "SubagentResultFromRun dur snap =
     (let elapsed = (if \<not> is_zero (AR_StartedAt snap) \<and> \<not> is_zero (AR_FinishedAt snap)
                     then elapsed_milliseconds (AR_StartedAt snap) (AR_FinishedAt snap) else AR_ElapsedMS snap);
          output = (if AR_Output snap = [] then AR_Error snap else AR_Output snap)
      in \<lparr>Res_Client = AR_Client snap, Res_Agent = AR_Agent snap, Res_Model = AR_Model snap, Res_Thinking = AR_Thinking snap,
          Res_Task = truncateText (trim_space (AR_Task snap)) 400, Res_Status = AR_Status snap, Res_Output = output,
          Res_Events = int (AR_EventCount snap), Res_Elapsed = dur elapsed\<rparr>)"

text \<open>
  \<open>runAgentTool\<close>: start, then wait. \<open>env\<close> is what happens while the tool waits; \<open>None\<close> is the end of the caller's
  context before the end of the run.
\<close>

definition runAgentTool ::
  "(int \<Rightarrow> string) \<Rightarrow> SubagentProfile list \<Rightarrow> (RunSpec \<Rightarrow> string option) \<Rightarrow> bool \<Rightarrow> run_io \<Rightarrow> string \<Rightarrow> (RunManager \<Rightarrow> RunManager) \<Rightarrow>
   bool \<Rightarrow> ToolRequest \<Rightarrow> RunManager \<Rightarrow> RunManager \<times> (agent_error + SubagentResult)"
where
  "runAgentTool dur profiles preflight ctx_ok io i env expired req m =
     (case Start profiles preflight ctx_ok io i (agentRunSpec req) m of
        (m, Inl e) \<Rightarrow> (m, Inl (ErrRunStart e))
      | (m, Inr run) \<Rightarrow>
          let m = env m
          in case (if expired then None else Wait (AR_ID run) m) of
               Some (Inr snap) \<Rightarrow> (m, Inr (SubagentResultFromRun dur snap))
             | _ \<Rightarrow> (m, Inl (ErrStillGoing (AR_ID run))))"

section \<open>Progress\<close>

text \<open>One flush: the count is read in state \<open>m1\<close>, the lines in state \<open>m2\<close>; the result is what the hook gets and the advance.\<close>

definition forwardRunEvents :: "bool \<Rightarrow> string \<Rightarrow> nat \<Rightarrow> RunManager \<Rightarrow> RunManager \<Rightarrow> string list \<times> nat" where
  "forwardRunEvents hook i sent m1 m2 =
     (if \<not> hook then ([], 0)
      else case snd (Get i m1) of
             None \<Rightarrow> ([], 0)
           | Some snap \<Rightarrow>
               if AR_EventCount snap \<le> sent then ([], 0)
               else let pending = AR_EventCount snap - sent
                    in (Events i (int pending) m2, pending))"

text \<open>
  \<open>waitRun\<close>: the select loop, over the cases it takes one after the other. Each carries the states of the manager at
  the two reads of its flush: a tick of the timer, or the result of the waiting goroutine, after which the loop
  flushes once more and returns. The result is what the hook gets and what is returned, \<open>None\<close> while it still waits.
\<close>

datatype wait_select = Ticked RunManager RunManager | Waited "run_error + AgentRun" RunManager RunManager

fun waitRun :: "bool \<Rightarrow> string \<Rightarrow> nat \<Rightarrow> wait_select list \<Rightarrow> string list \<times> (run_error + AgentRun) option" where
  "waitRun hook i sent [] = ([], None)"
| "waitRun hook i sent (Ticked m1 m2 # later) =
     (let (lines, n) = forwardRunEvents hook i sent m1 m2;
          (more, res) = waitRun hook i (sent + n) later
      in (lines @ more, res))"
| "waitRun hook i sent (Waited res m1 m2 # later) =
     (let (lines, n) = forwardRunEvents hook i sent m1 m2 in (lines, Some res))"

section \<open>Dispatch\<close>

definition agentRunToolNames :: "string list" where
  "agentRunToolNames = [''agent_start'', ''agent_status'', ''agent_result'', ''agent_cancel'', ''agent_runs'']"

text \<open>
  What a request meets: formatting, clock, the fresh identifier and the admission of \<open>Start\<close>, and what the rest of the
  program does between two calls of the manager.
\<close>

record tool_env =
  te_fmt :: "gotime \<Rightarrow> string"
  te_dur :: "int \<Rightarrow> string"
  te_now :: gotime
  te_profiles :: "SubagentProfile list"
  te_preflight :: "RunSpec \<Rightarrow> string option"
  te_io :: run_io
  te_newid :: string
  te_ctx_ok :: bool
  te_env1 :: "RunManager \<Rightarrow> RunManager"
  te_env2 :: "RunManager \<Rightarrow> RunManager"
  te_expired :: bool

definition encoded :: "('r \<Rightarrow> json) \<Rightarrow> RunManager \<times> (agent_error + 'r) \<Rightarrow> RunManager \<times> (agent_error + json)" where
  "encoded enc r = (case r of (m, Inl e) \<Rightarrow> (m, Inl e) | (m, Inr x) \<Rightarrow> (m, Inr (enc x)))"

datatype tool_outcome = NotHandled | Answered "RunManager option" "agent_error + json" | ToolPanic

definition answered :: "RunManager \<times> (agent_error + json) \<Rightarrow> tool_outcome" where
  "answered r = Answered (Some (fst r)) (snd r)"

definition handleAgentRunTool :: "tool_env \<Rightarrow> RunManager option \<Rightarrow> ToolRequest \<Rightarrow> tool_outcome" where
  "handleAgentRunTool env runs req =
     (if tr_Tool req \<notin> set agentRunToolNames then NotHandled
      else case runs of
             None \<Rightarrow> Answered None (Inl ErrNoRunManager)
           | Some m \<Rightarrow>
               if tr_Tool req = ''agent_start'' then
                 answered (encoded agentStartReply_json
                   (startAgentRun (te_fmt env) (te_profiles env) (te_preflight env) (te_io env) (te_newid env) req m))
               else if tr_Tool req = ''agent_status'' then
                 answered (encoded agentStatusReply_json (agentStatus (te_fmt env) (te_now env) req m))
               else if tr_Tool req = ''agent_result'' then
                 answered (encoded agentResultReply_json (agentResult (te_fmt env) req m))
               else if tr_Tool req = ''agent_cancel'' then
                 (case agentCancel (te_env1 env) (te_env2 env) (te_expired env) req m of
                    None \<Rightarrow> ToolPanic
                  | Some r \<Rightarrow> answered (encoded agentCancelReply_json r))
               else Answered (Some m) (Inr (agentRunsReply_json (agentRuns (te_fmt env) (te_now env) req m))))"

text \<open>\<open>executeRequest\<close> with a run manager; \<open>NotHandled\<close> is the fall through to \<open>Service.Execute\<close>.\<close>

definition executeRequest :: "tool_env \<Rightarrow> RunManager option \<Rightarrow> ToolRequest \<Rightarrow> tool_outcome" where
  "executeRequest env runs req =
     (case runs of
        Some m \<Rightarrow>
          if tr_Tool req = ''agent'' then
            answered (encoded SubagentResult_json
              (runAgentTool (te_dur env) (te_profiles env) (te_preflight env) (te_ctx_ok env) (te_io env) (te_newid env)
                 (te_env1 env) (te_expired env) req m))
          else handleAgentRunTool env runs req
      | None \<Rightarrow> handleAgentRunTool env runs req)"

end
