(* ===== verification/ToolDispatch.thy ===== *)
theory ToolDispatch
  imports AgentTools PatchEngine Permissions
begin

text \<open>
  The client's tool dispatch (\<open>internal/agentops/ops.go\<close>: \<open>Execute\<close> and the reading of arguments) over the file,
  patch and permission operations, with the encoding of their results. The result of a tool that the dispatch hands to
  a routine outside this library (the symbol tools, the git wrappers, project information and the synchronous agent
  call without a run manager) is \<open>ExecElsewhere\<close>.
\<close>

section \<open>Arguments\<close>

definition boolArg :: "(string \<times> json) list \<Rightarrow> string \<Rightarrow> bool \<Rightarrow> bool" where
  "boolArg m key def = (case map_of m key of Some (JBool v) \<Rightarrow> v | _ \<Rightarrow> def)"

definition intArg :: "(string \<times> json) list \<Rightarrow> string \<Rightarrow> int \<Rightarrow> int" where
  "intArg m key def = (case map_of m key of Some (JInt v) \<Rightarrow> v | _ \<Rightarrow> def)"

fun parse_items :: "json list \<Rightarrow> FileEdit list" where
  "parse_items [] = []"
| "parse_items (item # items) =
     (case item of
        JObj m \<Rightarrow>
          let edit = \<lparr>Edit_Path = stringArg m ''path'' [], Edit_OldText = stringArg m ''old_text'' [],
                      Edit_NewText = stringArg m ''new_text'' []\<rparr>
          in if Edit_Path edit \<noteq> [] then edit # parse_items items else parse_items items
      | _ \<Rightarrow> parse_items items)"

definition parseFileEdits :: "json option \<Rightarrow> FileEdit list" where
  "parseFileEdits raw = (case raw of Some (JArr items) \<Rightarrow> parse_items items | _ \<Rightarrow> [])"

section \<open>Encoded results\<close>

definition DirEntry_json :: "DirEntry \<Rightarrow> json" where
  "DirEntry_json e =
     JObj ([(''name'', JStr (Entry_Name e)), (''path'', JStr (Entry_Path e)), (''type'', JStr (Entry_Type e))]
       @ omit_int ''size'' (int (Entry_Size e)))"

definition ReadFileResult_json :: "ReadFileResult \<Rightarrow> json" where
  "ReadFileResult_json r =
     JObj [(''path'', JStr (Read_Path r)), (''content'', JStr (Read_Content r)), (''truncated'', JBool (Read_Truncated r)),
           (''bytes_read'', JInt (int (Read_BytesRead r)))]"

definition action_name :: "patch_action \<Rightarrow> string" where
  "action_name a = (case a of ACreate \<Rightarrow> ''create'' | ADelete \<Rightarrow> ''delete'' | AReplace \<Rightarrow> ''replace'')"

definition PatchSummary_json :: "PatchSummary \<Rightarrow> json" where
  "PatchSummary_json s = JObj [(''path'', JStr (Summary_Path s)), (''action'', JStr (action_name (Summary_Action s)))]"

definition patch_message :: "ApplyPatchResult \<Rightarrow> string" where
  "patch_message r =
     (if Apply_Preview r
      then ''Preview only; nothing was written. Re-issue the same patch with confirm=true to apply.''
      else ''Applied '' @ show_nat (length (Apply_Files r)) @ '' file change(s). Roll back with rollback_patch and checkpoint_id '' @
        Apply_CheckpointID r @ ''.'')"

definition ApplyPatchResult_json :: "ApplyPatchResult \<Rightarrow> json" where
  "ApplyPatchResult_json r =
     JObj ([(''applied'', JBool (Apply_Applied r))] @ omit_bool ''preview'' (Apply_Preview r) @ omit_str ''diff'' (Apply_Diff r) @
       [(''files'', JArr (map PatchSummary_json (Apply_Files r)))] @ omit_str ''checkpoint_id'' (Apply_CheckpointID r) @
       omit_str ''message'' (patch_message r))"

text \<open>The slices of a rollback start nil: null when nothing was restored, left out when nothing was removed.\<close>

definition RollbackResult_json :: "RollbackResult \<Rightarrow> json" where
  "RollbackResult_json r =
     JObj ([(''rolled_back'', JBool (RolledBack r)), (''checkpoint_id'', JStr (Rollback_CheckpointID r)),
            (''restored_files'', if RestoredFiles r = [] then JNull else JArr (map JStr (RestoredFiles r)))]
       @ (if RemovedFiles r = [] then [] else [(''removed_files'', JArr (map JStr (RemovedFiles r)))]))"

definition bash_json :: "bash_result \<Rightarrow> json" where
  "bash_json r =
     JObj ([(''command'', JStr (Bash_Command r)), (''output'', JStr (Bash_Output r)), (''truncated'', JBool (Bash_Truncated r))]
       @ (case Bash_Error r of None \<Rightarrow> [] | Some e \<Rightarrow> [(''error'', JStr e)])
       @ (case Bash_ExitCode r of None \<Rightarrow> [] | Some n \<Rightarrow> [(''exit_code'', JInt n)]))"

definition PermissionRule_json :: "PermissionRule \<Rightarrow> json" where
  "PermissionRule_json r =
     JObj ([(''effect'', JStr (Rule_Effect r)), (''tool'', JStr (Rule_Tool r))] @ omit_str ''pattern'' (Rule_Pattern r)
       @ omit_str ''reason'' (Rule_Reason r))"

fun grant_json :: "grant_result \<Rightarrow> json" where
  "grant_json (GrantedOnce i) =
     JObj [(''request_id'', JStr i), (''granted'', JStr ''once''), (''message'', JStr ''retry the blocked tool call now'')]"
| "grant_json (GrantedAlways i rule rules) =
     JObj [(''request_id'', JStr i), (''granted'', JStr ''always''), (''rule'', PermissionRule_json rule),
           (''message'', JStr ''rule persisted; retry the blocked tool call now'')]"
| "grant_json (GrantDenied i) = JObj [(''request_id'', JStr i), (''granted'', JStr ''denied'')]"

definition AgentCatalogEntry_json :: "AgentCatalogEntry \<Rightarrow> json" where
  "AgentCatalogEntry_json c =
     JObj ([(''name'', JStr (Cat_Name c))] @ omit_str ''description'' (Cat_Description c) @ omit_str ''client'' (Cat_Client c)
       @ omit_str ''agent'' (Cat_Agent c) @ omit_str ''model'' (Cat_Model c) @ omit_str ''thinking'' (Cat_Thinking c)
       @ omit_int ''timeout_seconds'' (Cat_Timeout c) @ omit_str ''tab'' (Cat_Tab c))"

section \<open>Dispatch\<close>

record exec_env =
  xe_io :: patch_io
  xe_service :: Service
  xe_roots :: "(string \<times> string) list"
  xe_readdir :: "string list \<Rightarrow> string list"
  xe_dirSize :: nat
  xe_order :: "DirEntry list \<Rightarrow> DirEntry list"
  xe_t1 :: gotime
  xe_t2 :: gotime
  xe_newid :: string
  xe_error_text :: "path_error \<Rightarrow> string"
  xe_run :: "string \<Rightarrow> string \<Rightarrow> string list \<times> run_err"
  xe_profiles :: "SubagentProfile list"

text \<open>
  \<open>xe_run\<close> is the execution of a command in a directory: what it writes and how it ends. The state is the file system,
  the checkpoints and the permission store.
\<close>

record exec_world =
  xw_files :: world
  xw_perms :: permissionStore

datatype exec_error =
    ErrUnknownWorkspace string
  | ErrPath path_error
  | ErrPatch patch_error
  | ErrPermissionGrant perm_error
  | ErrBash bash_outcome
  | ErrUnsupportedTool string

datatype exec_outcome = ExecOk json | ExecErr exec_error | ExecElsewhere string

definition exec_files :: "('r \<Rightarrow> json) \<Rightarrow> exec_world \<Rightarrow> world \<times> (patch_error + 'r) \<Rightarrow> exec_world \<times> exec_outcome" where
  "exec_files enc w r =
     (w\<lparr>xw_files := fst r\<rparr>, case snd r of Inl e \<Rightarrow> ExecErr (ErrPatch e) | Inr x \<Rightarrow> ExecOk (enc x))"

definition exec_bash :: "exec_env \<Rightarrow> string \<Rightarrow> string \<Rightarrow> exec_world \<Rightarrow> exec_world \<times> exec_outcome" where
  "exec_bash env root command w =
     (let resolved = (case resolveWorkspaceRoot (AllowSensitiveFiles (xe_service env)) (fst (xw_files w)) (io_cwd (xe_io env)) root of
             Inl e \<Rightarrow> Inl (xe_error_text env e) | Inr r \<Rightarrow> Inr r);
          (ps, out) = runBash (xe_t1 env) (xe_t2 env) (xe_newid env) resolved command (xw_perms w);
          w = w\<lparr>xw_perms := ps\<rparr>
      in case out of
           BashExec rootReal c \<Rightarrow> (w, ExecOk (bash_json (case xe_run env rootReal c of (chunks, err) \<Rightarrow> execBash c chunks err)))
         | _ \<Rightarrow> (w, ExecErr (ErrBash out)))"

definition legacyTools :: "string list" where
  "legacyTools =
     [''agent'', ''find_files'', ''search_code'', ''git_status'', ''git_diff'', ''project_info'', ''find_symbol'', ''find_references'',
      ''read_symbol'', ''dependency_graph'']"

definition Execute :: "exec_env \<Rightarrow> ToolRequest \<Rightarrow> exec_world \<Rightarrow> exec_world \<times> exec_outcome" where
  "Execute env req w =
     (let tool = tr_Tool req; args = tr_Args req; s = xe_service env; fs = fst (xw_files w); cwd = io_cwd (xe_io env)
      in if tool = ''agents_list''
         then (w, ExecOk (JObj [(''agents'', JArr (map AgentCatalogEntry_json (AgentCatalog (xe_profiles env))))]))
         else case map_of (xe_roots env) (tr_Workspace req) of
           None \<Rightarrow> (w, ExecErr (ErrUnknownWorkspace (tr_Workspace req)))
         | Some root \<Rightarrow>
             if tool = ''list'' \<or> tool = ''list_directory'' then
               (w, case listDirectory (AllowSensitiveFiles s) fs cwd (xe_readdir env) (xe_dirSize env) (xe_order env) root
                          (stringArg args ''path'' ''.'') of
                     Inl e \<Rightarrow> ExecErr (ErrPath e)
                   | Inr es \<Rightarrow> ExecOk (JArr (map DirEntry_json es)))
             else if tool = ''read'' \<or> tool = ''read_file'' then
               let maxBytes = intArg args ''max_bytes'' maxReadBytes;
                   maxBytes = (if maxBytes \<le> 0 then maxReadBytes else maxBytes)
               in (w, case readFile (AllowSensitiveFiles s) fs cwd root (stringArg args ''path'' []) maxBytes of
                        Inl e \<Rightarrow> ExecErr (ErrPath e)
                      | Inr r \<Rightarrow> ExecOk (ReadFileResult_json r))
             else if tool = ''bash'' then exec_bash env root (stringArg args ''command'' []) w
             else if tool = ''edit'' then
               exec_files ApplyPatchResult_json w (applyPatch (xe_io env) s (tr_Workspace req) root
                 [\<lparr>Edit_Path = stringArg args ''path'' [], Edit_OldText = stringArg args ''old_text'' [],
                   Edit_NewText = stringArg args ''new_text'' []\<rparr>]
                 (boolArg args ''preview'' False) (boolArg args ''confirm'' False) (xw_files w))
             else if tool = ''write'' then
               exec_files ApplyPatchResult_json w (applyPatch (xe_io env) s (tr_Workspace req) root
                 [\<lparr>Edit_Path = stringArg args ''path'' [], Edit_OldText = [], Edit_NewText = stringArg args ''content'' []\<rparr>]
                 (boolArg args ''preview'' False) (boolArg args ''confirm'' False) (xw_files w))
             else if tool = ''permission_grant'' then
               (case permissionGrant (xe_t1 env) (stringArg args ''request_id'' []) (stringArg args ''decision'' []) (xw_perms w) of
                  (ps, Inl e) \<Rightarrow> (w\<lparr>xw_perms := ps\<rparr>, ExecErr (ErrPermissionGrant e))
                | (ps, Inr r) \<Rightarrow> (w\<lparr>xw_perms := ps\<rparr>, ExecOk (grant_json r)))
             else if tool = ''apply_patch'' then
               exec_files ApplyPatchResult_json w (applyPatch (xe_io env) s (tr_Workspace req) root
                 (parseFileEdits (map_of args ''edits'')) (boolArg args ''preview'' False) (boolArg args ''confirm'' False) (xw_files w))
             else if tool = ''rollback_patch'' then
               exec_files RollbackResult_json w
                 (rollbackPatch (xe_io env) s (tr_Workspace req) root (stringArg args ''checkpoint_id'' []) (xw_files w))
             else if tool \<in> set legacyTools then (w, ExecElsewhere tool)
             else (w, ExecErr (ErrUnsupportedTool tool)))"

end
