(* ===== verification/AgentProperties.thy ===== *)
theory AgentProperties
  imports AgentTools
begin

text \<open>
  The agent tools over every reachable state of the run manager: their answers have the declared shapes, a cancellation
  reports what became of the run, and progress forwards the lines that a run records.
\<close>

section \<open>Statuses\<close>

lemma agentRunStatusValues_statuses: "set agentRunStatusValues = set RunStatuses"
  by (auto simp: agentRunStatusValues_def RunStatuses_def)

lemma lookup_status:
  assumes "run_reach rel s" and "lookup_run (sys_m s) i = Some rs"
  shows "rs_status rs \<in> set RunStatuses"
  using run_reach_wf [OF assms(1)] runs_wf_lookup [OF _ assms(2)] by (simp add: sys_wf_def rs_ok_def)

lemma stored_status:
  assumes "run_reach rel s" and "get_store (m_store (sys_m s)) i = Some snap"
  shows "AR_Status snap \<in> set RunStatuses"
proof -
  obtain st row where st: "m_store (sys_m s) = Some st" and row: "lookup_row arr_id (st_runs st) i = Some row"
    and snap: "snap = scanRun_store row"
    using assms(2) by (auto simp: get_store_def split: option.splits)
  have "statuses_ok st" using stored_statuses.reach_stored [OF assms(1)] st by simp
  moreover have "row \<in> set (st_runs st)" using lookup_row_Some [OF row] by simp
  ultimately show ?thesis by (simp add: statuses_ok_def snap scanRun_store_def)
qed

lemma Get_status:
  assumes "run_reach rel s" and "Get i (sys_m s) = (m', Some snap)"
  shows "AR_Status snap \<in> set RunStatuses"
proof (cases "lookup_run (sys_m s) i")
  case None
  then obtain stored where "get_store (m_store (sys_m s)) i = Some stored" "AR_Status snap = AR_Status stored"
    using assms(2) by (auto simp: Get_def Let_def split: option.splits)
  then show ?thesis using stored_status [OF assms(1)] by simp
next
  case (Some rs)
  then show ?thesis using assms(2) lookup_status [OF assms(1) Some] by (auto simp: Get_def snapshotLocked_def)
qed

lemma Wait_status:
  assumes "run_reach rel s" and "Wait i (sys_m s) = Some (Inr snap)"
  shows "AR_Status snap \<in> set RunStatuses"
  using assms(2) lookup_status [OF assms(1)] stored_status [OF assms(1)]
  by (auto simp: Wait_def snapshotLocked_def split: option.splits if_splits)

lemma List_status:
  assumes "run_reach rel s" and "snap \<in> set (List_runs k (sys_m s))"
  shows "AR_Status snap \<in> set RunStatuses"
proof -
  have wf: "runs_wf (sys_m s)" using run_reach_wf [OF assms(1)] by (simp add: sys_wf_def)
  then obtain rs where "rs \<in> set (m_runs (sys_m s))" "snap = snapshotLocked rs"
    using List_runs_facts(2) assms(2) by blast
  then show ?thesis using wf by (simp add: runs_wf_def rs_ok_def snapshotLocked_def)
qed

lemma lookupRun_status:
  assumes "run_reach rel s" and "lookupRun req (sys_m s) = (m', Inr snap)"
  shows "AR_Status snap \<in> set RunStatuses"
  using assms(2) Get_status [OF assms(1)] by (auto simp: lookupRun_def Let_def split: if_splits prod.splits option.splits)

lemma Start_status:
  assumes "Start profiles preflight ctx_ok io i spec m = (m', Inr snap)"
  shows "AR_Status snap = RunQueued" and "AR_ID snap = i" and "is_zero (AR_StartedAt snap)"
proof -
  let ?new = "new_run (m_eventCapacity m) i (normalizeRunSpec profiles spec)"
  obtain rs m1 where app: "appendRuntimeEventLocked io ''codebridge'' ''run.queued'' [] ?new m = (rs, m1)"
    by fastforce
  have snap: "snap = snapshotLocked rs"
    using assms app by (auto simp: Start_def Let_def split: if_splits option.splits)
  have "rs = fst (appendRuntimeEventLocked io ''codebridge'' ''run.queued'' [] ?new m)" using app by simp
  then have "rs_startedAt rs = rs_startedAt ?new"
    by (simp add: appendRuntimeEventLocked_def Let_def split: if_split)
  then show "AR_Status snap = RunQueued" "AR_ID snap = i" "is_zero (AR_StartedAt snap)"
    using append_run(1,2) [OF app] by (simp_all add: snap snapshotLocked_def new_run_def is_zero_def)
qed

section \<open>Shapes\<close>

lemma shape_start: "sr_Status r = RunQueued \<Longrightarrow> tool_accepts ''agent_start'' (agentStartReply_json r)"
  by (simp add: tool_accepts_def toolOutputSchemas_def agentStartOutputSchema_def agentStartReply_json_def)

lemma shape_status: "ss_Status r \<in> set RunStatuses \<Longrightarrow> tool_accepts ''agent_status'' (agentStatusReply_json r)"
  by (simp add: tool_accepts_def toolOutputSchemas_def agentStatusOutputSchema_def agentStatusReply_json_def
      agentRunStatusValues_statuses)

lemma shape_pending: "st \<in> set RunStatuses \<Longrightarrow> tool_accepts ''agent_result'' (agentResultReply_json (agentResultPending i st))"
  by (simp add: tool_accepts_def toolOutputSchemas_def agentResultOutputSchema_def agentRunStatusValues_statuses)

lemma shape_terminal:
  "st \<in> set RunStatuses \<Longrightarrow> tool_accepts ''agent_result'' (agentResultReply_json (agentResultTerminal i st out err n fin))"
  by (simp add: tool_accepts_def toolOutputSchemas_def agentResultOutputSchema_def agentRunStatusValues_statuses)

lemma shape_cancel: "cr_Status r \<in> set RunStatuses \<Longrightarrow> tool_accepts ''agent_cancel'' (agentCancelReply_json r)"
  by (simp add: tool_accepts_def toolOutputSchemas_def agentCancelOutputSchema_def agentCancelReply_json_def
      agentRunStatusValues_statuses)

lemma shape_runs:
  "list_all (\<lambda>row. rw_Status row \<in> set RunStatuses) (rp_Runs r) \<Longrightarrow> tool_accepts ''agent_runs'' (agentRunsReply_json r)"
  by (simp add: tool_accepts_def toolOutputSchemas_def agentRunsOutputSchema_def agentRunsReply_json_def
      agentRunRowOutputSchema_def agentRunRow_json_def agentRunStatusValues_statuses list_all_iff)

lemma shape_agent: "tool_accepts ''agent'' (SubagentResult_json r)"
  by (simp add: tool_accepts_def toolOutputSchemas_def agentOutputSchema_def SubagentResult_json_def map_add_def)

text \<open>What the rest of the program does between two calls of a tool: it moves the manager between reachable states.\<close>

definition env_runs :: "bool \<Rightarrow> (RunManager \<Rightarrow> RunManager) \<Rightarrow> bool" where
  "env_runs rel env \<longleftrightarrow> (\<forall>s. run_reach rel s \<longrightarrow> (\<exists>s'. (run_step rel)\<^sup>*\<^sup>* s s' \<and> sys_m s' = env (sys_m s)))"

lemma reach_steps: "(run_step rel)\<^sup>*\<^sup>* s s' \<Longrightarrow> run_reach rel s \<Longrightarrow> run_reach rel s'"
  by (induction rule: rtranclp_induct) (auto intro: run_reach.step)

lemma env_runs_reach:
  assumes "env_runs rel env" and "run_reach rel s"
  obtains s' where "run_reach rel s'" and "(run_step rel)\<^sup>*\<^sup>* s s'" and "sys_m s' = env (sys_m s)"
  using assms reach_steps unfolding env_runs_def by blast

lemma lookup_reach:
  assumes "run_reach rel s" and "lookupRun req (sys_m s) = (m', r)"
  shows "run_reach rel (s\<lparr>sys_m := m'\<rparr>)"
proof -
  consider "m' = sys_m s" | i r' where "Get i (sys_m s) = (m', r')"
    using assms(2) by (auto simp: lookupRun_def Let_def split: if_splits prod.splits option.splits)
  then show ?thesis
  proof cases
    case 1
    then show ?thesis using assms(1) by simp
  next
    case 2
    then show ?thesis using run_step.get run_reach.step assms(1) by blast
  qed
qed

lemma cancel_reach: "run_reach rel s \<Longrightarrow> Cancel i (sys_m s) = (m', r) \<Longrightarrow> run_reach rel (s\<lparr>sys_m := m'\<rparr>)"
  using run_step.cancel run_reach.step by blast

lemma agentCancel_shape:
  assumes reach: "run_reach rel s" and env: "env_runs rel env1" "env_runs rel env2"
    and ans: "agentCancel env1 env2 expired req (sys_m s) = Some (m', Inr r)"
  shows "cr_Status r \<in> set RunStatuses"
proof -
  obtain m1 found where look: "lookupRun req (sys_m s) = (m1, found)" by fastforce
  obtain snap where snap: "found = Inr snap"
    using ans look by (cases found) (simp_all add: agentCancel_def agentCancel_lookup_def)
  have valid: "AR_Status snap \<in> set RunStatuses" using lookupRun_status [OF reach] look snap by blast
  show ?thesis
  proof (cases "RunStatus_Terminal (AR_Status snap)")
    case True
    then show ?thesis using ans look snap valid by (auto simp: agentCancel_def agentCancel_lookup_def)
  next
    case False
    obtain s1 where s1: "run_reach rel s1" "sys_m s1 = env1 m1"
      using env_runs_reach [OF env(1) lookup_reach [OF reach look]] by auto
    obtain m2 c where c: "Cancel (AR_ID snap) (env1 m1) = (m2, c)" by fastforce
    then have "run_reach rel (s1\<lparr>sys_m := m2\<rparr>)" using cancel_reach s1 by metis
    then obtain s2 where s2: "run_reach rel s2" "sys_m s2 = env2 m2"
      using env_runs_reach [OF env(2)] by (metis run_sys.select_convs(1) run_sys.surjective run_sys.update_convs(1))
    have "r = agentCancel_settle (AR_ID snap) (if expired then None else Wait (AR_ID snap) (env2 m2))"
      using ans look snap False c
      by (cases c) (auto simp: agentCancel_def agentCancel_lookup_def Let_def)
    then show ?thesis
      using Wait_status [OF s2(1), of "AR_ID snap"] s2(2)
      by (auto simp: agentCancel_settle_def RunStatuses_def split: option.split sum.split)
  qed
qed

lemma encoded_Inr: "encoded enc x = (m, Inr v) \<Longrightarrow> \<exists>r. x = (m, Inr r) \<and> v = enc r"
  by (auto simp: encoded_def split: prod.splits sum.splits)

lemma answered_Inr: "answered (encoded enc x) = Answered m (Inr v) \<Longrightarrow> \<exists>m' r. x = (m', Inr r) \<and> v = enc r"
  using encoded_Inr by (metis answered_def prod.collapse tool_outcome.inject)

text \<open>
  (C33) The answers of the agent tools have the shapes that the manager declares for them: whatever runs, requests and
  restarts preceded, and whatever happens while a tool waits, a value with which the client answers a request for an
  agent tool is passed on by the manager as it is and is accepted by the tool's output schema. In particular a run
  that was just accepted is never reported with a status other than \<open>queued\<close>, and the status of a stored run is one of
  the enumeration even if its last write failed.
\<close>

theorem agent_replies_conform:
  assumes reach: "run_reach rel s" and env: "env_runs rel (te_env1 env)" "env_runs rel (te_env2 env)"
    and ans: "executeRequest env (Some (sys_m s)) req = Answered m' (Inr v)"
  shows "forward_result (tr_Tool req) args (Inr (RawJson v)) = Inr v \<and> tool_accepts (tr_Tool req) v"
proof -
  consider (agent) "tr_Tool req = ''agent''" | (start) "tr_Tool req = ''agent_start''" | (status) "tr_Tool req = ''agent_status''"
    | (result) "tr_Tool req = ''agent_result''" | (cancel) "tr_Tool req = ''agent_cancel''" | (runs) "tr_Tool req = ''agent_runs''"
    using ans by (auto simp: executeRequest_def handleAgentRunTool_def agentRunToolNames_def split: if_splits)
  then have "tool_accepts (tr_Tool req) v"
  proof cases
    case agent
    then obtain r where "v = SubagentResult_json r"
      using ans by (auto simp: executeRequest_def dest!: answered_Inr)
    then show ?thesis using agent shape_agent by simp
  next
    case start
    then obtain m1 r where r: "startAgentRun (te_fmt env) (te_profiles env) (te_preflight env) (te_io env) (te_newid env) req (sys_m s) =
        (m1, Inr r)" "v = agentStartReply_json r"
      using ans by (auto simp: executeRequest_def handleAgentRunTool_def agentRunToolNames_def dest!: answered_Inr)
    then have "sr_Status r = RunQueued"
      using Start_status(1) by (auto simp: startAgentRun_def split: prod.splits sum.splits)
    then show ?thesis using start r shape_start by simp
  next
    case status
    then obtain m1 r where r: "agentStatus (te_fmt env) (te_now env) req (sys_m s) = (m1, Inr r)" "v = agentStatusReply_json r"
      using ans by (auto simp: executeRequest_def handleAgentRunTool_def agentRunToolNames_def dest!: answered_Inr)
    then have "ss_Status r \<in> set RunStatuses"
      using lookupRun_status [OF reach] by (auto simp: agentStatus_def split: prod.splits sum.splits)
    then show ?thesis using status r shape_status by simp
  next
    case result
    then obtain m1 r where r: "agentResult (te_fmt env) req (sys_m s) = (m1, Inr r)" "v = agentResultReply_json r"
      using ans by (auto simp: executeRequest_def handleAgentRunTool_def agentRunToolNames_def dest!: answered_Inr)
    then show ?thesis
      using result lookupRun_status [OF reach] shape_pending shape_terminal
      by (auto simp: agentResult_def split: prod.splits sum.splits if_splits)
  next
    case cancel
    then obtain m1 r where r: "agentCancel (te_env1 env) (te_env2 env) (te_expired env) req (sys_m s) = Some (m1, Inr r)"
      "v = agentCancelReply_json r"
      using ans by (auto simp: executeRequest_def handleAgentRunTool_def agentRunToolNames_def split: option.splits dest!: answered_Inr)
    then show ?thesis using cancel shape_cancel agentCancel_shape [OF reach env] by simp
  next
    case runs
    then have v: "v = agentRunsReply_json (agentRuns (te_fmt env) (te_now env) req (sys_m s))"
      using ans by (simp add: executeRequest_def handleAgentRunTool_def agentRunToolNames_def)
    have "list_all (\<lambda>row. rw_Status row \<in> set RunStatuses) (rp_Runs (agentRuns (te_fmt env) (te_now env) req (sys_m s)))"
      using List_status [OF reach] by (auto simp: agentRuns_def Let_def list_all_iff)
    then show ?thesis using runs v shape_runs by simp
  qed
  moreover have "tr_Tool req \<noteq> ''list'' \<and> tr_Tool req \<noteq> ''rollback_patch''"
    using ans by (auto simp: executeRequest_def handleAgentRunTool_def agentRunToolNames_def split: if_splits)
  ultimately show ?thesis by (simp add: forward_result_def toolOutputPayload_def)
qed

definition agent_sample_env :: tool_env where
  "agent_sample_env =
     \<lparr>te_fmt = (\<lambda>t. ''2026-01-01T00:00:00Z''), te_dur = (\<lambda>n. ''1s''), te_now = 2000000000, te_profiles = [],
      te_preflight = (\<lambda>spec. None), te_io = sample_io, te_newid = ''run_b'', te_ctx_ok = True, te_env1 = id, te_env2 = id,
      te_expired = False\<rparr>"

definition agent_sample_req :: "string \<Rightarrow> ToolRequest" where
  "agent_sample_req tool = \<lparr>tr_Tool = tool, tr_Workspace = ''w'', tr_Args = [(''run_id'', JStr ''run_a''), (''task'', JStr ''t'')]\<rparr>"

lemma env_runs_id: "env_runs rel id"
  unfolding env_runs_def by auto

theorem agent_replies_conform_witness:
  "\<exists>m' v. executeRequest agent_sample_env (Some sample_m1) (agent_sample_req ''agent_status'') = Answered m' (Inr v) \<and>
     tool_accepts ''agent_status'' v"
proof -
  have "case executeRequest agent_sample_env (Some sample_m1) (agent_sample_req ''agent_status'') of
      Answered m' (Inr v) \<Rightarrow> True | _ \<Rightarrow> False"
    by code_simp
  then obtain m' v where ans: "executeRequest agent_sample_env (Some (sys_m sample_sys)) (agent_sample_req ''agent_status'') = Answered m' (Inr v)"
    by (auto simp: sample_sys_def split: tool_outcome.splits sum.splits)
  have env: "env_runs True (te_env1 agent_sample_env)" "env_runs True (te_env2 agent_sample_env)"
    using env_runs_id by (simp_all add: agent_sample_env_def)
  from agent_replies_conform [OF sample_reach env ans] ans show ?thesis
    by (auto simp: sample_sys_def agent_sample_req_def)
qed

section \<open>Cancellation\<close>

lemma terminal_same: "RunStatus_Terminal st = terminalRunStatus st"
  by (simp add: RunStatus_Terminal_def terminalRunStatus_def)

lemma terminal_stays:
  assumes "(run_step rel)\<^sup>*\<^sup>* s s'" and "run_reach rel s" and "lookup_run (sys_m s) i = Some rs" and "terminalRunStatus (rs_status rs)"
  shows "\<exists>rs'. lookup_run (sys_m s') i = Some rs' \<and> snapshotLocked rs' = snapshotLocked rs"
  using assms(1)
proof (induction rule: rtranclp_induct)
  case base
  then show ?case using assms(3) by simp
next
  case (step y z)
  then obtain rs' where rs': "lookup_run (sys_m y) i = Some rs'" "snapshotLocked rs' = snapshotLocked rs" by blast
  then have "rs_status rs' = rs_status rs" by (metis AgentRun.select_convs(8) snapshotLocked_def)
  moreover have "run_reach rel y" using reach_steps [OF step(1) assms(2)] .
  ultimately show ?case
    using run_step_evolves [OF step(2) run_reach_wf] rs' assms(4) unfolding evolves_def run_evolves_def by metis
qed

lemma Get_found:
  assumes "Get i m = (m', Some snap)"
  shows "AR_ID snap = i \<and> (\<exists>rs. lookup_run m' i = Some rs \<and> (terminalRunStatus (AR_Status snap) \<longrightarrow> rs_status rs = AR_Status snap))"
proof (cases "lookup_run m i")
  case None
  then obtain stored where stored: "get_store (m_store m) i = Some stored"
    and snap: "snap = stored\<lparr>AR_LastSeq := lastSeq_store (m_store m) i\<rparr>" and m': "m' = cacheLoaded snap m"
    using assms by (auto simp: Get_def Let_def split: option.splits)
  have "AR_ID snap = i"
    using stored snap by (auto simp: get_store_def scanRun_store_def split: option.splits dest: lookup_row_Some)
  then show ?thesis using None m' by (simp add: cacheLoaded_def Let_def loadedRunState_def)
next
  case (Some rs)
  then show ?thesis using assms lookup_run_id [OF Some] by (auto simp: Get_def snapshotLocked_def)
qed

text \<open>
  A cancellation whose wait ends before the settle window reports what became of the run: the status of the answer
  is the status of the run when the call returns, in every later state of the process too, and an answer with
  \<open>cancelled\<close> set is given only for a run that ended as cancelled. A run that had finished before the call is reported
  as it ended and never as cancelled by it.
\<close>

theorem agent_cancel_reports:
  assumes reach: "run_reach rel s" and env: "env_runs rel env1" "env_runs rel env2"
    and ans: "agentCancel env1 env2 False req (sys_m s) = Some (m', Inr r)"
    and fin: "lookup_run m' (cr_RunID r) = Some rs" "terminalRunStatus (rs_status rs)"
  shows "cr_Status r = rs_status rs \<and> (cr_Cancelled r \<longrightarrow> rs_status rs = RunCancelled) \<and>
    (\<forall>s1 s2. sys_m s1 = m' \<and> run_reach rel s1 \<and> (run_step rel)\<^sup>*\<^sup>* s1 s2 \<longrightarrow>
      (\<exists>rs'. lookup_run (sys_m s2) (cr_RunID r) = Some rs' \<and> rs_status rs' = cr_Status r))"
proof -
  obtain m1 found where look: "lookupRun req (sys_m s) = (m1, found)" by fastforce
  obtain snap where snap: "found = Inr snap"
    using ans look by (cases found) (simp_all add: agentCancel_def agentCancel_lookup_def)
  have *: "cr_Status r = rs_status rs \<and> (cr_Cancelled r \<longrightarrow> rs_status rs = RunCancelled)"
  proof (cases "RunStatus_Terminal (AR_Status snap)")
    case True
    then have r: "r = \<lparr>cr_RunID = AR_ID snap, cr_Status = AR_Status snap, cr_Cancelled = False\<rparr>" "m' = m1"
      using ans look snap by (auto simp: agentCancel_def agentCancel_lookup_def)
    obtain i where get: "Get i (sys_m s) = (m1, Some snap)"
      using look snap by (auto simp: lookupRun_def Let_def split: if_splits prod.splits option.splits)
    from Get_found [OF get] True fin(1) r show ?thesis by (simp add: terminal_same)
  next
    case False
    obtain m2 c where c: "Cancel (AR_ID snap) (env1 m1) = (m2, c)" by fastforce
    have r: "m' = env2 m2" "r = agentCancel_settle (AR_ID snap) (Wait (AR_ID snap) (env2 m2))"
      using ans look snap False c by (cases c; auto simp: agentCancel_def agentCancel_lookup_def Let_def)+
    obtain s1 where s1: "run_reach rel s1" "sys_m s1 = env1 m1"
      using env_runs_reach [OF env(1) lookup_reach [OF reach look]] by auto
    have "run_reach rel (s1\<lparr>sys_m := m2\<rparr>)" using cancel_reach c s1 by metis
    then obtain s2 where s2: "run_reach rel s2" "sys_m s2 = m'"
      using env_runs_reach [OF env(2)] r(1) by (metis run_sys.select_convs(1) run_sys.surjective run_sys.update_convs(1))
    have run_id: "cr_RunID r = AR_ID snap"
      using r(2) by (auto simp: agentCancel_settle_def Wait_def get_store_def scanRun_store_def snapshotLocked_def
          split: option.splits sum.splits if_splits dest: lookup_row_Some lookup_run_id)
    have "Wait (AR_ID snap) m' = Some (Inr (snapshotLocked rs))"
      using run_wait_terminal [OF s2(1)] fin s2(2) run_id by simp
    then show ?thesis using r by (simp add: agentCancel_settle_def snapshotLocked_def)
  qed
  moreover have "\<exists>rs'. lookup_run (sys_m s2) (cr_RunID r) = Some rs' \<and> rs_status rs' = cr_Status r"
    if "sys_m s1 = m'" "run_reach rel s1" "(run_step rel)\<^sup>*\<^sup>* s1 s2" for s1 s2
    using terminal_stays [OF that(3,2)] fin that(1) * by (metis AgentRun.select_convs(8) snapshotLocked_def)
  ultimately show ?thesis by blast
qed

definition sample_restarted :: run_sys where
  "sample_restarted = \<lparr>sys_m = NewRunManager 5000000000 2 3 (m_store sample_m1), sys_go = []\<rparr>"

lemma restarted_reach: "run_reach rel sample_restarted"
  using run_reach.restart [OF sample_reach, of 2 3] by (simp add: sample_restarted_def sample_sys_def)

theorem agent_cancel_reports_witness:
  "\<exists>m' r. agentCancel id id False (agent_sample_req ''agent_cancel'') (sys_m sample_restarted) = Some (m', Inr r) \<and>
     cr_Status r = RunInterrupted \<and> \<not> cr_Cancelled r"
proof -
  have "case agentCancel id id False (agent_sample_req ''agent_cancel'') (sys_m sample_restarted) of
      Some (m', Inr r) \<Rightarrow> (case lookup_run m' (cr_RunID r) of Some rs \<Rightarrow> rs_status rs = RunInterrupted | None \<Rightarrow> False)
    | _ \<Rightarrow> False"
    by code_simp
  then obtain m' r rs where ans: "agentCancel id id False (agent_sample_req ''agent_cancel'') (sys_m sample_restarted) = Some (m', Inr r)"
    and rs: "lookup_run m' (cr_RunID r) = Some rs" "rs_status rs = RunInterrupted"
    by (auto split: option.splits prod.splits sum.splits)
  have "terminalRunStatus (rs_status rs)" using rs(2) by simp
  from agent_cancel_reports [OF restarted_reach [of True] env_runs_id env_runs_id ans rs(1) this] ans rs(2) show ?thesis by auto
qed

section \<open>Progress\<close>

text \<open>Lines that the harness of a run prints, one after the other.\<close>

fun record_lines :: "run_io \<Rightarrow> string \<Rightarrow> string list \<Rightarrow> RunManager \<Rightarrow> RunManager" where
  "record_lines io i [] m = m"
| "record_lines io i (line # lines) m =
     record_lines io i lines (case lookup_run m i of None \<Rightarrow> m | Some rs \<Rightarrow> recordEvent io line rs m)"

abbreviation event_ring :: "runState \<Rightarrow> string list" where
  "event_ring rs \<equiv> ring_contents (rs_events rs) (rs_eventTotal rs) (rs_eventKept rs)"

lemma record_total:
  assumes "\<not> terminalRunStatus (rs_status rs)" and "lookup_run (recordEvent io line rs m) (rs_id rs) = Some rs'"
  shows "rs_eventTotal rs' = Suc (rs_eventTotal rs)"
  using assms append_run(1,10)
  by (auto simp: recordEvent_def Let_def split: prod.splits if_splits)

lemma live_ring:
  assumes "runs_wf m" and "lookup_run m i = Some rs" and "\<not> terminalRunStatus (rs_status rs)"
  shows "rs_eventKept rs = min (rs_eventTotal rs) (m_eventCapacity m)" and "length (event_ring rs) = rs_eventKept rs"
proof -
  have "rs_ok (m_eventCapacity m) rs" by (rule runs_wf_lookup [OF assms(1,2)])
  then show kept: "rs_eventKept rs = min (rs_eventTotal rs) (m_eventCapacity m)"
    using assms(3) by (auto simp: rs_ok_def ring_ok_def)
  show "length (event_ring rs) = rs_eventKept rs" by (rule length_ring_contents) (simp add: kept)
qed

lemma record_lines_effect:
  assumes "runs_wf m" and "lookup_run m i = Some rs" and "\<not> terminalRunStatus (rs_status rs)"
  shows "\<exists>rs'. lookup_run (record_lines io i lines m) i = Some rs' \<and> \<not> terminalRunStatus (rs_status rs') \<and>
    runs_wf (record_lines io i lines m) \<and> m_eventCapacity (record_lines io i lines m) = m_eventCapacity m \<and>
    rs_eventTotal rs' = rs_eventTotal rs + length lines \<and>
    event_ring rs' = last_n (m_eventCapacity m) (event_ring rs @ lines)"
  using assms
proof (induction lines arbitrary: m rs)
  case Nil
  then have "last_n (m_eventCapacity m) (event_ring rs) = event_ring rs"
    using live_ring [OF Nil] by (simp add: last_n_def)
  with Nil show ?case by simp
next
  case (Cons line lines)
  let ?cap = "m_eventCapacity m"
  have ok: "rs_ok ?cap rs" "0 < ?cap" using Cons.prems runs_wf_lookup by (auto simp: runs_wf_def)
  obtain rs1 m1 where eq: "recordEvent io line rs m = put_run rs1 m1" and rs1: "rs_ok ?cap rs1" "rs_status rs1 = rs_status rs"
      "rs_id rs1 = rs_id rs" and same: "m_same m m1"
    and ring: "event_ring rs1 = last_n ?cap (event_ring rs @ [line])"
    by (rule recordEvent_effect [OF ok Cons.prems(3)])
  let ?m = "put_run rs1 m1"
  have i: "rs_id rs = i" using lookup_run_id [OF Cons.prems(2)] by simp
  have look: "lookup_run ?m i = Some rs1" using rs1(3) i by simp
  have wf: "runs_wf ?m" by (rule runs_wf_put [OF Cons.prems(1) same rs1(1)])
  have cap: "m_eventCapacity ?m = ?cap" using same by (simp add: m_same_def)
  have total: "rs_eventTotal rs1 = Suc (rs_eventTotal rs)"
    using record_total [OF Cons.prems(3), of io line m rs1] eq i look by simp
  show ?case
    using Cons.IH [OF wf look] Cons.prems(2,3) rs1(2) eq cap total ring
    by (simp add: last_n_append_idem)
qed

lemma flush_lines:
  assumes "runs_wf m" and "lookup_run m i = Some rs" and "\<not> terminalRunStatus (rs_status rs)" and "length lines \<le> m_eventCapacity m"
    and m': "m' = record_lines io i lines m"
  shows "forwardRunEvents True i (rs_eventTotal rs) m' m' = (lines, length lines)"
proof (cases "lines = []")
  case True
  then show ?thesis using assms(2) m' by (simp add: forwardRunEvents_def Get_def snapshotLocked_def)
next
  case False
  obtain rs' where rs': "lookup_run m' i = Some rs'" "\<not> terminalRunStatus (rs_status rs')" "runs_wf m'"
      "m_eventCapacity m' = m_eventCapacity m" "rs_eventTotal rs' = rs_eventTotal rs + length lines"
    and ring: "event_ring rs' = last_n (m_eventCapacity m) (event_ring rs @ lines)"
    using record_lines_effect [OF assms(1-3)] m' by blast
  let ?n = "length lines"
  note kept = live_ring(1) [OF rs'(3,1,2), unfolded rs'(4,5)]
  have "ring_contents (rs_events rs') (rs_eventTotal rs') ?n = last_n ?n (event_ring rs')"
    by (rule ring_newest) (use kept assms(4) rs'(5) in auto)
  also have "\<dots> = lines" using assms(4) by (simp add: ring last_n_smaller) (simp add: last_n_def)
  finally have "Events i (int ?n) m' = lines"
    using False kept assms(4) rs'(1,5) by (cases "?n < rs_eventKept rs'") (auto simp: Events_def Let_def)
  then show ?thesis
    using False rs'(1,5) by (simp add: forwardRunEvents_def Get_def snapshotLocked_def)
qed

text \<open>A step of the manager that records no line of a run leaves the lines of the run alone.\<close>

definition keeps_lines :: "runState \<Rightarrow> runState \<Rightarrow> bool" where
  "keeps_lines rs rs' \<longleftrightarrow> rs_events rs' = rs_events rs \<and> rs_eventKept rs' = rs_eventKept rs \<and>
     rs_eventTotal rs' = rs_eventTotal rs \<and> rs_lifeStop rs' = rs_lifeStop rs"

definition lines_kept :: "RunManager \<Rightarrow> RunManager \<Rightarrow> bool" where
  "lines_kept m m' \<longleftrightarrow>
     (\<forall>i rs. lookup_run m i = Some rs \<longrightarrow> (\<exists>rs'. lookup_run m' i = Some rs' \<and>
        (keeps_lines rs rs' \<or> rs_eventTotal rs' = Suc (rs_eventTotal rs))))"

lemma keeps_lines_refl [simp]: "keeps_lines rs rs"
  by (simp add: keeps_lines_def)

lemma lines_kept_lookup: "(\<And>j. lookup_run m' j = lookup_run m j) \<Longrightarrow> lines_kept m m'"
  by (simp add: lines_kept_def)

lemma lines_kept_put:
  assumes "m_same m m'" and "lookup_run m (rs_id rs') = Some rs"
    and "keeps_lines rs rs' \<or> rs_eventTotal rs' = Suc (rs_eventTotal rs)"
  shows "lines_kept m (put_run rs' m')"
  using assms m_same_lookup [OF assms(1)] by (auto simp: lines_kept_def)

lemma append_keeps: "appendRuntimeEventLocked io src kind p rs m = (rs', m') \<Longrightarrow> keeps_lines rs rs'"
  using append_run(4,7,9,10) by (simp add: keeps_lines_def)

lemma transition_keeps:
  assumes "transitionLocked io to rs m = (b, rs', m')"
  shows "keeps_lines rs rs'" and "m_same m m'" and "rs_id rs' = rs_id rs"
proof -
  let ?rs = "enter_status io to rs"
  obtain rs1 m1 where app: "appendRuntimeEventLocked io ''codebridge'' (runStatusEventKind to) [] ?rs m = (rs1, m1)"
    by fastforce
  consider "rs' = rs" "m' = m" | "rs' = rs1" "m' = persistLocked io rs1 m1"
    using assms app by (auto simp: transitionLocked_def split: if_splits)
  then have "keeps_lines rs rs' \<and> m_same m m' \<and> rs_id rs' = rs_id rs"
  proof cases
    case 2
    have "keeps_lines rs ?rs" by (simp add: keeps_lines_def enter_status_def Let_def)
    then show ?thesis
      using 2 append_keeps [OF app] append_run(1) [OF app] m_same_persist [OF m_same_append [OF app]]
      by (simp add: keeps_lines_def enter_status_simps)
  qed (simp add: m_same_def)
  then show "keeps_lines rs rs'" "m_same m m'" "rs_id rs' = rs_id rs" by simp_all
qed

lemma finish_lookup:
  assumes "lookup_run m i = Some rs"
  shows "\<exists>rs'. lookup_run (finish io st out err rs m) i = Some rs' \<and> keeps_lines rs rs'"
    and "j \<noteq> i \<Longrightarrow> lookup_run (finish io st out err rs m) j = lookup_run m j"
proof -
  let ?st = "if \<not> canTransition_mgr (rs_status rs) st then RunCancelled else st"
  let ?rs = "rs\<lparr>rs_output := truncateText out subagentMaxOutput, rs_errText := (case err of None \<Rightarrow> [] | Some e \<Rightarrow> e)\<rparr>"
  obtain b rs' m' where tr: "transitionLocked io ?st ?rs m = (b, rs', m')" by (metis prod_cases3)
  have "finish io st out err rs m \<in> {m, put_run (rs'\<lparr>rs_cancelled := True\<rparr>) m'}"
    unfolding finish_def Let_def tr by simp
  moreover have "keeps_lines rs rs'" "rs_id rs' = i" "m_same m m'"
    using transition_keeps [OF tr] lookup_run_id [OF assms] by (simp_all add: keeps_lines_def)
  ultimately show "\<exists>rs'. lookup_run (finish io st out err rs m) i = Some rs' \<and> keeps_lines rs rs'"
    and "j \<noteq> i \<Longrightarrow> lookup_run (finish io st out err rs m) j = lookup_run m j"
    using assms m_same_lookup by (auto simp: keeps_lines_def)
qed

lemma finish_keeps:
  assumes "lookup_run m i = Some rs"
  shows "lines_kept m (finish io st out err rs m)"
  unfolding lines_kept_def
proof (intro allI impI)
  fix j r assume "lookup_run m j = Some r"
  then show "\<exists>rs'. lookup_run (finish io st out err rs m) j = Some rs' \<and> (keeps_lines r rs' \<or> rs_eventTotal rs' = Suc (rs_eventTotal r))"
    using finish_lookup(1) [OF assms, of io st out err] finish_lookup(2) [OF assms, of j io st out err] assms
    by (cases "j = i") auto
qed

lemma go_step_keeps: "go_step rel s s' \<Longrightarrow> lines_kept (sys_m s) (sys_m s')"
proof (induction rule: go_step.induct)
  case (give_up s k rs io)
  then show ?case using at_pc_lookup finish_keeps by force
next
  case (slot_cancelled s k rs io)
  then show ?case using at_pc_lookup finish_keeps by force
next
  case (begin_run s k rs io started rs' m')
  obtain j where j: "lookup_run (sys_m s) j = Some rs" using at_pc_lookup [OF begin_run(1)] by blast
  note tr = transition_keeps [OF begin_run(3)]
  show ?case using tr j lookup_run_id [OF j] by (auto intro!: lines_kept_put)
next
  case (exec_return s k rs io ctx quote res execErr)
  obtain st out err where
    "finishOutcome quote io ctx res execErr rs (sys_m s) = finish io st out err rs (sys_m s)"
    using finishOutcome_finish [of quote io ctx res execErr] by blast
  then show ?case using at_pc_lookup [OF exec_return(1)] finish_keeps by auto
qed (simp_all add: lines_kept_lookup lookup_run_def)

lemma run_step_keeps: "run_step rel s s' \<Longrightarrow> sys_wf s \<Longrightarrow> lines_kept (sys_m s) (sys_m s')"
proof (induction rule: run_step.induct)
  case (start profiles preflight ctx_ok io i spec s m' snap)
  have cap: "0 < m_eventCapacity (sys_m s)" using start(4) by (simp add: sys_wf_def runs_wf_def)
  obtain rs m1 where m': "m' = persistLocked io rs (put_run rs m1)" and same: "m_same (sys_m s) m1" and "rs_id rs = i"
    by (rule Start_effect [OF start(1) cap])
  then have "lookup_run m' j = lookup_run (sys_m s) j" if "j \<noteq> i" for j
    using that m_same_lookup [OF same] by (simp add: m' lookup_run_def persist_manager) (simp add: lookup_run_def [symmetric])
  then show ?case using start(2) unfolding lines_kept_def by (metis keeps_lines_refl option.distinct(1) run_sys.select_convs(1))
next
  case (go s s')
  then show ?case by (simp add: go_step_keeps)
next
  case (record_line s i rs io line)
  show ?case
  proof (cases "terminalRunStatus (rs_status rs)")
    case True
    then show ?thesis by (simp add: recordEvent_def lines_kept_lookup)
  next
    case False
    have ok: "rs_ok (m_eventCapacity (sys_m s)) rs" "0 < m_eventCapacity (sys_m s)"
      using record_line runs_wf_lookup by (auto simp: sys_wf_def runs_wf_def)
    obtain rs' m' where eq: "recordEvent io line rs (sys_m s) = put_run rs' m'"
      and rs': "rs_id rs' = rs_id rs" and same: "m_same (sys_m s) m'"
      by (rule recordEvent_effect [OF ok False])
    have "rs_eventTotal rs' = Suc (rs_eventTotal rs)"
      using record_total [OF False, of io line "sys_m s" rs'] eq rs' by simp
    then show ?thesis
      using record_line(1) lookup_run_id [OF record_line(1)] rs' by (simp add: eq lines_kept_put [OF same])
  qed
next
  case (cancel i s m' r)
  then consider "m' = sys_m s"
    | rs where "lookup_run (sys_m s) i = Some rs" and "m' = put_run (rs\<lparr>rs_cancelled := True\<rparr>) (sys_m s)"
    by (auto simp: Cancel_def split: option.splits if_splits)
  then show ?case
  proof cases
    case 2
    then show ?thesis
      using lookup_run_id [OF 2(1)] by (simp add: lines_kept_put [of _ _ _ rs] m_same_def keeps_lines_def)
  qed (simp add: lines_kept_lookup)
next
  case (get i s m' r)
  have "lines_kept (sys_m s) (cacheLoaded snap (sys_m s))" for snap
    by (auto simp: cacheLoaded_def Let_def lines_kept_def loadedRunState_def split: option.split)
  with Get_manager [OF get(1)] show ?case by (auto simp: lines_kept_lookup)
next
  case (subscribe i n s m' r)
  then show ?case using Subscribe_manager [of i n "sys_m s"] m_same_lookup lines_kept_lookup by simp
qed (auto intro!: lines_kept_lookup simp: cancelSubscription_def lookup_run_def Close_def)

text \<open>
  \<open>waiting rel i s0 evs sent cur s\<close>: while the tool waits for the run \<open>i\<close> from \<open>s0\<close> on, the manager makes any steps and
  the timer fires at any moments \<open>evs\<close>; the run has recorded the lines \<open>sent\<close> before the last tick and \<open>cur\<close> after it,
  at most as many as it keeps, and no line comes between the two reads of a flush.
\<close>

inductive waiting :: "bool \<Rightarrow> string \<Rightarrow> run_sys \<Rightarrow> wait_select list \<Rightarrow> string list \<Rightarrow> string list \<Rightarrow> run_sys \<Rightarrow> bool"
  for rel i s0 where
  begin_wait: "waiting rel i s0 [] [] [] s0"
| line: "waiting rel i s0 evs sent cur s \<Longrightarrow> lookup_run (sys_m s) i = Some rs \<Longrightarrow> \<not> terminalRunStatus (rs_status rs) \<Longrightarrow>
    io_ok rel io \<Longrightarrow> length cur < m_eventCapacity (sys_m s) \<Longrightarrow>
    waiting rel i s0 evs sent (cur @ [ln]) (s\<lparr>sys_m := recordEvent io ln rs (sys_m s)\<rparr>)"
| other: "waiting rel i s0 evs sent cur s \<Longrightarrow> run_step rel s s' \<Longrightarrow>
    map_option rs_eventTotal (lookup_run (sys_m s') i) = map_option rs_eventTotal (lookup_run (sys_m s) i) \<Longrightarrow>
    waiting rel i s0 evs sent cur s'"
| tick: "waiting rel i s0 evs sent cur s \<Longrightarrow> waiting rel i s0 (evs @ [Ticked (sys_m s) (sys_m s)]) (sent @ cur) [] s"

definition lines_at :: "string \<Rightarrow> run_sys \<Rightarrow> string list \<Rightarrow> string list \<Rightarrow> bool" where
  "lines_at i s sent cur \<longleftrightarrow>
     (\<exists>rs. lookup_run (sys_m s) i = Some rs \<and> rs_lifeStop rs \<and> rs_eventTotal rs = length (sent @ cur) \<and>
        event_ring rs = last_n (m_eventCapacity (sys_m s)) (sent @ cur)) \<and> length cur \<le> m_eventCapacity (sys_m s)"

lemma own_ring:
  assumes "runs_wf m" and "lookup_run m i = Some rs" and "rs_lifeStop rs"
  shows "rs_eventKept rs = min (rs_eventTotal rs) (m_eventCapacity m)" and "length (rs_events rs) = m_eventCapacity m"
  using runs_wf_lookup [OF assms(1,2)] assms(3) by (auto simp: rs_ok_def ring_ok_def)

lemma flush_all:
  assumes "runs_wf (sys_m s)" and "lines_at i s sent cur"
  shows "forwardRunEvents True i (length sent) (sys_m s) (sys_m s) = (cur, length cur)"
proof -
  obtain rs where rs: "lookup_run (sys_m s) i = Some rs" "rs_lifeStop rs" "rs_eventTotal rs = length (sent @ cur)"
    and ring: "event_ring rs = last_n (m_eventCapacity (sys_m s)) (sent @ cur)" and le: "length cur \<le> m_eventCapacity (sys_m s)"
    using assms(2) by (auto simp: lines_at_def)
  let ?n = "length cur"
  note kept = own_ring(1) [OF assms(1) rs(1,2)]
  have "ring_contents (rs_events rs) (rs_eventTotal rs) ?n = last_n ?n (event_ring rs)"
    by (rule ring_newest) (use kept le rs(3) in auto)
  also have "\<dots> = cur" using le by (simp add: ring last_n_smaller) (simp add: last_n_def)
  finally have newest: "ring_contents (rs_events rs) (rs_eventTotal rs) ?n = cur" .
  have "Events i (int ?n) (sys_m s) = cur" if "cur \<noteq> []"
    using that newest kept le rs(1,3) by (cases "?n < rs_eventKept rs") (auto simp: Events_def Let_def)
  then show ?thesis
    using rs(1,3) by (cases "cur = []") (auto simp: forwardRunEvents_def Get_def snapshotLocked_def)
qed

lemma lines_at_record:
  assumes "runs_wf (sys_m s)" and "lines_at i s sent cur" and "lookup_run (sys_m s) i = Some rs"
    and "\<not> terminalRunStatus (rs_status rs)" and "length cur < m_eventCapacity (sys_m s)"
  shows "lines_at i (s\<lparr>sys_m := recordEvent io ln rs (sys_m s)\<rparr>) sent (cur @ [ln])"
proof -
  let ?cap = "m_eventCapacity (sys_m s)"
  have ok: "rs_ok ?cap rs" "0 < ?cap" using assms(1,3) runs_wf_lookup by (auto simp: runs_wf_def)
  obtain rs1 m1 where eq: "recordEvent io ln rs (sys_m s) = put_run rs1 m1" and rs1: "rs_id rs1 = rs_id rs"
      "rs_lifeStop rs1 = rs_lifeStop rs" and same: "m_same (sys_m s) m1"
    and ring: "event_ring rs1 = last_n ?cap (event_ring rs @ [ln])"
    by (rule recordEvent_effect [OF ok assms(4)])
  have total: "rs_eventTotal rs1 = Suc (rs_eventTotal rs)"
    using record_total [OF assms(4), of io ln "sys_m s" rs1] eq rs1(1) by simp
  then show ?thesis
    using assms(2,3,5) rs1 same ring lookup_run_id [OF assms(3)] last_n_append_idem [of ?cap "sent @ cur" "[ln]"]
    by (auto simp: lines_at_def eq m_same_def)
qed

lemma lines_at_other:
  assumes "run_step rel s s'" and "sys_wf s" and "sys_wf s'" and "lines_at i s sent cur"
    and "map_option rs_eventTotal (lookup_run (sys_m s') i) = map_option rs_eventTotal (lookup_run (sys_m s) i)"
  shows "lines_at i s' sent cur"
proof -
  obtain rs where rs: "lookup_run (sys_m s) i = Some rs" "rs_lifeStop rs" using assms(4) by (auto simp: lines_at_def)
  obtain rs' where rs': "lookup_run (sys_m s') i = Some rs'" "keeps_lines rs rs'"
    using run_step_keeps [OF assms(1,2)] rs(1) assms(5) unfolding lines_kept_def by fastforce
  have "length (rs_events rs) = m_eventCapacity (sys_m s)" "length (rs_events rs') = m_eventCapacity (sys_m s')"
    using own_ring(2) [OF _ rs] own_ring(2) [OF _ rs'(1)] assms(2,3) rs(2) rs'(2) by (simp_all add: sys_wf_def keeps_lines_def)
  then have "m_eventCapacity (sys_m s') = m_eventCapacity (sys_m s)" using rs'(2) by (simp add: keeps_lines_def)
  then show ?thesis using assms(4) rs rs' by (auto simp: lines_at_def keeps_lines_def)
qed

lemma waiting_lines:
  assumes "waiting rel i s0 evs sent cur s" and "run_reach rel s0" and "lines_at i s0 [] []"
  shows "run_reach rel s \<and> lines_at i s sent cur \<and>
    (\<forall>later. waitRun True i 0 (evs @ later) = (let (more, res) = waitRun True i (length sent) later in (sent @ more, res)))"
  using assms
proof (induction rule: waiting.induct)
  case (line evs sent cur s rs io ln)
  then have IH: "run_reach rel s" "lines_at i s sent cur" by auto
  have "runs_wf (sys_m s)" using run_reach_wf [OF IH(1)] by (simp add: sys_wf_def)
  with lines_at_record [OF _ IH(2) line(2,3,5)] run_reach.step [OF IH(1) run_step.record_line [OF line(2,4)]] line
  show ?case by simp
next
  case (other evs sent cur s s')
  then have IH: "run_reach rel s" "lines_at i s sent cur" by auto
  have reach: "run_reach rel s'" by (rule run_reach.step [OF IH(1) other(2)])
  with lines_at_other [OF other(2) run_reach_wf [OF IH(1)] run_reach_wf [OF reach] IH(2) other(3)] other show ?case by simp
next
  case (tick evs sent cur s)
  then have IH: "run_reach rel s" "lines_at i s sent cur" by auto
  then have "forwardRunEvents True i (length sent) (sys_m s) (sys_m s) = (cur, length cur)"
    using run_reach_wf [OF IH(1)] by (intro flush_all) (simp_all add: sys_wf_def)
  moreover have "lines_at i s (sent @ cur) []" using IH(2) by (simp add: lines_at_def)
  ultimately show ?case using tick by (auto simp: Let_def split: prod.split)
qed (simp add: Let_def split: prod.split)

lemma sample_total: "rs_eventTotal sample_rs = 0"
  by code_simp

text \<open>
  (C35) The progress of the \<open>agent\<close> tool is complete and in order. The tool starts to wait for a run that has recorded
  nothing yet; from then on the manager makes any steps and the timer fires at any moments, with no more lines
  between two flushes than the run keeps and no line between the two reads of a flush. When the wait is over, with
  whatever result, \<open>waitRun\<close> returns that result and has passed on exactly the lines that the run recorded, each
  once, in the order of recording; when the run has finished, these are as many as its snapshot counts.
\<close>

theorem progress_complete:
  assumes "run_reach rel s0" and "lookup_run (sys_m s0) i = Some rs0" and "\<not> terminalRunStatus (rs_status rs0)"
    and "rs_eventTotal rs0 = 0" and "waiting rel i s0 evs sent cur s"
  shows "waitRun True i 0 (evs @ [Waited res (sys_m s) (sys_m s)]) = (sent @ cur, Some res) \<and>
    (\<forall>snap. Wait i (sys_m s) = Some (Inr snap) \<longrightarrow> AR_EventCount snap = length (sent @ cur))"
proof -
  have wf0: "runs_wf (sys_m s0)" using run_reach_wf [OF assms(1)] by (simp add: sys_wf_def)
  have "rs_lifeStop rs0" using runs_wf_lookup [OF wf0 assms(2)] assms(3) by (simp add: rs_ok_def)
  moreover have "event_ring rs0 = []" using live_ring [OF wf0 assms(2,3)] assms(4) by simp
  ultimately have "lines_at i s0 [] []" using assms(2,4) by (simp add: lines_at_def last_n_def)
  from waiting_lines [OF assms(5,1) this] have w: "run_reach rel s" "lines_at i s sent cur"
    and all: "\<And>later. waitRun True i 0 (evs @ later) = (let (more, res) = waitRun True i (length sent) later in (sent @ more, res))"
    by blast+
  have "forwardRunEvents True i (length sent) (sys_m s) (sys_m s) = (cur, length cur)"
    using run_reach_wf [OF w(1)] w(2) by (intro flush_all) (simp_all add: sys_wf_def)
  then have "waitRun True i 0 (evs @ [Waited res (sys_m s) (sys_m s)]) = (sent @ cur, Some res)" by (simp add: all)
  moreover have "AR_EventCount snap = length (sent @ cur)" if "Wait i (sys_m s) = Some (Inr snap)" for snap
    using w(2) that by (auto simp: lines_at_def Wait_def snapshotLocked_def split: if_splits)
  ultimately show ?thesis by blast
qed

definition progress_m1 :: RunManager where "progress_m1 = recordEvent sample_io ''a'' sample_rs sample_m1"
definition progress_m2 :: RunManager where "progress_m2 = fst (Cancel ''run_a'' progress_m1)"
definition progress_rs :: runState where "progress_rs = the (lookup_run progress_m2 ''run_a'')"
definition progress_m3 :: RunManager where "progress_m3 = finish sample_io RunCancelled [] None progress_rs progress_m2"

lemma progress_facts:
  "map_option rs_eventTotal (lookup_run progress_m1 ''run_a'') = Some 1"
  "map_option rs_eventTotal (lookup_run progress_m2 ''run_a'') = Some 1"
  "map_option (\<lambda>rs. (rs_id rs, rs_cancelled rs)) (lookup_run progress_m2 ''run_a'') = Some (''run_a'', True)"
  by code_simp+

lemma progress_cancelled: "lookup_run progress_m2 ''run_a'' = Some progress_rs" "rs_cancelled progress_rs" "rs_eventTotal progress_rs = 1"
  using progress_facts by (auto simp: progress_rs_def)

abbreviation progress_s2 :: run_sys where "progress_s2 \<equiv> \<lparr>sys_m = progress_m2, sys_go = [(''run_a'', PcSelect)]\<rparr>"

lemma progress_steps:
  "run_reach True progress_s2" "waiting True ''run_a'' sample_sys [Ticked sample_m1 sample_m1] [] [''a''] progress_s2"
proof -
  let ?s1 = "\<lparr>sys_m = progress_m1, sys_go = [(''run_a'', PcSelect)]\<rparr>"
  have w0: "waiting True ''run_a'' sample_sys [Ticked sample_m1 sample_m1] [] [] sample_sys"
    using waiting.tick [OF waiting.begin_wait, of True "''run_a''" sample_sys] by (simp add: sample_sys_def)
  have look: "lookup_run (sys_m sample_sys) ''run_a'' = Some sample_rs" "io_ok True sample_io"
    using sample_lookup by (simp_all add: sample_sys_def io_ok_def sample_io_def)
  have w1: "waiting True ''run_a'' sample_sys [Ticked sample_m1 sample_m1] [] [''a''] ?s1"
    using waiting.line [OF w0 look(1) _ look(2), of "''a''"] sample_lookup by (simp add: sample_sys_def progress_m1_def)
  have r1: "run_reach True ?s1"
    using run_reach.step [OF sample_reach run_step.record_line [OF look, of "''a''"]] by (simp add: sample_sys_def progress_m1_def)
  have step: "run_step True ?s1 progress_s2"
    using run_step.cancel [of "''run_a''" ?s1 progress_m2 "snd (Cancel ''run_a'' progress_m1)" True] by (simp add: progress_m2_def)
  show "run_reach True progress_s2" by (rule run_reach.step [OF r1 step])
  show "waiting True ''run_a'' sample_sys [Ticked sample_m1 sample_m1] [] [''a''] progress_s2"
    by (rule waiting.other [OF w1 step]) (simp only: run_sys.select_convs progress_facts)
qed

lemma progress_end:
  obtains rs where "lookup_run progress_m3 ''run_a'' = Some rs" and "rs_eventTotal rs = 1" and "rs_done rs = 1"
proof -
  have wf: "runs_wf progress_m2" using run_reach_wf [OF progress_steps(1)] by (simp add: sys_wf_def)
  have ok: "rs_ok (m_eventCapacity progress_m2) progress_rs" "0 < m_eventCapacity progress_m2"
    using runs_wf_lookup [OF wf progress_cancelled(1)] wf by (simp_all add: runs_wf_def)
  have total: "\<exists>rs. lookup_run progress_m3 ''run_a'' = Some rs \<and> rs_eventTotal rs = 1"
    using finish_lookup(1) [OF progress_cancelled(1), of sample_io RunCancelled "[]" None] progress_cancelled(3)
    by (auto simp: progress_m3_def keeps_lines_def)
  show thesis
  proof (cases "terminalRunStatus (rs_status progress_rs)")
    case True
    then have "progress_m3 = progress_m2" by (simp add: progress_m3_def finish_def)
    then show thesis using that [of progress_rs] progress_cancelled ok(1) True by (simp add: rs_ok_def)
  next
    case False
    have tc: "terminalRunStatus RunCancelled" by simp
    obtain rs' m' where m3: "progress_m3 = put_run rs' m'" and rs': "rs_ok (m_eventCapacity progress_m2) rs'"
      "terminalRunStatus (rs_status rs')" "rs_id rs' = rs_id progress_rs"
      unfolding progress_m3_def by (rule finish_effect [OF ok False tc])
    then have "lookup_run progress_m3 ''run_a'' = Some rs'"
      unfolding m3 lookup_put_run using lookup_run_id [OF progress_cancelled(1)] by simp
    moreover have "rs_done rs' = 1" using rs' by (simp add: rs_ok_def)
    ultimately show thesis using that [of rs'] total by simp
  qed
qed

lemma progress_waiting:
  "waiting True ''run_a'' sample_sys [Ticked sample_m1 sample_m1] [] [''a''] \<lparr>sys_m = progress_m3, sys_go = [(''run_a'', PcExit)]\<rparr>"
proof -
  have "at_pc progress_s2 0 progress_rs PcSelect" using progress_cancelled(1) by (simp add: at_pc_def)
  moreover have "ctx_done (sys_m progress_s2) progress_rs" using progress_cancelled(2) by (simp add: ctx_done_def)
  ultimately have "go_step True progress_s2 (set_pc 0 PcExit progress_m3 progress_s2)"
    using go_step.give_up [of progress_s2 0 progress_rs True sample_io] by (simp add: io_ok_def sample_io_def progress_m3_def)
  moreover have "set_pc 0 PcExit progress_m3 progress_s2 = \<lparr>sys_m = progress_m3, sys_go = [(''run_a'', PcExit)]\<rparr>"
    by (simp add: set_pc_def)
  ultimately have "run_step True progress_s2 \<lparr>sys_m = progress_m3, sys_go = [(''run_a'', PcExit)]\<rparr>"
    using run_step.go by metis
  moreover obtain rs where "lookup_run progress_m3 ''run_a'' = Some rs" "rs_eventTotal rs = 1" by (rule progress_end)
  ultimately show ?thesis using waiting.other [OF progress_steps(2)] progress_facts(2) by simp
qed

theorem progress_complete_witness:
  "\<exists>snap. Wait ''run_a'' progress_m3 = Some (Inr snap) \<and> AR_EventCount snap = 1 \<and>
     waitRun True ''run_a'' 0 [Ticked sample_m1 sample_m1, Waited (Inr snap) progress_m3 progress_m3] = ([''a''], Some (Inr snap))"
proof -
  obtain rs where "lookup_run progress_m3 ''run_a'' = Some rs" "rs_done rs = 1" by (rule progress_end)
  then have snap: "Wait ''run_a'' progress_m3 = Some (Inr (snapshotLocked rs))" by (simp add: Wait_def)
  have look: "lookup_run (sys_m sample_sys) ''run_a'' = Some sample_rs" "\<not> terminalRunStatus (rs_status sample_rs)"
    using sample_lookup by (simp_all add: sample_sys_def)
  note all = progress_complete [OF sample_reach look sample_total progress_waiting, of "Inr (snapshotLocked rs)"]
  show ?thesis
    by (rule exI [of _ "snapshotLocked rs"]) (use all snap in \<open>simp del: waitRun.simps\<close>)
qed

lemma flushed_events: "forwardRunEvents True i sent m1 m2 = (lines, n) \<Longrightarrow> 0 < n \<Longrightarrow> Events i (int n) m2 = lines"
  by (auto simp: forwardRunEvents_def Let_def split: option.splits if_splits)

text \<open>
  A line recorded between the two reads of a poll is passed on in place of an older one, and again by the next
  poll: of two lines \<open>a\<close> and \<open>b\<close>, the first is lost and the second arrives twice.
\<close>

theorem progress_race:
  assumes "run_reach rel s" and "lookup_run (sys_m s) i = Some rs" and "\<not> terminalRunStatus (rs_status rs)"
  shows "waitRun True i (rs_eventTotal rs)
    [Ticked (record_lines io i [a] (sys_m s)) (record_lines io i [a, b] (sys_m s)),
     Waited res (record_lines io i [a, b] (sys_m s)) (record_lines io i [a, b] (sys_m s))] = ([b, b], Some res)"
proof -
  let ?m = "sys_m s" and ?m1 = "record_lines io i [a] (sys_m s)" and ?m2 = "record_lines io i [a, b] (sys_m s)"
  have wf: "runs_wf ?m" using run_reach_wf [OF assms(1)] by (simp add: sys_wf_def)
  obtain rs1 where rs1: "lookup_run ?m1 i = Some rs1" "\<not> terminalRunStatus (rs_status rs1)" "runs_wf ?m1"
      "rs_eventTotal rs1 = Suc (rs_eventTotal rs)"
    using record_lines_effect [OF wf assms(2,3), of io "[a]"] by auto
  have "0 < m_eventCapacity ?m1" using rs1(3) by (simp add: runs_wf_def)
  then have flush: "forwardRunEvents True i (rs_eventTotal rs1) ?m2 ?m2 = ([b], 1)"
    using flush_lines [OF rs1(3,1,2), of "[b]" ?m2 io] rs1(1) assms(2) by (simp add: Suc_le_eq)
  then have "Events i 1 ?m2 = [b]" using flushed_events by fastforce
  then have "forwardRunEvents True i (rs_eventTotal rs) ?m1 ?m2 = ([b], 1)"
    using rs1(1,4) by (simp add: forwardRunEvents_def Get_def snapshotLocked_def)
  with flush rs1(4) show ?thesis by simp
qed

theorem progress_race_witness:
  "waitRun True ''run_a'' 0
    [Ticked (record_lines sample_io ''run_a'' [''a''] sample_m1) (record_lines sample_io ''run_a'' [''a'', ''b''] sample_m1),
     Waited (Inl run_error.ErrContext) (record_lines sample_io ''run_a'' [''a'', ''b''] sample_m1) (record_lines sample_io ''run_a'' [''a'', ''b''] sample_m1)] =
   ([''b'', ''b''], Some (Inl run_error.ErrContext))"
proof -
  have "lookup_run (sys_m sample_sys) ''run_a'' = Some sample_rs" "\<not> terminalRunStatus (rs_status sample_rs)"
    using sample_lookup by (simp_all add: sample_sys_def)
  from progress_race [OF sample_reach this, of sample_io "''a''" "''b''"] show ?thesis
    by (simp only: sample_sys_def sample_total run_sys.select_convs)
qed

end
