(* ===== verification/ToolProperties.thy ===== *)
theory ToolProperties
  imports ToolDispatch AgentProperties
begin

text \<open>
  The tools from the manager's call to the operation on the client and back: the answers of the dispatch have the
  declared shapes, the arguments arrive as they were given, and what the file tools accept.
\<close>

section \<open>Shapes\<close>

lemma shape_list:
  assumes "\<forall>e \<in> set es. Entry_Type e \<in> {''file'', ''dir'', ''symlink''}"
  shows "\<exists>v. forward_result ''list'' args (Inr (RawJson (JArr (map DirEntry_json es)))) = Inr v \<and> tool_accepts ''list'' v"
  using assms
  by (auto simp: forward_result_def toolOutputPayload_def arrayPayload_def Let_def tool_accepts_def toolOutputSchemas_def
      dirEntryOutputSchema_def DirEntry_json_def list_all_iff map_add_def)

lemma shape_read: "tool_accepts ''read'' (ReadFileResult_json r)"
  by (simp add: tool_accepts_def toolOutputSchemas_def ReadFileResult_json_def)

lemma patch_shape: "conforms patchOutputSchema (ApplyPatchResult_json r)"
  by (auto simp: patchOutputSchema_def ApplyPatchResult_json_def patchSummaryOutputSchema_def PatchSummary_json_def
      list_all_iff map_add_def)

lemma shape_patch: "tool \<in> {''write'', ''edit'', ''apply_patch''} \<Longrightarrow> tool_accepts tool (ApplyPatchResult_json r)"
  by (elim insertE emptyE; simp add: tool_accepts_def toolOutputSchemas_def patch_shape)

lemma shape_rollback:
  "\<exists>v. forward_result ''rollback_patch'' args (Inr (RawJson (RollbackResult_json r))) = Inr v \<and> tool_accepts ''rollback_patch'' v"
  by (auto simp: forward_result_def toolOutputPayload_def Let_def tool_accepts_def toolOutputSchemas_def rollbackOutputSchema_def
      schemaStringArray_def RollbackResult_json_def list_all_iff map_add_def)

lemma shape_bash: "tool_accepts ''bash'' (bash_json r)"
  by (auto simp: tool_accepts_def toolOutputSchemas_def bashOutputSchema_def bash_json_def map_add_def split: option.split)

lemma shape_grant: "tool_accepts ''permission_grant'' (grant_json r)"
  by (cases r) (auto simp: tool_accepts_def toolOutputSchemas_def permissionGrantOutputSchema_def permissionRuleOutputSchema_def
      PermissionRule_json_def map_add_def)

lemma shape_agents_list: "tool_accepts ''agents_list'' (JObj [(''agents'', JArr (map AgentCatalogEntry_json cs))])"
  by (auto simp: tool_accepts_def toolOutputSchemas_def agentCatalogEntryOutputSchema_def AgentCatalogEntry_json_def
      list_all_iff map_add_def)

lemma list_entries_types:
  "\<forall>e \<in> set (list_entries allow fs dirSize place rel names). Entry_Type e \<in> {''file'', ''dir'', ''symlink''}"
  by (induction names) (auto simp: entry_of_def Let_def split: option.splits node.splits)

lemma listDirectory_types:
  assumes "listDirectory allow fs cwd readdir dirSize order root rel = Inr es" and "\<And>xs. mset (order xs) = mset xs"
  shows "\<forall>e \<in> set es. Entry_Type e \<in> {''file'', ''dir'', ''symlink''}"
proof -
  obtain place names where "es = order (list_entries allow fs dirSize place rel names)"
    using assms(1) by (auto simp: listDirectory_def Let_def split: sum.splits prod.splits node.splits if_splits)
  then have "set es = set (list_entries allow fs dirSize place rel names)"
    using mset_eq_setD [OF assms(2)] by simp
  then show ?thesis using list_entries_types by blast
qed

lemma exec_files_Ok: "exec_files enc w r = (w', ExecOk v) \<Longrightarrow> \<exists>x. v = enc x"
  by (auto simp: exec_files_def split: sum.splits)

lemma exec_bash_Ok: "exec_bash env root command w = (w', ExecOk v) \<Longrightarrow> \<exists>r. v = bash_json r"
  by (auto simp: exec_bash_def Let_def split: prod.splits bash_outcome.splits)

lemma forward_plain:
  "tool \<noteq> ''list'' \<Longrightarrow> tool \<noteq> ''rollback_patch'' \<Longrightarrow> forward_result tool args (Inr (RawJson v)) = Inr v"
  by (simp add: forward_result_def toolOutputPayload_def)

text \<open>The answer of the dispatch, by tool.\<close>

lemma Execute_shapes:
  assumes "Execute env req w = (w', ExecOk v)"
  shows "tr_Tool req = ''agents_list'' \<Longrightarrow> \<exists>cs. v = JObj [(''agents'', JArr (map AgentCatalogEntry_json cs))]"
    and "tr_Tool req = ''list'' \<Longrightarrow> \<exists>allow fs cwd root rel es. v = JArr (map DirEntry_json es) \<and>
      listDirectory allow fs cwd (xe_readdir env) (xe_dirSize env) (xe_order env) root rel = Inr es"
    and "tr_Tool req = ''read'' \<Longrightarrow> \<exists>r. v = ReadFileResult_json r"
    and "tr_Tool req = ''bash'' \<Longrightarrow> \<exists>r. v = bash_json r"
    and "tr_Tool req \<in> {''edit'', ''write'', ''apply_patch''} \<Longrightarrow> \<exists>r. v = ApplyPatchResult_json r"
    and "tr_Tool req = ''rollback_patch'' \<Longrightarrow> \<exists>r. v = RollbackResult_json r"
    and "tr_Tool req = ''permission_grant'' \<Longrightarrow> \<exists>r. v = grant_json r"
proof -
  note dispatch = Execute_def Let_def
  show "\<exists>cs. v = JObj [(''agents'', JArr (map AgentCatalogEntry_json cs))]" if "tr_Tool req = ''agents_list''"
    using that assms by (auto simp: dispatch)
  show "\<exists>allow fs cwd root rel es. v = JArr (map DirEntry_json es) \<and>
      listDirectory allow fs cwd (xe_readdir env) (xe_dirSize env) (xe_order env) root rel = Inr es" if "tr_Tool req = ''list''"
    using that assms by (simp add: dispatch split: option.splits sum.splits) blast
  show "\<exists>r. v = ReadFileResult_json r" if "tr_Tool req = ''read''"
    using that assms by (auto simp: dispatch split: option.splits sum.splits)
  show "\<exists>r. v = bash_json r" if "tr_Tool req = ''bash''"
    using that assms by (simp add: dispatch exec_bash_Ok split: option.splits)
  show "\<exists>r. v = ApplyPatchResult_json r" if "tr_Tool req \<in> {''edit'', ''write'', ''apply_patch''}"
    using that assms by (elim insertE emptyE) (simp_all add: dispatch exec_files_Ok split: option.splits)
  show "\<exists>r. v = RollbackResult_json r" if "tr_Tool req = ''rollback_patch''"
    using that assms by (simp add: dispatch exec_files_Ok split: option.splits)
  show "\<exists>r. v = grant_json r" if "tr_Tool req = ''permission_grant''"
    using that assms by (auto simp: dispatch split: option.splits prod.splits sum.splits)
qed

text \<open>
  (C34) The answers of the client's dispatch have the shapes that the manager declares: for every built-in tool that the
  dispatch serves, in any state of the files, the checkpoints and the permissions, the value that the client returns
  is turned by the manager into a value that the tool's output schema accepts, the bare array of a listing and the null
  of a rollback that restored nothing included.
\<close>

theorem execute_replies_conform:
  assumes "Execute env req w = (w', ExecOk v)" and "tr_Tool req \<in> set builtinToolNames"
    and "\<And>es. mset (xe_order env es) = mset es"
  shows "\<exists>out. forward_result (tr_Tool req) args (Inr (RawJson v)) = Inr out \<and> tool_accepts (tr_Tool req) out"
proof -
  note shapes = Execute_shapes [OF assms(1)]
  have "tr_Tool req \<notin> {''agent'', ''agent_start'', ''agent_status'', ''agent_result'', ''agent_cancel'', ''agent_runs'',
      ''list_devices'', ''list_workspaces''}"
    using assms(1) by (auto simp: Execute_def Let_def legacyTools_def split: option.splits)
  then consider (catalog) "tr_Tool req = ''agents_list''" | (list) "tr_Tool req = ''list''" | (read) "tr_Tool req = ''read''"
    | (bash) "tr_Tool req = ''bash''" | (patch) "tr_Tool req \<in> {''edit'', ''write'', ''apply_patch''}"
    | (rollback) "tr_Tool req = ''rollback_patch''" | (grant) "tr_Tool req = ''permission_grant''"
    using assms(2) unfolding builtinToolNames_def list.set by blast
  then show ?thesis
  proof cases
    case list
    then obtain allow fs cwd root rel es where "v = JArr (map DirEntry_json es)"
      and "listDirectory allow fs cwd (xe_readdir env) (xe_dirSize env) (xe_order env) root rel = Inr es"
      using shapes(2) by blast
    then show ?thesis using list shape_list listDirectory_types assms(3) by metis
  next
    case rollback
    then show ?thesis using shapes(6) shape_rollback by metis
  next
    case catalog
    then show ?thesis using shapes(1) shape_agents_list forward_plain [of "tr_Tool req" args v] by auto
  next
    case read
    then show ?thesis using shapes(3) shape_read forward_plain [of "tr_Tool req" args v] by auto
  next
    case bash
    then show ?thesis using shapes(4) shape_bash forward_plain [of "tr_Tool req" args v] by auto
  next
    case patch
    then obtain r where v: "v = ApplyPatchResult_json r" using shapes(5) by blast
    have "tr_Tool req \<noteq> ''list'' \<and> tr_Tool req \<noteq> ''rollback_patch''" using patch by auto
    then show ?thesis using v patch shape_patch [of "tr_Tool req" r] forward_plain [of "tr_Tool req" args v] by blast
  next
    case grant
    then show ?thesis using shapes(7) shape_grant forward_plain [of "tr_Tool req" args v] by auto
  qed
qed

definition tool_io :: patch_io where
  "tool_io =
     \<lparr>io_sha256 = (\<lambda>c. replicate 64 (CHR ''a'')), io_cwd = None, io_umask = (\<lambda>m. m), io_readdir = (\<lambda>fs q. []), io_now = 1,
      io_random = Some [1, 2], io_blob = (\<lambda>n. BlobFine), io_stuck = (\<lambda>n. False), io_persist = True, io_write = (\<lambda>k. WriteFine),
      io_restore = (\<lambda>k. WriteFine)\<rparr>"

definition dispatch_env :: exec_env where
  "dispatch_env =
     \<lparr>xe_io = tool_io, xe_service = \<lparr>Writable = (\<lambda>w. w = ''ws''), AllowSensitiveFiles = False\<rparr>, xe_roots = [(''ws'', ''/w'')],
      xe_readdir = (\<lambda>q. [''a.txt'']), xe_dirSize = 0, xe_order = id, xe_t1 = 1, xe_t2 = 2, xe_newid = ''perm_1'',
      xe_error_text = (\<lambda>e. ''error''), xe_run = (\<lambda>r c. ([], RunOk)), xe_profiles = []\<rparr>"

definition tool_world :: exec_world where
  "tool_world =
     \<lparr>xw_files = (sample_fs, \<lparr>sd_blobs = (\<lambda>n. None), sd_store = NoStoreFile\<rparr>),
      xw_perms = \<lparr>perm_rules = [], perm_pending = [], perm_granted = []\<rparr>\<rparr>"

definition tool_input :: EditInput where
  "tool_input =
     \<lparr>EI_DeviceID = ''d'', EI_Workspace = ''ws'', EI_Path = ''new.txt'', EI_Content = ''text'', EI_OldText = [], EI_NewText = [],
      EI_Preview = False, EI_Confirm = True\<rparr>"

definition exec_ok :: "exec_world \<times> exec_outcome \<Rightarrow> bool" where
  "exec_ok r = (case snd r of ExecOk v \<Rightarrow> True | _ \<Rightarrow> False)"

lemma exec_okE: assumes "exec_ok r" obtains w' v where "r = (w', ExecOk v)"
  using assms that by (cases r) (auto simp: exec_ok_def split: exec_outcome.splits)

lemma sample_write_ok: "exec_ok (Execute dispatch_env (protocolRequest (tool_write tool_input)) tool_world)"
  by code_simp

lemma sample_list_ok: "exec_ok (Execute dispatch_env (protocolRequest (tool_list \<lparr>LI_DeviceID = ''d'', LI_Workspace = ''ws'', LI_Path = []\<rparr>)) tool_world)"
  by code_simp

theorem execute_replies_conform_witness:
  "\<exists>w' v out. Execute dispatch_env (protocolRequest (tool_list \<lparr>LI_DeviceID = ''d'', LI_Workspace = ''ws'', LI_Path = []\<rparr>)) tool_world =
       (w', ExecOk v) \<and>
     forward_result ''list'' [(''path'', JStr ''.'')] (Inr (RawJson v)) = Inr out \<and> tool_accepts ''list'' out"
proof -
  let ?req = "protocolRequest (tool_list \<lparr>LI_DeviceID = ''d'', LI_Workspace = ''ws'', LI_Path = []\<rparr>)"
  obtain w' v where run: "Execute dispatch_env ?req tool_world = (w', ExecOk v)" using sample_list_ok by (rule exec_okE)
  have tool: "tr_Tool ?req = ''list''" by (simp add: protocolRequest_def tool_list_def)
  then have "tr_Tool ?req \<in> set builtinToolNames" by (simp add: builtinToolNames_def)
  moreover have "mset (xe_order dispatch_env es) = mset es" for es by (simp add: dispatch_env_def)
  ultimately show ?thesis
    using execute_replies_conform [OF run, of "[(''path'', JStr ''.'')]"] run tool by auto
qed

section \<open>Arguments\<close>

definition as_edit :: "PatchEdit \<Rightarrow> FileEdit" where
  "as_edit e = \<lparr>Edit_Path = PE_Path e, Edit_OldText = PE_OldText e, Edit_NewText = PE_NewText e\<rparr>"

lemma parse_edits: "parse_items (map edit_json edits) = map as_edit (filter (\<lambda>e. PE_Path e \<noteq> []) edits)"
  by (induction edits) (simp_all add: edit_json_def stringArg_def as_edit_def)

text \<open>
  Arguments cross from the manager's tools to the client's operations unchanged: the client reads from an
  \<open>apply_patch\<close> request exactly the edits of the call whose path is not empty, in order, with the preview and confirm
  flags of the call, and from an \<open>agent\<close> or \<open>agent_start\<close> request the run specification of the call, for the
  workspace of the call. An edit without a path is dropped and not refused.
\<close>

theorem arguments_arrive:
  "parseFileEdits (map_of (tr_Args (protocolRequest (tool_apply_patch i))) ''edits'') =
     map as_edit (filter (\<lambda>e. PE_Path e \<noteq> []) (AI_Edits i)) \<and>
   boolArg (tr_Args (protocolRequest (tool_apply_patch i))) ''preview'' False = AI_Preview i \<and>
   boolArg (tr_Args (protocolRequest (tool_apply_patch i))) ''confirm'' False = AI_Confirm i \<and>
   agentRunSpec (protocolRequest (tool_agent_start j)) =
     \<lparr>Spec_Workspace = AG_Workspace j, Spec_Task = AG_Task j, Spec_Client = AG_Client j, Spec_Agent = AG_Agent j,
      Spec_Model = AG_Model j, Spec_Thinking = AG_Thinking j, Spec_TimeoutSeconds = AG_TimeoutSeconds j\<rparr> \<and>
   agentRunSpec (protocolRequest (tool_agent j)) = agentRunSpec (protocolRequest (tool_agent_start j))"
  by (simp add: protocolRequest_def tool_apply_patch_def tool_agent_start_def tool_agent_def parseFileEdits_def parse_edits
      boolArg_def agentRunSpec_def stringArg_def intArgAny_def)

section \<open>Files\<close>

lemma applyPatch_planned:
  assumes "applyPatch io s workspace root edits preview confirm (fs, sd) = (w', Inr res)"
  shows "\<exists>rootReal fs1 planned. plan_edits io fs root rootReal edits [] 0 [] = (fs1, Inr planned)"
  using assms by (auto simp: applyPatch_def Let_def split: if_splits sum.splits prod.splits)

lemma single_edit_planned:
  assumes "applyPatch io s workspace root [e] preview confirm (fs, sd) = (w', Inr res)"
  obtains action target where "edit_action e = Some action"
    and "ResolveUnderRoot fs (io_cwd io) root (logicalPath (trim_space (Edit_Path e))) = Inr target"
    and "action = ACreate \<longrightarrow> Lstat fs target = Inl ErrNotExist"
    and "action = ADelete \<longrightarrow> ReadFile_os fs target = Inr (Edit_OldText e)"
proof -
  let ?rel = "logicalPath (trim_space (Edit_Path e))"
  obtain rootReal fs1 planned where plan: "plan_edits io fs root rootReal [e] [] 0 [] = (fs1, Inr planned)"
    using applyPatch_planned [OF assms] by blast
  obtain action where check: "check_edit e ?rel [] 0 = Inr action"
    using plan by (cases "check_edit e ?rel [] 0") (simp_all add: Let_def)
  have act: "edit_action e = Some action"
    using check by (auto simp: check_edit_def split: if_splits option.splits)
  obtain p where p: "plan_edit io fs root rootReal e ?rel action = (fs1, Inr p)"
    using plan check by (auto simp: Let_def split: prod.splits sum.splits)
  obtain target where target: "ResolveUnderRoot fs (io_cwd io) root ?rel = Inr target"
    using p by (cases "ResolveUnderRoot fs (io_cwd io) root ?rel") (simp_all add: plan_edit_def)
  show thesis
  proof (rule that [OF act target])
    show "action = ACreate \<longrightarrow> Lstat fs target = Inl ErrNotExist"
      using p target by (auto simp: plan_edit_def Let_def split: sum.splits if_splits)
    show "action = ADelete \<longrightarrow> ReadFile_os fs target = Inr (Edit_OldText e)"
      using p target by (auto simp: plan_edit_def Let_def split: sum.splits if_splits)
  qed
qed

lemma exec_files_Inr: "exec_files enc w r = (w', ExecOk v) \<Longrightarrow> \<exists>f x. r = (f, Inr x)"
  by (cases r) (auto simp: exec_files_def split: sum.splits)

text \<open>
  The \<open>write\<close> tool creates and does not overwrite: a write, or the preview of one, succeeds only for a path at
  which nothing exists, and only with content that is not empty. The tool's description offers it for overwriting too.
\<close>

theorem write_only_creates:
  assumes "Execute env (protocolRequest (tool_write i)) w = (w', ExecOk v)" and "map_of (xe_roots env) (EI_Workspace i) = Some root"
  shows "EI_Content i \<noteq> [] \<and>
    (\<exists>target. ResolveUnderRoot (fst (xw_files w)) (io_cwd (xe_io env)) root (logicalPath (trim_space (EI_Path i))) = Inr target \<and>
       Lstat (fst (xw_files w)) target = Inl ErrNotExist)"
proof -
  let ?e = "\<lparr>Edit_Path = EI_Path i, Edit_OldText = [], Edit_NewText = EI_Content i\<rparr>"
  obtain fs sd where files: "xw_files w = (fs, sd)" by fastforce
  obtain f x where run: "applyPatch (xe_io env) (xe_service env) (EI_Workspace i) root [?e] (EI_Preview i) (EI_Confirm i) (fs, sd) = (f, Inr x)"
  proof -
    have "exec_files ApplyPatchResult_json w
        (applyPatch (xe_io env) (xe_service env) (EI_Workspace i) root [?e] (EI_Preview i) (EI_Confirm i) (fs, sd)) = (w', ExecOk v)"
      using assms files by (simp add: Execute_def Let_def protocolRequest_def tool_write_def stringArg_def boolArg_def)
    then show thesis using exec_files_Inr that by blast
  qed
  obtain action target where "edit_action ?e = Some action"
    and target: "ResolveUnderRoot fs (io_cwd (xe_io env)) root (logicalPath (trim_space (Edit_Path ?e))) = Inr target"
    and create: "action = ACreate \<longrightarrow> Lstat fs target = Inl ErrNotExist"
    and "action = ADelete \<longrightarrow> ReadFile_os fs target = Inr (Edit_OldText ?e)"
    by (rule single_edit_planned [OF run])
  then have "EI_Content i \<noteq> []" "action = ACreate" by (auto simp: edit_action_def split: if_splits)
  then show ?thesis using target create files by simp
qed

text \<open>
  An \<open>edit\<close> whose new text is empty is not the removal of a piece of text: it succeeds only when the old text is the
  whole file, which it then deletes.
\<close>

lemma edit_without_text_deletes:
  assumes "Execute env (protocolRequest (tool_edit i)) w = (w', ExecOk v)" and "map_of (xe_roots env) (EI_Workspace i) = Some root"
    and "EI_NewText i = []"
  shows "EI_OldText i \<noteq> [] \<and>
    (\<exists>target. ResolveUnderRoot (fst (xw_files w)) (io_cwd (xe_io env)) root (logicalPath (trim_space (EI_Path i))) = Inr target \<and>
       ReadFile_os (fst (xw_files w)) target = Inr (EI_OldText i))"
proof -
  let ?e = "\<lparr>Edit_Path = EI_Path i, Edit_OldText = EI_OldText i, Edit_NewText = []\<rparr>"
  obtain fs sd where files: "xw_files w = (fs, sd)" by fastforce
  obtain f x where run: "applyPatch (xe_io env) (xe_service env) (EI_Workspace i) root [?e] (EI_Preview i) (EI_Confirm i) (fs, sd) = (f, Inr x)"
  proof -
    have "exec_files ApplyPatchResult_json w
        (applyPatch (xe_io env) (xe_service env) (EI_Workspace i) root [?e] (EI_Preview i) (EI_Confirm i) (fs, sd)) = (w', ExecOk v)"
      using assms files by (simp add: Execute_def Let_def protocolRequest_def tool_edit_def stringArg_def boolArg_def)
    then show thesis using exec_files_Inr that by blast
  qed
  obtain action target where "edit_action ?e = Some action"
    and target: "ResolveUnderRoot fs (io_cwd (xe_io env)) root (logicalPath (trim_space (Edit_Path ?e))) = Inr target"
    and "action = ACreate \<longrightarrow> Lstat fs target = Inl ErrNotExist"
    and delete: "action = ADelete \<longrightarrow> ReadFile_os fs target = Inr (Edit_OldText ?e)"
    by (rule single_edit_planned [OF run])
  then have "EI_OldText i \<noteq> []" "action = ADelete" by (auto simp: edit_action_def split: if_splits)
  then show ?thesis using target delete files by simp
qed

theorem write_only_creates_witness:
  "\<exists>target. ResolveUnderRoot sample_fs None ''/w'' (logicalPath (trim_space ''new.txt'')) = Inr target \<and>
     Lstat sample_fs target = Inl ErrNotExist"
proof -
  obtain w' v where run: "Execute dispatch_env (protocolRequest (tool_write tool_input)) tool_world = (w', ExecOk v)"
    using sample_write_ok by (rule exec_okE)
  have "map_of (xe_roots dispatch_env) (EI_Workspace tool_input) = Some ''/w''" by (simp add: dispatch_env_def tool_input_def)
  from write_only_creates [OF run this] show ?thesis
    by (simp add: dispatch_env_def tool_input_def tool_world_def tool_io_def)
qed

text \<open>Writing over a file that exists is refused.\<close>

lemma sample_overwrite_refused:
  "snd (Execute dispatch_env (protocolRequest (tool_write (tool_input\<lparr>EI_Path := ''a.txt''\<rparr>))) tool_world) =
     ExecErr (ErrPatch (ErrAlreadyExists ''a.txt''))"
  by code_simp

end
