(* ===== verification/SessionIndex.thy ===== *)
theory SessionIndex
  imports Workspace Permissions Subagent
begin

text \<open>
  Session files of the harnesses (\<open>internal/agentops\<close>: \<open>harness_session.go\<close> and the parts that \<open>codex_session.go\<close>
  and \<open>omp_session.go\<close> have in common): the incremental index of a file of JSON lines that a running harness appends
  to, and pages of its records. The two adapters have the same code with different constants and record formats;
  \<open>valid\<close> is \<open>json.Valid\<close>.
\<close>

section \<open>Types\<close>

record HarnessSessionRef =
  HS_Harness :: string
  HS_ID :: string
  HS_Title :: string
  HS_Model :: string
  HS_Thinking :: string
  HS_StartedAt :: gotime
  HS_UpdatedAt :: gotime
  HS_Locator :: string
  HS_root :: string

record SessionEntry =
  SE_SourceSeq :: int
  SE_At :: gotime
  SE_Kind :: string
  SE_Role :: string
  SE_Text :: string
  SE_ToolName :: string
  SE_ToolCall :: string
  SE_Status :: string
  SE_Arguments :: string
  SE_RawType :: string

record HarnessRawRecord =
  HR_SourceSeq :: int
  HR_At :: gotime
  HR_RawType :: string
  HR_Payload :: string

record HarnessLiveEvent =
  LE_Record :: HarnessRawRecord
  LE_Entries :: "SessionEntry list"

record SessionPage =
  Page_Session :: HarnessSessionRef
  Page_Entries :: "SessionEntry list"
  Page_RawRecords :: "HarnessRawRecord list"
  Page_NextCursor :: int
  Page_EOF :: bool

text \<open>An entry with every field zero, for the composite literals of the sources.\<close>

definition entry0 :: SessionEntry where
  "entry0 =
     \<lparr>SE_SourceSeq = 0, SE_At = zero_time, SE_Kind = [], SE_Role = [], SE_Text = [], SE_ToolName = [], SE_ToolCall = [],
      SE_Status = [], SE_Arguments = [], SE_RawType = []\<rparr>"

abbreviation SessionEntryMessage :: string where "SessionEntryMessage \<equiv> ''message''"
abbreviation SessionEntryToolCall :: string where "SessionEntryToolCall \<equiv> ''tool_call''"
abbreviation SessionEntryToolResult :: string where "SessionEntryToolResult \<equiv> ''tool_result''"
abbreviation SessionEntryActivity :: string where "SessionEntryActivity \<equiv> ''activity''"
abbreviation SessionEntryRuntime :: string where "SessionEntryRuntime \<equiv> ''runtime''"
abbreviation SessionEntryError :: string where "SessionEntryError \<equiv> ''error''"

section \<open>The index\<close>

record recordPos =
  pos_seq :: int
  pos_offset :: nat
  pos_length :: nat

record fileIndex =
  ix_offset :: nat
  ix_records :: "recordPos list"

definition empty_index :: fileIndex where
  "empty_index = \<lparr>ix_offset = 0, ix_records = []\<rparr>"

text \<open>\<open>Reader.ReadBytes\<close>: the bytes up to and including a line feed, or the rest and the end of the file.\<close>

definition ReadBytes :: "string \<Rightarrow> string \<times> bool" where
  "ReadBytes s =
     (let line = takeWhile (\<lambda>c. c \<noteq> newline) s
      in if length line < length s then (line @ [newline], False) else (line, True))"

datatype index_error = ErrRecordTooLong | ErrInvalidRecord nat

lemma ReadBytes_shrinks: "ReadBytes s = (line, False) \<Longrightarrow> length s - length line < length s"
  by (cases s) (auto simp: ReadBytes_def Let_def split: if_splits)

function index_loop ::
  "(string \<Rightarrow> bool) \<Rightarrow> nat \<Rightarrow> string \<Rightarrow> nat \<Rightarrow> fileIndex \<Rightarrow> fileIndex \<times> (index_error + recordPos list)"
where
  "index_loop valid maxBytes s cursor idx =
     (let (line, eof) = ReadBytes s
      in if length line > maxBytes then (idx, Inl ErrRecordTooLong)
         else
           let trimmed = trim_space line;
               complete = (line \<noteq> [] \<and> (\<not> eof \<or> trimmed \<noteq> [] \<and> valid trimmed))
           in if complete \<and> trimmed \<noteq> [] \<and> \<not> valid trimmed then (idx, Inl (ErrInvalidRecord cursor))
              else
                let recs = (if complete \<and> trimmed \<noteq> []
                      then ix_records idx @ [\<lparr>pos_seq = int (length (ix_records idx)) + 1, pos_offset = cursor, pos_length = length line\<rparr>]
                      else ix_records idx);
                    cursor = (if complete then cursor + length line else cursor);
                    idx = (if complete then \<lparr>ix_offset = cursor, ix_records = recs\<rparr> else idx)
                in if eof then (idx, Inr (ix_records idx)) else index_loop valid maxBytes (drop (length line) s) cursor idx)"
  by pat_completeness auto
termination
  by (relation "measure (\<lambda>(valid, maxBytes, s, cursor, idx). length s)")
    (auto dest!: ReadBytes_shrinks [OF sym])

declare index_loop.simps [simp del]

text \<open>\<open>content\<close> is the file; an index that is ahead of the file is thrown away.\<close>

definition index_snapshot ::
  "(string \<Rightarrow> bool) \<Rightarrow> nat \<Rightarrow> string \<Rightarrow> fileIndex option \<Rightarrow> fileIndex \<times> (index_error + recordPos list)"
where
  "index_snapshot valid maxBytes content old =
     (let idx = (case old of None \<Rightarrow> empty_index | Some i \<Rightarrow> if length content < ix_offset i then empty_index else i)
      in index_loop valid maxBytes (drop (ix_offset idx) content) (ix_offset idx) idx)"

section \<open>Pages\<close>

text \<open>\<open>sort.Search\<close> of the first record after the cursor.\<close>

definition search_start :: "recordPos list \<Rightarrow> int \<Rightarrow> nat" where
  "search_start positions cursor = length (takeWhile (\<lambda>p. \<not> pos_seq p > cursor) positions)"

definition page_limit :: "int \<Rightarrow> int \<Rightarrow> int \<Rightarrow> nat" where
  "page_limit dflt mx limit =
     (let limit = (if limit \<le> 0 then dflt else limit); limit = (if limit > mx then mx else limit) in nat limit)"

text \<open>\<open>ReadAt\<close> past the end of the file leaves zero bytes.\<close>

definition ReadAt :: "string \<Rightarrow> nat \<Rightarrow> nat \<Rightarrow> string" where
  "ReadAt content off len =
     (let got = take len (drop off content) in got @ replicate (len - length got) (CHR 0x00))"

datatype page_error = ErrCanceled | ErrParse int

text \<open>
  The loop over the positions of a page. \<open>canceled\<close> is \<open>ctx.Err\<close> before the record with the given number, \<open>parse\<close> is the
  reading of one record.
\<close>

fun page_loop ::
  "(int \<Rightarrow> bool) \<Rightarrow> (string \<Rightarrow> int \<Rightarrow> (HarnessRawRecord \<times> SessionEntry list) option) \<Rightarrow> string \<Rightarrow> recordPos list \<Rightarrow>
   SessionPage \<Rightarrow> page_error + SessionPage"
where
  "page_loop canceled parse content [] page = Inr page"
| "page_loop canceled parse content (pos # rest) page =
     (if canceled (pos_seq pos) then Inl ErrCanceled
      else case parse (trim_space (ReadAt content (pos_offset pos) (pos_length pos))) (pos_seq pos) of
             None \<Rightarrow> Inl (ErrParse (pos_seq pos))
           | Some (raw, entries) \<Rightarrow>
               page_loop canceled parse content rest
                 (page\<lparr>Page_RawRecords := Page_RawRecords page @ [raw], Page_Entries := Page_Entries page @ entries,
                       Page_NextCursor := pos_seq pos\<rparr>))"

definition page_stop :: "recordPos list \<Rightarrow> int \<Rightarrow> nat \<Rightarrow> nat" where
  "page_stop positions after limit =
     (let stop = search_start positions after + limit in if stop > length positions then length positions else stop)"

definition read_page ::
  "(int \<Rightarrow> bool) \<Rightarrow> (string \<Rightarrow> int \<Rightarrow> (HarnessRawRecord \<times> SessionEntry list) option) \<Rightarrow> HarnessSessionRef \<Rightarrow> string \<Rightarrow>
   recordPos list \<Rightarrow> int \<Rightarrow> nat \<Rightarrow> page_error + SessionPage"
where
  "read_page canceled parse ref content positions after limit =
     (let start = search_start positions after;
          stop = page_stop positions after limit
      in page_loop canceled parse content (take (stop - start) (drop start positions))
           \<lparr>Page_Session = ref, Page_Entries = [], Page_RawRecords = [], Page_NextCursor = after,
            Page_EOF = (stop = length positions)\<rparr>)"

section \<open>A file of records\<close>

text \<open>
  \<open>session_lines ts\<close> is a file that holds the records \<open>ts\<close>, one on each line. \<open>good_record\<close>: a record has no line feed and
  no white space around it, it is valid, no proper prefix of it is valid (which holds for a JSON object) and it
  fits in the size limit.
\<close>

definition session_lines :: "string list \<Rightarrow> string" where
  "session_lines ts = concat (map (\<lambda>t. t @ [newline]) ts)"

definition good_record :: "(string \<Rightarrow> bool) \<Rightarrow> nat \<Rightarrow> string \<Rightarrow> bool" where
  "good_record valid maxBytes t \<longleftrightarrow>
     t \<noteq> [] \<and> newline \<notin> set t \<and> trim_space t = t \<and> valid t \<and> (\<forall>k < length t. \<not> valid (trim_space (take k t))) \<and>
     length t < maxBytes"

text \<open>The number of records that are whole in the first \<open>n\<close> bytes; the line feed of the last one may be missing.\<close>

fun whole_records :: "nat \<Rightarrow> string list \<Rightarrow> nat" where
  "whole_records n [] = 0"
| "whole_records n (t # ts) = (if length t \<le> n then Suc (whole_records (n - Suc (length t)) ts) else 0)"

text \<open>Positions of consecutive records from the offset \<open>c\<close> on; a record may have been measured without its line feed.\<close>

fun marks :: "nat \<Rightarrow> int \<Rightarrow> recordPos list \<Rightarrow> string list \<Rightarrow> bool" where
  "marks c i [] ts = True"
| "marks c i (r # rs) [] = False"
| "marks c i (r # rs) (t # ts) =
     (pos_seq r = i + 1 \<and> pos_offset r = c \<and> (pos_length r = length t \<or> pos_length r = Suc (length t)) \<and>
      marks (c + Suc (length t)) (i + 1) rs ts)"

lemma session_lines_simps [simp]:
  "session_lines [] = []" "session_lines (t # ts) = t @ newline # session_lines ts"
  by (simp_all add: session_lines_def)

lemma marks_append:
  "length rs \<le> length ts \<Longrightarrow>
   marks c i (rs @ rs') ts \<longleftrightarrow>
     marks c i rs ts \<and> marks (c + length (session_lines (take (length rs) ts))) (i + int (length rs)) rs' (drop (length rs) ts)"
  by (induction c i rs ts rule: marks.induct) (auto simp: algebra_simps)

lemma marks_length: "marks c i rs ts \<Longrightarrow> length rs \<le> length ts"
  by (induction c i rs ts rule: marks.induct) auto

text \<open>White space of a record's line.\<close>

lemma trim_fixed:
  assumes "trim_space t = t" and "t \<noteq> []"
  shows "ws_front t = 0" and "ws_back t = 0"
proof -
  have len: "length (trim_left t) = length t"
    using trim_right_length [of "trim_left t"] trim_left_length [of t] assms(1) by (simp add: trim_space_def)
  show front: "ws_front t = 0"
  proof (rule ccontr)
    assume "ws_front t \<noteq> 0"
    then have "length (trim_left t) \<le> length t - ws_front t"
      using assms(2) trim_left_length [of "drop (ws_front t) t"] by (simp add: trim_left.simps [of t])
    then show False using \<open>ws_front t \<noteq> 0\<close> assms(2) len by (cases t) auto
  qed
  then have left: "trim_left t = t" by (simp add: trim_left.simps [of t])
  show "ws_back t = 0"
  proof (rule ccontr)
    assume "ws_back t \<noteq> 0"
    then have "length (trim_right t) \<le> length t - ws_back t"
      using assms(2) trim_right_length [of "take (length t - ws_back t) t"] by (simp add: trim_right.simps [of t])
    then show False using \<open>ws_back t \<noteq> 0\<close> assms left by (cases t) (auto simp: trim_space_def)
  qed
qed

lemma ws_front_line:
  assumes "ws_front t = 0" and "t \<noteq> []"
  shows "ws_front (t @ [newline]) = 0"
proof -
  have none: "\<not> has_prefix t w" if "w \<in> set ws_encodings" for w
  proof (cases "find (has_prefix t) ws_encodings")
    case None
    then show ?thesis using that by (simp add: find_None_iff)
  next
    case (Some v)
    then have "v \<in> set ws_encodings" by (auto simp: find_Some_iff)
    then have "v \<noteq> []" by (auto simp: ws_encodings_def)
    then show ?thesis using assms(1) Some by (simp add: ws_front_def)
  qed
  have "\<not> has_prefix (t @ [newline]) w" if w: "w \<in> set ws_encodings" for w
  proof
    assume "has_prefix (t @ [newline]) w"
    then obtain u where u: "t @ [newline] = w @ u" by (auto simp: has_prefix_iff)
    show False
    proof (cases u rule: rev_cases)
      case Nil
      then have "w = t @ [newline]" using u by simp
      with w assms(2) show False by (auto simp: ws_encodings_def Cons_eq_append_conv)
    next
      case (snoc u' x)
      then have "t = w @ u'" using u by simp
      then show False using none [OF w] by (simp add: has_prefix_iff)
    qed
  qed
  then have "find (has_prefix (t @ [newline])) ws_encodings = None" by (simp add: find_None_iff)
  then show ?thesis by (simp add: ws_front_def)
qed

lemma ws_back_line: "ws_back (t @ [newline]) = 1"
proof -
  have "\<not> has_suffix (t @ [newline]) [CHR 0x09]" by (simp add: has_suffix_def)
  moreover have "has_suffix (t @ [newline]) [newline]" by (rule has_suffix_append)
  ultimately show ?thesis by (simp add: ws_back_def ws_encodings_def)
qed

lemma trim_line:
  assumes "trim_space t = t" and "t \<noteq> []"
  shows "trim_space (t @ [newline]) = t"
proof -
  note fixed = trim_fixed [OF assms]
  have "trim_left (t @ [newline]) = t @ [newline]"
    using ws_front_line [OF fixed(1) assms(2)] by (simp add: trim_left.simps [of "t @ [newline]"])
  moreover have "trim_right t = t" using fixed(2) by (simp add: trim_right.simps [of t])
  ultimately show ?thesis using ws_back_line by (simp add: trim_space_def trim_right.simps [of "t @ [newline]"])
qed

lemma trim_newline: "trim_space [newline] = []"
  by code_simp


section \<open>What the loop records\<close>

lemma ReadBytes_line: "newline \<notin> set t \<Longrightarrow> ReadBytes (t @ newline # s) = (t @ [newline], False)"
  by (simp add: ReadBytes_def Let_def takeWhile_append)

lemma ReadBytes_tail:
  assumes "newline \<notin> set t"
  shows "ReadBytes t = (t, True)"
proof -
  have "takeWhile (\<lambda>c. c \<noteq> newline) t = t" using assms by (auto simp: takeWhile_eq_all_conv)
  then show ?thesis by (simp add: ReadBytes_def Let_def del: takeWhile_eq_all_conv)
qed

lemma index_loop_line:
  assumes "good_record valid maxBytes t"
  shows "index_loop valid maxBytes (t @ newline # s) c idx =
     index_loop valid maxBytes s (c + Suc (length t))
       \<lparr>ix_offset = c + Suc (length t),
        ix_records = ix_records idx @
          [\<lparr>pos_seq = int (length (ix_records idx)) + 1, pos_offset = c, pos_length = Suc (length t)\<rparr>]\<rparr>"
  using assms
  by (simp add: index_loop.simps [of valid maxBytes "t @ newline # s"] ReadBytes_line trim_line good_record_def Let_def)

lemma index_loop_newline:
  assumes "0 < maxBytes"
  shows "index_loop valid maxBytes (newline # s) c idx = index_loop valid maxBytes s (Suc c) (idx\<lparr>ix_offset := Suc c\<rparr>)"
  using assms ReadBytes_line [of "[]" s]
  by (cases idx) (simp add: index_loop.simps [of valid maxBytes "newline # s"] trim_newline Let_def)

lemma index_loop_tail:
  assumes "good_record valid maxBytes t" and "k \<le> length t"
  shows "index_loop valid maxBytes (take k t) c idx =
     (let idx' = (if k = length t
            then \<lparr>ix_offset = c + length t,
                  ix_records = ix_records idx @
                    [\<lparr>pos_seq = int (length (ix_records idx)) + 1, pos_offset = c, pos_length = length t\<rparr>]\<rparr>
            else idx)
      in (idx', Inr (ix_records idx')))"
proof -
  have "newline \<notin> set (take k t)" using assms(1) by (auto simp: good_record_def dest: in_set_takeD)
  then have read: "ReadBytes (take k t) = (take k t, True)" by (rule ReadBytes_tail)
  show ?thesis
  proof (cases "k = length t")
    case True
    then show ?thesis using assms read
      by (simp add: index_loop.simps [of valid maxBytes t] good_record_def Let_def)
  next
    case False
    then have "\<not> valid (trim_space (take k t))" "length t \<le> maxBytes"
      using assms by (auto simp: good_record_def)
    then show ?thesis using read False
      by (auto simp: index_loop.simps [of valid maxBytes "take k t"] Let_def)
  qed
qed

lemma index_loop_end: "index_loop valid maxBytes [] c idx = (idx, Inr (ix_records idx))"
  by (simp add: index_loop.simps ReadBytes_def)

text \<open>
  \<open>indexed c i ts k off new\<close>: \<open>new\<close> are the positions of the whole records among the first \<open>k\<close> bytes of \<open>ts\<close>, a
  file part that starts at the offset \<open>c\<close>.
\<close>

definition indexed :: "nat \<Rightarrow> int \<Rightarrow> string list \<Rightarrow> nat \<Rightarrow> nat \<Rightarrow> recordPos list \<Rightarrow> bool" where
  "indexed c i ts k off new \<longleftrightarrow>
     marks c i new ts \<and> length new = whole_records k ts \<and>
     (off = c + length (session_lines (take (length new) ts)) \<or>
      new \<noteq> [] \<and> Suc off = c + length (session_lines (take (length new) ts))) \<and>
     off \<le> c + k \<and> (\<forall>r \<in> set new. pos_offset r + pos_length r \<le> c + k)"

lemma whole_records_0: "\<forall>t \<in> set ts. t \<noteq> [] \<Longrightarrow> whole_records 0 ts = 0"
  by (cases ts) auto

lemma indexed_Cons:
  assumes "indexed (c + Suc (length t)) (i + 1) ts (k - Suc (length t)) off new" and "length t < k"
  shows "indexed c i (t # ts) k off (\<lparr>pos_seq = i + 1, pos_offset = c, pos_length = Suc (length t)\<rparr> # new)"
  using assms by (auto simp: indexed_def)

lemma index_loop_records:
  assumes "\<forall>t \<in> set ts. good_record valid maxBytes t" and "ix_offset idx = c"
  shows "\<exists>idx' new. index_loop valid maxBytes (take k (session_lines ts)) c idx = (idx', Inr (ix_records idx')) \<and>
    ix_records idx' = ix_records idx @ new \<and> indexed c (int (length (ix_records idx))) ts k (ix_offset idx') new"
  using assms
proof (induction ts arbitrary: k c idx)
  case Nil
  then show ?case by (auto simp: index_loop_end indexed_def)
next
  case (Cons t ts)
  have good: "good_record valid maxBytes t" using Cons.prems by simp
  show ?case
  proof (cases "k \<le> length t")
    case True
    then have "take k (session_lines (t # ts)) = take k t" by simp
    moreover have "whole_records 0 ts = 0"
      using Cons.prems(1) by (intro whole_records_0) (auto simp: good_record_def)
    ultimately show ?thesis using index_loop_tail [OF good True, of c idx] True Cons.prems(2)
      by (cases "k = length t") (auto simp: indexed_def Let_def)
  next
    case False
    define idx1 where "idx1 = \<lparr>ix_offset = c + Suc (length t), ix_records = ix_records idx @
          [\<lparr>pos_seq = int (length (ix_records idx)) + 1, pos_offset = c, pos_length = Suc (length t)\<rparr>]\<rparr>"
    have "take k (session_lines (t # ts)) = t @ newline # take (k - Suc (length t)) (session_lines ts)"
      using False by (simp add: take_Cons')
    moreover obtain idx' new where
      "index_loop valid maxBytes (take (k - Suc (length t)) (session_lines ts)) (c + Suc (length t)) idx1 = (idx', Inr (ix_records idx'))"
      "ix_records idx' = ix_records idx1 @ new"
      "indexed (c + Suc (length t)) (int (length (ix_records idx1))) ts (k - Suc (length t)) (ix_offset idx') new"
      using Cons.IH [of idx1 "c + Suc (length t)" "k - Suc (length t)"] Cons.prems by (auto simp: idx1_def)
    moreover from this(3) have "indexed c (int (length (ix_records idx))) (t # ts) k (ix_offset idx')
        (\<lparr>pos_seq = int (length (ix_records idx)) + 1, pos_offset = c, pos_length = Suc (length t)\<rparr> # new)"
      using False by (intro indexed_Cons) (simp_all add: idx1_def add.commute)
    moreover have "ix_records idx' = ix_records idx @
        (\<lparr>pos_seq = int (length (ix_records idx)) + 1, pos_offset = c, pos_length = Suc (length t)\<rparr> # new)"
      using calculation(3) by (simp add: idx1_def)
    moreover note index_loop_line [OF good, of _ c idx, folded idx1_def]
    ultimately show ?thesis by metis
  qed
qed


section \<open>Snapshots of a growing file\<close>

lemma session_lines_append: "session_lines (xs @ ys) = session_lines xs @ session_lines ys"
  by (simp add: session_lines_def)

lemma session_lines_split: "session_lines ts = session_lines (take m ts) @ session_lines (drop m ts)"
  by (metis append_take_drop_id session_lines_append)

lemma session_lines_ends: "ts \<noteq> [] \<Longrightarrow> \<exists>u. session_lines ts = u @ [newline]"
  by (cases ts rule: rev_cases) (auto simp: session_lines_append)

lemma whole_records_split:
  "m \<le> length ts \<Longrightarrow> length (session_lines (take m ts)) \<le> n \<Longrightarrow>
   whole_records n ts = m + whole_records (n - length (session_lines (take m ts))) (drop m ts)"
proof (induction ts arbitrary: m n)
  case (Cons t ts)
  then show ?case by (cases m) auto
qed simp

lemma indexed_length: "indexed c i ts n off recs \<Longrightarrow> length recs \<le> length ts"
  by (simp only: indexed_def) (metis marks_length)

lemma indexed_extend:
  assumes "indexed 0 0 ts n off recs" and "n \<le> n'" and base: "base = length (session_lines (take (length recs) ts))" "base \<le> n'"
    and "indexed base (int (length recs)) (drop (length recs) ts) (n' - base) off' new"
  shows "indexed 0 0 ts n' off' (recs @ new)"
proof -
  have le: "length recs \<le> length ts" using assms(1) by (rule indexed_length)
  note old = assms(1) [unfolded indexed_def] and more = assms(5) [unfolded indexed_def]
  have "marks 0 0 (recs @ new) ts" using old more base le by (simp add: marks_append)
  moreover have "length (recs @ new) = whole_records n' ts"
    using whole_records_split [OF le, of n'] base more by simp
  moreover have "take (length recs + length new) ts = take (length recs) ts @ take (length new) (drop (length recs) ts)"
    by (simp add: take_add)
  then have "length (session_lines (take (length (recs @ new)) ts)) =
      base + length (session_lines (take (length new) (drop (length recs) ts)))"
    using base by (simp add: session_lines_append)
  then have "off' = length (session_lines (take (length (recs @ new)) ts)) \<or>
      recs @ new \<noteq> [] \<and> Suc off' = length (session_lines (take (length (recs @ new)) ts))"
    using more by (metis append_is_Nil_conv)
  moreover have "\<forall>r \<in> set (recs @ new). pos_offset r + pos_length r \<le> n'"
    using old more \<open>n \<le> n'\<close> base(2) by (auto dest!: bspec)
  moreover have "off' \<le> n'" using more base(2) by simp
  ultimately show ?thesis unfolding indexed_def add_0 by blast
qed

lemma index_snapshot_grows:
  assumes good: "\<forall>t \<in> set ts. good_record valid maxBytes t" and pos: "0 < maxBytes"
    and idx: "indexed 0 0 ts n (ix_offset idx) (ix_records idx)" and "n \<le> n'"
  shows "\<exists>idx'. index_snapshot valid maxBytes (take n' (session_lines ts)) (Some idx) = (idx', Inr (ix_records idx')) \<and>
    indexed 0 0 ts n' (ix_offset idx') (ix_records idx')"
proof -
  define recs where "recs = ix_records idx"
  define base where "base = length (session_lines (take (length recs) ts))"
  let ?rest = "session_lines (drop (length recs) ts)"
  have le: "length recs \<le> length ts" using indexed_length [OF idx] by (simp add: recs_def)
  have split: "session_lines ts = session_lines (take (length recs) ts) @ ?rest" by (rule session_lines_split)
  have off: "ix_offset idx = base \<or> recs \<noteq> [] \<and> Suc (ix_offset idx) = base" "ix_offset idx \<le> n'"
    using idx \<open>n \<le> n'\<close> by (auto simp: indexed_def recs_def base_def)
  then have "ix_offset idx \<le> base" by auto
  moreover have "base \<le> length (session_lines ts)" using split by (metis base_def le_add1 length_append)
  ultimately have "\<not> length (take n' (session_lines ts)) < ix_offset idx" using off(2) by simp
  then have snap: "index_snapshot valid maxBytes (take n' (session_lines ts)) (Some idx) =
      index_loop valid maxBytes (drop (ix_offset idx) (take n' (session_lines ts))) (ix_offset idx) idx"
    by (simp add: index_snapshot_def)
  have loop: "\<exists>idx'. index_loop valid maxBytes (take (n' - base) ?rest) base idx1 = (idx', Inr (ix_records idx')) \<and>
      indexed 0 0 ts n' (ix_offset idx') (ix_records idx')"
    if at: "ix_offset idx1 = base" and same: "ix_records idx1 = recs" and in_file: "base \<le> n'" for idx1
  proof -
    have "\<forall>t \<in> set (drop (length recs) ts). good_record valid maxBytes t" using good by (auto dest: in_set_dropD)
    from index_loop_records [OF this at, of "n' - base"] obtain idx' new where
      "index_loop valid maxBytes (take (n' - base) ?rest) base idx1 = (idx', Inr (ix_records idx'))"
      "ix_records idx' = recs @ new"
      "indexed base (int (length recs)) (drop (length recs) ts) (n' - base) (ix_offset idx') new"
      using same by auto
    then show ?thesis
      using indexed_extend [OF idx \<open>n \<le> n'\<close>, folded recs_def, OF base_def in_file] by auto
  qed
  show ?thesis
  proof (cases "ix_offset idx = base")
    case True
    have "drop base (session_lines ts) = ?rest" by (subst split) (simp add: base_def)
    then have "drop base (take n' (session_lines ts)) = take (n' - base) ?rest" by (simp add: drop_take)
    then show ?thesis using loop [of idx] snap True off(2) by (simp add: recs_def)
  next
    case False
    then have ne: "recs \<noteq> []" and suc: "Suc (ix_offset idx) = base" using off(1) by auto
    then obtain u where u: "session_lines (take (length recs) ts) = u @ [newline]"
      using session_lines_ends [of "take (length recs) ts"] le by (cases ts) auto
    then have "length u = ix_offset idx" using suc by (simp add: base_def)
    then have rest: "drop (ix_offset idx) (take n' (session_lines ts)) = take (n' - ix_offset idx) (newline # ?rest)"
      using drop_take [of "ix_offset idx" n' "session_lines ts"] by (subst (asm) (2) split) (simp add: u)
    show ?thesis
    proof (cases "n' = ix_offset idx")
      case True
      then have "n = n'" using idx \<open>n \<le> n'\<close> by (simp add: indexed_def)
      then show ?thesis using snap rest True idx by (simp add: index_loop_end)
    next
      case False
      then have "n' - ix_offset idx = Suc (n' - base)" "base \<le> n'" using suc off(2) by auto
      then show ?thesis using loop [of "idx\<lparr>ix_offset := base\<rparr>"] snap rest suc index_loop_newline [OF pos]
        by (simp add: recs_def)
    qed
  qed
qed


section \<open>Pages of a growing file\<close>

lemma marks_nth:
  "marks c i rs ts \<Longrightarrow> k < length rs \<Longrightarrow>
   pos_seq (rs ! k) = i + int k + 1 \<and> pos_offset (rs ! k) = c + length (session_lines (take k ts)) \<and>
   (pos_length (rs ! k) = length (ts ! k) \<or> pos_length (rs ! k) = Suc (length (ts ! k)))"
proof (induction c i rs ts arbitrary: k rule: marks.induct)
  case (3 c i r rs t ts)
  then show ?case by (cases k) auto
qed simp_all

lemma ReadAt_exact: "length (take l (drop p s)) = l \<Longrightarrow> ReadAt s p l = take l (drop p s)"
  unfolding ReadAt_def Let_def by (simp only: diff_self_eq_0 replicate_0 append_Nil2)

lemma ReadAt_record:
  assumes good: "\<forall>t \<in> set ts. good_record valid maxBytes t" and idx: "indexed 0 0 ts n off recs"
    and "n \<le> n'" and k: "k < length recs"
  shows "trim_space (ReadAt (take n' (session_lines ts)) (pos_offset (recs ! k)) (pos_length (recs ! k))) = ts ! k"
proof -
  define p where "p = length (session_lines (take k ts))"
  define l where "l = pos_length (recs ! k)"
  have kt: "k < length ts" using k indexed_length [OF idx] by simp
  have mk: "pos_offset (recs ! k) = p" "l = length (ts ! k) \<or> l = Suc (length (ts ! k))"
    using marks_nth [of 0 0 recs ts k] idx k by (auto simp: indexed_def p_def l_def)
  have "pos_offset (recs ! k) + pos_length (recs ! k) \<le> n"
    using idx k by (auto simp: indexed_def)
  then have fit: "p + l \<le> n'" using mk(1) \<open>n \<le> n'\<close> by (simp add: l_def)
  have "drop p (session_lines ts) = session_lines (drop k ts)"
    by (subst session_lines_split [of ts k]) (simp add: p_def)
  also have "\<dots> = ts ! k @ newline # session_lines (drop (Suc k) ts)"
    using kt by (simp add: Cons_nth_drop_Suc [symmetric])
  finally have at: "drop p (session_lines ts) = ts ! k @ newline # session_lines (drop (Suc k) ts)" .
  have "take l (drop p (take n' (session_lines ts))) = take l (drop p (session_lines ts))"
    using fit by (simp add: drop_take min_absorb1)
  then have "take l (drop p (take n' (session_lines ts))) = ts ! k \<and> l = length (ts ! k) \<or>
      take l (drop p (take n' (session_lines ts))) = ts ! k @ [newline] \<and> l = Suc (length (ts ! k))"
    using mk(2) at by auto
  moreover from this have "length (take l (drop p (take n' (session_lines ts)))) = l" by (metis length_append_singleton)
  ultimately have "ReadAt (take n' (session_lines ts)) p l = ts ! k \<or>
      ReadAt (take n' (session_lines ts)) p l = ts ! k @ [newline]"
    by (metis ReadAt_exact)
  moreover have "trim_space (ts ! k) = ts ! k" "ts ! k \<noteq> []" using good kt by (auto simp: good_record_def)
  ultimately show ?thesis using mk(1) trim_line by (auto simp: l_def)
qed

lemma search_start_marks:
  "marks c i rs ts \<Longrightarrow> search_start rs after = min (nat (after - i)) (length rs)"
proof (induction c i rs ts rule: marks.induct)
  case (3 c i r rs t ts)
  then show ?case by (auto simp: search_start_def)
qed (simp_all add: search_start_def)

text \<open>The page of the records \<open>a + 1\<close> to \<open>b\<close> of a session, when each can be read.\<close>

definition page_of ::
  "(string \<Rightarrow> int \<Rightarrow> (HarnessRawRecord \<times> SessionEntry list) option) \<Rightarrow> HarnessSessionRef \<Rightarrow> string list \<Rightarrow> nat \<Rightarrow> nat \<Rightarrow> int \<Rightarrow>
   bool \<Rightarrow> SessionPage"
where
  "page_of parse ref ts a b cur eof =
     \<lparr>Page_Session = ref,
      Page_Entries = concat (map (\<lambda>k. snd (the (parse (ts ! k) (int k + 1)))) [a..<b]),
      Page_RawRecords = map (\<lambda>k. fst (the (parse (ts ! k) (int k + 1)))) [a..<b],
      Page_NextCursor = cur, Page_EOF = eof\<rparr>"

lemma page_loop_reads:
  assumes good: "\<forall>t \<in> set ts. good_record valid maxBytes t" and idx: "indexed 0 0 ts n off recs" and "n \<le> n'"
    and parses: "\<forall>k < length recs. parse (ts ! k) (int k + 1) \<noteq> None" and "\<forall>k. \<not> canceled k"
    and "b \<le> length recs" and "a \<le> b" and "s \<le> a"
  shows "page_loop canceled parse (take n' (session_lines ts)) (take (b - a) (drop a recs))
       (page_of parse ref ts s a cur eof) =
     Inr (page_of parse ref ts s b (if a < b then int b else cur) eof)"
  using \<open>a \<le> b\<close> \<open>s \<le> a\<close>
proof (induction "b - a" arbitrary: a cur)
  case (Suc m)
  then have a: "a < b" "a < length recs" using \<open>b \<le> length recs\<close> by auto
  then have "take (b - a) (drop a recs) = recs ! a # take (b - Suc a) (drop (Suc a) recs)"
    by (metis Cons_nth_drop_Suc Suc_diff_Suc take_Suc_Cons)
  moreover have "trim_space (ReadAt (take n' (session_lines ts)) (pos_offset (recs ! a)) (pos_length (recs ! a))) = ts ! a"
    by (rule ReadAt_record [OF good idx \<open>n \<le> n'\<close> a(2)])
  moreover have "pos_seq (recs ! a) = int a + 1" using marks_nth [of 0 0 recs ts a] idx a by (simp add: indexed_def)
  moreover obtain raw es where "parse (ts ! a) (int a + 1) = Some (raw, es)" using parses a(2) by force
  moreover have "m = b - Suc a" "Suc a \<le> b" "s \<le> Suc a" using Suc by auto
  moreover have "[s..<Suc a] = [s..<a] @ [a]" using Suc by simp
  ultimately show ?case using Suc(1) [of "Suc a" "int a + 1"] a(1) \<open>\<forall>k. \<not> canceled k\<close>
    by (auto simp: page_of_def not_less le_antisym)
qed simp

lemma read_page_reads:
  assumes "\<forall>t \<in> set ts. good_record valid maxBytes t" and idx: "indexed 0 0 ts n off recs" and "n \<le> n'"
    and "\<forall>k < length recs. parse (ts ! k) (int k + 1) \<noteq> None" and "\<forall>k. \<not> canceled k"
    and a: "a = min (nat after) (whole_records n ts)" and b: "b = min (a + limit) (whole_records n ts)"
  shows "read_page canceled parse ref (take n' (session_lines ts)) recs after limit =
     Inr (page_of parse ref ts a b (if a < b then int b else after) (b = whole_records n ts))"
proof -
  have len: "length recs = whole_records n ts" using idx by (simp add: indexed_def)
  have start: "search_start recs after = a"
    using search_start_marks [of 0 0 recs ts after] idx a by (simp add: indexed_def)
  then have stop: "page_stop recs after limit = b" using b len by (auto simp: page_stop_def Let_def)
  have ab: "b \<le> length recs" "a \<le> b" using a b len by auto
  have "page_of parse ref ts a a after (b = whole_records n ts) =
      \<lparr>Page_Session = ref, Page_Entries = [], Page_RawRecords = [], Page_NextCursor = after,
       Page_EOF = (b = length recs)\<rparr>"
    by (simp add: page_of_def len)
  then show ?thesis
    using page_loop_reads [OF assms(1-5), of b a a ref after "b = whole_records n ts"] ab len
    unfolding read_page_def Let_def start stop by simp
qed


end
