(* ===== verification/SessionRecords.thy ===== *)
theory SessionRecords
  imports SessionIndex
begin

text \<open>
  The records of the harnesses' session stores and live streams (\<open>internal/agentops\<close>: \<open>codex_session.go\<close>,
  \<open>omp_session.go\<close>, \<open>opencode_session.go\<close>): what each record shows as entries, and the metadata at the head of a
  session file.

  Decoding with \<open>encoding/json\<close> is a record of functions, \<open>session_json\<close>: one for each type that the sources decode into,
  giving the value decoded into a zero value or nothing for an error.
\<close>

section \<open>Decoded values\<close>

record codexRolloutEnvelope =
  CE_Timestamp :: string
  CE_Ordinal :: int
  CE_Type :: string
  CE_Payload :: string

record codexSessionMetaPayload =
  CM_SessionID :: string
  CM_ID :: string
  CM_Timestamp :: string
  CM_CWD :: string
  CM_Originator :: string
  CM_CLIVersion :: string
  CM_ModelProvider :: string

text \<open>\<open>CT_ReasoningEffort\<close> is \<open>CollaborationMode.Settings.ReasoningEffort\<close>.\<close>

record codexTurnContextPayload =
  CT_Model :: string
  CT_Effort :: string
  CT_ReasoningEffort :: string

record codexContentPart =
  CP_Type :: string
  CP_Text :: string

record codexResponseItem =
  CI_Type :: string
  CI_ID :: string
  CI_Role :: string
  CI_Name :: string
  CI_CallID :: string
  CI_Input :: string
  CI_Status :: string
  CI_Arguments :: string
  CI_Output :: string
  CI_Content :: "codexContentPart list"

record codexEventMsg =
  CV_Type :: string
  CV_TurnID :: string
  CV_LastAgentMessage :: string
  CV_Message :: string

record codexLiveItem =
  CL_ID :: string
  CL_Type :: string
  CL_Text :: string
  CL_Command :: string
  CL_AggregatedOutput :: string
  CL_Status :: string
  CL_Server :: string
  CL_Tool :: string
  CL_Arguments :: string
  CL_Result :: string
  CL_Error :: string
  CL_ExitCode :: "int option"

record codexLiveEnvelope =
  CLE_Type :: string
  CLE_ThreadID :: string
  CLE_Item :: codexLiveItem
  CLE_Error :: string

record ompEnvelope =
  OE_Type :: string
  OE_Timestamp :: string
  OE_UpdatedAt :: string
  OE_Title :: string
  OE_ID :: string
  OE_CWD :: string
  OE_Model :: string
  OE_ThinkingLevel :: string
  OE_Message :: string
  OE_Messages :: "string list"
  OE_CustomType :: string
  OE_Data :: string

record ompContentPart =
  OP_Type :: string
  OP_Text :: string
  OP_ID :: string
  OP_Name :: string
  OP_Arguments :: string

record ompMessage =
  OM_Role :: string
  OM_Content :: "ompContentPart list"
  OM_ToolCallID :: string
  OM_ToolName :: string
  OM_IsError :: bool
  OM_ErrorMessage :: string
  OM_Timestamp :: string

record ompToolStart =
  OT_ToolCallID :: string
  OT_ToolName :: string
  OT_StartedAt :: string
  OT_Args :: string
  OT_Intent :: string

record openCodePartData =
  OC_Type :: string
  OC_Text :: string
  OC_Synthetic :: bool
  OC_Tool :: string
  OC_CallID :: string
  OC_State :: string

record openCodeToolState =
  OS_Status :: string
  OS_Input :: string
  OS_Output :: string
  OS_Error :: string

record openCodeLiveEnvelope =
  OL_Type :: string
  OL_Timestamp :: string
  OL_SessionID :: string
  OL_Part :: string

record openCodeModel =
  OD_ID :: string
  OD_ProviderID :: string
  OD_Variant :: string

text \<open>A value of type \<open>any\<close> as \<open>codexJSONText\<close> looks at it: a string, or anything else with what \<open>json.Marshal\<close> gives.\<close>

datatype any_value = AnyString string | AnyOther "string option"

text \<open>
  \<open>js_float\<close>: whether the number is positive, and its conversion to \<open>int64\<close>. \<open>js_pair k v\<close>: the encoding of the map with the
  one string \<open>v\<close> at the key \<open>k\<close>. \<open>js_role\<close> gives the one field of an \<open>openCodeMessageData\<close>. \<open>js_state\<close>: the state as decoding leaves it, after an error too. \<open>js_time\<close> is
  \<open>time.Parse\<close> with \<open>RFC3339Nano\<close>.
\<close>

record session_json =
  js_Valid :: "string \<Rightarrow> bool"
  js_string :: "string \<Rightarrow> string option"
  js_int :: "string \<Rightarrow> int option"
  js_float :: "string \<Rightarrow> (bool \<times> int) option"
  js_object :: "string \<Rightarrow> (string \<rightharpoonup> any_value) option"
  js_pair :: "string \<Rightarrow> string \<Rightarrow> string"
  js_time :: "string \<Rightarrow> gotime option"
  js_envelope :: "string \<Rightarrow> codexRolloutEnvelope option"
  js_meta :: "string \<Rightarrow> codexSessionMetaPayload option"
  js_turn :: "string \<Rightarrow> codexTurnContextPayload option"
  js_item :: "string \<Rightarrow> codexResponseItem option"
  js_parts :: "string \<Rightarrow> codexContentPart list option"
  js_event :: "string \<Rightarrow> codexEventMsg option"
  js_live :: "string \<Rightarrow> codexLiveEnvelope option"
  js_omp :: "string \<Rightarrow> ompEnvelope option"
  js_message :: "string \<Rightarrow> ompMessage option"
  js_start :: "string \<Rightarrow> ompToolStart option"
  js_role :: "string \<Rightarrow> string option"
  js_part :: "string \<Rightarrow> openCodePartData option"
  js_state :: "string \<Rightarrow> openCodeToolState"
  js_oc_live :: "string \<Rightarrow> openCodeLiveEnvelope option"
  js_model :: "string \<Rightarrow> openCodeModel option"

section \<open>Helpers\<close>

fun firstNonEmptyString :: "string list \<Rightarrow> string" where
  "firstNonEmptyString [] = []"
| "firstNonEmptyString (v # vs) = (if trim_space v \<noteq> [] then v else firstNonEmptyString vs)"

definition parseCodexTime :: "session_json \<Rightarrow> string \<Rightarrow> gotime" where
  "parseCodexTime js s =
     (let s = trim_space s
      in if s = [] then zero_time else case js_time js s of Some t \<Rightarrow> t | None \<Rightarrow> zero_time)"

definition parseOMPTime :: "session_json \<Rightarrow> string \<Rightarrow> gotime" where
  "parseOMPTime js raw =
     (let raw = trim_space raw
      in if raw = [] \<or> raw = ''null'' then zero_time
         else if hd raw = CHR 0x22 then
           (case js_string js raw of
              Some s \<Rightarrow> (case js_time js s of Some t \<Rightarrow> t | None \<Rightarrow> zero_time)
            | None \<Rightarrow> zero_time)
         else
           (case js_float js raw of
              Some (True, ms) \<Rightarrow> time_unix_milli ms
            | _ \<Rightarrow> zero_time))"

definition parseOpenCodeLiveTime :: "session_json \<Rightarrow> string \<Rightarrow> gotime" where
  "parseOpenCodeLiveTime js raw =
     (let raw = trim_space raw
      in if raw = [] \<or> raw = ''null'' then zero_time
         else
           let text = (case js_string js raw of
                 Some s \<Rightarrow> (case js_time js s of Some t \<Rightarrow> t | None \<Rightarrow> zero_time)
               | None \<Rightarrow> zero_time)
           in case js_int js raw of
                Some ms \<Rightarrow> if ms > 0 then time_unix_milli ms else text
              | None \<Rightarrow> text)"

definition cloneJSON :: "string \<Rightarrow> string" where
  "cloneJSON raw = (if raw = [] then [] else raw)"

text \<open>\<open>strings.Trim\<close> of slashes.\<close>

definition trim_slashes :: "string \<Rightarrow> string" where
  "trim_slashes s = rev (dropWhile (\<lambda>c. c = slash) (rev (dropWhile (\<lambda>c. c = slash) s)))"

definition codexContentTexts :: "codexContentPart list \<Rightarrow> string list" where
  "codexContentTexts parts =
     map CP_Text (filter (\<lambda>p. CP_Type p \<in> {''input_text'', ''output_text'', ''text''} \<and> trim_space (CP_Text p) \<noteq> []) parts)"

fun any_text :: "(string \<rightharpoonup> any_value) \<Rightarrow> string list \<Rightarrow> string option" where
  "any_text obj [] = None"
| "any_text obj (key # keys) =
     (case obj key of
        Some (AnyString x) \<Rightarrow> Some x
      | Some (AnyOther (Some b)) \<Rightarrow> Some b
      | _ \<Rightarrow> any_text obj keys)"

definition codexJSONText :: "session_json \<Rightarrow> string \<Rightarrow> string" where
  "codexJSONText js raw =
     (let raw = trim_space raw
      in if raw = [] \<or> raw = ''null'' then []
         else case js_string js raw of
                Some s \<Rightarrow> s
              | None \<Rightarrow>
                  (case js_parts js raw of
                     Some parts \<Rightarrow> join_char newline (codexContentTexts parts)
                   | None \<Rightarrow>
                       (case js_object js raw of
                          None \<Rightarrow> raw
                        | Some obj \<Rightarrow>
                            (case any_text obj [''text'', ''message'', ''output'', ''content''] of
                               Some x \<Rightarrow> x
                             | None \<Rightarrow> raw))))"

definition normalizeCodexArguments :: "session_json \<Rightarrow> string \<Rightarrow> string" where
  "normalizeCodexArguments js raw =
     (let raw = trim_space raw
      in if raw = [] \<or> raw = ''null'' then []
         else
           let other = (if js_Valid js raw then raw else [])
           in if hd raw = CHR 0x22
              then (case js_string js raw of
                      None \<Rightarrow> other
                    | Some s \<Rightarrow>
                        let candidate = trim_space s
                        in if js_Valid js candidate then candidate else js_pair js ''value'' s)
              else other)"

section \<open>Codex\<close>

definition normalizeCodexResponseItem :: "session_json \<Rightarrow> codexResponseItem \<Rightarrow> int \<Rightarrow> gotime \<Rightarrow> SessionEntry list" where
  "normalizeCodexResponseItem js item seq at =
     (if CI_Type item = ''message'' then
        (if CI_Role item \<noteq> ''user'' \<and> CI_Role item \<noteq> ''assistant'' then []
         else
           let text = join_char newline (codexContentTexts (CI_Content item))
           in if trim_space text = [] then []
              else [entry0\<lparr>SE_SourceSeq := seq, SE_At := at, SE_Kind := SessionEntryMessage, SE_Role := CI_Role item,
                           SE_Text := text\<rparr>])
      else if CI_Type item = ''function_call'' then
        [entry0\<lparr>SE_SourceSeq := seq, SE_At := at, SE_Kind := SessionEntryToolCall, SE_Role := ''assistant'',
                SE_ToolName := CI_Name item, SE_ToolCall := CI_CallID item, SE_Status := ''requested'',
                SE_Arguments := normalizeCodexArguments js (CI_Arguments item)\<rparr>]
      else if CI_Type item = ''function_call_output'' then
        [entry0\<lparr>SE_SourceSeq := seq, SE_At := at, SE_Kind := SessionEntryToolResult, SE_Role := ''tool'',
                SE_ToolCall := CI_CallID item, SE_Status := ''completed'', SE_Text := codexJSONText js (CI_Output item)\<rparr>]
      else if CI_Type item = ''custom_tool_call'' then
        [entry0\<lparr>SE_SourceSeq := seq, SE_At := at, SE_Kind := SessionEntryToolCall, SE_Role := ''assistant'',
                SE_ToolName := CI_Name item, SE_ToolCall := CI_CallID item,
                SE_Status := firstNonEmptyString [CI_Status item, ''requested''],
                SE_Arguments := js_pair js ''input'' (CI_Input item)\<rparr>]
      else if CI_Type item = ''custom_tool_call_output'' then
        [entry0\<lparr>SE_SourceSeq := seq, SE_At := at, SE_Kind := SessionEntryToolResult, SE_Role := ''tool'',
                SE_ToolCall := CI_CallID item, SE_Status := firstNonEmptyString [CI_Status item, ''completed''],
                SE_Text := codexJSONText js (CI_Output item)\<rparr>]
      else [])"

definition parseCodexDurableRecord ::
  "session_json \<Rightarrow> string \<Rightarrow> int \<Rightarrow> (HarnessRawRecord \<times> SessionEntry list) option"
where
  "parseCodexDurableRecord js line seq =
     (case js_envelope js line of
        None \<Rightarrow> None
      | Some env \<Rightarrow>
          let at = parseCodexTime js (CE_Timestamp env);
              raw = \<lparr>HR_SourceSeq = seq, HR_At = at, HR_RawType = CE_Type env, HR_Payload = line\<rparr>
          in if CE_Type env = ''response_item'' then
               (case js_item js (CE_Payload env) of
                  None \<Rightarrow> None
                | Some item \<Rightarrow>
                    Some (raw, map (\<lambda>e. e\<lparr>SE_RawType := ''response_item/'' @ CI_Type item\<rparr>)
                                 (normalizeCodexResponseItem js item seq at)))
             else if CE_Type env = ''event_msg'' then
               (case js_event js (CE_Payload env) of
                  None \<Rightarrow> None
                | Some msg \<Rightarrow>
                    if CV_Type msg = ''task_started'' then
                      Some (raw, [entry0\<lparr>SE_SourceSeq := seq, SE_At := at, SE_Kind := SessionEntryActivity,
                                         SE_Status := ''started'', SE_RawType := ''event_msg/task_started''\<rparr>])
                    else if CV_Type msg = ''task_complete'' then
                      Some (raw, [entry0\<lparr>SE_SourceSeq := seq, SE_At := at, SE_Kind := SessionEntryActivity,
                                         SE_Status := ''completed'', SE_RawType := ''event_msg/task_complete''\<rparr>])
                    else if CV_Type msg = ''error'' then
                      Some (raw, [entry0\<lparr>SE_SourceSeq := seq, SE_At := at, SE_Kind := SessionEntryError,
                                         SE_Status := ''error'', SE_Text := CV_Message msg,
                                         SE_RawType := ''event_msg/error''\<rparr>])
                    else Some (raw, []))
             else Some (raw, []))"

definition mcp_tool_name :: "codexLiveItem \<Rightarrow> string" where
  "mcp_tool_name item = trim_slashes (trim_space (CL_Server item) @ ''/'' @ trim_space (CL_Tool item))"

definition normalizeCodexLiveToolCall :: "session_json \<Rightarrow> codexLiveItem \<Rightarrow> string \<Rightarrow> SessionEntry option" where
  "normalizeCodexLiveToolCall js item rawType =
     (if CL_Type item = ''command_execution'' then
        Some (entry0\<lparr>SE_Kind := SessionEntryToolCall, SE_Role := ''assistant'', SE_ToolName := ''command_execution'',
                     SE_ToolCall := CL_ID item, SE_Status := firstNonEmptyString [CL_Status item, ''started''],
                     SE_Arguments := js_pair js ''command'' (CL_Command item), SE_RawType := rawType\<rparr>)
      else if CL_Type item = ''mcp_tool_call'' then
        Some (entry0\<lparr>SE_Kind := SessionEntryToolCall, SE_Role := ''assistant'',
                     SE_ToolName := firstNonEmptyString [mcp_tool_name item, ''mcp_tool_call''], SE_ToolCall := CL_ID item,
                     SE_Status := firstNonEmptyString [CL_Status item, ''started''],
                     SE_Arguments := cloneJSON (CL_Arguments item), SE_RawType := rawType\<rparr>)
      else None)"

definition normalizeCodexLiveToolResult :: "session_json \<Rightarrow> codexLiveItem \<Rightarrow> string \<Rightarrow> SessionEntry option" where
  "normalizeCodexLiveToolResult js item rawType =
     (if CL_Type item = ''command_execution'' then
        let status = firstNonEmptyString [CL_Status item, ''completed''];
            status = (case CL_ExitCode item of Some c \<Rightarrow> if c \<noteq> 0 then ''error'' else status | None \<Rightarrow> status)
        in Some (entry0\<lparr>SE_Kind := SessionEntryToolResult, SE_Role := ''tool'', SE_ToolName := ''command_execution'',
                        SE_ToolCall := CL_ID item, SE_Status := status, SE_Text := CL_AggregatedOutput item,
                        SE_RawType := rawType\<rparr>)
      else if CL_Type item = ''mcp_tool_call'' then
        let text = codexJSONText js (CL_Result item);
            failed = (CL_Error item \<noteq> [] \<and> trim_space (CL_Error item) \<noteq> ''null'');
            status = (if failed then ''error'' else firstNonEmptyString [CL_Status item, ''completed'']);
            text = (if failed \<and> text = [] then codexJSONText js (CL_Error item) else text)
        in Some (entry0\<lparr>SE_Kind := SessionEntryToolResult, SE_Role := ''tool'',
                        SE_ToolName := firstNonEmptyString [mcp_tool_name item, ''mcp_tool_call''], SE_ToolCall := CL_ID item,
                        SE_Status := status, SE_Text := text, SE_RawType := rawType\<rparr>)
      else None)"

datatype live_error = ErrEmptyEvent | ErrInvalidEvent | ErrDecodeEvent

definition entries_of :: "SessionEntry option \<Rightarrow> SessionEntry list" where
  "entries_of found = (case found of Some e \<Rightarrow> [e] | None \<Rightarrow> [])"

definition Codex_NormalizeLive :: "session_json \<Rightarrow> string \<Rightarrow> live_error + HarnessLiveEvent" where
  "Codex_NormalizeLive js line =
     (let line = trim_space line
      in if line = [] then Inl ErrEmptyEvent
         else case js_live js line of
                None \<Rightarrow> Inl ErrInvalidEvent
              | Some ev \<Rightarrow>
                  let t = CLE_Type ev;
                      entries =
                        (if t = ''thread.started'' then
                           (if CLE_ThreadID ev \<noteq> []
                            then [entry0\<lparr>SE_Kind := SessionEntryRuntime, SE_Status := ''started'',
                                         SE_Text := ''thread '' @ CLE_ThreadID ev, SE_RawType := t\<rparr>]
                            else [])
                         else if t = ''turn.started'' then
                           [entry0\<lparr>SE_Kind := SessionEntryActivity, SE_Status := ''started'', SE_RawType := t\<rparr>]
                         else if t = ''item.started'' then entries_of (normalizeCodexLiveToolCall js (CLE_Item ev) t)
                         else if t = ''item.completed'' then
                           (if CL_Type (CLE_Item ev) = ''agent_message'' then
                              (if trim_space (CL_Text (CLE_Item ev)) \<noteq> []
                               then [entry0\<lparr>SE_Kind := SessionEntryMessage, SE_Role := ''assistant'',
                                            SE_Text := CL_Text (CLE_Item ev), SE_RawType := t\<rparr>]
                               else [])
                            else entries_of (normalizeCodexLiveToolResult js (CLE_Item ev) t))
                         else if t = ''turn.completed'' then
                           [entry0\<lparr>SE_Kind := SessionEntryRuntime, SE_Status := ''completed'', SE_RawType := t\<rparr>]
                         else if t = ''turn.failed'' \<or> t = ''error'' then
                           [entry0\<lparr>SE_Kind := SessionEntryError, SE_Status := ''error'',
                                   SE_Text := codexJSONText js (CLE_Error ev), SE_RawType := t\<rparr>]
                         else [])
                  in Inr \<lparr>LE_Record = \<lparr>HR_SourceSeq = 0, HR_At = zero_time, HR_RawType = t, HR_Payload = line\<rparr>,
                          LE_Entries = entries\<rparr>)"

section \<open>OMP\<close>

definition ompTextContent :: "ompContentPart list \<Rightarrow> string" where
  "ompTextContent parts =
     join_char newline (map OP_Text (filter (\<lambda>p. OP_Type p = ''text'' \<and> trim_space (OP_Text p) \<noteq> []) parts))"

definition ompEnvelopeTime :: "session_json \<Rightarrow> ompEnvelope \<Rightarrow> gotime" where
  "ompEnvelopeTime js env =
     (let t = parseOMPTime js (OE_Timestamp env) in if \<not> is_zero t then t else parseOMPTime js (OE_UpdatedAt env))"

definition normalizeOMPMessage :: "session_json \<Rightarrow> string \<Rightarrow> int \<Rightarrow> gotime \<Rightarrow> SessionEntry list option" where
  "normalizeOMPMessage js raw seq fallbackAt =
     (if raw = [] then Some []
      else case js_message js raw of
             None \<Rightarrow> None
           | Some msg \<Rightarrow>
               let at = parseOMPTime js (OM_Timestamp msg);
                   at = (if is_zero at then fallbackAt else at);
                   role = to_lower (OM_Role msg);
                   text = ompTextContent (OM_Content msg)
               in if role = ''user'' then
                    (if trim_space text = [] then Some []
                     else Some [entry0\<lparr>SE_SourceSeq := seq, SE_At := at, SE_Kind := SessionEntryMessage,
                                       SE_Role := ''user'', SE_Text := text\<rparr>])
                  else if role = ''assistant'' then
                    let out = (if trim_space text \<noteq> []
                          then [entry0\<lparr>SE_SourceSeq := seq, SE_At := at, SE_Kind := SessionEntryMessage,
                                       SE_Role := ''assistant'', SE_Text := text\<rparr>]
                          else []);
                        out = out @ map (\<lambda>part.
                            entry0\<lparr>SE_SourceSeq := seq, SE_At := at, SE_Kind := SessionEntryToolCall,
                                   SE_Role := ''assistant'', SE_ToolName := OP_Name part, SE_ToolCall := OP_ID part,
                                   SE_Status := ''requested'', SE_Arguments := cloneJSON (OP_Arguments part)\<rparr>)
                          (filter (\<lambda>part. OP_Type part = ''toolCall'') (OM_Content msg))
                    in Some (if out = [] \<and> trim_space (OM_ErrorMessage msg) \<noteq> []
                             then [entry0\<lparr>SE_SourceSeq := seq, SE_At := at, SE_Kind := SessionEntryError,
                                          SE_Role := ''assistant'', SE_Text := OM_ErrorMessage msg, SE_Status := ''error''\<rparr>]
                             else out)
                  else if role = ''toolresult'' then
                    Some [entry0\<lparr>SE_SourceSeq := seq, SE_At := at, SE_Kind := SessionEntryToolResult, SE_Role := ''tool'',
                                 SE_Text := text, SE_ToolName := OM_ToolName msg, SE_ToolCall := OM_ToolCallID msg,
                                 SE_Status := (if OM_IsError msg then ''error'' else ''completed'')\<rparr>]
                  else Some [])"

definition normalizeOMPToolStart :: "session_json \<Rightarrow> string \<Rightarrow> int \<Rightarrow> gotime \<Rightarrow> SessionEntry option" where
  "normalizeOMPToolStart js raw seq fallbackAt =
     (if raw = [] then None
      else case js_start js raw of
             None \<Rightarrow> None
           | Some start \<Rightarrow>
               if OT_ToolName start = [] then None
               else
                 let at = parseOMPTime js (OT_StartedAt start);
                     at = (if is_zero at then fallbackAt else at)
                 in Some (entry0\<lparr>SE_SourceSeq := seq, SE_At := at, SE_Kind := SessionEntryActivity,
                                 SE_Text := OT_Intent start, SE_ToolName := OT_ToolName start,
                                 SE_ToolCall := OT_ToolCallID start, SE_Status := ''started'',
                                 SE_Arguments := cloneJSON (OT_Args start)\<rparr>))"

definition parseOMPDurableRecord ::
  "session_json \<Rightarrow> string \<Rightarrow> int \<Rightarrow> (HarnessRawRecord \<times> SessionEntry list) option"
where
  "parseOMPDurableRecord js line seq =
     (case js_omp js line of
        None \<Rightarrow> None
      | Some env \<Rightarrow>
          let at = ompEnvelopeTime js env;
              raw = \<lparr>HR_SourceSeq = seq, HR_At = at, HR_RawType = OE_Type env, HR_Payload = line\<rparr>;
              found =
                (if OE_Type env = ''message'' then normalizeOMPMessage js (OE_Message env) seq at
                 else if OE_Type env = ''custom'' then
                   (if OE_CustomType env = ''tool_execution_start''
                    then Some (map (\<lambda>e. e\<lparr>SE_RawType := OE_CustomType env\<rparr>)
                                 (entries_of (normalizeOMPToolStart js (OE_Data env) seq at)))
                    else Some [])
                 else Some [])
          in case found of
               None \<Rightarrow> None
             | Some entries \<Rightarrow>
                 Some (raw, map (\<lambda>e. if SE_RawType e = [] then e\<lparr>SE_RawType := OE_Type env\<rparr> else e) entries))"

definition OMP_NormalizeLive :: "session_json \<Rightarrow> string \<Rightarrow> live_error + HarnessLiveEvent" where
  "OMP_NormalizeLive js line =
     (let line = trim_space line
      in if line = [] then Inl ErrEmptyEvent
         else case js_omp js line of
                None \<Rightarrow> Inl ErrInvalidEvent
              | Some env \<Rightarrow>
                  let at = ompEnvelopeTime js env;
                      raw = \<lparr>HR_SourceSeq = 0, HR_At = at, HR_RawType = OE_Type env, HR_Payload = line\<rparr>;
                      stamp = map (\<lambda>e. e\<lparr>SE_RawType := OE_Type env\<rparr>)
                  in if OE_Type env = ''message_end'' \<or> OE_Type env = ''turn_end'' then
                       (case normalizeOMPMessage js (OE_Message env) 0 at of
                          None \<Rightarrow> Inl ErrDecodeEvent
                        | Some entries \<Rightarrow> Inr \<lparr>LE_Record = raw, LE_Entries = stamp entries\<rparr>)
                     else if OE_Type env = ''tool_execution_start'' then
                       Inr \<lparr>LE_Record = raw, LE_Entries = stamp (entries_of (normalizeOMPToolStart js (OE_Data env) 0 at))\<rparr>
                     else Inr \<lparr>LE_Record = raw, LE_Entries = []\<rparr>)"

section \<open>OpenCode\<close>

definition openCodeToolTerminal :: "string \<Rightarrow> bool" where
  "openCodeToolTerminal status \<longleftrightarrow>
     to_lower (trim_space status) \<in> {''completed'', ''success'', ''error'', ''failed'', ''cancelled''}"

definition openCodeJSONText :: "session_json \<Rightarrow> string \<Rightarrow> string" where
  "openCodeJSONText js raw =
     (let raw = trim_space raw
      in if raw = [] \<or> raw = ''null'' then []
         else case js_string js raw of Some s \<Rightarrow> s | None \<Rightarrow> raw)"

definition openCodeState0 :: openCodeToolState where
  "openCodeState0 = \<lparr>OS_Status = [], OS_Input = [], OS_Output = [], OS_Error = []\<rparr>"

definition normalizeOpenCodePart ::
  "session_json \<Rightarrow> openCodePartData \<Rightarrow> string \<Rightarrow> int \<Rightarrow> gotime \<Rightarrow> string \<Rightarrow> SessionEntry list"
where
  "normalizeOpenCodePart js p role seq at rawType =
     (if OC_Type p = ''text'' then
        (if OC_Synthetic p \<or> trim_space (OC_Text p) = [] then []
         else
           let role = (if role = [] then ''assistant'' else role)
           in if role \<noteq> ''user'' \<and> role \<noteq> ''assistant'' then []
              else [entry0\<lparr>SE_SourceSeq := seq, SE_At := at, SE_Kind := SessionEntryMessage, SE_Role := role,
                           SE_Text := OC_Text p, SE_RawType := rawType\<rparr>])
      else if OC_Type p = ''tool'' then
        let st = (if OC_State p \<noteq> [] then js_state js (OC_State p) else openCodeState0);
            status = trim_space (OS_Status st);
            status = (if status = [] then ''requested'' else status);
            call = entry0\<lparr>SE_SourceSeq := seq, SE_At := at, SE_Kind := SessionEntryToolCall, SE_Role := ''assistant'',
                          SE_ToolName := OC_Tool p, SE_ToolCall := OC_CallID p, SE_Status := status,
                          SE_Arguments := cloneJSON (OS_Input st), SE_RawType := rawType\<rparr>
        in if openCodeToolTerminal status
           then
             let text = openCodeJSONText js (OS_Output st);
                 text = (if text = [] then openCodeJSONText js (OS_Error st) else text);
                 rs = (if status = ''success'' then ''completed'' else status)
             in [call, entry0\<lparr>SE_SourceSeq := seq, SE_At := at, SE_Kind := SessionEntryToolResult, SE_Role := ''tool'',
                              SE_ToolName := OC_Tool p, SE_ToolCall := OC_CallID p, SE_Status := rs, SE_Text := text,
                              SE_RawType := rawType\<rparr>]
           else [call]
      else [])"

definition parseOpenCodeDurablePart ::
  "session_json \<Rightarrow> string \<Rightarrow> string \<Rightarrow> int \<Rightarrow> int \<Rightarrow> (HarnessRawRecord \<times> SessionEntry list) option"
where
  "parseOpenCodeDurablePart js partRaw messageRaw seq timeCreated =
     (case js_part js partRaw of
        None \<Rightarrow> None
      | Some p \<Rightarrow>
          (case (if messageRaw \<noteq> [] then js_role js messageRaw else Some []) of
             None \<Rightarrow> None
           | Some role \<Rightarrow>
               let at = time_unix_milli timeCreated;
                   raw = \<lparr>HR_SourceSeq = seq, HR_At = at, HR_RawType = ''part/'' @ OC_Type p, HR_Payload = partRaw\<rparr>
               in Some (raw, normalizeOpenCodePart js p role seq at (HR_RawType raw))))"

definition OpenCode_NormalizeLive :: "session_json \<Rightarrow> string \<Rightarrow> live_error + HarnessLiveEvent" where
  "OpenCode_NormalizeLive js line =
     (let line = trim_space line
      in if line = [] then Inl ErrEmptyEvent
         else case js_oc_live js line of
                None \<Rightarrow> Inl ErrInvalidEvent
              | Some env \<Rightarrow>
                  let raw = \<lparr>HR_SourceSeq = 0, HR_At = parseOpenCodeLiveTime js (OL_Timestamp env), HR_RawType = OL_Type env,
                             HR_Payload = line\<rparr>
                  in if OL_Part env = [] \<or> trim_space (OL_Part env) = ''null'' then Inr \<lparr>LE_Record = raw, LE_Entries = []\<rparr>
                     else case js_part js (OL_Part env) of
                            None \<Rightarrow> Inl ErrDecodeEvent
                          | Some part \<Rightarrow>
                              Inr \<lparr>LE_Record = raw,
                                   LE_Entries = normalizeOpenCodePart js part ''assistant'' 0 (HR_At raw) (OL_Type env)\<rparr>)"

definition parseOpenCodeModel :: "session_json \<Rightarrow> string \<Rightarrow> string \<times> string" where
  "parseOpenCodeModel js raw =
     (let raw = trim_space raw
      in if raw = [] then ([], [])
         else case js_model js raw of
                None \<Rightarrow> (raw, [])
              | Some m \<Rightarrow>
                  (if OD_ProviderID m \<noteq> [] \<and> OD_ID m \<noteq> [] then OD_ProviderID m @ ''/'' @ OD_ID m else OD_ID m,
                   if OD_Variant m = ''default'' then [] else OD_Variant m))"

section \<open>What the entries of a record look like\<close>

text \<open>
  An entry of the projection: it has the number of its record and the instant \<open>at\<close> unless the harness gave a better one,
  one of the kinds below and, where \<open>typed\<close> holds, the native type it comes from. A message has a speaker who is a user or
  an assistant and a text that is not blank; arguments occur only where a tool is called or started.
\<close>

definition session_entry_ok :: "int \<Rightarrow> SessionEntry \<Rightarrow> bool" where
  "session_entry_ok seq e \<longleftrightarrow>
     SE_SourceSeq e = seq \<and>
     SE_Kind e \<in> {SessionEntryMessage, SessionEntryToolCall, SessionEntryToolResult, SessionEntryActivity,
                  SessionEntryRuntime, SessionEntryError} \<and>
     (SE_Kind e = SessionEntryMessage \<longrightarrow> SE_Role e \<in> {''user'', ''assistant''} \<and> trim_space (SE_Text e) \<noteq> []) \<and>
     (SE_Kind e \<noteq> SessionEntryMessage \<longrightarrow> SE_Role e \<in> {'''', ''assistant'', ''tool''}) \<and>
     (SE_Kind e \<in> {SessionEntryToolCall, SessionEntryToolResult} \<longrightarrow> SE_Status e \<noteq> []) \<and>
     (SE_Arguments e \<noteq> [] \<longrightarrow> SE_Kind e \<in> {SessionEntryToolCall, SessionEntryActivity})"

lemma trim_space_Nil [simp]: "trim_space [] = []"
  by (simp add: trim_space_def trim_left.simps trim_right.simps)

lemma status_words [simp]:
  "trim_space ''requested'' = ''requested''" "trim_space ''started'' = ''started''" "trim_space ''completed'' = ''completed''"
  by code_simp+

lemma firstNonEmptyString_ne: "trim_space b \<noteq> [] \<Longrightarrow> firstNonEmptyString [a, b] \<noteq> []"
  by auto

lemma entry0_simps [simp]:
  "SE_SourceSeq entry0 = 0" "SE_Kind entry0 = []" "SE_Role entry0 = []" "SE_Text entry0 = []" "SE_Status entry0 = []"
  "SE_Arguments entry0 = []" "SE_RawType entry0 = []"
  by (simp_all add: entry0_def)

lemma session_entry_ok_RawType [simp]: "session_entry_ok seq (e\<lparr>SE_RawType := t\<rparr>) = session_entry_ok seq e"
  by (simp add: session_entry_ok_def)

lemma normalizeCodexResponseItem_ok: "e \<in> set (normalizeCodexResponseItem js item seq at) \<Longrightarrow> session_entry_ok seq e"
  using firstNonEmptyString_ne [of "''requested''"] firstNonEmptyString_ne [of "''completed''"]
  by (auto simp: normalizeCodexResponseItem_def session_entry_ok_def Let_def simp del: firstNonEmptyString.simps split: if_splits)

lemma normalizeCodexLiveToolCall_ok: "normalizeCodexLiveToolCall js item t = Some e \<Longrightarrow> session_entry_ok 0 e"
  using firstNonEmptyString_ne [of "''started''" "CL_Status item"]
  by (auto simp: normalizeCodexLiveToolCall_def session_entry_ok_def simp del: firstNonEmptyString.simps split: if_splits)

lemma normalizeCodexLiveToolResult_ok: "normalizeCodexLiveToolResult js item t = Some e \<Longrightarrow> session_entry_ok 0 e"
  using firstNonEmptyString_ne [of "''completed''" "CL_Status item"]
  by (auto simp: normalizeCodexLiveToolResult_def session_entry_ok_def Let_def simp del: firstNonEmptyString.simps
      split: if_splits option.splits)

lemma normalizeOMPMessage_ok: "normalizeOMPMessage js raw seq at = Some es \<Longrightarrow> e \<in> set es \<Longrightarrow> session_entry_ok seq e"
  by (auto simp: normalizeOMPMessage_def session_entry_ok_def Let_def split: if_splits option.splits)

lemma normalizeOMPToolStart_ok: "normalizeOMPToolStart js raw seq at = Some e \<Longrightarrow> session_entry_ok seq e"
  by (auto simp: normalizeOMPToolStart_def session_entry_ok_def Let_def split: if_splits option.splits)

lemma normalizeOpenCodePart_ok: "e \<in> set (normalizeOpenCodePart js p role seq at t) \<Longrightarrow> session_entry_ok seq e"
  by (auto simp: normalizeOpenCodePart_def session_entry_ok_def Let_def split: if_splits)

lemmas normalize_ok =
  normalizeCodexResponseItem_ok normalizeCodexLiveToolCall_ok normalizeCodexLiveToolResult_ok normalizeOMPMessage_ok
  normalizeOMPToolStart_ok normalizeOpenCodePart_ok

text \<open>The record that a page keeps is the line as it was read, under its own number.\<close>

definition record_ok :: "string \<Rightarrow> int \<Rightarrow> HarnessRawRecord \<times> SessionEntry list \<Rightarrow> bool" where
  "record_ok line seq r \<longleftrightarrow>
     HR_Payload (fst r) = line \<and> HR_SourceSeq (fst r) = seq \<and> (\<forall>e \<in> set (snd r). session_entry_ok seq e)"

lemma parseCodexDurableRecord_ok: "parseCodexDurableRecord js line seq = Some r \<Longrightarrow> record_ok line seq r"
  by (auto simp: parseCodexDurableRecord_def record_ok_def Let_def normalizeCodexResponseItem_ok
      split: option.splits if_splits) (auto simp: session_entry_ok_def)

lemma parseOMPDurableRecord_ok: "parseOMPDurableRecord js line seq = Some r \<Longrightarrow> record_ok line seq r"
  by (auto simp: parseOMPDurableRecord_def record_ok_def Let_def entries_of_def normalizeOMPMessage_ok
      normalizeOMPToolStart_ok split: option.splits if_splits)

lemma parseOpenCodeDurablePart_ok: "parseOpenCodeDurablePart js line m seq tc = Some r \<Longrightarrow> record_ok line seq r"
  by (auto simp: parseOpenCodeDurablePart_def record_ok_def Let_def normalizeOpenCodePart_ok split: option.splits if_splits)

lemma live_ok:
  "Codex_NormalizeLive js line = Inr ev \<Longrightarrow> record_ok (trim_space line) 0 (LE_Record ev, LE_Entries ev)"
  "OMP_NormalizeLive js line = Inr ev \<Longrightarrow> record_ok (trim_space line) 0 (LE_Record ev, LE_Entries ev)"
  "OpenCode_NormalizeLive js line = Inr ev \<Longrightarrow> record_ok (trim_space line) 0 (LE_Record ev, LE_Entries ev)"
proof -
  show "Codex_NormalizeLive js line = Inr ev \<Longrightarrow> record_ok (trim_space line) 0 (LE_Record ev, LE_Entries ev)"
    by (auto simp: Codex_NormalizeLive_def record_ok_def Let_def entries_of_def normalizeCodexLiveToolCall_ok
        normalizeCodexLiveToolResult_ok split: option.splits if_splits) (auto simp: session_entry_ok_def)
  show "OMP_NormalizeLive js line = Inr ev \<Longrightarrow> record_ok (trim_space line) 0 (LE_Record ev, LE_Entries ev)"
    by (auto simp: OMP_NormalizeLive_def record_ok_def Let_def entries_of_def normalizeOMPMessage_ok
        normalizeOMPToolStart_ok split: option.splits if_splits)
  show "OpenCode_NormalizeLive js line = Inr ev \<Longrightarrow> record_ok (trim_space line) 0 (LE_Record ev, LE_Entries ev)"
    by (auto simp: OpenCode_NormalizeLive_def record_ok_def Let_def normalizeOpenCodePart_ok split: option.splits if_splits)
qed

end
