(* ===== verification/SessionAdapter.thy ===== *)
theory SessionAdapter
  imports SessionRecords RunDurability
begin

text \<open>
  The session adapters (\<open>internal/agentops\<close>: \<open>codex_session.go\<close>, \<open>omp_session.go\<close>, \<open>opencode_session.go\<close>): the session
  files below a harness's directory, their metadata, the list of sessions, the search for the session of a run, the check
  of a locator and the reading of a page.

  The Codex and the OMP adapter have the same methods over different files and records; \<open>session_adapter\<close> holds what differs
  and each method is one definition over it. OpenCode keeps its sessions in a database.
\<close>

section \<open>The environment\<close>

text \<open>
  \<open>sv_walk root\<close> are the calls that \<open>filepath.WalkDir\<close> makes, in order; \<open>sv_ReadDir\<close> is \<open>os.ReadDir\<close> with \<open>IsDir\<close> of each entry;
  \<open>sv_mtime\<close> and \<open>sv_dirsize\<close> are what \<open>Stat\<close> says of a place; \<open>sv_EvalRel\<close> is \<open>EvalSymlinks\<close> of a path that is not rooted;
  \<open>sv_dir_canceled path\<close> and \<open>sv_canceled path\<close> are \<open>ctx.Err\<close> when the loops over the directory entries and over the session
  files come to \<open>path\<close>.
\<close>

record walk_visit =
  v_path :: string
  v_name :: string
  v_dir :: bool
  v_err :: "fs_error option"
  v_canceled :: bool

record session_env =
  sv_fs :: fs
  sv_cwd :: "string option"
  sv_mtime :: "string list \<Rightarrow> gotime"
  sv_dirsize :: nat
  sv_walk :: "string \<Rightarrow> walk_visit list"
  sv_ReadDir :: "string \<Rightarrow> fs_error + (string \<times> bool) list"
  sv_EvalRel :: "string \<Rightarrow> string option"
  sv_dir_canceled :: "string \<Rightarrow> bool"
  sv_canceled :: "string \<Rightarrow> bool"

datatype session_error =
    ErrBelongsTo string
  | ErrHarnessSessionNotFound
  | ErrFS fs_error
  | ErrAbs
  | ErrRel
  | ErrLocatorEscapes
  | ErrLocatorName
  | ErrIndex index_error
  | ErrPage page_error
  | ErrCtx

definition os_Stat :: "session_env \<Rightarrow> string \<Rightarrow> fs_error + string list \<times> node" where
  "os_Stat env s =
     (case walk False [] (sv_fs env) maxKernelLinks
             (if is_abs s then [] else (case sv_cwd env of None \<Rightarrow> [] | Some w \<Rightarrow> path_parts w)) (split_char slash s) of
        Inl e \<Rightarrow> Inl e
      | Inr (d, None) \<Rightarrow> Inl ErrNotExist
      | Inr (d, Some nd) \<Rightarrow> Inr (d, nd))"

text \<open>The content of a file that is opened and read, with its modification time.\<close>

definition open_content :: "session_env \<Rightarrow> string \<Rightarrow> fs_error + string \<times> gotime" where
  "open_content env s =
     (case os_Stat env s of
        Inl e \<Rightarrow> Inl e
      | Inr (d, File c m) \<Rightarrow> Inr (c, sv_mtime env d)
      | Inr (d, _) \<Rightarrow> Inl ErrIsDir)"

definition canonicalPath :: "session_env \<Rightarrow> string \<Rightarrow> string" where
  "canonicalPath env path =
     (let path = trim_space path
      in if path = [] then []
         else
           let path = Clean path
           in if is_abs path
              then (case EvalSymlinks (sv_fs env) path of Inr real \<Rightarrow> Clean real | Inl e \<Rightarrow> path)
              else (case sv_EvalRel env path of Some real \<Rightarrow> Clean real | None \<Rightarrow> path))"

text \<open>\<open>Time.Sub\<close> saturates; the negation of the least \<open>Duration\<close> is itself.\<close>

definition time_Sub :: "gotime \<Rightarrow> gotime \<Rightarrow> int" where
  "time_Sub a b = max (- (2 ^ 63)) (min (2 ^ 63 - 1) (a - b))"

definition timeDistance :: "gotime \<Rightarrow> gotime \<Rightarrow> int" where
  "timeDistance a b =
     (if is_zero b then 0
      else
        let d = time_Sub a b
        in if d < 0 then (if d = - (2 ^ 63) then d else - d) else d)"

section \<open>Metadata\<close>

text \<open>\<open>Scanner.Scan\<close> with lines and a buffer limit: the end of the text, a line that is too long, or a line and the rest.\<close>

datatype scan_result = ScanEnd | ScanTooLong | ScanToken string string

definition drop_cr :: "string \<Rightarrow> string" where
  "drop_cr line = trim_suffix line [CHR 0x0D]"

definition Scan :: "nat \<Rightarrow> string \<Rightarrow> scan_result" where
  "Scan mx s =
     (let line = takeWhile (\<lambda>c. c \<noteq> newline) s
      in if s = [] then ScanEnd
         else if length line \<ge> mx then ScanTooLong
         else ScanToken (drop_cr line) (drop (Suc (length line)) s))"

text \<open>
  The loop over the first lines of a file. \<open>step line meta\<close> is the body: an error, or the new metadata and whether the loop
  is left. The line after the last one that counts is still scanned.
\<close>

fun scan_loop :: "nat \<Rightarrow> (string \<Rightarrow> 'm \<Rightarrow> ('m \<times> bool) option) \<Rightarrow> nat \<Rightarrow> string \<Rightarrow> 'm \<Rightarrow> 'm option" where
  "scan_loop mx step n s meta =
     (case Scan mx s of
        ScanEnd \<Rightarrow> Some meta
      | ScanTooLong \<Rightarrow> None
      | ScanToken line rest \<Rightarrow>
          (case n of
             0 \<Rightarrow> Some meta
           | Suc k \<Rightarrow>
               (case step line meta of
                  None \<Rightarrow> None
                | Some (meta, stop) \<Rightarrow> if stop then Some meta else scan_loop mx step k rest meta)))"

definition ref0 :: HarnessSessionRef where
  "ref0 =
     \<lparr>HS_Harness = [], HS_ID = [], HS_Title = [], HS_Model = [], HS_Thinking = [], HS_StartedAt = zero_time,
      HS_UpdatedAt = zero_time, HS_Locator = [], HS_root = []\<rparr>"

record codexSessionMeta =
  cm_ref :: HarnessSessionRef
  cm_cwd :: string
  cm_userTexts :: "string list"

abbreviation maxCodexRecordBytes :: nat where "maxCodexRecordBytes \<equiv> 8 * 2 ^ 20"
abbreviation maxOMPRecordBytes :: nat where "maxOMPRecordBytes \<equiv> 4 * 2 ^ 20"

definition codex_meta_step :: "session_json \<Rightarrow> string \<Rightarrow> codexSessionMeta \<Rightarrow> (codexSessionMeta \<times> bool) option" where
  "codex_meta_step js line meta =
     (let line = trim_space line;
          check = (\<lambda>meta. (meta, HS_ID (cm_ref meta) \<noteq> [] \<and> cm_cwd meta \<noteq> [] \<and> HS_Model (cm_ref meta) \<noteq> [] \<and>
                            cm_userTexts meta \<noteq> []))
      in if line = [] then Some (meta, False)
         else case js_envelope js line of
                None \<Rightarrow> None
              | Some env \<Rightarrow>
                  if CE_Type env = ''session_meta'' then
                    (case js_meta js (CE_Payload env) of
                       None \<Rightarrow> Some (meta, False)
                     | Some payload \<Rightarrow>
                         Some (check (meta\<lparr>
                           cm_ref := (cm_ref meta)\<lparr>
                             HS_ID := firstNonEmptyString [CM_SessionID payload, CM_ID payload],
                             HS_root := CM_CWD payload,
                             HS_StartedAt := parseCodexTime js (firstNonEmptyString [CM_Timestamp payload, CE_Timestamp env])\<rparr>,
                           cm_cwd := CM_CWD payload\<rparr>)))
                  else if CE_Type env = ''turn_context'' then
                    (case js_turn js (CE_Payload env) of
                       None \<Rightarrow> Some (meta, False)
                     | Some payload \<Rightarrow>
                         let ref = cm_ref meta;
                             ref = (if HS_Model ref = [] then ref\<lparr>HS_Model := CT_Model payload\<rparr> else ref);
                             ref = (if HS_Thinking ref = []
                               then ref\<lparr>HS_Thinking := firstNonEmptyString [CT_Effort payload, CT_ReasoningEffort payload]\<rparr>
                               else ref)
                         in Some (check (meta\<lparr>cm_ref := ref\<rparr>)))
                  else if CE_Type env = ''response_item'' then
                    (case js_item js (CE_Payload env) of
                       None \<Rightarrow> Some (meta, False)
                     | Some item \<Rightarrow>
                         if CI_Type item \<noteq> ''message'' \<or> CI_Role item \<noteq> ''user'' then Some (meta, False)
                         else
                           Some (check (meta\<lparr>cm_userTexts := cm_userTexts meta @
                             filter (\<lambda>text. trim_space text \<noteq> []) (codexContentTexts (CI_Content item))\<rparr>)))
                  else Some (check meta))"

definition readCodexSessionMeta :: "session_json \<Rightarrow> session_env \<Rightarrow> string \<Rightarrow> codexSessionMeta option" where
  "readCodexSessionMeta js env path =
     (case open_content env path of
        Inl e \<Rightarrow> None
      | Inr (content, mtime) \<Rightarrow>
          (case scan_loop maxCodexRecordBytes (codex_meta_step js) 512 content
                  \<lparr>cm_ref = ref0\<lparr>HS_Harness := SubagentClientCodex, HS_Locator := path, HS_UpdatedAt := mtime\<rparr>,
                   cm_cwd = [], cm_userTexts = []\<rparr> of
             None \<Rightarrow> None
           | Some meta \<Rightarrow>
               if HS_ID (cm_ref meta) = [] \<or> cm_cwd meta = [] then None
               else
                 let ref = cm_ref meta;
                     ref = (if is_zero (HS_StartedAt ref) then ref\<lparr>HS_StartedAt := mtime\<rparr> else ref);
                     ref = (if cm_userTexts meta \<noteq> []
                       then ref\<lparr>HS_Title := truncateText (trim_space (last (cm_userTexts meta))) 120\<rparr> else ref)
                 in Some (meta\<lparr>cm_ref := ref\<rparr>)))"

definition codexHasTask :: "string list \<Rightarrow> string \<Rightarrow> bool" where
  "codexHasTask texts task = (\<exists>text \<in> set texts. trim_space text = trim_space task)"

text \<open>
  \<open>strings.EqualFold\<close> with an ASCII string in lower case: besides the ASCII capitals only U+017F and U+212A fold to an
  ASCII letter.
\<close>

function fold_case :: "string \<Rightarrow> string" where
  "fold_case s =
     (if s = [] then []
      else if has_prefix s [CHR 0xC5, CHR 0xBF] then CHR ''s'' # fold_case (drop 2 s)
      else if has_prefix s [CHR 0xE2, CHR 0x84, CHR 0xAA] then CHR ''k'' # fold_case (drop 3 s)
      else lower_char (hd s) # fold_case (tl s))"
  by pat_completeness auto
termination by (relation "measure length") auto

declare fold_case.simps [simp del]

record ompSessionMeta =
  om_ref :: HarnessSessionRef
  om_cwd :: string
  om_firstUser :: string

definition omp_meta_step :: "session_json \<Rightarrow> string \<Rightarrow> ompSessionMeta \<Rightarrow> (ompSessionMeta \<times> bool) option" where
  "omp_meta_step js line meta =
     (let line = trim_space line
      in if line = [] then Some (meta, False)
         else case js_omp js line of
                None \<Rightarrow> None
              | Some env \<Rightarrow>
                  let ref = om_ref meta;
                      meta =
                        (if OE_Type env = ''title'' then
                           let ref = (if trim_space (OE_Title env) \<noteq> [] then ref\<lparr>HS_Title := OE_Title env\<rparr> else ref);
                               t = parseOMPTime js (OE_UpdatedAt env)
                           in meta\<lparr>om_ref := (if \<not> is_zero t \<and> t > HS_UpdatedAt ref then ref\<lparr>HS_UpdatedAt := t\<rparr> else ref)\<rparr>
                         else if OE_Type env = ''session'' then
                           let ref = ref\<lparr>HS_ID := OE_ID env, HS_root := OE_CWD env\<rparr>;
                               ref = (if HS_Title ref = [] then ref\<lparr>HS_Title := OE_Title env\<rparr> else ref)
                           in meta\<lparr>om_cwd := OE_CWD env, om_ref := ref\<lparr>HS_StartedAt := parseOMPTime js (OE_Timestamp env)\<rparr>\<rparr>
                         else if OE_Type env = ''model_change'' then
                           (if HS_Model ref = [] \<and> OE_Model env \<noteq> []
                            then meta\<lparr>om_ref := ref\<lparr>HS_Model := OE_Model env\<rparr>\<rparr> else meta)
                         else if OE_Type env = ''thinking_level_change'' then
                           (if HS_Thinking ref = [] \<and> OE_ThinkingLevel env \<noteq> []
                            then meta\<lparr>om_ref := ref\<lparr>HS_Thinking := OE_ThinkingLevel env\<rparr>\<rparr> else meta)
                         else if OE_Type env = ''message'' \<and> om_firstUser meta = [] then
                           (case js_message js (OE_Message env) of
                              Some msg \<Rightarrow>
                                if fold_case (OM_Role msg) = ''user'' then meta\<lparr>om_firstUser := ompTextContent (OM_Content msg)\<rparr>
                                else meta
                            | None \<Rightarrow> meta)
                         else meta)
                  in Some (meta, HS_ID (om_ref meta) \<noteq> [] \<and> om_firstUser meta \<noteq> [] \<and> HS_Model (om_ref meta) \<noteq> [] \<and>
                                 HS_Thinking (om_ref meta) \<noteq> []))"

definition readOMPSessionMeta :: "session_json \<Rightarrow> session_env \<Rightarrow> string \<Rightarrow> ompSessionMeta option" where
  "readOMPSessionMeta js env path =
     (case open_content env path of
        Inl e \<Rightarrow> None
      | Inr (content, mtime) \<Rightarrow>
          (case scan_loop maxOMPRecordBytes (omp_meta_step js) 256 content
                  \<lparr>om_ref = ref0\<lparr>HS_Harness := SubagentClientOMP, HS_Locator := path, HS_UpdatedAt := mtime\<rparr>,
                   om_cwd = [], om_firstUser = []\<rparr> of
             None \<Rightarrow> None
           | Some meta \<Rightarrow>
               if HS_ID (om_ref meta) = [] \<or> om_cwd meta = [] then None
               else
                 let ref = om_ref meta
                 in Some (meta\<lparr>om_ref := (if is_zero (HS_StartedAt ref) then ref\<lparr>HS_StartedAt := mtime\<rparr> else ref)\<rparr>)))"

section \<open>Session files and locators\<close>

fun walk_files :: "walk_visit list \<Rightarrow> string list \<Rightarrow> session_error + string list" where
  "walk_files [] files = Inr files"
| "walk_files (v # vs) files =
     (case v_err v of
        Some e \<Rightarrow> if e = ErrNotExist then walk_files vs files else Inl (ErrFS e)
      | None \<Rightarrow>
          if v_canceled v then Inl ErrCtx
          else if v_dir v then walk_files vs files
          else if has_prefix (v_name v) ''.'' \<or> \<not> has_suffix (v_name v) ''.jsonl'' then walk_files vs files
          else walk_files vs (files @ [v_path v]))"

definition Codex_sessionFiles :: "string \<Rightarrow> string \<Rightarrow> session_env \<Rightarrow> session_error + string list" where
  "Codex_sessionFiles sessionsDir archivedDir env =
     (case walk_files (sv_walk env sessionsDir) [] of
        Inl e \<Rightarrow> Inl e
      | Inr files \<Rightarrow> walk_files (sv_walk env archivedDir) files)"

definition isOMPSessionJSONL :: "string \<Rightarrow> bool" where
  "isOMPSessionJSONL name \<longleftrightarrow> has_suffix name ''.jsonl'' \<and> \<not> has_prefix name ''.''"

fun omp_files :: "session_env \<Rightarrow> string \<Rightarrow> (string \<times> bool) list \<Rightarrow> session_error + string list" where
  "omp_files env dir [] = Inr []"
| "omp_files env dir ((name, isdir) # entries) =
     (let path = Join2 dir name
      in if sv_dir_canceled env path then Inl ErrCtx
         else
           let found =
             (if isdir
              then (case sv_ReadDir env path of
                      Inl e \<Rightarrow> []
                    | Inr children \<Rightarrow>
                        map (\<lambda>child. Join2 path (fst child))
                          (filter (\<lambda>child. \<not> (snd child \<or> \<not> isOMPSessionJSONL (fst child))) children))
              else if isOMPSessionJSONL name then [path] else [])
           in case omp_files env dir entries of
                Inl e \<Rightarrow> Inl e
              | Inr files \<Rightarrow> Inr (found @ files))"

definition OMP_sessionFiles :: "string \<Rightarrow> session_env \<Rightarrow> session_error + string list" where
  "OMP_sessionFiles sessionsDir env =
     (case sv_ReadDir env sessionsDir of
        Inl e \<Rightarrow> Inl (ErrFS e)
      | Inr entries \<Rightarrow> omp_files env sessionsDir entries)"

definition real_path :: "fs \<Rightarrow> string \<Rightarrow> string" where
  "real_path fs s = (case EvalSymlinks fs s of Inr real \<Rightarrow> real | Inl e \<Rightarrow> s)"

definition pathWithinCodexRoot :: "session_env \<Rightarrow> string \<Rightarrow> string \<Rightarrow> session_error + bool" where
  "pathWithinCodexRoot env root target =
     (case Abs_path (sv_cwd env) root of
        None \<Rightarrow> Inl ErrAbs
      | Some base \<Rightarrow>
          (case Abs_path (sv_cwd env) target of
             None \<Rightarrow> Inl ErrAbs
           | Some path \<Rightarrow>
               (case Rel (real_path (sv_fs env) base) (real_path (sv_fs env) path) of
                  None \<Rightarrow> Inl ErrRel
                | Some rel \<Rightarrow> Inr (rel \<noteq> ''..'' \<and> \<not> has_prefix rel ''../'' \<and> \<not> is_abs rel))))"

fun codex_validate :: "session_env \<Rightarrow> string list \<Rightarrow> string \<Rightarrow> session_error option" where
  "codex_validate env [] path = Some ErrLocatorEscapes"
| "codex_validate env (root # roots) path =
     (case pathWithinCodexRoot env root path of
        Inl e \<Rightarrow> Some e
      | Inr True \<Rightarrow> if has_suffix (to_lower (Base path)) ''.jsonl'' then None else Some ErrLocatorName
      | Inr False \<Rightarrow> codex_validate env roots path)"

definition Codex_validateLocator :: "string \<Rightarrow> string \<Rightarrow> session_env \<Rightarrow> string \<Rightarrow> session_error option" where
  "Codex_validateLocator sessionsDir archivedDir env path = codex_validate env [sessionsDir, archivedDir] path"

definition OMP_validateLocator :: "string \<Rightarrow> session_env \<Rightarrow> string \<Rightarrow> session_error option" where
  "OMP_validateLocator sessionsDir env path =
     (case Abs_path (sv_cwd env) sessionsDir of
        None \<Rightarrow> Some ErrAbs
      | Some base \<Rightarrow>
          (case Abs_path (sv_cwd env) path of
             None \<Rightarrow> Some ErrAbs
           | Some target \<Rightarrow>
               let target = real_path (sv_fs env) target
               in case Rel (real_path (sv_fs env) base) target of
                    None \<Rightarrow> Some ErrRel
                  | Some rel \<Rightarrow>
                      if rel = ''..'' \<or> has_prefix rel ''../'' \<or> is_abs rel then Some ErrLocatorEscapes
                      else if \<not> isOMPSessionJSONL (Base target) then Some ErrLocatorName
                      else None))"

section \<open>The adapters\<close>

record 'm session_adapter =
  sa_Harness :: string
  sa_files :: "session_env \<Rightarrow> session_error + string list"
  sa_meta :: "session_env \<Rightarrow> string \<Rightarrow> 'm option"
  sa_ref :: "'m \<Rightarrow> HarnessSessionRef"
  sa_cwd :: "'m \<Rightarrow> string"
  sa_has_task :: "'m \<Rightarrow> string \<Rightarrow> bool"
  sa_validate :: "session_env \<Rightarrow> string \<Rightarrow> session_error option"
  sa_valid :: "string \<Rightarrow> bool"
  sa_maxBytes :: nat
  sa_parse :: "string \<Rightarrow> int \<Rightarrow> (HarnessRawRecord \<times> SessionEntry list) option"

definition codex_home :: "string \<Rightarrow> string \<Rightarrow> string option \<Rightarrow> string" where
  "codex_home homeDir env_home userHome =
     (let homeDir = trim_space homeDir;
          homeDir = (if homeDir = [] then trim_space env_home else homeDir)
      in if homeDir = []
         then (case userHome of Some home \<Rightarrow> if home \<noteq> [] then Join2 home ''.codex'' else [] | None \<Rightarrow> [])
         else homeDir)"

definition NewCodexSessionAdapter ::
  "session_json \<Rightarrow> string \<Rightarrow> string \<Rightarrow> string option \<Rightarrow> codexSessionMeta session_adapter"
where
  "NewCodexSessionAdapter js homeDir env_home userHome =
     (let home = codex_home homeDir env_home userHome;
          sessionsDir = Join2 home ''sessions'';
          archivedDir = Join2 home ''archived_sessions''
      in \<lparr>sa_Harness = SubagentClientCodex, sa_files = Codex_sessionFiles sessionsDir archivedDir,
          sa_meta = readCodexSessionMeta js, sa_ref = cm_ref, sa_cwd = cm_cwd,
          sa_has_task = (\<lambda>m. codexHasTask (cm_userTexts m)),
          sa_validate = Codex_validateLocator sessionsDir archivedDir, sa_valid = js_Valid js,
          sa_maxBytes = maxCodexRecordBytes, sa_parse = parseCodexDurableRecord js\<rparr>)"

definition omp_dir :: "string \<Rightarrow> string \<Rightarrow> string option \<Rightarrow> string" where
  "omp_dir agentDir env_dir userHome =
     (let agentDir = trim_space agentDir;
          agentDir = (if agentDir = [] then trim_space env_dir else agentDir)
      in if agentDir = []
         then (case userHome of
                 Some home \<Rightarrow> if home \<noteq> [] then Join2 (Join2 home ''.omp'') ''agent'' else []
               | None \<Rightarrow> [])
         else agentDir)"

definition NewOMPSessionAdapter ::
  "session_json \<Rightarrow> string \<Rightarrow> string \<Rightarrow> string option \<Rightarrow> ompSessionMeta session_adapter"
where
  "NewOMPSessionAdapter js agentDir env_dir userHome =
     (let sessionsDir = Join2 (omp_dir agentDir env_dir userHome) ''sessions''
      in \<lparr>sa_Harness = SubagentClientOMP, sa_files = OMP_sessionFiles sessionsDir,
          sa_meta = readOMPSessionMeta js, sa_ref = om_ref, sa_cwd = om_cwd,
          sa_has_task = (\<lambda>m task. trim_space (om_firstUser m) = task),
          sa_validate = OMP_validateLocator sessionsDir, sa_valid = js_Valid js,
          sa_maxBytes = maxOMPRecordBytes, sa_parse = parseOMPDurableRecord js\<rparr>)"

section \<open>List\<close>

record SessionDiscoverRequest =
  SD_Root :: string
  SD_Task :: string
  SD_StartedAt :: gotime
  SD_NativeID :: string

record SessionReadRequest =
  SR_After :: int
  SR_Limit :: int

definition newer_session :: "HarnessSessionRef \<Rightarrow> HarnessSessionRef \<Rightarrow> bool" where
  "newer_session a b =
     (if HS_StartedAt a = HS_StartedAt b then string_less (HS_ID b) (HS_ID a) else HS_StartedAt b < HS_StartedAt a)"

text \<open>The metadata of the files that belong to the root, in the order of the files.\<close>

definition of_root :: "'m session_adapter \<Rightarrow> session_env \<Rightarrow> string \<Rightarrow> 'm \<Rightarrow> bool" where
  "of_root a env root meta \<longleftrightarrow> \<not> (root \<noteq> [] \<and> canonicalPath env (sa_cwd a meta) \<noteq> root)"

fun list_metas :: "'m session_adapter \<Rightarrow> session_env \<Rightarrow> string \<Rightarrow> string list \<Rightarrow> 'm list \<Rightarrow> session_error + 'm list" where
  "list_metas a env root [] metas = Inr metas"
| "list_metas a env root (path # paths) metas =
     (if sv_canceled env path then Inl ErrCtx
      else case sa_meta a env path of
             None \<Rightarrow> list_metas a env root paths metas
           | Some meta \<Rightarrow>
               if \<not> of_root a env root meta then list_metas a env root paths metas
               else list_metas a env root paths (metas @ [meta]))"

definition session_List ::
  "'m session_adapter \<Rightarrow> session_env \<Rightarrow> string \<Rightarrow> int \<Rightarrow> session_error + HarnessSessionRef list"
where
  "session_List a env root limit =
     (let limit = page_limit 50 500 limit
      in case sa_files a env of
           Inl e \<Rightarrow> Inl e
         | Inr files \<Rightarrow>
             (case list_metas a env (canonicalPath env root) files [] of
                Inl e \<Rightarrow> Inl e
              | Inr metas \<Rightarrow>
                  let metas = foldr (insert_by (\<lambda>m m'. newer_session (sa_ref a m) (sa_ref a m'))) metas []
                  in Inr (map (sa_ref a) (if length metas > limit then take limit metas else metas))))"

definition Codex_List ::
  "codexSessionMeta session_adapter \<Rightarrow> session_env \<Rightarrow> string \<Rightarrow> int \<Rightarrow> session_error + HarnessSessionRef list"
where
  "Codex_List a env root limit = session_List a env root limit"

text \<open>The OMP adapter has no sessions when its directory is missing.\<close>

definition OMP_List ::
  "ompSessionMeta session_adapter \<Rightarrow> session_env \<Rightarrow> string \<Rightarrow> int \<Rightarrow> session_error + HarnessSessionRef list"
where
  "OMP_List a env root limit =
     (if sa_files a env = Inl (ErrFS ErrNotExist) then Inr [] else session_List a env root limit)"

section \<open>Discover\<close>

abbreviation discoverWindow :: int where "discoverWindow \<equiv> 30 * 1000000000"

definition better :: "'m \<times> int \<Rightarrow> ('m \<times> int) option \<Rightarrow> ('m \<times> int) option" where
  "better m best = (case best of None \<Rightarrow> Some m | Some b \<Rightarrow> if snd m < snd b then Some m else best)"

text \<open>\<open>exact\<close> and \<open>nearest\<close> carry their distance from the requested time.\<close>

fun discover_loop ::
  "'m session_adapter \<Rightarrow> session_env \<Rightarrow> string \<Rightarrow> string \<Rightarrow> string \<Rightarrow> gotime \<Rightarrow> string list \<Rightarrow> ('m \<times> int) option \<Rightarrow>
   ('m \<times> int) option \<Rightarrow> session_error + HarnessSessionRef"
where
  "discover_loop a env root task nativeID started [] exact nearest =
     (case exact of
        Some m \<Rightarrow> Inr (sa_ref a (fst m))
      | None \<Rightarrow> (case nearest of Some m \<Rightarrow> Inr (sa_ref a (fst m)) | None \<Rightarrow> Inl ErrHarnessSessionNotFound))"
| "discover_loop a env root task nativeID started (path # paths) exact nearest =
     (if sv_canceled env path then Inl ErrCtx
      else case sa_meta a env path of
             None \<Rightarrow> discover_loop a env root task nativeID started paths exact nearest
           | Some meta \<Rightarrow>
               if \<not> of_root a env root meta then discover_loop a env root task nativeID started paths exact nearest
               else if nativeID \<noteq> [] \<and> HS_ID (sa_ref a meta) = nativeID then Inr (sa_ref a meta)
               else
                 let delta = timeDistance (HS_StartedAt (sa_ref a meta)) started
                 in if task \<noteq> [] \<and> sa_has_task a meta task
                    then discover_loop a env root task nativeID started paths (better (meta, delta) exact) nearest
                    else if is_zero started \<or> delta \<le> discoverWindow
                    then discover_loop a env root task nativeID started paths exact (better (meta, delta) nearest)
                    else discover_loop a env root task nativeID started paths exact nearest)"

definition Codex_Discover ::
  "codexSessionMeta session_adapter \<Rightarrow> session_env \<Rightarrow> SessionDiscoverRequest \<Rightarrow> session_error + HarnessSessionRef"
where
  "Codex_Discover a env req =
     (case sa_files a env of
        Inl e \<Rightarrow> Inl e
      | Inr files \<Rightarrow>
          discover_loop a env (canonicalPath env (SD_Root req)) (trim_space (SD_Task req)) (trim_space (SD_NativeID req))
            (SD_StartedAt req) files None None)"

text \<open>The OMP adapter does not look at the native identifier.\<close>

definition OMP_Discover ::
  "ompSessionMeta session_adapter \<Rightarrow> session_env \<Rightarrow> SessionDiscoverRequest \<Rightarrow> session_error + HarnessSessionRef"
where
  "OMP_Discover a env req =
     (case sa_files a env of
        Inl e \<Rightarrow> Inl e
      | Inr files \<Rightarrow>
          discover_loop a env (canonicalPath env (SD_Root req)) (trim_space (SD_Task req)) [] (SD_StartedAt req) files
            None None)"

section \<open>Read\<close>

fun find_session :: "'m session_adapter \<Rightarrow> session_env \<Rightarrow> string \<Rightarrow> string list \<Rightarrow> session_error + string" where
  "find_session a env i [] = Inl ErrHarnessSessionNotFound"
| "find_session a env i (path # paths) =
     (case sa_meta a env path of
        Some meta \<Rightarrow> if HS_ID (sa_ref a meta) = i then Inr path else find_session a env i paths
      | None \<Rightarrow> find_session a env i paths)"

definition resolveLocator :: "'m session_adapter \<Rightarrow> session_env \<Rightarrow> HarnessSessionRef \<Rightarrow> session_error + string" where
  "resolveLocator a env ref =
     (if trim_space (HS_Locator ref) \<noteq> [] then Inr (HS_Locator ref)
      else if trim_space (HS_ID ref) = [] then Inl ErrHarnessSessionNotFound
      else case sa_files a env of
             Inl e \<Rightarrow> Inl e
           | Inr files \<Rightarrow> find_session a env (HS_ID ref) files)"

text \<open>The indexes of an adapter, by path. \<open>a.indexes[path]\<close> is what the loop has reached, after an error too.\<close>

type_synonym indexes = "string \<rightharpoonup> fileIndex"

definition node_size :: "session_env \<Rightarrow> node \<Rightarrow> nat" where
  "node_size env nd = (case nd of File c m \<Rightarrow> length c | _ \<Rightarrow> sv_dirsize env)"

definition indexSnapshot ::
  "'m session_adapter \<Rightarrow> session_env \<Rightarrow> string \<Rightarrow> indexes \<Rightarrow> indexes \<times> (session_error + recordPos list)"
where
  "indexSnapshot a env path ixs =
     (case os_Stat env path of
        Inl e \<Rightarrow> (ixs, Inl (ErrFS e))
      | Inr (d, nd) \<Rightarrow>
          (case nd of
             File c m \<Rightarrow>
               (case index_snapshot (sa_valid a) (sa_maxBytes a) c (ixs path) of
                  (idx, Inl e) \<Rightarrow> (ixs(path \<mapsto> idx), Inl (ErrIndex e))
                | (idx, Inr positions) \<Rightarrow> (ixs(path \<mapsto> idx), Inr positions))
           | _ \<Rightarrow>
               (ixs(path \<mapsto> (case ixs path of
                               None \<Rightarrow> empty_index
                             | Some i \<Rightarrow> if node_size env nd < ix_offset i then empty_index else i)),
                Inl (ErrFS ErrIsDir))))"

text \<open>
  A page. \<open>env\<close> is the world up to the index and \<open>env'\<close> the one in which the file is opened again, since the file may have
  grown in between; \<open>canceled\<close> is \<open>ctx.Err\<close> before a record. A file that became a directory in between fails at the opening
  and not at the first read.
\<close>

definition session_Read ::
  "'m session_adapter \<Rightarrow> session_env \<Rightarrow> session_env \<Rightarrow> (int \<Rightarrow> bool) \<Rightarrow> HarnessSessionRef \<Rightarrow> SessionReadRequest \<Rightarrow> indexes \<Rightarrow>
   indexes \<times> (session_error + SessionPage)"
where
  "session_Read a env env' canceled ref req ixs =
     (if HS_Harness ref \<noteq> [] \<and> HS_Harness ref \<noteq> sa_Harness a then (ixs, Inl (ErrBelongsTo (HS_Harness ref)))
      else case resolveLocator a env ref of
             Inl e \<Rightarrow> (ixs, Inl e)
           | Inr path \<Rightarrow>
               (case sa_validate a env path of
                  Some e \<Rightarrow> (ixs, Inl e)
                | None \<Rightarrow>
                    (case indexSnapshot a env path ixs of
                       (ixs, Inl e) \<Rightarrow> (ixs, Inl e)
                     | (ixs, Inr positions) \<Rightarrow>
                         (ixs,
                          case open_content env' path of
                            Inl e \<Rightarrow> Inl (ErrFS e)
                          | Inr (content, mtime) \<Rightarrow>
                              let session = (if HS_Locator ref = []
                                    then (case sa_meta a env' path of Some meta \<Rightarrow> sa_ref a meta | None \<Rightarrow> ref)
                                    else ref)
                              in case read_page canceled (sa_parse a) session content positions (SR_After req)
                                        (page_limit 200 2000 (SR_Limit req)) of
                                   Inl e \<Rightarrow> Inl (ErrPage e)
                                 | Inr page \<Rightarrow> Inr page))))"

definition Codex_Read ::
  "codexSessionMeta session_adapter \<Rightarrow> session_env \<Rightarrow> session_env \<Rightarrow> (int \<Rightarrow> bool) \<Rightarrow> HarnessSessionRef \<Rightarrow>
   SessionReadRequest \<Rightarrow> indexes \<Rightarrow> indexes \<times> (session_error + SessionPage)"
where
  "Codex_Read = session_Read"

definition OMP_Read ::
  "ompSessionMeta session_adapter \<Rightarrow> session_env \<Rightarrow> session_env \<Rightarrow> (int \<Rightarrow> bool) \<Rightarrow> HarnessSessionRef \<Rightarrow>
   SessionReadRequest \<Rightarrow> indexes \<Rightarrow> indexes \<times> (session_error + SessionPage)"
where
  "OMP_Read = session_Read"

section \<open>OpenCode\<close>

text \<open>
  The tables of OpenCode's database, as far as the queries name their columns. Opening the database gives it or an error;
  a query on an open database gives its rows.
\<close>

record openCodeSessionRow =
  oc_ID :: string
  oc_Directory :: string
  oc_Title :: string
  oc_Model :: string
  oc_Agent :: string
  oc_TimeCreated :: int
  oc_TimeUpdated :: int

record oc_message =
  ocm_id :: string
  ocm_session_id :: string
  ocm_time_created :: int
  ocm_data :: string

record oc_part =
  ocp_id :: string
  ocp_message_id :: string
  ocp_session_id :: string
  ocp_time_created :: int
  ocp_data :: string

record oc_db =
  ocdb_session :: "openCodeSessionRow list"
  ocdb_message :: "oc_message list"
  ocdb_part :: "oc_part list"

text \<open>The data directory and the database, from the argument, the environment or the user's home.\<close>

definition NewOpenCodeSessionAdapter :: "string \<Rightarrow> string \<Rightarrow> string \<Rightarrow> string option \<Rightarrow> string \<times> string" where
  "NewOpenCodeSessionAdapter dataHome env_home xdg_home userHome =
     (let dataHome = trim_space dataHome;
          dataHome = (if dataHome = [] then trim_space env_home else dataHome);
          dataHome = (if dataHome = [] then trim_space xdg_home else dataHome);
          dataHome = (if dataHome = []
            then (case userHome of
                    Some home \<Rightarrow> if home \<noteq> [] then Join2 (Join2 home ''.local'') ''share'' else []
                  | None \<Rightarrow> [])
            else dataHome)
      in (dataHome, Join2 (Join2 dataHome ''opencode'') ''opencode.db''))"

text \<open>\<open>ORDER BY\<close> a time and then the identifier, ascending or descending.\<close>

definition by_time :: "bool \<Rightarrow> ('a \<Rightarrow> int) \<Rightarrow> ('a \<Rightarrow> string) \<Rightarrow> 'a list \<Rightarrow> 'a list" where
  "by_time desc time ident rows =
     foldr (insert_by (\<lambda>a b.
       if desc then (if time a = time b then string_less (ident b) (ident a) else time b < time a)
       else (if time a = time b then string_less (ident a) (ident b) else time a < time b))) rows []"

definition openCodeSessionRef :: "session_json \<Rightarrow> openCodeSessionRow \<Rightarrow> string \<Rightarrow> HarnessSessionRef" where
  "openCodeSessionRef js r locator =
     (let (model, thinking) = parseOpenCodeModel js (oc_Model r)
      in \<lparr>HS_Harness = SubagentClientOpencode, HS_ID = oc_ID r, HS_Title = oc_Title r, HS_Model = model,
          HS_Thinking = thinking, HS_StartedAt = time_unix_milli (oc_TimeCreated r),
          HS_UpdatedAt = time_unix_milli (oc_TimeUpdated r), HS_Locator = locator, HS_root = oc_Directory r\<rparr>)"

definition OpenCode_List ::
  "session_json \<Rightarrow> session_env \<Rightarrow> string \<Rightarrow> session_error + oc_db \<Rightarrow> string \<Rightarrow> int \<Rightarrow> session_error + HarnessSessionRef list"
where
  "OpenCode_List js env dbPath opened root limit =
     (case opened of
        Inl e \<Rightarrow> if e = ErrFS ErrNotExist then Inr [] else Inl e
      | Inr db \<Rightarrow>
          let rows = filter (\<lambda>r. trim_space root \<noteq> [] \<longrightarrow> oc_Directory r = canonicalPath env root) (ocdb_session db);
              rows = take (page_limit 50 500 limit) (by_time True oc_TimeUpdated oc_ID rows)
          in Inr (map (\<lambda>r. openCodeSessionRef js r dbPath) rows))"

definition queryOpenCodeSession :: "oc_db \<Rightarrow> string \<Rightarrow> openCodeSessionRow option" where
  "queryOpenCodeSession db i = find (\<lambda>r. oc_ID r = i) (ocdb_session db)"

text \<open>
  A query on a pool with one connection: while the rows of another query are open it waits for a connection, until the context
  ends (\<open>ends\<close>); when the context does not end it does not return.
\<close>

definition pool_query :: "bool \<Rightarrow> nat \<Rightarrow> 'a \<Rightarrow> (session_error + 'a) option" where
  "pool_query ends open_rows rows =
     (if open_rows < 1 then Some (Inr rows) else if ends then Some (Inl ErrCtx) else None)"

definition oc_user_texts :: "session_json \<Rightarrow> oc_part list \<Rightarrow> string list" where
  "oc_user_texts js parts =
     map OC_Text (filter (\<lambda>p. OC_Type p = ''text'' \<and> \<not> OC_Synthetic p \<and> trim_space (OC_Text p) \<noteq> [])
       (List.map_filter (\<lambda>p. js_part js (ocp_data p)) parts))"

fun user_text_loop :: "session_json \<Rightarrow> oc_db \<Rightarrow> bool \<Rightarrow> nat \<Rightarrow> oc_message list \<Rightarrow> (session_error + string) option" where
  "user_text_loop js db ends open_rows [] = Some (Inr [])"
| "user_text_loop js db ends open_rows (m # msgs) =
     (if js_role js (ocm_data m) \<noteq> Some ''user'' then user_text_loop js db ends open_rows msgs
      else case pool_query ends open_rows
                  (by_time False ocp_time_created ocp_id (filter (\<lambda>p. ocp_message_id p = ocm_id m) (ocdb_part db))) of
             None \<Rightarrow> None
           | Some (Inl e) \<Rightarrow> Some (Inl e)
           | Some (Inr parts) \<Rightarrow>
               let texts = oc_user_texts js parts
               in if texts \<noteq> [] then Some (Inr (join_char newline texts)) else user_text_loop js db ends open_rows msgs)"

definition firstOpenCodeUserText ::
  "session_json \<Rightarrow> oc_db \<Rightarrow> bool \<Rightarrow> nat \<Rightarrow> string \<Rightarrow> (session_error + string) option"
where
  "firstOpenCodeUserText js db ends open_rows sessionID =
     (case pool_query ends open_rows
             (by_time False ocm_time_created ocm_id (filter (\<lambda>m. ocm_session_id m = sessionID) (ocdb_message db))) of
        None \<Rightarrow> None
      | Some (Inl e) \<Rightarrow> Some (Inl e)
      | Some (Inr msgs) \<Rightarrow> user_text_loop js db ends (Suc open_rows) msgs)"

fun oc_discover_loop ::
  "session_json \<Rightarrow> string \<Rightarrow> oc_db \<Rightarrow> bool \<Rightarrow> string \<Rightarrow> gotime \<Rightarrow> openCodeSessionRow list \<Rightarrow> (openCodeSessionRow \<times> int) option \<Rightarrow>
   (session_error + HarnessSessionRef) option"
where
  "oc_discover_loop js dbPath db ends task started [] nearest =
     Some (case nearest of
             Some r \<Rightarrow> Inr (openCodeSessionRef js (fst r) dbPath)
           | None \<Rightarrow> Inl ErrHarnessSessionNotFound)"
| "oc_discover_loop js dbPath db ends task started (row # rows) nearest =
     (let delta = timeDistance (time_unix_milli (oc_TimeCreated row)) started;
          nearest' = (if is_zero started \<or> delta \<le> discoverWindow then better (row, delta) nearest else nearest)
      in if task \<noteq> []
         then (case firstOpenCodeUserText js db ends 1 (oc_ID row) of
                 None \<Rightarrow> None
               | Some (Inl e) \<Rightarrow> Some (Inl e)
               | Some (Inr first) \<Rightarrow>
                   if trim_space first = task then Some (Inr (openCodeSessionRef js row dbPath))
                   else oc_discover_loop js dbPath db ends task started rows nearest')
         else oc_discover_loop js dbPath db ends task started rows nearest')"

definition OpenCode_Discover ::
  "session_json \<Rightarrow> session_env \<Rightarrow> string \<Rightarrow> session_error + oc_db \<Rightarrow> bool \<Rightarrow> SessionDiscoverRequest \<Rightarrow>
   (session_error + HarnessSessionRef) option"
where
  "OpenCode_Discover js env dbPath opened ends req =
     (case opened of
        Inl e \<Rightarrow> Some (Inl e)
      | Inr db \<Rightarrow>
          let root = canonicalPath env (SD_Root req);
              i = trim_space (SD_NativeID req);
              native = (if i = [] then None
                else case queryOpenCodeSession db i of
                       Some row \<Rightarrow> if root = [] \<or> canonicalPath env (oc_Directory row) = root then Some row else None
                     | None \<Rightarrow> None)
          in case native of
               Some row \<Rightarrow> Some (Inr (openCodeSessionRef js row dbPath))
             | None \<Rightarrow>
                 oc_discover_loop js dbPath db ends (trim_space (SD_Task req)) (SD_StartedAt req)
                   (take 200 (by_time True oc_TimeCreated oc_ID
                     (filter (\<lambda>r. root \<noteq> [] \<longrightarrow> oc_Directory r = root) (ocdb_session db)))) None)"

text \<open>The parts of a session with their messages.\<close>

definition session_parts :: "oc_db \<Rightarrow> string \<Rightarrow> (oc_part \<times> oc_message) list" where
  "session_parts db i =
     by_time False (ocp_time_created \<circ> fst) (ocp_id \<circ> fst)
       (filter (\<lambda>(p, m). ocm_id m = ocp_message_id p \<and> ocp_session_id p = i) (List.product (ocdb_part db) (ocdb_message db)))"

fun part_loop ::
  "session_json \<Rightarrow> int \<Rightarrow> (oc_part \<times> oc_message) list \<Rightarrow> SessionPage \<Rightarrow> session_error + SessionPage"
where
  "part_loop js seq [] page = Inr page"
| "part_loop js seq ((p, m) # rest) page =
     (case parseOpenCodeDurablePart js (ocp_data p) (ocm_data m) seq (ocp_time_created p) of
        None \<Rightarrow> Inl (ErrPage (ErrParse seq))
      | Some (raw, entries) \<Rightarrow>
          part_loop js (seq + 1) rest
            (page\<lparr>Page_RawRecords := Page_RawRecords page @ [raw], Page_Entries := Page_Entries page @ entries,
                  Page_NextCursor := seq\<rparr>))"

definition OpenCode_Read ::
  "session_json \<Rightarrow> string \<Rightarrow> session_error + oc_db \<Rightarrow> HarnessSessionRef \<Rightarrow> SessionReadRequest \<Rightarrow> session_error + SessionPage"
where
  "OpenCode_Read js dbPath opened ref req =
     (if HS_Harness ref \<noteq> [] \<and> HS_Harness ref \<noteq> SubagentClientOpencode then Inl (ErrBelongsTo (HS_Harness ref))
      else if trim_space (HS_ID ref) = [] then Inl ErrHarnessSessionNotFound
      else case opened of
             Inl e \<Rightarrow> Inl e
           | Inr db \<Rightarrow>
               (case queryOpenCodeSession db (HS_ID ref) of
                  None \<Rightarrow> Inl ErrHarnessSessionNotFound
                | Some srow \<Rightarrow>
                    let limit = page_limit 200 2000 (SR_Limit req);
                        offset = (if SR_After req < 0 then 0 else SR_After req);
                        parts = take (limit + 1) (drop (nat offset) (session_parts db (HS_ID ref)))
                    in part_loop js (offset + 1) (take limit parts)
                         \<lparr>Page_Session = openCodeSessionRef js srow dbPath, Page_Entries = [], Page_RawRecords = [],
                          Page_NextCursor = offset, Page_EOF = (length parts \<le> limit)\<rparr>))"

end
