(* ===== verification/SessionProperties.thy ===== *)
theory SessionProperties
  imports SessionAdapter
begin

text \<open>
  Properties of the session adapters: a reader that follows a growing session sees every record once and in order, the search
  for a session chooses what its reference definition says, a page shows only well-formed entries of its records, and a file that is
  read lies below the harness's session directories when its locator is a clean path.
\<close>

section \<open>Following a session\<close>

text \<open>
  A reader that asks for one page after the other, each from the cursor of the last: the records it is given, the cursor it has
  reached and the adapter's indexes.
\<close>

fun follow_session ::
  "'m session_adapter \<Rightarrow> HarnessSessionRef \<Rightarrow> (session_env \<times> session_env \<times> int) list \<Rightarrow> int \<Rightarrow> indexes \<Rightarrow>
   session_error + HarnessRawRecord list \<times> int \<times> indexes"
where
  "follow_session a ref [] cur ixs = Inr ([], cur, ixs)"
| "follow_session a ref ((env, env', limit) # steps) cur ixs =
     (case session_Read a env env' (\<lambda>_. False) ref \<lparr>SR_After = cur, SR_Limit = limit\<rparr> ixs of
        (ixs', Inl e) \<Rightarrow> Inl e
      | (ixs', Inr page) \<Rightarrow>
          (case follow_session a ref steps (Page_NextCursor page) ixs' of
             Inl e \<Rightarrow> Inl e
           | Inr (raws, cur', ixs'') \<Rightarrow> Inr (Page_RawRecords page @ raws, cur', ixs'')))"

text \<open>
  \<open>grows a path ts n steps m\<close>: the file at \<open>path\<close> is a prefix of the records \<open>ts\<close> that only becomes longer; it has \<open>n\<close> bytes before
  the steps, at least \<open>n\<close> at the first index and \<open>m\<close> at the last one, and the locator is accepted at every step.
\<close>

inductive grows ::
  "'m session_adapter \<Rightarrow> string \<Rightarrow> string list \<Rightarrow> nat \<Rightarrow> (session_env \<times> session_env \<times> int) list \<Rightarrow> nat \<Rightarrow> bool"
  for a path ts
where
  grows_Nil: "grows a path ts n [] n"
| grows_Cons:
    "n \<le> n1 \<Longrightarrow> n1 \<le> n2 \<Longrightarrow>
     os_Stat env path = Inr (d1, File (take n1 (session_lines ts)) m1) \<Longrightarrow>
     os_Stat env' path = Inr (d2, File (take n2 (session_lines ts)) m2) \<Longrightarrow>
     sa_validate a env path = None \<Longrightarrow> grows a path ts n1 steps m \<Longrightarrow>
     grows a path ts n ((env, env', limit) # steps) m"

inductive_cases grows_ConsE: "grows a path ts n ((env, env', limit) # steps) m"

text \<open>The index of a path is behind or at the first \<open>n\<close> bytes of the records.\<close>

definition tracks :: "string list \<Rightarrow> nat \<Rightarrow> fileIndex option \<Rightarrow> bool" where
  "tracks ts n ix \<longleftrightarrow>
     (case ix of None \<Rightarrow> True | Some idx \<Rightarrow> \<exists>k \<le> n. indexed 0 0 ts k (ix_offset idx) (ix_records idx))"

lemma indexed_empty: "\<forall>t \<in> set ts. t \<noteq> [] \<Longrightarrow> indexed 0 0 ts 0 0 []"
  by (simp add: indexed_def whole_records_0)

lemma index_snapshot_None: "index_snapshot valid mx s None = index_snapshot valid mx s (Some empty_index)"
  by (simp add: index_snapshot_def empty_index_def)

lemma indexSnapshot_tracks:
  assumes good: "\<forall>t \<in> set ts. good_record (sa_valid a) (sa_maxBytes a) t" and pos: "0 < sa_maxBytes a"
    and stat: "os_Stat env path = Inr (d, File (take n' (session_lines ts)) mode)"
    and "tracks ts n (ixs path)" and "n \<le> n'"
  shows "\<exists>idx. indexSnapshot a env path ixs = (ixs(path \<mapsto> idx), Inr (ix_records idx)) \<and>
    indexed 0 0 ts n' (ix_offset idx) (ix_records idx)"
proof -
  have "\<exists>k idx0. k \<le> n' \<and> indexed 0 0 ts k (ix_offset idx0) (ix_records idx0) \<and>
      index_snapshot (sa_valid a) (sa_maxBytes a) (take n' (session_lines ts)) (ixs path) =
      index_snapshot (sa_valid a) (sa_maxBytes a) (take n' (session_lines ts)) (Some idx0)"
  proof (cases "ixs path")
    case None
    have "indexed 0 0 ts 0 (ix_offset empty_index) (ix_records empty_index)"
      using indexed_empty [of ts] good by (auto simp: empty_index_def good_record_def)
    then show ?thesis unfolding None index_snapshot_None
      by (intro exI [of _ 0] exI [of _ empty_index]) simp
  next
    case (Some idx0)
    then obtain k where "k \<le> n" "indexed 0 0 ts k (ix_offset idx0) (ix_records idx0)"
      using assms(4) by (auto simp: tracks_def)
    then show ?thesis unfolding Some using assms(5) by (intro exI [of _ k] exI [of _ idx0]) simp
  qed
  then obtain k idx0 where "k \<le> n'" "indexed 0 0 ts k (ix_offset idx0) (ix_records idx0)"
    and eq: "index_snapshot (sa_valid a) (sa_maxBytes a) (take n' (session_lines ts)) (ixs path) =
      index_snapshot (sa_valid a) (sa_maxBytes a) (take n' (session_lines ts)) (Some idx0)" by blast
  then show ?thesis using index_snapshot_grows [OF good pos, of k idx0 n'] stat
    by (auto simp: indexSnapshot_def)
qed

text \<open>One page of a growing session.\<close>

lemma session_Read_grows:
  assumes good: "\<forall>t \<in> set ts. good_record (sa_valid a) (sa_maxBytes a) t" and pos: "0 < sa_maxBytes a"
    and parses: "\<forall>k < length ts. sa_parse a (ts ! k) (int k + 1) \<noteq> None"
    and harness: "HS_Harness ref = [] \<or> HS_Harness ref = sa_Harness a" and loc: "trim_space (HS_Locator ref) \<noteq> []"
    and stat: "os_Stat env (HS_Locator ref) = Inr (d1, File (take n1 (session_lines ts)) m1)"
    and stat': "os_Stat env' (HS_Locator ref) = Inr (d2, File (take n2 (session_lines ts)) m2)"
    and "sa_validate a env (HS_Locator ref) = None" and "tracks ts n (ixs (HS_Locator ref))" and "n \<le> n1" and "n1 \<le> n2"
    and cur: "k \<le> whole_records n1 ts" and b_def: "b = min (k + page_limit 200 2000 limit) (whole_records n1 ts)"
  shows "\<exists>ixs'. session_Read a env env' (\<lambda>_. False) ref \<lparr>SR_After = int k, SR_Limit = limit\<rparr> ixs =
      (ixs', Inr (page_of (sa_parse a) ref ts k b (int b) (b = whole_records n1 ts))) \<and>
      tracks ts n1 (ixs' (HS_Locator ref))"
proof -
  obtain idx where idx: "indexSnapshot a env (HS_Locator ref) ixs = (ixs(HS_Locator ref \<mapsto> idx), Inr (ix_records idx))"
    "indexed 0 0 ts n1 (ix_offset idx) (ix_records idx)"
    using indexSnapshot_tracks [where ixs = ixs, OF good pos stat assms(9,10)] by blast
  have "\<forall>j < length (ix_records idx). sa_parse a (ts ! j) (int j + 1) \<noteq> None"
    using parses indexed_length [OF idx(2)] by auto
  note page = read_page_reads [OF good idx(2) \<open>n1 \<le> n2\<close> this, of "\<lambda>_. False" k "int k" b "page_limit 200 2000 limit" ref]
  have "k \<le> b" using cur by (simp add: b_def)
  then have "(if k < b then int b else int k) = int b" by auto
  moreover have "k = min (nat (int k)) (whole_records n1 ts)" using cur by simp
  moreover have "HS_Locator ref \<noteq> []" using loc by auto
  ultimately have "session_Read a env env' (\<lambda>_. False) ref \<lparr>SR_After = int k, SR_Limit = limit\<rparr> ixs =
      (ixs(HS_Locator ref \<mapsto> idx), Inr (page_of (sa_parse a) ref ts k b (int b) (b = whole_records n1 ts)))"
    using page idx(1) assms(4,5,8) stat'
    by (auto simp: session_Read_def resolveLocator_def open_content_def b_def)
  then show ?thesis using idx(2) by (auto simp: tracks_def)
qed

lemma whole_records_mono: "n \<le> m \<Longrightarrow> whole_records n ts \<le> whole_records m ts"
  by (induction n ts arbitrary: m rule: whole_records.induct) auto

lemma whole_records_le: "whole_records n ts \<le> length ts"
  by (induction n ts rule: whole_records.induct) auto

lemma page_limit_pos: "0 < page_limit 200 2000 limit"
  by (simp add: page_limit_def Let_def)

lemma grows_mono: "grows a path ts n steps m \<Longrightarrow> n \<le> m"
  by (induction rule: grows.induct) auto

lemma follow_grows:
  assumes good: "\<forall>t \<in> set ts. good_record (sa_valid a) (sa_maxBytes a) t" and pos: "0 < sa_maxBytes a"
    and parses: "\<forall>k < length ts. sa_parse a (ts ! k) (int k + 1) \<noteq> None"
    and harness: "HS_Harness ref = [] \<or> HS_Harness ref = sa_Harness a" and loc: "trim_space (HS_Locator ref) \<noteq> []"
    and "grows a (HS_Locator ref) ts n steps m" and "tracks ts n (ixs (HS_Locator ref))" and "k \<le> whole_records n ts"
  shows "\<exists>c ixs'. follow_session a ref steps (int k) ixs =
      Inr (map (\<lambda>j. fst (the (sa_parse a (ts ! j) (int j + 1)))) [k..<c], int c, ixs') \<and>
      k \<le> c \<and> c \<le> whole_records m ts \<and> min (k + length steps) (whole_records n ts) \<le> c"
  using assms(6-8)
proof (induction steps arbitrary: n k ixs)
  case Nil
  then show ?case by (auto elim: grows.cases intro!: exI [of _ k])
next
  case (Cons step steps)
  obtain env env' limit where step: "step = (env, env', limit)" by (cases step)
  from Cons.prems(1) obtain n1 n2 d1 d2 m1 m2 where n: "n \<le> n1" "n1 \<le> n2"
    and stat: "os_Stat env (HS_Locator ref) = Inr (d1, File (take n1 (session_lines ts)) m1)"
      "os_Stat env' (HS_Locator ref) = Inr (d2, File (take n2 (session_lines ts)) m2)"
    and val: "sa_validate a env (HS_Locator ref) = None" and rest: "grows a (HS_Locator ref) ts n1 steps m"
    unfolding step by (rule grows_ConsE) blast
  define b where "b = min (k + page_limit 200 2000 limit) (whole_records n1 ts)"
  have k: "k \<le> whole_records n1 ts" using Cons.prems(3) whole_records_mono [OF n(1), of ts] by simp
  obtain ixs' where page: "session_Read a env env' (\<lambda>_. False) ref \<lparr>SR_After = int k, SR_Limit = limit\<rparr> ixs =
      (ixs', Inr (page_of (sa_parse a) ref ts k b (int b) (b = whole_records n1 ts)))"
    "tracks ts n1 (ixs' (HS_Locator ref))"
    using session_Read_grows [where ixs = ixs, OF good pos parses harness loc stat val Cons.prems(2) n k b_def] by blast
  have b: "k \<le> b" "b \<le> whole_records n1 ts" "min (Suc k) (whole_records n1 ts) \<le> b"
    using k page_limit_pos [of limit] by (auto simp: b_def)
  obtain c ixs'' where c: "follow_session a ref steps (int b) ixs' =
      Inr (map (\<lambda>j. fst (the (sa_parse a (ts ! j) (int j + 1)))) [b..<c], int c, ixs'')"
    "b \<le> c" "c \<le> whole_records m ts" "min (b + length steps) (whole_records n1 ts) \<le> c"
    using Cons.IH [where ixs = ixs', OF rest page(2) b(2)] by blast
  have "[k..<c] = [k..<b] @ [b..<c]" using b(1) c(2) by (metis le_Suc_ex upt_add_eq_append)
  moreover have "min (k + length (step # steps)) (whole_records n ts) \<le> c"
    using c(4) b whole_records_mono [OF n(1), of ts] by (auto simp: min_def split: if_splits)
  ultimately show ?case using page(1) c b(1) step by (auto simp: page_of_def)
qed

section \<open>Choosing a session\<close>

text \<open>
  The reference: among the readable sessions of the root, the one with the native identifier; else the first of those with the
  task that is closest in time; else the first of the others that is closest, if it is within the window or no time was given.
\<close>

definition closest :: "('m \<Rightarrow> int) \<Rightarrow> 'm list \<Rightarrow> 'm option" where
  "closest dist metas = find (\<lambda>m. \<forall>m' \<in> set metas. dist m \<le> dist m') metas"

definition root_metas :: "'m session_adapter \<Rightarrow> session_env \<Rightarrow> string \<Rightarrow> string list \<Rightarrow> 'm list" where
  "root_metas a env root files = filter (of_root a env root) (List.map_filter (sa_meta a env) files)"

definition choose_session ::
  "'m session_adapter \<Rightarrow> string \<Rightarrow> string \<Rightarrow> gotime \<Rightarrow> 'm list \<Rightarrow> session_error + HarnessSessionRef"
where
  "choose_session a task nativeID started metas =
     (let dist = (\<lambda>m. timeDistance (HS_StartedAt (sa_ref a m)) started);
          wanted = (\<lambda>m. task \<noteq> [] \<and> sa_has_task a m task);
          near = (\<lambda>m. \<not> wanted m \<and> (is_zero started \<or> dist m \<le> discoverWindow))
      in case find (\<lambda>m. nativeID \<noteq> [] \<and> HS_ID (sa_ref a m) = nativeID) metas of
           Some m \<Rightarrow> Inr (sa_ref a m)
         | None \<Rightarrow>
             (case closest dist (filter wanted metas) of
                Some m \<Rightarrow> Inr (sa_ref a m)
              | None \<Rightarrow>
                  (case closest dist (filter near metas) of
                     Some m \<Rightarrow> Inr (sa_ref a m)
                   | None \<Rightarrow> Inl ErrHarnessSessionNotFound)))"

text \<open>The best of a list with its distance, as the loop carries it.\<close>

definition best_of :: "('m \<Rightarrow> int) \<Rightarrow> 'm list \<Rightarrow> ('m \<times> int) option" where
  "best_of dist metas = map_option (\<lambda>m. (m, dist m)) (closest dist metas)"

lemma closest_Nil [simp]: "closest dist [] = None"
  by (simp add: closest_def)

lemma find_append: "find P (xs @ ys) = (case find P xs of Some x \<Rightarrow> Some x | None \<Rightarrow> find P ys)"
  by (induction xs) auto

lemma closest_SomeD: "closest dist metas = Some m \<Longrightarrow> m \<in> set metas \<and> (\<forall>m' \<in> set metas. dist m \<le> dist m')"
  by (auto simp: closest_def find_Some_iff)

lemma closest_NoneD: "closest dist metas = None \<Longrightarrow> metas = []"
proof (rule ccontr)
  assume none: "closest dist metas = None" and ne: "metas \<noteq> []"
  then have "Min (dist ` set metas) \<in> dist ` set metas" by (intro Min_in) auto
  then obtain m where "m \<in> set metas" "dist m = Min (dist ` set metas)" by auto
  then show False using none by (auto simp: closest_def find_None_iff)
qed

lemma find_weaker:
  assumes "find P xs = Some x" and "\<And>y. y \<in> set xs \<Longrightarrow> Q y \<Longrightarrow> P y" and "Q x"
  shows "find Q xs = Some x"
  using assms by (induction xs) (auto split: if_splits)

lemma best_of_snoc: "best_of dist (metas @ [m]) = better (m, dist m) (best_of dist metas)"
proof (cases "closest dist metas")
  case None
  then show ?thesis using closest_NoneD [OF None] by (simp add: best_of_def better_def closest_def)
next
  case (Some b)
  note min = closest_SomeD [OF Some]
  show ?thesis
  proof (cases "dist m < dist b")
    case True
    then have "find (\<lambda>x. \<forall>y \<in> set (metas @ [m]). dist x \<le> dist y) metas = None"
      using min by (auto simp: find_None_iff)
    then have "closest dist (metas @ [m]) = Some m"
      using min True by (auto simp: closest_def find_append)
    then show ?thesis using True Some by (simp add: best_of_def better_def)
  next
    case False
    have "find (\<lambda>x. \<forall>y \<in> set (metas @ [m]). dist x \<le> dist y) metas = Some b"
      by (rule find_weaker [OF Some [unfolded closest_def]]) (use min False in auto)
    then have "closest dist (metas @ [m]) = Some b" by (simp add: closest_def find_append)
    then show ?thesis using False Some by (simp add: best_of_def better_def)
  qed
qed

lemma root_metas_Cons:
  "root_metas a env root (path # paths) =
     (case sa_meta a env path of
        None \<Rightarrow> root_metas a env root paths
      | Some m \<Rightarrow> if of_root a env root m then m # root_metas a env root paths else root_metas a env root paths)"
  by (simp add: root_metas_def map_filter_simps split: option.splits)

lemma discover_loop_choose:
  assumes "\<forall>path \<in> set files. \<not> sv_canceled env path"
    and "\<forall>m \<in> set seen. \<not> (nativeID \<noteq> [] \<and> HS_ID (sa_ref a m) = nativeID)"
    and wanted: "wanted = (\<lambda>m. task \<noteq> [] \<and> sa_has_task a m task)"
    and dist: "dist = (\<lambda>m. timeDistance (HS_StartedAt (sa_ref a m)) started)"
    and near: "near = (\<lambda>m. \<not> wanted m \<and> (is_zero started \<or> dist m \<le> discoverWindow))"
  shows "discover_loop a env root task nativeID started files
       (best_of dist (filter wanted seen)) (best_of dist (filter near seen)) =
     choose_session a task nativeID started (seen @ root_metas a env root files)"
  using assms(1,2)
proof (induction files arbitrary: seen)
  case Nil
  have "find (\<lambda>m. nativeID \<noteq> [] \<and> HS_ID (sa_ref a m) = nativeID) seen = None"
    using Nil by (auto simp: find_None_iff)
  then show ?case
    by (simp add: choose_session_def root_metas_def map_filter_simps best_of_def wanted dist near split: option.splits)
next
  case (Cons path paths)
  then have nc: "\<not> sv_canceled env path" by simp
  show ?case
  proof (cases "sa_meta a env path")
    case None
    then show ?thesis using Cons nc by (simp add: root_metas_Cons)
  next
    case (Some m)
    show ?thesis
    proof (cases "of_root a env root m")
      case False
      then show ?thesis using Cons nc Some by (simp add: root_metas_Cons)
    next
      case True
      show ?thesis
      proof (cases "nativeID \<noteq> [] \<and> HS_ID (sa_ref a m) = nativeID")
        case native: True
        have "find (\<lambda>m. nativeID \<noteq> [] \<and> HS_ID (sa_ref a m) = nativeID) seen = None"
          using Cons.prems(2) by (auto simp: find_None_iff)
        then show ?thesis using True Some nc native
          by (simp add: root_metas_Cons choose_session_def find_append)
      next
        case other: False
        have "discover_loop a env root task nativeID started paths
            (best_of dist (filter wanted (seen @ [m]))) (best_of dist (filter near (seen @ [m]))) =
          choose_session a task nativeID started ((seen @ [m]) @ root_metas a env root paths)"
          using Cons.prems other by (intro Cons.IH) auto
        then show ?thesis using True Some nc other
          by (auto simp: root_metas_Cons best_of_snoc Let_def wanted dist near)
      qed
    qed
  qed
qed

text \<open>
  (C37) Searching the session of a run, the Codex adapter goes through the session files once and finds what the reference
  definition chooses among all readable sessions of the requested root: a session with the requested native identifier before
  any other, then a session whose user texts have the task, then any session that started within 30 seconds of the requested time
  (any session at all when no time is given), in each group the first of those closest in time.
\<close>

theorem codex_discover_chooses:
  assumes "sa_files a env = Inr files" and "\<forall>path \<in> set files. \<not> sv_canceled env path"
  shows "Codex_Discover a env req =
     choose_session a (trim_space (SD_Task req)) (trim_space (SD_NativeID req)) (SD_StartedAt req)
       (root_metas a env (canonicalPath env (SD_Root req)) files)"
  using discover_loop_choose [OF assms(2) _ refl refl refl, of "[]"] assms(1) by (simp add: Codex_Discover_def best_of_def)


section \<open>The adapters of session files\<close>

text \<open>
  What a file adapter promises: a record is kept as it was read and shown as well-formed entries, and a locator is accepted
  only below one of the adapter's directories.
\<close>

locale file_adapter =
  fixes a :: "'m session_adapter" and roots :: "string list"
  assumes parse_ok: "sa_parse a line seq = Some r \<Longrightarrow> record_ok line seq r"
    and validate_within: "sa_validate a env path = None \<Longrightarrow> \<exists>root \<in> set roots. pathWithinCodexRoot env root path = Inr True"
    and max_pos: "0 < sa_maxBytes a"

text \<open>
  A page is in order: it has at most 2000 records, and every entry is well formed and comes from a record of the page.
\<close>

definition page_ok :: "SessionPage \<Rightarrow> bool" where
  "page_ok page \<longleftrightarrow>
     length (Page_RawRecords page) \<le> 2000 \<and>
     (\<forall>e \<in> set (Page_Entries page).
        session_entry_ok (SE_SourceSeq e) e \<and> SE_SourceSeq e \<in> HR_SourceSeq ` set (Page_RawRecords page))"

definition entries_ok :: "SessionPage \<Rightarrow> bool" where
  "entries_ok page \<longleftrightarrow>
     (\<forall>e \<in> set (Page_Entries page).
        session_entry_ok (SE_SourceSeq e) e \<and> SE_SourceSeq e \<in> HR_SourceSeq ` set (Page_RawRecords page))"

lemma entries_ok_add:
  assumes "entries_ok page" and "record_ok line seq (raw, es)"
  shows "entries_ok (page\<lparr>Page_RawRecords := Page_RawRecords page @ [raw], Page_Entries := Page_Entries page @ es,
    Page_NextCursor := seq\<rparr>)"
  using assms by (auto simp: entries_ok_def record_ok_def session_entry_ok_def)

lemma page_limit_max: "page_limit 200 2000 limit \<le> 2000"
  by (auto simp: page_limit_def Let_def)

lemma part_loop_ok:
  "part_loop js seq parts page = Inr page' \<Longrightarrow> entries_ok page \<Longrightarrow>
   entries_ok page' \<and> length (Page_RawRecords page') = length (Page_RawRecords page) + length parts"
proof (induction js seq parts page rule: part_loop.induct)
  case (2 js seq p m rest page)
  obtain raw es where parsed: "parseOpenCodeDurablePart js (ocp_data p) (ocm_data m) seq (ocp_time_created p) = Some (raw, es)"
    using 2(2) by (auto split: option.splits)
  have "entries_ok (page\<lparr>Page_RawRecords := Page_RawRecords page @ [raw], Page_Entries := Page_Entries page @ es,
      Page_NextCursor := seq\<rparr>)"
    by (rule entries_ok_add [OF 2(3) parseOpenCodeDurablePart_ok [OF parsed]])
  from 2(1) [OF parsed refl _ this] show ?case using 2(2) parsed by simp
qed simp

text \<open>The real elements of a directory.\<close>

lemma real_path_parts:
  assumes "fs_wf fs" and "is_abs s"
  obtains r where "real_path fs (Clean s) = abs_path r" and "\<forall>p \<in> set r. good_part p"
proof (cases "EvalSymlinks fs (Clean s)")
  case (Inl e)
  have "Clean s = abs_path (path_parts s)" using assms(2) by (auto simp: Clean_def is_abs_def has_prefix_def)
  then show thesis using that [of "path_parts s"] Inl path_parts_abs [OF assms(2)] by (simp add: real_path_def)
next
  case (Inr t)
  show thesis by (rule EvalSymlinks_end [OF Inr assms(1)]) (use that Inr in \<open>simp add: real_path_def\<close>)
qed

text \<open>What is opened at a clean rooted path is the place that \<open>EvalSymlinks\<close> gives.\<close>

lemma os_Stat_real:
  assumes "os_Stat env s = Inr (d, nd)" and "is_abs s" and wf: "fs_wf (sv_fs env)"
  shows "real_path (sv_fs env) s = abs_path d" and "\<forall>p \<in> set d. good_part p"
proof -
  have w: "walk False [] (sv_fs env) maxKernelLinks [] (split_char slash s) = Inr (d, Some nd)"
    using assms(1,2) by (auto simp: os_Stat_def split: sum.splits option.splits)
  then have "walk False [] (sv_fs env) maxEvalLinks [] (split_char slash s) = Inr (d, Some nd)"
    by (rule walk_more_links) simp
  then show "real_path (sv_fs env) s = abs_path d" by (simp add: real_path_def EvalSymlinks_def)
  have "is_dir (sv_fs env) []" using wf by (simp add: fs_wf_def is_dir_def)
  then show "\<forall>p \<in> set d. good_part p"
    using walk_end [OF w wf] by (auto dest: split_char_free)
qed

lemma os_Stat_at:
  assumes "fs_wf (sv_fs env)" and "sv_fs env d = Some nd" and "\<forall>l. nd \<noteq> Link l" and "\<forall>p \<in> set d. good_part p" and "d \<noteq> []"
  shows "os_Stat env (abs_path d) = Inr (d, nd)"
proof -
  have "walk False [] (sv_fs env) maxKernelLinks [] d = Inr (d, Some nd)"
    using walk_real [of "sv_fs env" "[]" "[]" d nd] assms by simp
  moreover have "split_char slash (abs_path d) = [] # d"
    using split_abs_path [of d] assms(4,5) by (auto simp: good_part_def)
  ultimately show ?thesis by (simp add: os_Stat_def walk.simps(2) [of _ _ _ _ _ "[]"])
qed

text \<open>
  Between the check of a locator and the reading of the page other programs may write to files; a world in which they do no more
  than that has the same directories and links.
\<close>

definition only_contents :: "fs \<Rightarrow> fs \<Rightarrow> bool" where
  "only_contents fs fs' \<longleftrightarrow>
     (\<forall>p. fs' p = fs p \<or> (\<exists>c m c' m'. fs p = Some (File c m) \<and> fs' p = Some (File c' m')))"

definition walk_place :: "fs_error + string list \<times> node option \<Rightarrow> fs_error + string list \<times> bool" where
  "walk_place w = map_sum id (\<lambda>(d, nd). (d, nd = None)) w"

lemma walk_place_simps [simp]: "walk_place (Inl e) = Inl e" "walk_place (Inr (d, nd)) = Inr (d, nd = None)"
  by (simp_all add: walk_place_def)

lemma walk_only_contents:
  "only_contents fs fs' \<Longrightarrow> walk_place (walk conf base fs' n dest ps) = walk_place (walk conf base fs n dest ps)"
proof (induction conf base fs n dest ps rule: walk.induct)
  case (1 conf base fs n dest)
  then have "fs' (base @ dest) = None \<longleftrightarrow> fs (base @ dest) = None"
    unfolding only_contents_def by (metis option.distinct(1))
  then show ?case by simp
next
  case (2 conf base fs n dest p rest)
  consider "fs' (base @ dest @ [p]) = fs (base @ dest @ [p])"
    | c m c' m' where "fs (base @ dest @ [p]) = Some (File c m)" "fs' (base @ dest @ [p]) = Some (File c' m')"
    using "2.prems" unfolding only_contents_def by blast
  then show ?case
  proof cases
    case 1
    then show ?thesis using 2 by (auto simp: walk.simps(2) split: option.split node.split)
  next
    case (2 c m c' m')
    then show ?thesis using "2.IH"(1,2) "2.prems" by (auto simp: walk.simps(2))
  qed
qed

lemma os_Stat_only_contents:
  assumes "only_contents (sv_fs env) (sv_fs env')" and "is_abs s" and "os_Stat env s = Inr (d, nd)" and "os_Stat env' s = Inr (d', nd')"
  shows "d' = d"
  using walk_only_contents [OF assms(1), of False "[]" maxKernelLinks "[]" "split_char slash s"] assms(2-4)
  by (auto simp: os_Stat_def split: sum.splits option.splits prod.splits)

lemma EvalSymlinks_only_contents:
  assumes "only_contents fs fs'"
  shows "real_path fs' s = real_path fs s"
  using walk_only_contents [OF assms, of False "[]" maxEvalLinks "[]" "split_char slash s"]
  by (auto simp: real_path_def EvalSymlinks_def split: sum.splits option.splits prod.splits)

text \<open>The records and entries of a page are what the content of one file decodes to at some positions.\<close>

definition decoded_from :: "(string \<Rightarrow> int \<Rightarrow> (HarnessRawRecord \<times> SessionEntry list) option) \<Rightarrow> string \<Rightarrow> SessionPage \<Rightarrow> bool" where
  "decoded_from parse content page \<longleftrightarrow>
     (\<exists>ps :: (recordPos \<times> HarnessRawRecord \<times> SessionEntry list) list. list_all (\<lambda>(pos, raw, es).
          parse (trim_space (ReadAt content (pos_offset pos) (pos_length pos))) (pos_seq pos) = Some (raw, es)) ps \<and>
        Page_RawRecords page = map (\<lambda>(pos, raw, es). raw) ps \<and> Page_Entries page = concat (map (\<lambda>(pos, raw, es). es) ps))"

lemma decoded_from_add:
  fixes pos :: recordPos
  assumes "decoded_from parse content page"
    and "parse (trim_space (ReadAt content (pos_offset pos) (pos_length pos))) (pos_seq pos) = Some (raw, es)"
  shows "decoded_from parse content (page\<lparr>Page_RawRecords := Page_RawRecords page @ [raw], Page_Entries := Page_Entries page @ es,
    Page_NextCursor := n\<rparr>)"
proof -
  obtain ps :: "(recordPos \<times> HarnessRawRecord \<times> SessionEntry list) list" where "list_all (\<lambda>(pos, raw, es).
        parse (trim_space (ReadAt content (pos_offset pos) (pos_length pos))) (pos_seq pos) = Some (raw, es)) ps"
      "Page_RawRecords page = map (\<lambda>(pos, raw, es). raw) ps" "Page_Entries page = concat (map (\<lambda>(pos, raw, es). es) ps)"
    using assms(1) by (auto simp: decoded_from_def)
  then show ?thesis using assms(2) unfolding decoded_from_def by (intro exI [of _ "ps @ [(pos, raw, es)]"]) simp
qed

lemma page_loop_from:
  "page_loop canceled parse content ps page = Inr page' \<Longrightarrow> decoded_from parse content page \<Longrightarrow> decoded_from parse content page'"
  by (induction canceled parse content ps page rule: page_loop.induct)
    (auto split: if_splits option.splits simp: decoded_from_add)

lemma read_page_from:
  assumes "read_page canceled parse session content positions after limit = Inr page"
  shows "decoded_from parse content page"
proof (rule page_loop_from)
  show "page_loop canceled parse content
      (take (page_stop positions after limit - search_start positions after) (drop (search_start positions after) positions))
      \<lparr>Page_Session = session, Page_Entries = [], Page_RawRecords = [], Page_NextCursor = after,
        Page_EOF = (page_stop positions after limit = length positions)\<rparr> = Inr page"
    using assms by (simp add: read_page_def Let_def)
  show "decoded_from parse content \<lparr>Page_Session = session, Page_Entries = [], Page_RawRecords = [], Page_NextCursor = after,
        Page_EOF = (page_stop positions after limit = length positions)\<rparr>"
    unfolding decoded_from_def by (intro exI [of _ "[]"]) simp
qed

context file_adapter
begin

lemma page_loop_ok:
  "page_loop canceled (sa_parse a) content ps page = Inr page' \<Longrightarrow> entries_ok page \<Longrightarrow>
   entries_ok page' \<and> length (Page_RawRecords page') = length (Page_RawRecords page) + length ps"
proof (induction ps arbitrary: page)
  case (Cons pos rest)
  let ?line = "trim_space (ReadAt content (pos_offset pos) (pos_length pos))"
  obtain raw es where parsed: "sa_parse a ?line (pos_seq pos) = Some (raw, es)"
    using Cons.prems(1) by (auto split: if_splits option.splits)
  have "entries_ok (page\<lparr>Page_RawRecords := Page_RawRecords page @ [raw], Page_Entries := Page_Entries page @ es,
      Page_NextCursor := pos_seq pos\<rparr>)"
    by (rule entries_ok_add [OF Cons.prems(2) parse_ok [OF parsed]])
  from Cons.IH [OF _ this] show ?case using Cons.prems(1) parsed by (simp split: if_splits)
qed simp

lemma read_ok:
  assumes "session_Read a env env' canceled ref req ixs = (ixs', Inr page)"
  shows "page_ok page"
proof -
  obtain session content positions where "read_page canceled (sa_parse a) session content positions (SR_After req)
      (page_limit 200 2000 (SR_Limit req)) = Inr page"
    using assms by (auto simp: session_Read_def Let_def split: if_splits sum.splits option.splits prod.splits)
  then have "entries_ok page \<and> length (Page_RawRecords page) \<le> page_limit 200 2000 (SR_Limit req)"
    unfolding read_page_def Let_def
    by (auto dest!: page_loop_ok simp: entries_ok_def page_stop_def Let_def split: if_splits)
  then show ?thesis using page_limit_max [of "SR_Limit req"] by (simp add: page_ok_def entries_ok_def)
qed

lemma read_confined:
  assumes "session_Read a env env' canceled ref req ixs = (ixs', Inr page)"
    and loc: "trim_space (HS_Locator ref) \<noteq> []" "is_abs (HS_Locator ref)" "Clean (HS_Locator ref) = HS_Locator ref"
    and wf: "fs_wf (sv_fs env)" and roots: "\<forall>root \<in> set roots. is_abs root"
    and later: "only_contents (sv_fs env) (sv_fs env')"
  shows "\<exists>d c m root r q. os_Stat env' (HS_Locator ref) = Inr (d, File c m) \<and> decoded_from (sa_parse a) c page \<and>
    root \<in> set roots \<and> real_path (sv_fs env') (Clean root) = abs_path r \<and> d = r @ q"
proof -
  have val: "sa_validate a env (HS_Locator ref) = None"
    and "\<not> isl (snd (indexSnapshot a env (HS_Locator ref) ixs))"
    using assms(1) loc(1) by (auto simp: session_Read_def resolveLocator_def split: if_splits option.splits prod.splits sum.splits)
  then obtain d c m where stat: "os_Stat env (HS_Locator ref) = Inr (d, File c m)"
    by (auto simp: indexSnapshot_def split: sum.splits node.splits)
  obtain root where root: "root \<in> set roots" "pathWithinCodexRoot env root (HS_Locator ref) = Inr True"
    using validate_within [OF val] by blast
  obtain r where r: "real_path (sv_fs env) (Clean root) = abs_path r" "\<forall>p \<in> set r. good_part p"
    using real_path_parts [OF wf] roots root(1) by metis
  note real = os_Stat_real [OF stat loc(2) wf]
  have "contained (abs_path r) (abs_path d)"
    using root roots loc r(1) real(1)
    by (auto simp: pathWithinCodexRoot_def Abs_path_def contained_def split: option.splits)
  then obtain q where "d = r @ q" using contained_iff [OF r(2) real(2)] by blast
  moreover obtain d' c' m' where opened: "os_Stat env' (HS_Locator ref) = Inr (d', File c' m')" "decoded_from (sa_parse a) c' page"
    using assms(1) loc(1)
    by (auto simp: session_Read_def resolveLocator_def open_content_def Let_def dest!: read_page_from
        split: if_splits option.splits prod.splits sum.splits node.splits)
  moreover have "d' = d" by (rule os_Stat_only_contents [OF later loc(2) stat opened(1)])
  moreover have "real_path (sv_fs env') (Clean root) = abs_path r"
    using r(1) EvalSymlinks_only_contents [OF later] by simp
  ultimately show ?thesis using root(1) by blast
qed

end

lemma codex_validate_within: "codex_validate env roots path = None \<Longrightarrow>
    \<exists>root \<in> set roots. pathWithinCodexRoot env root path = Inr True"
  by (induction env roots path rule: codex_validate.induct) (auto split: sum.splits bool.splits if_splits)

lemma omp_validate_within: "OMP_validateLocator dir env path = None \<Longrightarrow> pathWithinCodexRoot env dir path = Inr True"
  by (auto simp: OMP_validateLocator_def pathWithinCodexRoot_def Let_def split: option.splits if_splits)

definition codex_roots :: "string \<Rightarrow> string \<Rightarrow> string option \<Rightarrow> string list" where
  "codex_roots homeDir env_home userHome =
     [Join2 (codex_home homeDir env_home userHome) ''sessions'', Join2 (codex_home homeDir env_home userHome) ''archived_sessions'']"

interpretation codex: file_adapter "NewCodexSessionAdapter js homeDir env_home userHome" "codex_roots homeDir env_home userHome"
  for js homeDir env_home userHome
  by unfold_locales (auto simp: NewCodexSessionAdapter_def Let_def codex_roots_def Codex_validateLocator_def
      parseCodexDurableRecord_ok simp del: codex_validate.simps dest!: codex_validate_within)

interpretation omp: file_adapter "NewOMPSessionAdapter js agentDir env_dir userHome"
    "[Join2 (omp_dir agentDir env_dir userHome) ''sessions'']"
  for js agentDir env_dir userHome
  by unfold_locales (auto simp: NewOMPSessionAdapter_def Let_def parseOMPDurableRecord_ok dest!: omp_validate_within)


section \<open>Properties\<close>

text \<open>
  (C36) A reader that follows a session file while the harness appends to it sees every record once. Let the file be at every
  moment a prefix of the lines \<open>ts\<close>, each a record that is valid only when it is whole, and let every record be decodable. Then
  each page is read without an error, whatever the limits and wherever the writer has been cut off (between two records, inside one,
  or before the line feed of one): the pages together hold the records 1 to \<open>c\<close> in order, \<open>c\<close> is the cursor, no record is shown
  before it is whole, and after as many pages as there are whole records at the first one the reader has all of these.
\<close>

theorem session_followed:
  assumes "\<forall>t \<in> set ts. good_record (sa_valid a) (sa_maxBytes a) t" and "0 < sa_maxBytes a"
    and "\<forall>k < length ts. sa_parse a (ts ! k) (int k + 1) \<noteq> None"
    and "HS_Harness ref = [] \<or> HS_Harness ref = sa_Harness a" and "trim_space (HS_Locator ref) \<noteq> []"
    and "grows a (HS_Locator ref) ts n steps m"
  shows "\<exists>c ixs. follow_session a ref steps 0 Map.empty =
      Inr (map (\<lambda>k. fst (the (sa_parse a (ts ! k) (int k + 1)))) [0..<c], int c, ixs) \<and>
      c \<le> whole_records m ts \<and> min (length steps) (whole_records n ts) \<le> c"
proof -
  have "tracks ts n (Map.empty (HS_Locator ref))" by (simp add: tracks_def)
  from follow_grows [where ixs = Map.empty and k = 0, OF assms this]
  show ?thesis by auto
qed

text \<open>
  (C38) A page of a session, from any of the three adapters, holds at most 2000 records, and shows only entries that belong to one of
  them: each entry has the number of its record and one of the six kinds other than thinking, a message is spoken by the user or the
  assistant and is not blank, a tool call or result has a status, and arguments occur only with a call or an activity.
\<close>

theorem session_page_ok:
  assumes "Codex_Read (NewCodexSessionAdapter js homeDir env_home userHome) env env' canceled ref req ixs = (ixs', Inr page) \<or>
     OMP_Read (NewOMPSessionAdapter js agentDir env_dir userHome) env env' canceled ref req ixs = (ixs', Inr page) \<or>
     OpenCode_Read js dbPath opened ref req = Inr page"
  shows "page_ok page"
  using assms
proof (elim disjE)
  assume "OpenCode_Read js dbPath opened ref req = Inr page"
  then obtain seq rows page0 where loop: "part_loop js seq (take (page_limit 200 2000 (SR_Limit req)) rows) page0 = Inr page"
    and "Page_Entries page0 = []" "Page_RawRecords page0 = []"
    by (auto simp: OpenCode_Read_def Let_def split: if_splits sum.splits option.splits)
  then have "entries_ok page0" "length (Page_RawRecords page0) = 0" by (simp_all add: entries_ok_def)
  then show ?thesis using part_loop_ok [OF loop] page_limit_max [of "SR_Limit req"] by (simp add: page_ok_def entries_ok_def)
qed (simp_all add: Codex_Read_def OMP_Read_def codex.read_ok omp.read_ok)

text \<open>
  (C39) A page of a Codex session comes from below the Codex directories: when the locator is a clean rooted path, and other programs
  may write files but neither move them nor change directories or links between the check of the locator and the reading of the page,
  the file that the page was read from lies, after following every symbolic link, below the real place of the sessions or of the
  archived sessions, and every record and entry of the page is decoded from the content of that file.
\<close>

theorem session_read_confined:
  assumes "Codex_Read (NewCodexSessionAdapter js homeDir env_home userHome) env env' canceled ref req ixs = (ixs', Inr page)"
    and "trim_space (HS_Locator ref) \<noteq> []" and "is_abs (HS_Locator ref)" and "Clean (HS_Locator ref) = HS_Locator ref"
    and "fs_wf (sv_fs env)" and "\<forall>root \<in> set (codex_roots homeDir env_home userHome). is_abs root"
    and "only_contents (sv_fs env) (sv_fs env')"
  shows "\<exists>d c m root r q. os_Stat env' (HS_Locator ref) = Inr (d, File c m) \<and>
    decoded_from (sa_parse (NewCodexSessionAdapter js homeDir env_home userHome)) c page \<and>
    root \<in> set (codex_roots homeDir env_home userHome) \<and> real_path (sv_fs env') (Clean root) = abs_path r \<and> d = r @ q"
  by (rule codex.read_confined [OF assms(1) [unfolded Codex_Read_def] assms(2-7)])

text \<open>
  (C40) The OpenCode adapter cannot search by task: its database handle has one connection, and the query for the first user
  text of a session is made while the query for the sessions is still open. With a task, no native identifier and at least one
  session of the root, \<open>Discover\<close> never finds a session: it waits until the context ends and returns its error, and it does
  not return at all when the context does not end.
\<close>

theorem opencode_discover_blocks:
  assumes "trim_space (SD_Task req) \<noteq> []" and "trim_space (SD_NativeID req) = []"
    and "row \<in> set (ocdb_session db)" and "canonicalPath env (SD_Root req) \<in> {[], oc_Directory row}"
  shows "OpenCode_Discover js env dbPath (Inr db) ends req = (if ends then Some (Inl ErrCtx) else None)"
proof -
  let ?rows = "filter (\<lambda>r. canonicalPath env (SD_Root req) \<noteq> [] \<longrightarrow> oc_Directory r = canonicalPath env (SD_Root req)) (ocdb_session db)"
  have "row \<in> set ?rows" using assms(3,4) by auto
  moreover have "mset (by_time True oc_TimeCreated oc_ID ?rows) = mset ?rows"
    unfolding by_time_def by (rule mset_insert_all)
  ultimately have "by_time True oc_TimeCreated oc_ID ?rows \<noteq> []" by (metis list.set(1) empty_iff mset_eq_setD)
  then obtain r rs where "take 200 (by_time True oc_TimeCreated oc_ID ?rows) = r # rs"
    by (cases "by_time True oc_TimeCreated oc_ID ?rows") auto
  then show ?thesis using assms(1,2)
    by (simp add: OpenCode_Discover_def Let_def firstOpenCodeUserText_def pool_query_def)
qed

section \<open>A sample session\<close>

text \<open>Splitting evaluates the rest of the string once.\<close>

lemma split_char_code [code]:
  "split_char c [] = [[]]"
  "split_char c (x # xs) =
     (case split_char c xs of [] \<Rightarrow> [] | q # qs \<Rightarrow> if x = c then [] # q # qs else (x # q) # qs)"
  by (auto split: list.splits)

definition demo_envelope :: codexRolloutEnvelope where
  "demo_envelope = \<lparr>CE_Timestamp = [], CE_Ordinal = 0, CE_Type = ''event_msg'', CE_Payload = []\<rparr>"

definition demo_msg :: codexEventMsg where
  "demo_msg = \<lparr>CV_Type = ''task_started'', CV_TurnID = [], CV_LastAgentMessage = [], CV_Message = []\<rparr>"

definition demo_js :: session_json where
  "demo_js =
     \<lparr>js_Valid = (\<lambda>s. s = ''{}''), js_string = (\<lambda>_. None), js_int = (\<lambda>_. None), js_float = (\<lambda>_. None),
      js_object = (\<lambda>_. None), js_pair = (\<lambda>k v. []), js_time = (\<lambda>_. None), js_envelope = (\<lambda>_. Some demo_envelope),
      js_meta = (\<lambda>_. Some \<lparr>CM_SessionID = ''s1'', CM_ID = [], CM_Timestamp = [], CM_CWD = ''/w'', CM_Originator = [],
        CM_CLIVersion = [], CM_ModelProvider = []\<rparr>),
      js_turn = (\<lambda>_. None), js_item = (\<lambda>_. None), js_parts = (\<lambda>_. None), js_event = (\<lambda>_. Some demo_msg),
      js_live = (\<lambda>_. None), js_omp = (\<lambda>_. None), js_message = (\<lambda>_. None), js_start = (\<lambda>_. None), js_role = (\<lambda>_. None),
      js_part = (\<lambda>_. None), js_state = (\<lambda>_. openCodeState0), js_oc_live = (\<lambda>_. None), js_model = (\<lambda>_. None)\<rparr>"

definition demo_lines :: "string list" where
  "demo_lines = [''{}'', ''{}'']"

text \<open>A directory of sessions with one session of \<open>n\<close> bytes and a link out of it.\<close>

definition demo_fs :: "nat \<Rightarrow> fs" where
  "demo_fs n q =
     (if q = [] \<or> q = [''h''] \<or> q = [''h'', ''sessions''] \<or> q = [''x''] \<or> q = [''x'', ''d''] then Some (Dir 0)
      else if q = [''h'', ''sessions'', ''a.jsonl''] then Some (File (take n (session_lines demo_lines)) 0)
      else if q = [''h'', ''sessions'', ''l''] then Some (Link ''/x/d'')
      else if q = [''x'', ''a.jsonl''] then Some (File ''{}'' 0)
      else None)"

abbreviation demo_path :: string where "demo_path \<equiv> ''/h/sessions/a.jsonl''"

definition demo_env :: "nat \<Rightarrow> session_env" where
  "demo_env n =
     \<lparr>sv_fs = demo_fs n, sv_cwd = None, sv_mtime = (\<lambda>_. 0), sv_dirsize = 4096, 
      sv_walk = (\<lambda>root. if root = ''/h/sessions''
        then [\<lparr>v_path = demo_path, v_name = ''a.jsonl'', v_dir = False, v_err = None, v_canceled = False\<rparr>] else []),
      sv_ReadDir = (\<lambda>_. Inr []), sv_EvalRel = (\<lambda>_. None), sv_dir_canceled = (\<lambda>_. False), sv_canceled = (\<lambda>_. False)\<rparr>"

definition demo_adapter :: "codexSessionMeta session_adapter" where
  "demo_adapter = NewCodexSessionAdapter demo_js ''/h'' [] None"

definition demo_ref :: "string \<Rightarrow> HarnessSessionRef" where
  "demo_ref locator = ref0\<lparr>HS_Locator := locator\<rparr>"

lemma demo_fs_wf: "fs_wf (demo_fs n)"
  unfolding fs_wf_def demo_fs_def
  by (auto split: if_splits simp: append_eq_Cons_conv)


abbreviation demo_place :: "string list" where "demo_place \<equiv> [''h'', ''sessions'', ''a.jsonl'']"

lemma demo_places:
  "demo_path = abs_path demo_place" "''/h/sessions'' = abs_path [''h'', ''sessions'']" "\<forall>p \<in> set demo_place. good_part p"
  "demo_fs n demo_place = Some (File (take n (session_lines demo_lines)) 0)" "demo_fs n [''h'', ''sessions''] = Some (Dir 0)"
  by (simp_all add: abs_path_def good_part_def demo_fs_def)

lemma demo_stat: "os_Stat (demo_env n) demo_path = Inr (demo_place, File (take n (session_lines demo_lines)) 0)"
  unfolding demo_places(1) using demo_places(3,4) by (intro os_Stat_at) (simp_all add: demo_env_def demo_fs_wf)

lemma demo_adapter_simps:
  "sa_valid demo_adapter = (\<lambda>s. s = ''{}'')" "sa_maxBytes demo_adapter = 8388608"
  "sa_parse demo_adapter = parseCodexDurableRecord demo_js"
  "sa_validate demo_adapter = Codex_validateLocator ''/h/sessions'' ''/h/archived_sessions''"
  "sa_files demo_adapter = Codex_sessionFiles ''/h/sessions'' ''/h/archived_sessions''"
proof -
  have "Join2 (codex_home ''/h'' [] None) ''sessions'' = ''/h/sessions''"
    "Join2 (codex_home ''/h'' [] None) ''archived_sessions'' = ''/h/archived_sessions''"
    by code_simp+
  then show "sa_valid demo_adapter = (\<lambda>s. s = ''{}'')" "sa_maxBytes demo_adapter = 8388608"
    "sa_parse demo_adapter = parseCodexDurableRecord demo_js"
    "sa_validate demo_adapter = Codex_validateLocator ''/h/sessions'' ''/h/archived_sessions''"
    "sa_files demo_adapter = Codex_sessionFiles ''/h/sessions'' ''/h/archived_sessions''"
    by (simp_all add: demo_adapter_def NewCodexSessionAdapter_def demo_js_def Let_def)
qed

lemma demo_real: "real_path (demo_fs n) demo_path = demo_path" "real_path (demo_fs n) ''/h/sessions'' = ''/h/sessions''"
  unfolding demo_places(1,2) real_path_def using demo_places(3) demo_places(4,5) [of n]
  by (simp_all add: EvalSymlinks_real [OF demo_fs_wf])

lemma demo_clean:
  "Clean demo_path = demo_path" "Clean ''/h/sessions'' = ''/h/sessions''" "Rel ''/h/sessions'' demo_path = Some ''a.jsonl''"
  "is_abs demo_path" "is_abs ''/h/sessions''" "has_suffix (to_lower (Base demo_path)) ''.jsonl''"
  "\<not> has_prefix ''a.jsonl'' ''../''" "\<not> is_abs ''a.jsonl''"
  by code_simp+

lemma demo_validate: "Clean locator = demo_path \<Longrightarrow> is_abs locator \<Longrightarrow> Base locator = Base demo_path \<Longrightarrow>
    sa_validate demo_adapter (demo_env n) locator = None"
  using demo_clean demo_real
  by (simp add: demo_adapter_simps Codex_validateLocator_def pathWithinCodexRoot_def Abs_path_def demo_env_def)

lemma demo_good: "\<forall>t \<in> set demo_lines. good_record (sa_valid demo_adapter) (sa_maxBytes demo_adapter) t"
proof -
  have words: "trim_space ''{}'' = ''{}''" "trim_space ''{'' = ''{''" by code_simp+
  have "good_record (\<lambda>s. s = ''{}'') 8388608 ''{}''"
    using words by (auto simp: good_record_def less_Suc_eq)
  then show ?thesis by (simp add: demo_adapter_simps demo_lines_def)
qed

lemma demo_parses: "\<forall>k < length demo_lines. sa_parse demo_adapter (demo_lines ! k) (int k + 1) \<noteq> None"
  by (simp add: demo_adapter_simps parseCodexDurableRecord_def demo_js_def demo_envelope_def demo_msg_def Let_def)

lemma demo_ref_simps:
  "HS_Locator (demo_ref demo_path) = demo_path" "trim_space (HS_Locator (demo_ref demo_path)) \<noteq> []"
  "HS_Harness (demo_ref demo_path) = [] \<or> HS_Harness (demo_ref demo_path) = sa_Harness demo_adapter"
proof -
  have "trim_space demo_path \<noteq> []" by code_simp
  then show "HS_Locator (demo_ref demo_path) = demo_path" "trim_space (HS_Locator (demo_ref demo_path)) \<noteq> []"
    "HS_Harness (demo_ref demo_path) = [] \<or> HS_Harness (demo_ref demo_path) = sa_Harness demo_adapter"
    by (simp_all add: demo_ref_def ref0_def)
qed

lemma demo_counts: "whole_records 6 demo_lines = 2" "whole_records 2 demo_lines = 1"
  by code_simp+

theorem session_followed_witness:
  "\<exists>c ixs. follow_session demo_adapter (demo_ref demo_path) [(demo_env 2, demo_env 4, 1), (demo_env 6, demo_env 6, 0)] 0 Map.empty =
      Inr (map (\<lambda>k. fst (the (sa_parse demo_adapter (demo_lines ! k) (int k + 1)))) [0..<c], int c, ixs) \<and> c \<le> 2 \<and> 1 \<le> c"
proof -
  let ?steps = "[(demo_env 2, demo_env 4, 1), (demo_env 6, demo_env 6, 0)]"
  have "grows demo_adapter demo_path demo_lines 2 [(demo_env 6, demo_env 6, 0)] 6"
    by (rule grows_Cons [OF _ _ demo_stat demo_stat demo_validate [OF demo_clean(1,4) refl] grows_Nil]) simp_all
  from grows_Cons [OF _ _ demo_stat demo_stat demo_validate [OF demo_clean(1,4) refl] this, of 2 4 1]
  have "grows demo_adapter demo_path demo_lines 2 ?steps 6" by simp
  then have steps: "grows demo_adapter (HS_Locator (demo_ref demo_path)) demo_lines 2 ?steps 6" by (simp add: demo_ref_simps)
  have "0 < sa_maxBytes demo_adapter" by (simp add: demo_adapter_simps)
  from session_followed [OF demo_good this demo_parses demo_ref_simps(3,2) steps] show ?thesis
    by (simp add: demo_counts del: follow_session.simps)
qed

theorem codex_discover_chooses_witness:
  "Codex_Discover demo_adapter (demo_env 6) \<lparr>SD_Root = [], SD_Task = ''fix'', SD_StartedAt = 0, SD_NativeID = ''s1''\<rparr> =
     choose_session demo_adapter (trim_space ''fix'') (trim_space ''s1'') 0
       (root_metas demo_adapter (demo_env 6) (canonicalPath (demo_env 6) []) [demo_path])"
proof -
  have "sa_files demo_adapter (demo_env 6) = Inr [demo_path]"
    by (simp add: demo_adapter_simps Codex_sessionFiles_def demo_env_def has_prefix_def has_suffix_def)
  from codex_discover_chooses [OF this, of "\<lparr>SD_Root = [], SD_Task = ''fix'', SD_StartedAt = 0, SD_NativeID = ''s1''\<rparr>"]
  show ?thesis by (simp add: demo_env_def)
qed

lemma demo_session_read: "\<exists>ixs page. Codex_Read demo_adapter (demo_env 6) (demo_env 6) (\<lambda>_. False) (demo_ref demo_path)
    \<lparr>SR_After = 0, SR_Limit = 0\<rparr> Map.empty = (ixs, Inr page) \<and> length (Page_RawRecords page) = 2 \<and> length (Page_Entries page) = 2"
proof -
  have stat: "os_Stat (demo_env 6) (HS_Locator (demo_ref demo_path)) = Inr (demo_place, File (take 6 (session_lines demo_lines)) 0)"
    and val: "sa_validate demo_adapter (demo_env 6) (HS_Locator (demo_ref demo_path)) = None"
    by (simp_all only: demo_ref_simps(1) demo_stat demo_validate [OF demo_clean(1,4) refl])
  have pos: "0 < sa_maxBytes demo_adapter" by (simp add: demo_adapter_simps)
  have "tracks demo_lines 6 (Map.empty (HS_Locator (demo_ref demo_path)))" by (simp add: tracks_def)
  moreover have "2 = min (0 + page_limit 200 2000 0) (whole_records 6 demo_lines)" by (simp add: demo_counts page_limit_def)
  ultimately obtain ixs where "session_Read demo_adapter (demo_env 6) (demo_env 6) (\<lambda>_. False) (demo_ref demo_path)
      \<lparr>SR_After = int 0, SR_Limit = 0\<rparr> Map.empty =
      (ixs, Inr (page_of (sa_parse demo_adapter) (demo_ref demo_path) demo_lines 0 2 (int 2) (2 = whole_records 6 demo_lines)))"
    using session_Read_grows [where ixs = Map.empty, OF demo_good pos demo_parses demo_ref_simps(3,2) stat stat val _ le_refl le_refl le0]
    by blast
  moreover have "sa_parse demo_adapter t n \<noteq> None \<and> length (snd (the (sa_parse demo_adapter t n))) = 1" for t n
    by (simp add: demo_adapter_simps parseCodexDurableRecord_def demo_js_def demo_envelope_def demo_msg_def Let_def)
  then have "length (Page_Entries (page_of (sa_parse demo_adapter) (demo_ref demo_path) demo_lines 0 2 c e)) = 2" for c e
    by (simp add: page_of_def upt_rec numeral_2_eq_2)
  ultimately show ?thesis by (auto simp: Codex_Read_def page_of_def)
qed

theorem session_page_ok_witness:
  "\<exists>ixs page. Codex_Read demo_adapter (demo_env 6) (demo_env 6) (\<lambda>_. False) (demo_ref demo_path)
      \<lparr>SR_After = 0, SR_Limit = 0\<rparr> Map.empty = (ixs, Inr page) \<and> length (Page_RawRecords page) = 2 \<and> length (Page_Entries page) = 2 \<and> page_ok page"
  using demo_session_read session_page_ok [OF disjI1] unfolding demo_adapter_def by blast

theorem session_read_confined_witness:
  "\<exists>page d c m root r q. length (Page_RawRecords page) = 2 \<and> decoded_from (sa_parse (NewCodexSessionAdapter demo_js ''/h'' [] None)) c page \<and>
     os_Stat (demo_env 6) demo_path = Inr (d, File c m) \<and> root \<in> set (codex_roots ''/h'' [] None) \<and>
     real_path (demo_fs 6) (Clean root) = abs_path r \<and> d = r @ q"
proof -
  obtain ixs page where read: "Codex_Read (NewCodexSessionAdapter demo_js ''/h'' [] None) (demo_env 6) (demo_env 6) (\<lambda>_. False)
      (demo_ref demo_path) \<lparr>SR_After = 0, SR_Limit = 0\<rparr> Map.empty = (ixs, Inr page)" "length (Page_RawRecords page) = 2"
    using demo_session_read unfolding demo_adapter_def by blast
  have roots: "\<forall>root \<in> set (codex_roots ''/h'' [] None). is_abs root" by code_simp
  have fs: "sv_fs (demo_env 6) = demo_fs 6" by (simp add: demo_env_def)
  have "is_abs (HS_Locator (demo_ref demo_path))" "Clean (HS_Locator (demo_ref demo_path)) = HS_Locator (demo_ref demo_path)"
    by (simp_all only: demo_ref_simps(1) demo_clean)
  moreover have "only_contents (demo_fs 6) (demo_fs 6)" by (simp add: only_contents_def)
  ultimately show ?thesis
    using session_read_confined [OF read(1) demo_ref_simps(2), unfolded fs, OF _ _ demo_fs_wf roots] read(2)
    unfolding demo_ref_simps(1) by blast
qed

text \<open>
  The check of a locator is made on the path after \<open>filepath.Abs\<close> has removed dot-dot elements, but the path is opened as it is written: with a
  dot-dot element after a link the file that is opened need not be the one that was checked.
\<close>

lemma locator_up_escapes:
  "sa_validate demo_adapter (demo_env 6) ''/h/sessions/l/../a.jsonl'' = None \<and>
   os_Stat (demo_env 6) ''/h/sessions/l/../a.jsonl'' = Inr ([''x'', ''a.jsonl''], File ''{}'' 0)"
proof -
  have "Clean ''/h/sessions/l/../a.jsonl'' = demo_path" "is_abs ''/h/sessions/l/../a.jsonl''"
    "Base ''/h/sessions/l/../a.jsonl'' = Base demo_path"
    by code_simp+
  then have "sa_validate demo_adapter (demo_env 6) ''/h/sessions/l/../a.jsonl'' = None" by (rule demo_validate)
  moreover have "os_Stat (demo_env 6) ''/h/sessions/l/../a.jsonl'' = Inr ([''x'', ''a.jsonl''], File ''{}'' 0)" by code_simp
  ultimately show ?thesis ..
qed

definition demo_row :: openCodeSessionRow where
  "demo_row = \<lparr>oc_ID = ''s1'', oc_Directory = ''/w'', oc_Title = [], oc_Model = [], oc_Agent = [], oc_TimeCreated = 1, oc_TimeUpdated = 1\<rparr>"

theorem opencode_discover_blocks_witness:
  "OpenCode_Discover demo_js (demo_env 6) ''/db'' (Inr \<lparr>ocdb_session = [demo_row], ocdb_message = [], ocdb_part = []\<rparr>) False
     \<lparr>SD_Root = [], SD_Task = ''fix'', SD_StartedAt = 0, SD_NativeID = []\<rparr> = None"
proof -
  have "trim_space ''fix'' \<noteq> []" by code_simp
  moreover have "canonicalPath (demo_env 6) [] = []" by (simp add: canonicalPath_def)
  ultimately show ?thesis
    using opencode_discover_blocks [of "\<lparr>SD_Root = [], SD_Task = ''fix'', SD_StartedAt = 0, SD_NativeID = []\<rparr>" demo_row
        "\<lparr>ocdb_session = [demo_row], ocdb_message = [], ocdb_part = []\<rparr>" "demo_env 6" demo_js "''/db''" False] by simp
qed


end
