(* ===== verification/ClientState.thy ===== *)
theory ClientState
  imports Registry SessionIndex RunDurability
begin

text \<open>
  The state that a client keeps on its machine: the workspaces it is configured with (\<open>internal/config/workspaces.go\<close>), the
  path of its configuration (\<open>internal/clientconfig/config.go\<close>) and its device credentials
  (\<open>internal/clientcred/store.go\<close>).

  A Go map with string keys is a list of pairs with distinct keys.
\<close>

section \<open>Workspaces\<close>

datatype workspace_error =
    ErrWorkspacesRequired
  | ErrInvalidEntry string
  | ErrDuplicateName string
  | ErrNoWorkspace
  | ErrWritableUnknown
  | ErrNamePathRequired
  | ErrNameTooLong string
  | ErrWorkspaceAbs string
  | ErrWorkspaceStat string fs_error
  | ErrNotDirectory string

abbreviation comma :: char where "comma \<equiv> CHR 0x2C"
abbreviation equals_sign :: char where "equals_sign \<equiv> CHR 0x3D"

fun map_workspaces ::
  "fs \<Rightarrow> string option \<Rightarrow> (string \<times> string) list \<Rightarrow> (string \<times> bool) list \<Rightarrow> string list \<Rightarrow> (string \<times> string) list \<Rightarrow>
   DeviceWorkspace list \<Rightarrow> workspace_error + (string \<times> string) list \<times> DeviceWorkspace list"
where
  "map_workspaces fs cwd entries writable [] roots advertised = Inr (roots, advertised)"
| "map_workspaces fs cwd entries writable (rawName # names) roots advertised =
     (let name = trim_space rawName;
          path = trim_space (case map_of entries rawName of Some p \<Rightarrow> p | None \<Rightarrow> [])
      in if name = [] \<or> path = [] then Inl ErrNamePathRequired
         else if length name > 128 then Inl (ErrNameTooLong name)
         else if name \<noteq> rawName \<and> map_of entries name \<noteq> None then Inl (ErrDuplicateName name)
         else case Abs_path cwd path of
                None \<Rightarrow> Inl (ErrWorkspaceAbs name)
              | Some absPath \<Rightarrow>
                  (case Stat fs absPath of
                     Inl e \<Rightarrow> Inl (ErrWorkspaceStat name e)
                   | Inr nd \<Rightarrow>
                       if \<not> (case nd of Dir m \<Rightarrow> True | _ \<Rightarrow> False) then Inl (ErrNotDirectory name)
                       else if map_of roots name \<noteq> None then Inl (ErrDuplicateName name)
                       else map_workspaces fs cwd entries writable names (roots @ [(name, absPath)])
                              (advertised @ [\<lparr>wk_Name = name, wk_Path = [], wk_Writable = (map_of writable name = Some True)\<rparr>])))"

definition ParseWorkspaceMap ::
  "fs \<Rightarrow> string option \<Rightarrow> (string \<times> string) list \<Rightarrow> (string \<times> bool) list \<Rightarrow>
   workspace_error + (string \<times> string) list \<times> DeviceWorkspace list"
where
  "ParseWorkspaceMap fs cwd entries writable =
     (if entries = [] then Inl ErrNoWorkspace
      else if \<exists>w \<in> set writable. map_of entries (fst w) = None then Inl ErrWritableUnknown
      else map_workspaces fs cwd entries writable (foldr (insert_by string_less) (map fst entries) []) [] [])"

text \<open>\<open>strings.SplitN\<close> with two pieces.\<close>

definition split_first :: "char \<Rightarrow> string \<Rightarrow> (string \<times> string) option" where
  "split_first c s =
     (let a = takeWhile (\<lambda>x. x \<noteq> c) s in if length a < length s then Some (a, drop (Suc (length a)) s) else None)"

fun workspace_items :: "string list \<Rightarrow> (string \<times> string) list \<Rightarrow> workspace_error + (string \<times> string) list" where
  "workspace_items [] entries = Inr entries"
| "workspace_items (item # items) entries =
     (case split_first equals_sign (trim_space item) of
        None \<Rightarrow> Inl (ErrInvalidEntry item)
      | Some (a, b) \<Rightarrow>
          if trim_space a = [] \<or> trim_space b = [] then Inl (ErrInvalidEntry item)
          else
            let name = trim_space a
            in if map_of entries name \<noteq> None then Inl (ErrDuplicateName name)
               else workspace_items items (entries @ [(name, trim_space b)]))"

definition ParseWorkspaces ::
  "fs \<Rightarrow> string option \<Rightarrow> string \<Rightarrow> (string \<times> bool) list \<Rightarrow>
   workspace_error + (string \<times> string) list \<times> DeviceWorkspace list"
where
  "ParseWorkspaces fs cwd raw writable =
     (if trim_space raw = [] then Inl ErrWorkspacesRequired
      else case workspace_items (split_char comma raw) [] of
             Inl e \<Rightarrow> Inl e
           | Inr entries \<Rightarrow> ParseWorkspaceMap fs cwd entries writable)"

section \<open>The path of the configuration\<close>

text \<open>\<open>home\<close> is \<open>os.UserHomeDir\<close>, \<open>env\<close> the variable \<open>CODEBRIDGE_CONFIG\<close>.\<close>

definition home_or :: "string option \<Rightarrow> string \<Rightarrow> (string \<Rightarrow> string) \<Rightarrow> string" where
  "home_or home other f = (case home of Some h \<Rightarrow> if h \<noteq> [] then f h else other | None \<Rightarrow> other)"

definition expandHome :: "string option \<Rightarrow> string \<Rightarrow> string" where
  "expandHome home path =
     (if path = ''~'' \<or> has_prefix path ''~/''
      then home_or home path (\<lambda>h. if path = ''~'' then h else Join2 h (drop 2 path))
      else path)"

definition config_DefaultPath :: "string option \<Rightarrow> string" where
  "config_DefaultPath home =
     home_or home ''.codebridge-client.json'' (\<lambda>h. Join2 (Join2 (Join2 h ''.config'') ''codebridge'') ''client.json'')"

fun config_flag :: "string list \<Rightarrow> (string option) option" where
  "config_flag [] = None"
| "config_flag (arg # args) =
     (if arg = ''--config''
      then Some (case args of [] \<Rightarrow> None | v # _ \<Rightarrow> if trim_space v = [] then None else Some (trim_space v))
      else if has_prefix arg ''--config=''
      then (let v = trim_space (drop 9 arg) in Some (if v = [] then None else Some v))
      else config_flag args)"

text \<open>The path and whether the file is required; \<open>None\<close> is the error of a flag without a path.\<close>

definition ResolvePath :: "string option \<Rightarrow> string \<Rightarrow> string list \<Rightarrow> (string \<times> bool) option" where
  "ResolvePath home env args =
     (case config_flag args of
        Some None \<Rightarrow> None
      | Some (Some v) \<Rightarrow> Some (expandHome home v, True)
      | None \<Rightarrow>
          if trim_space env \<noteq> [] then Some (expandHome home (trim_space env), True)
          else Some (config_DefaultPath home, False))"

section \<open>Credentials\<close>

text \<open>
  The credential file is a content or missing. \<open>dec\<close> decodes the map of credentials, \<open>left\<close> is the map that decoding leaves behind,
  after an error too, \<open>enc\<close> encodes it. The faults of a save: the old file cannot be read, and the step (encoding, directory, writing,
  mode, renaming) at which it stops.
\<close>

type_synonym credentials = "(string \<times> string) list"

datatype save_fault = FaultMarshal | FaultMkdir | FaultWrite | FaultChmod | FaultRename

definition cred_Key :: "string \<Rightarrow> string \<Rightarrow> string" where
  "cred_Key managerURL deviceID = managerURL @ ''|'' @ deviceID"

definition cred_DefaultPath :: "string option \<Rightarrow> string" where
  "cred_DefaultPath home =
     home_or home ''.codebridge-credentials.json'' (\<lambda>h. Join2 (Join2 (Join2 h ''.config'') ''codebridge'') ''credentials.json'')"

text \<open>A key that is not there gives the empty string; the result \<open>None\<close> is an error.\<close>

definition cred_value :: "credentials \<Rightarrow> string \<Rightarrow> string" where
  "cred_value d key = (case map_of d key of Some c \<Rightarrow> c | None \<Rightarrow> [])"

definition cred_Load :: "(string \<Rightarrow> credentials option) \<Rightarrow> bool \<Rightarrow> string \<Rightarrow> string option \<Rightarrow> string option" where
  "cred_Load dec unreadable key content =
     (if unreadable then None
      else case content of
             None \<Rightarrow> Some []
           | Some b \<Rightarrow> map_option (\<lambda>d. cred_value d key) (dec b))"

definition cred_Save ::
  "(string \<Rightarrow> credentials) \<Rightarrow> (credentials \<Rightarrow> string) \<Rightarrow> bool \<Rightarrow> save_fault option \<Rightarrow> string \<Rightarrow> string \<Rightarrow> string option \<Rightarrow>
   string option \<times> bool"
where
  "cred_Save left enc unreadable fault key credential content =
     (if credential = [] then (content, True)
      else
        let d = (if unreadable then [] else case content of None \<Rightarrow> [] | Some b \<Rightarrow> left b);
            d = AList.update key credential d
        in case fault of
             Some f \<Rightarrow> (content, False)
           | None \<Rightarrow> (Some (enc d), True))"

section \<open>What is advertised\<close>

text \<open>
  The workspaces that a client advertises are exactly its roots, under their logical names and without their paths: the names are
  those of the configuration without white space around them and are distinct, each root is a directory, and a workspace is
  advertised as writable only when its name was marked.
\<close>

definition advertised_ok :: "fs \<Rightarrow> (string \<times> bool) list \<Rightarrow> (string \<times> string) list \<Rightarrow> DeviceWorkspace list \<Rightarrow> bool" where
  "advertised_ok fs writable roots advertised \<longleftrightarrow>
     map wk_Name advertised = map fst roots \<and> distinct (map fst roots) \<and>
     (\<forall>w \<in> set advertised. wk_Path w = [] \<and> (wk_Writable w \<longrightarrow> (wk_Name w, True) \<in> set writable)) \<and>
     (\<forall>r \<in> set roots. fst r \<noteq> [] \<and> length (fst r) \<le> 128 \<and> (\<exists>m. Stat fs (snd r) = Inr (Dir m)))"

lemma map_workspaces_ok:
  "map_workspaces fs cwd entries writable names roots advertised = Inr (roots', advertised') \<Longrightarrow>
   advertised_ok fs writable roots advertised \<Longrightarrow>
   advertised_ok fs writable roots' advertised' \<and> map fst roots' = map fst roots @ map trim_space names"
proof (induction fs cwd entries writable names roots advertised rule: map_workspaces.induct)
  case (2 fs cwd entries writable rawName names roots advertised)
  define name where "name = trim_space rawName"
  define path where "path = trim_space (case map_of entries rawName of Some p \<Rightarrow> p | None \<Rightarrow> [])"
  have guards: "\<not> (name = [] \<or> path = [])" "\<not> length name > 128" "\<not> (name \<noteq> rawName \<and> map_of entries name \<noteq> None)"
    using 2(2) by (auto simp: Let_def name_def path_def split: if_splits)
  obtain r m where r: "Abs_path cwd path = Some r" "Stat fs r = Inr (Dir m)" "map_of roots name = None"
    using 2(2) guards unfolding map_workspaces.simps(2) Let_def name_def [symmetric] path_def [symmetric]
    by (auto split: option.splits sum.splits node.splits if_splits)
  have "advertised_ok fs writable (roots @ [(name, r)])
      (advertised @ [\<lparr>wk_Name = name, wk_Path = [], wk_Writable = (map_of writable name = Some True)\<rparr>])"
    using 2(3) guards r by (auto simp: advertised_ok_def map_of_eq_None_iff dest: map_of_SomeD)
  moreover have "map_workspaces fs cwd entries writable names (roots @ [(name, r)])
      (advertised @ [\<lparr>wk_Name = name, wk_Path = [], wk_Writable = (map_of writable name = Some True)\<rparr>]) = Inr (roots', advertised')"
    using 2(2) guards r unfolding map_workspaces.simps(2) Let_def name_def [symmetric] path_def [symmetric]
    by (cases "name = rawName") auto
  ultimately show ?case
    using 2(1) [OF name_def path_def guards r(1,2)] r(3) by (simp add: name_def)
qed simp

theorem workspaces_advertised:
  assumes "ParseWorkspaceMap fs cwd entries writable = Inr (roots, advertised)"
  shows "advertised_ok fs writable roots advertised \<and> mset (map fst roots) = mset (map (trim_space \<circ> fst) entries)"
proof -
  let ?names = "foldr (insert_by string_less) (map fst entries) []"
  have "advertised_ok fs writable [] []" by (simp add: advertised_ok_def)
  moreover have "map_workspaces fs cwd entries writable ?names [] [] = Inr (roots, advertised)"
    using assms by (simp add: ParseWorkspaceMap_def split: if_splits)
  ultimately have "advertised_ok fs writable roots advertised \<and> map fst roots = map trim_space ?names"
    using map_workspaces_ok by fastforce
  then show ?thesis by (metis list.map_comp mset_insert_all mset_map)
qed

section \<open>Reading back\<close>

text \<open>White space of texts with a separator in them.\<close>

lemma ws_free: "\<forall>w \<in> set ws_encodings. comma \<notin> set w \<and> equals_sign \<notin> set w"
  by (simp add: ws_encodings_def)

lemma ws_0_iff: "ws_front s = 0 \<longleftrightarrow> (\<forall>w \<in> set ws_encodings. \<not> has_prefix s w)"
  "ws_back s = 0 \<longleftrightarrow> (\<forall>w \<in> set ws_encodings. \<not> has_suffix s w)"
proof -
  have "\<forall>w \<in> set ws_encodings. w \<noteq> []" by (simp add: ws_encodings_def)
  then show "ws_front s = 0 \<longleftrightarrow> (\<forall>w \<in> set ws_encodings. \<not> has_prefix s w)"
    "ws_back s = 0 \<longleftrightarrow> (\<forall>w \<in> set ws_encodings. \<not> has_suffix s w)"
    by (auto simp: ws_front_def ws_back_def find_None_iff find_Some_iff split: option.splits)
qed

lemma has_prefix_split: "has_prefix (n @ c # r) w \<Longrightarrow> c \<notin> set w \<Longrightarrow> has_prefix n w"
  by (auto simp: has_prefix_iff append_eq_append_conv2 Cons_eq_append_conv)

lemma has_suffix_iff: "has_suffix s p \<longleftrightarrow> (\<exists>t. s = t @ p)"
  by (auto simp: has_suffix_def) (metis append_take_drop_id)

lemma has_suffix_split: "has_suffix (n @ c # r) w \<Longrightarrow> c \<notin> set w \<Longrightarrow> has_suffix r w"
  by (auto simp: has_suffix_iff append_eq_append_conv2 Cons_eq_append_conv append_eq_Cons_conv)

lemma trim_separated:
  assumes "trim_space n = n" "n \<noteq> []" and "trim_space r = r" "r \<noteq> []" and "c = comma \<or> c = equals_sign"
  shows "trim_space (n @ c # r) = n @ c # r"
proof -
  have "ws_front (n @ c # r) = 0" "ws_back (n @ c # r) = 0"
    using trim_fixed [OF assms(1,2)] trim_fixed [OF assms(3,4)] assms(5) ws_free has_prefix_split has_suffix_split
    unfolding ws_0_iff by metis+
  then show ?thesis by (simp add: trim_space_def trim_left.simps [of "n @ c # r"] trim_right.simps [of "n @ c # r"])
qed

definition plain_entry :: "string \<times> string \<Rightarrow> bool" where
  "plain_entry e \<longleftrightarrow>
     trim_space (fst e) = fst e \<and> fst e \<noteq> [] \<and> comma \<notin> set (fst e) \<and> equals_sign \<notin> set (fst e) \<and>
     trim_space (snd e) = snd e \<and> snd e \<noteq> [] \<and> comma \<notin> set (snd e)"

definition entry_text :: "string \<times> string \<Rightarrow> string" where
  "entry_text e = fst e @ equals_sign # snd e"

lemma split_first_at: "c \<notin> set a \<Longrightarrow> split_first c (a @ c # b) = Some (a, b)"
  by (simp add: split_first_def Let_def takeWhile_append)

lemma workspace_items_plain:
  assumes "\<forall>e \<in> set entries. plain_entry e" and "distinct (map fst (pre @ entries))"
  shows "workspace_items (map entry_text entries) pre = Inr (pre @ entries)"
  using assms
proof (induction entries arbitrary: pre)
  case (Cons e entries)
  then have e: "trim_space (fst e) = fst e" "fst e \<noteq> []" "equals_sign \<notin> set (fst e)" "trim_space (snd e) = snd e" "snd e \<noteq> []"
    by (auto simp: plain_entry_def)
  then have "trim_space (entry_text e) = fst e @ equals_sign # snd e" unfolding entry_text_def by (intro trim_separated) auto
  moreover have "map_of pre (fst e) = None" using Cons.prems(2) by (auto simp: map_of_eq_None_iff)
  moreover have "workspace_items (map entry_text entries) (pre @ [e]) = Inr ((pre @ [e]) @ entries)"
    using Cons.prems by (intro Cons.IH) auto
  ultimately show ?case using e by (cases e) (simp add: split_first_at)
qed simp

lemma join_trim:
  assumes "es \<noteq> []" and "\<forall>e \<in> set es. plain_entry e"
  shows "trim_space (join_char comma (map entry_text es)) = join_char comma (map entry_text es) \<and>
    join_char comma (map entry_text es) \<noteq> []"
  using assms
proof (induction es rule: induct_list012)
  case (2 e)
  then show ?case by (auto simp: plain_entry_def entry_text_def intro!: trim_separated)
next
  case (3 e e' es)
  have "trim_space (entry_text e) = entry_text e" "entry_text e \<noteq> []"
    using 3(4) by (auto simp: plain_entry_def entry_text_def intro!: trim_separated)
  then show ?case using 3 by (auto intro!: trim_separated)
qed simp

text \<open>
  A list of workspaces whose names and paths have no separators and no white space around them is read back from its text as it
  was, so both forms of the configuration mean the same.
\<close>

theorem workspaces_roundtrip:
  assumes "entries \<noteq> []" and plain: "\<forall>e \<in> set entries. plain_entry e" and "distinct (map fst entries)"
  shows "ParseWorkspaces fs cwd (join_char comma (map entry_text entries)) writable = ParseWorkspaceMap fs cwd entries writable"
proof -
  have "split_char comma (join_char comma (map entry_text entries)) = map entry_text entries"
    using assms(1) plain by (intro split_join) (auto simp: plain_entry_def entry_text_def)
  moreover have "workspace_items (map entry_text entries) [] = Inr entries"
    using workspace_items_plain [of entries "[]"] plain assms(3) by simp
  ultimately show ?thesis using join_trim [OF assms(1) plain] by (simp add: ParseWorkspaces_def)
qed

text \<open>
  A credential that was saved is loaded again, and the other credentials of a readable file stay; a save that fails, wherever it
  stops, changes no credential.
\<close>

theorem credential_kept:
  assumes codec: "\<And>d. dec (enc d) = Some d" and left: "\<And>b d. dec b = Some d \<Longrightarrow> left b = d"
    and save: "cred_Save left enc unreadable fault key credential content = (content', ok)"
  shows "ok \<and> credential \<noteq> [] \<Longrightarrow> cred_Load dec False key content' = Some credential"
    and "\<not> unreadable \<Longrightarrow> cred_Load dec False other content = Some c \<Longrightarrow> other \<noteq> key \<Longrightarrow> cred_Load dec False other content' = Some c"
    and "\<not> ok \<Longrightarrow> content' = content"
proof -
  have upd: "cred_value (AList.update key credential d) k = (if k = key then credential else cred_value d k)" for d k
    by (simp add: cred_value_def update_conv)
  show "ok \<and> credential \<noteq> [] \<Longrightarrow> cred_Load dec False key content' = Some credential"
    using save codec upd [of _ key]
    by (auto simp: cred_Save_def cred_Load_def Let_def simp del: AList.update.simps split: if_splits option.splits)
  show "cred_Load dec False other content' = Some c"
    if "\<not> unreadable" "cred_Load dec False other content = Some c" "other \<noteq> key"
  proof (cases "credential = [] \<or> fault \<noteq> None")
    case True
    then show ?thesis using save that by (auto simp: cred_Save_def Let_def split: if_splits option.splits)
  next
    case False
    then have "content' = Some (enc (AList.update key credential (case content of None \<Rightarrow> [] | Some b \<Rightarrow> left b)))"
      using save that(1) by (simp add: cred_Save_def Let_def)
    then show ?thesis using that codec upd [of _ other] left
      by (cases content) (auto simp: cred_Load_def cred_value_def [of "[]"] simp del: AList.update.simps)
  qed
  show "\<not> ok \<Longrightarrow> content' = content"
    using save by (auto simp: cred_Save_def Let_def split: if_splits option.splits)
qed

end
