(* ===== verification/CallLog.thy ===== *)
theory CallLog
  imports ClientState
begin

text \<open>
  The call log of the manager (\<open>internal/mcpcallstore/store.go\<close>): tool calls in a database, filtered, paged and summed for the
  console, and pruned by age.

  \<open>clk\<close> holds the text of an instant (\<open>Format\<close> with \<open>RFC3339Nano\<close>) and its reading; \<open>like\<close> is the operator \<open>LIKE\<close> of
  SQLite. The database orders texts by their bytes. A store that is not configured is \<open>None\<close>; queries on an open
  database do not fail.
\<close>

record Call =
  Call_Time :: gotime
  Call_RequestID :: string
  Call_ActorID :: string
  Call_Tool :: string
  Call_DeviceID :: string
  Call_Workspace :: string
  Call_Success :: bool
  Call_DurationMS :: int
  Call_ErrorKind :: string
  Call_ArgsJSON :: string

record call_filter =
  Filter_Tool :: string
  Filter_ActorID :: string
  Filter_DeviceID :: string
  Filter_Workspace :: string
  Filter_Query :: string
  Filter_Success :: "bool option"
  Filter_Since :: gotime
  Filter_Until :: gotime
  Filter_Limit :: int
  Filter_Offset :: int

record call_stats =
  Stats_Total :: int
  Stats_Failed :: int
  Stats_AvgMS :: int
  Stats_TotalMS :: int

record time_text =
  tt_format :: "gotime \<Rightarrow> string"
  tt_parse :: "string \<Rightarrow> gotime option"

text \<open>A row: the columns of \<open>mcp_calls\<close>; the identifier is the place in the list, since rows are appended and identifiers only grow.\<close>

record call_row =
  cr_time :: string
  cr_request_id :: string
  cr_actor_id :: string
  cr_tool :: string
  cr_device_id :: string
  cr_workspace :: string
  cr_success :: int
  cr_duration_ms :: int
  cr_error_kind :: string
  cr_args :: string

type_synonym call_store = "call_row list option"

abbreviation maxArgsBytes :: nat where "maxArgsBytes \<equiv> 16 * 1024"

definition truncateArgs :: "string \<Rightarrow> string" where
  "truncateArgs args = (if length args \<le> maxArgsBytes then args else take maxArgsBytes args @ ellipsis @ ''(truncated)'')"

definition call_boolToInt :: "bool \<Rightarrow> int" where
  "call_boolToInt b = (if b then 1 else 0)"

definition row_of :: "time_text \<Rightarrow> Call \<Rightarrow> call_row" where
  "row_of clk call =
     \<lparr>cr_time = tt_format clk (Call_Time call), cr_request_id = Call_RequestID call, cr_actor_id = Call_ActorID call,
      cr_tool = Call_Tool call, cr_device_id = Call_DeviceID call, cr_workspace = Call_Workspace call,
      cr_success = call_boolToInt (Call_Success call), cr_duration_ms = Call_DurationMS call,
      cr_error_kind = Call_ErrorKind call, cr_args = truncateArgs (Call_ArgsJSON call)\<rparr>"

definition call_Insert :: "time_text \<Rightarrow> Call \<Rightarrow> call_store \<Rightarrow> call_store" where
  "call_Insert clk call s = map_option (\<lambda>rows. rows @ [row_of clk call]) s"

text \<open>The rows that \<open>filterSQL\<close> selects; \<open>time >= ?\<close> is that the row's text is not less.\<close>

definition filterSQL :: "time_text \<Rightarrow> (string \<Rightarrow> string \<Rightarrow> bool) \<Rightarrow> call_filter \<Rightarrow> call_row \<Rightarrow> bool" where
  "filterSQL clk like f r \<longleftrightarrow>
     (Filter_Tool f \<noteq> [] \<longrightarrow> cr_tool r = Filter_Tool f) \<and>
     (Filter_ActorID f \<noteq> [] \<longrightarrow> cr_actor_id r = Filter_ActorID f) \<and>
     (Filter_DeviceID f \<noteq> [] \<longrightarrow> cr_device_id r = Filter_DeviceID f) \<and>
     (Filter_Workspace f \<noteq> [] \<longrightarrow> cr_workspace r = Filter_Workspace f) \<and>
     (case Filter_Success f of Some b \<Rightarrow> cr_success r = call_boolToInt b | None \<Rightarrow> True) \<and>
     (\<not> is_zero (Filter_Since f) \<longrightarrow> \<not> string_less (cr_time r) (tt_format clk (Filter_Since f))) \<and>
     (\<not> is_zero (Filter_Until f) \<longrightarrow> \<not> string_less (tt_format clk (Filter_Until f)) (cr_time r)) \<and>
     (let q = trim_space (Filter_Query f); pat = ''%'' @ q @ ''%''
      in q \<noteq> [] \<longrightarrow> (\<exists>col \<in> {cr_tool r, cr_device_id r, cr_workspace r, cr_request_id r, cr_actor_id r, cr_error_kind r}.
           like col pat))"

definition call_of :: "time_text \<Rightarrow> call_row \<Rightarrow> Call" where
  "call_of clk r =
     \<lparr>Call_Time = (case tt_parse clk (cr_time r) of Some t \<Rightarrow> t | None \<Rightarrow> zero_time), Call_RequestID = cr_request_id r,
      Call_ActorID = cr_actor_id r, Call_Tool = cr_tool r, Call_DeviceID = cr_device_id r, Call_Workspace = cr_workspace r,
      Call_Success = (cr_success r \<noteq> 0), Call_DurationMS = cr_duration_ms r, Call_ErrorKind = cr_error_kind r,
      Call_ArgsJSON = cr_args r\<rparr>"

text \<open>The average is cut off towards zero, as the cast of SQLite does.\<close>

definition trunc_div :: "int \<Rightarrow> int \<Rightarrow> int" where
  "trunc_div a b = sgn a * (\<bar>a\<bar> div b)"

definition stats_of :: "call_row list \<Rightarrow> call_stats" where
  "stats_of rows =
     \<lparr>Stats_Total = int (length rows), Stats_Failed = int (length (filter (\<lambda>r. cr_success r = 0) rows)),
      Stats_AvgMS = (if rows = [] then 0 else trunc_div (sum_list (map cr_duration_ms rows)) (int (length rows))),
      Stats_TotalMS = sum_list (map cr_duration_ms rows)\<rparr>"

definition call_limit :: "int \<Rightarrow> nat" where
  "call_limit limit = nat (if limit \<le> 0 \<or> limit > 500 then 100 else limit)"

definition call_List ::
  "time_text \<Rightarrow> (string \<Rightarrow> string \<Rightarrow> bool) \<Rightarrow> call_filter \<Rightarrow> call_store \<Rightarrow> (Call list \<times> call_stats) option"
where
  "call_List clk like f s =
     (case s of
        None \<Rightarrow> None
      | Some rows \<Rightarrow>
          let matched = filter (filterSQL clk like f) rows;
              offset = (if Filter_Offset f < 0 then 0 else Filter_Offset f)
          in Some (map (call_of clk) (take (call_limit (Filter_Limit f)) (drop (nat offset) (rev matched))), stats_of matched))"

definition call_Prune :: "time_text \<Rightarrow> gotime \<Rightarrow> call_store \<Rightarrow> call_store \<times> int" where
  "call_Prune clk olderThan s =
     (case s of
        None \<Rightarrow> (None, 0)
      | Some rows \<Rightarrow>
          let old = (\<lambda>r. string_less (cr_time r) (tt_format clk olderThan))
          in (Some (filter (\<lambda>r. \<not> old r) rows), int (length (filter old rows))))"

section \<open>Properties\<close>

text \<open>The texts of instants are read back.\<close>

definition time_text_ok :: "time_text \<Rightarrow> bool" where
  "time_text_ok clk \<longleftrightarrow> (\<forall>t. tt_parse clk (tt_format clk t) = Some t)"

lemma call_of_row: "time_text_ok clk \<Longrightarrow> call_of clk (row_of clk c) = c\<lparr>Call_ArgsJSON := truncateArgs (Call_ArgsJSON c)\<rparr>"
  by (simp add: call_of_def row_of_def time_text_ok_def call_boolToInt_def)

text \<open>
  The console's pages: the calls that were inserted and match, newest first, with their arguments cut off, page after page without a
  gap or a repetition; the totals are those of all matching calls, whatever the page.
\<close>

definition call_log :: "time_text \<Rightarrow> Call list \<Rightarrow> call_store" where
  "call_log clk calls = foldl (\<lambda>s c. call_Insert clk c s) (Some []) calls"

lemma call_log_rows: "call_log clk calls = Some (map (row_of clk) calls)"
  by (induction calls rule: rev_induct) (simp_all add: call_log_def call_Insert_def)

fun call_pages :: "time_text \<Rightarrow> (string \<Rightarrow> string \<Rightarrow> bool) \<Rightarrow> call_filter \<Rightarrow> call_store \<Rightarrow> nat \<Rightarrow> Call list" where
  "call_pages clk like f s 0 = []"
| "call_pages clk like f s (Suc n) =
     call_pages clk like f s n @
     (case call_List clk like (f\<lparr>Filter_Offset := int (n * call_limit (Filter_Limit f))\<rparr>) s of
        Some (page, st) \<Rightarrow> page
      | None \<Rightarrow> [])"

lemma filterSQL_offset: "filterSQL clk like (f\<lparr>Filter_Offset := n\<rparr>) = filterSQL clk like f"
  by (simp add: fun_eq_iff filterSQL_def)

theorem call_pages_complete:
  assumes "time_text_ok clk" and "length calls \<le> n * call_limit (Filter_Limit f)"
  shows "call_pages clk like f (call_log clk calls) n =
    map (\<lambda>c. c\<lparr>Call_ArgsJSON := truncateArgs (Call_ArgsJSON c)\<rparr>) (rev (filter (filterSQL clk like f \<circ> row_of clk) calls))"
proof -
  let ?rows = "rev (filter (filterSQL clk like f) (map (row_of clk) calls))"
  have pages: "call_pages clk like f (call_log clk calls) k = map (call_of clk) (take (k * call_limit (Filter_Limit f)) ?rows)" for k
  proof (induction k)
    case (Suc k)
    then show ?case
      by (simp add: call_log_rows call_List_def Let_def filterSQL_offset take_add add.commute [of "call_limit _"]
        del: of_nat_mult)
  qed simp
  have "length ?rows \<le> n * call_limit (Filter_Limit f)"
    unfolding filter_map length_rev length_map by (rule le_trans [OF length_filter_le assms(2)])
  then show ?thesis using call_of_row [OF assms(1)]
    by (simp add: pages filter_map rev_map o_def)
qed

text \<open>
  Pruning compares texts. A text without a fraction of a second ends where another has a point, and the point comes before the
  letter Z, so a call of a full second is kept although it is older than an instant within the same second.
\<close>

lemma prune_keeps_older:
  assumes "tt_format clk t = s @ ''Z''" and "tt_format clk t' = s @ ''.5Z''"
  shows "call_Prune clk t' (Some [row_of clk (c\<lparr>Call_Time := t\<rparr>)]) = (Some [row_of clk (c\<lparr>Call_Time := t\<rparr>)], 0)"
proof -
  have "\<not> string_less (u @ ''Z'') (u @ ''.5Z'')" for u by (induction u) auto
  then show ?thesis using assms by (simp add: call_Prune_def row_of_def)
qed

end
